(* ===== verification/Hal_Prelude.thy ===== *)
theory Hal_Prelude
  imports Main "HOL-Library.Word" "HOL-Library.AList" "HOL-Library.Sublist"
begin

text \<open>
  Shared vocabulary of the development: the machine integer types the daemon uses, C strings and
  the string functions of the C library the sources call, decimal printing and parsing of integers,
  the emission traces of GObject signals, and the collections of rewrite rules the component
  theories extend.

  A C string is a \<^typ>\<open>string\<close> without its terminating NUL; a pointer to a string that
  may be \<open>NULL\<close> is a \<^typ>\<open>string option\<close>. A character is a byte.
\<close>

named_theorems fuel_free \<open>computations that do not run out of fuel\<close>

type_synonym int32 = "32 word"
type_synonym uint32 = "32 word"
type_synonym int64 = "64 word"
type_synonym uint64 = "64 word"

section \<open>Association lists standing for hash tables\<close>

text \<open>
  A \<open>GHashTable\<close> is an association list with distinct keys: \<open>g_hash_table_lookup\<close> is
  \<^const>\<open>map_of\<close>, \<open>g_hash_table_insert\<close> is \<^const>\<open>AList.update\<close> and
  \<open>g_hash_table_remove\<close> is \<^const>\<open>AList.delete\<close>. The order of the list plays the part of
  the iteration order of the table, which the library leaves open.
\<close>

lemma map_of_update_same [simp]: "map_of (AList.update k v al) k = Some v"
  by (simp add: AList.update_conv')

lemma map_of_update_other: "k' \<noteq> k \<Longrightarrow> map_of (AList.update k v al) k' = map_of al k'"
  by (simp add: AList.update_conv')

lemma map_of_delete_same [simp]: "map_of (AList.delete k al) k = None"
  by (simp add: AList.delete_conv')

lemma map_of_delete_other: "k' \<noteq> k \<Longrightarrow> map_of (AList.delete k al) k' = map_of al k'"
  by (simp add: AList.delete_conv')

lemma map_of_eqI_ran:
  assumes "distinct (map fst al)" and "(k, v) \<in> set al"
  shows "map_of al k = Some v"
  using assms by simp

lemma keys_update_subset: "fst ` set (AList.update k v al) = insert k (fst ` set al)"
  by (induction al) auto

lemma keys_delete: "fst ` set (AList.delete k al) = fst ` set al - {k}"
  by (auto simp: AList.delete_eq)

lemma in_set_updateD: "(k', q) \<in> set (AList.update k p al) \<Longrightarrow> (k', q) = (k, p) \<or> (k', q) \<in> set al"
  by (induction al) (auto split: if_splits)

lemma length_update_new: "map_of al k = None \<Longrightarrow> length (AList.update k v al) = Suc (length al)"
  by (induction al) auto

lemma length_update_old: "map_of al k = Some w \<Longrightarrow> length (AList.update k v al) = length al"
  by (induction al) (auto split: if_splits)

lemma delete_notin: "map_of al k = None \<Longrightarrow> AList.delete k al = al"
  by (induction al) (auto split: if_splits)

section \<open>Strings of the C library\<close>

text \<open>\<open>strcmp\<close>: the sign of the comparison of the strings as sequences of unsigned bytes.\<close>

fun strcmp :: "string \<Rightarrow> string \<Rightarrow> int" where
  "strcmp [] [] = 0"
| "strcmp [] (_ # _) = -1"
| "strcmp (_ # _) [] = 1"
| "strcmp (a # as) (b # bs) =
     (if (of_char a :: nat) < of_char b then -1
      else if (of_char b :: nat) < of_char a then 1
      else strcmp as bs)"

lemma strcmp_eq_0 [simp]: "strcmp s t = 0 \<longleftrightarrow> s = t"
  by (induction s t rule: strcmp.induct) (auto simp: linorder_not_less)

lemma strcmp_sym: "strcmp t s = - strcmp s t"
  by (induction s t rule: strcmp.induct) auto

lemma strcmp_refl: "strcmp s s = 0"
  by simp

text \<open>\<open>strncmp (s, t, n) == 0\<close>: the strings agree up to their first \<open>n\<close> bytes.\<close>

definition strncmp_eq :: "string \<Rightarrow> string \<Rightarrow> nat \<Rightarrow> bool" where
  "strncmp_eq s t n \<longleftrightarrow> take n s = take n t"

lemma strncmp_eq_prefix: "strncmp_eq s t (length t) \<longleftrightarrow> prefix t s"
  by (auto simp: strncmp_eq_def prefix_def) (metis append_take_drop_id)

text \<open>\<open>strstr (haystack, needle) != NULL\<close>.\<close>

fun strstr :: "string \<Rightarrow> string \<Rightarrow> bool" where
  "strstr [] needle = (needle = [])"
| "strstr (c # cs) needle = (prefix needle (c # cs) \<or> strstr cs needle)"

lemma strstr_sublist: "strstr hay needle \<longleftrightarrow> sublist needle hay"
  by (induction hay needle rule: strstr.induct) (auto simp: sublist_Cons_right)

text \<open>The size of the path buffers of the daemon.\<close>

definition HAL_PATH_MAX :: nat where
  "HAL_PATH_MAX = 512"

text \<open>\<open>snprintf\<close> into a buffer of \<open>n\<close> bytes keeps at most \<open>n - 1\<close> characters.\<close>

definition snprintf :: "nat \<Rightarrow> string \<Rightarrow> string" where
  "snprintf n s = take (n - 1) s"

lemma snprintf_fits: "length s < n \<Longrightarrow> snprintf n s = s"
  by (simp add: snprintf_def)

text \<open>
  \<open>strncpy\<close> into a buffer of \<open>n\<close> bytes. When the source does not fit together with its NUL the
  buffer is left without a terminator, and the next read of it as a string runs past its end:
  \<^const>\<open>None\<close>.
\<close>

definition strncpy :: "nat \<Rightarrow> string \<Rightarrow> string option" where
  "strncpy n s = (if length s < n then Some s else None)"

lemma strncpy_Some [simp]: "strncpy n s = Some t \<longleftrightarrow> length s < n \<and> t = s"
  by (auto simp: strncpy_def)

text \<open>Comparison without regard to the case of ASCII letters.\<close>

definition to_lower :: "char \<Rightarrow> char" where
  "to_lower c = (let b = (of_char c :: int) in if 65 \<le> b \<and> b \<le> 90 then char_of (b + 32) else c)"

definition strcasecmp_eq :: "string \<Rightarrow> string \<Rightarrow> bool" where
  "strcasecmp_eq s t \<longleftrightarrow> map to_lower s = map to_lower t"

section \<open>Printing integers\<close>

definition digit_char :: "int \<Rightarrow> char" where
  "digit_char d = char_of (48 + d)"

function nat_to_string :: "int \<Rightarrow> string" where
  "nat_to_string n =
     (if n < 10 then [digit_char n] else nat_to_string (n div 10) @ [digit_char (n mod 10)])"
  by pat_completeness auto
termination
  by (relation "measure nat") auto

declare nat_to_string.simps [simp del]

definition int_to_string :: "int \<Rightarrow> string" where
  "int_to_string i = (if i < 0 then CHR ''-'' # nat_to_string (- i) else nat_to_string i)"

section \<open>Parsing integers: strtol with base 0\<close>

definition is_space :: "char \<Rightarrow> bool" where
  "is_space c \<longleftrightarrow> (of_char c :: nat) = 32 \<or> (9 \<le> (of_char c :: nat) \<and> (of_char c :: nat) \<le> 13)"

definition digit_value :: "char \<Rightarrow> int option" where
  "digit_value c =
     (let b = (of_char c :: int)
      in if 48 \<le> b \<and> b \<le> 57 then Some (b - 48)
         else if 97 \<le> b \<and> b \<le> 122 then Some (b - 87)
         else if 65 \<le> b \<and> b \<le> 90 then Some (b - 55)
         else None)"

fun parse_digits :: "int \<Rightarrow> int \<Rightarrow> string \<Rightarrow> int" where
  "parse_digits base acc [] = acc"
| "parse_digits base acc (c # cs) =
     (case digit_value c of
        Some v \<Rightarrow> if v < base then parse_digits base (acc * base + v) cs else acc
      | None \<Rightarrow> acc)"

text \<open>The prefix selects the base: \<open>0x\<close> and a hex digit is base 16, \<open>0\<close> is base 8, else 10.\<close>

fun parse_prefixed :: "string \<Rightarrow> int" where
  "parse_prefixed (z # x # h # cs) =
     (if z = CHR ''0'' \<and> (x = CHR ''x'' \<or> x = CHR ''X'') \<and>
         (case digit_value h of Some v \<Rightarrow> v < 16 | None \<Rightarrow> False)
      then parse_digits 16 0 (h # cs)
      else if z = CHR ''0'' then parse_digits 8 0 (z # x # h # cs)
      else parse_digits 10 0 (z # x # h # cs))"
| "parse_prefixed (z # cs) =
     (if z = CHR ''0'' then parse_digits 8 0 (z # cs) else parse_digits 10 0 (z # cs))"
| "parse_prefixed [] = 0"

fun parse_sign :: "string \<Rightarrow> bool \<times> string" where
  "parse_sign [] = (False, [])"
| "parse_sign (c # cs) =
     (if c = CHR ''-'' then (True, cs) else if c = CHR ''+'' then (False, cs) else (False, c # cs))"

definition parse_int :: "string \<Rightarrow> bool \<times> int" where
  "parse_int s = (let (neg, r) = parse_sign (dropWhile is_space s) in (neg, parse_prefixed r))"

text \<open>
  \<open>strtol\<close> and \<open>strtoll\<close> (64 bits wide) saturate at the ends of the signed range;
  \<open>strtoull\<close> saturates at the top and negates modulo \<open>2 ^ 64\<close> after a minus sign.
\<close>

definition strtoll :: "string \<Rightarrow> int" where
  "strtoll s =
     (let (neg, m) = parse_int s; v = (if neg then - m else m)
      in max (- (2 ^ 63)) (min (2 ^ 63 - 1) v))"

definition strtoull :: "string \<Rightarrow> uint64" where
  "strtoull s =
     (let (neg, m) = parse_int s
      in if 2 ^ 64 \<le> m then - 1 else if neg then - of_int m else of_int m)"

lemma strtoll_range: "- (2 ^ 63) \<le> strtoll s \<and> strtoll s < 2 ^ 63"
  by (auto simp: strtoll_def split: prod.splits)

section \<open>Splitting: g_strsplit\<close>

text \<open>
  \<open>g_strsplit (s, sep, max)\<close> for a one-character separator: at most \<open>max\<close> pieces, the last
  one holding the rest of the string unsplit; \<open>max = 0\<close> is no limit. The empty string gives the
  empty vector.
\<close>

fun split_all :: "char \<Rightarrow> string \<Rightarrow> string list" where
  "split_all sep [] = [[]]"
| "split_all sep (c # cs) =
     (if c = sep then [] # split_all sep cs
      else (case split_all sep cs of p # ps \<Rightarrow> (c # p) # ps | [] \<Rightarrow> [[c]]))"

fun join :: "char \<Rightarrow> string list \<Rightarrow> string" where
  "join sep [] = []"
| "join sep [p] = p"
| "join sep (p # q # ps) = p @ sep # join sep (q # ps)"

definition g_strsplit :: "string \<Rightarrow> char \<Rightarrow> nat \<Rightarrow> string list" where
  "g_strsplit s sep max_tokens =
     (if s = [] then []
      else let ps = split_all sep s
           in if max_tokens = 0 \<or> length ps \<le> max_tokens then ps
              else take (max_tokens - 1) ps @ [join sep (drop (max_tokens - 1) ps)])"

lemma split_all_not_Nil [simp]: "split_all sep s \<noteq> []"
  by (induction s) (auto split: list.splits)

lemma join_Cons_head: "join sep ((c # p) # ps) = c # join sep (p # ps)"
  by (cases ps) auto

lemma join_split_all: "join sep (split_all sep s) = s"
proof (induction s)
  case (Cons c s)
  then show ?case
    by (cases "split_all sep s") (auto simp: join_Cons_head)
qed simp

lemma split_all_no_sep: "p \<in> set (split_all sep s) \<Longrightarrow> sep \<notin> set p"
proof (induction s arbitrary: p)
  case (Cons c s)
  then show ?case
    by (cases "split_all sep s") (auto split: if_splits)
qed simp

lemma split_all_append: "sep \<notin> set p \<Longrightarrow> split_all sep (p @ sep # s) = p # split_all sep s"
  by (induction p) auto

lemma split_all_single: "sep \<notin> set s \<Longrightarrow> split_all sep s = [s]"
  by (induction s) auto

section \<open>Errors as values\<close>

text \<open>
  What C leaves undefined, or what stops the process, is an error value: reading memory that has
  been freed, following \<open>NULL\<close>, running past the end of a buffer, overflowing a signed integer,
  converting a floating-point value that does not fit, reading a variable that was not set, releasing
  something that is not what the releasing function takes (\<open>Bad_Object\<close>). \<open>Fatal\<close> is an exit the daemon chooses (\<open>DIE\<close>). \<open>Out_Of_Fuel\<close> is not an event of the program: it marks that
  the bound given to the model of a loop was too small.
\<close>

datatype memory_error = Use_After_Free | Null_Dereference | Buffer_Overrun | Signed_Overflow | Bad_Conversion | Uninitialised |
    Fatal | Bad_Object | Out_Of_Fuel

fun err_bind :: "'e + 'a \<Rightarrow> ('a \<Rightarrow> 'e + 'b) \<Rightarrow> 'e + 'b" where
  "err_bind (Inl e) f = Inl e"
| "err_bind (Inr x) f = f x"

fun err_fold :: "('x \<Rightarrow> 's \<Rightarrow> 'e + 's) \<Rightarrow> 'x list \<Rightarrow> 's \<Rightarrow> 'e + 's" where
  "err_fold f [] s = Inr s"
| "err_fold f (x # xs) s = err_bind (f x s) (err_fold f xs)"

lemma err_bind_assoc: "err_bind (err_bind m f) g = err_bind m (\<lambda>x. err_bind (f x) g)"
  by (cases m) simp_all

lemma err_bind_Inr [simp]: "err_bind m f = Inr y \<longleftrightarrow> (\<exists>x. m = Inr x \<and> f x = Inr y)"
  by (cases m) auto

lemma err_bind_Inl: "err_bind m f = Inl e \<longleftrightarrow> m = Inl e \<or> (\<exists>x. m = Inr x \<and> f x = Inl e)"
  by (cases m) auto

text \<open>Invariants of a fold that stops at the first error.\<close>

lemma err_fold_inv:
  assumes "err_fold f xs s = Inr s'" and "P s"
    and "\<And>x s s'. x \<in> set xs \<Longrightarrow> P s \<Longrightarrow> f x s = Inr s' \<Longrightarrow> P s'"
  shows "P s'"
  using assms
proof (induction xs arbitrary: s)
  case (Cons x xs)
  from Cons.prems(1) obtain s1 where s1: "f x s = Inr s1" "err_fold f xs s1 = Inr s'" by auto
  have "P s1" by (rule Cons.prems(3) [OF _ Cons.prems(2) s1(1)]) simp
  then show ?case using Cons.IH [OF s1(2)] Cons.prems(3) by (metis list.set_intros(2))
qed simp

lemma err_fold_append: "err_fold f (xs @ ys) s = err_bind (err_fold f xs s) (err_fold f ys)"
proof (induction xs arbitrary: s)
  case (Cons x xs)
  then show ?case by (cases "f x s") simp_all
qed simp

text \<open>Fuel stands for the run time of loops that may not end; every other error is a defect of a step.\<close>

definition no_fuel_error :: "memory_error + 'a \<Rightarrow> bool" where
  "no_fuel_error m \<longleftrightarrow> m \<noteq> Inl Out_Of_Fuel"

lemma no_fuel_error_simps [simp]:
  "no_fuel_error (Inr x)" "no_fuel_error (Inl e) \<longleftrightarrow> e \<noteq> Out_Of_Fuel"
  by (simp_all add: no_fuel_error_def)

lemma no_fuel_error_bind [fuel_free, intro]:
  "no_fuel_error m \<Longrightarrow> (\<And>x. m = Inr x \<Longrightarrow> no_fuel_error (f x)) \<Longrightarrow> no_fuel_error (err_bind m f)"
  by (cases m) auto

lemma no_fuel_error_fold [fuel_free, intro]:
  "(\<And>x s. no_fuel_error (f x s)) \<Longrightarrow> no_fuel_error (err_fold f xs s)"
  by (induction xs arbitrary: s) auto

text \<open>The order in which a computation with more fuel lies above one with less.\<close>

definition fuel_le :: "memory_error + 'a \<Rightarrow> memory_error + 'a \<Rightarrow> bool" where
  "fuel_le m m' \<longleftrightarrow> m = Inl Out_Of_Fuel \<or> m' = m"

lemma fuel_le_refl [simp, intro]: "fuel_le m m"
  by (simp add: fuel_le_def)

lemma fuel_le_bottom [simp]: "fuel_le (Inl Out_Of_Fuel) m"
  by (simp add: fuel_le_def)

lemma fuel_le_bind: "fuel_le m m' \<Longrightarrow> (\<And>x. fuel_le (f x) (f' x)) \<Longrightarrow> fuel_le (err_bind m f) (err_bind m' f')"
  by (cases m) (auto simp: fuel_le_def)

section \<open>Signed 32-bit arithmetic of C\<close>

definition in_int32 :: "int \<Rightarrow> bool" where
  "in_int32 i \<longleftrightarrow> - (2 ^ 31) \<le> i \<and> i < 2 ^ 31"

definition check32 :: "int \<Rightarrow> memory_error + int" where
  "check32 i = (if in_int32 i then Inr i else Inl Signed_Overflow)"

text \<open>The operator \<open>/\<close> truncates towards zero.\<close>

definition c_div :: "int \<Rightarrow> int \<Rightarrow> int" where
  "c_div a b = sgn a * sgn b * (\<bar>a\<bar> div \<bar>b\<bar>)"

text \<open>Conversion to \<open>int\<close> of an integer out of range keeps the low 32 bits.\<close>

definition wrap32 :: "int \<Rightarrow> int" where
  "wrap32 i = (i + 2 ^ 31) mod 2 ^ 32 - 2 ^ 31"

lemma check32_Inr [simp]: "check32 i = Inr j \<longleftrightarrow> in_int32 i \<and> j = i"
  by (auto simp: check32_def)

lemma wrap32_range: "in_int32 (wrap32 i)"
  by (auto simp: wrap32_def in_int32_def)

lemma wrap32_id: "in_int32 i \<Longrightarrow> wrap32 i = i"
  by (simp add: wrap32_def in_int32_def)

lemma sint_in_int32 [simp]: "in_int32 (sint (w :: int32))"
  using sint_range_size [of w] by (simp add: in_int32_def word_size)

lemma sint_of_int32: "in_int32 i \<Longrightarrow> sint (word_of_int i :: int32) = i"
  by (simp add: in_int32_def signed_of_int signed_take_bit_int_eq_self)

end
