(* ===== verification/Hal_Double.thy ===== *)
theory Hal_Double
  imports Hal_Prelude
begin

text \<open>
  The C type \<open>double\<close>, as far as the daemon computes with it: IEEE 754 binary64 values under
  round-to-nearest-even. A finite value is a sign, a mantissa and a binary exponent
  (\<open>m * 2 ^ e\<close>); every arithmetic result is the exact rational result, rounded once by
  \<open>double_of_ratio\<close>. The \<open>%f\<close> conversion of \<open>printf\<close>, \<open>atof\<close>, \<open>ceil\<close> and the truncation
  to \<open>int\<close> are computed on the exact value.
\<close>

datatype double = NaN bool | Inf bool | Fin bool int int

section \<open>Rounding\<close>

function bitlen :: "int \<Rightarrow> int" where
  "bitlen n = (if n \<le> 0 then 0 else 1 + bitlen (n div 2))"
  by pat_completeness auto
termination
  by (relation "measure nat") auto

declare bitlen.simps [simp del]

definition round_half_even :: "int \<Rightarrow> int \<Rightarrow> int" where
  "round_half_even n d =
     (let q = n div d; r = n mod d
      in if 2 * r < d then q else if d < 2 * r then q + 1 else if even q then q else q + 1)"

definition scale_up :: "int \<Rightarrow> int \<Rightarrow> int" where
  "scale_up n e = (if 0 \<le> e then n * 2 ^ nat e else n)"

text \<open>The largest \<open>k\<close> with \<open>2 ^ k \<le> n / d\<close>, for positive \<open>n\<close> and \<open>d\<close>.\<close>

definition floor_log2 :: "int \<Rightarrow> int \<Rightarrow> int" where
  "floor_log2 n d =
     (let k = bitlen n - bitlen d
      in if scale_up d k \<le> scale_up n (- k) then k else k - 1)"

definition double_of_ratio :: "bool \<Rightarrow> int \<Rightarrow> int \<Rightarrow> double" where
  "double_of_ratio s n d =
     (if n = 0 then Fin s 0 0
      else let e = max (- 1074) (floor_log2 n d - 52);
               m = round_half_even (scale_up n (- e)) (scale_up d e)
           in if 2 ^ 53 \<le> m \<and> e = 971 then Inf s
              else if 971 < e then Inf s
              else Fin s m e)"

definition double_of_int :: "int \<Rightarrow> double" where
  "double_of_int i = double_of_ratio (i < 0) \<bar>i\<bar> 1"

lemma round_half_even_exact: "0 < d \<Longrightarrow> round_half_even (q * d) d = q"
  by (simp add: round_half_even_def)

lemma round_half_even_bounds:
  assumes "0 < d"
  shows "n div d \<le> round_half_even n d" and "round_half_even n d \<le> n div d + 1"
  by (auto simp: round_half_even_def Let_def)

section \<open>Arithmetic and comparison\<close>

text \<open>The exact value of a finite double as a signed numerator over a power-of-two denominator.\<close>

definition num_of :: "bool \<Rightarrow> int \<Rightarrow> int \<Rightarrow> int" where
  "num_of s m e = (if s then - scale_up m e else scale_up m e)"

definition den_of :: "int \<Rightarrow> int" where
  "den_of e = scale_up 1 (- e)"

definition ratio :: "bool \<Rightarrow> int \<Rightarrow> int \<Rightarrow> double" where
  "ratio zero_sign n d = (if n = 0 then Fin zero_sign 0 0 else double_of_ratio (n < 0) \<bar>n\<bar> d)"

fun double_minus :: "double \<Rightarrow> double \<Rightarrow> double" where
  "double_minus (NaN s) _ = NaN s"
| "double_minus _ (NaN s) = NaN s"
| "double_minus (Inf s) (Inf t) = (if s = t then NaN True else Inf s)"
| "double_minus (Inf s) _ = Inf s"
| "double_minus _ (Inf t) = Inf (\<not> t)"
| "double_minus (Fin s m e) (Fin t n f) =
     ratio (s \<and> \<not> t) (num_of s m e * den_of f - num_of t n f * den_of e) (den_of e * den_of f)"

fun double_mult :: "double \<Rightarrow> double \<Rightarrow> double" where
  "double_mult (NaN s) _ = NaN s"
| "double_mult _ (NaN s) = NaN s"
| "double_mult (Inf s) (Inf t) = Inf (s \<noteq> t)"
| "double_mult (Inf s) (Fin t n f) = (if n = 0 then NaN True else Inf (s \<noteq> t))"
| "double_mult (Fin s m e) (Inf t) = (if m = 0 then NaN True else Inf (s \<noteq> t))"
| "double_mult (Fin s m e) (Fin t n f) =
     ratio (s \<noteq> t) (num_of s m e * num_of t n f) (den_of e * den_of f)"

fun double_div :: "double \<Rightarrow> double \<Rightarrow> double" where
  "double_div (NaN s) _ = NaN s"
| "double_div _ (NaN s) = NaN s"
| "double_div (Inf s) (Inf t) = NaN True"
| "double_div (Inf s) (Fin t n f) = Inf (s \<noteq> t)"
| "double_div (Fin s m e) (Inf t) = Fin (s \<noteq> t) 0 0"
| "double_div (Fin s m e) (Fin t n f) =
     (if n = 0 then (if m = 0 then NaN True else Inf (s \<noteq> t))
      else double_of_ratio (s \<noteq> t) (scale_up m e * den_of f) (den_of e * scale_up n f))"

text \<open>The C operator \<open>==\<close>: a NaN differs from everything, the two zeros are equal.\<close>

fun double_eq :: "double \<Rightarrow> double \<Rightarrow> bool" where
  "double_eq (Inf s) (Inf t) = (s = t)"
| "double_eq (Fin s m e) (Fin t n f) =
     (num_of s m e * den_of f = num_of t n f * den_of e)"
| "double_eq _ _ = False"

lemma double_eq_sym: "double_eq a b \<longleftrightarrow> double_eq b a"
  by (cases a; cases b) auto

lemma double_eq_refl: "double_eq a a \<longleftrightarrow> (\<forall>s. a \<noteq> NaN s)"
  by (cases a) auto

section \<open>Conversions\<close>

text \<open>
  Conversion to \<open>int\<close>: truncation towards zero, undefined (\<^const>\<open>None\<close>) for a NaN, an infinity
  or a value outside the range of a 32-bit integer.
\<close>

fun double_trunc :: "double \<Rightarrow> int option" where
  "double_trunc (Fin s m e) =
     (let q = scale_up m e div den_of e in Some (if s then - q else q))"
| "double_trunc _ = None"

definition double_to_int32 :: "double \<Rightarrow> int option" where
  "double_to_int32 x =
     (case double_trunc x of
        Some q \<Rightarrow> if - (2 ^ 31) \<le> q \<and> q < 2 ^ 31 then Some q else None
      | None \<Rightarrow> None)"

lemma double_to_int32_range: "double_to_int32 x = Some q \<Longrightarrow> - (2 ^ 31) \<le> q \<and> q < 2 ^ 31"
  by (auto simp: double_to_int32_def split: option.splits if_splits)

text \<open>\<open>(dbus_int64_t) ceil (x)\<close>.\<close>

definition ceil_to_int64 :: "double \<Rightarrow> int option" where
  "ceil_to_int64 x =
     (case x of
        Fin s m e \<Rightarrow>
          (let n = scale_up m e; d = den_of e;
               q = (if s then - (n div d) else (n + d - 1) div d)
           in if - (2 ^ 63) \<le> q \<and> q < 2 ^ 63 then Some q else None)
      | _ \<Rightarrow> None)"

text \<open>\<open>printf ("%f")\<close>: six decimals of the exact value, rounded to nearest even.\<close>

definition pad_left :: "nat \<Rightarrow> string \<Rightarrow> string" where
  "pad_left n s = replicate (n - length s) (CHR ''0'') @ s"

fun format_f :: "double \<Rightarrow> string" where
  "format_f (NaN s) = (if s then ''-nan'' else ''nan'')"
| "format_f (Inf s) = (if s then ''-inf'' else ''inf'')"
| "format_f (Fin s m e) =
     (let u = round_half_even (10 ^ 6 * scale_up m e) (den_of e)
      in (if s then ''-'' else '''') @ nat_to_string (u div 10 ^ 6) @ ''.'' @
         pad_left 6 (nat_to_string (u mod 10 ^ 6)))"

text \<open>\<open>atof\<close> on decimal literals: digits, an optional fraction and an optional exponent.\<close>

fun decimal_digits :: "string \<Rightarrow> string \<times> string" where
  "decimal_digits [] = ([], [])"
| "decimal_digits (c # cs) =
     (case digit_value c of
        Some v \<Rightarrow> if v < 10 then (let (ds, r) = decimal_digits cs in (c # ds, r)) else ([], c # cs)
      | None \<Rightarrow> ([], c # cs))"

fun decimal_fraction :: "string \<Rightarrow> string \<times> string" where
  "decimal_fraction [] = ([], [])"
| "decimal_fraction (c # cs) = (if c = CHR ''.'' then decimal_digits cs else ([], c # cs))"

fun decimal_exponent :: "string \<Rightarrow> int" where
  "decimal_exponent [] = 0"
| "decimal_exponent (c # cs) =
     (if c = CHR ''e'' \<or> c = CHR ''E'' then
        (let (neg, r) = parse_sign cs; x = parse_digits 10 0 (fst (decimal_digits r))
         in if neg then - x else x)
      else 0)"

definition atof :: "string \<Rightarrow> double" where
  "atof s =
     (let (neg, r) = parse_sign (dropWhile is_space s);
          (whole, r1) = decimal_digits r;
          (frac, r2) = decimal_fraction r1;
          n = parse_digits 10 0 (whole @ frac);
          x = (if whole @ frac = [] then 0 else decimal_exponent r2) - int (length frac)
      in double_of_ratio neg (n * 10 ^ nat x) (10 ^ nat (- x)))"

section \<open>Bounds of rounded results\<close>

lemma bitlen_nonneg: "0 \<le> bitlen n"
  by (induction n rule: bitlen.induct) (subst bitlen.simps, auto)

lemma less_2_bitlen: "0 \<le> n \<Longrightarrow> n < 2 ^ nat (bitlen n)"
proof (induction n rule: bitlen.induct)
  case (1 n)
  show ?case
  proof (cases "n = 0")
    case False
    with 1 have half: "n div 2 < 2 ^ nat (bitlen (n div 2))" and "0 < n" by auto
    then have "bitlen n = 1 + bitlen (n div 2)" by (simp add: bitlen.simps [of n])
    then have "(2 :: int) ^ nat (bitlen n) = 2 * 2 ^ nat (bitlen (n div 2))"
      using bitlen_nonneg [of "n div 2"] by (simp add: nat_add_distrib)
    with half show ?thesis by linarith
  qed (simp add: bitlen.simps)
qed

lemma bitlen_le: "0 \<le> n \<Longrightarrow> n < 2 ^ k \<Longrightarrow> bitlen n \<le> int k"
proof (induction k arbitrary: n)
  case 0
  then show ?case by (simp add: bitlen.simps)
next
  case (Suc k)
  show ?case
  proof (cases "n = 0")
    case False
    have "bitlen (n div 2) \<le> int k" by (rule Suc.IH) (use Suc.prems in auto)
    with False Suc.prems(1) show ?thesis by (subst bitlen.simps) simp
  qed (simp add: bitlen.simps)
qed

lemma bitlen_ratio:
  assumes "0 \<le> n" and "0 < d" and "n \<le> c * d" and "c < 2 ^ j"
  shows "bitlen n \<le> bitlen d + int j"
proof -
  have "c * d < 2 ^ j * 2 ^ nat (bitlen d)"
    using assms less_2_bitlen [of d] by (intro mult_strict_mono) auto
  then have "n < 2 ^ (j + nat (bitlen d))" using assms(3) by (simp add: power_add)
  from bitlen_le [OF assms(1) this] bitlen_nonneg [of d] show ?thesis by simp
qed

lemma round_half_even_le: "0 < d \<Longrightarrow> n \<le> c * d \<Longrightarrow> round_half_even n d \<le> c"
proof -
  assume d: "0 < d" and n: "n \<le> c * d"
  have eq: "n = (n div d) * d + n mod d" by simp
  have rest: "0 \<le> n mod d" using d by simp
  show ?thesis
  proof (cases "n div d < c")
    case True
    then show ?thesis using round_half_even_bounds(2) [OF d, of n] by linarith
  next
    case False
    moreover have "n div d \<le> c" using n d by (metis div_le_mono nonzero_mult_div_cancel_right zdiv_mono1 less_irrefl)
    ultimately have q: "n div d = c" by simp
    with eq n rest have "n mod d = 0" by (smt (verit))
    with q d show ?thesis by (simp add: round_half_even_def)
  qed
qed

lemma scale_up_neg: "e \<le> 0 \<Longrightarrow> scale_up n e = n" "e \<le> 0 \<Longrightarrow> scale_up n (- e) = n * 2 ^ nat (- e)"
  by (auto simp: scale_up_def)

lemma den_of_neg: "e \<le> 0 \<Longrightarrow> den_of e = 2 ^ nat (- e)"
  by (simp add: den_of_def scale_up_def)

text \<open>A rounded quotient below \<open>2 ^ 52\<close>: its parts.\<close>

lemma double_of_ratio_small:
  assumes "0 < n" and "0 < d" and "n \<le> c * d" and "c < 2 ^ 52"
  obtains e where "e \<le> 0" and "double_of_ratio False n d = Fin False (round_half_even (n * 2 ^ nat (- e)) d) e"
proof -
  define e where "e = max (- 1074) (floor_log2 n d - 52)"
  have "bitlen n - bitlen d \<le> 52" using bitlen_ratio [of n d c 52] assms by simp
  then have "floor_log2 n d \<le> 52" by (auto simp: floor_log2_def Let_def)
  then have e: "e \<le> 0" by (simp add: e_def)
  then have "double_of_ratio False n d = Fin False (round_half_even (n * 2 ^ nat (- e)) d) e"
    using assms(1) scale_up_neg by (auto simp: double_of_ratio_def Let_def e_def [symmetric])
  with e that show thesis by blast
qed

text \<open>A finite value between zero and \<open>c\<close>, and the exact value \<open>c\<close>.\<close>

definition dle :: "double \<Rightarrow> int \<Rightarrow> bool" where
  "dle x c \<longleftrightarrow> (\<exists>m e. x = Fin False m e \<and> 0 \<le> m \<and> e \<le> 0 \<and> m \<le> c * 2 ^ nat (- e))"

definition dexact :: "double \<Rightarrow> int \<Rightarrow> bool" where
  "dexact x c \<longleftrightarrow> (\<exists>m e. x = Fin False m e \<and> e \<le> 0 \<and> m = c * 2 ^ nat (- e))"

lemma round_half_even_nonneg: "0 < d \<Longrightarrow> 0 \<le> n \<Longrightarrow> 0 \<le> round_half_even n d"
  using round_half_even_bounds(1) [of d n] pos_imp_zdiv_nonneg_iff [of d n] by linarith

lemma dle_ratio:
  assumes "0 \<le> n" and "0 < d" and "n \<le> c * d" and "0 \<le> c" and "c < 2 ^ 52"
  shows "dle (double_of_ratio False n d) c"
proof (cases "n = 0")
  case True
  then show ?thesis using assms(4) by (simp add: double_of_ratio_def dle_def)
next
  case False
  with assms obtain e where e: "e \<le> 0"
    and eq: "double_of_ratio False n d = Fin False (round_half_even (n * 2 ^ nat (- e)) d) e"
    using double_of_ratio_small [of n d c] by (metis order_le_less)
  have "n * 2 ^ nat (- e) \<le> (c * 2 ^ nat (- e)) * d" using assms(3) by (simp add: mult.assoc mult.commute)
  then have "round_half_even (n * 2 ^ nat (- e)) d \<le> c * 2 ^ nat (- e)" by (rule round_half_even_le [OF assms(2)])
  moreover have "0 \<le> round_half_even (n * 2 ^ nat (- e)) d"
    using assms(1,2) by (simp add: round_half_even_nonneg)
  ultimately show ?thesis using e eq by (auto simp: dle_def)
qed

lemma dexact_ratio:
  assumes "0 < d" and "0 \<le> c" and "c < 2 ^ 52"
  shows "dexact (double_of_ratio False (c * d) d) c"
proof (cases "c = 0")
  case False
  with assms have "0 < c * d" by simp
  then obtain e where e: "e \<le> 0"
    and eq: "double_of_ratio False (c * d) d = Fin False (round_half_even ((c * d) * 2 ^ nat (- e)) d) e"
    using double_of_ratio_small [of "c * d" d c] assms by blast
  have "round_half_even ((c * d) * 2 ^ nat (- e)) d = c * 2 ^ nat (- e)"
    using round_half_even_exact [OF assms(1), of "c * 2 ^ nat (- e)"] by (simp add: ac_simps)
  with e eq show ?thesis by (auto simp: dexact_def)
qed (simp add: double_of_ratio_def dexact_def)

lemma dexact_of_int: "0 \<le> i \<Longrightarrow> i < 2 ^ 52 \<Longrightarrow> dexact (double_of_int i) i"
  using dexact_ratio [of 1 i] by (simp add: double_of_int_def)

lemma dexact_dle: "0 \<le> c \<Longrightarrow> dexact x c \<Longrightarrow> dle x c"
  by (auto simp: dle_def dexact_def)

lemma dle_div:
  assumes "dexact x a" and "dexact y b" and "0 \<le> a" and "0 < b" and "a \<le> c * b" and "0 \<le> c" and "c < 2 ^ 52"
  shows "dle (double_div x y) c"
proof -
  obtain e f where x: "x = Fin False (a * 2 ^ nat (- e)) e" "e \<le> 0"
    and y: "y = Fin False (b * 2 ^ nat (- f)) f" "f \<le> 0"
    using assms(1,2) by (auto simp: dexact_def)
  have "double_div x y = double_of_ratio False (a * 2 ^ nat (- e) * 2 ^ nat (- f)) (2 ^ nat (- e) * (b * 2 ^ nat (- f)))"
    using x y assms(4) by (simp add: scale_up_neg den_of_neg)
  moreover have "a * 2 ^ nat (- e) * 2 ^ nat (- f) \<le> c * (2 ^ nat (- e) * (b * 2 ^ nat (- f)))"
    using mult_right_mono [OF assms(5), of "2 ^ nat (- e) * 2 ^ nat (- f)"] by (simp add: ac_simps)
  ultimately show ?thesis using assms dle_ratio by simp
qed

lemma dexact_div_same:
  assumes "dexact x a" and "dexact y a" and "0 < a"
  shows "dexact (double_div x y) 1"
proof -
  obtain e f where x: "x = Fin False (a * 2 ^ nat (- e)) e" "e \<le> 0"
    and y: "y = Fin False (a * 2 ^ nat (- f)) f" "f \<le> 0"
    using assms(1,2) by (auto simp: dexact_def)
  let ?d = "2 ^ nat (- e) * (a * 2 ^ nat (- f))"
  have "double_div x y = double_of_ratio False (1 * ?d) ?d"
    using x y assms(3) by (simp add: scale_up_neg den_of_neg ac_simps)
  then show ?thesis using dexact_ratio [of ?d 1] assms(3) by simp
qed

lemma mult_parts:
  assumes "x = Fin False m e" and "y = Fin False n f" and "e \<le> 0" and "f \<le> 0" and "0 \<le> m" and "0 \<le> n"
  shows "double_mult x y = double_of_ratio False (m * n) (2 ^ nat (- e) * 2 ^ nat (- f))"
proof -
  have "\<not> m * n < 0" using assms by (simp add: not_less)
  moreover have "m * n = 0 \<Longrightarrow> double_of_ratio False (m * n) z = Fin False 0 0" for z
    by (simp add: double_of_ratio_def)
  ultimately show ?thesis
    using assms by (auto simp: ratio_def num_of_def scale_up_neg den_of_neg)
qed

lemma dle_mult:
  assumes "dle x c" and "dexact y b" and "0 \<le> b" and "0 \<le> c" and "c * b < 2 ^ 52"
  shows "dle (double_mult x y) (c * b)"
proof -
  obtain m e f where x: "x = Fin False m e" "e \<le> 0" "0 \<le> m" "m \<le> c * 2 ^ nat (- e)"
    and y: "y = Fin False (b * 2 ^ nat (- f)) f" "f \<le> 0"
    using assms(1,2) by (auto simp: dle_def dexact_def)
  have "m * (b * 2 ^ nat (- f)) \<le> (c * b) * (2 ^ nat (- e) * 2 ^ nat (- f))"
    using mult_right_mono [OF x(4), of "b * 2 ^ nat (- f)"] assms(3) by (simp add: ac_simps)
  then show ?thesis
    using mult_parts [OF x(1) y(1) x(2) y(2) x(3)] assms(3-5) x(3) dle_ratio by simp
qed

lemma dexact_mult:
  assumes "dexact x a" and "dexact y b" and "0 \<le> a" and "0 \<le> b" and "a * b < 2 ^ 52"
  shows "dexact (double_mult x y) (a * b)"
proof -
  obtain e f where x: "x = Fin False (a * 2 ^ nat (- e)) e" "e \<le> 0"
    and y: "y = Fin False (b * 2 ^ nat (- f)) f" "f \<le> 0"
    using assms(1,2) by (auto simp: dexact_def)
  have "double_mult x y = double_of_ratio False ((a * b) * (2 ^ nat (- e) * 2 ^ nat (- f))) (2 ^ nat (- e) * 2 ^ nat (- f))"
    using mult_parts [OF x(1) y(1) x(2) y(2)] assms(3,4) by (simp add: ac_simps)
  then show ?thesis using dexact_ratio [of "2 ^ nat (- e) * 2 ^ nat (- f)" "a * b"] assms by simp
qed

lemma dle_to_int32:
  assumes "dle x c" and "c < 2 ^ 31"
  shows "\<exists>q. double_to_int32 x = Some q \<and> 0 \<le> q \<and> q \<le> c"
proof -
  obtain m e where x: "x = Fin False m e" "0 \<le> m" "e \<le> 0" "m \<le> c * 2 ^ nat (- e)"
    using assms(1) by (auto simp: dle_def)
  let ?q = "m div 2 ^ nat (- e)"
  have "?q \<le> (c * 2 ^ nat (- e)) div 2 ^ nat (- e)" using x(4) by (intro zdiv_mono1) auto
  then have "0 \<le> ?q \<and> ?q \<le> c" using x(2) by (simp add: pos_imp_zdiv_nonneg_iff)
  with assms(2) x show ?thesis by (simp add: double_to_int32_def Let_def scale_up_neg den_of_neg)
qed

lemma dexact_to_int32: "dexact x c \<Longrightarrow> 0 \<le> c \<Longrightarrow> c < 2 ^ 31 \<Longrightarrow> double_to_int32 x = Some c"
  by (auto simp: dexact_def double_to_int32_def Let_def scale_up_neg den_of_neg)

end
