(* ===== verification/Hal_Property.thy ===== *)
theory Hal_Property
  imports Hal_Double
begin

text \<open>
  Typed property values, \<open>struct _HalProperty\<close> of \<open>hald/device.c\<close>, and the static functions on
  them. The tagged union is a datatype whose constructors are the type tags; a freshly allocated
  (zeroed) property of type string holds the \<open>NULL\<close> pointer, \<open>HP_STRING None\<close>. The type tags
  themselves are the \<open>HAL_PROPERTY_TYPE_*\<close> constants of \<open>hald/device.h\<close>.

  \<open>g_utf8_validate\<close> of GLib is a parameter: the field of the record \<open>glib\<close> returns the index of
  the byte its \<open>end\<close> argument points at when the text is invalid, and nothing when it is valid.
  \<open>glib_ok\<close> states what the documentation of that function promises and the loop in
  \<open>hal_property_set_string\<close> relies on.
\<close>

section \<open>Data\<close>

datatype hal_property_type =
    TYPE_INVALID | TYPE_INT32 | TYPE_UINT64 | TYPE_DOUBLE | TYPE_BOOLEAN | TYPE_STRING | TYPE_STRLIST

datatype hal_property =
    HP_INVALID
  | HP_INT32 int32
  | HP_UINT64 uint64
  | HP_DOUBLE double
  | HP_BOOLEAN bool
  | HP_STRING "string option"
  | HP_STRLIST "string list"

record glib =
  g_utf8_validate :: "string \<Rightarrow> nat option"
  g_utf8_strdown :: "string \<Rightarrow> string"

definition question_mark :: char where
  "question_mark = CHR ''?''"

text \<open>
  The end pointer of a failed validation lies inside the text, and everything before it is valid:
  overwriting the byte it points at by an ASCII character can only move the end forward.
\<close>

definition glib_ok :: "glib \<Rightarrow> bool" where
  "glib_ok G \<longleftrightarrow>
     (\<forall>s i. g_utf8_validate G s = Some i \<longrightarrow>
        i < length s \<and> (\<forall>j. g_utf8_validate G (s[i := question_mark]) = Some j \<longrightarrow> i < j))"

section \<open>Operations\<close>

definition hal_property_new :: "hal_property_type \<Rightarrow> hal_property" where
  "hal_property_new type =
     (case type of
        TYPE_INVALID \<Rightarrow> HP_INVALID
      | TYPE_INT32 \<Rightarrow> HP_INT32 0
      | TYPE_UINT64 \<Rightarrow> HP_UINT64 0
      | TYPE_DOUBLE \<Rightarrow> HP_DOUBLE (Fin False 0 0)
      | TYPE_BOOLEAN \<Rightarrow> HP_BOOLEAN False
      | TYPE_STRING \<Rightarrow> HP_STRING None
      | TYPE_STRLIST \<Rightarrow> HP_STRLIST [])"

fun hal_property_get_type :: "hal_property \<Rightarrow> hal_property_type" where
  "hal_property_get_type HP_INVALID = TYPE_INVALID"
| "hal_property_get_type (HP_INT32 _) = TYPE_INT32"
| "hal_property_get_type (HP_UINT64 _) = TYPE_UINT64"
| "hal_property_get_type (HP_DOUBLE _) = TYPE_DOUBLE"
| "hal_property_get_type (HP_BOOLEAN _) = TYPE_BOOLEAN"
| "hal_property_get_type (HP_STRING _) = TYPE_STRING"
| "hal_property_get_type (HP_STRLIST _) = TYPE_STRLIST"

text \<open>The getters return the value the \<open>g_return_val_if_fail\<close> guard names on a type mismatch.\<close>

fun hal_property_get_string :: "hal_property \<Rightarrow> string option" where
  "hal_property_get_string (HP_STRING v) = v"
| "hal_property_get_string _ = None"

fun hal_property_get_int :: "hal_property \<Rightarrow> int32" where
  "hal_property_get_int (HP_INT32 v) = v"
| "hal_property_get_int _ = - 1"

fun hal_property_get_uint64 :: "hal_property \<Rightarrow> uint64" where
  "hal_property_get_uint64 (HP_UINT64 v) = v"
| "hal_property_get_uint64 _ = - 1"

fun hal_property_get_bool :: "hal_property \<Rightarrow> bool" where
  "hal_property_get_bool (HP_BOOLEAN v) = v"
| "hal_property_get_bool _ = False"

fun hal_property_get_strlist :: "hal_property \<Rightarrow> string list" where
  "hal_property_get_strlist (HP_STRLIST v) = v"
| "hal_property_get_strlist _ = []"

definition minus_one_double :: double where
  "minus_one_double = double_of_int (- 1)"

fun hal_property_get_double :: "hal_property \<Rightarrow> double" where
  "hal_property_get_double (HP_DOUBLE v) = v"
| "hal_property_get_double _ = minus_one_double"

definition tab :: char where
  "tab = CHR 0x09"

fun hal_property_to_string :: "hal_property \<Rightarrow> string option" where
  "hal_property_to_string (HP_STRING v) = v"
| "hal_property_to_string (HP_INT32 v) = Some (int_to_string (sint v))"
| "hal_property_to_string (HP_UINT64 v) = Some (int_to_string (uint v))"
| "hal_property_to_string (HP_BOOLEAN v) = Some (if v then ''true'' else ''false'')"
| "hal_property_to_string (HP_DOUBLE v) = Some (format_f v)"
| "hal_property_to_string (HP_STRLIST v) = Some (join tab v)"
| "hal_property_to_string HP_INVALID = None"

text \<open>
  The loop of \<open>hal_property_set_string\<close> that overwrites invalid bytes by question marks. Its fuel
  is one more than the number of bytes; \<open>utf8_loop_enough\<close> shows that this suffices.
\<close>

fun utf8_loop :: "glib \<Rightarrow> nat \<Rightarrow> string \<Rightarrow> string option" where
  "utf8_loop G 0 s = None"
| "utf8_loop G (Suc fuel) s =
     (case g_utf8_validate G s of
        None \<Rightarrow> Some s
      | Some i \<Rightarrow> utf8_loop G fuel (s[i := question_mark]))"

definition utf8_replace :: "glib \<Rightarrow> string \<Rightarrow> string" where
  "utf8_replace G s = (case utf8_loop G (Suc (length s)) s of Some t \<Rightarrow> t | None \<Rightarrow> s)"

definition strdup_or_empty :: "string option \<Rightarrow> string" where
  "strdup_or_empty value = (case value of Some s \<Rightarrow> s | None \<Rightarrow> [])"

definition hal_property_set_string :: "glib \<Rightarrow> string option \<Rightarrow> hal_property \<Rightarrow> hal_property" where
  "hal_property_set_string G value prop =
     (if hal_property_get_type prop = TYPE_STRING \<or> hal_property_get_type prop = TYPE_INVALID
      then HP_STRING (Some (utf8_replace G (strdup_or_empty value)))
      else prop)"

definition hal_property_set_int :: "int32 \<Rightarrow> hal_property \<Rightarrow> hal_property" where
  "hal_property_set_int value prop =
     (if hal_property_get_type prop = TYPE_INT32 \<or> hal_property_get_type prop = TYPE_INVALID
      then HP_INT32 value else prop)"

definition hal_property_set_uint64 :: "uint64 \<Rightarrow> hal_property \<Rightarrow> hal_property" where
  "hal_property_set_uint64 value prop =
     (if hal_property_get_type prop = TYPE_UINT64 \<or> hal_property_get_type prop = TYPE_INVALID
      then HP_UINT64 value else prop)"

definition hal_property_set_bool :: "bool \<Rightarrow> hal_property \<Rightarrow> hal_property" where
  "hal_property_set_bool value prop =
     (if hal_property_get_type prop = TYPE_BOOLEAN \<or> hal_property_get_type prop = TYPE_INVALID
      then HP_BOOLEAN value else prop)"

definition hal_property_set_double :: "double \<Rightarrow> hal_property \<Rightarrow> hal_property" where
  "hal_property_set_double value prop =
     (if hal_property_get_type prop = TYPE_DOUBLE \<or> hal_property_get_type prop = TYPE_INVALID
      then HP_DOUBLE value else prop)"

text \<open>
  The string list operations return their \<open>gboolean\<close> and the property; a property of another type
  is refused with \<open>FALSE\<close>.
\<close>

fun hal_property_strlist_append :: "hal_property \<Rightarrow> string \<Rightarrow> bool \<times> hal_property" where
  "hal_property_strlist_append (HP_STRLIST l) value = (True, HP_STRLIST (l @ [value]))"
| "hal_property_strlist_append prop value = (False, prop)"

fun hal_property_strlist_prepend :: "hal_property \<Rightarrow> string \<Rightarrow> bool \<times> hal_property" where
  "hal_property_strlist_prepend (HP_STRLIST l) value = (True, HP_STRLIST (value # l))"
| "hal_property_strlist_prepend prop value = (False, prop)"

text \<open>\<open>g_slist_delete_link\<close> of the link \<open>g_slist_nth\<close> found.\<close>

definition delete_nth :: "nat \<Rightarrow> 'a list \<Rightarrow> 'a list" where
  "delete_nth i l = take i l @ drop (Suc i) l"

fun hal_property_strlist_remove_elem :: "hal_property \<Rightarrow> nat \<Rightarrow> bool \<times> hal_property" where
  "hal_property_strlist_remove_elem (HP_STRLIST l) index =
     (if l = [] then (False, HP_STRLIST l)
      else if length l \<le> index then (False, HP_STRLIST l)
      else (True, HP_STRLIST (delete_nth index l)))"
| "hal_property_strlist_remove_elem prop index = (False, prop)"

fun strlist_find :: "string list \<Rightarrow> string \<Rightarrow> nat \<Rightarrow> nat option" where
  "strlist_find [] value i = None"
| "strlist_find (e # l) value i =
     (if strcmp e value = 0 then Some i else strlist_find l value (Suc i))"

fun hal_property_strlist_add :: "hal_property \<Rightarrow> string \<Rightarrow> bool \<times> hal_property" where
  "hal_property_strlist_add (HP_STRLIST l) value =
     (case strlist_find l value 0 of
        Some _ \<Rightarrow> (False, HP_STRLIST l)
      | None \<Rightarrow> hal_property_strlist_append (HP_STRLIST l) value)"
| "hal_property_strlist_add prop value = (False, prop)"

fun hal_property_strlist_remove :: "hal_property \<Rightarrow> string \<Rightarrow> bool \<times> hal_property" where
  "hal_property_strlist_remove (HP_STRLIST l) value =
     (case strlist_find l value 0 of
        Some i \<Rightarrow> hal_property_strlist_remove_elem (HP_STRLIST l) i
      | None \<Rightarrow> (False, HP_STRLIST l))"
| "hal_property_strlist_remove prop value = (False, prop)"

section \<open>Lemmas\<close>

lemma get_type_new [simp]: "hal_property_get_type (hal_property_new t) = t"
  by (cases t) (simp_all add: hal_property_new_def)

lemma hal_property_new_simps [simp]:
  "hal_property_new TYPE_STRLIST = HP_STRLIST []"
  "hal_property_new TYPE_STRING = HP_STRING None"
  by (simp_all add: hal_property_new_def)

lemma get_type_set_string [simp]:
  "hal_property_get_type prop = TYPE_STRING \<Longrightarrow>
   hal_property_get_type (hal_property_set_string G v prop) = TYPE_STRING"
  by (simp add: hal_property_set_string_def)

lemma get_type_eq_iff [simp]:
  "hal_property_get_type p = TYPE_STRING \<longleftrightarrow> (\<exists>v. p = HP_STRING v)"
  "hal_property_get_type p = TYPE_INT32 \<longleftrightarrow> (\<exists>i. p = HP_INT32 i)"
  "hal_property_get_type p = TYPE_UINT64 \<longleftrightarrow> (\<exists>u. p = HP_UINT64 u)"
  "hal_property_get_type p = TYPE_DOUBLE \<longleftrightarrow> (\<exists>x. p = HP_DOUBLE x)"
  "hal_property_get_type p = TYPE_BOOLEAN \<longleftrightarrow> (\<exists>b. p = HP_BOOLEAN b)"
  "hal_property_get_type p = TYPE_STRLIST \<longleftrightarrow> (\<exists>l. p = HP_STRLIST l)"
  "hal_property_get_type p = TYPE_INVALID \<longleftrightarrow> p = HP_INVALID"
  by (cases p; simp)+

lemma strlist_find_iff:
  "strlist_find l v i = None \<longleftrightarrow> v \<notin> set l"
  by (induction l v i rule: strlist_find.induct) auto

lemma strlist_find_Some:
  "strlist_find l v i = Some j \<Longrightarrow>
     \<exists>n. j = i + n \<and> n < length l \<and> l ! n = v \<and> v \<notin> set (take n l)"
proof (induction l v i rule: strlist_find.induct)
  case (2 e l v i)
  show ?case
  proof (cases "e = v")
    case True
    with 2 show ?thesis by auto
  next
    case False
    with 2 obtain n where "j = Suc i + n \<and> n < length l \<and> l ! n = v \<and> v \<notin> set (take n l)"
      by auto
    with False show ?thesis by (intro exI [of _ "Suc n"]) auto
  qed
qed simp

text \<open>Removing by value deletes the first occurrence, as \<^const>\<open>remove1\<close> does.\<close>

lemma delete_nth_remove1:
  "n < length l \<Longrightarrow> l ! n = v \<Longrightarrow> v \<notin> set (take n l) \<Longrightarrow> delete_nth n l = remove1 v l"
  by (induction l arbitrary: n) (auto simp: delete_nth_def nth_Cons take_Cons' split: nat.splits)

lemma strlist_add_eq:
  "hal_property_strlist_add (HP_STRLIST l) v =
     (if v \<in> set l then (False, HP_STRLIST l) else (True, HP_STRLIST (l @ [v])))"
  using strlist_find_iff [of l v 0] by (auto split: option.splits)

lemma strlist_remove_eq:
  "hal_property_strlist_remove (HP_STRLIST l) v =
     (if v \<in> set l then (True, HP_STRLIST (remove1 v l)) else (False, HP_STRLIST l))"
proof (cases "strlist_find l v 0")
  case None
  then have "v \<notin> set l" by (rule strlist_find_iff [THEN iffD1])
  with None show ?thesis by simp
next
  case (Some j)
  then have "j < length l" and "l ! j = v" and "v \<notin> set (take j l)"
    using strlist_find_Some by fastforce+
  moreover from Some have "v \<in> set l"
    using strlist_find_iff [of l v 0] by auto
  ultimately show ?thesis
    using Some by (auto simp: delete_nth_remove1)
qed

declare hal_property_strlist_add.simps(1) [simp del] and strlist_add_eq [simp]
declare hal_property_strlist_remove.simps(1) [simp del] and strlist_remove_eq [simp]

text \<open>
  The validation loop: each round moves the first invalid byte forward, so one round per byte is
  enough, and what it returns is valid UTF-8 of the same length.
\<close>

lemma glib_okD:
  assumes "glib_ok G" and "g_utf8_validate G s = Some i"
  shows "i < length s"
    and "g_utf8_validate G (s[i := question_mark]) = Some j \<Longrightarrow> i < j"
  using assms by (auto simp: glib_ok_def)

lemma utf8_loop_returns:
  assumes "glib_ok G"
    and "\<And>i. g_utf8_validate G s = Some i \<Longrightarrow> length s < i + fuel"
    and "0 < fuel"
  shows "\<exists>t. utf8_loop G fuel s = Some t \<and> g_utf8_validate G t = None \<and> length t = length s"
  using assms(2,3)
proof (induction fuel arbitrary: s)
  case (Suc fuel)
  show ?case
  proof (cases "g_utf8_validate G s")
    case (Some i)
    let ?s = "s[i := question_mark]"
    have room: "length s < i + Suc fuel" using Suc.prems(1) [OF Some] .
    have "length ?s < j + fuel" if "g_utf8_validate G ?s = Some j" for j
      using glib_okD(2) [OF assms(1) Some that] room by simp
    moreover have "0 < fuel"
      using glib_okD(1) [OF assms(1) Some] room by simp
    ultimately show ?thesis
      using Suc.IH [of ?s] Some by simp
  qed simp
qed simp

lemma utf8_loop_enough:
  assumes "glib_ok G"
  shows "\<exists>t. utf8_loop G (Suc (length s)) s = Some t \<and> g_utf8_validate G t = None \<and> length t = length s"
  using assms by (rule utf8_loop_returns) auto

lemma utf8_replace_valid: "glib_ok G \<Longrightarrow> g_utf8_validate G (utf8_replace G s) = None"
  using utf8_loop_enough [of G s] by (auto simp: utf8_replace_def simp del: utf8_loop.simps)

lemma utf8_replace_length: "glib_ok G \<Longrightarrow> length (utf8_replace G s) = length s"
  using utf8_loop_enough [of G s] by (auto simp: utf8_replace_def simp del: utf8_loop.simps)

lemma utf8_replace_id: "g_utf8_validate G s = None \<Longrightarrow> utf8_replace G s = s"
  by (simp add: utf8_replace_def)

text \<open>A concrete validator for examples: every byte below 128 is accepted, no other.\<close>

fun first_high_byte :: "string \<Rightarrow> nat option" where
  "first_high_byte [] = None"
| "first_high_byte (c # cs) =
     (if (128 :: nat) \<le> of_char c then Some 0 else map_option Suc (first_high_byte cs))"

definition ascii_glib :: glib where
  "ascii_glib = \<lparr>g_utf8_validate = first_high_byte, g_utf8_strdown = (\<lambda>s. s)\<rparr>"

lemma first_high_byte_Some:
  "first_high_byte s = Some i \<Longrightarrow>
     i < length s \<and> (\<forall>j. first_high_byte (s[i := question_mark]) = Some j \<longrightarrow> i < j)"
proof (induction s arbitrary: i)
  case (Cons c s)
  show ?case
  proof (cases i)
    case 0
    then show ?thesis by (auto simp: question_mark_def)
  next
    case (Suc n)
    with Cons.prems have "first_high_byte s = Some n" and "\<not> (128 :: nat) \<le> of_char c"
      by (auto split: if_splits)
    with Cons.IH Suc show ?thesis by auto
  qed
qed simp

lemma ascii_glib_ok: "glib_ok ascii_glib"
  by (simp add: glib_ok_def ascii_glib_def first_high_byte_Some)

text \<open>A property value that the setters can leave in a device: no \<open>NULL\<close> string, valid UTF-8.\<close>

definition prop_wf :: "glib \<Rightarrow> hal_property \<Rightarrow> bool" where
  "prop_wf G p =
     (case p of
        HP_INVALID \<Rightarrow> False
      | HP_STRING None \<Rightarrow> False
      | HP_STRING (Some s) \<Rightarrow> g_utf8_validate G s = None
      | _ \<Rightarrow> True)"

lemma prop_wf_simps [simp]:
  "prop_wf G (HP_INT32 i)" "prop_wf G (HP_UINT64 u)" "prop_wf G (HP_DOUBLE x)"
  "prop_wf G (HP_BOOLEAN b)" "prop_wf G (HP_STRLIST l)" "\<not> prop_wf G HP_INVALID"
  "prop_wf G (HP_STRING v) \<longleftrightarrow> (\<exists>s. v = Some s \<and> g_utf8_validate G s = None)"
  by (auto simp: prop_wf_def split: option.splits)

end
