(* ===== verification/Hal_Device.thy ===== *)
theory Hal_Device
  imports Hal_Property
begin

text \<open>
  \<open>HalDevice\<close> of \<open>hald/device.c\<close>: a device object with its UDI, its addon counters and its
  property table, and every operation on the properties.

  An operation that may emit GObject signals returns the value of the C function, the device
  afterwards and the list of emissions in order. An emission carries the device as it was when the
  signal was emitted, because the handlers connected by \<open>hald/device_store.c\<close> read the property
  they are told about: \<open>pre_property_changed\<close> is emitted before the value changes,
  \<open>property_changed\<close> after. The handlers never modify the device, so the trace determines
  everything they do.
\<close>

section \<open>Data\<close>

record hal_device =
  udi :: string
  num_addons :: int
  num_addons_ready :: int
  props :: "(string \<times> hal_property) list"

datatype dev_signal =
    PROPERTY_CHANGED string bool bool \<comment> \<open>key, removed, added\<close>
  | CAPABILITY_ADDED string
  | LOCK_ACQUIRED string string
  | LOCK_RELEASED string string
  | PRE_PROPERTY_CHANGED string bool \<comment> \<open>key, removed\<close>

type_synonym emission = "dev_signal \<times> hal_device"
type_synonym 'a outcome = "'a \<times> hal_device \<times> emission list"

text \<open>Run a continuation after an operation, collecting the emissions of both.\<close>

definition and_then :: "'a outcome \<Rightarrow> (hal_device \<Rightarrow> 'b outcome) \<Rightarrow> 'b outcome" where
  "and_then m f =
     (case m of (r, d, es) \<Rightarrow> (case f d of (r', d', es') \<Rightarrow> (r', d', es @ es')))"

definition insert_prop :: "string \<Rightarrow> hal_property \<Rightarrow> hal_device \<Rightarrow> hal_device" where
  "insert_prop key prop d = d\<lparr>props := AList.update key prop (props d)\<rparr>"

definition remove_prop :: "string \<Rightarrow> hal_device \<Rightarrow> hal_device" where
  "remove_prop key d = d\<lparr>props := AList.delete key (props d)\<rparr>"

section \<open>Construction and lookup\<close>

definition hal_device_init :: "int \<Rightarrow> hal_device \<times> int" where
  "hal_device_init temp_device_counter =
     (\<lparr>udi = ''/org/freedesktop/Hal/devices/temp/'' @ int_to_string temp_device_counter,
       num_addons = 0, num_addons_ready = 0, props = []\<rparr>,
      temp_device_counter + 1)"

definition hal_device_property_find :: "hal_device \<Rightarrow> string \<Rightarrow> hal_property option" where
  "hal_device_property_find d key = map_of (props d) key"

definition hal_device_property_get_strlist :: "hal_device \<Rightarrow> string \<Rightarrow> string list" where
  "hal_device_property_get_strlist d key =
     (case hal_device_property_find d key of
        Some prop \<Rightarrow> hal_property_get_strlist prop
      | None \<Rightarrow> [])"

definition hal_device_property_get_strlist_length :: "hal_device \<Rightarrow> string \<Rightarrow> nat" where
  "hal_device_property_get_strlist_length d key =
     (case hal_device_property_get_strlist d key of [] \<Rightarrow> 0 | i \<Rightarrow> length i)"

fun strlist_loop_contains :: "string list \<Rightarrow> string \<Rightarrow> bool" where
  "strlist_loop_contains [] value = False"
| "strlist_loop_contains (i # elems) value =
     (if strcmp i value = 0 then True else strlist_loop_contains elems value)"

definition hal_device_property_strlist_contains :: "hal_device \<Rightarrow> string \<Rightarrow> string \<Rightarrow> bool" where
  "hal_device_property_strlist_contains d key value =
     strlist_loop_contains (hal_device_property_get_strlist d key) value"

text \<open>A \<open>HalDeviceStrListIter\<close> is the rest of the list.\<close>

definition hal_device_property_strlist_iter_init :: "hal_device \<Rightarrow> string \<Rightarrow> string list" where
  "hal_device_property_strlist_iter_init d key =
     (case hal_device_property_find d key of
        Some prop \<Rightarrow> hal_property_get_strlist prop
      | None \<Rightarrow> [])"

definition hal_device_property_strlist_iter_get_value :: "string list \<Rightarrow> string option" where
  "hal_device_property_strlist_iter_get_value i = (case i of [] \<Rightarrow> None | s # _ \<Rightarrow> Some s)"

definition hal_device_property_strlist_iter_next :: "string list \<Rightarrow> string list" where
  "hal_device_property_strlist_iter_next i = (case i of [] \<Rightarrow> [] | _ # r \<Rightarrow> r)"

definition hal_device_property_strlist_iter_is_valid :: "string list \<Rightarrow> bool" where
  "hal_device_property_strlist_iter_is_valid i = (case i of [] \<Rightarrow> False | _ \<Rightarrow> True)"

definition hal_device_property_dup_strlist_as_strv :: "hal_device \<Rightarrow> string \<Rightarrow> string list option" where
  "hal_device_property_dup_strlist_as_strv d key =
     (case hal_device_property_get_strlist d key of [] \<Rightarrow> None | l \<Rightarrow> Some l)"

definition hal_device_get_udi :: "hal_device \<Rightarrow> string" where
  "hal_device_get_udi d = udi d"

definition hal_device_has_capability :: "hal_device \<Rightarrow> string \<Rightarrow> bool" where
  "hal_device_has_capability d capability =
     (case hal_device_property_get_strlist d ''info.capabilities'' of
        [] \<Rightarrow> False
      | caps \<Rightarrow> strlist_loop_contains caps capability)"

definition hal_device_num_properties :: "hal_device \<Rightarrow> nat" where
  "hal_device_num_properties d = length (props d)"

definition hal_device_has_property :: "hal_device \<Rightarrow> string \<Rightarrow> bool" where
  "hal_device_has_property d key \<longleftrightarrow> hal_device_property_find d key \<noteq> None"

definition hal_device_property_to_string :: "hal_device \<Rightarrow> string \<Rightarrow> string option" where
  "hal_device_property_to_string d key =
     (case hal_device_property_find d key of
        None \<Rightarrow> None
      | Some prop \<Rightarrow> hal_property_to_string prop)"

text \<open>\<open>hal_device_property_foreach\<close> with the accumulated effect of the callback as a state.\<close>

fun foreach_keys :: "(string \<Rightarrow> 's \<Rightarrow> 's) \<Rightarrow> (string \<times> hal_property) list \<Rightarrow> 's \<Rightarrow> 's" where
  "foreach_keys callback [] s = s"
| "foreach_keys callback ((key, _) # al) s = foreach_keys callback al (callback key s)"

definition hal_device_property_foreach :: "hal_device \<Rightarrow> (string \<Rightarrow> 's \<Rightarrow> 's) \<Rightarrow> 's \<Rightarrow> 's" where
  "hal_device_property_foreach d callback s = foreach_keys callback (props d) s"

definition hal_device_property_get_type :: "hal_device \<Rightarrow> string \<Rightarrow> hal_property_type" where
  "hal_device_property_get_type d key =
     (case hal_device_property_find d key of
        Some prop \<Rightarrow> hal_property_get_type prop
      | None \<Rightarrow> TYPE_INVALID)"

definition hal_device_property_get_string :: "hal_device \<Rightarrow> string \<Rightarrow> string option" where
  "hal_device_property_get_string d key =
     (case hal_device_property_find d key of
        Some prop \<Rightarrow> hal_property_get_string prop
      | None \<Rightarrow> None)"

definition hal_device_property_get_int :: "hal_device \<Rightarrow> string \<Rightarrow> int32" where
  "hal_device_property_get_int d key =
     (case hal_device_property_find d key of
        Some prop \<Rightarrow> hal_property_get_int prop
      | None \<Rightarrow> - 1)"

definition hal_device_property_get_uint64 :: "hal_device \<Rightarrow> string \<Rightarrow> uint64" where
  "hal_device_property_get_uint64 d key =
     (case hal_device_property_find d key of
        Some prop \<Rightarrow> hal_property_get_uint64 prop
      | None \<Rightarrow> - 1)"

definition hal_device_property_get_bool :: "hal_device \<Rightarrow> string \<Rightarrow> bool" where
  "hal_device_property_get_bool d key =
     (case hal_device_property_find d key of
        Some prop \<Rightarrow> hal_property_get_bool prop
      | None \<Rightarrow> False)"

definition hal_device_property_get_double :: "hal_device \<Rightarrow> string \<Rightarrow> double" where
  "hal_device_property_get_double d key =
     (case hal_device_property_find d key of
        Some prop \<Rightarrow> hal_property_get_double prop
      | None \<Rightarrow> minus_one_double)"

definition hal_device_property_get_strlist_elem :: "hal_device \<Rightarrow> string \<Rightarrow> nat \<Rightarrow> string option" where
  "hal_device_property_get_strlist_elem d key index =
     (case hal_device_property_get_strlist d key of
        [] \<Rightarrow> None
      | l \<Rightarrow> if index < length l then Some (l ! index) else None)"

definition hal_device_property_strlist_is_empty :: "hal_device \<Rightarrow> string \<Rightarrow> bool" where
  "hal_device_property_strlist_is_empty d key =
     (if hal_device_has_property d key
      then (case hal_device_property_get_strlist d key of
              [] \<Rightarrow> True
            | l \<Rightarrow> if 0 < length l then False else True)
      else False)"

section \<open>Setting properties\<close>

definition hal_device_property_set_string ::
    "glib \<Rightarrow> string \<Rightarrow> string option \<Rightarrow> hal_device \<Rightarrow> bool outcome" where
  "hal_device_property_set_string G key value d =
     (case hal_device_property_find d key of
        Some prop \<Rightarrow>
          if hal_property_get_type prop \<noteq> TYPE_STRING then (False, d, [])
          else if hal_property_get_string prop = Some (strdup_or_empty value) then (True, d, [])
          else let d' = insert_prop key (hal_property_set_string G value prop) d
               in (True, d', [(PRE_PROPERTY_CHANGED key False, d),
                              (PROPERTY_CHANGED key False False, d')])
      | None \<Rightarrow>
          let d' = insert_prop key (hal_property_set_string G value (hal_property_new TYPE_STRING)) d
          in (True, d', [(PROPERTY_CHANGED key False True, d')]))"

definition hal_device_property_set_int :: "string \<Rightarrow> int32 \<Rightarrow> hal_device \<Rightarrow> bool outcome" where
  "hal_device_property_set_int key value d =
     (case hal_device_property_find d key of
        Some prop \<Rightarrow>
          if hal_property_get_type prop \<noteq> TYPE_INT32 then (False, d, [])
          else if hal_property_get_int prop = value then (True, d, [])
          else let d' = insert_prop key (hal_property_set_int value prop) d
               in (True, d', [(PRE_PROPERTY_CHANGED key False, d),
                              (PROPERTY_CHANGED key False False, d')])
      | None \<Rightarrow>
          let d' = insert_prop key (hal_property_set_int value (hal_property_new TYPE_INT32)) d
          in (True, d', [(PROPERTY_CHANGED key False True, d')]))"

definition hal_device_property_set_uint64 :: "string \<Rightarrow> uint64 \<Rightarrow> hal_device \<Rightarrow> bool outcome" where
  "hal_device_property_set_uint64 key value d =
     (case hal_device_property_find d key of
        Some prop \<Rightarrow>
          if hal_property_get_type prop \<noteq> TYPE_UINT64 then (False, d, [])
          else if hal_property_get_uint64 prop = value then (True, d, [])
          else let d' = insert_prop key (hal_property_set_uint64 value prop) d
               in (True, d', [(PRE_PROPERTY_CHANGED key False, d),
                              (PROPERTY_CHANGED key False False, d')])
      | None \<Rightarrow>
          let d' = insert_prop key (hal_property_set_uint64 value (hal_property_new TYPE_UINT64)) d
          in (True, d', [(PROPERTY_CHANGED key False True, d')]))"

definition hal_device_property_set_bool :: "string \<Rightarrow> bool \<Rightarrow> hal_device \<Rightarrow> bool outcome" where
  "hal_device_property_set_bool key value d =
     (case hal_device_property_find d key of
        Some prop \<Rightarrow>
          if hal_property_get_type prop \<noteq> TYPE_BOOLEAN then (False, d, [])
          else if hal_property_get_bool prop = value then (True, d, [])
          else let d' = insert_prop key (hal_property_set_bool value prop) d
               in (True, d', [(PRE_PROPERTY_CHANGED key False, d),
                              (PROPERTY_CHANGED key False False, d')])
      | None \<Rightarrow>
          let d' = insert_prop key (hal_property_set_bool value (hal_property_new TYPE_BOOLEAN)) d
          in (True, d', [(PROPERTY_CHANGED key False True, d')]))"

definition hal_device_property_set_double :: "string \<Rightarrow> double \<Rightarrow> hal_device \<Rightarrow> bool outcome" where
  "hal_device_property_set_double key value d =
     (case hal_device_property_find d key of
        Some prop \<Rightarrow>
          if hal_property_get_type prop \<noteq> TYPE_DOUBLE then (False, d, [])
          else if double_eq (hal_property_get_double prop) value then (True, d, [])
          else let d' = insert_prop key (hal_property_set_double value prop) d
               in (True, d', [(PRE_PROPERTY_CHANGED key False, d),
                              (PROPERTY_CHANGED key False False, d')])
      | None \<Rightarrow>
          let d' = insert_prop key (hal_property_set_double value (hal_property_new TYPE_DOUBLE)) d
          in (True, d', [(PROPERTY_CHANGED key False True, d')]))"

text \<open>The element-wise comparison of \<open>hal_device_property_set_strlist\<close>, for lists of equal length.\<close>

fun strlists_equal :: "string list \<Rightarrow> string list \<Rightarrow> bool" where
  "strlists_equal [] current = True"
| "strlists_equal (l # value) (c # current) =
     (if strcmp l c \<noteq> 0 then False else strlists_equal value current)"
| "strlists_equal (l # value) [] = True"

fun append_all :: "hal_property \<Rightarrow> string list \<Rightarrow> hal_property" where
  "append_all prop [] = prop"
| "append_all prop (l # value) = append_all (snd (hal_property_strlist_append prop l)) value"

definition hal_device_property_set_strlist ::
    "string \<Rightarrow> string list \<Rightarrow> hal_device \<Rightarrow> bool outcome" where
  "hal_device_property_set_strlist key value d =
     (case hal_device_property_find d key of
        Some prop \<Rightarrow>
          if hal_property_get_type prop \<noteq> TYPE_STRLIST then (False, d, [])
          else if length value = length (hal_property_get_strlist prop) \<and>
                  strlists_equal value (hal_property_get_strlist prop) then (True, d, [])
          else let d' = insert_prop key (append_all (hal_property_new TYPE_STRLIST) value)
                          (remove_prop key d)
               in (True, d', [(PRE_PROPERTY_CHANGED key False, d),
                              (PROPERTY_CHANGED key False False, d')])
      | None \<Rightarrow>
          let d' = insert_prop key (append_all (hal_property_new TYPE_STRLIST) value) d
          in (True, d', [(PROPERTY_CHANGED key False True, d')]))"

definition hal_device_property_remove :: "string \<Rightarrow> hal_device \<Rightarrow> bool outcome" where
  "hal_device_property_remove key d =
     (case hal_device_property_find d key of
        Some _ \<Rightarrow>
          let d' = remove_prop key d
          in (True, d', [(PRE_PROPERTY_CHANGED key True, d), (PROPERTY_CHANGED key True False, d')])
      | None \<Rightarrow> (False, d, []))"

definition hal_device_property_strlist_append ::
    "string \<Rightarrow> string \<Rightarrow> bool \<Rightarrow> hal_device \<Rightarrow> bool outcome" where
  "hal_device_property_strlist_append key value changeset d =
     (case hal_device_property_find d key of
        Some prop \<Rightarrow>
          if hal_property_get_type prop \<noteq> TYPE_STRLIST then (False, d, [])
          else let d' = insert_prop key (snd (hal_property_strlist_append prop value)) d
               in (True, d', if \<not> changeset then [(PROPERTY_CHANGED key False False, d')] else [])
      | None \<Rightarrow>
          let d' = insert_prop key
                     (snd (hal_property_strlist_append (hal_property_new TYPE_STRLIST) value)) d
          in (True, d', if \<not> changeset then [(PROPERTY_CHANGED key False True, d')] else []))"

definition hal_device_property_strlist_append_finish_changeset ::
    "string \<Rightarrow> bool \<Rightarrow> hal_device \<Rightarrow> bool outcome" where
  "hal_device_property_strlist_append_finish_changeset key is_added d =
     (case hal_device_property_find d key of
        Some prop \<Rightarrow>
          if hal_property_get_type prop \<noteq> TYPE_STRLIST then (False, d, [])
          else (True, d, [(PROPERTY_CHANGED key False is_added, d)])
      | None \<Rightarrow> (False, d, []))"

definition hal_device_property_strlist_prepend :: "string \<Rightarrow> string \<Rightarrow> hal_device \<Rightarrow> bool outcome" where
  "hal_device_property_strlist_prepend key value d =
     (case hal_device_property_find d key of
        Some prop \<Rightarrow>
          if hal_property_get_type prop \<noteq> TYPE_STRLIST then (False, d, [])
          else let d' = insert_prop key (snd (hal_property_strlist_prepend prop value)) d
               in (True, d', [(PROPERTY_CHANGED key False False, d')])
      | None \<Rightarrow>
          let d' = insert_prop key
                     (snd (hal_property_strlist_prepend (hal_property_new TYPE_STRLIST) value)) d
          in (True, d', [(PROPERTY_CHANGED key False True, d')]))"

definition hal_device_property_strlist_remove_elem ::
    "string \<Rightarrow> nat \<Rightarrow> hal_device \<Rightarrow> bool outcome" where
  "hal_device_property_strlist_remove_elem key index d =
     (case hal_device_property_find d key of
        None \<Rightarrow> (False, d, [])
      | Some prop \<Rightarrow>
          if hal_property_get_type prop \<noteq> TYPE_STRLIST then (False, d, [])
          else (case hal_property_strlist_remove_elem prop index of
                  (True, prop') \<Rightarrow>
                    let d' = insert_prop key prop' d
                    in (True, d', [(PROPERTY_CHANGED key False False, d')])
                | (False, _) \<Rightarrow> (False, d, [])))"

definition hal_device_property_strlist_clear :: "string \<Rightarrow> bool \<Rightarrow> hal_device \<Rightarrow> bool outcome" where
  "hal_device_property_strlist_clear key changeset d =
     (case hal_device_property_find d key of
        None \<Rightarrow>
          let d' = insert_prop key (hal_property_new TYPE_STRLIST) d
          in (True, d', if \<not> changeset then [(PROPERTY_CHANGED key False True, d')] else [])
      | Some prop \<Rightarrow>
          if hal_property_get_type prop \<noteq> TYPE_STRLIST then (False, d, [])
          else let d' = insert_prop key (hal_property_new TYPE_STRLIST) (remove_prop key d)
               in (True, d', if \<not> changeset then [(PROPERTY_CHANGED key False False, d')] else []))"

definition hal_device_property_strlist_add :: "string \<Rightarrow> string \<Rightarrow> hal_device \<Rightarrow> bool outcome" where
  "hal_device_property_strlist_add key value d =
     (case hal_device_property_find d key of
        Some prop \<Rightarrow>
          if hal_property_get_type prop \<noteq> TYPE_STRLIST then (False, d, [])
          else (case hal_property_strlist_add prop value of
                  (True, prop') \<Rightarrow>
                    let d' = insert_prop key prop' d
                    in (True, d', [(PROPERTY_CHANGED key False False, d')])
                | (False, _) \<Rightarrow> (False, d, []))
      | None \<Rightarrow>
          let d' = insert_prop key
                     (snd (hal_property_strlist_prepend (hal_property_new TYPE_STRLIST) value)) d
          in (True, d', [(PROPERTY_CHANGED key False True, d')]))"

definition hal_device_property_strlist_remove :: "string \<Rightarrow> string \<Rightarrow> hal_device \<Rightarrow> bool outcome" where
  "hal_device_property_strlist_remove key value d =
     (case hal_device_property_find d key of
        None \<Rightarrow> (False, d, [])
      | Some prop \<Rightarrow>
          if hal_property_get_type prop \<noteq> TYPE_STRLIST then (False, d, [])
          else (case hal_property_strlist_remove prop value of
                  (True, prop') \<Rightarrow>
                    let d' = insert_prop key prop' d
                    in (True, d', [(PROPERTY_CHANGED key False False, d')])
                | (False, _) \<Rightarrow> (True, d, [])))"

section \<open>Composite operations\<close>

definition hal_device_set_udi :: "glib \<Rightarrow> string \<Rightarrow> hal_device \<Rightarrow> bool outcome" where
  "hal_device_set_udi G new_udi d =
     hal_device_property_set_string G ''info.udi'' (Some new_udi) (d\<lparr>udi := new_udi\<rparr>)"

definition hal_device_add_capability :: "string \<Rightarrow> hal_device \<Rightarrow> bool outcome" where
  "hal_device_add_capability capability d =
     (case hal_device_property_strlist_add ''info.capabilities'' capability d of
        (r, d', es) \<Rightarrow> (r, d', if r then es @ [(CAPABILITY_ADDED capability, d')] else es))"

definition hal_device_copy_property ::
    "glib \<Rightarrow> hal_device \<Rightarrow> string \<Rightarrow> string \<Rightarrow> hal_device \<Rightarrow> bool outcome" where
  "hal_device_copy_property G from_device from to to_device =
     (if hal_device_has_property from_device from
      then (case hal_device_property_get_type from_device from of
              TYPE_STRING \<Rightarrow> hal_device_property_set_string G to
                               (hal_device_property_get_string from_device from) to_device
            | TYPE_INT32 \<Rightarrow> hal_device_property_set_int to
                               (hal_device_property_get_int from_device from) to_device
            | TYPE_UINT64 \<Rightarrow> hal_device_property_set_uint64 to
                               (hal_device_property_get_uint64 from_device from) to_device
            | TYPE_BOOLEAN \<Rightarrow> hal_device_property_set_bool to
                               (hal_device_property_get_bool from_device from) to_device
            | TYPE_DOUBLE \<Rightarrow> hal_device_property_set_double to
                               (hal_device_property_get_double from_device from) to_device
            | TYPE_STRLIST \<Rightarrow> hal_device_property_set_strlist to
                               (hal_device_property_get_strlist from_device from) to_device
            | TYPE_INVALID \<Rightarrow> (False, to_device, []))
      else (False, to_device, []))"

fun strlist_append_each :: "string \<Rightarrow> string list \<Rightarrow> hal_device \<Rightarrow> bool outcome" where
  "strlist_append_each key [] d = (True, d, [])"
| "strlist_append_each key (l # ls) d =
     and_then (hal_device_property_strlist_append key l False d) (strlist_append_each key ls)"

text \<open>
  The callback of \<open>hal_device_merge_with_rewrite\<close> for one key of the source, and the iteration
  over all keys. The target is a device other than the source.
\<close>

definition merge_device_rewrite_cb ::
    "glib \<Rightarrow> string \<Rightarrow> string \<Rightarrow> hal_device \<Rightarrow> string \<Rightarrow> hal_device \<Rightarrow> bool outcome" where
  "merge_device_rewrite_cb G target_namespace source_namespace source key target =
     (if \<not> strncmp_eq key source_namespace (length source_namespace) then (True, target, [])
      else
        let target_key = target_namespace @ drop (length source_namespace) key;
            type = hal_device_property_get_type source key;
            target_type = hal_device_property_get_type target target_key
        in and_then
             (if target_type \<noteq> TYPE_INVALID \<and> target_type \<noteq> type
              then hal_device_property_remove target_key target
              else (True, target, []))
             (\<lambda>t. case hal_device_property_find source key of
                None \<Rightarrow> (True, t, [])
              | Some p \<Rightarrow>
                  (case type of
                     TYPE_STRING \<Rightarrow>
                       hal_device_property_set_string G target_key (hal_property_get_string p) t
                   | TYPE_INT32 \<Rightarrow>
                       hal_device_property_set_int target_key (hal_property_get_int p) t
                   | TYPE_UINT64 \<Rightarrow>
                       hal_device_property_set_uint64 target_key (hal_property_get_uint64 p) t
                   | TYPE_BOOLEAN \<Rightarrow>
                       hal_device_property_set_bool target_key (hal_property_get_bool p) t
                   | TYPE_DOUBLE \<Rightarrow>
                       hal_device_property_set_double target_key (hal_property_get_double p) t
                   | TYPE_STRLIST \<Rightarrow>
                       and_then (hal_device_property_strlist_clear target_key False t)
                         (strlist_append_each target_key (hal_property_get_strlist p))
                   | TYPE_INVALID \<Rightarrow> (True, t, []))))"

definition hal_device_merge_with_rewrite ::
    "glib \<Rightarrow> hal_device \<Rightarrow> string \<Rightarrow> string \<Rightarrow> hal_device \<Rightarrow> bool outcome" where
  "hal_device_merge_with_rewrite G source target_namespace source_namespace target =
     hal_device_property_foreach source
       (\<lambda>key out. and_then out
          (merge_device_rewrite_cb G target_namespace source_namespace source key))
       (True, target, [])"

section \<open>Addon counters\<close>

definition hal_device_inc_num_addons :: "hal_device \<Rightarrow> hal_device" where
  "hal_device_inc_num_addons d = d\<lparr>num_addons := num_addons d + 1\<rparr>"

definition hal_device_are_all_addons_ready :: "hal_device \<Rightarrow> bool" where
  "hal_device_are_all_addons_ready d \<longleftrightarrow> num_addons_ready d = num_addons d"

definition hal_device_inc_num_ready_addons :: "hal_device \<Rightarrow> bool \<times> hal_device" where
  "hal_device_inc_num_ready_addons d =
     (if hal_device_are_all_addons_ready d then (False, d)
      else (True, d\<lparr>num_addons_ready := num_addons_ready d + 1\<rparr>))"

section \<open>Printing a property into a caller's buffer\<close>

text \<open>
  \<open>hal_device_property_get_as_string\<close> writes into a buffer of \<open>bufsize\<close> bytes. The buffer is the
  list of its bytes; \<open>strncpy\<close> and \<open>snprintf\<close> overwrite a range of it and leave the rest as it
  was. The result is whether the function returned the buffer (or \<open>NULL\<close>), and its bytes.
\<close>

definition NUL :: char where
  "NUL = CHR 0x00"

definition buf_strncpy :: "string \<Rightarrow> nat \<Rightarrow> string \<Rightarrow> string" where
  "buf_strncpy buf off src =
     take off buf @ take (length buf - off) (src @ replicate (length buf - off) NUL)"

definition buf_snprintf :: "string \<Rightarrow> string \<Rightarrow> string" where
  "buf_snprintf buf text =
     (if buf = [] then []
      else let out = take (length buf - 1) text @ [NUL] in out @ drop (length out) buf)"

definition buf_put :: "string \<Rightarrow> nat \<Rightarrow> char \<Rightarrow> string" where
  "buf_put buf i c = (if i < length buf then buf[i := c] else buf)"

fun as_string_strlist :: "string list \<Rightarrow> nat \<Rightarrow> string \<Rightarrow> string" where
  "as_string_strlist [] i buf = buf"
| "as_string_strlist (str # iter) i buf =
     (if i < length buf then
        (let b1 = buf_strncpy buf i str; i1 = i + length str
         in if i1 < length buf then as_string_strlist iter (Suc i1) (buf_put b1 i1 tab)
            else as_string_strlist iter i1 b1)
      else buf)"

definition hal_device_property_get_as_string ::
    "hal_device \<Rightarrow> string \<Rightarrow> string \<Rightarrow> bool \<times> string" where
  "hal_device_property_get_as_string d key buf =
     (case hal_device_property_find d key of
        Some prop \<Rightarrow>
          (True,
           (case prop of
              HP_STRING v \<Rightarrow> (case v of Some s \<Rightarrow> buf_strncpy buf 0 s | None \<Rightarrow> buf)
            | HP_INT32 i \<Rightarrow> buf_snprintf buf (int_to_string (sint i))
            | HP_UINT64 u \<Rightarrow> buf_snprintf buf (int_to_string (uint u))
            | HP_DOUBLE x \<Rightarrow> buf_snprintf buf (format_f x)
            | HP_BOOLEAN b \<Rightarrow> buf_strncpy buf 0 (if b then ''true'' else ''false'')
            | HP_STRLIST l \<Rightarrow> as_string_strlist l 1 (buf_put buf 0 tab)
            | HP_INVALID \<Rightarrow> buf))
      | None \<Rightarrow> (False, buf_put buf 0 NUL))"

text \<open>The C string in a buffer: the bytes before the first NUL, if there is one.\<close>

definition c_string :: "string \<Rightarrow> string option" where
  "c_string buf = (if NUL \<in> set buf then Some (takeWhile (\<lambda>c. c \<noteq> NUL) buf) else None)"

section \<open>Specification: the property table and the signal trace\<close>

text \<open>
  The well-formedness invariant of a device: its table has one entry per key, and every entry is a
  complete value (no \<open>NULL\<close> string, valid UTF-8).
\<close>

definition dev_wf :: "glib \<Rightarrow> hal_device \<Rightarrow> bool" where
  "dev_wf G d \<longleftrightarrow>
     distinct (map fst (props d)) \<and> (\<forall>(key, prop) \<in> set (props d). prop_wf G prop)"

text \<open>
  What a listener that keeps track of the string value of one key can do: forget the value it sees
  at \<open>pre_property_changed\<close>, learn the value it sees at \<open>property_changed\<close>. \<open>track\<close> replays a
  trace for such a listener; it fails when the listener would forget a value it did not hold or
  learn a second one. \<open>traced\<close> says that for every key the listener ends with the string value the
  device then has: what the property index of the device store rests on.
\<close>

fun track :: "string \<Rightarrow> string option \<Rightarrow> emission list \<Rightarrow> string option option" where
  "track k cur [] = Some cur"
| "track k cur ((PRE_PROPERTY_CHANGED key removed, s) # es) =
     (if key = k then
        (case hal_device_property_get_string s k of
           None \<Rightarrow> track k cur es
         | Some v \<Rightarrow> if cur = Some v then track k None es else None)
      else track k cur es)"
| "track k cur ((PROPERTY_CHANGED key removed added, s) # es) =
     (if key = k then
        (case hal_device_property_get_string s k of
           None \<Rightarrow> track k cur es
         | Some v \<Rightarrow> if cur = None then track k (Some v) es else None)
      else track k cur es)"
| "track k cur ((_, s) # es) = track k cur es"

definition traced :: "hal_device \<Rightarrow> hal_device \<Rightarrow> emission list \<Rightarrow> bool" where
  "traced d d' es \<longleftrightarrow>
     (\<forall>k. track k (hal_device_property_get_string d k) es = Some (hal_device_property_get_string d' k))"

section \<open>Lemmas on the property table\<close>

lemma find_insert_same [simp]: "hal_device_property_find (insert_prop k p d) k = Some p"
  by (simp add: hal_device_property_find_def insert_prop_def)

lemma find_insert_other:
  "k' \<noteq> k \<Longrightarrow> hal_device_property_find (insert_prop k p d) k' = hal_device_property_find d k'"
  by (simp add: hal_device_property_find_def insert_prop_def map_of_update_other)

lemma find_insert:
  "hal_device_property_find (insert_prop k p d) k' =
     (if k' = k then Some p else hal_device_property_find d k')"
  by (simp add: find_insert_other)

lemma find_remove_same [simp]: "hal_device_property_find (remove_prop k d) k = None"
  by (simp add: hal_device_property_find_def remove_prop_def)

lemma find_remove_other:
  "k' \<noteq> k \<Longrightarrow> hal_device_property_find (remove_prop k d) k' = hal_device_property_find d k'"
  by (simp add: hal_device_property_find_def remove_prop_def map_of_delete_other)

lemma find_remove:
  "hal_device_property_find (remove_prop k d) k' =
     (if k' = k then None else hal_device_property_find d k')"
  by (simp add: find_remove_other)

lemma find_udi_update [simp]:
  "hal_device_property_find (d\<lparr>udi := u\<rparr>) k = hal_device_property_find d k"
  by (simp add: hal_device_property_find_def)

lemma insert_prop_fields [simp]:
  "udi (insert_prop k p d) = udi d"
  "num_addons (insert_prop k p d) = num_addons d"
  "num_addons_ready (insert_prop k p d) = num_addons_ready d"
  by (simp_all add: insert_prop_def)

lemma remove_prop_fields [simp]:
  "udi (remove_prop k d) = udi d"
  "num_addons (remove_prop k d) = num_addons d"
  "num_addons_ready (remove_prop k d) = num_addons_ready d"
  by (simp_all add: remove_prop_def)

lemma dev_wf_insert: "dev_wf G d \<Longrightarrow> prop_wf G p \<Longrightarrow> dev_wf G (insert_prop k p d)"
  by (auto simp: dev_wf_def insert_prop_def AList.distinct_update dest: in_set_updateD)

lemma dev_wf_remove: "dev_wf G d \<Longrightarrow> dev_wf G (remove_prop k d)"
  by (auto simp: dev_wf_def remove_prop_def AList.delete_eq distinct_map_filter)

lemma dev_wf_find: "dev_wf G d \<Longrightarrow> hal_device_property_find d k = Some p \<Longrightarrow> prop_wf G p"
  by (auto simp: dev_wf_def hal_device_property_find_def dest!: map_of_SomeD)

lemma dev_wf_udi [simp]: "dev_wf G (d\<lparr>udi := u\<rparr>) \<longleftrightarrow> dev_wf G d"
  by (simp add: dev_wf_def)

lemma prop_wf_set_string:
  "glib_ok G \<Longrightarrow> hal_property_get_type p = TYPE_STRING \<Longrightarrow> prop_wf G (hal_property_set_string G v p)"
  by (auto simp: hal_property_set_string_def utf8_replace_valid)

lemma append_all_strlist: "append_all (HP_STRLIST l) ls = HP_STRLIST (l @ ls)"
  by (induction ls arbitrary: l) simp_all

lemma strlists_equal_iff: "length ls = length ms \<Longrightarrow> strlists_equal ls ms \<longleftrightarrow> ls = ms"
  by (induction ls ms rule: strlists_equal.induct) auto

lemma strlist_loop_contains_iff [simp]: "strlist_loop_contains l v \<longleftrightarrow> v \<in> set l"
  by (induction l) auto

end
