(* ===== verification/Hal_Device_Laws.thy ===== *)
theory Hal_Device_Laws
  imports Hal_Device
begin

text \<open>
  The contracts of the device operations of \<open>Hal_Device\<close>, as locales, and their interpretation on
  every operation. \<open>dev_op\<close> is what the device store relies on (the invariant is kept, the trace
  tells the truth about string values); \<open>key_op\<close> adds what a caller of a single-key setter relies
  on (nothing else changes, a refused call does nothing and emits nothing).
\<close>

section \<open>Traces\<close>

lemma track_append:
  "track k cur (es @ fs) = (case track k cur es of None \<Rightarrow> None | Some c \<Rightarrow> track k c fs)"
  by (induction k cur es rule: track.induct) (auto split: option.splits)

lemma traced_refl [simp, intro]: "traced d d []"
  by (simp add: traced_def)

lemma traced_trans: "traced d d' es \<Longrightarrow> traced d' d'' fs \<Longrightarrow> traced d d'' (es @ fs)"
  by (simp add: traced_def track_append)

definition agree_except :: "string \<Rightarrow> hal_device \<Rightarrow> hal_device \<Rightarrow> bool" where
  "agree_except key d d' \<longleftrightarrow>
     (\<forall>k. k \<noteq> key \<longrightarrow> hal_device_property_find d' k = hal_device_property_find d k)"

lemma agree_except_simps [simp]:
  "agree_except key d d"
  "agree_except key d (insert_prop key p d)"
  "agree_except key d (remove_prop key d)"
  "agree_except key d (insert_prop key p (remove_prop key d))"
  by (simp_all add: agree_except_def find_insert_other find_remove_other)

lemma get_string_find_eq:
  "hal_device_property_find d k = hal_device_property_find d' k \<Longrightarrow>
   hal_device_property_get_string d k = hal_device_property_get_string d' k"
  by (simp add: hal_device_property_get_string_def)

lemma agree_except_get_string:
  "agree_except key d d' \<Longrightarrow> k \<noteq> key \<Longrightarrow>
   hal_device_property_get_string d' k = hal_device_property_get_string d k"
  by (simp add: agree_except_def hal_device_property_get_string_def)

text \<open>A change announced before and after is always truthful.\<close>

lemma traced_change:
  assumes "agree_except key d d'"
  shows "traced d d' [(PRE_PROPERTY_CHANGED key r, d), (PROPERTY_CHANGED key a b, d')]"
  unfolding traced_def
proof
  fix k
  show "track k (hal_device_property_get_string d k)
          [(PRE_PROPERTY_CHANGED key r, d), (PROPERTY_CHANGED key a b, d')] =
        Some (hal_device_property_get_string d' k)"
    using agree_except_get_string [OF assms, of k]
    by (cases "key = k") (auto split: option.splits)
qed

text \<open>A change announced only afterwards is truthful when the old value was not a string.\<close>

lemma traced_new:
  assumes "agree_except key d d'" and "hal_device_property_get_string d key = None"
  shows "traced d d' [(PROPERTY_CHANGED key a b, d')]"
  unfolding traced_def
proof
  fix k
  show "track k (hal_device_property_get_string d k) [(PROPERTY_CHANGED key a b, d')] =
        Some (hal_device_property_get_string d' k)"
    using agree_except_get_string [OF assms(1), of k] assms(2)
    by (cases "key = k") (auto split: option.splits)
qed

lemma traced_silent:
  assumes "agree_except key d d'" and "hal_device_property_get_string d key = None"
    and "hal_device_property_get_string d' key = None"
  shows "traced d d' []"
  using assms agree_except_get_string [OF assms(1)] by (auto simp: traced_def) metis

lemma get_string_simps [simp]:
  "hal_device_property_find d k = None \<Longrightarrow> hal_device_property_get_string d k = None"
  "hal_device_property_find d k = Some (HP_STRLIST l) \<Longrightarrow> hal_device_property_get_string d k = None"
  "hal_device_property_find d k = Some (HP_INT32 i) \<Longrightarrow> hal_device_property_get_string d k = None"
  "hal_device_property_find d k = Some (HP_BOOLEAN b) \<Longrightarrow> hal_device_property_get_string d k = None"
  "hal_device_property_find d k = Some (HP_STRING v) \<Longrightarrow> hal_device_property_get_string d k = v"
  by (simp_all add: hal_device_property_get_string_def)

lemmas traced_rules = traced_refl traced_change traced_new traced_silent

section \<open>The contracts\<close>

locale dev_op =
  fixes G :: glib and opr :: "hal_device \<Rightarrow> 'a outcome"
  assumes keeps_wf: "glib_ok G \<Longrightarrow> dev_wf G d \<Longrightarrow> opr d = (r, d', es) \<Longrightarrow> dev_wf G d'"
    and truthful: "opr d = (r, d', es) \<Longrightarrow> traced d d' es"

locale key_op = dev_op G opr
  for G :: glib and opr :: "hal_device \<Rightarrow> bool outcome" +
  fixes key :: string
  assumes frame: "opr d = (r, d', es) \<Longrightarrow> agree_except key d d'"
    and same_object: "opr d = (r, d', es) \<Longrightarrow>
      udi d' = udi d \<and> num_addons d' = num_addons d \<and> num_addons_ready d' = num_addons_ready d"
    and refused: "opr d = (False, d', es) \<Longrightarrow> d' = d \<and> es = []"
    and only_key: "opr d = (r, d', es) \<Longrightarrow> (sig, s) \<in> set es \<Longrightarrow>
      (\<exists>removed added. sig = PROPERTY_CHANGED key removed added) \<or>
      (\<exists>removed. sig = PRE_PROPERTY_CHANGED key removed)"

text \<open>An operation that leaves the identifier of the device alone, as every setter does.\<close>

locale udi_op = dev_op G opr
  for G :: glib and opr :: "hal_device \<Rightarrow> 'a outcome" +
  assumes keeps_udi: "opr d = (r, d', es) \<Longrightarrow> udi d' = udi d"

sublocale key_op \<subseteq> udi_op G opr
  by unfold_locales (use same_object in blast)

text \<open>
  Sequencing keeps the contract of a device operation, so composite operations inherit it from
  their parts.
\<close>

lemma dev_op_skip: "dev_op G (\<lambda>d. (r, d, []))"
  by unfold_locales auto

lemma dev_op_and_then:
  assumes "dev_op G f" and "dev_op G g"
  shows "dev_op G (\<lambda>d. and_then (f d) g)"
proof
  fix d r d' es
  assume "and_then (f d) g = (r, d', es)"
  then obtain r1 d1 es1 es2 where f: "f d = (r1, d1, es1)" and g: "g d1 = (r, d', es2)"
    and es: "es = es1 @ es2"
    by (auto simp: and_then_def split: prod.splits)
  show "traced d d' es"
    using dev_op.truthful [OF assms(1) f] dev_op.truthful [OF assms(2) g] es
    by (auto intro: traced_trans)
  show "dev_wf G d'" if "glib_ok G" and "dev_wf G d"
    using dev_op.keeps_wf [OF assms(1) that f] dev_op.keeps_wf [OF assms(2) that(1) _ g] by blast
qed

lemma dev_opI:
  assumes "\<And>d. \<exists>f. dev_op G f \<and> opr d = f d"
  shows "dev_op G opr"
proof
  fix d r d' es
  assume opr: "opr d = (r, d', es)"
  obtain f where f: "dev_op G f" and "opr d = f d" using assms by blast
  with opr have fd: "f d = (r, d', es)" by simp
  show "traced d d' es" by (rule dev_op.truthful [OF f fd])
  show "dev_wf G d'" if "glib_ok G" and "dev_wf G d" by (rule dev_op.keeps_wf [OF f that fd])
qed

text \<open>An operation that chooses between operations by looking at the device is one itself.\<close>

lemma dev_op_if: "dev_op G f \<Longrightarrow> dev_op G g \<Longrightarrow> dev_op G (\<lambda>d. if P d then f d else g d)"
  by (rule dev_opI) (metis (full_types))

lemma dev_op_choice: "(\<And>x. dev_op G (f x)) \<Longrightarrow> dev_op G (\<lambda>d. f (h d) d)"
  by (rule dev_opI) blast

section \<open>Every setter meets the contract\<close>

lemmas outcome_splits = option.splits if_splits prod.splits bool.splits

lemmas prop_setter_defs =
  hal_property_set_string_def hal_property_set_int_def hal_property_set_uint64_def
  hal_property_set_bool_def hal_property_set_double_def hal_property_new_def

interpretation set_string: key_op G "hal_device_property_set_string G key v" key for G key v
  by unfold_locales
    (auto simp: hal_device_property_set_string_def Let_def prop_wf_set_string
      intro: dev_wf_insert traced_change traced_new split: outcome_splits)

interpretation set_int: key_op G "hal_device_property_set_int key v" key for G key v
  by unfold_locales
    (auto simp: hal_device_property_set_int_def Let_def prop_setter_defs
      intro: dev_wf_insert traced_change traced_new split: outcome_splits)

interpretation set_uint64: key_op G "hal_device_property_set_uint64 key v" key for G key v
  by unfold_locales
    (auto simp: hal_device_property_set_uint64_def Let_def prop_setter_defs
      intro: dev_wf_insert traced_change traced_new split: outcome_splits)

interpretation set_bool: key_op G "hal_device_property_set_bool key v" key for G key v
  by unfold_locales
    (auto simp: hal_device_property_set_bool_def Let_def prop_setter_defs
      intro: dev_wf_insert traced_change traced_new split: outcome_splits)

interpretation set_double: key_op G "hal_device_property_set_double key v" key for G key v
  by unfold_locales
    (auto simp: hal_device_property_set_double_def Let_def prop_setter_defs
      intro: dev_wf_insert traced_change traced_new split: outcome_splits)

interpretation set_strlist: key_op G "hal_device_property_set_strlist key l" key for G key l
  by unfold_locales
    (auto simp: hal_device_property_set_strlist_def Let_def append_all_strlist
      intro: dev_wf_insert dev_wf_remove traced_change traced_new split: outcome_splits)

interpretation remove: key_op G "hal_device_property_remove key" key for G key
  by unfold_locales
    (auto simp: hal_device_property_remove_def Let_def
      intro: dev_wf_remove traced_change split: outcome_splits)

interpretation strlist_append: key_op G "hal_device_property_strlist_append key v c" key for G key v c
  by unfold_locales
    (auto simp: hal_device_property_strlist_append_def Let_def
      intro: dev_wf_insert traced_new traced_silent [of key] split: outcome_splits)

interpretation finish_changeset:
  key_op G "hal_device_property_strlist_append_finish_changeset key a" key for G key a
  by unfold_locales
    (auto simp: hal_device_property_strlist_append_finish_changeset_def
      intro: traced_new split: outcome_splits)

interpretation strlist_prepend: key_op G "hal_device_property_strlist_prepend key v" key for G key v
  by unfold_locales
    (auto simp: hal_device_property_strlist_prepend_def Let_def
      intro: dev_wf_insert traced_new split: outcome_splits)

interpretation strlist_remove_elem:
  key_op G "hal_device_property_strlist_remove_elem key i" key for G key i
  by unfold_locales
    (auto simp: hal_device_property_strlist_remove_elem_def Let_def
      intro: dev_wf_insert traced_new split: outcome_splits)

interpretation strlist_clear: key_op G "hal_device_property_strlist_clear key c" key for G key c
  by unfold_locales
    (auto simp: hal_device_property_strlist_clear_def Let_def
      intro: dev_wf_insert dev_wf_remove traced_new traced_silent [of key] split: outcome_splits)

interpretation strlist_add: key_op G "hal_device_property_strlist_add key v" key for G key v
  by unfold_locales
    (auto simp: hal_device_property_strlist_add_def Let_def strlist_add_eq
      intro: dev_wf_insert traced_new split: outcome_splits)

interpretation strlist_remove: key_op G "hal_device_property_strlist_remove key v" key for G key v
  by unfold_locales
    (auto simp: hal_device_property_strlist_remove_def Let_def strlist_remove_eq
      intro: dev_wf_insert traced_new split: outcome_splits)

section \<open>Composite operations\<close>

lemmas setter_ops =
  set_string.dev_op_axioms set_int.dev_op_axioms set_uint64.dev_op_axioms set_bool.dev_op_axioms
  set_double.dev_op_axioms set_strlist.dev_op_axioms remove.dev_op_axioms
  strlist_append.dev_op_axioms strlist_clear.dev_op_axioms strlist_prepend.dev_op_axioms
  strlist_add.dev_op_axioms strlist_remove.dev_op_axioms strlist_remove_elem.dev_op_axioms
  finish_changeset.dev_op_axioms

lemma traced_udi: "traced (d\<lparr>udi := u\<rparr>) d' es \<Longrightarrow> traced d d' es"
  by (simp add: traced_def hal_device_property_get_string_def)

interpretation set_udi: dev_op G "hal_device_set_udi G u" for G u
proof
  fix d r d' es
  assume "hal_device_set_udi G u d = (r, d', es)"
  then have *: "hal_device_property_set_string G ''info.udi'' (Some u) (d\<lparr>udi := u\<rparr>) = (r, d', es)"
    by (simp add: hal_device_set_udi_def)
  show "traced d d' es" using set_string.truthful [OF *] by (rule traced_udi)
  show "dev_wf G d'" if "glib_ok G" "dev_wf G d" using set_string.keeps_wf [OF _ _ *] that by simp
qed

lemma track_capability:
  "track k cur (es @ [(CAPABILITY_ADDED c, s)]) = track k cur es"
  by (simp add: track_append split: option.splits)

interpretation add_capability: dev_op G "hal_device_add_capability c" for G c
proof
  fix d r d' es
  assume "hal_device_add_capability c d = (r, d', es)"
  then obtain fs where *: "hal_device_property_strlist_add ''info.capabilities'' c d = (r, d', fs)"
    and es: "es = (if r then fs @ [(CAPABILITY_ADDED c, d')] else fs)"
    by (auto simp: hal_device_add_capability_def split: prod.splits if_splits)
  show "traced d d' es"
    using strlist_add.truthful [OF *] es by (simp add: traced_def track_capability)
  show "dev_wf G d'" if "glib_ok G" "dev_wf G d" using strlist_add.keeps_wf [OF that *] .
qed

lemma copy_property_dev_op: "dev_op G (hal_device_copy_property G src from to)"
  by (rule dev_opI, cases "hal_device_property_get_type src from")
    (auto simp: hal_device_copy_property_def intro: setter_ops dev_op_skip)

interpretation copy_property: udi_op G "hal_device_copy_property G src from to" for G src "from" to
proof (intro udi_op.intro udi_op_axioms.intro copy_property_dev_op)
  fix d r d' es
  assume "hal_device_copy_property G src from to d = (r, d', es)"
  then show "udi d' = udi d"
    by (auto simp: hal_device_copy_property_def split: if_splits hal_property_type.splits
        dest: set_string.keeps_udi set_int.keeps_udi set_uint64.keeps_udi set_bool.keeps_udi
          set_double.keeps_udi set_strlist.keeps_udi)
qed

lemma dev_op_append_each: "dev_op G (strlist_append_each key ls)"
proof (induction ls)
  case Nil
  have "strlist_append_each key [] = (\<lambda>d. (True, d, []))" by auto
  then show ?case using dev_op_skip [of G True] by simp
next
  case (Cons l ls)
  have "strlist_append_each key (l # ls) =
      (\<lambda>d. and_then (hal_device_property_strlist_append key l False d) (strlist_append_each key ls))"
    by auto
  then show ?case
    using dev_op_and_then [OF strlist_append.dev_op_axioms Cons.IH] by simp
qed

text \<open>The part of the callback after the optional removal.\<close>

definition merge_value :: "glib \<Rightarrow> string \<Rightarrow> hal_property \<Rightarrow> hal_device \<Rightarrow> bool outcome" where
  "merge_value G key p t =
     (case p of
        HP_STRING v \<Rightarrow> hal_device_property_set_string G key v t
      | HP_INT32 i \<Rightarrow> hal_device_property_set_int key i t
      | HP_UINT64 u \<Rightarrow> hal_device_property_set_uint64 key u t
      | HP_BOOLEAN b \<Rightarrow> hal_device_property_set_bool key b t
      | HP_DOUBLE x \<Rightarrow> hal_device_property_set_double key x t
      | HP_STRLIST l \<Rightarrow>
          and_then (hal_device_property_strlist_clear key False t) (strlist_append_each key l)
      | HP_INVALID \<Rightarrow> (True, t, []))"

definition merge_prepare :: "string \<Rightarrow> hal_property_type \<Rightarrow> hal_device \<Rightarrow> bool outcome" where
  "merge_prepare key type t =
     (if hal_device_property_get_type t key \<noteq> TYPE_INVALID \<and>
         hal_device_property_get_type t key \<noteq> type
      then hal_device_property_remove key t else (True, t, []))"

lemma merge_cb_eq:
  "merge_device_rewrite_cb G tns sns source key t =
     (if prefix sns key
      then and_then
             (merge_prepare (tns @ drop (length sns) key) (hal_device_property_get_type source key) t)
             (\<lambda>t. case hal_device_property_find source key of
                None \<Rightarrow> (True, t, [])
              | Some p \<Rightarrow> merge_value G (tns @ drop (length sns) key) p t)
      else (True, t, []))"
proof (cases "hal_device_property_find source key")
  case None
  then show ?thesis
    by (simp add: merge_device_rewrite_cb_def merge_prepare_def strncmp_eq_prefix Let_def
        hal_device_property_get_type_def)
next
  case (Some p)
  then show ?thesis
    by (cases p) (simp_all add: merge_device_rewrite_cb_def merge_prepare_def merge_value_def
        strncmp_eq_prefix Let_def hal_device_property_get_type_def)
qed

lemma merge_value_eqs:
  "merge_value G key (HP_STRING v) = hal_device_property_set_string G key v"
  "merge_value G key (HP_INT32 i) = hal_device_property_set_int key i"
  "merge_value G key (HP_UINT64 u) = hal_device_property_set_uint64 key u"
  "merge_value G key (HP_BOOLEAN b) = hal_device_property_set_bool key b"
  "merge_value G key (HP_DOUBLE x) = hal_device_property_set_double key x"
  "merge_value G key (HP_STRLIST l) =
     (\<lambda>t. and_then (hal_device_property_strlist_clear key False t) (strlist_append_each key l))"
  "merge_value G key HP_INVALID = (\<lambda>t. (True, t, []))"
  by (simp_all add: merge_value_def fun_eq_iff)

lemma dev_op_merge_value: "dev_op G (merge_value G key p)"
  by (cases p)
    (simp_all add: merge_value_eqs setter_ops dev_op_skip dev_op_and_then dev_op_append_each)

lemma dev_op_merge_prepare: "dev_op G (merge_prepare key type)"
  using dev_op_if [OF remove.dev_op_axioms [of G key] dev_op_skip [of G True],
      of "\<lambda>t. hal_device_property_get_type t key \<noteq> TYPE_INVALID \<and>
              hal_device_property_get_type t key \<noteq> type"]
  by (simp add: merge_prepare_def [abs_def])

interpretation merge_cb: dev_op G "merge_device_rewrite_cb G tns sns src key" for G tns sns src key
proof (rule dev_opI)
  fix d
  let ?k = "tns @ drop (length sns) key"
  have value_op: "dev_op G (\<lambda>t. case hal_device_property_find src key of
          None \<Rightarrow> (True, t, []) | Some p \<Rightarrow> merge_value G ?k p t)"
    by (cases "hal_device_property_find src key") (simp_all add: dev_op_skip dev_op_merge_value)
  show "\<exists>f. dev_op G f \<and> merge_device_rewrite_cb G tns sns src key d = f d"
    using dev_op_and_then [OF dev_op_merge_prepare value_op] dev_op_skip [of G True]
    by (auto simp: merge_cb_eq)
qed

lemma foreach_merge_op:
  assumes "foreach_keys (\<lambda>key out. and_then out (merge_device_rewrite_cb G tns sns src key)) al
             (r, d1, es1) = (r', d', es)"
    and "traced d d1 es1" and "glib_ok G \<longrightarrow> dev_wf G d \<longrightarrow> dev_wf G d1"
  shows "traced d d' es \<and> (glib_ok G \<longrightarrow> dev_wf G d \<longrightarrow> dev_wf G d')"
  using assms
proof (induction al arbitrary: r d1 es1)
  case (Cons kp al)
  obtain k p where kp: "kp = (k, p)" by (cases kp)
  obtain r2 d2 es2 where cb: "merge_device_rewrite_cb G tns sns src k d1 = (r2, d2, es2)"
    by (cases "merge_device_rewrite_cb G tns sns src k d1") auto
  have "traced d d2 (es1 @ es2)"
    using Cons.prems(2) merge_cb.truthful [OF cb] by (rule traced_trans)
  moreover have "glib_ok G \<longrightarrow> dev_wf G d \<longrightarrow> dev_wf G d2"
    using Cons.prems(3) merge_cb.keeps_wf [OF _ _ cb] by blast
  ultimately show ?case
    using Cons.IH [of r2 d2 "es1 @ es2"] Cons.prems(1) kp cb by (simp add: and_then_def)
qed simp

interpretation merge: dev_op G "hal_device_merge_with_rewrite G src tns sns" for G src tns sns
proof
  fix d r d' es
  assume "hal_device_merge_with_rewrite G src tns sns d = (r, d', es)"
  then have "foreach_keys (\<lambda>key out. and_then out (merge_device_rewrite_cb G tns sns src key))
      (props src) (True, d, []) = (r, d', es)"
    by (simp add: hal_device_merge_with_rewrite_def hal_device_property_foreach_def)
  from foreach_merge_op [OF this traced_refl]
  have *: "traced d d' es \<and> (glib_ok G \<longrightarrow> dev_wf G d \<longrightarrow> dev_wf G d')" by blast
  show "traced d d' es" using * by blast
  show "dev_wf G d'" if "glib_ok G" "dev_wf G d" using * that by blast
qed

section \<open>What the setters store\<close>

text \<open>Two values a reader cannot tell apart by the C comparison operators.\<close>

fun prop_same :: "hal_property \<Rightarrow> hal_property \<Rightarrow> bool" where
  "prop_same (HP_DOUBLE x) (HP_DOUBLE y) = (x = y \<or> double_eq x y)"
| "prop_same p q = (p = q)"

lemma prop_same_refl [simp]: "prop_same p p"
  by (cases p) auto

lemma append_each_result:
  assumes "strlist_append_each key ls d = (r, d', es)"
    and "hal_device_property_find d key = Some (HP_STRLIST l)"
  shows "hal_device_property_find d' key = Some (HP_STRLIST (l @ ls)) \<and> agree_except key d d'"
  using assms
proof (induction ls arbitrary: d l r es)
  case (Cons v ls)
  let ?d = "insert_prop key (HP_STRLIST (l @ [v])) d"
  obtain es' where "strlist_append_each key ls ?d = (r, d', es')"
    using Cons.prems
    by (auto simp: and_then_def hal_device_property_strlist_append_def Let_def split: prod.splits)
  from Cons.IH [OF this, of "l @ [v]"] show ?case
    by (auto simp: agree_except_def find_insert_other)
qed simp

text \<open>
  After \<open>merge_prepare\<close> and \<open>merge_value\<close> the target holds the value, whatever it held before.
\<close>

lemma merge_prepare_result:
  assumes "merge_prepare key type t = (r, t', es)"
    and "hal_device_property_find t key \<noteq> Some HP_INVALID"
  shows "agree_except key t t' \<and>
    (hal_device_property_find t' key = None \<or> hal_device_property_get_type t' key = type)"
  using assms
  by (auto simp: merge_prepare_def hal_device_property_remove_def hal_device_property_get_type_def Let_def
      split: if_splits option.splits)

lemma merge_value_result:
  assumes "merge_value G key p t = (r, t', es)" and "prop_wf G p"
    and "hal_device_property_find t key = None \<or>
         hal_device_property_get_type t key = hal_property_get_type p"
  shows "agree_except key t t' \<and> (\<exists>q. hal_device_property_find t' key = Some q \<and> prop_same q p)"
proof (cases p)
  case (HP_STRLIST l)
  obtain r1 d1 es1 es2 where
    clr: "hal_device_property_strlist_clear key False t = (r1, d1, es1)" and
    app: "strlist_append_each key l d1 = (r, t', es2)"
    using assms(1) HP_STRLIST by (auto simp: merge_value_eqs and_then_def split: prod.splits)
  have "hal_device_property_find d1 key = Some (HP_STRLIST [])" and "agree_except key t d1"
    using clr assms(3) HP_STRLIST
    by (auto simp: hal_device_property_strlist_clear_def hal_device_property_get_type_def Let_def
        split: option.splits if_splits)
  with append_each_result [OF app] HP_STRLIST show ?thesis
    by (auto simp: agree_except_def)
next
  case (HP_STRING v)
  with assms show ?thesis
    by (auto simp: merge_value_eqs hal_device_property_set_string_def hal_device_property_get_type_def
        hal_property_set_string_def strdup_or_empty_def utf8_replace_id Let_def
        split: option.splits if_splits)
qed (use assms in \<open>auto simp: merge_value_eqs hal_device_property_get_type_def Let_def prop_setter_defs
        hal_device_property_set_int_def hal_device_property_set_uint64_def
        hal_device_property_set_bool_def hal_device_property_set_double_def
        split: option.splits if_splits\<close>)

text \<open>One call of the callback, seen through lookups.\<close>

lemma merge_cb_result:
  assumes cb: "merge_device_rewrite_cb G tns sns src key t = (r, t', es)"
    and src: "hal_device_property_find src key = Some p" "prop_wf G p"
    and t: "hal_device_property_find t (tns @ drop (length sns) key) \<noteq> Some HP_INVALID"
  shows "if prefix sns key
         then agree_except (tns @ drop (length sns) key) t t' \<and>
              (\<exists>q. hal_device_property_find t' (tns @ drop (length sns) key) = Some q \<and> prop_same q p)
         else t' = t"
proof (cases "prefix sns key")
  case True
  let ?k = "tns @ drop (length sns) key"
  from cb True src obtain r1 t1 es1 es2 where
    prep: "merge_prepare ?k (hal_property_get_type p) t = (r1, t1, es1)" and
    val: "merge_value G ?k p t1 = (r, t', es2)"
    by (auto simp: merge_cb_eq and_then_def hal_device_property_get_type_def split: prod.splits)
  note prep_res = merge_prepare_result [OF prep t]
  with merge_value_result [OF val src(2)] show ?thesis
    using True by (auto simp: agree_except_def)
next
  case False
  with cb show ?thesis by (simp add: merge_cb_eq)
qed

definition rewritten :: "string \<Rightarrow> string \<Rightarrow> string \<Rightarrow> string" where
  "rewritten tns sns key = tns @ drop (length sns) key"

lemma rewritten_inj:
  "prefix sns k \<Longrightarrow> prefix sns k' \<Longrightarrow> rewritten tns sns k = rewritten tns sns k' \<Longrightarrow> k = k'"
  by (auto simp: rewritten_def prefix_def)

text \<open>
  The iteration over any list of distinct keys of the source: every matching key processed so far
  is present under its rewritten name, and every other key of the target is untouched.
\<close>

lemma foreach_merge_result:
  assumes "foreach_keys (\<lambda>key out. and_then out (merge_device_rewrite_cb G tns sns src key)) al
             (r0, t0, es0) = (r, t, es)"
    and "distinct (map fst al)"
    and "\<And>k p. (k, p) \<in> set al \<Longrightarrow> hal_device_property_find src k = Some p \<and> prop_wf G p"
    and "glib_ok G" and "dev_wf G t0"
  shows "(\<forall>(k, p) \<in> set al. prefix sns k \<longrightarrow>
            (\<exists>q. hal_device_property_find t (rewritten tns sns k) = Some q \<and> prop_same q p)) \<and>
         (\<forall>k. (\<forall>(k', p) \<in> set al. prefix sns k' \<longrightarrow> k \<noteq> rewritten tns sns k') \<longrightarrow>
            hal_device_property_find t k = hal_device_property_find t0 k)"
  using assms
proof (induction al arbitrary: r0 t0 es0)
  case (Cons kp al)
  obtain k p where kp: "kp = (k, p)" by (cases kp)
  obtain r1 t1 es1 where cb: "merge_device_rewrite_cb G tns sns src k t0 = (r1, t1, es1)"
    by (cases "merge_device_rewrite_cb G tns sns src k t0") auto
  have src: "hal_device_property_find src k = Some p" "prop_wf G p" using Cons.prems(3) kp by auto
  have t0: "hal_device_property_find t0 (tns @ drop (length sns) k) \<noteq> Some HP_INVALID"
    using dev_wf_find [OF Cons.prems(5)] by fastforce
  note step = merge_cb_result [OF cb src t0, folded rewritten_def]
  have wf1: "dev_wf G t1" using merge_cb.keeps_wf [OF Cons.prems(4,5) cb] .
  have rest: "foreach_keys (\<lambda>key out. and_then out (merge_device_rewrite_cb G tns sns src key)) al
      (r1, t1, es0 @ es1) = (r, t, es)"
    using Cons.prems(1) cb kp by (simp add: and_then_def)
  have al: "distinct (map fst al)"
    and al_src: "\<And>k p. (k, p) \<in> set al \<Longrightarrow> hal_device_property_find src k = Some p \<and> prop_wf G p"
    using Cons.prems(2,3) by auto
  note IH = Cons.IH [OF rest al al_src Cons.prems(4) wf1]
  have fresh: "k' \<noteq> k" if "(k', q) \<in> set al" for k' q
    using Cons.prems(2) kp that by force
  have other: "\<forall>(k', q) \<in> set al. prefix sns k' \<longrightarrow> rewritten tns sns k \<noteq> rewritten tns sns k'"
    if "prefix sns k"
    using fresh rewritten_inj [OF that] by blast
  show ?case
  proof (cases "prefix sns k")
    case True
    have "hal_device_property_find t (rewritten tns sns k) = hal_device_property_find t1 (rewritten tns sns k)"
      using IH other [OF True] by blast
    with IH step True kp show ?thesis by (auto simp: agree_except_def)
  next
    case False
    with IH step kp show ?thesis by auto
  qed
qed simp

end
