(* ===== verification/Hal_Lock.thy ===== *)
theory Hal_Lock
  imports Hal_Device_Laws
begin

text \<open>
  Named locks on devices (\<open>hald/device.c\<close>, \<open>hal_device_acquire_lock\<close> and below). A lock lives in
  the properties \<open>info.named_locks.NAME.exclusive\<close>, \<open>.locked\<close> and \<open>.dbus_name\<close> of the device and
  in the list \<open>info.named_locks\<close>; the file-level list \<open>locked_devices\<close> holds the devices with at
  least one lock.

  \<open>locked_devices\<close> is a singly linked list whose cells \<open>hal_device_client_disconnected\<close> walks while
  the body of its loop may free them, so the list is modelled with the addresses of its cells: a
  read of a cell that is no longer allocated is the error \<open>Use_After_Free\<close>. Devices are referred to
  by numbers standing for their addresses.
\<close>

section \<open>The set of locked devices\<close>

record locked_set =
  cells :: "(nat \<times> nat) list" \<comment> \<open>address of the cell, device\<close>
  next_cell :: nat \<comment> \<open>an address the allocator has not handed out\<close>

definition add_to_locked_set :: "nat \<Rightarrow> locked_set \<Rightarrow> locked_set" where
  "add_to_locked_set dev L =
     (if dev \<in> snd ` set (cells L) then L
      else L\<lparr>cells := (next_cell L, dev) # cells L, next_cell := Suc (next_cell L)\<rparr>)"

fun slist_remove :: "nat \<Rightarrow> (nat \<times> nat) list \<Rightarrow> (nat \<times> nat) list" where
  "slist_remove dev [] = []"
| "slist_remove dev ((a, x) # cs) = (if x = dev then cs else (a, x) # slist_remove dev cs)"

definition remove_from_locked_set :: "nat \<Rightarrow> locked_set \<Rightarrow> locked_set" where
  "remove_from_locked_set dev L = L\<lparr>cells := slist_remove dev (cells L)\<rparr>"

section \<open>Acquiring and releasing\<close>

text \<open>The property names are printed into a buffer of 256 bytes.\<close>

definition lock_key :: "string \<Rightarrow> string \<Rightarrow> string" where
  "lock_key lock_name field =
     snprintf 256 (''info.named_locks.'' @ lock_name @ ''.'' @ field)"

definition hal_device_acquire_lock ::
    "nat \<Rightarrow> string \<Rightarrow> bool \<Rightarrow> string \<Rightarrow> locked_set \<Rightarrow> hal_device \<Rightarrow> locked_set \<times> bool outcome" where
  "hal_device_acquire_lock dev lock_name exclusive sender L d =
     (if hal_device_property_get_bool d (lock_key lock_name ''exclusive'') then (L, False, d, [])
      else
        (case hal_device_property_set_bool (lock_key lock_name ''exclusive'') exclusive d of
           (_, d1, es1) \<Rightarrow>
        if exclusive \<and> hal_device_has_property d1 (lock_key lock_name ''dbus_name'')
        then (L, False, d1, es1)
        else if hal_device_property_strlist_contains d1 (lock_key lock_name ''dbus_name'') sender
        then (L, False, d1, es1)
        else
        (case hal_device_property_strlist_append (lock_key lock_name ''dbus_name'') sender False d1 of
           (_, d2, es2) \<Rightarrow>
        (case hal_device_property_set_bool (lock_key lock_name ''locked'') True d2 of
           (_, d3, es3) \<Rightarrow>
        (case hal_device_property_strlist_add ''info.named_locks'' lock_name d3 of
           (_, d4, es4) \<Rightarrow>
        (add_to_locked_set dev L, True, d4,
         es1 @ es2 @ es3 @ es4 @ [(LOCK_ACQUIRED lock_name sender, d4)]))))))"

definition hal_device_release_lock ::
    "nat \<Rightarrow> string \<Rightarrow> string \<Rightarrow> locked_set \<Rightarrow> hal_device \<Rightarrow> locked_set \<times> bool outcome" where
  "hal_device_release_lock dev lock_name sender L d =
     (if \<not> hal_device_property_get_bool d (lock_key lock_name ''locked'') then (L, False, d, [])
      else if \<not> hal_device_property_strlist_contains d (lock_key lock_name ''dbus_name'') sender
      then (L, False, d, [])
      else if hal_device_property_get_strlist_length d (lock_key lock_name ''dbus_name'') = 1
      then
        (case hal_device_property_remove (lock_key lock_name ''exclusive'') d of (_, d1, es1) \<Rightarrow>
        (case hal_device_property_remove (lock_key lock_name ''locked'') d1 of (_, d2, es2) \<Rightarrow>
        (case hal_device_property_remove (lock_key lock_name ''dbus_name'') d2 of (_, d3, es3) \<Rightarrow>
         if hal_device_property_get_strlist_length d3 ''info.named_locks'' = 1
         then
           (case hal_device_property_remove ''info.named_locks'' d3 of (_, d4, es4) \<Rightarrow>
            (remove_from_locked_set dev L, True, d4,
             es1 @ es2 @ es3 @ es4 @ [(LOCK_RELEASED lock_name sender, d4)]))
         else
           (case hal_device_property_strlist_remove ''info.named_locks'' lock_name d3 of
              (_, d4, es4) \<Rightarrow>
            (L, True, d4, es1 @ es2 @ es3 @ es4 @ [(LOCK_RELEASED lock_name sender, d4)])))))
      else
        (case hal_device_property_strlist_remove (lock_key lock_name ''dbus_name'') sender d of
           (_, d1, es1) \<Rightarrow> (L, True, d1, es1 @ [(LOCK_RELEASED lock_name sender, d1)])))"

definition hal_device_get_lock_holders :: "hal_device \<Rightarrow> string \<Rightarrow> string list option" where
  "hal_device_get_lock_holders d lock_name =
     hal_device_property_dup_strlist_as_strv d (lock_key lock_name ''dbus_name'')"

definition hal_device_get_num_lock_holders :: "hal_device \<Rightarrow> string \<Rightarrow> nat" where
  "hal_device_get_num_lock_holders d lock_name =
     (case hal_device_get_lock_holders d lock_name of None \<Rightarrow> 0 | Some holders \<Rightarrow> length holders)"

definition hal_device_is_lock_exclusive :: "hal_device \<Rightarrow> string \<Rightarrow> bool" where
  "hal_device_is_lock_exclusive d lock_name =
     hal_device_property_get_bool d (lock_key lock_name ''exclusive'')"

section \<open>A client disconnects\<close>

type_synonym heap = "nat \<Rightarrow> hal_device"

text \<open>The inner loop: release every lock named in the copied list for the sender.\<close>

fun release_locks ::
    "nat \<Rightarrow> string list \<Rightarrow> string \<Rightarrow> locked_set \<Rightarrow> hal_device \<Rightarrow> locked_set \<times> hal_device \<times> emission list" where
  "release_locks dev [] sender L d = (L, d, [])"
| "release_locks dev (lock_name # locks) sender L d =
     (case hal_device_release_lock dev lock_name sender L d of
        (L1, _, d1, es1) \<Rightarrow>
          (case release_locks dev locks sender L1 d1 of (L2, d2, es2) \<Rightarrow> (L2, d2, es1 @ es2)))"

text \<open>The cell after the cell at an address, if the cell is still allocated.\<close>

fun next_of :: "nat \<Rightarrow> (nat \<times> nat) list \<Rightarrow> nat option option" where
  "next_of a [] = None"
| "next_of a ((b, x) # cs) =
     (if a = b then Some (case cs of [] \<Rightarrow> None | (c, _) # _ \<Rightarrow> Some c) else next_of a cs)"

definition disconnect_body ::
    "string \<Rightarrow> nat \<Rightarrow> locked_set \<Rightarrow> heap \<Rightarrow> locked_set \<times> heap \<times> (nat \<times> emission) list" where
  "disconnect_body sender dev L h =
     (case hal_device_property_dup_strlist_as_strv (h dev) ''info.named_locks'' of
        None \<Rightarrow> (L, h, [])
      | Some locks \<Rightarrow>
          (case release_locks dev locks sender L (h dev) of
             (L', d', es) \<Rightarrow> (L', h(dev := d'), map (Pair dev) es)))"

text \<open>
  The outer loop from the cell \<open>i\<close>. Its fuel is the number of cells plus one; the list only shrinks
  during the walk. Out of fuel is not an error of the program and is reported as \<^const>\<open>None\<close>.
\<close>

fun disconnect_walk ::
    "nat \<Rightarrow> string \<Rightarrow> nat option \<Rightarrow> locked_set \<Rightarrow> heap \<Rightarrow> (nat \<times> emission) list \<Rightarrow>
     (memory_error + locked_set \<times> heap \<times> (nat \<times> emission) list) option" where
  "disconnect_walk fuel sender None L h es = Some (Inr (L, h, es))"
| "disconnect_walk 0 sender (Some i) L h es = None"
| "disconnect_walk (Suc fuel) sender (Some i) L h es =
     (case map_of (cells L) i of
        None \<Rightarrow> Some (Inl Use_After_Free)
      | Some dev \<Rightarrow>
          (case disconnect_body sender dev L h of
             (L', h', es') \<Rightarrow>
               (case next_of i (cells L') of
                  None \<Rightarrow> Some (Inl Use_After_Free)
                | Some n \<Rightarrow> disconnect_walk fuel sender n L' h' (es @ es'))))"

definition hal_device_client_disconnected ::
    "string \<Rightarrow> locked_set \<Rightarrow> heap \<Rightarrow> (memory_error + locked_set \<times> heap \<times> (nat \<times> emission) list) option" where
  "hal_device_client_disconnected sender L h =
     disconnect_walk (Suc (length (cells L))) sender
       (case cells L of [] \<Rightarrow> None | (a, _) # _ \<Rightarrow> Some a) L h []"

section \<open>Specification\<close>

text \<open>
  The abstract state of the locks of a device: per name the holders, oldest first, and whether the
  lock is marked exclusive. \<open>spec_acquire\<close> and \<open>spec_release\<close> are what the code does to that state;
  note the branch of \<open>spec_acquire\<close> that refuses an exclusive request and still sets the mark.
\<close>

type_synonym locks = "string \<Rightarrow> (string list \<times> bool) option"

definition spec_acquire :: "string \<Rightarrow> bool \<Rightarrow> string \<Rightarrow> locks \<Rightarrow> bool \<times> locks" where
  "spec_acquire name ex s T =
     (case T name of
        None \<Rightarrow> (True, T(name \<mapsto> ([s], ex)))
      | Some (hs, e) \<Rightarrow>
          if e then (False, T)
          else if ex then (False, T(name \<mapsto> (hs, True)))
          else if s \<in> set hs then (False, T)
          else (True, T(name \<mapsto> (hs @ [s], False))))"

definition spec_release :: "string \<Rightarrow> string \<Rightarrow> locks \<Rightarrow> bool \<times> locks" where
  "spec_release name s T =
     (case T name of
        None \<Rightarrow> (False, T)
      | Some (hs, e) \<Rightarrow>
          if s \<notin> set hs then (False, T)
          else if length hs = 1 then (True, T(name := None))
          else (True, T(name \<mapsto> (remove1 s hs, e))))"

text \<open>Names whose property names fit the buffer.\<close>

definition short_name :: "string \<Rightarrow> bool" where
  "short_name name \<longleftrightarrow> length name \<le> 228"

definition lock_table :: "hal_device \<Rightarrow> locks" where
  "lock_table d name =
     (if short_name name
      then (case hal_device_property_find d (lock_key name ''dbus_name'') of
              Some (HP_STRLIST hs) \<Rightarrow> Some (hs, hal_device_property_get_bool d (lock_key name ''exclusive''))
            | _ \<Rightarrow> None)
      else None)"

text \<open>The properties of one lock agree with a state of it.\<close>

definition lock_props :: "hal_device \<Rightarrow> string \<Rightarrow> (string list \<times> bool) option \<Rightarrow> bool" where
  "lock_props d name st \<longleftrightarrow>
     (case st of
        None \<Rightarrow>
          hal_device_property_find d (lock_key name ''exclusive'') = None \<and>
          hal_device_property_find d (lock_key name ''dbus_name'') = None \<and>
          hal_device_property_find d (lock_key name ''locked'') = None
      | Some (hs, e) \<Rightarrow>
          hal_device_property_find d (lock_key name ''exclusive'') = Some (HP_BOOLEAN e) \<and>
          hal_device_property_find d (lock_key name ''dbus_name'') = Some (HP_STRLIST hs) \<and>
          hal_device_property_find d (lock_key name ''locked'') = Some (HP_BOOLEAN True) \<and>
          hs \<noteq> [] \<and> distinct hs)"

text \<open>The invariant of the lock properties of a device.\<close>

definition held_names :: "hal_device \<Rightarrow> string list option \<Rightarrow> bool" where
  "held_names d ls \<longleftrightarrow>
     (case ls of
        None \<Rightarrow> hal_device_property_find d ''info.named_locks'' = None
      | Some l \<Rightarrow> hal_device_property_find d ''info.named_locks'' = Some (HP_STRLIST l) \<and>
                 l \<noteq> [] \<and> distinct l)"

definition names_of :: "string list option \<Rightarrow> string set" where
  "names_of ls = (case ls of None \<Rightarrow> {} | Some l \<Rightarrow> set l)"

definition locks_ok :: "hal_device \<Rightarrow> bool" where
  "locks_ok d \<longleftrightarrow>
     (\<forall>name. short_name name \<longrightarrow> lock_props d name (lock_table d name)) \<and>
     (\<exists>ls. held_names d ls \<and> names_of ls = {name. lock_table d name \<noteq> None})"

section \<open>The property names of locks\<close>

lemma lock_key_short:
  "short_name name \<Longrightarrow> length f \<le> 9 \<Longrightarrow> lock_key name f = ''info.named_locks.'' @ name @ ''.'' @ f"
  by (simp add: lock_key_def short_name_def snprintf_fits)

lemma fields_differ:
  "n @ ''.exclusive'' \<noteq> m @ ''.dbus_name''"
  "n @ ''.exclusive'' \<noteq> m @ ''.locked''"
  "n @ ''.dbus_name'' \<noteq> m @ ''.locked''"
  by (auto dest!: arg_cong [where f = "\<lambda>x. take 2 (rev x)"])

lemma lock_key_eq [simp]:
  assumes "short_name n" and "short_name m"
  shows "lock_key n ''exclusive'' = lock_key m ''exclusive'' \<longleftrightarrow> n = m"
    and "lock_key n ''dbus_name'' = lock_key m ''dbus_name'' \<longleftrightarrow> n = m"
    and "lock_key n ''locked'' = lock_key m ''locked'' \<longleftrightarrow> n = m"
    and "lock_key n ''exclusive'' \<noteq> lock_key m ''dbus_name''"
    and "lock_key n ''exclusive'' \<noteq> lock_key m ''locked''"
    and "lock_key n ''dbus_name'' \<noteq> lock_key m ''locked''"
    and "lock_key n ''dbus_name'' \<noteq> lock_key m ''exclusive''"
    and "lock_key n ''locked'' \<noteq> lock_key m ''exclusive''"
    and "lock_key n ''locked'' \<noteq> lock_key m ''dbus_name''"
  using assms fields_differ [of n m] fields_differ [of m n]
  by (simp_all add: lock_key_short)

lemma lock_key_not_list [simp]:
  assumes "short_name n"
  shows "lock_key n ''exclusive'' \<noteq> ''info.named_locks''"
    and "lock_key n ''dbus_name'' \<noteq> ''info.named_locks''"
    and "lock_key n ''locked'' \<noteq> ''info.named_locks''"
  using assms by (simp_all add: lock_key_short)

lemmas lock_key_not_list_sym [simp] = lock_key_not_list [symmetric]

section \<open>Refinement: the code implements the specification\<close>

lemma lock_props_table: "short_name name \<Longrightarrow> lock_props d name st \<Longrightarrow> lock_table d name = st"
  by (auto simp: lock_props_def lock_table_def hal_device_property_get_bool_def split: option.splits)

lemma locks_ok_props: "locks_ok d \<Longrightarrow> short_name name \<Longrightarrow> lock_props d name (lock_table d name)"
  by (simp add: locks_ok_def)

lemma lock_table_short: "lock_table d name = Some st \<Longrightarrow> short_name name"
  by (simp add: lock_table_def split: if_splits)

text \<open>An update of the properties of one lock that also maintains the list of names.\<close>

lemma locks_okI:
  assumes ok: "locks_ok d" and name: "short_name name"
    and others: "\<And>m f. short_name m \<Longrightarrow> m \<noteq> name \<Longrightarrow> f \<in> {''exclusive'', ''dbus_name'', ''locked''} \<Longrightarrow>
        hal_device_property_find d' (lock_key m f) = hal_device_property_find d (lock_key m f)"
    and props: "lock_props d' name st"
    and list: "held_names d' ls" "names_of ls = {m. ((lock_table d)(name := st)) m \<noteq> None}"
  shows "locks_ok d'" and "lock_table d' = (lock_table d)(name := st)"
proof -
  have same: "lock_table d' m = lock_table d m" if "m \<noteq> name" for m
  proof (cases "short_name m")
    case True
    note o = others [OF True that]
    have "hal_device_property_find d' (lock_key m ''exclusive'') = hal_device_property_find d (lock_key m ''exclusive'')"
      and "hal_device_property_find d' (lock_key m ''dbus_name'') = hal_device_property_find d (lock_key m ''dbus_name'')"
      by (rule o, simp)+
    then show ?thesis
      by (simp add: lock_table_def hal_device_property_get_bool_def
          split: option.split hal_property.split)
  qed (simp add: lock_table_def)
  show table: "lock_table d' = (lock_table d)(name := st)"
    using same lock_props_table [OF name props] by auto
  have "lock_props d' m (lock_table d' m)" if "short_name m" for m
  proof (cases "m = name")
    case True
    with props table show ?thesis by simp
  next
    case False
    with locks_ok_props [OF ok that] others [OF that False] table show ?thesis
      by (auto simp: lock_props_def split: option.splits)
  qed
  with list table show "locks_ok d'" by (auto simp: locks_ok_def)
qed

lemma get_strlist_length_eq:
  "hal_device_property_get_strlist_length d key = length (hal_device_property_get_strlist d key)"
  by (simp add: hal_device_property_get_strlist_length_def split: list.split)

lemmas lookups =
  hal_device_property_get_bool_def hal_device_has_property_def hal_device_property_get_strlist_def
  hal_device_property_strlist_contains_def get_strlist_length_eq

lemmas lock_steps =
  hal_device_property_set_bool_def hal_device_property_strlist_append_def
  hal_device_property_strlist_add_def hal_device_property_remove_def
  hal_device_property_strlist_remove_def

text \<open>A free lock is granted.\<close>

lemma acquire_free:
  assumes ok: "locks_ok d" and name: "short_name name" and free: "lock_table d name = None"
    and run: "hal_device_acquire_lock dev name ex s L d = (L', r, d', es)"
  shows "r" and "L' = add_to_locked_set dev L" and "locks_ok d'"
    and "lock_table d' = (lock_table d)(name \<mapsto> ([s], ex))"
proof -
  note free_props = locks_ok_props [OF ok name, unfolded free lock_props_def, simplified]
  obtain ls where list: "held_names d ls" and ls: "names_of ls = {m. lock_table d m \<noteq> None}"
    using ok by (auto simp: locks_ok_def)
  have new: "name \<notin> names_of ls" using ls free by simp
  show "r" "L' = add_to_locked_set dev L"
    using run free_props name
    by (auto simp: hal_device_acquire_lock_def lookups lock_steps Let_def find_insert prop_setter_defs
        split: option.splits if_splits prod.splits)
  let ?ls = "case ls of None \<Rightarrow> [name] | Some l \<Rightarrow> l @ [name]"
  have d': "d' = insert_prop ''info.named_locks'' (HP_STRLIST ?ls)
      (insert_prop (lock_key name ''locked'') (HP_BOOLEAN True)
      (insert_prop (lock_key name ''dbus_name'') (HP_STRLIST [s])
      (insert_prop (lock_key name ''exclusive'') (HP_BOOLEAN ex) d)))"
    using run free_props name list new
    by (cases ls) (auto simp: hal_device_acquire_lock_def lookups lock_steps Let_def find_insert
        prop_setter_defs held_names_def names_of_def
        split: option.splits if_splits prod.splits)
  have held: "held_names d' (Some ?ls)" "names_of (Some ?ls) = {m. ((lock_table d)(name \<mapsto> ([s], ex))) m \<noteq> None}"
    using list ls new name
    by (cases ls; auto simp: d' held_names_def names_of_def find_insert)+
  have props: "lock_props d' name (Some ([s], ex))"
    using name by (simp add: d' lock_props_def find_insert)
  have others: "hal_device_property_find d' (lock_key m f) = hal_device_property_find d (lock_key m f)"
    if "short_name m" "m \<noteq> name" "f \<in> {''exclusive'', ''dbus_name'', ''locked''}" for m f
    using that name by (auto simp: d' find_insert)
  show "locks_ok d'" "lock_table d' = (lock_table d)(name \<mapsto> ([s], ex))"
    using locks_okI [OF ok name others props held] by blast+
qed

text \<open>What is known of a lock that is held.\<close>

lemma held_facts:
  assumes ok: "locks_ok d" and held: "lock_table d name = Some (hs, e)"
  obtains ls where "short_name name"
    and "hal_device_property_find d (lock_key name ''exclusive'') = Some (HP_BOOLEAN e)"
    and "hal_device_property_find d (lock_key name ''dbus_name'') = Some (HP_STRLIST hs)"
    and "hal_device_property_find d (lock_key name ''locked'') = Some (HP_BOOLEAN True)"
    and "hs \<noteq> []" and "distinct hs"
    and "hal_device_property_find d ''info.named_locks'' = Some (HP_STRLIST ls)"
    and "distinct ls" and "set ls = {m. lock_table d m \<noteq> None}" and "name \<in> set ls"
proof -
  have short: "short_name name" using held by (rule lock_table_short)
  obtain nl where nl: "held_names d nl" "names_of nl = {m. lock_table d m \<noteq> None}"
    using ok by (auto simp: locks_ok_def)
  then have "name \<in> names_of nl" using held by simp
  then obtain ls where "nl = Some ls" by (cases nl) (auto simp: names_of_def)
  with nl held locks_ok_props [OF ok short] short show thesis
    by (intro that [of ls]) (auto simp: held_names_def names_of_def lock_props_def)
qed

text \<open>A change of one lock that keeps the set of held names.\<close>

lemma locks_ok_same_names:
  assumes ok: "locks_ok d" and held: "lock_table d name = Some st"
    and others: "\<And>m f. short_name m \<Longrightarrow> m \<noteq> name \<Longrightarrow> f \<in> {''exclusive'', ''dbus_name'', ''locked''} \<Longrightarrow>
        hal_device_property_find d' (lock_key m f) = hal_device_property_find d (lock_key m f)"
    and props: "lock_props d' name (Some st')"
    and list: "hal_device_property_find d' ''info.named_locks'' = hal_device_property_find d ''info.named_locks''"
  shows "locks_ok d'" and "lock_table d' = (lock_table d)(name \<mapsto> st')"
proof -
  obtain nl where nl: "held_names d nl" "names_of nl = {m. lock_table d m \<noteq> None}"
    using ok by (auto simp: locks_ok_def)
  have "held_names d' nl" using nl(1) list by (simp add: held_names_def split: option.splits)
  moreover have "names_of nl = {m. ((lock_table d)(name \<mapsto> st')) m \<noteq> None}"
    using nl(2) held by auto
  ultimately show "locks_ok d'" "lock_table d' = (lock_table d)(name \<mapsto> st')"
    using locks_okI [OF ok lock_table_short [OF held] others props] by blast+
qed

text \<open>A request for a lock that is held.\<close>

lemma acquire_held:
  assumes ok: "locks_ok d" and held: "lock_table d name = Some (hs, e)"
    and run: "hal_device_acquire_lock dev name ex s L d = (L', r, d', es)"
  shows "spec_acquire name ex s (lock_table d) = (r, lock_table d')" and "locks_ok d'"
    and "L' = (if r then add_to_locked_set dev L else L)"
proof -
  obtain ls where f: "short_name name"
    "hal_device_property_find d (lock_key name ''exclusive'') = Some (HP_BOOLEAN e)"
    "hal_device_property_find d (lock_key name ''dbus_name'') = Some (HP_STRLIST hs)"
    "hal_device_property_find d (lock_key name ''locked'') = Some (HP_BOOLEAN True)"
    "hs \<noteq> []" "distinct hs"
    "hal_device_property_find d ''info.named_locks'' = Some (HP_STRLIST ls)" "name \<in> set ls"
    using held_facts [OF ok held] by metis
  have res: "r = (\<not> e \<and> \<not> ex \<and> s \<notin> set hs)"
    "L' = (if r then add_to_locked_set dev L else L)"
    "d' = (if e then d
           else if ex then insert_prop (lock_key name ''exclusive'') (HP_BOOLEAN True) d
           else if s \<in> set hs then d
           else insert_prop (lock_key name ''dbus_name'') (HP_STRLIST (hs @ [s])) d)"
    using run f
    by (auto simp: hal_device_acquire_lock_def lookups lock_steps Let_def find_insert prop_setter_defs
        split: option.splits if_splits prod.splits)
  let ?st = "if e then (hs, e) else if ex then (hs, True) else if s \<in> set hs then (hs, e) else (hs @ [s], False)"
  have props: "lock_props d' name (Some ?st)"
    using res(3) f by (simp add: lock_props_def find_insert)
  have others: "hal_device_property_find d' (lock_key m k) = hal_device_property_find d (lock_key m k)"
    if "short_name m" "m \<noteq> name" "k \<in> {''exclusive'', ''dbus_name'', ''locked''}" for m k
    using that res(3) f(1) by (auto simp: find_insert)
  have list: "hal_device_property_find d' ''info.named_locks'' = hal_device_property_find d ''info.named_locks''"
    using res(3) f(1) by (simp add: find_insert)
  note concl = locks_ok_same_names [OF ok held others props list]
  show "locks_ok d'" by (rule concl(1))
  show "spec_acquire name ex s (lock_table d) = (r, lock_table d')"
    using held concl(2) res(1) by (auto simp: spec_acquire_def fun_upd_idem)
  show "L' = (if r then add_to_locked_set dev L else L)" by (rule res(2))
qed

text \<open>Releasing: the last holder clears the lock, any other leaves it to the remaining holders.\<close>

lemma release_last:
  assumes ok: "locks_ok d" and held: "lock_table d name = Some ([s], e)"
    and run: "hal_device_release_lock dev name s L d = (L', r, d', es)"
  shows "r" and "locks_ok d'" and "lock_table d' = (lock_table d)(name := None)"
    and "L' = (if \<forall>m. lock_table d' m = None then remove_from_locked_set dev L else L)"
proof -
  obtain ls where f: "short_name name"
    "hal_device_property_find d (lock_key name ''exclusive'') = Some (HP_BOOLEAN e)"
    "hal_device_property_find d (lock_key name ''dbus_name'') = Some (HP_STRLIST [s])"
    "hal_device_property_find d (lock_key name ''locked'') = Some (HP_BOOLEAN True)"
    and nl: "hal_device_property_find d ''info.named_locks'' = Some (HP_STRLIST ls)"
    "distinct ls" "set ls = {m. lock_table d m \<noteq> None}" "name \<in> set ls"
    using held_facts [OF ok held] by metis
  let ?d3 = "remove_prop (lock_key name ''dbus_name'')
      (remove_prop (lock_key name ''locked'') (remove_prop (lock_key name ''exclusive'') d))"
  have res: "r" "L' = (if length ls = 1 then remove_from_locked_set dev L else L)"
    "d' = (if length ls = 1 then remove_prop ''info.named_locks'' ?d3
           else insert_prop ''info.named_locks'' (HP_STRLIST (remove1 name ls)) ?d3)"
    using run f nl
    by (auto simp: hal_device_release_lock_def lookups lock_steps Let_def find_remove find_insert
        split: if_splits)
  show "r" by (rule res(1))
  have props: "lock_props d' name None"
    using res(3) f(1) by (simp add: lock_props_def find_insert find_remove)
  have others: "hal_device_property_find d' (lock_key m k) = hal_device_property_find d (lock_key m k)"
    if "short_name m" "m \<noteq> name" "k \<in> {''exclusive'', ''dbus_name'', ''locked''}" for m k
    using that res(3) f(1) by (auto simp: find_insert find_remove)
  let ?nl = "if length ls = 1 then None else Some (remove1 name ls)"
  have single: "ls = [name]" if "length ls = 1"
    using that nl(4) by (cases ls) auto
  have many: "remove1 name ls \<noteq> []" if "length ls \<noteq> 1"
    using that nl(4) length_remove1 [of name ls] by (cases ls) auto
  have list: "held_names d' ?nl" "names_of ?nl = {m. ((lock_table d)(name := None)) m \<noteq> None}"
    using res(3) nl f(1) single many
    by (auto simp: held_names_def names_of_def find_insert find_remove split: if_splits)
  note concl = locks_okI [OF ok f(1) others props list]
  show "locks_ok d'" "lock_table d' = (lock_table d)(name := None)" using concl by blast+
  have "length ls = 1 \<longleftrightarrow> (\<forall>m. lock_table d' m = None)"
  proof -
    have "(\<forall>m. lock_table d' m = None) \<longleftrightarrow> {m. lock_table d' m \<noteq> None} = {}"
      by (simp only: Collect_empty_eq not_not)
    also have "\<dots> \<longleftrightarrow> names_of ?nl = {}" using list(2) concl(2) by simp
    also have "\<dots> \<longleftrightarrow> length ls = 1" using many by (auto simp: names_of_def)
    finally show ?thesis by simp
  qed
  with res(2) show "L' = (if \<forall>m. lock_table d' m = None then remove_from_locked_set dev L else L)"
    by simp
qed

lemma release_other:
  assumes ok: "locks_ok d" and held: "lock_table d name = Some (hs, e)" and many: "hs \<noteq> [s]"
    and run: "hal_device_release_lock dev name s L d = (L', r, d', es)"
  shows "spec_release name s (lock_table d) = (r, lock_table d')" and "locks_ok d'" and "L' = L"
proof -
  obtain ls where f: "short_name name"
    "hal_device_property_find d (lock_key name ''exclusive'') = Some (HP_BOOLEAN e)"
    "hal_device_property_find d (lock_key name ''dbus_name'') = Some (HP_STRLIST hs)"
    "hal_device_property_find d (lock_key name ''locked'') = Some (HP_BOOLEAN True)"
    "hs \<noteq> []" "distinct hs"
    using held_facts [OF ok held] by metis
  have len: "length hs \<noteq> Suc 0" if "s \<in> set hs"
    using that many by (cases hs) auto
  have res: "r = (s \<in> set hs)" "L' = L"
    "d' = (if s \<in> set hs then insert_prop (lock_key name ''dbus_name'') (HP_STRLIST (remove1 s hs)) d else d)"
    using run f len
    by (cases "s \<in> set hs"; auto simp: hal_device_release_lock_def lookups lock_steps Let_def)+
  have nonempty: "remove1 s hs \<noteq> []" if "s \<in> set hs"
    using that len f(5) length_remove1 [of s hs] by (cases hs) auto
  have props: "lock_props d' name (Some (remove1 s hs, e))"
    using res(3) f nonempty by (simp add: lock_props_def find_insert remove1_idem)
  have others: "hal_device_property_find d' (lock_key m k) = hal_device_property_find d (lock_key m k)"
    if "short_name m" "m \<noteq> name" "k \<in> {''exclusive'', ''dbus_name'', ''locked''}" for m k
    using that res(3) f(1) by (auto simp: find_insert)
  have list: "hal_device_property_find d' ''info.named_locks'' = hal_device_property_find d ''info.named_locks''"
    using res(3) f(1) by (simp add: find_insert)
  note concl = locks_ok_same_names [OF ok held others props list]
  show "locks_ok d'" by (rule concl(1))
  show "spec_release name s (lock_table d) = (r, lock_table d')"
    using held concl(2) res(1) len by (auto simp: spec_release_def fun_upd_idem remove1_idem)
  show "L' = L" by (rule res(2))
qed

lemma release_free:
  assumes ok: "locks_ok d" and name: "short_name name" and free: "lock_table d name = None"
  shows "hal_device_release_lock dev name s L d = (L, False, d, [])"
  using locks_ok_props [OF ok name] free
  by (simp add: lock_props_def hal_device_release_lock_def lookups)

text \<open>Both operations refine their specification and keep the invariant.\<close>

lemma acquire_refines:
  assumes "locks_ok d" and "short_name name"
    and "hal_device_acquire_lock dev name ex s L d = (L', r, d', es)"
  shows "spec_acquire name ex s (lock_table d) = (r, lock_table d')" and "locks_ok d'"
    and "L' = (if r then add_to_locked_set dev L else L)"
proof -
  have "spec_acquire name ex s (lock_table d) = (r, lock_table d') \<and> locks_ok d' \<and>
      L' = (if r then add_to_locked_set dev L else L)"
  proof (cases "lock_table d name")
    case None
    with acquire_free [OF assms(1,2) None assms(3)] show ?thesis by (simp add: spec_acquire_def)
  next
    case (Some st)
    obtain hs e where "st = (hs, e)" by (cases st)
    with acquire_held [OF assms(1) _ assms(3)] Some show ?thesis by blast
  qed
  then show "spec_acquire name ex s (lock_table d) = (r, lock_table d')" and "locks_ok d'"
    and "L' = (if r then add_to_locked_set dev L else L)"
    by blast+
qed

lemma release_refines:
  assumes "locks_ok d" and "short_name name"
    and "hal_device_release_lock dev name s L d = (L', r, d', es)"
  shows "spec_release name s (lock_table d) = (r, lock_table d')" and "locks_ok d'"
    and "L' = (if r \<and> (\<forall>m. lock_table d' m = None) then remove_from_locked_set dev L else L)"
proof -
  have "spec_release name s (lock_table d) = (r, lock_table d') \<and> locks_ok d' \<and>
      L' = (if r \<and> (\<forall>m. lock_table d' m = None) then remove_from_locked_set dev L else L)"
  proof (cases "lock_table d name")
    case None
    with release_free [OF assms(1,2) None, of dev s L] assms show ?thesis by (simp add: spec_release_def)
  next
    case (Some st)
    obtain hs e where st: "st = (hs, e)" by (cases st)
    show ?thesis
    proof (cases "hs = [s]")
      case True
      with release_last [OF assms(1) _ assms(3)] Some st show ?thesis by (simp add: spec_release_def)
    next
      case False
      note other = release_other [OF assms(1) _ False assms(3), of e]
      have "length hs \<noteq> 1" if "s \<in> set hs" using that False by (cases hs) auto
      then have "lock_table d' = (lock_table d)(name \<mapsto> (remove1 s hs, e))" if r
        using other(1) Some st that by (auto simp: spec_release_def split: if_splits)
      then have "lock_table d' name = Some (remove1 s hs, e)" if r using that by simp
      then have "\<not> (r \<and> (\<forall>m. lock_table d' m = None))" by (metis option.distinct(1))
      with other Some st show ?thesis by (simp only: if_False simp_thms)
    qed
  qed
  then show "spec_release name s (lock_table d) = (r, lock_table d')" and "locks_ok d'"
    and "L' = (if r \<and> (\<forall>m. lock_table d' m = None) then remove_from_locked_set dev L else L)"
    by blast+
qed

end
