(* ===== verification/Hal_Device_Calls.thy ===== *)
theory Hal_Device_Calls
  imports Hal_Lock
begin

text \<open>
  Every call a client of \<open>hald/device.c\<close> can make on one device, as a datatype, and sequences of
  such calls. The contract \<open>dev_op\<close> of \<open>Hal_Device_Laws\<close> holds for each of them, so the
  well-formedness of the property table and the truthfulness of the signals hold over any sequence:
  what \<open>Hal_Store\<close> builds its index on.
\<close>

section \<open>The lock operations are device operations\<close>

lemma dev_op_announce:
  assumes "\<And>k c s. track k c [(sig, s)] = Some c"
  shows "dev_op G (\<lambda>d. (r, d, [(sig, d)]))"
  by unfold_locales (auto simp: traced_def assms)

lemma acquire_lock_eq:
  "snd (hal_device_acquire_lock dev n ex s L d) =
     (if hal_device_property_get_bool d (lock_key n ''exclusive'') then (False, d, [])
      else and_then (hal_device_property_set_bool (lock_key n ''exclusive'') ex d)
        (\<lambda>d. if ex \<and> hal_device_has_property d (lock_key n ''dbus_name'') then (False, d, [])
             else if hal_device_property_strlist_contains d (lock_key n ''dbus_name'') s then (False, d, [])
             else and_then (hal_device_property_strlist_append (lock_key n ''dbus_name'') s False d)
               (\<lambda>d. and_then (hal_device_property_set_bool (lock_key n ''locked'') True d)
                 (\<lambda>d. and_then (hal_device_property_strlist_add ''info.named_locks'' n d)
                   (\<lambda>d. (True, d, [(LOCK_ACQUIRED n s, d)]))))))"
  by (auto simp: hal_device_acquire_lock_def and_then_def split: prod.splits)

interpretation acquire_lock: dev_op G "\<lambda>d. snd (hal_device_acquire_lock dev n ex s L d)" for G dev n ex s L
  unfolding acquire_lock_eq
  by (intro dev_op_if dev_op_skip dev_op_and_then setter_ops dev_op_announce) simp

lemma release_lock_eq:
  "snd (hal_device_release_lock dev n s L d) =
     (if \<not> hal_device_property_get_bool d (lock_key n ''locked'') then (False, d, [])
      else if \<not> hal_device_property_strlist_contains d (lock_key n ''dbus_name'') s then (False, d, [])
      else if hal_device_property_get_strlist_length d (lock_key n ''dbus_name'') = 1
      then and_then (hal_device_property_remove (lock_key n ''exclusive'') d)
        (\<lambda>d. and_then (hal_device_property_remove (lock_key n ''locked'') d)
          (\<lambda>d. and_then (hal_device_property_remove (lock_key n ''dbus_name'') d)
            (\<lambda>d. if hal_device_property_get_strlist_length d ''info.named_locks'' = 1
                 then and_then (hal_device_property_remove ''info.named_locks'' d)
                        (\<lambda>d. (True, d, [(LOCK_RELEASED n s, d)]))
                 else and_then (hal_device_property_strlist_remove ''info.named_locks'' n d)
                        (\<lambda>d. (True, d, [(LOCK_RELEASED n s, d)])))))
      else and_then (hal_device_property_strlist_remove (lock_key n ''dbus_name'') s d)
             (\<lambda>d. (True, d, [(LOCK_RELEASED n s, d)])))"
  by (auto simp: hal_device_release_lock_def and_then_def split: prod.splits)

interpretation release_lock: dev_op G "\<lambda>d. snd (hal_device_release_lock dev n s L d)" for G dev n s L
  unfolding release_lock_eq
  by (intro dev_op_if dev_op_skip dev_op_and_then setter_ops dev_op_announce) simp_all

section \<open>Sequences of calls\<close>

datatype dev_call =
    Set_String string "string option"
  | Set_Int string int32
  | Set_Uint64 string uint64
  | Set_Bool string bool
  | Set_Double string double
  | Set_Strlist string "string list"
  | Remove string
  | Strlist_Append string string bool
  | Strlist_Finish_Changeset string bool
  | Strlist_Prepend string string
  | Strlist_Remove_Elem string nat
  | Strlist_Clear string bool
  | Strlist_Add string string
  | Strlist_Remove string string
  | Set_Udi string
  | Add_Capability string
  | Copy_Property hal_device string string
  | Merge hal_device string string
  | Acquire_Lock nat string bool string locked_set
  | Release_Lock nat string string locked_set

fun dev_step :: "glib \<Rightarrow> dev_call \<Rightarrow> hal_device \<Rightarrow> bool outcome" where
  "dev_step G (Set_String k v) = hal_device_property_set_string G k v"
| "dev_step G (Set_Int k v) = hal_device_property_set_int k v"
| "dev_step G (Set_Uint64 k v) = hal_device_property_set_uint64 k v"
| "dev_step G (Set_Bool k v) = hal_device_property_set_bool k v"
| "dev_step G (Set_Double k v) = hal_device_property_set_double k v"
| "dev_step G (Set_Strlist k l) = hal_device_property_set_strlist k l"
| "dev_step G (Remove k) = hal_device_property_remove k"
| "dev_step G (Strlist_Append k v c) = hal_device_property_strlist_append k v c"
| "dev_step G (Strlist_Finish_Changeset k a) = hal_device_property_strlist_append_finish_changeset k a"
| "dev_step G (Strlist_Prepend k v) = hal_device_property_strlist_prepend k v"
| "dev_step G (Strlist_Remove_Elem k i) = hal_device_property_strlist_remove_elem k i"
| "dev_step G (Strlist_Clear k c) = hal_device_property_strlist_clear k c"
| "dev_step G (Strlist_Add k v) = hal_device_property_strlist_add k v"
| "dev_step G (Strlist_Remove k v) = hal_device_property_strlist_remove k v"
| "dev_step G (Set_Udi u) = hal_device_set_udi G u"
| "dev_step G (Add_Capability c) = hal_device_add_capability c"
| "dev_step G (Copy_Property src f t) = hal_device_copy_property G src f t"
| "dev_step G (Merge src tns sns) = hal_device_merge_with_rewrite G src tns sns"
| "dev_step G (Acquire_Lock dev n ex s L) = (\<lambda>d. snd (hal_device_acquire_lock dev n ex s L d))"
| "dev_step G (Release_Lock dev n s L) = (\<lambda>d. snd (hal_device_release_lock dev n s L d))"

fun dev_run :: "glib \<Rightarrow> dev_call list \<Rightarrow> hal_device \<Rightarrow> bool outcome" where
  "dev_run G [] d = (True, d, [])"
| "dev_run G (c # cs) d = and_then (dev_step G c d) (dev_run G cs)"

interpretation any_call: dev_op G "dev_step G c" for G c
  by (cases c)
    (simp_all add: setter_ops set_udi.dev_op_axioms add_capability.dev_op_axioms
      copy_property.dev_op_axioms merge.dev_op_axioms acquire_lock.dev_op_axioms release_lock.dev_op_axioms)

lemma dev_op_run: "dev_op G (dev_run G cs)"
proof (induction cs)
  case Nil
  have "dev_run G [] = (\<lambda>d. (True, d, []))" by auto
  then show ?case by (simp add: dev_op_skip)
next
  case (Cons c cs)
  have "dev_run G (c # cs) = (\<lambda>d. and_then (dev_step G c d) (dev_run G cs))" by auto
  then show ?case using dev_op_and_then [OF any_call.dev_op_axioms Cons.IH] by simp
qed

interpretation any_run: dev_op G "dev_run G cs" for G cs
  by (rule dev_op_run)

end
