(* ===== verification/Hal_Lock_Props.thy ===== *)
theory Hal_Lock_Props
  imports Hal_Device_Calls
begin

text \<open>
  Consequences of the refinement in \<open>Hal_Lock\<close>: mutual exclusion of exclusive locks over any
  sequence of requests, the round trip of acquiring and releasing, and what happens to the locks of
  a client that disconnects. The lock operations are an interface (\<open>lock_service\<close>), interpreted on
  \<open>hal_device_acquire_lock\<close> and \<open>hal_device_release_lock\<close>.
\<close>

section \<open>Sequences of requests\<close>

datatype lock_call = Acquire string bool string | Release string string

fun call_name :: "lock_call \<Rightarrow> string" where
  "call_name (Acquire n _ _) = n"
| "call_name (Release n _) = n"

fun lock_run :: "(lock_call \<Rightarrow> 's \<Rightarrow> bool \<times> 's) \<Rightarrow> lock_call list \<Rightarrow> 's \<Rightarrow> 's" where
  "lock_run step [] st = st"
| "lock_run step (c # cs) st = lock_run step cs (snd (step c st))"

fun spec_step :: "lock_call \<Rightarrow> locks \<Rightarrow> bool \<times> locks" where
  "spec_step (Acquire n ex s) T = spec_acquire n ex s T"
| "spec_step (Release n s) T = spec_release n s T"

fun device_lock_step ::
    "nat \<Rightarrow> lock_call \<Rightarrow> locked_set \<times> hal_device \<Rightarrow> bool \<times> locked_set \<times> hal_device" where
  "device_lock_step dev (Acquire n ex s) (L, d) =
     (case hal_device_acquire_lock dev n ex s L d of (L', r, d', es) \<Rightarrow> (r, L', d'))"
| "device_lock_step dev (Release n s) (L, d) =
     (case hal_device_release_lock dev n s L d of (L', r, d', es) \<Rightarrow> (r, L', d'))"

lemma spec_step_exclusive:
  "T n = Some ([s], True) \<Longrightarrow> c \<noteq> Release n s \<Longrightarrow> snd (spec_step c T) n = Some ([s], True)"
  by (cases c) (auto simp: spec_acquire_def spec_release_def split: option.splits)

locale lock_service =
  fixes step :: "lock_call \<Rightarrow> 's \<Rightarrow> bool \<times> 's"
    and table :: "'s \<Rightarrow> locks"
    and ok :: "'s \<Rightarrow> bool"
  assumes step_spec: "ok st \<Longrightarrow> short_name (call_name c) \<Longrightarrow> step c st = (r, st') \<Longrightarrow>
      spec_step c (table st) = (r, table st')"
    and step_ok: "ok st \<Longrightarrow> short_name (call_name c) \<Longrightarrow> step c st = (r, st') \<Longrightarrow> ok st'"
begin

lemma run_ok: "ok st \<Longrightarrow> \<forall>c \<in> set cs. short_name (call_name c) \<Longrightarrow> ok (lock_run step cs st)"
proof (induction cs arbitrary: st)
  case (Cons c cs)
  then show ?case using step_ok [of st c "fst (step c st)" "snd (step c st)"] by simp
qed simp

text \<open>Whoever holds a lock exclusively keeps it until he releases it himself.\<close>

lemma exclusive_step:
  assumes "ok st" and "short_name (call_name c)" and "step c st = (r, st')"
    and "table st n = Some ([s], True)" and "c \<noteq> Release n s"
  shows "table st' n = Some ([s], True)"
  using spec_step_exclusive [of "table st" n s c] assms(4,5) step_spec [OF assms(1-3)] by simp

lemma exclusive_run:
  assumes "ok st" and "\<forall>c \<in> set cs. short_name (call_name c) \<and> c \<noteq> Release n s"
    and "table st n = Some ([s], True)"
  shows "table (lock_run step cs st) n = Some ([s], True)"
  using assms
proof (induction cs arbitrary: st)
  case (Cons c cs)
  obtain r st' where st': "step c st = (r, st')" by (cases "step c st")
  have "ok st'" using step_ok [OF Cons.prems(1) _ st'] Cons.prems(2) by simp
  moreover have "table st' n = Some ([s], True)"
    using exclusive_step [OF Cons.prems(1) _ st' Cons.prems(3)] Cons.prems(2) by simp
  ultimately show ?case using Cons.IH Cons.prems(2) st' by simp
qed simp

text \<open>While a lock carries the exclusive mark, every request for it is refused.\<close>

lemma marked_refuses:
  assumes "ok st" and "short_name n" and "table st n = Some (hs, True)"
    and "step (Acquire n ex s) st = (r, st')"
  shows "\<not> r" and "table st' = table st"
  using step_spec [OF assms(1) _ assms(4)] assms(2,3) by (auto simp: spec_acquire_def)

lemma other_release_refused:
  assumes "ok st" and "short_name n" and "table st n = Some ([s], e)" and "s' \<noteq> s"
    and "step (Release n s') st = (r, st')"
  shows "\<not> r"
  using step_spec [OF assms(1) _ assms(5)] assms(2-4) by (auto simp: spec_release_def)

text \<open>A refused exclusive request for a lock held in common leaves the mark behind.\<close>

lemma refused_exclusive_marks:
  assumes "ok st" and "short_name n" and "table st n = Some (hs, False)"
    and "step (Acquire n True s) st = (r, st')"
  shows "\<not> r" and "table st' n = Some (hs, True)"
proof -
  have "spec_acquire n True s (table st) = (r, table st')"
    using step_spec [OF assms(1) _ assms(4)] assms(2) by simp
  then have "r = False" and "table st' = (table st)(n \<mapsto> (hs, True))"
    using assms(3) by (auto simp: spec_acquire_def)
  then show "\<not> r" and "table st' n = Some (hs, True)" by simp_all
qed

end

interpretation dev_locks: lock_service "device_lock_step dev" "\<lambda>(L, d). lock_table d" "\<lambda>(L, d). locks_ok d"
  for dev
proof
  fix st c r st'
  assume *: "case st of (L, d) \<Rightarrow> locks_ok d" "short_name (call_name c)" "device_lock_step dev c st = (r, st')"
  obtain L d where st: "st = (L, d)" by (cases st)
  obtain L' d' where st': "st' = (L', d')" by (cases st')
  have "spec_step c (lock_table d) = (r, lock_table d') \<and> locks_ok d'"
  proof (cases c)
    case (Acquire n ex s)
    with * st st' obtain es where "hal_device_acquire_lock dev n ex s L d = (L', r, d', es)"
      by (auto split: prod.splits)
    with acquire_refines [of d n dev ex s L L' r d' es] * st Acquire show ?thesis by simp
  next
    case (Release n s)
    with * st st' obtain es where "hal_device_release_lock dev n s L d = (L', r, d', es)"
      by (auto split: prod.splits)
    with release_refines [of d n dev s L L' r d' es] * st Release show ?thesis by simp
  qed
  then show "spec_step c (case st of (L, d) \<Rightarrow> lock_table d) = (r, case st' of (L, d) \<Rightarrow> lock_table d)"
    and "case st' of (L, d) \<Rightarrow> locks_ok d"
    using st st' by simp_all
qed

lemma get_lock_holders_table:
  assumes "locks_ok d" and "lock_table d n = Some (hs, e)"
  shows "hal_device_get_lock_holders d n = Some hs" and "hal_device_is_lock_exclusive d n = e"
proof -
  have "hal_device_property_find d (lock_key n ''exclusive'') = Some (HP_BOOLEAN e)"
    and "hal_device_property_find d (lock_key n ''dbus_name'') = Some (HP_STRLIST hs)" and "hs \<noteq> []"
    using held_facts [OF assms] by metis+
  then show "hal_device_get_lock_holders d n = Some hs" and "hal_device_is_lock_exclusive d n = e"
    by (simp_all add: hal_device_get_lock_holders_def hal_device_property_dup_strlist_as_strv_def
        hal_device_is_lock_exclusive_def lookups split: list.split)
qed

section \<open>Disconnecting clients\<close>

text \<open>What the loops do to the lock table of one device.\<close>

definition drop_holder :: "string \<Rightarrow> locks \<Rightarrow> locks" where
  "drop_holder s T m =
     (case T m of
        None \<Rightarrow> None
      | Some (hs, e) \<Rightarrow> if hs = [s] then None else Some (remove1 s hs, e))"

lemma spec_release_table:
  assumes "\<And>hs e. T n = Some (hs, e) \<Longrightarrow> distinct hs \<and> hs \<noteq> []"
  shows "snd (spec_release n s T) = T(n := drop_holder s T n)"
proof (cases "T n")
  case (Some st)
  obtain hs e where st: "st = (hs, e)" by (cases st)
  have "length hs = 1 \<longleftrightarrow> hs = [s]" if "s \<in> set hs" using that by (cases hs) auto
  moreover have "hs \<noteq> [s]" if "s \<notin> set hs" using that by auto
  ultimately show ?thesis
    using Some st by (auto simp: spec_release_def drop_holder_def remove1_idem)
qed (auto simp: spec_release_def drop_holder_def)

lemma locks_ok_distinct: "locks_ok d \<Longrightarrow> lock_table d n = Some (hs, e) \<Longrightarrow> distinct hs \<and> hs \<noteq> []"
  by (metis held_facts)

lemma release_locks_spec:
  assumes "locks_ok d" and "\<forall>n \<in> set ns. short_name n" and "distinct ns"
    and "release_locks dev ns s L d = (L', d', es)"
  shows "locks_ok d' \<and>
    lock_table d' = (\<lambda>m. if m \<in> set ns then drop_holder s (lock_table d) m else lock_table d m) \<and>
    L' = (if (\<exists>m. lock_table d m \<noteq> None) \<and> (\<forall>m. lock_table d' m = None)
          then remove_from_locked_set dev L else L)"
  using assms
proof (induction ns arbitrary: L d es)
  case Nil
  then show ?case by auto
next
  case (Cons n ns)
  obtain L1 r1 d1 es1 where rel: "hal_device_release_lock dev n s L d = (L1, r1, d1, es1)"
    by (cases "hal_device_release_lock dev n s L d") auto
  obtain es2 where rest: "release_locks dev ns s L1 d1 = (L', d', es2)"
    using Cons.prems(4) rel by (auto split: prod.splits)
  note ref = release_refines [OF Cons.prems(1) _ rel]
  have short: "short_name n" using Cons.prems(2) by simp
  note ref = ref [OF short]
  have T1: "lock_table d1 = (lock_table d)(n := drop_holder s (lock_table d) n)"
    using ref(1) spec_release_table [of "lock_table d" n s] locks_ok_distinct [OF Cons.prems(1)]
    by (metis snd_conv)
  note IH = Cons.IH [OF ref(2) _ _ rest]
  have IH': "locks_ok d' \<and>
    lock_table d' = (\<lambda>m. if m \<in> set ns then drop_holder s (lock_table d1) m else lock_table d1 m) \<and>
    L' = (if (\<exists>m. lock_table d1 m \<noteq> None) \<and> (\<forall>m. lock_table d' m = None)
          then remove_from_locked_set dev L1 else L1)"
    using IH Cons.prems(2,3) by simp
  have drop: "drop_holder s (lock_table d1) m = drop_holder s (lock_table d) m" if "m \<noteq> n" for m
    using T1 that by (simp add: drop_holder_def)
  have T': "lock_table d' = (\<lambda>m. if m \<in> set (n # ns) then drop_holder s (lock_table d) m else lock_table d m)"
  proof
    fix m
    have "lock_table d' m = (if m \<in> set ns then drop_holder s (lock_table d1) m else lock_table d1 m)"
      using IH' by simp
    then show "lock_table d' m =
        (if m \<in> set (n # ns) then drop_holder s (lock_table d) m else lock_table d m)"
      using T1 drop [of m] Cons.prems(3) by (cases "m = n") auto
  qed
  have none1: "\<forall>m. lock_table d' m = None" if "\<forall>m. lock_table d1 m = None"
    using IH' that by (auto simp: drop_holder_def)
  have unchanged: "lock_table d1 = lock_table d" if "\<not> r1"
    using ref(1) that by (auto simp: spec_release_def split: option.splits if_splits)
  have some: "\<exists>m. lock_table d m \<noteq> None" if "r1"
    using ref(1) that by (auto simp: spec_release_def split: option.splits)
  have "L' = (if (\<exists>m. lock_table d m \<noteq> None) \<and> (\<forall>m. lock_table d' m = None)
          then remove_from_locked_set dev L else L)"
    using IH' ref(3) none1 unchanged some by (smt (verit, best))
  with IH' T' show ?case by blast
qed

text \<open>All locks of a device are held by one client alone.\<close>

definition sole_holder :: "string \<Rightarrow> hal_device \<Rightarrow> bool" where
  "sole_holder s d \<longleftrightarrow> (\<forall>m hs e. lock_table d m = Some (hs, e) \<longrightarrow> hs = [s])"

text \<open>The walked list and the devices it refers to are in order.\<close>

definition walk_ok :: "locked_set \<Rightarrow> heap \<Rightarrow> bool" where
  "walk_ok L h \<longleftrightarrow>
     distinct (map fst (cells L)) \<and> distinct (map snd (cells L)) \<and>
     (\<forall>dev \<in> snd ` set (cells L). locks_ok (h dev) \<and> (\<exists>m. lock_table (h dev) m \<noteq> None))"

lemma drop_holder_empty: "(\<forall>m. drop_holder s T m = None) \<longleftrightarrow> (\<forall>m hs e. T m = Some (hs, e) \<longrightarrow> hs = [s])"
  by (auto simp: drop_holder_def split: option.splits if_splits)

lemma body_spec:
  assumes ok: "locks_ok (h dev)" and ne: "\<exists>m. lock_table (h dev) m \<noteq> None"
    and run: "disconnect_body s dev L h = (L', h', es)"
  shows "L' = (if sole_holder s (h dev) then remove_from_locked_set dev L else L)"
    and "locks_ok (h' dev)" and "lock_table (h' dev) = drop_holder s (lock_table (h dev))"
    and "\<And>x. x \<noteq> dev \<Longrightarrow> h' x = h x"
proof -
  obtain n st where "lock_table (h dev) n = Some st" using ne by auto
  moreover obtain hs e where "st = (hs, e)" by (cases st)
  ultimately obtain ls where ls:
    "hal_device_property_find (h dev) ''info.named_locks'' = Some (HP_STRLIST ls)"
    "distinct ls" "set ls = {m. lock_table (h dev) m \<noteq> None}" "n \<in> set ls"
    using held_facts [OF ok] by metis
  then have "ls \<noteq> []" by auto
  with ls(1) have dup: "hal_device_property_dup_strlist_as_strv (h dev) ''info.named_locks'' = Some ls"
    by (simp add: hal_device_property_dup_strlist_as_strv_def lookups split: list.split)
  obtain es' d' where rel: "release_locks dev ls s L (h dev) = (L', d', es')" and h': "h' = h(dev := d')"
    using run dup by (auto simp: disconnect_body_def split: prod.splits)
  have short: "\<forall>n \<in> set ls. short_name n"
    using ls(3) lock_table_short by fastforce
  note spec = release_locks_spec [OF ok short ls(2) rel]
  have table: "lock_table d' = drop_holder s (lock_table (h dev))"
  proof
    fix m
    show "lock_table d' m = drop_holder s (lock_table (h dev)) m"
      using spec ls(3) by (cases "lock_table (h dev) m") (auto simp: drop_holder_def)
  qed
  show "locks_ok (h' dev)" "lock_table (h' dev) = drop_holder s (lock_table (h dev))"
    using spec table h' by simp_all
  show "h' x = h x" if "x \<noteq> dev" for x using h' that by simp
  have "(\<forall>m. lock_table d' m = None) \<longleftrightarrow> sole_holder s (h dev)"
    unfolding table sole_holder_def by (rule drop_holder_empty)
  then show "L' = (if sole_holder s (h dev) then remove_from_locked_set dev L else L)"
    using spec ne by simp
qed

lemma next_of_middle:
  "i \<notin> fst ` set pre \<Longrightarrow>
   next_of i (pre @ (i, x) # rest) = Some (case rest of [] \<Rightarrow> None | (c, _) # _ \<Rightarrow> Some c)"
  by (induction pre) auto

lemma next_of_missing: "i \<notin> fst ` set cs \<Longrightarrow> next_of i cs = None"
  by (induction cs) auto

lemma slist_remove_middle: "x \<notin> snd ` set pre \<Longrightarrow> slist_remove x (pre @ (i, x) # rest) = pre @ rest"
  by (induction pre) auto

lemma map_of_middle: "i \<notin> fst ` set pre \<Longrightarrow> map_of (pre @ (i, x) # rest) i = Some x"
  by (induction pre) auto

text \<open>The walk from any cell on: it frees the cell it stands on, or it drops the holder everywhere.\<close>

lemma walk_spec:
  assumes "cells L = pre @ todo" and "walk_ok L h" and "length todo < fuel"
  shows "if \<exists>dev \<in> snd ` set todo. sole_holder s (h dev)
         then disconnect_walk fuel s (case todo of [] \<Rightarrow> None | (a, _) # _ \<Rightarrow> Some a) L h es0 =
                Some (Inl Use_After_Free)
         else \<exists>h' es. disconnect_walk fuel s (case todo of [] \<Rightarrow> None | (a, _) # _ \<Rightarrow> Some a) L h es0 =
                Some (Inr (L, h', es)) \<and>
                (\<forall>dev \<in> snd ` set todo. locks_ok (h' dev) \<and>
                   lock_table (h' dev) = drop_holder s (lock_table (h dev))) \<and>
                (\<forall>dev. dev \<notin> snd ` set todo \<longrightarrow> h' dev = h dev)"
  using assms
proof (induction todo arbitrary: pre fuel h es0)
  case Nil
  then show ?case by auto
next
  case (Cons c todo)
  obtain i dev where c: "c = (i, dev)" by (cases c)
  obtain fuel' where fuel: "fuel = Suc fuel'" using Cons.prems(3) by (cases fuel) auto
  have dist: "i \<notin> fst ` set pre" "i \<notin> fst ` set todo" "dev \<notin> snd ` set pre" "dev \<notin> snd ` set todo"
    and dev_ok: "locks_ok (h dev)" "\<exists>m. lock_table (h dev) m \<noteq> None"
    using Cons.prems(1,2) c by (auto simp: walk_ok_def)
  obtain L' h' es' where body: "disconnect_body s dev L h = (L', h', es')"
    by (cases "disconnect_body s dev L h") auto
  note b = body_spec [OF dev_ok body]
  have look: "map_of (cells L) i = Some dev"
    using Cons.prems(1) c map_of_middle [OF dist(1)] by simp
  show ?case
  proof (cases "sole_holder s (h dev)")
    case True
    then have "cells L' = pre @ todo"
      using b(1) Cons.prems(1) c slist_remove_middle [OF dist(3)]
      by (simp add: remove_from_locked_set_def)
    then have "next_of i (cells L') = None"
      using dist next_of_missing [of i "pre @ todo"] by auto
    with look body fuel c True show ?thesis by simp
  next
    case False
    then have L': "L' = L" using b(1) by simp
    have nxt: "next_of i (cells L) = Some (case todo of [] \<Rightarrow> None | (a, _) # _ \<Rightarrow> Some a)"
      using Cons.prems(1) c next_of_middle [OF dist(1)] by simp
    have same: "h' x = h x" if "x \<in> snd ` set todo" for x
      using b(4) dist(4) that by metis
    have walk': "walk_ok L h'"
    proof -
      have "\<exists>m. lock_table (h' dev) m \<noteq> None"
        using False drop_holder_empty [of s "lock_table (h dev)"] b(3) unfolding sole_holder_def by metis
      then have "locks_ok (h' x) \<and> (\<exists>m. lock_table (h' x) m \<noteq> None)" if "x \<in> snd ` set (cells L)" for x
        using Cons.prems(2) b(2) b(4) [of x] that by (cases "x = dev") (auto simp: walk_ok_def)
      with Cons.prems(2) show ?thesis by (simp add: walk_ok_def)
    qed
    have step: "disconnect_walk fuel s (Some i) L h es0 =
        disconnect_walk fuel' s (case todo of [] \<Rightarrow> None | (a, _) # _ \<Rightarrow> Some a) L h' (es0 @ es')"
      using look body fuel L' nxt by simp
    have cells': "cells L = (pre @ [c]) @ todo" using Cons.prems(1) by simp
    have fuel_ok: "length todo < fuel'" using Cons.prems(3) fuel by simp
    note IH = Cons.IH [OF cells' walk' fuel_ok, of "es0 @ es'"]
    have sole: "(\<exists>x \<in> snd ` set todo. sole_holder s (h' x)) \<longleftrightarrow> (\<exists>x \<in> snd ` set (c # todo). sole_holder s (h x))"
      using same False c by auto
    show ?thesis
    proof (cases "\<exists>x \<in> snd ` set todo. sole_holder s (h' x)")
      case True
      with IH sole step c show ?thesis by (simp only: if_True list.case prod.case)
    next
      case clean: False
      then obtain h2 es2 where w: "disconnect_walk fuel' s (case todo of [] \<Rightarrow> None | (a, _) # _ \<Rightarrow> Some a) L h' (es0 @ es') =
            Some (Inr (L, h2, es2))"
        and h2: "\<forall>x \<in> snd ` set todo. locks_ok (h2 x) \<and> lock_table (h2 x) = drop_holder s (lock_table (h' x))"
          "\<forall>x. x \<notin> snd ` set todo \<longrightarrow> h2 x = h' x"
        using IH by auto
      have "\<forall>x \<in> snd ` set (c # todo). locks_ok (h2 x) \<and> lock_table (h2 x) = drop_holder s (lock_table (h x))"
        using h2 same b(2,3) dist(4) c by auto
      moreover have "\<forall>x. x \<notin> snd ` set (c # todo) \<longrightarrow> h2 x = h x"
        using h2(2) b(4) c by auto
      ultimately show ?thesis
        using w step clean sole c by (simp only: if_False list.case prod.case) blast
    qed
  qed
qed

section \<open>Long lock names\<close>

text \<open>For a name of 238 bytes or more the three property names are cut to the same 255 bytes.\<close>

lemma lock_key_long:
  assumes "238 \<le> length name"
  shows "lock_key name f = take 255 (''info.named_locks.'' @ name)"
  using assms by (simp add: lock_key_def snprintf_def)

lemma lock_key_long_not_list:
  assumes "238 \<le> length name"
  shows "take 255 (''info.named_locks.'' @ name) \<noteq> ''info.named_locks''"
proof
  assume "take 255 (''info.named_locks.'' @ name) = ''info.named_locks''"
  then have "length (take 255 (''info.named_locks.'' @ name)) = length ''info.named_locks''" by (rule arg_cong)
  with assms show False by simp
qed

section \<open>Properties\<close>

text \<open>A device without properties, and an empty set of locked devices, for the witnesses.\<close>

definition blank_device :: hal_device where
  "blank_device = fst (hal_device_init 0)"

definition no_locks :: locked_set where
  "no_locks = \<lparr>cells = [], next_cell = 0\<rparr>"

lemma find_blank [simp]: "hal_device_property_find blank_device k = None"
  by (simp add: blank_device_def hal_device_init_def hal_device_property_find_def)

lemma lock_table_blank [simp]: "lock_table blank_device n = None"
  by (simp add: lock_table_def)

lemma locks_ok_blank [simp]: "locks_ok blank_device"
  by (auto simp: locks_ok_def lock_props_def held_names_def names_of_def intro!: exI [of _ None])

text \<open>C6: mutual exclusion, for lock names of at most 228 bytes (longer ones do not fit the buffers of
  the property names). Once a client has acquired a lock exclusively, it is the only holder and the
  lock stays marked exclusive over any sequence of acquire and release requests by anyone, on this or
  other locks of the device, in which the holder does not release it; after every such sequence each
  request to acquire the lock, shared or exclusive and by whomever, fails, and so does each request of
  another client to release it.\<close>

theorem exclusive_lock_holds:
  assumes "locks_ok d" and "short_name n"
    and "hal_device_acquire_lock dev n True s L d = (L', True, d', es)"
    and "\<forall>c \<in> set cs. short_name (call_name c) \<and> c \<noteq> Release n s"
    and "lock_run (device_lock_step dev) cs (L', d') = (L'', d'')"
  shows "hal_device_get_lock_holders d'' n = Some [s] \<and> hal_device_is_lock_exclusive d'' n \<and>
    (\<forall>ex s'. \<not> fst (device_lock_step dev (Acquire n ex s') (L'', d''))) \<and>
    (\<forall>s'. s' \<noteq> s \<longrightarrow> \<not> fst (device_lock_step dev (Release n s') (L'', d'')))"
proof -
  note ref = acquire_refines [OF assms(1-3)]
  have "lock_table d' n = Some ([s], True)"
    using ref(1) by (auto simp: spec_acquire_def fun_eq_iff split: option.splits if_splits)
  then have table: "lock_table d'' n = Some ([s], True)"
    using dev_locks.exclusive_run [where dev = dev, of "(L', d')" cs n s] ref(2) assms(4,5) by simp
  have ok: "locks_ok d''"
    using dev_locks.run_ok [where dev = dev, of "(L', d')" cs] ref(2) assms(4,5) by simp
  have "\<not> fst (device_lock_step dev (Acquire n ex s') (L'', d''))" for ex s'
    using dev_locks.marked_refuses(1) [where dev = dev, of "(L'', d'')" n "[s]" ex s'] ok assms(2) table
    by (metis (no_types, lifting) case_prod_conv prod.collapse)
  moreover have "\<not> fst (device_lock_step dev (Release n s') (L'', d''))" if "s' \<noteq> s" for s'
    using dev_locks.other_release_refused [where dev = dev, of "(L'', d'')" n s True s'] ok assms(2) table that
    by (metis (no_types, lifting) case_prod_conv prod.collapse)
  ultimately show ?thesis
    using get_lock_holders_table [OF ok table] by blast
qed

theorem exclusive_lock_holds_witness:
  "\<exists>L' d' es L'' d''.
     hal_device_acquire_lock 7 ''storage'' True '':1.1'' no_locks blank_device = (L', True, d', es) \<and>
     lock_run (device_lock_step 7)
       [Acquire ''storage'' True '':1.2'', Acquire ''volume'' False '':1.2'', Release ''storage'' '':1.2'']
       (L', d') = (L'', d'') \<and>
     hal_device_get_lock_holders d'' ''storage'' = Some ['':1.1''] \<and>
     \<not> fst (device_lock_step 7 (Acquire ''storage'' False '':1.3'') (L'', d''))"
proof -
  obtain L' r d' es where acq:
    "hal_device_acquire_lock 7 ''storage'' True '':1.1'' no_locks blank_device = (L', r, d', es)"
    by (cases "hal_device_acquire_lock 7 ''storage'' True '':1.1'' no_locks blank_device") auto
  then have r: "r = True"
    using acquire_free(1) [of blank_device "''storage''" 7 True] by (simp add: short_name_def)
  let ?cs = "[Acquire ''storage'' True '':1.2'', Acquire ''volume'' False '':1.2'', Release ''storage'' '':1.2'']"
  obtain L'' d'' where run: "lock_run (device_lock_step 7) ?cs (L', d') = (L'', d'')"
    by (cases "lock_run (device_lock_step 7) ?cs (L', d')")
  have "hal_device_get_lock_holders d'' ''storage'' = Some ['':1.1'']"
    and "\<not> fst (device_lock_step 7 (Acquire ''storage'' False '':1.3'') (L'', d''))"
    using exclusive_lock_holds [OF locks_ok_blank _ acq [unfolded r] _ run] by (simp_all add: short_name_def)
  with acq r run show ?thesis by blast
qed

text \<open>
  Acquiring as the specification of the locks documents it (\<open>doc/spec/hal-spec-locking.xml\<close>): a free
  lock is granted, a held one only when neither the holder nor the request is exclusive, and a refused
  request changes nothing.
\<close>

definition doc_acquire :: "string \<Rightarrow> bool \<Rightarrow> string \<Rightarrow> locks \<Rightarrow> bool \<times> locks" where
  "doc_acquire name ex s T =
     (case T name of
        None \<Rightarrow> (True, T(name \<mapsto> ([s], ex)))
      | Some (hs, e) \<Rightarrow> if e \<or> ex \<or> s \<in> set hs then (False, T) else (True, T(name \<mapsto> (hs @ [s], False))))"

text \<open>C34: acquiring a lock with a name of at most 228 bytes gives the answer of the documented lock
  table, keeps the lock properties consistent, adds the device to the set of locked devices exactly
  when the lock is granted, and leaves the documented table, with one exception in which the code
  departs from the documentation: an exclusive request that is refused because others share the lock
  marks their lock as exclusive.\<close>

theorem acquire_lock_refines:
  assumes "locks_ok d" and "short_name n"
    and "hal_device_acquire_lock dev n ex s L d = (L', r, d', es)"
  shows "r = fst (doc_acquire n ex s (lock_table d)) \<and>
    lock_table d' =
      (case lock_table d n of
         Some (hs, False) \<Rightarrow>
           if ex then (lock_table d)(n \<mapsto> (hs, True)) else snd (doc_acquire n ex s (lock_table d))
       | _ \<Rightarrow> snd (doc_acquire n ex s (lock_table d))) \<and>
    locks_ok d' \<and> L' = (if r then add_to_locked_set dev L else L)"
  using acquire_refines [OF assms]
  by (auto simp: doc_acquire_def spec_acquire_def split: option.splits if_splits bool.splits)

theorem acquire_lock_refines_witness:
  "\<exists>L' d' es. hal_device_acquire_lock 7 ''storage'' False '':1.1'' no_locks blank_device = (L', True, d', es) \<and>
     locks_ok d' \<and> lock_table d' ''storage'' = Some (['':1.1''], False) \<and> cells L' = [(0, 7)]"
proof -
  obtain L' r d' es where acq:
    "hal_device_acquire_lock 7 ''storage'' False '':1.1'' no_locks blank_device = (L', r, d', es)"
    by (metis prod_cases4)
  have short: "short_name ''storage''" by (simp add: short_name_def)
  note ref = acquire_lock_refines [OF locks_ok_blank short acq]
  then have "r" and "lock_table d' = (lock_table blank_device)(''storage'' \<mapsto> (['':1.1''], False))"
    by (simp_all add: doc_acquire_def)
  with ref acq show ?thesis by (simp add: add_to_locked_set_def no_locks_def doc_acquire_def)
qed

text \<open>C35: releasing implements the abstract lock table: only a holder can release, the last release
  frees the lock, and the device leaves the set of locked devices exactly when its last lock is freed.\<close>

theorem release_lock_refines:
  assumes "locks_ok d" and "short_name n"
    and "hal_device_release_lock dev n s L d = (L', r, d', es)"
  shows "spec_release n s (lock_table d) = (r, lock_table d') \<and> locks_ok d' \<and>
    L' = (if r \<and> (\<forall>m. lock_table d' m = None) then remove_from_locked_set dev L else L)"
  using release_refines [OF assms] by blast

text \<open>A device with one shared lock, obtained from the code.\<close>

definition shared_device :: hal_device where
  "shared_device = fst (snd (snd (hal_device_acquire_lock 7 ''storage'' False '':1.1'' no_locks blank_device)))"

lemma shared_device_table [simp]:
  "locks_ok shared_device" "lock_table shared_device = [''storage'' \<mapsto> (['':1.1''], False)]"
proof -
  obtain L' r d' es where acq:
    "hal_device_acquire_lock 7 ''storage'' False '':1.1'' no_locks blank_device = (L', r, d', es)"
    by (metis prod_cases4)
  have short: "short_name ''storage''" by (simp add: short_name_def)
  note ref = acquire_refines [OF locks_ok_blank short acq]
  have "lock_table blank_device = Map.empty" by (rule ext) simp
  with ref acq show "locks_ok shared_device" "lock_table shared_device = [''storage'' \<mapsto> (['':1.1''], False)]"
    by (simp_all add: shared_device_def spec_acquire_def)
qed

theorem release_lock_refines_witness:
  "\<exists>L' d' es. hal_device_release_lock 7 ''storage'' '':1.1'' no_locks shared_device = (L', True, d', es) \<and>
     locks_ok d' \<and> lock_table d' ''storage'' = None"
proof -
  obtain L' r d' es where rel:
    "hal_device_release_lock 7 ''storage'' '':1.1'' no_locks shared_device = (L', r, d', es)"
    by (metis prod_cases4)
  have short: "short_name ''storage''" by (simp add: short_name_def)
  have "spec_release ''storage'' '':1.1'' (lock_table shared_device) = (r, lock_table d') \<and> locks_ok d'"
    using release_lock_refines [OF shared_device_table(1) short rel] by blast
  then have "r" "locks_ok d'" "lock_table d' ''storage'' = None"
    by (auto simp: spec_release_def fun_eq_iff)
  with rel show ?thesis by simp
qed

text \<open>A refused exclusive request for a lock that others share marks the lock exclusive all the
  same, so that from then on every request for it is refused although nobody holds it exclusively.\<close>

theorem refused_exclusive_request_blocks_lock:
  assumes "locks_ok d" and "lock_table d n = Some (hs, False)"
    and "hal_device_acquire_lock dev n True s L d = (L', r, d', es)"
  shows "\<not> r \<and> hal_device_get_lock_holders d' n = Some hs \<and>
    fst (snd (hal_device_acquire_lock dev' n ex s' L'' d')) = False"
proof -
  have n: "short_name n" using assms(2) by (rule lock_table_short)
  note ref = acquire_refines [OF assms(1) n assms(3)]
  have "spec_acquire n True s (lock_table d) = (r, lock_table d')" by (rule ref(1))
  then have r: "r = False" and table: "lock_table d' = (lock_table d)(n \<mapsto> (hs, True))"
    using assms(2) by (auto simp: spec_acquire_def)
  have "hal_device_get_lock_holders d' n = Some hs" and "hal_device_is_lock_exclusive d' n"
    using get_lock_holders_table [OF ref(2)] table by simp_all
  with r show ?thesis
    by (simp add: hal_device_acquire_lock_def hal_device_is_lock_exclusive_def)
qed

theorem refused_exclusive_request_blocks_lock_witness:
  "\<exists>L' d' es. hal_device_acquire_lock 7 ''storage'' True '':1.2'' no_locks shared_device = (L', False, d', es) \<and>
       hal_device_get_lock_holders d' ''storage'' = Some ['':1.1''] \<and>
       fst (snd (hal_device_acquire_lock 7 ''storage'' False '':1.3'' L' d')) = False"
proof -
  obtain L' r d' es where acq:
    "hal_device_acquire_lock 7 ''storage'' True '':1.2'' no_locks shared_device = (L', r, d', es)"
    by (metis prod_cases4)
  have "lock_table shared_device ''storage'' = Some (['':1.1''], False)" by simp
  from refused_exclusive_request_blocks_lock [OF shared_device_table(1) this acq] acq
  show ?thesis by simp
qed

text \<open>Releasing undoes acquiring: when a client is granted a free lock and releases it again, every
  property of the device has the value it had before.\<close>

theorem acquire_release_restores:
  assumes "locks_ok d" and "short_name n" and "lock_table d n = None"
    and "hal_device_acquire_lock dev n ex s L d = (L1, r1, d1, es1)"
    and "hal_device_release_lock dev n s L1 d1 = (L2, r2, d2, es2)"
  shows "r1 \<and> r2 \<and> lock_table d2 = lock_table d \<and>
    hal_device_get_lock_holders d2 n = None \<and> \<not> hal_device_is_lock_exclusive d2 n"
proof -
  note acq = acquire_refines [OF assms(1,2,4)]
  note rel = release_refines [OF acq(2) assms(2,5)]
  have r1: "r1" and t1: "lock_table d1 = (lock_table d)(n \<mapsto> ([s], ex))"
    using acq(1) assms(3) by (auto simp: spec_acquire_def)
  have r2: "r2" and "lock_table d2 = (lock_table d1)(n := None)"
    using rel(1) t1 by (auto simp: spec_release_def)
  then have t2: "lock_table d2 = lock_table d" using t1 assms(3) by (simp add: fun_upd_idem)
  have "lock_props d2 n None"
    using locks_ok_props [OF rel(2) assms(2)] t2 assms(3) by simp
  then show ?thesis using r1 r2 t2
    by (simp add: lock_props_def hal_device_get_lock_holders_def hal_device_is_lock_exclusive_def
        hal_device_property_dup_strlist_as_strv_def lookups)
qed

theorem acquire_release_restores_witness:
  "\<exists>L1 d1 es1 L2 d2 es2.
     hal_device_acquire_lock 7 ''volume'' True '':1.4'' no_locks shared_device = (L1, True, d1, es1) \<and>
     hal_device_release_lock 7 ''volume'' '':1.4'' L1 d1 = (L2, True, d2, es2) \<and>
     lock_table d2 = [''storage'' \<mapsto> (['':1.1''], False)]"
proof -
  obtain L1 r1 d1 es1 where acq:
    "hal_device_acquire_lock 7 ''volume'' True '':1.4'' no_locks shared_device = (L1, r1, d1, es1)"
    by (metis prod_cases4)
  obtain L2 r2 d2 es2 where rel: "hal_device_release_lock 7 ''volume'' '':1.4'' L1 d1 = (L2, r2, d2, es2)"
    by (metis prod_cases4)
  have "short_name ''volume''" "lock_table shared_device ''volume'' = None" by (simp_all add: short_name_def)
  from acquire_release_restores [OF shared_device_table(1) this acq rel] acq rel
  show ?thesis by simp
qed

text \<open>A client disconnects. The walk over the locked devices reads a cell it has freed if some
  device in the list is locked by that client alone; otherwise the client is dropped from the holders
  of every lock of every device in the list, and no other device changes.\<close>

theorem client_disconnected_outcome:
  assumes "walk_ok L h"
  shows "if \<exists>dev \<in> snd ` set (cells L). sole_holder s (h dev)
         then hal_device_client_disconnected s L h = Some (Inl Use_After_Free)
         else \<exists>h' es. hal_device_client_disconnected s L h = Some (Inr (L, h', es)) \<and>
                (\<forall>dev \<in> snd ` set (cells L). lock_table (h' dev) = drop_holder s (lock_table (h dev))) \<and>
                (\<forall>dev. dev \<notin> snd ` set (cells L) \<longrightarrow> h' dev = h dev)"
  using walk_spec [of L "[]" "cells L" h "Suc (length (cells L))" s "[]"] assms
  unfolding hal_device_client_disconnected_def by (auto split: if_splits)

theorem client_disconnected_outcome_witness:
  "hal_device_client_disconnected '':1.1'' \<lparr>cells = [(0, 7)], next_cell = 1\<rparr> (\<lambda>_. shared_device) =
     Some (Inl Use_After_Free)"
proof -
  let ?L = "\<lparr>cells = [(0, 7)], next_cell = 1\<rparr>"
  have ok: "walk_ok ?L (\<lambda>_. shared_device)" by (auto simp: walk_ok_def)
  have "\<exists>dev \<in> snd ` set (cells ?L). sole_holder '':1.1'' shared_device"
    by (auto simp: sole_holder_def split: if_splits)
  with client_disconnected_outcome [OF ok, of "'':1.1''"] show ?thesis by (simp only: if_True)
qed

text \<open>A lock whose name has 238 bytes or more is granted and then lost: on a device without
  properties the shared request succeeds, but the holder cannot release the lock.\<close>

theorem long_name_never_released:
  assumes "238 \<le> length n" and "\<And>k. hal_device_property_find d k = None"
    and "hal_device_acquire_lock dev n False s L d = (L', r, d', es)"
  shows "r \<and> fst (snd (hal_device_release_lock dev n s L' d')) = False"
proof -
  let ?k = "take 255 (''info.named_locks.'' @ n)"
  note keys = lock_key_long [OF assms(1)]
  note ne = lock_key_long_not_list [OF assms(1)]
  show ?thesis
    using assms(2,3) ne
    by (auto simp: hal_device_acquire_lock_def hal_device_release_lock_def keys lookups lock_steps Let_def
        find_insert prop_setter_defs split: option.splits if_splits prod.splits)
qed

theorem long_name_never_released_witness:
  "fst (snd (hal_device_acquire_lock 7 (replicate 238 CHR ''a'') False '':1.1'' no_locks blank_device)) \<and>
   (case hal_device_acquire_lock 7 (replicate 238 CHR ''a'') False '':1.1'' no_locks blank_device of
      (L', r, d', es) \<Rightarrow> \<not> fst (snd (hal_device_release_lock 7 (replicate 238 CHR ''a'') '':1.1'' L' d')))"
proof -
  let ?n = "replicate 238 CHR ''a''"
  obtain L' r d' es where acq:
    "hal_device_acquire_lock 7 ?n False '':1.1'' no_locks blank_device = (L', r, d', es)"
    by (metis prod_cases4)
  have "238 \<le> length ?n" by (simp only: length_replicate)
  from long_name_never_released [OF this find_blank acq] acq show ?thesis by simp
qed

end
