(* ===== verification/Hal_Device_Props.thy ===== *)
theory Hal_Device_Props
  imports Hal_Device_Calls
begin

text \<open>
  The properties of the device object that a caller of \<open>hald/device.c\<close> relies on: invariants over
  any sequence of calls, the result of the string setter on every branch, merging and copying,
  string lists as sets, the addon counters, and printing into a buffer.
\<close>

section \<open>Helper lemmas\<close>

lemma get_string_insert_string [simp]:
  "hal_device_property_get_string (insert_prop k (HP_STRING v) d) k = v"
  by (simp add: hal_device_property_get_string_def)

lemma strdup_or_empty_Some [simp]: "strdup_or_empty (Some s) = s"
  by (simp add: strdup_or_empty_def)

lemma takeWhile_not_NUL: "NUL \<notin> set s \<Longrightarrow> takeWhile (\<lambda>c. c \<noteq> NUL) (s @ NUL # r) = s"
  by (induction s) auto

lemma buf_strncpy_0_fits:
  assumes "length s < length buf"
  shows "buf_strncpy buf 0 s = s @ replicate (length buf - length s) NUL"
  using assms by (simp add: buf_strncpy_def)

lemma buf_strncpy_0_long: "length buf \<le> length s \<Longrightarrow> buf_strncpy buf 0 s = take (length buf) s"
  by (simp add: buf_strncpy_def)

lemma buf_lengths [simp]:
  "off \<le> length buf \<Longrightarrow> length (buf_strncpy buf off s) = length buf"
  "length (buf_snprintf buf s) = length buf"
  "length (buf_put buf i c) = length buf"
    apply (auto simp: buf_strncpy_def buf_snprintf_def buf_put_def Let_def)
  by (cases buf) auto

lemma as_string_strlist_length: "length (as_string_strlist l i buf) = length buf"
  by (induction l i buf rule: as_string_strlist.induct) (auto simp: Let_def)

lemma c_string_copied:
  assumes "NUL \<notin> set s"
  shows "c_string (buf_strncpy buf 0 s) = (if length s < length buf then Some s else None)"
proof (cases "length s < length buf")
  case True
  then obtain n where "length buf - length s = Suc n" by (metis Suc_diff_Suc)
  with True assms show ?thesis
    by (simp add: c_string_def buf_strncpy_0_fits takeWhile_not_NUL)
next
  case False
  then show ?thesis
    using assms by (auto simp: c_string_def buf_strncpy_0_long dest: in_set_takeD)
qed

text \<open>The addon counters over any sequence of starts and ready notifications.\<close>

definition addons_ok :: "hal_device \<Rightarrow> bool" where
  "addons_ok d \<longleftrightarrow> 0 \<le> num_addons_ready d \<and> num_addons_ready d \<le> num_addons d"

fun addon_run :: "bool list \<Rightarrow> hal_device \<Rightarrow> hal_device" where
  "addon_run [] d = d"
| "addon_run (started # es) d =
     addon_run es (if started then hal_device_inc_num_addons d else snd (hal_device_inc_num_ready_addons d))"

lemmas addon_defs = addons_ok_def hal_device_inc_num_addons_def hal_device_inc_num_ready_addons_def
  hal_device_are_all_addons_ready_def

lemma addon_run_ok: "addons_ok d \<Longrightarrow> addons_ok (addon_run es d)"
  by (induction es arbitrary: d) (auto simp: addon_defs)

lemma addon_run_num: "num_addons (addon_run es d) = num_addons d + int (length (filter id es))"
  by (induction es arbitrary: d) (auto simp: addon_defs)

section \<open>Properties\<close>

text \<open>C7: over any sequence of the calls a client can make on a device (setters, removals, string list
  operations, copies, merges, locks), the property table stays well-formed (one entry per key, no
  \<open>NULL\<close> or invalid string), and a listener that follows the signals knows the string value of every
  property at the end.\<close>

theorem device_calls_keep_invariant:
  assumes "glib_ok G" and "dev_wf G d" and "dev_run G cs d = (r, d', es)"
  shows "dev_wf G d' \<and>
    (\<forall>k. track k (hal_device_property_get_string d k) es = Some (hal_device_property_get_string d' k))"
  using any_run.keeps_wf [OF assms] any_run.truthful [OF assms(3)] by (simp add: traced_def)

theorem device_calls_keep_invariant_witness:
  "\<exists>r d' es. dev_run ascii_glib
      [Set_String ''info.product'' (Some ''disk''), Set_String ''info.product'' (Some ''cdrom''),
       Add_Capability ''storage'', Remove ''info.product'']
      (fst (hal_device_init 3)) = (r, d', es) \<and> dev_wf ascii_glib d' \<and>
      track ''info.product'' None es = Some (hal_device_property_get_string d' ''info.product'')"
proof -
  let ?cs = "[Set_String ''info.product'' (Some ''disk''), Set_String ''info.product'' (Some ''cdrom''),
       Add_Capability ''storage'', Remove ''info.product'']"
  let ?d = "fst (hal_device_init 3)"
  obtain r d' es where run: "dev_run ascii_glib ?cs ?d = (r, d', es)" by (metis prod_cases3)
  have wf: "dev_wf ascii_glib ?d" and none: "hal_device_property_get_string ?d ''info.product'' = None"
    by (simp_all add: hal_device_init_def dev_wf_def hal_device_property_get_string_def
        hal_device_property_find_def)
  from device_calls_keep_invariant [OF ascii_glib_ok wf run] none run show ?thesis by metis
qed

text \<open>Setting a string property. The call is refused, with no change and no signal, exactly when
  the property exists with another type. Otherwise the property afterwards holds the given string
  (with the bytes that are not UTF-8 replaced, in place), nothing else changes, and
  \<open>property_changed\<close> is emitted exactly when the value given differs from the value stored before.\<close>

theorem set_string_outcome:
  assumes "glib_ok G" and "dev_wf G d"
    and "hal_device_property_set_string G key (Some v) d = (r, d', es)"
  shows "(r \<longleftrightarrow> hal_device_property_find d key = None \<or> hal_device_property_get_type d key = TYPE_STRING) \<and>
    (\<not> r \<longrightarrow> d' = d \<and> es = []) \<and>
    (r \<longrightarrow> hal_device_property_get_string d' key = Some (utf8_replace G v) \<and>
           g_utf8_validate G (utf8_replace G v) = None \<and> length (utf8_replace G v) = length v) \<and>
    agree_except key d d' \<and>
    (r \<longrightarrow> (es \<noteq> [] \<longleftrightarrow> hal_device_property_get_string d key \<noteq> Some v))"
proof -
  have valid: "utf8_replace G v = v" if "hal_device_property_find d key = Some (HP_STRING (Some v))"
    using dev_wf_find [OF assms(2) that] by (simp add: utf8_replace_id)
  have frame: "agree_except key d d'" using set_string.frame [OF assms(3)] .
  then show ?thesis
    using assms(3) valid utf8_replace_valid [OF assms(1), of v] utf8_replace_length [OF assms(1), of v]
    by (auto simp: hal_device_property_set_string_def hal_device_property_get_type_def Let_def
        hal_property_set_string_def split: option.splits if_splits)
qed

theorem set_string_outcome_witness:
  "\<exists>d' es. hal_device_property_set_string ascii_glib ''info.product'' (Some [CHR ''a'', CHR 0xE9]) (fst (hal_device_init 3)) =
      (True, d', es) \<and> hal_device_property_get_string d' ''info.product'' = Some ''a?''"
proof -
  let ?d = "fst (hal_device_init 3)"
  have wf: "dev_wf ascii_glib ?d" and none: "hal_device_property_find ?d k = None" for k
    by (simp_all add: hal_device_init_def dev_wf_def hal_device_property_find_def)
  obtain r d' es where run:
    "hal_device_property_set_string ascii_glib ''info.product'' (Some [CHR ''a'', CHR 0xE9]) ?d = (r, d', es)"
    by (metis prod_cases3)
  have "utf8_replace ascii_glib [CHR ''a'', CHR 0xE9] = ''a?''" by code_simp
  with set_string_outcome [OF ascii_glib_ok wf run] none run show ?thesis by auto
qed

text \<open>Merging a device into another under a change of namespace. Every property of the source whose
  name starts with the source namespace is in the target under the rewritten name with the same value
  (whatever type the target had there), and every other property of the target is unchanged.\<close>

theorem merge_with_rewrite_result:
  assumes "glib_ok G" and "dev_wf G source" and "dev_wf G target"
    and "hal_device_merge_with_rewrite G source tns sns target = (r, target', es)"
  shows "(\<forall>k p. hal_device_property_find source k = Some p \<longrightarrow> prefix sns k \<longrightarrow>
            (\<exists>q. hal_device_property_find target' (tns @ drop (length sns) k) = Some q \<and> prop_same q p)) \<and>
    (\<forall>k. (\<forall>k'. prefix sns k' \<longrightarrow> hal_device_has_property source k' \<longrightarrow> k \<noteq> tns @ drop (length sns) k') \<longrightarrow>
            hal_device_property_find target' k = hal_device_property_find target k)"
proof -
  have wf: "distinct (map fst (props source))" and props: "\<And>k p. (k, p) \<in> set (props source) \<Longrightarrow>
      hal_device_property_find source k = Some p \<and> prop_wf G p"
    using assms(2) by (auto simp: dev_wf_def hal_device_property_find_def)
  have run: "foreach_keys (\<lambda>key out. and_then out (merge_device_rewrite_cb G tns sns source key))
      (props source) (True, target, []) = (r, target', es)"
    using assms(4) by (simp add: hal_device_merge_with_rewrite_def hal_device_property_foreach_def)
  note res = foreach_merge_result [OF run wf props assms(1,3), unfolded rewritten_def]
  have "(k, p) \<in> set (props source)" if "hal_device_property_find source k = Some p" for k p
    using that by (simp add: hal_device_property_find_def map_of_SomeD)
  moreover have "hal_device_has_property source k'" if "(k', p) \<in> set (props source)" for k' p
    using props that by (simp add: hal_device_has_property_def)
  ultimately show ?thesis using res by blast
qed

definition usb_source :: hal_device where
  "usb_source = insert_prop ''usb_device.vendor_id'' (HP_INT32 1133) (fst (hal_device_init 1))"

theorem merge_with_rewrite_result_witness:
  "\<exists>r target' es. hal_device_merge_with_rewrite ascii_glib usb_source ''usb'' ''usb_device'' (fst (hal_device_init 2)) =
      (r, target', es) \<and>
      (\<exists>q. hal_device_property_find target' ''usb.vendor_id'' = Some q \<and> prop_same q (HP_INT32 1133))"
proof -
  let ?t = "fst (hal_device_init 2)"
  obtain r t' es where run:
    "hal_device_merge_with_rewrite ascii_glib usb_source ''usb'' ''usb_device'' ?t = (r, t', es)"
    by (metis prod_cases3)
  have wf: "dev_wf ascii_glib usb_source" "dev_wf ascii_glib ?t"
    by (simp_all add: usb_source_def dev_wf_insert hal_device_init_def dev_wf_def insert_prop_def)
  have src: "hal_device_property_find usb_source ''usb_device.vendor_id'' = Some (HP_INT32 1133)"
    by (simp add: usb_source_def)
  have "prefix ''usb_device'' ''usb_device.vendor_id''" by simp
  with conjunct1 [OF merge_with_rewrite_result [OF ascii_glib_ok wf run]] src
  have "\<exists>q. hal_device_property_find t' (''usb'' @ drop (length ''usb_device'') ''usb_device.vendor_id'') = Some q \<and>
      prop_same q (HP_INT32 1133)" by blast
  with run show ?thesis by simp
qed

text \<open>Copying a property between devices succeeds exactly when the source has it and the target does
  not have it with another type; then the target holds the same value and nothing else changes;
  otherwise the target is unchanged and no signal is emitted.\<close>

theorem copy_property_result:
  assumes "dev_wf G src" and "hal_device_property_find src from = Some p"
    and "hal_device_copy_property G src from to d = (r, d', es)"
  shows "(r \<longleftrightarrow> hal_device_property_find d to = None \<or>
                hal_device_property_get_type d to = hal_property_get_type p) \<and>
    (r \<longrightarrow> (\<exists>q. hal_device_property_find d' to = Some q \<and> prop_same q p)) \<and>
    (\<not> r \<longrightarrow> d' = d \<and> es = []) \<and> agree_except to d d'"
proof -
  have wf: "prop_wf G p" using dev_wf_find [OF assms(1,2)] .
  note look = assms(2) hal_device_has_property_def hal_device_property_get_type_def
    hal_device_property_get_string_def hal_device_property_get_int_def hal_device_property_get_uint64_def
    hal_device_property_get_bool_def hal_device_property_get_double_def hal_device_property_get_strlist_def
  note setters = hal_device_property_set_string_def hal_device_property_set_int_def
    hal_device_property_set_uint64_def hal_device_property_set_bool_def hal_device_property_set_double_def
    hal_device_property_set_strlist_def prop_setter_defs
  show ?thesis
    using assms(3) wf
    by (cases p) (auto simp: hal_device_copy_property_def look setters Let_def strdup_or_empty_def
        utf8_replace_id append_all_strlist strlists_equal_iff split: option.splits if_splits)
qed

theorem copy_property_result_witness:
  "\<exists>r d' es. hal_device_copy_property ascii_glib usb_source ''usb_device.vendor_id'' ''info.vendor_id''
      (fst (hal_device_init 2)) = (r, d', es) \<and> r \<and>
      (\<exists>q. hal_device_property_find d' ''info.vendor_id'' = Some q \<and> prop_same q (HP_INT32 1133))"
proof -
  obtain r d' es where run: "hal_device_copy_property ascii_glib usb_source ''usb_device.vendor_id''
      ''info.vendor_id'' (fst (hal_device_init 2)) = (r, d', es)" by (metis prod_cases3)
  have wf: "dev_wf ascii_glib usb_source"
    by (simp add: usb_source_def dev_wf_insert hal_device_init_def dev_wf_def insert_prop_def)
  have src: "hal_device_property_find usb_source ''usb_device.vendor_id'' = Some (HP_INT32 1133)"
    by (simp add: usb_source_def)
  have "hal_device_property_find (fst (hal_device_init 2)) ''info.vendor_id'' = None"
    by (simp add: hal_device_init_def hal_device_property_find_def)
  with copy_property_result [OF wf src run] run show ?thesis by blast
qed

text \<open>String lists used as sets. Adding an element that is absent appends it and a removal takes it
  out again; adding an element that is present is refused without a signal; afterwards the element is
  contained, and a list without repetitions keeps none.\<close>

theorem strlist_add_is_set_insert:
  assumes "hal_device_property_find d key = Some (HP_STRLIST l)"
    and "hal_device_property_strlist_add key v d = (r, d', es)"
  shows "r = (v \<notin> set l) \<and>
    hal_device_property_get_strlist d' key = (if v \<in> set l then l else l @ [v]) \<and>
    hal_device_property_strlist_contains d' key v \<and>
    (distinct l \<longrightarrow> distinct (hal_device_property_get_strlist d' key)) \<and>
    (r \<longrightarrow> hal_device_property_get_strlist (fst (snd (hal_device_property_strlist_remove key v d'))) key = l) \<and>
    (\<not> r \<longrightarrow> d' = d \<and> es = [])"
  using assms
  by (auto simp: hal_device_property_strlist_add_def hal_device_property_strlist_remove_def
      hal_device_property_get_strlist_def hal_device_property_strlist_contains_def Let_def
      remove1_append split: if_splits)

theorem strlist_add_is_set_insert_witness:
  "\<exists>r d' es. hal_device_property_strlist_add ''info.capabilities'' ''volume''
      (insert_prop ''info.capabilities'' (HP_STRLIST [''block'']) (fst (hal_device_init 1))) = (r, d', es) \<and>
    hal_device_property_get_strlist d' ''info.capabilities'' = [''block'', ''volume'']"
proof -
  let ?d = "insert_prop ''info.capabilities'' (HP_STRLIST [''block'']) (fst (hal_device_init 1))"
  obtain r d' es where run: "hal_device_property_strlist_add ''info.capabilities'' ''volume'' ?d = (r, d', es)"
    by (metis prod_cases3)
  from strlist_add_is_set_insert [OF _ run, of "[''block'']"] run show ?thesis by auto
qed

text \<open>Printing a property into a caller's buffer never writes outside it (the buffer keeps its
  length). A string comes out whole when it is shorter than the buffer; when it is not, the buffer holds
  no terminated string at all.\<close>

theorem get_as_string_string:
  assumes "hal_device_property_find d key = Some (HP_STRING (Some s))" and "NUL \<notin> set s"
  shows "fst (hal_device_property_get_as_string d key buf) \<and>
    length (snd (hal_device_property_get_as_string d key buf)) = length buf \<and>
    c_string (snd (hal_device_property_get_as_string d key buf)) = (if length s < length buf then Some s else None)"
  using assms by (simp add: hal_device_property_get_as_string_def c_string_copied)

theorem get_as_string_string_witness:
  "c_string (snd (hal_device_property_get_as_string
       (insert_prop ''k'' (HP_STRING (Some ''disk'')) (fst (hal_device_init 1))) ''k'' (replicate 4 CHR ''x''))) = None"
proof -
  let ?d = "insert_prop ''k'' (HP_STRING (Some ''disk'')) (fst (hal_device_init 1))"
  have "hal_device_property_find ?d ''k'' = Some (HP_STRING (Some ''disk''))" by simp
  moreover have "NUL \<notin> set ''disk''" by (simp add: NUL_def)
  ultimately show ?thesis using get_as_string_string [of ?d "''k''" "''disk''" "replicate 4 CHR ''x''"] by simp
qed

text \<open>For an empty string list the buffer gets a tab and no terminator: the string read from it
  afterwards is whatever was in the buffer before.\<close>

theorem get_as_string_empty_strlist:
  assumes "hal_device_property_find d key = Some (HP_STRLIST [])"
  shows "hal_device_property_get_as_string d key (b # buf) = (True, tab # buf) \<and>
    (NUL \<notin> set buf \<longrightarrow> c_string (snd (hal_device_property_get_as_string d key (b # buf))) = None)"
  using assms by (auto simp: hal_device_property_get_as_string_def buf_put_def c_string_def NUL_def tab_def)

theorem get_as_string_empty_strlist_witness:
  "hal_device_property_get_as_string
       (insert_prop ''k'' (HP_STRLIST []) (fst (hal_device_init 1))) ''k'' ''junk'' = (True, tab # ''unk'')"
proof -
  have "hal_device_property_find (insert_prop ''k'' (HP_STRLIST []) (fst (hal_device_init 1))) ''k'' =
      Some (HP_STRLIST [])" by simp
  from get_as_string_empty_strlist [OF this] show ?thesis by blast
qed

text \<open>The addon counters. Over any interleaving of addon starts and ready notifications the number
  of ready addons never exceeds the number of addons, the number of addons is the number of starts, and
  a notification is refused exactly when every addon is ready.\<close>

theorem addon_counters:
  assumes "d = addon_run es (fst (hal_device_init c))"
  shows "0 \<le> num_addons_ready d \<and> num_addons_ready d \<le> num_addons d \<and>
    num_addons d = int (length (filter id es)) \<and>
    (fst (hal_device_inc_num_ready_addons d) \<longleftrightarrow> num_addons_ready d < num_addons d)"
proof -
  have "addons_ok d" unfolding assms by (rule addon_run_ok) (simp add: addons_ok_def hal_device_init_def)
  moreover have "num_addons d = int (length (filter id es))"
    unfolding assms by (simp add: addon_run_num hal_device_init_def)
  ultimately show ?thesis by (auto simp: addon_defs)
qed

theorem addon_counters_witness:
  "num_addons (addon_run [True, True, False] (fst (hal_device_init 5))) = 2"
  using addon_counters [OF refl, of "[True, True, False]" 5] by simp

end
