(* ===== verification/Hal_Store.thy ===== *)
theory Hal_Store
  imports Hal_Device_Calls "HOL-Library.Multiset"
begin

text \<open>
  \<open>HalDeviceStore\<close> of \<open>hald/device_store.c\<close>: the list of devices, the handlers it connects to their
  signals, and the property index (key to string value to devices) those handlers maintain.

  Devices live in a heap from addresses to device objects. The inner tables of the index do not copy
  their keys: a key is the pointer to the string inside the property of the device whose value was
  inserted first. An entry therefore carries, beside the text of its key, the device whose property
  owns that text, or \<^const>\<open>None\<close> once the string may be gone: after the property was changed or
  removed (the handlers of \<open>pre_property_changed\<close> run just before the string is freed), and after the
  device left the store (which then neither keeps the device alive nor hears of its changes). A
  lookup compares its argument with every key of the same hash value; meeting a key whose text is gone
  is the error \<open>Use_After_Free\<close>. The hash function \<open>g_str_hash\<close> is a parameter.
\<close>

section \<open>State\<close>

record index_entry =
  ikey :: string
  owner :: "nat option"
  idevs :: "nat list"

type_synonym inner_index = "index_entry list"

datatype store_signal =
    STORE_CHANGED nat bool
  | DEVICE_PROPERTY_CHANGED nat string bool bool
  | DEVICE_CAPABILITY_ADDED nat string
  | DEVICE_LOCK_ACQUIRED nat string string
  | DEVICE_LOCK_RELEASED nat string string

record device_store =
  devices :: "nat list"
  property_index :: "(string \<times> inner_index) list"
  handlers :: "nat list" \<comment> \<open>one entry per connection of the handlers to a device\<close>
  emitted :: "store_signal list"

definition hal_device_store_new :: device_store where
  "hal_device_store_new = \<lparr>devices = [], property_index = [], handlers = [], emitted = []\<rparr>"

definition store_emit :: "store_signal \<Rightarrow> device_store \<Rightarrow> device_store" where
  "store_emit sig store = store\<lparr>emitted := emitted store @ [sig]\<rparr>"

section \<open>The inner hash tables\<close>

definition stale :: "(string \<Rightarrow> nat) \<Rightarrow> string \<Rightarrow> inner_index \<Rightarrow> bool" where
  "stale H v index \<longleftrightarrow> (\<exists>e \<in> set index. owner e = None \<and> H (ikey e) = H v)"

fun devs_of :: "string \<Rightarrow> inner_index \<Rightarrow> nat list" where
  "devs_of v [] = []"
| "devs_of v (e # index) = (if ikey e = v then idevs e else devs_of v index)"

fun put_devs :: "nat \<Rightarrow> string \<Rightarrow> nat list \<Rightarrow> inner_index \<Rightarrow> inner_index" where
  "put_devs dev v ds [] = [\<lparr>ikey = v, owner = Some dev, idevs = ds\<rparr>]"
| "put_devs dev v ds (e # index) =
     (if ikey e = v then e\<lparr>idevs := ds\<rparr> # index else e # put_devs dev v ds index)"

definition index_lookup :: "(string \<Rightarrow> nat) \<Rightarrow> string \<Rightarrow> inner_index \<Rightarrow> memory_error + nat list" where
  "index_lookup H v index = (if stale H v index then Inl Use_After_Free else Inr (devs_of v index))"

definition index_insert ::
    "(string \<Rightarrow> nat) \<Rightarrow> nat \<Rightarrow> string \<Rightarrow> nat list \<Rightarrow> inner_index \<Rightarrow> memory_error + inner_index" where
  "index_insert H dev v ds index =
     (if stale H v index then Inl Use_After_Free else Inr (put_devs dev v ds index))"

text \<open>The strings of a device's property are gone.\<close>

definition orphan :: "nat \<Rightarrow> index_entry \<Rightarrow> index_entry" where
  "orphan dev e = (if owner e = Some dev then e\<lparr>owner := None\<rparr> else e)"

definition orphan_key :: "nat \<Rightarrow> string \<Rightarrow> device_store \<Rightarrow> device_store" where
  "orphan_key dev key store =
     store\<lparr>property_index := map (\<lambda>(k, index). (k, if k = key then map (orphan dev) index else index))
                              (property_index store)\<rparr>"

definition orphan_all :: "nat \<Rightarrow> device_store \<Rightarrow> device_store" where
  "orphan_all dev store =
     store\<lparr>property_index := map (\<lambda>(k, index). (k, map (orphan dev) index)) (property_index store)\<rparr>"

section \<open>Maintaining the index\<close>

definition hal_device_store_index_property :: "string \<Rightarrow> device_store \<Rightarrow> device_store" where
  "hal_device_store_index_property key store =
     (case map_of (property_index store) key of
        None \<Rightarrow> store\<lparr>property_index := AList.update key [] (property_index store)\<rparr>
      | Some _ \<Rightarrow> store)"

definition property_index_modify_string ::
    "(string \<Rightarrow> nat) \<Rightarrow> nat \<Rightarrow> hal_device \<Rightarrow> string \<Rightarrow> bool \<Rightarrow> device_store \<Rightarrow> memory_error + device_store" where
  "property_index_modify_string H dev d key added store =
     (case map_of (property_index store) key of
        None \<Rightarrow> Inr store
      | Some index \<Rightarrow>
          (case hal_device_property_get_string d key of
             None \<Rightarrow> Inl Null_Dereference
           | Some v \<Rightarrow>
               err_bind (index_lookup H v index)
                 (\<lambda>ds. let ds' = (if added then dev # ds else removeAll dev ds)
                       in err_bind (index_insert H dev v ds' index)
                            (\<lambda>index'. Inr (store\<lparr>property_index :=
                               AList.update key index' (property_index store)\<rparr>)))))"

fun property_index_check_keys ::
    "(string \<Rightarrow> nat) \<Rightarrow> nat \<Rightarrow> hal_device \<Rightarrow> bool \<Rightarrow> string list \<Rightarrow> device_store \<Rightarrow> memory_error + device_store" where
  "property_index_check_keys H dev d added [] store = Inr store"
| "property_index_check_keys H dev d added (key # keys) store =
     err_bind (if hal_device_property_get_type d key = TYPE_STRING
               then property_index_modify_string H dev d key added store else Inr store)
       (property_index_check_keys H dev d added keys)"

definition property_index_check_all ::
    "(string \<Rightarrow> nat) \<Rightarrow> nat \<Rightarrow> hal_device \<Rightarrow> bool \<Rightarrow> device_store \<Rightarrow> memory_error + device_store" where
  "property_index_check_all H dev d added store =
     property_index_check_keys H dev d added (map fst (property_index store)) store"

section \<open>The signal handlers\<close>

text \<open>One handler of one connection, called with the device as it is at that moment.\<close>

fun store_handler ::
    "(string \<Rightarrow> nat) \<Rightarrow> nat \<Rightarrow> emission \<Rightarrow> device_store \<Rightarrow> memory_error + device_store" where
  "store_handler H dev (PRE_PROPERTY_CHANGED key removed, d) store =
     (if hal_device_property_get_type d key = TYPE_STRING
      then property_index_modify_string H dev d key False store else Inr store)"
| "store_handler H dev (PROPERTY_CHANGED key removed added, d) store =
     err_bind (if hal_device_property_get_type d key = TYPE_STRING
               then property_index_modify_string H dev d key True store else Inr store)
       (\<lambda>store. Inr (store_emit (DEVICE_PROPERTY_CHANGED dev key removed added) store))"
| "store_handler H dev (CAPABILITY_ADDED cap, d) store = Inr (store_emit (DEVICE_CAPABILITY_ADDED dev cap) store)"
| "store_handler H dev (LOCK_ACQUIRED n s, d) store = Inr (store_emit (DEVICE_LOCK_ACQUIRED dev n s) store)"
| "store_handler H dev (LOCK_RELEASED n s, d) store = Inr (store_emit (DEVICE_LOCK_RELEASED dev n s) store)"

text \<open>The strings freed after an emission: the old value, announced by \<open>pre_property_changed\<close>.\<close>

fun freed_after :: "nat \<Rightarrow> emission \<Rightarrow> device_store \<Rightarrow> device_store" where
  "freed_after dev (PRE_PROPERTY_CHANGED key removed, d) store = orphan_key dev key store"
| "freed_after dev _ store = store"

definition deliver_one ::
    "(string \<Rightarrow> nat) \<Rightarrow> nat \<Rightarrow> emission \<Rightarrow> device_store \<Rightarrow> memory_error + device_store" where
  "deliver_one H dev e store =
     err_bind (err_fold (\<lambda>_. store_handler H dev e) (filter (\<lambda>x. x = dev) (handlers store)) store)
       (\<lambda>store. Inr (freed_after dev e store))"

definition deliver ::
    "(string \<Rightarrow> nat) \<Rightarrow> nat \<Rightarrow> emission list \<Rightarrow> device_store \<Rightarrow> memory_error + device_store" where
  "deliver H dev es store = err_fold (deliver_one H dev) es store"

section \<open>Adding, removing, looking up\<close>

definition hal_device_store_add ::
    "(string \<Rightarrow> nat) \<Rightarrow> nat \<Rightarrow> heap \<Rightarrow> device_store \<Rightarrow> memory_error + device_store" where
  "hal_device_store_add H dev h store =
     (if \<not> strncmp_eq (hal_device_get_udi (h dev)) ''/org/freedesktop/Hal/devices/''
            (length ''/org/freedesktop/Hal/devices/'')
      then Inr store
      else err_bind (property_index_check_all H dev (h dev) True
               (store\<lparr>devices := dev # devices store, handlers := handlers store @ [dev]\<rparr>))
             (\<lambda>store. Inr (store_emit (STORE_CHANGED dev True) store)))"

definition hal_device_store_remove ::
    "(string \<Rightarrow> nat) \<Rightarrow> nat \<Rightarrow> heap \<Rightarrow> device_store \<Rightarrow> memory_error + (bool \<times> device_store)" where
  "hal_device_store_remove H dev h store =
     (if dev \<notin> set (devices store) then Inr (False, store)
      else err_bind (property_index_check_all H dev (h dev) False
               (store\<lparr>devices := remove1 dev (devices store), handlers := removeAll dev (handlers store)\<rparr>))
             (\<lambda>store. Inr (True, orphan_all dev (store_emit (STORE_CHANGED dev False) store))))"

fun find_udi :: "heap \<Rightarrow> string \<Rightarrow> nat list \<Rightarrow> nat option" where
  "find_udi h u [] = None"
| "find_udi h u (dev # iter) =
     (if strcmp (hal_device_get_udi (h dev)) u = 0 then Some dev else find_udi h u iter)"

definition hal_device_store_find :: "heap \<Rightarrow> string \<Rightarrow> device_store \<Rightarrow> nat option" where
  "hal_device_store_find h u store = find_udi h u (devices store)"

text \<open>\<open>hal_device_store_foreach\<close>: the callback returns whether to go on, and its effect.\<close>

fun foreach_device :: "(nat \<Rightarrow> 's \<Rightarrow> bool \<times> 's) \<Rightarrow> nat list \<Rightarrow> 's \<Rightarrow> 's" where
  "foreach_device callback [] s = s"
| "foreach_device callback (dev # iter) s =
     (case callback dev s of (cont, s') \<Rightarrow> if \<not> cont then s' else foreach_device callback iter s')"

definition hal_device_store_foreach :: "(nat \<Rightarrow> 's \<Rightarrow> bool \<times> 's) \<Rightarrow> device_store \<Rightarrow> 's \<Rightarrow> 's" where
  "hal_device_store_foreach callback store s = foreach_device callback (devices store) s"

text \<open>The test of the linear scans; a string property without a string would crash \<open>strcmp\<close>.\<close>

definition match_string :: "hal_device \<Rightarrow> string \<Rightarrow> string \<Rightarrow> memory_error + bool" where
  "match_string d key v =
     (if \<not> hal_device_has_property d key then Inr False
      else if hal_device_property_get_type d key \<noteq> TYPE_STRING then Inr False
      else (case hal_device_property_get_string d key of
              None \<Rightarrow> Inl Null_Dereference
            | Some s \<Rightarrow> Inr (strcmp s v = 0)))"

fun scan_first :: "heap \<Rightarrow> string \<Rightarrow> string \<Rightarrow> nat list \<Rightarrow> memory_error + nat option" where
  "scan_first h key v [] = Inr None"
| "scan_first h key v (dev # iter) =
     err_bind (match_string (h dev) key v)
       (\<lambda>m. if m then Inr (Some dev) else scan_first h key v iter)"

fun scan_all :: "heap \<Rightarrow> string \<Rightarrow> string \<Rightarrow> nat list \<Rightarrow> nat list \<Rightarrow> memory_error + nat list" where
  "scan_all h key v [] matches = Inr matches"
| "scan_all h key v (dev # iter) matches =
     err_bind (match_string (h dev) key v)
       (\<lambda>m. scan_all h key v iter (if m then dev # matches else matches))"

definition hal_device_store_match_key_value_string ::
    "(string \<Rightarrow> nat) \<Rightarrow> heap \<Rightarrow> string \<Rightarrow> string \<Rightarrow> device_store \<Rightarrow> memory_error + nat option" where
  "hal_device_store_match_key_value_string H h key v store =
     (case map_of (property_index store) key of
        Some index \<Rightarrow>
          err_bind (index_lookup H v index) (\<lambda>ds. Inr (case ds of [] \<Rightarrow> None | dev # _ \<Rightarrow> Some dev))
      | None \<Rightarrow> scan_first h key v (devices store))"

definition hal_device_store_match_multiple_key_value_string ::
    "(string \<Rightarrow> nat) \<Rightarrow> heap \<Rightarrow> string \<Rightarrow> string \<Rightarrow> device_store \<Rightarrow> memory_error + nat list" where
  "hal_device_store_match_multiple_key_value_string H h key v store =
     (case map_of (property_index store) key of
        Some index \<Rightarrow> index_lookup H v index
      | None \<Rightarrow> scan_all h key v (devices store) [])"

fun scan_int :: "heap \<Rightarrow> string \<Rightarrow> int32 \<Rightarrow> nat list \<Rightarrow> nat option" where
  "scan_int h key i [] = None"
| "scan_int h key i (dev # iter) =
     (if \<not> hal_device_has_property (h dev) key then scan_int h key i iter
      else if hal_device_property_get_type (h dev) key \<noteq> TYPE_INT32 then scan_int h key i iter
      else if hal_device_property_get_int (h dev) key = i then Some dev
      else scan_int h key i iter)"

definition hal_device_store_match_key_value_int ::
    "heap \<Rightarrow> string \<Rightarrow> int32 \<Rightarrow> device_store \<Rightarrow> nat option" where
  "hal_device_store_match_key_value_int h key i store = scan_int h key i (devices store)"

end
