(* ===== verification/Hal_Store_Props.thy ===== *)
theory Hal_Store_Props
  imports Hal_Store
begin

text \<open>
  The property index of the device store agrees with the devices: whatever is done to the devices
  through \<open>hald/device.c\<close> and to the store, an indexed lookup that does not meet a freed key returns
  exactly the devices a linear scan finds. The proof rests on the contract \<open>dev_op\<close> only (the signals
  tell the truth about string values), so it covers every operation that meets it.
\<close>

section \<open>The inner tables\<close>

lemma devs_of_put: "devs_of w (put_devs dev v ds index) = (if w = v then ds else devs_of w index)"
  by (induction index) auto

lemma devs_of_orphan [simp]: "devs_of v (map (orphan dev) index) = devs_of v index"
  by (induction index) (auto simp: orphan_def)

lemma map_of_map_snd: "map_of (map (\<lambda>(k, x). (k, f k x)) al) k = map_option (f k) (map_of al k)"
  by (induction al) auto

lemma filter_single: "distinct xs \<Longrightarrow> x \<in> set xs \<Longrightarrow> filter (\<lambda>y. y = x) xs = [x]"
  by (induction xs) (auto simp: filter_empty_conv)

section \<open>What the index lists\<close>

definition listing :: "device_store \<Rightarrow> string \<Rightarrow> string \<Rightarrow> nat list option" where
  "listing store k v = map_option (devs_of v) (map_of (property_index store) k)"

definition listed :: "(string \<Rightarrow> string \<Rightarrow> nat set) \<Rightarrow> device_store \<Rightarrow> bool" where
  "listed P store \<longleftrightarrow>
     (\<forall>k v ds. listing store k v = Some ds \<longrightarrow> distinct ds \<and> set ds = P k v)"

definition same_shape :: "device_store \<Rightarrow> device_store \<Rightarrow> bool" where
  "same_shape store store' \<longleftrightarrow>
     devices store' = devices store \<and> handlers store' = handlers store \<and>
     map fst (property_index store') = map fst (property_index store)"

definition index_ok :: "heap \<Rightarrow> device_store \<Rightarrow> bool" where
  "index_ok h store \<longleftrightarrow>
     distinct (devices store) \<and> distinct (handlers store) \<and> set (handlers store) = set (devices store) \<and>
     distinct (map fst (property_index store)) \<and>
     listed (\<lambda>k v. {dev \<in> set (devices store). hal_device_property_get_string (h dev) k = Some v}) store"

lemma same_shape_refl [simp]: "same_shape s s"
  by (simp add: same_shape_def)

lemma same_shape_trans: "same_shape s t \<Longrightarrow> same_shape t u \<Longrightarrow> same_shape s u"
  by (simp add: same_shape_def)

lemma same_shape_emit [simp]: "same_shape s (store_emit sig t) = same_shape s t"
  by (simp add: same_shape_def store_emit_def)

lemma listing_simps [simp]:
  "listing (store_emit sig s) = listing s"
  "listing (orphan_key dev key s) = listing s"
  "listing (orphan_all dev s) = listing s"
  "listing (s\<lparr>devices := ds, handlers := hs\<rparr>) = listing s"
  by (auto simp: fun_eq_iff listing_def store_emit_def orphan_key_def orphan_all_def map_of_map_snd
      option.map_comp comp_def intro!: option.map_cong0)

lemma listed_simps [simp]:
  "listed P (store_emit sig s) = listed P s"
  "listed P (orphan_key dev key s) = listed P s"
  "listed P (orphan_all dev s) = listed P s"
  "listed P (s\<lparr>devices := ds, handlers := hs\<rparr>) = listed P s"
  by (simp_all add: listed_def)

lemma same_shape_orphan [simp]:
  "same_shape s (orphan_key dev key s)" "same_shape s (orphan_all dev s)"
  by (auto simp: same_shape_def orphan_key_def orphan_all_def)

text \<open>One update of the index, when the property is a string.\<close>

lemma modify_string:
  assumes "property_index_modify_string H dev d key added s = Inr s'" and "listed P s"
    and "hal_device_property_get_type d key = TYPE_STRING"
    and "added \<Longrightarrow> \<forall>v. hal_device_property_get_string d key = Some v \<longrightarrow> dev \<notin> P key v"
  shows "same_shape s s'"
    and "listed (\<lambda>k v. if k = key \<and> hal_device_property_get_string d key = Some v
           then (if added then insert dev (P k v) else P k v - {dev}) else P k v) s'"
proof -
  have "same_shape s s' \<and> listed (\<lambda>k v. if k = key \<and> hal_device_property_get_string d key = Some v
           then (if added then insert dev (P k v) else P k v - {dev}) else P k v) s'"
  proof (cases "map_of (property_index s) key")
    case None
    then have "s' = s" and "listing s key v = None" for v
      using assms(1) by (simp_all add: property_index_modify_string_def listing_def)
    with assms(2) show ?thesis by (auto simp: listed_def)
  next
    case (Some index)
    obtain v where v: "hal_device_property_get_string d key = Some v"
      and s': "s' = s\<lparr>property_index := AList.update key
        (put_devs dev v (if added then dev # devs_of v index else removeAll dev (devs_of v index)) index)
        (property_index s)\<rparr>"
      using assms(1) Some
      by (auto simp: property_index_modify_string_def index_lookup_def index_insert_def Let_def
          split: option.splits if_splits)
    have "key \<in> fst ` set (property_index s)"
      using Some by (metis map_of_eq_None_iff option.distinct(1))
    then have shape: "same_shape s s'" by (simp add: same_shape_def s' update_keys)
    have "listing s key v = Some (devs_of v index)" using Some by (simp add: listing_def)
    then have old: "distinct (devs_of v index)" "set (devs_of v index) = P key v"
      using assms(2) unfolding listed_def by blast+
    then have dev: "dev \<notin> set (devs_of v index)" if added
      using assms(4) [OF that] v by simp
    have new: "listing s' k w = (if k = key \<and> w = v
        then Some (if added then dev # devs_of v index else removeAll dev (devs_of v index))
        else listing s k w)" for k w
      using Some by (simp add: listing_def s' AList.update_conv' devs_of_put)
    show ?thesis
      using shape assms(2) v dev old by (simp add: listed_def new distinct_removeAll)
  qed
  then show "same_shape s s'" and "listed (\<lambda>k v. if k = key \<and> hal_device_property_get_string d key = Some v
           then (if added then insert dev (P k v) else P k v - {dev}) else P k v) s'"
    by blast+
qed

section \<open>Delivering the signals of a device\<close>

text \<open>The index with one device taken out of the picture and put where \<open>cur\<close> says.\<close>

definition placed :: "(string \<Rightarrow> string \<Rightarrow> nat set) \<Rightarrow> nat \<Rightarrow> (string \<Rightarrow> string option) \<Rightarrow> string \<Rightarrow> string \<Rightarrow> nat set" where
  "placed others dev cur k v = (if cur k = Some v then insert dev (others k v) else others k v)"

lemma not_string_type:
  "hal_device_property_get_type d k \<noteq> TYPE_STRING \<Longrightarrow> hal_device_property_get_string d k = None"
proof (cases "hal_device_property_find d k")
  case (Some p)
  then show "hal_device_property_get_type d k \<noteq> TYPE_STRING \<Longrightarrow> ?thesis"
    by (cases p) (simp_all add: hal_device_property_get_type_def hal_device_property_get_string_def)
qed (simp add: hal_device_property_get_string_def)

lemma handler_placed:
  assumes "store_handler H dev e s = Inr s'" and "listed (placed others dev cur) s"
    and "\<And>k v. dev \<notin> others k v" and "\<And>k. track k (cur k) [e] = Some (cur' k)"
  shows "same_shape s s' \<and> listed (placed others dev cur') s'"
proof -
  obtain sig d where e: "e = (sig, d)" by (cases e)
  have same: "(\<And>k. cur k = cur' k) \<Longrightarrow> placed others dev cur' = placed others dev cur"
    by (auto simp: placed_def fun_eq_iff)
  show ?thesis
  proof (cases sig)
    case (PRE_PROPERTY_CHANGED key removed)
    have cur': "cur' k = (if k = key \<and> hal_device_property_get_string d key \<noteq> None then None else cur k)" for k
      using assms(4) [of k] by (auto simp: e PRE_PROPERTY_CHANGED split: if_splits option.splits)
    show ?thesis
    proof (cases "hal_device_property_get_type d key = TYPE_STRING")
      case True
      have mod: "property_index_modify_string H dev d key False s = Inr s'"
        using assms(1) True by (simp add: e PRE_PROPERTY_CHANGED)
      note m = modify_string [OF mod assms(2) True]
      have cur: "cur key = Some v" if "hal_device_property_get_string d key = Some v" for v
        using assms(4) [of key] that by (auto simp: e PRE_PROPERTY_CHANGED split: if_splits)
      have "(\<lambda>k v. if k = key \<and> hal_device_property_get_string d key = Some v
           then placed others dev cur k v - {dev} else placed others dev cur k v) = placed others dev cur'"
        using cur assms(3) by (auto simp: fun_eq_iff placed_def cur')
      with m show ?thesis by (simp only: if_False)
    next
      case False
      then have "cur' = cur" using cur' not_string_type by auto
      with assms False show ?thesis by (simp add: e PRE_PROPERTY_CHANGED)
    qed
  next
    case (PROPERTY_CHANGED key removed added)
    have cur': "cur' k = (if k = key \<and> hal_device_property_get_string d key \<noteq> None
        then hal_device_property_get_string d key else cur k)" for k
      using assms(4) [of k] by (auto simp: e PROPERTY_CHANGED split: if_splits option.splits)
    show ?thesis
    proof (cases "hal_device_property_get_type d key = TYPE_STRING")
      case True
      obtain s1 where mod: "property_index_modify_string H dev d key True s = Inr s1"
        and s': "s' = store_emit (DEVICE_PROPERTY_CHANGED dev key removed added) s1"
        using assms(1) True by (auto simp: e PROPERTY_CHANGED)
      have cur: "cur key = None" if "hal_device_property_get_string d key = Some v" for v
        using assms(4) [of key] that by (auto simp: e PROPERTY_CHANGED split: if_splits)
      then have fresh: "\<forall>v. hal_device_property_get_string d key = Some v \<longrightarrow> dev \<notin> placed others dev cur key v"
        using assms(3) by (auto simp: placed_def)
      note m = modify_string [OF mod assms(2) True fresh]
      have "(\<lambda>k v. if k = key \<and> hal_device_property_get_string d key = Some v
           then insert dev (placed others dev cur k v) else placed others dev cur k v) = placed others dev cur'"
        using cur assms(3) by (auto simp: fun_eq_iff placed_def cur')
      with m s' show ?thesis by (simp only: if_True same_shape_emit listed_simps)
    next
      case False
      then have "cur' = cur" using cur' not_string_type by auto
      with assms False show ?thesis by (auto simp: e PROPERTY_CHANGED)
    qed
  qed (use assms same in \<open>auto simp: e\<close>)
qed

lemma freed_after_keeps [simp]:
  "listed P (freed_after dev e s) = listed P s" "same_shape s (freed_after dev e s)"
  by (cases "(dev, e, s)" rule: freed_after.cases; simp)+

lemma deliver_connected:
  assumes "deliver H dev es s = Inr s'" and "filter (\<lambda>x. x = dev) (handlers s) = [dev]"
    and "listed (placed others dev cur) s" and "\<And>k v. dev \<notin> others k v"
    and "\<And>k. track k (cur k) es = Some (fin k)"
  shows "same_shape s s' \<and> listed (placed others dev fin) s'"
  using assms
proof (induction es arbitrary: s cur)
  case Nil
  then have "cur = fin" by (simp add: fun_eq_iff)
  with Nil show ?case by (simp add: deliver_def)
next
  case (Cons e es)
  obtain s1 s2 where h: "store_handler H dev e s = Inr s1" and s2: "s2 = freed_after dev e s1"
    and rest: "deliver H dev es s2 = Inr s'"
    using Cons.prems(1,2) by (auto simp: deliver_def deliver_one_def)
  have "\<exists>c. track k (cur k) [e] = Some c \<and> track k c es = Some (fin k)" for k
    using Cons.prems(5) [of k] track_append [of k "cur k" "[e]" es] by (auto split: option.splits)
  then obtain cur' where cur': "\<And>k. track k (cur k) [e] = Some (cur' k)"
    and es: "\<And>k. track k (cur' k) es = Some (fin k)" by metis
  note step = handler_placed [OF h Cons.prems(3,4) cur']
  then have "same_shape s s2" "listed (placed others dev cur') s2"
    using s2 same_shape_trans freed_after_keeps by (metis, simp)
  moreover have "filter (\<lambda>x. x = dev) (handlers s2) = [dev]"
    using Cons.prems(2) \<open>same_shape s s2\<close> by (simp add: same_shape_def)
  ultimately show ?case
    using Cons.IH [OF rest _ _ Cons.prems(4) es] same_shape_trans by blast
qed

lemma deliver_disconnected:
  assumes "deliver H dev es s = Inr s'" and "dev \<notin> set (handlers s)"
  shows "same_shape s s' \<and> (listed P s \<longrightarrow> listed P s')"
  using assms
proof (induction es arbitrary: s)
  case (Cons e es)
  then have none: "filter (\<lambda>x. x = dev) (handlers s) = []" by (auto simp: filter_empty_conv)
  with Cons.prems(1) have rest: "deliver H dev es (freed_after dev e s) = Inr s'"
    by (auto simp: deliver_def deliver_one_def)
  have "same_shape s (freed_after dev e s)" by simp
  moreover from this have "dev \<notin> set (handlers (freed_after dev e s))"
    using Cons.prems(2) by (simp add: same_shape_def)
  ultimately show ?case using Cons.IH [OF rest] same_shape_trans by (metis freed_after_keeps(1))
qed (simp add: deliver_def)

lemma index_ok_shape: "same_shape s s' \<Longrightarrow> index_ok h s \<Longrightarrow>
    listed (\<lambda>k v. {x \<in> set (devices s). hal_device_property_get_string (h' x) k = Some v}) s' \<Longrightarrow> index_ok h' s'"
  by (simp add: index_ok_def same_shape_def)

text \<open>The index follows every truthful trace.\<close>

lemma deliver_index_ok:
  assumes ok: "index_ok h s" and del: "deliver H dev es s = Inr s'" and tr: "traced (h dev) d' es"
  shows "index_ok (h(dev := d')) s'"
proof (cases "dev \<in> set (devices s)")
  case True
  let ?others = "\<lambda>k v. {x \<in> set (devices s). x \<noteq> dev \<and> hal_device_property_get_string (h x) k = Some v}"
  have placed: "placed ?others dev (hal_device_property_get_string d) =
      (\<lambda>k v. {x \<in> set (devices s). hal_device_property_get_string ((h(dev := d)) x) k = Some v})" for d
    using True by (auto simp: placed_def fun_eq_iff)
  have "filter (\<lambda>x. x = dev) (handlers s) = [dev]"
    using ok True filter_single by (metis index_ok_def)
  moreover have "listed (placed ?others dev (hal_device_property_get_string (h dev))) s"
    unfolding placed using ok by (simp add: index_ok_def)
  ultimately have "same_shape s s' \<and> listed (placed ?others dev (hal_device_property_get_string d')) s'"
    using deliver_connected [OF del, of ?others "hal_device_property_get_string (h dev)"
        "hal_device_property_get_string d'"] tr by (simp add: traced_def)
  then show ?thesis using index_ok_shape [OF _ ok] unfolding placed by blast
next
  case False
  then have "dev \<notin> set (handlers s)" using ok by (simp add: index_ok_def)
  note dd = deliver_disconnected [OF del this]
  have "(\<lambda>k v. {x \<in> set (devices s). hal_device_property_get_string ((h(dev := d')) x) k = Some v}) =
      (\<lambda>k v. {x \<in> set (devices s). hal_device_property_get_string (h x) k = Some v})"
    using False by (auto simp: fun_eq_iff)
  with dd ok index_ok_shape [of s s' h "h(dev := d')"] show ?thesis by (simp add: index_ok_def)
qed

section \<open>Adding and removing devices\<close>

lemma hal_device_store_add_eq:
  "hal_device_store_add H dev h s =
     (if prefix ''/org/freedesktop/Hal/devices/'' (udi (h dev))
      then err_bind (property_index_check_all H dev (h dev) True
             (s\<lparr>devices := dev # devices s, handlers := handlers s @ [dev]\<rparr>))
           (\<lambda>s. Inr (store_emit (STORE_CHANGED dev True) s))
      else Inr s)"
  by (simp only: hal_device_store_add_def strncmp_eq_prefix hal_device_get_udi_def if_not_P if_P
      simp_thms split: if_split) blast

lemma listed_cong:
  assumes "\<And>k v. k \<in> fst ` set (property_index s) \<Longrightarrow> P k v = Q k v"
  shows "listed P s \<longleftrightarrow> listed Q s"
proof -
  have "k \<in> fst ` set (property_index s)" if "listing s k v = Some ds" for k v ds
    using that by (force simp: listing_def dest!: map_of_SomeD)
  with assms have "P k v = Q k v" if "listing s k v = Some ds" for k v ds using that by blast
  then show ?thesis by (auto simp: listed_def)
qed

lemma check_key_placed:
  assumes "(if hal_device_property_get_type d key = TYPE_STRING
            then property_index_modify_string H dev d key added s else Inr s) = Inr s'"
    and "listed (placed others dev cur) s" and "\<And>k v. dev \<notin> others k v"
    and "cur key = (if added then None else hal_device_property_get_string d key)"
  shows "same_shape s s' \<and>
    listed (placed others dev (cur(key := if added then hal_device_property_get_string d key else None))) s'"
proof (cases "hal_device_property_get_type d key = TYPE_STRING")
  case True
  with assms(1) have mod: "property_index_modify_string H dev d key added s = Inr s'" by simp
  have fresh: "\<forall>v. hal_device_property_get_string d key = Some v \<longrightarrow> dev \<notin> placed others dev cur key v" if added
    using assms(3,4) that by (simp add: placed_def)
  note m = modify_string [OF mod assms(2) True fresh]
  have "(\<lambda>k v. if k = key \<and> hal_device_property_get_string d key = Some v
      then (if added then insert dev (placed others dev cur k v) else placed others dev cur k v - {dev})
      else placed others dev cur k v) =
    placed others dev (cur(key := if added then hal_device_property_get_string d key else None))"
    using assms(3,4) by (auto simp: fun_eq_iff placed_def)
  with m show ?thesis by simp
next
  case False
  then have "cur(key := if added then hal_device_property_get_string d key else None) = cur"
    using assms(4) not_string_type by (auto simp: fun_eq_iff)
  with assms False show ?thesis by simp
qed

lemma check_keys_placed:
  assumes "property_index_check_keys H dev d added keys s = Inr s'" and "distinct keys"
    and "listed (placed others dev cur) s" and "\<And>k v. dev \<notin> others k v"
    and "\<And>k. k \<in> set keys \<Longrightarrow> cur k = (if added then None else hal_device_property_get_string d k)"
  shows "same_shape s s' \<and>
    listed (placed others dev (\<lambda>k. if k \<in> set keys
      then (if added then hal_device_property_get_string d k else None) else cur k)) s'"
  using assms
proof (induction keys arbitrary: s cur)
  case (Cons key keys)
  from Cons.prems(1) obtain s1 where
    one: "(if hal_device_property_get_type d key = TYPE_STRING
            then property_index_modify_string H dev d key added s else Inr s) = Inr s1"
    and rest: "property_index_check_keys H dev d added keys s1 = Inr s'" by auto
  let ?cur = "cur(key := if added then hal_device_property_get_string d key else None)"
  note step = check_key_placed [OF one Cons.prems(3,4)]
  have step': "same_shape s s1 \<and> listed (placed others dev ?cur) s1" using step Cons.prems(5) by simp
  have dist: "distinct keys" "key \<notin> set keys" using Cons.prems(2) by auto
  then have cur: "\<And>k. k \<in> set keys \<Longrightarrow> ?cur k = (if added then None else hal_device_property_get_string d k)"
    using Cons.prems(5) by auto
  note IH = Cons.IH [OF rest dist(1) _ Cons.prems(4) cur]
  have fin: "(\<lambda>k. if k \<in> set keys then (if added then hal_device_property_get_string d k else None) else ?cur k) =
      (\<lambda>k. if k \<in> set (key # keys) then (if added then hal_device_property_get_string d k else None) else cur k)"
    using dist(2) by (auto simp: fun_eq_iff)
  show ?case using IH step' same_shape_trans unfolding fin by blast
qed simp

text \<open>Adding a device that is not in the store, and removing one.\<close>

lemma add_index_ok:
  assumes ok: "index_ok h s" and new: "dev \<notin> set (devices s)" and add: "hal_device_store_add H dev h s = Inr s'"
  shows "index_ok h s' \<and> set (devices s') \<subseteq> insert dev (set (devices s))"
proof (cases "strncmp_eq (hal_device_get_udi (h dev)) ''/org/freedesktop/Hal/devices/''
            (length ''/org/freedesktop/Hal/devices/'')")
  case True
  let ?s = "s\<lparr>devices := dev # devices s, handlers := handlers s @ [dev]\<rparr>"
  let ?others = "\<lambda>k v. {x \<in> set (devices s). hal_device_property_get_string (h x) k = Some v}"
  obtain s1 where chk: "property_index_check_keys H dev (h dev) True (map fst (property_index ?s)) ?s = Inr s1"
    and s': "s' = store_emit (STORE_CHANGED dev True) s1"
    using add True by (auto simp: hal_device_store_add_def property_index_check_all_def)
  have "placed ?others dev (\<lambda>_. None) = ?others" by (simp add: placed_def fun_eq_iff)
  then have pre: "listed (placed ?others dev (\<lambda>_. None)) ?s" using ok by (simp add: index_ok_def)
  have dist: "distinct (map fst (property_index ?s))" using ok by (simp add: index_ok_def)
  note c = check_keys_placed [OF chk dist pre]
  then have shape: "same_shape ?s s1" and
    l: "listed (placed ?others dev (\<lambda>k. if k \<in> set (map fst (property_index ?s))
          then hal_device_property_get_string (h dev) k else None)) s1"
    using new by (simp_all cong: if_cong)
  have "listed (\<lambda>k v. {x \<in> set (devices s1). hal_device_property_get_string (h x) k = Some v}) s1"
  proof (rule listed_cong [THEN iffD1, OF _ l])
    fix k v
    assume "k \<in> fst ` set (property_index s1)"
    then have "k \<in> set (map fst (property_index ?s))" using shape by (metis same_shape_def set_map)
    then show "placed ?others dev (\<lambda>k. if k \<in> set (map fst (property_index ?s))
          then hal_device_property_get_string (h dev) k else None) k v =
        {x \<in> set (devices s1). hal_device_property_get_string (h x) k = Some v}"
      using shape by (auto simp: placed_def same_shape_def)
  qed
  then show ?thesis
    using shape ok new unfolding s' by (auto simp: index_ok_def same_shape_def store_emit_def listed_def listing_def)
next
  case False
  with add ok show ?thesis by (auto simp: hal_device_store_add_def)
qed

lemma remove_index_ok:
  assumes ok: "index_ok h s" and rem: "hal_device_store_remove H dev h s = Inr (r, s')"
  shows "index_ok h s' \<and> set (devices s') = set (devices s) - {dev} \<and> (r \<longleftrightarrow> dev \<in> set (devices s))"
proof (cases "dev \<in> set (devices s)")
  case True
  let ?s = "s\<lparr>devices := remove1 dev (devices s), handlers := removeAll dev (handlers s)\<rparr>"
  let ?others = "\<lambda>k v. {x \<in> set (devices s). x \<noteq> dev \<and> hal_device_property_get_string (h x) k = Some v}"
  obtain s1 where chk: "property_index_check_keys H dev (h dev) False (map fst (property_index ?s)) ?s = Inr s1"
    and s': "s' = orphan_all dev (store_emit (STORE_CHANGED dev False) s1)" and r: "r"
    using rem True by (auto simp: hal_device_store_remove_def property_index_check_all_def)
  have "placed ?others dev (hal_device_property_get_string (h dev)) =
      (\<lambda>k v. {x \<in> set (devices s). hal_device_property_get_string (h x) k = Some v})"
    using True by (auto simp: placed_def fun_eq_iff)
  then have pre: "listed (placed ?others dev (hal_device_property_get_string (h dev))) ?s"
    using ok by (simp add: index_ok_def)
  have dist: "distinct (map fst (property_index ?s))" using ok by (simp add: index_ok_def)
  note c = check_keys_placed [OF chk dist pre]
  then have shape: "same_shape ?s s1" and
    l: "listed (placed ?others dev (\<lambda>k. if k \<in> set (map fst (property_index ?s))
          then None else hal_device_property_get_string (h dev) k)) s1"
    by (simp_all cong: if_cong)
  have devs: "set (devices s1) = set (devices s) - {dev}"
    using shape ok by (simp add: same_shape_def index_ok_def)
  have "listed (\<lambda>k v. {x \<in> set (devices s1). hal_device_property_get_string (h x) k = Some v}) s1"
  proof (rule listed_cong [THEN iffD1, OF _ l])
    fix k v
    assume "k \<in> fst ` set (property_index s1)"
    then have "k \<in> set (map fst (property_index ?s))" using shape by (metis same_shape_def set_map)
    then show "placed ?others dev (\<lambda>k. if k \<in> set (map fst (property_index ?s))
          then None else hal_device_property_get_string (h dev) k) k v =
        {x \<in> set (devices s1). hal_device_property_get_string (h x) k = Some v}"
      using devs by (auto simp: placed_def)
  qed
  moreover have "same_shape s1 s'" unfolding s' by (metis same_shape_emit same_shape_orphan(2) same_shape_refl same_shape_trans)
  ultimately have "listed (\<lambda>k v. {x \<in> set (devices s'). hal_device_property_get_string (h x) k = Some v}) s'"
    by (simp add: s' same_shape_def)
  then show ?thesis
    using \<open>same_shape s1 s'\<close> shape ok devs r True
    by (auto simp: index_ok_def same_shape_def distinct_removeAll)
next
  case False
  with rem ok show ?thesis by (auto simp: hal_device_store_remove_def)
qed

section \<open>Sequences of calls\<close>

text \<open>The store relies on nothing of a device operation but its contract.\<close>

context dev_op
begin

lemma store_follows:
  "index_ok h s \<Longrightarrow> opr (h dev) = (r, d', es) \<Longrightarrow> deliver H dev es s = Inr s' \<Longrightarrow> index_ok (h(dev := d')) s'"
  using deliver_index_ok truthful by blast

end

datatype store_call = Add nat | Drop nat | Call nat dev_call

fun store_step ::
    "glib \<Rightarrow> (string \<Rightarrow> nat) \<Rightarrow> store_call \<Rightarrow> heap \<times> device_store \<Rightarrow> memory_error + heap \<times> device_store" where
  "store_step G H (Add dev) (h, s) = err_bind (hal_device_store_add H dev h s) (\<lambda>s'. Inr (h, s'))"
| "store_step G H (Drop dev) (h, s) = err_bind (hal_device_store_remove H dev h s) (\<lambda>(r, s'). Inr (h, s'))"
| "store_step G H (Call dev c) (h, s) =
     (case dev_step G c (h dev) of
        (r, d', es) \<Rightarrow> err_bind (deliver H dev es s) (\<lambda>s'. Inr (h(dev := d'), s')))"

text \<open>A device is added only while it is not in the store.\<close>

fun fresh_adds :: "nat set \<Rightarrow> store_call list \<Rightarrow> bool" where
  "fresh_adds A [] = True"
| "fresh_adds A (Add dev # cs) = (dev \<notin> A \<and> fresh_adds (insert dev A) cs)"
| "fresh_adds A (Drop dev # cs) = fresh_adds (A - {dev}) cs"
| "fresh_adds A (Call dev c # cs) = fresh_adds A cs"

lemma deliver_devices:
  assumes "index_ok h s" and "deliver H dev es s = Inr s'" and "traced (h dev) d' es"
  shows "set (devices s') = set (devices s)"
proof -
  have "same_shape s s'" if "dev \<notin> set (handlers s)" using deliver_disconnected [OF assms(2) that] by blast
  moreover have "same_shape s s'" if "dev \<in> set (handlers s)"
  proof -
    let ?others = "\<lambda>k v. {x \<in> set (devices s). x \<noteq> dev \<and> hal_device_property_get_string (h x) k = Some v}"
    have "filter (\<lambda>x. x = dev) (handlers s) = [dev]"
      using assms(1) that filter_single by (metis index_ok_def)
    moreover have "placed ?others dev (hal_device_property_get_string (h dev)) =
        (\<lambda>k v. {x \<in> set (devices s). hal_device_property_get_string (h x) k = Some v})"
      using assms(1) that by (auto simp: placed_def fun_eq_iff index_ok_def)
    moreover have "track k (hal_device_property_get_string (h dev) k) es =
        Some (hal_device_property_get_string d' k)" for k
      using assms(3) by (simp add: traced_def)
    ultimately show ?thesis
      using deliver_connected [OF assms(2), of ?others "hal_device_property_get_string (h dev)"
          "hal_device_property_get_string d'"] assms(1) by (simp add: index_ok_def)
  qed
  ultimately have "same_shape s s'" by blast
  then show ?thesis by (simp add: same_shape_def)
qed

lemma store_step_ok:
  assumes "store_step G H c (h, s) = Inr (h', s')" and "index_ok h s"
    and "set (devices s) \<subseteq> A" and "fresh_adds A (c # cs)"
  shows "index_ok h' s' \<and> (\<exists>B. set (devices s') \<subseteq> B \<and> fresh_adds B cs)"
proof (cases c)
  case (Add dev)
  with assms have add: "hal_device_store_add H dev h s = Inr s'" and "h' = h"
    and new: "dev \<notin> set (devices s)" by auto
  then have "index_ok h' s'" and sub: "set (devices s') \<subseteq> insert dev (set (devices s))"
    using add_index_ok [OF assms(2) new add] by simp_all
  moreover have "set (devices s') \<subseteq> insert dev A" using sub assms(3) by (meson insert_mono subset_trans)
  moreover have "fresh_adds (insert dev A) cs" using assms(4) Add by simp
  ultimately show ?thesis by blast
next
  case (Drop dev)
  from assms(1) obtain x where x: "hal_device_store_remove H dev h s = Inr x"
    unfolding Drop store_step.simps err_bind_Inr by blast
  with assms(1) have rem: "hal_device_store_remove H dev h s = Inr (fst x, s')" and "h' = h"
    by (cases x, simp add: Drop)+
  then have "index_ok h' s'" and "set (devices s') = set (devices s) - {dev}"
    using remove_index_ok [OF assms(2) rem] by simp_all
  moreover have "fresh_adds (A - {dev}) cs" using assms(4) Drop by simp
  ultimately show ?thesis using assms(3) by (metis Diff_mono subset_refl)
next
  case (Call dev c)
  then obtain r d' es where c: "dev_step G c (h dev) = (r, d', es)"
    and del: "deliver H dev es s = Inr s'" and h': "h' = h(dev := d')"
    using assms(1) by (auto split: prod.splits)
  note ok = any_call.store_follows [OF assms(2) c del]
  have "set (devices s') = set (devices s)"
    using deliver_devices [OF assms(2) del any_call.truthful [OF c]] .
  with ok h' assms(3,4) Call show ?thesis by auto
qed

lemma store_run_ok:
  assumes "err_fold (store_step G H) cs (h, s) = Inr (h', s')" and "index_ok h s"
    and "set (devices s) \<subseteq> A" and "fresh_adds A cs"
  shows "index_ok h' s'"
  using assms
proof (induction cs arbitrary: h s A)
  case (Cons c cs)
  from Cons.prems(1) obtain h1 s1 where step: "store_step G H c (h, s) = Inr (h1, s1)"
    and rest: "err_fold (store_step G H) cs (h1, s1) = Inr (h', s')" by auto
  from store_step_ok [OF step Cons.prems(2,3,4)] Cons.IH [OF rest] show ?case by blast
qed simp

fun index_properties :: "string list \<Rightarrow> device_store \<Rightarrow> device_store" where
  "index_properties [] s = s"
| "index_properties (k # ks) s = index_properties ks (hal_device_store_index_property k s)"

lemma index_property_ok:
  assumes "index_ok h s" and "\<And>dev. dev \<in> set (devices s) \<Longrightarrow> hal_device_property_get_string (h dev) k = None"
  shows "index_ok h (hal_device_store_index_property k s) \<and>
    devices (hal_device_store_index_property k s) = devices s"
proof (cases "map_of (property_index s) k")
  case None
  let ?s = "hal_device_store_index_property k s"
  have eq: "?s = s\<lparr>property_index := AList.update k [] (property_index s)\<rparr>"
    using None by (simp add: hal_device_store_index_property_def)
  have "listing ?s k' v = (if k' = k then Some [] else listing s k' v)" for k' v
    by (simp add: eq listing_def AList.update_conv')
  then have "listed (\<lambda>k v. {dev \<in> set (devices s). hal_device_property_get_string (h dev) k = Some v}) ?s"
    using assms by (auto simp: index_ok_def listed_def split: if_splits)
  then show ?thesis using assms(1) by (simp add: eq index_ok_def AList.distinct_update)
qed (use assms in \<open>simp add: hal_device_store_index_property_def\<close>)

lemma index_properties_new: "index_ok h (index_properties ks hal_device_store_new)"
proof -
  have "index_ok h (index_properties ks s)" if "index_ok h s" "devices s = []" for s
    using that
  proof (induction ks arbitrary: s)
    case (Cons k ks)
    then have "index_ok h (hal_device_store_index_property k s) \<and> devices (hal_device_store_index_property k s) = []"
      using index_property_ok [of h s k] by simp
    with Cons.IH show ?case by simp
  qed simp
  moreover have "index_ok h hal_device_store_new"
    by (simp add: index_ok_def hal_device_store_new_def listed_def listing_def)
  ultimately show ?thesis by (simp add: hal_device_store_new_def)
qed

section \<open>Lookups\<close>

lemma match_string_Inr: "match_string d k v = Inr m \<Longrightarrow> m \<longleftrightarrow> hal_device_property_get_string d k = Some v"
  using not_string_type [of d k]
  by (auto simp: match_string_def hal_device_has_property_def
      hal_device_property_get_string_def split: if_splits option.splits)

lemma scan_all_Inr:
  "scan_all h k v ds ms = Inr rs \<Longrightarrow>
   rs = rev (filter (\<lambda>dev. hal_device_property_get_string (h dev) k = Some v) ds) @ ms"
  by (induction ds arbitrary: ms) (auto dest!: match_string_Inr)

lemma scan_first_Inr:
  "scan_first h k v ds = Inr r \<Longrightarrow> r = find (\<lambda>dev. hal_device_property_get_string (h dev) k = Some v) ds"
  by (induction ds) (auto dest!: match_string_Inr split: if_splits)

lemma match_multiple_ok:
  assumes "index_ok h s" and "hal_device_store_match_multiple_key_value_string H h k v s = Inr ds"
  shows "distinct ds \<and> set ds = {dev \<in> set (devices s). hal_device_property_get_string (h dev) k = Some v}"
proof (cases "map_of (property_index s) k")
  case None
  with assms(2) have "ds = rev (filter (\<lambda>dev. hal_device_property_get_string (h dev) k = Some v) (devices s)) @ []"
    by (intro scan_all_Inr) (simp add: hal_device_store_match_multiple_key_value_string_def)
  with assms(1) show ?thesis by (simp add: index_ok_def)
next
  case (Some index)
  with assms(2) have "listing s k v = Some ds"
    by (simp add: hal_device_store_match_multiple_key_value_string_def index_lookup_def listing_def
        split: if_splits)
  with assms(1) show ?thesis by (simp add: index_ok_def listed_def)
qed

lemma match_one_ok:
  assumes "index_ok h s" and "hal_device_store_match_key_value_string H h k v s = Inr r"
  shows "case r of None \<Rightarrow> \<forall>dev \<in> set (devices s). hal_device_property_get_string (h dev) k \<noteq> Some v
       | Some dev \<Rightarrow> dev \<in> set (devices s) \<and> hal_device_property_get_string (h dev) k = Some v"
proof (cases "map_of (property_index s) k")
  case None
  with assms(2) have r: "r = find (\<lambda>dev. hal_device_property_get_string (h dev) k = Some v) (devices s)"
    by (simp add: hal_device_store_match_key_value_string_def scan_first_Inr)
  show ?thesis
  proof (cases r)
    case None
    then have "find (\<lambda>dev. hal_device_property_get_string (h dev) k = Some v) (devices s) = None"
      using r by simp
    then have "\<not> (\<exists>dev. dev \<in> set (devices s) \<and> hal_device_property_get_string (h dev) k = Some v)"
      by (simp only: find_None_iff not_False_eq_True)
    with None show ?thesis by auto
  next
    case (Some dev)
    then have "find (\<lambda>dev. hal_device_property_get_string (h dev) k = Some v) (devices s) = Some dev"
      using r by simp
    then have "dev \<in> set (devices s) \<and> hal_device_property_get_string (h dev) k = Some v"
      unfolding find_Some_iff using nth_mem by blast
    with Some show ?thesis by simp
  qed
next
  case (Some index)
  with assms(2) obtain ds where "listing s k v = Some ds" and r: "r = (case ds of [] \<Rightarrow> None | dev # _ \<Rightarrow> Some dev)"
    by (auto simp: hal_device_store_match_key_value_string_def index_lookup_def listing_def
        split: if_splits)
  with assms(1) have "set ds = {dev \<in> set (devices s). hal_device_property_get_string (h dev) k = Some v}"
    by (simp add: index_ok_def listed_def)
  with r show ?thesis by (cases ds) auto
qed

section \<open>When lookups are defined\<close>

text \<open>No key of the index has been freed.\<close>

definition all_owned :: "device_store \<Rightarrow> bool" where
  "all_owned s \<longleftrightarrow> (\<forall>(k, index) \<in> set (property_index s). \<forall>e \<in> set index. owner e \<noteq> None)"

lemma put_devs_owned: "(\<forall>e \<in> set index. owner e \<noteq> None) \<Longrightarrow> \<forall>e \<in> set (put_devs dev v ds index). owner e \<noteq> None"
  by (induction index) auto

lemma all_owned_index: "all_owned s \<Longrightarrow> map_of (property_index s) k = Some index \<Longrightarrow> \<not> stale H v index"
  by (auto simp: all_owned_def stale_def dest!: map_of_SomeD)

lemma modify_string_owned:
  assumes "all_owned s" and "hal_device_property_get_string d key = Some v"
  shows "\<exists>s'. property_index_modify_string H dev d key added s = Inr s' \<and> all_owned s'"
proof (cases "map_of (property_index s) key")
  case (Some index)
  have "\<forall>e \<in> set index. owner e \<noteq> None" using assms(1) Some by (auto simp: all_owned_def dest!: map_of_SomeD)
  then have "\<forall>e \<in> set (put_devs dev v ds index). owner e \<noteq> None" for ds by (rule put_devs_owned)
  with assms all_owned_index [OF assms(1) Some] Some show ?thesis
    by (auto simp: property_index_modify_string_def index_lookup_def index_insert_def Let_def all_owned_def
        dest!: in_set_updateD)
qed (use assms in \<open>simp add: property_index_modify_string_def\<close>)

lemma wf_string: "dev_wf G d \<Longrightarrow> hal_device_property_get_type d k = TYPE_STRING \<Longrightarrow>
    \<exists>v. hal_device_property_get_string d k = Some v"
  using dev_wf_find [of G d k]
  by (auto simp: hal_device_property_get_type_def hal_device_property_get_string_def prop_wf_def
      split: option.splits)

lemma check_keys_owned:
  "all_owned s \<Longrightarrow> dev_wf G d \<Longrightarrow> \<exists>s'. property_index_check_keys H dev d added keys s = Inr s' \<and> all_owned s'"
proof (induction keys arbitrary: s)
  case (Cons key keys)
  have "\<exists>s1. (if hal_device_property_get_type d key = TYPE_STRING
         then property_index_modify_string H dev d key added s else Inr s) = Inr s1 \<and> all_owned s1"
    using modify_string_owned [OF Cons.prems(1), of d key] wf_string [OF Cons.prems(2), of key] Cons.prems(1)
    by (cases "hal_device_property_get_type d key = TYPE_STRING") auto
  then obtain s1 where "(if hal_device_property_get_type d key = TYPE_STRING
         then property_index_modify_string H dev d key added s else Inr s) = Inr s1" "all_owned s1" by blast
  with Cons.IH [of s1] Cons.prems(2) show ?case by simp
qed simp

lemma all_owned_fields [simp]:
  "all_owned (s\<lparr>devices := ds, handlers := hs\<rparr>) = all_owned s" "all_owned (store_emit sig s) = all_owned s"
  by (simp_all add: all_owned_def store_emit_def)

lemma store_add_owned:
  assumes "all_owned s" and "dev_wf G (h dev)"
  shows "\<exists>s'. hal_device_store_add H dev h s = Inr s' \<and> all_owned s'"
  using check_keys_owned [where H = H and dev = dev and added = True and keys = "map fst (property_index s)",
      OF _ assms(2), of "s\<lparr>devices := dev # devices s, handlers := handlers s @ [dev]\<rparr>"] assms(1)
  by (auto simp: hal_device_store_add_eq property_index_check_all_def)

lemma store_remove_defined:
  assumes "all_owned s" and "dev_wf G (h dev)" and "dev \<in> set (devices s)"
  shows "\<exists>s'. hal_device_store_remove H dev h s = Inr (True, s')"
  using check_keys_owned [where H = H and dev = dev and added = False and keys = "map fst (property_index s)",
      OF _ assms(2), of "s\<lparr>devices := remove1 dev (devices s), handlers := removeAll dev (handlers s)\<rparr>"] assms(1,3)
  by (auto simp: hal_device_store_remove_def property_index_check_all_def)

lemma scan_all_defined:
  "(\<And>dev. dev \<in> set ds \<Longrightarrow> dev_wf G (h dev)) \<Longrightarrow> \<exists>rs. scan_all h k v ds ms = Inr rs"
proof (induction ds arbitrary: ms)
  case (Cons dev ds)
  have "\<exists>m. match_string (h dev) k v = Inr m"
    using wf_string [of G "h dev" k] Cons.prems by (auto simp: match_string_def)
  then obtain m where "match_string (h dev) k v = Inr m" by blast
  with Cons show ?case by simp
qed simp

section \<open>Properties\<close>

text \<open>C8: the property index. Start from an empty store with some keys indexed, add devices (each at
  most once at a time), remove them, and call any operation on them in any order. If neither these
  operations nor the lookup read a key string of the index that has been freed, a lookup of all devices
  with a given string value returns exactly the devices of the store that have it, each once, whether
  the key is indexed or scanned for. The condition can fail: an index entry keeps the string of the
  device inserted first, and removing that device frees it (\<open>index_key_dangles_after_remove\<close>).\<close>

theorem store_lookup_agrees:
  assumes "err_fold (store_step G H) cs (h0, index_properties ks hal_device_store_new) = Inr (h, s)"
    and "fresh_adds {} cs"
    and "hal_device_store_match_multiple_key_value_string H h k v s = Inr ds"
  shows "distinct ds \<and> set ds = {dev \<in> set (devices s). hal_device_property_get_string (h dev) k = Some v}"
proof -
  have "devices (index_properties ks st) = devices st" for st
    by (induction ks arbitrary: st) (auto simp: hal_device_store_index_property_def split: option.splits)
  then have "index_ok h s"
    using store_run_ok [OF assms(1) index_properties_new _ assms(2)] by (simp add: hal_device_store_new_def)
  then show ?thesis using assms(3) by (rule match_multiple_ok)
qed

definition disk_heap :: heap where
  "disk_heap = (\<lambda>n. insert_prop ''linux.sysfs_path'' (HP_STRING (Some ''/sys/block/sda''))
      (fst (hal_device_init (int n))))"

theorem store_lookup_agrees_witness:
  "\<exists>h s ds. err_fold (store_step ascii_glib length)
        [Add 1, Add 2, Call 2 (Set_String ''linux.sysfs_path'' (Some ''/sys/block/sdb1'')), Call 1 (Set_Int ''block.major'' 8)]
        (disk_heap, index_properties [''linux.sysfs_path''] hal_device_store_new) = Inr (h, s) \<and>
     hal_device_store_match_multiple_key_value_string length h ''linux.sysfs_path'' ''/sys/block/sda'' s = Inr ds \<and>
     set ds = {dev \<in> set (devices s). hal_device_property_get_string (h dev) ''linux.sysfs_path'' = Some ''/sys/block/sda''}"
proof -
  let ?cs = "[Add 1, Add 2, Call 2 (Set_String ''linux.sysfs_path'' (Some ''/sys/block/sdb1'')), Call 1 (Set_Int ''block.major'' 8)]"
  have "case err_fold (store_step ascii_glib length) ?cs
      (disk_heap, index_properties [''linux.sysfs_path''] hal_device_store_new) of
        Inr (h, s) \<Rightarrow> hal_device_store_match_multiple_key_value_string length h ''linux.sysfs_path'' ''/sys/block/sda'' s = Inr [1]
      | Inl _ \<Rightarrow> False" by code_simp
  then obtain h s where run: "err_fold (store_step ascii_glib length) ?cs
        (disk_heap, index_properties [''linux.sysfs_path''] hal_device_store_new) = Inr (h, s)"
    and look: "hal_device_store_match_multiple_key_value_string length h ''linux.sysfs_path'' ''/sys/block/sda'' s = Inr [1]"
    by (auto split: sum.splits)
  have "fresh_adds {} ?cs" by simp
  from store_lookup_agrees [OF run this look] run look show ?thesis by blast
qed

text \<open>While no key string of the index has been freed, adding a device with a well-formed property
  table is defined and frees none, and looking devices up is defined for every key and value.\<close>

theorem store_add_defined:
  assumes "all_owned s" and "dev_wf G (h dev)" and "\<forall>x \<in> set (devices s). dev_wf G (h x)"
  shows "\<exists>s'. hal_device_store_add H dev h s = Inr s' \<and> all_owned s' \<and>
    (\<forall>k v. \<exists>ds. hal_device_store_match_multiple_key_value_string H h k v s = Inr ds)"
proof -
  note store_add_owned [where h = h and dev = dev and H = H, OF assms(1,2)]
  moreover have "\<exists>ds. hal_device_store_match_multiple_key_value_string H h k v s = Inr ds" for k v
    using scan_all_defined [of "devices s" G h] assms(3) all_owned_index [OF assms(1)]
    by (auto simp: hal_device_store_match_multiple_key_value_string_def index_lookup_def split: option.splits)
  ultimately show ?thesis by blast
qed

theorem store_add_defined_witness:
  "\<exists>s'. hal_device_store_add length 1 disk_heap (index_properties [''linux.sysfs_path''] hal_device_store_new) = Inr s' \<and>
     all_owned s'"
proof -
  let ?s = "index_properties [''linux.sysfs_path''] hal_device_store_new"
  have "all_owned ?s" and "devices ?s = []"
    by (simp_all add: all_owned_def hal_device_store_index_property_def hal_device_store_new_def)
  moreover have "dev_wf ascii_glib (disk_heap 1)"
    unfolding disk_heap_def by (intro dev_wf_insert) (simp_all add: dev_wf_def hal_device_init_def prop_wf_def ascii_glib_def)
  ultimately show ?thesis using store_add_defined [of ?s ascii_glib disk_heap 1 length] by auto
qed

text \<open>The key strings are not copied. Two devices share a value of an indexed key; once the device
  that was added first is removed, the lookup of that value reads its freed string, although the other
  device is still in the store.\<close>

theorem index_key_dangles_after_remove:
  assumes "prefix ''/org/freedesktop/Hal/devices/'' (udi (h a))" and "prefix ''/org/freedesktop/Hal/devices/'' (udi (h b))"
    and "hal_device_property_get_string (h a) k = Some v" and "hal_device_property_get_string (h b) k = Some v"
    and "a \<noteq> b"
  shows "\<exists>s. err_fold (store_step G H) [Add a, Add b, Drop a] (h, hal_device_store_index_property k hal_device_store_new) =
        Inr (h, s) \<and> devices s = [b] \<and>
      hal_device_store_match_key_value_string H h k v s = Inl Use_After_Free"
proof -
  have types: "hal_device_property_get_type (h a) k = TYPE_STRING" "hal_device_property_get_type (h b) k = TYPE_STRING"
    using assms(3,4) not_string_type by fastforce+
  show ?thesis
    using assms types
    by (simp add: hal_device_store_add_eq hal_device_store_remove_def property_index_check_all_def
        hal_device_store_index_property_def hal_device_store_new_def property_index_modify_string_def
        index_lookup_def index_insert_def stale_def store_emit_def orphan_all_def orphan_def
        hal_device_store_match_key_value_string_def)
qed

theorem index_key_dangles_after_remove_witness:
  "\<exists>s. err_fold (store_step ascii_glib length) [Add 1, Add 2, Drop 1]
        (disk_heap, hal_device_store_index_property ''linux.sysfs_path'' hal_device_store_new) = Inr (disk_heap, s) \<and>
      hal_device_store_match_key_value_string length disk_heap ''linux.sysfs_path'' ''/sys/block/sda'' s = Inl Use_After_Free"
proof -
  have "prefix ''/org/freedesktop/Hal/devices/'' (udi (disk_heap n))" for n
    by (simp add: disk_heap_def hal_device_init_def)
  moreover have "hal_device_property_get_string (disk_heap n) ''linux.sysfs_path'' = Some ''/sys/block/sda''" for n
    by (simp add: disk_heap_def hal_device_property_get_string_def)
  ultimately show ?thesis
    using index_key_dangles_after_remove [of disk_heap 1 2 "''linux.sysfs_path''" "''/sys/block/sda''" ascii_glib length]
    by auto
qed

end
