(* ===== verification/Hal_PM.thy ===== *)
theory Hal_PM
  imports Hal_Store_Props Hal_Double
begin

text \<open>
  Power management properties of batteries: \<open>hald/device_pm.c\<close> and \<open>hald/util_pm.c\<close>. The hardware's
  \<open>battery.reporting\<close> values are normalised to milliwatt hours, from which the percentage and the
  remaining time are derived. Arithmetic on \<open>int\<close> that overflows and conversions of \<open>double\<close> to
  \<open>int\<close> that do not fit are undefined in C and are error values here.

  The table \<open>saved_battery_info\<close> is keyed by the text of the UDI. The code stores the pointer to the
  UDI string of the device as the key, so the model describes it while those devices exist.
\<close>

section \<open>Normalising the reported values\<close>

record charge_levels =
  lv_current :: int
  lv_lastfull :: int
  lv_design :: int
  lv_rate :: int

definition get_int :: "hal_device \<Rightarrow> string \<Rightarrow> int" where
  "get_int d key = sint (hal_device_property_get_int d key)"

definition set_int :: "string \<Rightarrow> int \<Rightarrow> hal_device \<Rightarrow> bool outcome" where
  "set_int key v = hal_device_property_set_int key (word_of_int v)"

definition mul_mV :: "int \<Rightarrow> int \<Rightarrow> memory_error + int" where
  "mul_mV x voltage = err_bind (check32 (x * voltage)) (\<lambda>p. Inr (c_div p 1000))"

text \<open>The voltage used for the conversion from milliampere hours.\<close>

definition pm_voltage :: "hal_device \<Rightarrow> int" where
  "pm_voltage d =
     (let dv = get_int d ''battery.voltage.design''; v = get_int d ''battery.voltage.current'';
          design_voltage = (if dv \<le> 0 then 1000 else dv)
      in if v < c_div design_voltage 2 \<or> v > design_voltage then design_voltage else v)"

definition pm_reported :: "hal_device \<Rightarrow> charge_levels" where
  "pm_reported d =
     \<lparr>lv_current = get_int d ''battery.reporting.current'',
      lv_lastfull = get_int d ''battery.reporting.last_full'',
      lv_design = get_int d ''battery.reporting.design'',
      lv_rate = (let rate = get_int d ''battery.reporting.rate'' in if rate = 0xffff then 0 else rate)\<rparr>"

definition pm_normalise :: "hal_device \<Rightarrow> memory_error + charge_levels" where
  "pm_normalise d =
     (let rep = pm_reported d
      in if hal_device_property_get_string d ''battery.reporting.unit'' = Some ''mAh''
         then let voltage = pm_voltage d
              in err_bind (mul_mV (lv_current rep) voltage) (\<lambda>current.
                 err_bind (mul_mV (lv_lastfull rep) voltage) (\<lambda>lastfull.
                 err_bind (mul_mV (lv_design rep) voltage) (\<lambda>design.
                 err_bind (mul_mV (lv_rate rep) voltage) (\<lambda>rate.
                 Inr \<lparr>lv_current = current, lv_lastfull = lastfull, lv_design = design, lv_rate = rate\<rparr>))))
         else Inr rep)"

definition at_least_0 :: "int \<Rightarrow> int" where
  "at_least_0 i = (if i < 0 then 0 else i)"

text \<open>The two loops over the devices of the global device list.\<close>

fun ac_online :: "heap \<Rightarrow> nat list \<Rightarrow> bool \<Rightarrow> bool" where
  "ac_online h [] online = online"
| "ac_online h (x # devs) online =
     ac_online h devs
       (if hal_device_has_property (h x) ''linux.acpi_type'' \<and>
           hal_device_property_get_bool (h x) ''ac_adapter.present'' then True else online)"

definition is_primary :: "hal_device \<Rightarrow> bool" where
  "is_primary d =
     (case hal_device_property_get_string d ''battery.type'' of
        None \<Rightarrow> False
      | Some bat_type \<Rightarrow> strncmp_eq bat_type ''primary'' 7)"

fun other_discharging :: "heap \<Rightarrow> string \<Rightarrow> nat list \<Rightarrow> int \<Rightarrow> int" where
  "other_discharging h u [] rate = rate"
| "other_discharging h u (x # devs) rate =
     other_discharging h u devs
       (if hal_device_has_property (h x) ''linux.acpi_type'' \<and> is_primary (h x) \<and>
           strcmp u (hal_device_get_udi (h x)) \<noteq> 0 \<and>
           hal_device_property_get_bool (h x) ''battery.rechargeable.is_discharging''
        then 0 else rate)"

definition pm_rate ::
    "(string \<Rightarrow> nat) \<Rightarrow> heap \<Rightarrow> device_store \<Rightarrow> hal_device \<Rightarrow> int \<Rightarrow> memory_error + int" where
  "pm_rate H h gdl d rate =
     (if \<not> hal_device_property_get_bool d ''battery.rechargeable.is_charging'' \<and>
         \<not> hal_device_property_get_bool d ''battery.rechargeable.is_discharging''
      then
        (if is_primary d
         then err_bind (hal_device_store_match_multiple_key_value_string H h ''info.category'' ''ac_adapter'' gdl)
                (\<lambda>adapters.
                   if ac_online h adapters False then Inr 0
                   else err_bind (hal_device_store_match_multiple_key_value_string H h
                                    ''info.category'' ''battery'' gdl)
                          (\<lambda>batteries. Inr (other_discharging h (hal_device_get_udi d) batteries rate)))
         else Inr 0)
      else Inr rate)"

definition store_levels :: "charge_levels \<Rightarrow> hal_device \<Rightarrow> bool outcome" where
  "store_levels lv d =
     and_then (set_int ''battery.charge_level.current'' (lv_current lv) d) (\<lambda>d.
     and_then (set_int ''battery.charge_level.last_full'' (lv_lastfull lv) d) (\<lambda>d.
     and_then (set_int ''battery.charge_level.design'' (lv_design lv) d) (\<lambda>d.
     set_int ''battery.charge_level.rate'' (lv_rate lv) d)))"

definition device_pm_abstract_props ::
    "(string \<Rightarrow> nat) \<Rightarrow> heap \<Rightarrow> device_store \<Rightarrow> hal_device \<Rightarrow> memory_error + bool outcome" where
  "device_pm_abstract_props H h gdl d =
     err_bind (pm_normalise d) (\<lambda>lv.
     err_bind (pm_rate H h gdl d (at_least_0 (lv_rate lv))) (\<lambda>rate.
     let current = at_least_0 (lv_current lv); lastfull = at_least_0 (lv_lastfull lv)
     in Inr (store_levels
          \<lparr>lv_current = (if current > lastfull then lastfull else current), lv_lastfull = lastfull,
           lv_design = at_least_0 (lv_design lv), lv_rate = rate\<rparr> d)))"

section \<open>Percentage\<close>

definition to_int :: "double \<Rightarrow> memory_error + int" where
  "to_int x = (case double_to_int32 x of Some i \<Rightarrow> Inr i | None \<Rightarrow> Inl Bad_Conversion)"

definition pm_percentage :: "int \<Rightarrow> int \<Rightarrow> memory_error + int" where
  "pm_percentage current lastfull =
     (if current < 0 then Inr (- 1)
      else if current = 0 then Inr 0
      else if lastfull \<le> 0 then Inr (- 1)
      else err_bind
             (to_int (double_mult (double_div (double_of_int current) (double_of_int lastfull)) (double_of_int 100)))
             (\<lambda>percentage. Inr (if percentage > 100 then 100 else if percentage < 0 then 1 else percentage)))"

definition device_pm_calculate_percentage :: "hal_device \<Rightarrow> memory_error + bool outcome" where
  "device_pm_calculate_percentage d =
     err_bind (pm_percentage (get_int d ''battery.charge_level.current'') (get_int d ''battery.charge_level.last_full''))
       (\<lambda>percentage. Inr
          (if percentage < 0 then hal_device_property_remove ''battery.charge_level.percentage'' d
           else set_int ''battery.charge_level.percentage'' percentage d))"

section \<open>Remaining time\<close>

record batteryInfo =
  last_level :: int
  last_chargeRate :: int
  high_time_warn_count :: int
  last_time :: int

type_synonym battery_table = "(string \<times> batteryInfo) list"

text \<open>The rate from the previous and the current level.\<close>

definition guess_rate :: "int \<Rightarrow> int \<Rightarrow> batteryInfo \<Rightarrow> memory_error + int" where
  "guess_rate cur_time chargeLevel info =
     err_bind (check32 (chargeLevel - last_level info)) (\<lambda>diff.
     err_bind (check32 (diff * 60)) (\<lambda>diff60.
     err_bind (check32 (diff60 * 60)) (\<lambda>diff3600.
     let rate = wrap32 (c_div diff3600 (cur_time - last_time info))
     in if rate > 0 then Inr rate else check32 (- rate))))"

text \<open>The part for a missing rate: the rate to use, or \<^const>\<open>None\<close> for the early return.\<close>

definition estimate_rate ::
    "string \<Rightarrow> int \<Rightarrow> int \<Rightarrow> battery_table \<Rightarrow> memory_error + (int option \<times> battery_table)" where
  "estimate_rate bat cur_time chargeLevel saved =
     (case map_of saved bat of
        Some info \<Rightarrow>
          if cur_time = last_time info \<or> chargeLevel = last_level info
          then Inr (Some (last_chargeRate info), saved)
          else err_bind (guess_rate cur_time chargeLevel info)
                 (\<lambda>rate. Inr (Some rate, AList.update bat
                    (info\<lparr>last_level := chargeLevel, last_time := cur_time, last_chargeRate := rate\<rparr>) saved))
      | None \<Rightarrow>
          Inr (None, AList.update bat
            \<lparr>last_level = chargeLevel, last_chargeRate = 0, high_time_warn_count = 0, last_time = cur_time\<rparr> saved))"

definition hours_60 :: int where
  "hours_60 = 60 * 60 * 60"

definition warn_high_time :: "string \<Rightarrow> battery_table \<Rightarrow> battery_table" where
  "warn_high_time bat saved =
     (let info = (case map_of saved bat of
                    Some info \<Rightarrow> info
                  | None \<Rightarrow> \<lparr>last_level = - 1, last_chargeRate = - 1, high_time_warn_count = 0, last_time = - 1\<rparr>)
      in AList.update bat
           (if high_time_warn_count info < 10 \<or> high_time_warn_count info mod 100 = 0
            then info\<lparr>high_time_warn_count := high_time_warn_count info + 1\<rparr> else info) saved)"

definition seconds :: "int \<Rightarrow> int \<Rightarrow> memory_error + int" where
  "seconds amount rate =
     to_int (double_mult (double_mult (double_div (double_of_int amount) (double_of_int rate))
       (double_of_int 60)) (double_of_int 60))"

definition remaining_time ::
    "string \<Rightarrow> int \<Rightarrow> int \<Rightarrow> int \<Rightarrow> bool \<Rightarrow> bool \<Rightarrow> battery_table \<Rightarrow> memory_error + (int \<times> battery_table)" where
  "remaining_time bat chargeRate chargeLevel chargeLastFull isDischarging isCharging saved =
     (if chargeRate = 0 then Inr (- 1, saved)
      else if \<not> isDischarging \<and> isCharging \<and> chargeLevel > chargeLastFull then Inr (- 1, saved)
      else err_bind
             (if isDischarging then seconds chargeLevel chargeRate
              else if isCharging
              then err_bind (check32 (chargeLastFull - chargeLevel)) (\<lambda>missing. seconds missing chargeRate)
              else Inr 0)
             (\<lambda>t. if t < 0 then Inr (- 1, saved)
                  else if t > hours_60 then Inr (- 1, warn_high_time bat saved)
                  else Inr (t, saved)))"

definition util_compute_time_remaining ::
    "string \<Rightarrow> int \<Rightarrow> int \<Rightarrow> int \<Rightarrow> bool \<Rightarrow> bool \<Rightarrow> bool \<Rightarrow> int \<Rightarrow> battery_table \<Rightarrow>
     memory_error + (int \<times> battery_table)" where
  "util_compute_time_remaining bat chargeRate chargeLevel chargeLastFull isDischarging isCharging
       guessChargeRate cur_time saved =
     (if chargeRate < 0 \<or> chargeLevel < 0 \<or> chargeLastFull < 0 then Inr (- 1, saved)
      else if isDischarging \<and> isCharging then Inr (- 1, saved)
      else if chargeRate = 0 \<or> guessChargeRate
      then err_bind (estimate_rate bat cur_time chargeLevel saved)
             (\<lambda>(rate, saved'). case rate of
                None \<Rightarrow> Inr (- 1, saved')
              | Some r \<Rightarrow> remaining_time bat r chargeLevel chargeLastFull isDischarging isCharging saved')
      else remaining_time bat chargeRate chargeLevel chargeLastFull isDischarging isCharging saved)"

text \<open>The check for implausible charging rates.\<close>

definition pm_special_case :: "hal_device \<Rightarrow> bool" where
  "pm_special_case d \<longleftrightarrow>
     hal_device_property_get_bool d ''battery.rechargeable.is_charging'' \<and>
     hal_device_property_get_string d ''battery.type'' = Some ''primary'' \<and>
     hal_device_property_get_string d ''battery.charge_level.unit'' = Some ''mWh'' \<and>
     get_int d ''battery.charge_level.rate'' > 50000"

definition device_pm_calculate_time ::
    "int \<Rightarrow> hal_device \<Rightarrow> battery_table \<Rightarrow> memory_error + (battery_table \<times> bool outcome)" where
  "device_pm_calculate_time cur_time d saved =
     (let per_time = hal_device_property_get_bool d ''battery.remaining_time.calculate_per_time'';
          special = \<not> per_time \<and> pm_special_case d
      in case (if special then hal_device_property_set_bool ''battery.remaining_time.calculate_per_time'' True d
               else (True, d, [])) of
           (_, d1, es1) \<Rightarrow>
             err_bind (util_compute_time_remaining (hal_device_get_udi d1)
                 (get_int d1 ''battery.charge_level.rate'') (get_int d1 ''battery.charge_level.current'')
                 (get_int d1 ''battery.charge_level.last_full'')
                 (hal_device_property_get_bool d1 ''battery.rechargeable.is_discharging'')
                 (hal_device_property_get_bool d1 ''battery.rechargeable.is_charging'')
                 (per_time \<or> special) cur_time saved)
               (\<lambda>(t, saved'). Inr (saved', and_then (True, d1, es1)
                  (\<lambda>d. if t > 0 then set_int ''battery.remaining_time'' t d
                       else hal_device_property_remove ''battery.remaining_time'' d))))"

section \<open>Clearing, and the names of technologies\<close>

definition optional_props :: "string list" where
  "optional_props =
     [''battery.is_rechargeable'', ''battery.rechargeable.is_charging'', ''battery.rechargeable.is_discharging'',
      ''battery.vendor'', ''battery.model'', ''battery.serial'', ''battery.reporting.technology'',
      ''battery.technology'', ''battery.vendor'', ''battery.charge_level.unit'', ''battery.charge_level.current'',
      ''battery.charge_level.percentage'', ''battery.charge_level.last_full'', ''battery.charge_level.design'',
      ''battery.charge_level.capacity_state'', ''battery.charge_level.warning'', ''battery.charge_level.low'',
      ''battery.charge_level.granularity_1'', ''battery.charge_level.granularity_2'', ''battery.charge_level.rate'',
      ''battery.voltage.unit'', ''battery.voltage.design'', ''battery.voltage.current'', ''battery.alarm.unit'',
      ''battery.alarm.design'', ''battery.reporting.current'', ''battery.reporting.last_full'',
      ''battery.reporting.design'', ''battery.reporting.rate'', ''battery.reporting.warning'',
      ''battery.reporting.low'', ''battery.reporting.granularity_1'', ''battery.reporting.granularity_2'',
      ''battery.reporting.unit'', ''battery.remaining_time'']"

fun remove_each :: "string list \<Rightarrow> hal_device \<Rightarrow> bool outcome" where
  "remove_each [] d = (True, d, [])"
| "remove_each (key # keys) d = and_then (hal_device_property_remove key d) (remove_each keys)"

definition device_pm_remove_optional_props :: "hal_device \<Rightarrow> bool outcome" where
  "device_pm_remove_optional_props d = remove_each optional_props d"

definition util_get_battery_technology :: "string option \<Rightarrow> string" where
  "util_get_battery_technology type =
     (case type of
        None \<Rightarrow> ''unknown''
      | Some t \<Rightarrow>
          if strcasecmp_eq t ''li-ion'' \<or> strcasecmp_eq t ''lion'' then ''lithium-ion''
          else if strcasecmp_eq t ''pb'' \<or> strcasecmp_eq t ''pbac'' then ''lead-acid''
          else if strcasecmp_eq t ''lip'' \<or> strcasecmp_eq t ''lipo'' then ''lithium-polymer''
          else if strcasecmp_eq t ''nimh'' then ''nickel-metal-hydride''
          else if strcasecmp_eq t ''lifo'' then ''lithium-iron-phosphate''
          else ''unknown'')"

end
