(* ===== verification/Hal_PM_Props.thy ===== *)
theory Hal_PM_Props
  imports Hal_PM
begin

text \<open>
  What the power management code guarantees: the normalised charge levels are ordered and not
  negative, the percentage is between 0 and 100 and defined for them, the remaining time is either
  unknown or at most sixty hours, and the clean-up removes exactly the optional properties.
\<close>

section \<open>Helper lemmas\<close>

definition settable :: "hal_device \<Rightarrow> string \<Rightarrow> bool" where
  "settable d k \<longleftrightarrow> hal_device_property_find d k = None \<or> hal_device_property_get_type d k = TYPE_INT32"

lemma set_int_result:
  assumes "set_int k v d = (r, d', es)" and "settable d k" and "in_int32 v"
  shows "r" and "get_int d' k = v" and "settable d' k"
proof -
  have "r \<and> get_int d' k = v \<and> settable d' k"
    using assms
    by (auto simp: set_int_def hal_device_property_set_int_def settable_def get_int_def sint_of_int32
        hal_device_property_get_type_def hal_device_property_get_int_def prop_setter_defs Let_def
        split: option.splits if_splits)
  then show "r" and "get_int d' k = v" and "settable d' k" by blast+
qed

lemma set_int_other:
  assumes "set_int k v d = (r, d', es)" and "k' \<noteq> k"
  shows "get_int d' k' = get_int d k'" and "settable d' k' = settable d k'"
proof -
  have "hal_device_property_find d' k' = hal_device_property_find d k'"
    using set_int.frame [OF assms(1) [unfolded set_int_def]] assms(2) by (simp add: agree_except_def)
  then show "get_int d' k' = get_int d k'" and "settable d' k' = settable d k'"
    by (simp_all add: get_int_def settable_def hal_device_property_get_int_def hal_device_property_get_type_def)
qed

lemma get_int_range: "in_int32 (get_int d k)"
  by (simp add: get_int_def)

lemma c_div_1000_range: "in_int32 p \<Longrightarrow> in_int32 (c_div p 1000)"
  by (auto simp: in_int32_def c_div_def sgn_if)

definition levels_in_range :: "charge_levels \<Rightarrow> bool" where
  "levels_in_range lv \<longleftrightarrow>
     in_int32 (lv_current lv) \<and> in_int32 (lv_lastfull lv) \<and> in_int32 (lv_design lv) \<and> in_int32 (lv_rate lv)"

lemma normalise_range: "pm_normalise d = Inr lv \<Longrightarrow> levels_in_range lv"
  by (auto simp: pm_normalise_def mul_mV_def pm_reported_def levels_in_range_def Let_def get_int_range
      c_div_1000_range in_int32_def [of 0] split: if_splits)

lemma at_least_0: "0 \<le> at_least_0 i" "in_int32 i \<Longrightarrow> in_int32 (at_least_0 i)"
  by (auto simp: at_least_0_def in_int32_def)

lemma other_discharging_cases: "other_discharging h u devs r \<in> {0, r}"
  by (induction devs arbitrary: r) auto

lemma pm_rate_cases: "pm_rate H h gdl d r = Inr r' \<Longrightarrow> r' \<in> {0, r}"
  using other_discharging_cases by (fastforce simp: pm_rate_def split: if_splits)

text \<open>The four values are stored as computed.\<close>

lemma store_levels_result:
  assumes "store_levels lv d = (r, d', es)" and "levels_in_range lv"
    and "\<forall>f \<in> {''current'', ''last_full'', ''design'', ''rate''}. settable d (''battery.charge_level.'' @ f)"
  shows "get_int d' ''battery.charge_level.current'' = lv_current lv \<and>
    get_int d' ''battery.charge_level.last_full'' = lv_lastfull lv \<and>
    get_int d' ''battery.charge_level.design'' = lv_design lv \<and>
    get_int d' ''battery.charge_level.rate'' = lv_rate lv"
proof -
  obtain r1 d1 es1 r2 d2 es2 r3 d3 es3 es4 where
    s1: "set_int ''battery.charge_level.current'' (lv_current lv) d = (r1, d1, es1)" and
    s2: "set_int ''battery.charge_level.last_full'' (lv_lastfull lv) d1 = (r2, d2, es2)" and
    s3: "set_int ''battery.charge_level.design'' (lv_design lv) d2 = (r3, d3, es3)" and
    s4: "set_int ''battery.charge_level.rate'' (lv_rate lv) d3 = (r, d', es4)"
    using assms(1) by (auto simp: store_levels_def and_then_def split: prod.splits)
  note range = assms(2) [unfolded levels_in_range_def]
  note frames = set_int_other [OF s1] set_int_other [OF s2] set_int_other [OF s3] set_int_other [OF s4]
  show ?thesis
    using set_int_result [OF s1] set_int_result [OF s2] set_int_result [OF s3] set_int_result [OF s4]
      assms(3) range by (simp add: frames)
qed

lemma percentage_bounds:
  assumes "0 \<le> c" and "c \<le> 20000000 * f" and "in_int32 f" and "in_int32 c"
  shows "\<exists>p. pm_percentage c f = Inr p \<and> 0 \<le> p \<and> p \<le> 100 \<and> (0 < c \<longrightarrow> c = f \<longrightarrow> p = 100)"
proof (cases "c = 0")
  case False
  with assms have pos: "0 < c" "0 < f" "c < 2 ^ 52" "f < 2 ^ 52" by (auto simp: in_int32_def)
  let ?q = "double_div (double_of_int c) (double_of_int f)"
  let ?x = "double_mult ?q (double_of_int 100)"
  have ex: "dexact (double_of_int c) c" "dexact (double_of_int f) f" "dexact (double_of_int 100) 100"
    using pos by (auto intro: dexact_of_int)
  have "dle ?q 20000000" using dle_div [OF ex(1,2), of 20000000] pos assms(2) by simp
  from dle_mult [OF this ex(3)] have "dle ?x 2000000000" by simp
  from dle_to_int32 [OF this] obtain p where p: "double_to_int32 ?x = Some p" "0 \<le> p" by auto
  have "p = 100" if "c = f"
  proof -
    have "dexact ?q 1" using dexact_div_same [OF ex(1) ex(2) [folded that]] pos that by simp
    from dexact_mult [OF this ex(3)] have "dexact ?x 100" by simp
    from dexact_to_int32 [OF this] p show ?thesis by simp
  qed
  with p pos show ?thesis by (simp add: pm_percentage_def to_int_def)
qed (simp add: pm_percentage_def)

lemma seconds_defined:
  assumes "0 \<le> a" and "a \<le> 596523" and "0 < r" and "r < 2 ^ 31"
  shows "\<exists>t. seconds a r = Inr t \<and> 0 \<le> t"
proof -
  have ex: "dexact (double_of_int a) a" "dexact (double_of_int r) r" "dexact (double_of_int 60) 60"
    using assms by (auto intro: dexact_of_int)
  have "a \<le> a * r" using assms mult_left_mono [of 1 r a] by simp
  then have "dle (double_div (double_of_int a) (double_of_int r)) a"
    using dle_div [OF ex(1,2), of a] assms by simp
  from dle_mult [OF this ex(3)] assms have
    "dle (double_mult (double_div (double_of_int a) (double_of_int r)) (double_of_int 60)) (a * 60)" by simp
  from dle_mult [OF this ex(3)] assms have
    "dle (double_mult (double_mult (double_div (double_of_int a) (double_of_int r)) (double_of_int 60)) (double_of_int 60))
       (a * 60 * 60)" by simp
  from dle_to_int32 [OF this] assms show ?thesis by (auto simp: seconds_def to_int_def)
qed

lemma remaining_time_range:
  "remaining_time b r c f dis chg saved = Inr (t, saved') \<Longrightarrow> - 1 \<le> t \<and> t \<le> hours_60"
  by (auto simp: remaining_time_def hours_60_def split: if_splits)

lemma remove_each_result:
  "remove_each ks d = (r, d', es) \<Longrightarrow>
   hal_device_property_find d' k = (if k \<in> set ks then None else hal_device_property_find d k)"
proof (induction ks arbitrary: d es)
  case (Cons key ks)
  obtain r1 d1 es1 where rm: "hal_device_property_remove key d = (r1, d1, es1)"
    by (cases "hal_device_property_remove key d") auto
  then have d1: "hal_device_property_find d1 k = (if k = key then None else hal_device_property_find d k)"
    by (auto simp: hal_device_property_remove_def Let_def find_remove split: option.splits if_splits)
  obtain es2 where "remove_each ks d1 = (r, d', es2)"
    using Cons.prems rm by (auto simp: and_then_def split: prod.splits)
  from Cons.IH [OF this] d1 show ?case by (cases "k = key") simp_all
qed simp

text \<open>One warning about an implausibly long time.\<close>

definition warned :: "battery_table \<Rightarrow> string \<Rightarrow> int" where
  "warned saved b = (case map_of saved b of None \<Rightarrow> 0 | Some info \<Rightarrow> high_time_warn_count info)"

lemma warn_count:
  "\<exists>info. map_of (warn_high_time b saved) b = Some info \<and>
     high_time_warn_count info =
       (if warned saved b < 10 \<or> warned saved b mod 100 = 0 then warned saved b + 1 else warned saved b)"
  by (cases "map_of saved b") (auto simp: warn_high_time_def warned_def)

section \<open>Properties\<close>

text \<open>For a charge that is not negative, and at most twenty million times the last full charge, the
  percentage is computed in \<open>double\<close> arithmetic and converted without overflow, and what is stored lies
  between 0 and 100 although the firmware may report more than the full charge; a full battery has 100
  percent.\<close>

theorem percentage_defined_and_bounded:
  assumes "get_int d ''battery.charge_level.current'' = c" and "get_int d ''battery.charge_level.last_full'' = f"
    and "0 \<le> c" and "c \<le> 20000000 * f" and "settable d ''battery.charge_level.percentage''"
  shows "\<exists>r d' es. device_pm_calculate_percentage d = Inr (r, d', es) \<and>
    0 \<le> get_int d' ''battery.charge_level.percentage'' \<and> get_int d' ''battery.charge_level.percentage'' \<le> 100 \<and>
    (0 < c \<longrightarrow> c = f \<longrightarrow> get_int d' ''battery.charge_level.percentage'' = 100)"
proof -
  have "in_int32 f" "in_int32 c" using get_int_range assms(1,2) by metis+
  from percentage_bounds [OF assms(3,4) this] obtain p where
    p: "pm_percentage c f = Inr p" "0 \<le> p" "p \<le> 100" "0 < c \<longrightarrow> c = f \<longrightarrow> p = 100" by blast
  obtain r d' es where set: "set_int ''battery.charge_level.percentage'' p d = (r, d', es)" by (metis prod_cases3)
  then have "device_pm_calculate_percentage d = Inr (r, d', es)"
    using p assms(1,2) by (simp add: device_pm_calculate_percentage_def)
  moreover have "get_int d' ''battery.charge_level.percentage'' = p"
    using set_int_result(2) [OF set assms(5)] p by (simp add: in_int32_def)
  ultimately show ?thesis using p by blast
qed

definition battery :: hal_device where
  "battery = insert_prop ''battery.charge_level.current'' (HP_INT32 4400)
     (insert_prop ''battery.charge_level.last_full'' (HP_INT32 4400) (fst (hal_device_init 1)))"

theorem percentage_defined_and_bounded_witness:
  "\<exists>r d' es. device_pm_calculate_percentage battery = Inr (r, d', es) \<and>
    get_int d' ''battery.charge_level.percentage'' = 100"
proof -
  have "get_int battery ''battery.charge_level.current'' = 4400" "get_int battery ''battery.charge_level.last_full'' = 4400"
    by (simp_all add: battery_def get_int_def hal_device_property_get_int_def find_insert)
  moreover have "settable battery ''battery.charge_level.percentage''"
    by (simp add: battery_def settable_def find_insert)
      (simp add: hal_device_property_find_def hal_device_init_def)
  ultimately show ?thesis using percentage_defined_and_bounded [of battery 4400 4400] by auto
qed

text \<open>The normalised charge levels. When the conversion does not overflow, the stored values are not
  negative and the current charge does not exceed the last full charge, so that the percentage computed
  from them is defined.\<close>

theorem abstract_props_ordered:
  assumes "device_pm_abstract_props H h gdl d = Inr (r, d', es)"
    and "\<forall>f \<in> {''current'', ''last_full'', ''design'', ''rate''}. settable d (''battery.charge_level.'' @ f)"
  shows "0 \<le> get_int d' ''battery.charge_level.current'' \<and>
    get_int d' ''battery.charge_level.current'' \<le> get_int d' ''battery.charge_level.last_full'' \<and>
    0 \<le> get_int d' ''battery.charge_level.design'' \<and> 0 \<le> get_int d' ''battery.charge_level.rate'' \<and>
    (\<exists>p. pm_percentage (get_int d' ''battery.charge_level.current'') (get_int d' ''battery.charge_level.last_full'') = Inr p \<and>
       0 \<le> p \<and> p \<le> 100)"
proof -
  obtain lv rate where norm: "pm_normalise d = Inr lv" and rate: "pm_rate H h gdl d (at_least_0 (lv_rate lv)) = Inr rate"
    using assms(1) by (auto simp: device_pm_abstract_props_def)
  let ?c = "at_least_0 (lv_current lv)" and ?f = "at_least_0 (lv_lastfull lv)"
  let ?lv = "\<lparr>lv_current = (if ?c > ?f then ?f else ?c), lv_lastfull = ?f,
       lv_design = at_least_0 (lv_design lv), lv_rate = rate\<rparr>"
  have st: "store_levels ?lv d = (r, d', es)"
    using assms(1) norm rate by (simp add: device_pm_abstract_props_def Let_def)
  have rate0: "rate \<in> {0, at_least_0 (lv_rate lv)}" using pm_rate_cases [OF rate] .
  have "in_int32 0" by (simp add: in_int32_def)
  then have "levels_in_range ?lv"
    using normalise_range [OF norm] rate0 by (auto simp: levels_in_range_def at_least_0(2))
  note res = store_levels_result [OF st this assms(2)]
  have order: "0 \<le> get_int d' ''battery.charge_level.current''"
    "get_int d' ''battery.charge_level.current'' \<le> get_int d' ''battery.charge_level.last_full''"
    using res at_least_0(1) by auto
  moreover have "0 \<le> get_int d' ''battery.charge_level.design''" "0 \<le> get_int d' ''battery.charge_level.rate''"
    using res at_least_0(1) rate0 by auto
  moreover have "get_int d' ''battery.charge_level.current'' \<le> 20000000 * get_int d' ''battery.charge_level.last_full''"
    using order by linarith
  ultimately show ?thesis
    using percentage_bounds [OF order(1) _ get_int_range get_int_range] by blast
qed

definition mAh_battery :: hal_device where
  "mAh_battery = insert_prop ''battery.reporting.unit'' (HP_STRING (Some ''mAh''))
     (insert_prop ''battery.reporting.current'' (HP_INT32 2000)
     (insert_prop ''battery.voltage.design'' (HP_INT32 10800) (fst (hal_device_init 1))))"

theorem abstract_props_ordered_witness:
  "\<exists>r d' es. device_pm_abstract_props length (\<lambda>_. mAh_battery) hal_device_store_new mAh_battery = Inr (r, d', es) \<and>
    get_int d' ''battery.charge_level.current'' \<le> get_int d' ''battery.charge_level.last_full''"
proof -
  have "case device_pm_abstract_props length (\<lambda>_. mAh_battery) hal_device_store_new mAh_battery of
      Inr _ \<Rightarrow> True | Inl _ \<Rightarrow> False" by code_simp
  then obtain r d' es where
    run: "device_pm_abstract_props length (\<lambda>_. mAh_battery) hal_device_store_new mAh_battery = Inr (r, d', es)"
    by (auto split: sum.splits)
  have "\<forall>f \<in> {''current'', ''last_full'', ''design'', ''rate''}. settable mAh_battery (''battery.charge_level.'' @ f)"
    by (simp add: settable_def mAh_battery_def find_insert)
      (simp add: hal_device_property_find_def hal_device_init_def)
  from abstract_props_ordered [OF run this] run show ?thesis by blast
qed

text \<open>The remaining time is -1 (unknown) or between 0 and sixty hours; for a battery of up to
  596523 mWh whose rate is known the computation is defined.\<close>

theorem remaining_time_defined_and_bounded:
  assumes "0 < rate" and "rate < 2 ^ 31" and "level \<le> 596523" and "full \<le> 596523"
  shows "\<exists>t saved'. util_compute_time_remaining b rate level full dis chg False now saved = Inr (t, saved') \<and>
    - 1 \<le> t \<and> t \<le> 60 * 60 * 60"
proof (cases "level < 0 \<or> full < 0 \<or> (dis \<and> chg)")
  case True
  with assms(1) show ?thesis by (auto simp: util_compute_time_remaining_def)
next
  case False
  have "\<exists>t. (if dis then seconds level rate
      else if chg then err_bind (check32 (full - level)) (\<lambda>missing. seconds missing rate) else Inr 0) = Inr t"
    if "\<not> (\<not> dis \<and> chg \<and> level > full)"
    using that seconds_defined [of level rate] seconds_defined [of "full - level" rate] False assms
    by (auto simp: check32_def in_int32_def)
  then have "\<exists>t saved'. remaining_time b rate level full dis chg saved = Inr (t, saved')"
    using assms(1) by (fastforce simp: remaining_time_def)
  then obtain t saved' where t: "remaining_time b rate level full dis chg saved = Inr (t, saved')" by blast
  with remaining_time_range [OF t] False assms(1) show ?thesis
    by (auto simp: util_compute_time_remaining_def hours_60_def)
qed

theorem remaining_time_defined_and_bounded_witness:
  "\<exists>t saved'. util_compute_time_remaining ''/org/freedesktop/Hal/devices/bat0'' 15000 40000 50000 True False False 0 [] = Inr (t, saved') \<and>
    - 1 \<le> t \<and> t \<le> 60 * 60 * 60"
  by (rule remaining_time_defined_and_bounded) simp_all

text \<open>The warning about implausibly long times is given for the first ten calls and never again: the
  counter stops at ten, so the repetition every hundred calls does not happen.\<close>

theorem high_time_warnings_stop:
  assumes "0 < n"
  shows "\<exists>info. map_of ((warn_high_time b ^^ n) []) b = Some info \<and> high_time_warn_count info = min (int n) 10"
  using assms
proof (induction n)
  case (Suc n)
  show ?case
  proof (cases "n = 0")
    case True
    then show ?thesis using warn_count [of b "[]"] by (simp add: warned_def)
  next
    case False
    with Suc obtain info where info: "map_of ((warn_high_time b ^^ n) []) b = Some info"
      "high_time_warn_count info = min (int n) 10" by blast
    with False warn_count [of b "(warn_high_time b ^^ n) []"] show ?thesis
      by (cases "n < 10") (auto simp: min_def warned_def)
  qed
qed simp

theorem high_time_warnings_stop_witness:
  "\<exists>info. map_of ((warn_high_time ''bat0'' ^^ 250) []) ''bat0'' = Some info \<and> high_time_warn_count info = 10"
  using high_time_warnings_stop [of 250 "''bat0''"] by simp

text \<open>Removing the optional properties leaves none of them and touches nothing else.\<close>

theorem remove_optional_props_result:
  assumes "device_pm_remove_optional_props d = (r, d', es)"
  shows "\<forall>k. hal_device_property_find d' k = (if k \<in> set optional_props then None else hal_device_property_find d k)"
  using remove_each_result [OF assms [unfolded device_pm_remove_optional_props_def]] by blast

theorem remove_optional_props_result_witness:
  "\<exists>r d' es. device_pm_remove_optional_props battery = (r, d', es) \<and>
    hal_device_property_find d' ''battery.charge_level.current'' = None"
proof -
  obtain r d' es where run: "device_pm_remove_optional_props battery = (r, d', es)" by (metis prod_cases3)
  with remove_optional_props_result [OF run] show ?thesis by (auto simp: optional_props_def)
qed

text \<open>Rounding. The quotient is not exact in \<open>double\<close>, and truncation shows a battery with 29 of 100
  units as 28 percent.\<close>

theorem percentage_29_shows_28:
  "pm_percentage 29 100 = Inr 28"
  by code_simp

end
