(* ===== verification/Hal_CK.thy ===== *)
theory Hal_CK
  imports Hal_Prelude
begin

text \<open>
  The ConsoleKit tracker of \<open>hald/ck-tracker.c\<close>: seats and sessions are reference counted objects
  that point at each other and that the tracker lists. The objects live in two heaps, from addresses
  to objects; reading or writing an object that has been freed is the error \<open>Use_After_Free\<close>.

  ConsoleKit is a service the sources call over D-Bus: its replies are the parameter \<open>ck_service\<close>
  (\<^const>\<open>None\<close> for an error or an invalid reply). The callbacks the daemon registers are
  recorded in the order they are called, with the object path they can read from their argument.
\<close>

section \<open>State\<close>

record ck_seat =
  seat_refcount :: int
  seat_objpath :: string
  seat_sessions :: "nat list"

record ck_session =
  session_refcount :: int
  session_objpath :: string
  session_seat :: "nat option"
  session_active :: bool
  session_user :: int
  session_local :: bool
  session_hostname :: "string option"

datatype ck_note =
    Seat_Added string
  | Seat_Removed string
  | Session_Added string
  | Session_Removed string
  | Session_Active_Changed string bool
  | Service_Disappeared
  | Service_Appeared

record ck_tracker =
  seat_heap :: "nat \<Rightarrow> ck_seat option"
  session_heap :: "nat \<Rightarrow> ck_session option"
  next_addr :: nat
  tracker_seats :: "nat list"
  tracker_sessions :: "nat list"
  called :: "ck_note list"

record ck_service =
  svc_seats :: "string list option"
  svc_sessions :: "string \<Rightarrow> string list option"
  svc_active :: "string \<Rightarrow> bool option"
  svc_local :: "string \<Rightarrow> bool option"
  svc_hostname :: "string \<Rightarrow> string option"
  svc_user :: "string \<Rightarrow> int option"

definition ck_tracker_new :: ck_tracker where
  "ck_tracker_new =
     \<lparr>seat_heap = (\<lambda>_. None), session_heap = (\<lambda>_. None), next_addr = 0,
      tracker_seats = [], tracker_sessions = [], called = []\<rparr>"

definition ck_call :: "ck_note \<Rightarrow> ck_tracker \<Rightarrow> ck_tracker" where
  "ck_call n t = t\<lparr>called := called t @ [n]\<rparr>"

definition get_session :: "nat \<Rightarrow> ck_tracker \<Rightarrow> memory_error + ck_session" where
  "get_session x t = (case session_heap t x of None \<Rightarrow> Inl Use_After_Free | Some s \<Rightarrow> Inr s)"

definition get_seat :: "nat \<Rightarrow> ck_tracker \<Rightarrow> memory_error + ck_seat" where
  "get_seat a t = (case seat_heap t a of None \<Rightarrow> Inl Use_After_Free | Some s \<Rightarrow> Inr s)"

definition put_session :: "nat \<Rightarrow> ck_session option \<Rightarrow> ck_tracker \<Rightarrow> ck_tracker" where
  "put_session x s t = t\<lparr>session_heap := (session_heap t)(x := s)\<rparr>"

definition put_seat :: "nat \<Rightarrow> ck_seat option \<Rightarrow> ck_tracker \<Rightarrow> ck_tracker" where
  "put_seat a s t = t\<lparr>seat_heap := (seat_heap t)(a := s)\<rparr>"

section \<open>Sessions and seats\<close>

definition ck_session_new :: "string \<Rightarrow> ck_tracker \<Rightarrow> nat \<times> ck_tracker" where
  "ck_session_new path t =
     (next_addr t,
      (put_session (next_addr t)
         (Some \<lparr>session_refcount = 1, session_objpath = path, session_seat = None, session_active = False,
                session_user = 0, session_local = False, session_hostname = None\<rparr>) t)
       \<lparr>next_addr := Suc (next_addr t)\<rparr>)"

definition ck_session_unref :: "nat \<Rightarrow> ck_tracker \<Rightarrow> memory_error + ck_tracker" where
  "ck_session_unref x t =
     err_bind (get_session x t) (\<lambda>s.
       if session_refcount s - 1 = 0 then Inr (put_session x None t)
       else Inr (put_session x (Some (s\<lparr>session_refcount := session_refcount s - 1\<rparr>)) t))"

definition ck_session_ref :: "nat \<Rightarrow> ck_tracker \<Rightarrow> memory_error + ck_tracker" where
  "ck_session_ref x t =
     err_bind (get_session x t) (\<lambda>s.
       Inr (put_session x (Some (s\<lparr>session_refcount := session_refcount s + 1\<rparr>)) t))"

definition ck_seat_new :: "string \<Rightarrow> ck_tracker \<Rightarrow> nat \<times> ck_tracker" where
  "ck_seat_new path t =
     (next_addr t,
      (put_seat (next_addr t) (Some \<lparr>seat_refcount = 1, seat_objpath = path, seat_sessions = []\<rparr>) t)
       \<lparr>next_addr := Suc (next_addr t)\<rparr>)"

definition set_session_seat :: "nat \<Rightarrow> nat option \<Rightarrow> ck_tracker \<Rightarrow> memory_error + ck_tracker" where
  "set_session_seat x a t =
     err_bind (get_session x t) (\<lambda>s. Inr (put_session x (Some (s\<lparr>session_seat := a\<rparr>)) t))"

definition ck_seat_attach_session :: "nat \<Rightarrow> nat \<Rightarrow> ck_tracker \<Rightarrow> memory_error + ck_tracker" where
  "ck_seat_attach_session a x t =
     err_bind (ck_session_ref x t) (\<lambda>t.
     err_bind (set_session_seat x (Some a) t) (\<lambda>t.
     err_bind (get_seat a t) (\<lambda>s.
     Inr (put_seat a (Some (s\<lparr>seat_sessions := seat_sessions s @ [x]\<rparr>)) t))))"

definition ck_seat_detach_session :: "nat \<Rightarrow> nat \<Rightarrow> ck_tracker \<Rightarrow> memory_error + ck_tracker" where
  "ck_seat_detach_session a x t =
     err_bind (get_seat a t) (\<lambda>s.
     err_bind (set_session_seat x None (put_seat a (Some (s\<lparr>seat_sessions := remove1 x (seat_sessions s)\<rparr>)) t))
       (ck_session_unref x))"

definition drop_session :: "nat \<Rightarrow> ck_tracker \<Rightarrow> memory_error + ck_tracker" where
  "drop_session x t = err_bind (set_session_seat x None t) (ck_session_unref x)"

definition ck_seat_unref :: "nat \<Rightarrow> ck_tracker \<Rightarrow> memory_error + ck_tracker" where
  "ck_seat_unref a t =
     err_bind (get_seat a t) (\<lambda>s.
       if seat_refcount s - 1 = 0
       then err_bind (err_fold drop_session (seat_sessions s) t) (\<lambda>t. Inr (put_seat a None t))
       else Inr (put_seat a (Some (s\<lparr>seat_refcount := seat_refcount s - 1\<rparr>)) t))"

text \<open>Asking ConsoleKit about a session: the answers so far stay when a later question fails.\<close>

definition ck_session_get_info :: "ck_service \<Rightarrow> nat \<Rightarrow> ck_tracker \<Rightarrow> memory_error + (bool \<times> ck_tracker)" where
  "ck_session_get_info S x t =
     err_bind (get_session x t) (\<lambda>s.
       let path = session_objpath s
       in case svc_active S path of
            None \<Rightarrow> Inr (False, t)
          | Some act \<Rightarrow>
              (let s1 = s\<lparr>session_active := act\<rparr>
               in case svc_local S path of
                    None \<Rightarrow> Inr (False, put_session x (Some s1) t)
                  | Some loc \<Rightarrow>
                      (let s2 = s1\<lparr>session_local := loc\<rparr>
                       in case svc_hostname S path of
                            None \<Rightarrow> Inr (False, put_session x (Some s2) t)
                          | Some host \<Rightarrow>
                              (let s3 = s2\<lparr>session_hostname := Some host\<rparr>
                               in case svc_user S path of
                                    None \<Rightarrow> Inr (False, put_session x (Some s3) t)
                                  | Some u \<Rightarrow> Inr (True, put_session x (Some (s3\<lparr>session_user := u\<rparr>)) t)))))"

section \<open>Collecting seats and sessions\<close>

text \<open>A new session on a seat, as \<open>SessionAdded\<close> and the initial collection create it.\<close>

definition add_session :: "ck_service \<Rightarrow> nat \<Rightarrow> string \<Rightarrow> ck_tracker \<Rightarrow> memory_error + (bool \<times> ck_tracker)" where
  "add_session S a path t =
     (case ck_session_new path t of
        (x, t1) \<Rightarrow>
          err_bind (ck_session_get_info S x t1) (\<lambda>(ok, t2).
            if \<not> ok then Inr (False, t2)
            else err_bind (ck_seat_attach_session a x t2) (\<lambda>t3.
                 Inr (True, t3\<lparr>tracker_sessions := x # tracker_sessions t3\<rparr>))))"

fun add_sessions :: "ck_service \<Rightarrow> nat \<Rightarrow> string list \<Rightarrow> ck_tracker \<Rightarrow> memory_error + (bool \<times> ck_tracker)" where
  "add_sessions S a [] t = Inr (True, t)"
| "add_sessions S a (path # paths) t =
     err_bind (add_session S a path t) (\<lambda>(ok, t). if \<not> ok then Inr (False, t) else add_sessions S a paths t)"

definition ck_tracker_init_get_sessions_for_seat ::
    "ck_service \<Rightarrow> nat \<Rightarrow> ck_tracker \<Rightarrow> memory_error + (bool \<times> ck_tracker)" where
  "ck_tracker_init_get_sessions_for_seat S a t =
     err_bind (get_seat a t) (\<lambda>s.
       case svc_sessions S (seat_objpath s) of
         None \<Rightarrow> Inr (False, t)
       | Some paths \<Rightarrow> add_sessions S a paths t)"

fun add_seats :: "ck_service \<Rightarrow> string list \<Rightarrow> ck_tracker \<Rightarrow> memory_error + (bool \<times> ck_tracker)" where
  "add_seats S [] t = Inr (True, t)"
| "add_seats S (path # paths) t =
     (case ck_seat_new path t of
        (a, t1) \<Rightarrow>
          err_bind (ck_tracker_init_get_sessions_for_seat S a t1) (\<lambda>(ok, t2).
            if \<not> ok then Inr (False, t2)
            else add_seats S paths (t2\<lparr>tracker_seats := a # tracker_seats t2\<rparr>)))"

definition ck_tracker_init_get_seats_and_sessions ::
    "ck_service \<Rightarrow> ck_tracker \<Rightarrow> memory_error + (bool \<times> ck_tracker)" where
  "ck_tracker_init_get_seats_and_sessions S t =
     (case svc_seats S of None \<Rightarrow> Inr (False, t) | Some paths \<Rightarrow> add_seats S paths t)"

definition ck_tracker_init :: "ck_service \<Rightarrow> ck_tracker \<Rightarrow> memory_error + (bool \<times> ck_tracker)" where
  "ck_tracker_init S t = ck_tracker_init_get_seats_and_sessions S t"

definition ck_tracker_remove_all_seats_and_sessions :: "ck_tracker \<Rightarrow> memory_error + ck_tracker" where
  "ck_tracker_remove_all_seats_and_sessions t =
     err_bind (err_fold ck_session_unref (tracker_sessions t) t) (\<lambda>t.
     err_bind (err_fold ck_seat_unref (tracker_seats t) (t\<lparr>tracker_sessions := []\<rparr>)) (\<lambda>t.
     Inr (t\<lparr>tracker_seats := []\<rparr>)))"

section \<open>Messages from the system bus\<close>

datatype ck_message =
    SeatAdded string
  | SeatRemoved string
  | SessionAdded string string \<comment> \<open>seat, session\<close>
  | SessionRemoved string string \<comment> \<open>seat, session\<close>
  | ActiveChanged string bool
  | NameOwnerChanged string string string \<comment> \<open>name, old owner, new owner\<close>
  | OtherMessage

fun find_seat :: "string \<Rightarrow> nat list \<Rightarrow> ck_tracker \<Rightarrow> memory_error + nat option" where
  "find_seat path [] t = Inr None"
| "find_seat path (a # rest) t =
     err_bind (get_seat a t) (\<lambda>s. if strcmp (seat_objpath s) path = 0 then Inr (Some a) else find_seat path rest t)"

fun find_session :: "string \<Rightarrow> nat list \<Rightarrow> ck_tracker \<Rightarrow> memory_error + nat option" where
  "find_session path [] t = Inr None"
| "find_session path (x # rest) t =
     err_bind (get_session x t)
       (\<lambda>s. if strcmp (session_objpath s) path = 0 then Inr (Some x) else find_session path rest t)"

definition ck_tracker_find_session :: "ck_tracker \<Rightarrow> string \<Rightarrow> memory_error + nat option" where
  "ck_tracker_find_session t path = find_session path (tracker_sessions t) t"

definition seat_added :: "string \<Rightarrow> ck_tracker \<Rightarrow> memory_error + ck_tracker" where
  "seat_added path t =
     (case ck_seat_new path t of
        (a, t) \<Rightarrow> Inr (ck_call (Seat_Added path) (t\<lparr>tracker_seats := a # tracker_seats t\<rparr>)))"

definition seat_removed :: "string \<Rightarrow> ck_tracker \<Rightarrow> memory_error + ck_tracker" where
  "seat_removed path t =
     err_bind (find_seat path (tracker_seats t) t) (\<lambda>found.
       case found of
         None \<Rightarrow> Inr t
       | Some a \<Rightarrow>
           err_bind (get_seat a t) (\<lambda>s.
             ck_seat_unref a (ck_call (Seat_Removed (seat_objpath s))
               (t\<lparr>tracker_seats := remove1 a (tracker_seats t)\<rparr>))))"

definition session_added :: "ck_service \<Rightarrow> string \<Rightarrow> string \<Rightarrow> ck_tracker \<Rightarrow> memory_error + ck_tracker" where
  "session_added S seat path t =
     err_bind (find_seat seat (tracker_seats t) t) (\<lambda>found.
       case found of
         None \<Rightarrow> Inr t
       | Some a \<Rightarrow>
           err_bind (add_session S a path t) (\<lambda>(ok, t).
             Inr (if ok then ck_call (Session_Added path) t else t)))"

definition session_removed :: "string \<Rightarrow> ck_tracker \<Rightarrow> memory_error + ck_tracker" where
  "session_removed path t =
     err_bind (find_session path (tracker_sessions t) t) (\<lambda>found.
       case found of
         None \<Rightarrow> Inr t
       | Some x \<Rightarrow>
           err_bind (get_session x t) (\<lambda>s.
             let t1 = ck_call (Session_Removed (session_objpath s)) t
             in err_bind (case session_seat s of None \<Rightarrow> Inr t1 | Some a \<Rightarrow> ck_seat_detach_session a x t1) (\<lambda>t2.
                ck_session_unref x (t2\<lparr>tracker_sessions := remove1 x (tracker_sessions t2)\<rparr>))))"

definition active_changed :: "string \<Rightarrow> bool \<Rightarrow> ck_tracker \<Rightarrow> memory_error + ck_tracker" where
  "active_changed path act t =
     err_bind (find_session path (tracker_sessions t) t) (\<lambda>found.
       case found of
         None \<Rightarrow> Inr t
       | Some x \<Rightarrow>
           err_bind (get_session x t) (\<lambda>s.
             Inr (ck_call (Session_Active_Changed (session_objpath s) act)
               (put_session x (Some (s\<lparr>session_active := act\<rparr>)) t))))"

definition name_owner_changed ::
    "ck_service \<Rightarrow> string \<Rightarrow> string \<Rightarrow> string \<Rightarrow> ck_tracker \<Rightarrow> memory_error + ck_tracker" where
  "name_owner_changed S name old_service new_service t =
     err_bind (if new_service = [] \<and> name = ''org.freedesktop.ConsoleKit''
               then err_bind (ck_tracker_remove_all_seats_and_sessions t)
                      (\<lambda>t. Inr (ck_call Service_Disappeared t))
               else Inr t) (\<lambda>t.
     if old_service = [] \<and> name = ''org.freedesktop.ConsoleKit''
     then err_bind (ck_tracker_init S t) (\<lambda>(_, t). Inr (ck_call Service_Appeared t))
     else Inr t)"

fun ck_tracker_process_system_bus_message ::
    "ck_service \<Rightarrow> ck_message \<Rightarrow> ck_tracker \<Rightarrow> memory_error + ck_tracker" where
  "ck_tracker_process_system_bus_message S (SeatAdded path) t = seat_added path t"
| "ck_tracker_process_system_bus_message S (SeatRemoved path) t = seat_removed path t"
| "ck_tracker_process_system_bus_message S (SessionAdded seat path) t = session_added S seat path t"
| "ck_tracker_process_system_bus_message S (SessionRemoved seat path) t = session_removed path t"
| "ck_tracker_process_system_bus_message S (ActiveChanged path act) t = active_changed path act t"
| "ck_tracker_process_system_bus_message S (NameOwnerChanged n old_s new_s) t = name_owner_changed S n old_s new_s t"
| "ck_tracker_process_system_bus_message S OtherMessage t = Inr t"

text \<open>\<open>g_basename\<close> of an object path.\<close>

definition g_basename :: "string \<Rightarrow> string" where
  "g_basename path = last (split_all (CHR ''/'') path)"

definition ck_session_get_id :: "ck_session \<Rightarrow> string" where
  "ck_session_get_id s = g_basename (session_objpath s)"

definition ck_seat_get_id :: "ck_seat \<Rightarrow> string" where
  "ck_seat_get_id s = g_basename (seat_objpath s)"

section \<open>The invariant\<close>

text \<open>
  Every allocated seat is held by the tracker once and lists sessions that point back at it; every
  session the tracker or a seat refers to is allocated and its count is the number of those
  references. \<open>A\<close> and \<open>X\<close> are the seats and sessions the tracker still refers to.
\<close>

definition ck_inv :: "nat list \<Rightarrow> nat list \<Rightarrow> ck_tracker \<Rightarrow> bool" where
  "ck_inv A X t \<longleftrightarrow>
     distinct A \<and> distinct X \<and>
     (\<forall>a \<in> set A. seat_heap t a \<noteq> None) \<and> (\<forall>x \<in> set X. session_heap t x \<noteq> None) \<and>
     (\<forall>a s. seat_heap t a = Some s \<longrightarrow>
        a < next_addr t \<and> seat_refcount s = 1 \<and> distinct (seat_sessions s) \<and>
        (\<forall>x \<in> set (seat_sessions s). \<exists>y. session_heap t x = Some y \<and> session_seat y = Some a)) \<and>
     (\<forall>x y. session_heap t x = Some y \<longrightarrow>
        x < next_addr t \<and>
        (\<forall>a. session_seat y = Some a \<longrightarrow> (\<exists>s. seat_heap t a = Some s \<and> x \<in> set (seat_sessions s))) \<and>
        (x \<in> set X \<or> session_seat y \<noteq> None \<longrightarrow>
           session_refcount y = (if x \<in> set X then 1 else 0) + (if session_seat y \<noteq> None then 1 else 0)))"

definition ck_ok :: "ck_tracker \<Rightarrow> bool" where
  "ck_ok t \<longleftrightarrow> ck_inv (tracker_seats t) (tracker_sessions t) t"

inductive ck_reachable :: "ck_tracker \<Rightarrow> bool" where
  start: "ck_tracker_init S ck_tracker_new = Inr (r, t) \<Longrightarrow> ck_reachable t"
| message: "ck_reachable t \<Longrightarrow> ck_tracker_process_system_bus_message S m t = Inr t' \<Longrightarrow> ck_reachable t'"

end
