(* ===== verification/Hal_CK_Props.thy ===== *)
theory Hal_CK_Props
  imports Hal_CK
begin

text \<open>
  The ConsoleKit tracker never touches a freed seat or session, whatever sequence of signals and
  replies ConsoleKit sends, and its reference counts count the references.
\<close>

section \<open>Helper lemmas\<close>

lemma heap_simps [simp]:
  "session_heap (put_session x s t) = (session_heap t)(x := s)" "seat_heap (put_session x s t) = seat_heap t"
  "seat_heap (put_seat a b t) = (seat_heap t)(a := b)" "session_heap (put_seat a b t) = session_heap t"
  "tracker_seats (put_session x s t) = tracker_seats t" "tracker_sessions (put_session x s t) = tracker_sessions t"
  "tracker_seats (put_seat a b t) = tracker_seats t" "tracker_sessions (put_seat a b t) = tracker_sessions t"
  "next_addr (put_session x s t) = next_addr t" "next_addr (put_seat a b t) = next_addr t"
  "session_heap (ck_call n t) = session_heap t" "seat_heap (ck_call n t) = seat_heap t"
  "tracker_seats (ck_call n t) = tracker_seats t" "tracker_sessions (ck_call n t) = tracker_sessions t"
  "next_addr (ck_call n t) = next_addr t"
  by (simp_all add: put_session_def put_seat_def ck_call_def)

lemma ck_inv_call [simp]: "ck_inv A X (ck_call n t) = ck_inv A X t"
  by (simp add: ck_inv_def)

lemma ck_inv_lists [simp]:
  "ck_inv A X (t\<lparr>tracker_seats := l\<rparr>) = ck_inv A X t" "ck_inv A X (t\<lparr>tracker_sessions := l\<rparr>) = ck_inv A X t"
  by (simp_all add: ck_inv_def)

lemma ck_inv_seat: "ck_inv A X t \<Longrightarrow> a \<in> set A \<Longrightarrow> \<exists>s. seat_heap t a = Some s"
  by (auto simp: ck_inv_def)

lemma ck_inv_session: "ck_inv A X t \<Longrightarrow> x \<in> set X \<Longrightarrow> \<exists>y. session_heap t x = Some y"
  by (auto simp: ck_inv_def)

lemma ck_inv_seat_of:
  "ck_inv A X t \<Longrightarrow> session_heap t x = Some y \<Longrightarrow> session_seat y = Some a \<Longrightarrow>
   \<exists>s. seat_heap t a = Some s \<and> x \<in> set (seat_sessions s)"
  by (simp add: ck_inv_def)

lemma find_seat_ok:
  "(\<And>a. a \<in> set A \<Longrightarrow> \<exists>s. seat_heap t a = Some s) \<Longrightarrow>
   \<exists>f. find_seat path A t = Inr f \<and> (\<forall>a. f = Some a \<longrightarrow> a \<in> set A)"
proof (induction A)
  case (Cons a A)
  then obtain s where "seat_heap t a = Some s" by auto
  with Cons show ?case by (auto simp: get_seat_def)
qed simp

lemma find_session_ok:
  "(\<And>x. x \<in> set X \<Longrightarrow> \<exists>s. session_heap t x = Some s) \<Longrightarrow>
   \<exists>f. find_session path X t = Inr f \<and> (\<forall>x. f = Some x \<longrightarrow> x \<in> set X)"
proof (induction X)
  case (Cons x X)
  then obtain s where "session_heap t x = Some s" by auto
  with Cons show ?case by (auto simp: get_session_def)
qed simp

section \<open>Dropping references\<close>

text \<open>A reference of the tracker to a session goes away.\<close>

lemma session_unref_inv:
  assumes inv: "ck_inv A X t" and x: "x \<in> set X"
  shows "\<exists>t'. ck_session_unref x t = Inr t' \<and> ck_inv A (remove1 x X) t' \<and>
    tracker_seats t' = tracker_seats t \<and> tracker_sessions t' = tracker_sessions t"
proof -
  obtain y where y: "session_heap t x = Some y" using ck_inv_session [OF inv x] by blast
  have cnt: "session_refcount y = 1 + (if session_seat y \<noteq> None then 1 else 0)"
    using inv x y unfolding ck_inv_def by auto
  show ?thesis
  proof (cases "session_seat y")
    case None
    then have "ck_session_unref x t = Inr (put_session x None t)"
      using y cnt by (simp add: ck_session_unref_def get_session_def)
    moreover have "ck_inv A (remove1 x X) (put_session x None t)"
      using inv y None unfolding ck_inv_def by (auto simp: set_remove1_eq) (metis option.distinct(1) option.inject)+
    ultimately show ?thesis by simp
  next
    case (Some a)
    then have "ck_session_unref x t = Inr (put_session x (Some (y\<lparr>session_refcount := 1\<rparr>)) t)"
      using y cnt by (simp add: ck_session_unref_def get_session_def)
    moreover have "ck_inv A (remove1 x X) (put_session x (Some (y\<lparr>session_refcount := 1\<rparr>)) t)"
      using inv y Some unfolding ck_inv_def by (auto simp: set_remove1_eq) (metis option.inject)
    ultimately show ?thesis by simp
  qed
qed

lemma sessions_unref_inv:
  "ck_inv A X t \<Longrightarrow> \<exists>t'. err_fold ck_session_unref X t = Inr t' \<and> ck_inv A [] t' \<and>
     tracker_seats t' = tracker_seats t \<and> tracker_sessions t' = tracker_sessions t"
proof (induction X arbitrary: t)
  case (Cons x X)
  obtain t1 where "ck_session_unref x t = Inr t1" "ck_inv A X t1"
    "tracker_seats t1 = tracker_seats t" "tracker_sessions t1 = tracker_sessions t"
    using session_unref_inv [OF Cons.prems, of x] by auto
  with Cons.IH [of t1] show ?case by auto
qed simp

text \<open>The sessions of a seat that goes away: those the tracker lists stay, without a seat.\<close>

definition released :: "nat list \<Rightarrow> nat set \<Rightarrow> (nat \<Rightarrow> ck_session option) \<Rightarrow> nat \<Rightarrow> ck_session option" where
  "released X R h x =
     (if x \<in> R
      then (if x \<in> set X then map_option (\<lambda>y. y\<lparr>session_seat := None, session_refcount := 1\<rparr>) (h x) else None)
      else h x)"

lemma drop_session_step:
  assumes "session_heap t x = Some y" and "session_refcount y = (if x \<in> set X then 1 else 0) + 1"
  shows "drop_session x t =
    Inr (put_session x (if x \<in> set X then Some (y\<lparr>session_seat := None, session_refcount := 1\<rparr>) else None) t)"
  using assms
  by (auto simp: drop_session_def set_session_seat_def ck_session_unref_def get_session_def put_session_def)

lemma drop_sessions:
  assumes "distinct xs"
    and "\<And>x. x \<in> set xs \<Longrightarrow> \<exists>y. session_heap t x = Some y \<and> session_refcount y = (if x \<in> set X then 1 else 0) + 1"
  shows "err_fold drop_session xs t = Inr (t\<lparr>session_heap := released X (set xs) (session_heap t)\<rparr>)"
  using assms
proof (induction xs arbitrary: t)
  case Nil
  have "released X {} h = h" for h by (simp add: released_def fun_eq_iff)
  then show ?case by simp
next
  case (Cons x xs)
  obtain y where y: "session_heap t x = Some y" "session_refcount y = (if x \<in> set X then 1 else 0) + 1"
    using Cons.prems(2) [of x] by auto
  let ?t = "put_session x (if x \<in> set X then Some (y\<lparr>session_seat := None, session_refcount := 1\<rparr>) else None) t"
  have "err_fold drop_session xs ?t = Inr (?t\<lparr>session_heap := released X (set xs) (session_heap ?t)\<rparr>)"
    using Cons.prems by (intro Cons.IH) auto
  moreover have "released X (set xs) (session_heap ?t) = released X (set (x # xs)) (session_heap t)"
    using y Cons.prems(1) by (auto simp: released_def fun_eq_iff)
  ultimately show ?case using drop_session_step [OF y] by (simp add: put_session_def)
qed

text \<open>The tracker's reference to a seat goes away.\<close>

lemma seat_unref_inv:
  assumes inv: "ck_inv A X t" and a: "a \<notin> set A" "seat_heap t a = Some s"
  shows "\<exists>t'. ck_seat_unref a t = Inr t' \<and> ck_inv A X t' \<and>
    tracker_seats t' = tracker_seats t \<and> tracker_sessions t' = tracker_sessions t"
proof -
  have s: "seat_refcount s = 1" "distinct (seat_sessions s)"
    and points: "\<And>x. x \<in> set (seat_sessions s) \<Longrightarrow> \<exists>y. session_heap t x = Some y \<and> session_seat y = Some a"
    using inv a(2) unfolding ck_inv_def by blast+
  have cnt: "\<exists>y. session_heap t x = Some y \<and> session_refcount y = (if x \<in> set X then 1 else 0) + 1"
    if x: "x \<in> set (seat_sessions s)" for x
  proof -
    obtain y where "session_heap t x = Some y" "session_seat y = Some a" using points [OF x] by blast
    with inv show ?thesis unfolding ck_inv_def by auto
  qed
  let ?h = "released X (set (seat_sessions s)) (session_heap t)"
  let ?t = "put_seat a None (t\<lparr>session_heap := ?h\<rparr>)"
  have run: "ck_seat_unref a t = Inr ?t"
    using drop_sessions [OF s(2) cnt] a(2) s(1) by (simp add: ck_seat_unref_def get_seat_def)
  have only: "session_seat y \<noteq> Some a" if "session_heap t x = Some y" "x \<notin> set (seat_sessions s)" for x y
    using inv a(2) that unfolding ck_inv_def by (metis option.inject)
  have "ck_inv A X ?t"
    unfolding ck_inv_def
  proof (intro conjI allI impI ballI)
    show "distinct A" "distinct X" using inv by (auto simp: ck_inv_def)
    show "seat_heap ?t b \<noteq> None" if "b \<in> set A" for b using inv a(1) that by (auto simp: ck_inv_def)
    show "session_heap ?t x \<noteq> None" if "x \<in> set X" for x
      using inv that by (auto simp: ck_inv_def released_def)
  next
    fix b q
    assume b: "seat_heap ?t b = Some q"
    then have ne: "b \<noteq> a" and old: "seat_heap t b = Some q" by (auto split: if_splits)
    show "b < next_addr ?t" "seat_refcount q = 1" "distinct (seat_sessions q)"
      using inv old by (auto simp: ck_inv_def)
    fix x
    assume "x \<in> set (seat_sessions q)"
    then obtain y where y: "session_heap t x = Some y" "session_seat y = Some b"
      using inv old unfolding ck_inv_def by blast
    then have "x \<notin> set (seat_sessions s)" using points ne by fastforce
    with y show "\<exists>y. session_heap ?t x = Some y \<and> session_seat y = Some b" by (simp add: released_def)
  next
    fix x y
    assume "session_heap ?t x = Some y"
    then have r: "released X (set (seat_sessions s)) (session_heap t) x = Some y" by simp
    then obtain z where z: "session_heap t x = Some z"
      by (auto simp: released_def split: if_splits)
    then show "x < next_addr ?t" using inv by (auto simp: ck_inv_def)
    { fix b
      assume b: "session_seat y = Some b"
      with r z have "x \<notin> set (seat_sessions s)" "y = z" by (auto simp: released_def split: if_splits)
      with b z only inv show "\<exists>q. seat_heap ?t b = Some q \<and> x \<in> set (seat_sessions q)"
        by (auto simp: ck_inv_def) }
    assume "x \<in> set X \<or> session_seat y \<noteq> None"
    with r z inv show "session_refcount y = (if x \<in> set X then 1 else 0) + (if session_seat y \<noteq> None then 1 else 0)"
      by (auto simp: ck_inv_def released_def split: if_splits)
  qed
  then show ?thesis using run by simp
qed

lemma seats_unref_inv:
  "ck_inv A X t \<Longrightarrow> \<exists>t'. err_fold ck_seat_unref A t = Inr t' \<and> ck_inv [] X t' \<and>
     tracker_seats t' = tracker_seats t \<and> tracker_sessions t' = tracker_sessions t"
proof (induction A arbitrary: t)
  case (Cons a A)
  obtain s where s: "seat_heap t a = Some s" using ck_inv_seat [OF Cons.prems, of a] by auto
  have inv: "ck_inv A X t" and a: "a \<notin> set A" using Cons.prems by (auto simp: ck_inv_def)
  obtain t1 where "ck_seat_unref a t = Inr t1" "ck_inv A X t1"
    "tracker_seats t1 = tracker_seats t" "tracker_sessions t1 = tracker_sessions t"
    using seat_unref_inv [OF inv a s] by auto
  with Cons.IH [of t1] show ?case by auto
qed simp

lemma remove_all_ok:
  assumes "ck_ok t"
  shows "\<exists>t'. ck_tracker_remove_all_seats_and_sessions t = Inr t' \<and> ck_ok t' \<and>
    tracker_seats t' = [] \<and> tracker_sessions t' = []"
proof -
  obtain t1 where t1: "err_fold ck_session_unref (tracker_sessions t) t = Inr t1"
    "ck_inv (tracker_seats t) [] t1" "tracker_seats t1 = tracker_seats t"
    using sessions_unref_inv assms [unfolded ck_ok_def] by blast
  then have "ck_inv (tracker_seats t1) [] (t1\<lparr>tracker_sessions := []\<rparr>)" by simp
  from seats_unref_inv [OF this] obtain t2 where
    "err_fold ck_seat_unref (tracker_seats t1) (t1\<lparr>tracker_sessions := []\<rparr>) = Inr t2"
    "ck_inv [] [] t2" "tracker_sessions t2 = []" by auto
  with t1 show ?thesis
    by (simp add: ck_tracker_remove_all_seats_and_sessions_def ck_ok_def)
qed

section \<open>New seats and sessions\<close>

lemma fresh_addr:
  "ck_inv A X t \<Longrightarrow> session_heap t (next_addr t) = None \<and> seat_heap t (next_addr t) = None \<and> next_addr t \<notin> set X"
  unfolding ck_inv_def by (metis less_irrefl not_None_eq)

lemma new_session_inv:
  assumes "ck_inv A X t" and "ck_session_new path t = (x, t')"
  shows "ck_inv A X t' \<and> x \<notin> set X \<and> seat_heap t' = seat_heap t \<and> tracker_seats t' = tracker_seats t \<and>
    tracker_sessions t' = tracker_sessions t \<and>
    (\<exists>y. session_heap t' x = Some y \<and> session_refcount y = 1 \<and> session_seat y = None \<and> session_objpath y = path)"
proof -
  have x: "x = next_addr t" and t': "session_heap t' = (session_heap t)(x \<mapsto> \<lparr>session_refcount = 1,
      session_objpath = path, session_seat = None, session_active = False, session_user = 0,
      session_local = False, session_hostname = None\<rparr>)" "seat_heap t' = seat_heap t" "next_addr t' = Suc (next_addr t)"
    "tracker_seats t' = tracker_seats t" "tracker_sessions t' = tracker_sessions t"
    using assms(2) by (auto simp: ck_session_new_def)
  have new: "session_heap t x = None" "x \<notin> set X" using fresh_addr [OF assms(1)] x by auto
  have "ck_inv A X t'"
    using assms(1) new unfolding ck_inv_def t' x by (auto intro: less_SucI) (metis option.distinct(1))
  with t' new show ?thesis by simp
qed

text \<open>Changing fields of a session that the counting does not depend on.\<close>

lemma put_session_inv:
  assumes "ck_inv A X t" and "session_heap t x = Some y"
    and "session_refcount y' = session_refcount y" and "session_seat y' = session_seat y"
  shows "ck_inv A X (put_session x (Some y') t)"
  using assms unfolding ck_inv_def by (auto split: if_splits) (metis option.inject)+

lemma get_info_result:
  assumes "session_heap t x = Some y"
  shows "\<exists>ok y'. ck_session_get_info S x t = Inr (ok, put_session x (Some y') t) \<and>
    session_refcount y' = session_refcount y \<and> session_seat y' = session_seat y \<and>
    session_objpath y' = session_objpath y"
proof -
  have same: "put_session x (Some y) t = t" using assms by (simp add: put_session_def fun_upd_idem)
  show ?thesis
  proof (cases "svc_active S (session_objpath y)")
    case None
    with assms same show ?thesis
      by (intro exI [of _ False] exI [of _ y]) (simp add: ck_session_get_info_def get_session_def)
  next
    case (Some act)
    with assms show ?thesis
      by (auto simp: ck_session_get_info_def get_session_def Let_def split: option.splits)
  qed
qed

lemma attach_inv:
  assumes inv: "ck_inv A X t" and y: "session_heap t x = Some y" "session_refcount y = 1" "session_seat y = None"
    and x: "x \<notin> set X" and a: "seat_heap t a = Some s"
  shows "\<exists>t'. ck_seat_attach_session a x t = Inr t' \<and> ck_inv A (x # X) t' \<and>
    tracker_seats t' = tracker_seats t \<and> tracker_sessions t' = tracker_sessions t \<and> (\<exists>s'. seat_heap t' a = Some s')"
proof -
  let ?y = "y\<lparr>session_refcount := 2, session_seat := Some a\<rparr>"
  let ?s = "s\<lparr>seat_sessions := seat_sessions s @ [x]\<rparr>"
  let ?t = "put_seat a (Some ?s) (put_session x (Some ?y) t)"
  have run: "ck_seat_attach_session a x t = Inr ?t"
    using y a by (simp add: ck_seat_attach_session_def ck_session_ref_def set_session_seat_def get_session_def
        get_seat_def put_session_def put_seat_def)
  have free: "x \<notin> set (seat_sessions q)" if "seat_heap t b = Some q" for b q
    using inv that y unfolding ck_inv_def by fastforce
  have "ck_inv A (x # X) ?t"
    unfolding ck_inv_def
  proof (intro conjI allI impI ballI)
    show "distinct A" "distinct (x # X)" using inv x by (auto simp: ck_inv_def)
    show "seat_heap ?t b \<noteq> None" if "b \<in> set A" for b using inv that by (auto simp: ck_inv_def)
    show "session_heap ?t z \<noteq> None" if "z \<in> set (x # X)" for z using inv that by (auto simp: ck_inv_def)
  next
    fix b q
    assume b: "seat_heap ?t b = Some q"
    then obtain q0 where q0: "seat_heap t b = Some q0" "q = (if b = a then ?s else q0)"
      using a by (auto split: if_splits)
    with inv a show "b < next_addr ?t" "seat_refcount q = 1" by (auto simp: ck_inv_def)
    show "distinct (seat_sessions q)" using inv q0 a free by (auto simp: ck_inv_def)
    fix z
    assume z: "z \<in> set (seat_sessions q)"
    show "\<exists>w. session_heap ?t z = Some w \<and> session_seat w = Some b"
    proof (cases "z = x")
      case True
      with z q0 free [OF q0(1)] have "b = a" by (auto split: if_splits)
      with True show ?thesis by simp
    next
      case False
      with z q0 a have "z \<in> set (seat_sessions q0)" by (auto split: if_splits)
      with inv q0 False show ?thesis unfolding ck_inv_def by auto
    qed
  next
    fix z w
    assume zw: "session_heap ?t z = Some w"
    have "\<exists>w0. session_heap t z = Some w0" using zw y(1) by (cases "z = x") auto
    then show "z < next_addr ?t" using inv unfolding ck_inv_def by auto
    { fix b
      assume b: "session_seat w = Some b"
      show "\<exists>q. seat_heap ?t b = Some q \<and> z \<in> set (seat_sessions q)"
      proof (cases "z = x")
        case True
        with b zw show ?thesis by auto
      next
        case False
        with zw have "session_heap t z = Some w" by simp
        with inv b obtain q where "seat_heap t b = Some q" "z \<in> set (seat_sessions q)"
          unfolding ck_inv_def by blast
        with a show ?thesis by (cases "b = a") auto
      qed }
    assume "z \<in> set (x # X) \<or> session_seat w \<noteq> None"
    with zw x inv show "session_refcount w = (if z \<in> set (x # X) then 1 else 0) + (if session_seat w \<noteq> None then 1 else 0)"
      by (cases "z = x") (auto simp: ck_inv_def)
  qed
  with run show ?thesis by simp
qed

lemma add_session_inv:
  assumes inv: "ck_inv A (tracker_sessions t) t" and a: "seat_heap t a = Some s"
  shows "\<exists>ok t'. add_session S a path t = Inr (ok, t') \<and> ck_inv A (tracker_sessions t') t' \<and>
    tracker_seats t' = tracker_seats t \<and> (\<exists>s'. seat_heap t' a = Some s')"
proof -
  obtain x t1 where new: "ck_session_new path t = (x, t1)" by (cases "ck_session_new path t")
  note n = new_session_inv [OF inv new]
  then obtain y where y: "session_heap t1 x = Some y" "session_refcount y = 1" "session_seat y = None" by blast
  obtain ok y' where info: "ck_session_get_info S x t1 = Inr (ok, put_session x (Some y') t1)"
    and y': "session_refcount y' = 1" "session_seat y' = None"
    using get_info_result [OF y(1)] y(2,3) by force
  let ?t2 = "put_session x (Some y') t1"
  have inv2: "ck_inv A (tracker_sessions t) ?t2" using put_session_inv [OF _ y(1)] n y y' by auto
  show ?thesis
  proof (cases ok)
    case False
    with new info inv2 n a show ?thesis by (auto simp: add_session_def)
  next
    case True
    have "session_heap ?t2 x = Some y'" and "seat_heap ?t2 a = Some s" using n a by simp_all
    from attach_inv [OF inv2 this(1) y' _ this(2)] n obtain t3 where
      "ck_seat_attach_session a x ?t2 = Inr t3" "ck_inv A (x # tracker_sessions t) t3"
      "tracker_seats t3 = tracker_seats t" "tracker_sessions t3 = tracker_sessions t" "\<exists>s'. seat_heap t3 a = Some s'"
      by auto
    with True new info show ?thesis by (auto simp: add_session_def)
  qed
qed

lemma add_sessions_inv:
  assumes "ck_inv A (tracker_sessions t) t" and "seat_heap t a = Some s"
  shows "\<exists>ok t'. add_sessions S a paths t = Inr (ok, t') \<and> ck_inv A (tracker_sessions t') t' \<and>
    tracker_seats t' = tracker_seats t \<and> (\<exists>s'. seat_heap t' a = Some s')"
  using assms
proof (induction paths arbitrary: t s)
  case (Cons path paths)
  obtain ok t1 s1 where "add_session S a path t = Inr (ok, t1)" "ck_inv A (tracker_sessions t1) t1"
    "tracker_seats t1 = tracker_seats t" "seat_heap t1 a = Some s1"
    using add_session_inv [OF Cons.prems] by blast
  with Cons.IH [of t1 s1] show ?case by (cases ok) auto
qed auto

lemma new_seat_inv:
  assumes "ck_inv A X t" and "ck_seat_new path t = (a, t')"
  shows "ck_inv A X t' \<and> a \<notin> set A \<and> tracker_seats t' = tracker_seats t \<and>
    tracker_sessions t' = tracker_sessions t \<and>
    (\<exists>s. seat_heap t' a = Some s \<and> seat_objpath s = path)"
proof -
  have a: "a = next_addr t" and t': "seat_heap t' = (seat_heap t)(a \<mapsto> \<lparr>seat_refcount = 1, seat_objpath = path,
      seat_sessions = []\<rparr>)" "session_heap t' = session_heap t" "next_addr t' = Suc (next_addr t)"
    "tracker_seats t' = tracker_seats t" "tracker_sessions t' = tracker_sessions t"
    using assms(2) by (auto simp: ck_seat_new_def)
  have new: "seat_heap t a = None" using fresh_addr [OF assms(1)] a by auto
  then have "a \<notin> set A" using assms(1) unfolding ck_inv_def by blast
  moreover have "ck_inv A X t'"
    unfolding ck_inv_def
  proof (intro conjI allI impI ballI)
    show "distinct A" "distinct X" using assms(1) by (auto simp: ck_inv_def)
    show "seat_heap t' b \<noteq> None" if "b \<in> set A" for b using assms(1) that t' by (auto simp: ck_inv_def)
    show "session_heap t' x \<noteq> None" if "x \<in> set X" for x using assms(1) that t' by (auto simp: ck_inv_def)
  next
    fix b q
    assume b: "seat_heap t' b = Some q"
    show "b < next_addr t'" "seat_refcount q = 1" "distinct (seat_sessions q)"
      using b assms(1) t' a by (auto simp: ck_inv_def less_Suc_eq split: if_splits)
    fix x
    assume "x \<in> set (seat_sessions q)"
    with b assms(1) t' show "\<exists>y. session_heap t' x = Some y \<and> session_seat y = Some b"
      by (auto simp: ck_inv_def split: if_splits)
  next
    fix x y
    assume "session_heap t' x = Some y"
    then have y: "session_heap t x = Some y" using t' by simp
    then show "x < next_addr t'" using assms(1) t' by (auto simp: ck_inv_def less_Suc_eq)
    { fix b
      assume "session_seat y = Some b"
      with y assms(1) obtain q where "seat_heap t b = Some q" "x \<in> set (seat_sessions q)"
        unfolding ck_inv_def by blast
      then show "\<exists>q. seat_heap t' b = Some q \<and> x \<in> set (seat_sessions q)" using new t' by auto }
    assume "x \<in> set X \<or> session_seat y \<noteq> None"
    with y assms(1) show "session_refcount y = (if x \<in> set X then 1 else 0) + (if session_seat y \<noteq> None then 1 else 0)"
      unfolding ck_inv_def by blast
  qed
  ultimately show ?thesis using t' by simp
qed

lemma ck_inv_Cons_seat: "ck_inv A X t \<Longrightarrow> a \<notin> set A \<Longrightarrow> seat_heap t a = Some s \<Longrightarrow> ck_inv (a # A) X t"
  by (auto simp: ck_inv_def)

lemma add_seats_ok: "ck_ok t \<Longrightarrow> \<exists>ok t'. add_seats S paths t = Inr (ok, t') \<and> ck_ok t'"
proof (induction paths arbitrary: t)
  case (Cons path paths)
  let ?A = "tracker_seats t"
  obtain a t1 where new: "ck_seat_new path t = (a, t1)" by (cases "ck_seat_new path t")
  note n = new_seat_inv [OF Cons.prems [unfolded ck_ok_def] new]
  then obtain s where s: "seat_heap t1 a = Some s" by blast
  have inv1: "ck_inv ?A (tracker_sessions t1) t1" using n by simp
  have "\<exists>ok t2 s2. ck_tracker_init_get_sessions_for_seat S a t1 = Inr (ok, t2) \<and>
      ck_inv ?A (tracker_sessions t2) t2 \<and> tracker_seats t2 = ?A \<and> seat_heap t2 a = Some s2"
    using add_sessions_inv [OF inv1 s] inv1 n s
    by (cases "svc_sessions S (seat_objpath s)")
      (auto simp: ck_tracker_init_get_sessions_for_seat_def get_seat_def)
  then obtain ok t2 s2 where init: "ck_tracker_init_get_sessions_for_seat S a t1 = Inr (ok, t2)"
    and t2: "ck_inv ?A (tracker_sessions t2) t2" "tracker_seats t2 = ?A" "seat_heap t2 a = Some s2" by blast
  have "ck_ok (t2\<lparr>tracker_seats := a # tracker_seats t2\<rparr>)"
    using ck_inv_Cons_seat [OF t2(1) _ t2(3)] n t2(2) by (simp add: ck_ok_def)
  from Cons.IH [OF this] new init t2 show ?case by (cases ok) (auto simp: ck_ok_def)
qed auto

section \<open>Messages\<close>

lemma detach_inv:
  assumes inv: "ck_inv A X t" and y: "session_heap t x = Some y" "session_seat y = Some a"
    and s: "seat_heap t a = Some s" "x \<in> set (seat_sessions s)" and x: "x \<in> set X"
  shows "ck_inv A X (put_session x (Some (y\<lparr>session_seat := None, session_refcount := 1\<rparr>))
    (put_seat a (Some (s\<lparr>seat_sessions := remove1 x (seat_sessions s)\<rparr>)) t))"
    (is "ck_inv A X ?t")
  unfolding ck_inv_def
proof (intro conjI allI impI ballI)
  have dist: "distinct (seat_sessions s)" using inv s unfolding ck_inv_def by blast
  have free: "x \<notin> set (seat_sessions q)" if "seat_heap t b = Some q" "b \<noteq> a" for b q
    using inv that y unfolding ck_inv_def by fastforce
  show "distinct A" "distinct X" using inv by (auto simp: ck_inv_def)
  show "seat_heap ?t b \<noteq> None" if "b \<in> set A" for b using inv that by (auto simp: ck_inv_def)
  show "session_heap ?t z \<noteq> None" if "z \<in> set X" for z using inv that by (auto simp: ck_inv_def)
  { fix b q
    assume b: "seat_heap ?t b = Some q"
    then obtain q0 where q0: "seat_heap t b = Some q0"
      "q = (if b = a then s\<lparr>seat_sessions := remove1 x (seat_sessions s)\<rparr> else q0)"
      using s by (auto split: if_splits)
    with inv s show "b < next_addr ?t" "seat_refcount q = 1" by (auto simp: ck_inv_def)
    show "distinct (seat_sessions q)" using inv q0 dist by (auto simp: ck_inv_def)
    fix z
    assume z: "z \<in> set (seat_sessions q)"
    then have "z \<noteq> x" using q0 dist free [of b q0] by (auto split: if_splits)
    moreover have "z \<in> set (seat_sessions q0)" using z q0 s set_remove1_subset [of x "seat_sessions s"] by (auto split: if_splits)
    ultimately show "\<exists>w. session_heap ?t z = Some w \<and> session_seat w = Some b"
      using inv q0 unfolding ck_inv_def by auto }
  fix z w
  assume zw: "session_heap ?t z = Some w"
  have "\<exists>w0. session_heap t z = Some w0" using zw y(1) by (cases "z = x") auto
  then show "z < next_addr ?t" using inv unfolding ck_inv_def by auto
  { fix b
    assume b: "session_seat w = Some b"
    with zw have "z \<noteq> x" and w: "session_heap t z = Some w" by (auto split: if_splits)
    with inv b obtain q where "seat_heap t b = Some q" "z \<in> set (seat_sessions q)"
      unfolding ck_inv_def by blast
    with s \<open>z \<noteq> x\<close> show "\<exists>q. seat_heap ?t b = Some q \<and> z \<in> set (seat_sessions q)"
      by (cases "b = a") auto }
  assume "z \<in> set X \<or> session_seat w \<noteq> None"
  with zw x inv show "session_refcount w = (if z \<in> set X then 1 else 0) + (if session_seat w \<noteq> None then 1 else 0)"
    by (cases "z = x") (auto simp: ck_inv_def)
qed

lemma session_removed_ok:
  assumes ok: "ck_ok t"
  shows "\<exists>t'. session_removed path t = Inr t' \<and> ck_ok t'"
proof -
  let ?X = "tracker_sessions t"
  have inv: "ck_inv (tracker_seats t) ?X t" using ok by (simp add: ck_ok_def)
  obtain f where f: "find_session path ?X t = Inr f" "\<forall>x. f = Some x \<longrightarrow> x \<in> set ?X"
    using find_session_ok [of ?X t path] ck_inv_session [OF inv] by blast
  show ?thesis
  proof (cases f)
    case None
    with f ok show ?thesis by (simp add: session_removed_def)
  next
    case (Some x)
    with f have x: "x \<in> set ?X" by simp
    obtain y where y: "session_heap t x = Some y" using ck_inv_session [OF inv x] by blast
    let ?n = "Session_Removed (session_objpath y)"
    show ?thesis
    proof (cases "session_seat y")
      case None
      let ?t = "(ck_call ?n t)\<lparr>tracker_sessions := remove1 x ?X\<rparr>"
      have "ck_inv (tracker_seats t) ?X ?t" using inv by simp
      from session_unref_inv [OF this x] obtain t' where
        "ck_session_unref x ?t = Inr t'" "ck_inv (tracker_seats t) (remove1 x ?X) t'"
        "tracker_seats t' = tracker_seats t" "tracker_sessions t' = remove1 x ?X" by auto
      with f Some y None show ?thesis
        by (simp add: session_removed_def get_session_def ck_ok_def)
    next
      case (Some a)
      obtain s where s: "seat_heap t a = Some s" "x \<in> set (seat_sessions s)"
        using inv y Some unfolding ck_inv_def by blast
      have cnt: "session_refcount y = 2" using inv y x Some unfolding ck_inv_def by auto
      let ?s = "s\<lparr>seat_sessions := remove1 x (seat_sessions s)\<rparr>"
      let ?t1 = "put_session x (Some (y\<lparr>session_seat := None, session_refcount := 1\<rparr>)) (put_seat a (Some ?s) (ck_call ?n t))"
      have det: "ck_seat_detach_session a x (ck_call ?n t) = Inr ?t1"
        using s y cnt by (simp add: ck_seat_detach_session_def get_seat_def set_session_seat_def get_session_def
            ck_session_unref_def put_session_def put_seat_def)
      have inv1: "ck_inv (tracker_seats t) ?X ?t1"
        by (rule detach_inv) (use inv y Some s x in simp_all)
      let ?t2 = "?t1\<lparr>tracker_sessions := remove1 x ?X\<rparr>"
      have "ck_inv (tracker_seats t) ?X ?t2" using inv1 by simp
      from session_unref_inv [OF this x] obtain t' where
        "ck_session_unref x ?t2 = Inr t'" "ck_inv (tracker_seats t) (remove1 x ?X) t'"
        "tracker_seats t' = tracker_seats t" "tracker_sessions t' = remove1 x ?X" by auto
      with f \<open>f = Some x\<close> y Some det show ?thesis
        by (simp add: session_removed_def get_session_def ck_ok_def)
    qed
  qed
qed

lemma message_ok:
  assumes ok: "ck_ok t"
  shows "\<exists>t'. ck_tracker_process_system_bus_message S m t = Inr t' \<and> ck_ok t'"
proof -
  have inv: "ck_inv (tracker_seats t) (tracker_sessions t) t" using ok by (simp add: ck_ok_def)
  have seat: "\<exists>f. find_seat path (tracker_seats t) t = Inr f \<and> (\<forall>a. f = Some a \<longrightarrow> a \<in> set (tracker_seats t))" for path
    using find_seat_ok [of "tracker_seats t" t path] ck_inv_seat [OF inv] by blast
  have sess: "\<exists>f. find_session path (tracker_sessions t) t = Inr f \<and> (\<forall>x. f = Some x \<longrightarrow> x \<in> set (tracker_sessions t))" for path
    using find_session_ok [of "tracker_sessions t" t path] ck_inv_session [OF inv] by blast
  show ?thesis
  proof (cases m)
    case (SeatAdded path)
    obtain a t1 where new: "ck_seat_new path t = (a, t1)" by (cases "ck_seat_new path t")
    with new_seat_inv [OF inv new] ck_inv_Cons_seat [of "tracker_seats t" "tracker_sessions t" t1 a] SeatAdded
    show ?thesis by (auto simp: seat_added_def ck_ok_def)
  next
    case (SeatRemoved path)
    obtain f where f: "find_seat path (tracker_seats t) t = Inr f" "\<forall>a. f = Some a \<longrightarrow> a \<in> set (tracker_seats t)"
      using seat by blast
    show ?thesis
    proof (cases f)
      case None
      with f SeatRemoved ok show ?thesis by (simp add: seat_removed_def)
    next
      case (Some a)
      with f have a: "a \<in> set (tracker_seats t)" by simp
      obtain s where s: "seat_heap t a = Some s" using ck_inv_seat [OF inv a] by blast
      let ?t = "ck_call (Seat_Removed (seat_objpath s)) (t\<lparr>tracker_seats := remove1 a (tracker_seats t)\<rparr>)"
      have "ck_inv (remove1 a (tracker_seats t)) (tracker_sessions t) ?t" and "a \<notin> set (remove1 a (tracker_seats t))"
        using inv by (auto simp: ck_inv_def set_remove1_eq)
      from seat_unref_inv [OF this, of s] s obtain t' where "ck_seat_unref a ?t = Inr t'"
        "ck_inv (remove1 a (tracker_seats t)) (tracker_sessions t) t'"
        "tracker_seats t' = remove1 a (tracker_seats t)" "tracker_sessions t' = tracker_sessions t" by auto
      with f Some s SeatRemoved show ?thesis by (simp add: seat_removed_def get_seat_def ck_ok_def)
    qed
  next
    case (SessionAdded seat path)
    obtain f where f: "find_seat seat (tracker_seats t) t = Inr f" "\<forall>a. f = Some a \<longrightarrow> a \<in> set (tracker_seats t)"
      using \<open>\<And>path. \<exists>f. find_seat path (tracker_seats t) t = Inr f \<and> (\<forall>a. f = Some a \<longrightarrow> a \<in> set (tracker_seats t))\<close> by blast
    show ?thesis
    proof (cases f)
      case None
      with f SessionAdded ok show ?thesis by (simp add: session_added_def)
    next
      case (Some a)
      then obtain s where "seat_heap t a = Some s" using ck_inv_seat [OF inv] f(2) by blast
      from add_session_inv [OF inv this] obtain r t' where "add_session S a path t = Inr (r, t')"
        "ck_inv (tracker_seats t) (tracker_sessions t') t'" "tracker_seats t' = tracker_seats t" by blast
      with f Some SessionAdded show ?thesis by (auto simp: session_added_def ck_ok_def)
    qed
  next
    case (SessionRemoved seat path)
    with session_removed_ok [OF ok] show ?thesis by simp
  next
    case (ActiveChanged path act)
    obtain f where f: "find_session path (tracker_sessions t) t = Inr f" "\<forall>x. f = Some x \<longrightarrow> x \<in> set (tracker_sessions t)"
      using sess by blast
    show ?thesis
    proof (cases f)
      case None
      with f ActiveChanged ok show ?thesis by (simp add: active_changed_def)
    next
      case (Some x)
      then obtain y where y: "session_heap t x = Some y" using ck_inv_session [OF inv] f(2) by blast
      with put_session_inv [OF inv y, of "y\<lparr>session_active := act\<rparr>"] f Some ActiveChanged show ?thesis
        by (simp add: active_changed_def get_session_def ck_ok_def)
    qed
  next
    case (NameOwnerChanged n old_s new_s)
    obtain t1 where "(if new_s = [] \<and> n = ''org.freedesktop.ConsoleKit''
        then err_bind (ck_tracker_remove_all_seats_and_sessions t) (\<lambda>t. Inr (ck_call Service_Disappeared t))
        else Inr t) = Inr t1" and t1: "ck_ok t1"
      using remove_all_ok [OF ok] ok by (cases "new_s = [] \<and> n = ''org.freedesktop.ConsoleKit''") (auto simp: ck_ok_def)
    moreover have "\<exists>r t2. ck_tracker_init S t1 = Inr (r, t2) \<and> ck_ok t2"
      using add_seats_ok [OF t1] t1
      by (cases "svc_seats S") (auto simp: ck_tracker_init_def ck_tracker_init_get_seats_and_sessions_def)
    ultimately show ?thesis
      using NameOwnerChanged t1 by (auto simp: name_owner_changed_def ck_ok_def)
  qed (use ok in simp)
qed

lemma init_ok: "ck_tracker_init S ck_tracker_new = Inr (r, t) \<Longrightarrow> ck_ok t"
proof -
  have new: "ck_ok ck_tracker_new" by (simp add: ck_ok_def ck_inv_def ck_tracker_new_def)
  then show "ck_tracker_init S ck_tracker_new = Inr (r, t) \<Longrightarrow> ck_ok t"
    using add_seats_ok [OF new, of S "the (svc_seats S)"]
    by (cases "svc_seats S") (auto simp: ck_tracker_init_def ck_tracker_init_get_seats_and_sessions_def)
qed

lemma ck_tracker_invariant: "ck_reachable t \<Longrightarrow> ck_ok t"
proof (induction rule: ck_reachable.induct)
  case (start S r t)
  then show ?case by (rule init_ok)
next
  case (message t S m t')
  then show ?case using message_ok [of t S m] by auto
qed

section \<open>Properties\<close>

text \<open>C31: the tracker is safe. In every state reached from the start by any sequence of signals and any
  replies of ConsoleKit, the reference counts of the sessions the tracker lists are the number of
  references to them, seats and sessions point at each other and at nothing freed, and the next message,
  whatever it is, is processed without touching a freed object.\<close>

theorem ck_tracker_memory_safe:
  assumes "ck_reachable t"
  shows "ck_ok t \<and> (\<exists>t'. ck_tracker_process_system_bus_message S m t = Inr t')"
  using ck_tracker_invariant [OF assms] message_ok by blast

definition quiet_service :: ck_service where
  "quiet_service = \<lparr>svc_seats = Some [''/Seat1''], svc_sessions = (\<lambda>_. Some [''/Session1'']),
     svc_active = (\<lambda>_. Some True), svc_local = (\<lambda>_. Some True), svc_hostname = (\<lambda>_. Some []),
     svc_user = (\<lambda>_. Some 1000)\<rparr>"

theorem ck_tracker_memory_safe_witness:
  "\<exists>r t. ck_tracker_init quiet_service ck_tracker_new = Inr (r, t) \<and> ck_ok t \<and>
     (\<exists>t'. ck_tracker_process_system_bus_message quiet_service (SeatRemoved ''/Seat1'') t = Inr t')"
proof -
  have "case ck_tracker_init quiet_service ck_tracker_new of Inr _ \<Rightarrow> True | Inl _ \<Rightarrow> False" by code_simp
  then obtain r t where init: "ck_tracker_init quiet_service ck_tracker_new = Inr (r, t)" by (auto split: sum.splits)
  have "ck_reachable t" by (rule ck_reachable.start [OF init])
  from ck_tracker_memory_safe [OF this] init show ?thesis by blast
qed

text \<open>When ConsoleKit leaves the bus the tracker drops every seat and session it lists, in whatever
  state it is.\<close>

theorem ck_disappears_drops_all:
  assumes "ck_reachable t" and "old_owner \<noteq> []"
    and "ck_tracker_process_system_bus_message S (NameOwnerChanged ''org.freedesktop.ConsoleKit'' old_owner []) t = Inr t'"
  shows "tracker_seats t' = [] \<and> tracker_sessions t' = [] \<and> ck_tracker_find_session t' path = Inr None"
proof -
  have "ck_ok t" using ck_tracker_invariant [OF assms(1)] .
  from remove_all_ok [OF this] assms(2,3) show ?thesis
    by (auto simp: name_owner_changed_def ck_tracker_find_session_def)
qed

theorem ck_disappears_drops_all_witness:
  "\<exists>r t t'. ck_tracker_init quiet_service ck_tracker_new = Inr (r, t) \<and>
     ck_tracker_process_system_bus_message quiet_service
       (NameOwnerChanged ''org.freedesktop.ConsoleKit'' '':1.3'' []) t = Inr t' \<and> tracker_sessions t' = []"
proof -
  have "case ck_tracker_init quiet_service ck_tracker_new of Inr _ \<Rightarrow> True | Inl _ \<Rightarrow> False" by code_simp
  then obtain r t where init: "ck_tracker_init quiet_service ck_tracker_new = Inr (r, t)" by (auto split: sum.splits)
  obtain t' where msg: "ck_tracker_process_system_bus_message quiet_service
       (NameOwnerChanged ''org.freedesktop.ConsoleKit'' '':1.3'' []) t = Inr t'"
    using message_ok [OF init_ok [OF init]] by blast
  have "ck_reachable t" by (rule ck_reachable.start [OF init])
  from ck_disappears_drops_all [OF this _ msg] init msg show ?thesis by auto
qed

end
