(* ===== verification/Hal_Access.thy ===== *)
theory Hal_Access
  imports Hal_Lock_Props Hal_Store Hal_CK_Props
begin

text \<open>
  Who may use a device: the cache of caller information of \<open>hald/ci-tracker.c\<close> and the checks of
  \<open>hald/access-check.c\<close>, which combine it with the named locks of the device and of the computer
  object.

  The message bus, ConsoleKit and PolicyKit are services outside the sources: their replies are the
  fields of the parameter \<open>access_env\<close> (\<^const>\<open>None\<close> for an error reply). The sources are built with
  or without ConsoleKit and PolicyKit; the configuration is a field of the same record.
\<close>

section \<open>Caller information\<close>

datatype build = Plain | ConKit | PolKit

record caller_info =
  ci_uid :: int
  ci_pid :: int
  in_active_session :: bool
  ci_is_local :: bool
  ci_session :: "string option"
  ci_selinux :: "string option"
  ci_name :: string

type_synonym ci_tracker = "(string \<times> caller_info) list"

datatype selinux_reply = SELinux_Unknown | SELinux_Error | SELinux_Context string

record pk_session =
  ps_objref :: string
  ps_seat :: "string option"
  ps_uid :: int
  ps_active :: bool
  ps_local :: bool
  ps_remote_host :: "string option"

record pk_caller =
  pk_name :: string
  pk_uid :: int
  pk_pid :: int
  pk_selinux :: "string option"
  pk_session :: "pk_session option"

datatype polkit_result = POLKIT_RESULT_YES | POLKIT_RESULT_OTHER int

record access_env =
  env_build :: build
  env_euid :: int
  bus_uid :: "string \<Rightarrow> int option"
  bus_pid :: "string \<Rightarrow> int option"
  bus_selinux :: "string \<Rightarrow> selinux_reply"
  ck_session_for :: "int \<Rightarrow> string option"
  ck_is_active :: "string \<Rightarrow> bool option"
  ck_is_local :: "string \<Rightarrow> bool option"
  env_ck :: ck_tracker
  polkit_can_do :: "string option \<Rightarrow> pk_caller \<Rightarrow> polkit_result"

subsection \<open>Names on the bus\<close>

definition between :: "char \<Rightarrow> char \<Rightarrow> char \<Rightarrow> bool" where
  "between lo c hi \<longleftrightarrow> (of_char lo :: nat) \<le> of_char c \<and> (of_char c :: nat) \<le> of_char hi"

definition valid_initial_bus_name_character :: "char \<Rightarrow> bool" where
  "valid_initial_bus_name_character c \<longleftrightarrow>
     between (CHR ''A'') c (CHR ''Z'') \<or> between (CHR ''a'') c (CHR ''z'') \<or> c = CHR ''_'' \<or> c = CHR ''-''"

definition valid_bus_name_character :: "char \<Rightarrow> bool" where
  "valid_bus_name_character c \<longleftrightarrow>
     between (CHR ''0'') c (CHR ''9'') \<or> between (CHR ''A'') c (CHR ''Z'') \<or> between (CHR ''a'') c (CHR ''z'') \<or>
     c = CHR ''_'' \<or> c = CHR ''-''"

text \<open>The loop for unique names, and the loop for well-known names with \<open>last_dot != NULL\<close>.\<close>

fun unique_name_loop :: "string \<Rightarrow> bool" where
  "unique_name_loop [] = True"
| "unique_name_loop [c] = (if c = CHR ''.'' then False else valid_bus_name_character c)"
| "unique_name_loop (c # d # s) =
     (if c = CHR ''.'' then valid_bus_name_character d \<and> unique_name_loop s
      else valid_bus_name_character c \<and> unique_name_loop (d # s))"

fun known_name_loop :: "string \<Rightarrow> bool \<Rightarrow> bool" where
  "known_name_loop [] dot = dot"
| "known_name_loop [c] dot = (if c = CHR ''.'' then False else valid_bus_name_character c \<and> dot)"
| "known_name_loop (c # d # s) dot =
     (if c = CHR ''.'' then valid_initial_bus_name_character d \<and> known_name_loop s True
      else valid_bus_name_character c \<and> known_name_loop (d # s) dot)"

fun validate_bus_name :: "string \<Rightarrow> bool" where
  "validate_bus_name [] = False"
| "validate_bus_name (c # s) =
     (if c = CHR '':'' then unique_name_loop s
      else if c = CHR ''.'' then False
      else if \<not> valid_initial_bus_name_character c then False
      else known_name_loop s False)"

subsection \<open>The cache\<close>

text \<open>The questions to the bus and to ConsoleKit for a name that is not in the cache.\<close>

definition ask_conkit :: "access_env \<Rightarrow> string \<Rightarrow> caller_info \<Rightarrow> caller_info option" where
  "ask_conkit E name ci =
     (case bus_pid E name of
        None \<Rightarrow> None
      | Some pid \<Rightarrow>
          (let ci = ci\<lparr>ci_pid := pid\<rparr>
           in case bus_selinux E name of
                SELinux_Error \<Rightarrow> None
              | sel \<Rightarrow>
                  (let ci = (case sel of
                               SELinux_Context str \<Rightarrow> if str \<noteq> [] then ci\<lparr>ci_selinux := Some str\<rparr> else ci
                             | _ \<Rightarrow> ci)
                   in case ck_session_for E pid of
                        None \<Rightarrow> Some ci
                      | Some path \<Rightarrow>
                          (case ck_is_active E path of
                             None \<Rightarrow> None
                           | Some act \<Rightarrow>
                               (case ck_is_local E path of
                                  None \<Rightarrow> None
                                | Some loc \<Rightarrow>
                                    Some (ci\<lparr>ci_session := Some path, in_active_session := act,
                                             ci_is_local := loc\<rparr>))))))"

definition ask_caller_info :: "access_env \<Rightarrow> string \<Rightarrow> caller_info option" where
  "ask_caller_info E name =
     (case bus_uid E name of
        None \<Rightarrow> None
      | Some u \<Rightarrow>
          (let ci = \<lparr>ci_uid = u, ci_pid = 0, in_active_session = False, ci_is_local = False,
                     ci_session = None, ci_selinux = None, ci_name = name\<rparr>
           in if env_build E = Plain then Some ci else ask_conkit E name ci))"

definition ci_tracker_get_info :: "access_env \<Rightarrow> string option \<Rightarrow> ci_tracker \<Rightarrow> caller_info option \<times> ci_tracker" where
  "ci_tracker_get_info E name cit =
     (case name of
        None \<Rightarrow> (None, cit)
      | Some n \<Rightarrow>
          if \<not> validate_bus_name n then (None, cit)
          else (case map_of cit n of
                  Some ci \<Rightarrow> (Some ci, cit)
                | None \<Rightarrow>
                    (case ask_caller_info E n of
                       None \<Rightarrow> (None, cit)
                     | Some ci \<Rightarrow> (Some ci, AList.update n ci cit))))"

definition ci_tracker_name_owner_changed :: "string \<Rightarrow> string \<Rightarrow> string \<Rightarrow> ci_tracker \<Rightarrow> ci_tracker" where
  "ci_tracker_name_owner_changed name old_service new_service cit =
     (if old_service \<noteq> []
      then (case map_of cit old_service of
              Some _ \<Rightarrow> AList.delete old_service cit
            | None \<Rightarrow> cit)
      else cit)"

definition ci_tracker_set_active :: "string \<Rightarrow> caller_info \<Rightarrow> caller_info" where
  "ci_tracker_set_active path ci = (if ci_session ci = Some path then ci\<lparr>in_active_session := True\<rparr> else ci)"

definition ci_tracker_clear_active :: "string \<Rightarrow> caller_info \<Rightarrow> caller_info" where
  "ci_tracker_clear_active path ci = (if ci_session ci = Some path then ci\<lparr>in_active_session := False\<rparr> else ci)"

definition ci_tracker_active_changed :: "string \<Rightarrow> bool \<Rightarrow> ci_tracker \<Rightarrow> ci_tracker" where
  "ci_tracker_active_changed path is_active cit =
     map (\<lambda>(n, ci). (n, if is_active then ci_tracker_set_active path ci else ci_tracker_clear_active path ci)) cit"

section \<open>Access to a device\<close>

definition access_check_caller_is_root_or_hal :: "access_env \<Rightarrow> string option \<Rightarrow> ci_tracker \<Rightarrow> bool \<times> ci_tracker" where
  "access_check_caller_is_root_or_hal E caller cit =
     (case ci_tracker_get_info E caller cit of
        (None, cit') \<Rightarrow> (False, cit')
      | (Some ci, cit') \<Rightarrow> (if ci_uid ci \<noteq> 0 \<and> ci_uid ci \<noteq> env_euid E then False else True, cit'))"

definition access_check_message_caller_is_root_or_hal ::
    "access_env \<Rightarrow> string option \<Rightarrow> ci_tracker \<Rightarrow> bool \<times> ci_tracker" where
  "access_check_message_caller_is_root_or_hal E sender cit =
     (case sender of
        None \<Rightarrow> (False, cit)
      | Some s \<Rightarrow> access_check_caller_is_root_or_hal E (Some s) cit)"

definition get_pk_seat_from_ck_seat :: "ck_seat \<Rightarrow> string" where
  "get_pk_seat_from_ck_seat seat = ''/org/freedesktop/ConsoleKit/'' @ ck_seat_get_id seat"

definition get_pk_session_from_ck_session :: "ck_tracker \<Rightarrow> ck_session \<Rightarrow> memory_error + pk_session" where
  "get_pk_session_from_ck_session t s =
     err_bind (case session_seat s of
                 None \<Rightarrow> Inr None
               | Some a \<Rightarrow> err_bind (get_seat a t) (\<lambda>seat. Inr (Some (get_pk_seat_from_ck_seat seat))))
       (\<lambda>seat. Inr
          \<lparr>ps_objref = ''/org/freedesktop/ConsoleKit/'' @ ck_session_get_id s, ps_seat = seat,
           ps_uid = session_user s, ps_active = session_active s, ps_local = session_local s,
           ps_remote_host = (if \<not> session_local s then session_hostname s else None)\<rparr>)"

definition get_pk_caller_from_ci_tracker ::
    "access_env \<Rightarrow> string option \<Rightarrow> ci_tracker \<Rightarrow> memory_error + (pk_caller option \<times> ci_tracker)" where
  "get_pk_caller_from_ci_tracker E caller cit =
     (case ci_tracker_get_info E caller cit of
        (None, cit') \<Rightarrow> Inr (None, cit')
      | (Some ci, cit') \<Rightarrow>
          err_bind
            (case ci_session ci of
               None \<Rightarrow> Inr (Some None)
             | Some path \<Rightarrow>
                 err_bind (ck_tracker_find_session (env_ck E) path) (\<lambda>found.
                   case found of
                     None \<Rightarrow> Inr None
                   | Some x \<Rightarrow>
                       err_bind (get_session x (env_ck E)) (\<lambda>s.
                       err_bind (get_pk_session_from_ck_session (env_ck E) s) (\<lambda>pk. Inr (Some (Some pk))))))
            (\<lambda>session. Inr
               (map_option (\<lambda>pk. \<lparr>pk_name = the caller, pk_uid = ci_uid ci, pk_pid = ci_pid ci,
                                  pk_selinux = ci_selinux ci, pk_session = pk\<rparr>) session, cit')))"

definition computer_udi :: string where
  "computer_udi = ''/org/freedesktop/Hal/devices/computer''"

definition access_check_caller_have_access_to_device ::
    "access_env \<Rightarrow> hal_device \<Rightarrow> string option \<Rightarrow> string option \<Rightarrow> ci_tracker \<Rightarrow>
     memory_error + (bool \<times> polkit_result option \<times> ci_tracker)" where
  "access_check_caller_have_access_to_device E device action caller cit =
     (if env_build E = Plain then Inr (True, None, cit)
      else
        (case ci_tracker_get_info E caller cit of
           (None, cit1) \<Rightarrow> Inr (False, None, cit1)
         | (Some ci, cit1) \<Rightarrow>
             let yes = (if env_build E = PolKit then Some POLKIT_RESULT_YES else None)
             in if ci_uid ci = 0 \<or> ci_uid ci = env_euid E then Inr (True, yes, cit1)
                else if action = Some ''hal-lock'' \<and> strcmp (hal_device_get_udi device) computer_udi = 0
                then Inr (True, yes, cit1)
                else if env_build E = PolKit
                then err_bind (get_pk_caller_from_ci_tracker E caller cit1) (\<lambda>(pk, cit2).
                       case pk of
                         None \<Rightarrow> Inr (False, None, cit2)
                       | Some c \<Rightarrow>
                           (let res = polkit_can_do E action c
                            in Inr (res = POLKIT_RESULT_YES, Some res, cit2)))
                else if ci_session ci = None then Inr (False, None, cit1)
                else if \<not> ci_is_local ci then Inr (False, None, cit1)
                else if \<not> in_active_session ci then Inr (False, None, cit1)
                else Inr (True, None, cit1)))"

section \<open>Locks held by others\<close>

text \<open>The computer object, in the global or else the temporary device list.\<close>

definition find_computer :: "heap \<Rightarrow> device_store \<Rightarrow> device_store \<Rightarrow> nat option" where
  "find_computer h gdl tdl =
     (case hal_device_store_find h computer_udi gdl of
        Some c \<Rightarrow> Some c
      | None \<Rightarrow> hal_device_store_find h computer_udi tdl)"

text \<open>The loop over the holders of the global lock: locked by someone with access, or held by the caller.\<close>

fun global_loop ::
    "access_env \<Rightarrow> hal_device \<Rightarrow> string \<Rightarrow> string list \<Rightarrow> bool \<Rightarrow> ci_tracker \<Rightarrow>
     memory_error + (bool \<times> bool \<times> ci_tracker)" where
  "global_loop E device caller [] is_locked cit = Inr (False, is_locked, cit)"
| "global_loop E device caller (g # gs) is_locked cit =
     err_bind (access_check_caller_have_access_to_device E device (Some ''hal-lock'') (Some g) cit)
       (\<lambda>(access, _, cit).
          if strcmp g caller = 0
          then (if access then Inr (True, is_locked, cit) else global_loop E device caller gs is_locked cit)
          else global_loop E device caller gs (if access then True else is_locked) cit)"

definition holder_list :: "string list option \<Rightarrow> string list" where
  "holder_list holders = (case holders of None \<Rightarrow> [] | Some l \<Rightarrow> l)"

definition access_check_caller_locked_out ::
    "access_env \<Rightarrow> heap \<Rightarrow> device_store \<Rightarrow> device_store \<Rightarrow> hal_device \<Rightarrow> string \<Rightarrow> string \<Rightarrow> ci_tracker \<Rightarrow>
     memory_error + (bool \<times> ci_tracker)" where
  "access_check_caller_locked_out E h gdl tdl device caller interface cit =
     (case find_computer h gdl tdl of
        None \<Rightarrow> Inr (True, cit)
      | Some computer \<Rightarrow>
          (let holders = holder_list (hal_device_get_lock_holders device interface);
               global_holders = holder_list (hal_device_get_lock_holders (h computer) (''Global.'' @ interface))
           in if strlist_loop_contains holders caller then Inr (False, cit)
              else err_bind (global_loop E device caller global_holders (holders \<noteq> []) cit)
                     (\<lambda>(self, is_locked, cit). Inr (if self then False else is_locked, cit))))"

fun others_loop ::
    "access_env \<Rightarrow> hal_device \<Rightarrow> string option \<Rightarrow> string list \<Rightarrow> ci_tracker \<Rightarrow> memory_error + (bool \<times> ci_tracker)" where
  "others_loop E device caller [] cit = Inr (False, cit)"
| "others_loop E device caller (g # gs) cit =
     (if caller \<noteq> Some g
      then err_bind (access_check_caller_have_access_to_device E device (Some ''hal-lock'') (Some g) cit)
             (\<lambda>(access, _, cit). if access then Inr (True, cit) else others_loop E device caller gs cit)
      else others_loop E device caller gs cit)"

definition access_check_locked_by_others ::
    "access_env \<Rightarrow> heap \<Rightarrow> device_store \<Rightarrow> device_store \<Rightarrow> hal_device \<Rightarrow> string option \<Rightarrow> string \<Rightarrow> ci_tracker \<Rightarrow>
     memory_error + (bool \<times> ci_tracker)" where
  "access_check_locked_by_others E h gdl tdl device caller interface cit =
     (case find_computer h gdl tdl of
        None \<Rightarrow> Inr (True, cit)
      | Some computer \<Rightarrow>
          (let holders = holder_list (hal_device_get_lock_holders device interface);
               global_holders = holder_list (hal_device_get_lock_holders (h computer) (''Global.'' @ interface))
           in if \<exists>g \<in> set holders. caller \<noteq> Some g then Inr (True, cit)
              else others_loop E device caller global_holders cit))"

end
