(* ===== verification/Hal_Access_Props.thy ===== *)
theory Hal_Access_Props
  imports Hal_Access
begin

text \<open>
  What the access checks decide: bus names against a reference definition, access by build and caller,
  and the two lock checks against the rules their comments state. The decisions do not depend on what
  is in the cache of caller information as long as the cache is current.
\<close>

section \<open>Bus names\<close>

text \<open>The reference: a name is a list of elements between dots.\<close>

definition elements_valid :: "string list \<Rightarrow> bool" where
  "elements_valid ps \<longleftrightarrow> (\<forall>p \<in> set ps. \<forall>c \<in> set p. valid_bus_name_character c)"

definition well_known_element :: "string \<Rightarrow> bool" where
  "well_known_element p \<longleftrightarrow> (case p of [] \<Rightarrow> False | c # _ \<Rightarrow> valid_initial_bus_name_character c)"

lemma initial_valid: "valid_initial_bus_name_character c \<Longrightarrow> valid_bus_name_character c"
  by (auto simp: valid_initial_bus_name_character_def valid_bus_name_character_def)

lemma dot_not_valid [simp]: "\<not> valid_bus_name_character CHR ''.''" "\<not> valid_initial_bus_name_character CHR ''.''"
  by (simp_all add: valid_bus_name_character_def valid_initial_bus_name_character_def between_def)

lemma unique_name_loop_iff:
  "unique_name_loop s \<longleftrightarrow>
     elements_valid (split_all (CHR ''.'') s) \<and> [] \<notin> set (tl (split_all (CHR ''.'') s))"
proof (induction s rule: unique_name_loop.induct)
  case (3 c d s)
  show ?case
  proof (cases "c = CHR ''.''")
    case True
    with 3 show ?thesis
      by (cases "split_all CHR ''.'' s"; cases "d = CHR ''.''") (auto simp: elements_valid_def)
  next
    case False
    with 3 show ?thesis
      by (cases "split_all CHR ''.'' (d # s)") (auto simp: elements_valid_def)
  qed
qed (auto simp: elements_valid_def)

lemma known_name_loop_iff:
  "known_name_loop s dot \<longleftrightarrow>
     elements_valid (split_all (CHR ''.'') s) \<and>
     (\<forall>p \<in> set (tl (split_all (CHR ''.'') s)). well_known_element p) \<and>
     (dot \<or> tl (split_all (CHR ''.'') s) \<noteq> [])"
proof (induction s dot rule: known_name_loop.induct)
  case (3 c d s dot)
  show ?case
  proof (cases "c = CHR ''.''")
    case True
    with 3 initial_valid show ?thesis
      by (cases "split_all CHR ''.'' s"; cases "d = CHR ''.''") (auto simp: elements_valid_def well_known_element_def)
  next
    case False
    with 3 show ?thesis
      by (cases "split_all CHR ''.'' (d # s)") (auto simp: elements_valid_def)
  qed
qed (auto simp: elements_valid_def well_known_element_def)

section \<open>Decisions do not depend on the cache\<close>

definition cache_current :: "access_env \<Rightarrow> ci_tracker \<Rightarrow> bool" where
  "cache_current E cit \<longleftrightarrow> (\<forall>n ci. map_of cit n = Some ci \<longrightarrow> ask_caller_info E n = Some ci)"

definition caller :: "access_env \<Rightarrow> string \<Rightarrow> caller_info option" where
  "caller E n = (if validate_bus_name n then ask_caller_info E n else None)"

lemma get_info_current:
  assumes "cache_current E cit"
  shows "\<exists>cit'. ci_tracker_get_info E (Some n) cit = (caller E n, cit') \<and> cache_current E cit'"
  using assms
  by (auto simp: ci_tracker_get_info_def caller_def cache_current_def AList.update_conv'
      split: option.splits if_splits)

text \<open>What PolicyKit is asked about.\<close>

definition pk_caller_of :: "access_env \<Rightarrow> string \<Rightarrow> memory_error + pk_caller option" where
  "pk_caller_of E n = err_bind (get_pk_caller_from_ci_tracker E (Some n) []) (\<lambda>(pk, _). Inr pk)"

lemma find_session_alloc:
  "ck_ok t \<Longrightarrow> \<exists>f. ck_tracker_find_session t path = Inr f \<and>
     (\<forall>x. f = Some x \<longrightarrow> (\<exists>s. session_heap t x = Some s \<and> (\<exists>pk. get_pk_session_from_ck_session t s = Inr pk)))"
proof -
  assume ok: "ck_ok t"
  then have inv: "ck_inv (tracker_seats t) (tracker_sessions t) t" by (simp add: ck_ok_def)
  obtain f where f: "find_session path (tracker_sessions t) t = Inr f" "\<forall>x. f = Some x \<longrightarrow> x \<in> set (tracker_sessions t)"
    using find_session_ok [of "tracker_sessions t" t path] ck_inv_session [OF inv] by blast
  have "\<exists>pk. get_pk_session_from_ck_session t s = Inr pk" if xs: "session_heap t x = Some s" for x s
  proof (cases "session_seat s")
    case (Some a)
    then obtain q where "seat_heap t a = Some q" using ck_inv_seat_of [OF inv xs] by blast
    with Some show ?thesis by (simp add: get_pk_session_from_ck_session_def get_seat_def)
  qed (simp add: get_pk_session_from_ck_session_def)
  moreover have "\<exists>s. session_heap t x = Some s" if "f = Some x" for x
    using f(2) that ck_inv_session [OF inv] by blast
  ultimately show ?thesis using f(1) unfolding ck_tracker_find_session_def by blast
qed

lemma pk_caller_current:
  assumes "cache_current E cit" and "ck_ok (env_ck E)"
  shows "\<exists>pk cit'. get_pk_caller_from_ci_tracker E (Some n) cit = Inr (pk, cit') \<and> cache_current E cit' \<and>
    pk_caller_of E n = Inr pk"
proof -
  obtain cit' where c: "ci_tracker_get_info E (Some n) cit = (caller E n, cit')" "cache_current E cit'"
    using get_info_current [OF assms(1)] by blast
  have "cache_current E []" by (simp add: cache_current_def)
  then obtain cit0 where e: "ci_tracker_get_info E (Some n) [] = (caller E n, cit0)"
    using get_info_current by blast
  show ?thesis
  proof (cases "caller E n")
    case None
    with c e show ?thesis by (simp add: get_pk_caller_from_ci_tracker_def pk_caller_of_def)
  next
    case (Some ci)
    show ?thesis
    proof (cases "ci_session ci")
      case None
      with Some c e show ?thesis by (simp add: get_pk_caller_from_ci_tracker_def pk_caller_of_def)
    next
      case (Some path)
      obtain f where "ck_tracker_find_session (env_ck E) path = Inr f"
        "\<forall>x. f = Some x \<longrightarrow> (\<exists>s. session_heap (env_ck E) x = Some s \<and>
            (\<exists>pk. get_pk_session_from_ck_session (env_ck E) s = Inr pk))"
        using find_session_alloc [OF assms(2)] by blast
      with Some \<open>caller E n = Some ci\<close> c e show ?thesis
        by (cases f) (auto simp: get_pk_caller_from_ci_tracker_def pk_caller_of_def get_session_def)
    qed
  qed
qed

text \<open>The decision, as a function of the caller.\<close>

definition has_access :: "access_env \<Rightarrow> hal_device \<Rightarrow> string option \<Rightarrow> string \<Rightarrow> bool" where
  "has_access E device action n \<longleftrightarrow>
     env_build E = Plain \<or>
     (case caller E n of
        None \<Rightarrow> False
      | Some ci \<Rightarrow>
          ci_uid ci = 0 \<or> ci_uid ci = env_euid E \<or>
          (action = Some ''hal-lock'' \<and> udi device = computer_udi) \<or>
          (if env_build E = PolKit
           then (case pk_caller_of E n of
                   Inr (Some c) \<Rightarrow> polkit_can_do E action c = POLKIT_RESULT_YES
                 | _ \<Rightarrow> False)
           else ci_session ci \<noteq> None \<and> ci_is_local ci \<and> in_active_session ci))"

lemma have_access_eq:
  assumes "cache_current E cit" and "ck_ok (env_ck E)"
  shows "\<exists>pr cit'. access_check_caller_have_access_to_device E device action (Some n) cit =
      Inr (has_access E device action n, pr, cit') \<and> cache_current E cit'"
proof -
  obtain cit1 where c: "ci_tracker_get_info E (Some n) cit = (caller E n, cit1)" "cache_current E cit1"
    using get_info_current [OF assms(1)] by blast
  obtain pk cit2 where pk: "get_pk_caller_from_ci_tracker E (Some n) cit1 = Inr (pk, cit2)"
    "cache_current E cit2" "pk_caller_of E n = Inr pk"
    using pk_caller_current [OF c(2) assms(2)] by blast
  show ?thesis
    using c pk assms(1)
    by (cases "caller E n"; cases pk)
      (auto simp: access_check_caller_have_access_to_device_def has_access_def hal_device_get_udi_def Let_def)
qed

lemma global_loop_eq:
  assumes "cache_current E cit" and "ck_ok (env_ck E)"
  shows "\<exists>self lk cit'. global_loop E device c gs is_locked cit = Inr (self, lk, cit') \<and> cache_current E cit' \<and>
    (self \<longleftrightarrow> c \<in> set gs \<and> has_access E device (Some ''hal-lock'') c) \<and>
    (\<not> self \<longrightarrow> (lk \<longleftrightarrow> is_locked \<or> (\<exists>g \<in> set gs. g \<noteq> c \<and> has_access E device (Some ''hal-lock'') g)))"
  using assms(1)
proof (induction gs arbitrary: is_locked cit)
  case (Cons g gs)
  obtain pr cit1 where a: "access_check_caller_have_access_to_device E device (Some ''hal-lock'') (Some g) cit =
      Inr (has_access E device (Some ''hal-lock'') g, pr, cit1)" "cache_current E cit1"
    using have_access_eq [OF Cons.prems assms(2)] by blast
  show ?case
  proof (cases "has_access E device (Some ''hal-lock'') g")
    case True
    with a Cons.IH [OF a(2), of "if g = c then is_locked else True"] show ?thesis
      by (cases "g = c") (auto simp: Cons.prems)
  next
    case False
    with a Cons.IH [OF a(2), of is_locked] show ?thesis by (cases "g = c") auto
  qed
qed auto

lemma others_loop_eq:
  assumes "cache_current E cit" and "ck_ok (env_ck E)"
  shows "\<exists>cit'. others_loop E device c gs cit =
      Inr (\<exists>g \<in> set gs. c \<noteq> Some g \<and> has_access E device (Some ''hal-lock'') g, cit') \<and> cache_current E cit'"
  using assms(1)
proof (induction gs arbitrary: cit)
  case (Cons g gs)
  obtain pr cit1 where a: "access_check_caller_have_access_to_device E device (Some ''hal-lock'') (Some g) cit =
      Inr (has_access E device (Some ''hal-lock'') g, pr, cit1)" "cache_current E cit1"
    using have_access_eq [OF Cons.prems assms(2)] by blast
  show ?case
    using a Cons.IH [OF a(2)] Cons.IH [OF Cons.prems] Cons.prems
    by (cases "c = Some g"; cases "has_access E device (Some ''hal-lock'') g") auto
qed simp

text \<open>Who is locked out, and by whom, for given lists of holders.\<close>

definition locked_out_spec :: "(string \<Rightarrow> bool) \<Rightarrow> string list \<Rightarrow> string list \<Rightarrow> string \<Rightarrow> bool" where
  "locked_out_spec access holders global_holders c \<longleftrightarrow>
     c \<notin> set holders \<and> \<not> (c \<in> set global_holders \<and> access c) \<and>
     (holders \<noteq> [] \<or> (\<exists>g \<in> set global_holders. g \<noteq> c \<and> access g))"

lemma locked_out_eq:
  assumes "cache_current E cit" and "ck_ok (env_ck E)" and "find_computer h gdl tdl = Some computer"
  shows "\<exists>cit'. access_check_caller_locked_out E h gdl tdl device c interface cit =
    Inr (locked_out_spec (has_access E device (Some ''hal-lock''))
          (holder_list (hal_device_get_lock_holders device interface))
          (holder_list (hal_device_get_lock_holders (h computer) (''Global.'' @ interface))) c, cit')"
proof -
  let ?hs = "holder_list (hal_device_get_lock_holders device interface)"
  let ?gs = "holder_list (hal_device_get_lock_holders (h computer) (''Global.'' @ interface))"
  obtain self lk cit' where g: "global_loop E device c ?gs (?hs \<noteq> []) cit = Inr (self, lk, cit')"
    and s: "self \<longleftrightarrow> c \<in> set ?gs \<and> has_access E device (Some ''hal-lock'') c"
    and l: "\<not> self \<longrightarrow> (lk \<longleftrightarrow> ?hs \<noteq> [] \<or> (\<exists>g \<in> set ?gs. g \<noteq> c \<and> has_access E device (Some ''hal-lock'') g))"
    using global_loop_eq [OF assms(1,2)] by blast
  show ?thesis
  proof (cases "c \<in> set ?hs")
    case True
    with assms(3) show ?thesis by (simp add: access_check_caller_locked_out_def Let_def locked_out_spec_def)
  next
    case False
    then have "access_check_caller_locked_out E h gdl tdl device c interface cit = Inr (if self then False else lk, cit')"
      using assms(3) g by (simp add: access_check_caller_locked_out_def Let_def)
    moreover have "(if self then False else lk) =
        locked_out_spec (has_access E device (Some ''hal-lock'')) ?hs ?gs c"
      using False s l by (auto simp: locked_out_spec_def)
    ultimately show ?thesis by simp
  qed
qed

lemma locked_by_others_eq:
  assumes "cache_current E cit" and "ck_ok (env_ck E)" and "find_computer h gdl tdl = Some computer"
  shows "\<exists>cit'. access_check_locked_by_others E h gdl tdl device c interface cit =
    Inr ((\<exists>g \<in> set (holder_list (hal_device_get_lock_holders device interface)). c \<noteq> Some g) \<or>
         (\<exists>g \<in> set (holder_list (hal_device_get_lock_holders (h computer) (''Global.'' @ interface))).
            c \<noteq> Some g \<and> has_access E device (Some ''hal-lock'') g), cit')"
proof -
  obtain cit' where "others_loop E device c (holder_list (hal_device_get_lock_holders (h computer) (''Global.'' @ interface))) cit =
      Inr (\<exists>g \<in> set (holder_list (hal_device_get_lock_holders (h computer) (''Global.'' @ interface))).
            c \<noteq> Some g \<and> has_access E device (Some ''hal-lock'') g, cit')"
    using others_loop_eq [OF assms(1,2)] by blast
  with assms(3) show ?thesis by (auto simp: access_check_locked_by_others_def Let_def)
qed

lemma ask_caller_info_active:
  assumes "ask_caller_info E n = Some ci" and "E' = E\<lparr>ck_is_active := (ck_is_active E)(path \<mapsto> act)\<rparr>"
  shows "ask_caller_info E' n =
    Some (if act then ci_tracker_set_active path ci else ci_tracker_clear_active path ci)"
  using assms
  by (auto simp: ask_caller_info_def ask_conkit_def Let_def ci_tracker_set_active_def ci_tracker_clear_active_def
      split: option.splits if_splits selinux_reply.splits)

lemma map_of_map_entries: "map_of (map (\<lambda>(k, x). (k, f x)) al) k = map_option f (map_of al k)"
  by (induction al) auto

section \<open>Properties\<close>

text \<open>The hand-written loop that validates bus names accepts exactly the names the reference
  describes: a colon and elements of valid characters, none of them after the first empty; or at least
  two non-empty elements of valid characters that do not start with a digit.\<close>

theorem validate_bus_name_iff:
  "validate_bus_name n \<longleftrightarrow>
     (case n of
        [] \<Rightarrow> False
      | c # s \<Rightarrow>
          if c = CHR '':'' then elements_valid (split_all (CHR ''.'') s) \<and> [] \<notin> set (tl (split_all (CHR ''.'') s))
          else elements_valid (split_all (CHR ''.'') n) \<and> 2 \<le> length (split_all (CHR ''.'') n) \<and>
               (\<forall>p \<in> set (split_all (CHR ''.'') n). well_known_element p))"
proof (cases n)
  case (Cons c s)
  obtain p ps where ps: "split_all (CHR ''.'') s = p # ps" by (meson neq_Nil_conv split_all_not_Nil)
  show ?thesis
    using Cons ps initial_valid
    by (auto simp: unique_name_loop_iff known_name_loop_iff elements_valid_def well_known_element_def Suc_le_eq)
qed simp

theorem validate_bus_name_iff_witness:
  "validate_bus_name ''org.freedesktop.Hal'' \<and> validate_bus_name '':1.43'' \<and> \<not> validate_bus_name ''org.1x''"
proof -
  have "split_all (CHR ''.'') ''org.freedesktop.Hal'' = [''org'', ''freedesktop'', ''Hal'']"
    "split_all (CHR ''.'') ''1.43'' = [''1'', ''43'']" "split_all (CHR ''.'') ''org.1x'' = [''org'', ''1x'']"
    by simp_all
  then show ?thesis
    unfolding validate_bus_name_iff [of "''org.freedesktop.Hal''"] validate_bus_name_iff [of "'':1.43''"]
      validate_bus_name_iff [of "''org.1x''"]
    by (simp add: elements_valid_def well_known_element_def valid_bus_name_character_def
        valid_initial_bus_name_character_def between_def)
qed

text \<open>With ConsoleKit and without PolicyKit, a caller has access to a device exactly when the bus
  knows it and it is root or the daemon's own user, or it asks for a lock on the computer object, or it is
  in an active local session; what is in the cache makes no difference as long as it is current.\<close>

theorem access_with_consolekit:
  assumes "cache_current E cit" and "ck_ok (env_ck E)" and "env_build E = ConKit"
    and "access_check_caller_have_access_to_device E device action (Some n) cit = Inr (r, pr, cit')"
  shows "r \<longleftrightarrow> validate_bus_name n \<and>
    (\<exists>ci. ask_caller_info E n = Some ci \<and>
      (ci_uid ci = 0 \<or> ci_uid ci = env_euid E \<or>
       (action = Some ''hal-lock'' \<and> udi device = ''/org/freedesktop/Hal/devices/computer'') \<or>
       (ci_session ci \<noteq> None \<and> ci_is_local ci \<and> in_active_session ci)))"
  using have_access_eq [OF assms(1,2), of device action n] assms(3,4)
  by (auto simp: has_access_def caller_def computer_udi_def split: option.splits)

definition local_env :: access_env where
  "local_env = \<lparr>env_build = ConKit, env_euid = 68, bus_uid = (\<lambda>_. Some 1000), bus_pid = (\<lambda>_. Some 4711),
     bus_selinux = (\<lambda>_. SELinux_Unknown), ck_session_for = (\<lambda>_. Some ''/Session1''),
     ck_is_active = (\<lambda>_. Some True), ck_is_local = (\<lambda>_. Some True), env_ck = ck_tracker_new,
     polkit_can_do = (\<lambda>_ _. POLKIT_RESULT_OTHER 0)\<rparr>"

lemma local_env_ok [simp]: "cache_current E []" "ck_ok (env_ck local_env)" "env_build local_env = ConKit"
  by (simp_all add: cache_current_def local_env_def ck_ok_def ck_inv_def ck_tracker_new_def)

theorem access_with_consolekit_witness:
  "\<exists>r pr cit'. access_check_caller_have_access_to_device local_env blank_device None (Some '':1.43'') [] =
      Inr (r, pr, cit') \<and> r"
proof -
  obtain r pr cit' where run: "access_check_caller_have_access_to_device local_env blank_device None (Some '':1.43'') [] =
      Inr (r, pr, cit')"
    using have_access_eq [OF local_env_ok(1,2), of blank_device None "'':1.43''"] by blast
  have "validate_bus_name '':1.43''" by code_simp
  moreover have "\<exists>ci. ask_caller_info local_env '':1.43'' = Some ci \<and> ci_session ci \<noteq> None \<and> ci_is_local ci \<and>
      in_active_session ci"
    by (simp add: ask_caller_info_def ask_conkit_def local_env_def)
  ultimately show ?thesis
    using access_with_consolekit [OF local_env_ok run] run by auto
qed

text \<open>
  Who is locked out according to the comment of the function and to \<open>doc/spec/hal-spec-locking.xml\<close>:
  \<open>A\<close> is locked out when it holds neither the lock on the device nor the global lock, and another caller
  holds the lock on the device, or holds the global lock and has access to the device.
\<close>

definition doc_locked_out :: "(string \<Rightarrow> bool) \<Rightarrow> string list \<Rightarrow> string list \<Rightarrow> string \<Rightarrow> bool" where
  "doc_locked_out access hs gs a \<longleftrightarrow>
     ((\<exists>b \<in> set hs. b \<noteq> a) \<and> a \<notin> set gs \<and> a \<notin> set hs) \<or>
     ((\<exists>b \<in> set gs. b \<noteq> a \<and> access b) \<and> a \<notin> set gs \<and> a \<notin> set hs)"

text \<open>C36: who is locked out of an interface. When the computer object exists, a caller is locked out
  exactly when the documented rule says so or, against the documentation, which says that a holder of
  the global lock is never locked out, when it holds the global lock and not the lock on the device, has
  no access to the device, and someone else holds the lock on the device or holds the global lock with
  access to the device.\<close>

theorem caller_locked_out_rule:
  assumes "cache_current E cit" and "ck_ok (env_ck E)" and "find_computer h gdl tdl = Some computer"
    and "holder_list (hal_device_get_lock_holders device interface) = hs"
    and "holder_list (hal_device_get_lock_holders (h computer) (''Global.'' @ interface)) = gs"
    and "access = has_access E device (Some ''hal-lock'')"
  shows "\<exists>r cit'. access_check_caller_locked_out E h gdl tdl device c interface cit = Inr (r, cit') \<and>
    (r \<longleftrightarrow> doc_locked_out access hs gs c \<or>
       (c \<in> set gs \<and> c \<notin> set hs \<and> \<not> access c \<and> (hs \<noteq> [] \<or> (\<exists>g \<in> set gs. g \<noteq> c \<and> access g))))"
proof -
  have "locked_out_spec access hs gs c \<longleftrightarrow> doc_locked_out access hs gs c \<or>
      (c \<in> set gs \<and> c \<notin> set hs \<and> \<not> access c \<and> (hs \<noteq> [] \<or> (\<exists>g \<in> set gs. g \<noteq> c \<and> access g)))"
    by (cases hs) (auto simp: locked_out_spec_def doc_locked_out_def)
  then show ?thesis
    using locked_out_eq [OF assms(1-3), of device c interface] unfolding assms(4,5) assms(6) [symmetric] by auto
qed

definition computer_device :: hal_device where
  "computer_device = blank_device\<lparr>udi := computer_udi\<rparr>"

definition computer_store :: device_store where
  "computer_store = hal_device_store_new\<lparr>devices := [0]\<rparr>"

lemma find_computer_device [simp]: "find_computer (\<lambda>_. computer_device) computer_store tdl = Some 0"
  by (simp add: find_computer_def hal_device_store_find_def computer_store_def computer_device_def
      hal_device_get_udi_def)

lemma no_global_holders [simp]: "hal_device_get_lock_holders computer_device n = None"
  by (simp add: computer_device_def hal_device_get_lock_holders_def hal_device_property_dup_strlist_as_strv_def
      hal_device_property_get_strlist_def)

lemma shared_device_holders [simp]: "hal_device_get_lock_holders shared_device ''storage'' = Some ['':1.1'']"
  by (rule get_lock_holders_table [where e = False]) simp_all

theorem caller_locked_out_rule_witness:
  "\<exists>cit'. access_check_caller_locked_out local_env (\<lambda>_. computer_device) computer_store hal_device_store_new
      shared_device '':1.2'' ''storage'' [] = Inr (True, cit')"
  using caller_locked_out_rule [OF local_env_ok(1,2) find_computer_device, of shared_device "''storage''" "['':1.1'']" "[]"
      "has_access local_env shared_device (Some ''hal-lock'')" hal_device_store_new "'':1.2''"]
  by (auto simp: holder_list_def doc_locked_out_def)

text \<open>The two checks agree: a caller that is locked out is one for whom the device is locked by
  others, and when the device is not locked by others the caller is not locked out.\<close>

theorem locked_out_implies_locked_by_others:
  assumes "cache_current E cit" and "ck_ok (env_ck E)"
    and "access_check_caller_locked_out E h gdl tdl device c interface cit = Inr (True, cit1)"
    and "access_check_locked_by_others E h gdl tdl device (Some c) interface cit = Inr (r, cit2)"
  shows "r"
proof (cases "find_computer h gdl tdl")
  case None
  with assms(4) show ?thesis by (simp add: access_check_locked_by_others_def)
next
  case (Some computer)
  let ?hs = "holder_list (hal_device_get_lock_holders device interface)"
  let ?gs = "holder_list (hal_device_get_lock_holders (h computer) (''Global.'' @ interface))"
  have "locked_out_spec (has_access E device (Some ''hal-lock'')) ?hs ?gs c"
    using locked_out_eq [OF assms(1,2) Some, of device c interface] assms(3) by auto
  moreover have "r \<longleftrightarrow> (\<exists>g \<in> set ?hs. Some c \<noteq> Some g) \<or>
      (\<exists>g \<in> set ?gs. Some c \<noteq> Some g \<and> has_access E device (Some ''hal-lock'') g)"
    using locked_by_others_eq [OF assms(1,2) Some, of device "Some c" interface] assms(4) by auto
  ultimately show ?thesis
    by (cases ?hs) (auto simp: locked_out_spec_def)
qed

theorem locked_out_implies_locked_by_others_witness:
  "\<exists>r cit2. access_check_locked_by_others local_env (\<lambda>_. computer_device) computer_store hal_device_store_new
      shared_device (Some '':1.2'') ''storage'' [] = Inr (r, cit2) \<and> r"
proof -
  obtain r cit2 where others: "access_check_locked_by_others local_env (\<lambda>_. computer_device) computer_store
      hal_device_store_new shared_device (Some '':1.2'') ''storage'' [] = Inr (r, cit2)"
    using locked_by_others_eq [OF local_env_ok(1,2) find_computer_device] by blast
  obtain cit1 where out: "access_check_caller_locked_out local_env (\<lambda>_. computer_device) computer_store
      hal_device_store_new shared_device '':1.2'' ''storage'' [] = Inr (True, cit1)"
    using locked_out_eq [OF local_env_ok(1,2) find_computer_device, of hal_device_store_new shared_device "'':1.2''" "''storage''"]
    by (auto simp: holder_list_def locked_out_spec_def)
  from locked_out_implies_locked_by_others [OF local_env_ok(1,2) out others] others show ?thesis by blast
qed

text \<open>An exclusive lock works. After a client has acquired the lock named after an interface
  exclusively, every other client without a global lock on the interface is locked out of it on that device
  and the holder is not.\<close>

theorem exclusive_lock_locks_out_others:
  assumes "cache_current E cit" and "ck_ok (env_ck E)" and "find_computer h gdl tdl = Some computer"
    and "hal_device_get_lock_holders (h computer) (''Global.'' @ interface) = None"
    and "locks_ok d" and "short_name interface"
    and "hal_device_acquire_lock dev interface True s L d = (L', True, d', es)"
  shows "\<exists>cit'. access_check_caller_locked_out E h gdl tdl d' c interface cit = Inr (c \<noteq> s, cit')"
proof -
  note ref = acquire_refines [OF assms(5-7)]
  have "lock_table d' interface = Some ([s], True)"
    using ref(1) by (auto simp: spec_acquire_def fun_eq_iff split: option.splits if_splits)
  then have "hal_device_get_lock_holders d' interface = Some [s]" by (rule get_lock_holders_table [OF ref(2)])
  with locked_out_eq [OF assms(1-3), of d' c interface] assms(4) show ?thesis
    by (auto simp: holder_list_def locked_out_spec_def)
qed

theorem exclusive_lock_locks_out_others_witness:
  "\<exists>L' d' es cit'. hal_device_acquire_lock 7 ''storage'' True '':1.1'' no_locks blank_device = (L', True, d', es) \<and>
     access_check_caller_locked_out local_env (\<lambda>_. computer_device) computer_store hal_device_store_new d'
       '':1.2'' ''storage'' [] = Inr (True, cit')"
proof -
  obtain L' r d' es where acq:
    "hal_device_acquire_lock 7 ''storage'' True '':1.1'' no_locks blank_device = (L', r, d', es)"
    by (metis prod_cases4)
  have short: "short_name ''storage''" by (simp add: short_name_def)
  have r: "r = True" using acquire_free(1) [OF locks_ok_blank short _ acq] by simp
  from exclusive_lock_locks_out_others [OF local_env_ok(1,2) find_computer_device _ locks_ok_blank short acq [unfolded r],
      of hal_device_store_new "'':1.2''"]
  show ?thesis using acq r by simp
qed

text \<open>The cache follows ConsoleKit: when a session becomes active or inactive and the tracker is told,
  the cached information is again what ConsoleKit would answer.\<close>

theorem cache_follows_active_changed:
  assumes "cache_current E cit" and "E' = E\<lparr>ck_is_active := (ck_is_active E)(path \<mapsto> act)\<rparr>"
  shows "cache_current E' (ci_tracker_active_changed path act cit)"
  unfolding cache_current_def
proof (intro allI impI)
  fix n ci
  assume "map_of (ci_tracker_active_changed path act cit) n = Some ci"
  then obtain ci0 where "map_of cit n = Some ci0"
    and ci: "ci = (if act then ci_tracker_set_active path ci0 else ci_tracker_clear_active path ci0)"
    by (auto simp: ci_tracker_active_changed_def map_of_map_entries)
  with assms(1) have "ask_caller_info E n = Some ci0" by (simp add: cache_current_def)
  from ask_caller_info_active [OF this assms(2)] ci show "ask_caller_info E' n = Some ci" by simp
qed

theorem cache_follows_active_changed_witness:
  "cache_current (local_env\<lparr>ck_is_active := (ck_is_active local_env)(''/Session1'' \<mapsto> False)\<rparr>)
     (ci_tracker_active_changed ''/Session1'' False (snd (ci_tracker_get_info local_env (Some '':1.43'') [])))"
proof -
  have "cache_current local_env (snd (ci_tracker_get_info local_env (Some '':1.43'') []))"
    using get_info_current [OF local_env_ok(1)] by (metis snd_conv)
  from cache_follows_active_changed [OF this refl] show ?thesis .
qed

end
