(* ===== verification/Hal_Rules.thy ===== *)
theory Hal_Rules
  imports Hal_Store_Props Hal_Double Hal_Lock_Props
begin

text \<open>
  The device information rules of \<open>hald/device_info.c\<close>: the rules compiled from the \<open>.fdi\<close> files are
  walked for a device, \<open>match\<close> rules test properties and skip blocks, the others change properties.

  The compiled cache is a header and a map from offsets to rules. Property paths are resolved through
  the devices of the global and the temporary device list, so the state is a \<open>world\<close>: the device
  heap, the two stores, and the counters behind \<open>hal_device_new\<close>. Buffers of \<open>HAL_PATH_MAX\<close> bytes that
  would be overrun or read without a terminator are the error \<open>Buffer_Overrun\<close>.
\<close>

section \<open>Rules\<close>

datatype rule_type =
    RULE_UNKNOWN | RULE_MATCH | RULE_MERGE | RULE_APPEND | RULE_PREPEND | RULE_REMOVE | RULE_CLEAR
  | RULE_SPAWN | RULE_EOF | RULE_ADDSET

datatype merge_type =
    MERGE_UNKNOWN | MERGE_STRING | MERGE_BOOLEAN | MERGE_INT32 | MERGE_UINT64 | MERGE_DOUBLE
  | MERGE_COPY_PROPERTY | MERGE_STRLIST | MERGE_REMOVE

datatype match_type =
    MATCH_UNKNOWN | MATCH_STRING | MATCH_INT | MATCH_UINT64 | MATCH_BOOL | MATCH_EXISTS | MATCH_EMPTY
  | MATCH_ISASCII | MATCH_IS_ABS_PATH | MATCH_CONTAINS | MATCH_CONTAINS_NCASE | MATCH_PREFIX
  | MATCH_PREFIX_NCASE | MATCH_SUFFIX | MATCH_SUFFIX_NCASE | MATCH_COMPARE_LT | MATCH_COMPARE_LE
  | MATCH_COMPARE_GT | MATCH_COMPARE_GE | MATCH_SIBLING_CONTAINS | MATCH_COMPARE_NE | MATCH_CONTAINS_NOT
  | MATCH_DOUBLE | MATCH_CONTAINS_OUTOF | MATCH_INT_OUTOF | MATCH_PREFIX_OUTOF | MATCH_STRING_OUTOF

record rule =
  rule_size :: nat
  jump_position :: nat
  rtype :: rule_type
  type_match :: match_type
  type_merge :: merge_type
  rkey :: string
  rvalue :: string

record rule_cache =
  fdi_rules_preprobe :: nat
  fdi_rules_information :: nat
  fdi_rules_policy :: nat
  all_rules_size :: nat
  rule_at :: "(nat \<times> rule) list"

record world =
  w_heap :: heap
  w_gdl :: device_store
  w_tdl :: device_store
  w_next :: nat
  w_counter :: int
  w_callouts :: "nat list"

text \<open>A device operation on one device, its signals delivered to both stores.\<close>

definition world_call ::
    "(string \<Rightarrow> nat) \<Rightarrow> nat \<Rightarrow> (hal_device \<Rightarrow> 'a outcome) \<Rightarrow> world \<Rightarrow> memory_error + world" where
  "world_call H dev opr w =
     (case opr (w_heap w dev) of
        (r, d', es) \<Rightarrow>
          err_bind (deliver H dev es (w_gdl w)) (\<lambda>g.
          err_bind (deliver H dev es (w_tdl w)) (\<lambda>t.
          Inr (w\<lparr>w_heap := (w_heap w)(dev := d'), w_gdl := g, w_tdl := t\<rparr>))))"

definition world_find :: "string \<Rightarrow> world \<Rightarrow> nat option" where
  "world_find u w =
     (case hal_device_store_find (w_heap w) u (w_gdl w) of
        Some x \<Rightarrow> Some x
      | None \<Rightarrow> hal_device_store_find (w_heap w) u (w_tdl w))"

section \<open>Property paths\<close>

definition path_copy :: "string \<Rightarrow> memory_error + string" where
  "path_copy s = (case strncpy HAL_PATH_MAX s of Some t \<Rightarrow> Inr t | None \<Rightarrow> Inl Buffer_Overrun)"

fun resolve_tokens :: "world \<Rightarrow> string \<Rightarrow> string list \<Rightarrow> memory_error + (string \<times> string) option" where
  "resolve_tokens w u [] = Inr None"
| "resolve_tokens w u [tok] =
     (case world_find u w of
        None \<Rightarrow> Inr None
      | Some _ \<Rightarrow> err_bind (path_copy tok) (\<lambda>prop. Inr (Some (u, prop))))"
| "resolve_tokens w u (tok # tok' # toks) =
     (case world_find u w of
        None \<Rightarrow> Inr None
      | Some dev \<Rightarrow>
          (case tok of
             c # udiprop \<Rightarrow>
               if c = CHR ''@''
               then (case hal_device_property_get_string (w_heap w dev) udiprop of
                       None \<Rightarrow> Inr None
                     | Some newudi \<Rightarrow> err_bind (path_copy newudi) (\<lambda>u'. resolve_tokens w u' (tok' # toks)))
               else err_bind (path_copy tok) (\<lambda>u'. resolve_tokens w u' (tok' # toks))
           | [] \<Rightarrow> resolve_tokens w [] (tok' # toks)))"

definition resolve_udiprop_path_old :: "world \<Rightarrow> string \<Rightarrow> string \<Rightarrow> memory_error + (string \<times> string) option" where
  "resolve_udiprop_path_old w path source_udi =
     (let tokens = g_strsplit path (CHR '':'') 64
      in if length tokens < 2
         then err_bind (path_copy source_udi) (\<lambda>u. err_bind (path_copy path) (\<lambda>p. Inr (Some (u, p))))
         else err_bind (path_copy source_udi) (\<lambda>u. resolve_tokens w u tokens))"

definition resolve_udiprop_path :: "world \<Rightarrow> string \<Rightarrow> string \<Rightarrow> memory_error + (string \<times> string) option" where
  "resolve_udiprop_path w path source_udi =
     (if CHR '':'' \<notin> set path then Inr (Some (source_udi, path))
      else resolve_udiprop_path_old w path source_udi)"

section \<open>Matching\<close>

text \<open>The string of a property of string type.\<close>

definition str_of :: "hal_device \<Rightarrow> string \<Rightarrow> memory_error + string" where
  "str_of d key =
     (case hal_device_property_get_string d key of None \<Rightarrow> Inl Null_Dereference | Some s \<Rightarrow> Inr s)"

definition in_int64 :: "int \<Rightarrow> bool" where
  "in_int64 i \<longleftrightarrow> - (2 ^ 63) \<le> i \<and> i < 2 ^ 63"

definition check64 :: "int \<Rightarrow> memory_error + int" where
  "check64 i = (if in_int64 i then Inr i else Inl Signed_Overflow)"

definition match_compare_property :: "hal_device \<Rightarrow> string \<Rightarrow> string \<Rightarrow> memory_error + int option" where
  "match_compare_property d key right_side =
     (if \<not> hal_device_has_property d key then Inr None
      else (case hal_device_property_get_type d key of
              TYPE_STRING \<Rightarrow> err_bind (str_of d key) (\<lambda>s. Inr (Some (strcmp s right_side)))
            | TYPE_INT32 \<Rightarrow>
                err_bind (check64 (sint (hal_device_property_get_int d key) - strtoll right_side)) (\<lambda>r. Inr (Some r))
            | TYPE_UINT64 \<Rightarrow>
                err_bind (check64 (sint (hal_device_property_get_uint64 d key) - strtoll right_side)) (\<lambda>r. Inr (Some r))
            | TYPE_DOUBLE \<Rightarrow>
                (case ceil_to_int64 (double_minus (hal_device_property_get_double d key) (atof right_side)) of
                   None \<Rightarrow> Inl Bad_Conversion
                 | Some r \<Rightarrow> Inr (Some r))
            | _ \<Rightarrow> Inr None))"

definition match_compare :: "(int \<Rightarrow> bool) \<Rightarrow> hal_device \<Rightarrow> string \<Rightarrow> string \<Rightarrow> memory_error + bool" where
  "match_compare test d key v =
     err_bind (match_compare_property d key v) (\<lambda>res. Inr (case res of None \<Rightarrow> False | Some r \<Rightarrow> test r))"

definition is_type :: "hal_device \<Rightarrow> string \<Rightarrow> hal_property_type \<Rightarrow> bool" where
  "is_type d key type \<longleftrightarrow> hal_device_property_get_type d key = type"

text \<open>The plain types: string, integers, boolean, floating point, existence.\<close>

definition match_value :: "match_type \<Rightarrow> hal_device \<Rightarrow> string \<Rightarrow> string \<Rightarrow> memory_error + bool" where
  "match_value type d key v =
     (case type of
        MATCH_STRING \<Rightarrow>
          if \<not> is_type d key TYPE_STRING then Inr False
          else err_bind (str_of d key) (\<lambda>s. Inr (strcmp s v = 0))
      | MATCH_INT \<Rightarrow>
          Inr (is_type d key TYPE_INT32 \<and>
               hal_device_property_get_int d key = word_of_int (wrap32 (strtoll v)))
      | MATCH_UINT64 \<Rightarrow>
          Inr (is_type d key TYPE_UINT64 \<and> hal_device_property_get_uint64 d key = word_of_int (strtoll v))
      | MATCH_BOOL \<Rightarrow>
          if v = ''false'' then Inr (is_type d key TYPE_BOOLEAN \<and> \<not> hal_device_property_get_bool d key)
          else if v = ''true'' then Inr (is_type d key TYPE_BOOLEAN \<and> hal_device_property_get_bool d key)
          else Inr False
      | MATCH_DOUBLE \<Rightarrow>
          Inr (is_type d key TYPE_DOUBLE \<and> double_eq (hal_device_property_get_double d key) (atof v))
      | MATCH_EXISTS \<Rightarrow> Inr ((v \<noteq> ''false'') = hal_device_has_property d key)
      | _ \<Rightarrow> Inr False)"

text \<open>Tests of the form of a string property, which the value may negate.\<close>

definition match_form :: "(string \<Rightarrow> bool) \<Rightarrow> hal_device \<Rightarrow> string \<Rightarrow> string \<Rightarrow> memory_error + bool" where
  "match_form test d key v =
     (if \<not> is_type d key TYPE_STRING then Inr False
      else err_bind (str_of d key) (\<lambda>s. Inr ((v \<noteq> ''false'') = test s)))"

definition is_ascii :: "string \<Rightarrow> bool" where
  "is_ascii s \<longleftrightarrow> (\<forall>c \<in> set s. (of_char c :: nat) \<le> 0x7f)"

definition g_path_is_absolute :: "string \<Rightarrow> bool" where
  "g_path_is_absolute s = (case s of [] \<Rightarrow> False | c # _ \<Rightarrow> c = CHR ''/'')"

text \<open>Containment in a string or in a string list.\<close>

definition contains_in :: "hal_device \<Rightarrow> string \<Rightarrow> string \<Rightarrow> bool" where
  "contains_in d key v =
     (if is_type d key TYPE_STRING
      then (case hal_device_property_get_string d key of Some haystack \<Rightarrow> strstr haystack v | None \<Rightarrow> False)
      else if is_type d key TYPE_STRLIST then strlist_loop_contains (hal_device_property_get_strlist d key) v
      else False)"

definition match_contains :: "bool \<Rightarrow> hal_device \<Rightarrow> string \<Rightarrow> string \<Rightarrow> bool" where
  "match_contains negate d key v =
     (if hal_device_has_property d key
      then (if is_type d key TYPE_STRING \<or> is_type d key TYPE_STRLIST
            then contains_in d key v \<noteq> negate
            else False)
      else negate)"

definition match_outof :: "(string \<Rightarrow> string \<Rightarrow> bool) \<Rightarrow> hal_device \<Rightarrow> string \<Rightarrow> string \<Rightarrow> bool" where
  "match_outof test d key v =
     (if hal_device_has_property d key \<and> is_type d key TYPE_STRING
      then (case hal_device_property_get_string d key of
              None \<Rightarrow> False
            | Some haystack \<Rightarrow> list_ex (test haystack) (g_strsplit v (CHR '';'') 0))
      else False)"

definition match_int_outof :: "hal_device \<Rightarrow> string \<Rightarrow> string \<Rightarrow> bool" where
  "match_int_outof d key v =
     (if hal_device_has_property d key \<and> is_type d key TYPE_INT32
      then list_ex (\<lambda>s. sint (hal_device_property_get_int d key) = strtoll s) (g_strsplit v (CHR '';'') 0)
      else False)"

fun siblings_contain :: "heap \<Rightarrow> nat \<Rightarrow> string \<Rightarrow> string \<Rightarrow> nat list \<Rightarrow> bool" where
  "siblings_contain h dev key v [] = False"
| "siblings_contain h dev key v (sib # sibs) =
     (if sib = dev then siblings_contain h dev key v sibs
      else if contains_in (h sib) key v then True
      else siblings_contain h dev key v sibs)"

definition match_sibling_contains ::
    "(string \<Rightarrow> nat) \<Rightarrow> world \<Rightarrow> nat \<Rightarrow> string \<Rightarrow> string \<Rightarrow> memory_error + bool" where
  "match_sibling_contains H w dev key v =
     (case hal_device_property_get_string (w_heap w dev) ''info.parent'' of
        None \<Rightarrow> Inr False
      | Some parent \<Rightarrow>
          err_bind (hal_device_store_match_multiple_key_value_string H (w_heap w) ''info.parent'' parent (w_gdl w))
            (\<lambda>siblings. Inr (siblings_contain (w_heap w) dev key v siblings)))"

definition match_contains_ncase :: "glib \<Rightarrow> hal_device \<Rightarrow> string \<Rightarrow> string \<Rightarrow> memory_error + bool" where
  "match_contains_ncase G d key v =
     (if is_type d key TYPE_STRING
      then err_bind (str_of d key) (\<lambda>s. Inr (strstr (g_utf8_strdown G s) (g_utf8_strdown G v)))
      else if is_type d key TYPE_STRLIST
      then Inr (list_ex (\<lambda>s. strcasecmp_eq s v) (hal_device_property_get_strlist d key))
      else Inr False)"

text \<open>Tests of the start or the end of a string, with or without regard to case.\<close>

definition match_affix :: "(string \<Rightarrow> string \<Rightarrow> bool) \<Rightarrow> hal_device \<Rightarrow> string \<Rightarrow> string \<Rightarrow> bool" where
  "match_affix test d key v =
     (if is_type d key TYPE_STRING
      then (case hal_device_property_get_string d key of None \<Rightarrow> False | Some haystack \<Rightarrow> test v haystack)
      else False)"

definition match_affix_ncase ::
    "glib \<Rightarrow> (string \<Rightarrow> string \<Rightarrow> bool) \<Rightarrow> hal_device \<Rightarrow> string \<Rightarrow> string \<Rightarrow> memory_error + bool" where
  "match_affix_ncase G test d key v =
     (if is_type d key TYPE_STRING
      then err_bind (str_of d key) (\<lambda>s. Inr (test (g_utf8_strdown G v) (g_utf8_strdown G s)))
      else Inr False)"

definition match_dispatch ::
    "glib \<Rightarrow> (string \<Rightarrow> nat) \<Rightarrow> world \<Rightarrow> nat \<Rightarrow> match_type \<Rightarrow> string \<Rightarrow> string \<Rightarrow> memory_error + bool" where
  "match_dispatch G H w dev type key v =
     (let d = w_heap w dev
      in case type of
           MATCH_EMPTY \<Rightarrow> match_form (\<lambda>s. s = []) d key v
         | MATCH_ISASCII \<Rightarrow> match_form is_ascii d key v
         | MATCH_IS_ABS_PATH \<Rightarrow> match_form g_path_is_absolute d key v
         | MATCH_CONTAINS \<Rightarrow> Inr (match_contains False d key v)
         | MATCH_CONTAINS_NOT \<Rightarrow> Inr (match_contains True d key v)
         | MATCH_CONTAINS_OUTOF \<Rightarrow> Inr (match_outof strstr d key v)
         | MATCH_PREFIX_OUTOF \<Rightarrow> Inr (match_outof (\<lambda>s p. prefix p s) d key v)
         | MATCH_STRING_OUTOF \<Rightarrow> Inr (match_outof (\<lambda>s p. strcmp s p = 0) d key v)
         | MATCH_INT_OUTOF \<Rightarrow> Inr (match_int_outof d key v)
         | MATCH_SIBLING_CONTAINS \<Rightarrow> match_sibling_contains H w dev key v
         | MATCH_CONTAINS_NCASE \<Rightarrow> match_contains_ncase G d key v
         | MATCH_PREFIX \<Rightarrow> Inr (match_affix prefix d key v)
         | MATCH_PREFIX_NCASE \<Rightarrow> match_affix_ncase G prefix d key v
         | MATCH_SUFFIX \<Rightarrow> Inr (match_affix suffix d key v)
         | MATCH_SUFFIX_NCASE \<Rightarrow> match_affix_ncase G suffix d key v
         | MATCH_COMPARE_LT \<Rightarrow> match_compare (\<lambda>r. r < 0) d key v
         | MATCH_COMPARE_LE \<Rightarrow> match_compare (\<lambda>r. r \<le> 0) d key v
         | MATCH_COMPARE_GT \<Rightarrow> match_compare (\<lambda>r. r > 0) d key v
         | MATCH_COMPARE_GE \<Rightarrow> match_compare (\<lambda>r. r \<ge> 0) d key v
         | MATCH_COMPARE_NE \<Rightarrow> match_compare (\<lambda>r. r \<noteq> 0) d key v
         | _ \<Rightarrow> match_value type d key v)"

definition handle_match ::
    "glib \<Rightarrow> (string \<Rightarrow> nat) \<Rightarrow> rule \<Rightarrow> nat \<Rightarrow> world \<Rightarrow> memory_error + bool" where
  "handle_match G H r dev w =
     (let d_udi = hal_device_get_udi (w_heap w dev)
      in err_bind (resolve_udiprop_path w (rkey r) d_udi) (\<lambda>path.
           case path of
             None \<Rightarrow> Inr False
           | Some (u, prop) \<Rightarrow>
               if strcmp u d_udi \<noteq> 0
               then (case world_find u w of
                       None \<Rightarrow> Inr False
                     | Some x \<Rightarrow> match_dispatch G H w x (type_match r) prop (rvalue r))
               else match_dispatch G H w dev (type_match r) prop (rvalue r)))"

section \<open>Merging\<close>

text \<open>What a run depends on: the C library, the hash function, the compiled cache, the bytes an
  uninitialised buffer on the stack happens to hold, what is read through a pointer into the buffer
  \<open>resolve_scratch\<close> after its block has ended (\<open>None\<close> when the access is not survived), and the
  command lines \<open>hald_runner_run\<close> can hand over to the runner.\<close>

record rule_env =
  re_glib :: glib
  re_hash :: "string \<Rightarrow> nat"
  re_cache :: rule_cache
  re_junk :: string
  re_scratch :: "string \<Rightarrow> string option"
  re_starts :: "string \<Rightarrow> bool"

text \<open>The device and property a \<open>copy_property\<close> value names.\<close>

definition copy_source :: "nat \<Rightarrow> string \<Rightarrow> world \<Rightarrow> memory_error + (nat \<times> string) option" where
  "copy_source dev v w =
     err_bind (resolve_udiprop_path w v (hal_device_get_udi (w_heap w dev))) (\<lambda>path.
       case path of
         None \<Rightarrow> Inr None
       | Some (u, prop) \<Rightarrow>
           (case world_find u w of None \<Rightarrow> Inr None | Some x \<Rightarrow> Inr (Some (x, prop))))"

definition merge_set :: "rule_env \<Rightarrow> rule \<Rightarrow> nat \<Rightarrow> string \<Rightarrow> world \<Rightarrow> memory_error + world" where
  "merge_set E r dev key w =
     (let H = re_hash E; v = rvalue r
      in case type_merge r of
           MERGE_STRING \<Rightarrow> world_call H dev (hal_device_property_set_string (re_glib E) key (Some v)) w
         | MERGE_STRLIST \<Rightarrow>
             if is_type (w_heap w dev) key TYPE_STRLIST \<or> is_type (w_heap w dev) key TYPE_INVALID
             then err_bind (world_call H dev (hal_device_property_remove key) w)
                    (world_call H dev (hal_device_property_strlist_append key v False))
             else Inr w
         | MERGE_INT32 \<Rightarrow> world_call H dev (hal_device_property_set_int key (word_of_int (strtoll v))) w
         | MERGE_UINT64 \<Rightarrow> world_call H dev (hal_device_property_set_uint64 key (strtoull v)) w
         | MERGE_BOOLEAN \<Rightarrow> world_call H dev (hal_device_property_set_bool key (v = ''true'')) w
         | MERGE_DOUBLE \<Rightarrow> world_call H dev (hal_device_property_set_double key (atof v)) w
         | MERGE_COPY_PROPERTY \<Rightarrow>
             err_bind (copy_source dev v w) (\<lambda>src.
               case src of
                 None \<Rightarrow> Inr w
               | Some (x, prop) \<Rightarrow>
                   world_call H dev (hal_device_copy_property (re_glib E) (w_heap w x) prop key) w)
         | _ \<Rightarrow> Inr w)"

text \<open>
  \<open>strncpy\<close> and \<open>strncat\<close> of two strings in a buffer: \<open>strncat\<close> is given the free space of the buffer
  without the terminator, so it stays inside only when both strings fit together with it.
\<close>

definition path_concat :: "string \<Rightarrow> string \<Rightarrow> memory_error + string" where
  "path_concat s t = (if length s + length t < HAL_PATH_MAX then Inr (s @ t) else Inl Buffer_Overrun)"

definition concat_buf :: "rule_env \<Rightarrow> rule \<Rightarrow> nat \<Rightarrow> world \<Rightarrow> memory_error + string" where
  "concat_buf E r dev w =
     (case type_merge r of
        MERGE_STRING \<Rightarrow> Inr (rvalue r)
      | MERGE_COPY_PROPERTY \<Rightarrow>
          err_bind (copy_source dev (rvalue r) w) (\<lambda>src.
            case src of
              None \<Rightarrow> Inl Uninitialised
            | Some (x, prop) \<Rightarrow>
                (case c_string (snd (hal_device_property_get_as_string (w_heap w x) prop (re_junk E))) of
                   None \<Rightarrow> Inl Buffer_Overrun
                 | Some s \<Rightarrow> Inr s))
      | _ \<Rightarrow> Inl Uninitialised)"

definition merge_concat :: "rule_env \<Rightarrow> rule \<Rightarrow> nat \<Rightarrow> string \<Rightarrow> world \<Rightarrow> memory_error + (bool \<times> world)" where
  "merge_concat E r dev key w =
     (let H = re_hash E; d = w_heap w dev
      in if \<not> is_type d key TYPE_STRING \<and> \<not> is_type d key TYPE_STRLIST \<and> \<not> is_type d key TYPE_INVALID
         then Inr (False, w)
         else if type_merge r = MERGE_STRLIST
         then err_bind
                (if rtype r = RULE_APPEND
                 then world_call H dev (hal_device_property_strlist_append key (rvalue r) False) w
                 else world_call H dev (hal_device_property_strlist_prepend key (rvalue r)) w)
                (\<lambda>w. Inr (True, w))
         else err_bind (concat_buf E r dev w) (\<lambda>buf.
              err_bind (case hal_device_property_get_string d key of
                          Some existing \<Rightarrow>
                            if rtype r = RULE_APPEND then path_concat existing buf else path_concat buf existing
                        | None \<Rightarrow> path_concat buf []) (\<lambda>buf2.
              err_bind (world_call H dev (hal_device_property_set_string (re_glib E) key (Some buf2)) w)
                (\<lambda>w. Inr (True, w)))))"

definition merge_addset :: "rule_env \<Rightarrow> rule \<Rightarrow> nat \<Rightarrow> string \<Rightarrow> world \<Rightarrow> memory_error + (bool \<times> world)" where
  "merge_addset E r dev key w =
     (let d = w_heap w dev
      in if \<not> is_type d key TYPE_STRLIST \<and> \<not> is_type d key TYPE_INVALID then Inr (False, w)
         else if \<not> hal_device_has_property d key \<or> \<not> hal_device_property_strlist_contains d key (rvalue r)
         then err_bind (world_call (re_hash E) dev (hal_device_property_strlist_append key (rvalue r) False) w)
                (\<lambda>w. Inr (True, w))
         else Inr (True, w))"

definition merge_remove :: "rule_env \<Rightarrow> rule \<Rightarrow> nat \<Rightarrow> string \<Rightarrow> world \<Rightarrow> memory_error + world" where
  "merge_remove E r dev key w =
     (if type_merge r = MERGE_STRLIST
      then world_call (re_hash E) dev (hal_device_property_strlist_remove key (rvalue r)) w
      else if rvalue r = [] then world_call (re_hash E) dev (hal_device_property_remove key) w
      else Inr w)"

text \<open>
  \<open>hal_device_new\<close>, and the new device a \<open>spawn\<close> rule creates.
\<close>

definition hal_device_new :: "world \<Rightarrow> nat \<times> world" where
  "hal_device_new w =
     (case hal_device_init (w_counter w) of
        (d, counter) \<Rightarrow>
          (w_next w, w\<lparr>w_heap := (w_heap w)(w_next w := d), w_next := Suc (w_next w), w_counter := counter\<rparr>))"

definition spawn_create :: "rule_env \<Rightarrow> string \<Rightarrow> nat \<Rightarrow> world \<Rightarrow> memory_error + (nat \<times> world)" where
  "spawn_create E key dev w =
     (let H = re_hash E; G = re_glib E; parent = hal_device_get_udi (w_heap w dev)
      in case hal_device_new w of
           (x, w) \<Rightarrow>
             err_bind (world_call H x (hal_device_property_set_string G ''info.subsystem'' (Some ''unknown'')) w) (\<lambda>w.
             err_bind (world_call H x (hal_device_property_set_string G ''info.parent'' (Some parent)) w) (\<lambda>w.
             err_bind (world_call H x (hal_device_set_udi G key) w) (\<lambda>w.
             err_bind (hal_device_store_add H x (w_heap w) (w_tdl w)) (\<lambda>t.
             Inr (x, w\<lparr>w_tdl := t\<rparr>))))))"

text \<open>Moving a device whose callouts are done to the global device list.\<close>

definition spawned_device_callouts_add_done ::
    "(string \<Rightarrow> nat) \<Rightarrow> nat \<Rightarrow> world \<Rightarrow> memory_error + world" where
  "spawned_device_callouts_add_done H x w =
     err_bind (hal_device_store_remove H x (w_heap w) (w_tdl w)) (\<lambda>(_, t).
     err_bind (hal_device_store_add H x (w_heap w) (w_gdl w)) (\<lambda>g.
     Inr (w\<lparr>w_tdl := t, w_gdl := g\<rparr>)))"

text \<open>
  \<open>hal_util_callout_device_add\<close> of a spawned device. Without callouts the device moves to the global
  device list at once, during the walk. Otherwise the first program is handed to the runner and the
  device waits in the temporary list; it is recorded in \<open>w_callouts\<close>. A program that the runner does
  not take reports its failure at once, before \<open>callout_do_next\<close> has advanced to the next program, and
  is tried again without end.
\<close>

definition spawned_callouts_add :: "rule_env \<Rightarrow> nat \<Rightarrow> world \<Rightarrow> memory_error + world" where
  "spawned_callouts_add E x w =
     (case hal_device_property_dup_strlist_as_strv (w_heap w x) ''info.callouts.add'' of
        None \<Rightarrow> spawned_device_callouts_add_done (re_hash E) x w
      | Some [] \<Rightarrow> spawned_device_callouts_add_done (re_hash E) x w
      | Some (program # _) \<Rightarrow>
          if re_starts E program then Inr (w\<lparr>w_callouts := w_callouts w @ [x]\<rparr>) else Inl Out_Of_Fuel)"

text \<open>The spawned device: \<open>search\<close> is \<open>di_search_and_merge\<close> for the rules after the probing
  (\<open>False\<close>) and the policy rules (\<open>True\<close>).\<close>

definition spawn_device ::
    "rule_env \<Rightarrow> (nat \<Rightarrow> bool \<Rightarrow> world \<Rightarrow> memory_error + world) \<Rightarrow> string \<Rightarrow> nat \<Rightarrow> world \<Rightarrow> memory_error + world" where
  "spawn_device E search key dev w =
     err_bind (spawn_create E key dev w) (\<lambda>(x, w).
     err_bind (search x False w) (\<lambda>w.
     err_bind (search x True w) (spawned_callouts_add E x)))"

text \<open>The target of a rule: its key may be a path to a property of another device. The name of the
  property is then a pointer into a buffer whose block has ended when the property is changed.\<close>

definition merge_key :: "rule_env \<Rightarrow> rule \<Rightarrow> string \<Rightarrow> nat \<Rightarrow> memory_error + (nat \<times> string) option" where
  "merge_key E r key d =
     (if CHR '':'' \<notin> set (rkey r) then Inr (Some (d, key))
      else (case re_scratch E key of None \<Rightarrow> Inl Use_After_Free | Some k \<Rightarrow> Inr (Some (d, k))))"

definition merge_target :: "rule_env \<Rightarrow> rule \<Rightarrow> nat \<Rightarrow> world \<Rightarrow> memory_error + (nat \<times> string) option" where
  "merge_target E r dev w =
     (if rtype r \<in> {RULE_MERGE, RULE_APPEND, RULE_PREPEND, RULE_ADDSET}
      then err_bind (resolve_udiprop_path w (rkey r) (hal_device_get_udi (w_heap w dev))) (\<lambda>path.
             case path of
               None \<Rightarrow> Inr None
             | Some (u, key) \<Rightarrow>
                 if strcmp (hal_device_get_udi (w_heap w dev)) u \<noteq> 0
                 then (case world_find u w of None \<Rightarrow> Inr None | Some x \<Rightarrow> merge_key E r key x)
                 else merge_key E r key dev)
      else Inr (Some (dev, rkey r)))"

definition handle_merge ::
    "rule_env \<Rightarrow> (nat \<Rightarrow> bool \<Rightarrow> world \<Rightarrow> memory_error + world) \<Rightarrow> rule \<Rightarrow> nat \<Rightarrow> world \<Rightarrow>
     memory_error + (bool \<times> world)" where
  "handle_merge E search r dev w =
     err_bind (merge_target E r dev w) (\<lambda>target.
       case target of
         None \<Rightarrow> Inr (False, w)
       | Some (d, key) \<Rightarrow>
           (case rtype r of
              RULE_MERGE \<Rightarrow> err_bind (merge_set E r d key w) (\<lambda>w. Inr (True, w))
            | RULE_APPEND \<Rightarrow> merge_concat E r d key w
            | RULE_PREPEND \<Rightarrow> merge_concat E r d key w
            | RULE_ADDSET \<Rightarrow> merge_addset E r d key w
            | RULE_REMOVE \<Rightarrow> err_bind (merge_remove E r d key w) (\<lambda>w. Inr (True, w))
            | RULE_SPAWN \<Rightarrow>
                (case world_find key w of
                   Some _ \<Rightarrow> Inr (True, w)
                 | None \<Rightarrow> err_bind (spawn_device E search key d w) (\<lambda>w. Inr (True, w)))
            | _ \<Rightarrow> Inr (False, w)))"

section \<open>Walking the rules\<close>

definition in_section :: "rule_cache \<Rightarrow> nat \<Rightarrow> nat \<Rightarrow> bool" where
  "in_section C offset nxt \<longleftrightarrow>
     (fdi_rules_preprobe C \<le> offset \<and> nxt < fdi_rules_information C) \<or>
     (fdi_rules_information C \<le> offset \<and> nxt < fdi_rules_policy C) \<or>
     (fdi_rules_policy C \<le> offset \<and> nxt < all_rules_size C)"

definition di_next :: "rule_cache \<Rightarrow> nat \<Rightarrow> rule \<Rightarrow> nat option" where
  "di_next C offset r =
     (let nxt = offset + rule_size r in if in_section C offset nxt then Some nxt else None)"

definition di_jump :: "rule_cache \<Rightarrow> nat \<Rightarrow> rule \<Rightarrow> nat option" where
  "di_jump C offset r =
     (let nxt = jump_position r
      in if nxt = 0 then None else if in_section C offset nxt then Some nxt else None)"

definition section_start :: "rule_cache \<Rightarrow> bool \<Rightarrow> nat option" where
  "section_start C policy =
     (if policy
      then (if all_rules_size C > fdi_rules_policy C then Some (fdi_rules_policy C) else None)
      else (if fdi_rules_policy C > fdi_rules_information C then Some (fdi_rules_information C) else None))"

fun rules_match_and_merge_device ::
    "nat \<Rightarrow> rule_env \<Rightarrow> nat option \<Rightarrow> nat \<Rightarrow> world \<Rightarrow> memory_error + world" where
  "rules_match_and_merge_device 0 E off dev w = Inl Out_Of_Fuel"
| "rules_match_and_merge_device (Suc n) E None dev w = Inr w"
| "rules_match_and_merge_device (Suc n) E (Some off) dev w =
     (case map_of (rule_at (re_cache E)) off of
        None \<Rightarrow> Inl Buffer_Overrun
      | Some r \<Rightarrow>
          (case rtype r of
             RULE_MATCH \<Rightarrow>
               err_bind (handle_match (re_glib E) (re_hash E) r dev w) (\<lambda>m.
                 if m then rules_match_and_merge_device n E (di_next (re_cache E) off r) dev w
                 else (case di_jump (re_cache E) off r of
                         None \<Rightarrow> Inl Fatal
                       | Some off' \<Rightarrow> rules_match_and_merge_device n E (Some off') dev w))
           | RULE_EOF \<Rightarrow> rules_match_and_merge_device n E (di_next (re_cache E) off r) dev w
           | RULE_UNKNOWN \<Rightarrow>
               (case di_jump (re_cache E) off r of
                  None \<Rightarrow> Inr w
                | Some off' \<Rightarrow>
                    (case map_of (rule_at (re_cache E)) off' of
                       None \<Rightarrow> Inl Buffer_Overrun
                     | Some r' \<Rightarrow> rules_match_and_merge_device n E (di_next (re_cache E) off' r') dev w))
           | _ \<Rightarrow>
               err_bind
                 (handle_merge E
                    (\<lambda>x policy w. rules_match_and_merge_device n E (section_start (re_cache E) policy) x w) r dev w)
                 (\<lambda>(_, w). rules_match_and_merge_device n E (di_next (re_cache E) off r) dev w)))"

datatype device_info_type = DEVICE_INFO_TYPE_PREPROBE | DEVICE_INFO_TYPE_INFORMATION | DEVICE_INFO_TYPE_POLICY

definition di_search_and_merge ::
    "nat \<Rightarrow> rule_env \<Rightarrow> nat \<Rightarrow> device_info_type \<Rightarrow> world \<Rightarrow> memory_error + world" where
  "di_search_and_merge fuel E dev type w =
     (let C = re_cache E
      in rules_match_and_merge_device fuel E
           (case type of
              DEVICE_INFO_TYPE_PREPROBE \<Rightarrow>
                (if fdi_rules_information C > fdi_rules_preprobe C then Some (fdi_rules_preprobe C) else None)
            | DEVICE_INFO_TYPE_INFORMATION \<Rightarrow> section_start C False
            | DEVICE_INFO_TYPE_POLICY \<Rightarrow> section_start C True) dev w)"

end
