(* ===== verification/Hal_Cache.thy ===== *)
theory Hal_Cache
  imports Hal_Rules
begin

text \<open>
  The compiler of the device information files, \<open>hald/create_cache.c\<close>, and the view of its output
  that \<open>hald/mmap_cache.c\<close> maps into the daemon.

  The cache file is a list of bytes with a file position; writing past the end fills the gap with zero
  bytes, as POSIX files do. Integers have the layout of the LP64 little-endian ABI: \<open>struct rule\<close> takes
  48 bytes with an alignment of 8, its key follows it, then its value, each padded to 4 bytes.
  Expat is not part of the program: a file is the sequence of callbacks expat makes for it, and
  whether it reports success at the end. A callback can stop the parser; expat then makes no further
  callback, except for the end tag of an empty element whose start tag was refused. \<open>DIE\<close> is the error
  \<open>Fatal\<close>.
\<close>

section \<open>Files\<close>

record cache_file =
  f_bytes :: string
  f_pos :: nat

definition zeros :: "nat \<Rightarrow> string" where
  "zeros n = replicate n (CHR 0x00)"

definition write_at :: "string \<Rightarrow> nat \<Rightarrow> string \<Rightarrow> string" where
  "write_at b off data =
     (if data = [] then b
      else take off b @ zeros (off - length b) @ data @ drop (off + length data) b)"

definition file_write :: "string \<Rightarrow> cache_file \<Rightarrow> cache_file" where
  "file_write data f =
     \<lparr>f_bytes = write_at (f_bytes f) (f_pos f) data, f_pos = f_pos f + length data\<rparr>"

definition seek_set :: "nat \<Rightarrow> cache_file \<Rightarrow> cache_file" where
  "seek_set off f = f\<lparr>f_pos := off\<rparr>"

definition seek_end :: "cache_file \<Rightarrow> cache_file" where
  "seek_end f = f\<lparr>f_pos := length (f_bytes f)\<rparr>"

definition ROUND :: "nat \<Rightarrow> nat \<Rightarrow> nat" where
  "ROUND len align = (len + align - 1) div align * align"

definition ROUND32 :: "nat \<Rightarrow> nat" where
  "ROUND32 len = ROUND len 4"

definition RULES_ROUND :: "nat \<Rightarrow> nat" where
  "RULES_ROUND off = ROUND off 8"

definition pad32_write :: "nat \<Rightarrow> string \<Rightarrow> cache_file \<Rightarrow> cache_file" where
  "pad32_write offset data f =
     (let f = file_write data (seek_set offset f)
      in if (offset + length data) mod 4 \<noteq> 0
         then file_write (zeros (4 - (offset + length data) mod 4)) f else f)"

section \<open>Structures in memory and in the file\<close>

fun le_bytes :: "nat \<Rightarrow> nat \<Rightarrow> string" where
  "le_bytes 0 v = []"
| "le_bytes (Suc n) v = char_of (v mod 256) # le_bytes n (v div 256)"

fun le_nat :: "string \<Rightarrow> nat" where
  "le_nat [] = 0"
| "le_nat (c # cs) = of_char c + 256 * le_nat cs"

definition rule_types :: "rule_type list" where
  "rule_types = [RULE_UNKNOWN, RULE_MATCH, RULE_MERGE, RULE_APPEND, RULE_PREPEND, RULE_REMOVE, RULE_CLEAR,
     RULE_SPAWN, RULE_EOF, RULE_ADDSET]"

definition merge_types :: "merge_type list" where
  "merge_types = [MERGE_UNKNOWN, MERGE_STRING, MERGE_BOOLEAN, MERGE_INT32, MERGE_UINT64, MERGE_DOUBLE,
     MERGE_COPY_PROPERTY, MERGE_STRLIST, MERGE_REMOVE]"

definition match_types :: "match_type list" where
  "match_types = [MATCH_UNKNOWN, MATCH_STRING, MATCH_INT, MATCH_UINT64, MATCH_BOOL, MATCH_EXISTS, MATCH_EMPTY,
     MATCH_ISASCII, MATCH_IS_ABS_PATH, MATCH_CONTAINS, MATCH_CONTAINS_NCASE, MATCH_PREFIX,
     MATCH_PREFIX_NCASE, MATCH_SUFFIX, MATCH_SUFFIX_NCASE, MATCH_COMPARE_LT, MATCH_COMPARE_LE,
     MATCH_COMPARE_GT, MATCH_COMPARE_GE, MATCH_SIBLING_CONTAINS, MATCH_COMPARE_NE, MATCH_CONTAINS_NOT,
     MATCH_DOUBLE, MATCH_CONTAINS_OUTOF, MATCH_INT_OUTOF, MATCH_PREFIX_OUTOF, MATCH_STRING_OUTOF]"

fun index_of :: "'a \<Rightarrow> 'a list \<Rightarrow> nat" where
  "index_of x [] = 0"
| "index_of x (y # ys) = (if x = y then 0 else Suc (index_of x ys))"

definition enum_value :: "'a list \<Rightarrow> nat \<Rightarrow> 'a" where
  "enum_value vs n = (if n < length vs then vs ! n else hd vs)"

record rule_struct =
  sr_rule_size :: nat
  sr_jump_position :: nat
  sr_rtype :: rule_type
  sr_type_match :: match_type
  sr_type_merge :: merge_type
  sr_value_offset :: nat
  sr_value_len :: nat
  sr_key_len :: nat

definition sizeof_rule :: nat where
  "sizeof_rule = 48"

definition sizeof_header :: nat where
  "sizeof_header = 20"

definition offsetof_jump_position :: nat where
  "offsetof_jump_position = 8"

definition offsetof_empty_string :: nat where
  "offsetof_empty_string = 16"

definition encode_rule :: "rule_struct \<Rightarrow> string" where
  "encode_rule r =
     le_bytes 8 (sr_rule_size r) @ le_bytes 4 (sr_jump_position r) @
     le_bytes 4 (index_of (sr_rtype r) rule_types) @ le_bytes 4 (index_of (sr_type_match r) match_types) @
     le_bytes 4 (index_of (sr_type_merge r) merge_types) @ le_bytes 4 (sr_value_offset r) @ zeros 4 @
     le_bytes 8 (sr_value_len r) @ le_bytes 8 (sr_key_len r)"

definition init_rule_struct :: rule_struct where
  "init_rule_struct =
     \<lparr>sr_rule_size = sizeof_rule, sr_jump_position = 0, sr_rtype = RULE_UNKNOWN, sr_type_match = MATCH_UNKNOWN,
      sr_type_merge = MERGE_UNKNOWN, sr_value_offset = offsetof_empty_string, sr_value_len = 0, sr_key_len = 0\<rparr>"

definition HAL_MAX_INDENT_DEPTH :: nat where
  "HAL_MAX_INDENT_DEPTH = 64"

record fdi_context =
  depth :: nat
  match_at_depth :: "nat list"
  ctx_rule :: rule_struct
  position :: nat
  cache_fd :: cache_file

section \<open>Names of rules and types\<close>

definition get_rule_type :: "string \<Rightarrow> rule_type" where
  "get_rule_type str =
     (if str = ''match'' then RULE_MATCH else if str = ''merge'' then RULE_MERGE
      else if str = ''append'' then RULE_APPEND else if str = ''prepend'' then RULE_PREPEND
      else if str = ''addset'' then RULE_ADDSET else if str = ''remove'' then RULE_REMOVE
      else if str = ''clear'' then RULE_CLEAR else if str = ''spawn'' then RULE_SPAWN
      else RULE_UNKNOWN)"

definition get_match_type :: "string \<Rightarrow> match_type" where
  "get_match_type str =
     (if str = ''string'' then MATCH_STRING else if str = ''int'' then MATCH_INT
      else if str = ''uint64'' then MATCH_UINT64 else if str = ''bool'' then MATCH_BOOL
      else if str = ''exists'' then MATCH_EXISTS else if str = ''empty'' then MATCH_EMPTY
      else if str = ''is_ascii'' then MATCH_ISASCII else if str = ''is_absolute_path'' then MATCH_IS_ABS_PATH
      else if str = ''sibling_contains'' then MATCH_SIBLING_CONTAINS
      else if str = ''contains'' then MATCH_CONTAINS else if str = ''contains_ncase'' then MATCH_CONTAINS_NCASE
      else if str = ''prefix'' then MATCH_PREFIX else if str = ''prefix_ncase'' then MATCH_PREFIX_NCASE
      else if str = ''suffix'' then MATCH_SUFFIX else if str = ''suffix_ncase'' then MATCH_SUFFIX_NCASE
      else if str = ''compare_lt'' then MATCH_COMPARE_LT else if str = ''compare_le'' then MATCH_COMPARE_LE
      else if str = ''compare_gt'' then MATCH_COMPARE_GT else if str = ''compare_ge'' then MATCH_COMPARE_GE
      else if str = ''compare_ne'' then MATCH_COMPARE_NE else if str = ''contains_not'' then MATCH_CONTAINS_NOT
      else if str = ''contains_outof'' then MATCH_CONTAINS_OUTOF else if str = ''int_outof'' then MATCH_INT_OUTOF
      else if str = ''prefix_outof'' then MATCH_PREFIX_OUTOF else if str = ''string_outof'' then MATCH_STRING_OUTOF
      else MATCH_UNKNOWN)"

definition get_merge_type :: "string \<Rightarrow> merge_type" where
  "get_merge_type str =
     (if str = ''string'' then MERGE_STRING else if str = ''bool'' then MERGE_BOOLEAN
      else if str = ''int'' then MERGE_INT32 else if str = ''uint64'' then MERGE_UINT64
      else if str = ''double'' then MERGE_DOUBLE else if str = ''strlist'' then MERGE_STRLIST
      else if str = ''copy_property'' then MERGE_COPY_PROPERTY else if str = ''remove'' then MERGE_REMOVE
      else MERGE_UNKNOWN)"

section \<open>Storing a rule\<close>

definition store_key :: "string \<Rightarrow> fdi_context \<Rightarrow> memory_error + fdi_context" where
  "store_key key ctx =
     (if sr_rtype (ctx_rule ctx) = RULE_UNKNOWN then Inl Fatal
      else if key = [] then Inl Fatal
      else Inr (ctx\<lparr>ctx_rule := (ctx_rule ctx)\<lparr>sr_key_len := length key + 1\<rparr>,
                    cache_fd := pad32_write (position ctx + sizeof_rule) (key @ [CHR 0x00]) (cache_fd ctx)\<rparr>))"

definition store_value :: "string \<Rightarrow> fdi_context \<Rightarrow> memory_error + fdi_context" where
  "store_value v ctx =
     (let r = ctx_rule ctx
      in if sr_rtype r = RULE_UNKNOWN then Inl Fatal
         else if sr_key_len r < 2 then Inl Fatal
         else if v = [] then Inr ctx
         else let start = position ctx + sizeof_rule + ROUND32 (sr_key_len r);
                  offset = (if sr_value_len r = 0 then start else start + (sr_value_len r - 1));
                  r' = (if sr_value_len r = 0
                        then r\<lparr>sr_value_offset := start, sr_value_len := length v + 1\<rparr>
                        else r\<lparr>sr_value_len := sr_value_len r + length v\<rparr>)
              in Inr (ctx\<lparr>ctx_rule := r',
                          cache_fd := pad32_write (offset + length v) [CHR 0x00] (pad32_write offset v (cache_fd ctx))\<rparr>))"

definition store_rule :: "fdi_context \<Rightarrow> memory_error + fdi_context" where
  "store_rule ctx =
     (let r = ctx_rule ctx
      in if sr_rtype r = RULE_UNKNOWN then Inl Fatal
         else let r' = r\<lparr>sr_rule_size :=
                    RULES_ROUND (sizeof_rule + ROUND32 (sr_key_len r) + ROUND32 (sr_value_len r))\<rparr>
              in Inr (ctx\<lparr>ctx_rule := init_rule_struct,
                          cache_fd := pad32_write (position ctx) (encode_rule r') (cache_fd ctx)\<rparr>))"

definition remember_jump_position :: "fdi_context \<Rightarrow> memory_error + fdi_context" where
  "remember_jump_position ctx =
     (if depth ctx \<ge> HAL_MAX_INDENT_DEPTH then Inl Fatal
      else Inr (ctx\<lparr>match_at_depth := (match_at_depth ctx)[depth ctx := position ctx mod 2 ^ 32],
                    depth := depth ctx + 1\<rparr>))"

definition set_jump_position :: "fdi_context \<Rightarrow> memory_error + fdi_context" where
  "set_jump_position ctx =
     (if depth ctx = 0 then Inl Fatal
      else let d = depth ctx - 1;
               fd = seek_end (cache_fd ctx);
               offset32 = RULES_ROUND (f_pos fd) mod 2 ^ 32
           in Inr (ctx\<lparr>depth := d,
                       cache_fd := pad32_write (match_at_depth ctx ! d + offsetof_jump_position)
                                     (le_bytes 4 offset32) fd\<rparr>))"

section \<open>The callbacks of the parser\<close>

text \<open>A callback returns whether the parser goes on.\<close>

type_synonym callback = "memory_error + (bool \<times> fdi_context)"

fun start_attrs :: "(string \<times> string) list \<Rightarrow> fdi_context \<Rightarrow> callback" where
  "start_attrs [] ctx = Inr (True, ctx)"
| "start_attrs ((name, v) # attrs) ctx =
     (let r = ctx_rule ctx
      in if name = ''key'' \<or> sr_rtype r = RULE_SPAWN \<and> name = ''udi''
         then (if sr_key_len r > 0 then Inr (False, ctx)
               else err_bind (store_key v ctx) (start_attrs attrs))
         else if sr_rtype r = RULE_SPAWN then start_attrs attrs ctx
         else if sr_rtype r = RULE_MATCH
         then (if sr_key_len r = 0 then Inr (False, ctx)
               else let ctx = ctx\<lparr>ctx_rule := r\<lparr>sr_type_match := get_match_type name\<rparr>\<rparr>
                    in if get_match_type name = MATCH_UNKNOWN then Inr (False, ctx)
                       else err_bind (store_value v ctx) (start_attrs attrs))
         else if name \<noteq> ''type'' then start_attrs attrs ctx
         else let ctx = ctx\<lparr>ctx_rule := r\<lparr>sr_type_merge := get_merge_type v\<rparr>\<rparr>
              in if get_merge_type v = MERGE_UNKNOWN then Inr (False, ctx)
                 else start_attrs attrs ctx)"

definition start :: "string \<Rightarrow> (string \<times> string) list \<Rightarrow> fdi_context \<Rightarrow> callback" where
  "start el attrs ctx =
     err_bind (if sr_rtype (ctx_rule ctx) \<noteq> RULE_UNKNOWN then store_rule ctx else Inr ctx) (\<lambda>ctx.
       let fd = seek_end (cache_fd ctx);
           ctx = ctx\<lparr>ctx_rule := init_rule_struct\<lparr>sr_rtype := get_rule_type el\<rparr>,
                     position := RULES_ROUND (f_pos fd), cache_fd := fd\<rparr>
       in if get_rule_type el = RULE_UNKNOWN then Inr (True, ctx)
          else err_bind (start_attrs attrs ctx) (\<lambda>(go, ctx).
                 if \<not> go then Inr (False, ctx)
                 else if sr_key_len (ctx_rule ctx) = 0 then Inr (False, ctx)
                 else if sr_rtype (ctx_rule ctx) = RULE_MATCH
                 then err_bind (remember_jump_position ctx) (\<lambda>ctx. Inr (True, ctx))
                 else Inr (True, ctx)))"

definition cdata :: "string \<Rightarrow> fdi_context \<Rightarrow> callback" where
  "cdata s ctx =
     (if sr_rtype (ctx_rule ctx) \<notin> {RULE_MERGE, RULE_PREPEND, RULE_ADDSET, RULE_APPEND, RULE_REMOVE, RULE_SPAWN}
      then Inr (True, ctx)
      else err_bind (store_value s ctx) (\<lambda>ctx. Inr (True, ctx)))"

definition end_tag :: "string \<Rightarrow> fdi_context \<Rightarrow> callback" where
  "end_tag el ctx =
     (let type = get_rule_type el
      in if type = RULE_UNKNOWN then Inr (True, ctx)
         else if type = RULE_MATCH
         then err_bind (if sr_rtype (ctx_rule ctx) = RULE_MATCH then store_rule ctx else Inr ctx) (\<lambda>ctx.
              err_bind (set_jump_position ctx) (\<lambda>ctx. Inr (True, ctx)))
         else if sr_rtype (ctx_rule ctx) \<noteq> type then Inr (False, ctx)
         else err_bind (store_rule ctx) (\<lambda>ctx. Inr (True, ctx)))"

section \<open>Files and directories\<close>

text \<open>The callbacks of expat; the flag of a start tag tells an empty element.\<close>

datatype xml_event = Start string "(string \<times> string) list" bool | Text string | End string

fun run_events :: "xml_event list \<Rightarrow> fdi_context \<Rightarrow> callback" where
  "run_events [] ctx = Inr (True, ctx)"
| "run_events (Start el attrs single # es) ctx =
     err_bind (start el attrs ctx) (\<lambda>(go, ctx).
       if go then run_events es ctx
       else if single then err_bind (end_tag el ctx) (\<lambda>(_, ctx). Inr (False, ctx))
       else Inr (False, ctx))"
| "run_events (Text s # es) ctx =
     err_bind (cdata s ctx) (\<lambda>(go, ctx). if go then run_events es ctx else Inr (False, ctx))"
| "run_events (End el # es) ctx =
     err_bind (end_tag el ctx) (\<lambda>(go, ctx). if go then run_events es ctx else Inr (False, ctx))"

text \<open>A file: its callbacks and whether it is well-formed XML; \<^const>\<open>None\<close> when it cannot be read.\<close>

type_synonym fdi_file = "(xml_event list \<times> bool) option"

definition new_context :: "cache_file \<Rightarrow> fdi_context" where
  "new_context fd =
     \<lparr>depth = 0, match_at_depth = replicate HAL_MAX_INDENT_DEPTH 0, ctx_rule = init_rule_struct, position = 0,
      cache_fd = fd\<rparr>"

definition add_eof :: "string \<Rightarrow> fdi_context \<Rightarrow> memory_error + fdi_context" where
  "add_eof filename ctx =
     (let fd = seek_end (cache_fd ctx);
          ctx = ctx\<lparr>ctx_rule := init_rule_struct\<lparr>sr_rtype := RULE_EOF\<rparr>,
                    position := RULES_ROUND (f_pos fd), cache_fd := fd\<rparr>
      in err_bind (store_key filename ctx) (\<lambda>ctx.
         err_bind (store_value [] ctx) store_rule))"

text \<open>
  The new size of the file is returned as an \<open>int\<close>, and a negative one reports an error: a file of
  2 GiB or more is a failure. The flag is whether the result is not negative.
\<close>

definition rules_add_fdi_file :: "string \<Rightarrow> fdi_file \<Rightarrow> cache_file \<Rightarrow> memory_error + (bool \<times> cache_file)" where
  "rules_add_fdi_file filename file fd =
     (case file of
        None \<Rightarrow> Inr (False, fd)
      | Some (events, wellformed) \<Rightarrow>
          err_bind (run_events events (new_context fd)) (\<lambda>(go, ctx).
            if \<not> go \<or> \<not> wellformed then Inr (False, cache_fd ctx)
            else err_bind (add_eof filename ctx) (\<lambda>ctx.
                   Inr (length (f_bytes (cache_fd ctx)) mod 2 ^ 32 < 2 ^ 31, seek_end (cache_fd ctx)))))"

text \<open>
  A directory entry, in the order the loop over the result of \<open>scandir\<close> visits them. The result of the
  search is the number of skipped files, or \<^const>\<open>None\<close> for a directory that cannot be read.
\<close>

datatype dir_node = Regular string fdi_file | Directory string "dir_node list option" | Special string

definition is_fdi_name :: "string \<Rightarrow> bool" where
  "is_fdi_name filename \<longleftrightarrow>
     length filename \<ge> 5 \<and> strcmp (drop (length filename - 4) filename) ''.fdi'' = 0"

definition file_truncate :: "nat \<Rightarrow> cache_file \<Rightarrow> cache_file" where
  "file_truncate n f = f\<lparr>f_bytes := take n (f_bytes f) @ zeros (n - length (f_bytes f))\<rparr>"

definition add_or_skip :: "string \<Rightarrow> fdi_file \<Rightarrow> cache_file \<Rightarrow> memory_error + (nat \<times> cache_file)" where
  "add_or_skip full_path file fd =
     (let offset_before = f_pos fd
      in err_bind (rules_add_fdi_file full_path file fd) (\<lambda>(added, fd).
           if added then Inr (0, fd) else Inr (1, seek_end (file_truncate offset_before fd))))"

fun add_entries :: "string \<Rightarrow> dir_node list \<Rightarrow> cache_file \<Rightarrow> memory_error + (nat option \<times> cache_file)" where
  "add_entries dir [] fd = Inr (Some 0, fd)"
| "add_entries dir (Regular filename file # es) fd =
     (if is_fdi_name filename
      then err_bind (add_or_skip (dir @ ''/'' @ filename) file fd) (\<lambda>(n, fd).
           err_bind (add_entries dir es fd) (\<lambda>(m, fd). Inr (map_option ((+) n) m, fd)))
      else add_entries dir es fd)"
| "add_entries dir (Directory filename entries # es) fd =
     (if filename \<noteq> [] \<and> hd filename = CHR ''.'' then add_entries dir es fd
      else (case entries of
              None \<Rightarrow> Inr (None, fd)
            | Some entries \<Rightarrow>
                err_bind (add_entries (dir @ ''/'' @ filename) entries fd) (\<lambda>(n, fd).
                  case n of
                    None \<Rightarrow> Inr (None, fd)
                  | Some n \<Rightarrow>
                      err_bind (add_entries dir es fd) (\<lambda>(m, fd). Inr (map_option ((+) n) m, fd)))))"
| "add_entries dir (Special filename # es) fd = add_entries dir es fd"

definition rules_search_and_add_fdi_files ::
    "string \<Rightarrow> dir_node list option \<Rightarrow> cache_file \<Rightarrow> memory_error + (nat option \<times> cache_file)" where
  "rules_search_and_add_fdi_files dir entries fd =
     (case entries of None \<Rightarrow> Inr (None, fd) | Some entries \<Rightarrow> add_entries dir entries fd)"

text \<open>The directories of one kind of rules: one from the environment, or the two of the package.\<close>

type_synonym fdi_source = "(string \<times> dir_node list option) list"

fun add_sources :: "fdi_source \<Rightarrow> cache_file \<Rightarrow> memory_error + (nat option \<times> cache_file)" where
  "add_sources [] fd = Inr (Some 0, fd)"
| "add_sources ((dir, entries) # srcs) fd =
     err_bind (rules_search_and_add_fdi_files dir entries fd) (\<lambda>(n, fd).
       case n of
         None \<Rightarrow> Inr (None, fd)
       | Some n \<Rightarrow> err_bind (add_sources srcs fd) (\<lambda>(m, fd). Inr (map_option ((+) n) m, fd)))"

definition encode_header :: "nat \<Rightarrow> nat \<Rightarrow> nat \<Rightarrow> nat \<Rightarrow> string" where
  "encode_header preprobe information policy all =
     le_bytes 4 preprobe @ le_bytes 4 information @ le_bytes 4 policy @ le_bytes 4 all @ zeros 4"

definition section_offset :: "cache_file \<Rightarrow> nat" where
  "section_offset fd = RULES_ROUND (length (f_bytes fd))"

definition di_rules_init ::
    "fdi_source \<Rightarrow> fdi_source \<Rightarrow> fdi_source \<Rightarrow> memory_error + (nat \<times> string) option" where
  "di_rules_init preprobe information policy =
     (let fd0 = seek_end (pad32_write 0 (encode_header 0 0 0 0) \<lparr>f_bytes = [], f_pos = 0\<rparr>)
      in err_bind (add_sources preprobe fd0) (\<lambda>(n1, fd1).
         if n1 = None then Inr None
         else err_bind (add_sources information (seek_end fd1)) (\<lambda>(n2, fd2).
         if n2 = None then Inr None
         else err_bind (add_sources policy (seek_end fd2)) (\<lambda>(n3, fd3).
         if n3 = None then Inr None
         else let header = encode_header (section_offset fd0) (section_offset fd1) (section_offset fd2)
                             (length (f_bytes fd3))
              in Inr (Some (the n1 + the n2 + the n3, f_bytes (pad32_write 0 header fd3)))))))"

text \<open>The exit status of the compiler; 1 is an error, 2 tells that files were skipped.\<close>

definition main_exit :: "memory_error + (nat \<times> string) option \<Rightarrow> memory_error + nat" where
  "main_exit result =
     err_bind result (\<lambda>r.
       case r of None \<Rightarrow> Inr 1 | Some (num_skipped_fdi_files, _) \<Rightarrow> Inr (if num_skipped_fdi_files = 0 then 0 else 2))"

section \<open>The mapped cache\<close>

definition slice :: "string \<Rightarrow> nat \<Rightarrow> nat \<Rightarrow> string" where
  "slice b off n = take n (drop off b)"

definition read_int :: "nat \<Rightarrow> string \<Rightarrow> nat \<Rightarrow> nat" where
  "read_int n b off = le_nat (slice b off n)"

text \<open>The C string that starts at an offset.\<close>

definition read_string :: "string \<Rightarrow> nat \<Rightarrow> string" where
  "read_string b off = takeWhile (\<lambda>c. c \<noteq> CHR 0x00) (drop off b)"

definition read_rule :: "string \<Rightarrow> nat \<Rightarrow> rule" where
  "read_rule b off =
     \<lparr>rule_size = read_int 8 b off, jump_position = read_int 4 b (off + 8),
      rtype = enum_value rule_types (read_int 4 b (off + 12)),
      type_match = enum_value match_types (read_int 4 b (off + 16)),
      type_merge = enum_value merge_types (read_int 4 b (off + 20)),
      rkey = read_string b (off + sizeof_rule), rvalue = read_string b (read_int 4 b (off + 24))\<rparr>"

text \<open>The rules of the file, found by their sizes.\<close>

fun rules_between :: "nat \<Rightarrow> string \<Rightarrow> nat \<Rightarrow> nat \<Rightarrow> (nat \<times> rule) list" where
  "rules_between 0 b off stop = []"
| "rules_between (Suc n) b off stop =
     (if off < stop then (off, read_rule b off) # rules_between n b (off + rule_size (read_rule b off)) stop else [])"

definition init_rules :: "string \<Rightarrow> rule_cache" where
  "init_rules b =
     \<lparr>fdi_rules_preprobe = read_int 4 b 0, fdi_rules_information = read_int 4 b 4, fdi_rules_policy = read_int 4 b 8,
      all_rules_size = read_int 4 b 12,
      rule_at = rules_between (length b) b (read_int 4 b 0) (read_int 4 b 12)\<rparr>"

end
