(* ===== verification/Hal_Cache_File.thy ===== *)
theory Hal_Cache_File
  imports Hal_Cache
begin

text \<open>
  The cache file at the level of bytes: what reads back from an offset after a write, the rule that
  reads back after its key, its value and its structure have been written, a chain of rules one after
  the other, and the write of a jump position into one of them.
\<close>

section \<open>Bytes\<close>

lemma length_zeros [simp]: "length (zeros n) = n"
  by (simp add: zeros_def)

lemma zeros_0 [simp]: "zeros 0 = []"
  by (simp add: zeros_def)

lemma length_write_at [simp]: "length (write_at b off data) = (if data = [] then length b else max (length b) (off + length data))"
  by (auto simp: write_at_def)

lemma take_write_at: "n \<le> off \<Longrightarrow> n \<le> length b \<Longrightarrow> take n (write_at b off data) = take n b"
  by (simp add: write_at_def min_def)

lemma slice_write_at_same: "slice (write_at b off data) off (length data) = data"
  by (cases "off \<le> length b") (auto simp: write_at_def slice_def)

lemma slice_Nil_iff: "slice b off n = [] \<longleftrightarrow> n = 0 \<or> length b \<le> off"
  by (auto simp: slice_def)

lemma slice_take: "off + n \<le> m \<Longrightarrow> slice (take m b) off n = slice b off n"
  by (simp add: slice_def drop_take)

lemma slice_write_at_before:
  assumes "o' + n \<le> off" and "o' + n \<le> length b"
  shows "slice (write_at b off data) o' n = slice b o' n"
  using slice_take [OF assms(1), of "write_at b off data"] slice_take [OF assms(1), of b]
    slice_take [OF assms(2), of "write_at b off data"] take_write_at [of "min off (length b)" off b data] assms
  by (metis min.bounded_iff min.cobounded1 min.cobounded2 slice_take)

lemma slice_write_at_after:
  assumes "off + length data \<le> o'"
  shows "slice (write_at b off data) o' n = slice b o' n"
proof (cases "data = []")
  case False
  have "drop o' (take off b @ zeros (off - length b) @ data @ drop (off + length data) b) = drop o' b"
    using assms by (cases "off \<le> length b") (simp_all add: add.commute)
  with False show ?thesis by (simp add: write_at_def slice_def)
qed (simp add: write_at_def)

lemma slice_slice: "i + m \<le> n \<Longrightarrow> slice (slice b off n) i m = slice b (off + i) m"
  by (simp add: slice_def drop_take add.commute)

lemma slice_eq_sub:
  assumes "slice b off n = slice b' off n" and "off \<le> o'" and "o' + m \<le> off + n"
  shows "slice b o' m = slice b' o' m"
proof -
  have "slice (slice b off n) (o' - off) m = slice (slice b' off n) (o' - off) m" using assms(1) by simp
  then show ?thesis using assms(2,3) by (simp add: slice_slice)
qed

lemma slice_append: "slice b off (m + n) = slice b off m @ slice b (off + m) n"
  by (simp add: slice_def take_add drop_drop add.commute)

lemma slice_of_append: "off + n \<le> length b \<Longrightarrow> slice (b @ c) off n = slice b off n"
  by (simp add: slice_def)

lemma length_slice: "off + n \<le> length b \<Longrightarrow> length (slice b off n) = n"
  by (simp add: slice_def)

section \<open>Integers\<close>

lemma length_le_bytes [simp]: "length (le_bytes n v) = n"
  by (induction n arbitrary: v) auto

lemma le_nat_bytes [simp]: "le_nat (le_bytes n v) = v mod 256 ^ n"
proof (induction n arbitrary: v)
  case (Suc n)
  have "v mod 256 ^ Suc n = v mod 256 + 256 * (v div 256 mod 256 ^ n)"
    using mod_mult2_eq [of v 256 "256 ^ n"] by simp
  with Suc show ?case by simp
qed simp

lemma le_bytes_not_Nil [simp]: "le_bytes (Suc n) v \<noteq> []"
  by simp

section \<open>Strings\<close>

lemma read_string_at:
  assumes "slice b off (Suc (length s)) = s @ [CHR 0x00]" and "CHR 0x00 \<notin> set s"
  shows "read_string b off = s"
proof -
  have "drop off b = s @ [CHR 0x00] @ drop (Suc (length s)) (drop off b)"
    using assms(1) by (metis append.assoc append_take_drop_id slice_def)
  then have "read_string b off = takeWhile (\<lambda>c. c \<noteq> CHR 0x00) (s @ CHR 0x00 # drop (Suc (length s)) (drop off b))"
    by (simp add: read_string_def)
  also have "\<dots> = s" using assms(2) by (subst takeWhile_append2) auto
  finally show ?thesis .
qed

lemma read_string_slice:
  assumes "slice b off n = slice b' off n" and "CHR 0x00 \<in> set (slice b off n)"
  shows "read_string b' off = read_string b off"
proof -
  have "read_string c off = takeWhile (\<lambda>c. c \<noteq> CHR 0x00) (slice c off n)" if "CHR 0x00 \<in> set (slice c off n)" for c
    using that takeWhile_append1 [of "CHR 0x00" "slice c off n" "\<lambda>c. c \<noteq> CHR 0x00" "drop n (drop off c)"]
    unfolding slice_def read_string_def append_take_drop_id by simp
  with assms show ?thesis by simp
qed

lemma empty_string: "slice b 16 4 = zeros 4 \<Longrightarrow> read_string b 16 = []"
  using read_string_at [of b 16 "[]"] slice_take [of 0 1 4 "drop 16 b"]
  by (simp add: slice_def zeros_def numeral_eq_Suc)

lemma nul_in_slice:
  assumes "slice b off (length s + 1) = s @ [CHR 0x00]" and "length s + 1 \<le> n"
  shows "CHR 0x00 \<in> set (slice b off n)"
proof -
  obtain m where "n = (length s + 1) + m" using assms(2) by (metis le_Suc_ex)
  then show ?thesis using slice_append [of b off "length s + 1" m] assms(1) by simp
qed

section \<open>Rounding\<close>

lemma ROUND_ge: "0 < a \<Longrightarrow> n \<le> ROUND n a"
proof -
  assume "0 < a"
  then have "n + a - 1 = (n + a - 1) div a * a + (n + a - 1) mod a" "(n + a - 1) mod a < a" by auto
  with \<open>0 < a\<close> show ?thesis unfolding ROUND_def by linarith
qed

lemma ROUND_less: "0 < a \<Longrightarrow> ROUND n a < n + a"
proof -
  assume "0 < a"
  then have "(n + a - 1) div a * a \<le> n + a - 1" by (metis div_times_less_eq_dividend)
  with \<open>0 < a\<close> show ?thesis unfolding ROUND_def by linarith
qed

lemma ROUND_dvd: "a dvd ROUND n a"
  by (simp add: ROUND_def)

lemma ROUND_add:
  assumes "0 < a" and "a dvd m"
  shows "ROUND (m + n) a = m + ROUND n a"
proof -
  obtain k where m: "m = k * a" using assms(2) by (auto simp: dvd_def mult.commute)
  have "m + n + a - 1 = (n + a - 1) + k * a" using assms(1) by (simp add: m)
  then have "(m + n + a - 1) div a = k + (n + a - 1) div a"
    using assms(1) by (simp only: div_mult_self1 neq0_conv)
  then show ?thesis by (simp add: ROUND_def m add_mult_distrib)
qed

lemma ROUND_id: "0 < a \<Longrightarrow> a dvd n \<Longrightarrow> ROUND n a = n"
  using ROUND_add [of a n 0] by (simp add: ROUND_def)

lemmas ROUND32_facts =
  ROUND_ge [of 4, folded ROUND32_def, simplified] ROUND_less [of 4, folded ROUND32_def, simplified]
  ROUND_dvd [of 4, folded ROUND32_def] ROUND_id [of 4, folded ROUND32_def, simplified]

lemmas RULES_ROUND_facts =
  ROUND_ge [of 8, folded RULES_ROUND_def, simplified] ROUND_less [of 8, folded RULES_ROUND_def, simplified]
  ROUND_dvd [of 8, folded RULES_ROUND_def] ROUND_id [of 8, folded RULES_ROUND_def, simplified]

lemma ROUND32_0 [simp]: "ROUND32 0 = 0"
  by (simp add: ROUND32_def ROUND_def)

section \<open>Padded writes\<close>

lemma write_at_append:
  assumes "data \<noteq> []"
  shows "write_at (write_at b off data) (off + length data) rest = write_at b off (data @ rest)"
  using assms by (cases "rest = []") (auto simp: write_at_def min_def ac_simps)

definition padded :: "nat \<Rightarrow> string \<Rightarrow> string" where
  "padded off data = data @ zeros ((4 - (off + length data) mod 4) mod 4)"

lemma pad32_write_bytes:
  assumes "data \<noteq> []"
  shows "f_bytes (pad32_write off data f) = write_at (f_bytes f) off (padded off data)"
proof (cases "(off + length data) mod 4 = 0")
  case True
  then show ?thesis by (simp add: pad32_write_def file_write_def seek_set_def padded_def Let_def)
next
  case False
  then have "(4 - (off + length data) mod 4) mod 4 = 4 - (off + length data) mod 4" by simp
  with False show ?thesis
    using write_at_append [OF assms, of "f_bytes f" off]
    by (simp add: pad32_write_def file_write_def seek_set_def padded_def Let_def)
qed

lemma end_padded: "off + length (padded off data) = ROUND32 (off + length data)"
proof -
  have "n + (4 - n mod 4) mod 4 = (n + 3) div 4 * 4" for n :: nat
  proof -
    define q r where "q = n div 4" and "r = n mod 4"
    then have n: "n = r + 4 * q" and "r < 4" by simp_all
    have "(n + 3) div 4 = q + (r + 3) div 4" "n mod 4 = r" using \<open>r < 4\<close> by (simp_all add: n)
    moreover have "r = 0 \<or> r = 1 \<or> r = 2 \<or> r = 3" using \<open>r < 4\<close> by linarith
    ultimately show ?thesis by (auto simp: n)
  qed
  from this [of "off + length data"] show ?thesis by (simp add: padded_def ROUND32_def ROUND_def ac_simps)
qed

lemma ROUND32_mono: "m \<le> n \<Longrightarrow> ROUND32 m \<le> ROUND32 n"
  unfolding ROUND32_def ROUND_def by (intro mult_le_mono1 div_le_mono) simp

lemma ROUND32_add: "4 dvd m \<Longrightarrow> ROUND32 (m + n) = m + ROUND32 n"
  by (simp add: ROUND32_def ROUND_add)

lemma padded_not_Nil [simp]: "data \<noteq> [] \<Longrightarrow> padded off data \<noteq> []"
  by (simp add: padded_def)

lemma length_pad32_write:
  "data \<noteq> [] \<Longrightarrow> length (f_bytes (pad32_write off data f)) = max (length (f_bytes f)) (ROUND32 (off + length data))"
  using end_padded [of off data] by (simp add: pad32_write_bytes)

lemma slice_padded: "slice (write_at b off (padded off data)) off (length data) = data"
  using arg_cong [OF slice_write_at_same [of b off "padded off data"], of "take (length data)"]
  by (simp add: slice_def padded_def)

lemma padded_aligned: "4 dvd off + length data \<Longrightarrow> padded off data = data"
  by (auto simp: padded_def)

section \<open>Rules in the file\<close>

text \<open>The rule that reads back from an offset, with its strings ended before the next rule begins.\<close>

definition image :: "string \<Rightarrow> nat \<Rightarrow> rule \<Rightarrow> bool" where
  "image b off r \<longleftrightarrow>
     read_rule b off = r \<and> 8 dvd off \<and> 20 \<le> off \<and> slice b 16 4 = zeros 4 \<and>
     (\<exists>e v. off + 48 \<le> e \<and> e \<le> length b \<and> off + rule_size r = RULES_ROUND e \<and> v = read_int 4 b (off + 24) \<and>
        CHR 0x00 \<in> set (slice b (off + 48) (e - (off + 48))) \<and>
        (v = 16 \<or> off + 48 \<le> v \<and> v \<le> e \<and> CHR 0x00 \<in> set (slice b v (e - v))))"

lemma image_frame:
  assumes "image b off r" and "slice b' 16 4 = slice b 16 4" and "length b \<le> length b'"
    and same: "\<And>e. e \<le> length b \<Longrightarrow> e \<le> off + rule_size r \<Longrightarrow> slice b' off (e - off) = slice b off (e - off)"
  shows "image b' off r"
proof -
  obtain e v where e: "off + 48 \<le> e" "e \<le> length b" "off + rule_size r = RULES_ROUND e" "v = read_int 4 b (off + 24)"
    "CHR 0x00 \<in> set (slice b (off + 48) (e - (off + 48)))"
    "v = 16 \<or> off + 48 \<le> v \<and> v \<le> e \<and> CHR 0x00 \<in> set (slice b v (e - v))"
    and r: "read_rule b off = r" "8 dvd off" "20 \<le> off" "slice b 16 4 = zeros 4"
    using assms(1) by (auto simp: image_def)
  have "slice b' off (e - off) = slice b off (e - off)"
    by (rule same) (use e RULES_ROUND_facts(1) [of e] in simp_all)
  then have sub: "slice b' o' m = slice b o' m" if "off \<le> o'" "o' + m \<le> e" for o' m
    using slice_eq_sub [of b' off "e - off" b o' m] that e(1) by simp
  have ints: "read_int n b' o' = read_int n b o'" if "off \<le> o'" "o' + n \<le> off + 48" for n o'
    using sub [of o' n] that e(1) by (simp add: read_int_def)
  have strs: "read_string b' o' = read_string b o'" if "off + 48 \<le> o'" "o' \<le> e" "CHR 0x00 \<in> set (slice b o' (e - o'))" for o'
    using read_string_slice [OF sub [symmetric] that(3)] that(1,2) by simp
  have "read_string b' 16 = read_string b 16" using empty_string r(4) assms(2) by simp
  then have "read_rule b' off = r"
    using e ints strs r(1) by (auto simp: read_rule_def sizeof_rule_def)
  moreover have "slice b' (off + 48) (e - (off + 48)) = slice b (off + 48) (e - (off + 48))"
    "v = 16 \<or> slice b' v (e - v) = slice b v (e - v)" "read_int 4 b' (off + 24) = v"
    using sub ints e by auto
  ultimately show ?thesis
    unfolding image_def using e r assms(2,3) by (intro conjI exI [of _ e] exI [of _ v]) auto
qed

lemma image_append: "image b off r \<Longrightarrow> take (length b) b' = b \<Longrightarrow> image b' off r"
proof -
  assume im: "image b off r" and pre: "take (length b) b' = b"
  have len: "length b \<le> length b'" using pre by (metis nat_le_linear take_all)
  have eq: "slice b' o' n = slice b o' n" if "o' + n \<le> length b" for o' n
    using slice_take [OF that, of b'] pre by simp
  have "20 \<le> length b" using im by (auto simp: image_def)
  then have "slice b' 16 4 = slice b 16 4" by (intro eq) simp
  then show ?thesis
  proof (rule image_frame [OF im _ len])
    show "slice b' off (e - off) = slice b off (e - off)" if "e \<le> length b" for e
      using eq [of off "e - off"] that by (cases "off \<le> e") (simp_all add: slice_def)
  qed
qed

lemma image_jump:
  assumes "image b off r"
  shows "image (write_at b (off + 8) (le_bytes 4 j)) off (r\<lparr>jump_position := j mod 2 ^ 32\<rparr>)"
proof -
  let ?b = "write_at b (off + 8) (le_bytes 4 j)"
  obtain e v where e: "off + 48 \<le> e" "e \<le> length b" "off + rule_size r = RULES_ROUND e" "v = read_int 4 b (off + 24)"
    "CHR 0x00 \<in> set (slice b (off + 48) (e - (off + 48)))"
    "v = 16 \<or> off + 48 \<le> v \<and> v \<le> e \<and> CHR 0x00 \<in> set (slice b v (e - v))"
    and r: "read_rule b off = r" "8 dvd off" "20 \<le> off" "slice b 16 4 = zeros 4"
    using assms(1) by (auto simp: image_def)
  have after: "slice ?b o' n = slice b o' n" if "off + 12 \<le> o'" for o' n
    using slice_write_at_after [of "off + 8" "le_bytes 4 j" o' b n] that by simp
  have before: "slice ?b o' n = slice b o' n" if "o' + n \<le> off + 8" for o' n
    using slice_write_at_before [of o' n "off + 8" b "le_bytes 4 j"] that e by simp
  have jump: "slice ?b (off + 8) 4 = le_bytes 4 j"
    using slice_write_at_same [of b "off + 8" "le_bytes 4 j"] by simp
  have strs: "read_string ?b o' = read_string b o'" if "off + 48 \<le> o'" "CHR 0x00 \<in> set (slice b o' (e - o'))" for o'
    using read_string_slice [OF after [symmetric] that(2)] that(1) by simp
  have "read_string ?b 16 = read_string b 16" using empty_string [of b] empty_string [of ?b] before [of 16 4] r(3,4) by simp
  then have "read_rule ?b off = r\<lparr>jump_position := j mod 2 ^ 32\<rparr>"
    using e strs r(1) by (auto simp: read_rule_def sizeof_rule_def read_int_def after before jump)
  moreover have "slice ?b 16 4 = slice b 16 4" using before r(3) by simp
  moreover have "length ?b = length b" using e by simp
  ultimately show ?thesis
    unfolding image_def using e r after by (intro conjI exI [of _ e] exI [of _ v]) (auto simp: read_int_def)
qed

section \<open>Storing the pending rule\<close>

lemma index_of_less: "x \<in> set vs \<Longrightarrow> index_of x vs < length vs \<and> vs ! index_of x vs = x"
  by (induction vs) auto

lemma enum_roundtrip: "x \<in> set vs \<Longrightarrow> enum_value vs (index_of x vs) = x"
  using index_of_less [of x vs] by (simp add: enum_value_def)

lemma all_rule_types [simp]: "t \<in> set rule_types"
  by (cases t) (simp_all add: rule_types_def)

lemma all_match_types [simp]: "m \<in> set match_types"
  by (cases m) (simp_all add: match_types_def)

lemma all_merge_types [simp]: "g \<in> set merge_types"
  by (cases g) (simp_all add: merge_types_def)

lemma index_of_types [simp]:
  "index_of t rule_types mod 4294967296 = index_of t rule_types"
  "index_of m match_types mod 4294967296 = index_of m match_types"
  "index_of g merge_types mod 4294967296 = index_of g merge_types"
  using index_of_less [OF all_rule_types, of t] index_of_less [OF all_match_types, of m] index_of_less [OF all_merge_types, of g]
  by (simp_all add: rule_types_def match_types_def merge_types_def)

lemma length_encode_rule [simp]: "length (encode_rule s) = 48"
  by (simp add: encode_rule_def)

lemma slice_encode:
  assumes "slice b off (length (x @ y @ z)) = x @ y @ z"
  shows "slice b (off + length x) (length y) = y"
proof -
  have "slice (slice b off (length (x @ y @ z))) (length x) (length y) = y"
    using assms by (simp add: slice_def)
  then show ?thesis by (simp add: slice_slice)
qed

lemma read_encoded:
  assumes "slice b off 48 = encode_rule s"
  shows "read_int 8 b off = sr_rule_size s mod 2 ^ 64" "read_int 4 b (off + 8) = sr_jump_position s mod 2 ^ 32"
    "enum_value rule_types (read_int 4 b (off + 12)) = sr_rtype s"
    "enum_value match_types (read_int 4 b (off + 16)) = sr_type_match s"
    "enum_value merge_types (read_int 4 b (off + 20)) = sr_type_merge s"
    "read_int 4 b (off + 24) = sr_value_offset s mod 2 ^ 32"
proof -
  have sub: "slice b (off + i) n = slice (encode_rule s) i n" if "i + n \<le> 48" for i n
    using slice_slice [of i n 48 b off] that assms by simp
  show "read_int 8 b off = sr_rule_size s mod 2 ^ 64"
    using sub [of 0 8] by (simp add: read_int_def slice_def encode_rule_def)
  show "read_int 4 b (off + 8) = sr_jump_position s mod 2 ^ 32" "read_int 4 b (off + 24) = sr_value_offset s mod 2 ^ 32"
    "enum_value rule_types (read_int 4 b (off + 12)) = sr_rtype s"
    "enum_value match_types (read_int 4 b (off + 16)) = sr_type_match s"
    "enum_value merge_types (read_int 4 b (off + 20)) = sr_type_merge s"
    by (simp_all add: read_int_def sub) (simp_all add: slice_def encode_rule_def enum_roundtrip)
qed

text \<open>The key and value of a rule are in the file before its structure is.\<close>

definition pending :: "string \<Rightarrow> nat \<Rightarrow> rule_struct \<Rightarrow> string \<Rightarrow> string \<Rightarrow> bool" where
  "pending b p s k v \<longleftrightarrow>
     8 dvd p \<and> 20 \<le> p \<and> slice b 16 4 = zeros 4 \<and> CHR 0x00 \<notin> set k \<and> CHR 0x00 \<notin> set v \<and> k \<noteq> [] \<and>
     sr_key_len s = length k + 1 \<and> length b = p + 48 + ROUND32 (sr_key_len s) + ROUND32 (sr_value_len s) \<and>
     slice b (p + 48) (length k + 1) = k @ [CHR 0x00] \<and>
     (if v = [] then sr_value_len s = 0 \<and> sr_value_offset s = 16
      else sr_value_len s = length v + 1 \<and> sr_value_offset s = p + 48 + ROUND32 (sr_key_len s) \<and>
        slice b (sr_value_offset s) (length v + 1) = v @ [CHR 0x00])"

definition rule_of :: "rule_struct \<Rightarrow> string \<Rightarrow> string \<Rightarrow> rule" where
  "rule_of s k v =
     \<lparr>rule_size = RULES_ROUND (sizeof_rule + ROUND32 (sr_key_len s) + ROUND32 (sr_value_len s)),
      jump_position = sr_jump_position s, rtype = sr_rtype s, type_match = sr_type_match s, type_merge = sr_type_merge s,
      rkey = k, rvalue = v\<rparr>"

lemma image_store:
  assumes pend: "pending b p s k v" and "sr_jump_position s = 0" and "length b < 2 ^ 32"
  defines "s' \<equiv> s\<lparr>sr_rule_size := RULES_ROUND (sizeof_rule + ROUND32 (sr_key_len s) + ROUND32 (sr_value_len s))\<rparr>"
  shows "image (write_at b p (encode_rule s')) p (rule_of s k v)"
proof -
  let ?b = "write_at b p (encode_rule s')"
  define e where "e = length b"
  have p: "8 dvd p" "20 \<le> p" "slice b 16 4 = zeros 4" "CHR 0x00 \<notin> set k" "CHR 0x00 \<notin> set v" "k \<noteq> []"
    and klen: "sr_key_len s = length k + 1" and e: "e = p + 48 + ROUND32 (sr_key_len s) + ROUND32 (sr_value_len s)"
    and key: "slice b (p + 48) (length k + 1) = k @ [CHR 0x00]"
    and val: "if v = [] then sr_value_len s = 0 \<and> sr_value_offset s = 16
      else sr_value_len s = length v + 1 \<and> sr_value_offset s = p + 48 + ROUND32 (sr_key_len s) \<and>
        slice b (sr_value_offset s) (length v + 1) = v @ [CHR 0x00]"
    using pend by (auto simp: pending_def e_def)
  have room: "p + 48 \<le> e" "p + 48 + length k + 1 \<le> e" using ROUND32_facts(1) [of "sr_key_len s"] by (simp_all add: e klen)
  have same: "slice ?b o' n = slice b o' n" if "p + 48 \<le> o'" for o' n
    using slice_write_at_after [of p "encode_rule s'" o' b n] that by simp
  have head: "slice ?b 16 4 = slice b 16 4"
    using slice_write_at_before [of 16 4 p b "encode_rule s'"] p(2) room by (simp add: e_def)
  have struct: "slice ?b p 48 = encode_rule s'"
    using slice_write_at_same [of b p "encode_rule s'"] by simp
  have size: "p + rule_size (rule_of s k v) = RULES_ROUND e"
    using ROUND_add [of 8 p] p(1) by (simp add: rule_of_def RULES_ROUND_def e sizeof_rule_def add.assoc)
  have small: "rule_size (rule_of s k v) < 2 ^ 64" "sr_value_offset s < 2 ^ 32"
    using size RULES_ROUND_facts(2) [of e] assms(3) val ROUND32_facts(1) [of "sr_value_len s"]
    by (auto simp: e_def [symmetric] e split: if_splits)
  have kz: "CHR 0x00 \<in> set (slice b (p + 48) (e - (p + 48)))"
    by (rule nul_in_slice [OF key]) (use room in simp)
  have vz: "sr_value_offset s = 16 \<or> p + 48 \<le> sr_value_offset s \<and> sr_value_offset s \<le> e \<and>
      CHR 0x00 \<in> set (slice b (sr_value_offset s) (e - sr_value_offset s))"
  proof (cases "v = []")
    case False
    with val have vo: "sr_value_offset s = p + 48 + ROUND32 (sr_key_len s)" "sr_value_len s = length v + 1" by auto
    then have "length v + 1 \<le> e - sr_value_offset s" using ROUND32_facts(1) [of "sr_value_len s"] by (simp add: e)
    then show ?thesis using nul_in_slice [of b "sr_value_offset s" v] val False vo by (simp add: e)
  qed (use val in simp)
  have "read_string ?b (p + 48) = k"
    using read_string_at [of ?b "p + 48" k] key p(4) same by simp
  moreover have "read_string ?b (sr_value_offset s) = v"
  proof (cases "v = []")
    case True
    with val p(3) head show ?thesis using empty_string [of ?b] by simp
  next
    case False
    with val have vo: "slice b (sr_value_offset s) (Suc (length v)) = v @ [CHR 0x00]" "p + 48 \<le> sr_value_offset s" by auto
    from same [OF vo(2)] vo(1) have "slice ?b (sr_value_offset s) (Suc (length v)) = v @ [CHR 0x00]" by simp
    then show ?thesis using read_string_at p(5) by blast
  qed
  ultimately have "read_rule ?b p = rule_of s k v"
    using read_encoded [OF struct] small assms(2)
    by (simp add: read_rule_def rule_of_def s'_def sizeof_rule_def)
  moreover have "read_int 4 ?b (p + 24) = sr_value_offset s"
    using read_encoded(6) [OF struct] small(2) by (simp add: s'_def)
  moreover have "length ?b = e" using room by (simp add: e_def max_def)
  ultimately show ?thesis
    unfolding image_def using p head size room kz vz same
    by (intro conjI exI [of _ e] exI [of _ "sr_value_offset s"]) auto
qed

section \<open>Rules one after the other\<close>

fun laid :: "string \<Rightarrow> nat \<Rightarrow> (nat \<times> rule) list \<Rightarrow> nat \<Rightarrow> bool" where
  "laid b p [] q \<longleftrightarrow> p = q"
| "laid b p ((off, r) # rs) q \<longleftrightarrow> off = p \<and> image b off r \<and> laid b (off + rule_size r) rs q"

lemma laid_append: "laid b p (rs @ rs') q \<longleftrightarrow> (\<exists>m. laid b p rs m \<and> laid b m rs' q)"
  by (induction rs arbitrary: p) auto

lemma laid_prefix: "laid b p rs q \<Longrightarrow> take (length b) b' = b \<Longrightarrow> laid b' p rs q"
  by (induction rs arbitrary: p) (auto intro: image_append)

lemma image_size:
  assumes "image b off r"
  shows "48 \<le> rule_size r"
proof -
  obtain e where "off + 48 \<le> e" "off + rule_size r = RULES_ROUND e" using assms by (auto simp: image_def)
  then show ?thesis using RULES_ROUND_facts(1) [of e] by linarith
qed

lemma laid_offsets:
  "laid b p rs q \<Longrightarrow> p \<le> q \<and> (\<forall>(off, r) \<in> set rs. p \<le> off \<and> off + rule_size r \<le> q \<and> 48 \<le> rule_size r)"
proof (induction rs arbitrary: p)
  case (Cons x rs)
  obtain off r where x: "x = (off, r)" by (cases x)
  with Cons.prems have "off = p" "image b off r" "laid b (off + rule_size r) rs q" by auto
  with Cons.IH [OF this(3)] image_size show ?case by (force simp: x)
qed simp

text \<open>A write into one rule leaves the others alone.\<close>

lemma laid_elsewhere:
  assumes "laid b p rs q" and "q \<le> off \<or> off + length data \<le> p" and "20 \<le> off" and "20 \<le> length b"
  shows "laid (write_at b off data) p rs q"
  using assms(1,2)
proof (induction rs arbitrary: p)
  case (Cons x rs)
  obtain o' r where x: "x = (o', r)" by (cases x)
  with Cons.prems have l: "o' = p" "image b o' r" "laid b (o' + rule_size r) rs q" by auto
  have "o' + rule_size r \<le> q" using laid_offsets [OF l(3)] by simp
  have "image (write_at b off data) o' r"
  proof (rule image_frame [OF l(2)])
    show "slice (write_at b off data) 16 4 = slice b 16 4"
      using slice_write_at_before [of 16 4 off b data] assms(3,4) by simp
    show "length b \<le> length (write_at b off data)" by simp
    show "slice (write_at b off data) o' (e - o') = slice b o' (e - o')"
      if "e \<le> length b" "e \<le> o' + rule_size r" for e
    proof (cases "o' \<le> e")
      case True
      with that Cons.prems(2) \<open>o' + rule_size r \<le> q\<close> l(1) show ?thesis
        using slice_write_at_before [of o' "e - o'" off b data] slice_write_at_after [of off data o' b "e - o'"] by fastforce
    qed (simp add: slice_def)
  qed
  moreover have "laid (write_at b off data) (o' + rule_size r) rs q"
    by (rule Cons.IH [OF l(3)]) (use Cons.prems(2) l(1) in auto)
  ultimately show ?case using l(1) by (simp add: x)
qed simp

lemma laid_jump:
  assumes "laid b p (rs1 @ (off, r) # rs2) q" and "20 \<le> off"
  shows "laid (write_at b (off + 8) (le_bytes 4 j)) p (rs1 @ (off, r\<lparr>jump_position := j mod 2 ^ 32\<rparr>) # rs2) q"
proof -
  let ?b = "write_at b (off + 8) (le_bytes 4 j)"
  have l: "laid b p rs1 off" "image b off r" "laid b (off + rule_size r) rs2 q"
    using assms(1) by (auto simp: laid_append)
  then have len: "off + 12 \<le> length b" by (auto simp: image_def)
  have "laid ?b p rs1 off" using laid_elsewhere [OF l(1), of "off + 8" "le_bytes 4 j"] assms(2) len by simp
  moreover have "laid ?b (off + rule_size r) rs2 q"
    using laid_elsewhere [OF l(3), of "off + 8" "le_bytes 4 j"] image_size [OF l(2)] assms(2) len by simp
  ultimately show ?thesis using image_jump [OF l(2)] by (auto simp: laid_append)
qed

lemma laid_store:
  assumes "laid b p rs pos" and "pending b pos s k v" and "sr_jump_position s = 0" and "length b < 2 ^ 32"
  defines "s' \<equiv> s\<lparr>sr_rule_size := RULES_ROUND (sizeof_rule + ROUND32 (sr_key_len s) + ROUND32 (sr_value_len s))\<rparr>"
  shows "laid (write_at b pos (encode_rule s')) p (rs @ [(pos, rule_of s k v)]) (RULES_ROUND (length b))"
proof -
  have pend: "20 \<le> pos" "8 dvd pos" "length b = pos + 48 + ROUND32 (sr_key_len s) + ROUND32 (sr_value_len s)"
    using assms(2) by (auto simp: pending_def)
  have "laid (write_at b pos (encode_rule s')) p rs pos"
    using laid_elsewhere [OF assms(1), of pos] pend by simp
  moreover have "pos + rule_size (rule_of s k v) = RULES_ROUND (length b)"
    using ROUND_add [of 8 pos] pend(2) by (simp add: rule_of_def RULES_ROUND_def pend(3) sizeof_rule_def add.assoc)
  ultimately show ?thesis
    using image_store [OF assms(2-4)] by (auto simp: laid_append s'_def)
qed

section \<open>Keys and values\<close>

lemma store_key_pending:
  assumes "store_key k ctx = Inr ctx'" and "position ctx = pos" and "8 dvd pos" and "20 \<le> pos"
    and "length (f_bytes (cache_fd ctx)) \<le> pos" and "slice (f_bytes (cache_fd ctx)) 16 4 = zeros 4"
    and "20 \<le> length (f_bytes (cache_fd ctx))"
    and "sr_value_len (ctx_rule ctx) = 0" and "sr_value_offset (ctx_rule ctx) = 16" and "CHR 0x00 \<notin> set k"
  shows "ctx' = ctx\<lparr>ctx_rule := (ctx_rule ctx)\<lparr>sr_key_len := length k + 1\<rparr>, cache_fd := cache_fd ctx'\<rparr>"
    and "pending (f_bytes (cache_fd ctx')) pos (ctx_rule ctx') k []"
    and "take (length (f_bytes (cache_fd ctx))) (f_bytes (cache_fd ctx')) = f_bytes (cache_fd ctx)"
proof -
  let ?b = "f_bytes (cache_fd ctx)" and ?b' = "f_bytes (cache_fd ctx')" and ?d = "k @ [CHR 0x00]"
  have ctx': "ctx' = ctx\<lparr>ctx_rule := (ctx_rule ctx)\<lparr>sr_key_len := length k + 1\<rparr>,
      cache_fd := pad32_write (pos + 48) ?d (cache_fd ctx)\<rparr>" and "k \<noteq> []"
    using assms(1,2) by (auto simp: store_key_def sizeof_rule_def split: if_splits)
  then show "ctx' = ctx\<lparr>ctx_rule := (ctx_rule ctx)\<lparr>sr_key_len := length k + 1\<rparr>, cache_fd := cache_fd ctx'\<rparr>" by simp
  have b': "?b' = write_at ?b (pos + 48) (padded (pos + 48) ?d)" using pad32_write_bytes [of ?d] by (simp add: ctx')
  then show "take (length ?b) ?b' = ?b" using take_write_at [of "length ?b" "pos + 48" ?b] assms(5) by simp
  have "4 dvd pos + 48" using assms(3) by presburger
  then have "length ?b' = pos + 48 + ROUND32 (length k + 1)"
    using end_padded [of "pos + 48" ?d] ROUND32_add [of "pos + 48" "length k + 1"] assms(5) by (simp add: b' max_def)
  moreover have "slice ?b' 16 4 = zeros 4"
    using slice_write_at_before [of 16 4 "pos + 48" ?b] assms(4,6,7) by (simp add: b')
  moreover have "slice ?b' (pos + 48) (length k + 1) = k @ [CHR 0x00]"
    using slice_padded [of ?b "pos + 48" ?d] by (simp add: b')
  ultimately show "pending ?b' pos (ctx_rule ctx') k []"
    using assms \<open>k \<noteq> []\<close> by (simp add: pending_def ctx')
qed

lemma append_value:
  assumes "4 dvd base" and len: "length b = base + ROUND32 vlen" and v: "vlen = (if v = [] then 0 else length v + 1)"
    and "slice b base (length v) = v" and "w \<noteq> []"
  defines "off \<equiv> base + length v"
  defines "b1 \<equiv> write_at b off (padded off w)"
  defines "b' \<equiv> write_at b1 (off + length w) (padded (off + length w) [CHR 0x00])"
  shows "length b' = base + ROUND32 (length v + length w + 1)"
    and "slice b' base (length v + length w + 1) = (v @ w) @ [CHR 0x00]"
    and "n \<le> base \<Longrightarrow> take n b' = take n b"
proof -
  have r: "ROUND32 (base + m) = base + ROUND32 m" for m using ROUND32_add [OF assms(1)] .
  have len1: "length b1 = max (base + ROUND32 vlen) (base + ROUND32 (length v + length w))"
    using end_padded [of off w] assms(5) by (simp add: b1_def len off_def add.assoc r)
  have "ROUND32 vlen \<le> ROUND32 (length v + length w + 1)" "ROUND32 (length v + length w) \<le> ROUND32 (length v + length w + 1)"
    using v by (auto intro: ROUND32_mono)
  with end_padded [of "off + length w" "[CHR 0x00]"] show "length b' = base + ROUND32 (length v + length w + 1)"
    using r [of "Suc (length v + length w)"] by (simp add: b'_def len1 off_def add.assoc)
  have lenv: "base + length v \<le> length b" using len v ROUND32_facts(1) [of vlen] by (auto split: if_splits)
  have "slice b' base (length v) = slice b1 base (length v)"
    using slice_write_at_before [of base "length v" "off + length w" b1] lenv len1 len by (simp add: b'_def off_def)
  also have "\<dots> = v"
    using slice_write_at_before [of base "length v" off b] lenv assms(4) by (simp add: b1_def off_def)
  finally have sv: "slice b' base (length v) = v" .
  have "off + length w \<le> length b1"
    using len1 ROUND32_facts(1) [of "length v + length w"] by (simp add: off_def)
  then have "slice b' off (length w) = slice b1 off (length w)"
    using slice_write_at_before [of off "length w" "off + length w" b1] by (simp add: b'_def)
  also have "\<dots> = w" using slice_padded [of b off w] by (simp add: b1_def)
  finally have sw: "slice b' off (length w) = w" .
  have sn: "slice b' (off + length w) 1 = [CHR 0x00]"
    using slice_padded [of b1 "off + length w" "[CHR 0x00]"] by (simp add: b'_def)
  show "slice b' base (length v + length w + 1) = (v @ w) @ [CHR 0x00]"
    using slice_append [of b' base "length v + length w" 1] slice_append [of b' base "length v" "length w"] sv sw sn
    by (simp add: off_def add.assoc)
  show "take n b' = take n b" if "n \<le> base"
    using take_write_at [of n off b "padded off w"] take_write_at [of n "off + length w" b1] that len len1
    by (simp add: b'_def b1_def off_def)
qed

lemma store_value_pending:
  assumes run: "store_value w ctx = Inr ctx'" and "position ctx = pos"
    and pend: "pending (f_bytes (cache_fd ctx)) pos (ctx_rule ctx) k v" and "CHR 0x00 \<notin> set w"
  shows "pending (f_bytes (cache_fd ctx')) pos (ctx_rule ctx') k (v @ w) \<and>
      take (pos + 48) (f_bytes (cache_fd ctx')) = take (pos + 48) (f_bytes (cache_fd ctx)) \<and>
      rule_of (ctx_rule ctx') k (v @ w) =
        (rule_of (ctx_rule ctx) k (v @ w))\<lparr>rule_size := rule_size (rule_of (ctx_rule ctx') k (v @ w))\<rparr> \<and>
      ctx'\<lparr>ctx_rule := ctx_rule ctx, cache_fd := cache_fd ctx\<rparr> = ctx"
proof (cases "w = []")
  case True
  with assms show ?thesis by (auto simp: store_value_def Let_def rule_of_def split: if_splits)
next
  case False
  let ?b = "f_bytes (cache_fd ctx)" and ?b' = "f_bytes (cache_fd ctx')" and ?s = "ctx_rule ctx"
  define base where "base = pos + 48 + ROUND32 (sr_key_len ?s)"
  define off where "off = base + length v"
  have p: "8 dvd pos" "20 \<le> pos" "slice ?b 16 4 = zeros 4" "length ?b = base + ROUND32 (sr_value_len ?s)"
    "slice ?b (pos + 48) (length k + 1) = k @ [CHR 0x00]" "sr_key_len ?s = length k + 1" "k \<noteq> []"
    "CHR 0x00 \<notin> set k" "CHR 0x00 \<notin> set v"
    and v: "sr_value_len ?s = (if v = [] then 0 else length v + 1)"
    and vs: "v \<noteq> [] \<Longrightarrow> slice ?b base (length v + 1) = v @ [CHR 0x00]" and vo: "v \<noteq> [] \<Longrightarrow> sr_value_offset ?s = base"
    using pend by (auto simp: pending_def base_def split: if_splits)
  have "4 dvd pos + 48" using p(1) by presburger
  then have base4: "4 dvd base" using ROUND32_facts(3) [of "sr_key_len ?s"] by (simp add: base_def)
  have sv: "slice ?b base (length v) = v"
    using arg_cong [OF vs, of "take (length v)"] by (cases "v = []") (simp_all add: slice_def)
  have off: "(if sr_value_len ?s = 0 then base else base + (sr_value_len ?s - 1)) = off"
    using v by (simp add: off_def)
  have base_eq: "position ctx + 48 + ROUND32 (Suc (length k)) = base" using p(6) assms(2) by (simp add: base_def)
  have same: "?s\<lparr>sr_value_offset := base\<rparr> = ?s" if "v \<noteq> []" using vo [OF that] by (cases ?s) simp
  have ctx': "ctx' = ctx\<lparr>ctx_rule := ?s\<lparr>sr_value_offset := base, sr_value_len := length v + length w + 1\<rparr>,
      cache_fd := pad32_write (off + length w) [CHR 0x00] (pad32_write off w (cache_fd ctx))\<rparr>"
    using run False v p(6) off same base_eq
    by (cases "v = []") (auto simp: store_value_def Let_def sizeof_rule_def split: if_splits)
  have b': "?b' = write_at (write_at ?b off (padded off w)) (off + length w) (padded (off + length w) [CHR 0x00])"
    using False by (simp add: ctx' pad32_write_bytes)
  note ap = append_value [OF base4 p(4) v sv False, folded off_def, folded b']
  have keep: "slice ?b' o' n = slice ?b o' n" if "o' + n \<le> base" for o' n
    using slice_take [OF that] ap(3) [OF order.refl] by metis
  have "length k + 1 \<le> ROUND32 (sr_key_len ?s)" using ROUND32_facts(1) [of "sr_key_len ?s"] p(6) by simp
  then have "slice ?b' (pos + 48) (length k + 1) = k @ [CHR 0x00]" "slice ?b' 16 4 = zeros 4"
    using keep [of "pos + 48" "length k + 1"] keep [of 16 4] p(2,3,5) by (simp_all add: base_def)
  moreover have "take (pos + 48) ?b' = take (pos + 48) ?b" by (rule ap(3)) (simp add: base_def)
  ultimately show ?thesis
    using ap(1,2) p assms(4) False by (simp add: pending_def rule_of_def ctx' base_def)
qed

end
