(* ===== verification/Hal_Cache_View.thy ===== *)
theory Hal_Cache_View
  imports Hal_Cache_File
begin

text \<open>
  The compiler of the device information files against a reference: an element tree stands for a list
  of rules with nested blocks, the blocks are laid out one after the other with jumps over them, and
  that is what reads back from the compiled file.
\<close>

section \<open>The reference\<close>

datatype xml = Elem string "(string \<times> string) list" bool "xml list" | Txt string

fun xml_events :: "xml \<Rightarrow> xml_event list" where
  "xml_events (Txt s) = [Text s]"
| "xml_events (Elem el attrs single kids) = Start el attrs single # concat (map xml_events kids) @ [End el]"

datatype fdi = Fdi_Rule rule | Fdi_Match rule "fdi list"

text \<open>A rule with its size in the file.\<close>

definition mk_rule :: "rule_type \<Rightarrow> match_type \<Rightarrow> merge_type \<Rightarrow> string \<Rightarrow> string \<Rightarrow> rule" where
  "mk_rule t m g k v =
     \<lparr>rule_size = RULES_ROUND (48 + ROUND32 (length k + 1) + (if v = [] then 0 else ROUND32 (length v + 1))),
      jump_position = 0, rtype = t, type_match = m, type_merge = g, rkey = k, rvalue = v\<rparr>"

text \<open>A match element: the key comes first, every other attribute is a test; the last one counts.\<close>

definition match_elem :: "(string \<times> string) list \<Rightarrow> rule option" where
  "match_elem attrs =
     (case attrs of
        [] \<Rightarrow> None
      | (n, k) # tests \<Rightarrow>
          if n = ''key'' \<and> k \<noteq> [] \<and>
             list_all (\<lambda>(t, _). t \<noteq> ''key'' \<and> get_match_type t \<noteq> MATCH_UNKNOWN) tests
          then Some (mk_rule RULE_MATCH (if tests = [] then MATCH_UNKNOWN else get_match_type (fst (last tests)))
                      MERGE_UNKNOWN k (concat (map snd tests)))
          else None)"

text \<open>Any other rule: one key, and every \<open>type\<close> is a known type; the last one counts.\<close>

definition is_key :: "rule_type \<Rightarrow> string \<Rightarrow> bool" where
  "is_key t n \<longleftrightarrow> n = ''key'' \<or> t = RULE_SPAWN \<and> n = ''udi''"

fun merge_of :: "rule_type \<Rightarrow> merge_type \<Rightarrow> (string \<times> string) list \<Rightarrow> merge_type" where
  "merge_of t m [] = m"
| "merge_of t m ((n, v) # attrs) = merge_of t (if t \<noteq> RULE_SPAWN \<and> n = ''type'' then get_merge_type v else m) attrs"

definition types_known :: "rule_type \<Rightarrow> (string \<times> string) list \<Rightarrow> bool" where
  "types_known t attrs \<longleftrightarrow>
     t = RULE_SPAWN \<or> list_all (\<lambda>(n, v). n = ''type'' \<longrightarrow> get_merge_type v \<noteq> MERGE_UNKNOWN) attrs"

definition other_elem :: "rule_type \<Rightarrow> (string \<times> string) list \<Rightarrow> string \<Rightarrow> rule option" where
  "other_elem t attrs v =
     (case filter (\<lambda>(n, _). is_key t n) attrs of
        [(_, k)] \<Rightarrow>
          if k \<noteq> [] \<and> types_known t attrs
          then Some (mk_rule t MATCH_UNKNOWN (merge_of t MERGE_UNKNOWN attrs) k v) else None
      | _ \<Rightarrow> None)"

fun is_text :: "xml \<Rightarrow> bool" where
  "is_text (Txt s) = True"
| "is_text (Elem el attrs single kids) = False"

fun text_of :: "xml \<Rightarrow> string" where
  "text_of (Txt s) = s"
| "text_of (Elem el attrs single kids) = []"

definition rule_text :: "rule_type \<Rightarrow> xml list \<Rightarrow> string" where
  "rule_text t kids = (if t = RULE_CLEAR then [] else concat (map text_of kids))"

fun fdi_of :: "xml \<Rightarrow> fdi list option" and fdis_of :: "xml list \<Rightarrow> fdi list option" where
  "fdi_of (Txt s) = Some []"
| "fdi_of (Elem el attrs single kids) =
     (if get_rule_type el = RULE_UNKNOWN then fdis_of kids
      else if get_rule_type el = RULE_MATCH
      then (case match_elem attrs of
              None \<Rightarrow> None
            | Some r \<Rightarrow> (case fdis_of kids of None \<Rightarrow> None | Some fs \<Rightarrow> Some [Fdi_Match r fs]))
      else if list_all is_text kids
      then map_option (\<lambda>r. [Fdi_Rule r]) (other_elem (get_rule_type el) attrs (rule_text (get_rule_type el) kids))
      else None)"
| "fdis_of [] = Some []"
| "fdis_of (x # xs) =
     (case fdi_of x of
        None \<Rightarrow> None
      | Some fs \<Rightarrow> (case fdis_of xs of None \<Rightarrow> None | Some gs \<Rightarrow> Some (fs @ gs)))"

fun fdi_size :: "fdi \<Rightarrow> nat" where
  "fdi_size (Fdi_Rule r) = rule_size r"
| "fdi_size (Fdi_Match r fs) = rule_size r + sum_list (map fdi_size fs)"

text \<open>The rules of a block from an offset on; a match jumps over its block.\<close>

fun layout :: "nat \<Rightarrow> fdi \<Rightarrow> (nat \<times> rule) list" and layouts :: "nat \<Rightarrow> fdi list \<Rightarrow> (nat \<times> rule) list" where
  "layout p (Fdi_Rule r) = [(p, r)]"
| "layout p (Fdi_Match r fs) =
     (p, r\<lparr>jump_position := p + fdi_size (Fdi_Match r fs)\<rparr>) # layouts (p + rule_size r) fs"
| "layouts p [] = []"
| "layouts p (f # fs) = layout p f @ layouts (p + fdi_size f) fs"

lemma layouts_append: "layouts p (fs @ gs) = layouts p fs @ layouts (p + sum_list (map fdi_size fs)) gs"
  by (induction fs arbitrary: p) (auto simp: add.assoc)

section \<open>Files only grow\<close>

abbreviation bytes :: "fdi_context \<Rightarrow> string" where
  "bytes ctx \<equiv> f_bytes (cache_fd ctx)"

lemma pad32_grows: "length (f_bytes f) \<le> length (f_bytes (pad32_write off data f))"
  by (auto simp: pad32_write_def file_write_def seek_set_def Let_def)

lemma seek_end_bytes [simp]: "f_bytes (seek_end f) = f_bytes f" "f_pos (seek_end f) = length (f_bytes f)"
  by (simp_all add: seek_end_def)

lemma store_key_grows: "store_key k ctx = Inr ctx' \<Longrightarrow> length (bytes ctx) \<le> length (bytes ctx')"
  by (auto simp: store_key_def pad32_grows split: if_splits)

lemma store_value_grows: "store_value v ctx = Inr ctx' \<Longrightarrow> length (bytes ctx) \<le> length (bytes ctx')"
  by (auto simp: store_value_def Let_def split: if_splits intro: order.trans [OF pad32_grows pad32_grows])

lemma store_rule_grows: "store_rule ctx = Inr ctx' \<Longrightarrow> length (bytes ctx) \<le> length (bytes ctx')"
  by (auto simp: store_rule_def pad32_grows Let_def split: if_splits)

lemma set_jump_grows: "set_jump_position ctx = Inr ctx' \<Longrightarrow> length (bytes ctx) \<le> length (bytes ctx')"
  using pad32_grows [of "seek_end (cache_fd ctx)"] by (auto simp: set_jump_position_def Let_def split: if_splits)

lemma start_attrs_grows: "start_attrs attrs ctx = Inr (go, ctx') \<Longrightarrow> length (bytes ctx) \<le> length (bytes ctx')"
proof (induction attrs arbitrary: ctx)
  case (Cons a attrs)
  obtain n v where a: "a = (n, v)" by (cases a)
  note IH = Cons.IH
  from Cons.prems show ?case
    by (auto simp: a Let_def split: if_splits dest!: IH store_key_grows store_value_grows)
qed simp

lemma remember_bytes: "remember_jump_position ctx = Inr ctx' \<Longrightarrow> bytes ctx' = bytes ctx"
  by (auto simp: remember_jump_position_def split: if_splits)

lemma start_grows: "start el attrs ctx = Inr (go, ctx') \<Longrightarrow> length (bytes ctx) \<le> length (bytes ctx')"
  by (fastforce simp: start_def Let_def split: if_splits
      dest!: store_rule_grows start_attrs_grows remember_bytes)

lemma cdata_grows: "cdata s ctx = Inr (go, ctx') \<Longrightarrow> length (bytes ctx) \<le> length (bytes ctx')"
  by (auto simp: cdata_def split: if_splits dest!: store_value_grows)

lemma end_tag_grows: "end_tag el ctx = Inr (go, ctx') \<Longrightarrow> length (bytes ctx) \<le> length (bytes ctx')"
  by (fastforce simp: end_tag_def Let_def split: if_splits dest!: store_rule_grows set_jump_grows)

lemma run_events_grows: "run_events es ctx = Inr (go, ctx') \<Longrightarrow> length (bytes ctx) \<le> length (bytes ctx')"
proof (induction es ctx rule: run_events.induct)
  case (2 el attrs single es ctx)
  then show ?case
    by (fastforce split: if_splits dest!: start_grows end_tag_grows)
qed (fastforce split: if_splits dest!: cdata_grows end_tag_grows)+

lemma run_events_append:
  "run_events (es @ fs) ctx =
     err_bind (run_events es ctx) (\<lambda>(go, ctx). if go then run_events fs ctx else Inr (False, ctx))"
proof (induction es ctx rule: run_events.induct)
  case (2 el attrs single es ctx)
  then show ?case
    by (cases "start el attrs ctx"; cases "end_tag el (snd (projr (start el attrs ctx)))")
      (auto split: prod.splits)
next
  case (3 s es ctx)
  then show ?case by (cases "cdata s ctx") (auto split: prod.splits)
next
  case (4 el es ctx)
  then show ?case by (cases "end_tag el ctx") (auto split: prod.splits)
qed simp

section \<open>The rules stored so far\<close>

text \<open>
  The rules from an offset on, as the parser has seen them: the last one is still pending while its
  element is open, with key and value in the file and the structure in memory.
\<close>

definition header_ok :: "string \<Rightarrow> bool" where
  "header_ok b \<longleftrightarrow> 20 \<le> length b \<and> slice b 16 4 = zeros 4"

definition idle :: "fdi_context \<Rightarrow> bool" where
  "idle ctx \<longleftrightarrow> sr_rtype (ctx_rule ctx) = RULE_UNKNOWN"

definition view :: "nat \<Rightarrow> fdi_context \<Rightarrow> (nat \<times> rule) list \<Rightarrow> bool" where
  "view p ctx rs \<longleftrightarrow> header_ok (bytes ctx) \<and>
     (if idle ctx then laid (bytes ctx) p rs (RULES_ROUND (length (bytes ctx)))
      else \<exists>rs0 k v. rs = rs0 @ [(position ctx, rule_of (ctx_rule ctx) k v)] \<and>
             laid (bytes ctx) p rs0 (position ctx) \<and> pending (bytes ctx) (position ctx) (ctx_rule ctx) k v \<and>
             sr_jump_position (ctx_rule ctx) = 0)"

definition end_of :: "fdi_context \<Rightarrow> nat" where
  "end_of ctx = RULES_ROUND (length (bytes ctx))"

definition same_stack :: "fdi_context \<Rightarrow> fdi_context \<Rightarrow> bool" where
  "same_stack ctx ctx' \<longleftrightarrow> depth ctx' = depth ctx \<and>
     length (match_at_depth ctx') = length (match_at_depth ctx) \<and>
     take (depth ctx) (match_at_depth ctx') = take (depth ctx) (match_at_depth ctx)"

lemma same_stack_refl [simp]: "same_stack ctx ctx"
  by (simp add: same_stack_def)

lemma same_stack_trans: "same_stack a b \<Longrightarrow> same_stack b c \<Longrightarrow> same_stack a c"
  by (simp add: same_stack_def)

lemma pending_length: "pending b pos s k v \<Longrightarrow> RULES_ROUND (length b) = pos + rule_size (rule_of s k v)"
proof -
  assume "pending b pos s k v"
  then have "8 dvd pos" "length b = pos + (48 + ROUND32 (sr_key_len s) + ROUND32 (sr_value_len s))"
    by (simp_all add: pending_def)
  then show ?thesis using ROUND_add [of 8 pos] by (simp add: rule_of_def RULES_ROUND_def sizeof_rule_def)
qed

lemma store_rule_view:
  assumes "view p ctx rs" and "store_rule ctx = Inr ctx'" and "length (bytes ctx) < 2 ^ 32"
  shows "view p ctx' rs \<and> idle ctx' \<and> same_stack ctx ctx' \<and> length (bytes ctx') = length (bytes ctx)"
proof -
  let ?s = "ctx_rule ctx"
  let ?s' = "?s\<lparr>sr_rule_size := RULES_ROUND (sizeof_rule + ROUND32 (sr_key_len ?s) + ROUND32 (sr_value_len ?s))\<rparr>"
  have not: "\<not> idle ctx" using assms(2) by (auto simp: store_rule_def idle_def)
  then obtain rs0 k v where rs: "rs = rs0 @ [(position ctx, rule_of ?s k v)]"
    and l: "laid (bytes ctx) p rs0 (position ctx)" and pend: "pending (bytes ctx) (position ctx) ?s k v"
    and j: "sr_jump_position ?s = 0" and h: "header_ok (bytes ctx)"
    using assms(1) by (auto simp: view_def)
  have pos: "8 dvd position ctx" "20 \<le> position ctx" "position ctx + 48 \<le> length (bytes ctx)"
    using pend by (auto simp: pending_def)
  have "encode_rule ?s' \<noteq> []" by (metis length_encode_rule list.size(3) zero_neq_numeral)
  moreover have "4 dvd position ctx + 48" using pos(1) by presburger
  ultimately have b': "bytes ctx' = write_at (bytes ctx) (position ctx) (encode_rule ?s')"
    and ctx': "ctx_rule ctx' = init_rule_struct" "same_stack ctx ctx'"
    using assms(2) pad32_write_bytes [of "encode_rule ?s'" "position ctx" "cache_fd ctx"]
      padded_aligned [of "position ctx" "encode_rule ?s'"]
    by (auto simp: store_rule_def Let_def same_stack_def split: if_splits)
  have len: "length (bytes ctx') = length (bytes ctx)" using pos(3) by (simp add: b' max_def)
  have "slice (bytes ctx') 16 4 = zeros 4"
    using slice_write_at_before [of 16 4 "position ctx" "bytes ctx"] pos(2) h by (simp add: b' header_ok_def)
  moreover have "laid (bytes ctx') p rs (RULES_ROUND (length (bytes ctx)))"
    unfolding b' rs by (rule laid_store [OF l pend j assms(3)])
  moreover have "idle ctx'" by (simp add: idle_def ctx' init_rule_struct_def)
  ultimately show ?thesis using h len ctx' by (simp add: view_def header_ok_def)
qed

text \<open>The start of an element stores the rule before it.\<close>

definition flush :: "fdi_context \<Rightarrow> memory_error + fdi_context" where
  "flush ctx = (if sr_rtype (ctx_rule ctx) \<noteq> RULE_UNKNOWN then store_rule ctx else Inr ctx)"

lemma flush_view:
  assumes "view p ctx rs" and "flush ctx = Inr ctx'" and "length (bytes ctx) < 2 ^ 32"
  shows "view p ctx' rs \<and> idle ctx' \<and> same_stack ctx ctx' \<and> length (bytes ctx') = length (bytes ctx)"
  using store_rule_view [OF assms(1) _ assms(3)] assms(1,2) by (auto simp: flush_def idle_def split: if_splits)

section \<open>Attributes\<close>

text \<open>Just after the start of a rule element, before its key.\<close>

definition fresh_rule :: "fdi_context \<Rightarrow> bool" where
  "fresh_rule ctx \<longleftrightarrow> header_ok (bytes ctx) \<and> position ctx = RULES_ROUND (length (bytes ctx)) \<and>
     sr_value_len (ctx_rule ctx) = 0 \<and> sr_value_offset (ctx_rule ctx) = 16 \<and> sr_key_len (ctx_rule ctx) = 0 \<and>
     sr_jump_position (ctx_rule ctx) = 0 \<and> sr_type_match (ctx_rule ctx) = MATCH_UNKNOWN"

text \<open>What an element has in the file once its key is there.\<close>

definition open_rule :: "fdi_context \<Rightarrow> string \<Rightarrow> string \<Rightarrow> bool" where
  "open_rule ctx k v \<longleftrightarrow> pending (bytes ctx) (position ctx) (ctx_rule ctx) k v \<and> header_ok (bytes ctx) \<and>
     sr_jump_position (ctx_rule ctx) = 0"

text \<open>Everything before the rule at the current position is kept.\<close>

definition keeps_before :: "fdi_context \<Rightarrow> fdi_context \<Rightarrow> bool" where
  "keeps_before ctx ctx' \<longleftrightarrow>
     position ctx' = position ctx \<and> sr_rtype (ctx_rule ctx') = sr_rtype (ctx_rule ctx) \<and>
     depth ctx' = depth ctx \<and> match_at_depth ctx' = match_at_depth ctx \<and>
     (\<forall>n \<le> length (bytes ctx). n \<le> position ctx \<longrightarrow> take n (bytes ctx') = take n (bytes ctx))"

lemma keeps_before_refl [simp]: "keeps_before ctx ctx"
  by (simp add: keeps_before_def)

lemma keeps_before_trans:
  "keeps_before a b \<Longrightarrow> keeps_before b c \<Longrightarrow> length (bytes a) \<le> length (bytes b) \<Longrightarrow> keeps_before a c"
  by (simp add: keeps_before_def)

lemma store_key_open:
  assumes "fresh_rule ctx" and run: "store_key k ctx = Inr ctx'" and "CHR 0x00 \<notin> set k"
  shows "open_rule ctx' k [] \<and> keeps_before ctx ctx' \<and> k \<noteq> [] \<and>
    ctx_rule ctx' = (ctx_rule ctx)\<lparr>sr_key_len := length k + 1\<rparr>"
proof -
  have f: "header_ok (bytes ctx)" "position ctx = RULES_ROUND (length (bytes ctx))"
    "sr_value_len (ctx_rule ctx) = 0" "sr_value_offset (ctx_rule ctx) = 16" "sr_jump_position (ctx_rule ctx) = 0"
    using assms(1) by (auto simp: fresh_rule_def)
  have pos: "8 dvd position ctx" "length (bytes ctx) \<le> position ctx" "20 \<le> position ctx"
    using RULES_ROUND_facts(1,3) [of "length (bytes ctx)"] f(1,2) by (auto simp: header_ok_def)
  have h: "slice (bytes ctx) 16 4 = zeros 4" "20 \<le> length (bytes ctx)" using f(1) by (simp_all add: header_ok_def)
  note sk = store_key_pending [OF run refl pos(1,3,2) h f(3,4) assms(3)]
  have r': "ctx_rule ctx' = (ctx_rule ctx)\<lparr>sr_key_len := length k + 1\<rparr>" using run by (auto simp: store_key_def split: if_splits)
  have same: "position ctx' = position ctx" "depth ctx' = depth ctx" "match_at_depth ctx' = match_at_depth ctx"
    using run by (auto simp: store_key_def split: if_splits)
  have "take n (bytes ctx') = take n (bytes ctx)" if "n \<le> length (bytes ctx)" for n
    using sk(3) that by (metis min_absorb1 take_take)
  then have "keeps_before ctx ctx'" using same r' by (simp add: keeps_before_def)
  moreover have "header_ok (bytes ctx')" using sk(2) by (auto simp: pending_def header_ok_def)
  moreover have "k \<noteq> []" using run by (auto simp: store_key_def split: if_splits)
  ultimately show ?thesis using sk(2) same r' f(5) by (simp add: open_rule_def)
qed

lemma store_value_open:
  assumes "open_rule ctx k v" and run: "store_value w ctx = Inr ctx'" and "CHR 0x00 \<notin> set w"
  shows "open_rule ctx' k (v @ w) \<and> keeps_before ctx ctx' \<and>
    sr_type_match (ctx_rule ctx') = sr_type_match (ctx_rule ctx) \<and>
    sr_type_merge (ctx_rule ctx') = sr_type_merge (ctx_rule ctx)"
proof -
  have pend: "pending (bytes ctx) (position ctx) (ctx_rule ctx) k v" and j: "sr_jump_position (ctx_rule ctx) = 0"
    using assms(1) by (auto simp: open_rule_def)
  note sv = store_value_pending [OF run refl pend assms(3)]
  have same: "position ctx' = position ctx" "depth ctx' = depth ctx" "match_at_depth ctx' = match_at_depth ctx"
    "sr_jump_position (ctx_rule ctx') = 0" "sr_rtype (ctx_rule ctx') = sr_rtype (ctx_rule ctx)"
    "sr_type_match (ctx_rule ctx') = sr_type_match (ctx_rule ctx)" "sr_type_merge (ctx_rule ctx') = sr_type_merge (ctx_rule ctx)"
    using run j by (auto simp: store_value_def Let_def split: if_splits)
  have "take n (bytes ctx') = take n (bytes ctx)" if "n \<le> position ctx" for n
    using arg_cong [of _ _ "take n", OF sv [THEN conjunct2, THEN conjunct1]] that by (simp add: min_def)
  then have "keeps_before ctx ctx'" using same by (simp add: keeps_before_def)
  moreover have "header_ok (bytes ctx')" using sv by (auto simp: pending_def header_ok_def)
  ultimately show ?thesis using sv same by (simp add: open_rule_def)
qed

text \<open>The tests of a match element.\<close>

lemma start_attrs_match:
  assumes "open_rule ctx k v" and "sr_rtype (ctx_rule ctx) = RULE_MATCH"
    and "start_attrs tests ctx = Inr (True, ctx')" and "\<forall>(n, w) \<in> set tests. CHR 0x00 \<notin> set w"
  shows "list_all (\<lambda>(t, _). t \<noteq> ''key'' \<and> get_match_type t \<noteq> MATCH_UNKNOWN) tests \<and>
    open_rule ctx' k (v @ concat (map snd tests)) \<and> keeps_before ctx ctx' \<and>
    sr_type_match (ctx_rule ctx') =
      (if tests = [] then sr_type_match (ctx_rule ctx) else get_match_type (fst (last tests))) \<and>
    sr_type_merge (ctx_rule ctx') = sr_type_merge (ctx_rule ctx)"
  using assms
proof (induction tests arbitrary: ctx v)
  case (Cons a tests)
  obtain n w where a: "a = (n, w)" by (cases a)
  have klen: "sr_key_len (ctx_rule ctx) > 0" using Cons.prems(1) by (simp add: open_rule_def pending_def)
  let ?ctx = "ctx\<lparr>ctx_rule := (ctx_rule ctx)\<lparr>sr_type_match := get_match_type n\<rparr>\<rparr>"
  obtain c1 where n: "n \<noteq> ''key''" "get_match_type n \<noteq> MATCH_UNKNOWN" and c1: "store_value w ?ctx = Inr c1"
    and rest: "start_attrs tests c1 = Inr (True, ctx')"
    using Cons.prems(2,3) klen by (auto simp: a Let_def split: if_splits)
  have "open_rule ?ctx k v" using Cons.prems(1) by (cases "v = []") (auto simp: open_rule_def pending_def)
  from store_value_open [OF this c1] Cons.prems(4)
  have o1: "open_rule c1 k (v @ w)" and kb: "keeps_before ?ctx c1"
    and t1: "sr_type_match (ctx_rule c1) = get_match_type n" "sr_type_merge (ctx_rule c1) = sr_type_merge (ctx_rule ctx)"
    by (simp_all add: a)
  have r1: "sr_rtype (ctx_rule c1) = RULE_MATCH" using kb Cons.prems(2) by (simp add: keeps_before_def)
  have grow: "length (bytes ctx) \<le> length (bytes c1)" using store_value_grows [OF c1] by simp
  have kb1: "keeps_before ctx c1" using kb by (simp add: keeps_before_def)
  from Cons.IH [OF o1 r1 rest] Cons.prems(4) n t1 keeps_before_trans [OF kb1 _ grow]
  show ?case by (auto simp: a)
qed simp

text \<open>The attributes of any other rule, once its key is stored.\<close>

lemma start_attrs_other:
  assumes "sr_key_len (ctx_rule ctx) > 0" and "sr_rtype (ctx_rule ctx) = t" and "t \<noteq> RULE_MATCH" and "t \<noteq> RULE_UNKNOWN"
    and "start_attrs attrs ctx = Inr (True, ctx')"
  shows "list_all (\<lambda>(n, _). \<not> is_key t n) attrs \<and> types_known t attrs \<and>
    ctx' = ctx\<lparr>ctx_rule := (ctx_rule ctx)\<lparr>sr_type_merge := merge_of t (sr_type_merge (ctx_rule ctx)) attrs\<rparr>\<rparr>"
  using assms
proof (induction attrs arbitrary: ctx)
  case (Cons a attrs)
  obtain n w where a: "a = (n, w)" by (cases a)
  have nk: "\<not> is_key t n" using Cons.prems by (auto simp: a is_key_def split: if_splits)
  show ?case
  proof (cases "t \<noteq> RULE_SPAWN \<and> n = ''type''")
    case True
    let ?ctx = "ctx\<lparr>ctx_rule := (ctx_rule ctx)\<lparr>sr_type_merge := get_merge_type w\<rparr>\<rparr>"
    have "get_merge_type w \<noteq> MERGE_UNKNOWN" "start_attrs attrs ?ctx = Inr (True, ctx')"
      using Cons.prems True by (auto simp: a Let_def split: if_splits)
    with Cons.IH [of ?ctx] Cons.prems True nk show ?thesis by (auto simp: a types_known_def)
  next
    case False
    then have "start_attrs attrs ctx = Inr (True, ctx')"
      using Cons.prems nk by (auto simp: a Let_def is_key_def split: if_splits)
    with Cons.IH [of ctx] Cons.prems False nk show ?thesis by (auto simp: a types_known_def)
  qed
qed (simp add: types_known_def)

lemma start_attrs_fresh:
  assumes "fresh_rule ctx" and "sr_rtype (ctx_rule ctx) = t" and "t \<noteq> RULE_MATCH" and "t \<noteq> RULE_UNKNOWN"
    and "start_attrs attrs ctx = Inr (True, ctx')" and "sr_key_len (ctx_rule ctx') \<noteq> 0"
    and "\<forall>(n, w) \<in> set attrs. CHR 0x00 \<notin> set w"
  shows "\<exists>n k. filter (\<lambda>(n, _). is_key t n) attrs = [(n, k)] \<and> k \<noteq> [] \<and> types_known t attrs \<and>
    open_rule ctx' k [] \<and> keeps_before ctx ctx' \<and> sr_type_match (ctx_rule ctx') = MATCH_UNKNOWN \<and>
    sr_type_merge (ctx_rule ctx') = merge_of t (sr_type_merge (ctx_rule ctx)) attrs"
  using assms
proof (induction attrs arbitrary: ctx)
  case (Cons a attrs)
  obtain n w where a: "a = (n, w)" by (cases a)
  have klen: "sr_key_len (ctx_rule ctx) = 0" using Cons.prems(1) by (simp add: fresh_rule_def)
  show ?case
  proof (cases "is_key t n")
    case True
    then obtain c1 where c1: "store_key w ctx = Inr c1" and rest: "start_attrs attrs c1 = Inr (True, ctx')"
      using Cons.prems(2,5) klen by (auto simp: a is_key_def)
    have "CHR 0x00 \<notin> set w" using Cons.prems(7) by (simp add: a)
    note sk = store_key_open [OF Cons.prems(1) c1 this]
    then have "sr_key_len (ctx_rule c1) > 0" "sr_rtype (ctx_rule c1) = t" using Cons.prems(2) by simp_all
    from start_attrs_other [OF this Cons.prems(3,4) rest]
    have so: "list_all (\<lambda>(n, _). \<not> is_key t n) attrs" "types_known t attrs"
      "ctx' = c1\<lparr>ctx_rule := (ctx_rule c1)\<lparr>sr_type_merge := merge_of t (sr_type_merge (ctx_rule c1)) attrs\<rparr>\<rparr>"
      by auto
    have "filter (\<lambda>(n, _). is_key t n) attrs = []"
      using so(1) by (auto simp: filter_empty_conv list_all_iff)
    moreover have "n \<noteq> ''type''" using True by (auto simp: is_key_def)
    moreover have "open_rule ctx' w []" "keeps_before ctx ctx'" "sr_type_match (ctx_rule ctx') = MATCH_UNKNOWN"
      using sk so(3) Cons.prems(1) by (auto simp: open_rule_def pending_def keeps_before_def fresh_rule_def)
    ultimately show ?thesis using True sk so by (simp add: a types_known_def)
  next
    case False
    show ?thesis
    proof (cases "t \<noteq> RULE_SPAWN \<and> n = ''type''")
      case True
      let ?ctx = "ctx\<lparr>ctx_rule := (ctx_rule ctx)\<lparr>sr_type_merge := get_merge_type w\<rparr>\<rparr>"
      have g: "get_merge_type w \<noteq> MERGE_UNKNOWN" "start_attrs attrs ?ctx = Inr (True, ctx')"
        using Cons.prems True by (auto simp: a Let_def split: if_splits)
      have "fresh_rule ?ctx" using Cons.prems(1) by (simp add: fresh_rule_def)
      from Cons.IH [OF this _ Cons.prems(3,4) g(2) Cons.prems(6)] Cons.prems(2,7)
      show ?thesis using False True g(1) by (auto simp: a types_known_def keeps_before_def)
    next
      case nt: False
      then have "start_attrs attrs ctx = Inr (True, ctx')"
        using Cons.prems False by (auto simp: a Let_def is_key_def split: if_splits)
      from Cons.IH [OF Cons.prems(1-4) this Cons.prems(6)] Cons.prems(7)
      show ?thesis using False nt by (auto simp: a types_known_def)
    qed
  qed
qed (simp add: fresh_rule_def)

section \<open>Tags\<close>

lemma get_rule_type_cases: "get_rule_type el \<noteq> RULE_EOF"
  by (simp add: get_rule_type_def)

lemma view_open:
  assumes "view p ctx rs" and "idle ctx" and "position c1 = end_of ctx" and "open_rule c2 k v" and "keeps_before c1 c2"
    and "bytes c1 = bytes ctx" and "sr_rtype (ctx_rule c1) \<noteq> RULE_UNKNOWN"
  shows "view p c2 (rs @ [(end_of ctx, rule_of (ctx_rule c2) k v)])"
proof -
  have l: "laid (bytes ctx) p rs (end_of ctx)" using assms(1,2) by (simp add: view_def end_of_def)
  have "length (bytes ctx) \<le> position c1"
    using RULES_ROUND_facts(1) assms(3) by (simp add: end_of_def)
  then have "take (length (bytes ctx)) (bytes c2) = bytes ctx"
    using assms(5,6) by (auto simp: keeps_before_def)
  then have "laid (bytes c2) p rs (end_of ctx)" using laid_prefix [OF l] by blast
  moreover have "position c2 = end_of ctx" "\<not> idle c2" using assms(3,5,7) by (auto simp: keeps_before_def idle_def)
  ultimately show ?thesis using assms(4) by (auto simp: view_def open_rule_def)
qed

lemma rule_of_open:
  "open_rule ctx k v \<Longrightarrow> rule_of (ctx_rule ctx) k v =
     mk_rule (sr_rtype (ctx_rule ctx)) (sr_type_match (ctx_rule ctx)) (sr_type_merge (ctx_rule ctx)) k v"
  by (auto simp: open_rule_def pending_def rule_of_def mk_rule_def sizeof_rule_def split: if_splits)

text \<open>The context in which the attributes of an element are read.\<close>

definition element :: "rule_type \<Rightarrow> fdi_context \<Rightarrow> fdi_context" where
  "element t ctx = ctx\<lparr>ctx_rule := init_rule_struct\<lparr>sr_rtype := t\<rparr>,
     position := RULES_ROUND (length (bytes ctx)), cache_fd := seek_end (cache_fd ctx)\<rparr>"

lemma start_eq:
  "start el attrs ctx =
     err_bind (flush ctx) (\<lambda>ctx.
       if get_rule_type el = RULE_UNKNOWN then Inr (True, element RULE_UNKNOWN ctx)
       else err_bind (start_attrs attrs (element (get_rule_type el) ctx)) (\<lambda>(go, ctx).
              if \<not> go then Inr (False, ctx)
              else if sr_key_len (ctx_rule ctx) = 0 then Inr (False, ctx)
              else if sr_rtype (ctx_rule ctx) = RULE_MATCH
              then err_bind (remember_jump_position ctx) (\<lambda>ctx. Inr (True, ctx))
              else Inr (True, ctx)))"
  unfolding start_def flush_def element_def Let_def by (simp cong: if_cong)

lemma element_simps [simp]:
  "bytes (element t ctx) = bytes ctx" "position (element t ctx) = end_of ctx" "sr_rtype (ctx_rule (element t ctx)) = t"
  "depth (element t ctx) = depth ctx" "match_at_depth (element t ctx) = match_at_depth ctx"
  "sr_type_merge (ctx_rule (element t ctx)) = MERGE_UNKNOWN" "idle (element t ctx) \<longleftrightarrow> t = RULE_UNKNOWN"
  by (simp_all add: element_def end_of_def init_rule_struct_def idle_def)

lemma fresh_element: "header_ok (bytes ctx) \<Longrightarrow> fresh_rule (element t ctx)"
  by (simp add: fresh_rule_def element_def init_rule_struct_def offsetof_empty_string_def)

lemma start_unknown:
  assumes "view p ctx rs" and "start el attrs ctx = Inr (True, ctx')" and "get_rule_type el = RULE_UNKNOWN"
    and "length (bytes ctx) < 2 ^ 32"
  shows "view p ctx' rs \<and> idle ctx' \<and> same_stack ctx ctx' \<and> end_of ctx' = end_of ctx"
proof -
  obtain c0 where c0: "flush ctx = Inr c0" and ctx': "ctx' = element RULE_UNKNOWN c0"
    using assms(2,3) by (auto simp: start_eq)
  note f = flush_view [OF assms(1) c0 assms(4)]
  then have "view p ctx' rs" by (auto simp: view_def ctx')
  then show ?thesis using f by (simp add: ctx' same_stack_def end_of_def)
qed

lemma start_match:
  assumes "view p ctx rs" and "start el attrs ctx = Inr (True, ctx')" and "get_rule_type el = RULE_MATCH"
    and "length (bytes ctx) < 2 ^ 32" and "\<forall>(n, w) \<in> set attrs. CHR 0x00 \<notin> set w"
    and "length (match_at_depth ctx) = HAL_MAX_INDENT_DEPTH"
  shows "\<exists>r. match_elem attrs = Some r \<and> view p ctx' (rs @ [(end_of ctx, r)]) \<and>
    sr_rtype (ctx_rule ctx') = RULE_MATCH \<and> depth ctx' = Suc (depth ctx) \<and>
    length (match_at_depth ctx') = HAL_MAX_INDENT_DEPTH \<and> depth ctx < HAL_MAX_INDENT_DEPTH \<and>
    match_at_depth ctx' ! depth ctx = end_of ctx mod 2 ^ 32 \<and>
    take (depth ctx) (match_at_depth ctx') = take (depth ctx) (match_at_depth ctx)"
proof -
  obtain c0 c2 where c0: "flush ctx = Inr c0" and c2: "start_attrs attrs (element RULE_MATCH c0) = Inr (True, c2)"
    and key: "sr_key_len (ctx_rule c2) \<noteq> 0" and rem: "remember_jump_position c2 = Inr ctx' \<or> sr_rtype (ctx_rule c2) \<noteq> RULE_MATCH"
    using assms(2,3) by (auto simp: start_eq split: if_splits)
  note f = flush_view [OF assms(1) c0 assms(4)]
  have fresh: "fresh_rule (element RULE_MATCH c0)" using f by (intro fresh_element) (simp add: view_def)
  then have klen: "sr_key_len (ctx_rule (element RULE_MATCH c0)) = 0" by (simp add: fresh_rule_def)
  obtain n k tests where attrs: "attrs = (n, k) # tests"
    using c2 key klen by (cases attrs) auto
  have n: "n = ''key''" using c2 klen by (auto simp: attrs Let_def split: if_splits)
  then obtain c1 where c1: "store_key k (element RULE_MATCH c0) = Inr c1" and rest: "start_attrs tests c1 = Inr (True, c2)"
    using c2 klen by (auto simp: attrs)
  note sk = store_key_open [OF fresh c1]
  have o1: "open_rule c1 k []" and kb1: "keeps_before (element RULE_MATCH c0) c1" and "k \<noteq> []"
    and t1: "sr_rtype (ctx_rule c1) = RULE_MATCH" "sr_type_match (ctx_rule c1) = MATCH_UNKNOWN" "sr_type_merge (ctx_rule c1) = MERGE_UNKNOWN"
    using sk assms(5) fresh by (auto simp: attrs fresh_rule_def)
  note sm = start_attrs_match [OF o1 t1(1) rest]
  let ?v = "concat (map snd tests)"
  have o2: "open_rule c2 k ?v" and tests: "list_all (\<lambda>(t, _). t \<noteq> ''key'' \<and> get_match_type t \<noteq> MATCH_UNKNOWN) tests"
    and kb2: "keeps_before c1 c2"
    and t2: "sr_type_match (ctx_rule c2) = (if tests = [] then MATCH_UNKNOWN else get_match_type (fst (last tests)))"
      "sr_type_merge (ctx_rule c2) = MERGE_UNKNOWN"
    using sm assms(5) t1 by (auto simp: attrs)
  have kb: "keeps_before (element RULE_MATCH c0) c2"
    using keeps_before_trans [OF kb1 kb2] store_key_grows [OF c1] by simp
  then have r2: "sr_rtype (ctx_rule c2) = RULE_MATCH" by (simp add: keeps_before_def)
  have e: "end_of c0 = end_of ctx" using f by (simp add: end_of_def)
  let ?r = "rule_of (ctx_rule c2) k ?v"
  have "view p c2 (rs @ [(end_of c0, ?r)])"
    by (rule view_open [OF _ _ _ o2 kb]) (use f in simp_all)
  moreover have "match_elem attrs = Some ?r"
    using rule_of_open [OF o2] tests n \<open>k \<noteq> []\<close> t2 r2 by (simp add: attrs match_elem_def)
  moreover have ctx': "ctx' = c2\<lparr>match_at_depth := (match_at_depth c2)[depth c2 := position c2 mod 2 ^ 32], depth := depth c2 + 1\<rparr>"
    "depth c2 < HAL_MAX_INDENT_DEPTH"
    using rem r2 by (auto simp: remember_jump_position_def split: if_splits)
  moreover have "position c2 = end_of ctx" "depth c2 = depth ctx" "match_at_depth c2 = match_at_depth c0"
    "length (match_at_depth c0) = HAL_MAX_INDENT_DEPTH" "take (depth ctx) (match_at_depth c0) = take (depth ctx) (match_at_depth ctx)"
    using kb f e assms(6) by (auto simp: keeps_before_def same_stack_def)
  ultimately show ?thesis using r2 e by (auto simp: view_def idle_def)
qed

lemma start_other:
  assumes "view p ctx rs" and "start el attrs ctx = Inr (True, ctx')" and "get_rule_type el = t"
    and "t \<noteq> RULE_MATCH" and "t \<noteq> RULE_UNKNOWN"
    and "length (bytes ctx) < 2 ^ 32" and "\<forall>(n, w) \<in> set attrs. CHR 0x00 \<notin> set w"
  shows "\<exists>k. (\<forall>v. other_elem t attrs v = Some (mk_rule t MATCH_UNKNOWN (merge_of t MERGE_UNKNOWN attrs) k v)) \<and>
    open_rule ctx' k [] \<and> view p ctx' (rs @ [(end_of ctx, mk_rule t MATCH_UNKNOWN (merge_of t MERGE_UNKNOWN attrs) k [])]) \<and>
    sr_rtype (ctx_rule ctx') = t \<and> same_stack ctx ctx' \<and> position ctx' = end_of ctx \<and>
    sr_type_match (ctx_rule ctx') = MATCH_UNKNOWN \<and> sr_type_merge (ctx_rule ctx') = merge_of t MERGE_UNKNOWN attrs"
proof -
  obtain c0 where c0: "flush ctx = Inr c0" and c2: "start_attrs attrs (element t c0) = Inr (True, ctx')"
    and key: "sr_key_len (ctx_rule ctx') \<noteq> 0"
  proof -
    obtain c0 c2 where c: "flush ctx = Inr c0" "start_attrs attrs (element t c0) = Inr (True, c2)" "sr_key_len (ctx_rule c2) \<noteq> 0"
      "if sr_rtype (ctx_rule c2) = RULE_MATCH then remember_jump_position c2 = Inr ctx' else ctx' = c2"
      using assms(2,3,5) by (auto simp: start_eq split: if_splits)
    have "fresh_rule (element t c0)" using flush_view [OF assms(1) c(1) assms(6)] by (intro fresh_element) (simp add: view_def)
    from start_attrs_fresh [OF this _ assms(4,5) c(2,3) assms(7)] have "keeps_before (element t c0) c2" by auto
    then have "sr_rtype (ctx_rule c2) = t" by (simp add: keeps_before_def)
    with c assms(4) that show ?thesis by auto
  qed
  note f = flush_view [OF assms(1) c0 assms(6)]
  have "fresh_rule (element t c0)" using f by (intro fresh_element) (simp add: view_def)
  from start_attrs_fresh [OF this _ assms(4,5) c2 key assms(7)] obtain n k where
    fl: "filter (\<lambda>(n, _). is_key t n) attrs = [(n, k)]" "k \<noteq> []" "types_known t attrs" and o: "open_rule ctx' k []"
    and kb: "keeps_before (element t c0) ctx'" and m: "sr_type_match (ctx_rule ctx') = MATCH_UNKNOWN"
      "sr_type_merge (ctx_rule ctx') = merge_of t MERGE_UNKNOWN attrs"
    by auto
  have e: "end_of c0 = end_of ctx" using f by (simp add: end_of_def)
  have "view p ctx' (rs @ [(end_of c0, rule_of (ctx_rule ctx') k [])])"
    by (rule view_open [OF _ _ _ o kb]) (use f assms(5) in simp_all)
  moreover have r: "sr_rtype (ctx_rule ctx') = t" "position ctx' = end_of ctx" "same_stack ctx ctx'"
    using kb f e by (auto simp: keeps_before_def same_stack_def)
  ultimately show ?thesis
    using fl o m rule_of_open [OF o] e by (auto simp: other_elem_def)
qed

end
