(* ===== verification/Hal_Cache_Tree.thy ===== *)
theory Hal_Cache_Tree
  imports Hal_Cache_View
begin

text \<open>
  Whole elements: text, end tags and the nesting of match elements. A document that the callbacks
  accept stands for a list of blocks, and its layout is what the file holds afterwards.
\<close>

section \<open>Text\<close>

lemma laid_same_prefix:
  assumes "laid b p rs q" and "take q b' = take q b" and "length b \<le> length b'"
  shows "laid b' p rs q"
  using assms(1)
proof (induction rs arbitrary: p)
  case (Cons x rs)
  obtain off r where x: "x = (off, r)" by (cases x)
  with Cons.prems have l: "off = p" "image b off r" "laid b (off + rule_size r) rs q" by auto
  have q: "off + rule_size r \<le> q" "20 \<le> off" using laid_offsets [OF l(3)] l(2) by (auto simp: image_def)
  have same: "slice b' o' n = slice b o' n" if "o' + n \<le> q" for o' n
    using slice_take [OF that, of b'] slice_take [OF that, of b] assms(2) by simp
  have "slice b' off (e - off) = slice b off (e - off)" if "e \<le> off + rule_size r" for e
    using same [of off "e - off"] that q by (cases "off \<le> e") (simp_all add: slice_def)
  then have "image b' off r"
    using image_frame [OF l(2) same assms(3)] q by simp
  with Cons.IH [OF l(3)] l(1) show ?case by (simp add: x)
qed simp

lemma view_header: "view p ctx rs \<Longrightarrow> header_ok (bytes ctx)"
  by (simp add: view_def)

lemma view_last:
  assumes "view p ctx (rs @ [(e, r)])"
  shows "end_of ctx = e + rule_size r"
  using assms pending_length by (auto simp: view_def end_of_def laid_append split: if_splits)

lemma view_more:
  assumes "view p ctx (rs @ [x])" and "\<not> idle ctx" and "open_rule ctx' k v" and "keeps_before ctx ctx'"
    and "length (bytes ctx) \<le> length (bytes ctx')"
  shows "view p ctx' (rs @ [(position ctx, rule_of (ctx_rule ctx') k v)])"
proof -
  have l: "laid (bytes ctx) p rs (position ctx)" and "position ctx \<le> length (bytes ctx)"
    using assms(1,2) by (auto simp: view_def pending_def)
  then have "laid (bytes ctx') p rs (position ctx)"
    using assms(4,5) laid_same_prefix [OF l] by (simp add: keeps_before_def)
  moreover have "\<not> idle ctx'" "position ctx' = position ctx" using assms(2,4) by (auto simp: keeps_before_def idle_def)
  ultimately show ?thesis using assms(3) by (auto simp: view_def open_rule_def)
qed

text \<open>Text between rules and inside a match has no effect; inside another rule it is appended to the value.\<close>

definition quiet :: "fdi_context \<Rightarrow> bool" where
  "quiet ctx \<longleftrightarrow> sr_rtype (ctx_rule ctx) \<in> {RULE_UNKNOWN, RULE_MATCH}"

lemma cdata_quiet: "quiet ctx \<Longrightarrow> cdata s ctx = Inr (True, ctx)"
  by (auto simp: quiet_def cdata_def)

lemma get_rule_type_range:
  "get_rule_type el \<in> {RULE_UNKNOWN, RULE_MATCH, RULE_MERGE, RULE_APPEND, RULE_PREPEND, RULE_REMOVE, RULE_CLEAR,
     RULE_SPAWN, RULE_ADDSET}"
  by (simp add: get_rule_type_def)

lemma cdata_open:
  assumes "open_rule ctx k v" and "sr_rtype (ctx_rule ctx) = get_rule_type el" and "get_rule_type el = t"
    and "t \<noteq> RULE_MATCH" and "t \<noteq> RULE_UNKNOWN" and "CHR 0x00 \<notin> set s" and "cdata s ctx = Inr (go, ctx')"
  shows "go \<and> open_rule ctx' k (v @ (if t = RULE_CLEAR then [] else s)) \<and> keeps_before ctx ctx' \<and>
    sr_type_match (ctx_rule ctx') = sr_type_match (ctx_rule ctx) \<and>
    sr_type_merge (ctx_rule ctx') = sr_type_merge (ctx_rule ctx)"
proof (cases "t = RULE_CLEAR")
  case True
  with assms show ?thesis by (auto simp: cdata_def)
next
  case False
  then have "go" "store_value s ctx = Inr ctx'"
    using assms(2-5,7) get_rule_type_range [of el] by (auto simp: cdata_def split: if_splits)
  with store_value_open [OF assms(1) this(2) assms(6)] False show ?thesis by simp
qed

lemma texts_open:
  assumes "list_all is_text kids" and "open_rule ctx k v" and "sr_rtype (ctx_rule ctx) = get_rule_type el"
    and "get_rule_type el = t" and "t \<noteq> RULE_MATCH" and "t \<noteq> RULE_UNKNOWN"
    and "\<forall>x \<in> set kids. CHR 0x00 \<notin> set (text_of x)"
    and "run_events (concat (map xml_events kids)) ctx = Inr (go, ctx')"
  shows "go \<and> open_rule ctx' k (v @ rule_text t kids) \<and> keeps_before ctx ctx' \<and>
    sr_type_match (ctx_rule ctx') = sr_type_match (ctx_rule ctx) \<and>
    sr_type_merge (ctx_rule ctx') = sr_type_merge (ctx_rule ctx)"
  using assms(1-3,7,8)
proof (induction kids arbitrary: ctx v)
  case (Cons x kids)
  then obtain s where x: "x = Txt s" by (cases x) auto
  obtain g c1 where c1: "cdata s ctx = Inr (g, c1)" and rest: "if g then run_events (concat (map xml_events kids)) c1 = Inr (go, ctx') else go = False"
    using Cons.prems(5) by (cases "cdata s ctx") (auto simp: x split: prod.splits if_splits)
  have "CHR 0x00 \<notin> set s" using Cons.prems(4) by (simp add: x)
  note c = cdata_open [OF Cons.prems(2,3) assms(4-6) this c1]
  let ?v = "v @ (if t = RULE_CLEAR then [] else s)"
  have o: "open_rule c1 k ?v" and r: "sr_rtype (ctx_rule c1) = get_rule_type el" and kb: "keeps_before ctx c1"
    using c Cons.prems(3) by (auto simp: keeps_before_def)
  have "run_events (concat (map xml_events kids)) c1 = Inr (go, ctx')" using rest c by simp
  from Cons.IH [OF _ o r _ this] Cons.prems(1,4) c keeps_before_trans [OF kb _ cdata_grows [OF c1]]
  show ?case by (auto simp: x rule_text_def)
qed (simp add: rule_text_def)

section \<open>End tags\<close>

lemma RULES_ROUND_mono: "m \<le> n \<Longrightarrow> RULES_ROUND m \<le> RULES_ROUND n"
  unfolding RULES_ROUND_def ROUND_def by (intro mult_le_mono1 div_le_mono) simp

lemma end_of_less: "end_of ctx < n \<Longrightarrow> length (bytes ctx) < n"
  using RULES_ROUND_facts(1) [of "length (bytes ctx)"] by (simp add: end_of_def)

lemma end_of_mono: "length (bytes ctx) \<le> length (bytes ctx') \<Longrightarrow> end_of ctx \<le> end_of ctx'"
  by (simp add: end_of_def RULES_ROUND_mono)

text \<open>The end of a match makes its rule jump to the end of the file.\<close>

lemma set_jump_view:
  assumes "view p ctx (rs1 @ (e, r) # rs2)" and "idle ctx" and "set_jump_position ctx = Inr ctx'"
    and "match_at_depth ctx ! (depth ctx - 1) = e" and "end_of ctx < 2 ^ 32"
  shows "view p ctx' (rs1 @ (e, r\<lparr>jump_position := end_of ctx\<rparr>) # rs2) \<and> idle ctx' \<and> end_of ctx' = end_of ctx \<and>
    depth ctx = Suc (depth ctx') \<and> match_at_depth ctx' = match_at_depth ctx"
proof -
  let ?b = "bytes ctx"
  have l: "laid ?b p (rs1 @ (e, r) # rs2) (end_of ctx)" and h: "header_ok ?b"
    using assms(1,2) by (simp_all add: view_def end_of_def)
  have im: "image ?b e r" using l by (auto simp: laid_append)
  then have e: "8 dvd e" "20 \<le> e" "e + 48 \<le> length ?b" by (auto simp: image_def)
  let ?d = "le_bytes 4 (end_of ctx)"
  have "?d \<noteq> []" by (metis length_le_bytes list.size(3) zero_neq_numeral)
  moreover have "4 dvd (e + 8) + length ?d" using e(1) by simp presburger
  moreover have "cache_fd ctx' = pad32_write (e + 8) (le_bytes 4 (end_of ctx mod 2 ^ 32)) (seek_end (cache_fd ctx))"
    using assms(3,4) by (auto simp: set_jump_position_def Let_def offsetof_jump_position_def end_of_def split: if_splits)
  moreover have "end_of ctx mod 2 ^ 32 = end_of ctx" using assms(5) by simp
  ultimately have b': "bytes ctx' = write_at ?b (e + 8) ?d"
    using pad32_write_bytes [of ?d "e + 8" "seek_end (cache_fd ctx)"] padded_aligned [of "e + 8" ?d] by simp
  have len: "length (bytes ctx') = length ?b" using e(3) by (simp add: b' max_def)
  have rest: "ctx_rule ctx' = ctx_rule ctx" "depth ctx = Suc (depth ctx')" "match_at_depth ctx' = match_at_depth ctx"
    using assms(3) by (auto simp: set_jump_position_def Let_def split: if_splits)
  have "header_ok (bytes ctx')"
    using slice_write_at_before [of 16 4 "e + 8" ?b] e h by (simp add: header_ok_def b')
  moreover have "end_of ctx' = end_of ctx" by (simp add: end_of_def len)
  moreover have "laid (bytes ctx') p (rs1 @ (e, r\<lparr>jump_position := end_of ctx\<rparr>) # rs2) (end_of ctx)"
    using laid_jump [OF l e(2), of "end_of ctx"] assms(5) by (simp add: b')
  ultimately show ?thesis using assms(2) rest by (simp add: view_def idle_def end_of_def)
qed

lemma end_match:
  assumes "view p ctx (rs1 @ (e, r) # rs2)" and "quiet ctx" and "end_tag el ctx = Inr (go, ctx')"
    and "get_rule_type el = RULE_MATCH" and "match_at_depth ctx ! (depth ctx - 1) = e" and "end_of ctx < 2 ^ 32"
    and "0 < depth ctx" and "depth ctx \<le> length (match_at_depth ctx)"
  shows "go \<and> view p ctx' (rs1 @ (e, r\<lparr>jump_position := end_of ctx\<rparr>) # rs2) \<and> idle ctx' \<and> end_of ctx' = end_of ctx \<and>
    depth ctx = Suc (depth ctx') \<and> length (match_at_depth ctx') = length (match_at_depth ctx) \<and>
    take (depth ctx) (match_at_depth ctx') = take (depth ctx) (match_at_depth ctx)"
proof -
  obtain c1 where c1: "flush ctx = Inr c1" and sj: "set_jump_position c1 = Inr ctx'" and go: "go"
    using assms(2-4) by (auto simp: end_tag_def flush_def quiet_def Let_def split: if_splits)
  note f = flush_view [OF assms(1) c1 end_of_less [OF assms(6)]]
  have e1: "end_of c1 = end_of ctx" using f by (simp add: end_of_def)
  have d: "depth c1 = depth ctx" and t: "take (depth ctx) (match_at_depth c1) = take (depth ctx) (match_at_depth ctx)"
    and len: "length (match_at_depth c1) = length (match_at_depth ctx)"
    using f by (auto simp: same_stack_def)
  have "match_at_depth c1 ! (depth ctx - 1) = match_at_depth ctx ! (depth ctx - 1)"
    using arg_cong [OF t, of "\<lambda>xs. xs ! (depth ctx - 1)"] assms(7) by simp
  then show ?thesis
    using set_jump_view [OF _ _ sj, of p rs1 e r rs2] f assms(5,6) e1 d t len go by simp
qed

lemma end_other:
  assumes "view p ctx rs" and "end_tag el ctx = Inr (True, ctx')" and "get_rule_type el = t"
    and "t \<noteq> RULE_MATCH" and "t \<noteq> RULE_UNKNOWN" and "length (bytes ctx) < 2 ^ 32"
  shows "view p ctx' rs \<and> idle ctx' \<and> same_stack ctx ctx' \<and> end_of ctx' = end_of ctx \<and> \<not> idle ctx"
  using store_rule_view [OF assms(1) _ assms(6), of ctx'] assms(2-5)
  by (auto simp: end_tag_def Let_def idle_def end_of_def split: if_splits)

section \<open>Documents\<close>

fun nul_free :: "xml \<Rightarrow> bool" where
  "nul_free (Txt s) \<longleftrightarrow> CHR 0x00 \<notin> set s"
| "nul_free (Elem el attrs single kids) \<longleftrightarrow>
     list_all (\<lambda>(_, v). CHR 0x00 \<notin> set v) attrs \<and> list_all nul_free kids"

text \<open>What the callbacks of an accepted document have done.\<close>

definition compiled :: "nat \<Rightarrow> (nat \<times> rule) list \<Rightarrow> fdi_context \<Rightarrow> fdi list option \<Rightarrow> fdi_context \<Rightarrow> bool" where
  "compiled p rs ctx fdis ctx' \<longleftrightarrow>
     (\<exists>fs. fdis = Some fs \<and> view p ctx' (rs @ layouts (end_of ctx) fs) \<and> same_stack ctx ctx' \<and>
        end_of ctx' = end_of ctx + sum_list (map fdi_size fs))"

definition accepts :: "nat \<Rightarrow> (nat \<times> rule) list \<Rightarrow> xml_event list \<Rightarrow> fdi_context \<Rightarrow> fdi_context \<Rightarrow> bool" where
  "accepts p rs es ctx ctx' \<longleftrightarrow>
     run_events es ctx = Inr (True, ctx') \<and> view p ctx rs \<and> end_of ctx' < 2 ^ 32 \<and>
     length (match_at_depth ctx) = HAL_MAX_INDENT_DEPTH"

lemma accepts_append:
  assumes "accepts p rs (es @ es') ctx ctx'"
  obtains c where "accepts p rs es ctx c" "run_events es' c = Inr (True, ctx')" "end_of c < 2 ^ 32"
proof -
  obtain c where c: "run_events es ctx = Inr (True, c)" "run_events es' c = Inr (True, ctx')"
    using assms unfolding accepts_def run_events_append
    by (cases "run_events es ctx") (auto split: prod.splits if_splits)
  from end_of_mono [OF run_events_grows [OF c(2)]] assms have "end_of c < 2 ^ 32" by (simp add: accepts_def)
  with c assms that show ?thesis by (auto simp: accepts_def)
qed

lemma accepts_after:
  assumes "compiled p rs ctx fdis c" and "run_events es c = Inr (True, ctx')" and "end_of ctx' < 2 ^ 32"
    and "length (match_at_depth ctx) = HAL_MAX_INDENT_DEPTH"
  obtains fs where "fdis = Some fs" "accepts p (rs @ layouts (end_of ctx) fs) es c ctx'"
    "end_of c = end_of ctx + sum_list (map fdi_size fs)" "same_stack ctx c"
  using assms that by (auto simp: compiled_def accepts_def same_stack_def)

lemma accepts_start:
  assumes "accepts p rs (xml_events (Elem el attrs single kids)) ctx ctx'"
  obtains c where "length (bytes ctx) < 2 ^ 32" "start el attrs ctx = Inr (True, c)"
    "run_events (concat (map xml_events kids) @ [End el]) c = Inr (True, ctx')"
proof -
  have run: "run_events (xml_events (Elem el attrs single kids)) ctx = Inr (True, ctx')" "end_of ctx' < 2 ^ 32"
    using assms by (auto simp: accepts_def)
  have "length (bytes ctx) < 2 ^ 32"
    using end_of_mono [OF run_events_grows [OF run(1)]] run(2) by (intro end_of_less) simp
  moreover obtain c where "start el attrs ctx = Inr (True, c)"
    "run_events (concat (map xml_events kids) @ [End el]) c = Inr (True, ctx')"
    using run(1) by (auto split: if_splits)
  ultimately show ?thesis by (rule that)
qed

definition tree_ok :: "nat \<Rightarrow> xml \<Rightarrow> bool" where
  "tree_ok p x \<longleftrightarrow> (\<forall>rs ctx ctx'.
     accepts p rs (xml_events x) ctx ctx' \<longrightarrow> nul_free x \<longrightarrow> (is_text x \<longrightarrow> quiet ctx) \<longrightarrow>
     compiled p rs ctx (fdi_of x) ctx' \<and> (if is_text x then ctx' = ctx else idle ctx'))"

lemma trees_ok:
  assumes "\<forall>x \<in> set xs. tree_ok p x" and "accepts p rs (concat (map xml_events xs)) ctx ctx'"
    and "list_all nul_free xs" and "xs \<noteq> [] \<longrightarrow> is_text (hd xs) \<longrightarrow> quiet ctx"
  shows "compiled p rs ctx (fdis_of xs) ctx' \<and> (if list_all is_text xs then ctx' = ctx else idle ctx')"
  using assms
proof (induction xs arbitrary: rs ctx)
  case Nil
  then show ?case by (auto simp: accepts_def compiled_def)
next
  case (Cons x xs)
  obtain c where c: "accepts p rs (xml_events x) ctx c" "run_events (concat (map xml_events xs)) c = Inr (True, ctx')"
    using Cons.prems(2) by (auto elim: accepts_append)
  have x: "compiled p rs ctx (fdi_of x) c" "if is_text x then c = ctx else idle c"
    using Cons.prems(1,3,4) c(1) by (auto simp: tree_ok_def)
  then have q: "quiet c" using Cons.prems(4) by (auto simp: quiet_def idle_def split: if_splits)
  obtain fs where fs: "fdi_of x = Some fs" and acc: "accepts p (rs @ layouts (end_of ctx) fs) (concat (map xml_events xs)) c ctx'"
    and e: "end_of c = end_of ctx + sum_list (map fdi_size fs)" and st: "same_stack ctx c"
    using accepts_after [OF x(1) c(2)] Cons.prems(2) by (auto simp: accepts_def)
  from Cons.IH [OF _ acc] Cons.prems(1,3) q
  have IH: "compiled p (rs @ layouts (end_of ctx) fs) c (fdis_of xs) ctx'" "if list_all is_text xs then ctx' = c else idle ctx'"
    by auto
  from IH(1) obtain gs where gs: "fdis_of xs = Some gs" by (auto simp: compiled_def)
  have "compiled p rs ctx (Some (fs @ gs)) ctx'"
    using IH(1) e same_stack_trans [OF st] by (auto simp: compiled_def gs layouts_append add.assoc)
  then show ?case using fs gs x(2) IH(2) by (auto simp: idle_def split: if_splits)
qed

lemma tree_unknown:
  assumes "\<forall>x \<in> set kids. tree_ok p x" and "get_rule_type el = RULE_UNKNOWN"
    and "accepts p rs (xml_events (Elem el attrs single kids)) ctx ctx'" and "list_all nul_free kids"
  shows "compiled p rs ctx (fdis_of kids) ctx' \<and> idle ctx'"
proof -
  obtain c1 where small: "length (bytes ctx) < 2 ^ 32" and c1: "start el attrs ctx = Inr (True, c1)"
    and rest: "run_events (concat (map xml_events kids) @ [End el]) c1 = Inr (True, ctx')"
    using assms(3) by (rule accepts_start)
  have v: "view p ctx rs" using assms(3) by (simp add: accepts_def)
  note s = start_unknown [OF v c1 assms(2) small]
  have "accepts p rs (concat (map xml_events kids) @ [End el]) c1 ctx'"
    using rest s assms(3) by (simp add: accepts_def same_stack_def)
  then obtain c2 where c2: "accepts p rs (concat (map xml_events kids)) c1 c2" and e: "run_events [End el] c2 = Inr (True, ctx')"
    by (auto elim: accepts_append)
  have "ctx' = c2" using e assms(2) by (simp add: end_tag_def)
  moreover have q: "quiet c1" using s by (simp add: quiet_def idle_def)
  ultimately show ?thesis
    using trees_ok [OF assms(1) c2 assms(4)] s same_stack_trans [of ctx c1]
    by (auto simp: compiled_def split: if_splits)
qed

lemma tree_match:
  assumes "\<forall>x \<in> set kids. tree_ok p x" and m: "get_rule_type el = RULE_MATCH"
    and acc: "accepts p rs (xml_events (Elem el attrs single kids)) ctx ctx'" and "nul_free (Elem el attrs single kids)"
  shows "compiled p rs ctx (fdi_of (Elem el attrs single kids)) ctx' \<and> idle ctx'"
proof -
  obtain c1 where small: "length (bytes ctx) < 2 ^ 32" and c1: "start el attrs ctx = Inr (True, c1)"
    and rest: "run_events (concat (map xml_events kids) @ [End el]) c1 = Inr (True, ctx')"
    using acc by (rule accepts_start)
  have v: "view p ctx rs" and e32: "end_of ctx' < 2 ^ 32" using acc by (simp_all add: accepts_def)
  have nul: "\<forall>(n, w) \<in> set attrs. CHR 0x00 \<notin> set w" "list_all nul_free kids" using assms(4) by (auto simp: list_all_iff)
  from start_match [OF v c1 m small nul(1)] acc obtain r where r: "match_elem attrs = Some r"
    and v1: "view p c1 (rs @ [(end_of ctx, r)])" and q1: "quiet c1"
    and d1: "depth c1 = Suc (depth ctx)" "length (match_at_depth c1) = HAL_MAX_INDENT_DEPTH" "depth ctx < HAL_MAX_INDENT_DEPTH"
      "match_at_depth c1 ! depth ctx = end_of ctx mod 2 ^ 32"
      "take (depth ctx) (match_at_depth c1) = take (depth ctx) (match_at_depth ctx)"
    by (auto simp: accepts_def quiet_def)
  have "accepts p (rs @ [(end_of ctx, r)]) (concat (map xml_events kids) @ [End el]) c1 ctx'"
    using rest v1 d1(2) e32 by (simp add: accepts_def)
  then obtain c2 where c2: "accepts p (rs @ [(end_of ctx, r)]) (concat (map xml_events kids)) c1 c2"
    and e: "end_tag el c2 = Inr (True, ctx')" and e2: "end_of c2 < 2 ^ 32"
    by (rule accepts_append) (auto split: prod.splits if_splits)
  note k = trees_ok [OF assms(1) c2 nul(2)]
  then obtain fs where fs: "fdis_of kids = Some fs"
    and v2: "view p c2 (rs @ (end_of ctx, r) # layouts (end_of c1) fs)" and st: "same_stack c1 c2"
    and ec: "end_of c2 = end_of c1 + sum_list (map fdi_size fs)" and q2: "quiet c2"
    using q1 by (auto simp: compiled_def quiet_def idle_def split: if_splits)
  have ec1: "end_of c1 = end_of ctx + rule_size r" by (rule view_last [OF v1])
  have "end_of ctx < 2 ^ 32" using ec ec1 e2 by linarith
  have t: "take (Suc (depth ctx)) (match_at_depth c2) = take (Suc (depth ctx)) (match_at_depth c1)"
    and d2: "depth c2 = Suc (depth ctx)" "length (match_at_depth c2) = HAL_MAX_INDENT_DEPTH"
    using st d1 by (auto simp: same_stack_def)
  have "match_at_depth c2 ! depth ctx = end_of ctx"
    using arg_cong [OF t, of "\<lambda>xs. xs ! depth ctx"] d1(4) \<open>end_of ctx < 2 ^ 32\<close> by simp
  then have jump: "match_at_depth c2 ! (depth c2 - 1) = end_of ctx" by (simp add: d2)
  note em = end_match [OF v2 q2 e m jump e2]
  have "take (depth ctx) (match_at_depth ctx') = take (depth ctx) (match_at_depth ctx)"
  proof -
    have "take (Suc (depth ctx)) (match_at_depth ctx') = take (Suc (depth ctx)) (match_at_depth c1)"
      using em d2 d1(3) t by auto
    from arg_cong [OF this, of "take (depth ctx)"] d1(5) show ?thesis by (simp add: min_def)
  qed
  then have "same_stack ctx ctx'" using em d2 d1(3) acc by (simp add: same_stack_def accepts_def)
  then show ?thesis using em d2 d1(3) r fs m ec ec1 by (simp add: compiled_def add.assoc)
qed

lemma tree_other:
  assumes "\<forall>x \<in> set kids. tree_ok p x" and t: "get_rule_type el = t" "t \<noteq> RULE_MATCH" "t \<noteq> RULE_UNKNOWN"
    and acc: "accepts p rs (xml_events (Elem el attrs single kids)) ctx ctx'" and "nul_free (Elem el attrs single kids)"
  shows "compiled p rs ctx (fdi_of (Elem el attrs single kids)) ctx' \<and> idle ctx'"
proof -
  obtain c1 where small: "length (bytes ctx) < 2 ^ 32" and c1: "start el attrs ctx = Inr (True, c1)"
    and rest: "run_events (concat (map xml_events kids) @ [End el]) c1 = Inr (True, ctx')"
    using acc by (rule accepts_start)
  have v: "view p ctx rs" and e32: "end_of ctx' < 2 ^ 32" using acc by (simp_all add: accepts_def)
  have nul: "\<forall>(n, w) \<in> set attrs. CHR 0x00 \<notin> set w" "list_all nul_free kids" using assms(6) by (auto simp: list_all_iff)
  let ?r = "mk_rule t MATCH_UNKNOWN (merge_of t MERGE_UNKNOWN attrs)"
  from start_other [OF v c1 t small nul(1)] obtain k where k: "\<forall>v. other_elem t attrs v = Some (?r k v)"
    and o1: "open_rule c1 k []" and v1: "view p c1 (rs @ [(end_of ctx, ?r k [])])" and r1: "sr_rtype (ctx_rule c1) = get_rule_type el"
    and st1: "same_stack ctx c1" and pos: "position c1 = end_of ctx"
    and m: "sr_type_match (ctx_rule c1) = MATCH_UNKNOWN" "sr_type_merge (ctx_rule c1) = merge_of t MERGE_UNKNOWN attrs"
    using t(1) by auto
  define ts es where "ts = takeWhile is_text kids" and "es = dropWhile is_text kids"
  have kids: "kids = ts @ es" by (simp add: ts_def es_def)
  have ts: "list_all is_text ts" by (auto simp: ts_def list_all_iff dest: set_takeWhileD)
  have "CHR 0x00 \<notin> set (text_of x)" if "x \<in> set ts" for x
  proof -
    have "nul_free x" using nul(2) that by (auto simp: kids list_all_iff)
    then show ?thesis by (cases x) simp_all
  qed
  then have tn: "\<forall>x \<in> set ts. CHR 0x00 \<notin> set (text_of x)" by blast
  have "accepts p (rs @ [(end_of ctx, ?r k [])]) (concat (map xml_events ts) @ concat (map xml_events es) @ [End el]) c1 ctx'"
    using rest v1 e32 acc st1 by (simp add: accepts_def same_stack_def kids)
  then obtain c2 where c2: "run_events (concat (map xml_events ts)) c1 = Inr (True, c2)"
    and rest2: "run_events (concat (map xml_events es) @ [End el]) c2 = Inr (True, ctx')"
    by (rule accepts_append) (auto simp: accepts_def)
  note x = texts_open [OF ts o1 r1 t tn c2]
  let ?v = "rule_text t ts"
  have ni: "\<not> idle c1" using r1 t by (simp add: idle_def)
  have "view p c2 (rs @ [(position c1, rule_of (ctx_rule c2) k ?v)])"
    by (rule view_more [OF v1 ni _ _ run_events_grows [OF c2]]) (use x in simp_all)
  moreover have "rule_of (ctx_rule c2) k ?v = ?r k ?v"
    using rule_of_open [of c2 k ?v] x m r1 t by (simp add: keeps_before_def)
  ultimately have v2: "view p c2 (rs @ [(end_of ctx, ?r k ?v)])" by (simp add: pos)
  have st2: "same_stack ctx c2" using x st1 by (simp add: keeps_before_def same_stack_def)
  have "accepts p (rs @ [(end_of ctx, ?r k ?v)]) (concat (map xml_events es) @ [End el]) c2 ctx'"
    using rest2 v2 e32 acc st2 by (simp add: accepts_def same_stack_def)
  then obtain c3 where c3: "accepts p (rs @ [(end_of ctx, ?r k ?v)]) (concat (map xml_events es)) c2 c3"
    and e: "end_tag el c3 = Inr (True, ctx')" and e3: "end_of c3 < 2 ^ 32"
    by (rule accepts_append) (auto split: prod.splits if_splits)
  have hd: "es \<noteq> [] \<Longrightarrow> \<not> is_text (hd es)" unfolding es_def by (rule hd_dropWhile)
  have tk: "compiled p (rs @ [(end_of ctx, ?r k ?v)]) c2 (fdis_of es) c3 \<and> (if list_all is_text es then c3 = c2 else idle c3)"
    by (rule trees_ok [OF _ c3]) (use assms(1) nul(2) hd in \<open>auto simp: kids\<close>)
  then obtain rs3 where "view p c3 rs3" by (auto simp: compiled_def)
  from end_other [OF this e t end_of_less [OF e3]] have "\<not> idle c3" by simp
  then have es: "es = []" "c3 = c2" using tk hd by (cases es; auto split: if_splits)+
  note eo = end_other [OF v2 e [unfolded es(2)] t]
  have len: "length (bytes c2) < 2 ^ 32" using end_of_less [OF e3] es(2) by simp
  have "end_of c2 = end_of ctx + rule_size (?r k ?v)" by (rule view_last [OF v2])
  then show ?thesis
    using eo [OF len] same_stack_trans [OF st2] k ts t es(1) kids by (auto simp: compiled_def)
qed

theorem tree_compiled: "tree_ok p x"
proof (induction x)
  case (Elem el attrs single kids)
  then have k: "\<forall>x \<in> set kids. tree_ok p x" by blast
  show ?case unfolding tree_ok_def
  proof (intro allI impI)
    fix rs ctx ctx'
    assume acc: "accepts p rs (xml_events (Elem el attrs single kids)) ctx ctx'" and n: "nul_free (Elem el attrs single kids)"
    then show "compiled p rs ctx (fdi_of (Elem el attrs single kids)) ctx' \<and>
        (if is_text (Elem el attrs single kids) then ctx' = ctx else idle ctx')"
      using tree_unknown [OF k _ acc] tree_match [OF k _ acc n] tree_other [OF k refl _ _ acc n]
      by (cases "get_rule_type el = RULE_UNKNOWN"; cases "get_rule_type el = RULE_MATCH") simp_all
  qed
next
  case (Txt s)
  show ?case unfolding tree_ok_def
    by (auto simp: accepts_def cdata_quiet compiled_def)
qed

end
