(* ===== verification/Hal_Cache_Accept.thy ===== *)
theory Hal_Cache_Accept
  imports Hal_Cache_Tree
begin

text \<open>
  Which documents are accepted, and what the rest does to the file: a document that stands for blocks
  is accepted when its matches are not nested too deeply, a parse that stops has written only behind
  the old end of the file, and what it writes is bounded by the size of the document.
\<close>

section \<open>Documents that stand for blocks are accepted\<close>

fun nesting :: "xml \<Rightarrow> nat" where
  "nesting (Txt s) = 0"
| "nesting (Elem el attrs single kids) =
     (if get_rule_type el = RULE_MATCH then 1 else 0) + fold max (map nesting kids) 0"

lemma fold_max_ge: "x \<in> set xs \<or> x \<le> m \<Longrightarrow> x \<le> fold max xs (m :: nat)"
proof (induction xs arbitrary: m)
  case (Cons y ys)
  from Cons.prems have "x \<in> set ys \<or> x \<le> max y m" by auto
  from Cons.IH [OF this] show ?case by simp
qed simp

definition ready :: "fdi_context \<Rightarrow> bool" where
  "ready ctx \<longleftrightarrow> idle ctx \<or> 2 \<le> sr_key_len (ctx_rule ctx)"

lemma flush_ok: "\<exists>ctx'. flush ctx = Inr ctx' \<and> idle ctx' \<and> depth ctx' = depth ctx"
  by (auto simp: flush_def store_rule_def idle_def init_rule_struct_def Let_def)

lemma store_key_ok:
  "k \<noteq> [] \<Longrightarrow> sr_rtype (ctx_rule ctx) \<noteq> RULE_UNKNOWN \<Longrightarrow>
   \<exists>ctx'. store_key k ctx = Inr ctx' \<and> ctx_rule ctx' = (ctx_rule ctx)\<lparr>sr_key_len := length k + 1\<rparr> \<and> depth ctx' = depth ctx"
  by (simp add: store_key_def)

lemma store_value_ok:
  "2 \<le> sr_key_len (ctx_rule ctx) \<Longrightarrow> sr_rtype (ctx_rule ctx) \<noteq> RULE_UNKNOWN \<Longrightarrow>
   \<exists>ctx'. store_value v ctx = Inr ctx' \<and> sr_rtype (ctx_rule ctx') = sr_rtype (ctx_rule ctx) \<and>
     sr_key_len (ctx_rule ctx') = sr_key_len (ctx_rule ctx) \<and> depth ctx' = depth ctx"
  by (simp add: store_value_def Let_def)

lemma tests_ok:
  assumes "list_all (\<lambda>(t, _). t \<noteq> ''key'' \<and> get_match_type t \<noteq> MATCH_UNKNOWN) tests"
    and "sr_rtype (ctx_rule ctx) = RULE_MATCH" and "2 \<le> sr_key_len (ctx_rule ctx)"
  shows "\<exists>ctx'. start_attrs tests ctx = Inr (True, ctx') \<and> sr_rtype (ctx_rule ctx') = RULE_MATCH \<and>
    2 \<le> sr_key_len (ctx_rule ctx') \<and> depth ctx' = depth ctx"
  using assms
proof (induction tests arbitrary: ctx)
  case (Cons a tests)
  obtain n v where a: "a = (n, v)" by (cases a)
  let ?ctx = "ctx\<lparr>ctx_rule := (ctx_rule ctx)\<lparr>sr_type_match := get_match_type n\<rparr>\<rparr>"
  obtain c where c: "store_value v ?ctx = Inr c" "sr_rtype (ctx_rule c) = RULE_MATCH" "2 \<le> sr_key_len (ctx_rule c)"
    "depth c = depth ctx"
    using store_value_ok [of ?ctx v] Cons.prems(2,3) by auto
  have "n \<noteq> ''key''" "get_match_type n \<noteq> MATCH_UNKNOWN" using Cons.prems(1) by (simp_all add: a)
  with c(1) Cons.prems(2,3) have "start_attrs (a # tests) ctx = start_attrs tests c" by (simp add: a Let_def)
  with Cons.IH [OF _ c(2,3)] Cons.prems(1) c(4) show ?case by (simp del: start_attrs.simps)
qed simp

text \<open>An attribute that is neither the key nor a bad type is skipped or sets the type.\<close>

definition typed :: "rule_type \<Rightarrow> string \<Rightarrow> string \<Rightarrow> fdi_context \<Rightarrow> fdi_context" where
  "typed t n v ctx =
     (if t \<noteq> RULE_SPAWN \<and> n = ''type''
      then ctx\<lparr>ctx_rule := (ctx_rule ctx)\<lparr>sr_type_merge := get_merge_type v\<rparr>\<rparr> else ctx)"

lemma typed_simps [simp]:
  "sr_rtype (ctx_rule (typed t n v ctx)) = sr_rtype (ctx_rule ctx)" "sr_key_len (ctx_rule (typed t n v ctx)) = sr_key_len (ctx_rule ctx)"
  "depth (typed t n v ctx) = depth ctx"
  by (simp_all add: typed_def)

lemma start_attrs_skip:
  assumes "\<not> is_key t n" and "types_known t ((n, v) # attrs)" and "sr_rtype (ctx_rule ctx) = t" and "t \<noteq> RULE_MATCH"
  shows "start_attrs ((n, v) # attrs) ctx = start_attrs attrs (typed t n v ctx)"
    and "types_known t attrs"
proof -
  show "types_known t attrs" using assms(2) by (auto simp: types_known_def)
  show "start_attrs ((n, v) # attrs) ctx = start_attrs attrs (typed t n v ctx)"
  proof (cases "t = RULE_SPAWN")
    case True
    with assms(1,3) show ?thesis by (simp add: is_key_def typed_def Let_def)
  next
    case False
    with assms show ?thesis
      by (cases "n = ''type''") (simp_all add: is_key_def types_known_def typed_def Let_def)
  qed
qed

lemma attrs_after_key:
  assumes "list_all (\<lambda>(n, _). \<not> is_key t n) attrs" and "types_known t attrs"
    and "sr_rtype (ctx_rule ctx) = t" and "t \<noteq> RULE_MATCH" and "2 \<le> sr_key_len (ctx_rule ctx)"
  shows "\<exists>ctx'. start_attrs attrs ctx = Inr (True, ctx') \<and> sr_rtype (ctx_rule ctx') = t \<and>
    2 \<le> sr_key_len (ctx_rule ctx') \<and> depth ctx' = depth ctx"
  using assms
proof (induction attrs arbitrary: ctx)
  case (Cons a attrs)
  obtain n v where a: "a = (n, v)" by (cases a)
  have n: "\<not> is_key t n" "list_all (\<lambda>(n, _). \<not> is_key t n) attrs" using Cons.prems(1) by (simp_all add: a)
  note skip = start_attrs_skip [OF n(1) Cons.prems(2) [unfolded a] Cons.prems(3,4)]
  show ?case
    using Cons.IH [OF n(2) skip(2) _ Cons.prems(4), of "typed t n v ctx"]
      Cons.prems(3,5) by (simp add: a skip(1) del: start_attrs.simps)
qed simp

lemma attrs_ok:
  assumes "filter (\<lambda>(n, _). is_key t n) attrs = [(m, k)]" and "k \<noteq> []" and "types_known t attrs"
    and "sr_rtype (ctx_rule ctx) = t" and "t \<noteq> RULE_MATCH" and "t \<noteq> RULE_UNKNOWN" and "sr_key_len (ctx_rule ctx) = 0"
  shows "\<exists>ctx'. start_attrs attrs ctx = Inr (True, ctx') \<and> sr_rtype (ctx_rule ctx') = t \<and>
    2 \<le> sr_key_len (ctx_rule ctx') \<and> depth ctx' = depth ctx"
  using assms
proof (induction attrs arbitrary: ctx)
  case (Cons a attrs)
  obtain n v where a: "a = (n, v)" by (cases a)
  have tk: "types_known t attrs" using Cons.prems(3) by (auto simp: types_known_def)
  show ?case
  proof (cases "is_key t n")
    case True
    then have v: "v = k" "list_all (\<lambda>(n, _). \<not> is_key t n) attrs"
      using Cons.prems(1) by (auto simp: a filter_empty_conv list_all_iff)
    obtain c where "store_key v ctx = Inr c" "ctx_rule c = (ctx_rule ctx)\<lparr>sr_key_len := length v + 1\<rparr>" "depth c = depth ctx"
      using store_key_ok [of v ctx] Cons.prems v by auto
    moreover have "1 \<le> length k" using Cons.prems(2) by (cases k) auto
    ultimately show ?thesis
      using attrs_after_key [OF v(2) tk, of c] Cons.prems True v(1) by (auto simp: a is_key_def)
  next
    case False
    have f: "filter (\<lambda>(n, _). is_key t n) attrs = [(m, k)]" using Cons.prems(1) False by (simp add: a)
    note skip = start_attrs_skip [OF False Cons.prems(3) [unfolded a] Cons.prems(4,5)]
    show ?thesis
      using Cons.IH [OF f Cons.prems(2) tk _ Cons.prems(5,6), of "typed t n v ctx"]
        Cons.prems(4,7) by (simp add: a skip(1) del: start_attrs.simps)
  qed
qed simp

lemma remember_jump_ok:
  "depth ctx < HAL_MAX_INDENT_DEPTH \<Longrightarrow>
   \<exists>ctx'. remember_jump_position ctx = Inr ctx' \<and> ctx_rule ctx' = ctx_rule ctx \<and> depth ctx' = Suc (depth ctx)"
  by (simp add: remember_jump_position_def)

lemma start_match_eq:
  assumes "match_elem attrs = Some r" and "get_rule_type el = RULE_MATCH"
  obtains c where "start el attrs ctx = err_bind (remember_jump_position c) (\<lambda>ctx. Inr (True, ctx))"
    "sr_rtype (ctx_rule c) = RULE_MATCH" "2 \<le> sr_key_len (ctx_rule c)" "depth c = depth ctx"
proof -
  obtain k tests where a: "attrs = (''key'', k) # tests" and k: "k \<noteq> []"
    and tests: "list_all (\<lambda>(t, _). t \<noteq> ''key'' \<and> get_match_type t \<noteq> MATCH_UNKNOWN) tests"
    using assms(1) by (auto simp: match_elem_def split: list.splits if_splits)
  obtain c0 where c0: "flush ctx = Inr c0" "depth c0 = depth ctx" using flush_ok by blast
  let ?e = "element RULE_MATCH c0"
  have e: "sr_key_len (ctx_rule ?e) = 0" by (simp add: element_def init_rule_struct_def)
  obtain c1 where c1: "store_key k ?e = Inr c1" "ctx_rule c1 = (ctx_rule ?e)\<lparr>sr_key_len := length k + 1\<rparr>" "depth c1 = depth ctx"
    using store_key_ok [OF k, of ?e] c0 by auto
  have "2 \<le> sr_key_len (ctx_rule c1)" "sr_rtype (ctx_rule c1) = RULE_MATCH" using c1(2) k by (cases k; simp)+
  from tests_ok [OF tests this(2,1)] obtain c2 where c2: "start_attrs tests c1 = Inr (True, c2)"
    "sr_rtype (ctx_rule c2) = RULE_MATCH" "2 \<le> sr_key_len (ctx_rule c2)" "depth c2 = depth ctx"
    using c1(3) by auto
  then have "start el attrs ctx = err_bind (remember_jump_position c2) (\<lambda>ctx. Inr (True, ctx))"
    using c0 c1 e assms(2) by (simp add: start_eq a)
  then show ?thesis using c2(2-4) by (rule that)
qed

lemma start_match_ok:
  assumes "match_elem attrs = Some r" and "get_rule_type el = RULE_MATCH" and "depth ctx < HAL_MAX_INDENT_DEPTH"
  shows "\<exists>ctx'. start el attrs ctx = Inr (True, ctx') \<and> sr_rtype (ctx_rule ctx') = RULE_MATCH \<and>
    ready ctx' \<and> depth ctx' = Suc (depth ctx)"
  using start_match_eq [OF assms(1,2), of ctx] assms(3)
  by (metis (no_types, lifting) remember_jump_ok err_bind.simps(2) ready_def)

lemma start_too_deep:
  assumes "match_elem attrs = Some r" and "get_rule_type el = RULE_MATCH" and "HAL_MAX_INDENT_DEPTH \<le> depth ctx"
  shows "start el attrs ctx = Inl Fatal"
  using start_match_eq [OF assms(1,2), of ctx] assms(3) by (auto simp: remember_jump_position_def)

lemma start_other_ok:
  assumes "other_elem t attrs v = Some r" and "get_rule_type el = t" and "t \<noteq> RULE_MATCH" and "t \<noteq> RULE_UNKNOWN"
  shows "\<exists>ctx'. start el attrs ctx = Inr (True, ctx') \<and> sr_rtype (ctx_rule ctx') = t \<and>
    2 \<le> sr_key_len (ctx_rule ctx') \<and> depth ctx' = depth ctx"
proof -
  obtain m k where f: "filter (\<lambda>(n, _). is_key t n) attrs = [(m, k)]" and k: "k \<noteq> []" and tk: "types_known t attrs"
    using assms(1) by (auto simp: other_elem_def split: list.splits if_splits)
  obtain c0 where c0: "flush ctx = Inr c0" "depth c0 = depth ctx" using flush_ok by blast
  let ?e = "element t c0"
  have e: "sr_key_len (ctx_rule ?e) = 0" by (simp add: element_def init_rule_struct_def)
  from attrs_ok [OF f k tk _ assms(3,4) e] obtain c1 where "start_attrs attrs ?e = Inr (True, c1)"
    "sr_rtype (ctx_rule c1) = t" "2 \<le> sr_key_len (ctx_rule c1)" "depth c1 = depth ctx"
    using c0 by auto
  then show ?thesis using c0 assms(2-4) by (simp add: start_eq)
qed

lemma cdata_ok:
  assumes "ready ctx"
  shows "\<exists>ctx'. cdata s ctx = Inr (True, ctx') \<and> sr_rtype (ctx_rule ctx') = sr_rtype (ctx_rule ctx) \<and>
    sr_key_len (ctx_rule ctx') = sr_key_len (ctx_rule ctx) \<and> depth ctx' = depth ctx"
  using store_value_ok [of ctx s] assms by (auto simp: cdata_def ready_def idle_def)

lemma texts_ok:
  assumes "list_all is_text kids" and "ready ctx"
  shows "\<exists>ctx'. run_events (concat (map xml_events kids)) ctx = Inr (True, ctx') \<and>
    sr_rtype (ctx_rule ctx') = sr_rtype (ctx_rule ctx) \<and> depth ctx' = depth ctx"
  using assms
proof (induction kids arbitrary: ctx)
  case (Cons x kids)
  then obtain s where x: "x = Txt s" by (cases x) auto
  obtain c where "cdata s ctx = Inr (True, c)" "sr_rtype (ctx_rule c) = sr_rtype (ctx_rule ctx)"
    "sr_key_len (ctx_rule c) = sr_key_len (ctx_rule ctx)" "depth c = depth ctx"
    using cdata_ok [OF Cons.prems(2)] by blast
  with Cons.IH [of c] Cons.prems show ?case by (simp add: x ready_def idle_def)
qed simp

definition accepted :: "xml_event list \<Rightarrow> fdi_context \<Rightarrow> bool" where
  "accepted es ctx \<longleftrightarrow>
     (\<exists>ctx'. run_events es ctx = Inr (True, ctx') \<and> ready ctx' \<and> quiet ctx' \<and> depth ctx' = depth ctx)"

lemma accepted_append:
  assumes "accepted es ctx" and "\<And>c. ready c \<Longrightarrow> quiet c \<Longrightarrow> depth c = depth ctx \<Longrightarrow> accepted es' c"
  shows "accepted (es @ es') ctx"
  using assms unfolding accepted_def run_events_append by fastforce

lemma end_match_ok:
  assumes "get_rule_type el = RULE_MATCH" and "0 < depth ctx" and "quiet ctx"
  shows "\<exists>ctx'. end_tag el ctx = Inr (True, ctx') \<and> idle ctx' \<and> depth ctx = Suc (depth ctx')"
  using assms
  by (auto simp: end_tag_def store_rule_def set_jump_position_def quiet_def idle_def init_rule_struct_def Let_def)

lemma end_other_ok:
  assumes "get_rule_type el = t" and "t \<noteq> RULE_MATCH" and "t \<noteq> RULE_UNKNOWN" and "sr_rtype (ctx_rule ctx) = t"
  shows "\<exists>ctx'. end_tag el ctx = Inr (True, ctx') \<and> idle ctx' \<and> depth ctx' = depth ctx"
  using assms by (auto simp: end_tag_def store_rule_def idle_def init_rule_struct_def Let_def)

lemma other_accepted:
  assumes "other_elem t attrs v = Some r" and "get_rule_type el = t" and "t \<noteq> RULE_MATCH" and "t \<noteq> RULE_UNKNOWN"
    and "list_all is_text kids"
  shows "accepted (xml_events (Elem el attrs single kids)) ctx"
proof -
  obtain c1 where c1: "start el attrs ctx = Inr (True, c1)" "sr_rtype (ctx_rule c1) = t" "ready c1" "depth c1 = depth ctx"
    using start_other_ok [OF assms(1-4)] by (auto simp: ready_def)
  obtain c2 where c2: "run_events (concat (map xml_events kids)) c1 = Inr (True, c2)" "sr_rtype (ctx_rule c2) = t" "depth c2 = depth ctx"
    using texts_ok [OF assms(5) c1(3)] c1 by auto
  show ?thesis
    using end_other_ok [OF assms(2-4) c2(2)] c1 c2 by (auto simp: accepted_def run_events_append ready_def quiet_def idle_def)
qed

lemma match_accepted:
  assumes "match_elem attrs = Some r" and "get_rule_type el = RULE_MATCH" and "depth ctx < HAL_MAX_INDENT_DEPTH"
    and kids: "\<And>c. ready c \<Longrightarrow> quiet c \<Longrightarrow> depth c = Suc (depth ctx) \<Longrightarrow> accepted (concat (map xml_events kids)) c"
  shows "accepted (xml_events (Elem el attrs single kids)) ctx"
proof -
  obtain c1 where c1: "start el attrs ctx = Inr (True, c1)" "quiet c1" "ready c1" "depth c1 = Suc (depth ctx)"
    using start_match_ok [OF assms(1-3)] by (auto simp: quiet_def)
  obtain c2 where c2: "run_events (concat (map xml_events kids)) c1 = Inr (True, c2)" "quiet c2" "depth c2 = Suc (depth ctx)"
    using kids [OF c1(3,2,4)] c1(4) by (auto simp: accepted_def)
  show ?thesis
    using end_match_ok [OF assms(2) _ c2(2)] c1 c2 by (auto simp: accepted_def run_events_append ready_def quiet_def idle_def)
qed

lemma unknown_accepted:
  assumes "get_rule_type el = RULE_UNKNOWN"
    and kids: "\<And>c. ready c \<Longrightarrow> quiet c \<Longrightarrow> depth c = depth ctx \<Longrightarrow> accepted (concat (map xml_events kids)) c"
  shows "accepted (xml_events (Elem el attrs single kids)) ctx"
proof -
  obtain c0 where c0: "flush ctx = Inr c0" "depth c0 = depth ctx" using flush_ok by blast
  let ?c1 = "element RULE_UNKNOWN c0"
  have "accepted (concat (map xml_events kids)) ?c1" by (rule kids) (simp_all add: ready_def quiet_def c0)
  with c0 assms(1) show ?thesis
    by (auto simp: accepted_def run_events_append start_eq end_tag_def)
qed

lemma blocks_accepted:
  "fdi_of x = Some fs \<Longrightarrow> ready ctx \<Longrightarrow> quiet ctx \<Longrightarrow> depth ctx + nesting x \<le> HAL_MAX_INDENT_DEPTH \<Longrightarrow>
     accepted (xml_events x) ctx"
  "fdis_of xs = Some fs \<Longrightarrow> ready ctx \<Longrightarrow> quiet ctx \<Longrightarrow> \<forall>x \<in> set xs. depth ctx + nesting x \<le> HAL_MAX_INDENT_DEPTH \<Longrightarrow>
     accepted (concat (map xml_events xs)) ctx"
proof (induction x and xs arbitrary: fs ctx and fs ctx rule: fdi_of_fdis_of.induct)
  case (1 s)
  then show ?case by (simp add: accepted_def cdata_quiet)
next
  case (2 el attrs single kids)
  let ?t = "get_rule_type el"
  have nest: "nesting x \<le> fold max (map nesting kids) 0" if "x \<in> set kids" for x
    using that by (intro fold_max_ge) auto
  show ?case
  proof (cases "?t = RULE_UNKNOWN")
    case True
    show ?thesis
    proof (rule unknown_accepted [OF True])
      fix c assume "ready c" "quiet c" "depth c = depth ctx"
      then show "accepted (concat (map xml_events kids)) c"
        using "2.IH"(1) [OF True] "2.prems" True nest by (fastforce intro: order.trans)
    qed
  next
    case False
    show ?thesis
    proof (cases "?t = RULE_MATCH")
      case m: True
      then obtain r gs where r: "match_elem attrs = Some r" "fdis_of kids = Some gs"
        using "2.prems"(1) by (auto split: option.splits)
      show ?thesis
      proof (rule match_accepted [OF r(1) m])
        show "depth ctx < HAL_MAX_INDENT_DEPTH" using "2.prems"(4) m by simp
        fix c assume "ready c" "quiet c" "depth c = Suc (depth ctx)"
        then show "accepted (concat (map xml_events kids)) c"
          using "2.IH"(2) [OF False m r] "2.prems"(4) m nest by (fastforce intro: order.trans)
      qed
    next
      case nm: False
      then obtain r where "other_elem ?t attrs (rule_text ?t kids) = Some r" "list_all is_text kids"
        using "2.prems"(1) False by (auto split: if_splits)
      then show ?thesis by (rule other_accepted [OF _ refl nm False])
    qed
  qed
next
  case (4 x xs)
  then obtain gs hs where "fdi_of x = Some gs" "fdis_of xs = Some hs" by (auto split: option.splits)
  with 4 show ?case by (auto intro!: accepted_append)
qed (simp add: accepted_def)

section \<open>Documents that are refused\<close>

text \<open>
  The daemon dies on an empty key, on matches nested too deeply, and on the end tag of an empty match
  element whose start tag was refused. Every other document is either accepted or refused.
\<close>

fun harmless :: "xml \<Rightarrow> bool" where
  "harmless (Txt s) \<longleftrightarrow> True"
| "harmless (Elem el attrs single kids) \<longleftrightarrow>
     (get_rule_type el \<noteq> RULE_UNKNOWN \<longrightarrow> list_all (\<lambda>(n, v). is_key (get_rule_type el) n \<longrightarrow> v \<noteq> []) attrs) \<and>
     (get_rule_type el = RULE_MATCH \<and> single \<longrightarrow> match_elem attrs \<noteq> None) \<and> list_all harmless kids"

text \<open>One attribute at a time.\<close>

lemma err_bind_then: "err_bind (err_bind m (\<lambda>c. Inr (f c))) g = err_bind m (\<lambda>c. g (f c))"
  by (cases m) simp_all

definition attr_step :: "string \<Rightarrow> string \<Rightarrow> fdi_context \<Rightarrow> callback" where
  "attr_step name v ctx =
     (let r = ctx_rule ctx
      in if is_key (sr_rtype r) name
         then (if sr_key_len r > 0 then Inr (False, ctx) else err_bind (store_key v ctx) (\<lambda>c. Inr (True, c)))
         else if sr_rtype r = RULE_SPAWN then Inr (True, ctx)
         else if sr_rtype r = RULE_MATCH
         then (if sr_key_len r = 0 then Inr (False, ctx)
               else let ctx = ctx\<lparr>ctx_rule := r\<lparr>sr_type_match := get_match_type name\<rparr>\<rparr>
                    in if get_match_type name = MATCH_UNKNOWN then Inr (False, ctx)
                       else err_bind (store_value v ctx) (\<lambda>c. Inr (True, c)))
         else if name \<noteq> ''type'' then Inr (True, ctx)
         else Inr (get_merge_type v \<noteq> MERGE_UNKNOWN, ctx\<lparr>ctx_rule := r\<lparr>sr_type_merge := get_merge_type v\<rparr>\<rparr>))"

lemma start_attrs_step:
  "start_attrs ((n, v) # attrs) ctx =
     err_bind (attr_step n v ctx) (\<lambda>(go, c). if go then start_attrs attrs c else Inr (False, c))"
  by (simp add: attr_step_def is_key_def Let_def err_bind_then cong: if_cong)

definition keyed :: "rule_type \<Rightarrow> nat \<Rightarrow> fdi_context \<Rightarrow> bool" where
  "keyed t d ctx \<longleftrightarrow> sr_rtype (ctx_rule ctx) = t \<and> depth ctx = d \<and>
     (sr_key_len (ctx_rule ctx) = 0 \<or> 2 \<le> sr_key_len (ctx_rule ctx))"

lemma attr_step_returns:
  assumes "is_key t n \<longrightarrow> v \<noteq> []" and "keyed t d ctx" and "t \<noteq> RULE_UNKNOWN"
  shows "\<exists>go ctx'. attr_step n v ctx = Inr (go, ctx') \<and> keyed t d ctx'"
proof -
  let ?r = "ctx_rule ctx"
  have t: "sr_rtype ?r = t" using assms(2) by (simp add: keyed_def)
  consider (key) "is_key t n" | (spawn) "\<not> is_key t n" "t = RULE_SPAWN" | (match) "\<not> is_key t n" "t = RULE_MATCH"
    | (other) "\<not> is_key t n" "t \<noteq> RULE_SPAWN" "t \<noteq> RULE_MATCH" by blast
  then show ?thesis
  proof cases
    case key
    then have "v \<noteq> []" using assms(1) by simp
    with store_key_ok [of v ctx] assms(3) t obtain c where
      "store_key v ctx = Inr c" "ctx_rule c = ?r\<lparr>sr_key_len := length v + 1\<rparr>" "depth c = depth ctx" by auto
    with key t assms(2) \<open>v \<noteq> []\<close> show ?thesis by (cases v) (auto simp: attr_step_def keyed_def)
  next
    case spawn
    with t assms(2) show ?thesis by (auto simp: attr_step_def keyed_def)
  next
    case match
    let ?m = "ctx\<lparr>ctx_rule := ?r\<lparr>sr_type_match := get_match_type n\<rparr>\<rparr>"
    have "\<exists>c. store_value v ?m = Inr c \<and> keyed t d c" if "sr_key_len ?r \<noteq> 0"
      using store_value_ok [of ?m v] that assms(2,3) by (auto simp: keyed_def)
    then show ?thesis using match t assms(2) by (auto simp: attr_step_def Let_def keyed_def)
  next
    case other
    with t assms(2) show ?thesis by (auto simp: attr_step_def keyed_def)
  qed
qed

lemma start_attrs_returns:
  assumes "list_all (\<lambda>(n, v). is_key t n \<longrightarrow> v \<noteq> []) attrs" and "keyed t d ctx" and "t \<noteq> RULE_UNKNOWN"
  shows "\<exists>go ctx'. start_attrs attrs ctx = Inr (go, ctx') \<and> keyed t d ctx'"
  using assms
proof (induction attrs arbitrary: ctx)
  case (Cons a attrs)
  obtain n v where a: "a = (n, v)" by (cases a)
  with Cons.prems attr_step_returns [of t n v d ctx] obtain g c where "attr_step n v ctx = Inr (g, c)" "keyed t d c" by auto
  with Cons.IH [of c] Cons.prems(1,3) show ?case
    by (cases g) (auto simp: a start_attrs_step simp del: start_attrs.simps)
qed auto

lemma start_returns:
  assumes "get_rule_type el \<noteq> RULE_UNKNOWN \<longrightarrow> list_all (\<lambda>(n, v). is_key (get_rule_type el) n \<longrightarrow> v \<noteq> []) attrs"
    and "get_rule_type el = RULE_MATCH \<longrightarrow> depth ctx < HAL_MAX_INDENT_DEPTH"
  shows "\<exists>go ctx'. start el attrs ctx = Inr (go, ctx') \<and> sr_rtype (ctx_rule ctx') = get_rule_type el \<and>
    (go \<longrightarrow> ready ctx' \<and> depth ctx' = depth ctx + (if get_rule_type el = RULE_MATCH then 1 else 0))"
proof -
  obtain c0 where c0: "flush ctx = Inr c0" "depth c0 = depth ctx" using flush_ok by blast
  let ?t = "get_rule_type el" and ?e = "element (get_rule_type el) c0"
  show ?thesis
  proof (cases "?t = RULE_UNKNOWN")
    case True
    with c0 show ?thesis by (auto simp: start_eq ready_def)
  next
    case False
    have "keyed ?t (depth ctx) ?e" by (simp add: keyed_def element_def init_rule_struct_def c0(2))
    with start_attrs_returns [of ?t attrs] assms(1) False obtain g c where
      c: "start_attrs attrs ?e = Inr (g, c)" "keyed ?t (depth ctx) c" by blast
    then show ?thesis
      using c0 False assms(2)
      by (cases g; cases "sr_key_len (ctx_rule c) = 0"; cases "?t = RULE_MATCH")
        (auto simp: start_eq remember_jump_position_def ready_def keyed_def)
  qed
qed

lemma end_tag_returns:
  assumes "get_rule_type el = RULE_MATCH \<longrightarrow> 0 < depth ctx" and "ready ctx"
  shows "\<exists>go ctx'. end_tag el ctx = Inr (go, ctx') \<and> ready ctx' \<and>
    depth ctx' = depth ctx - (if get_rule_type el = RULE_MATCH then 1 else 0)"
  using assms
  by (auto simp: end_tag_def store_rule_def set_jump_position_def ready_def idle_def init_rule_struct_def Let_def)

lemma end_refused:
  "get_rule_type el = t \<Longrightarrow> t \<noteq> RULE_MATCH \<Longrightarrow> \<exists>go ctx'. end_tag el ctx = Inr (go, ctx')"
  by (auto simp: end_tag_def store_rule_def Let_def)

definition returns :: "xml_event list \<Rightarrow> fdi_context \<Rightarrow> bool" where
  "returns es ctx \<longleftrightarrow>
     (\<exists>go ctx'. run_events es ctx = Inr (go, ctx') \<and> (go \<longrightarrow> ready ctx' \<and> depth ctx' = depth ctx))"

lemma returns_append:
  assumes "returns es ctx" and "\<And>c. ready c \<Longrightarrow> depth c = depth ctx \<Longrightarrow> returns es' c"
  shows "returns (es @ es') ctx"
proof -
  obtain go c where c: "run_events es ctx = Inr (go, c)" "go \<longrightarrow> ready c \<and> depth c = depth ctx"
    using assms(1) by (auto simp: returns_def)
  then show ?thesis using assms(2) [of c] by (cases go) (auto simp: returns_def run_events_append)
qed

lemma returns_prefix:
  assumes "returns (es @ es') ctx"
  shows "\<exists>go ctx'. run_events es ctx = Inr (go, ctx')"
  using assms by (cases "run_events es ctx") (auto simp: returns_def run_events_append)

lemma harmless_returns:
  "harmless x \<Longrightarrow> ready ctx \<Longrightarrow> depth ctx + nesting x \<le> HAL_MAX_INDENT_DEPTH \<Longrightarrow> returns (xml_events x) ctx"
proof (induction x arbitrary: ctx)
  case (Elem el attrs single kids)
  let ?m = "if get_rule_type el = RULE_MATCH then 1 else 0 :: nat"
  have nest: "nesting x \<le> fold max (map nesting kids) 0" if "x \<in> set kids" for x
    using that by (intro fold_max_ge) auto
  have kids: "returns (concat (map xml_events ks)) c" if "set ks \<subseteq> set kids" "ready c" "depth c = depth ctx + ?m" for ks c
    using that
  proof (induction ks arbitrary: c)
    case (Cons k ks)
    have "returns (xml_events k) c"
      using Elem.IH [of k c] Cons.prems Elem.prems nest [of k] by (auto simp: list_all_iff)
    with Cons show ?case by (auto intro!: returns_append)
  qed (auto simp: returns_def)
  obtain g c where c: "start el attrs ctx = Inr (g, c)" and r: "sr_rtype (ctx_rule c) = get_rule_type el"
    and go: "g \<longrightarrow> ready c \<and> depth c = depth ctx + ?m"
    using start_returns [of el attrs ctx] Elem.prems by (auto split: if_splits)
  show ?case
  proof (cases g)
    case True
    then have "returns (concat (map xml_events kids)) c" using kids go by simp
    then obtain g2 c2 where c2: "run_events (concat (map xml_events kids)) c = Inr (g2, c2)"
      "g2 \<longrightarrow> ready c2 \<and> depth c2 = depth ctx + ?m"
      using go True by (auto simp: returns_def)
    then show ?thesis
      using end_tag_returns [of el c2] c True by (cases g2) (auto simp: returns_def run_events_append split: if_splits)
  next
    case False
    have "\<not> single \<or> get_rule_type el \<noteq> RULE_MATCH"
    proof (rule ccontr)
      assume s: "\<not> ?thesis"
      then obtain r where "match_elem attrs = Some r" using Elem.prems(1) by auto
      from start_match_ok [OF this, of el ctx] s c False Elem.prems(3) show False by auto
    qed
    with c False end_refused [OF refl, of el c] show ?thesis by (auto simp: returns_def)
  qed
next
  case (Txt s)
  then obtain c where "cdata s ctx = Inr (True, c)" "sr_rtype (ctx_rule c) = sr_rtype (ctx_rule ctx)"
    "sr_key_len (ctx_rule c) = sr_key_len (ctx_rule ctx)" "depth c = depth ctx"
    using cdata_ok by blast
  with Txt.prems(2) show ?case by (auto simp: returns_def ready_def idle_def intro!: exI [of _ True])
qed

section \<open>What a parse writes\<close>

text \<open>
  The old contents stay at the start of the file, everything new is behind them, and nothing is beyond
  the bound.
\<close>

definition kept :: "string \<Rightarrow> nat \<Rightarrow> fdi_context \<Rightarrow> bool" where
  "kept b0 B ctx \<longleftrightarrow>
     take (length b0) (bytes ctx) = b0 \<and> length (bytes ctx) \<le> B \<and>
     position ctx + 48 + ROUND32 (sr_key_len (ctx_rule ctx)) + sr_value_len (ctx_rule ctx) \<le> B \<and>
     (\<not> idle ctx \<longrightarrow> length b0 \<le> position ctx) \<and> depth ctx \<le> length (match_at_depth ctx) \<and>
     (\<forall>d < depth ctx. length b0 \<le> match_at_depth ctx ! d \<and> match_at_depth ctx ! d + 48 \<le> B)"

lemma kept_mono: "kept b0 B ctx \<Longrightarrow> B \<le> B' \<Longrightarrow> kept b0 B' ctx"
  by (force simp: kept_def intro: order.trans)

lemma pad32_keeps:
  assumes "take (length b0) (f_bytes f) = b0" and "length b0 \<le> off" and "data \<noteq> []"
    and "off + length data + 3 \<le> B" and "length (f_bytes f) \<le> B"
  shows "take (length b0) (f_bytes (pad32_write off data f)) = b0 \<and> length (f_bytes (pad32_write off data f)) \<le> B"
proof -
  have "length b0 \<le> length (f_bytes f)" using assms(1) by (metis nat_le_linear take_all)
  moreover have "ROUND32 (off + length data) \<le> B" using ROUND32_facts(2) [of "off + length data"] assms(4) by linarith
  ultimately show ?thesis
    using assms by (simp add: pad32_write_bytes take_write_at end_padded [of off data])
qed

lemma store_key_kept:
  assumes "kept b0 B ctx" and "store_key k ctx = Inr ctx'" and "sr_key_len (ctx_rule ctx) = 0"
  shows "kept b0 (B + length k + 8) ctx'"
proof -
  let ?B = "B + length k + 8"
  have ctx': "ctx' = ctx\<lparr>ctx_rule := (ctx_rule ctx)\<lparr>sr_key_len := length k + 1\<rparr>, cache_fd := cache_fd ctx'\<rparr>"
    "cache_fd ctx' = pad32_write (position ctx + 48) (k @ [CHR 0x00]) (cache_fd ctx)" "\<not> idle ctx"
    using assms(2) by (auto simp: store_key_def sizeof_rule_def idle_def split: if_splits)
  have "take (length b0) (bytes ctx') = b0 \<and> length (bytes ctx') \<le> ?B"
    unfolding ctx'(2) by (rule pad32_keeps) (use assms(1) ctx'(3) in \<open>auto simp: kept_def\<close>)
  moreover have "ROUND32 (length k + 1) \<le> length k + 4" using ROUND32_facts(2) [of "length k + 1"] by simp
  moreover have "position ctx + 48 + sr_value_len (ctx_rule ctx) \<le> B" using assms(1,3) by (simp add: kept_def)
  moreover have "length b0 \<le> match_at_depth ctx ! d \<and> match_at_depth ctx ! d + 48 \<le> ?B" if "d < depth ctx" for d
    using assms(1) that by (force simp: kept_def)
  ultimately show ?thesis
    using assms(1) ctx'(3) by (subst ctx'(1)) (simp add: kept_def idle_def)
qed

lemma store_value_kept:
  assumes "kept b0 B ctx" and "store_value v ctx = Inr ctx'"
  shows "kept b0 (B + length v + 8) ctx'"
proof (cases "v = []")
  case True
  then have "ctx' = ctx" using assms(2) by (auto simp: store_value_def Let_def split: if_splits)
  then show ?thesis using kept_mono [OF assms(1)] by simp
next
  case False
  let ?B = "B + length v + 8" and ?r = "ctx_rule ctx"
  define base off where "base = position ctx + 48 + ROUND32 (sr_key_len ?r)"
    and "off = (if sr_value_len ?r = 0 then base else base + (sr_value_len ?r - 1))"
  have run: "cache_fd ctx' = pad32_write (off + length v) [CHR 0x00] (pad32_write off v (cache_fd ctx))"
    and ni: "\<not> idle ctx"
    and same: "position ctx' = position ctx" "depth ctx' = depth ctx" "match_at_depth ctx' = match_at_depth ctx"
      "sr_rtype (ctx_rule ctx') = sr_rtype ?r" "sr_key_len (ctx_rule ctx') = sr_key_len ?r"
      "sr_value_len (ctx_rule ctx') = (if sr_value_len ?r = 0 then length v + 1 else sr_value_len ?r + length v)"
    using assms(2) False by (auto simp: store_value_def Let_def sizeof_rule_def idle_def off_def base_def split: if_splits)
  have base: "base + sr_value_len ?r \<le> B" "length b0 \<le> off" "off \<le> B"
    using assms(1) ni by (auto simp: kept_def off_def base_def)
  have "take (length b0) (f_bytes (pad32_write off v (cache_fd ctx))) = b0 \<and> length (f_bytes (pad32_write off v (cache_fd ctx))) \<le> ?B"
    by (rule pad32_keeps) (use assms(1) False base in \<open>auto simp: kept_def\<close>)
  then have "take (length b0) (bytes ctx') = b0 \<and> length (bytes ctx') \<le> ?B"
    unfolding run using pad32_keeps [of b0 "pad32_write off v (cache_fd ctx)" "off + length v" "[CHR 0x00]" ?B] base by simp
  moreover have "length b0 \<le> match_at_depth ctx ! d \<and> match_at_depth ctx ! d + 48 \<le> ?B" if "d < depth ctx" for d
    using assms(1) that by (force simp: kept_def)
  ultimately show ?thesis
    using assms(1) ni base(1) by (simp add: kept_def idle_def same base_def)
qed

lemma store_rule_kept:
  assumes "kept b0 B ctx" and "store_rule ctx = Inr ctx'"
  shows "kept b0 (B + 3) ctx' \<and> idle ctx'"
proof -
  let ?r = "ctx_rule ctx"
  let ?d = "encode_rule (?r\<lparr>sr_rule_size := RULES_ROUND (sizeof_rule + ROUND32 (sr_key_len ?r) + ROUND32 (sr_value_len ?r))\<rparr>)"
  have ctx': "ctx' = ctx\<lparr>ctx_rule := init_rule_struct, cache_fd := pad32_write (position ctx) ?d (cache_fd ctx)\<rparr>" "\<not> idle ctx"
    using assms(2) by (auto simp: store_rule_def idle_def Let_def split: if_splits)
  have d: "?d \<noteq> []" "length ?d = 48" by (metis length_encode_rule list.size(3) zero_neq_numeral) simp
  have "take (length b0) (bytes ctx') = b0 \<and> length (bytes ctx') \<le> B + 3"
    using pad32_keeps [of b0 "cache_fd ctx" "position ctx" ?d "B + 3"] assms(1) ctx'(2) d by (simp add: kept_def ctx'(1))
  moreover have "length b0 \<le> match_at_depth ctx ! d \<and> match_at_depth ctx ! d + 48 \<le> B + 3" if "d < depth ctx" for d
    using assms(1) that by (force simp: kept_def)
  ultimately show ?thesis using assms(1) by (simp add: kept_def ctx'(1) idle_def init_rule_struct_def)
qed

lemma flush_kept: "kept b0 B ctx \<Longrightarrow> flush ctx = Inr ctx' \<Longrightarrow> kept b0 (B + 3) ctx' \<and> idle ctx'"
  using store_rule_kept by (auto simp: flush_def idle_def intro: kept_mono split: if_splits)

lemma remember_kept:
  assumes "kept b0 B ctx" and "remember_jump_position ctx = Inr ctx'" and "\<not> idle ctx" and "B < 2 ^ 32"
    and "length (match_at_depth ctx) = HAL_MAX_INDENT_DEPTH"
  shows "kept b0 B ctx'"
proof -
  have "position ctx mod 2 ^ 32 = position ctx" using assms(1,4) by (simp add: kept_def)
  then show ?thesis
    using assms(1-3,5)
    by (auto simp: remember_jump_position_def kept_def idle_def nth_list_update less_Suc_eq split: if_splits)
qed

lemma set_jump_kept:
  assumes "kept b0 B ctx" and "set_jump_position ctx = Inr ctx'"
  shows "kept b0 (B + 3) ctx'"
proof -
  let ?d = "le_bytes 4 (RULES_ROUND (length (bytes ctx)) mod 2 ^ 32)"
  let ?m = "match_at_depth ctx ! (depth ctx - 1)"
  have ctx': "ctx' = ctx\<lparr>depth := depth ctx - 1, cache_fd := pad32_write (?m + 8) ?d (seek_end (cache_fd ctx))\<rparr>" "0 < depth ctx"
    using assms(2) by (auto simp: set_jump_position_def offsetof_jump_position_def Let_def split: if_splits)
  have "length b0 \<le> ?m" "?m + 48 \<le> B" using assms(1) ctx'(2) by (auto simp: kept_def)
  moreover have "?d \<noteq> []" by (metis length_le_bytes list.size(3) zero_neq_numeral)
  ultimately have "take (length b0) (bytes ctx') = b0 \<and> length (bytes ctx') \<le> B + 3"
    using pad32_keeps [of b0 "seek_end (cache_fd ctx)" "?m + 8" ?d "B + 3"] assms(1) by (simp add: kept_def ctx'(1))
  moreover have "length b0 \<le> match_at_depth ctx ! d \<and> match_at_depth ctx ! d + 48 \<le> B + 3" if "d < depth ctx" for d
    using assms(1) that by (force simp: kept_def)
  ultimately show ?thesis using assms(1) by (auto simp: kept_def ctx'(1) idle_def)
qed

text \<open>A bound on what each callback adds to the file.\<close>

definition attrs_weight :: "(string \<times> string) list \<Rightarrow> nat" where
  "attrs_weight attrs = sum_list (map (\<lambda>(_, v). length v + 8) attrs)"

fun event_weight :: "xml_event \<Rightarrow> nat" where
  "event_weight (Start el attrs single) = 60 + attrs_weight attrs"
| "event_weight (Text s) = length s + 8"
| "event_weight (End el) = 8"

definition weight :: "xml_event list \<Rightarrow> nat" where
  "weight es = sum_list (map event_weight es)"

lemma kept_retyped:
  "kept b0 B ctx \<Longrightarrow> kept b0 B (ctx\<lparr>ctx_rule := (ctx_rule ctx)\<lparr>sr_type_match := m\<rparr>\<rparr>)"
  "kept b0 B ctx \<Longrightarrow> kept b0 B (ctx\<lparr>ctx_rule := (ctx_rule ctx)\<lparr>sr_type_merge := g\<rparr>\<rparr>)"
  by (simp_all add: kept_def idle_def)

definition same_type :: "fdi_context \<Rightarrow> fdi_context \<Rightarrow> bool" where
  "same_type ctx ctx' \<longleftrightarrow> sr_rtype (ctx_rule ctx') = sr_rtype (ctx_rule ctx) \<and>
     length (match_at_depth ctx') = length (match_at_depth ctx)"

lemma store_same_type:
  "store_key k ctx = Inr ctx' \<Longrightarrow> same_type ctx ctx'" "store_value v ctx = Inr ctx' \<Longrightarrow> same_type ctx ctx'"
  by (auto simp: store_key_def store_value_def same_type_def Let_def split: if_splits)

lemma attr_step_kept:
  assumes "kept b0 B ctx" and "attr_step n v ctx = Inr (go, ctx')"
  shows "kept b0 (B + length v + 8) ctx' \<and> same_type ctx ctx'"
proof -
  have key: "kept b0 (B + length v + 8) c \<and> same_type ctx c" if "store_key v ctx = Inr c" "sr_key_len (ctx_rule ctx) = 0" for c
    using store_key_kept [OF assms(1) that] store_same_type(1) [OF that(1)] by simp
  have val: "kept b0 (B + length v + 8) c \<and> same_type ctx c"
    if "store_value v (ctx\<lparr>ctx_rule := (ctx_rule ctx)\<lparr>sr_type_match := m\<rparr>\<rparr>) = Inr c" for c m
    using store_value_kept [OF kept_retyped(1) [OF assms(1)] that] store_same_type(2) [OF that]
    by (simp add: same_type_def)
  have more: "kept b0 (B + length v + 8) ctx" using kept_mono [OF assms(1)] by simp
  show ?thesis
    using assms(2) key val more kept_retyped [OF more]
    by (simp add: attr_step_def Let_def same_type_def split: if_splits) auto
qed

lemma start_attrs_kept:
  assumes "kept b0 B ctx" and "start_attrs attrs ctx = Inr (go, ctx')"
  shows "kept b0 (B + attrs_weight attrs) ctx' \<and> same_type ctx ctx'"
  using assms
proof (induction attrs arbitrary: ctx B)
  case (Cons a attrs)
  obtain n v where a: "a = (n, v)" by (cases a)
  obtain g c where c: "attr_step n v ctx = Inr (g, c)" and rest: "if g then start_attrs attrs c = Inr (go, ctx') else ctx' = c"
    using Cons.prems(2) by (cases "attr_step n v ctx") (auto simp: a start_attrs_step split: if_splits simp del: start_attrs.simps)
  note k = attr_step_kept [OF Cons.prems(1) c]
  show ?case
  proof (cases g)
    case True
    with Cons.IH [of "B + length v + 8" c] k rest show ?thesis by (simp add: a attrs_weight_def same_type_def add.assoc)
  next
    case False
    with k rest kept_mono [of b0 "B + length v + 8" c] show ?thesis by (simp add: a attrs_weight_def)
  qed
qed (simp add: attrs_weight_def same_type_def)

section \<open>Callbacks\<close>

lemma element_kept:
  assumes "kept b0 B ctx" and "idle ctx"
  shows "kept b0 (B + 56) (element t ctx)"
proof -
  have "length b0 \<le> length (bytes ctx)" "length (bytes ctx) \<le> B" using assms(1) by (auto simp: kept_def) (metis nat_le_linear take_all)
  moreover note RULES_ROUND_facts(1,2) [of "length (bytes ctx)"]
  moreover have "length b0 \<le> match_at_depth ctx ! d \<and> match_at_depth ctx ! d + 48 \<le> B + 56" if "d < depth ctx" for d
    using assms(1) that by (force simp: kept_def)
  ultimately show ?thesis using assms(1) by (auto simp: kept_def element_def idle_def init_rule_struct_def)
qed

definition in_bounds :: "string \<Rightarrow> nat \<Rightarrow> fdi_context \<Rightarrow> bool" where
  "in_bounds b0 B ctx \<longleftrightarrow> kept b0 B ctx \<and> length (match_at_depth ctx) = HAL_MAX_INDENT_DEPTH"

lemma flush_bounds: "in_bounds b0 B ctx \<Longrightarrow> flush ctx = Inr ctx' \<Longrightarrow> in_bounds b0 (B + 3) ctx' \<and> idle ctx'"
  using flush_kept by (auto simp: in_bounds_def flush_def store_rule_def Let_def split: if_splits)

lemma start_bounds:
  assumes "in_bounds b0 B ctx" and "start el attrs ctx = Inr (go, ctx')" and "B + 60 + attrs_weight attrs < 2 ^ 32"
  shows "in_bounds b0 (B + 60 + attrs_weight attrs) ctx'"
proof -
  obtain c0 where c0: "flush ctx = Inr c0" using assms(2) by (auto simp: start_eq)
  let ?B = "B + 59 + attrs_weight attrs"
  have "in_bounds b0 (B + 3) c0 \<and> idle c0" by (rule flush_bounds [OF assms(1) c0])
  then have e: "kept b0 (B + 59) (element t c0)" "length (match_at_depth (element t c0)) = HAL_MAX_INDENT_DEPTH" for t
    using element_kept [of b0 "B + 3" c0] by (simp_all add: in_bounds_def add.commute)
  have "in_bounds b0 ?B ctx'"
  proof (cases "get_rule_type el = RULE_UNKNOWN")
    case True
    with assms(2) c0 e kept_mono [of b0 "B + 59" _ ?B] show ?thesis by (auto simp: start_eq in_bounds_def)
  next
    case False
    then obtain g c1 where c1: "start_attrs attrs (element (get_rule_type el) c0) = Inr (g, c1)"
      and fin: "ctx' = c1 \<or> sr_rtype (ctx_rule c1) = RULE_MATCH \<and> remember_jump_position c1 = Inr ctx'"
      using assms(2) c0 by (auto simp: start_eq split: if_splits)
    have k: "kept b0 ?B c1" "length (match_at_depth c1) = HAL_MAX_INDENT_DEPTH" "\<not> idle c1"
      using start_attrs_kept [OF e(1) c1] e(2) False by (simp_all add: same_type_def idle_def)
    show ?thesis
      using fin remember_kept [OF k(1) _ k(3)] k assms(3)
      by (auto simp: in_bounds_def remember_jump_position_def split: if_splits)
  qed
  then show ?thesis using kept_mono by (fastforce simp: in_bounds_def)
qed

lemma cdata_bounds:
  assumes "in_bounds b0 B ctx" and "cdata s ctx = Inr (go, ctx')"
  shows "in_bounds b0 (B + length s + 8) ctx'"
  using assms store_value_kept [of b0 B ctx s ctx'] store_same_type(2) [of s ctx ctx'] kept_mono [of b0 B ctx "B + length s + 8"]
  by (auto simp: in_bounds_def cdata_def same_type_def split: if_splits)

lemma end_tag_bounds:
  assumes "in_bounds b0 B ctx" and "end_tag el ctx = Inr (go, ctx')"
  shows "in_bounds b0 (B + 8) ctx'"
proof -
  have k: "kept b0 B ctx" and len: "length (match_at_depth ctx) = HAL_MAX_INDENT_DEPTH" using assms(1) by (simp_all add: in_bounds_def)
  have st: "in_bounds b0 (B + 3) c" if "store_rule ctx = Inr c" for c
    using store_rule_kept [OF k that] len that by (auto simp: in_bounds_def store_rule_def Let_def split: if_splits)
  have sj: "in_bounds b0 (B + 6) c'" if "in_bounds b0 (B + 3) c" "set_jump_position c = Inr c'" for c c'
    using set_jump_kept [of b0 "B + 3" c c'] that
    by (auto simp: in_bounds_def set_jump_position_def Let_def add.commute split: if_splits)
  have more: "in_bounds b0 (B + 3) ctx" using kept_mono [OF k] len by (simp add: in_bounds_def)
  have "in_bounds b0 (B + 3) ctx' \<or> in_bounds b0 (B + 6) ctx'"
    using assms(2) st sj more by (auto simp: end_tag_def Let_def split: if_splits)
  then show ?thesis using kept_mono by (fastforce simp: in_bounds_def)
qed

text \<open>A parse that stops at an empty element still sees its end tag.\<close>

lemma run_events_bounds:
  assumes "in_bounds b0 B ctx" and "run_events es ctx = Inr (go, ctx')" and "B + weight es < 2 ^ 32"
  shows "in_bounds b0 (B + weight es + 8) ctx' \<and> (go \<longrightarrow> in_bounds b0 (B + weight es) ctx')"
  using assms
proof (induction es arbitrary: B ctx)
  case Nil
  then show ?case using kept_mono by (fastforce simp: in_bounds_def weight_def)
next
  case (Cons e es)
  have w: "weight (e # es) = event_weight e + weight es" by (simp add: weight_def)
  have mono: "in_bounds b0 B1 c \<Longrightarrow> B1 \<le> B2 \<Longrightarrow> in_bounds b0 B2 c" for B1 B2 c using kept_mono by (auto simp: in_bounds_def)
  define step where "step = (case e of Start el attrs single \<Rightarrow> start el attrs | Text s \<Rightarrow> cdata s | End el \<Rightarrow> end_tag el)"
  obtain g c where c: "step ctx = Inr (g, c)"
    and rest: "if g then run_events es c = Inr (go, ctx') else \<not> go \<and> (ctx' = c \<or> (\<exists>el g. end_tag el c = Inr (g, ctx')))"
    using Cons.prems(2) by (cases e) (fastforce simp: step_def split: if_splits)+
  have b: "in_bounds b0 (B + event_weight e) c"
    using c Cons.prems(1) Cons.prems(3) [unfolded w] start_bounds [of b0 B ctx] cdata_bounds [of b0 B ctx]
      end_tag_bounds [of b0 B ctx]
    by (cases e) (auto simp: step_def add.assoc)
  show ?case
  proof (cases g)
    case True
    with Cons.IH [OF b] rest Cons.prems(3) show ?thesis by (simp add: w add.assoc)
  next
    case False
    then have "in_bounds b0 (B + event_weight e + 8) ctx'" using rest b end_tag_bounds [OF b] mono [OF b] by auto
    with False rest mono [of "B + event_weight e + 8"] show ?thesis by (simp add: w)
  qed
qed

end
