(* ===== verification/Hal_Cache_Build.thy ===== *)
theory Hal_Cache_Build
  imports Hal_Cache_Accept
begin

text \<open>
  From documents to the cache: every readable document that stands for blocks is laid out behind the
  rules before it and closed by a rule with its path, every other file leaves no trace, and the mapped
  cache is the layout of all of them.
\<close>

section \<open>One file\<close>

text \<open>A document, the start of one that is not well-formed, or a file that cannot be read.\<close>

datatype document = Document xml | Broken xml nat | Unreadable

fun file_of :: "document \<Rightarrow> fdi_file" where
  "file_of (Document x) = Some (xml_events x, True)"
| "file_of (Broken x n) = Some (take n (xml_events x), False)"
| "file_of Unreadable = None"

fun document_ok :: "document \<Rightarrow> bool" where
  "document_ok (Document x) \<longleftrightarrow> nul_free x \<and> harmless x \<and> nesting x \<le> HAL_MAX_INDENT_DEPTH"
| "document_ok (Broken x n) \<longleftrightarrow> harmless x \<and> nesting x \<le> HAL_MAX_INDENT_DEPTH"
| "document_ok Unreadable \<longleftrightarrow> True"

fun document_weight :: "document \<Rightarrow> nat" where
  "document_weight (Document x) = weight (xml_events x)"
| "document_weight (Broken x n) = weight (take n (xml_events x))"
| "document_weight Unreadable = 0"

definition eof_rule :: "string \<Rightarrow> rule" where
  "eof_rule path = mk_rule RULE_EOF MATCH_UNKNOWN MERGE_UNKNOWN path []"

fun document_blocks :: "string \<Rightarrow> document \<Rightarrow> fdi list option" where
  "document_blocks path (Document x) = map_option (\<lambda>fs. fs @ [Fdi_Rule (eof_rule path)]) (fdi_of x)"
| "document_blocks path (Broken x n) = None"
| "document_blocks path Unreadable = None"

definition stored :: "nat \<Rightarrow> cache_file \<Rightarrow> (nat \<times> rule) list \<Rightarrow> bool" where
  "stored p fd rs \<longleftrightarrow> header_ok (f_bytes fd) \<and> laid (f_bytes fd) p rs (RULES_ROUND (length (f_bytes fd))) \<and>
     f_pos fd = length (f_bytes fd)"

lemma new_context_view: "stored p fd rs \<Longrightarrow> view p (new_context fd) rs"
  by (simp add: stored_def view_def new_context_def idle_def init_rule_struct_def)

lemma new_context_facts [simp]:
  "quiet (new_context fd)" "ready (new_context fd)" "idle (new_context fd)" "depth (new_context fd) = 0"
  "length (match_at_depth (new_context fd)) = HAL_MAX_INDENT_DEPTH" "bytes (new_context fd) = f_bytes fd"
  by (simp_all add: new_context_def quiet_def ready_def idle_def init_rule_struct_def)

lemma new_context_bounds: "in_bounds (f_bytes fd) (length (f_bytes fd) + 48) (new_context fd)"
  by (simp add: in_bounds_def kept_def) (simp add: new_context_def init_rule_struct_def)

text \<open>The closing rule of a file.\<close>

lemma add_eof_stored:
  assumes "view p ctx rs" and "idle ctx" and "path \<noteq> []" and "CHR 0x00 \<notin> set path"
    and "length (bytes ctx) + length path + 60 < 2 ^ 32"
  shows "\<exists>ctx'. add_eof path ctx = Inr ctx' \<and> idle ctx' \<and> view p ctx' (rs @ [(end_of ctx, eof_rule path)]) \<and>
    length (bytes ctx') \<le> length (bytes ctx) + length path + 60"
proof -
  let ?e = "element RULE_EOF ctx"
  have h: "header_ok (bytes ctx)" using assms(1) by (simp add: view_def)
  obtain c1 where c1: "store_key path ?e = Inr c1" using store_key_ok [OF assms(3), of ?e] by auto
  note sk = store_key_open [OF fresh_element [OF h] c1 assms(4)]
  have klen: "sr_key_len (ctx_rule c1) = length path + 1" and t1: "sr_rtype (ctx_rule c1) = RULE_EOF"
    using sk by (auto simp: keeps_before_def)
  have v: "store_value [] c1 = Inr c1" using klen t1 assms(3) by (cases path) (simp_all add: store_value_def)
  have v1: "view p c1 (rs @ [(end_of ctx, rule_of (ctx_rule c1) path [])])"
    by (rule view_open [OF assms(1,2), of ?e]) (use sk in simp_all)
  moreover have "rule_of (ctx_rule c1) path [] = eof_rule path"
    using rule_of_open [of c1 path "[]"] sk by (simp add: eof_rule_def element_def init_rule_struct_def)
  ultimately have v2: "view p c1 (rs @ [(end_of ctx, eof_rule path)])" by simp
  have "length (bytes c1) = position c1 + 48 + ROUND32 (length path + 1)"
    using sk by (auto simp: open_rule_def pending_def)
  moreover have "position c1 = end_of ctx" using sk by (simp add: keeps_before_def)
  ultimately have len: "length (bytes c1) \<le> length (bytes ctx) + length path + 60"
    using RULES_ROUND_facts(2) [of "length (bytes ctx)"] ROUND32_facts(2) [of "length path + 1"] by (simp add: end_of_def)
  obtain c2 where c2: "store_rule c1 = Inr c2" using t1 by (simp add: store_rule_def Let_def)
  note sr = store_rule_view [OF v2 c2]
  have "add_eof path ctx = err_bind (store_key path ?e) (\<lambda>ctx. err_bind (store_value [] ctx) store_rule)"
    by (simp add: add_eof_def element_def Let_def)
  then have "add_eof path ctx = Inr c2" using c1 v c2 by simp
  then show ?thesis using sr len assms(5) by simp
qed

text \<open>A file that is not added is cut off again.\<close>

lemma skip_restores:
  assumes "stored p fd rs" and "take (length (f_bytes fd)) (f_bytes fd1) = f_bytes fd"
  shows "seek_end (file_truncate (f_pos fd) fd1) = fd"
proof -
  have "length (f_bytes fd) \<le> length (f_bytes fd1)" using assms(2) by (metis nat_le_linear take_all)
  then show ?thesis using assms by (cases fd) (simp add: stored_def file_truncate_def seek_end_def)
qed

lemma parse_keeps:
  assumes "run_events es (new_context fd) = Inr (go, ctx)" and "length (f_bytes fd) + 48 + weight es < 2 ^ 32"
  shows "take (length (f_bytes fd)) (bytes ctx) = f_bytes fd" and "go \<Longrightarrow> length (bytes ctx) \<le> length (f_bytes fd) + 48 + weight es"
  using run_events_bounds [OF new_context_bounds assms] by (auto simp: in_bounds_def kept_def)

definition room :: "cache_file \<Rightarrow> string \<Rightarrow> document \<Rightarrow> nat" where
  "room fd path doc = length (f_bytes fd) + document_weight doc + length path + 108"

lemma document_added:
  assumes "stored p fd rs" and "document_ok (Document x)" and "fdi_of x = Some fs" and "path \<noteq> []" and "CHR 0x00 \<notin> set path"
    and "room fd path (Document x) < 2 ^ 31"
  shows "\<exists>fd'. add_or_skip path (file_of (Document x)) fd = Inr (0, fd') \<and>
    stored p fd' (rs @ layouts (section_offset fd) (fs @ [Fdi_Rule (eof_rule path)])) \<and>
    length (f_bytes fd') \<le> room fd path (Document x)"
proof -
  let ?c = "new_context fd"
  obtain c1 where c1: "run_events (xml_events x) ?c = Inr (True, c1)"
    using blocks_accepted(1) [OF assms(3), of ?c] assms(2) by (auto simp: accepted_def)
  have small: "length (f_bytes fd) + 48 + weight (xml_events x) < 2 ^ 32" using assms(6) by (simp add: room_def)
  have len1: "length (bytes c1) \<le> length (f_bytes fd) + 48 + weight (xml_events x)" using parse_keeps(2) [OF c1 small] by simp
  have e1: "end_of c1 < 2 ^ 32"
    using RULES_ROUND_facts(2) [of "length (bytes c1)"] len1 assms(6) by (simp add: end_of_def room_def)
  have "accepts p rs (xml_events x) ?c c1" using c1 e1 new_context_view [OF assms(1)] by (simp add: accepts_def)
  then have comp: "compiled p rs ?c (fdi_of x) c1" and "if is_text x then c1 = ?c else idle c1"
    using tree_compiled [of p x] assms(2) by (auto simp: tree_ok_def)
  then have idle: "idle c1" by (auto split: if_splits)
  have v1: "view p c1 (rs @ layouts (section_offset fd) fs)" and o1: "end_of c1 = section_offset fd + sum_list (map fdi_size fs)"
    using comp assms(3) by (auto simp: compiled_def end_of_def section_offset_def)
  have "length (bytes c1) + length path + 60 < 2 ^ 32" using len1 assms(6) by (simp add: room_def)
  from add_eof_stored [OF v1 idle assms(4,5) this] obtain c2 where c2: "add_eof path c1 = Inr c2" "idle c2"
    "view p c2 (rs @ layouts (section_offset fd) (fs @ [Fdi_Rule (eof_rule path)]))"
    "length (bytes c2) \<le> length (bytes c1) + length path + 60"
    using o1 by (auto simp: layouts_append)
  have len: "length (bytes c2) \<le> room fd path (Document x)" using c2(4) len1 by (simp add: room_def)
  with assms(6) have "length (bytes c2) mod 2 ^ 32 < 2 ^ 31" by simp
  with c1 c2(1) have "add_or_skip path (file_of (Document x)) fd = Inr (0, seek_end (cache_fd c2))"
    by (simp add: add_or_skip_def rules_add_fdi_file_def)
  then show ?thesis using c2(2,3) len by (simp add: stored_def view_def)
qed

lemma document_skipped:
  assumes "stored p fd rs" and "document_ok doc" and "document_blocks path doc = None" and "room fd path doc < 2 ^ 31"
  shows "add_or_skip path (file_of doc) fd = Inr (1, fd)"
proof -
  let ?c = "new_context fd"
  have stop: "add_or_skip path (Some (es, wf)) fd = Inr (1, fd)"
    if "run_events es ?c = Inr (go, c)" "\<not> go \<or> \<not> wf" "length (f_bytes fd) + 48 + weight es < 2 ^ 32" for es wf go c
    using skip_restores [OF assms(1) parse_keeps(1) [OF that(1,3)]] that(1,2) by (simp add: add_or_skip_def rules_add_fdi_file_def)
  show ?thesis
  proof (cases doc)
    case (Document x)
    have small: "length (f_bytes fd) + 48 + weight (xml_events x) < 2 ^ 32" using assms(4) by (simp add: room_def Document)
    obtain go c where c: "run_events (xml_events x) ?c = Inr (go, c)"
      using harmless_returns [of x ?c] assms(2) by (auto simp: returns_def Document)
    have "\<not> go"
    proof
      assume go
      then have "length (bytes c) \<le> length (f_bytes fd) + 48 + weight (xml_events x)" using parse_keeps(2) [OF c small] by simp
      then have "end_of c < 2 ^ 32"
        using RULES_ROUND_facts(2) [of "length (bytes c)"] assms(4) by (simp add: end_of_def room_def Document)
      then have "accepts p rs (xml_events x) ?c c"
        using c \<open>go\<close> new_context_view [OF assms(1)] by (simp add: accepts_def)
      then have "compiled p rs ?c (fdi_of x) c"
        using tree_compiled [of p x] assms(2) by (auto simp: tree_ok_def Document)
      then show False using assms(3) by (auto simp: compiled_def Document)
    qed
    with stop [OF c _ small] show ?thesis by (simp add: Document)
  next
    case (Broken x n)
    have "returns (take n (xml_events x) @ drop n (xml_events x)) ?c"
      using harmless_returns [of x ?c] assms(2) by (simp add: Broken)
    then obtain go c where "run_events (take n (xml_events x)) ?c = Inr (go, c)" using returns_prefix by blast
    from stop [OF this] assms(4) show ?thesis by (simp add: Broken room_def)
  next
    case Unreadable
    then show ?thesis
      using skip_restores [OF assms(1), of fd] by (simp add: add_or_skip_def rules_add_fdi_file_def)
  qed
qed

section \<open>Directories\<close>

datatype doc_node = Doc_File string document | Doc_Dir string "doc_node list" | Doc_Special string

fun node_of :: "doc_node \<Rightarrow> dir_node" where
  "node_of (Doc_File name doc) = Regular name (file_of doc)"
| "node_of (Doc_Dir name nodes) = Directory name (Some (map node_of nodes))"
| "node_of (Doc_Special name) = Special name"

text \<open>The files a search visits, with their paths, and what they stand for.\<close>

fun documents :: "string \<Rightarrow> doc_node \<Rightarrow> (string \<times> document) list" where
  "documents dir (Doc_File name doc) = (if is_fdi_name name then [(dir @ ''/'' @ name, doc)] else [])"
| "documents dir (Doc_Dir name nodes) =
     (if name \<noteq> [] \<and> hd name = CHR ''.'' then [] else concat (map (documents (dir @ ''/'' @ name)) nodes))"
| "documents dir (Doc_Special name) = []"

definition blocks_of :: "(string \<times> document) list \<Rightarrow> fdi list" where
  "blocks_of docs = concat (map (\<lambda>(path, doc). case document_blocks path doc of None \<Rightarrow> [] | Some fs \<Rightarrow> fs) docs)"

definition skipped :: "(string \<times> document) list \<Rightarrow> nat" where
  "skipped docs = length (filter (\<lambda>(path, doc). document_blocks path doc = None) docs)"

definition documents_ok :: "(string \<times> document) list \<Rightarrow> bool" where
  "documents_ok docs \<longleftrightarrow> list_all (\<lambda>(path, doc). document_ok doc \<and> path \<noteq> [] \<and> CHR 0x00 \<notin> set path) docs"

definition documents_weight :: "(string \<times> document) list \<Rightarrow> nat" where
  "documents_weight docs = sum_list (map (\<lambda>(path, doc). document_weight doc + length path + 108) docs)"

text \<open>The files one after the other.\<close>

fun add_documents :: "(string \<times> document) list \<Rightarrow> cache_file \<Rightarrow> memory_error + (nat \<times> cache_file)" where
  "add_documents [] fd = Inr (0, fd)"
| "add_documents ((path, doc) # docs) fd =
     err_bind (add_or_skip path (file_of doc) fd) (\<lambda>(n, fd).
     err_bind (add_documents docs fd) (\<lambda>(m, fd). Inr (n + m, fd)))"

lemma add_documents_append:
  "add_documents (ds @ ds') fd =
     err_bind (add_documents ds fd) (\<lambda>(n, fd). err_bind (add_documents ds' fd) (\<lambda>(m, fd). Inr (n + m, fd)))"
proof (induction ds arbitrary: fd)
  case Nil
  show ?case by (cases "add_documents ds' fd") auto
next
  case (Cons d ds)
  obtain path doc where d: "d = (path, doc)" by (cases d)
  show ?case
  proof (cases "add_or_skip path (file_of doc) fd")
    case (Inr r)
    obtain n fd1 where r: "r = (n, fd1)" by (cases r)
    show ?thesis
    proof (cases "add_documents ds fd1")
      case (Inr r')
      obtain m fd2 where "r' = (m, fd2)" by (cases r')
      then show ?thesis
        using Cons [of fd1] Inr \<open>add_or_skip path (file_of doc) fd = Inr r\<close>
        by (cases "add_documents ds' fd2") (auto simp: d r)
    qed (use Cons [of fd1] Inr in \<open>simp add: d r\<close>)
  qed (simp add: d)
qed

definition then_entries ::
    "memory_error + (nat \<times> cache_file) \<Rightarrow> (cache_file \<Rightarrow> memory_error + (nat option \<times> cache_file)) \<Rightarrow>
     memory_error + (nat option \<times> cache_file)" where
  "then_entries m k = err_bind m (\<lambda>(n, fd). err_bind (k fd) (\<lambda>(m, fd). Inr (map_option ((+) n) m, fd)))"

lemma then_entries_assoc:
  "then_entries (add_documents ds fd) (\<lambda>fd. then_entries (add_documents ds' fd) k) = then_entries (add_documents (ds @ ds') fd) k"
proof (cases "add_documents ds fd")
  case (Inr r)
  obtain n fd1 where r: "r = (n, fd1)" by (cases r)
  show ?thesis
  proof (cases "add_documents ds' fd1")
    case (Inr r')
    obtain m fd2 where r': "r' = (m, fd2)" by (cases r')
    have plus: "(+) (n + m) = (\<lambda>x. n + (m + x))" by (simp add: fun_eq_iff)
    show ?thesis
      using \<open>add_documents ds fd = Inr r\<close> Inr
      by (cases "k fd2") (auto simp: then_entries_def add_documents_append r r' option.map_comp o_def plus split: prod.splits)
  qed (use Inr in \<open>simp add: then_entries_def add_documents_append r\<close>)
qed (simp add: then_entries_def add_documents_append)

lemma then_nothing: "then_entries (Inr (0, fd)) k = k fd"
proof -
  have "(+) (0 :: nat) = (\<lambda>x. x)" by auto
  then show ?thesis by (cases "k fd") (auto simp: then_entries_def option.map_ident split: prod.splits)
qed

lemma entry_documents:
  "add_entries dir (node_of node # es) fd = then_entries (add_documents (documents dir node) fd) (add_entries dir es)"
proof (induction node arbitrary: dir es fd)
  case (Doc_File name doc)
  show ?case
  proof (cases "is_fdi_name name")
    case True
    then show ?thesis
      by (cases "add_or_skip (dir @ CHR ''/'' # name) (file_of doc) fd") (auto simp: then_entries_def)
  qed (simp add: then_nothing)
next
  case (Doc_Dir name nodes)
  let ?d = "dir @ ''/'' @ name"
  have all: "add_entries ?d (map node_of ns) fd = then_entries (add_documents (concat (map (documents ?d) ns)) fd) (\<lambda>fd. Inr (Some 0, fd))"
    if "set ns \<subseteq> set nodes" for ns fd
    using that
  proof (induction ns arbitrary: fd)
    case (Cons n ns)
    then have "add_entries ?d (map node_of ns) = (\<lambda>fd. then_entries (add_documents (concat (map (documents ?d) ns)) fd) (\<lambda>fd. Inr (Some 0, fd)))"
      by (intro ext) simp
    then have "add_entries ?d (map node_of (n # ns)) fd = then_entries (add_documents (documents ?d n) fd)
        (\<lambda>fd. then_entries (add_documents (concat (map (documents ?d) ns)) fd) (\<lambda>fd. Inr (Some 0, fd)))"
      using Doc_Dir.IH [of n ?d "map node_of ns" fd] Cons.prems by simp
    also have "\<dots> = then_entries (add_documents (concat (map (documents ?d) (n # ns))) fd) (\<lambda>fd. Inr (Some 0, fd))"
      by (simp only: then_entries_assoc) simp
    finally show ?case .
  qed (simp add: then_nothing)
  show ?case
  proof (cases "name \<noteq> [] \<and> hd name = CHR ''.''")
    case False
    with all [OF order.refl, of fd] show ?thesis
      by (cases "add_documents (concat (map (documents ?d) nodes)) fd") (auto simp: then_entries_def split: prod.splits)
  qed (simp add: then_nothing)
qed (simp add: then_nothing)

lemma entries_documents:
  "add_entries dir (map node_of nodes) fd =
     then_entries (add_documents (concat (map (documents dir) nodes)) fd) (\<lambda>fd. Inr (Some 0, fd))"
proof (induction nodes arbitrary: fd)
  case (Cons n ns)
  have "add_entries dir (map node_of ns) = (\<lambda>fd. then_entries (add_documents (concat (map (documents dir) ns)) fd) (\<lambda>fd. Inr (Some 0, fd)))"
    using Cons by (rule ext)
  then have "add_entries dir (map node_of (n # ns)) fd = then_entries (add_documents (documents dir n) fd)
      (\<lambda>fd. then_entries (add_documents (concat (map (documents dir) ns)) fd) (\<lambda>fd. Inr (Some 0, fd)))"
    using entry_documents [of dir n "map node_of ns" fd] by simp
  then show ?case by (simp only: then_entries_assoc) simp
qed (simp add: then_nothing)

definition source_documents :: "(string \<times> doc_node list) list \<Rightarrow> (string \<times> document) list" where
  "source_documents srcs = concat (map (\<lambda>(dir, nodes). concat (map (documents dir) nodes)) srcs)"

definition source_of :: "(string \<times> doc_node list) list \<Rightarrow> fdi_source" where
  "source_of srcs = map (\<lambda>(dir, nodes). (dir, Some (map node_of nodes))) srcs"

lemma sources_documents:
  "add_sources (source_of srcs) fd = then_entries (add_documents (source_documents srcs) fd) (\<lambda>fd. Inr (Some 0, fd))"
proof (induction srcs arbitrary: fd)
  case Nil
  show ?case by (simp add: source_of_def source_documents_def then_nothing)
next
  case (Cons s srcs)
  obtain dir nodes where s: "s = (dir, nodes)" by (cases s)
  let ?ds = "concat (map (documents dir) nodes)"
  have "add_sources (source_of (s # srcs)) fd = then_entries (add_documents ?ds fd) (add_sources (source_of srcs))"
    by (cases "add_documents ?ds fd")
      (auto simp: s source_of_def rules_search_and_add_fdi_files_def entries_documents then_entries_def split: prod.splits)
  also have "\<dots> = then_entries (add_documents ?ds fd) (\<lambda>fd. then_entries (add_documents (source_documents srcs) fd) (\<lambda>fd. Inr (Some 0, fd)))"
  proof -
    have "add_sources (source_of srcs) = (\<lambda>fd. then_entries (add_documents (source_documents srcs) fd) (\<lambda>fd. Inr (Some 0, fd)))"
      using Cons by (rule ext)
    then show ?thesis by simp
  qed
  finally show ?case by (simp only: then_entries_assoc) (simp add: s source_documents_def)
qed

section \<open>What the files leave\<close>

lemma laid_end: "laid b p rs q \<Longrightarrow> q = p + sum_list (map (rule_size \<circ> snd) rs)"
  by (induction rs arbitrary: p) (auto, metis add.assoc)

lemma layout_size:
  "sum_list (map (rule_size \<circ> snd) (layout p f)) = fdi_size f"
  "sum_list (map (rule_size \<circ> snd) (layouts p fs)) = sum_list (map fdi_size fs)"
  by (induction p f and p fs rule: layout_layouts.induct) auto

lemma layout_end:
  assumes "stored p fd rs" and "stored p fd' (rs @ layouts (section_offset fd) fs)"
  shows "section_offset fd' = section_offset fd + sum_list (map fdi_size fs)"
  using assms laid_end [of "f_bytes fd" p rs "section_offset fd"]
    laid_end [of "f_bytes fd'" p "rs @ layouts (section_offset fd) fs" "section_offset fd'"]
  by (simp add: stored_def section_offset_def layout_size)

lemma documents_stored:
  assumes "stored p fd rs" and "documents_ok docs" and "length (f_bytes fd) + documents_weight docs < 2 ^ 31"
  shows "\<exists>fd'. add_documents docs fd = Inr (skipped docs, fd') \<and>
    stored p fd' (rs @ layouts (section_offset fd) (blocks_of docs)) \<and>
    section_offset fd' = section_offset fd + sum_list (map fdi_size (blocks_of docs)) \<and>
    length (f_bytes fd') \<le> length (f_bytes fd) + documents_weight docs"
  using assms
proof (induction docs arbitrary: fd rs)
  case Nil
  then show ?case by (auto simp: skipped_def blocks_of_def documents_weight_def)
next
  case (Cons d docs)
  obtain path doc where d: "d = (path, doc)" by (cases d)
  have ok: "document_ok doc" "path \<noteq> []" "CHR 0x00 \<notin> set path" "documents_ok docs"
    using Cons.prems(2) by (auto simp: documents_ok_def d)
  have w: "documents_weight (d # docs) = document_weight doc + length path + 108 + documents_weight docs"
    by (simp add: documents_weight_def d)
  have r: "room fd path doc < 2 ^ 31" using Cons.prems(3) w by (simp add: room_def)
  show ?case
  proof (cases "document_blocks path doc")
    case None
    then have "add_or_skip path (file_of doc) fd = Inr (1, fd)" by (rule document_skipped [OF Cons.prems(1) ok(1) _ r])
    moreover have "length (f_bytes fd) + documents_weight docs < 2 ^ 31" using Cons.prems(3) w by simp
    moreover have "skipped (d # docs) = 1 + skipped docs" "blocks_of (d # docs) = blocks_of docs"
      using None by (simp_all add: skipped_def blocks_of_def d)
    ultimately show ?thesis
      using Cons.IH [OF Cons.prems(1) ok(4)] unfolding w by (fastforce simp: d)
  next
    case (Some fs)
    then obtain x gs where x: "doc = Document x" "fdi_of x = Some gs" "fs = gs @ [Fdi_Rule (eof_rule path)]"
      by (cases doc) auto
    obtain fd1 where fd1: "add_or_skip path (file_of doc) fd = Inr (0, fd1)"
      "stored p fd1 (rs @ layouts (section_offset fd) fs)" "length (f_bytes fd1) \<le> room fd path doc"
      using document_added [OF Cons.prems(1) ok(1) [unfolded x(1)] x(2) ok(2,3) r [unfolded x(1)]] by (auto simp: x)
    have off: "section_offset fd1 = section_offset fd + sum_list (map fdi_size fs)"
      by (rule layout_end [OF Cons.prems(1) fd1(2)])
    have "length (f_bytes fd1) + documents_weight docs < 2 ^ 31" using fd1(3) Cons.prems(3) w by (simp add: room_def)
    from Cons.IH [OF fd1(2) ok(4) this] obtain fd2 where
      "add_documents docs fd1 = Inr (skipped docs, fd2)"
      "stored p fd2 (rs @ layouts (section_offset fd) (fs @ blocks_of docs))"
      "section_offset fd2 = section_offset fd1 + sum_list (map fdi_size (blocks_of docs))"
      "length (f_bytes fd2) \<le> length (f_bytes fd1) + documents_weight docs"
      by (auto simp: layouts_append off)
    moreover have "skipped (d # docs) = skipped docs" "blocks_of (d # docs) = fs @ blocks_of docs"
      using Some by (simp_all add: skipped_def blocks_of_def d)
    ultimately show ?thesis
      using fd1 off unfolding w by (fastforce simp: d room_def)
  qed
qed

section \<open>The cache\<close>

lemma laid_header:
  assumes "laid b p rs q" and "length h = 20" and "slice h 16 4 = zeros 4" and "20 \<le> length b"
  shows "laid (write_at b 0 h) p rs q"
  using assms(1)
proof (induction rs arbitrary: p)
  case (Cons x rs)
  obtain off r where x: "x = (off, r)" by (cases x)
  with Cons.prems have l: "off = p" "image b off r" "laid b (off + rule_size r) rs q" by auto
  let ?b = "write_at b 0 h"
  have off: "20 \<le> off" "slice b 16 4 = zeros 4" using l(2) by (auto simp: image_def)
  have "slice (slice ?b 0 20) 16 4 = zeros 4" using slice_write_at_same [of b 0 h] assms(2,3) by simp
  then have "slice ?b 16 4 = slice b 16 4" using off(2) by (simp add: slice_slice)
  moreover have "length b \<le> length ?b" by simp
  moreover have "slice ?b off (e - off) = slice b off (e - off)" for e
    using slice_write_at_after [of 0 h off b "e - off"] assms(2) off(1) by simp
  ultimately have "image ?b off r" by (intro image_frame [OF l(2)])
  with Cons.IH [OF l(3)] l(1) show ?case by (simp add: x)
qed simp

lemma rules_between_laid:
  assumes "laid b p rs (RULES_ROUND (length b))" and "length rs \<le> n"
  shows "rules_between n b p (length b) = rs"
  using assms
proof (induction rs arbitrary: p n)
  case Nil
  then show ?case using RULES_ROUND_facts(1) [of "length b"] by (cases n) auto
next
  case (Cons x rs)
  obtain off r where x: "x = (off, r)" by (cases x)
  with Cons.prems have l: "off = p" "image b off r" "laid b (off + rule_size r) rs (RULES_ROUND (length b))" by auto
  then have "read_rule b off = r" "off < length b" by (auto simp: image_def)
  with Cons l x show ?case by (cases n) auto
qed

lemma laid_short:
  assumes "laid b p rs q"
  shows "length rs * 48 \<le> q - p"
proof -
  have "length rs * 48 \<le> sum_list (map (rule_size \<circ> snd) rs)"
    using assms image_size by (induction rs arbitrary: p) fastforce+
  then show ?thesis using laid_end [OF assms] by simp
qed

lemma laid_count: "laid b p rs (RULES_ROUND (length b)) \<Longrightarrow> length rs \<le> length b"
  using laid_short [of b p rs "RULES_ROUND (length b)"] RULES_ROUND_facts(2) [of "length b"] by (cases rs) auto

lemma read_header:
  assumes "a < 2 ^ 32" and "i < 2 ^ 32" and "c < 2 ^ 32" and "n < 2 ^ 32"
  defines "h \<equiv> encode_header a i c n"
  shows "read_int 4 (write_at b 0 h) 0 = a" "read_int 4 (write_at b 0 h) 4 = i" "read_int 4 (write_at b 0 h) 8 = c"
    "read_int 4 (write_at b 0 h) 12 = n"
proof -
  have len: "length h = 20" by (simp add: h_def encode_header_def)
  have "slice (write_at b 0 h) 0 20 = h" using slice_write_at_same [of b 0 h] len by simp
  then have at: "slice (write_at b 0 h) o' 4 = slice h o' 4" if "o' + 4 \<le> 20" for o'
    using slice_slice [of o' 4 20 "write_at b 0 h" 0] that by simp
  show "read_int 4 (write_at b 0 h) 0 = a" "read_int 4 (write_at b 0 h) 4 = i" "read_int 4 (write_at b 0 h) 8 = c"
    "read_int 4 (write_at b 0 h) 12 = n"
    using assms(1-4) unfolding read_int_def at [of 0, simplified] at [of 4, simplified] at [of 8, simplified] at [of 12, simplified]
    by (simp_all add: h_def encode_header_def slice_def del: le_bytes.simps)
qed

text \<open>The cache that the blocks of the three kinds of rules stand for.\<close>

definition cache_of :: "fdi list \<Rightarrow> fdi list \<Rightarrow> fdi list \<Rightarrow> nat \<Rightarrow> rule_cache" where
  "cache_of pre info pol bytecount =
     \<lparr>fdi_rules_preprobe = 24, fdi_rules_information = 24 + sum_list (map fdi_size pre),
      fdi_rules_policy = 24 + sum_list (map fdi_size (pre @ info)), all_rules_size = bytecount,
      rule_at = layouts 24 (pre @ info @ pol)\<rparr>"

lemma sources_stored:
  assumes docs: "docs = source_documents srcs" and st: "stored p fd rs" and ok: "documents_ok docs"
    and small: "length (f_bytes fd) + documents_weight docs < 2 ^ 31"
  obtains fd' where "add_sources (source_of srcs) fd = Inr (Some (skipped docs), fd')" "seek_end fd' = fd'"
    "stored p fd' (rs @ layouts (section_offset fd) (blocks_of docs))"
    "section_offset fd' = section_offset fd + sum_list (map fdi_size (blocks_of docs))"
    "length (f_bytes fd') \<le> length (f_bytes fd) + documents_weight docs"
proof -
  from documents_stored [OF st ok small] obtain fd' where fd': "add_documents docs fd = Inr (skipped docs, fd')"
    "stored p fd' (rs @ layouts (section_offset fd) (blocks_of docs))"
    "section_offset fd' = section_offset fd + sum_list (map fdi_size (blocks_of docs))"
    "length (f_bytes fd') \<le> length (f_bytes fd) + documents_weight docs"
    by blast
  have "add_sources (source_of srcs) fd = Inr (Some (skipped docs), fd')"
    using fd'(1) sources_documents [of srcs fd] by (simp add: then_entries_def docs)
  moreover have "seek_end fd' = fd'" using fd'(2) by (cases fd') (simp add: stored_def seek_end_def)
  ultimately show ?thesis using fd'(2-4) by (rule that)
qed

definition cache_start :: cache_file where
  "cache_start = seek_end (pad32_write 0 (encode_header 0 0 0 0) \<lparr>f_bytes = [], f_pos = 0\<rparr>)"

lemma cache_start_stored: "stored 24 cache_start []" and cache_start_length: "length (f_bytes cache_start) = 20"
proof -
  have "length (encode_header 0 0 0 0) = 20" by (simp add: encode_header_def)
  then have "encode_header 0 0 0 0 \<noteq> []" by (metis list.size(3) zero_neq_numeral)
  then have b: "f_bytes cache_start = encode_header 0 0 0 0"
    using padded_aligned [of 0 "encode_header 0 0 0 0"]
    by (simp add: cache_start_def pad32_write_bytes write_at_def encode_header_def)
  then show "length (f_bytes cache_start) = 20" by (simp add: encode_header_def)
  moreover have "f_pos cache_start = length (f_bytes cache_start)" by (simp add: cache_start_def)
  ultimately show "stored 24 cache_start []"
    by (simp add: stored_def header_ok_def b encode_header_def slice_def RULES_ROUND_def ROUND_def)
qed

text \<open>What has to be true of the directories: paths and documents are harmless and not too large.\<close>

definition sources_ok :: "(string \<times> doc_node list) list list \<Rightarrow> bool" where
  "sources_ok ss \<longleftrightarrow> list_all (\<lambda>s. documents_ok (source_documents s)) ss \<and>
     20 + sum_list (map (\<lambda>s. documents_weight (source_documents s)) ss) < 2 ^ 31"

lemma cache_built:
  assumes "sources_ok [pre, info, pol]"
  defines "P \<equiv> source_documents pre" and "I \<equiv> source_documents info" and "Q \<equiv> source_documents pol"
  obtains b where
    "di_rules_init (source_of pre) (source_of info) (source_of pol) = Inr (Some (skipped P + skipped I + skipped Q, b))"
    "init_rules b = cache_of (blocks_of P) (blocks_of I) (blocks_of Q) (length b)"
    "RULES_ROUND (length b) = 24 + sum_list (map fdi_size (blocks_of P @ blocks_of I @ blocks_of Q))"
    "\<forall>(off, r) \<in> set (rule_at (init_rules b)). off < length b"
proof -
  have ok: "documents_ok P" "documents_ok I" "documents_ok Q"
    and w: "20 + documents_weight P + documents_weight I + documents_weight Q < 2 ^ 31"
    using assms(1) by (auto simp: sources_ok_def P_def I_def Q_def)
  let ?L = "layouts 24"
  let ?p = "blocks_of P" and ?i = "blocks_of I" and ?q = "blocks_of Q"
  have s0: "section_offset cache_start = 24" by (simp add: section_offset_def cache_start_length RULES_ROUND_def ROUND_def)
  have small: "length (f_bytes cache_start) + documents_weight P < 2 ^ 31" using w by (simp add: cache_start_length)
  obtain fd1 where fd1: "add_sources (source_of pre) cache_start = Inr (Some (skipped P), fd1)" "seek_end fd1 = fd1"
    "stored 24 fd1 ([] @ layouts (section_offset cache_start) ?p)"
    "section_offset fd1 = section_offset cache_start + sum_list (map fdi_size ?p)"
    "length (f_bytes fd1) \<le> length (f_bytes cache_start) + documents_weight P"
    by (rule sources_stored [OF meta_eq_to_obj_eq [OF P_def] cache_start_stored ok(1) small])
  have small: "length (f_bytes fd1) + documents_weight I < 2 ^ 31" using w fd1(5) by (simp add: cache_start_length)
  obtain fd2 where fd2: "add_sources (source_of info) fd1 = Inr (Some (skipped I), fd2)" "seek_end fd2 = fd2"
    "stored 24 fd2 (([] @ layouts (section_offset cache_start) ?p) @ layouts (section_offset fd1) ?i)"
    "section_offset fd2 = section_offset fd1 + sum_list (map fdi_size ?i)"
    "length (f_bytes fd2) \<le> length (f_bytes fd1) + documents_weight I"
    by (rule sources_stored [OF meta_eq_to_obj_eq [OF I_def] fd1(3) ok(2) small])
  have small: "length (f_bytes fd2) + documents_weight Q < 2 ^ 31" using w fd1(5) fd2(5) by (simp add: cache_start_length)
  obtain fd3 where fd3: "add_sources (source_of pol) fd2 = Inr (Some (skipped Q), fd3)"
    "stored 24 fd3 ((([] @ layouts (section_offset cache_start) ?p) @ layouts (section_offset fd1) ?i) @ layouts (section_offset fd2) ?q)"
    "section_offset fd3 = section_offset fd2 + sum_list (map fdi_size ?q)"
    "length (f_bytes fd3) \<le> length (f_bytes fd2) + documents_weight Q"
    by (rule sources_stored [OF meta_eq_to_obj_eq [OF Q_def] fd2(3) ok(3) small])
  have off: "section_offset fd1 = 24 + sum_list (map fdi_size ?p)" "section_offset fd2 = 24 + sum_list (map fdi_size (?p @ ?i))"
    "section_offset fd3 = 24 + sum_list (map fdi_size (?p @ ?i @ ?q))"
    using fd1(4) fd2(4) fd3(3) s0 by simp_all
  have st: "stored 24 fd3 (?L (?p @ ?i @ ?q))" and len3: "length (f_bytes fd3) < 2 ^ 31"
    using fd3(2,4) small off s0 by (simp_all add: layouts_append add.assoc)
  define h where "h = encode_header (section_offset cache_start) (section_offset fd1) (section_offset fd2) (length (f_bytes fd3))"
  define b where "b = write_at (f_bytes fd3) 0 h"
  have h: "length h = 20" "slice h 16 4 = zeros 4" by (simp_all add: h_def encode_header_def slice_def)
  then have "h \<noteq> []" by (metis list.size(3) zero_neq_numeral)
  then have wr: "f_bytes (pad32_write 0 h fd3) = b" using h(1) by (simp add: pad32_write_bytes padded_aligned b_def)
  have len: "length b = length (f_bytes fd3)" using st h(1) by (simp add: b_def stored_def header_ok_def)
  have l: "laid b 24 (?L (?p @ ?i @ ?q)) (RULES_ROUND (length b))"
    using laid_header [OF _ h, of "f_bytes fd3"] st by (simp add: stored_def header_ok_def b_def [symmetric] len)
  have "di_rules_init (source_of pre) (source_of info) (source_of pol) = Inr (Some (skipped P + skipped I + skipped Q, b))"
    using fd1(1,2) fd2(1,2) fd3(1) wr by (simp add: di_rules_init_def cache_start_def [symmetric] h_def)
  moreover have "init_rules b = cache_of ?p ?i ?q (length b)"
  proof -
    have "section_offset fd2 \<le> section_offset fd3" "section_offset fd1 \<le> section_offset fd3"
      using off by simp_all
    moreover have "section_offset fd3 < 2 ^ 32"
      using RULES_ROUND_facts(2) [of "length (f_bytes fd3)"] len3 by (simp add: section_offset_def)
    ultimately have "read_int 4 b 0 = 24" "read_int 4 b 4 = section_offset fd1" "read_int 4 b 8 = section_offset fd2"
      "read_int 4 b 12 = length b"
      using read_header [of 24 "section_offset fd1" "section_offset fd2" "length (f_bytes fd3)" "f_bytes fd3"] len3
      unfolding len unfolding b_def h_def s0 by simp_all
    then show ?thesis
      using rules_between_laid [OF l laid_count [OF l]] off(1,2) by (simp add: init_rules_def cache_of_def)
  qed
  moreover have "RULES_ROUND (length b) = 24 + sum_list (map fdi_size (?p @ ?i @ ?q))"
    using off(3) by (simp add: section_offset_def len)
  moreover have "\<forall>(off, r) \<in> set (rule_at (init_rules b)). off < length b"
  proof -
    have "image b off r" if "(off, r) \<in> set (?L (?p @ ?i @ ?q))" for off r
      using split_list [OF that] l by (auto simp: laid_append)
    then show ?thesis using \<open>init_rules b = _\<close> by (fastforce simp: cache_of_def image_def)
  qed
  ultimately show ?thesis by (rule that)
qed

end
