(* ===== verification/Hal_Coherency.thy ===== *)
theory Hal_Coherency
  imports Hal_Cache_Build
begin

text \<open>
  Keeping the compiled cache up to date, \<open>hald/mmap_cache.c\<close>: the newest time stamp below the
  directories of the device information files, the decision to run the compiler, and the mapping of
  its output. The compiler runs as a helper process; what running it does to the cache file is a
  parameter, and \<open>helper\<close> is the compiler of this development as such a parameter. The directories are
  a parameter too: what \<open>stat\<close> and \<open>scandir\<close> say of them.
\<close>

section \<open>Time stamps\<close>

text \<open>\<^const>\<open>None\<close> where \<open>stat\<close> fails, and for the entries of a directory that cannot be read. The
  entries of a directory are in the order of the loop, which goes backwards through the sorted names.\<close>

datatype fs_node = FS_File int | FS_Dir int "(string \<times> fs_node option) list option"

fun dir_mtime ::
    "(string \<Rightarrow> string \<Rightarrow> string) \<Rightarrow> bool \<Rightarrow> string \<Rightarrow> fs_node option \<Rightarrow> int \<times> string list \<Rightarrow> int \<times> string list"
  and entries_mtime ::
    "(string \<Rightarrow> string \<Rightarrow> string) \<Rightarrow> bool \<Rightarrow> string \<Rightarrow> (string \<times> fs_node option) list \<Rightarrow> int \<times> string list \<Rightarrow>
     int \<times> string list" where
  "dir_mtime build setup_watches path node (mt, watched) =
     (let watched = (if setup_watches then watched @ [path] else watched)
      in case node of
           None \<Rightarrow> (mt, watched)
         | Some (FS_File t) \<Rightarrow> (if t > mt then t else mt, watched)
         | Some (FS_Dir t entries) \<Rightarrow>
             (let mt = (if t > mt then t else mt)
              in case entries of
                   None \<Rightarrow> (mt, watched)
                 | Some es \<Rightarrow> entries_mtime build setup_watches path es (mt, watched)))"
| "entries_mtime build setup_watches path [] acc = acc"
| "entries_mtime build setup_watches path ((name, node) # es) acc =
     entries_mtime build setup_watches path es
       (if name \<noteq> [] \<and> hd name = CHR ''.'' then acc
        else dir_mtime build setup_watches (build path name) node acc)"

section \<open>The cache in use\<close>

datatype run_result = HALD_RUN_SUCCESS | HALD_RUN_TIMEOUT | HALD_RUN_FAILED | HALD_RUN_KILLED

text \<open>The cache file with its time stamp, and the bytes the daemon has mapped.\<close>

record coherency =
  cache_valid :: bool
  regen_cache_success :: bool
  cache_on_disk :: "(int \<times> string) option"
  rules_ptr :: "string option"

type_synonym runner = "(int \<times> string) option \<Rightarrow> run_result \<times> nat \<times> (int \<times> string) option"

definition regen_cache_cb :: "run_result \<Rightarrow> nat \<Rightarrow> coherency \<Rightarrow> coherency" where
  "regen_cache_cb exit_type return_code st =
     st\<lparr>regen_cache_success := (exit_type = HALD_RUN_SUCCESS \<and> (return_code = 0 \<or> return_code = 2))\<rparr>"

definition regen_cache :: "runner \<Rightarrow> coherency \<Rightarrow> coherency" where
  "regen_cache run st =
     (case run (cache_on_disk st) of
        (exit_type, return_code, file) \<Rightarrow> regen_cache_cb exit_type return_code (st\<lparr>cache_on_disk := file\<rparr>))"

definition cache_invalidated :: "coherency \<Rightarrow> coherency" where
  "cache_invalidated st = st\<lparr>cache_valid := False\<rparr>"

definition sources_mtime ::
    "(string \<Rightarrow> string \<Rightarrow> string) \<Rightarrow> bool \<Rightarrow> (string \<times> fs_node option) list \<Rightarrow> int \<times> string list" where
  "sources_mtime build setup_watches dirs =
     fold (\<lambda>(path, node). dir_mtime build setup_watches path node) dirs (0, [])"

definition di_cache_coherency_check ::
    "runner \<Rightarrow> (string \<Rightarrow> string \<Rightarrow> string) \<Rightarrow> bool \<Rightarrow> (string \<times> fs_node option) list \<Rightarrow> coherency \<Rightarrow>
     bool \<times> coherency \<times> string list" where
  "di_cache_coherency_check run build setup_watches dirs st =
     (if cache_valid st then (False, st, [])
      else
        (case sources_mtime build setup_watches dirs of
           (mt, watched) \<Rightarrow>
             (let (did_regen, st) =
                (case cache_on_disk st of
                   Some (mtime, b) \<Rightarrow>
                     if mtime < mt then (True, regen_cache run st)
                     else if b = [] then (True, regen_cache run st)
                     else (False, st)
                 | None \<Rightarrow> (True, regen_cache run st))
              in (did_regen, st\<lparr>cache_valid := True\<rparr>, watched))))"

text \<open>Mapping the file; an empty file cannot be mapped.\<close>

definition map_rules :: "coherency \<Rightarrow> memory_error + coherency" where
  "map_rules st =
     (case cache_on_disk st of
        None \<Rightarrow> Inl Fatal
      | Some (_, b) \<Rightarrow> if b = [] then Inl Fatal else Inr (st\<lparr>rules_ptr := Some b\<rparr>))"

definition mmap_di_rules_init :: "runner \<Rightarrow> coherency \<Rightarrow> memory_error + coherency" where
  "mmap_di_rules_init run st =
     err_bind (map_rules st) (\<lambda>st.
       case rules_ptr st of
         None \<Rightarrow> Inr st
       | Some b \<Rightarrow>
           if length b \<noteq> all_rules_size (init_rules b) then map_rules (regen_cache run st) else Inr st)"

text \<open>What a search for a device does before it looks at the rules.\<close>

definition ensure_rules ::
    "runner \<Rightarrow> (string \<Rightarrow> string \<Rightarrow> string) \<Rightarrow> (string \<times> fs_node option) list \<Rightarrow> coherency \<Rightarrow> memory_error + coherency" where
  "ensure_rules run build dirs st =
     (case di_cache_coherency_check run build False dirs st of
        (did_regen, st, _) \<Rightarrow> if did_regen then mmap_di_rules_init run st else Inr st)"

text \<open>The start of the daemon.\<close>

definition load_rules ::
    "runner \<Rightarrow> (string \<Rightarrow> string \<Rightarrow> string) \<Rightarrow> (string \<times> fs_node option) list \<Rightarrow> coherency \<Rightarrow>
     memory_error + (coherency \<times> string list)" where
  "load_rules run build dirs st =
     (case di_cache_coherency_check run build True dirs st of
        (_, st, watched) \<Rightarrow> err_bind (mmap_di_rules_init run st) (\<lambda>st. Inr (st, watched)))"

text \<open>The compiler as a helper process: it writes a new file and renames it, and dies with status 1.\<close>

definition helper :: "int \<Rightarrow> fdi_source \<Rightarrow> fdi_source \<Rightarrow> fdi_source \<Rightarrow> runner" where
  "helper now pre info pol file =
     (let result = di_rules_init pre info pol
      in case main_exit result of
           Inl _ \<Rightarrow> (HALD_RUN_SUCCESS, 1, file)
         | Inr status \<Rightarrow>
             (HALD_RUN_SUCCESS, status,
              case result of Inr (Some (_, b)) \<Rightarrow> Some (now, b) | _ \<Rightarrow> file))"

end
