(* ===== verification/Hal_Rules_Props.thy ===== *)
theory Hal_Rules_Props
  imports Hal_Rules
begin

text \<open>
  Properties of the rule engine: the device tables and both property indexes stay in order whatever the
  rules do, the walk ends on caches whose jumps go forward, and the behaviour of the individual rules.
\<close>

section \<open>The world stays in order\<close>

definition world_ok :: "glib \<Rightarrow> world \<Rightarrow> bool" where
  "world_ok G w \<longleftrightarrow>
     (\<forall>x. dev_wf G (w_heap w x)) \<and>
     index_ok (w_heap w) (w_gdl w) \<and> index_ok (w_heap w) (w_tdl w) \<and>
     (\<forall>x \<in> set (devices (w_gdl w)) \<union> set (devices (w_tdl w)). x < w_next w)"

lemma index_ok_other:
  assumes "x \<notin> set (devices s)"
  shows "index_ok (h(x := d)) s \<longleftrightarrow> index_ok h s"
proof -
  have "(\<lambda>k v. {y \<in> set (devices s). hal_device_property_get_string ((h(x := d)) y) k = Some v}) =
      (\<lambda>k v. {y \<in> set (devices s). hal_device_property_get_string (h y) k = Some v})"
    using assms by (auto simp: fun_eq_iff)
  then show ?thesis unfolding index_ok_def by (simp only:)
qed

text \<open>The identifiers under which a device can be found.\<close>

definition known :: "world \<Rightarrow> string set" where
  "known w = {u. world_find u w \<noteq> None}"

text \<open>The devices below \<open>k\<close> keep their identifier and their place in the lists.\<close>

definition same_below :: "nat \<Rightarrow> world \<Rightarrow> world \<Rightarrow> bool" where
  "same_below k w w' \<longleftrightarrow>
     (\<forall>y < k. (y \<in> set (devices (w_gdl w')) \<longleftrightarrow> y \<in> set (devices (w_gdl w))) \<and>
        (y \<in> set (devices (w_tdl w')) \<longleftrightarrow> y \<in> set (devices (w_tdl w))) \<and> udi (w_heap w' y) = udi (w_heap w y))"

definition extends :: "glib \<Rightarrow> world \<Rightarrow> world \<Rightarrow> bool" where
  "extends G w w' \<longleftrightarrow>
     (world_ok G w \<longrightarrow> world_ok G w' \<and> known w \<subseteq> known w' \<and> w_next w \<le> w_next w' \<and> same_below (w_next w) w w')"

lemma same_below_refl [simp, intro]: "same_below k w w"
  by (simp add: same_below_def)

lemma same_below_trans: "same_below k w w' \<Longrightarrow> same_below k' w' w'' \<Longrightarrow> k \<le> k' \<Longrightarrow> same_below k w w''"
  by (auto simp: same_below_def)

definition spare :: "nat \<Rightarrow> world \<Rightarrow> bool" where
  "spare x w \<longleftrightarrow> x \<notin> set (devices (w_gdl w)) \<union> set (devices (w_tdl w)) \<and> x < w_next w"

lemma extends_refl [simp, intro]: "extends G w w"
  by (simp add: extends_def)

lemma extends_trans: "extends G w w' \<Longrightarrow> extends G w' w'' \<Longrightarrow> extends G w w''"
  using same_below_trans [of "w_next w" w w' "w_next w'" w''] by (auto simp: extends_def)

lemma find_udi_iff: "find_udi h u xs \<noteq> None \<longleftrightarrow> (\<exists>x \<in> set xs. udi (h x) = u)"
  by (induction xs) (auto simp: hal_device_get_udi_def)

lemma in_known: "u \<in> known w \<longleftrightarrow> (\<exists>x \<in> set (devices (w_gdl w)) \<union> set (devices (w_tdl w)). udi (w_heap w x) = u)"
proof -
  have "u \<in> known w \<longleftrightarrow>
      find_udi (w_heap w) u (devices (w_gdl w)) \<noteq> None \<or> find_udi (w_heap w) u (devices (w_tdl w)) \<noteq> None"
    by (auto simp: known_def world_find_def hal_device_store_find_def split: option.splits)
  then show ?thesis unfolding find_udi_iff by blast
qed

lemma known_eqI:
  assumes "set (devices (w_gdl w')) = set (devices (w_gdl w))" and "set (devices (w_tdl w')) = set (devices (w_tdl w))"
    and "\<And>x. x \<in> set (devices (w_gdl w)) \<union> set (devices (w_tdl w)) \<Longrightarrow> udi (w_heap w' x) = udi (w_heap w x)"
  shows "known w' = known w"
  using assms by (auto simp: in_known)

context dev_op
begin

lemma world_call_outcome:
  assumes "world_ok G w" and run: "world_call H dev opr w = Inr w'"
  shows "glib_ok G \<Longrightarrow> world_ok G w'" and "w_next w' = w_next w"
    and "set (devices (w_gdl w')) = set (devices (w_gdl w))" and "set (devices (w_tdl w')) = set (devices (w_tdl w))"
    and "x \<noteq> dev \<Longrightarrow> w_heap w' x = w_heap w x"
    and "\<exists>r es. opr (w_heap w dev) = (r, w_heap w' dev, es)"
proof -
  obtain r d' es where op: "opr (w_heap w dev) = (r, d', es)" by (metis prod_cases3)
  obtain g t where g: "deliver H dev es (w_gdl w) = Inr g" and t: "deliver H dev es (w_tdl w) = Inr t"
    and w': "w' = w\<lparr>w_heap := (w_heap w)(dev := d'), w_gdl := g, w_tdl := t\<rparr>"
    using run op by (auto simp: world_call_def)
  have ig: "index_ok (w_heap w) (w_gdl w)" and it: "index_ok (w_heap w) (w_tdl w)"
    and wf: "dev_wf G (w_heap w x)" for x
    using assms(1) by (simp_all add: world_ok_def)
  note tr = truthful [OF op]
  have dev: "set (devices g) = set (devices (w_gdl w))" "set (devices t) = set (devices (w_tdl w))"
    using deliver_devices [OF ig g tr] deliver_devices [OF it t tr] by auto
  then show "set (devices (w_gdl w')) = set (devices (w_gdl w))" "set (devices (w_tdl w')) = set (devices (w_tdl w))"
    "w_next w' = w_next w" "x \<noteq> dev \<Longrightarrow> w_heap w' x = w_heap w x"
    "\<exists>r es. opr (w_heap w dev) = (r, w_heap w' dev, es)"
    using op by (simp_all add: w')
  show "world_ok G w'" if "glib_ok G"
    using assms(1) keeps_wf [OF that wf op] dev store_follows [OF ig op g] store_follows [OF it op t]
    by (auto simp: world_ok_def w')
qed

lemma world_call_spare:
  assumes "glib_ok G" and "world_ok G w" and "spare x w" and run: "world_call H x opr w = Inr w'"
  shows "world_ok G w' \<and> spare x w' \<and> known w' = known w \<and> same_below x w w'"
proof -
  note out = world_call_outcome [OF assms(2) run]
  have "known w' = known w"
    using out(3,4,5) assms(3) by (intro known_eqI) (auto simp: spare_def, metis+)
  moreover have "same_below x w w'" using out(3,4,5) by (simp add: same_below_def)
  ultimately show ?thesis using out(1) [OF assms(1)] out(2,3,4) assms(3) by (simp add: spare_def)
qed

end

context udi_op
begin

lemma world_call_extends:
  assumes "glib_ok G" and run: "world_call H dev opr w = Inr w'"
  shows "extends G w w'"
proof -
  have "known w' = known w \<and> w_next w' = w_next w \<and> same_below k w w'" if "world_ok G w" for k
  proof -
    note out = world_call_outcome [OF that run]
    have "udi (w_heap w' x) = udi (w_heap w x)" for x
      using out(5,6) keeps_udi by (cases "x = dev") auto
    with out(2,3,4) show ?thesis using known_eqI [OF out(3,4)] by (simp add: same_below_def)
  qed
  then show ?thesis using world_call_outcome(1) [OF _ run assms(1)] by (auto simp: extends_def)
qed

end

lemmas world_setters =
  set_string.world_call_extends set_int.world_call_extends set_uint64.world_call_extends
  set_bool.world_call_extends set_double.world_call_extends remove.world_call_extends
  strlist_append.world_call_extends strlist_prepend.world_call_extends strlist_remove.world_call_extends
  copy_property.world_call_extends

lemma merge_set_extends:
  assumes "glib_ok (re_glib E)" and "merge_set E r dev key w = Inr w'"
  shows "extends (re_glib E) w w'"
proof (cases "type_merge r")
  case MERGE_STRLIST
  show ?thesis
  proof (cases "is_type (w_heap w dev) key TYPE_STRLIST \<or> is_type (w_heap w dev) key TYPE_INVALID")
    case True
    then obtain w1 where "world_call (re_hash E) dev (hal_device_property_remove key) w = Inr w1"
      "world_call (re_hash E) dev (hal_device_property_strlist_append key (rvalue r) False) w1 = Inr w'"
      using assms(2) MERGE_STRLIST by (auto simp: merge_set_def Let_def)
    then show ?thesis
      using remove.world_call_extends [OF assms(1)] strlist_append.world_call_extends [OF assms(1)]
        extends_trans by blast
  qed (use assms MERGE_STRLIST in \<open>simp add: merge_set_def\<close>)
qed (use assms in \<open>auto simp: merge_set_def Let_def intro: world_setters split: option.splits\<close>)

lemma merge_concat_extends:
  assumes "glib_ok (re_glib E)" and "merge_concat E r dev key w = Inr (b, w')"
  shows "extends (re_glib E) w w'"
  using assms by (auto simp: merge_concat_def Let_def intro: world_setters split: if_splits)

lemma merge_addset_extends:
  assumes "glib_ok (re_glib E)" and "merge_addset E r dev key w = Inr (b, w')"
  shows "extends (re_glib E) w w'"
  using assms by (auto simp: merge_addset_def Let_def intro: world_setters split: if_splits)

lemma merge_remove_extends:
  assumes "glib_ok (re_glib E)" and "merge_remove E r dev key w = Inr w'"
  shows "extends (re_glib E) w w'"
  using assms by (auto simp: merge_remove_def intro: world_setters split: if_splits)

subsection \<open>Spawning\<close>

lemma device_new_ok:
  assumes "world_ok G w" and "hal_device_new w = (x, w')"
  shows "world_ok G w' \<and> spare x w' \<and> known w' = known w \<and> x = w_next w \<and> same_below x w w'"
proof -
  have x: "x = w_next w" and w': "w_heap w' = (w_heap w)(x := fst (hal_device_init (w_counter w)))"
    "w_gdl w' = w_gdl w" "w_tdl w' = w_tdl w" "w_next w' = Suc x"
    using assms(2) by (auto simp: hal_device_new_def split: prod.splits)
  have new: "x \<notin> set (devices (w_gdl w')) \<union> set (devices (w_tdl w'))"
    using assms(1) w' x by (auto simp: world_ok_def)
  have "dev_wf G (fst (hal_device_init (w_counter w)))" by (simp add: hal_device_init_def dev_wf_def)
  with assms(1) new w' x have "world_ok G w'"
    by (auto simp: world_ok_def index_ok_other less_Suc_eq)
  moreover have "known w' = known w"
    using new w' by (intro known_eqI) auto
  ultimately show ?thesis using new x by (simp add: spare_def same_below_def w')
qed

abbreviation device_prefix :: string where
  "device_prefix \<equiv> ''/org/freedesktop/Hal/devices/''"

lemma set_udi_udi: "hal_device_set_udi G key d = (r, d', es) \<Longrightarrow> udi d' = key"
  using set_string.keeps_udi by (fastforce simp: hal_device_set_udi_def)

lemma store_add_devices:
  assumes "hal_device_store_add H x h s = Inr s'"
  shows "set (devices s') = (if prefix device_prefix (udi (h x)) then insert x (set (devices s)) else set (devices s))"
proof (cases "prefix device_prefix (udi (h x))")
  case True
  have "devices s' = devices s" if "property_index_check_keys H x d a keys s = Inr s'" for d a keys s s'
    using that
    by (induction keys arbitrary: s)
      (auto simp: property_index_modify_string_def Let_def split: option.splits if_splits)
  with assms True show ?thesis
    by (auto simp: hal_device_store_add_eq property_index_check_all_def store_emit_def)
next
  case False
  with assms show ?thesis by (simp add: hal_device_store_add_eq)
qed

lemma spawn_create_ok:
  assumes G: "glib_ok (re_glib E)" and ok: "world_ok (re_glib E) w"
    and run: "spawn_create E key dev w = Inr (x, w')"
  shows "world_ok (re_glib E) w'" and "known w' = known w \<union> (if prefix device_prefix key then {key} else {})"
    and "x = w_next w" and "x < w_next w'" and "same_below x w w'"
    and "x \<notin> set (devices (w_gdl w'))" and "x \<in> set (devices (w_tdl w')) \<longleftrightarrow> prefix device_prefix key"
    and "udi (w_heap w' x) = key"
proof -
  let ?ok = "\<lambda>w'. world_ok (re_glib E) w' \<and> spare x w' \<and> known w' = known w \<and> same_below x w w'"
  obtain w0 w1 w2 w3 t where
    new: "hal_device_new w = (x, w0)" and
    s1: "world_call (re_hash E) x (hal_device_property_set_string (re_glib E) ''info.subsystem'' (Some ''unknown'')) w0 = Inr w1" and
    s2: "world_call (re_hash E) x (hal_device_property_set_string (re_glib E) ''info.parent''
          (Some (hal_device_get_udi (w_heap w dev)))) w1 = Inr w2" and
    s3: "world_call (re_hash E) x (hal_device_set_udi (re_glib E) key) w2 = Inr w3" and
    s4: "hal_device_store_add (re_hash E) x (w_heap w3) (w_tdl w3) = Inr t" and
    w': "w' = w3\<lparr>w_tdl := t\<rparr>"
    using run by (cases "hal_device_new w") (auto simp: spawn_create_def Let_def)
  have "?ok w0" and x: "x = w_next w" using device_new_ok [OF ok new] by auto
  then have "?ok w1" using set_string.world_call_spare [OF G _ _ s1] same_below_trans by auto
  then have o2: "?ok w2" using set_string.world_call_spare [OF G _ _ s2] same_below_trans by auto
  then have o3: "?ok w3" using set_udi.world_call_spare [OF G _ _ s3] same_below_trans by auto
  have udi: "udi (w_heap w3 x) = key"
    using set_udi.world_call_outcome(6) [OF _ s3] o2 set_udi_udi by blast
  note dev = store_add_devices [OF s4, unfolded this]
  have "index_ok (w_heap w3) t"
    using add_index_ok [OF _ _ s4] o3 by (simp add: world_ok_def spare_def)
  then show "world_ok (re_glib E) w'"
    using o3 dev by (auto simp: world_ok_def spare_def w' split: if_splits)
  have "known w' = known w3 \<union> (if prefix device_prefix key then {key} else {})"
    using dev udi by (auto simp: in_known w' set_eq_iff)
  then show "known w' = known w \<union> (if prefix device_prefix key then {key} else {})" using o3 by simp
  show "x = w_next w" by (fact x)
  show "x < w_next w'" "same_below x w w'" "x \<notin> set (devices (w_gdl w'))" "udi (w_heap w' x) = key"
    "x \<in> set (devices (w_tdl w')) \<longleftrightarrow> prefix device_prefix key"
    using o3 dev udi by (auto simp: w' same_below_def spare_def split: if_splits)
qed

text \<open>The commit of a spawned device, which is in the temporary list when its identifier has the prefix.\<close>

lemma callouts_add_done_ok:
  assumes ok: "world_ok G w" and new: "x \<notin> set (devices (w_gdl w))" "x < w_next w"
    and tdl: "x \<in> set (devices (w_tdl w)) \<longleftrightarrow> prefix device_prefix (udi (w_heap w x))"
    and run: "spawned_device_callouts_add_done H x w = Inr w'"
  shows "world_ok G w'" and "known w' = known w" and "w_next w' = w_next w" and "same_below x w w'"
proof -
  obtain b t g where t: "hal_device_store_remove H x (w_heap w) (w_tdl w) = Inr (b, t)"
    and g: "hal_device_store_add H x (w_heap w) (w_gdl w) = Inr g" and w': "w' = w\<lparr>w_tdl := t, w_gdl := g\<rparr>"
    using run by (auto simp: spawned_device_callouts_add_done_def)
  have it: "index_ok (w_heap w) (w_tdl w)" and ig: "index_ok (w_heap w) (w_gdl w)"
    using ok by (simp_all add: world_ok_def)
  note rt = remove_index_ok [OF it t] and rg = add_index_ok [OF ig new(1) g] and dg = store_add_devices [OF g]
  show "w_next w' = w_next w" by (simp add: w')
  show "world_ok G w'" using ok rt rg new(2) by (auto simp: world_ok_def w')
  show "known w' = known w" using rt dg tdl by (auto simp: set_eq_iff in_known w')
  show "same_below x w w'" using rt dg by (auto simp: same_below_def w')
qed

lemma spawned_callouts_extends:
  assumes ok: "world_ok (re_glib E) w" and new: "x \<notin> set (devices (w_gdl w))" "x < w_next w"
    and tdl: "x \<in> set (devices (w_tdl w)) \<longleftrightarrow> prefix device_prefix (udi (w_heap w x))"
    and run: "spawned_callouts_add E x w = Inr w'"
  shows "world_ok (re_glib E) w' \<and> known w' = known w \<and> w_next w' = w_next w \<and> same_below x w w'"
proof (cases "spawned_device_callouts_add_done (re_hash E) x w = Inr w'")
  case True
  from callouts_add_done_ok [OF ok new tdl this] show ?thesis by blast
next
  case False
  with run have "w' = w\<lparr>w_callouts := w_callouts w @ [x]\<rparr>"
    by (auto simp: spawned_callouts_add_def split: option.splits list.splits if_splits)
  then show ?thesis using ok by (auto simp: world_ok_def in_known same_below_def)
qed

lemma spawn_device_extends:
  assumes "glib_ok (re_glib E)"
    and search: "\<And>x p w w'. search x p w = Inr w' \<Longrightarrow> extends (re_glib E) w w'"
    and run: "spawn_device E search key dev w = Inr w'"
  shows "extends (re_glib E) w w'"
proof -
  obtain x w1 w2 w3 where c: "spawn_create E key dev w = Inr (x, w1)"
    and s: "search x False w1 = Inr w2" "search x True w2 = Inr w3"
    and committed: "spawned_callouts_add E x w3 = Inr w'"
    using run by (auto simp: spawn_device_def)
  have "world_ok (re_glib E) w' \<and> known w \<subseteq> known w' \<and> w_next w \<le> w_next w' \<and> same_below (w_next w) w w'"
    if ok: "world_ok (re_glib E) w"
  proof -
    note new = spawn_create_ok [OF assms(1) ok c]
    have "extends (re_glib E) w1 w3" using search s extends_trans by blast
    with new(1) have w3: "world_ok (re_glib E) w3" "known w1 \<subseteq> known w3" "w_next w1 \<le> w_next w3"
      and same: "same_below (w_next w1) w1 w3" by (simp_all add: extends_def)
    have "x \<notin> set (devices (w_gdl w3))" "x < w_next w3"
      "x \<in> set (devices (w_tdl w3)) \<longleftrightarrow> prefix device_prefix (udi (w_heap w3 x))"
      using same new(4,6,7,8) w3(3) by (auto simp: same_below_def)
    from spawned_callouts_extends [OF w3(1) this committed]
    have "world_ok (re_glib E) w'" "known w' = known w3" "w_next w' = w_next w3" "same_below x w3 w'" by blast+
    moreover have "same_below x w w3" using same_below_trans [OF new(5) same] new(4) by simp
    ultimately show ?thesis using new(2,3,4) w3 same_below_trans by auto
  qed
  then show ?thesis by (simp add: extends_def)
qed

lemma handle_merge_extends:
  assumes "glib_ok (re_glib E)"
    and "\<And>x p w w'. search x p w = Inr w' \<Longrightarrow> extends (re_glib E) w w'"
    and "handle_merge E search r dev w = Inr (b, w')"
  shows "extends (re_glib E) w w'"
proof -
  obtain target where target: "merge_target E r dev w = Inr target"
    using assms(3) by (auto simp: handle_merge_def)
  show ?thesis
  proof (cases target)
    case None
    with target assms(3) show ?thesis by (simp add: handle_merge_def)
  next
    case (Some dk)
    obtain d key where dk: "dk = (d, key)" by (cases dk)
    note m = assms(3) [unfolded handle_merge_def target Some dk, simplified]
    show ?thesis
    proof (cases "rtype r")
      case RULE_MERGE
      with m show ?thesis using merge_set_extends [OF assms(1)] by auto
    next
      case RULE_REMOVE
      with m show ?thesis using merge_remove_extends [OF assms(1)] by auto
    next
      case RULE_SPAWN
      show ?thesis
      proof (cases "world_find key w")
        case None
        with m RULE_SPAWN have "spawn_device E search key d w = Inr w'" by auto
        from spawn_device_extends [OF assms(1,2) this] show ?thesis .
      qed (use m RULE_SPAWN in auto)
    qed (use m merge_concat_extends [OF assms(1)] merge_addset_extends [OF assms(1)] in auto)
  qed
qed

subsection \<open>The walk\<close>

abbreviation rules_search :: "nat \<Rightarrow> rule_env \<Rightarrow> nat \<Rightarrow> bool \<Rightarrow> world \<Rightarrow> memory_error + world" where
  "rules_search n E \<equiv> \<lambda>x policy w. rules_match_and_merge_device n E (section_start (re_cache E) policy) x w"

lemma rules_merge_step:
  assumes "map_of (rule_at (re_cache E)) off = Some r" and "rtype r \<notin> {RULE_MATCH, RULE_EOF, RULE_UNKNOWN}"
  shows "rules_match_and_merge_device (Suc n) E (Some off) dev w =
    err_bind (handle_merge E (rules_search n E) r dev w)
      (\<lambda>(_, w). rules_match_and_merge_device n E (di_next (re_cache E) off r) dev w)"
  using assms by (cases "rtype r") auto

lemma rules_plain_step:
  assumes "map_of (rule_at (re_cache E)) off = Some r" and "rtype r \<in> {RULE_MATCH, RULE_EOF, RULE_UNKNOWN}"
  shows "rules_match_and_merge_device (Suc n) E (Some off) dev w =
    (if rtype r = RULE_MATCH
     then err_bind (handle_match (re_glib E) (re_hash E) r dev w) (\<lambda>m.
            if m then rules_match_and_merge_device n E (di_next (re_cache E) off r) dev w
            else (case di_jump (re_cache E) off r of
                    None \<Rightarrow> Inl Fatal
                  | Some off' \<Rightarrow> rules_match_and_merge_device n E (Some off') dev w))
     else if rtype r = RULE_EOF then rules_match_and_merge_device n E (di_next (re_cache E) off r) dev w
     else (case di_jump (re_cache E) off r of
             None \<Rightarrow> Inr w
           | Some off' \<Rightarrow>
               (case map_of (rule_at (re_cache E)) off' of
                  None \<Rightarrow> Inl Buffer_Overrun
                | Some r' \<Rightarrow> rules_match_and_merge_device n E (di_next (re_cache E) off' r') dev w)))"
  using assms by auto

lemma rules_extends:
  assumes "glib_ok (re_glib E)"
  shows "rules_match_and_merge_device n E off dev w = Inr w' \<Longrightarrow> extends (re_glib E) w w'"
proof (induction n arbitrary: off dev w w')
  case (Suc n)
  show ?case
  proof (cases off)
    case None
    with Suc.prems show ?thesis by simp
  next
    case (Some o')
    then obtain r where r: "map_of (rule_at (re_cache E)) o' = Some r"
      using Suc.prems by (cases "map_of (rule_at (re_cache E)) o'") auto
    show ?thesis
    proof (cases "rtype r \<in> {RULE_MATCH, RULE_EOF, RULE_UNKNOWN}")
      case True
      with Suc Some r show ?thesis by (auto split: if_splits option.splits)
    next
      case False
      then obtain b w1 where h: "handle_merge E (rules_search n E) r dev w = Inr (b, w1)"
        and rest: "rules_match_and_merge_device n E (di_next (re_cache E) o' r) dev w1 = Inr w'"
        using rules_merge_step [OF r False] Suc.prems Some by auto
      have "extends (re_glib E) w w1" by (rule handle_merge_extends [OF assms Suc.IH h])
      then show ?thesis using Suc.IH [OF rest] extends_trans by blast
    qed
  qed
qed simp

section \<open>Fuel\<close>

text \<open>Only the walk itself consumes fuel.\<close>

lemma modify_string_fuel [fuel_free, intro]: "no_fuel_error (property_index_modify_string H dev d key added s)"
  by (auto simp: property_index_modify_string_def index_lookup_def index_insert_def Let_def
      intro!: no_fuel_error_bind split: option.splits)

lemma handler_fuel [fuel_free, intro]: "no_fuel_error (store_handler H dev e s)"
  by (cases "(H, dev, e, s)" rule: store_handler.cases) (auto intro!: no_fuel_error_bind modify_string_fuel)

lemma deliver_fuel [fuel_free, intro]: "no_fuel_error (deliver H dev es s)"
  unfolding deliver_def deliver_one_def by (intro fuel_free) auto

lemma check_keys_fuel [fuel_free, intro]: "no_fuel_error (property_index_check_keys H dev d added keys s)"
  by (induction keys arbitrary: s) (auto intro!: no_fuel_error_bind modify_string_fuel)

lemma store_add_fuel [fuel_free, intro]: "no_fuel_error (hal_device_store_add H dev h s)"
  by (auto simp: hal_device_store_add_def property_index_check_all_def intro!: no_fuel_error_bind check_keys_fuel)

lemma store_remove_fuel [fuel_free, intro]: "no_fuel_error (hal_device_store_remove H dev h s)"
  by (auto simp: hal_device_store_remove_def property_index_check_all_def intro!: no_fuel_error_bind check_keys_fuel)

lemma callouts_add_done_fuel [fuel_free, intro]: "no_fuel_error (spawned_device_callouts_add_done H x w)"
  by (auto simp: spawned_device_callouts_add_done_def
      intro!: no_fuel_error_bind store_remove_fuel store_add_fuel split: prod.splits)

lemma spawned_callouts_fuel: "(\<And>p. re_starts E p) \<Longrightarrow> no_fuel_error (spawned_callouts_add E x w)"
  by (auto simp: spawned_callouts_add_def intro!: callouts_add_done_fuel split: option.splits list.splits)

lemma world_call_fuel [fuel_free, intro]: "no_fuel_error (world_call H dev opr w)"
  by (auto simp: world_call_def intro!: no_fuel_error_bind deliver_fuel split: prod.splits)

lemma path_copy_fuel [fuel_free, intro]: "no_fuel_error (path_copy s)"
  by (simp add: path_copy_def split: option.splits)

lemma resolve_tokens_fuel [fuel_free, intro]: "no_fuel_error (resolve_tokens w u toks)"
  by (induction w u toks rule: resolve_tokens.induct)
    (auto intro!: no_fuel_error_bind path_copy_fuel split: option.splits list.splits)

lemma resolve_fuel [fuel_free, intro]: "no_fuel_error (resolve_udiprop_path w path u)"
  by (auto simp: resolve_udiprop_path_def resolve_udiprop_path_old_def Let_def
      intro!: no_fuel_error_bind path_copy_fuel resolve_tokens_fuel)

lemma str_of_fuel [fuel_free, intro]: "no_fuel_error (str_of d key)"
  by (simp add: str_of_def split: option.splits)

lemma compare_property_fuel [fuel_free, intro]: "no_fuel_error (match_compare_property d key v)"
  by (auto simp: match_compare_property_def check64_def intro!: no_fuel_error_bind str_of_fuel
      split: hal_property_type.splits option.splits)

lemma scan_all_fuel [fuel_free, intro]: "no_fuel_error (scan_all h key v ds ms)"
  by (induction ds arbitrary: ms)
    (auto simp: match_string_def intro!: no_fuel_error_bind split: option.splits)

lemma match_sibling_fuel [fuel_free, intro]: "no_fuel_error (match_sibling_contains H w dev key v)"
  by (auto simp: match_sibling_contains_def hal_device_store_match_multiple_key_value_string_def index_lookup_def
      intro!: no_fuel_error_bind scan_all_fuel split: option.splits)

lemma match_dispatch_fuel [fuel_free, intro]: "no_fuel_error (match_dispatch G H w dev type key v)"
  by (cases type)
    (auto simp: match_dispatch_def match_form_def match_contains_ncase_def match_affix_ncase_def match_compare_def
      match_value_def Let_def intro!: no_fuel_error_bind str_of_fuel compare_property_fuel match_sibling_fuel)

lemma handle_match_fuel [fuel_free, intro]: "no_fuel_error (handle_match G H r dev w)"
  by (auto simp: handle_match_def Let_def intro!: no_fuel_error_bind resolve_fuel match_dispatch_fuel
      split: option.splits)

lemma copy_source_fuel [fuel_free, intro]: "no_fuel_error (copy_source dev v w)"
  by (auto simp: copy_source_def intro!: no_fuel_error_bind resolve_fuel split: option.splits)

lemma merge_set_fuel [fuel_free, intro]: "no_fuel_error (merge_set E r dev key w)"
  by (auto simp: merge_set_def Let_def intro!: no_fuel_error_bind world_call_fuel copy_source_fuel
      split: merge_type.splits option.splits)

lemma merge_concat_fuel [fuel_free, intro]: "no_fuel_error (merge_concat E r dev key w)"
  by (auto simp: merge_concat_def concat_buf_def path_concat_def Let_def
      intro!: no_fuel_error_bind world_call_fuel copy_source_fuel split: merge_type.splits option.splits)

lemma merge_addset_fuel [fuel_free, intro]: "no_fuel_error (merge_addset E r dev key w)"
  by (auto simp: merge_addset_def Let_def intro!: no_fuel_error_bind world_call_fuel)

lemma merge_remove_fuel [fuel_free, intro]: "no_fuel_error (merge_remove E r dev key w)"
  by (auto simp: merge_remove_def intro!: world_call_fuel)

lemma merge_target_fuel [fuel_free, intro]: "no_fuel_error (merge_target E r dev w)"
  by (auto simp: merge_target_def merge_key_def intro!: no_fuel_error_bind resolve_fuel split: option.splits)

lemma spawn_create_fuel [fuel_free, intro]: "no_fuel_error (spawn_create E key dev w)"
  by (auto simp: spawn_create_def Let_def intro!: no_fuel_error_bind world_call_fuel store_add_fuel split: prod.splits)

text \<open>When the runner takes every program, the effect of a rule runs out of fuel only in a search for a
  spawned device.\<close>

lemma handle_merge_fuel:
  assumes starts: "\<And>p. re_starts E p"
    and "\<And>key x w1 p w2. rtype r = RULE_SPAWN \<Longrightarrow> world_find (rkey r) w = None \<Longrightarrow>
      spawn_create E (rkey r) dev w = Inr (x, w1) \<Longrightarrow> w2 = w1 \<or> search x False w1 = Inr w2 \<Longrightarrow>
      no_fuel_error (search x p w2)"
  shows "no_fuel_error (handle_merge E search r dev w)"
proof (cases "rtype r = RULE_SPAWN")
  case True
  then show ?thesis
    using assms(2)
    by (auto simp: handle_merge_def merge_target_def spawn_device_def
        intro!: no_fuel_error_bind spawn_create_fuel spawned_callouts_fuel [OF starts] split: option.splits)
next
  case False
  then show ?thesis
    by (auto simp: handle_merge_def intro!: fuel_free split: option.splits rule_type.splits)
qed

text \<open>More fuel changes no outcome.\<close>

lemma handle_merge_mono:
  assumes "\<And>x p w. fuel_le (search x p w) (search' x p w)"
  shows "fuel_le (handle_merge E search r dev w) (handle_merge E search' r dev w)"
proof -
  have "fuel_le (spawn_device E search key dev w) (spawn_device E search' key dev w)" for key dev
    using assms by (auto simp: spawn_device_def intro!: fuel_le_bind split: prod.splits)
  then show ?thesis
    by (auto simp: handle_merge_def intro!: fuel_le_bind split: option.splits rule_type.splits)
qed

lemma rules_mono_Suc:
  "fuel_le (rules_match_and_merge_device n E off dev w) (rules_match_and_merge_device (Suc n) E off dev w)"
proof (induction n arbitrary: off dev w)
  case (Suc n)
  show ?case
  proof (cases off)
    case (Some o')
    show ?thesis
    proof (cases "map_of (rule_at (re_cache E)) o'")
      case (Some r)
      show ?thesis
      proof (cases "rtype r \<in> {RULE_MATCH, RULE_EOF, RULE_UNKNOWN}")
        case True
        show ?thesis
          unfolding \<open>off = Some o'\<close> rules_plain_step [OF Some True, of n] rules_plain_step [OF Some True, of "Suc n"]
          using Suc by (auto intro!: fuel_le_bind split: option.splits simp del: rules_match_and_merge_device.simps)
      next
        case False
        show ?thesis
          unfolding \<open>off = Some o'\<close> rules_merge_step [OF Some False]
          using Suc by (intro fuel_le_bind handle_merge_mono) (auto split: prod.splits)
      qed
    qed (simp add: \<open>off = Some o'\<close>)
  qed simp
qed simp

lemma rules_mono:
  assumes "no_fuel_error (rules_match_and_merge_device n E off dev w)" and "n \<le> m"
  shows "rules_match_and_merge_device m E off dev w = rules_match_and_merge_device n E off dev w"
  using assms(2)
proof (induction m rule: dec_induct)
  case (step m)
  with assms(1) rules_mono_Suc [of m E off dev w] show ?case by (auto simp: fuel_le_def no_fuel_error_def)
qed simp

subsection \<open>Caches whose jumps go forward\<close>

text \<open>What the compiler of the cache produces: the sections follow each other, rules have a size, jumps
  go forward, and a \<open>spawn\<close> rule names a device of the daemon.\<close>

definition rule_ok :: "nat \<times> rule \<Rightarrow> bool" where
  "rule_ok = (\<lambda>(off, r). 0 < rule_size r \<and> (jump_position r = 0 \<or> off < jump_position r) \<and>
     (rtype r = RULE_SPAWN \<longrightarrow> prefix ''/org/freedesktop/Hal/devices/'' (rkey r)))"

definition cache_ok :: "rule_cache \<Rightarrow> bool" where
  "cache_ok C \<longleftrightarrow>
     fdi_rules_preprobe C \<le> fdi_rules_information C \<and> fdi_rules_information C \<le> fdi_rules_policy C \<and>
     list_all rule_ok (rule_at C)"

text \<open>Where the last section ends: the size is not rounded, but the start of an empty section is.\<close>

definition cache_end :: "rule_cache \<Rightarrow> nat" where
  "cache_end C = max (fdi_rules_policy C) (all_rules_size C)"

definition spawn_keys :: "rule_cache \<Rightarrow> string set" where
  "spawn_keys C = {rkey r |off r. (off, r) \<in> set (rule_at C) \<and> rtype r = RULE_SPAWN}"

text \<open>The devices still to be spawned, and the fuel the rest of a walk needs.\<close>

definition missing :: "rule_cache \<Rightarrow> world \<Rightarrow> nat" where
  "missing C w = card (spawn_keys C - known w)"

definition rest_of :: "rule_cache \<Rightarrow> nat option \<Rightarrow> nat" where
  "rest_of C off = (case off of None \<Rightarrow> 0 | Some o' \<Rightarrow> cache_end C - o')"

definition needed :: "rule_cache \<Rightarrow> world \<Rightarrow> nat option \<Rightarrow> nat" where
  "needed C w off = missing C w * Suc (cache_end C) + rest_of C off"

definition in_cache :: "rule_cache \<Rightarrow> nat option \<Rightarrow> bool" where
  "in_cache C off \<longleftrightarrow> (\<forall>o'. off = Some o' \<longrightarrow> o' < cache_end C)"

lemma spawn_keys_eq: "spawn_keys C = (\<lambda>(off, r). rkey r) ` {(off, r) \<in> set (rule_at C). rtype r = RULE_SPAWN}"
  by (force simp: spawn_keys_def)

lemma finite_spawn_keys [simp]: "finite (spawn_keys C)"
proof -
  have "{(off, r) \<in> set (rule_at C). rtype r = RULE_SPAWN} \<subseteq> set (rule_at C)" by auto
  then show ?thesis unfolding spawn_keys_eq by (meson finite_imageI finite_set finite_subset)
qed

lemma missing_le: "missing C w \<le> length (rule_at C)"
proof -
  have "missing C w \<le> card (spawn_keys C)" unfolding missing_def by (intro card_mono) auto
  also have "\<dots> \<le> card {(off, r) \<in> set (rule_at C). rtype r = RULE_SPAWN}"
    unfolding spawn_keys_eq by (intro card_image_le finite_subset [OF _ finite_set [of "rule_at C"]]) auto
  also have "\<dots> \<le> card (set (rule_at C))" by (intro card_mono) auto
  also have "\<dots> \<le> length (rule_at C)" by (rule card_length)
  finally show ?thesis .
qed

lemma missing_mono: "known w \<subseteq> known w' \<Longrightarrow> missing C w' \<le> missing C w"
  unfolding missing_def by (intro card_mono) auto

lemma missing_less: "known w \<subseteq> known w' \<Longrightarrow> k \<in> spawn_keys C \<Longrightarrow> k \<notin> known w \<Longrightarrow> k \<in> known w' \<Longrightarrow>
    missing C w' < missing C w"
  unfolding missing_def by (intro psubset_card_mono) auto

lemma rest_of_less:
  assumes "cache_ok C" and "off < cache_end C" and "off' = None \<or> (\<exists>n. off' = Some n \<and> off < n)"
  shows "rest_of C off' < rest_of C (Some off)"
  using assms by (auto simp: rest_of_def)

lemma in_section_bound: "cache_ok C \<Longrightarrow> in_section C off n \<Longrightarrow> n < cache_end C"
  by (auto simp: cache_ok_def in_section_def cache_end_def)

lemma di_next_forward:
  assumes "cache_ok C" and "map_of (rule_at C) off = Some r"
  shows "in_cache C (di_next C off r)" and "di_next C off r = None \<or> (\<exists>n. di_next C off r = Some n \<and> off < n)"
proof -
  have "0 < rule_size r"
    using assms by (auto simp: cache_ok_def rule_ok_def list_all_iff dest!: map_of_SomeD)
  then show "di_next C off r = None \<or> (\<exists>n. di_next C off r = Some n \<and> off < n)"
    by (simp add: di_next_def Let_def)
  show "in_cache C (di_next C off r)"
    using in_section_bound [OF assms(1)] by (simp add: in_cache_def di_next_def Let_def)
qed

lemma di_jump_forward:
  assumes "cache_ok C" and "map_of (rule_at C) off = Some r" and "di_jump C off r = Some n"
  shows "n < cache_end C" and "off < n"
proof -
  have "jump_position r = 0 \<or> off < jump_position r"
    using assms by (auto simp: cache_ok_def rule_ok_def list_all_iff dest!: map_of_SomeD)
  with assms(3) show "off < n" by (auto simp: di_jump_def Let_def split: if_splits)
  show "n < cache_end C"
    using assms(3) in_section_bound [OF assms(1)] by (auto simp: di_jump_def Let_def split: if_splits)
qed

lemma section_start_in: "cache_ok C \<Longrightarrow> in_cache C (section_start C policy)"
  by (auto simp: in_cache_def section_start_def cache_ok_def cache_end_def)

text \<open>Where a search begins.\<close>

definition search_start :: "rule_cache \<Rightarrow> device_info_type \<Rightarrow> nat option" where
  "search_start C type =
     (case type of
        DEVICE_INFO_TYPE_PREPROBE \<Rightarrow>
          (if fdi_rules_information C > fdi_rules_preprobe C then Some (fdi_rules_preprobe C) else None)
      | DEVICE_INFO_TYPE_INFORMATION \<Rightarrow> section_start C False
      | DEVICE_INFO_TYPE_POLICY \<Rightarrow> section_start C True)"

lemma search_from_start:
  "di_search_and_merge n E dev type w = rules_match_and_merge_device n E (search_start (re_cache E) type) dev w"
  by (simp add: di_search_and_merge_def search_start_def Let_def)

lemma search_start_in: "cache_ok C \<Longrightarrow> in_cache C (search_start C type)"
  by (cases type) (auto simp: search_start_def in_cache_def section_start_def cache_ok_def cache_end_def)

lemma needed_after_spawn:
  assumes G: "glib_ok (re_glib E)" and C: "cache_ok (re_cache E)" and ok: "world_ok (re_glib E) w"
    and r: "map_of (rule_at (re_cache E)) off = Some r" and off: "off < cache_end (re_cache E)"
    and spawn: "rtype r = RULE_SPAWN" "world_find (rkey r) w = None"
    and c: "spawn_create E (rkey r) dev w = Inr (x, w1)" and ext: "extends (re_glib E) w1 w2"
  shows "world_ok (re_glib E) w2 \<and>
    needed (re_cache E) w2 (section_start (re_cache E) p) < needed (re_cache E) w (Some off)"
proof -
  let ?C = "re_cache E"
  have key: "prefix ''/org/freedesktop/Hal/devices/'' (rkey r)" "rkey r \<in> spawn_keys ?C" "rkey r \<notin> known w"
    using C spawn map_of_SomeD [OF r]
    by (auto simp: cache_ok_def list_all_iff rule_ok_def spawn_keys_def known_def)
  have "world_ok (re_glib E) w2" and k: "known w \<subseteq> known w2" "rkey r \<in> known w2"
    using spawn_create_ok(1,2) [OF G ok c] ext key by (auto simp: extends_def)
  moreover have "Suc (missing ?C w2) * Suc (cache_end ?C) \<le> missing ?C w * Suc (cache_end ?C)"
    using missing_less [OF k(1) key(2,3) k(2)] by (intro mult_le_mono1) simp
  moreover have "rest_of ?C (section_start ?C p) \<le> cache_end ?C"
    by (simp add: rest_of_def split: option.splits)
  ultimately show ?thesis using off by (simp add: needed_def rest_of_def)
qed

lemma plain_step_fuel:
  assumes C: "cache_ok (re_cache E)" and r: "map_of (rule_at (re_cache E)) off = Some r"
    and "rtype r \<in> {RULE_MATCH, RULE_EOF, RULE_UNKNOWN}"
    and later: "\<And>off'. in_cache (re_cache E) off' \<Longrightarrow> off' = None \<or> (\<exists>n. off' = Some n \<and> off < n) \<Longrightarrow>
      no_fuel_error (rules_match_and_merge_device n E off' dev w)"
  shows "no_fuel_error (rules_match_and_merge_device (Suc n) E (Some off) dev w)"
proof -
  let ?C = "re_cache E"
  have "no_fuel_error (rules_match_and_merge_device n E (Some o2) dev w)" if "di_jump ?C off r = Some o2" for o2
    using later di_jump_forward [OF C r that] by (simp add: in_cache_def)
  moreover have "no_fuel_error (rules_match_and_merge_device n E (di_next ?C o2 r2) dev w)"
    if "di_jump ?C off r = Some o2" "map_of (rule_at ?C) o2 = Some r2" for o2 r2
    using later di_jump_forward [OF C r that(1)] di_next_forward [OF C that(2)]
    by (metis order.strict_trans)
  moreover have "no_fuel_error (rules_match_and_merge_device n E (di_next ?C off r) dev w)"
    using later di_next_forward [OF C r] by simp
  ultimately show ?thesis
    unfolding rules_plain_step [OF r assms(3)] by (auto split: option.splits)
qed

lemma rules_enough_fuel:
  assumes G: "glib_ok (re_glib E)" and C: "cache_ok (re_cache E)" and starts: "\<And>p. re_starts E p"
  shows "world_ok (re_glib E) w \<Longrightarrow> in_cache (re_cache E) off \<Longrightarrow> needed (re_cache E) w off < n \<Longrightarrow>
    no_fuel_error (rules_match_and_merge_device n E off dev w)"
proof (induction n arbitrary: off dev w)
  case (Suc n)
  let ?C = "re_cache E"
  show ?case
  proof (cases off)
    case (Some o')
    then have o': "o' < cache_end ?C" using Suc.prems by (simp add: in_cache_def)
    show ?thesis
    proof (cases "map_of (rule_at ?C) o'")
      case (Some r)
      have later: "no_fuel_error (rules_match_and_merge_device n E off' dev w')"
        if "in_cache ?C off'" "off' = None \<or> (\<exists>n. off' = Some n \<and> o' < n)"
          "world_ok (re_glib E) w'" "known w \<subseteq> known w'" for off' w'
      proof (rule Suc.IH [OF that(3,1)])
        have "missing ?C w' * Suc (cache_end ?C) \<le> missing ?C w * Suc (cache_end ?C)"
          using missing_mono [OF that(4)] by (rule mult_le_mono1)
        then show "needed ?C w' off' < n"
          using rest_of_less [OF C o' that(2)] Suc.prems(3) \<open>off = Some o'\<close> by (simp add: needed_def)
      qed
      note fwd = di_next_forward [OF C Some]
      show ?thesis
      proof (cases "rtype r \<in> {RULE_MATCH, RULE_EOF, RULE_UNKNOWN}")
        case True
        show ?thesis
          unfolding \<open>off = Some o'\<close>
          using plain_step_fuel [OF C Some True] later Suc.prems(1) by blast
      next
        case False
        show ?thesis
          unfolding \<open>off = Some o'\<close> rules_merge_step [OF Some False]
        proof (rule no_fuel_error_bind)
          show "no_fuel_error (handle_merge E (rules_search n E) r dev w)"
          proof (rule handle_merge_fuel [OF starts])
            fix x w1 p w2
            assume sp: "rtype r = RULE_SPAWN" "world_find (rkey r) w = None"
              and c: "spawn_create E (rkey r) dev w = Inr (x, w1)"
              and w2: "w2 = w1 \<or> rules_search n E x False w1 = Inr w2"
            have "extends (re_glib E) w1 w2" using w2 rules_extends [OF G] by auto
            from needed_after_spawn [OF G C Suc.prems(1) Some o' sp c this, of p]
            show "no_fuel_error (rules_search n E x p w2)"
              using Suc.IH section_start_in [OF C] Suc.prems(3) \<open>off = Some o'\<close> by auto
          qed
        next
          fix bw
          assume "handle_merge E (rules_search n E) r dev w = Inr bw"
          moreover obtain b w' where "bw = (b, w')" by (cases bw)
          ultimately have "extends (re_glib E) w w'"
            by (auto intro: handle_merge_extends [OF G, of "rules_search n E"] rules_extends [OF G])
          then show "no_fuel_error (case bw of (_, w) \<Rightarrow> rules_match_and_merge_device n E (di_next ?C o' r) dev w)"
            using later [OF fwd] Suc.prems(1) \<open>bw = (b, w')\<close> by (simp add: extends_def)
        qed
      qed
    qed (simp add: \<open>off = Some o'\<close>)
  qed simp
qed (simp add: needed_def)

lemma search_mono:
  assumes "no_fuel_error (di_search_and_merge n E dev type w)" and "n \<le> m"
  shows "di_search_and_merge m E dev type w = di_search_and_merge n E dev type w"
  using rules_mono [OF assms(1) [unfolded search_from_start] assms(2)] by (simp add: search_from_start)

lemma search_enough_fuel:
  assumes "glib_ok (re_glib E)" and "cache_ok (re_cache E)" and "\<And>p. re_starts E p" and "world_ok (re_glib E) w"
  shows "no_fuel_error (di_search_and_merge (Suc (length (rule_at (re_cache E))) * Suc (cache_end (re_cache E))) E dev type w)"
proof -
  let ?C = "re_cache E"
  let ?off = "search_start ?C type"
  define N where "N = Suc (length (rule_at ?C)) * Suc (cache_end ?C)"
  have "missing ?C w * Suc (cache_end ?C) \<le> length (rule_at ?C) * Suc (cache_end ?C)"
    using missing_le by (rule mult_le_mono1)
  moreover have "rest_of ?C ?off \<le> cache_end ?C" by (simp add: rest_of_def split: option.splits)
  ultimately have "needed ?C w ?off < N" by (simp add: needed_def N_def)
  from rules_enough_fuel [OF assms search_start_in [OF assms(2)] this]
  show ?thesis unfolding search_from_start N_def .
qed

section \<open>Single rules\<close>

lemma find_get:
  assumes "hal_device_property_find d key = Some p"
  shows "hal_device_has_property d key" "hal_device_property_get_type d key = hal_property_get_type p"
    "hal_device_property_get_int d key = hal_property_get_int p"
    "hal_device_property_get_double d key = hal_property_get_double p"
  using assms
  by (simp_all add: hal_device_has_property_def hal_device_property_get_type_def
      hal_device_property_get_int_def hal_device_property_get_double_def)

text \<open>A key without a colon names a property of the device itself.\<close>

lemma handle_match_local:
  "CHR '':'' \<notin> set (rkey r) \<Longrightarrow>
   handle_match G H r dev w = match_dispatch G H w dev (type_match r) (rkey r) (rvalue r)"
  by (simp add: handle_match_def resolve_udiprop_path_def)

lemma merge_target_local: "CHR '':'' \<notin> set (rkey r) \<Longrightarrow> merge_target E r dev w = Inr (Some (dev, rkey r))"
  by (simp add: merge_target_def merge_key_def resolve_udiprop_path_def)

lemma path_copy_fits: "length s < 512 \<Longrightarrow> path_copy s = Inr s"
  by (simp add: path_copy_def HAL_PATH_MAX_def strncpy_def)

text \<open>A change of a key that no store indexes always reaches the stores.\<close>

definition about_key :: "string \<Rightarrow> emission \<Rightarrow> bool" where
  "about_key key e \<longleftrightarrow>
     (\<exists>removed added. fst e = PROPERTY_CHANGED key removed added) \<or> (\<exists>removed. fst e = PRE_PROPERTY_CHANGED key removed)"

lemma handler_unindexed:
  assumes "about_key key e" and "map_of (property_index s) key = None"
  shows "\<exists>s'. store_handler H dev e s = Inr s' \<and> map_of (property_index s') key = None"
  using assms by (cases e) (auto simp: about_key_def property_index_modify_string_def store_emit_def)

lemma deliver_unindexed:
  assumes "\<forall>e \<in> set es. about_key key e" and "map_of (property_index s) key = None"
  shows "\<exists>s'. deliver H dev es s = Inr s'"
  using assms
proof (induction es arbitrary: s)
  case (Cons e es)
  have "\<exists>s'. err_fold (\<lambda>_. store_handler H dev e) xs s = Inr s' \<and> map_of (property_index s') key = None" for xs :: "nat list"
    using Cons.prems(2)
  proof (induction xs arbitrary: s)
    case (Cons x xs)
    with handler_unindexed [of key e s H dev] \<open>\<forall>e \<in> set (e # es). about_key key e\<close> show ?case by fastforce
  qed simp
  then obtain s1 where s1: "err_fold (\<lambda>_. store_handler H dev e) (filter (\<lambda>x. x = dev) (handlers s)) s = Inr s1"
    and "map_of (property_index s1) key = None" by blast
  then have "map_of (property_index (freed_after dev e s1)) key = None"
    by (cases "(dev, e, s1)" rule: freed_after.cases) (simp_all add: orphan_key_def map_of_map_snd)
  with Cons s1 show ?case by (simp add: deliver_def deliver_one_def)
qed (simp add: deliver_def)

context key_op
begin

lemma world_call_unindexed:
  assumes "map_of (property_index (w_gdl w)) key = None" and "map_of (property_index (w_tdl w)) key = None"
    and "opr (w_heap w dev) = (r, d', es)"
  shows "\<exists>w'. world_call H dev opr w = Inr w' \<and> w_heap w' = (w_heap w)(dev := d')"
proof -
  have "\<forall>e \<in> set es. about_key key e" unfolding about_key_def by (metis only_key [OF assms(3)] prod.collapse)
  from deliver_unindexed [OF this assms(1), of H dev] deliver_unindexed [OF this assms(2), of H dev]
  show ?thesis using assms(3) by (auto simp: world_call_def)
qed

end

text \<open>A device that is in no store can be changed without the stores noticing.\<close>

lemma deliver_spare:
  assumes "dev \<notin> set (handlers s)"
  shows "\<exists>s'. deliver H dev es s = Inr s'"
  using assms
proof (induction es arbitrary: s)
  case (Cons e es)
  then have none: "filter (\<lambda>x. x = dev) (handlers s) = []" by (auto simp: filter_empty_conv)
  have "same_shape s (freed_after dev e s)" by simp
  then have "dev \<notin> set (handlers (freed_after dev e s))" using Cons.prems by (simp add: same_shape_def)
  with Cons none show ?case by (simp add: deliver_def deliver_one_def)
qed (simp add: deliver_def)

lemma world_call_spare_defined:
  assumes "world_ok G w" and "spare dev w"
  shows "\<exists>w'. world_call H dev opr w = Inr w'"
proof -
  have "dev \<notin> set (handlers (w_gdl w))" "dev \<notin> set (handlers (w_tdl w))"
    using assms by (auto simp: world_ok_def index_ok_def spare_def)
  then show ?thesis
    using deliver_spare [of dev "w_gdl w" H] deliver_spare [of dev "w_tdl w" H]
    by (fastforce simp: world_call_def split: prod.splits)
qed

text \<open>A device whose identifier lacks the prefix is created, and then known to no store.\<close>

lemma spawn_create_refused:
  assumes G: "glib_ok (re_glib E)" and ok: "world_ok (re_glib E) w" and "\<not> prefix device_prefix key"
  shows "\<exists>x w'. spawn_create E key dev w = Inr (x, w') \<and> world_ok (re_glib E) w' \<and> known w' = known w"
proof -
  let ?H = "re_hash E" and ?G = "re_glib E"
  let ?ok = "\<lambda>x w. world_ok ?G w \<and> spare x w"
  obtain x w0 where new: "hal_device_new w = (x, w0)" by (cases "hal_device_new w")
  then have o0: "?ok x w0" using device_new_ok [OF ok new] by blast
  then obtain w1 where s1: "world_call ?H x (hal_device_property_set_string ?G ''info.subsystem'' (Some ''unknown'')) w0 = Inr w1"
    using world_call_spare_defined by blast
  then have o1: "?ok x w1" using set_string.world_call_spare [OF G _ _ s1] o0 by blast
  then obtain w2 where s2: "world_call ?H x (hal_device_property_set_string ?G ''info.parent''
        (Some (hal_device_get_udi (w_heap w dev)))) w1 = Inr w2"
    using world_call_spare_defined by blast
  then have o2: "?ok x w2" using set_string.world_call_spare [OF G _ _ s2] o1 by blast
  then obtain w3 where s3: "world_call ?H x (hal_device_set_udi ?G key) w2 = Inr w3"
    using world_call_spare_defined by blast
  have "udi (w_heap w3 x) = key"
    using set_udi.world_call_outcome(6) [OF _ s3] o2 set_udi_udi by blast
  then have "hal_device_store_add ?H x (w_heap w3) (w_tdl w3) = Inr (w_tdl w3)"
    using assms(3) by (simp add: hal_device_store_add_eq)
  with new s1 s2 s3 have "spawn_create E key dev w = Inr (x, w3)" by (simp add: spawn_create_def Let_def)
  with spawn_create_ok(1,2) [OF G ok this] assms(3) show ?thesis by auto
qed

section \<open>A small world\<close>

text \<open>The computer and a disk that hangs off it, both in the global device list, nothing indexed.\<close>

definition demo_udi :: "string \<Rightarrow> string" where
  "demo_udi name = ''/org/freedesktop/Hal/devices/'' @ name"

definition demo_heap :: heap where
  "demo_heap = (\<lambda>x.
     \<lparr>udi = demo_udi (if x = 0 then ''computer'' else ''disk''), num_addons = 0, num_addons_ready = 0,
      props = (if x = 0 then [(''kernel.name'', HP_STRING (Some ''Linux''))]
               else [(''info.parent'', HP_STRING (Some (demo_udi ''computer''))),
                     (''info.product'', HP_STRING (Some ''Disk'')),
                     (''block.minor'', HP_INT32 3),
                     (''disk.voltage'', HP_DOUBLE (atof ''1.5''))])\<rparr>)"

definition demo_world :: world where
  "demo_world = \<lparr>w_heap = demo_heap,
     w_gdl = hal_device_store_new\<lparr>devices := [1, 0], handlers := [1, 0]\<rparr>,
     w_tdl = hal_device_store_new\<lparr>devices := [2], handlers := [2]\<rparr>, w_next = 3, w_counter = 0, w_callouts = []\<rparr>"

definition demo_rule :: "rule_type \<Rightarrow> match_type \<Rightarrow> merge_type \<Rightarrow> string \<Rightarrow> string \<Rightarrow> rule" where
  "demo_rule t m g k v = \<lparr>rule_size = 16, jump_position = (if t = RULE_MATCH then 48 else 0), rtype = t,
      type_match = m, type_merge = g, rkey = k, rvalue = v\<rparr>"

text \<open>One information file: spawn a volume below every device whose parent runs Linux.\<close>

definition demo_env :: "string \<Rightarrow> rule_env" where
  "demo_env spawned = \<lparr>re_glib = ascii_glib, re_hash = length,
     re_cache = \<lparr>fdi_rules_preprobe = 16, fdi_rules_information = 16, fdi_rules_policy = 64, all_rules_size = 64,
       rule_at = [(16, demo_rule RULE_MATCH MATCH_STRING MERGE_UNKNOWN ''@info.parent:kernel.name'' ''Linux''),
                  (32, demo_rule RULE_SPAWN MATCH_UNKNOWN MERGE_UNKNOWN spawned []),
                  (48, demo_rule RULE_EOF MATCH_UNKNOWN MERGE_UNKNOWN [] [])]\<rparr>, re_junk = [], re_scratch = Some, re_starts = (\<lambda>_. True)\<rparr>"

lemma demo_world_ok: "world_ok ascii_glib demo_world"
proof -
  have "dev_wf ascii_glib (demo_heap x)" for x
    by (simp add: demo_heap_def dev_wf_def prop_wf_def ascii_glib_def demo_udi_def)
  then show ?thesis
    by (simp add: world_ok_def demo_world_def index_ok_def listed_def listing_def hal_device_store_new_def)
qed

section \<open>Properties\<close>

text \<open>C32: the rule walk ends. When the jumps of the cache go forward, its spawn rules name devices
  with the prefix of the daemon's identifiers and the runner takes every callout program, every search
  for a device comes to one and the same outcome, which is not a lack of fuel, for every amount of fuel
  from a bound that only the cache determines: spawned devices are searched recursively and committed
  during the walk, but each identifier is spawned at most once. The last two conditions are needed:
  the walk does not end for a spawn rule without the prefix, nor with a callout program that cannot
  be handed over.\<close>

theorem rules_terminate:
  assumes "glib_ok (re_glib E)" and "cache_ok (re_cache E)" and "\<And>program. re_starts E program"
    and "world_ok (re_glib E) w"
  shows "\<exists>res. res \<noteq> Inl Out_Of_Fuel \<and>
    (\<forall>n \<ge> Suc (length (rule_at (re_cache E))) * Suc (cache_end (re_cache E)).
       di_search_and_merge n E dev type w = res)"
  using search_enough_fuel [OF assms] search_mono unfolding no_fuel_error_def by blast

theorem rules_terminate_witness:
  "\<exists>res. res \<noteq> Inl Out_Of_Fuel \<and>
     (\<forall>n \<ge> 260. di_search_and_merge n (demo_env (demo_udi ''volume'')) 1 DEVICE_INFO_TYPE_INFORMATION demo_world = res)"
proof -
  let ?E = "demo_env (demo_udi ''volume'')"
  have "cache_ok (re_cache ?E)"
    by (simp add: cache_ok_def demo_env_def rule_ok_def demo_rule_def demo_udi_def)
  moreover have "glib_ok (re_glib ?E)" "world_ok (re_glib ?E) demo_world" "re_starts ?E program" for program
    using demo_world_ok ascii_glib_ok by (simp_all add: demo_env_def)
  ultimately show ?thesis
    using rules_terminate [of ?E demo_world 1 DEVICE_INFO_TYPE_INFORMATION] by (simp add: demo_env_def cache_end_def)
qed

text \<open>C33: whatever the rules do to a device, to the devices their paths lead to and to the devices
  they spawn, which move to the global device list during the walk unless they have callouts, the
  property tables stay well formed, both device lists keep a consistent property index, every
  identifier that could be found before can be found afterwards, and every device that existed
  before keeps its identifier and its place: it is in the global and in the temporary list exactly when
  it was there before.\<close>

theorem rules_keep_world:
  assumes "glib_ok (re_glib E)" and "world_ok (re_glib E) w" and "di_search_and_merge n E dev type w = Inr w'"
  shows "world_ok (re_glib E) w' \<and> (\<forall>u. world_find u w \<noteq> None \<longrightarrow> world_find u w' \<noteq> None) \<and>
    (\<forall>y < w_next w. (y \<in> set (devices (w_gdl w')) \<longleftrightarrow> y \<in> set (devices (w_gdl w))) \<and>
       (y \<in> set (devices (w_tdl w')) \<longleftrightarrow> y \<in> set (devices (w_tdl w))) \<and> udi (w_heap w' y) = udi (w_heap w y))"
proof -
  have "extends (re_glib E) w w'" using rules_extends [OF assms(1)] assms(3) by (simp add: search_from_start)
  with assms(2) show ?thesis by (auto simp: extends_def known_def same_below_def)
qed

theorem rules_keep_world_witness:
  "\<exists>w'. di_search_and_merge 20 (demo_env (demo_udi ''volume'')) 1 DEVICE_INFO_TYPE_INFORMATION demo_world = Inr w' \<and>
     world_ok ascii_glib w' \<and> devices (w_gdl w') = [3, 1, 0] \<and> devices (w_tdl w') = [2]"
proof -
  let ?E = "demo_env (demo_udi ''volume'')"
  have "case di_search_and_merge 20 ?E 1 DEVICE_INFO_TYPE_INFORMATION demo_world of
      Inr w' \<Rightarrow> devices (w_gdl w') = [3, 1, 0] \<and> devices (w_tdl w') = [2] | Inl _ \<Rightarrow> False" by code_simp
  then obtain w' where run: "di_search_and_merge 20 ?E 1 DEVICE_INFO_TYPE_INFORMATION demo_world = Inr w'"
    and "devices (w_gdl w') = [3, 1, 0]" "devices (w_tdl w') = [2]" by (auto split: sum.splits)
  moreover have "world_ok ascii_glib w'"
    using rules_keep_world [OF _ _ run] demo_world_ok ascii_glib_ok by (simp add: demo_env_def)
  ultimately show ?thesis by blast
qed

text \<open>The check of the identifier in \<open>hal_device_store_add\<close> is not made by the spawn rule. When the
  information rules begin with a spawn rule whose key lacks the prefix of the daemon's devices, the
  new device never enters a device list, the rules of the new device spawn it again, and the search
  runs out of any amount of fuel.\<close>

theorem bad_spawn_never_ends:
  assumes "glib_ok (re_glib E)" and "world_ok (re_glib E) w"
    and "fdi_rules_information (re_cache E) < fdi_rules_policy (re_cache E)"
    and "map_of (rule_at (re_cache E)) (fdi_rules_information (re_cache E)) = Some r"
    and "rtype r = RULE_SPAWN" and "\<not> prefix ''/org/freedesktop/Hal/devices/'' (rkey r)"
    and "world_find (rkey r) w = None"
  shows "di_search_and_merge n E dev DEVICE_INFO_TYPE_INFORMATION w = Inl Out_Of_Fuel"
proof -
  have start: "section_start (re_cache E) False = Some (fdi_rules_information (re_cache E))"
    using assms(3) by (simp add: section_start_def)
  have "rules_match_and_merge_device n E (section_start (re_cache E) False) dev w = Inl Out_Of_Fuel"
    using assms(2,7)
  proof (induction n arbitrary: dev w)
    case (Suc n)
    from spawn_create_refused [OF assms(1) Suc.prems(1) assms(6)] obtain x w1 where
      c: "spawn_create E (rkey r) dev w = Inr (x, w1)" and "world_ok (re_glib E) w1" "known w1 = known w"
      by blast
    moreover from this have "rkey r \<notin> known w1" using Suc.prems(2) by (simp add: known_def)
    then have "world_find (rkey r) w1 = None" by (simp add: known_def)
    ultimately have "rules_search n E x False w1 = Inl Out_Of_Fuel" using Suc.IH by blast
    then have "handle_merge E (rules_search n E) r dev w = Inl Out_Of_Fuel"
      using Suc.prems(2) c assms(5) by (simp add: handle_merge_def merge_target_def spawn_device_def)
    then show ?case using rules_merge_step [OF assms(4)] assms(5) start by simp
  qed simp
  then show ?thesis by (simp add: di_search_and_merge_def)
qed

definition bad_spawn_env :: rule_env where
  "bad_spawn_env = (demo_env [])\<lparr>re_cache := (re_cache (demo_env []))\<lparr>rule_at :=
     [(16, demo_rule RULE_SPAWN MATCH_UNKNOWN MERGE_UNKNOWN ''my_volume'' []),
      (32, demo_rule RULE_EOF MATCH_UNKNOWN MERGE_UNKNOWN [] [])]\<rparr>\<rparr>"

theorem bad_spawn_never_ends_witness:
  "di_search_and_merge 1000 bad_spawn_env 1 DEVICE_INFO_TYPE_INFORMATION demo_world = Inl Out_Of_Fuel"
proof -
  let ?r = "demo_rule RULE_SPAWN MATCH_UNKNOWN MERGE_UNKNOWN ''my_volume'' []"
  have "world_find (rkey ?r) demo_world = None" by code_simp
  moreover have "rtype ?r = RULE_SPAWN" "rkey ?r = ''my_volume''" by (simp_all add: demo_rule_def)
  moreover have "re_glib bad_spawn_env = ascii_glib" by (simp add: bad_spawn_env_def demo_env_def)
  ultimately show ?thesis
    using bad_spawn_never_ends [of bad_spawn_env demo_world ?r 1000 1] demo_world_ok ascii_glib_ok
    by (simp add: bad_spawn_env_def demo_env_def)
qed

text \<open>The comparing match rules on a 32-bit integer property compare the numbers, whenever the
  difference fits into 64 bits; otherwise the subtraction overflows.\<close>

theorem compare_int_rule:
  assumes "CHR '':'' \<notin> set (rkey r)" and "hal_device_property_find (w_heap w dev) (rkey r) = Some (HP_INT32 i)"
  shows "let v = strtoll (rvalue r); rule = (\<lambda>t. handle_match G H (r\<lparr>type_match := t\<rparr>) dev w)
    in if in_int64 (sint i - v)
       then rule MATCH_COMPARE_LT = Inr (sint i < v) \<and> rule MATCH_COMPARE_LE = Inr (sint i \<le> v) \<and>
            rule MATCH_COMPARE_GT = Inr (sint i > v) \<and> rule MATCH_COMPARE_GE = Inr (sint i \<ge> v) \<and>
            rule MATCH_COMPARE_NE = Inr (sint i \<noteq> v)
       else rule MATCH_COMPARE_LT = Inl Signed_Overflow"
  using assms(1)
  by (simp add: Let_def handle_match_local match_dispatch_def match_compare_def match_compare_property_def
      find_get [OF assms(2)] check64_def)

theorem compare_int_rule_witness:
  "handle_match ascii_glib length (demo_rule RULE_MATCH MATCH_COMPARE_LT MERGE_UNKNOWN ''block.minor'' ''0x10'') 1 demo_world
     = Inr True"
proof -
  let ?r = "demo_rule RULE_MATCH MATCH_UNKNOWN MERGE_UNKNOWN ''block.minor'' ''0x10''"
  have "CHR '':'' \<notin> set (rkey ?r)" by (simp add: demo_rule_def)
  moreover have "hal_device_property_find (w_heap demo_world 1) (rkey ?r) = Some (HP_INT32 3)"
    by (simp add: demo_world_def demo_heap_def hal_device_property_find_def demo_rule_def)
  moreover have "strtoll (rvalue ?r) = 16" by code_simp
  moreover have "?r\<lparr>type_match := MATCH_COMPARE_LT\<rparr> = demo_rule RULE_MATCH MATCH_COMPARE_LT MERGE_UNKNOWN ''block.minor'' ''0x10''"
    by (simp add: demo_rule_def)
  ultimately show ?thesis
    using compare_int_rule [of ?r demo_world 1 3 ascii_glib length] by (simp add: in_int64_def Let_def)
qed

text \<open>Append and prepend rules on a string property of a key that is not indexed. When the two
  strings fit into a buffer of 512 bytes with the terminator, the property becomes their
  concatenation and nothing else changes; otherwise the buffer on the stack is overrun.\<close>

theorem concat_rule_outcome:
  assumes "CHR '':'' \<notin> set (rkey r)" and "rtype r = RULE_APPEND \<or> rtype r = RULE_PREPEND"
    and "type_merge r = MERGE_STRING"
    and "hal_device_property_find (w_heap w dev) (rkey r) = Some (HP_STRING (Some s))"
    and "map_of (property_index (w_gdl w)) (rkey r) = None" and "map_of (property_index (w_tdl w)) (rkey r) = None"
    and "buf = (if rtype r = RULE_APPEND then s @ rvalue r else rvalue r @ s)"
    and "g_utf8_validate (re_glib E) buf = None"
  shows "if length s + length (rvalue r) < 512
    then \<exists>w'. handle_merge E search r dev w = Inr (True, w') \<and>
           hal_device_property_get_string (w_heap w' dev) (rkey r) = Some buf \<and>
           (\<forall>k. k \<noteq> rkey r \<longrightarrow>
              hal_device_property_find (w_heap w' dev) k = hal_device_property_find (w_heap w dev) k) \<and>
           (\<forall>x. x \<noteq> dev \<longrightarrow> w_heap w' x = w_heap w x)
    else handle_merge E search r dev w = Inl Buffer_Overrun"
proof (cases "length s + length (rvalue r) < 512")
  case True
  obtain b d' es where op: "hal_device_property_set_string (re_glib E) (rkey r) (Some buf) (w_heap w dev) = (b, d', es)"
    by (metis prod_cases3)
  then have d': "hal_device_property_get_string d' (rkey r) = Some buf"
    using assms(4,8)
    by (auto simp: hal_device_property_set_string_def strdup_or_empty_def hal_property_set_string_def Let_def
        hal_device_property_get_string_def utf8_replace_id split: if_splits)
  obtain w' where w': "world_call (re_hash E) dev (hal_device_property_set_string (re_glib E) (rkey r) (Some buf)) w = Inr w'"
    "w_heap w' = (w_heap w)(dev := d')"
    using set_string.world_call_unindexed [OF assms(5,6) op] by blast
  have "handle_merge E search r dev w = Inr (True, w')"
    using w' assms(2,3,7) True find_get [OF assms(4)]
    by (auto simp: handle_merge_def merge_target_local [OF assms(1)] merge_concat_def concat_buf_def is_type_def
        path_concat_def HAL_PATH_MAX_def get_string_simps(5) [OF assms(4)] Let_def add.commute)
  with True w' d' set_string.frame [OF op] show ?thesis by (auto simp: agree_except_def)
next
  case False
  then show ?thesis
    using assms(2,3) find_get [OF assms(4)]
    by (auto simp: handle_merge_def merge_target_local [OF assms(1)] merge_concat_def concat_buf_def is_type_def
        path_concat_def HAL_PATH_MAX_def get_string_simps(5) [OF assms(4)] Let_def)
qed

theorem concat_rule_outcome_witness:
  "\<exists>w'. handle_merge (demo_env []) (\<lambda>_ _. Inr) (demo_rule RULE_PREPEND MATCH_UNKNOWN MERGE_STRING ''info.product'' ''Hard '')
       1 demo_world = Inr (True, w') \<and>
     hal_device_property_get_string (w_heap w' 1) ''info.product'' = Some ''Hard Disk''"
proof -
  let ?r = "demo_rule RULE_PREPEND MATCH_UNKNOWN MERGE_STRING ''info.product'' ''Hard ''"
  have "hal_device_property_find (w_heap demo_world 1) (rkey ?r) = Some (HP_STRING (Some ''Disk''))"
    by (simp add: demo_world_def demo_heap_def hal_device_property_find_def demo_rule_def)
  moreover have "g_utf8_validate (re_glib (demo_env [])) ''Hard Disk'' = None"
    by (simp add: demo_env_def ascii_glib_def)
  moreover have "CHR '':'' \<notin> set (rkey ?r)" "rtype ?r = RULE_PREPEND" "type_merge ?r = MERGE_STRING" "rvalue ?r = ''Hard ''"
    "rkey ?r = ''info.product''"
    "map_of (property_index (w_gdl demo_world)) (rkey ?r) = None" "map_of (property_index (w_tdl demo_world)) (rkey ?r) = None"
    by (simp_all add: demo_rule_def demo_world_def hal_device_store_new_def)
  ultimately show ?thesis
    using concat_rule_outcome [of ?r demo_world 1 "''Disk''" "''Hard Disk''" "demo_env []" "\<lambda>_ _. Inr"] by auto
qed

text \<open>A match rule whose key is a path \<open>@p:k\<close>. The string property \<open>p\<close> of the device names
  another device, and the rule tests the property \<open>k\<close> of that device; when no device has this
  identifier the rule does not match.\<close>

theorem path_rule:
  assumes "rkey r = ''@'' @ p @ '':'' @ k" and "CHR '':'' \<notin> set p" and "CHR '':'' \<notin> set k"
    and "world_find (hal_device_get_udi (w_heap w dev)) w = Some dev"
    and "hal_device_property_get_string (w_heap w dev) p = Some u"
    and "length (hal_device_get_udi (w_heap w dev)) < 512" and "length u < 512" and "length k < 512"
  shows "handle_match G H r dev w =
    (case world_find u w of None \<Rightarrow> Inr False | Some x \<Rightarrow> match_dispatch G H w x (type_match r) k (rvalue r))"
proof -
  have "split_all (CHR '':'') (rkey r) = [CHR ''@'' # p, k]"
    using split_all_append [of "CHR '':''" "CHR ''@'' # p" k] assms(1,2,3) by (simp add: split_all_single)
  then have "g_strsplit (rkey r) (CHR '':'') 64 = [CHR ''@'' # p, k]"
    using assms(1) by (simp add: g_strsplit_def)
  then have "resolve_udiprop_path w (rkey r) (hal_device_get_udi (w_heap w dev)) =
      (case world_find u w of None \<Rightarrow> Inr None | Some _ \<Rightarrow> Inr (Some (u, k)))"
    using assms
    by (simp add: resolve_udiprop_path_def resolve_udiprop_path_old_def path_copy_fits split: option.splits)
  then show ?thesis using assms(4) by (auto simp: handle_match_def Let_def split: option.splits)
qed

theorem path_rule_witness:
  "handle_match ascii_glib length (demo_rule RULE_MATCH MATCH_STRING MERGE_UNKNOWN ''@info.parent:kernel.name'' ''Linux'')
     1 demo_world = Inr True"
proof -
  let ?r = "demo_rule RULE_MATCH MATCH_STRING MERGE_UNKNOWN ''@info.parent:kernel.name'' ''Linux''"
  have "world_find (hal_device_get_udi (w_heap demo_world 1)) demo_world = Some 1"
    "world_find (demo_udi ''computer'') demo_world = Some 0"
    "hal_device_property_get_string (w_heap demo_world 1) ''info.parent'' = Some (demo_udi ''computer'')"
    "match_dispatch ascii_glib length demo_world 0 MATCH_STRING ''kernel.name'' ''Linux'' = Inr True"
    "length (hal_device_get_udi (w_heap demo_world 1)) < 512" "length (demo_udi ''computer'') < 512"
    by code_simp+
  then show ?thesis
    using path_rule [of ?r "''info.parent''" "''kernel.name''" demo_world 1 "demo_udi ''computer''" ascii_glib length]
    by (simp add: demo_rule_def)
qed

text \<open>When the callouts of a spawned device are done and no key string of an index has been freed,
  the device moves from the temporary to the global device list: the lists and both indexes stay
  consistent and the same identifiers can be found.\<close>

theorem spawned_device_moves:
  assumes "world_ok G w" and "all_owned (w_gdl w)" and "all_owned (w_tdl w)"
    and "x \<in> set (devices (w_tdl w))" and "x \<notin> set (devices (w_gdl w))"
    and "prefix ''/org/freedesktop/Hal/devices/'' (hal_device_get_udi (w_heap w x))"
  shows "\<exists>w'. spawned_device_callouts_add_done H x w = Inr w' \<and> world_ok G w' \<and>
    set (devices (w_tdl w')) = set (devices (w_tdl w)) - {x} \<and>
    set (devices (w_gdl w')) = insert x (set (devices (w_gdl w))) \<and>
    (\<forall>u. world_find u w' = None \<longleftrightarrow> world_find u w = None)"
proof -
  have wf: "dev_wf G (w_heap w x)" and it: "index_ok (w_heap w) (w_tdl w)" and ig: "index_ok (w_heap w) (w_gdl w)"
    using assms(1) by (simp_all add: world_ok_def)
  obtain t where t: "hal_device_store_remove H x (w_heap w) (w_tdl w) = Inr (True, t)"
    using store_remove_defined [where h = "w_heap w" and dev = x, OF assms(3) wf assms(4)] by blast
  obtain g where g: "hal_device_store_add H x (w_heap w) (w_gdl w) = Inr g"
    using store_add_owned [where h = "w_heap w" and dev = x, OF assms(2) wf] by blast
  let ?w = "w\<lparr>w_tdl := t, w_gdl := g\<rparr>"
  have run: "spawned_device_callouts_add_done H x w = Inr ?w"
    using t g by (simp add: spawned_device_callouts_add_done_def)
  have dt: "set (devices t) = set (devices (w_tdl w)) - {x}" and "index_ok (w_heap w) t"
    using remove_index_ok [OF it t] by simp_all
  have dg: "set (devices g) = insert x (set (devices (w_gdl w)))"
    using store_add_devices [OF g] assms(6) by (simp add: hal_device_get_udi_def)
  have "index_ok (w_heap w) g" using add_index_ok [OF ig assms(5) g] by blast
  then have "world_ok G ?w" using assms(1,4) dt dg \<open>index_ok (w_heap w) t\<close> by (auto simp: world_ok_def)
  moreover have "known ?w = known w" using dt dg assms(4) by (auto simp: set_eq_iff in_known)
  then have "world_find u ?w = None \<longleftrightarrow> world_find u w = None" for u
    by (metis (mono_tags, lifting) known_def mem_Collect_eq)
  ultimately show ?thesis using run dt dg by auto
qed

theorem spawned_device_moves_witness:
  "\<exists>w'. spawned_device_callouts_add_done length 2 demo_world = Inr w' \<and> 2 \<in> set (devices (w_gdl w'))"
proof -
  have "all_owned (w_gdl demo_world)" "all_owned (w_tdl demo_world)"
    "2 \<in> set (devices (w_tdl demo_world))" "2 \<notin> set (devices (w_gdl demo_world))"
    "prefix ''/org/freedesktop/Hal/devices/'' (hal_device_get_udi (w_heap demo_world 2))"
    by (simp_all add: demo_world_def hal_device_store_new_def all_owned_def demo_heap_def demo_udi_def
        hal_device_get_udi_def)
  from spawned_device_moves [OF demo_world_ok this, of length] show ?thesis by auto
qed

text \<open>Comparisons of floating point properties round the difference up to an integer, so a
  property of 1.5 is neither less than 2 nor different from 2, and is at least 2.\<close>

theorem compare_double_rounds_up:
  assumes "CHR '':'' \<notin> set (rkey r)" and "rvalue r = ''2''"
    and "hal_device_property_find (w_heap w dev) (rkey r) = Some (HP_DOUBLE (atof ''1.5''))"
  shows "handle_match G H (r\<lparr>type_match := MATCH_COMPARE_LT\<rparr>) dev w = Inr False \<and>
    handle_match G H (r\<lparr>type_match := MATCH_COMPARE_NE\<rparr>) dev w = Inr False \<and>
    handle_match G H (r\<lparr>type_match := MATCH_COMPARE_GE\<rparr>) dev w = Inr True"
proof -
  have "ceil_to_int64 (double_minus (atof ''1.5'') (atof ''2'')) = Some 0" by code_simp
  then show ?thesis
    using assms(1,2)
    by (simp add: handle_match_local match_dispatch_def match_compare_def match_compare_property_def
        find_get [OF assms(3)] Let_def)
qed

theorem compare_double_rounds_up_witness:
  "handle_match ascii_glib length (demo_rule RULE_MATCH MATCH_COMPARE_GE MERGE_UNKNOWN ''disk.voltage'' ''2'') 1 demo_world
     = Inr True"
proof -
  let ?r = "demo_rule RULE_MATCH MATCH_COMPARE_GE MERGE_UNKNOWN ''disk.voltage'' ''2''"
  have "CHR '':'' \<notin> set (rkey ?r)" "rvalue ?r = ''2''"
    "hal_device_property_find (w_heap demo_world 1) (rkey ?r) = Some (HP_DOUBLE (atof ''1.5''))"
    "?r\<lparr>type_match := MATCH_COMPARE_GE\<rparr> = ?r"
    by (simp_all add: demo_rule_def demo_world_def demo_heap_def hal_device_property_find_def)
  then show ?thesis using compare_double_rounds_up [of ?r demo_world 1 ascii_glib length] by simp
qed

end
