(* ===== verification/Hal_Cache_Walk.thy ===== *)
theory Hal_Cache_Walk
  imports Hal_Cache_Build Hal_Rules_Props
begin

text \<open>
  The walk over a compiled cache against the blocks it was compiled from: blocks have a meaning of
  their own, by recursion over their structure, in which no offset, no jump and no section occurs, and
  the walk computes it.
\<close>

section \<open>What blocks mean\<close>

fun exec_fdi ::
    "rule_env \<Rightarrow> (nat \<Rightarrow> bool \<Rightarrow> world \<Rightarrow> memory_error + world) \<Rightarrow> fdi \<Rightarrow> nat \<Rightarrow> world \<Rightarrow> memory_error + world"
  and exec_fdis ::
    "rule_env \<Rightarrow> (nat \<Rightarrow> bool \<Rightarrow> world \<Rightarrow> memory_error + world) \<Rightarrow> fdi list \<Rightarrow> nat \<Rightarrow> world \<Rightarrow> memory_error + world" where
  "exec_fdi E search (Fdi_Rule r) dev w =
     (if rtype r = RULE_EOF then Inr w else err_bind (handle_merge E search r dev w) (\<lambda>(_, w). Inr w))"
| "exec_fdi E search (Fdi_Match r fs) dev w =
     err_bind (handle_match (re_glib E) (re_hash E) r dev w) (\<lambda>m.
       if m then exec_fdis E search fs dev w else Inr w)"
| "exec_fdis E search [] dev w = Inr w"
| "exec_fdis E search (f # fs) dev w = err_bind (exec_fdi E search f dev w) (exec_fdis E search fs dev)"

text \<open>The blocks of a search for a device; a spawned device gets the blocks of its own two searches.\<close>

fun run_blocks :: "nat \<Rightarrow> rule_env \<Rightarrow> (bool \<Rightarrow> fdi list) \<Rightarrow> fdi list \<Rightarrow> nat \<Rightarrow> world \<Rightarrow> memory_error + world" where
  "run_blocks 0 E later fs dev w = Inl Out_Of_Fuel"
| "run_blocks (Suc n) E later fs dev w = exec_fdis E (\<lambda>x policy w. run_blocks n E later (later policy) x w) fs dev w"

lemma exec_fdis_append:
  "exec_fdis E search (fs @ gs) dev w = err_bind (exec_fdis E search fs dev w) (exec_fdis E search gs dev)"
proof (induction fs arbitrary: w)
  case (Cons f fs)
  then show ?case by (cases "exec_fdi E search f dev w") simp_all
qed simp

lemma exec_mono:
  "(\<And>x p w. fuel_le (search x p w) (search' x p w)) \<Longrightarrow> fuel_le (exec_fdi E search f dev w) (exec_fdi E search' f dev w)"
  "(\<And>x p w. fuel_le (search x p w) (search' x p w)) \<Longrightarrow> fuel_le (exec_fdis E search fs dev w) (exec_fdis E search' fs dev w)"
  by (induction E search f dev w and E search fs dev w rule: exec_fdi_exec_fdis.induct)
    (auto intro!: fuel_le_bind handle_merge_mono)

lemma run_blocks_mono: "fuel_le (run_blocks n E later fs dev w) (run_blocks (Suc n) E later fs dev w)"
proof (induction n arbitrary: fs dev w)
  case (Suc n)
  then show ?case by (auto intro!: exec_mono(2))
qed simp

section \<open>The layout\<close>

text \<open>Blocks as the compiler makes them.\<close>

fun fdi_wf :: "fdi \<Rightarrow> bool" where
  "fdi_wf (Fdi_Rule r) \<longleftrightarrow> rtype r \<notin> {RULE_MATCH, RULE_UNKNOWN} \<and> 0 < rule_size r \<and> jump_position r = 0"
| "fdi_wf (Fdi_Match r fs) \<longleftrightarrow> rtype r = RULE_MATCH \<and> 0 < rule_size r \<and> list_all fdi_wf fs"

lemma layout_offsets:
  "fdi_wf f \<Longrightarrow> distinct (map fst (layout p f)) \<and> fst ` set (layout p f) \<subseteq> {p ..< p + fdi_size f}"
  "list_all fdi_wf fs \<Longrightarrow>
     distinct (map fst (layouts p fs)) \<and> fst ` set (layouts p fs) \<subseteq> {p ..< p + sum_list (map fdi_size fs)}"
proof (induction p f and p fs rule: layout_layouts.induct)
  case (2 p r fs)
  then have "distinct (map fst (layouts (p + rule_size r) fs))" "0 < rule_size r"
    and "fst ` set (layouts (p + rule_size r) fs) \<subseteq> {p + rule_size r ..< p + rule_size r + sum_list (map fdi_size fs)}"
    by auto
  then show ?case by force
next
  case (4 p f fs)
  then have "distinct (map fst (layout p f))" "fst ` set (layout p f) \<subseteq> {p ..< p + fdi_size f}"
    "distinct (map fst (layouts (p + fdi_size f) fs))"
    "fst ` set (layouts (p + fdi_size f) fs) \<subseteq> {p + fdi_size f ..< p + fdi_size f + sum_list (map fdi_size fs)}"
    by auto
  then show ?case by force
qed auto

text \<open>Every file ends with a rule that is not a match.\<close>

definition closed_by_rule :: "fdi list \<Rightarrow> bool" where
  "closed_by_rule fs \<longleftrightarrow> fs = [] \<or> (\<exists>r. last fs = Fdi_Rule r)"

definition compiled_cache :: "rule_cache \<Rightarrow> fdi list \<Rightarrow> fdi list \<Rightarrow> fdi list \<Rightarrow> bool" where
  "compiled_cache C pre info pol \<longleftrightarrow>
     C = cache_of pre info pol (all_rules_size C) \<and> list_all fdi_wf (pre @ info @ pol) \<and>
     closed_by_rule pre \<and> closed_by_rule info \<and> closed_by_rule pol \<and>
     all_rules_size C \<le> 24 + sum_list (map fdi_size (pre @ info @ pol)) \<and>
     (\<forall>(off, r) \<in> set (rule_at C). off < all_rules_size C)"

text \<open>A part of the cache in which the walk stays.\<close>

definition sect :: "rule_cache \<Rightarrow> nat \<Rightarrow> nat \<Rightarrow> bool" where
  "sect C lo hi \<longleftrightarrow> (\<forall>off nxt. lo \<le> off \<longrightarrow> off < nxt \<longrightarrow> nxt \<le> hi \<longrightarrow> (nxt < hi \<longrightarrow> map_of (rule_at C) nxt \<noteq> None) \<longrightarrow>
     in_section C off nxt = (nxt < hi))"

definition holds_blocks :: "rule_cache \<Rightarrow> nat \<Rightarrow> nat \<Rightarrow> nat \<Rightarrow> fdi list \<Rightarrow> bool" where
  "holds_blocks C lo hi p fs \<longleftrightarrow> lo \<le> p \<and> p + sum_list (map fdi_size fs) = hi \<and> list_all fdi_wf fs \<and> closed_by_rule fs \<and>
     (\<forall>(off, r) \<in> set (layouts p fs). map_of (rule_at C) off = Some r)"

definition first_of :: "nat \<Rightarrow> fdi list \<Rightarrow> nat option" where
  "first_of p fs = (if fs = [] then None else Some p)"

lemma layouts_hd: "fs \<noteq> [] \<Longrightarrow> \<exists>r. (p, r) \<in> set (layouts p fs)"
proof (cases fs)
  case (Cons f gs)
  then show ?thesis by (cases f) auto
qed simp

lemma closed_tail: "closed_by_rule (f # fs) \<Longrightarrow> closed_by_rule fs"
  by (auto simp: closed_by_rule_def split: if_splits)

lemma fdi_size_pos: "fdi_wf f \<Longrightarrow> 0 < fdi_size f"
  by (cases f) auto

lemma next_in_section:
  assumes "sect C lo hi" and "holds_blocks C lo hi q fs" and "lo \<le> p" and "p < q"
  shows "in_section C p q \<longleftrightarrow> fs \<noteq> []"
proof -
  have q: "q + sum_list (map fdi_size fs) = hi" using assms(2) by (simp add: holds_blocks_def)
  have pos: "q < hi \<longleftrightarrow> fs \<noteq> []"
    using assms(2) fdi_size_pos by (cases fs) (auto simp: holds_blocks_def)
  then have "map_of (rule_at C) q \<noteq> None" if "q < hi"
    using layouts_hd [of fs q] assms(2) that by (fastforce simp: holds_blocks_def)
  then show ?thesis using assms(1,3,4) q pos unfolding sect_def by auto
qed

section \<open>The walk\<close>

lemma handle_match_jump: "handle_match G H (r\<lparr>jump_position := j\<rparr>) dev w = handle_match G H r dev w"
proof -
  have "rkey (r\<lparr>jump_position := j\<rparr>) = rkey r" "type_match (r\<lparr>jump_position := j\<rparr>) = type_match r"
    "rvalue (r\<lparr>jump_position := j\<rparr>) = rvalue r" by simp_all
  then show ?thesis unfolding handle_match_def by presburger
qed

definition block_search :: "nat \<Rightarrow> rule_env \<Rightarrow> (bool \<Rightarrow> fdi list) \<Rightarrow> nat \<Rightarrow> bool \<Rightarrow> world \<Rightarrow> memory_error + world" where
  "block_search n E later x policy w = run_blocks n E later (later policy) x w"

lemma block_search_mono: "fuel_le (block_search n E later x p w) (block_search (Suc n) E later x p w)"
  unfolding block_search_def by (rule run_blocks_mono)

lemma run_blocks_Suc: "run_blocks (Suc n) E later fs dev w = exec_fdis E (block_search n E later) fs dev w"
  by (simp add: block_search_def [abs_def])

lemma fuel_le_trans: "fuel_le a b \<Longrightarrow> fuel_le b c \<Longrightarrow> fuel_le a c"
  by (auto simp: fuel_le_def)

lemma holds_rule:
  assumes "sect C lo hi" and "holds_blocks C lo hi p (Fdi_Rule r # fs)"
  shows "map_of (rule_at C) p = Some r" and "holds_blocks C lo hi (p + rule_size r) fs"
    and "di_next C p r = first_of (p + rule_size r) fs"
proof -
  show "map_of (rule_at C) p = Some r" using assms(2) by (simp add: holds_blocks_def)
  show h: "holds_blocks C lo hi (p + rule_size r) fs"
    using assms(2) closed_tail by (auto simp: holds_blocks_def)
  have "lo \<le> p" "0 < rule_size r" using assms(2) by (auto simp: holds_blocks_def)
  then show "di_next C p r = first_of (p + rule_size r) fs"
    using next_in_section [OF assms(1) h, of p] by (simp add: di_next_def first_of_def Let_def)
qed

lemma holds_match:
  assumes "sect C lo hi" and "holds_blocks C lo hi p (Fdi_Match r gs # fs)"
  defines "r' \<equiv> r\<lparr>jump_position := p + fdi_size (Fdi_Match r gs)\<rparr>"
  shows "map_of (rule_at C) p = Some r'" and "holds_blocks C lo hi (p + rule_size r) (gs @ fs)"
    and "di_next C p r' = first_of (p + rule_size r) (gs @ fs)"
    and "holds_blocks C lo hi (p + fdi_size (Fdi_Match r gs)) fs" and "fs \<noteq> []"
    and "di_jump C p r' = Some (p + fdi_size (Fdi_Match r gs))"
proof -
  show "map_of (rule_at C) p = Some r'" using assms(2) by (simp add: holds_blocks_def r'_def)
  show ne: "fs \<noteq> []" using assms(2) by (auto simp: holds_blocks_def closed_by_rule_def)
  then have "closed_by_rule (gs @ fs)" "closed_by_rule fs"
    using assms(2) by (auto simp: holds_blocks_def closed_by_rule_def)
  then show h: "holds_blocks C lo hi (p + rule_size r) (gs @ fs)" and h': "holds_blocks C lo hi (p + fdi_size (Fdi_Match r gs)) fs"
    using assms(2) by (auto simp: holds_blocks_def layouts_append add.assoc)
  have "lo \<le> p" "0 < rule_size r" using assms(2) by (auto simp: holds_blocks_def)
  then show "di_next C p r' = first_of (p + rule_size r) (gs @ fs)"
    "di_jump C p r' = Some (p + fdi_size (Fdi_Match r gs))"
    using next_in_section [OF assms(1) h, of p] next_in_section [OF assms(1) h', of p] ne
    by (simp_all add: di_next_def di_jump_def first_of_def Let_def r'_def)
qed

lemma walk_blocks:
  assumes later: "\<And>policy. section_start (re_cache E) policy = first_of (base policy) (later policy)"
    and parts: "\<And>policy. sect (re_cache E) (base policy) (limit policy) \<and>
      holds_blocks (re_cache E) (base policy) (limit policy) (base policy) (later policy)"
  shows "sect (re_cache E) lo hi \<Longrightarrow> holds_blocks (re_cache E) lo hi p fs \<Longrightarrow>
    fuel_le (rules_match_and_merge_device n E (first_of p fs) dev w) (exec_fdis E (block_search n E later) fs dev w)"
proof (induction n arbitrary: lo hi p fs dev w)
  case (Suc n)
  let ?C = "re_cache E"
  have search: "fuel_le (rules_search n E x policy w) (block_search (Suc n) E later x policy w)" for x policy w
    using Suc.IH [OF conjunct1 [OF parts] conjunct2 [OF parts], of policy x w]
    by (simp only: later block_search_def [of "Suc n"] run_blocks_Suc)
  have rest: "fuel_le (rules_match_and_merge_device n E (first_of q gs) dev w) (exec_fdis E (block_search (Suc n) E later) gs dev w)"
    if "holds_blocks ?C lo hi q gs" for q gs w
    using Suc.IH [OF Suc.prems(1) that] exec_mono(2) [OF block_search_mono] by (rule fuel_le_trans)
  show ?case
  proof (cases fs)
    case Nil
    then show ?thesis by (simp add: first_of_def)
  next
    case (Cons f gs)
    show ?thesis
    proof (cases f)
      case (Fdi_Rule r)
      note h = holds_rule [OF Suc.prems(1) Suc.prems(2) [unfolded Cons Fdi_Rule]]
      have t: "rtype r \<notin> {RULE_MATCH, RULE_UNKNOWN}" using Suc.prems(2) by (simp add: holds_blocks_def Cons Fdi_Rule)
      show ?thesis
      proof (cases "rtype r = RULE_EOF")
        case True
        then show ?thesis
          using rest [OF h(2), of w] rules_plain_step [OF h(1), of n dev w] h(3) by (simp add: Cons Fdi_Rule first_of_def)
      next
        case False
        with t have "rtype r \<notin> {RULE_MATCH, RULE_EOF, RULE_UNKNOWN}" by simp
        note step = rules_merge_step [OF h(1) this, of n dev w]
        have "exec_fdis E (block_search (Suc n) E later) fs dev w =
            err_bind (handle_merge E (block_search (Suc n) E later) r dev w)
              (\<lambda>(_, w). exec_fdis E (block_search (Suc n) E later) gs dev w)"
          using False by (cases "handle_merge E (block_search (Suc n) E later) r dev w") (auto simp: Cons Fdi_Rule)
        moreover have "fuel_le (err_bind (handle_merge E (rules_search n E) r dev w)
              (\<lambda>(_, w). rules_match_and_merge_device n E (first_of (p + rule_size r) gs) dev w))
            (err_bind (handle_merge E (block_search (Suc n) E later) r dev w)
              (\<lambda>(_, w). exec_fdis E (block_search (Suc n) E later) gs dev w))"
          using rest [OF h(2)] by (intro fuel_le_bind handle_merge_mono search) (simp split: prod.split)
        ultimately show ?thesis using step h(3) by (simp add: Cons first_of_def)
      qed
    next
      case (Fdi_Match r bs)
      note h = holds_match [OF Suc.prems(1) Suc.prems(2) [unfolded Cons Fdi_Match]]
      have t: "rtype r = RULE_MATCH" using Suc.prems(2) by (simp add: holds_blocks_def Cons Fdi_Match)
      let ?j = "p + fdi_size (Fdi_Match r bs)"
      let ?r = "r\<lparr>jump_position := ?j\<rparr>"
      have "rtype ?r = RULE_MATCH" and fo: "first_of ?j gs = Some ?j" using t h(5) by (simp_all add: first_of_def)
      then have "rules_match_and_merge_device (Suc n) E (Some p) dev w =
          err_bind (handle_match (re_glib E) (re_hash E) r dev w) (\<lambda>m.
            if m then rules_match_and_merge_device n E (first_of (p + rule_size r) (bs @ gs)) dev w
            else rules_match_and_merge_device n E (Some ?j) dev w)"
        using rules_plain_step [OF h(1), of n dev w] unfolding h(3) h(6) option.case handle_match_jump by simp
      moreover have "exec_fdis E (block_search (Suc n) E later) fs dev w =
          err_bind (handle_match (re_glib E) (re_hash E) r dev w) (\<lambda>m.
            if m then exec_fdis E (block_search (Suc n) E later) (bs @ gs) dev w
            else exec_fdis E (block_search (Suc n) E later) gs dev w)"
        by (cases "handle_match (re_glib E) (re_hash E) r dev w") (simp_all add: Cons Fdi_Match exec_fdis_append)
      ultimately show ?thesis
        using rest [OF h(2), of w] rest [OF h(4) [unfolded Fdi_Match], of w, unfolded fo] by (simp add: Cons first_of_def fuel_le_bind)
    qed
  qed
qed simp

section \<open>Compiled caches\<close>

definition blocks_for :: "fdi list \<Rightarrow> fdi list \<Rightarrow> fdi list \<Rightarrow> device_info_type \<Rightarrow> fdi list" where
  "blocks_for pre info pol type =
     (case type of DEVICE_INFO_TYPE_PREPROBE \<Rightarrow> pre | DEVICE_INFO_TYPE_INFORMATION \<Rightarrow> info | DEVICE_INFO_TYPE_POLICY \<Rightarrow> pol)"

definition base_of :: "fdi list \<Rightarrow> fdi list \<Rightarrow> device_info_type \<Rightarrow> nat" where
  "base_of pre info type = 24 +
     (case type of
        DEVICE_INFO_TYPE_PREPROBE \<Rightarrow> 0
      | DEVICE_INFO_TYPE_INFORMATION \<Rightarrow> sum_list (map fdi_size pre)
      | DEVICE_INFO_TYPE_POLICY \<Rightarrow> sum_list (map fdi_size (pre @ info)))"

lemma sizes_pos: "list_all fdi_wf fs \<Longrightarrow> 0 < sum_list (map fdi_size fs) \<longleftrightarrow> fs \<noteq> []"
  using fdi_size_pos by (cases fs) auto

lemma compiled_offsets:
  assumes "compiled_cache C pre info pol"
  shows "fdi_rules_preprobe C = 24" "fdi_rules_information C = 24 + sum_list (map fdi_size pre)"
    "fdi_rules_policy C = 24 + sum_list (map fdi_size (pre @ info))" "rule_at C = layouts 24 (pre @ info @ pol)"
proof -
  have "C = cache_of pre info pol (all_rules_size C)" using assms by (simp add: compiled_cache_def)
  then show "fdi_rules_preprobe C = 24" "fdi_rules_information C = 24 + sum_list (map fdi_size pre)"
    "fdi_rules_policy C = 24 + sum_list (map fdi_size (pre @ info))" "rule_at C = layouts 24 (pre @ info @ pol)"
    by (metis cache_of_def rule_cache.select_convs)+
qed

lemma compiled_lookup:
  assumes "compiled_cache C pre info pol" and "(off, r) \<in> set (layouts 24 (pre @ info @ pol))"
  shows "map_of (rule_at C) off = Some r"
  using assms layout_offsets(2) [of "pre @ info @ pol" 24] compiled_offsets(4) [OF assms(1)]
  by (auto simp: compiled_cache_def)

lemma compiled_section:
  assumes "compiled_cache C pre info pol"
  defines "B \<equiv> blocks_for pre info pol" and "lo \<equiv> base_of pre info"
  shows "sect C (lo type) (lo type + sum_list (map fdi_size (B type))) \<and>
    holds_blocks C (lo type) (lo type + sum_list (map fdi_size (B type))) (lo type) (B type)"
proof
  note off = compiled_offsets [OF assms(1)]
  have c: "list_all fdi_wf (pre @ info @ pol)" "closed_by_rule pre" "closed_by_rule info" "closed_by_rule pol"
    "all_rules_size C \<le> 24 + sum_list (map fdi_size (pre @ info @ pol))" "\<forall>(off, r) \<in> set (rule_at C). off < all_rules_size C"
    using assms(1) by (auto simp: compiled_cache_def)
  have rules: "nxt < all_rules_size C" if "map_of (rule_at C) nxt = Some r" for nxt r
    using map_of_SomeD [OF that] c(6) by auto
  show "sect C (lo type) (lo type + sum_list (map fdi_size (B type)))"
    using off c(5) rules
    by (cases type) (fastforce simp: sect_def in_section_def B_def lo_def blocks_for_def base_of_def)+
  have "set (layouts (lo type) (B type)) \<subseteq> set (layouts 24 (pre @ info @ pol))"
    by (cases type) (auto simp: B_def lo_def blocks_for_def base_of_def layouts_append add.assoc)
  then show "holds_blocks C (lo type) (lo type + sum_list (map fdi_size (B type))) (lo type) (B type)"
    using c compiled_lookup [OF assms(1)]
    by (cases type) (fastforce simp: holds_blocks_def B_def blocks_for_def)+
qed

lemma compiled_start:
  assumes "compiled_cache C pre info pol"
  shows "search_start C type = first_of (base_of pre info type) (blocks_for pre info pol type)"
proof -
  note off = compiled_offsets [OF assms(1)]
  have c: "list_all fdi_wf pre" "list_all fdi_wf info" "all_rules_size C \<le> 24 + sum_list (map fdi_size (pre @ info @ pol))"
    using assms(1) by (auto simp: compiled_cache_def)
  have "24 + sum_list (map fdi_size (pre @ info)) < all_rules_size C" if "pol \<noteq> []"
    using layouts_hd [OF that, of "24 + sum_list (map fdi_size (pre @ info))"] assms
    by (fastforce simp: compiled_cache_def off(4) layouts_append add.assoc)
  then show ?thesis
    using off c sizes_pos [OF c(1)] sizes_pos [OF c(2)]
    by (cases type; cases "pol = []") (auto simp: search_start_def section_start_def first_of_def base_of_def blocks_for_def)
qed

definition later_blocks :: "fdi list \<Rightarrow> fdi list \<Rightarrow> bool \<Rightarrow> fdi list" where
  "later_blocks info pol policy = (if policy then pol else info)"

lemma search_runs_blocks:
  assumes "compiled_cache (re_cache E) pre info pol"
  shows "fuel_le (di_search_and_merge n E dev type w)
    (run_blocks (Suc n) E (later_blocks info pol) (blocks_for pre info pol type) dev w)"
proof -
  define T where "T policy = (if policy then DEVICE_INFO_TYPE_POLICY else DEVICE_INFO_TYPE_INFORMATION)" for policy
  have start: "section_start (re_cache E) policy = first_of (base_of pre info (T policy)) (later_blocks info pol policy)" for policy
    using compiled_start [OF assms, of "T policy"] by (simp add: T_def search_start_def later_blocks_def blocks_for_def split: if_splits)
  have "later_blocks info pol policy = blocks_for pre info pol (T policy)" for policy
    by (simp add: later_blocks_def blocks_for_def T_def)
  then have "sect (re_cache E) (base_of pre info (T policy)) (base_of pre info (T policy) + sum_list (map fdi_size (later_blocks info pol policy))) \<and>
      holds_blocks (re_cache E) (base_of pre info (T policy)) (base_of pre info (T policy) + sum_list (map fdi_size (later_blocks info pol policy)))
        (base_of pre info (T policy)) (later_blocks info pol policy)" for policy
    using compiled_section [OF assms] by simp
  from walk_blocks [OF start this conjunct1 [OF compiled_section [OF assms]] conjunct2 [OF compiled_section [OF assms]]]
  show ?thesis unfolding search_from_start compiled_start [OF assms] run_blocks_Suc .
qed

end
