(* ===== verification/Hal_Cache_Props.thy ===== *)
theory Hal_Cache_Props
  imports Hal_Cache_Walk
begin

text \<open>
  The properties of the rule compiler: what it makes of directories of documents, that a search on the
  compiled cache computes what the documents mean, what files that are not added leave behind, and the
  documents that end the compiler.
\<close>

section \<open>Blocks of documents\<close>

lemma RULES_ROUND_pos: "0 < n \<Longrightarrow> 0 < RULES_ROUND n"
  using RULES_ROUND_facts(1) [of n] by linarith

lemma mk_rule_wf: "t \<notin> {RULE_MATCH, RULE_UNKNOWN} \<Longrightarrow> fdi_wf (Fdi_Rule (mk_rule t m g k v))"
  by (simp add: mk_rule_def RULES_ROUND_pos)

lemma fdi_of_wf:
  "fdi_of x = Some fs \<Longrightarrow> list_all fdi_wf fs"
  "fdis_of xs = Some fs \<Longrightarrow> list_all fdi_wf fs"
proof (induction x and xs arbitrary: fs and fs rule: fdi_of_fdis_of.induct)
  case (2 el attrs single kids)
  have other: "fdi_wf (Fdi_Rule r)" if "other_elem t attrs v = Some r" "t \<noteq> RULE_MATCH" "t \<noteq> RULE_UNKNOWN" for t v r
    using that mk_rule_wf [of t] by (auto simp: other_elem_def split: list.splits if_splits)
  have match: "rtype r = RULE_MATCH \<and> 0 < rule_size r" if "match_elem attrs = Some r" for r
    using that by (auto simp: match_elem_def mk_rule_def RULES_ROUND_pos split: list.splits if_splits)
  show ?case using 2 other match by (auto split: if_splits option.splits)
next
  case (4 x xs)
  then show ?case by (auto split: option.splits)
qed auto

lemma document_blocks_ok:
  "document_blocks path doc = Some fs \<Longrightarrow> list_all fdi_wf fs \<and> fs \<noteq> [] \<and> (\<exists>r. last fs = Fdi_Rule r)"
  using fdi_of_wf(1) mk_rule_wf [of RULE_EOF] by (cases doc) (auto simp: eof_rule_def)

lemma blocks_ok: "list_all fdi_wf (blocks_of docs) \<and> closed_by_rule (blocks_of docs)"
proof (induction docs)
  case (Cons d docs)
  obtain path doc where d: "d = (path, doc)" by (cases d)
  show ?case
  proof (cases "document_blocks path doc")
    case (Some fs)
    then have "blocks_of (d # docs) = fs @ blocks_of docs" by (simp add: blocks_of_def d)
    with document_blocks_ok [OF Some] Cons show ?thesis by (auto simp: closed_by_rule_def last_append)
  qed (use Cons in \<open>simp add: blocks_of_def d\<close>)
qed (simp add: blocks_of_def closed_by_rule_def)

text \<open>Spawn rules that name devices of the daemon.\<close>

fun spawn_names :: "fdi \<Rightarrow> string list" where
  "spawn_names (Fdi_Rule r) = (if rtype r = RULE_SPAWN then [rkey r] else [])"
| "spawn_names (Fdi_Match r fs) = concat (map spawn_names fs)"

definition spawns_ok :: "fdi list \<Rightarrow> bool" where
  "spawns_ok fs \<longleftrightarrow> list_all (\<lambda>f. list_all (prefix ''/org/freedesktop/Hal/devices/'') (spawn_names f)) fs"

lemma layout_rules_ok:
  "fdi_wf f \<Longrightarrow> list_all (prefix ''/org/freedesktop/Hal/devices/'') (spawn_names f) \<Longrightarrow> list_all rule_ok (layout p f)"
  "list_all fdi_wf fs \<Longrightarrow> spawns_ok fs \<Longrightarrow> list_all rule_ok (layouts p fs)"
  by (induction p f and p fs rule: layout_layouts.induct)
    (auto simp: rule_ok_def spawns_ok_def list_all_iff split: if_splits)

lemma built_cache:
  assumes "sources_ok [pre, info, pol]"
    and "di_rules_init (source_of pre) (source_of info) (source_of pol) = Inr (Some (n, b))"
  defines "P \<equiv> blocks_of (source_documents pre)" and "I \<equiv> blocks_of (source_documents info)"
    and "Q \<equiv> blocks_of (source_documents pol)"
  shows "compiled_cache (init_rules b) P I Q" and "spawns_ok (P @ I @ Q) \<Longrightarrow> cache_ok (init_rules b)"
proof -
  have b: "init_rules b = cache_of P I Q (length b)" "RULES_ROUND (length b) = 24 + sum_list (map fdi_size (P @ I @ Q))"
    "\<forall>(off, r) \<in> set (rule_at (init_rules b)). off < length b"
  proof -
    obtain b' where b': "di_rules_init (source_of pre) (source_of info) (source_of pol) =
        Inr (Some (skipped (source_documents pre) + skipped (source_documents info) + skipped (source_documents pol), b'))"
      "init_rules b' = cache_of P I Q (length b')" "RULES_ROUND (length b') = 24 + sum_list (map fdi_size (P @ I @ Q))"
      "\<forall>(off, r) \<in> set (rule_at (init_rules b')). off < length b'"
      unfolding P_def I_def Q_def by (rule cache_built [OF assms(1)])
    moreover have "b' = b" using b'(1) assms(2) by simp
    ultimately show "init_rules b = cache_of P I Q (length b)" "RULES_ROUND (length b) = 24 + sum_list (map fdi_size (P @ I @ Q))"
      "\<forall>(off, r) \<in> set (rule_at (init_rules b)). off < length b" by simp_all
  qed
  have wf: "list_all fdi_wf (P @ I @ Q)" "closed_by_rule P" "closed_by_rule I" "closed_by_rule Q"
    using blocks_ok by (auto simp: P_def I_def Q_def)
  have all: "all_rules_size (init_rules b) = length b" by (simp add: b(1) cache_of_def)
  show "compiled_cache (init_rules b) P I Q"
    using b wf RULES_ROUND_facts(1) [of "length b"] unfolding compiled_cache_def all by simp
  show "cache_ok (init_rules b)" if "spawns_ok (P @ I @ Q)"
    using layout_rules_ok(2) [OF wf(1) that] by (simp add: cache_ok_def b(1) cache_of_def)
qed

section \<open>A small set of documents\<close>

definition demo_doc :: xml where
  "demo_doc =
     Elem ''deviceinfo'' [(''version'', ''0.2'')] False
       [Txt ''  '',
        Elem ''match'' [(''key'', ''info.product''), (''string'', ''Disk'')] False
          [Elem ''merge'' [(''key'', ''info.vendor''), (''type'', ''string'')] False [Txt ''Acme''],
           Elem ''remove'' [(''key'', ''info.old'')] True []]]"

definition demo_source :: "(string \<times> doc_node list) list" where
  "demo_source =
     [(''/etc/hal/fdi'', [Doc_File ''10-disk.fdi'' (Document demo_doc), Doc_File ''readme'' Unreadable,
        Doc_Dir ''more'' [Doc_File ''20-bad.fdi'' (Document (Elem ''merge'' [] False []))]])]"

lemma demo_ok: "sources_ok [[], demo_source, []]"
proof -
  have "documents_ok (source_documents demo_source)" "documents_ok (source_documents [])" by code_simp+
  moreover have "documents_weight (source_documents demo_source) < 1000" by code_simp
  moreover have "documents_weight (source_documents []) = 0" by code_simp
  ultimately show ?thesis by (simp add: sources_ok_def)
qed

lemma demo_spawns: "spawns_ok (blocks_of (source_documents []) @ blocks_of (source_documents demo_source) @ blocks_of (source_documents []))"
  by code_simp

lemma demo_skipped: "skipped (source_documents demo_source) = 1"
  by code_simp

lemma no_documents [simp]: "source_documents [] = []" "skipped [] = 0" "blocks_of [] = []"
  by (simp_all add: source_documents_def skipped_def blocks_of_def)

fun nested :: "nat \<Rightarrow> xml" where
  "nested 0 = Elem ''merge'' [(''key'', ''a''), (''type'', ''string'')] False [Txt ''b'']"
| "nested (Suc n) = Elem ''match'' [(''key'', ''a''), (''exists'', ''true'')] False [nested n]"

lemma nested_dies:
  "depth ctx \<le> HAL_MAX_INDENT_DEPTH \<Longrightarrow> HAL_MAX_INDENT_DEPTH < depth ctx + n \<Longrightarrow>
   run_events (xml_events (nested n)) ctx = Inl Fatal"
proof (induction n arbitrary: ctx)
  case (Suc n)
  let ?a = "[(''key'', ''a''), (''exists'', ''true'')]"
  obtain r where r: "match_elem ?a = Some r" by (simp add: match_elem_def get_match_type_def)
  have m: "get_rule_type ''match'' = RULE_MATCH" by (simp add: get_rule_type_def)
  show ?case
  proof (cases "depth ctx < HAL_MAX_INDENT_DEPTH")
    case True
    from start_match_ok [OF r m True] obtain c where "start ''match'' ?a ctx = Inr (True, c)" "depth c = Suc (depth ctx)" by blast
    with Suc.IH [of c] Suc.prems True show ?thesis by (simp add: run_events_append)
  next
    case False
    with start_too_deep [OF r m, of ctx] show ?thesis by simp
  qed
qed simp

section \<open>Properties\<close>

text \<open>C1: a search for a device on the compiled cache computes what the documents mean. The documents of
  three lists of directories, none of them able to end the compiler and their cache smaller than \<open>2 ^ 31\<close>
  bytes, are compiled to bytes and mapped. Whenever a search for a device comes to an outcome, it is
  that of running the blocks of the documents by recursion over their structure: a match runs its block
  when its test holds, a spawned device runs the information and policy blocks. When moreover every
  spawn rule of the documents names a device with the prefix of the daemon's identifiers and the runner
  takes every callout program, the search does come to an outcome, the same one from some amount of
  fuel on. In particular no jump leaves its section.\<close>

theorem compiled_search_means_documents:
  fixes dev :: nat and type :: device_info_type
  assumes "sources_ok [pre, info, pol]"
    and "di_rules_init (source_of pre) (source_of info) (source_of pol) = Inr (Some (m, b))"
    and "re_cache E = init_rules b" and "glib_ok (re_glib E)" and "world_ok (re_glib E) w"
  defines "P \<equiv> blocks_of (source_documents pre)" and "I \<equiv> blocks_of (source_documents info)"
    and "Q \<equiv> blocks_of (source_documents pol)"
  defines "search \<equiv> \<lambda>n. di_search_and_merge n E dev type w"
    and "meaning \<equiv> \<lambda>n. run_blocks n E (later_blocks I Q) (blocks_for P I Q type) dev w"
  shows "(\<forall>n. search n \<noteq> Inl Out_Of_Fuel \<longrightarrow> meaning (Suc n) = search n) \<and>
    (spawns_ok (P @ I @ Q) \<and> (\<forall>program. re_starts E program) \<longrightarrow>
     (\<exists>N res. res \<noteq> Inl Out_Of_Fuel \<and> (\<forall>n \<ge> N. search n = res \<and> meaning (Suc n) = res)))"
proof -
  note built = built_cache [OF assms(1,2), folded P_def I_def Q_def]
  have comp: "compiled_cache (re_cache E) P I Q" using built assms(3) by simp
  have same: "meaning (Suc n) = search n" if "search n \<noteq> Inl Out_Of_Fuel" for n
    using search_runs_blocks [OF comp, of n dev type w] that
    by (auto simp: fuel_le_def search_def meaning_def)
  have "\<exists>N res. res \<noteq> Inl Out_Of_Fuel \<and> (\<forall>n \<ge> N. search n = res \<and> meaning (Suc n) = res)"
    if "spawns_ok (P @ I @ Q)" and starts: "\<forall>program. re_starts E program"
  proof -
    have ok: "cache_ok (re_cache E)" using built assms(3) that(1) by simp
    obtain N where N: "no_fuel_error (search N)"
      using search_enough_fuel [OF assms(4) ok _ assms(5)] starts unfolding search_def by blast
    have "search n = search N" if "n \<ge> N" for n
      using search_mono [OF N [unfolded search_def] that] by (simp add: search_def)
    with N same show ?thesis by (metis no_fuel_error_def)
  qed
  with same show ?thesis by blast
qed

theorem compiled_search_means_documents_witness:
  "\<exists>b N res. di_rules_init (source_of []) (source_of demo_source) (source_of []) = Inr (Some (1, b)) \<and>
     res \<noteq> Inl Out_Of_Fuel \<and>
     (\<forall>n \<ge> N. di_search_and_merge n ((demo_env [])\<lparr>re_cache := init_rules b\<rparr>) 1 DEVICE_INFO_TYPE_INFORMATION demo_world = res \<and>
        run_blocks (Suc n) ((demo_env [])\<lparr>re_cache := init_rules b\<rparr>) (later_blocks (blocks_of (source_documents demo_source)) [])
          (blocks_of (source_documents demo_source)) 1 demo_world = res)"
proof -
  obtain b where b: "di_rules_init (source_of []) (source_of demo_source) (source_of []) = Inr (Some (1, b))"
    by (rule cache_built [OF demo_ok]) (simp add: demo_skipped)
  let ?E = "(demo_env [])\<lparr>re_cache := init_rules b\<rparr>"
  have "glib_ok (re_glib ?E)" "world_ok (re_glib ?E) demo_world" "re_cache ?E = init_rules b"
    using demo_world_ok ascii_glib_ok by (simp_all add: demo_env_def)
  then show ?thesis
    using compiled_search_means_documents [OF demo_ok b, of ?E demo_world 1 DEVICE_INFO_TYPE_INFORMATION] demo_spawns b
    by (auto simp: blocks_for_def demo_env_def)
qed

text \<open>C5: the compiler is total and exact. Directories of documents of which none can end it and which
  are small enough are compiled; the number of skipped files it reports is the number of files that do
  not stand for blocks, the exit status tells whether there are any, and what the daemon maps is the
  layout of the blocks of all other files, in the order of the search, in three sections.\<close>

theorem cache_is_layout:
  assumes "sources_ok [pre, info, pol]"
  defines "P \<equiv> source_documents pre" and "I \<equiv> source_documents info" and "Q \<equiv> source_documents pol"
  defines "n \<equiv> skipped P + skipped I + skipped Q"
  shows "\<exists>b. di_rules_init (source_of pre) (source_of info) (source_of pol) = Inr (Some (n, b)) \<and>
    init_rules b = cache_of (blocks_of P) (blocks_of I) (blocks_of Q) (length b) \<and>
    main_exit (Inr (Some (n, b))) = Inr (if n = 0 then 0 else 2)"
proof -
  obtain b where "di_rules_init (source_of pre) (source_of info) (source_of pol) = Inr (Some (n, b))"
    "init_rules b = cache_of (blocks_of P) (blocks_of I) (blocks_of Q) (length b)"
    unfolding n_def P_def I_def Q_def by (rule cache_built [OF assms(1)])
  then show ?thesis by (simp add: main_exit_def)
qed

theorem cache_is_layout_witness:
  "\<exists>b. di_rules_init (source_of []) (source_of demo_source) (source_of []) = Inr (Some (1, b)) \<and>
    init_rules b = cache_of [] (blocks_of (source_documents demo_source)) [] (length b) \<and> main_exit (Inr (Some (1, b))) = Inr 2"
  using cache_is_layout [OF demo_ok]
  by (simp add: demo_skipped)

text \<open>C37: a file that is not added leaves no trace. After any harmless files, a document that does not
  stand for blocks, the start of one that is not well-formed, or a file that cannot be read, is counted
  as skipped, and the cache file and its position are exactly what they were.\<close>

theorem refused_file_leaves_no_trace:
  assumes "documents_ok docs" and "add_documents docs cache_start = Inr (n, fd)"
    and "document_ok doc" and "document_blocks path doc = None"
    and "20 + documents_weight docs + document_weight doc + length path + 108 < 2 ^ 31"
  shows "add_or_skip path (file_of doc) fd = Inr (1, fd)"
proof -
  have "length (f_bytes cache_start) + documents_weight docs < 2 ^ 31" using assms(5) by (simp add: cache_start_length)
  from documents_stored [OF cache_start_stored assms(1) this] assms(2) obtain rs where
    st: "stored 24 fd rs" and "length (f_bytes fd) \<le> 20 + documents_weight docs"
    by (auto simp: cache_start_length)
  then have "room fd path doc < 2 ^ 31" using assms(5) by (simp add: room_def)
  with st assms(3,4) show ?thesis by (intro document_skipped)
qed

theorem refused_file_leaves_no_trace_witness:
  "\<exists>n fd. add_documents (source_documents demo_source) cache_start = Inr (n, fd) \<and>
     add_or_skip ''/etc/hal/fdi/30.fdi'' (file_of (Broken demo_doc 5)) fd = Inr (1, fd)"
proof -
  have ok: "documents_ok (source_documents demo_source)" and w: "documents_weight (source_documents demo_source) < 1000"
    and d: "document_ok (Broken demo_doc 5)" and dw: "document_weight (Broken demo_doc 5) < 1000" by code_simp+
  have "length (f_bytes cache_start) + documents_weight (source_documents demo_source) < 2 ^ 31"
    using w by (simp add: cache_start_length)
  from documents_stored [OF cache_start_stored ok this] obtain n fd where
    fd: "add_documents (source_documents demo_source) cache_start = Inr (n, fd)" by blast
  with refused_file_leaves_no_trace [OF ok fd d, of "''/etc/hal/fdi/30.fdi''"] w dw show ?thesis by simp
qed

text \<open>A document can end the compiler. An empty match element without a key is refused, but expat
  still reports its end, which dies on an empty stack of matches; written with a separate end tag the
  same element only makes the file be skipped. An empty key and matches nested more than 64 deep end
  the compiler as well, so that no cache is written at all.\<close>

theorem documents_that_end_the_compiler:
  "rules_add_fdi_file path (Some (xml_events (Elem ''match'' [] True []), wellformed)) fd = Inl Fatal \<and>
   (\<exists>fd'. rules_add_fdi_file path (Some (xml_events (Elem ''match'' [] False []), wellformed)) fd = Inr (False, fd')) \<and>
   rules_add_fdi_file path (Some (xml_events (Elem ''merge'' [(''key'', [])] single kids), wellformed)) fd = Inl Fatal \<and>
   rules_add_fdi_file path (Some (xml_events (nested (65 + n)), wellformed)) fd = Inl Fatal"
  (is "?empty \<and> ?separate \<and> ?key \<and> ?deep")
proof (intro conjI)
  show ?empty
    by (simp add: rules_add_fdi_file_def new_context_def start_eq flush_def init_rule_struct_def get_rule_type_def
        element_def end_tag_def store_rule_def set_jump_position_def Let_def)
  show ?separate
    by (simp add: rules_add_fdi_file_def new_context_def start_eq flush_def init_rule_struct_def get_rule_type_def
        element_def Let_def)
  show ?key
    by (simp add: rules_add_fdi_file_def new_context_def start_eq flush_def init_rule_struct_def get_rule_type_def
        element_def store_key_def Let_def)
  show ?deep
    using nested_dies [of "new_context fd" "65 + n"] by (simp add: rules_add_fdi_file_def HAL_MAX_INDENT_DEPTH_def)
qed

end
