(* ===== verification/Hal_Coherency_Props.thy ===== *)
theory Hal_Coherency_Props
  imports Hal_Coherency Hal_Cache_Props
begin

text \<open>
  When the compiled cache is rebuilt and what the daemon has mapped afterwards.
\<close>

section \<open>Time stamps\<close>

text \<open>The visible files and directories: their time stamps and their paths, in the order of the visit.\<close>

fun stamps :: "fs_node option \<Rightarrow> int list" and entry_stamps :: "(string \<times> fs_node option) list \<Rightarrow> int list" where
  "stamps None = []"
| "stamps (Some (FS_File t)) = [t]"
| "stamps (Some (FS_Dir t None)) = [t]"
| "stamps (Some (FS_Dir t (Some es))) = t # entry_stamps es"
| "entry_stamps [] = []"
| "entry_stamps ((name, node) # es) = (if name \<noteq> [] \<and> hd name = CHR ''.'' then [] else stamps node) @ entry_stamps es"

fun paths :: "(string \<Rightarrow> string \<Rightarrow> string) \<Rightarrow> string \<Rightarrow> fs_node option \<Rightarrow> string list"
  and entry_paths :: "(string \<Rightarrow> string \<Rightarrow> string) \<Rightarrow> string \<Rightarrow> (string \<times> fs_node option) list \<Rightarrow> string list" where
  "paths build path (Some (FS_Dir t (Some es))) = path # entry_paths build path es"
| "paths build path _ = [path]"
| "entry_paths build path [] = []"
| "entry_paths build path ((name, node) # es) =
     (if name \<noteq> [] \<and> hd name = CHR ''.'' then [] else paths build (build path name) node) @ entry_paths build path es"

lemma dir_mtime_eq:
  "dir_mtime build w path node (mt, ws) = (fold max (stamps node) mt, ws @ (if w then paths build path node else []))"
  "entries_mtime build w path es acc = (fold max (entry_stamps es) (fst acc), snd acc @ (if w then entry_paths build path es else []))"
proof (induction build w path node "(mt, ws)" and build w path es acc arbitrary: mt ws
    rule: dir_mtime_entries_mtime.induct)
  case (1 build w path node mt ws)
  show ?case
  proof (cases node)
    case (Some x)
    show ?thesis
    proof (cases x)
      case (FS_Dir t entries)
      moreover have "(if a < b then b else a) = max b a" for a b :: int by simp
      ultimately show ?thesis using 1 Some by (cases entries) auto
    qed (simp add: Some max_def)
  qed simp
next
  case (3 build w path name node es acc)
  then show ?case by (cases acc) (auto simp del: dir_mtime.simps)
qed simp_all

lemma fold_max_upper: "s \<in> set xs \<or> s \<le> m \<Longrightarrow> s \<le> fold max xs (m :: int)"
proof (induction xs arbitrary: m)
  case (Cons x xs)
  from Cons.prems have "s \<in> set xs \<or> s \<le> max x m" by auto
  from Cons.IH [OF this] show ?case by simp
qed simp

lemma fold_max_in: "fold max xs (m :: int) \<in> insert m (set xs)"
proof (induction xs arbitrary: m)
  case (Cons x xs)
  from Cons.IH [of "max x m"] show ?case by (auto simp: max_def split: if_splits)
qed simp

definition all_stamps :: "(string \<times> fs_node option) list \<Rightarrow> int list" where
  "all_stamps dirs = concat (map (\<lambda>(_, node). stamps node) dirs)"

definition all_paths :: "(string \<Rightarrow> string \<Rightarrow> string) \<Rightarrow> (string \<times> fs_node option) list \<Rightarrow> string list" where
  "all_paths build dirs = concat (map (\<lambda>(path, node). paths build path node) dirs)"

lemma sources_mtime_eq:
  "sources_mtime build w dirs = (fold max (all_stamps dirs) 0, if w then all_paths build dirs else [])"
proof -
  have "fold (\<lambda>(path, node). dir_mtime build w path node) dirs (mt, ws) =
      (fold max (all_stamps dirs) mt, ws @ (if w then all_paths build dirs else []))" for mt ws
    by (induction dirs arbitrary: mt ws) (auto simp: dir_mtime_eq(1) all_stamps_def all_paths_def simp del: dir_mtime.simps)
  from this [of 0 "[]"] show ?thesis by (simp add: sources_mtime_def)
qed

text \<open>The cache file is missing, empty, or older than a visible file or directory.\<close>

definition outdated :: "(string \<times> fs_node option) list \<Rightarrow> coherency \<Rightarrow> bool" where
  "outdated dirs st \<longleftrightarrow>
     (case cache_on_disk st of
        None \<Rightarrow> True | Some (mtime, b) \<Rightarrow> b = [] \<or> mtime < 0 \<or> (\<exists>s \<in> set (all_stamps dirs). mtime < s))"

lemma newer_stamp: "mtime < fold max xs (0 :: int) \<longleftrightarrow> mtime < 0 \<or> (\<exists>s \<in> set xs. mtime < s)"
proof
  show "mtime < 0 \<or> (\<exists>s \<in> set xs. mtime < s)" if "mtime < fold max xs 0" using that fold_max_in [of xs 0] by auto
next
  assume "mtime < 0 \<or> (\<exists>s \<in> set xs. mtime < s)"
  then obtain s where "mtime < s" "s \<in> set xs \<or> s \<le> 0" by auto
  with fold_max_upper [of s xs 0] show "mtime < fold max xs 0" by simp
qed

lemma check_eq:
  assumes "\<not> cache_valid st"
  shows "di_cache_coherency_check run build w dirs st =
    (outdated dirs st, (if outdated dirs st then regen_cache run st else st)\<lparr>cache_valid := True\<rparr>,
     if w then all_paths build dirs else [])"
  using assms
  by (auto simp: di_cache_coherency_check_def sources_mtime_eq outdated_def newer_stamp split: option.splits)

section \<open>Running the compiler\<close>

lemma helper_compiles:
  assumes "sources_ok [pre, info, pol]"
  obtains b where
    "regen_cache (helper now (source_of pre) (source_of info) (source_of pol)) st =
       st\<lparr>cache_on_disk := Some (now, b), regen_cache_success := True\<rparr>"
    "init_rules b = cache_of (blocks_of (source_documents pre)) (blocks_of (source_documents info))
       (blocks_of (source_documents pol)) (length b)" "b \<noteq> []"
proof -
  let ?P = "source_documents pre" and ?I = "source_documents info" and ?Q = "source_documents pol"
  obtain b where b: "di_rules_init (source_of pre) (source_of info) (source_of pol) =
      Inr (Some (skipped ?P + skipped ?I + skipped ?Q, b))"
    "init_rules b = cache_of (blocks_of ?P) (blocks_of ?I) (blocks_of ?Q) (length b)"
    "RULES_ROUND (length b) = 24 + sum_list (map fdi_size (blocks_of ?P @ blocks_of ?I @ blocks_of ?Q))"
    by (rule cache_built [OF assms])
  have "regen_cache (helper now (source_of pre) (source_of info) (source_of pol)) st =
      st\<lparr>cache_on_disk := Some (now, b), regen_cache_success := True\<rparr>"
    by (simp add: regen_cache_def helper_def main_exit_def regen_cache_cb_def b(1))
  moreover have "b \<noteq> []" using b(3) by (auto simp: RULES_ROUND_def ROUND_def)
  ultimately show ?thesis using that b(2) by blast
qed

lemma map_good:
  assumes "cache_on_disk st = Some (t, b)" and "b \<noteq> []" and "all_rules_size (init_rules b) = length b"
  shows "mmap_di_rules_init run st = Inr (st\<lparr>rules_ptr := Some b\<rparr>)"
  using assms by (simp add: mmap_di_rules_init_def map_rules_def)

definition plain_build :: "string \<Rightarrow> string \<Rightarrow> string" where
  "plain_build dir name = dir @ ''/'' @ name"

definition demo_tree :: "(string \<times> fs_node option) list" where
  "demo_tree =
     [(''/usr/share/hal/fdi'', Some (FS_Dir 100 (Some
        [(''..'', Some (FS_Dir 900 None)), (''20.fdi'', Some (FS_File 250)), (''10.fdi'', Some (FS_File 120))]))),
      (''/etc/hal/fdi'', None)]"

definition demo_state :: coherency where
  "demo_state = \<lparr>cache_valid = False, regen_cache_success = False, cache_on_disk = Some (200, ''old''), rules_ptr = None\<rparr>"

section \<open>Properties\<close>

text \<open>The decision to run the compiler. While the cache is not marked valid, a check runs the compiler
  exactly when the cache file is missing, empty, or older than some file or directory that is visible
  below the source directories, hidden ones left out; it marks the cache valid, and when asked to, it
  watches every path it has visited. A cache that is marked valid is not looked at.\<close>

theorem coherency_check_outcome:
  "di_cache_coherency_check run build setup_watches dirs st =
     (if cache_valid st then (False, st, [])
      else (outdated dirs st,
            (if outdated dirs st then regen_cache run st else st)\<lparr>cache_valid := True\<rparr>,
            if setup_watches then all_paths build dirs else []))"
  by (cases "cache_valid st") (simp_all add: check_eq, simp add: di_cache_coherency_check_def)

text \<open>C38: the rules in use are those of the documents. When the check finds the cache outdated and runs the
  compiler on directories whose documents it can compile, the search for a device goes on with a mapped
  cache that is the layout of the blocks of these documents, and the cache is not taken for corrupted.\<close>

theorem ensured_rules_are_current:
  assumes "sources_ok [pre, info, pol]" and "\<not> cache_valid st" and "outdated dirs st"
  shows "\<exists>st' b. ensure_rules (helper now (source_of pre) (source_of info) (source_of pol)) build dirs st = Inr st' \<and>
    cache_valid st' \<and> regen_cache_success st' \<and> cache_on_disk st' = Some (now, b) \<and> rules_ptr st' = Some b \<and>
    init_rules b = cache_of (blocks_of (source_documents pre)) (blocks_of (source_documents info))
      (blocks_of (source_documents pol)) (length b)"
proof -
  let ?run = "helper now (source_of pre) (source_of info) (source_of pol)"
  obtain b where b: "regen_cache ?run st = st\<lparr>cache_on_disk := Some (now, b), regen_cache_success := True\<rparr>"
    "init_rules b = cache_of (blocks_of (source_documents pre)) (blocks_of (source_documents info))
       (blocks_of (source_documents pol)) (length b)" "b \<noteq> []"
    by (rule helper_compiles [OF assms(1)])
  let ?st = "st\<lparr>cache_valid := True, regen_cache_success := True, cache_on_disk := Some (now, b)\<rparr>"
  have "mmap_di_rules_init ?run ?st = Inr (?st\<lparr>rules_ptr := Some b\<rparr>)"
    by (rule map_good [of _ now]) (use b in \<open>simp_all add: cache_of_def\<close>)
  moreover have "(regen_cache ?run st)\<lparr>cache_valid := True\<rparr> = ?st" unfolding b(1) by (cases st) simp
  ultimately have "ensure_rules ?run build dirs st = Inr (?st\<lparr>rules_ptr := Some b\<rparr>)"
    using assms(2,3) by (simp add: ensure_rules_def check_eq)
  then show ?thesis using b(2) by simp
qed

theorem ensured_rules_are_current_witness:
  "\<exists>st' b. ensure_rules (helper 300 (source_of []) (source_of demo_source) (source_of [])) plain_build demo_tree demo_state
      = Inr st' \<and> rules_ptr st' = Some b \<and>
    init_rules b = cache_of [] (blocks_of (source_documents demo_source)) [] (length b)"
proof -
  have "\<not> cache_valid demo_state" by (simp add: demo_state_def)
  moreover have "outdated demo_tree demo_state" by (simp add: outdated_def demo_state_def demo_tree_def all_stamps_def)
  ultimately show ?thesis
    using ensured_rules_are_current [OF demo_ok, of demo_state demo_tree 300 plain_build] by auto
qed

text \<open>A failed run of the compiler is not tried again. When the compiler fails and leaves an old but
  intact cache file, the daemon maps the old rules and marks the cache valid; whatever the source
  directories contain later, every further search keeps the old rules, until a file monitor reports a
  change.\<close>

theorem failed_regeneration_keeps_old_rules:
  assumes "\<not> cache_valid st" and "outdated dirs st" and "cache_on_disk st = Some (t, b)"
    and "run (Some (t, b)) = (exit_type, return_code, Some (t, b))"
    and "exit_type \<noteq> HALD_RUN_SUCCESS \<or> return_code \<notin> {0, 2}"
    and "b \<noteq> []" and "all_rules_size (init_rules b) = length b"
  shows "\<exists>st'. ensure_rules run build dirs st = Inr st' \<and> rules_ptr st' = Some b \<and> \<not> regen_cache_success st' \<and>
    (\<forall>run' build' dirs'. ensure_rules run' build' dirs' st' = Inr st')"
proof -
  let ?st = "st\<lparr>cache_valid := True, regen_cache_success := False\<rparr>"
  have "cache_on_disk ?st = Some (t, b)" using assms(3) by simp
  then have "mmap_di_rules_init run ?st = Inr (?st\<lparr>rules_ptr := Some b\<rparr>)"
    by (rule map_good [OF _ assms(6,7)])
  moreover have "(regen_cache run st)\<lparr>cache_valid := True\<rparr> = ?st"
    using assms(3-5) by (cases st) (auto simp: regen_cache_def regen_cache_cb_def)
  ultimately have "ensure_rules run build dirs st = Inr (?st\<lparr>rules_ptr := Some b\<rparr>)"
    using assms(1,2) by (simp add: ensure_rules_def check_eq)
  then show ?thesis by (simp add: ensure_rules_def di_cache_coherency_check_def)
qed

definition empty_cache :: string where
  "empty_cache = encode_header 24 24 24 20"

theorem failed_regeneration_keeps_old_rules_witness:
  "\<exists>st'. ensure_rules (helper 300 (source_of []) [(''/etc/hal/fdi'', None)] (source_of [])) plain_build demo_tree
      (demo_state\<lparr>cache_on_disk := Some (200, empty_cache)\<rparr>) = Inr st' \<and> rules_ptr st' = Some empty_cache"
proof -
  let ?run = "helper 300 (source_of []) [(''/etc/hal/fdi'', None)] (source_of [])"
  let ?st = "demo_state\<lparr>cache_on_disk := Some (200, empty_cache)\<rparr>"
  have e: "length empty_cache = 20" by (simp add: empty_cache_def encode_header_def)
  then have "empty_cache \<noteq> []" by (metis list.size(3) zero_neq_numeral)
  moreover have "all_rules_size (init_rules empty_cache) = length empty_cache"
    unfolding e by (simp add: init_rules_def read_int_def slice_def empty_cache_def encode_header_def del: le_bytes.simps)
  moreover have "\<not> cache_valid ?st" "cache_on_disk ?st = Some (200, empty_cache)" by (simp_all add: demo_state_def)
  moreover have "outdated demo_tree ?st" by (simp add: outdated_def demo_tree_def all_stamps_def)
  moreover have "?run (Some (200, empty_cache)) = (HALD_RUN_SUCCESS, 1, Some (200, empty_cache))"
  proof -
    have "add_sources (source_of []) cache_start = Inr (Some 0, cache_start)" by (simp add: source_of_def)
    then show ?thesis
      by (simp add: helper_def di_rules_init_def cache_start_def [symmetric] rules_search_and_add_fdi_files_def main_exit_def)
  qed
  ultimately show ?thesis
    using failed_regeneration_keeps_old_rules [of ?st demo_tree 200 empty_cache ?run HALD_RUN_SUCCESS 1 plain_build] by auto
qed

end
