(* ===== verification/Hal_Util.thy ===== *)
theory Hal_Util
  imports Hal_Store
begin

text \<open>
  \<open>hald/util.c\<close> and \<open>hald/util_helper.c\<close>: paths, UDIs, reading values out of files of sysfs and
  procfs, the chain of callouts, the check of interface names.

  A buffer index out of its array is the error \<open>Buffer_Overrun\<close>. The file system is a parameter: the
  contents of the files that can be opened.
\<close>

section \<open>Paths\<close>

definition slash :: char where
  "slash = CHR ''/''"

text \<open>\<open>strrchr (s, c)\<close>: the position of the last occurrence.\<close>

fun strrchr :: "string \<Rightarrow> char \<Rightarrow> nat option" where
  "strrchr [] c = None"
| "strrchr (a # s) c =
     (case strrchr s c of Some i \<Rightarrow> Some (Suc i) | None \<Rightarrow> if a = c then Some 0 else None)"

definition hal_util_remove_trailing_slash :: "string option \<Rightarrow> bool \<times> string option" where
  "hal_util_remove_trailing_slash path =
     (case path of
        None \<Rightarrow> (False, None)
      | Some s \<Rightarrow>
          (case strrchr s slash of
             None \<Rightarrow> (True, Some s)
           | Some c \<Rightarrow> (True, Some (if Suc c = length s then take c s else s))))"

text \<open>The loop runs from the last byte down to, and without, the first one.\<close>

fun last_element_loop :: "string \<Rightarrow> nat \<Rightarrow> string" where
  "last_element_loop s 0 = s"
| "last_element_loop s (Suc p) = (if s ! Suc p = slash then drop (Suc (Suc p)) s else last_element_loop s p)"

definition hal_util_get_last_element :: "string option \<Rightarrow> string option" where
  "hal_util_get_last_element s = map_option (\<lambda>s. last_element_loop s (length s - 1)) s"

text \<open>
  The loop of \<open>hal_util_get_parent_path\<close> has no lower bound: below index 0 the unsigned index wraps
  and the access leaves the string.
\<close>

fun parent_path_loop :: "string \<Rightarrow> nat \<Rightarrow> memory_error + string" where
  "parent_path_loop s i =
     (if i = 0 then Inl Buffer_Overrun
      else if s ! (i - 1) = slash then Inr (take (i - 1) s) else parent_path_loop s (i - 1))"

declare parent_path_loop.simps [simp del]

definition hal_util_get_parent_path :: "string \<Rightarrow> memory_error + string" where
  "hal_util_get_parent_path path =
     (let parent_path = take HAL_PATH_MAX path in parent_path_loop parent_path (length parent_path))"

text \<open>
  \<open>hal_util_get_normalized_path\<close>: the offset of \<open>p1\<close> from \<open>path1\<close>. The inner loop decrements before
  it reads, so with the offset at 0 it reads the byte before the string.
\<close>

fun step_back :: "string \<Rightarrow> nat \<Rightarrow> memory_error + nat" where
  "step_back path1 0 = Inl Buffer_Overrun"
| "step_back path1 (Suc p1) = (if path1 ! p1 = slash then Inr p1 else step_back path1 p1)"

function normalize_loop :: "string \<Rightarrow> nat \<Rightarrow> string \<Rightarrow> memory_error + (nat \<times> string)" where
  "normalize_loop path1 p1 p2 =
     (if p2 \<noteq> [] \<and> strncmp_eq p2 ''../'' 3
      then (case step_back path1 p1 of Inl e \<Rightarrow> Inl e | Inr p1' \<Rightarrow> normalize_loop path1 p1' (drop 3 p2))
      else Inr (p1, p2))"
  by pat_completeness auto
termination
  by (relation "measure (\<lambda>(path1, p1, p2). length p2)") auto

declare normalize_loop.simps [simp del]

definition hal_util_get_normalized_path :: "string \<Rightarrow> string \<Rightarrow> memory_error + string" where
  "hal_util_get_normalized_path path1 path2 =
     err_bind (normalize_loop path1 (length path1) path2)
       (\<lambda>(p1, p2). if HAL_PATH_MAX \<le> p1 then Inl Buffer_Overrun
                   else Inr (take p1 path1 @ slash # p2))"

definition hal_util_path_ascend :: "string option \<Rightarrow> bool \<times> string option" where
  "hal_util_path_ascend path =
     (case path of
        None \<Rightarrow> (False, None)
      | Some s \<Rightarrow> (case strrchr s slash of None \<Rightarrow> (False, Some s) | Some p \<Rightarrow> (True, Some (take p s))))"

section \<open>UDIs\<close>

text \<open>The loop over the suffixes ends at the first name the store does not know.\<close>

fun make_udi_loop :: "nat \<Rightarrow> heap \<Rightarrow> device_store \<Rightarrow> nat \<Rightarrow> string \<Rightarrow> nat \<Rightarrow> memory_error + string" where
  "make_udi_loop 0 h store udisize original_udi i = Inl Out_Of_Fuel"
| "make_udi_loop (Suc fuel) h store udisize original_udi i =
     (let u = snprintf udisize (original_udi @ ''_'' @ int_to_string (int i))
      in if hal_device_store_find h u store = None then Inr u
         else make_udi_loop fuel h store udisize original_udi (Suc i))"

definition hal_util_make_udi_unique ::
    "nat \<Rightarrow> heap \<Rightarrow> device_store \<Rightarrow> nat \<Rightarrow> string \<Rightarrow> memory_error + string" where
  "hal_util_make_udi_unique fuel h store udisize original_udi =
     (if hal_device_store_find h original_udi store = None then Inr (snprintf udisize original_udi)
      else make_udi_loop fuel h store udisize original_udi 0)"

definition is_alnum :: "char \<Rightarrow> bool" where
  "is_alnum c \<longleftrightarrow>
     (let b = (of_char c :: nat) in (97 \<le> b \<and> b \<le> 122) \<or> (65 \<le> b \<and> b \<le> 90) \<or> (48 \<le> b \<and> b \<le> 57))"

text \<open>\<open>g_strcanon (s, valid, '_')\<close>.\<close>

definition g_strcanon :: "(char \<Rightarrow> bool) \<Rightarrow> string \<Rightarrow> string" where
  "g_strcanon ok s = map (\<lambda>c. if ok c then c else CHR ''_'') s"

text \<open>The text \<open>formatted\<close> is what the format and its arguments expand to.\<close>

definition hal_util_compute_udi_valist :: "nat \<Rightarrow> string \<Rightarrow> string" where
  "hal_util_compute_udi_valist dstsize formatted =
     g_strcanon (\<lambda>c. is_alnum c \<or> c = slash \<or> c = CHR ''_'') (snprintf dstsize formatted)"

definition hal_util_compute_udi :: "nat \<Rightarrow> string \<Rightarrow> string" where
  "hal_util_compute_udi dstsize formatted = hal_util_compute_udi_valist dstsize formatted"

definition devices_prefix :: string where
  "devices_prefix = ''/org/freedesktop/Hal/devices/''"

text \<open>\<open>sscanf (udi, "/org/freedesktop/Hal/devices/%s", end)\<close>: the literal, blanks, a word.\<close>

definition scan_udi_end :: "string \<Rightarrow> string option" where
  "scan_udi_end u =
     (if \<not> prefix devices_prefix u then None
      else let w = takeWhile (\<lambda>c. \<not> is_space c) (dropWhile is_space (drop (length devices_prefix) u))
           in if w = [] then None else Some w)"

definition hal_util_validate_udi :: "string \<Rightarrow> nat \<Rightarrow> memory_error + string" where
  "hal_util_validate_udi u n =
     (case scan_udi_end u of
        None \<Rightarrow> Inr u
      | Some w \<Rightarrow>
          if n \<le> length w then Inl Buffer_Overrun
          else if slash \<in> set w
          then Inr (snprintf n (devices_prefix @ g_strcanon (\<lambda>c. is_alnum c \<or> c = CHR ''_'') w))
          else Inr u)"

section \<open>Values out of files\<close>

type_synonym files = "string \<Rightarrow> string option"

definition nul :: char where
  "nul = CHR 0x00"

definition newline :: char where
  "newline = CHR 0x0A"

definition cut_at_nul :: "string \<Rightarrow> string" where
  "cut_at_nul s = takeWhile (\<lambda>c. c \<noteq> nul) s"

text \<open>\<open>fgets\<close> into a buffer of \<open>n\<close> bytes: up to and with the first newline, at most \<open>n - 1\<close> bytes.\<close>

fun upto_newline :: "string \<Rightarrow> string" where
  "upto_newline [] = []"
| "upto_newline (c # cs) = (if c = newline then [c] else c # upto_newline cs)"

definition fgets :: "nat \<Rightarrow> string \<Rightarrow> string option" where
  "fgets n contents = (if contents = [] then None else Some (cut_at_nul (take (n - 1) (upto_newline contents))))"

text \<open>
  \<open>strtol\<close> with a base: whether any digit was read and the value before the ends of the range of
  \<open>long\<close> (64 bits) are applied. A prefix \<open>0x\<close> is skipped for the bases 0 and 16.
\<close>

definition hex_prefix :: "string \<Rightarrow> bool" where
  "hex_prefix s = (case s of
     z # x # c # _ \<Rightarrow> z = CHR ''0'' \<and> (x = CHR ''x'' \<or> x = CHR ''X'') \<and>
        (case digit_value c of Some v \<Rightarrow> v < 16 | None \<Rightarrow> False)
   | _ \<Rightarrow> False)"

definition digits_of :: "int \<Rightarrow> string \<Rightarrow> int \<times> string" where
  "digits_of base s =
     (if (base = 0 \<or> base = 16) \<and> hex_prefix s then (16, drop 2 s)
      else if base = 0 then (if s \<noteq> [] \<and> hd s = CHR ''0'' then 8 else 10, s)
      else (base, s))"

definition strtol :: "int \<Rightarrow> string \<Rightarrow> bool \<times> int" where
  "strtol base s =
     (let (neg, r) = parse_sign (dropWhile is_space s); (b, ds) = digits_of base r;
          m = parse_digits b 0 ds
      in (ds \<noteq> [] \<and> (case digit_value (hd ds) of Some v \<Rightarrow> v < b | None \<Rightarrow> False),
          if neg then - m else m))"

definition long_range :: "int \<Rightarrow> bool" where
  "long_range i \<longleftrightarrow> - (2 ^ 63) \<le> i \<and> i < 2 ^ 63"

definition clamp_long :: "int \<Rightarrow> int" where
  "clamp_long i = max (- (2 ^ 63)) (min (2 ^ 63 - 1) i)"

definition file_path :: "string \<Rightarrow> string \<Rightarrow> string" where
  "file_path directory file = snprintf HAL_PATH_MAX (directory @ slash # file)"

text \<open>\<open>errno\<close> is set when the value is out of the range of \<open>long\<close>; the result is cut to \<open>int\<close>.\<close>

definition hal_util_get_int_from_file :: "files \<Rightarrow> string \<Rightarrow> string \<Rightarrow> int \<Rightarrow> int32 option" where
  "hal_util_get_int_from_file fs directory file base =
     (case fs (file_path directory file) of
        None \<Rightarrow> None
      | Some contents \<Rightarrow>
          (case fgets 64 contents of
             None \<Rightarrow> None
           | Some buf \<Rightarrow> let v = snd (strtol base buf)
                         in if long_range v then Some (of_int v) else None))"

definition hal_util_set_int_from_file ::
    "files \<Rightarrow> string \<Rightarrow> string \<Rightarrow> string \<Rightarrow> int \<Rightarrow> hal_device \<Rightarrow> bool outcome" where
  "hal_util_set_int_from_file fs key directory file base d =
     (case hal_util_get_int_from_file fs directory file base of
        None \<Rightarrow> (False, d, [])
      | Some v \<Rightarrow> hal_device_property_set_int key v d)"

definition hal_util_get_uint64_from_file :: "files \<Rightarrow> string \<Rightarrow> string \<Rightarrow> int \<Rightarrow> uint64 option" where
  "hal_util_get_uint64_from_file fs directory file base =
     (case fs (file_path directory file) of
        None \<Rightarrow> None
      | Some contents \<Rightarrow>
          (case fgets 64 contents of
             None \<Rightarrow> None
           | Some buf \<Rightarrow> let v = snd (strtol base buf)
                         in if long_range v then Some (of_int v) else None))"

definition hal_util_set_uint64_from_file ::
    "files \<Rightarrow> string \<Rightarrow> string \<Rightarrow> string \<Rightarrow> int \<Rightarrow> hal_device \<Rightarrow> bool outcome" where
  "hal_util_set_uint64_from_file fs key directory file base d =
     (case hal_util_get_uint64_from_file fs directory file base of
        None \<Rightarrow> (False, d, [])
      | Some v \<Rightarrow> hal_device_property_set_uint64 key v d)"

text \<open>The white space of GLib is that of C without the vertical tab.\<close>

definition g_ascii_isspace :: "char \<Rightarrow> bool" where
  "g_ascii_isspace c \<longleftrightarrow> is_space c \<and> (of_char c :: nat) \<noteq> 11"

text \<open>Trailing blanks are cleared from the last byte on.\<close>

definition clear_trailing_space :: "string \<Rightarrow> string" where
  "clear_trailing_space s = rev (dropWhile g_ascii_isspace (rev s))"

definition hal_util_get_string_from_file :: "files \<Rightarrow> string \<Rightarrow> string \<Rightarrow> string option" where
  "hal_util_get_string_from_file fs directory file =
     (case fs (file_path directory file) of
        None \<Rightarrow> None
      | Some contents \<Rightarrow>
          (case fgets 256 contents of
             None \<Rightarrow> None
           | Some buf \<Rightarrow> if length buf = 0 then None else Some (clear_trailing_space buf)))"

definition hal_util_get_bool_from_file :: "files \<Rightarrow> string \<Rightarrow> string \<Rightarrow> string \<Rightarrow> bool option" where
  "hal_util_get_bool_from_file fs directory file true_val =
     map_option (\<lambda>v. strcmp v true_val = 0) (hal_util_get_string_from_file fs directory file)"

definition hal_util_set_string_from_file ::
    "glib \<Rightarrow> files \<Rightarrow> string \<Rightarrow> string \<Rightarrow> string \<Rightarrow> hal_device \<Rightarrow> bool outcome" where
  "hal_util_set_string_from_file G fs key directory file d =
     (case hal_util_get_string_from_file fs directory file of
        None \<Rightarrow> (False, d, [])
      | Some buf \<Rightarrow> hal_device_property_set_string G key (Some buf) d)"

section \<open>Searching the lines of a file\<close>

text \<open>
  The static variables of \<open>hal_util_grep_file\<close> and of \<open>hal_util_grep_file_next_line\<close>: each function has
  a buffer and a file name of its own, the flag \<open>_grep_can_reuse\<close> is shared.
\<close>

record grep_cache =
  grep_buf :: string
  grep_oldfilename :: string

record grep_state =
  grep_can_reuse :: bool
  grep_first :: grep_cache
  grep_next :: grep_cache

definition grep_init :: grep_state where
  "grep_init =
     \<lparr>grep_can_reuse = False, grep_first = \<lparr>grep_buf = [], grep_oldfilename = []\<rparr>,
      grep_next = \<lparr>grep_buf = [], grep_oldfilename = []\<rparr>\<rparr>"

definition hal_util_grep_discard_existing_data :: "grep_state \<Rightarrow> grep_state" where
  "hal_util_grep_discard_existing_data g = g\<lparr>grep_can_reuse := False\<rparr>"

definition grep_filename :: "string \<Rightarrow> string option \<Rightarrow> memory_error + string" where
  "grep_filename directory file =
     (case file of
        Some f \<Rightarrow> if 0 < length f then Inr (file_path directory f)
                  else (case strncpy HAL_PATH_MAX directory of Some s \<Rightarrow> Inr s | None \<Rightarrow> Inl Buffer_Overrun)
      | None \<Rightarrow> (case strncpy HAL_PATH_MAX directory of Some s \<Rightarrow> Inr s | None \<Rightarrow> Inl Buffer_Overrun))"

text \<open>The buffer holds the first 2047 bytes of the file, or what it held before.\<close>

definition grep_load :: "files \<Rightarrow> bool \<Rightarrow> string \<Rightarrow> bool \<Rightarrow> grep_cache \<Rightarrow> grep_cache option" where
  "grep_load fs can_reuse filename reuse c =
     (if can_reuse \<and> reuse \<and> strcmp (grep_oldfilename c) filename = 0 then Some c
      else (case fs filename of
              None \<Rightarrow> None
            | Some contents \<Rightarrow> Some \<lparr>grep_buf = take 2047 contents, grep_oldfilename = filename\<rparr>))"

definition in_line :: "char \<Rightarrow> bool" where
  "in_line c \<longleftrightarrow> c \<noteq> newline \<and> c \<noteq> nul"

definition line_of :: "string \<Rightarrow> string" where
  "line_of p = takeWhile in_line p"

definition after_line :: "string \<Rightarrow> string" where
  "after_line p = drop (Suc (length (line_of p))) p"

lemma after_line_shorter: "after_line p \<noteq> [] \<Longrightarrow> length (after_line p) < length p"
  by (auto simp: after_line_def)

text \<open>The line buffer has 256 bytes; longer lines are passed over.\<close>

definition line_matches :: "string \<Rightarrow> string \<Rightarrow> bool" where
  "line_matches linestart p \<longleftrightarrow>
     length (line_of p) < 256 \<and> strncmp_eq (line_of p) linestart (length linestart)"

function grep_lines :: "string \<Rightarrow> string \<Rightarrow> string option" where
  "grep_lines linestart p =
     (if line_matches linestart p then Some (drop (length linestart) (line_of p))
      else if after_line p \<noteq> [] then grep_lines linestart (after_line p)
      else None)"
  by pat_completeness auto
termination
  by (relation "measure (\<lambda>(l, p). length p)") (auto simp: after_line_shorter)

text \<open>The line after the matching one is copied into the same 256 bytes, whatever its length.\<close>

function grep_lines_next :: "string \<Rightarrow> string \<Rightarrow> memory_error + string option" where
  "grep_lines_next linestart p =
     (if line_matches linestart p
      then (if after_line p \<noteq> []
            then (if length (line_of (after_line p)) < 256 then Inr (Some (line_of (after_line p)))
                  else Inl Buffer_Overrun)
            else Inr None)
      else if after_line p \<noteq> [] then grep_lines_next linestart (after_line p)
      else Inr None)"
  by pat_completeness auto
termination
  by (relation "measure (\<lambda>(l, p). length p)") (auto simp: after_line_shorter)

declare grep_lines.simps [simp del] grep_lines_next.simps [simp del]

definition hal_util_grep_file ::
    "files \<Rightarrow> string \<Rightarrow> string option \<Rightarrow> string \<Rightarrow> bool \<Rightarrow> grep_state \<Rightarrow> memory_error + (string option \<times> grep_state)" where
  "hal_util_grep_file fs directory file linestart reuse g =
     err_bind (grep_filename directory file)
       (\<lambda>filename.
          case grep_load fs (grep_can_reuse g) filename reuse (grep_first g) of
            None \<Rightarrow> Inr (None, g)
          | Some c \<Rightarrow> Inr (grep_lines linestart (grep_buf c),
                           g\<lparr>grep_can_reuse := True, grep_first := c\<lparr>grep_oldfilename := filename\<rparr>\<rparr>))"

definition hal_util_grep_file_next_line ::
    "files \<Rightarrow> string \<Rightarrow> string option \<Rightarrow> string \<Rightarrow> bool \<Rightarrow> grep_state \<Rightarrow> memory_error + (string option \<times> grep_state)" where
  "hal_util_grep_file_next_line fs directory file linestart reuse g =
     err_bind (grep_filename directory file)
       (\<lambda>filename.
          case grep_load fs (grep_can_reuse g) filename reuse (grep_next g) of
            None \<Rightarrow> Inr (None, g)
          | Some c \<Rightarrow>
              err_bind (grep_lines_next linestart (grep_buf c))
                (\<lambda>r. Inr (r, g\<lparr>grep_can_reuse := True, grep_next := c\<lparr>grep_oldfilename := filename\<rparr>\<rparr>)))"

text \<open>\<open>g_strsplit_set (line, " \t:", 0)\<close> and the loop that counts the tokens that are not empty.\<close>

definition is_sep :: "char \<Rightarrow> bool" where
  "is_sep c \<longleftrightarrow> c = CHR '' '' \<or> c = tab \<or> c = CHR '':''"

fun split_set :: "string \<Rightarrow> string list" where
  "split_set [] = [[]]"
| "split_set (c # cs) =
     (if is_sep c then [] # split_set cs
      else (case split_set cs of p # ps \<Rightarrow> (c # p) # ps | [] \<Rightarrow> [[c]]))"

definition g_strsplit_set :: "string \<Rightarrow> string list" where
  "g_strsplit_set s = (if s = [] then [] else split_set s)"

fun nth_token :: "nat \<Rightarrow> nat \<Rightarrow> string list \<Rightarrow> string option" where
  "nth_token elem j [] = None"
| "nth_token elem j (t # tokens) =
     (if length t = 0 then nth_token elem j tokens
      else if j = elem then Some t else nth_token elem (Suc j) tokens)"

definition G_MAXUINT :: nat where
  "G_MAXUINT = 4294967295"

definition G_MAXINT :: int32 where
  "G_MAXINT = 2147483647"

definition g_strchug :: "string \<Rightarrow> string" where
  "g_strchug s = dropWhile g_ascii_isspace s"

definition string_elem :: "nat \<Rightarrow> string \<Rightarrow> string option" where
  "string_elem elem line =
     (if line = [] then None
      else if elem = G_MAXUINT then (if length line < 2 then None else Some (g_strchug (tl line)))
      else nth_token elem 0 (g_strsplit_set line))"

definition hal_util_grep_string_elem_from_file ::
    "files \<Rightarrow> string \<Rightarrow> string option \<Rightarrow> string \<Rightarrow> nat \<Rightarrow> bool \<Rightarrow> grep_state \<Rightarrow>
     memory_error + (string option \<times> grep_state)" where
  "hal_util_grep_string_elem_from_file fs directory file linestart elem reuse g =
     err_bind (hal_util_grep_file fs directory file linestart reuse g)
       (\<lambda>(line, g). Inr (Option.bind line (string_elem elem), g))"

definition hal_util_grep_int_elem_from_file ::
    "files \<Rightarrow> string \<Rightarrow> string option \<Rightarrow> string \<Rightarrow> nat \<Rightarrow> int \<Rightarrow> bool \<Rightarrow> grep_state \<Rightarrow>
     memory_error + (int32 \<times> grep_state)" where
  "hal_util_grep_int_elem_from_file fs directory file linestart elem base reuse g =
     err_bind (hal_util_grep_string_elem_from_file fs directory file linestart elem reuse g)
       (\<lambda>(strvalue, g).
          Inr (case strvalue of
                 None \<Rightarrow> G_MAXINT
               | Some s \<Rightarrow> (case strtol base s of (converted, v) \<Rightarrow>
                              if \<not> converted then G_MAXINT else of_int (clamp_long v)), g))"

definition hal_util_set_string_elem_from_file ::
    "glib \<Rightarrow> files \<Rightarrow> string \<Rightarrow> string \<Rightarrow> string option \<Rightarrow> string \<Rightarrow> nat \<Rightarrow> bool \<Rightarrow> grep_state \<Rightarrow> hal_device \<Rightarrow>
     memory_error + (bool outcome \<times> grep_state)" where
  "hal_util_set_string_elem_from_file G fs key directory file linestart elem reuse g d =
     err_bind (hal_util_grep_string_elem_from_file fs directory file linestart elem reuse g)
       (\<lambda>(strvalue, g).
          Inr (case strvalue of
                 None \<Rightarrow> (False, d, [])
               | Some s \<Rightarrow> hal_device_property_set_string G key (Some s) d, g))"

definition hal_util_set_int_elem_from_file ::
    "files \<Rightarrow> string \<Rightarrow> string \<Rightarrow> string option \<Rightarrow> string \<Rightarrow> nat \<Rightarrow> int \<Rightarrow> bool \<Rightarrow> grep_state \<Rightarrow> hal_device \<Rightarrow>
     memory_error + (bool outcome \<times> grep_state)" where
  "hal_util_set_int_elem_from_file fs key directory file linestart elem base reuse g d =
     err_bind (hal_util_grep_string_elem_from_file fs directory file linestart elem reuse g)
       (\<lambda>(strvalue, g).
          Inr (case strvalue of
                 None \<Rightarrow> (False, d, [])
               | Some s \<Rightarrow> (case strtol base s of (converted, v) \<Rightarrow>
                   if \<not> converted then (False, d, [])
                   else hal_device_property_set_int key (of_int (clamp_long v)) d), g))"

definition hal_util_set_bool_elem_from_file ::
    "files \<Rightarrow> string \<Rightarrow> string \<Rightarrow> string option \<Rightarrow> string \<Rightarrow> nat \<Rightarrow> string \<Rightarrow> bool \<Rightarrow> grep_state \<Rightarrow> hal_device \<Rightarrow>
     memory_error + (bool outcome \<times> grep_state)" where
  "hal_util_set_bool_elem_from_file fs key directory file linestart elem expected reuse g d =
     err_bind (hal_util_grep_file fs directory file linestart reuse g)
       (\<lambda>(line, g).
          Inr (case line of
                 None \<Rightarrow> (False, d, [])
               | Some l \<Rightarrow>
                   (case nth_token elem 0 (g_strsplit_set l) of
                      None \<Rightarrow> (False, d, [])
                    | Some t \<Rightarrow> (case hal_device_property_set_bool key (strcmp t expected = 0) d of
                                   (_, d', es) \<Rightarrow> (True, d', es))), g))"

section \<open>Callouts\<close>

text \<open>
  A callout in progress: the programs and the index of the next one. A step starts a program, whose
  end calls \<open>callout_terminated\<close> and with it the next step, or hands over to the callback.
\<close>

record callout =
  co_device :: nat
  co_programs :: "string list"
  co_extra_env :: "string list"
  co_next_program :: nat

datatype callout_action = RUN nat string "string list" | CALLBACK nat

definition callout_do_next :: "callout \<Rightarrow> callout_action \<times> callout option" where
  "callout_do_next c =
     (if co_next_program c = length (co_programs c) then (CALLBACK (co_device c), None)
      else (RUN (co_device c) (co_programs c ! co_next_program c) (co_extra_env c),
            Some (c\<lparr>co_next_program := Suc (co_next_program c)\<rparr>)))"

definition callout_terminated :: "callout \<Rightarrow> callout_action \<times> callout option" where
  "callout_terminated c = callout_do_next c"

definition hal_callout_device :: "nat \<Rightarrow> string list \<Rightarrow> string list \<Rightarrow> callout_action \<times> callout option" where
  "hal_callout_device dev programs extra_env =
     callout_do_next \<lparr>co_device = dev, co_programs = programs, co_extra_env = extra_env, co_next_program = 0\<rparr>"

definition callout_device_key ::
    "string \<Rightarrow> string \<Rightarrow> heap \<Rightarrow> nat \<Rightarrow> callout_action \<times> callout option" where
  "callout_device_key key env h dev =
     (case hal_device_property_dup_strlist_as_strv (h dev) key of
        None \<Rightarrow> (CALLBACK dev, None)
      | Some programs \<Rightarrow> hal_callout_device dev programs [env])"

definition hal_util_callout_device_add :: "heap \<Rightarrow> nat \<Rightarrow> callout_action \<times> callout option" where
  "hal_util_callout_device_add = callout_device_key ''info.callouts.add'' ''HALD_ACTION=add''"

definition hal_util_callout_device_remove :: "heap \<Rightarrow> nat \<Rightarrow> callout_action \<times> callout option" where
  "hal_util_callout_device_remove = callout_device_key ''info.callouts.remove'' ''HALD_ACTION=remove''"

definition hal_util_callout_device_preprobe :: "heap \<Rightarrow> nat \<Rightarrow> callout_action \<times> callout option" where
  "hal_util_callout_device_preprobe = callout_device_key ''info.callouts.preprobe'' ''HALD_ACTION=preprobe''"

section \<open>The table of mounts made by the daemon\<close>

fun mtab_loop :: "string \<Rightarrow> string list \<Rightarrow> bool" where
  "mtab_loop mount_point [] = False"
| "mtab_loop mount_point (l # lines) =
     (if l \<noteq> [] \<and> hd l = CHR ''#'' then mtab_loop mount_point lines
      else let elements = g_strsplit l tab 6
           in if length elements = 6 \<and> strcmp (elements ! 5) mount_point = 0 then True
              else mtab_loop mount_point lines)"

definition hal_util_is_mounted_by_hald :: "files \<Rightarrow> string \<Rightarrow> bool" where
  "hal_util_is_mounted_by_hald fs mount_point =
     (case fs ''/media/.hal-mtab'' of
        None \<Rightarrow> False
      | Some contents \<Rightarrow> mtab_loop mount_point (g_strsplit (cut_at_nul contents) newline 0))"

section \<open>Interface names\<close>

definition valid_name_character :: "char \<Rightarrow> bool" where
  "valid_name_character c \<longleftrightarrow> is_alnum c \<or> c = CHR ''_''"

definition valid_initial_name_character :: "char \<Rightarrow> bool" where
  "valid_initial_name_character c \<longleftrightarrow>
     valid_name_character c \<and> \<not> (48 \<le> (of_char c :: nat) \<and> (of_char c :: nat) \<le> 57)"

fun interface_name_loop :: "bool \<Rightarrow> string \<Rightarrow> bool" where
  "interface_name_loop dot [] = dot"
| "interface_name_loop dot [c] = (c \<noteq> CHR ''.'' \<and> valid_name_character c \<and> dot)"
| "interface_name_loop dot (c # b # name) =
     (if c = CHR ''.'' then (if \<not> valid_initial_name_character b then False else interface_name_loop True name)
      else if \<not> valid_name_character c then False
      else interface_name_loop dot (b # name))"

definition is_valid_interface_name :: "string \<Rightarrow> bool" where
  "is_valid_interface_name name =
     (case name of
        [] \<Rightarrow> False
      | c # rest \<Rightarrow> if c = CHR ''.'' then False
                    else if \<not> valid_initial_name_character c then False
                    else interface_name_loop False rest)"

section \<open>Valid UTF-8\<close>

fun valid_utf8_loop :: "glib \<Rightarrow> nat \<Rightarrow> string \<Rightarrow> nat \<Rightarrow> (string \<times> nat) option" where
  "valid_utf8_loop G 0 s n = None"
| "valid_utf8_loop G (Suc fuel) s n =
     (case g_utf8_validate G s of
        None \<Rightarrow> Some (s, n)
      | Some i \<Rightarrow> valid_utf8_loop G fuel (s[i := question_mark]) (Suc n))"

definition hal_util_strdup_valid_utf8 :: "glib \<Rightarrow> string option \<Rightarrow> string option" where
  "hal_util_strdup_valid_utf8 G str =
     Option.bind str
       (\<lambda>s. case valid_utf8_loop G (Suc (length s)) s 0 of
              None \<Rightarrow> None
            | Some (newstr, n) \<Rightarrow> if length newstr = n then None else Some newstr)"

end
