(* ===== verification/Hal_Hotplug.thy ===== *)
theory Hal_Hotplug
  imports Hal_Util Hal_Rules
begin

text \<open>
  Hotplug events on Linux: the queue of \<open>hald/linux/hotplug.c\<close>, the lookup of a known parent device in
  \<open>hald/linux/osspec.c\<close>, and the events synthesised for a device by \<open>device.c\<close>, \<open>blockdev.c\<close>, \<open>acpi.c\<close>,
  \<open>apm.c\<close> and \<open>pmu.c\<close>.

  Events are heap objects: the queue and the list of events in progress hold their addresses, and the
  back ends hold them as \<open>end_token\<close>. Ending an event frees it; reading or freeing it afterwards is the
  error \<open>Use_After_Free\<close>. The address of a freed event is not used again in the model.

  What a back end does when it is asked to begin an event (probing, callouts, changes of the device
  list) is a parameter: it changes the world and calls back into the queue, as a list of
  \<open>backend_op\<close> in the order of the calls. These are the calls the back ends make: they end an event,
  they enqueue a new event, and they put an event they began back to the front of the queue behind a
  new event. Whatever they do later, when a helper process has ended, is a step of its own.
\<close>

section \<open>Events\<close>

datatype hotplug_action =
    HOTPLUG_ACTION_ADD | HOTPLUG_ACTION_REMOVE | HOTPLUG_ACTION_ONLINE | HOTPLUG_ACTION_OFFLINE
  | HOTPLUG_ACTION_CHANGE | HOTPLUG_ACTION_MOVE

datatype sysfs_kind = SYSFS | SYSFS_DEVICE | SYSFS_BLOCK

record sysfs_data =
  subsystem :: string
  sysfs_path :: string
  sysfs_path_old :: string
  device_file :: string
  seqnum :: uint64
  net_ifindex :: int32
  is_dm_device :: bool
  id_vendor :: string
  id_model :: string
  id_revision :: string
  id_serial :: string
  fsusage :: string
  fstype :: string
  fsversion :: string
  fslabel :: string
  fsuuid :: string

text \<open>The type of an event and the member of the union it selects.\<close>

datatype hotplug_data =
    Sysfs sysfs_kind sysfs_data
  | Acpi int32 string
  | Apm int32 string
  | Pmu int32 string
  | Unknown_Type int32

record hotplug_event =
  he_action :: hotplug_action
  he_data :: hotplug_data
  he_reposted :: bool

text \<open>\<open>g_slice_new0\<close>: every byte is zero.\<close>

definition zero_sysfs :: sysfs_data where
  "zero_sysfs =
     \<lparr>subsystem = [], sysfs_path = [], sysfs_path_old = [], device_file = [], seqnum = 0, net_ifindex = 0,
      is_dm_device = False, id_vendor = [], id_model = [], id_revision = [], id_serial = [], fsusage = [],
      fstype = [], fsversion = [], fslabel = [], fsuuid = []\<rparr>"

definition HAL_NAME_MAX :: nat where
  "HAL_NAME_MAX = 256"

text \<open>\<open>g_strlcpy\<close>; a \<open>NULL\<close> source leaves the zeroed destination alone.\<close>

definition strlcpy :: "nat \<Rightarrow> string option \<Rightarrow> string" where
  "strlcpy n s = (case s of Some t \<Rightarrow> take (n - 1) t | None \<Rightarrow> [])"

text \<open>
  The comparison of events reads the \<open>sysfs\<close> member of the union whatever the type. In an event of
  \<open>acpi.c\<close>, \<open>apm.c\<close> or \<open>pmu.c\<close> the bytes at the offset of \<open>sysfs_path\<close> (256) are those of the path from
  its byte 252 on (an \<open>int\<close> of 4 bytes comes before it), and everything behind the 516 bytes of that
  member is zero: the old path, the sequence number and the flag.
\<close>

definition overlay_path :: "string \<Rightarrow> string" where
  "overlay_path path = drop (HAL_NAME_MAX - 4) path"

fun ev_path :: "hotplug_data \<Rightarrow> string" where
  "ev_path (Sysfs k s) = sysfs_path s"
| "ev_path (Acpi t p) = overlay_path p"
| "ev_path (Apm t p) = overlay_path p"
| "ev_path (Pmu t p) = overlay_path p"
| "ev_path (Unknown_Type t) = []"

fun ev_path_old :: "hotplug_data \<Rightarrow> string" where
  "ev_path_old (Sysfs k s) = sysfs_path_old s"
| "ev_path_old _ = []"

fun ev_seqnum :: "hotplug_data \<Rightarrow> uint64" where
  "ev_seqnum (Sysfs k s) = seqnum s"
| "ev_seqnum _ = 0"

fun ev_is_dm :: "hotplug_data \<Rightarrow> bool" where
  "ev_is_dm (Sysfs k s) = is_dm_device s"
| "ev_is_dm _ = False"

fun ev_is_block :: "hotplug_data \<Rightarrow> bool" where
  "ev_is_block (Sysfs k s) = (k = SYSFS_BLOCK)"
| "ev_is_block _ = False"

fun ev_is_sysfs :: "hotplug_data \<Rightarrow> bool" where
  "ev_is_sysfs (Sysfs k s) = True"
| "ev_is_sysfs _ = False"

section \<open>Dependencies between events\<close>

text \<open>A byte of a path buffer; the terminating NUL is the last one that is looked at.\<close>

definition byte_at :: "string \<Rightarrow> nat \<Rightarrow> char" where
  "byte_at s i = (if i < length s then s ! i else nul)"

function compare_sysfspath_loop :: "string \<Rightarrow> string \<Rightarrow> nat \<Rightarrow> bool" where
  "compare_sysfspath_loop running waiting i =
     (if i < HAL_PATH_MAX
      then (if byte_at running i = nul \<and> byte_at waiting i = nul then True
            else if byte_at running i = nul \<and> byte_at waiting i = slash then True
            else if byte_at running i = slash \<and> byte_at waiting i = nul then True
            else if byte_at running i \<noteq> byte_at waiting i then False
            else compare_sysfspath_loop running waiting (Suc i))
      else False)"
  by pat_completeness auto
termination
  by (relation "measure (\<lambda>(r, w, i). HAL_PATH_MAX - i)") auto

declare compare_sysfspath_loop.simps [simp del]

definition compare_sysfspath :: "string \<Rightarrow> string \<Rightarrow> bool" where
  "compare_sysfspath running waiting = compare_sysfspath_loop running waiting 0"

text \<open>Whether the event \<open>l\<close> depends on the event \<open>r\<close>.\<close>

definition compare_event :: "hotplug_data \<Rightarrow> hotplug_data \<Rightarrow> bool" where
  "compare_event l r =
     (if ev_path_old l \<noteq> [] \<and> strcmp (ev_path_old r) (ev_path_old l) = 0 then True
      else compare_sysfspath (ev_path r) (ev_path l))"

fun compare_events_loop ::
    "hotplug_data \<Rightarrow> (nat \<Rightarrow> hotplug_event option) \<Rightarrow> nat list \<Rightarrow> memory_error + bool" where
  "compare_events_loop e E [] = Inr False"
| "compare_events_loop e E (lp # events) =
     (case E lp of
        None \<Rightarrow> Inl Use_After_Free
      | Some loop_event \<Rightarrow>
          if ev_seqnum (he_data loop_event) \<ge> ev_seqnum e then Inr False
          else if compare_event e (he_data loop_event) then Inr True
          else if ev_is_dm e \<and> ev_is_block (he_data loop_event) \<and> \<not> ev_is_dm (he_data loop_event) then Inr True
          else compare_events_loop e E events)"

definition compare_events ::
    "hotplug_data \<Rightarrow> (nat \<Rightarrow> hotplug_event option) \<Rightarrow> nat list \<Rightarrow> memory_error + bool" where
  "compare_events e E events = (if ev_is_sysfs e then compare_events_loop e E events else Inr False)"

section \<open>The state\<close>

record hotplug =
  hp_events :: "nat \<Rightarrow> hotplug_event option"
  hp_next :: nat
  hotplug_event_queue :: "nat list option" \<comment> \<open>\<open>NULL\<close> until the first event\<close>
  hotplug_event_queue_restart :: bool
  hotplug_events_in_progress :: "nat list"
  processing :: bool
  hp_world :: world
  hp_now_empty :: nat \<comment> \<open>calls of \<open>hotplug_queue_now_empty\<close>\<close>

definition hotplug_init :: "world \<Rightarrow> hotplug" where
  "hotplug_init w =
     \<lparr>hp_events = (\<lambda>_. None), hp_next = 0, hotplug_event_queue = None, hotplug_event_queue_restart = False,
      hotplug_events_in_progress = [], processing = False, hp_world = w, hp_now_empty = 0\<rparr>"

definition queued :: "hotplug \<Rightarrow> nat list" where
  "queued s = (case hotplug_event_queue s of None \<Rightarrow> [] | Some q \<Rightarrow> q)"

definition hp_alloc :: "hotplug_event \<Rightarrow> hotplug \<Rightarrow> nat \<times> hotplug" where
  "hp_alloc e s = (hp_next s, s\<lparr>hp_events := (hp_events s)(hp_next s \<mapsto> e), hp_next := Suc (hp_next s)\<rparr>)"

definition hotplug_event_end :: "nat \<Rightarrow> hotplug \<Rightarrow> memory_error + hotplug" where
  "hotplug_event_end end_token s =
     (case hp_events s end_token of
        None \<Rightarrow> Inl Use_After_Free
      | Some _ \<Rightarrow>
          Inr (s\<lparr>hotplug_events_in_progress := remove1 end_token (hotplug_events_in_progress s),
                 hp_events := (hp_events s)(end_token := None),
                 hotplug_event_queue_restart := True\<rparr>))"

definition hotplug_event_reposted :: "nat \<Rightarrow> hotplug \<Rightarrow> memory_error + hotplug" where
  "hotplug_event_reposted end_token s =
     (case hp_events s end_token of
        None \<Rightarrow> Inl Use_After_Free
      | Some e \<Rightarrow>
          Inr (s\<lparr>hp_events := (hp_events s)(end_token \<mapsto> e\<lparr>he_reposted := True\<rparr>),
                 hotplug_events_in_progress := remove1 end_token (hotplug_events_in_progress s)\<rparr>))"

definition hotplug_event_enqueue :: "nat \<Rightarrow> hotplug \<Rightarrow> hotplug" where
  "hotplug_event_enqueue p s = s\<lparr>hotplug_event_queue := Some (queued s @ [p])\<rparr>"

definition hotplug_event_enqueue_at_front :: "nat \<Rightarrow> hotplug \<Rightarrow> hotplug" where
  "hotplug_event_enqueue_at_front p s =
     s\<lparr>hotplug_event_queue := Some (p # queued s), hotplug_event_queue_restart := True\<rparr>"

text \<open>The calls a back end makes into the queue.\<close>

datatype backend_op =
    OP_END nat
  | OP_ENQUEUE hotplug_event
  | OP_REPOST nat hotplug_event

fun backend_do :: "backend_op \<Rightarrow> hotplug \<Rightarrow> memory_error + hotplug" where
  "backend_do (OP_END t) s = hotplug_event_end t s"
| "backend_do (OP_ENQUEUE e) s = (case hp_alloc e s of (p, s) \<Rightarrow> Inr (hotplug_event_enqueue p s))"
| "backend_do (OP_REPOST t e) s =
     (case hp_alloc e (hotplug_event_enqueue_at_front t s) of
        (p, s) \<Rightarrow> hotplug_event_reposted t (hotplug_event_enqueue_at_front p s))"

section \<open>Known parents\<close>

definition g_str_has_suffix :: "string \<Rightarrow> string \<Rightarrow> bool" where
  "g_str_has_suffix s t = (length t \<le> length s \<and> drop (length s - length t) s = t)"

text \<open>The symbolic links of the file system, cut to the 511 bytes of the buffer.\<close>

definition hal_util_readlink :: "(string \<Rightarrow> string option) \<Rightarrow> string \<Rightarrow> string option" where
  "hal_util_readlink links p = map_option (take (HAL_PATH_MAX - 1)) (links p)"

definition get_parent_device :: "string \<Rightarrow> string option" where
  "get_parent_device path =
     (case hal_util_path_ascend (Some path) of
        (True, Some p) \<Rightarrow>
          if g_str_has_suffix p ''/class'' \<or> g_str_has_suffix p ''/block'' \<or> g_str_has_suffix p ''/devices''
          then None else Some p
      | _ \<Rightarrow> None)"

lemma strrchr_less: "strrchr s c = Some i \<Longrightarrow> i < length s"
  by (induction s arbitrary: i) (auto split: option.splits if_splits)

lemma get_parent_device_shorter: "get_parent_device path = Some p \<Longrightarrow> length p < length path"
  by (auto simp: get_parent_device_def hal_util_path_ascend_def dest: strrchr_less
      split: option.splits if_splits)

definition sysfs_match :: "(string \<Rightarrow> nat) \<Rightarrow> world \<Rightarrow> string \<Rightarrow> memory_error + nat option" where
  "sysfs_match H w p =
     hal_device_store_match_key_value_string H (w_heap w) ''linux.sysfs_path'' p (w_gdl w)"

text \<open>One pass up the path, and the passes the retry counter allows.\<close>

function walk_up :: "(string \<Rightarrow> nat) \<Rightarrow> world \<Rightarrow> string \<Rightarrow> memory_error + (nat \<times> string) option" where
  "walk_up H w path =
     (case get_parent_device path of
        None \<Rightarrow> Inr None
      | Some p \<Rightarrow>
          (case sysfs_match H w p of
             Inl e \<Rightarrow> Inl e
           | Inr (Some dev) \<Rightarrow> Inr (Some (dev, p))
           | Inr None \<Rightarrow> walk_up H w p))"
  by pat_completeness auto
termination
  by (relation "measure (\<lambda>(H, w, path). length path)") (auto simp: get_parent_device_shorter)

declare walk_up.simps [simp del]

fun walk_up_retry ::
    "(string \<Rightarrow> nat) \<Rightarrow> world \<Rightarrow> string \<Rightarrow> nat \<Rightarrow> memory_error + (nat \<times> string) option" where
  "walk_up_retry H w path 0 = Inr None"
| "walk_up_retry H w path (Suc retry) =
     err_bind (walk_up H w path)
       (\<lambda>r. case r of Some x \<Rightarrow> Inr (Some x) | None \<Rightarrow> walk_up_retry H w path retry)"

text \<open>The second loop looks a path up until the retries are used before it ascends.\<close>

fun match_retry ::
    "(string \<Rightarrow> nat) \<Rightarrow> world \<Rightarrow> string \<Rightarrow> nat \<Rightarrow> memory_error + nat option" where
  "match_retry H w p 0 = Inr None"
| "match_retry H w p (Suc retry) =
     err_bind (sysfs_match H w p)
       (\<lambda>r. case r of Some x \<Rightarrow> Inr (Some x) | None \<Rightarrow> match_retry H w p retry)"

definition walk_link :: "(string \<Rightarrow> nat) \<Rightarrow> world \<Rightarrow> string \<Rightarrow> memory_error + (nat \<times> string) option" where
  "walk_link H w p =
     err_bind (match_retry H w p 5)
       (\<lambda>r. case r of Some dev \<Rightarrow> Inr (Some (dev, p)) | None \<Rightarrow> walk_up H w p)"

definition hal_util_find_known_parent ::
    "(string \<Rightarrow> nat) \<Rightarrow> (string \<Rightarrow> string option) \<Rightarrow> world \<Rightarrow> string \<Rightarrow> memory_error + (nat \<times> string) option" where
  "hal_util_find_known_parent H links w path =
     err_bind (walk_up_retry H w path 5)
       (\<lambda>r. case r of
              Some x \<Rightarrow> Inr (Some x)
            | None \<Rightarrow>
                (case hal_util_readlink links (snprintf HAL_PATH_MAX (path @ ''/device'')) of
                   None \<Rightarrow> Inr None
                 | Some target \<Rightarrow> err_bind (hal_util_get_normalized_path path target) (walk_link H w)))"

section \<open>Beginning an event\<close>

datatype backend_call =
    ADD_DEV string string string "nat option" "string option" \<comment> \<open>subsystem, path, device file, parent, its path\<close>
  | REMOVE_DEV string string
  | REFRESH_DEV string string nat
  | ADD_BLOCKDEV string string bool "nat option" \<comment> \<open>path, device file, partition, parent\<close>
  | REMOVE_BLOCKDEV string
  | REFRESH_BLOCKDEV string nat
  | ADD_ACPI string int32
  | REMOVE_ACPI string int32
  | ADD_APM string int32
  | REMOVE_APM string int32
  | ADD_PMU string int32
  | REMOVE_PMU string int32

text \<open>The surroundings: GLib, the hash function, the links and files of the file system, the back ends.\<close>

record hp_env =
  env_glib :: glib
  env_hash :: "string \<Rightarrow> nat"
  env_links :: "string \<Rightarrow> string option"
  env_files :: files
  env_begin :: "backend_call \<Rightarrow> nat \<Rightarrow> hotplug_event \<Rightarrow> world \<Rightarrow> memory_error + (backend_op list \<times> world)"
  env_rescan :: "int32 \<Rightarrow> nat \<Rightarrow> world \<Rightarrow> memory_error + (bool \<times> backend_op list \<times> world)"

definition hp_call :: "hp_env \<Rightarrow> nat \<Rightarrow> backend_call \<Rightarrow> hotplug \<Rightarrow> memory_error + hotplug" where
  "hp_call env t call s =
     (case hp_events s t of
        None \<Rightarrow> Inl Use_After_Free
      | Some e \<Rightarrow>
          err_bind (env_begin env call t e (hp_world s))
            (\<lambda>(ops, w). err_fold backend_do ops (s\<lparr>hp_world := w\<rparr>)))"

definition HOTPLUG_EVENT_SYSFS_DEVICE :: int32 where
  "HOTPLUG_EVENT_SYSFS_DEVICE = 2"

definition HOTPLUG_EVENT_SYSFS_BLOCK :: int32 where
  "HOTPLUG_EVENT_SYSFS_BLOCK = 3"

definition HOTPLUG_EVENT_ACPI :: int32 where
  "HOTPLUG_EVENT_ACPI = 4"

definition HOTPLUG_EVENT_APM :: int32 where
  "HOTPLUG_EVENT_APM = 5"

definition HOTPLUG_EVENT_PMU :: int32 where
  "HOTPLUG_EVENT_PMU = 6"

text \<open>
  What an event is about: the subsystem says block, the device the store knows says it, the link to
  the subsystem does, or else the path. Only an event of the general type is looked at.
\<close>

definition sysfs_type :: "hp_env \<Rightarrow> world \<Rightarrow> nat option \<Rightarrow> sysfs_kind \<Rightarrow> sysfs_data \<Rightarrow> sysfs_kind" where
  "sysfs_type env w d k sd =
     (let k = (if k = SYSFS \<and> strcmp (subsystem sd) ''block'' = 0 then SYSFS_BLOCK else k);
          k = (if k = SYSFS
               then (case d of
                       None \<Rightarrow> k
                     | Some dev \<Rightarrow>
                         let t = hal_device_property_get_int (w_heap w dev) ''linux.hotplug_type''
                         in if t = HOTPLUG_EVENT_SYSFS_DEVICE then SYSFS_DEVICE
                            else if t = HOTPLUG_EVENT_SYSFS_BLOCK then SYSFS_BLOCK else k)
               else k);
          k = (if k = SYSFS
               then (case hal_util_readlink (env_links env) (snprintf HAL_PATH_MAX (sysfs_path sd @ ''/subsystem'')) of
                       None \<Rightarrow> k
                     | Some target \<Rightarrow> if strstr target ''/block'' then SYSFS_BLOCK else SYSFS_DEVICE)
               else k)
      in if k = SYSFS
         then (if strncmp_eq (sysfs_path sd) ''/sys/block'' (length ''/sys/block'') then SYSFS_BLOCK else SYSFS_DEVICE)
         else k)"

definition find_event_device :: "hp_env \<Rightarrow> hotplug_action \<Rightarrow> sysfs_data \<Rightarrow> world \<Rightarrow> memory_error + nat option" where
  "find_event_device env a sd w =
     err_bind (sysfs_match (env_hash env) w (sysfs_path sd))
       (\<lambda>d. if d = None \<and> a = HOTPLUG_ACTION_MOVE then sysfs_match (env_hash env) w (sysfs_path_old sd)
            else Inr d)"

definition begin_device ::
    "hp_env \<Rightarrow> nat \<Rightarrow> hotplug_action \<Rightarrow> sysfs_data \<Rightarrow> nat option \<Rightarrow> hotplug \<Rightarrow> memory_error + hotplug" where
  "begin_device env t a sd d s =
     (if a = HOTPLUG_ACTION_ADD \<or> (d = None \<and> a = HOTPLUG_ACTION_CHANGE)
      then err_bind (hal_util_find_known_parent (env_hash env) (env_links env) (hp_world s) (sysfs_path sd))
             (\<lambda>r. hp_call env t (ADD_DEV (subsystem sd) (sysfs_path sd) (device_file sd)
                                   (map_option fst r) (map_option snd r)) s)
      else if a = HOTPLUG_ACTION_REMOVE then hp_call env t (REMOVE_DEV (subsystem sd) (sysfs_path sd)) s
      else (case d of
              Some dev \<Rightarrow>
                if a = HOTPLUG_ACTION_CHANGE
                then hp_call env t (REFRESH_DEV (subsystem sd) (sysfs_path sd) dev) s
                else if a = HOTPLUG_ACTION_MOVE
                then err_bind (world_call (env_hash env) dev
                        (hal_device_property_set_string (env_glib env) ''linux.sysfs_path'' (Some (sysfs_path sd)))
                        (hp_world s))
                       (\<lambda>w. hp_call env t (REFRESH_DEV (subsystem sd) (sysfs_path sd) dev) (s\<lparr>hp_world := w\<rparr>))
                else hotplug_event_end t s
            | None \<Rightarrow> hotplug_event_end t s))"

definition is_partition :: "hp_env \<Rightarrow> string \<Rightarrow> bool" where
  "is_partition env path =
     (if strstr path ''/fakevolume'' \<or> hal_util_get_int_from_file (env_files env) path ''range'' 0 \<noteq> None
      then False else True)"

definition begin_block ::
    "hp_env \<Rightarrow> nat \<Rightarrow> hotplug_action \<Rightarrow> sysfs_data \<Rightarrow> nat option \<Rightarrow> hotplug \<Rightarrow> memory_error + hotplug" where
  "begin_block env t a sd d s =
     (if a = HOTPLUG_ACTION_ADD \<or> (d = None \<and> a = HOTPLUG_ACTION_CHANGE)
      then err_bind (hal_util_find_known_parent (env_hash env) (env_links env) (hp_world s) (sysfs_path sd))
             (\<lambda>r. hp_call env t (ADD_BLOCKDEV (sysfs_path sd) (device_file sd) (is_partition env (sysfs_path sd))
                                   (map_option fst r)) s)
      else if a = HOTPLUG_ACTION_REMOVE then hp_call env t (REMOVE_BLOCKDEV (sysfs_path sd)) s
      else (case d of
              Some dev \<Rightarrow>
                if a = HOTPLUG_ACTION_CHANGE then hp_call env t (REFRESH_BLOCKDEV (sysfs_path sd) dev) s
                else hotplug_event_end t s
            | None \<Rightarrow> hotplug_event_end t s))"

definition hotplug_event_begin_sysfs ::
    "hp_env \<Rightarrow> nat \<Rightarrow> hotplug_event \<Rightarrow> sysfs_kind \<Rightarrow> sysfs_data \<Rightarrow> hotplug \<Rightarrow> memory_error + hotplug" where
  "hotplug_event_begin_sysfs env t e k sd s =
     err_bind (find_event_device env (he_action e) sd (hp_world s))
       (\<lambda>d. let k' = sysfs_type env (hp_world s) d k sd;
                s' = s\<lparr>hp_events := (hp_events s)(t \<mapsto> e\<lparr>he_data := Sysfs k' sd\<rparr>)\<rparr>
            in if k' = SYSFS_DEVICE then begin_device env t (he_action e) sd d s'
               else if k' = SYSFS_BLOCK then begin_block env t (he_action e) sd d s'
               else hotplug_event_end t s')"

text \<open>The power management events know two actions; for any other nobody ever ends the event.\<close>

definition hotplug_event_begin_acpi ::
    "hp_env \<Rightarrow> nat \<Rightarrow> hotplug_event \<Rightarrow> int32 \<Rightarrow> string \<Rightarrow> hotplug \<Rightarrow> memory_error + hotplug" where
  "hotplug_event_begin_acpi env t e ty path s =
     (if he_action e = HOTPLUG_ACTION_ADD then hp_call env t (ADD_ACPI path ty) s
      else if he_action e = HOTPLUG_ACTION_REMOVE then hp_call env t (REMOVE_ACPI path ty) s
      else Inr s)"

definition hotplug_event_begin_apm ::
    "hp_env \<Rightarrow> nat \<Rightarrow> hotplug_event \<Rightarrow> int32 \<Rightarrow> string \<Rightarrow> hotplug \<Rightarrow> memory_error + hotplug" where
  "hotplug_event_begin_apm env t e ty path s =
     (if he_action e = HOTPLUG_ACTION_ADD then hp_call env t (ADD_APM path ty) s
      else if he_action e = HOTPLUG_ACTION_REMOVE then hp_call env t (REMOVE_APM path ty) s
      else Inr s)"

definition hotplug_event_begin_pmu ::
    "hp_env \<Rightarrow> nat \<Rightarrow> hotplug_event \<Rightarrow> int32 \<Rightarrow> string \<Rightarrow> hotplug \<Rightarrow> memory_error + hotplug" where
  "hotplug_event_begin_pmu env t e ty path s =
     (if he_action e = HOTPLUG_ACTION_ADD then hp_call env t (ADD_PMU path ty) s
      else if he_action e = HOTPLUG_ACTION_REMOVE then hp_call env t (REMOVE_PMU path ty) s
      else Inr s)"

definition hotplug_event_begin :: "hp_env \<Rightarrow> nat \<Rightarrow> hotplug_event \<Rightarrow> hotplug \<Rightarrow> memory_error + hotplug" where
  "hotplug_event_begin env t e s =
     (case he_data e of
        Sysfs k sd \<Rightarrow> hotplug_event_begin_sysfs env t e k sd s
      | Acpi ty path \<Rightarrow> hotplug_event_begin_acpi env t e ty path s
      | Apm ty path \<Rightarrow> hotplug_event_begin_apm env t e ty path s
      | Pmu ty path \<Rightarrow> hotplug_event_begin_pmu env t e ty path s
      | Unknown_Type ty \<Rightarrow> hotplug_event_end t s)"

section \<open>Processing the queue\<close>

text \<open>
  The cursor \<open>lp\<close> is an index into the queue. Only \<open>hotplug_event_process_queue\<close> takes events out, and
  it does not run inside itself; a back end can only append at the tail, or put events in front, which
  sets the restart flag. So the node after \<open>lp2\<close>, the one before the event taken out, is the one at
  the same index again.
\<close>

definition delete_at :: "nat \<Rightarrow> 'a list \<Rightarrow> 'a list" where
  "delete_at i xs = take i xs @ drop (Suc i) xs"

definition event_held :: "hotplug_event \<Rightarrow> hotplug \<Rightarrow> memory_error + bool" where
  "event_held e s =
     err_bind (compare_events (he_data e) (hp_events s) (queued s))
       (\<lambda>q. if q then Inr True
            else compare_events (he_data e) (hp_events s) (hotplug_events_in_progress s))"

definition take_event :: "nat \<Rightarrow> nat \<Rightarrow> hotplug \<Rightarrow> hotplug" where
  "take_event lp t s =
     s\<lparr>hotplug_event_queue := Some (delete_at lp (queued s)),
       hotplug_events_in_progress := hotplug_events_in_progress s @ [t]\<rparr>"

fun process_loop :: "hp_env \<Rightarrow> nat \<Rightarrow> nat \<Rightarrow> hotplug \<Rightarrow> memory_error + hotplug" where
  "process_loop env 0 lp s = Inl Out_Of_Fuel"
| "process_loop env (Suc fuel) lp s =
     (if length (queued s) \<le> lp then Inr s
      else let t = queued s ! lp
           in (case hp_events s t of
                 None \<Rightarrow> Inl Use_After_Free
               | Some e \<Rightarrow>
                   err_bind (event_held e s)
                     (\<lambda>held.
                        if held then process_loop env fuel (Suc lp) s
                        else err_bind (hotplug_event_begin env t e (take_event lp t s))
                               (\<lambda>s'. if lp = 0 \<or> hotplug_event_queue_restart s'
                                     then process_loop env fuel 0 (s'\<lparr>hotplug_event_queue_restart := False\<rparr>)
                                     else process_loop env fuel lp s'))))"

definition hotplug_queue_now_empty :: "hotplug \<Rightarrow> hotplug" where
  "hotplug_queue_now_empty s = s\<lparr>hp_now_empty := Suc (hp_now_empty s)\<rparr>"

definition hotplug_event_process_queue :: "hp_env \<Rightarrow> nat \<Rightarrow> hotplug \<Rightarrow> memory_error + hotplug" where
  "hotplug_event_process_queue env fuel s =
     (if hotplug_event_queue s = None then Inr s
      else if processing s then Inr s
      else err_bind (process_loop env fuel 0 (s\<lparr>processing := True\<rparr>))
             (\<lambda>s. let s = s\<lparr>processing := False\<rparr>
                  in Inr (if queued s = [] \<and> hotplug_events_in_progress s = [] then hotplug_queue_now_empty s
                          else s)))"

section \<open>Rescanning and reprobing\<close>

definition known_hotplug_type :: "int32 \<Rightarrow> bool" where
  "known_hotplug_type t \<longleftrightarrow>
     t = HOTPLUG_EVENT_SYSFS_DEVICE \<or> t = HOTPLUG_EVENT_SYSFS_BLOCK \<or> t = HOTPLUG_EVENT_ACPI \<or>
     t = HOTPLUG_EVENT_APM \<or> t = HOTPLUG_EVENT_PMU"

definition hotplug_rescan_device :: "hp_env \<Rightarrow> nat \<Rightarrow> hotplug \<Rightarrow> memory_error + (bool \<times> hotplug)" where
  "hotplug_rescan_device env dev s =
     (let t = hal_device_property_get_int (w_heap (hp_world s) dev) ''linux.hotplug_type''
      in if known_hotplug_type t
         then err_bind (env_rescan env t dev (hp_world s))
                (\<lambda>(ret, ops, w). err_bind (err_fold backend_do ops (s\<lparr>hp_world := w\<rparr>)) (\<lambda>s. Inr (ret, s)))
         else Inr (False, s))"

definition dev_string :: "hal_device \<Rightarrow> string \<Rightarrow> nat \<Rightarrow> string" where
  "dev_string d key n = strlcpy n (hal_device_property_get_string d key)"

definition dev_generate_add_hotplug_event :: "hal_device \<Rightarrow> hotplug_event" where
  "dev_generate_add_hotplug_event d =
     \<lparr>he_action = HOTPLUG_ACTION_ADD,
      he_data = Sysfs SYSFS
        (zero_sysfs\<lparr>subsystem := dev_string d ''info.subsystem'' HAL_NAME_MAX,
                    sysfs_path := dev_string d ''linux.sysfs_path'' HAL_PATH_MAX,
                    device_file := dev_string d ''linux.device_file'' HAL_PATH_MAX,
                    net_ifindex := - 1\<rparr>),
      he_reposted = False\<rparr>"

definition dev_generate_remove_hotplug_event :: "hal_device \<Rightarrow> hotplug_event" where
  "dev_generate_remove_hotplug_event d =
     \<lparr>he_action = HOTPLUG_ACTION_REMOVE,
      he_data = Sysfs SYSFS
        (zero_sysfs\<lparr>subsystem := dev_string d ''linux.subsystem'' HAL_NAME_MAX,
                    sysfs_path := dev_string d ''linux.sysfs_path'' HAL_PATH_MAX,
                    net_ifindex := - 1\<rparr>),
      he_reposted = False\<rparr>"

definition blockdev_generate_add_hotplug_event :: "hal_device \<Rightarrow> hotplug_event" where
  "blockdev_generate_add_hotplug_event d =
     \<lparr>he_action = HOTPLUG_ACTION_ADD,
      he_data = Sysfs SYSFS
        (zero_sysfs\<lparr>subsystem := ''block'',
                    sysfs_path := dev_string d ''linux.sysfs_path'' HAL_PATH_MAX,
                    device_file := dev_string d ''block.device'' HAL_NAME_MAX,
                    id_vendor := dev_string d ''storage.vendor'' HAL_NAME_MAX,
                    id_model := dev_string d ''storage.model'' HAL_NAME_MAX,
                    id_serial := dev_string d ''storage.serial'' HAL_NAME_MAX,
                    id_revision := dev_string d ''storage.firmware_revision'' HAL_NAME_MAX,
                    net_ifindex := - 1\<rparr>),
      he_reposted = False\<rparr>"

definition blockdev_generate_remove_hotplug_event :: "hal_device \<Rightarrow> hotplug_event" where
  "blockdev_generate_remove_hotplug_event d =
     \<lparr>he_action = HOTPLUG_ACTION_REMOVE,
      he_data = Sysfs SYSFS
        (zero_sysfs\<lparr>subsystem := ''block'',
                    sysfs_path := dev_string d ''linux.sysfs_path'' HAL_PATH_MAX,
                    net_ifindex := - 1\<rparr>),
      he_reposted = False\<rparr>"

definition acpi_generate_hotplug_event :: "hotplug_action \<Rightarrow> hal_device \<Rightarrow> hotplug_event" where
  "acpi_generate_hotplug_event a d =
     \<lparr>he_action = a,
      he_data = Acpi (hal_device_property_get_int d ''linux.acpi_type'') (dev_string d ''linux.acpi_path'' HAL_PATH_MAX),
      he_reposted = False\<rparr>"

definition apm_generate_hotplug_event :: "hotplug_action \<Rightarrow> hal_device \<Rightarrow> hotplug_event" where
  "apm_generate_hotplug_event a d =
     \<lparr>he_action = a,
      he_data = Apm (hal_device_property_get_int d ''linux.apm_type'') (dev_string d ''linux.apm_path'' HAL_PATH_MAX),
      he_reposted = False\<rparr>"

definition pmu_generate_hotplug_event :: "hotplug_action \<Rightarrow> hal_device \<Rightarrow> hotplug_event" where
  "pmu_generate_hotplug_event a d =
     \<lparr>he_action = a,
      he_data = Pmu (hal_device_property_get_int d ''linux.pmu_type'') (dev_string d ''linux.pmu_path'' HAL_PATH_MAX),
      he_reposted = False\<rparr>"

definition remove_event :: "hal_device \<Rightarrow> hotplug_event option" where
  "remove_event d =
     (let t = hal_device_property_get_int d ''linux.hotplug_type''
      in if t = HOTPLUG_EVENT_SYSFS_DEVICE then Some (dev_generate_remove_hotplug_event d)
         else if t = HOTPLUG_EVENT_SYSFS_BLOCK then Some (blockdev_generate_remove_hotplug_event d)
         else if t = HOTPLUG_EVENT_ACPI then Some (acpi_generate_hotplug_event HOTPLUG_ACTION_REMOVE d)
         else if t = HOTPLUG_EVENT_APM then Some (apm_generate_hotplug_event HOTPLUG_ACTION_REMOVE d)
         else if t = HOTPLUG_EVENT_PMU then Some (pmu_generate_hotplug_event HOTPLUG_ACTION_REMOVE d)
         else None)"

definition add_event :: "hal_device \<Rightarrow> hotplug_event option" where
  "add_event d =
     (let t = hal_device_property_get_int d ''linux.hotplug_type''
      in if t = HOTPLUG_EVENT_SYSFS_DEVICE then Some (dev_generate_add_hotplug_event d)
         else if t = HOTPLUG_EVENT_SYSFS_BLOCK then Some (blockdev_generate_add_hotplug_event d)
         else if t = HOTPLUG_EVENT_ACPI then Some (acpi_generate_hotplug_event HOTPLUG_ACTION_ADD d)
         else if t = HOTPLUG_EVENT_APM then Some (apm_generate_hotplug_event HOTPLUG_ACTION_ADD d)
         else if t = HOTPLUG_EVENT_PMU then Some (pmu_generate_hotplug_event HOTPLUG_ACTION_ADD d)
         else None)"

definition enqueue_new :: "hotplug_event option \<Rightarrow> hotplug \<Rightarrow> hotplug" where
  "enqueue_new e s =
     (case e of None \<Rightarrow> s | Some e \<Rightarrow> (case hp_alloc e s of (p, s) \<Rightarrow> hotplug_event_enqueue p s))"

definition children :: "(string \<Rightarrow> nat) \<Rightarrow> nat \<Rightarrow> world \<Rightarrow> memory_error + nat list" where
  "children H dev w =
     hal_device_store_match_multiple_key_value_string H (w_heap w) ''info.parent''
       (hal_device_get_udi (w_heap w dev)) (w_gdl w)"

fun hotplug_reprobe_generate_remove_events ::
    "hp_env \<Rightarrow> nat \<Rightarrow> nat \<Rightarrow> hotplug \<Rightarrow> memory_error + hotplug" where
  "hotplug_reprobe_generate_remove_events env 0 dev s = Inl Out_Of_Fuel"
| "hotplug_reprobe_generate_remove_events env (Suc fuel) dev s =
     err_bind (children (env_hash env) dev (hp_world s)) (\<lambda>childs.
     err_bind (err_fold (hotplug_reprobe_generate_remove_events env fuel) childs s) (\<lambda>s.
     Inr (enqueue_new (remove_event (w_heap (hp_world s) dev)) s)))"

fun hotplug_reprobe_generate_add_events ::
    "hp_env \<Rightarrow> nat \<Rightarrow> nat \<Rightarrow> hotplug \<Rightarrow> memory_error + hotplug" where
  "hotplug_reprobe_generate_add_events env 0 dev s = Inl Out_Of_Fuel"
| "hotplug_reprobe_generate_add_events env (Suc fuel) dev s =
     err_bind (children (env_hash env) dev (hp_world s)) (\<lambda>childs.
     err_fold (hotplug_reprobe_generate_add_events env fuel) childs
       (enqueue_new (add_event (w_heap (hp_world s) dev)) s))"

definition hotplug_reprobe_tree ::
    "hp_env \<Rightarrow> nat \<Rightarrow> nat \<Rightarrow> nat \<Rightarrow> hotplug \<Rightarrow> memory_error + (bool \<times> hotplug)" where
  "hotplug_reprobe_tree env depth fuel dev s =
     err_bind (hotplug_reprobe_generate_remove_events env depth dev s) (\<lambda>s.
     err_bind (hotplug_reprobe_generate_add_events env depth dev s) (\<lambda>s.
     err_bind (hotplug_event_process_queue env fuel s) (\<lambda>s. Inr (False, s))))"

end
