(* ===== verification/Hal_Hotplug_Props.thy ===== *)
theory Hal_Hotplug_Props
  imports Hal_Hotplug
begin

text \<open>
  The hotplug queue: when one event depends on another, that the queue is processed to a state in
  which everything still waiting has something to wait for, that no event is lost or used after it was
  ended. That processing ends is in \<open>Hal_Hotplug_Live\<close>.
\<close>

section \<open>Comparing paths\<close>

definition c_text :: "string \<Rightarrow> bool" where
  "c_text s \<longleftrightarrow> nul \<notin> set s"

lemma byte_at_append_right: "byte_at (u @ s) (length u) = (case s of [] \<Rightarrow> nul | c # _ \<Rightarrow> c)"
  by (cases s) (auto simp: byte_at_def)

lemma byte_at_end [simp]: "byte_at u (length u) = nul"
  by (simp add: byte_at_def)

definition related_paths :: "string \<Rightarrow> string \<Rightarrow> bool" where
  "related_paths r w \<longleftrightarrow> r = w \<or> prefix (r @ [slash]) w \<or> prefix (w @ [slash]) r"

lemma slash_not_nul [simp]: "slash \<noteq> nul" "nul \<noteq> slash"
  by (auto simp: slash_def nul_def)

lemma related_paths_simps [simp]:
  "related_paths [] []"
  "related_paths [] (c # w) \<longleftrightarrow> c = slash"
  "related_paths (a # r) [] \<longleftrightarrow> a = slash"
  "related_paths (a # r) (c # w) \<longleftrightarrow> a = c \<and> related_paths r w"
  by (auto simp: related_paths_def)

lemma compare_sysfspath_loop_iff:
  assumes "c_text r" and "c_text w" and "length u + length r < HAL_PATH_MAX" and "length u + length w < HAL_PATH_MAX"
  shows "compare_sysfspath_loop (u @ r) (u @ w) (length u) \<longleftrightarrow> related_paths r w"
  using assms
proof (induction r arbitrary: u w)
  case Nil
  then show ?case
    by (subst compare_sysfspath_loop.simps) (auto simp: byte_at_append_right c_text_def split: list.splits)
next
  case (Cons a r)
  show ?case
  proof (cases w)
    case Nil
    then show ?thesis
      using Cons.prems by (subst compare_sysfspath_loop.simps) (auto simp: byte_at_append_right c_text_def)
  next
    case (Cons c w')
    have "compare_sysfspath_loop ((u @ [a]) @ r) ((u @ [a]) @ w') (length (u @ [a])) = related_paths r w'"
      using Cons.IH [of w' "u @ [a]"] Cons.prems Cons by (auto simp: c_text_def)
    then show ?thesis
      using Cons.prems Cons
      by (subst compare_sysfspath_loop.simps) (auto simp: byte_at_append_right c_text_def)
  qed
qed

text \<open>\<open>compare_sysfspath\<close> holds exactly when the two sysfs paths are equal or one of them is a
  directory above the other: a sibling whose name merely starts with the other's name does not count.
\<close>

theorem compare_sysfspath_iff:
  assumes "c_text r" and "c_text w" and "length r < HAL_PATH_MAX" and "length w < HAL_PATH_MAX"
  shows "compare_sysfspath r w \<longleftrightarrow> r = w \<or> prefix (r @ ''/'') w \<or> prefix (w @ ''/'') r"
  using compare_sysfspath_loop_iff [of r w "[]"] assms
  by (simp add: compare_sysfspath_def related_paths_def slash_def)

theorem compare_sysfspath_iff_witness:
  "compare_sysfspath ''/sys/block/sda'' ''/sys/block/sda/sda1'' \<and>
   \<not> compare_sysfspath ''/sys/block/sda'' ''/sys/block/sdaa''"
  using compare_sysfspath_iff [of "''/sys/block/sda''" "''/sys/block/sda/sda1''"]
    compare_sysfspath_iff [of "''/sys/block/sda''" "''/sys/block/sdaa''"]
  by (simp add: c_text_def nul_def HAL_PATH_MAX_def)

section \<open>Comparing events\<close>

text \<open>What \<open>compare_events\<close> is meant to decide: some earlier event of the list is one to wait for.\<close>

definition waits_for :: "hotplug_data \<Rightarrow> hotplug_data \<Rightarrow> bool" where
  "waits_for e f \<longleftrightarrow> compare_event e f \<or> (ev_is_dm e \<and> ev_is_block f \<and> \<not> ev_is_dm f)"

definition live :: "hotplug \<Rightarrow> nat list \<Rightarrow> bool" where
  "live s ps \<longleftrightarrow> (\<forall>p \<in> set ps. hp_events s p \<noteq> None)"

definition data_of :: "hotplug \<Rightarrow> nat \<Rightarrow> hotplug_data" where
  "data_of s p = he_data (the (hp_events s p))"

lemma compare_events_loop_unfold:
  assumes "hp_events s p \<noteq> None"
  shows "compare_events_loop e (hp_events s) (p # ps) =
           (if ev_seqnum (data_of s p) \<ge> ev_seqnum e then Inr False
            else if waits_for e (data_of s p) then Inr True
            else compare_events_loop e (hp_events s) ps)"
  using assms by (auto simp: waits_for_def data_of_def)

lemma compare_events_loop_defined: "live s ps \<Longrightarrow> \<exists>b. compare_events_loop e (hp_events s) ps = Inr b"
proof (induction ps)
  case (Cons p ps)
  then have "hp_events s p \<noteq> None" by (simp add: live_def)
  then show ?case using Cons compare_events_loop_unfold [of s p e ps] by (auto simp: live_def)
qed auto

lemma compare_events_defined: "live s ps \<Longrightarrow> \<exists>b. compare_events e (hp_events s) ps = Inr b"
  using compare_events_loop_defined by (auto simp: compare_events_def)

text \<open>The scan looks at a prefix of the list: the events before the first one that is not earlier.\<close>

lemma compare_events_loop_iff:
  assumes "live s ps"
  shows "compare_events_loop e (hp_events s) ps = Inr True \<longleftrightarrow>
           (\<exists>p \<in> set (takeWhile (\<lambda>p. ev_seqnum (data_of s p) < ev_seqnum e) ps). waits_for e (data_of s p))"
  using assms
proof (induction ps)
  case (Cons p ps)
  then have "hp_events s p \<noteq> None" by (simp add: live_def)
  then show ?case
    using Cons compare_events_loop_unfold [of s p e ps] by (auto simp: live_def not_less)
qed simp

text \<open>On a list of events sorted by sequence number \<open>compare_events\<close> decides whether the event waits
  for any event of the list with a smaller number: one whose path is the same, above or below, or
  that moved from the same old path, or, for a device mapper event, one of a block device that is not
  a device mapper device.
\<close>

theorem compare_events_sorted:
  assumes "live s ps" and "sorted (map (\<lambda>p. ev_seqnum (data_of s p)) ps)" and "ev_is_sysfs e"
  shows "compare_events e (hp_events s) ps =
           Inr (\<exists>p \<in> set ps. ev_seqnum (data_of s p) < ev_seqnum e \<and> waits_for e (data_of s p))"
proof -
  let ?less = "\<lambda>p. ev_seqnum (data_of s p) < ev_seqnum e"
  have "set (takeWhile ?less ps) = {p \<in> set ps. ?less p}"
    using assms(2)
  proof (induction ps)
    case (Cons p ps)
    then show ?case by (auto simp: not_less)
  qed simp
  then show ?thesis
    using compare_events_loop_iff [OF assms(1), of e] compare_events_loop_defined [OF assms(1), of e] assms(3)
    by (auto simp: compare_events_def)
qed

definition sysfs_event :: "string \<Rightarrow> uint64 \<Rightarrow> hotplug_event" where
  "sysfs_event path n =
     \<lparr>he_action = HOTPLUG_ACTION_ADD,
      he_data = Sysfs SYSFS (zero_sysfs\<lparr>subsystem := ''usb'', sysfs_path := path, seqnum := n\<rparr>),
      he_reposted = False\<rparr>"

definition empty_world :: world where
  "empty_world =
     \<lparr>w_heap = (\<lambda>_. \<lparr>udi = [], num_addons = 0, num_addons_ready = 0, props = []\<rparr>),
      w_gdl = hal_device_store_new, w_tdl = hal_device_store_new, w_next = 0, w_counter = 0, w_callouts = []\<rparr>"

definition two_events :: hotplug where
  "two_events = (hotplug_init empty_world)\<lparr>hp_events := [0 \<mapsto> sysfs_event ''/x'' 2, 1 \<mapsto> sysfs_event ''/y'' 3]\<rparr>"

theorem compare_events_sorted_witness:
  "compare_events (he_data (sysfs_event ''/x/z'' 4)) (hp_events two_events) [0, 1] =
     Inr (\<exists>p \<in> set [0, 1 :: nat]. ev_seqnum (data_of two_events p) < 4 \<and>
            waits_for (he_data (sysfs_event ''/x/z'' 4)) (data_of two_events p))"
  using compare_events_sorted [of two_events "[0, 1]" "he_data (sysfs_event ''/x/z'' 4)"]
  by (simp add: live_def two_events_def data_of_def sysfs_event_def)

text \<open>An event with the sequence number zero finds no earlier event: it is never held back.\<close>

lemma zero_seqnum_not_held:
  assumes "live s ps" and "ev_seqnum e = 0"
  shows "compare_events e (hp_events s) ps = Inr False"
proof (cases ps)
  case (Cons p qs)
  then have "hp_events s p \<noteq> None" using assms(1) by (simp add: live_def)
  then show ?thesis
    using Cons compare_events_loop_unfold [of s p e qs] assms(2) by (simp add: compare_events_def)
qed (simp add: compare_events_def)

section \<open>What back ends may do\<close>

text \<open>
  The contract of the back ends: asked to begin an event they end it or post it back at most once,
  and touch no other event.
\<close>

fun op_token :: "backend_op \<Rightarrow> nat option" where
  "op_token (OP_END t) = Some t"
| "op_token (OP_ENQUEUE e) = None"
| "op_token (OP_REPOST t e) = Some t"

fun own_ops :: "nat \<Rightarrow> backend_op list \<Rightarrow> bool" where
  "own_ops t [] = True"
| "own_ops t (opr # ops) =
     (if op_token opr = None then own_ops t ops
      else op_token opr = Some t \<and> list_all (\<lambda>x. op_token x = None) ops)"

definition backend_ok :: "hp_env \<Rightarrow> bool" where
  "backend_ok env \<longleftrightarrow> (\<forall>call t e w ops w'. env_begin env call t e w = Inr (ops, w') \<longrightarrow> own_ops t ops)"

text \<open>Every event is queued or in progress, once, and what is queued or in progress is an event.\<close>

definition hp_ok :: "hotplug \<Rightarrow> bool" where
  "hp_ok s \<longleftrightarrow>
     distinct (queued s @ hotplug_events_in_progress s) \<and>
     (\<forall>p. (hp_events s p \<noteq> None) = (p \<in> set (queued s) \<union> set (hotplug_events_in_progress s))) \<and>
     (\<forall>p. hp_next s \<le> p \<longrightarrow> hp_events s p = None)"

lemma hp_ok_init: "hp_ok (hotplug_init w)"
  by (simp add: hp_ok_def hotplug_init_def queued_def)

lemma hp_ok_live: "hp_ok s \<Longrightarrow> live s (queued s) \<and> live s (hotplug_events_in_progress s)"
  by (auto simp: hp_ok_def live_def)

lemma queued_simps [simp]:
  "queued (s\<lparr>hp_world := w\<rparr>) = queued s"
  "queued (s\<lparr>hp_events := E\<rparr>) = queued s"
  "queued (s\<lparr>processing := b\<rparr>) = queued s"
  "queued (s\<lparr>hotplug_event_queue_restart := b\<rparr>) = queued s"
  "queued (s\<lparr>hotplug_events_in_progress := ps\<rparr>) = queued s"
  "queued (s\<lparr>hp_next := n\<rparr>) = queued s"
  "queued (s\<lparr>hp_now_empty := n\<rparr>) = queued s"
  "queued (s\<lparr>hotplug_event_queue := Some q\<rparr>) = q"
  by (simp_all add: queued_def)

lemma hp_ok_cong [simp]:
  "hp_ok (s\<lparr>hp_world := w\<rparr>) = hp_ok s"
  "hp_ok (s\<lparr>processing := b\<rparr>) = hp_ok s"
  "hp_ok (s\<lparr>hotplug_event_queue_restart := b\<rparr>) = hp_ok s"
  "hp_ok (s\<lparr>hp_now_empty := n\<rparr>) = hp_ok s"
  by (simp_all add: hp_ok_def)

text \<open>The three operations, written out.\<close>

lemma do_end:
  "backend_do (OP_END t) s = Inr s' \<longleftrightarrow>
     hp_events s t \<noteq> None \<and>
     s' = s\<lparr>hotplug_events_in_progress := remove1 t (hotplug_events_in_progress s),
            hp_events := (hp_events s)(t := None), hotplug_event_queue_restart := True\<rparr>"
  by (auto simp: hotplug_event_end_def split: option.splits)

lemma do_enqueue:
  "backend_do (OP_ENQUEUE e) s = Inr s' \<longleftrightarrow>
     s' = s\<lparr>hp_events := (hp_events s)(hp_next s \<mapsto> e), hp_next := Suc (hp_next s),
            hotplug_event_queue := Some (queued s @ [hp_next s])\<rparr>"
  by (auto simp: hp_alloc_def hotplug_event_enqueue_def)

lemma do_repost:
  "backend_do (OP_REPOST t e) s = Inr s' \<longleftrightarrow>
     (\<exists>e'. ((hp_events s)(hp_next s \<mapsto> e)) t = Some e' \<and>
       s' = s\<lparr>hp_events := (hp_events s)(hp_next s \<mapsto> e, t \<mapsto> e'\<lparr>he_reposted := True\<rparr>), hp_next := Suc (hp_next s),
              hotplug_event_queue := Some (hp_next s # t # queued s), hotplug_event_queue_restart := True,
              hotplug_events_in_progress := remove1 t (hotplug_events_in_progress s)\<rparr>)"
  by (auto simp: hp_alloc_def hotplug_event_enqueue_at_front_def hotplug_event_reposted_def
      split: option.splits)

lemmas op_cases = do_end do_enqueue do_repost

declare backend_do.simps [simp del]

lemma fresh_event:
  assumes "hp_ok s"
  shows "hp_next s \<notin> set (queued s)" and "hp_next s \<notin> set (hotplug_events_in_progress s)"
proof -
  have "hp_events s (hp_next s) = None" using assms by (simp add: hp_ok_def)
  then show "hp_next s \<notin> set (queued s)" and "hp_next s \<notin> set (hotplug_events_in_progress s)"
    using assms by (metis UnCI hp_ok_def)+
qed

lemma backend_do_ok:
  assumes "backend_do opr s = Inr s'" and "hp_ok s"
    and "\<And>t. op_token opr = Some t \<Longrightarrow> t \<in> set (hotplug_events_in_progress s)"
  shows "hp_ok s' \<and> (op_token opr = None \<longrightarrow> hotplug_events_in_progress s' = hotplug_events_in_progress s)"
proof (cases opr)
  case (OP_END t)
  then show ?thesis using assms by (auto simp: do_end hp_ok_def)
next
  case (OP_ENQUEUE e)
  then show ?thesis
    using assms fresh_event [OF assms(2)] by (auto simp: do_enqueue hp_ok_def)
next
  case (OP_REPOST t e)
  then have t: "t \<in> set (hotplug_events_in_progress s)" using assms(3) by simp
  then have "t \<noteq> hp_next s" using fresh_event [OF assms(2)] by auto
  then show ?thesis
    using assms(1,2) fresh_event [OF assms(2)] t unfolding OP_REPOST
    by (auto simp: do_repost hp_ok_def)
qed

lemma enqueue_ops_ok:
  assumes "err_fold backend_do ops s = Inr s'" and "hp_ok s" and "list_all (\<lambda>x. op_token x = None) ops"
  shows "hp_ok s' \<and> hotplug_events_in_progress s' = hotplug_events_in_progress s"
  using assms
proof (induction ops arbitrary: s)
  case (Cons opr ops)
  from Cons.prems(1) obtain s1 where s1: "backend_do opr s = Inr s1" "err_fold backend_do ops s1 = Inr s'"
    by auto
  have "hp_ok s1 \<and> hotplug_events_in_progress s1 = hotplug_events_in_progress s"
    using backend_do_ok [OF s1(1) Cons.prems(2)] Cons.prems(3) by auto
  then show ?case using Cons.IH [OF s1(2)] Cons.prems(3) by simp
qed simp

lemma own_ops_ok:
  assumes "err_fold backend_do ops s = Inr s'" and "hp_ok s" and "own_ops t ops"
    and "t \<in> set (hotplug_events_in_progress s)"
  shows "hp_ok s'"
  using assms
proof (induction ops arbitrary: s)
  case (Cons opr ops)
  from Cons.prems(1) obtain s1 where s1: "backend_do opr s = Inr s1" "err_fold backend_do ops s1 = Inr s'"
    by auto
  have ok1: "hp_ok s1 \<and> (op_token opr = None \<longrightarrow> hotplug_events_in_progress s1 = hotplug_events_in_progress s)"
    using backend_do_ok [OF s1(1) Cons.prems(2)] Cons.prems(3,4) by (auto split: if_splits)
  show ?case
  proof (cases "op_token opr = None")
    case True
    then show ?thesis using Cons.IH [OF s1(2)] ok1 Cons.prems(3,4) by simp
  next
    case False
    then show ?thesis using enqueue_ops_ok [OF s1(2)] ok1 Cons.prems(3) by simp
  qed
qed simp

text \<open>Once set, the restart flag stays set; as long as it is not, events were only appended.\<close>

lemma restart_stays:
  "err_fold backend_do ops s = Inr s' \<Longrightarrow> hotplug_event_queue_restart s \<Longrightarrow> hotplug_event_queue_restart s'"
proof (induction ops arbitrary: s)
  case (Cons opr ops)
  from Cons.prems(1) obtain s1 where s1: "backend_do opr s = Inr s1" "err_fold backend_do ops s1 = Inr s'"
    by auto
  have "hotplug_event_queue_restart s1"
    using s1(1) Cons.prems(2) by (cases opr) (auto simp: op_cases)
  then show ?case using Cons.IH [OF s1(2)] by simp
qed simp

lemma only_appended:
  assumes "err_fold backend_do ops s = Inr s'" and "hp_ok s" and "\<not> hotplug_event_queue_restart s'"
  shows "\<exists>news. queued s' = queued s @ news \<and>
           hotplug_events_in_progress s' = hotplug_events_in_progress s \<and>
           (\<forall>p. hp_events s p \<noteq> None \<longrightarrow> hp_events s' p = hp_events s p)"
  using assms
proof (induction ops arbitrary: s)
  case (Cons opr ops)
  from Cons.prems(1) obtain s1 where s1: "backend_do opr s = Inr s1" "err_fold backend_do ops s1 = Inr s'"
    by auto
  have nr: "\<not> hotplug_event_queue_restart s1" using restart_stays [OF s1(2)] Cons.prems(3) by blast
  with s1(1) obtain e where opr: "opr = OP_ENQUEUE e"
    by (cases opr) (auto simp: op_cases)
  have ok1: "hp_ok s1" using backend_do_ok [OF s1(1) Cons.prems(2)] opr by simp
  have s1': "s1 = s\<lparr>hp_events := (hp_events s)(hp_next s \<mapsto> e), hp_next := Suc (hp_next s),
            hotplug_event_queue := Some (queued s @ [hp_next s])\<rparr>"
    using s1(1) unfolding opr do_enqueue .
  have "hp_events s (hp_next s) = None" using Cons.prems(2) by (simp add: hp_ok_def)
  then show ?case using Cons.IH [OF s1(2) ok1 Cons.prems(3)] unfolding s1' by (auto split: if_splits)
qed simp

section \<open>Beginning an event, as calls into the queue\<close>

definition begin_ops :: "hp_env \<Rightarrow> nat \<Rightarrow> hotplug_event \<Rightarrow> backend_op list \<Rightarrow> bool" where
  "begin_ops env t e ops \<longleftrightarrow>
     ops = [] \<or> ops = [OP_END t] \<or> (\<exists>call w w'. env_begin env call t e w = Inr (ops, w'))"

lemma begin_ops_own: "begin_ops env t e ops \<Longrightarrow> backend_ok env \<Longrightarrow> own_ops t ops"
  unfolding begin_ops_def backend_ok_def by (elim disjE) (simp, simp, blast)

text \<open>Beginning an event settles its kind and changes nothing else of it.\<close>

fun same_but_kind :: "hotplug_data \<Rightarrow> hotplug_data \<Rightarrow> bool" where
  "same_but_kind (Sysfs k sd) (Sysfs k' sd') = (sd = sd')"
| "same_but_kind d d' = (d = d')"

lemma same_but_kind_refl [simp]: "same_but_kind d d"
  by (cases d) auto

lemma same_but_kindD:
  "same_but_kind d d' \<Longrightarrow>
     ev_path d = ev_path d' \<and> ev_path_old d = ev_path_old d' \<and> ev_seqnum d = ev_seqnum d' \<and>
     ev_is_dm d = ev_is_dm d' \<and> ev_is_sysfs d = ev_is_sysfs d'"
  by (cases d; cases d') auto

definition set_event :: "nat \<Rightarrow> hotplug_event \<Rightarrow> world \<Rightarrow> hotplug \<Rightarrow> hotplug" where
  "set_event t e w s = s\<lparr>hp_events := (hp_events s)(t \<mapsto> e), hp_world := w\<rparr>"

definition begun :: "hp_env \<Rightarrow> nat \<Rightarrow> hotplug_event \<Rightarrow> hotplug \<Rightarrow> hotplug \<Rightarrow> bool" where
  "begun env t e s s' \<longleftrightarrow>
     (\<exists>ops w. begin_ops env t e ops \<and> err_fold backend_do ops (set_event t e w s) = Inr s')"

lemma begun_end: "hotplug_event_end t s = Inr s' \<Longrightarrow> hp_events s t = Some e \<Longrightarrow> begun env t e s s'"
  unfolding begun_def
  by (rule exI [of _ "[OP_END t]"], rule exI [of _ "hp_world s"])
    (simp add: begin_ops_def set_event_def backend_do.simps map_upd_triv)

lemma begun_call: "hp_call env t call s = Inr s' \<Longrightarrow> hp_events s t = Some e \<Longrightarrow> begun env t e s s'"
  by (auto simp: begun_def hp_call_def begin_ops_def set_event_def map_upd_triv
      split: prod.splits)

lemma begun_world: "begun env t e (s\<lparr>hp_world := w\<rparr>) s' = begun env t e s s'"
  by (simp add: begun_def set_event_def)

lemmas begun_intros = begun_end begun_call

lemma begun_device:
  "begin_device env t a sd d s = Inr s' \<Longrightarrow> hp_events s t = Some e \<Longrightarrow> begun env t e s s'"
  by (auto simp: begin_device_def split: if_splits option.splits intro: begun_intros
      dest!: begun_call [where s = "s\<lparr>hp_world := w\<rparr>" for w] simp: begun_world)

lemma begun_block:
  "begin_block env t a sd d s = Inr s' \<Longrightarrow> hp_events s t = Some e \<Longrightarrow> begun env t e s s'"
  by (auto simp: begin_block_def split: if_splits option.splits intro: begun_intros)

lemma begun_nothing: "hp_events s t = Some e \<Longrightarrow> begun env t e s s"
  unfolding begun_def
  by (rule exI [of _ "[]"], rule exI [of _ "hp_world s"])
    (simp add: begin_ops_def set_event_def map_upd_triv)

lemma begin_begun:
  assumes "hotplug_event_begin env t e s = Inr s'" and "hp_events s t = Some e"
  shows "\<exists>d. same_but_kind d (he_data e) \<and> begun env t (e\<lparr>he_data := d\<rparr>) s s'"
proof (cases "he_data e")
  case (Sysfs k sd)
  let ?e = "\<lambda>k'. e\<lparr>he_data := Sysfs k' sd\<rparr>"
  let ?s = "\<lambda>k'. s\<lparr>hp_events := (hp_events s)(t \<mapsto> ?e k')\<rparr>"
  from assms(1) Sysfs obtain d where
    "(let k' = sysfs_type env (hp_world s) d k sd
      in if k' = SYSFS_DEVICE then begin_device env t (he_action e) sd d (?s k')
         else if k' = SYSFS_BLOCK then begin_block env t (he_action e) sd d (?s k')
         else hotplug_event_end t (?s k')) = Inr s'"
    by (auto simp: hotplug_event_begin_def hotplug_event_begin_sysfs_def Let_def)
  moreover let ?k = "sysfs_type env (hp_world s) d k sd"
  have "hp_events (?s ?k) t = Some (?e ?k)" by simp
  note begun_device [OF _ this] begun_block [OF _ this] begun_end [OF _ this]
  ultimately have "begun env t (?e ?k) (?s ?k) s'" by (auto simp: Let_def split: if_splits)
  then have "begun env t (?e ?k) s s'" by (simp add: begun_def set_event_def)
  then show ?thesis using Sysfs by (intro exI [of _ "Sysfs ?k sd"]) simp
qed (use assms in \<open>auto intro!: exI [of _ "he_data e"] intro: begun_intros begun_nothing
    simp: hotplug_event_begin_def hotplug_event_begin_acpi_def hotplug_event_begin_apm_def
      hotplug_event_begin_pmu_def split: if_splits\<close>)

section \<open>Events that are held back\<close>

text \<open>The event at a position of the queue waits for an event before it or for one in progress.\<close>

definition held_at :: "hotplug \<Rightarrow> nat \<Rightarrow> bool" where
  "held_at s k \<longleftrightarrow>
     compare_events (data_of s (queued s ! k)) (hp_events s) (take k (queued s)) = Inr True \<or>
     compare_events (data_of s (queued s ! k)) (hp_events s) (hotplug_events_in_progress s) = Inr True"

lemma compare_events_loop_stops:
  assumes "live s xs" and "hp_events s p \<noteq> None" and "ev_seqnum e \<le> ev_seqnum (data_of s p)"
  shows "compare_events_loop e (hp_events s) (xs @ p # ys) = compare_events_loop e (hp_events s) xs"
  using assms
proof (induction xs)
  case (Cons x xs)
  then have "hp_events s x \<noteq> None" by (simp add: live_def)
  then show ?case using Cons by (simp add: compare_events_loop_unfold live_def del: compare_events_loop.simps)
qed (simp add: compare_events_loop_unfold del: compare_events_loop.simps(2))

lemma compare_events_own:
  assumes "live s ps" and "k < length ps"
  shows "compare_events (data_of s (ps ! k)) (hp_events s) ps =
           compare_events (data_of s (ps ! k)) (hp_events s) (take k ps)"
proof -
  have "ps = take k ps @ ps ! k # drop (Suc k) ps" by (rule id_take_nth_drop [OF assms(2)])
  moreover have "live s (take k ps)" and "hp_events s (ps ! k) \<noteq> None"
    using assms by (auto simp: live_def dest: in_set_takeD)
  ultimately show ?thesis
    using compare_events_loop_stops [of s "take k ps" "ps ! k" "data_of s (ps ! k)" "drop (Suc k) ps"]
    by (simp add: compare_events_def)
qed

lemma live_take: "live s ps \<Longrightarrow> live s (take k ps)"
  by (auto simp: live_def dest: in_set_takeD)

lemma event_held_iff:
  assumes "hp_ok s" and "k < length (queued s)" and "hp_events s (queued s ! k) = Some e"
  shows "event_held e s = Inr (held_at s k)"
proof -
  note live = hp_ok_live [OF assms(1), THEN conjunct1] hp_ok_live [OF assms(1), THEN conjunct2]
  have e: "he_data e = data_of s (queued s ! k)" using assms(3) by (simp add: data_of_def)
  obtain b where b: "compare_events (he_data e) (hp_events s) (take k (queued s)) = Inr b"
    using compare_events_defined [OF live_take [OF live(1)]] by blast
  obtain c where c: "compare_events (he_data e) (hp_events s) (hotplug_events_in_progress s) = Inr c"
    using compare_events_defined [OF live(2)] by blast
  show ?thesis
    using b c compare_events_own [OF live(1) assms(2)] by (simp add: event_held_def held_at_def e)
qed

lemma compare_events_loop_cong:
  "\<forall>p \<in> set ps. E p = E' p \<Longrightarrow> compare_events_loop e E ps = compare_events_loop e E' ps"
  by (induction ps) (auto split: option.splits)

lemma compare_events_loop_append: 
  "compare_events_loop e E ps = Inr True \<Longrightarrow> compare_events_loop e E (ps @ qs) = Inr True"
  by (induction ps) (auto split: option.splits if_splits)

lemma held_at_stable:
  assumes "held_at s k" and "k < length (queued s)" and "take (Suc k) (queued s') = take (Suc k) (queued s)"
    and "hotplug_events_in_progress s' = hotplug_events_in_progress s @ zs"
    and "\<forall>p \<in> set (take (Suc k) (queued s)) \<union> set (hotplug_events_in_progress s). hp_events s' p = hp_events s p"
  shows "held_at s' k"
proof -
  have k': "queued s' ! k = queued s ! k" and tk: "take k (queued s') = take k (queued s)"
    using assms(2,3)
    by (metis lessI nth_take, metis Suc_n_not_le_n le_cases min.absorb1 take_take)
  have sub: "set (take k (queued s)) \<subseteq> set (take (Suc k) (queued s))"
    by (rule set_take_subset_set_take) simp
  have "queued s ! k \<in> set (take (Suc k) (queued s))"
    using assms(2) by (simp add: take_Suc_conv_app_nth)
  then have d: "data_of s' (queued s' ! k) = data_of s (queued s ! k)"
    using assms(5) k' by (simp add: data_of_def)
  have q: "compare_events_loop e (hp_events s') (take k (queued s')) = compare_events_loop e (hp_events s) (take k (queued s))" for e
    unfolding tk by (rule compare_events_loop_cong) (use assms(5) sub in auto)
  have r: "compare_events_loop e (hp_events s') (hotplug_events_in_progress s) =
      compare_events_loop e (hp_events s) (hotplug_events_in_progress s)" for e
    by (rule compare_events_loop_cong) (use assms(5) in auto)
  show ?thesis
    using assms(1) unfolding held_at_def d compare_events_def
    by (auto simp: q assms(4) r intro: compare_events_loop_append split: if_splits)
qed

section \<open>Processing the queue\<close>

lemma fold_frame:
  "err_fold backend_do ops s = Inr s' \<Longrightarrow> hp_now_empty s' = hp_now_empty s \<and> processing s' = processing s"
proof (induction ops arbitrary: s)
  case (Cons opr ops)
  from Cons.prems obtain s1 where s1: "backend_do opr s = Inr s1" "err_fold backend_do ops s1 = Inr s'" by auto
  then have "hp_now_empty s1 = hp_now_empty s \<and> processing s1 = processing s"
    by (cases opr) (auto simp: op_cases)
  then show ?case using Cons.IH [OF s1(2)] by simp
qed simp

lemma take_event_ok:
  assumes "hp_ok s" and "lp < length (queued s)"
  shows "hp_ok (take_event lp (queued s ! lp) s)"
proof -
  let ?q = "queued s"
  have q: "?q = take lp ?q @ ?q ! lp # drop (Suc lp) ?q" by (rule id_take_nth_drop [OF assms(2)])
  then have "mset ?q = mset (take lp ?q) + {#?q ! lp#} + mset (drop (Suc lp) ?q)"
    by (metis mset.simps(2) mset_append union_mset_add_mset_left union_mset_add_mset_right add.right_neutral)
  then have m: "mset (delete_at lp ?q @ hotplug_events_in_progress s @ [?q ! lp]) =
      mset (?q @ hotplug_events_in_progress s)"
    by (simp add: delete_at_def)
  then have "set (delete_at lp ?q @ hotplug_events_in_progress s @ [?q ! lp]) = set (?q @ hotplug_events_in_progress s)"
    and "distinct (delete_at lp ?q @ hotplug_events_in_progress s @ [?q ! lp]) = distinct (?q @ hotplug_events_in_progress s)"
    using mset_eq_setD mset_eq_imp_distinct_iff by blast+
  then show ?thesis
    using assms(1) unfolding hp_ok_def take_event_def by simp
qed

lemma set_event_ok:
  "hp_ok s \<Longrightarrow> t \<in> set (hotplug_events_in_progress s) \<Longrightarrow> hp_ok (set_event t e w s)"
  by (auto simp: hp_ok_def set_event_def)

lemma begun_ok:
  assumes "begun env t e s s'" and "hp_ok s" and "backend_ok env" and "t \<in> set (hotplug_events_in_progress s)"
  shows "hp_ok s'" and "hp_now_empty s' = hp_now_empty s" and "processing s' = processing s"
proof -
  from assms(1) obtain ops w where ops: "begin_ops env t e ops"
      "err_fold backend_do ops (set_event t e w s) = Inr s'"
    by (auto simp: begun_def)
  have "hp_ok (set_event t e w s)" by (rule set_event_ok [OF assms(2,4)])
  then show "hp_ok s'"
    using own_ops_ok [OF ops(2)] begin_ops_own [OF ops(1) assms(3)] assms(4) by (simp add: set_event_def)
  show "hp_now_empty s' = hp_now_empty s" and "processing s' = processing s"
    using fold_frame [OF ops(2)] by (simp_all add: set_event_def)
qed

lemma begun_no_restart:
  assumes "begun env t e s s'" and "hp_ok s" and "t \<in> set (hotplug_events_in_progress s)"
    and "\<not> hotplug_event_queue_restart s'"
  shows "\<exists>news. queued s' = queued s @ news" and "hotplug_events_in_progress s' = hotplug_events_in_progress s"
    and "\<And>p. hp_events s p \<noteq> None \<Longrightarrow> p \<noteq> t \<Longrightarrow> hp_events s' p = hp_events s p"
proof -
  from assms(1) obtain ops w where ops: "err_fold backend_do ops (set_event t e w s) = Inr s'"
    by (auto simp: begun_def)
  have "hp_ok (set_event t e w s)" by (rule set_event_ok [OF assms(2,3)])
  from only_appended [OF ops this assms(4)]
  show "\<exists>news. queued s' = queued s @ news" and "hotplug_events_in_progress s' = hotplug_events_in_progress s"
    and "\<And>p. hp_events s p \<noteq> None \<Longrightarrow> p \<noteq> t \<Longrightarrow> hp_events s' p = hp_events s p"
    by (auto simp: set_event_def)
qed

text \<open>One round of the loop that begins an event and does not start over keeps what is held back.\<close>

lemma held_after_begin:
  assumes "begun env t e (take_event lp t s) s'" and "hp_ok s" and "lp < length (queued s)" and "t = queued s ! lp"
    and "\<not> hotplug_event_queue_restart s'" and "held_at s k" and "k < lp"
  shows "held_at s' k" and "lp \<le> length (queued s')"
proof -
  let ?s = "take_event lp t s"
  have ok: "hp_ok ?s" using take_event_ok [OF assms(2,3)] assms(4) by simp
  have t: "t \<in> set (hotplug_events_in_progress ?s)" by (simp add: take_event_def)
  note app = begun_no_restart [OF assms(1) ok t assms(5)]
  obtain news where news: "queued s' = delete_at lp (queued s) @ news" using app(1) by (auto simp: take_event_def)
  have len: "Suc k \<le> lp" using assms(7) by simp
  show "lp \<le> length (queued s')" using assms(3) by (simp add: news delete_at_def)
  have tk: "take (Suc k) (queued s') = take (Suc k) (queued s)"
    using assms(3) len by (simp add: news delete_at_def)
  have "distinct (take lp (queued s) @ t # drop (Suc lp) (queued s))"
    using assms(2,4) id_take_nth_drop [OF assms(3)] by (metis distinct_append hp_ok_def)
  then have "t \<notin> set (take lp (queued s))" by simp
  moreover have "t \<notin> set (hotplug_events_in_progress s)"
    using assms(2,4) nth_mem [OF assms(3)] by (auto simp: hp_ok_def)
  moreover have "set (take (Suc k) (queued s)) \<subseteq> set (take lp (queued s))"
    using len by (rule set_take_subset_set_take)
  ultimately have ne: "\<forall>p \<in> set (take (Suc k) (queued s)) \<union> set (hotplug_events_in_progress s). p \<noteq> t"
    by auto
  have live: "\<forall>p \<in> set (take (Suc k) (queued s)) \<union> set (hotplug_events_in_progress s). hp_events s p \<noteq> None"
    using assms(2) by (auto simp: hp_ok_def dest: in_set_takeD)
  have same: "\<forall>p \<in> set (take (Suc k) (queued s)) \<union> set (hotplug_events_in_progress s). hp_events s' p = hp_events s p"
    using app(3) ne live by (simp add: take_event_def)
  have "hotplug_events_in_progress s' = hotplug_events_in_progress s @ [t]"
    using app(2) by (simp add: take_event_def)
  from held_at_stable [OF assms(6) _ tk this same] show "held_at s' k" using assms(3,7) by simp
qed

lemma process_loop_settles:
  assumes "process_loop env fuel lp s = Inr s'" and "hp_ok s" and "backend_ok env"
    and "lp \<le> length (queued s)" and "\<forall>k < lp. held_at s k"
  shows "hp_ok s' \<and> (\<forall>k < length (queued s'). held_at s' k) \<and>
         hp_now_empty s' = hp_now_empty s \<and> processing s' = processing s"
  using assms
proof (induction fuel arbitrary: lp s)
  case (Suc fuel)
  show ?case
  proof (cases "length (queued s) \<le> lp")
    case True
    then show ?thesis using Suc.prems by auto
  next
    case False
    let ?t = "queued s ! lp"
    from False obtain e where e: "hp_events s ?t = Some e"
      using hp_ok_live [OF Suc.prems(2)] by (force simp: live_def)
    have held: "event_held e s = Inr (held_at s lp)"
      using event_held_iff [OF Suc.prems(2) _ e] False by simp
    show ?thesis
    proof (cases "held_at s lp")
      case True
      then have "process_loop env fuel (Suc lp) s = Inr s'" using Suc.prems(1) False e held by simp
      then show ?thesis using Suc.IH [of "Suc lp" s] Suc.prems False True by (auto simp: less_Suc_eq)
    next
      case not_held: False
      let ?s = "take_event lp ?t s"
      from Suc.prems(1) False e held not_held obtain s1 where
        b: "hotplug_event_begin env ?t e ?s = Inr s1" and
        rest: "(if lp = 0 \<or> hotplug_event_queue_restart s1
                then process_loop env fuel 0 (s1\<lparr>hotplug_event_queue_restart := False\<rparr>)
                else process_loop env fuel lp s1) = Inr s'"
        by (auto simp: Let_def)
      have ok: "hp_ok ?s" using take_event_ok [OF Suc.prems(2)] False by simp
      have "hp_events ?s ?t = Some e" using e by (simp add: take_event_def)
      from begin_begun [OF b this] obtain d where bg: "begun env ?t (e\<lparr>he_data := d\<rparr>) ?s s1" by blast
      have t: "?t \<in> set (hotplug_events_in_progress ?s)" by (simp add: take_event_def)
      note ok1 = begun_ok [OF bg ok Suc.prems(3) t]
      show ?thesis
      proof (cases "lp = 0 \<or> hotplug_event_queue_restart s1")
        case True
        then show ?thesis
          using Suc.IH [of 0 "s1\<lparr>hotplug_event_queue_restart := False\<rparr>"] rest ok1 Suc.prems(3)
          by (simp add: take_event_def)
      next
        case False
        then have "\<forall>k < lp. held_at s1 k" and "lp \<le> length (queued s1)"
          using held_after_begin [OF bg Suc.prems(2)] Suc.prems(4,5) \<open>\<not> length (queued s) \<le> lp\<close>
          by (auto simp: not_le)
        then show ?thesis
          using Suc.IH [of lp s1] rest ok1 False Suc.prems(3) by (simp add: take_event_def)
      qed
    qed
  qed
qed simp

text \<open>The first event of a queue waits for no queued event.\<close>

lemma head_waits_for_progress: "held_at s 0 \<Longrightarrow> hotplug_events_in_progress s \<noteq> []"
  by (auto simp: held_at_def compare_events_def split: if_splits)

lemma process_queue_result:
  assumes "hotplug_event_process_queue env fuel s = Inr s'" and "hp_ok s" and "backend_ok env"
    and "hotplug_event_queue s \<noteq> None" and "\<not> processing s"
  shows "hp_ok s'" and "\<forall>k < length (queued s'). held_at s' k"
    and "hotplug_events_in_progress s' = [] \<longrightarrow> queued s' = []"
    and "hp_now_empty s' = hp_now_empty s + (if hotplug_events_in_progress s' = [] then 1 else 0)"
proof -
  from assms(1,4,5) obtain s1 where s1: "process_loop env fuel 0 (s\<lparr>processing := True\<rparr>) = Inr s1"
    and s': "s' = (if queued s1 = [] \<and> hotplug_events_in_progress s1 = []
                   then hotplug_queue_now_empty (s1\<lparr>processing := False\<rparr>) else s1\<lparr>processing := False\<rparr>)"
    by (auto simp: hotplug_event_process_queue_def Let_def)
  have settled: "hp_ok s1 \<and> (\<forall>k < length (queued s1). held_at s1 k) \<and> hp_now_empty s1 = hp_now_empty s"
    using process_loop_settles [OF s1] assms(2,3) by simp
  have same: "queued s' = queued s1" "hotplug_events_in_progress s' = hotplug_events_in_progress s1"
      "hp_events s' = hp_events s1"
    by (auto simp: s' hotplug_queue_now_empty_def)
  show "hp_ok s'" using settled by (simp add: s' hotplug_queue_now_empty_def)
  show held: "\<forall>k < length (queued s'). held_at s' k"
    using settled by (simp add: held_at_def data_of_def same)
  show empty: "hotplug_events_in_progress s' = [] \<longrightarrow> queued s' = []"
    using held head_waits_for_progress [of s'] by auto
  then show "hp_now_empty s' = hp_now_empty s + (if hotplug_events_in_progress s' = [] then 1 else 0)"
    using settled same by (auto simp: s' hotplug_queue_now_empty_def)
qed

text \<open>When \<open>hotplug_event_process_queue\<close> returns, every event is queued or in progress and none twice,
  every queued event still waits for an event before it in the queue or for one in progress, and so
  the queue is empty unless something is in progress. That queue and list are both empty is
  reported, and only then.
\<close>

theorem process_queue_settles:
  assumes "hotplug_event_process_queue env fuel s = Inr s'" and "hp_ok s" and "backend_ok env"
    and "hotplug_event_queue s \<noteq> None" and "\<not> processing s"
  shows "hp_ok s' \<and> (\<forall>k < length (queued s'). held_at s' k) \<and>
    (hotplug_events_in_progress s' = [] \<longrightarrow> queued s' = []) \<and>
    hp_now_empty s' = hp_now_empty s + (if hotplug_events_in_progress s' = [] then 1 else 0)"
  using process_queue_result [OF assms] by auto

text \<open>Back ends that leave everything to helper processes: nothing happens before they end.\<close>

definition async_env :: hp_env where
  "async_env =
     \<lparr>env_glib = ascii_glib, env_hash = length, env_links = (\<lambda>_. None), env_files = (\<lambda>_. None),
      env_begin = (\<lambda>call t e w. Inr ([], w)), env_rescan = (\<lambda>t dev w. Inr (False, [], w))\<rparr>"

lemma async_ok: "backend_ok async_env"
  by (simp add: backend_ok_def async_env_def)

text \<open>Events as they arrive: each is enqueued and the queue is processed.\<close>

definition arrive :: "hp_env \<Rightarrow> nat \<Rightarrow> hotplug_event \<Rightarrow> hotplug \<Rightarrow> memory_error + hotplug" where
  "arrive env fuel e s = hotplug_event_process_queue env fuel (enqueue_new (Some e) s)"

definition one_event :: hotplug where
  "one_event = enqueue_new (Some (sysfs_event ''/x'' 2)) (hotplug_init empty_world)"

lemma one_event_ok: "hp_ok one_event" "hotplug_event_queue one_event \<noteq> None" "\<not> processing one_event"
  by (auto simp: one_event_def enqueue_new_def hp_alloc_def hotplug_event_enqueue_def hotplug_init_def
      hp_ok_def queued_def)

theorem process_queue_settles_witness:
  "\<exists>s'. hotplug_event_process_queue async_env 5 one_event = Inr s' \<and>
     hotplug_events_in_progress s' = [0] \<and> hp_ok s' \<and> hp_now_empty s' = hp_now_empty one_event"
proof -
  have "case hotplug_event_process_queue async_env 5 one_event of
          Inr s' \<Rightarrow> hotplug_events_in_progress s' = [0] | Inl _ \<Rightarrow> False"
    by code_simp
  then obtain s' where s': "hotplug_event_process_queue async_env 5 one_event = Inr s'"
    and p: "hotplug_events_in_progress s' = [0]"
    by (auto split: sum.splits)
  then show ?thesis
    using process_queue_settles [OF s' one_event_ok(1) async_ok one_event_ok(2,3)] by auto
qed

section \<open>Dependent events that run at the same time\<close>

text \<open>
  Four events arrive: a device, its child, the child of that, and an unrelated device with the highest
  number. The first and the last are begun. When the first ends, the child is begun and appended to
  the list of events in progress, behind the unrelated event.
\<close>

definition four_events :: "memory_error + hotplug" where
  "four_events =
     err_fold (arrive async_env 30)
       [sysfs_event ''/x'' 2, sysfs_event ''/x/y'' 3, sysfs_event ''/x/y/z'' 4, sysfs_event ''/b'' 5]
       (hotplug_init empty_world)"

definition first_ends :: "memory_error + hotplug" where
  "first_ends = err_bind four_events (\<lambda>s. err_bind (hotplug_event_end 0 s) (hotplug_event_process_queue async_env 30))"

text \<open>An event is begun although an event it depends on is in progress. The list of events in
  progress is in the order in which they were begun, not in that of their numbers, and the search for
  a dependency stops at the first event with a higher number. So the event for the device \<open>/x/y/z\<close>
  starts while the one for its parent \<open>/x/y\<close> is in progress.
\<close>

theorem dependent_events_overlap:
  "case first_ends of
     Inr s \<Rightarrow>
       hotplug_events_in_progress s = [3, 1, 2] \<and>
       map (\<lambda>p. map_option (\<lambda>e. ev_path (he_data e)) (hp_events s p)) [1, 2] = [Some ''/x/y'', Some ''/x/y/z''] \<and>
       compare_sysfspath ''/x/y'' ''/x/y/z''
   | Inl _ \<Rightarrow> False"
  by code_simp

end
