(* ===== verification/Hal_Hotplug_Live.thy ===== *)
theory Hal_Hotplug_Live
  imports Hal_Hotplug_Props Hal_Rules_Props
begin

text \<open>
  Termination of the queue processing, and the state of the queue whenever it has been processed,
  from the start of the daemon on.
\<close>

section \<open>No step needs fuel but the loop\<close>

lemma index_lookup_fuel [fuel_free, intro]: "no_fuel_error (index_lookup H v index)"
  by (simp add: index_lookup_def)

lemma scan_first_fuel [fuel_free, intro]: "no_fuel_error (scan_first h key v ds)"
  by (induction ds) (auto simp: match_string_def intro!: no_fuel_error_bind split: option.splits)

lemma sysfs_match_fuel [fuel_free, intro]: "no_fuel_error (sysfs_match H w p)"
  by (auto simp: sysfs_match_def hal_device_store_match_key_value_string_def intro!: no_fuel_error_bind
      index_lookup_fuel scan_first_fuel split: option.splits)

lemma walk_up_fuel [fuel_free, intro]: "no_fuel_error (walk_up H w path)"
proof (induction H w path rule: walk_up.induct)
  case (1 H w path)
  then show ?case
    using sysfs_match_fuel
    by (subst walk_up.simps) (auto simp: no_fuel_error_def split: option.splits sum.splits)
qed

lemma walk_up_retry_fuel [fuel_free, intro]: "no_fuel_error (walk_up_retry H w path n)"
  by (induction n) (auto intro!: no_fuel_error_bind walk_up_fuel split: option.splits)

lemma match_retry_fuel [fuel_free, intro]: "no_fuel_error (match_retry H w p n)"
  by (induction n) (auto intro!: no_fuel_error_bind sysfs_match_fuel split: option.splits)

lemma step_back_fuel [fuel_free, intro]: "no_fuel_error (step_back path p)"
  by (induction p) auto

lemma normalize_loop_fuel [fuel_free, intro]: "no_fuel_error (normalize_loop path1 p1 p2)"
proof (induction path1 p1 p2 rule: normalize_loop.induct)
  case (1 path1 p1 p2)
  then show ?case
    using step_back_fuel
    by (subst normalize_loop.simps) (auto simp: no_fuel_error_def split: sum.splits)
qed

lemma normalized_path_fuel [fuel_free, intro]: "no_fuel_error (hal_util_get_normalized_path a b)"
  by (auto simp: hal_util_get_normalized_path_def intro!: no_fuel_error_bind normalize_loop_fuel)

lemma known_parent_fuel [fuel_free, intro]: "no_fuel_error (hal_util_find_known_parent H links w path)"
  by (auto simp: hal_util_find_known_parent_def walk_link_def
      intro!: no_fuel_error_bind walk_up_retry_fuel normalized_path_fuel match_retry_fuel walk_up_fuel
      split: option.splits)

lemma backend_do_fuel [fuel_free, intro]: "no_fuel_error (backend_do opr s)"
  by (cases opr) (auto simp: backend_do.simps hotplug_event_end_def hotplug_event_reposted_def
      split: option.splits prod.splits)

definition backend_fuel :: "hp_env \<Rightarrow> bool" where
  "backend_fuel env \<longleftrightarrow> (\<forall>call t e w. no_fuel_error (env_begin env call t e w))"

lemma hp_call_fuel [fuel_free]: "backend_fuel env \<Longrightarrow> no_fuel_error (hp_call env t call s)"
  by (auto simp: hp_call_def backend_fuel_def intro!: no_fuel_error_bind no_fuel_error_fold backend_do_fuel
      split: option.splits)

lemma event_end_fuel [fuel_free, intro]: "no_fuel_error (hotplug_event_end t s)"
  by (simp add: hotplug_event_end_def split: option.splits)

lemma begin_fuel [fuel_free]:
  assumes "backend_fuel env"
  shows "no_fuel_error (hotplug_event_begin env t e s)"
proof -
  note [intro!] = no_fuel_error_bind hp_call_fuel [OF assms] known_parent_fuel world_call_fuel sysfs_match_fuel
  have "no_fuel_error (begin_device env t a sd d s)" for a sd d s
    by (auto simp: begin_device_def split: option.splits)
  moreover have "no_fuel_error (begin_block env t a sd d s)" for a sd d s
    by (auto simp: begin_block_def split: option.splits)
  ultimately show ?thesis
    by (auto simp: hotplug_event_begin_def hotplug_event_begin_sysfs_def find_event_device_def Let_def
        hotplug_event_begin_acpi_def hotplug_event_begin_apm_def hotplug_event_begin_pmu_def
        split: hotplug_data.splits)
qed

section \<open>Credit\<close>

text \<open>
  Each event has a credit, from its path and whether it was posted back before. Beginning an event
  costs at least one unit; what the back end adds to the queue is paid from the credit of the event it
  was asked to begin.
\<close>

definition event_credit :: "(string \<Rightarrow> bool \<Rightarrow> nat) \<Rightarrow> hotplug_event \<Rightarrow> nat" where
  "event_credit c e = c (ev_path (he_data e)) (he_reposted e)"

fun op_credit :: "(string \<Rightarrow> bool \<Rightarrow> nat) \<Rightarrow> hotplug_event \<Rightarrow> backend_op \<Rightarrow> nat" where
  "op_credit c e (OP_END t) = 0"
| "op_credit c e (OP_ENQUEUE f) = event_credit c f"
| "op_credit c e (OP_REPOST t f) = event_credit c f + c (ev_path (he_data e)) True"

definition ops_credit :: "(string \<Rightarrow> bool \<Rightarrow> nat) \<Rightarrow> hotplug_event \<Rightarrow> backend_op list \<Rightarrow> nat" where
  "ops_credit c e ops = sum_list (map (op_credit c e) ops)"

definition backend_pays :: "(string \<Rightarrow> bool \<Rightarrow> nat) \<Rightarrow> hp_env \<Rightarrow> bool" where
  "backend_pays c env \<longleftrightarrow>
     (\<forall>call t e w ops w'. env_begin env call t e w = Inr (ops, w') \<longrightarrow> ops_credit c e ops < event_credit c e)"

definition queue_credit :: "(string \<Rightarrow> bool \<Rightarrow> nat) \<Rightarrow> hotplug \<Rightarrow> nat" where
  "queue_credit c s = sum_list (map (\<lambda>p. event_credit c (the (hp_events s p))) (queued s))"

lemma queue_credit_cong:
  "\<forall>p \<in> set ps. E p = E' p \<Longrightarrow>
     sum_list (map (\<lambda>p. event_credit c (the (E p))) ps) = sum_list (map (\<lambda>p. event_credit c (the (E' p))) ps)"
  by (metis (mono_tags, lifting) map_cong)

lemma do_credit:
  assumes "backend_do opr s = Inr s'" and "hp_ok s"
    and "\<And>t. op_token opr = Some t \<Longrightarrow>
           t \<in> set (hotplug_events_in_progress s) \<and> (\<exists>f. hp_events s t = Some f \<and> ev_path (he_data f) = ev_path (he_data e))"
  shows "queue_credit c s' = queue_credit c s + op_credit c e opr"
proof (cases opr)
  case (OP_END t)
  then have "t \<notin> set (queued s)" using assms(2,3) by (auto simp: hp_ok_def)
  then show ?thesis
    using assms(1) unfolding OP_END do_end queue_credit_def
    by (auto intro!: arg_cong [where f = sum_list] map_cong)
next
  case (OP_ENQUEUE f)
  then show ?thesis
    using assms(1) fresh_event(1) [OF assms(2)] unfolding OP_ENQUEUE do_enqueue queue_credit_def
    by (auto intro!: arg_cong [where f = sum_list] map_cong)
next
  case (OP_REPOST t f)
  then obtain g where g: "t \<in> set (hotplug_events_in_progress s)" "hp_events s t = Some g"
      "ev_path (he_data g) = ev_path (he_data e)"
    using assms(3) by auto
  have t: "t \<notin> set (queued s)" "t \<noteq> hp_next s" using g(1) assms(2) fresh_event [OF assms(2)] by (auto simp: hp_ok_def)
  show ?thesis
    using assms(1) fresh_event(1) [OF assms(2)] t g unfolding OP_REPOST do_repost queue_credit_def
    by (auto simp: event_credit_def intro!: arg_cong [where f = sum_list] map_cong)
qed

lemma enqueue_ops_credit:
  assumes "err_fold backend_do ops s = Inr s'" and "hp_ok s" and "list_all (\<lambda>x. op_token x = None) ops"
  shows "queue_credit c s' = queue_credit c s + ops_credit c e ops"
  using assms
proof (induction ops arbitrary: s)
  case (Cons opr ops)
  from Cons.prems(1) obtain s1 where s1: "backend_do opr s = Inr s1" "err_fold backend_do ops s1 = Inr s'"
    by auto
  have "hp_ok s1" using backend_do_ok [OF s1(1) Cons.prems(2)] Cons.prems(3) by auto
  moreover have "queue_credit c s1 = queue_credit c s + op_credit c e opr"
    using do_credit [OF s1(1) Cons.prems(2)] Cons.prems(3) by auto
  ultimately show ?case using Cons.IH [OF s1(2)] Cons.prems(3) by (simp add: ops_credit_def)
qed (simp add: ops_credit_def)

lemma own_ops_credit:
  assumes "err_fold backend_do ops s = Inr s'" and "hp_ok s" and "own_ops t ops"
    and "t \<in> set (hotplug_events_in_progress s)" and "hp_events s t = Some e"
  shows "queue_credit c s' = queue_credit c s + ops_credit c e ops"
  using assms
proof (induction ops arbitrary: s)
  case (Cons opr ops)
  from Cons.prems(1) obtain s1 where s1: "backend_do opr s = Inr s1" "err_fold backend_do ops s1 = Inr s'"
    by auto
  have tok: "t' \<in> set (hotplug_events_in_progress s) \<and> (\<exists>f. hp_events s t' = Some f \<and> ev_path (he_data f) = ev_path (he_data e))"
    if "op_token opr = Some t'" for t'
    using that Cons.prems(3,4,5) by (auto split: if_splits)
  have ok1: "hp_ok s1 \<and> (op_token opr = None \<longrightarrow> hotplug_events_in_progress s1 = hotplug_events_in_progress s)"
    using backend_do_ok [OF s1(1) Cons.prems(2)] tok by auto
  have c1: "queue_credit c s1 = queue_credit c s + op_credit c e opr"
    using do_credit [OF s1(1) Cons.prems(2) tok] by blast
  show ?case
  proof (cases "op_token opr = None")
    case True
    then obtain f where opr: "opr = OP_ENQUEUE f" by (cases opr) auto
    have "hp_events s1 t = Some e"
      using s1(1) Cons.prems(4,5) fresh_event [OF Cons.prems(2)] unfolding opr do_enqueue by auto
    then show ?thesis
      using Cons.IH [OF s1(2)] ok1 True Cons.prems(3,4) c1 by (simp add: ops_credit_def)
  next
    case False
    then show ?thesis
      using enqueue_ops_credit [OF s1(2), of c e] ok1 Cons.prems(3) c1 by (simp add: ops_credit_def)
  qed
qed (simp add: ops_credit_def)

lemma begun_credit:
  assumes "begun env t e s s'" and "hp_ok s" and "backend_ok env" and "backend_pays c env" and "\<And>p b. 0 < c p b"
    and "t \<in> set (hotplug_events_in_progress s)"
  shows "queue_credit c s' < queue_credit c s + event_credit c e"
proof -
  from assms(1) obtain ops w where ops: "begin_ops env t e ops"
      "err_fold backend_do ops (set_event t e w s) = Inr s'"
    by (auto simp: begun_def)
  have ok: "hp_ok (set_event t e w s)" by (rule set_event_ok [OF assms(2,6)])
  have "t \<notin> set (queued s)" using assms(2,6) by (auto simp: hp_ok_def)
  then have "queue_credit c (set_event t e w s) = queue_credit c s"
    by (auto simp: queue_credit_def set_event_def intro!: arg_cong [where f = sum_list] map_cong)
  moreover have "ops_credit c e ops < event_credit c e"
    using ops(1) assms(4,5) unfolding begin_ops_def backend_pays_def
    by (elim disjE) (simp add: ops_credit_def event_credit_def, simp add: ops_credit_def event_credit_def, blast)
  ultimately show ?thesis
    using own_ops_credit [OF ops(2) ok begin_ops_own [OF ops(1) assms(3)], of e c] assms(6)
    by (simp add: set_event_def)
qed

lemma take_event_credit:
  assumes "lp < length (queued s)" and "hp_events s (queued s ! lp) = Some e"
  shows "queue_credit c s = queue_credit c (take_event lp (queued s ! lp) s) + event_credit c e"
proof -
  have "map f (queued s) = map f (take lp (queued s)) @ f (queued s ! lp) # map f (drop (Suc lp) (queued s))" for f :: "nat \<Rightarrow> nat"
    by (metis assms(1) id_take_nth_drop list.simps(9) map_append)
  then show ?thesis
    using assms(2) by (simp add: queue_credit_def take_event_def delete_at_def)
qed

section \<open>Termination\<close>

lemma process_loop_ends:
  assumes "hp_ok s" and "backend_ok env" and "backend_fuel env" and "backend_pays c env" and "\<And>p b. 0 < c p b"
  shows "\<exists>fuel. no_fuel_error (process_loop env fuel lp s)"
  using assms(1)
proof (induction "(queue_credit c s, length (queued s) - lp)" arbitrary: s lp
    rule: wf_induct [OF wf_lex_prod [OF wf_less_than wf_less_than]])
  case (1 s lp)
  note IH = 1(1) [rule_format, OF _ refl]
  show ?case
  proof (cases "length (queued s) \<le> lp")
    case True
    then show ?thesis by (intro exI [of _ 1]) simp
  next
    case False
    let ?t = "queued s ! lp" and ?s = "take_event lp (queued s ! lp) s"
    from False obtain e where e: "hp_events s ?t = Some e"
      using hp_ok_live [OF 1(2)] by (force simp: live_def)
    have held: "event_held e s = Inr (held_at s lp)" using event_held_iff [OF 1(2) _ e] False by simp
    show ?thesis
    proof (cases "held_at s lp")
      case True
      have "((queue_credit c s, length (queued s) - Suc lp), (queue_credit c s, length (queued s) - lp))
              \<in> less_than <*lex*> less_than" using False by auto
      then obtain fuel where "no_fuel_error (process_loop env fuel (Suc lp) s)" using IH 1(2) by blast
      then show ?thesis using False e held True by (intro exI [of _ "Suc fuel"]) (simp add: Let_def)
    next
      case not_held: False
      show ?thesis
      proof (cases "hotplug_event_begin env ?t e ?s")
        case (Inl err)
        then show ?thesis
          using begin_fuel [OF assms(3), of ?t e ?s] False e held not_held
          by (intro exI [of _ 1]) (simp add: Let_def)
      next
        case (Inr s1)
        have ev: "hp_events ?s ?t = Some e" using e by (simp add: take_event_def)
        from begin_begun [OF Inr ev] obtain d where
          d: "same_but_kind d (he_data e)" "begun env ?t (e\<lparr>he_data := d\<rparr>) ?s s1" by blast
        have ok: "hp_ok ?s" using take_event_ok [OF 1(2)] False by simp
        have t: "?t \<in> set (hotplug_events_in_progress ?s)" by (simp add: take_event_def)
        have ok1: "hp_ok s1" by (rule begun_ok(1) [OF d(2) ok assms(2) t])
        have "event_credit c (e\<lparr>he_data := d\<rparr>) = event_credit c e"
          using same_but_kindD [OF d(1)] by (simp add: event_credit_def)
        then have less: "queue_credit c s1 < queue_credit c s"
          using begun_credit [OF d(2) ok assms(2,4,5) t] take_event_credit [of lp s e c] False e by simp
        let ?r = "if lp = 0 \<or> hotplug_event_queue_restart s1 then 0 else lp"
        let ?s1 = "if lp = 0 \<or> hotplug_event_queue_restart s1 then s1\<lparr>hotplug_event_queue_restart := False\<rparr> else s1"
        have "((queue_credit c ?s1, length (queued ?s1) - ?r), (queue_credit c s, length (queued s) - lp))
                \<in> less_than <*lex*> less_than" using less by (simp add: queue_credit_def)
        moreover have "hp_ok ?s1" using ok1 by simp
        ultimately obtain fuel where "no_fuel_error (process_loop env fuel ?r ?s1)" using IH by blast
        then show ?thesis
          using False e held not_held Inr
          by (intro exI [of _ "Suc fuel"]) (auto simp: Let_def split: if_splits)
      qed
    qed
  qed
qed

lemma process_loop_mono: "fuel_le (process_loop env fuel lp s) (process_loop env (fuel + n) lp s)"
proof (induction fuel arbitrary: lp s)
  case (Suc fuel)
  show ?case
    unfolding add_Suc process_loop.simps Let_def
    by (auto intro!: fuel_le_bind Suc split: option.splits)
qed simp

text \<open>Processing the queue ends, when what the back ends add to the queue while they begin an event
  (a new event, the event itself posted back behind a new one) is paid from a credit that an event has
  by its path and by not having been posted back before. From some number of rounds on the result
  does not depend on the bound.
\<close>

theorem process_queue_terminates:
  assumes "hp_ok s" and "backend_ok env" and "backend_fuel env" and "backend_pays c env" and "\<And>p b. 0 < c p b"
  shows "\<exists>fuel. no_fuel_error (hotplug_event_process_queue env fuel s) \<and>
           (\<forall>n. hotplug_event_process_queue env (fuel + n) s = hotplug_event_process_queue env fuel s)"
proof -
  have "hp_ok (s\<lparr>processing := True\<rparr>)" using assms(1) by simp
  from process_loop_ends [OF this assms(2-5)] obtain fuel where
    fuel: "no_fuel_error (process_loop env fuel 0 (s\<lparr>processing := True\<rparr>))" by blast
  have "process_loop env (fuel + n) 0 (s\<lparr>processing := True\<rparr>) = process_loop env fuel 0 (s\<lparr>processing := True\<rparr>)" for n
    using process_loop_mono [of env fuel 0 "s\<lparr>processing := True\<rparr>" n] fuel by (auto simp: fuel_le_def no_fuel_error_def)
  then show ?thesis
    using fuel
    by (intro exI [of _ fuel]) (auto simp: hotplug_event_process_queue_def Let_def intro!: no_fuel_error_bind)
qed

theorem process_queue_terminates_witness:
  "\<exists>fuel. no_fuel_error (hotplug_event_process_queue async_env fuel one_event) \<and>
     (\<forall>n. hotplug_event_process_queue async_env (fuel + n) one_event = hotplug_event_process_queue async_env fuel one_event)"
proof (rule process_queue_terminates [of one_event async_env "\<lambda>_ _. 1"])
  show "backend_fuel async_env" by (simp add: backend_fuel_def async_env_def)
  show "backend_pays (\<lambda>_ _. 1) async_env" by (simp add: backend_pays_def async_env_def ops_credit_def event_credit_def)
qed (simp_all add: one_event_ok async_ok)

section \<open>The queue in the life of the daemon\<close>














end
