(* ===== verification/Hal_Reprobe_Props.thy ===== *)
theory Hal_Reprobe_Props
  imports Hal_Hotplug_Live
begin

text \<open>
  Reprobing a device: the events generated for the tree of devices below it, their order, and that
  they do not wait for each other.
\<close>

section \<open>The tree of devices\<close>

datatype dev_tree = DNode (root: nat) (below: "dev_tree list")

fun is_dev_tree :: "(string \<Rightarrow> nat) \<Rightarrow> world \<Rightarrow> dev_tree \<Rightarrow> bool" where
  "is_dev_tree H w (DNode d ts) \<longleftrightarrow> children H d w = Inr (map root ts) \<and> list_all (is_dev_tree H w) ts"

fun tree_height :: "dev_tree \<Rightarrow> nat" where
  "tree_height (DNode d ts) = Suc (fold max (map tree_height ts) 0)"

definition opt_list :: "'a option \<Rightarrow> 'a list" where
  "opt_list x = (case x of None \<Rightarrow> [] | Some y \<Rightarrow> [y])"

fun removals :: "world \<Rightarrow> dev_tree \<Rightarrow> hotplug_event list" where
  "removals w (DNode d ts) = concat (map (removals w) ts) @ opt_list (remove_event (w_heap w d))"

fun additions :: "world \<Rightarrow> dev_tree \<Rightarrow> hotplug_event list" where
  "additions w (DNode d ts) = opt_list (add_event (w_heap w d)) @ concat (map (additions w) ts)"

definition enqueue_all :: "hotplug_event list \<Rightarrow> hotplug \<Rightarrow> hotplug" where
  "enqueue_all es s = fold (\<lambda>e. enqueue_new (Some e)) es s"

lemma enqueue_all_append: "enqueue_all (es @ fs) s = enqueue_all fs (enqueue_all es s)"
  by (simp add: enqueue_all_def)

lemma enqueue_all_opt: "enqueue_all (opt_list x) s = enqueue_new x s"
  by (cases x) (auto simp: enqueue_all_def opt_list_def enqueue_new_def)

lemma enqueue_new_world [simp]: "hp_world (enqueue_new x s) = hp_world s"
  by (auto simp: enqueue_new_def hp_alloc_def hotplug_event_enqueue_def split: option.splits)

lemma enqueue_all_world [simp]: "hp_world (enqueue_all es s) = hp_world s"
  by (induction es arbitrary: s) (auto simp: enqueue_all_def)

lemma height_below: "t \<in> set ts \<Longrightarrow> tree_height t < tree_height (DNode d ts)"
proof -
  have "x \<in> set xs \<Longrightarrow> x \<le> fold max xs (a :: nat)" for x xs a
    by (metis List.finite_set Max.set_eq_fold Max_ge finite_insert insertI2 list.simps(15))
  then show "t \<in> set ts \<Longrightarrow> ?thesis" by (simp add: less_Suc_eq_le)
qed

lemma fold_trees:
  assumes "\<And>t s. t \<in> set ts \<Longrightarrow> hp_world s = w \<Longrightarrow> f (root t) s = Inr (enqueue_all (g t) s)"
    and "hp_world s = w"
  shows "err_fold f (map root ts) s = Inr (enqueue_all (concat (map g ts)) s)"
  using assms
proof (induction ts arbitrary: s)
  case (Cons t ts)
  then show ?case by (simp add: enqueue_all_append)
qed (simp add: enqueue_all_def)

lemma remove_events_order:
  assumes "is_dev_tree (env_hash env) (hp_world s) t" and "tree_height t \<le> depth"
  shows "hotplug_reprobe_generate_remove_events env depth (root t) s =
           Inr (enqueue_all (removals (hp_world s) t) s)"
  using assms
proof (induction t arbitrary: depth s)
  case (DNode d ts)
  then obtain n where n: "depth = Suc n" by (cases depth) auto
  let ?w = "hp_world s"
  have "hotplug_reprobe_generate_remove_events env n (root t) s1 = Inr (enqueue_all (removals ?w t) s1)"
    if "t \<in> set ts" "hp_world s1 = ?w" for t s1
    using DNode.IH [OF that(1), of s1 n] DNode.prems height_below [OF that(1), of d] that n
    by (auto simp: list_all_iff)
  from fold_trees [where f = "hotplug_reprobe_generate_remove_events env n" and g = "removals ?w" and w = ?w and s = s,
      OF this] show ?case
    using DNode.prems(1) by (simp add: n enqueue_all_append enqueue_all_opt)
qed

lemma add_events_order:
  assumes "is_dev_tree (env_hash env) (hp_world s) t" and "tree_height t \<le> depth"
  shows "hotplug_reprobe_generate_add_events env depth (root t) s =
           Inr (enqueue_all (additions (hp_world s) t) s)"
  using assms
proof (induction t arbitrary: depth s)
  case (DNode d ts)
  then obtain n where n: "depth = Suc n" by (cases depth) auto
  let ?w = "hp_world s"
  have "hotplug_reprobe_generate_add_events env n (root t) s1 = Inr (enqueue_all (additions ?w t) s1)"
    if "t \<in> set ts" "hp_world s1 = ?w" for t s1
    using DNode.IH [OF that(1), of s1 n] DNode.prems height_below [OF that(1), of d] that n
    by (auto simp: list_all_iff)
  from fold_trees [where f = "hotplug_reprobe_generate_add_events env n" and g = "additions ?w" and w = ?w
      and s = "enqueue_new (add_event (w_heap ?w d)) s", OF this] show ?case
    using DNode.prems(1) by (simp add: n enqueue_all_append enqueue_all_opt)
qed

text \<open>Reprobing a device queues a remove event for each device of the tree below it, children before
  their parents, and after all of these an add event for each, parents before their children, and then
  processes the queue.
\<close>

theorem reprobe_tree_order:
  assumes "is_dev_tree (env_hash env) (hp_world s) t" and "tree_height t \<le> depth"
  shows "hotplug_reprobe_tree env depth fuel (root t) s =
           err_bind (hotplug_event_process_queue env fuel
                       (enqueue_all (removals (hp_world s) t @ additions (hp_world s) t) s))
             (\<lambda>s. Inr (False, s))"
  using remove_events_order [OF assms]
    add_events_order [of env "enqueue_all (removals (hp_world s) t) s" t depth] assms
  by (simp add: hotplug_reprobe_tree_def enqueue_all_append)

section \<open>The generated events do not wait\<close>

lemma generated_seqnum:
  "remove_event d = Some e \<or> add_event d = Some e \<Longrightarrow> ev_seqnum (he_data e) = 0"
  "remove_event d = Some e \<or> add_event d = Some e \<Longrightarrow> he_action e = HOTPLUG_ACTION_REMOVE \<or> he_action e = HOTPLUG_ACTION_ADD"
  "remove_event d = Some e \<or> add_event d = Some e \<Longrightarrow> \<forall>ty. he_data e \<noteq> Unknown_Type ty"
  by (auto simp: remove_event_def add_event_def Let_def dev_generate_remove_hotplug_event_def
      dev_generate_add_hotplug_event_def blockdev_generate_remove_hotplug_event_def
      blockdev_generate_add_hotplug_event_def acpi_generate_hotplug_event_def apm_generate_hotplug_event_def
      pmu_generate_hotplug_event_def zero_sysfs_def split: if_splits)

definition unordered :: "hotplug_event \<Rightarrow> bool" where
  "unordered e \<longleftrightarrow>
     ev_seqnum (he_data e) = 0 \<and> (he_action e = HOTPLUG_ACTION_REMOVE \<or> he_action e = HOTPLUG_ACTION_ADD) \<and>
     (\<forall>ty. he_data e \<noteq> Unknown_Type ty)"

lemma in_opt_list: "e \<in> set (opt_list x) \<longleftrightarrow> x = Some e"
  by (auto simp: opt_list_def split: option.splits)

lemma generated_unordered: "remove_event d = Some e \<or> add_event d = Some e \<Longrightarrow> unordered e"
  using generated_seqnum by (auto simp: unordered_def)

lemma unordered_events: "e \<in> set (removals w t @ additions w t) \<Longrightarrow> unordered e"
proof -
  have "e \<in> set (removals w t) \<Longrightarrow> unordered e"
    by (induction t) (auto simp: in_opt_list intro: generated_unordered)
  moreover have "e \<in> set (additions w t) \<Longrightarrow> unordered e"
    by (induction t) (auto simp: in_opt_list intro: generated_unordered)
  ultimately show "e \<in> set (removals w t @ additions w t) \<Longrightarrow> unordered e" by auto
qed

text \<open>Back ends that do all their work in helper processes.\<close>

definition backend_async :: "hp_env \<Rightarrow> bool" where
  "backend_async env \<longleftrightarrow> (\<forall>call t e w ops w'. env_begin env call t e w = Inr (ops, w') \<longrightarrow> ops = [])"

lemma call_async:
  assumes "hp_call env t call s = Inr s'" and "backend_async env"
  shows "\<exists>w. s' = s\<lparr>hp_world := w\<rparr>"
proof -
  from assms(1) obtain e ops w where e: "env_begin env call t e (hp_world s) = Inr (ops, w)"
    and f: "err_fold backend_do ops (s\<lparr>hp_world := w\<rparr>) = Inr s'"
    by (auto simp: hp_call_def split: option.splits)
  have "ops = []" using e assms(2) unfolding backend_async_def by blast
  then show ?thesis using f by auto
qed

lemma sysfs_type_decided: "sysfs_type env w d k sd = SYSFS_DEVICE \<or> sysfs_type env w d k sd = SYSFS_BLOCK"
proof -
  have "(if k = SYSFS then if b then SYSFS_BLOCK else SYSFS_DEVICE else k) = SYSFS_DEVICE \<or>
        (if k = SYSFS then if b then SYSFS_BLOCK else SYSFS_DEVICE else k) = SYSFS_BLOCK" for k b
    by (cases k) auto
  then show ?thesis unfolding sysfs_type_def Let_def by blast
qed

lemma sysfs_type_not_device: "sysfs_type env w d k sd \<noteq> SYSFS_DEVICE \<Longrightarrow> sysfs_type env w d k sd = SYSFS_BLOCK"
  using sysfs_type_decided by blast

lemma begin_async:
  assumes "hotplug_event_begin env t e s = Inr s'" and "backend_async env" and "unordered e"
    and "hp_events s t = Some e"
  shows "\<exists>e' w. s' = set_event t e' w s"
proof -
  have "he_action e = HOTPLUG_ACTION_REMOVE \<or> he_action e = HOTPLUG_ACTION_ADD" using assms(3) by (simp add: unordered_def)
  then have "(\<exists>call. hp_call env t call s = Inr s') \<or>
      (\<exists>call e'. hp_call env t call (s\<lparr>hp_events := (hp_events s)(t \<mapsto> e')\<rparr>) = Inr s')"
    using assms(1,3)
    by (cases "he_data e")
      (auto simp: hotplug_event_begin_def hotplug_event_begin_sysfs_def begin_device_def begin_block_def
        hotplug_event_begin_acpi_def hotplug_event_begin_apm_def hotplug_event_begin_pmu_def Let_def
        unordered_def dest: sysfs_type_not_device split: if_splits)
  then show ?thesis
  proof (elim disjE exE)
    fix call
    assume "hp_call env t call s = Inr s'"
    from call_async [OF this assms(2)] obtain w where "s' = s\<lparr>hp_world := w\<rparr>" by blast
    then have "s' = set_event t e w s" using assms(4) by (simp add: set_event_def map_upd_triv)
    then show ?thesis by blast
  next
    fix call e'
    assume "hp_call env t call (s\<lparr>hp_events := (hp_events s)(t \<mapsto> e')\<rparr>) = Inr s'"
    from call_async [OF this assms(2)] show ?thesis by (auto simp: set_event_def)
  qed
qed

lemma unordered_not_held:
  assumes "hp_ok s" and "unordered e"
  shows "event_held e s = Inr False"
  using zero_seqnum_not_held [of s _ "he_data e"] hp_ok_live [OF assms(1)] assms(2)
  by (simp add: event_held_def unordered_def)

lemma process_unordered:
  assumes "process_loop env fuel 0 s = Inr s'" and "hp_ok s" and "backend_async env"
    and "\<forall>p \<in> set (queued s). \<exists>e. hp_events s p = Some e \<and> unordered e"
  shows "queued s' = [] \<and> hotplug_events_in_progress s' = hotplug_events_in_progress s @ queued s"
  using assms(1,2,4)
proof (induction fuel arbitrary: s)
  case (Suc fuel)
  show ?case
  proof (cases "queued s")
    case (Cons t q)
    then obtain e where e: "hp_events s t = Some e" "unordered e" using Suc.prems(3) by auto
    let ?s = "take_event 0 t s"
    have q: "queued ?s = q" "hotplug_events_in_progress ?s = hotplug_events_in_progress s @ [t]"
      using Cons by (simp_all add: take_event_def delete_at_def)
    from Suc.prems(1) Cons e unordered_not_held [OF Suc.prems(2) e(2)] obtain s1 where
      b: "hotplug_event_begin env t e ?s = Inr s1" and
      rest: "process_loop env fuel 0 (s1\<lparr>hotplug_event_queue_restart := False\<rparr>) = Inr s'"
      by (auto simp: Let_def)
    have "hp_events ?s t = Some e" using e by (simp add: take_event_def)
    from begin_async [OF b assms(3) e(2) this] obtain e' w where s1: "s1 = set_event t e' w ?s" by blast
    have "hp_ok ?s" using take_event_ok [OF Suc.prems(2), of 0] Cons by simp
    then have ok: "hp_ok (s1\<lparr>hotplug_event_queue_restart := False\<rparr>)"
      using set_event_ok [of ?s t e' w] q by (simp add: s1)
    have "t \<notin> set q" using Suc.prems(2) Cons by (auto simp: hp_ok_def)
    then have "\<forall>p \<in> set q. \<exists>e. hp_events s1 p = Some e \<and> unordered e"
      using Suc.prems(3) Cons by (auto simp: s1 set_event_def take_event_def)
    then show ?thesis
      using Suc.IH [OF rest ok] q Cons by (simp add: s1 set_event_def)
  qed (use Suc.prems in auto)
qed simp

lemma enqueue_all_queue:
  assumes "hp_ok s" and "\<forall>p \<in> set (queued s). \<exists>e. hp_events s p = Some e \<and> unordered e" and "list_all unordered es"
  shows "hp_ok (enqueue_all es s) \<and>
         queued (enqueue_all es s) = queued s @ [hp_next s ..< hp_next s + length es] \<and>
         hotplug_events_in_progress (enqueue_all es s) = hotplug_events_in_progress s \<and>
         processing (enqueue_all es s) = processing s \<and>
         (es \<noteq> [] \<longrightarrow> hotplug_event_queue (enqueue_all es s) \<noteq> None) \<and>
         (\<forall>p \<in> set (queued (enqueue_all es s)). \<exists>e. hp_events (enqueue_all es s) p = Some e \<and> unordered e)"
  using assms
proof (induction es arbitrary: s)
  case (Cons e es)
  define s1 where "s1 = enqueue_new (Some e) s"
  have op: "backend_do (OP_ENQUEUE e) s = Inr s1" by (simp add: backend_do.simps s1_def enqueue_new_def split: prod.splits)
  have ok: "hp_ok s1" using backend_do_ok [OF op Cons.prems(1)] by simp
  have s1: "s1 = s\<lparr>hp_events := (hp_events s)(hp_next s \<mapsto> e), hp_next := Suc (hp_next s),
            hotplug_event_queue := Some (queued s @ [hp_next s])\<rparr>"
    using op unfolding do_enqueue .
  have un: "\<forall>p \<in> set (queued s1). \<exists>e. hp_events s1 p = Some e \<and> unordered e"
    using Cons.prems by (auto simp: s1)
  have "list_all unordered es" using Cons.prems by simp
  note IH = Cons.IH [OF ok un this]
  have "enqueue_all (e # es) s = enqueue_all es s1" by (simp add: enqueue_all_def s1_def)
  moreover have "hotplug_event_queue (enqueue_all es s1) \<noteq> None"
    using IH by (cases "es = []") (simp_all add: enqueue_all_def s1)
  moreover have "hp_next s # [Suc (hp_next s) ..< Suc (hp_next s) + length es] = [hp_next s ..< hp_next s + length (e # es)]"
    by (subst (2) upt_conv_Cons) simp_all
  ultimately show ?case
    using IH unfolding s1 by (simp del: upt_Suc)
qed (simp add: enqueue_all_def)

text \<open>The events of a reprobe all run at the same time. They carry the sequence number zero, which no
  event precedes, so with back ends that work through helper processes every one of them, the removals
  and the additions of the same device too, is in progress when \<open>hotplug_reprobe_tree\<close> returns, although
  it queues them in an order and the queue is there to keep dependent events apart.
\<close>

theorem reprobe_events_run_together:
  assumes "hotplug_reprobe_tree env depth fuel (root t) s = Inr (r, s')"
    and "is_dev_tree (env_hash env) (hp_world s) t" and "tree_height t \<le> depth"
    and "hp_ok s" and "queued s = []" and "\<not> processing s" and "backend_async env"
  shows "queued s' = [] \<and>
         hotplug_events_in_progress s' = hotplug_events_in_progress s @
           [hp_next s ..< hp_next s + length (removals (hp_world s) t @ additions (hp_world s) t)]"
proof -
  let ?es = "removals (hp_world s) t @ additions (hp_world s) t"
  let ?s = "enqueue_all ?es s"
  have "hotplug_event_process_queue env fuel ?s = Inr s'"
    using remove_events_order [OF assms(2,3)] assms(1,2,3)
      add_events_order [of env "enqueue_all (removals (hp_world s) t) s" t depth]
    by (simp add: hotplug_reprobe_tree_def enqueue_all_append)
  moreover have un: "list_all unordered ?es" using unordered_events by (auto simp: list_all_iff)
  note q = enqueue_all_queue [OF assms(4) _ un, unfolded assms(5)]
  have "queued s' = [] \<and> hotplug_events_in_progress s' = hotplug_events_in_progress ?s @ queued ?s"
  proof (cases "hotplug_event_queue ?s = None \<or> processing ?s")
    case True
    then show ?thesis using calculation q assms(6) by (auto simp: hotplug_event_process_queue_def queued_def)
  next
    case False
    with calculation obtain s1 where s1: "process_loop env fuel 0 (?s\<lparr>processing := True\<rparr>) = Inr s1"
      "queued s' = queued s1" "hotplug_events_in_progress s' = hotplug_events_in_progress s1"
      by (auto simp: hotplug_event_process_queue_def Let_def hotplug_queue_now_empty_def split: if_splits)
    then show ?thesis using process_unordered [OF s1(1) _ assms(7)] q by auto
  qed
  then show ?thesis using q by auto
qed

definition probed_device :: hal_device where
  "probed_device =
     \<lparr>udi = ''/org/freedesktop/Hal/devices/x'', num_addons = 0, num_addons_ready = 0,
      props = [(''linux.hotplug_type'', HP_INT32 2), (''linux.sysfs_path'', HP_STRING (Some ''/sys/x''))]\<rparr>"

definition probed_state :: hotplug where
  "probed_state =
     hotplug_init (empty_world\<lparr>w_heap := (\<lambda>_. probed_device), w_gdl := hal_device_store_new\<lparr>devices := [0]\<rparr>\<rparr>)"

lemma probed_tree: "is_dev_tree (env_hash async_env) (hp_world probed_state) (DNode 0 [])"
  by (simp add: probed_state_def hotplug_init_def children_def hal_device_store_match_multiple_key_value_string_def
      hal_device_store_new_def match_string_def hal_device_has_property_def hal_device_property_find_def
      probed_device_def)

lemma probed_events: "length (removals (hp_world probed_state) (DNode 0 [])) = 1 \<and> length (additions (hp_world probed_state) (DNode 0 [])) = 1"
  by (simp add: probed_state_def hotplug_init_def opt_list_def remove_event_def add_event_def Let_def
      HOTPLUG_EVENT_SYSFS_DEVICE_def hal_device_property_get_int_def hal_device_property_find_def probed_device_def)

theorem reprobe_tree_order_witness:
  "hotplug_reprobe_tree async_env 1 9 0 probed_state =
     err_bind (hotplug_event_process_queue async_env 9
                 (enqueue_all (removals (hp_world probed_state) (DNode 0 []) @
                               additions (hp_world probed_state) (DNode 0 [])) probed_state))
       (\<lambda>s. Inr (False, s))"
  using reprobe_tree_order [OF probed_tree, of 1 9] by simp

theorem reprobe_events_run_together_witness:
  "\<exists>r s'. hotplug_reprobe_tree async_env 1 9 0 probed_state = Inr (r, s') \<and> queued s' = [] \<and>
     hotplug_events_in_progress s' = [0, 1]"
proof -
  have "case hotplug_reprobe_tree async_env 1 9 0 probed_state of Inr _ \<Rightarrow> True | Inl _ \<Rightarrow> False"
    by code_simp
  then obtain r s' where rs: "hotplug_reprobe_tree async_env 1 9 0 probed_state = Inr (r, s')"
    by (auto split: sum.splits)
  have async: "backend_async async_env" by (simp add: backend_async_def async_env_def)
  have init: "hp_ok probed_state" "queued probed_state = []" "\<not> processing probed_state"
      "hotplug_events_in_progress probed_state = []" "hp_next probed_state = 0"
    using hp_ok_init by (auto simp: probed_state_def hotplug_init_def queued_def)
  show ?thesis
    using reprobe_events_run_together [of async_env 1 9 "DNode 0 []" probed_state r s', OF _ probed_tree] rs async init
      probed_events
    by (auto simp: numeral_2_eq_2 simp del: removals.simps additions.simps)
qed

end
