(* ===== verification/Hal_Uevent.thy ===== *)
theory Hal_Uevent
  imports Hal_Hotplug
begin

text \<open>
  Where hotplug events come from: the messages of udev read by \<open>hald_udev_data\<close> of
  \<open>hald/linux/osspec.c\<close>, and the events \<open>hald/linux/coldplug.c\<close> synthesises at start for the devices found
  in sysfs and in the udev database.
\<close>

section \<open>Messages of udev\<close>

text \<open>
  What \<open>recvmsg\<close> delivers: an error, a message without credentials, or the bytes (at most 4096 of
  them) and the user id of the sender.
\<close>

datatype udev_message = Recv_Error | No_Credentials | Udev_From int string

definition udev_buf_size :: nat where
  "udev_buf_size = 4096"

definition udev_buf :: "string \<Rightarrow> string" where
  "udev_buf bytes = (let b = take udev_buf_size bytes in b @ replicate (udev_buf_size - length b) nul)"

text \<open>\<open>strtoull\<close> and \<open>strtoul\<close> with base 10.\<close>

definition strtoull10 :: "string \<Rightarrow> uint64" where
  "strtoull10 s =
     (let (neg, r) = parse_sign (dropWhile is_space s); m = parse_digits 10 0 r
      in if 2 ^ 64 \<le> m then - 1 else if neg then - of_int m else of_int m)"

definition strtoul_int :: "string \<Rightarrow> int32" where
  "strtoul_int s = of_int (uint (strtoull10 s))"

definition has_key :: "string \<Rightarrow> string \<Rightarrow> bool" where
  "has_key k key = strncmp_eq key k (length k)"

definition key_value :: "string \<Rightarrow> string \<Rightarrow> string" where
  "key_value k key = drop (length k) key"

text \<open>A text from udev: copied when something of it is valid, else the field stays.\<close>

definition udev_text :: "glib \<Rightarrow> string \<Rightarrow> string \<Rightarrow> string" where
  "udev_text G v field =
     (case hal_util_strdup_valid_utf8 G (Some v) of Some str \<Rightarrow> take (HAL_NAME_MAX - 1) str | None \<Rightarrow> field)"

type_synonym udev_state = "string option \<times> sysfs_data"

definition sys_path :: "string \<Rightarrow> string" where
  "sys_path p = snprintf HAL_PATH_MAX (''/sys'' @ p)"

text \<open>One key of the message; \<^const>\<open>None\<close> is the jump to \<open>invalid\<close>.\<close>

definition udev_key :: "glib \<Rightarrow> string \<Rightarrow> udev_state \<Rightarrow> udev_state option" where
  "udev_key G key st =
     (case st of (a, sd) \<Rightarrow>
      if has_key ''ACTION='' key then Some (Some (key_value ''ACTION='' key), sd)
      else if has_key ''DEVPATH='' key
      then (if prefix ''/block/md'' (key_value ''DEVPATH='' key) then None
            else Some (a, sd\<lparr>sysfs_path := sys_path (key_value ''DEVPATH='' key)\<rparr>))
      else if has_key ''DEVPATH_OLD='' key
      then (if prefix ''/block/md'' (key_value ''DEVPATH_OLD='' key) then None
            else Some (a, sd\<lparr>sysfs_path_old := sys_path (key_value ''DEVPATH_OLD='' key)\<rparr>))
      else if has_key ''SUBSYSTEM='' key
      then Some (a, sd\<lparr>subsystem := take (HAL_NAME_MAX - 1) (key_value ''SUBSYSTEM='' key)\<rparr>)
      else if has_key ''DEVNAME='' key
      then Some (a, sd\<lparr>device_file := take (HAL_PATH_MAX - 1) (key_value ''DEVNAME='' key)\<rparr>)
      else if has_key ''SEQNUM='' key then Some (a, sd\<lparr>seqnum := strtoull10 (key_value ''SEQNUM='' key)\<rparr>)
      else if has_key ''IFINDEX='' key then Some (a, sd\<lparr>net_ifindex := strtoul_int (key_value ''IFINDEX='' key)\<rparr>)
      else if has_key ''ID_VENDOR='' key then Some (a, sd\<lparr>id_vendor := udev_text G (key_value ''ID_VENDOR='' key) (id_vendor sd)\<rparr>)
      else if has_key ''ID_MODEL='' key then Some (a, sd\<lparr>id_model := udev_text G (key_value ''ID_MODEL='' key) (id_model sd)\<rparr>)
      else if has_key ''ID_REVISION='' key then Some (a, sd\<lparr>id_revision := udev_text G (key_value ''ID_REVISION='' key) (id_revision sd)\<rparr>)
      else if has_key ''ID_SERIAL='' key then Some (a, sd\<lparr>id_serial := udev_text G (key_value ''ID_SERIAL='' key) (id_serial sd)\<rparr>)
      else if has_key ''ID_FS_USAGE='' key then Some (a, sd\<lparr>fsusage := udev_text G (key_value ''ID_FS_USAGE='' key) (fsusage sd)\<rparr>)
      else if has_key ''ID_FS_TYPE='' key then Some (a, sd\<lparr>fstype := udev_text G (key_value ''ID_FS_TYPE='' key) (fstype sd)\<rparr>)
      else if has_key ''ID_FS_VERSION='' key then Some (a, sd\<lparr>fsversion := udev_text G (key_value ''ID_FS_VERSION='' key) (fsversion sd)\<rparr>)
      else if has_key ''ID_FS_UUID='' key then Some (a, sd\<lparr>fsuuid := udev_text G (key_value ''ID_FS_UUID='' key) (fsuuid sd)\<rparr>)
      else if has_key ''ID_FS_LABEL='' key then Some (a, sd\<lparr>fslabel := udev_text G (key_value ''ID_FS_LABEL='' key) (fslabel sd)\<rparr>)
      else Some (a, sd))"

text \<open>
  The loop over the keys: \<open>rest\<close> is the buffer from the position on. A key without its NUL inside the
  buffer is read past the end.
\<close>

function udev_keys :: "glib \<Rightarrow> string \<Rightarrow> udev_state \<Rightarrow> memory_error + udev_state option" where
  "udev_keys G rest st =
     (if rest = [] then Inr (Some st)
      else let key = cut_at_nul rest
           in if length key = length rest then Inl Buffer_Overrun
              else if key = [] then Inr (Some st)
              else (case udev_key G key st of
                      None \<Rightarrow> Inr None
                    | Some st' \<Rightarrow> udev_keys G (drop (Suc (length key)) rest) st'))"
  by pat_completeness auto
termination
  by (relation "measure (\<lambda>(G, rest, st). length rest)") auto

declare udev_keys.simps [simp del]

definition udev_action :: "string \<Rightarrow> hotplug_action option" where
  "udev_action a =
     (if strcmp a ''add'' = 0 then Some HOTPLUG_ACTION_ADD
      else if strcmp a ''change'' = 0 then Some HOTPLUG_ACTION_CHANGE
      else if strcmp a ''move'' = 0 then Some HOTPLUG_ACTION_MOVE
      else if strcmp a ''remove'' = 0 then Some HOTPLUG_ACTION_REMOVE
      else None)"

text \<open>The checks after the loop.\<close>

definition udev_accept :: "udev_state \<Rightarrow> hotplug_event option" where
  "udev_accept st =
     (case st of (a, sd) \<Rightarrow>
      case a of
        None \<Rightarrow> None
      | Some act \<Rightarrow>
          if sysfs_path sd = [] then None
          else if subsystem sd = [] then None
          else if strncmp_eq (device_file sd) ''/dev/mapper/temporary-cryptsetup-'' 33 then None
          else let sd = (if strstr (device_file sd) ''/dm-'' then sd\<lparr>is_dm_device := True\<rparr> else sd)
               in if strcmp (subsystem sd) ''drivers'' \<noteq> 0 \<and> strcmp (subsystem sd) ''module'' \<noteq> 0
                  then map_option (\<lambda>x. \<lparr>he_action = x, he_data = Sysfs SYSFS sd, he_reposted = False\<rparr>) (udev_action act)
                  else None)"

definition udev_parse :: "glib \<Rightarrow> string \<Rightarrow> memory_error + hotplug_event option" where
  "udev_parse G buf =
     (if \<not> strstr (cut_at_nul buf) ''@/''
      then (if length (cut_at_nul buf) = length buf then Inl Buffer_Overrun else Inr None)
      else err_bind (udev_keys G buf (None, zero_sysfs)) (\<lambda>r. Inr (Option.bind r udev_accept)))"

definition hald_udev_data ::
    "hp_env \<Rightarrow> nat \<Rightarrow> udev_message \<Rightarrow> hotplug \<Rightarrow> memory_error + hotplug" where
  "hald_udev_data env fuel msg s =
     (case msg of
        Recv_Error \<Rightarrow> Inr s
      | No_Credentials \<Rightarrow> Inr s
      | Udev_From uid bytes \<Rightarrow>
          if uid \<noteq> 0 then Inr s
          else err_bind (udev_parse (env_glib env) (udev_buf bytes))
                 (\<lambda>r. case r of
                        None \<Rightarrow> Inr s
                      | Some e \<Rightarrow> hotplug_event_process_queue env fuel (enqueue_new (Some e) s)))"

section \<open>The udev database\<close>

record udev_info =
  ui_sysfs_path :: string
  ui_device_file :: "string option"
  ui_vendor :: "string option"
  ui_model :: "string option"
  ui_revision :: "string option"
  ui_serial :: "string option"
  ui_fsusage :: "string option"
  ui_fstype :: "string option"
  ui_fsversion :: "string option"
  ui_fsuuid :: "string option"
  ui_fslabel :: "string option"

definition udev_info_new :: "string \<Rightarrow> udev_info" where
  "udev_info_new p =
     \<lparr>ui_sysfs_path = p, ui_device_file = None, ui_vendor = None, ui_model = None, ui_revision = None,
      ui_serial = None, ui_fsusage = None, ui_fstype = None, ui_fsversion = None, ui_fsuuid = None,
      ui_fslabel = None\<rparr>"

definition strlcat :: "nat \<Rightarrow> string \<Rightarrow> string \<Rightarrow> string" where
  "strlcat n s t = s @ take (n - 1 - length s) t"

definition udev_opt_text :: "glib \<Rightarrow> string option \<Rightarrow> string" where
  "udev_opt_text G v = (case hal_util_strdup_valid_utf8 G v of Some str \<Rightarrow> take (HAL_NAME_MAX - 1) str | None \<Rightarrow> [])"

definition udev_info_to_hotplug_event :: "glib \<Rightarrow> string \<Rightarrow> udev_info \<Rightarrow> sysfs_data" where
  "udev_info_to_hotplug_event G dev_root info =
     (let df = (case ui_device_file info of
                  None \<Rightarrow> [] | Some f \<Rightarrow> snprintf HAL_PATH_MAX (dev_root @ slash # f))
      in zero_sysfs\<lparr>sysfs_path := strlcat HAL_PATH_MAX ''/sys'' (ui_sysfs_path info),
                    device_file := df, is_dm_device := strstr df ''/dm-'',
                    id_vendor := udev_opt_text G (ui_vendor info), id_model := udev_opt_text G (ui_model info),
                    id_revision := udev_opt_text G (ui_revision info), id_serial := udev_opt_text G (ui_serial info),
                    fsusage := udev_opt_text G (ui_fsusage info), fstype := udev_opt_text G (ui_fstype info),
                    fsversion := udev_opt_text G (ui_fsversion info), fsuuid := udev_opt_text G (ui_fsuuid info),
                    fslabel := udev_opt_text G (ui_fslabel info)\<rparr>)"

type_synonym udev_map = "(string \<times> udev_info) list"

text \<open>One line of the export: the map so far and the device being described.\<close>

definition udev_line :: "string \<Rightarrow> udev_map \<times> udev_info option \<Rightarrow> udev_map \<times> udev_info option" where
  "udev_line line st =
     (case st of (m, info) \<Rightarrow>
      if line = []
      then (case info of None \<Rightarrow> (m, None) | Some i \<Rightarrow> (AList.update (''/sys'' @ ui_sysfs_path i) i m, None))
      else if has_key ''P: '' line then (m, Some (udev_info_new (key_value ''P: '' line)))
      else (case info of
              None \<Rightarrow> (m, None)
            | Some i \<Rightarrow>
                (m, Some (if has_key ''N: '' line then i\<lparr>ui_device_file := Some (key_value ''N: '' line)\<rparr>
                   else if has_key ''E: ID_VENDOR='' line then i\<lparr>ui_vendor := Some (key_value ''E: ID_VENDOR='' line)\<rparr>
                   else if has_key ''E: ID_MODEL='' line then i\<lparr>ui_model := Some (key_value ''E: ID_MODEL='' line)\<rparr>
                   else if has_key ''E: ID_REVISION='' line then i\<lparr>ui_revision := Some (key_value ''E: ID_REVISION='' line)\<rparr>
                   else if has_key ''E: ID_SERIAL='' line then i\<lparr>ui_serial := Some (key_value ''E: ID_SERIAL='' line)\<rparr>
                   else if has_key ''E: ID_FS_USAGE='' line then i\<lparr>ui_fsusage := Some (key_value ''E: ID_FS_USAGE='' line)\<rparr>
                   else if has_key ''E: ID_FS_TYPE='' line then i\<lparr>ui_fstype := Some (key_value ''E: ID_FS_TYPE='' line)\<rparr>
                   else if has_key ''E: ID_FS_VERSION='' line then i\<lparr>ui_fsversion := Some (key_value ''E: ID_FS_VERSION='' line)\<rparr>
                   else if has_key ''E: ID_FS_UUID='' line then i\<lparr>ui_fsuuid := Some (key_value ''E: ID_FS_UUID='' line)\<rparr>
                   else if has_key ''E: ID_FS_LABEL='' line then i\<lparr>ui_fslabel := Some (key_value ''E: ID_FS_LABEL='' line)\<rparr>
                   else i))))"

text \<open>
  The lines of the export that end with a newline; what follows the last newline is not read. A
  device still being described at the end is not entered.
\<close>

definition udev_export :: "string \<Rightarrow> udev_map" where
  "udev_export out = fst (fold udev_line (butlast (split_all newline out)) ([], None))"

text \<open>The output of \<open>udevadm\<close> is \<^const>\<open>None\<close> when it could not be run or failed.\<close>

definition hal_util_init_sysfs_to_udev_map :: "string option \<Rightarrow> string option \<Rightarrow> (string \<times> udev_map) option" where
  "hal_util_init_sysfs_to_udev_map root_out export_out =
     (case root_out of
        None \<Rightarrow> None
      | Some out \<Rightarrow>
          (case export_out of
             None \<Rightarrow> None
           | Some ex \<Rightarrow> Some (takeWhile (\<lambda>c. c \<noteq> newline) (take (HAL_PATH_MAX - 1) (cut_at_nul out)),
                              udev_export (cut_at_nul ex))))"

section \<open>Coldplugging\<close>

record sysfs_device =
  sd_path :: string
  sd_subsystem :: string
  sd_type :: sysfs_kind

text \<open>
  The file system as coldplugging sees it: directories, which paths exist, which are device nodes,
  which are writable \<open>uevent\<close> files, whether a path is a symbolic link (or cannot be examined), and
  GLib's list sort.
\<close>

record cold_env =
  ce_dir :: "string \<Rightarrow> string list option"
  ce_exists :: "string \<Rightarrow> bool"
  ce_node :: "string \<Rightarrow> bool"
  ce_uevent :: "string \<Rightarrow> bool"
  ce_lstat :: "string \<Rightarrow> bool option"
  ce_sort :: "(sysfs_device \<Rightarrow> sysfs_device \<Rightarrow> int) \<Rightarrow> sysfs_device list \<Rightarrow> sysfs_device list"

definition path_cat :: "string \<Rightarrow> string \<Rightarrow> string" where
  "path_cat s t = strlcat HAL_PATH_MAX s t"

definition strlcpy_path :: "string \<Rightarrow> string" where
  "strlcpy_path s = take (HAL_PATH_MAX - 1) s"

definition coldplug_get_hotplug_event ::
    "glib \<Rightarrow> cold_env \<Rightarrow> string \<Rightarrow> udev_map \<Rightarrow> sysfs_device \<Rightarrow> uint64 \<Rightarrow> hotplug_event" where
  "coldplug_get_hotplug_event G ce dev_root m d n =
     (let p = sd_path d;
          base = (case map_of m p of
                    Some info \<Rightarrow> udev_info_to_hotplug_event G dev_root info
                  | None \<Rightarrow>
                      let ev = zero_sysfs\<lparr>sysfs_path := strlcpy_path p\<rparr>
                      in if \<not> ce_exists ce (path_cat (strlcpy_path p) ''/dev'') then ev
                         else (case strrchr p slash of
                                 None \<Rightarrow> ev
                               | Some i \<Rightarrow>
                                   let path = path_cat (strlcpy_path dev_root) (drop i p)
                                   in if ce_node ce path
                                      then ev\<lparr>device_file := path, is_dm_device := strstr path ''/dm-''\<rparr> else ev))
      in \<lparr>he_action = HOTPLUG_ACTION_ADD,
          he_data = Sysfs (sd_type d)
            (base\<lparr>subsystem := take (HAL_NAME_MAX - 1) (sd_subsystem d), net_ifindex := - 1, seqnum := n\<rparr>),
          he_reposted = False\<rparr>)"

text \<open>The type that is passed in is not stored: the zeroed field says \<open>SYSFS\<close>.\<close>

definition device_list_insert ::
    "cold_env \<Rightarrow> (string \<Rightarrow> string option) \<Rightarrow> string \<Rightarrow> string \<Rightarrow> sysfs_kind \<Rightarrow> sysfs_device list \<Rightarrow>
     memory_error + (bool \<times> sysfs_device list)" where
  "device_list_insert ce links path sub ty ds =
     (if \<not> ce_uevent ce (path_cat (strlcpy_path path) ''/uevent'') then Inr (False, ds)
      else (case ce_lstat ce path of
              None \<Rightarrow> Inr (False, ds)
            | Some True \<Rightarrow>
                (case hal_util_readlink links path of
                   None \<Rightarrow> Inr (False, ds)
                 | Some target \<Rightarrow>
                     let filename = (case hal_util_path_ascend (Some (strlcpy_path path)) of (_, Some f) \<Rightarrow> f | _ \<Rightarrow> strlcpy_path path)
                     in err_bind (hal_util_get_normalized_path filename target)
                          (\<lambda>p. Inr (True, ds @ [\<lparr>sd_path = p, sd_subsystem = sub, sd_type = SYSFS\<rparr>])))
            | Some False \<Rightarrow> Inr (True, ds @ [\<lparr>sd_path = path, sd_subsystem = sub, sd_type = SYSFS\<rparr>])))"

definition visible :: "string list option \<Rightarrow> string list" where
  "visible es = (case es of None \<Rightarrow> [] | Some l \<Rightarrow> filter (\<lambda>n. \<not> (n \<noteq> [] \<and> hd n = CHR ''.'')) l)"

definition insert_entry ::
    "cold_env \<Rightarrow> (string \<Rightarrow> string option) \<Rightarrow> string \<Rightarrow> string \<Rightarrow> sysfs_kind \<Rightarrow> string \<Rightarrow> sysfs_device list \<Rightarrow>
     memory_error + sysfs_device list" where
  "insert_entry ce links dir sub ty name ds =
     err_bind (device_list_insert ce links (path_cat (path_cat (strlcpy_path dir) ''/'') name) sub ty ds)
       (\<lambda>(_, ds). Inr ds)"

definition scan_single_bus ::
    "cold_env \<Rightarrow> (string \<Rightarrow> string option) \<Rightarrow> string \<Rightarrow> sysfs_device list \<Rightarrow> memory_error + sysfs_device list" where
  "scan_single_bus ce links bus_name ds =
     (let dirname = path_cat (path_cat ''/sys/bus/'' bus_name) ''/devices''
      in err_fold (insert_entry ce links dirname bus_name SYSFS_DEVICE) (visible (ce_dir ce dirname)) ds)"

definition scan_subsystem ::
    "cold_env \<Rightarrow> (string \<Rightarrow> string option) \<Rightarrow> string \<Rightarrow> sysfs_device list \<Rightarrow> memory_error + sysfs_device list" where
  "scan_subsystem ce links subsys ds =
     (let base = path_cat ''/sys/'' subsys
      in err_fold
           (\<lambda>name ds. let dirname = path_cat (path_cat (path_cat (strlcpy_path base) ''/'') name) ''/devices''
                      in err_fold (insert_entry ce links dirname name SYSFS_DEVICE) (visible (ce_dir ce dirname)) ds)
           (visible (ce_dir ce base)) ds)"

definition scan_block ::
    "cold_env \<Rightarrow> (string \<Rightarrow> string option) \<Rightarrow> sysfs_device list \<Rightarrow> memory_error + sysfs_device list" where
  "scan_block ce links ds =
     err_fold
       (\<lambda>name ds.
          if prefix ''md'' name then Inr ds
          else let dirname = path_cat ''/sys/block/'' name
               in err_bind (device_list_insert ce links dirname ''block'' SYSFS_BLOCK ds)
                    (\<lambda>(ok, ds). if \<not> ok then Inr ds
                       else err_fold (insert_entry ce links dirname ''block'' SYSFS_BLOCK)
                              (filter (\<lambda>n. strcmp n ''device'' \<noteq> 0) (visible (ce_dir ce dirname))) ds))
       (visible (ce_dir ce ''/sys/block'')) ds"

definition scan_class ::
    "cold_env \<Rightarrow> (string \<Rightarrow> string option) \<Rightarrow> sysfs_device list \<Rightarrow> memory_error + sysfs_device list" where
  "scan_class ce links ds =
     err_fold
       (\<lambda>name ds. let dirname = path_cat ''/sys/class/'' name
                  in err_fold (insert_entry ce links dirname name SYSFS_DEVICE)
                       (filter (\<lambda>n. strcmp n ''device'' \<noteq> 0) (visible (ce_dir ce dirname))) ds)
       (visible (ce_dir ce ''/sys/class'')) ds"

definition device_order :: "sysfs_device \<Rightarrow> sysfs_device \<Rightarrow> int" where
  "device_order dev1 dev2 =
     (if strstr (sd_path dev2) ''/dm-'' then - 1
      else if strstr (sd_path dev1) ''/dm-'' then 1
      else strcmp (sd_path dev1) (sd_path dev2))"

text \<open>The counter of sequence numbers runs through all lists.\<close>

fun process_coldplug_events ::
    "hp_env \<Rightarrow> cold_env \<Rightarrow> nat \<Rightarrow> string \<Rightarrow> udev_map \<Rightarrow> sysfs_device list \<Rightarrow> uint64 \<times> hotplug \<Rightarrow>
     memory_error + (uint64 \<times> hotplug)" where
  "process_coldplug_events env ce fuel dev_root m [] (n, s) = Inr (n, s)"
| "process_coldplug_events env ce fuel dev_root m (d # ds) (n, s) =
     err_bind (hotplug_event_process_queue env fuel
                 (enqueue_new (Some (coldplug_get_hotplug_event (env_glib env) ce dev_root m d n)) s))
       (\<lambda>s. process_coldplug_events env ce fuel dev_root m ds (n + 1, s))"

definition sort_and_process ::
    "hp_env \<Rightarrow> cold_env \<Rightarrow> nat \<Rightarrow> string \<Rightarrow> udev_map \<Rightarrow> sysfs_device list \<Rightarrow> uint64 \<times> hotplug \<Rightarrow>
     memory_error + (uint64 \<times> hotplug)" where
  "sort_and_process env ce fuel dev_root m ds =
     process_coldplug_events env ce fuel dev_root m (ce_sort ce device_order ds)"

text \<open>The devices of \<open>/proc/mdstat\<close>, entered by \<open>blockdev_process_mdstat\<close>, are a parameter.\<close>

definition coldplug_synthesize_events ::
    "hp_env \<Rightarrow> cold_env \<Rightarrow> (hotplug \<Rightarrow> memory_error + hotplug) \<Rightarrow> nat \<Rightarrow> string option \<Rightarrow> string option \<Rightarrow>
     uint64 \<times> hotplug \<Rightarrow> memory_error + (bool \<times> uint64 \<times> hotplug)" where
  "coldplug_synthesize_events env ce mdstat fuel root_out export_out ns =
     (case hal_util_init_sysfs_to_udev_map root_out export_out of
        None \<Rightarrow> Inr (False, ns)
      | Some (dev_root, m) \<Rightarrow>
          let links = env_links env; run = sort_and_process env ce fuel dev_root m
          in if ce_exists ce ''/sys/subsystem''
             then err_bind (scan_subsystem ce links ''subsystem'' []) (\<lambda>ds.
                  err_bind (run ds ns) (\<lambda>ns. Inr (True, ns)))
             else err_bind (scan_subsystem ce links ''bus'' []) (\<lambda>ds.
                  err_bind (run ds ns) (\<lambda>ns.
                  err_bind (scan_class ce links []) (\<lambda>ds.
                  err_bind (scan_single_bus ce links ''mmc'' ds) (\<lambda>ds.
                  err_bind (scan_single_bus ce links ''bluetooth'' ds) (\<lambda>ds.
                  err_bind (run ds ns) (\<lambda>ns.
                  err_bind (if \<not> ce_exists ce ''/sys/class/block''
                            then err_bind (scan_block ce links []) (\<lambda>ds. run ds ns)
                            else Inr ns) (\<lambda>(n, s).
                  err_bind (mdstat s) (\<lambda>s. Inr (True, n, s))))))))))"

end
