(* ===== verification/Hal_Util_Props.thy ===== *)
theory Hal_Util_Props
  imports Hal_Util
begin

text \<open>
  What the utility functions compute: interface names are those of the grammar, normalised paths are
  computed component by component, unique UDIs are unique and found, lines and numbers are read back
  from files as they were written, callouts run in order and end with one call of the callback.
\<close>

section \<open>Interface names\<close>

definition component_ok :: "string \<Rightarrow> bool" where
  "component_ok c \<longleftrightarrow> c \<noteq> [] \<and> valid_initial_name_character (hd c) \<and> list_all valid_name_character c"

lemma component_ok_Cons:
  "component_ok (b # c) \<longleftrightarrow> valid_initial_name_character b \<and> list_all valid_name_character c"
  by (auto simp: component_ok_def valid_initial_name_character_def)

lemma component_ok_Nil [simp]: "\<not> component_ok []"
  by (simp add: component_ok_def)

lemma dot_not_name [simp]: "\<not> valid_name_character (CHR ''.'')" "\<not> valid_initial_name_character (CHR ''.'')"
  by (auto simp: valid_name_character_def valid_initial_name_character_def is_alnum_def)

lemma split_all_Cons:
  "split_all sep (c # cs) =
     (if c = sep then [] # split_all sep cs
      else (c # hd (split_all sep cs)) # tl (split_all sep cs))"
  by (cases "split_all sep cs") auto

lemma interface_name_loop_iff:
  "interface_name_loop dot name \<longleftrightarrow>
     (let cs = split_all (CHR ''.'') name
      in list_all valid_name_character (hd cs) \<and> list_all component_ok (tl cs) \<and> (dot \<or> tl cs \<noteq> []))"
proof (induction dot name rule: interface_name_loop.induct)
  case (2 dot c)
  then show ?case by auto
next
  case (3 dot c b name)
  obtain p ps where ps: "split_all (CHR ''.'') name = p # ps"
    by (cases "split_all (CHR ''.'') name") auto
  show ?case
  proof (cases "c = CHR ''.''")
    case True
    show ?thesis
    proof (cases "valid_initial_name_character b")
      case valid: True
      then have b: "b \<noteq> CHR ''.''" by auto
      have "interface_name_loop dot (c # b # name) = interface_name_loop True name"
        using True valid by simp
      then show ?thesis
        using 3(1) [OF True] valid True b by (simp add: ps component_ok_Cons)
    next
      case False
      then show ?thesis using True by (auto simp: ps component_ok_Cons)
    qed
  next
    case False
    show ?thesis
    proof (cases "valid_name_character c")
      case True
      then show ?thesis using False 3(2) [OF False] by (simp add: ps)
    next
      case invalid: False
      then show ?thesis using False by (simp add: ps)
    qed
  qed
qed simp

text \<open>\<open>is_valid_interface_name\<close> accepts exactly the names that consist of two or more components
  separated by dots, each of which starts with a letter or an underscore and goes on with letters,
  digits and underscores.
\<close>

theorem is_valid_interface_name_iff:
  "is_valid_interface_name name \<longleftrightarrow>
     2 \<le> length (split_all (CHR ''.'') name) \<and> list_all component_ok (split_all (CHR ''.'') name)"
proof (cases name)
  case (Cons c rest)
  obtain p ps where ps: "split_all (CHR ''.'') rest = p # ps"
    by (cases "split_all (CHR ''.'') rest") auto
  show ?thesis
    using Cons ps
    by (auto simp: is_valid_interface_name_def interface_name_loop_iff split_all_Cons component_ok_Cons
        Suc_le_eq)
qed (simp add: is_valid_interface_name_def)

section \<open>Normalised paths\<close>

definition abs_path :: "string list \<Rightarrow> string" where
  "abs_path cs = concat (map (\<lambda>c. slash # c) cs)"

definition dotdots :: "nat \<Rightarrow> string \<Rightarrow> string" where
  "dotdots k rest = concat (replicate k ''../'') @ rest"

lemma dotdots_Suc: "dotdots (Suc k) rest = ''../'' @ dotdots k rest"
  by (simp add: dotdots_def)

lemma abs_path_snoc: "abs_path (cs @ [c]) = abs_path cs @ slash # c"
  by (simp add: abs_path_def)

lemma step_back_append: "p \<le> length s \<Longrightarrow> step_back (s @ t) p = step_back s p"
  by (induction p) (auto simp: nth_append)

lemma step_back_component:
  "slash \<notin> set c \<Longrightarrow> step_back (u @ slash # c) (Suc (length u + length c)) = Inr (length u)"
proof (induction c rule: rev_induct)
  case (snoc x c)
  have "step_back (u @ slash # c @ [x]) (Suc (length u + length c)) = Inr (length u)"
    using snoc step_back_append [of "Suc (length u + length c)" "u @ slash # c" "[x]"] by simp
  then show ?case using snoc.prems by (auto simp: nth_append)
qed simp

lemma normalize_loop_dotdots:
  assumes "list_all (\<lambda>c. slash \<notin> set c) cs" and "\<not> prefix ''../'' rest"
  shows "normalize_loop (abs_path cs @ t) (length (abs_path cs)) (dotdots k rest) =
           (if length cs < k then Inl Buffer_Overrun
            else Inr (length (abs_path (take (length cs - k) cs)), rest))"
  using assms(1)
proof (induction k arbitrary: cs t)
  case 0
  have "\<not> strncmp_eq rest ''../'' 3"
    using assms(2) strncmp_eq_prefix [of rest "''../''"] by (simp add: numeral_3_eq_3)
  then show ?case by (simp add: normalize_loop.simps dotdots_def)
next
  case (Suc k)
  have unfold: "normalize_loop (abs_path cs @ t) (length (abs_path cs)) (dotdots (Suc k) rest) =
      (case step_back (abs_path cs @ t) (length (abs_path cs)) of
         Inl e \<Rightarrow> Inl e | Inr p1 \<Rightarrow> normalize_loop (abs_path cs @ t) p1 (dotdots k rest))"
    unfolding dotdots_Suc by (subst normalize_loop.simps) (simp add: strncmp_eq_def split: sum.split)
  show ?case
  proof (cases cs rule: rev_cases)
    case Nil
    then show ?thesis using unfold by (simp add: abs_path_def)
  next
    case (snoc ds c)
    then have up1: "step_back (abs_path cs @ t) (length (abs_path cs)) = Inr (length (abs_path ds))"
      using Suc.prems step_back_component [of c "abs_path ds"] step_back_append [of "length (abs_path cs)" "abs_path cs" t]
      by (simp add: abs_path_snoc del: step_back.simps)
    have path: "abs_path ds @ slash # c @ t = abs_path cs @ t" using snoc by (simp add: abs_path_snoc)
    show ?thesis
      unfolding unfold up1 using Suc.IH [of ds "slash # c @ t"] Suc.prems snoc by (simp add: path)
  qed
qed

text \<open>\<open>hal_util_get_normalized_path\<close> of an absolute path and a target that starts with \<open>k\<close> times
  \<open>../\<close>: with at least \<open>k\<close> components in the path it drops the last \<open>k\<close> of them and appends the rest of
  the target. With fewer components it reads the byte before the path (the check that was to return
  \<open>NULL\<close> comes after that access), and with 512 bytes or more left it overruns its buffer.
\<close>

theorem normalized_path_outcome:
  assumes "list_all (\<lambda>c. slash \<notin> set c) cs" and "\<not> prefix ''../'' rest"
  shows "hal_util_get_normalized_path (abs_path cs) (dotdots k rest) =
           (let up = abs_path (take (length cs - k) cs)
            in if length cs < k \<or> HAL_PATH_MAX \<le> length up then Inl Buffer_Overrun
               else Inr (up @ slash # rest))"
proof -
  have split: "abs_path cs = abs_path (take n cs) @ abs_path (drop n cs)" for n
    by (metis abs_path_def append_take_drop_id concat_append map_append)
  have "take (length (abs_path (take n cs))) (abs_path cs) = abs_path (take n cs)" for n
    by (subst split [of n]) simp
  then show ?thesis
    using normalize_loop_dotdots [OF assms, of "[]" k] by (simp add: hal_util_get_normalized_path_def)
qed

theorem normalized_path_outcome_witness:
  "hal_util_get_normalized_path (abs_path [''sys'', ''class'', ''net'']) (dotdots 2 ''devices/x'') =
     Inr ''/sys/devices/x''"
proof -
  have "\<not> prefix ''../'' ''devices/x''" by simp
  then show ?thesis
    using normalized_path_outcome [of "[''sys'', ''class'', ''net'']" "''devices/x''" 2]
    by (simp add: abs_path_def slash_def HAL_PATH_MAX_def)
qed

section \<open>Numbers\<close>

lemma digit_value_digit_char:
  assumes "0 \<le> d" and "d < 10"
  shows "digit_value (digit_char d) = Some d"
proof -
  have "d = 0 \<or> d = 1 \<or> d = 2 \<or> d = 3 \<or> d = 4 \<or> d = 5 \<or> d = 6 \<or> d = 7 \<or> d = 8 \<or> d = 9"
    using assms by presburger
  then show ?thesis by (auto simp: digit_value_def digit_char_def)
qed

definition decimal :: "string \<Rightarrow> bool" where
  "decimal s \<longleftrightarrow> (\<forall>c \<in> set s. \<exists>v. digit_value c = Some v \<and> 0 \<le> v \<and> v < 10)"

lemma parse_digits_append:
  "decimal s \<Longrightarrow> parse_digits 10 acc (s @ t) = parse_digits 10 (parse_digits 10 acc s) t"
  by (induction s arbitrary: acc) (auto simp: decimal_def)

lemma nat_to_string_decimal: "0 \<le> n \<Longrightarrow> decimal (nat_to_string n)"
proof (induction n rule: nat_to_string.induct)
  case (1 n)
  show ?case
  proof (cases "n < 10")
    case True
    then show ?thesis
      using 1(2) by (subst nat_to_string.simps) (simp add: decimal_def digit_value_digit_char)
  next
    case False
    then have "decimal (nat_to_string (n div 10))" using 1 by simp
    then show ?thesis
      using False by (subst nat_to_string.simps) (auto simp: decimal_def digit_value_digit_char)
  qed
qed

lemma parse_nat_to_string: "0 \<le> n \<Longrightarrow> parse_digits 10 0 (nat_to_string n) = n"
proof (induction n rule: nat_to_string.induct)
  case (1 n)
  show ?case
  proof (cases "n < 10")
    case True
    then show ?thesis
      using 1(2) by (subst nat_to_string.simps) (simp add: digit_value_digit_char)
  next
    case False
    then have "parse_digits 10 0 (nat_to_string (n div 10)) = n div 10" using 1 by simp
    then show ?thesis
      using False 1(2)
      by (subst nat_to_string.simps)
        (simp add: parse_digits_append nat_to_string_decimal digit_value_digit_char)
  qed
qed

lemma nat_to_string_small: "n < 10 \<Longrightarrow> nat_to_string n = [digit_char n]"
  by (subst nat_to_string.simps) simp

lemma nat_to_string_not_Nil [simp]: "nat_to_string n \<noteq> []"
  by (subst nat_to_string.simps) simp

lemma nat_to_string_inj: "0 \<le> m \<Longrightarrow> 0 \<le> n \<Longrightarrow> nat_to_string m = nat_to_string n \<Longrightarrow> m = n"
  by (metis parse_nat_to_string)

lemma int_to_string_inj_nat: "int_to_string (int i) = int_to_string (int j) \<Longrightarrow> i = j"
  using nat_to_string_inj [of "int i" "int j"] by (simp add: int_to_string_def)

section \<open>Unique UDIs\<close>

definition udi_name :: "string \<Rightarrow> nat \<Rightarrow> string" where
  "udi_name original_udi i = original_udi @ ''_'' @ int_to_string (int i)"

lemma udi_name_inj: "inj_on (udi_name u) A"
  by (rule inj_onI) (auto simp: udi_name_def dest: int_to_string_inj_nat)

lemma find_udi_None: "find_udi h u xs = None \<longleftrightarrow> u \<notin> (\<lambda>x. udi (h x)) ` set xs"
  by (induction xs) (auto simp: hal_device_get_udi_def)

text \<open>Among one name more than there are devices, one is free.\<close>

lemma free_udi_name:
  "\<exists>i \<le> length (devices store). hal_device_store_find h (udi_name u i) store = None"
proof (rule ccontr)
  let ?used = "(\<lambda>x. udi (h x)) ` set (devices store)"
  assume "\<not> ?thesis"
  then have "udi_name u ` {..length (devices store)} \<subseteq> ?used"
    by (auto simp: hal_device_store_find_def find_udi_None)
  then have "card (udi_name u ` {..length (devices store)}) \<le> card ?used"
    by (intro card_mono) auto
  also have "\<dots> \<le> length (devices store)"
    by (meson card_image_le card_length finite_set le_trans)
  finally show False by (simp add: card_image udi_name_inj)
qed

lemma make_udi_loop_finds:
  assumes "hal_device_store_find h (udi_name u j) store = None" and "i \<le> j" and "j < i + fuel"
    and "\<forall>k \<le> j. length (udi_name u k) < n"
  shows "\<exists>k \<le> j. make_udi_loop fuel h store n u i = Inr (udi_name u k) \<and>
           hal_device_store_find h (udi_name u k) store = None"
  using assms
proof (induction fuel arbitrary: i)
  case (Suc fuel)
  let ?u = "udi_name u i"
  have fits: "snprintf n (u @ CHR ''_'' # int_to_string (int i)) = ?u"
    using Suc.prems by (simp add: udi_name_def snprintf_fits)
  show ?case
  proof (cases "hal_device_store_find h ?u store = None")
    case True
    then show ?thesis using fits Suc.prems(2) by auto
  next
    case False
    then have "i \<noteq> j" using Suc.prems(1) by auto
    then show ?thesis
      using Suc.IH [of "Suc i"] Suc.prems False by (auto simp: fits Let_def)
  qed
qed simp

text \<open>When the buffer has room for the numbered names, \<open>hal_util_make_udi_unique\<close> ends after at most
  one round more than there are devices in the store, and what it returns is the original UDI, or the
  original with a number, and is not the UDI of a device of the store.
\<close>

theorem make_udi_unique_ends:
  assumes "length u < n" and "\<forall>k \<le> length (devices store). length (udi_name u k) < n"
    and "length (devices store) < fuel"
  shows "\<exists>v. hal_util_make_udi_unique fuel h store n u = Inr v \<and>
           hal_device_store_find h v store = None \<and> (v = u \<or> (\<exists>k. v = udi_name u k))"
proof (cases "hal_device_store_find h u store = None")
  case True
  then show ?thesis using assms(1) by (simp add: hal_util_make_udi_unique_def snprintf_fits)
next
  case False
  obtain j where j: "j \<le> length (devices store)" "hal_device_store_find h (udi_name u j) store = None"
    using free_udi_name by blast
  have "\<forall>k \<le> j. length (udi_name u k) < n" using j(1) assms(2) by simp
  from make_udi_loop_finds [OF j(2) _ _ this, of 0 fuel] j(1) assms(3)
  show ?thesis using False by (auto simp: hal_util_make_udi_unique_def)
qed

definition udi_store :: device_store where
  "udi_store = hal_device_store_new\<lparr>devices := [7]\<rparr>"

definition udi_heap :: heap where
  "udi_heap = (\<lambda>_. \<lparr>udi = ''/x'', num_addons = 0, num_addons_ready = 0, props = []\<rparr>)"

theorem make_udi_unique_ends_witness:
  "\<exists>v. hal_util_make_udi_unique 2 udi_heap udi_store 256 ''/x'' = Inr v \<and>
     hal_device_store_find udi_heap v udi_store = None \<and> (v = ''/x'' \<or> (\<exists>k. v = udi_name ''/x'' k))"
proof -
  have "length (udi_name ''/x'' k) < 256" if "k \<le> 1" for k
  proof -
    have "k = 0 \<or> k = 1" using that by auto
    then show ?thesis
      by (auto simp: udi_name_def int_to_string_def nat_to_string_small)
  qed
  then show ?thesis
    by (intro make_udi_unique_ends) (auto simp: udi_store_def hal_device_store_new_def)
qed

text \<open>A UDI that fills the buffer leaves no room for the number: the loop meets the same name forever.\<close>

lemma make_udi_loop_full_buffer:
  assumes "n \<le> Suc (length u)" and "hal_device_store_find h (take (n - 1) u) store \<noteq> None"
  shows "make_udi_loop fuel h store n u i = Inl Out_Of_Fuel"
  using assms
proof (induction fuel arbitrary: i)
  case (Suc fuel)
  then have "n - 1 \<le> length u" by simp
  then have "snprintf n (u @ w) = take (n - 1) u" for w by (simp add: snprintf_def)
  then show ?case using Suc by (simp add: Let_def)
qed simp

theorem make_udi_unique_full_buffer:
  assumes "n \<le> Suc (length u)" and "hal_device_store_find h u store \<noteq> None"
    and "hal_device_store_find h (take (n - 1) u) store \<noteq> None"
  shows "hal_util_make_udi_unique fuel h store n u = Inl Out_Of_Fuel"
  using assms make_udi_loop_full_buffer by (simp add: hal_util_make_udi_unique_def)

section \<open>Callouts\<close>

text \<open>What a callout does over its life, each step started by the end of the previous program.\<close>

fun callout_life :: "nat \<Rightarrow> callout_action \<times> callout option \<Rightarrow> callout_action list" where
  "callout_life fuel (a, None) = [a]"
| "callout_life 0 (a, Some c) = [a]"
| "callout_life (Suc fuel) (a, Some c) = a # callout_life fuel (callout_terminated c)"

lemma callout_life_from:
  assumes "co_next_program c \<le> length (co_programs c)"
    and "length (co_programs c) - co_next_program c \<le> fuel"
  shows "callout_life fuel (callout_do_next c) =
           map (\<lambda>p. RUN (co_device c) p (co_extra_env c)) (drop (co_next_program c) (co_programs c)) @
           [CALLBACK (co_device c)]"
  using assms
proof (induction "length (co_programs c) - co_next_program c" arbitrary: c fuel)
  case 0
  then show ?case by (simp add: callout_do_next_def)
next
  case (Suc n)
  then have less: "co_next_program c < length (co_programs c)" by simp
  from Suc obtain f where f: "fuel = Suc f" by (cases fuel) auto
  show ?case
    using Suc.hyps(1) [of "c\<lparr>co_next_program := Suc (co_next_program c)\<rparr>" f] Suc.hyps(2) Suc.prems less f
    by (subst callout_do_next_def) (simp add: callout_terminated_def Cons_nth_drop_Suc [symmetric])
qed

theorem callout_runs_all:
  "length programs \<le> fuel \<Longrightarrow>
     callout_life fuel (hal_callout_device dev programs env) =
       map (\<lambda>p. RUN dev p env) programs @ [CALLBACK dev]"
  using callout_life_from
      [of "\<lparr>co_device = dev, co_programs = programs, co_extra_env = env, co_next_program = 0\<rparr>" fuel]
  by (simp add: hal_callout_device_def)

section \<open>Reading numbers back\<close>

lemma decimal_no_space:
  assumes "digit_value c = Some v" and "0 \<le> v" and "v < 10"
  shows "\<not> is_space c" and "c \<noteq> nul" and "c \<noteq> newline" and "c \<noteq> CHR ''-''" and "c \<noteq> CHR ''+''"
proof -
  have range: "48 \<le> (of_char c :: int) \<and> (of_char c :: int) \<le> 57"
    using assms by (auto simp: digit_value_def Let_def split: if_splits)
  then have "48 \<le> (of_char c :: nat)" by (metis nat_int_comparison(3) of_nat_numeral of_nat_of_char)
  then show "\<not> is_space c" by (simp add: is_space_def)
  from range show "c \<noteq> nul" and "c \<noteq> newline" and "c \<noteq> CHR ''-''" and "c \<noteq> CHR ''+''"
    by (auto simp: nul_def newline_def)
qed

lemma length_nat_to_string: "0 \<le> n \<Longrightarrow> n < 10 ^ k \<Longrightarrow> 0 < k \<Longrightarrow> length (nat_to_string n) \<le> k"
proof (induction k arbitrary: n)
  case (Suc k)
  show ?case
  proof (cases "n < 10")
    case False
    then have "0 < k" using Suc.prems by (cases k) auto
    then have "length (nat_to_string (n div 10)) \<le> k" using Suc by simp
    then show ?thesis using False by (subst nat_to_string.simps) simp
  qed (simp add: nat_to_string_small)
qed simp

definition plain :: "string \<Rightarrow> bool" where
  "plain s \<longleftrightarrow> (\<forall>c \<in> set s. \<not> is_space c \<and> c \<noteq> nul)"

lemma plain_not_newline: "plain s \<Longrightarrow> newline \<notin> set s"
  by (auto simp: plain_def newline_def is_space_def)

lemma decimal_plain: "decimal s \<Longrightarrow> plain s"
  unfolding decimal_def plain_def using decimal_no_space by blast

lemma int_to_string_plain: "plain (int_to_string i)"
  using decimal_plain [OF nat_to_string_decimal [of "- i"]] decimal_plain [OF nat_to_string_decimal [of i]]
  by (auto simp: int_to_string_def plain_def is_space_def nul_def)

lemma int_to_string_not_Nil [simp]: "int_to_string i \<noteq> []"
  by (simp add: int_to_string_def)

lemma digit_value_newline: "digit_value newline = None"
  by (simp add: digit_value_def newline_def)

lemma strtol_10_nat:
  assumes "0 \<le> n"
  shows "digits_of 10 s = (10, s)"
    and "parse_digits 10 0 (nat_to_string n @ [newline]) = n"
    and "parse_sign (nat_to_string n @ [newline]) = (False, nat_to_string n @ [newline])"
    and "\<exists>v. digit_value (hd (nat_to_string n @ [newline])) = Some v \<and> v < 10"
proof -
  show "digits_of 10 s = (10, s)" by (simp add: digits_of_def)
  note dec = nat_to_string_decimal [OF assms]
  show "parse_digits 10 0 (nat_to_string n @ [newline]) = n"
    using assms by (simp add: parse_digits_append dec parse_nat_to_string digit_value_newline)
  obtain c cs where cs: "nat_to_string n = c # cs" by (cases "nat_to_string n") auto
  then obtain v where v: "digit_value c = Some v" "0 \<le> v" "v < 10" using dec by (auto simp: decimal_def)
  then show "\<exists>v. digit_value (hd (nat_to_string n @ [newline])) = Some v \<and> v < 10" by (simp add: cs)
  show "parse_sign (nat_to_string n @ [newline]) = (False, nat_to_string n @ [newline])"
    using decimal_no_space [OF v] by (simp add: cs)
qed

lemma strtol_10_line: "strtol 10 (int_to_string i @ [newline]) = (True, i)"
proof -
  have sp: "dropWhile is_space (int_to_string i @ [newline]) = int_to_string i @ [newline]"
    using int_to_string_plain [of i] by (cases "int_to_string i") (auto simp: plain_def)
  show ?thesis
  proof (cases "i < 0")
    case True
    then show ?thesis
      using strtol_10_nat [of "- i"] sp by (auto simp: strtol_def int_to_string_def split: option.splits)
  next
    case False
    then show ?thesis
      using strtol_10_nat [of i] sp by (auto simp: strtol_def int_to_string_def split: option.splits)
  qed
qed

lemma upto_newline_line: "newline \<notin> set s \<Longrightarrow> upto_newline (s @ [newline]) = s @ [newline]"
  by (induction s) auto

lemma fgets_plain_line:
  assumes "plain s" and "length s + 2 \<le> n"
  shows "fgets n (s @ [newline]) = Some (s @ [newline])"
proof -
  have "\<forall>c \<in> set (s @ [newline]). c \<noteq> nul" using assms(1) by (auto simp: plain_def newline_def nul_def)
  then have "cut_at_nul (s @ [newline]) = s @ [newline]" by (simp add: cut_at_nul_def del: set_append)
  then show ?thesis using assms by (simp add: fgets_def upto_newline_line plain_not_newline)
qed

lemma length_int_to_string: "\<bar>i\<bar> < 10 ^ k \<Longrightarrow> 0 < k \<Longrightarrow> length (int_to_string i) \<le> Suc k"
  using length_nat_to_string [of i k] length_nat_to_string [of "- i" k] by (auto simp: int_to_string_def)

text \<open>An integer of 32 bits written in decimal on a line of a file is read back by
  \<open>hal_util_get_int_from_file\<close> and stored by \<open>hal_util_set_int_from_file\<close> unchanged.
\<close>

theorem int_from_file_roundtrip:
  assumes "fs (file_path directory file) = Some (int_to_string (sint v) @ [newline])"
  shows "hal_util_get_int_from_file fs directory file 10 = Some v"
    and "hal_util_set_int_from_file fs key directory file 10 d = hal_device_property_set_int key v d"
proof -
  have range: "- (2 ^ 31) \<le> sint v \<and> sint v < 2 ^ 31" using sint_lt [of v] sint_ge [of v] by simp
  then have "\<bar>sint v\<bar> < 10 ^ 10" by simp linarith
  then have "length (int_to_string (sint v)) \<le> 11" using length_int_to_string [of "sint v" 10] by simp
  then have fg: "fgets 64 (int_to_string (sint v) @ [newline]) = Some (int_to_string (sint v) @ [newline])"
    by (intro fgets_plain_line int_to_string_plain) simp
  have lr: "long_range (sint v)" using range by (simp add: long_range_def)
  show get: "hal_util_get_int_from_file fs directory file 10 = Some v"
    using assms by (simp add: hal_util_get_int_from_file_def fg strtol_10_line lr)
  show "hal_util_set_int_from_file fs key directory file 10 d = hal_device_property_set_int key v d"
    by (simp add: hal_util_set_int_from_file_def get)
qed

theorem int_from_file_roundtrip_witness:
  "hal_util_get_int_from_file (\<lambda>_. Some (int_to_string (sint (- 5 :: int32)) @ [newline])) ''/sys'' ''range'' 10 = Some (- 5)"
  by (rule int_from_file_roundtrip(1)) simp

section \<open>Searching lines\<close>

text \<open>The lines of a buffer; a newline or NUL at its very end does not start another line.\<close>

definition nul_to_newline :: "char \<Rightarrow> char" where
  "nul_to_newline c = (if c = nul then newline else c)"

definition file_lines :: "string \<Rightarrow> string list" where
  "file_lines p =
     (let ls = split_all newline (map nul_to_newline p)
      in if 1 < length ls \<and> last ls = [] then butlast ls else ls)"

lemma in_line_map: "list_all in_line l \<Longrightarrow> map nul_to_newline l = l \<and> newline \<notin> set l"
  by (induction l) (auto simp: in_line_def nul_to_newline_def)

lemma split_all_one_empty: "split_all sep s = [[]] \<Longrightarrow> s = []"
  by (metis join_split_all join.simps(2))

lemma file_lines_Cons:
  "file_lines p = line_of p # (if after_line p = [] then [] else file_lines (after_line p))"
proof -
  let ?l = "line_of p"
  let ?ls = "\<lambda>q. split_all newline (map nul_to_newline q)"
  have l: "map nul_to_newline ?l = ?l" "newline \<notin> set ?l"
    using in_line_map [of ?l] by (auto simp: line_of_def list_all_iff dest: set_takeWhileD)
  show ?thesis
  proof (cases "dropWhile in_line p")
    case Nil
    then have "?l = p" by (metis line_of_def append_Nil2 takeWhile_dropWhile_id)
    then show ?thesis using l by (simp add: file_lines_def after_line_def split_all_single)
  next
    case (Cons t rest)
    then have p: "p = ?l @ t # rest" by (metis line_of_def takeWhile_dropWhile_id)
    then have rest: "after_line p = rest"
      by (metis (no_types, opaque_lifting) Suc_eq_plus1_left after_line_def append_Nil append_eq_conv_conj
          drop_Suc_Cons drop_append drop0 diff_self_eq_0 drop_drop length_append)
    have "\<not> in_line t" using Cons by (metis hd_dropWhile list.distinct(1) list.sel(1))
    then have t: "nul_to_newline t = newline" by (auto simp: in_line_def nul_to_newline_def)
    have split: "?ls p = ?l # ?ls rest"
      by (subst p) (simp add: l t split_all_append)
    show ?thesis
    proof (cases "rest = []")
      case True
      then show ?thesis using split rest by (simp add: file_lines_def)
    next
      case False
      then have "?ls rest \<noteq> [[]]" using split_all_one_empty [of newline "map nul_to_newline rest"] by auto
      then have "last (?ls rest) = [] \<Longrightarrow> 1 < length (?ls rest)"
        by (cases "?ls rest") (auto split: if_splits)
      then show ?thesis using split rest False by (auto simp: file_lines_def Let_def)
    qed
  qed
qed

definition line_hit :: "string \<Rightarrow> string \<Rightarrow> bool" where
  "line_hit linestart l \<longleftrightarrow> length l < 256 \<and> prefix linestart l"

lemma line_matches_hit: "line_matches linestart p \<longleftrightarrow> line_hit linestart (line_of p)"
  by (simp add: line_matches_def line_hit_def strncmp_eq_prefix)

lemma grep_lines_find:
  "grep_lines linestart p = map_option (drop (length linestart)) (List.find (line_hit linestart) (file_lines p))"
proof (induction linestart p rule: grep_lines.induct)
  case (1 linestart p)
  show ?case
    using 1 by (subst grep_lines.simps, subst file_lines_Cons) (simp add: line_matches_hit)
qed

text \<open>\<open>hal_util_grep_file\<close>, when it does not reuse its buffer, looks at the first 2047 bytes of the
  file and returns what follows \<open>linestart\<close> on the first line that starts with it and is shorter
  than 256 bytes, or \<open>NULL\<close> when there is none.
\<close>

theorem grep_file_first_line:
  assumes "fs (file_path directory f) = Some contents" and "f \<noteq> []"
  shows "\<exists>g'. hal_util_grep_file fs directory (Some f) linestart False g =
           Inr (map_option (drop (length linestart))
                  (List.find (line_hit linestart) (file_lines (take 2047 contents))), g')"
  using assms by (simp add: hal_util_grep_file_def grep_filename_def grep_load_def grep_lines_find)

definition battery_info :: string where
  "battery_info = ''present: yes'' @ [newline] @ ''design voltage: 10800 mV'' @ [newline]"

theorem grep_file_first_line_witness:
  "\<exists>g'. hal_util_grep_file (\<lambda>_. Some battery_info) ''/proc/acpi/battery/BAT0'' (Some ''info'') ''design voltage'' False grep_init =
     Inr (Some '': 10800 mV'', g')"
proof -
  have "map_option (drop (length ''design voltage''))
          (List.find (line_hit ''design voltage'') (file_lines (take 2047 battery_info))) = Some '': 10800 mV''"
    by (simp add: battery_info_def file_lines_def nul_to_newline_def nul_def newline_def line_hit_def Let_def)
  then show ?thesis
    using grep_file_first_line
      [of "\<lambda>_. Some battery_info" "''/proc/acpi/battery/BAT0''" "''info''" battery_info "''design voltage''" grep_init]
    by (simp only: simp_thms list.simps)
qed

lemma line_of_line: "list_all in_line l \<Longrightarrow> line_of (l @ newline # r) = l"
  by (auto simp: line_of_def list_all_iff in_line_def takeWhile_eq_all_conv takeWhile_append2)

text \<open>\<open>hal_util_grep_file_next_line\<close> overruns its 256-byte line buffer when the line after the first
  matching one has 256 bytes or more.
\<close>

theorem grep_next_line_overruns:
  assumes "fs (file_path directory f) = Some (l @ newline # m)" and "f \<noteq> []"
    and "list_all in_line l" and "list_all in_line m"
    and "line_hit linestart l" and "256 \<le> length m"
  shows "hal_util_grep_file_next_line fs directory (Some f) linestart False g = Inl Buffer_Overrun"
proof -
  let ?m = "take (2046 - length l) m"
  have "length l < 256" using assms(5) by (simp add: line_hit_def)
  then have buf: "take 2047 (l @ newline # m) = l @ newline # ?m" and len: "256 \<le> length ?m"
    using assms(6) by (auto simp: take_Cons' Suc_diff_le)
  have m: "list_all in_line ?m" using assms(4) by (auto simp: list_all_iff dest: in_set_takeD)
  then have line2: "line_of ?m = ?m" by (simp add: line_of_def list_all_iff takeWhile_eq_all_conv)
  have line1: "line_of (l @ newline # ?m) = l" by (rule line_of_line [OF assms(3)])
  have rest: "after_line (l @ newline # ?m) = ?m" unfolding after_line_def line1 by simp
  have "grep_lines_next linestart (l @ newline # ?m) = Inl Buffer_Overrun"
    using len assms(5) by (subst grep_lines_next.simps) (auto simp: line_matches_hit line1 rest line2)
  then show ?thesis
    using assms(1,2) by (simp add: hal_util_grep_file_next_line_def grep_filename_def grep_load_def buf
        del: take_append)
qed

theorem grep_next_line_overruns_witness:
  "hal_util_grep_file_next_line (\<lambda>_. Some (''flags'' @ newline # replicate 300 (CHR ''x''))) ''/proc'' (Some ''cpuinfo'') ''flags'' False grep_init =
     Inl Buffer_Overrun"
  by (rule grep_next_line_overruns [of _ _ _ "''flags''" "replicate 300 (CHR ''x'')"])
    (auto simp: in_line_def newline_def nul_def line_hit_def list_all_iff)

end
