(* ===== verification/Hal_Uevent_Props.thy ===== *)
theory Hal_Uevent_Props
  imports Hal_Uevent Hal_Hotplug_Live Hal_Util_Props
begin

text \<open>
  Events made from messages and from the udev database: their strings fit the buffers, a message
  gives exactly the event its keys describe, and the devices found at start are put in an order in
  which parents come before their children.
\<close>

section \<open>Strings fit their buffers\<close>

definition sysfs_fits :: "sysfs_data \<Rightarrow> bool" where
  "sysfs_fits sd \<longleftrightarrow>
     list_all (\<lambda>x. length x < HAL_PATH_MAX) [sysfs_path sd, sysfs_path_old sd, device_file sd] \<and>
     list_all (\<lambda>x. length x < HAL_NAME_MAX)
       [subsystem sd, id_vendor sd, id_model sd, id_revision sd, id_serial sd, fsusage sd, fstype sd,
        fsversion sd, fslabel sd, fsuuid sd]"

fun event_fits :: "hotplug_data \<Rightarrow> bool" where
  "event_fits (Sysfs k sd) = sysfs_fits sd"
| "event_fits (Acpi t p) = (length p < HAL_PATH_MAX)"
| "event_fits (Apm t p) = (length p < HAL_PATH_MAX)"
| "event_fits (Pmu t p) = (length p < HAL_PATH_MAX)"
| "event_fits (Unknown_Type t) = True"

lemma zero_fits [simp]: "sysfs_fits zero_sysfs"
  by (simp add: sysfs_fits_def zero_sysfs_def HAL_PATH_MAX_def HAL_NAME_MAX_def)

lemma buffer_sizes [simp]:
  "length (take (HAL_PATH_MAX - 1) s) < HAL_PATH_MAX"
  "length (take (HAL_NAME_MAX - 1) s) < HAL_NAME_MAX"
  "length (snprintf HAL_PATH_MAX s) < HAL_PATH_MAX"
  "length (strlcpy HAL_PATH_MAX x) < HAL_PATH_MAX"
  "length (strlcpy HAL_NAME_MAX x) < HAL_NAME_MAX"
  "length (strlcpy HAL_NAME_MAX x) < HAL_PATH_MAX"
  by (auto simp: HAL_PATH_MAX_def HAL_NAME_MAX_def snprintf_def strlcpy_def split: option.splits)

lemma name_text_fits: "length (take (HAL_NAME_MAX - Suc 0) s) < HAL_NAME_MAX" "length (take (HAL_PATH_MAX - Suc 0) s) < HAL_PATH_MAX"
  by (simp_all add: HAL_NAME_MAX_def HAL_PATH_MAX_def)

lemma udev_text_fits [simp]: "length f < HAL_NAME_MAX \<Longrightarrow> length (udev_text G v f) < HAL_NAME_MAX"
  unfolding udev_text_def using name_text_fits by (auto split: option.splits simp del: length_take)

lemma udev_opt_text_fits [simp]: "length (udev_opt_text G v) < HAL_NAME_MAX"
  unfolding udev_opt_text_def
  by (cases "hal_util_strdup_valid_utf8 G v") (simp_all add: HAL_NAME_MAX_def)

lemma strlcat_fits: "length s < n \<Longrightarrow> length (strlcat n s t) < n"
  by (auto simp: strlcat_def)

lemma fits_update:
  assumes "sysfs_fits sd"
  shows "length v < HAL_PATH_MAX \<Longrightarrow> sysfs_fits (sd\<lparr>sysfs_path := v\<rparr>)"
    and "length v < HAL_PATH_MAX \<Longrightarrow> sysfs_fits (sd\<lparr>sysfs_path_old := v\<rparr>)"
    and "length v < HAL_PATH_MAX \<Longrightarrow> sysfs_fits (sd\<lparr>device_file := v\<rparr>)"
    and "length v < HAL_NAME_MAX \<Longrightarrow> sysfs_fits (sd\<lparr>subsystem := v\<rparr>)"
    and "length v < HAL_NAME_MAX \<Longrightarrow> sysfs_fits (sd\<lparr>id_vendor := v\<rparr>)"
    and "length v < HAL_NAME_MAX \<Longrightarrow> sysfs_fits (sd\<lparr>id_model := v\<rparr>)"
    and "length v < HAL_NAME_MAX \<Longrightarrow> sysfs_fits (sd\<lparr>id_revision := v\<rparr>)"
    and "length v < HAL_NAME_MAX \<Longrightarrow> sysfs_fits (sd\<lparr>id_serial := v\<rparr>)"
    and "length v < HAL_NAME_MAX \<Longrightarrow> sysfs_fits (sd\<lparr>fsusage := v\<rparr>)"
    and "length v < HAL_NAME_MAX \<Longrightarrow> sysfs_fits (sd\<lparr>fstype := v\<rparr>)"
    and "length v < HAL_NAME_MAX \<Longrightarrow> sysfs_fits (sd\<lparr>fsversion := v\<rparr>)"
    and "length v < HAL_NAME_MAX \<Longrightarrow> sysfs_fits (sd\<lparr>fslabel := v\<rparr>)"
    and "length v < HAL_NAME_MAX \<Longrightarrow> sysfs_fits (sd\<lparr>fsuuid := v\<rparr>)"
    and "sysfs_fits (sd\<lparr>seqnum := n\<rparr>)" and "sysfs_fits (sd\<lparr>net_ifindex := i\<rparr>)"
    and "sysfs_fits (sd\<lparr>is_dm_device := b\<rparr>)"
  using assms by (simp_all add: sysfs_fits_def)

lemma fits_field:
  assumes "sysfs_fits sd"
  shows "length (id_vendor sd) < HAL_NAME_MAX" "length (id_model sd) < HAL_NAME_MAX"
    "length (id_revision sd) < HAL_NAME_MAX" "length (id_serial sd) < HAL_NAME_MAX"
    "length (fsusage sd) < HAL_NAME_MAX" "length (fstype sd) < HAL_NAME_MAX"
    "length (fsversion sd) < HAL_NAME_MAX" "length (fslabel sd) < HAL_NAME_MAX" "length (fsuuid sd) < HAL_NAME_MAX"
  using assms by (simp_all add: sysfs_fits_def)

lemma udev_key_fits_all:
  "sysfs_fits sd \<Longrightarrow> pred_option (\<lambda>(a, sd). sysfs_fits sd) (udev_key G key (a, sd))"
  unfolding udev_key_def prod.case sys_path_def
  by (simp add: fits_update fits_field name_text_fits del: length_take)

lemma udev_key_fits: "udev_key G key (a, sd) = Some (a', sd') \<Longrightarrow> sysfs_fits sd \<Longrightarrow> sysfs_fits sd'"
  using udev_key_fits_all [of sd G key a] by simp

lemma udev_keys_fits:
  "udev_keys G rest (a, sd) = Inr (Some (a', sd')) \<Longrightarrow> sysfs_fits sd \<Longrightarrow> sysfs_fits sd'"
proof (induction G rest "(a, sd)" arbitrary: a sd rule: udev_keys.induct)
  case (1 G rest)
  show ?case
  proof (cases "rest = [] \<or> length (cut_at_nul rest) = length rest \<or> cut_at_nul rest = []")
    case True
    then show ?thesis
      using "1.prems" by (subst (asm) udev_keys.simps) (auto simp: Let_def split: if_splits)
  next
    case False
    with "1.prems"(1) obtain a1 sd1 where k: "udev_key G (cut_at_nul rest) (a, sd) = Some (a1, sd1)"
      and r: "udev_keys G (drop (Suc (length (cut_at_nul rest))) rest) (a1, sd1) = Inr (Some (a', sd'))"
      by (subst (asm) udev_keys.simps) (auto simp: Let_def split: option.splits)
    show ?thesis
      using "1.hyps" [OF _ refl _ _ k r] False udev_key_fits [OF k "1.prems"(2)] by auto
  qed
qed

lemma udev_accept_data:
  assumes "udev_accept (a, sd) = Some e"
  shows "\<exists>b. he_data e = Sysfs SYSFS (sd\<lparr>is_dm_device := b\<rparr>)"
proof -
  have "sd = sd\<lparr>is_dm_device := is_dm_device sd\<rparr>" by simp
  then show ?thesis
    using assms unfolding udev_accept_def
    by (auto simp: Let_def split: option.splits if_splits) (rule exI [of _ "is_dm_device sd"], simp)+
qed

text \<open>Every event made from a message of udev has its strings within their buffers, whatever the
  message holds: keys of any length, repeated keys, unknown keys.
\<close>

theorem udev_event_fits:
  assumes "udev_parse G buf = Inr (Some e)"
  shows "event_fits (he_data e)"
proof -
  from assms obtain a sd where k: "udev_keys G buf (None, zero_sysfs) = Inr (Some (a, sd))"
    and e: "udev_accept (a, sd) = Some e"
    by (auto simp: udev_parse_def bind_eq_Some_conv split: if_splits)
  have "sysfs_fits sd" by (rule udev_keys_fits [OF k]) simp
  then show ?thesis using udev_accept_data [OF e] by (auto intro: fits_update)
qed

section \<open>Reading a message\<close>

text \<open>
  A message of udev is a header with the sequence \<open>@/\<close> in it and lines \<open>KEY=value\<close>, each ended by a
  NUL. What a message says is given by looking up its keys, whatever their order and whatever other
  keys there are.
\<close>

definition udev_bytes :: "string list \<Rightarrow> string" where
  "udev_bytes ls = concat (map (\<lambda>l. l @ [nul]) ls)"

definition message_line :: "string \<times> string \<Rightarrow> string" where
  "message_line kv = fst kv @ CHR ''='' # snd kv"

type_synonym udev_pairs = "(string \<times> string) list"

definition described_text :: "glib \<Rightarrow> udev_pairs \<Rightarrow> string \<Rightarrow> string" where
  "described_text G kvs k =
     (case hal_util_strdup_valid_utf8 G (map_of kvs k) of None \<Rightarrow> [] | Some str \<Rightarrow> take (HAL_NAME_MAX - 1) str)"

definition described_path :: "udev_pairs \<Rightarrow> string \<Rightarrow> string" where
  "described_path kvs k = (case map_of kvs k of None \<Rightarrow> [] | Some v \<Rightarrow> take (HAL_PATH_MAX - 1) (''/sys'' @ v))"

definition described_value :: "nat \<Rightarrow> udev_pairs \<Rightarrow> string \<Rightarrow> string" where
  "described_value n kvs k = (case map_of kvs k of None \<Rightarrow> [] | Some v \<Rightarrow> take (n - 1) v)"

definition described :: "glib \<Rightarrow> udev_pairs \<Rightarrow> sysfs_data" where
  "described G kvs =
     zero_sysfs\<lparr>
       sysfs_path := described_path kvs ''DEVPATH'',
       sysfs_path_old := described_path kvs ''DEVPATH_OLD'',
       subsystem := described_value HAL_NAME_MAX kvs ''SUBSYSTEM'',
       device_file := described_value HAL_PATH_MAX kvs ''DEVNAME'',
       seqnum := (case map_of kvs ''SEQNUM'' of None \<Rightarrow> 0 | Some v \<Rightarrow> strtoull10 v),
       net_ifindex := (case map_of kvs ''IFINDEX'' of None \<Rightarrow> 0 | Some v \<Rightarrow> strtoul_int v),
       id_vendor := described_text G kvs ''ID_VENDOR'',
       id_model := described_text G kvs ''ID_MODEL'',
       id_revision := described_text G kvs ''ID_REVISION'',
       id_serial := described_text G kvs ''ID_SERIAL'',
       fsusage := described_text G kvs ''ID_FS_USAGE'',
       fstype := described_text G kvs ''ID_FS_TYPE'',
       fsversion := described_text G kvs ''ID_FS_VERSION'',
       fsuuid := described_text G kvs ''ID_FS_UUID'',
       fslabel := described_text G kvs ''ID_FS_LABEL''\<rparr>"

definition value_starts :: "string \<Rightarrow> udev_pairs \<Rightarrow> string \<Rightarrow> bool" where
  "value_starts p kvs k = (case map_of kvs k of None \<Rightarrow> False | Some v \<Rightarrow> prefix p v)"

definition message_refused :: "udev_pairs \<Rightarrow> bool" where
  "message_refused kvs \<longleftrightarrow>
     map_of kvs ''DEVPATH'' = None \<or>
     value_starts ''/block/md'' kvs ''DEVPATH'' \<or> value_starts ''/block/md'' kvs ''DEVPATH_OLD'' \<or>
     map_of kvs ''SUBSYSTEM'' \<in> {None, Some [], Some ''drivers'', Some ''module''} \<or>
     value_starts ''/dev/mapper/temporary-cryptsetup-'' kvs ''DEVNAME''"

definition described_event :: "glib \<Rightarrow> udev_pairs \<Rightarrow> hotplug_event option" where
  "described_event G kvs =
     (if message_refused kvs then None
      else map_option
             (\<lambda>x. \<lparr>he_action = x,
                   he_data = Sysfs SYSFS ((described G kvs)\<lparr>is_dm_device := strstr (described_value HAL_PATH_MAX kvs ''DEVNAME'') ''/dm-''\<rparr>),
                   he_reposted = False\<rparr>)
             (Option.bind (map_of kvs ''ACTION'')
                (map_of [(''add'', HOTPLUG_ACTION_ADD), (''change'', HOTPLUG_ACTION_CHANGE),
                         (''move'', HOTPLUG_ACTION_MOVE), (''remove'', HOTPLUG_ACTION_REMOVE)])))"

text \<open>The keys of a message: different, and neither they nor their values hold a NUL.\<close>

definition message_ok :: "udev_pairs \<Rightarrow> bool" where
  "message_ok kvs \<longleftrightarrow>
     distinct (map fst kvs) \<and>
     list_all (\<lambda>(k, v). CHR ''='' \<notin> set k \<and> nul \<notin> set k \<and> nul \<notin> set v) kvs"

lemma cut_at_nul_line: "nul \<notin> set l \<Longrightarrow> cut_at_nul (l @ nul # r) = l"
  by (induction l) (auto simp: cut_at_nul_def)

lemma udev_keys_line:
  assumes "nul \<notin> set l" and "l \<noteq> []"
  shows "udev_keys G (l @ nul # r) st =
           (case udev_key G l st of None \<Rightarrow> Inr None | Some st' \<Rightarrow> udev_keys G r st')"
  using assms by (subst udev_keys.simps) (auto simp: cut_at_nul_line Let_def split: option.splits)

lemma udev_keys_end: "udev_keys G (replicate n nul) st = Inr (Some st)"
  by (subst udev_keys.simps) (cases n; simp add: cut_at_nul_def)

fun udev_fold :: "glib \<Rightarrow> string list \<Rightarrow> udev_state \<Rightarrow> udev_state option" where
  "udev_fold G [] st = Some st"
| "udev_fold G (l # ls) st = Option.bind (udev_key G l st) (udev_fold G ls)"

lemma udev_keys_bytes:
  assumes "list_all (\<lambda>l. nul \<notin> set l \<and> l \<noteq> []) ls"
  shows "udev_keys G (udev_bytes ls @ replicate n nul) st = Inr (udev_fold G ls st)"
  using assms
proof (induction ls arbitrary: st)
  case (Cons l ls)
  have "udev_bytes (l # ls) @ replicate n nul = l @ nul # (udev_bytes ls @ replicate n nul)" by (simp add: udev_bytes_def)
  then show ?case
    using Cons by (simp add: udev_keys_line split: option.splits)
qed (simp add: udev_keys_end udev_bytes_def)

lemma udev_fold_append: "udev_fold G (ls @ ls') st = Option.bind (udev_fold G ls st) (udev_fold G ls')"
  by (induction ls arbitrary: st) (auto split: bind_splits)

lemma has_key_prefix: "has_key k l \<longleftrightarrow> prefix k l"
  by (simp add: has_key_def strncmp_eq_prefix)

lemma has_key_line:
  assumes "CHR ''='' \<notin> set k" and "CHR ''='' \<notin> set K"
  shows "has_key (K @ ''='') (k @ CHR ''='' # v) \<longleftrightarrow> k = K"
  unfolding has_key_prefix using assms
proof (induction K arbitrary: k)
  case Nil
  then show ?case by (cases k) auto
next
  case (Cons x K)
  then show ?case by (cases k) auto
qed

lemma has_key_header:
  assumes "CHR ''='' \<notin> set h" and "CHR ''@'' \<notin> set K"
  shows "\<not> has_key (K @ ''='') (h @ CHR ''@'' # v)"
  unfolding has_key_prefix using assms
proof (induction K arbitrary: h)
  case Nil
  then show ?case by (cases h) auto
next
  case (Cons x K)
  then show ?case by (cases h) auto
qed

lemma udev_key_line:
  assumes "CHR ''='' \<notin> set k"
  shows "udev_key G (k @ CHR ''='' # v) (a, sd) =
     (if k = ''ACTION'' then Some (Some v, sd)
      else if k = ''DEVPATH''
      then (if prefix ''/block/md'' v then None else Some (a, sd\<lparr>sysfs_path := sys_path v\<rparr>))
      else if k = ''DEVPATH_OLD''
      then (if prefix ''/block/md'' v then None else Some (a, sd\<lparr>sysfs_path_old := sys_path v\<rparr>))
      else if k = ''SUBSYSTEM'' then Some (a, sd\<lparr>subsystem := take (HAL_NAME_MAX - 1) v\<rparr>)
      else if k = ''DEVNAME'' then Some (a, sd\<lparr>device_file := take (HAL_PATH_MAX - 1) v\<rparr>)
      else if k = ''SEQNUM'' then Some (a, sd\<lparr>seqnum := strtoull10 v\<rparr>)
      else if k = ''IFINDEX'' then Some (a, sd\<lparr>net_ifindex := strtoul_int v\<rparr>)
      else if k = ''ID_VENDOR'' then Some (a, sd\<lparr>id_vendor := udev_text G v (id_vendor sd)\<rparr>)
      else if k = ''ID_MODEL'' then Some (a, sd\<lparr>id_model := udev_text G v (id_model sd)\<rparr>)
      else if k = ''ID_REVISION'' then Some (a, sd\<lparr>id_revision := udev_text G v (id_revision sd)\<rparr>)
      else if k = ''ID_SERIAL'' then Some (a, sd\<lparr>id_serial := udev_text G v (id_serial sd)\<rparr>)
      else if k = ''ID_FS_USAGE'' then Some (a, sd\<lparr>fsusage := udev_text G v (fsusage sd)\<rparr>)
      else if k = ''ID_FS_TYPE'' then Some (a, sd\<lparr>fstype := udev_text G v (fstype sd)\<rparr>)
      else if k = ''ID_FS_VERSION'' then Some (a, sd\<lparr>fsversion := udev_text G v (fsversion sd)\<rparr>)
      else if k = ''ID_FS_UUID'' then Some (a, sd\<lparr>fsuuid := udev_text G v (fsuuid sd)\<rparr>)
      else if k = ''ID_FS_LABEL'' then Some (a, sd\<lparr>fslabel := udev_text G v (fslabel sd)\<rparr>)
      else Some (a, sd))"
proof -
  note h = has_key_line [OF assms]
  have keys: "has_key ''ACTION='' (k @ CHR ''='' # v) \<longleftrightarrow> k = ''ACTION''"
    "has_key ''DEVPATH='' (k @ CHR ''='' # v) \<longleftrightarrow> k = ''DEVPATH''"
    "has_key ''DEVPATH_OLD='' (k @ CHR ''='' # v) \<longleftrightarrow> k = ''DEVPATH_OLD''"
    "has_key ''SUBSYSTEM='' (k @ CHR ''='' # v) \<longleftrightarrow> k = ''SUBSYSTEM''"
    "has_key ''DEVNAME='' (k @ CHR ''='' # v) \<longleftrightarrow> k = ''DEVNAME''"
    "has_key ''SEQNUM='' (k @ CHR ''='' # v) \<longleftrightarrow> k = ''SEQNUM''"
    "has_key ''IFINDEX='' (k @ CHR ''='' # v) \<longleftrightarrow> k = ''IFINDEX''"
    "has_key ''ID_VENDOR='' (k @ CHR ''='' # v) \<longleftrightarrow> k = ''ID_VENDOR''"
    "has_key ''ID_MODEL='' (k @ CHR ''='' # v) \<longleftrightarrow> k = ''ID_MODEL''"
    "has_key ''ID_REVISION='' (k @ CHR ''='' # v) \<longleftrightarrow> k = ''ID_REVISION''"
    "has_key ''ID_SERIAL='' (k @ CHR ''='' # v) \<longleftrightarrow> k = ''ID_SERIAL''"
    "has_key ''ID_FS_USAGE='' (k @ CHR ''='' # v) \<longleftrightarrow> k = ''ID_FS_USAGE''"
    "has_key ''ID_FS_TYPE='' (k @ CHR ''='' # v) \<longleftrightarrow> k = ''ID_FS_TYPE''"
    "has_key ''ID_FS_VERSION='' (k @ CHR ''='' # v) \<longleftrightarrow> k = ''ID_FS_VERSION''"
    "has_key ''ID_FS_UUID='' (k @ CHR ''='' # v) \<longleftrightarrow> k = ''ID_FS_UUID''"
    "has_key ''ID_FS_LABEL='' (k @ CHR ''='' # v) \<longleftrightarrow> k = ''ID_FS_LABEL''"
    using h [of "''ACTION''"] h [of "''DEVPATH''"] h [of "''DEVPATH_OLD''"] h [of "''SUBSYSTEM''"]
      h [of "''DEVNAME''"] h [of "''SEQNUM''"] h [of "''IFINDEX''"] h [of "''ID_VENDOR''"] h [of "''ID_MODEL''"]
      h [of "''ID_REVISION''"] h [of "''ID_SERIAL''"] h [of "''ID_FS_USAGE''"] h [of "''ID_FS_TYPE''"]
      h [of "''ID_FS_VERSION''"] h [of "''ID_FS_UUID''"] h [of "''ID_FS_LABEL''"]
    by simp_all
  show ?thesis
    unfolding udev_key_def prod.case keys
    by (rule if_cong [OF refl], simp add: key_value_def)+ (rule refl)
qed

lemma udev_key_header:
  assumes "CHR ''='' \<notin> set h"
  shows "udev_key G (h @ CHR ''@'' # v) (a, sd) = Some (a, sd)"
proof -
  note h = has_key_header [OF assms]
  show ?thesis
    using h [of "''ACTION''"] h [of "''DEVPATH''"] h [of "''DEVPATH_OLD''"] h [of "''SUBSYSTEM''"]
      h [of "''DEVNAME''"] h [of "''SEQNUM''"] h [of "''IFINDEX''"] h [of "''ID_VENDOR''"] h [of "''ID_MODEL''"]
      h [of "''ID_REVISION''"] h [of "''ID_SERIAL''"] h [of "''ID_FS_USAGE''"] h [of "''ID_FS_TYPE''"]
      h [of "''ID_FS_VERSION''"] h [of "''ID_FS_UUID''"] h [of "''ID_FS_LABEL''"]
    unfolding udev_key_def prod.case by simp
qed

text \<open>Reading one more line of a message.\<close>

definition no_md :: "udev_pairs \<Rightarrow> bool" where
  "no_md kvs \<longleftrightarrow> \<not> value_starts ''/block/md'' kvs ''DEVPATH'' \<and> \<not> value_starts ''/block/md'' kvs ''DEVPATH_OLD''"

lemma map_of_snoc:
  "k \<notin> set (map fst kvs) \<Longrightarrow> map_of (kvs @ [(k, v)]) K = (if K = k then Some v else map_of kvs K)"
  using map_of_eq_None_iff [of kvs k] by (simp add: map_add_def split: option.splits)

lemma no_md_snoc:
  assumes "k \<notin> set (map fst kvs)"
  shows "no_md (kvs @ [(k, v)]) \<longleftrightarrow>
           no_md kvs \<and> \<not> ((k = ''DEVPATH'' \<or> k = ''DEVPATH_OLD'') \<and> prefix ''/block/md'' v)"
proof -
  have "map_of kvs k = None" using assms by (metis map_of_eq_None_iff set_map)
  then have "value_starts p (kvs @ [(k, v)]) K = (if K = k then prefix p v else value_starts p kvs K)"
      "\<not> value_starts p kvs k" for p K
    unfolding value_starts_def map_of_snoc [OF assms] by simp_all
  then show ?thesis unfolding no_md_def by metis
qed

lemmas described_defs = described_def described_text_def described_path_def described_value_def

lemma described_snoc:
  assumes "k \<notin> set (map fst kvs)"
  shows "described_text G (kvs @ [(k, v)]) K = (if K = k then udev_text G v [] else described_text G kvs K)"
    and "described_path (kvs @ [(k, v)]) K = (if K = k then sys_path v else described_path kvs K)"
    and "described_value n (kvs @ [(k, v)]) K = (if K = k then take (n - 1) v else described_value n kvs K)"
  unfolding described_text_def described_path_def described_value_def udev_text_def sys_path_def snprintf_def
    map_of_snoc [OF assms] by simp_all

lemma described_absent:
  assumes "k \<notin> set (map fst kvs)"
  shows "described_text G kvs k = []"
  using assms map_of_eq_None_iff [of kvs k] by (simp add: described_text_def hal_util_strdup_valid_utf8_def)

lemma described_step:
  assumes "CHR ''='' \<notin> set k" and "k \<notin> set (map fst kvs)" and "no_md (kvs @ [(k, v)])"
  shows "udev_key G (k @ CHR ''='' # v) (map_of kvs ''ACTION'', described G kvs) =
           Some (map_of (kvs @ [(k, v)]) ''ACTION'', described G (kvs @ [(k, v)]))"
proof -
  note others = map_of_snoc [OF assms(2), of v]
  have md: "\<not> (k = ''DEVPATH'' \<and> prefix ''/block/md'' v)" "\<not> (k = ''DEVPATH_OLD'' \<and> prefix ''/block/md'' v)"
    using assms(3) unfolding no_md_snoc [OF assms(2)] by auto
  note snoc = described_snoc [OF assms(2), where v = v] and absent = described_absent [OF assms(2)]
  let ?keys = "{''ACTION'', ''DEVPATH'', ''DEVPATH_OLD'', ''SUBSYSTEM'', ''DEVNAME'', ''SEQNUM'', ''IFINDEX'', ''ID_VENDOR'',
    ''ID_MODEL'', ''ID_REVISION'', ''ID_SERIAL'', ''ID_FS_USAGE'', ''ID_FS_TYPE'', ''ID_FS_VERSION'', ''ID_FS_UUID'', ''ID_FS_LABEL''}"
  show ?thesis
  proof (cases "k \<in> ?keys")
    case True
    then show ?thesis
      using md absent unfolding udev_key_line [OF assms(1)] described_def snoc others insert_iff empty_iff
      by (elim disjE) (simp_all add: zero_sysfs_def del: prefix_code)
  next
    case False
    have new: "k \<noteq> ''ACTION''" "k \<noteq> ''DEVPATH''" "k \<noteq> ''DEVPATH_OLD''" "k \<noteq> ''SUBSYSTEM''" "k \<noteq> ''DEVNAME''"
        "k \<noteq> ''SEQNUM''" "k \<noteq> ''IFINDEX''" "k \<noteq> ''ID_VENDOR''" "k \<noteq> ''ID_MODEL''" "k \<noteq> ''ID_REVISION''"
        "k \<noteq> ''ID_SERIAL''" "k \<noteq> ''ID_FS_USAGE''" "k \<noteq> ''ID_FS_TYPE''" "k \<noteq> ''ID_FS_VERSION''" "k \<noteq> ''ID_FS_UUID''"
        "k \<noteq> ''ID_FS_LABEL''"
      using False unfolding insert_iff empty_iff de_Morgan_disj by - (elim conjE, assumption)+
    show ?thesis
      unfolding udev_key_line [OF assms(1)] described_def snoc others
      by (simp only: new new [symmetric] if_False simp_thms)
  qed
qed

lemma message_ok_snoc:
  "message_ok (kvs @ [(k, v)]) \<longleftrightarrow>
     message_ok kvs \<and> k \<notin> set (map fst kvs) \<and> CHR ''='' \<notin> set k \<and> nul \<notin> set k \<and> nul \<notin> set v"
  by (auto simp: message_ok_def)

lemma udev_fold_message:
  assumes "message_ok kvs"
  shows "udev_fold G (map message_line kvs) (None, zero_sysfs) =
           (if no_md kvs then Some (map_of kvs ''ACTION'', described G kvs) else None)"
  using assms
proof (induction kvs rule: rev_induct)
  case Nil
  show ?case by (simp add: no_md_def value_starts_def described_defs zero_sysfs_def hal_util_strdup_valid_utf8_def)
next
  case (snoc kv kvs)
  obtain k v where kv: "kv = (k, v)" by (cases kv)
  note ok = snoc.prems [unfolded kv message_ok_snoc]
  have md: "no_md (kvs @ [(k, v)]) \<longleftrightarrow> no_md kvs \<and> \<not> ((k = ''DEVPATH'' \<or> k = ''DEVPATH_OLD'') \<and> prefix ''/block/md'' v)"
    using no_md_snoc ok by blast
  show ?case
  proof (cases "no_md kvs \<and> \<not> no_md (kvs @ [(k, v)])")
    case True
    then have "(k = ''DEVPATH'' \<or> k = ''DEVPATH_OLD'') \<and> prefix ''/block/md'' v" using md by blast
    then have "udev_key G (k @ CHR ''='' # v) st = None" for st
      by (cases st) (elim conjE disjE, simp_all add: udev_key_def has_key_prefix key_value_def)
    then show ?thesis
      using True snoc.IH ok by (simp add: kv udev_fold_append message_line_def)
  next
    case False
    then show ?thesis
      using snoc.IH ok described_step [of k kvs v G]
      by (cases "no_md kvs") (simp_all add: kv udev_fold_append message_line_def md)
  qed
qed

lemma take_eq_short: "length t < n \<Longrightarrow> take n s = t \<longleftrightarrow> s = t"
  by auto

lemma prefix_take: "length p \<le> n \<Longrightarrow> prefix p (take n s) \<longleftrightarrow> prefix p s"
  by (metis append_eq_conv_conj length_take min.absorb4 min_def prefix_def prefix_order.trans take_is_prefix take_take)

lemma udev_action_table:
  "udev_action = map_of [(''add'', HOTPLUG_ACTION_ADD), (''change'', HOTPLUG_ACTION_CHANGE),
     (''move'', HOTPLUG_ACTION_MOVE), (''remove'', HOTPLUG_ACTION_REMOVE)]"
  by (auto simp: udev_action_def fun_eq_iff)

lemma udev_accept_described:
  assumes "no_md kvs"
  shows "udev_accept (map_of kvs ''ACTION'', described G kvs) = described_event G kvs"
proof -
  let ?d = "''/dev/mapper/temporary-cryptsetup-''" and ?f = "described_value HAL_PATH_MAX kvs ''DEVNAME''"
    and ?s = "described_value HAL_NAME_MAX kvs ''SUBSYSTEM''"
  have len: "length ?d = 33" by simp
  have fields: "sysfs_path (described G kvs) = described_path kvs ''DEVPATH''" "subsystem (described G kvs) = ?s"
      "device_file (described G kvs) = ?f" "\<not> is_dm_device (described G kvs)"
    by (simp_all add: described_def zero_sysfs_def)
  have path: "described_path kvs ''DEVPATH'' = [] \<longleftrightarrow> map_of kvs ''DEVPATH'' = None"
    by (simp add: described_path_def HAL_PATH_MAX_def split: option.splits)
  have sub: "?s = [] \<longleftrightarrow> map_of kvs ''SUBSYSTEM'' \<in> {None, Some []}"
      "?s = ''drivers'' \<longleftrightarrow> map_of kvs ''SUBSYSTEM'' = Some ''drivers''"
      "?s = ''module'' \<longleftrightarrow> map_of kvs ''SUBSYSTEM'' = Some ''module''"
    by (auto simp: described_value_def HAL_NAME_MAX_def take_eq_short split: option.splits)
  have "prefix ?d ?f \<longleftrightarrow> value_starts ?d kvs ''DEVNAME''"
    by (simp add: described_value_def value_starts_def prefix_take HAL_PATH_MAX_def del: prefix_code split: option.splits)
  moreover have "strncmp_eq ?f ?d 33 \<longleftrightarrow> prefix ?d ?f"
    using strncmp_eq_prefix [of ?f ?d, unfolded len] .
  ultimately have refused: "message_refused kvs \<longleftrightarrow>
      described_path kvs ''DEVPATH'' = [] \<or> ?s = [] \<or> strncmp_eq ?f ?d 33 \<or> ?s = ''drivers'' \<or> ?s = ''module''"
    using assms sub path by (auto simp: message_refused_def no_md_def)
  have dm: "(if strstr ?f ''/dm-'' then (described G kvs)\<lparr>is_dm_device := True\<rparr> else described G kvs) =
      (described G kvs)\<lparr>is_dm_device := strstr ?f ''/dm-''\<rparr>"
    using fields(4) by simp
  have act: "Option.bind (map_of kvs ''ACTION'') udev_action =
      (case map_of kvs ''ACTION'' of None \<Rightarrow> None | Some a \<Rightarrow> udev_action a)" by (simp split: option.splits)
  show ?thesis
    unfolding udev_accept_def prod.case fields(1-3) described_event_def refused udev_action_table [symmetric] act Let_def dm
    by (auto simp: fields(2) split: option.splits)
qed

text \<open>C40: What \<open>hald_udev_data\<close> makes of a message. For every message of a header (anything without
  \<open>=\<close> up to its first \<open>@/\<close>) and lines \<open>KEY=value\<close>, in any order and with any other keys in between, of
  at most the 4096 bytes of the buffer, with no key twice and no NUL inside a line: each of the fifteen
  fields of the event that has a key of its own is the value of that key (paths below \<open>/sys\<close>, numbers
  in decimal, texts made valid UTF-8, all cut to their buffers) or empty when the key is missing, the
  action is the one named, the device is a device mapper device when its node has \<open>/dm-\<close> in it; and
  there is no event exactly when the action is missing or none of add, change, move and remove, the
  path is missing, the path or the old path is below \<open>/block/md\<close>, the subsystem is missing, empty,
  \<open>drivers\<close> or \<open>module\<close>, or the node is one of a temporary cryptsetup.
\<close>

theorem udev_message_read:
  assumes "message_ok kvs" and "CHR ''='' \<notin> set h" and "nul \<notin> set (h @ p)"
    and "length (udev_bytes ((h @ ''@/'' @ p) # map message_line kvs)) \<le> udev_buf_size"
  shows "udev_parse G (udev_buf (udev_bytes ((h @ ''@/'' @ p) # map message_line kvs))) = Inr (described_event G kvs)"
proof -
  let ?ls = "(h @ ''@/'' @ p) # map message_line kvs"
  have buf: "udev_buf (udev_bytes ?ls) = udev_bytes ?ls @ replicate (udev_buf_size - length (udev_bytes ?ls)) nul"
    using assms(4) by (simp add: udev_buf_def Let_def)
  have nul: "nul \<notin> set (h @ ''@/'' @ p)" using assms(3) by (auto simp: nul_def)
  have "list_all (\<lambda>l. nul \<notin> set l \<and> l \<noteq> []) ?ls"
    using nul assms(1) by (auto simp: message_ok_def message_line_def list_all_iff nul_def)
  then have "udev_keys G (udev_buf (udev_bytes ?ls)) (None, zero_sysfs) = Inr (udev_fold G ?ls (None, zero_sysfs))"
    unfolding buf by (rule udev_keys_bytes)
  also have "udev_fold G ?ls (None, zero_sysfs) = udev_fold G (map message_line kvs) (None, zero_sysfs)"
    using udev_key_header [OF assms(2)] by simp
  finally have keys: "udev_keys G (udev_buf (udev_bytes ?ls)) (None, zero_sysfs) =
      Inr (if no_md kvs then Some (map_of kvs ''ACTION'', described G kvs) else None)"
    by (simp add: udev_fold_message [OF assms(1)])
  have cut: "cut_at_nul (udev_buf (udev_bytes ?ls)) = h @ ''@/'' @ p"
    unfolding buf using cut_at_nul_line [OF nul] by (simp add: udev_bytes_def)
  have "strstr (cut_at_nul (udev_buf (udev_bytes ?ls))) ''@/''"
    unfolding cut strstr_sublist sublist_def by blast
  then have "udev_parse G (udev_buf (udev_bytes ?ls)) =
      Inr (if no_md kvs then udev_accept (map_of kvs ''ACTION'', described G kvs) else None)"
    unfolding udev_parse_def keys by simp
  then show ?thesis
    using udev_accept_described [of kvs G] by (auto simp: described_event_def message_refused_def no_md_def)
qed

definition disk_message :: udev_pairs where
  "disk_message =
     [(''ACTION'', ''add''), (''DEVPATH'', ''/block/sda''), (''SUBSYSTEM'', ''block''), (''DEVNAME'', ''/dev/sda''),
      (''MAJOR'', ''8''), (''SEQNUM'', ''7''), (''ID_MODEL'', ''disk=1''), (''ID_FS_TYPE'', ''ext3'')]"

definition disk_data :: sysfs_data where
  "disk_data = zero_sysfs\<lparr>subsystem := ''block'', sysfs_path := ''/sys/block/sda'', device_file := ''/dev/sda'', seqnum := 7,
     id_model := ''disk=1'', fstype := ''ext3''\<rparr>"

theorem udev_message_read_witness:
  "udev_parse ascii_glib (udev_buf (udev_bytes ((''add'' @ ''@/'' @ ''block/sda'') # map message_line disk_message))) =
     Inr (Some \<lparr>he_action = HOTPLUG_ACTION_ADD, he_data = Sysfs SYSFS disk_data, he_reposted = False\<rparr>)"
proof -
  have "message_ok disk_message" by code_simp
  moreover have "length (udev_bytes ((''add'' @ ''@/'' @ ''block/sda'') # map message_line disk_message)) \<le> udev_buf_size"
    by code_simp
  moreover have "described_event ascii_glib disk_message =
      Some \<lparr>he_action = HOTPLUG_ACTION_ADD, he_data = Sysfs SYSFS disk_data, he_reposted = False\<rparr>"
    by code_simp
  ultimately show ?thesis
    using udev_message_read [of disk_message "''add''" "''block/sda''" ascii_glib] by (simp add: nul_def)
qed

definition usb_data :: sysfs_data where
  "usb_data = zero_sysfs\<lparr>subsystem := ''usb'', sysfs_path := ''/sys/devices/usb1'', device_file := ''/dev/u1'', seqnum := 7\<rparr>"

theorem udev_event_fits_witness:
  "event_fits (he_data \<lparr>he_action = HOTPLUG_ACTION_ADD, he_data = Sysfs SYSFS usb_data, he_reposted = False\<rparr>)"
proof (rule udev_event_fits)
  show "udev_parse ascii_glib (udev_bytes [''add@/x'', ''ACTION=add'', ''DEVPATH=/devices/usb1'', ''SUBSYSTEM=usb'', ''DEVNAME=/dev/u1'', ''SEQNUM=7''] @ [nul]) =
      Inr (Some \<lparr>he_action = HOTPLUG_ACTION_ADD, he_data = Sysfs SYSFS usb_data, he_reposted = False\<rparr>)"
    by code_simp
qed

section \<open>Order of the devices found at start\<close>

definition is_dm :: "sysfs_device \<Rightarrow> bool" where
  "is_dm d \<longleftrightarrow> strstr (sd_path d) ''/dm-''"

definition before :: "sysfs_device \<Rightarrow> sysfs_device \<Rightarrow> bool" where
  "before a b \<longleftrightarrow> device_order a b \<le> 0"

lemma before_alt: "before a b \<longleftrightarrow> is_dm b \<or> (\<not> is_dm a \<and> strcmp (sd_path a) (sd_path b) \<le> 0)"
  by (auto simp: before_def device_order_def is_dm_def)

lemma strcmp_le_Cons:
  "strcmp (a # as) (b # bs) \<le> 0 \<longleftrightarrow>
     (of_char a :: nat) < of_char b \<or> (of_char a :: nat) = of_char b \<and> strcmp as bs \<le> 0"
  by (auto simp del: of_char_eq_iff)

lemma strcmp_le_trans: "strcmp s t \<le> 0 \<Longrightarrow> strcmp t u \<le> 0 \<Longrightarrow> strcmp s u \<le> 0"
proof (induction s arbitrary: t u)
  case Nil
  then show ?case by (cases u) simp_all
next
  case (Cons a s)
  obtain b t' where t: "t = b # t'" using Cons.prems(1) by (cases t) simp_all
  obtain c u' where u: "u = c # u'" using Cons.prems(2) t by (cases u) simp_all
  show ?case
    using Cons.prems Cons.IH [of t' u'] unfolding t u strcmp_le_Cons by linarith
qed

lemma strcmp_child: "strcmp (p @ x # r) p = 1"
  by (induction p) auto

lemma before_total: "before a b \<or> before b a"
  using strcmp_sym [of "sd_path a" "sd_path b"] by (auto simp: before_alt)

lemma before_trans: "before a b \<Longrightarrow> before b c \<Longrightarrow> before a c"
  by (auto simp: before_alt intro: strcmp_le_trans)

text \<open>
  What is relied on of \<open>g_slist_sort\<close>: given a comparison that orders totally, its result is a
  permutation of the list in that order.
\<close>

definition slist_sorts :: "cold_env \<Rightarrow> bool" where
  "slist_sorts ce \<longleftrightarrow>
     (\<forall>f xs. (\<forall>a b. f a b \<le> 0 \<or> f b a \<le> 0) \<longrightarrow> (\<forall>a b c. f a b \<le> 0 \<longrightarrow> f b c \<le> 0 \<longrightarrow> f a c \<le> 0) \<longrightarrow>
        mset (ce_sort ce f xs) = mset xs \<and> sorted_wrt (\<lambda>a b. f a b \<le> 0) (ce_sort ce f xs))"

lemma sorted_devices:
  assumes "slist_sorts ce"
  shows "mset (ce_sort ce device_order ds) = mset ds" "sorted_wrt before (ce_sort ce device_order ds)"
proof -
  have "\<forall>a b. device_order a b \<le> 0 \<or> device_order b a \<le> 0"
    using before_total unfolding before_def by blast
  moreover have "\<forall>a b c. device_order a b \<le> 0 \<longrightarrow> device_order b c \<le> 0 \<longrightarrow> device_order a c \<le> 0"
    using before_trans unfolding before_def by blast
  ultimately show "mset (ce_sort ce device_order ds) = mset ds" "sorted_wrt before (ce_sort ce device_order ds)"
    using assms unfolding slist_sorts_def before_def by blast+
qed

lemma sorted_parents_first:
  assumes "sorted_wrt before xs" and "i < length xs" and "j < length xs"
    and "prefix (sd_path (xs ! i) @ ''/'') (sd_path (xs ! j))" and "\<not> is_dm (xs ! i)"
  shows "i < j"
proof (rule ccontr)
  assume "\<not> i < j"
  moreover obtain r where r: "sd_path (xs ! j) = sd_path (xs ! i) @ CHR ''/'' # r"
    using assms(4) by (auto simp: prefix_def)
  have "j \<noteq> i" using r by auto
  ultimately have "before (xs ! j) (xs ! i)"
    using assms(1-3) sorted_wrt_nth_less by (metis linorder_neqE_nat)
  then show False using assms(5) by (simp add: before_alt r strcmp_child)
qed

lemma sorted_dm_last:
  assumes "sorted_wrt before xs" and "i < j" and "j < length xs" and "is_dm (xs ! i)"
  shows "is_dm (xs ! j)"
  using sorted_wrt_nth_less [OF assms(1-3)] assms(4) by (simp add: before_alt)

text \<open>The events of the devices, numbered in their order.\<close>

fun cold_events :: "glib \<Rightarrow> cold_env \<Rightarrow> string \<Rightarrow> udev_map \<Rightarrow> uint64 \<Rightarrow> sysfs_device list \<Rightarrow> hotplug_event list" where
  "cold_events G ce dev_root m n [] = []"
| "cold_events G ce dev_root m n (d # ds) =
     coldplug_get_hotplug_event G ce dev_root m d n # cold_events G ce dev_root m (n + 1) ds"

lemma process_coldplug_arrive:
  "process_coldplug_events env ce fuel dev_root m ds (n, s) =
     err_bind (err_fold (arrive env fuel) (cold_events (env_glib env) ce dev_root m n ds) s)
       (\<lambda>s. Inr (n + of_nat (length ds), s))"
proof (induction ds arbitrary: n s)
  case (Cons d ds)
  show ?case
    by (simp add: Cons.IH arrive_def [symmetric] err_bind_assoc add.assoc)
qed simp

text \<open>At start the events of the devices that were found arrive at the queue one by one, numbered
  consecutively, in an order that has every device once, a device before everything below it in sysfs
  (device mapper devices apart), and the device mapper devices after all others.
\<close>

theorem coldplug_parents_first:
  assumes "slist_sorts ce"
  shows "\<exists>xs. mset xs = mset ds \<and>
     sort_and_process env ce fuel dev_root m ds (n, s) =
       err_bind (err_fold (arrive env fuel) (cold_events (env_glib env) ce dev_root m n xs) s)
         (\<lambda>s. Inr (n + of_nat (length ds), s)) \<and>
     (\<forall>i < length xs. \<forall>j < length xs. prefix (sd_path (xs ! i) @ ''/'') (sd_path (xs ! j)) \<longrightarrow> is_dm (xs ! i) \<or> i < j) \<and>
     (\<forall>j < length xs. \<forall>i < j. is_dm (xs ! i) \<longrightarrow> is_dm (xs ! j))"
proof (intro exI conjI allI impI)
  let ?xs = "ce_sort ce device_order ds"
  note s = sorted_devices [OF assms, of ds]
  show "mset ?xs = mset ds" by (rule s(1))
  show "sort_and_process env ce fuel dev_root m ds (n, s) =
       err_bind (err_fold (arrive env fuel) (cold_events (env_glib env) ce dev_root m n ?xs) s)
         (\<lambda>s. Inr (n + of_nat (length ds), s))"
    by (simp add: sort_and_process_def process_coldplug_arrive mset_eq_length [OF s(1)])
  show "is_dm (?xs ! i) \<or> i < j"
    if "i < length ?xs" "j < length ?xs" "prefix (sd_path (?xs ! i) @ ''/'') (sd_path (?xs ! j))" for i j
    using sorted_parents_first [OF s(2) that] by blast
  show "is_dm (?xs ! j)" if "j < length ?xs" "i < j" "is_dm (?xs ! i)" for i j
    by (rule sorted_dm_last [OF s(2) that(2,1,3)])
qed

text \<open>A sort that keeps the promise, by insertion.\<close>

fun sort_insert :: "('a \<Rightarrow> 'a \<Rightarrow> int) \<Rightarrow> 'a \<Rightarrow> 'a list \<Rightarrow> 'a list" where
  "sort_insert f x [] = [x]"
| "sort_insert f x (y # ys) = (if f x y \<le> 0 then x # y # ys else y # sort_insert f x ys)"

definition insertion_sort :: "('a \<Rightarrow> 'a \<Rightarrow> int) \<Rightarrow> 'a list \<Rightarrow> 'a list" where
  "insertion_sort f xs = foldr (sort_insert f) xs []"

lemma mset_sort_insert [simp]: "mset (sort_insert f x ys) = add_mset x (mset ys)"
  by (induction ys) auto

lemma sort_insert_sorted:
  assumes "\<forall>a b. f a b \<le> 0 \<or> f b a \<le> 0" and "\<forall>a b c. f a b \<le> 0 \<longrightarrow> f b c \<le> 0 \<longrightarrow> f a c \<le> 0"
    and "sorted_wrt (\<lambda>a b. f a b \<le> 0) ys"
  shows "sorted_wrt (\<lambda>a b. f a b \<le> 0) (sort_insert f x ys)"
  using assms(3)
proof (induction ys)
  case (Cons y ys)
  have "set (sort_insert f x ys) = insert x (set ys)"
    by (metis mset_sort_insert set_mset_add_mset_insert set_mset_mset)
  then show ?case
    using Cons assms(1,2) by auto
qed simp

lemma insertion_sorts:
  assumes "\<forall>a b. f a b \<le> 0 \<or> f b a \<le> 0" and "\<forall>a b c. f a b \<le> 0 \<longrightarrow> f b c \<le> 0 \<longrightarrow> f a c \<le> 0"
  shows "mset (insertion_sort f xs) = mset xs \<and> sorted_wrt (\<lambda>a b. f a b \<le> 0) (insertion_sort f xs)"
  unfolding insertion_sort_def by (induction xs) (auto intro: sort_insert_sorted [OF assms])

definition bare_env :: cold_env where
  "bare_env = \<lparr>ce_dir = (\<lambda>_. None), ce_exists = (\<lambda>_. False), ce_node = (\<lambda>_. False), ce_uevent = (\<lambda>_. True),
     ce_lstat = (\<lambda>_. Some False), ce_sort = insertion_sort\<rparr>"

definition two_devices :: "sysfs_device list" where
  "two_devices = [\<lparr>sd_path = ''/sys/devices/pci/usb1'', sd_subsystem = ''usb'', sd_type = SYSFS\<rparr>,
     \<lparr>sd_path = ''/sys/devices/pci'', sd_subsystem = ''pci'', sd_type = SYSFS\<rparr>]"

theorem coldplug_parents_first_witness:
  "\<exists>xs. mset xs = mset two_devices \<and>
     sort_and_process async_env bare_env 5 ''/dev'' [] two_devices (0, hotplug_init empty_world) =
       err_bind (err_fold (arrive async_env 5) (cold_events ascii_glib bare_env ''/dev'' [] 0 xs) (hotplug_init empty_world))
         (\<lambda>s. Inr (2, s)) \<and>
     (\<forall>i < length xs. \<forall>j < length xs. prefix (sd_path (xs ! i) @ ''/'') (sd_path (xs ! j)) \<longrightarrow> is_dm (xs ! i) \<or> i < j) \<and>
     (\<forall>j < length xs. \<forall>i < j. is_dm (xs ! i) \<longrightarrow> is_dm (xs ! j))"
proof -
  have "slist_sorts bare_env"
    unfolding slist_sorts_def bare_env_def by (simp add: insertion_sorts)
  from coldplug_parents_first [OF this, of two_devices async_env 5 "''/dev''" "[]" 0 "hotplug_init empty_world"]
  show ?thesis by (simp add: async_env_def two_devices_def)
qed

end
