(* ===== verification/Hal_DBus.thy ===== *)
theory Hal_DBus
  imports Hal_Hotplug Hal_Access Hal_Coherency
begin

text \<open>
  The daemon on the message bus: messages, replies and signals of \<open>hald/hald_dbus.c\<close>, the signal
  handlers of the global device list in \<open>hald/hald.c\<close>, and the batching of property changes.

  A message holds its arguments as typed values. Reading the arguments with
  \<open>dbus_message_get_args\<close> is the business of libdbus and a parameter, \<open>be_get_args\<close>: the values for
  the requested types, or \<^const>\<open>None\<close>. Iterating over the arguments is iterating over their list. What
  the daemon sends is collected, oldest first, in \<open>bd_out\<close>.
\<close>

section \<open>Values and messages\<close>

datatype dtype = T_BYTE | T_BOOLEAN | T_INT16 | T_UINT16 | T_INT32 | T_UINT32 | T_INT64 | T_UINT64 |
    T_DOUBLE | T_STRING | T_OBJECT_PATH | T_ARRAY | T_STRUCT | T_VARIANT | T_DICT_ENTRY

datatype dvalue =
    D_BYTE "8 word" | D_BOOLEAN bool | D_INT16 "16 word" | D_UINT16 "16 word"
  | D_INT32 int32 | D_UINT32 "32 word" | D_INT64 "64 word" | D_UINT64 uint64
  | D_DOUBLE double | D_STRING string | D_OBJECT_PATH string
  | D_ARRAY dtype "dvalue list" \<comment> \<open>with the type of its elements\<close>
  | D_STRUCT "dvalue list" | D_VARIANT dvalue | D_DICT_ENTRY dvalue dvalue

fun arg_type :: "dvalue \<Rightarrow> dtype" where
  "arg_type (D_BYTE _) = T_BYTE"
| "arg_type (D_BOOLEAN _) = T_BOOLEAN"
| "arg_type (D_INT16 _) = T_INT16"
| "arg_type (D_UINT16 _) = T_UINT16"
| "arg_type (D_INT32 _) = T_INT32"
| "arg_type (D_UINT32 _) = T_UINT32"
| "arg_type (D_INT64 _) = T_INT64"
| "arg_type (D_UINT64 _) = T_UINT64"
| "arg_type (D_DOUBLE _) = T_DOUBLE"
| "arg_type (D_STRING _) = T_STRING"
| "arg_type (D_OBJECT_PATH _) = T_OBJECT_PATH"
| "arg_type (D_ARRAY _ _) = T_ARRAY"
| "arg_type (D_STRUCT _) = T_STRUCT"
| "arg_type (D_VARIANT _) = T_VARIANT"
| "arg_type (D_DICT_ENTRY _ _) = T_DICT_ENTRY"

datatype msg_type = METHOD_CALL | SIGNAL | OTHER_MESSAGE

text \<open>A message on the system bus has a sender; one on a direct connection of a helper has none.\<close>

record dmessage =
  msg_type :: msg_type
  msg_path :: "string option"
  msg_interface :: "string option"
  msg_member :: "string option"
  msg_signature :: string
  msg_sender :: "string option"
  msg_args :: "dvalue list"
  msg_conn :: nat
  msg_serial :: nat

text \<open>What is sent: signals on the system bus, answers to a call, and calls to helpers.\<close>

datatype bus_out =
    Send_Signal string string string "dvalue list"
  | Send_Return dmessage "dvalue list"
  | Send_Error dmessage string string
  | Copy_Signal dmessage \<comment> \<open>a signal of a helper, copied to the system bus\<close>
  | Forward nat dmessage \<comment> \<open>connection of the helper, copy of the call\<close>
  | Singleton_Call nat string string "dvalue list" \<comment> \<open>connection, member, UDI, properties\<close>

datatype handler_result = HANDLED | NOT_YET_HANDLED

section \<open>State\<close>

record pending_update =
  pu_udi :: "string option" \<comment> \<open>\<open>NULL\<close> once it has been sent\<close>
  pu_key :: string
  pu_removed :: bool
  pu_added :: bool

record singleton_info =
  si_connection :: "nat option"
  si_devices :: "nat list"

record helper_handler =
  hih_connection :: nat
  hih_interface :: string
  hih_xml :: string
  hih_udi :: string

record method_invocation =
  mi_udi :: string
  mi_execpath :: string
  mi_extra_env :: "string list"
  mi_stdin :: string
  mi_member :: string
  mi_interface :: string
  mi_message :: dmessage

text \<open>Requests to the runner: methods of devices, addons, singleton addons, and callouts.\<close>

datatype run_request =
    Run_Method nat method_invocation
  | Run_Addon nat string
  | Run_Singleton string string
  | Run_Callout nat string "string list"
  | Kill_Device nat

text \<open>A change of sessions for which callouts have to be run.\<close>

record session_entry =
  se_device :: nat
  se_programs :: "string list"
  se_extra_env :: "string list"

record daemon =
  bd_hp :: hotplug
  bd_locked :: locked_set
  bd_ci :: ci_tracker
  bd_ck :: ck_tracker
  dbus_connection :: bool \<comment> \<open>not \<open>NULL\<close>\<close>
  hald_is_initialising :: bool
  atomic_count :: int
  num_pending_updates :: int
  pending_updates :: "pending_update list"
  services_with_locks :: "(string \<times> nat list) list option"
  singletons :: "(string \<times> singleton_info) list option"
  helper_interface_handlers :: "helper_handler list"
  udi_to_method_queue :: "(string \<times> method_invocation list) list option"
  session_changes_queue :: "session_entry list"
  session_changes_is_running :: bool
  bd_out :: "bus_out list"
  bd_runs :: "run_request list"

abbreviation bd_world :: "daemon \<Rightarrow> world" where
  "bd_world s \<equiv> hp_world (bd_hp s)"

abbreviation bd_heap :: "daemon \<Rightarrow> heap" where
  "bd_heap s \<equiv> w_heap (bd_world s)"

definition set_world :: "world \<Rightarrow> daemon \<Rightarrow> daemon" where
  "set_world w s = s\<lparr>bd_hp := (bd_hp s)\<lparr>hp_world := w\<rparr>\<rparr>"

record bus_env =
  be_hp :: hp_env
  be_access :: access_env
  be_rules :: rule_env
  be_get_args :: "dtype list \<Rightarrow> dvalue list \<Rightarrow> dvalue list option"
  be_polkit_text :: "polkit_result \<Rightarrow> string option" \<comment> \<open>\<open>polkit_result_to_string_representation\<close>\<close>
  be_start :: "run_request \<Rightarrow> bool" \<comment> \<open>whether the runner starts an addon\<close>
  be_refresh_mount :: "nat \<Rightarrow> world \<Rightarrow> memory_error + world" \<comment> \<open>\<open>blockdev_refresh_mount_state\<close>\<close>
  be_ck_service :: ck_service
  be_ck_path_type :: dtype \<comment> \<open>\<open>T_OBJECT_PATH\<close> from ConsoleKit 0.3 on, else \<open>T_STRING\<close>\<close>
  be_aclmgmt :: bool \<comment> \<open>built with \<open>HAVE_ACLMGMT\<close>\<close>
  be_fuel :: nat

abbreviation be_glib :: "bus_env \<Rightarrow> glib" where
  "be_glib B \<equiv> env_glib (be_hp B)"

abbreviation be_hash :: "bus_env \<Rightarrow> string \<Rightarrow> nat" where
  "be_hash B \<equiv> env_hash (be_hp B)"

text \<open>The access environment with the sessions as they are now.\<close>

definition acc :: "bus_env \<Rightarrow> daemon \<Rightarrow> access_env" where
  "acc B s = (be_access B)\<lparr>env_ck := bd_ck s\<rparr>"

definition bus_send :: "bus_out \<Rightarrow> daemon \<Rightarrow> daemon" where
  "bus_send m s = s\<lparr>bd_out := bd_out s @ [m]\<rparr>"

definition runner :: "run_request \<Rightarrow> daemon \<Rightarrow> daemon" where
  "runner r s = s\<lparr>bd_runs := bd_runs s @ [r]\<rparr>"

section \<open>Errors\<close>

text \<open>The text of an error is printed into a buffer of 512 bytes.\<close>

definition raise_error :: "dmessage \<Rightarrow> string \<Rightarrow> string \<Rightarrow> daemon \<Rightarrow> daemon" where
  "raise_error m name text = bus_send (Send_Error m name (snprintf 512 text))"

definition raise_no_such_device :: "dmessage \<Rightarrow> string \<Rightarrow> daemon \<Rightarrow> daemon" where
  "raise_no_such_device m u = raise_error m ''org.freedesktop.Hal.NoSuchDevice'' (''No device with id '' @ u)"

definition raise_no_such_property :: "dmessage \<Rightarrow> string \<Rightarrow> string \<Rightarrow> daemon \<Rightarrow> daemon" where
  "raise_no_such_property m u key =
     raise_error m ''org.freedesktop.Hal.NoSuchProperty'' (''No property '' @ key @ '' on device with id '' @ u)"

definition raise_property_type_error :: "dmessage \<Rightarrow> string \<Rightarrow> string \<Rightarrow> daemon \<Rightarrow> daemon" where
  "raise_property_type_error m u key =
     raise_error m ''org.freedesktop.Hal.TypeMismatch''
       (''Type mismatch setting property '' @ key @ '' on device with id '' @ u)"

definition raise_syntax :: "dmessage \<Rightarrow> string \<Rightarrow> daemon \<Rightarrow> daemon" where
  "raise_syntax m method_name =
     raise_error m ''org.freedesktop.Hal.SyntaxError''
       (''There is a syntax error in the invocation of the method '' @ method_name)"

definition raise_device_not_locked :: "dmessage \<Rightarrow> hal_device \<Rightarrow> daemon \<Rightarrow> daemon" where
  "raise_device_not_locked m d =
     raise_error m ''org.freedesktop.Hal.DeviceNotLocked'' (''The device '' @ hal_device_get_udi d @ '' is not locked'')"

text \<open>Here the reason is the text of the error as it is, without the buffer.\<close>

definition raise_device_already_locked :: "dmessage \<Rightarrow> hal_device \<Rightarrow> daemon \<Rightarrow> daemon" where
  "raise_device_already_locked m d =
     bus_send (Send_Error m ''org.freedesktop.Hal.DeviceAlreadyLocked''
       (case hal_device_property_get_string d ''info.locked.reason'' of
          Some reason \<Rightarrow> reason
        | None \<Rightarrow> ''Device is already locked''))"

definition raise_permission_denied :: "dmessage \<Rightarrow> string \<Rightarrow> daemon \<Rightarrow> daemon" where
  "raise_permission_denied m reason =
     raise_error m ''org.freedesktop.Hal.PermissionDenied'' (''Permission denied: '' @ reason)"

definition raise_interface_locked :: "dmessage \<Rightarrow> string \<Rightarrow> daemon \<Rightarrow> daemon" where
  "raise_interface_locked m interface =
     raise_error m ''org.freedesktop.Hal.Device.InterfaceLocked''
       (''The interface '' @ interface @ '' is locked by someone else'')"

text \<open>The text of this error has an apostrophe, written here as a list of characters.\<close>

definition raise_interface_already_locked :: "dmessage \<Rightarrow> string \<Rightarrow> daemon \<Rightarrow> daemon" where
  "raise_interface_already_locked m interface =
     raise_error m ''org.freedesktop.Hal.Device.InterfaceAlreadyLocked''
       (''The interface '' @ interface @ '' is already exclusively locked either by someone else or it'' @
        [CHR 0x27] @ ''s already locked by yourself'')"

definition raise_interface_not_locked :: "dmessage \<Rightarrow> string \<Rightarrow> daemon \<Rightarrow> daemon" where
  "raise_interface_not_locked m interface =
     raise_error m ''org.freedesktop.Hal.Device.InterfaceNotLocked''
       (''The interface '' @ interface @ '' is not locked by you'')"

section \<open>Signals\<close>

definition connected :: "daemon \<Rightarrow> bool" where
  "connected s \<longleftrightarrow> \<not> (\<not> dbus_connection s \<or> hald_is_initialising s)"

definition manager_signal :: "string \<Rightarrow> dvalue list \<Rightarrow> daemon \<Rightarrow> daemon" where
  "manager_signal member args s =
     (if \<not> connected s then s
      else bus_send (Send_Signal ''/org/freedesktop/Hal/Manager'' ''org.freedesktop.Hal.Manager'' member args) s)"

definition manager_send_signal_device_added :: "hal_device \<Rightarrow> daemon \<Rightarrow> daemon" where
  "manager_send_signal_device_added d = manager_signal ''DeviceAdded'' [D_STRING (hal_device_get_udi d)]"

definition manager_send_signal_device_removed :: "hal_device \<Rightarrow> daemon \<Rightarrow> daemon" where
  "manager_send_signal_device_removed d = manager_signal ''DeviceRemoved'' [D_STRING (hal_device_get_udi d)]"

definition manager_send_signal_new_capability :: "hal_device \<Rightarrow> string \<Rightarrow> daemon \<Rightarrow> daemon" where
  "manager_send_signal_new_capability d capability =
     manager_signal ''NewCapability'' [D_STRING (hal_device_get_udi d), D_STRING capability]"

text \<open>The signals about global locks count the holders on the computer object.\<close>

definition manager_lock_signal :: "string \<Rightarrow> heap \<Rightarrow> string \<Rightarrow> string \<Rightarrow> daemon \<Rightarrow> daemon" where
  "manager_lock_signal member h interface_name sender s =
     (if \<not> connected s then s
      else (case find_computer h (w_gdl (bd_world s)) (w_tdl (bd_world s)) of
              None \<Rightarrow> s
            | Some c \<Rightarrow>
                manager_signal member
                  [D_STRING interface_name, D_STRING sender,
                   D_INT32 (of_nat (hal_device_get_num_lock_holders (h c) (''Global.'' @ interface_name)))] s))"

definition manager_send_signal_interface_lock_acquired :: "heap \<Rightarrow> string \<Rightarrow> string \<Rightarrow> daemon \<Rightarrow> daemon" where
  "manager_send_signal_interface_lock_acquired = manager_lock_signal ''GlobalInterfaceLockAcquired''"

definition manager_send_signal_interface_lock_released :: "heap \<Rightarrow> string \<Rightarrow> string \<Rightarrow> daemon \<Rightarrow> daemon" where
  "manager_send_signal_interface_lock_released = manager_lock_signal ''GlobalInterfaceLockReleased''"

definition device_signal :: "hal_device \<Rightarrow> string \<Rightarrow> dvalue list \<Rightarrow> daemon \<Rightarrow> daemon" where
  "device_signal d member args s =
     (if \<not> connected s then s
      else bus_send (Send_Signal (hal_device_get_udi d) ''org.freedesktop.Hal.Device'' member args) s)"

definition device_lock_signal :: "string \<Rightarrow> hal_device \<Rightarrow> string \<Rightarrow> string \<Rightarrow> daemon \<Rightarrow> daemon" where
  "device_lock_signal member d interface_name sender =
     device_signal d member
       [D_STRING interface_name, D_STRING sender, D_INT32 (of_nat (hal_device_get_num_lock_holders d interface_name))]"

definition device_send_signal_interface_lock_acquired :: "hal_device \<Rightarrow> string \<Rightarrow> string \<Rightarrow> daemon \<Rightarrow> daemon" where
  "device_send_signal_interface_lock_acquired = device_lock_signal ''InterfaceLockAcquired''"

definition device_send_signal_interface_lock_released :: "hal_device \<Rightarrow> string \<Rightarrow> string \<Rightarrow> daemon \<Rightarrow> daemon" where
  "device_send_signal_interface_lock_released = device_lock_signal ''InterfaceLockReleased''"

definition device_send_signal_condition :: "hal_device \<Rightarrow> string \<Rightarrow> string \<Rightarrow> daemon \<Rightarrow> daemon" where
  "device_send_signal_condition d condition_name condition_details =
     device_signal d ''Condition'' [D_STRING condition_name, D_STRING condition_details]"

subsection \<open>Changed properties, one by one or together\<close>

definition update_struct :: "pending_update \<Rightarrow> dvalue" where
  "update_struct p = D_STRUCT [D_STRING (pu_key p), D_BOOLEAN (pu_removed p), D_BOOLEAN (pu_added p)]"

definition property_modified :: "string \<Rightarrow> pending_update list \<Rightarrow> bus_out" where
  "property_modified u ps =
     Send_Signal u ''org.freedesktop.Hal.Device'' ''PropertyModified''
       [D_INT32 (of_nat (length ps)), D_ARRAY T_STRUCT (map update_struct ps)]"

definition device_property_atomic_update_begin :: "daemon \<Rightarrow> daemon" where
  "device_property_atomic_update_begin s = s\<lparr>atomic_count := atomic_count s + 1\<rparr>"

text \<open>
  The loop over the pending updates. The updates of the device of the first one are sent together and
  marked by clearing their UDI; the comparison with a cleared UDI is a \<open>strcmp\<close> with \<open>NULL\<close>.
\<close>

definition mark_sent :: "string \<Rightarrow> pending_update \<Rightarrow> pending_update" where
  "mark_sent u q = (if pu_udi q = Some u then q\<lparr>pu_udi := None\<rparr> else q)"

fun flush_updates :: "pending_update list \<Rightarrow> daemon \<Rightarrow> memory_error + daemon" where
  "flush_updates [] s = Inr s"
| "flush_updates (p # ps) s =
     (case pu_udi p of
        None \<Rightarrow> flush_updates ps s
      | Some u \<Rightarrow>
          if list_ex (\<lambda>q. pu_udi q = None) ps then Inl Null_Dereference
          else flush_updates (map (mark_sent u) ps)
                 (if dbus_connection s
                  then bus_send (property_modified u (filter (\<lambda>q. pu_udi q = Some u) (p # ps))) s else s))"

definition device_property_atomic_update_end :: "daemon \<Rightarrow> memory_error + daemon" where
  "device_property_atomic_update_end s =
     (let n = atomic_count s - 1; s = s\<lparr>atomic_count := (if n < 0 then 0 else n)\<rparr>
      in if atomic_count s = 0 \<and> num_pending_updates s > 0
         then err_bind (flush_updates (pending_updates s) s)
                (\<lambda>s. Inr (s\<lparr>num_pending_updates := 0, pending_updates := []\<rparr>))
         else Inr s)"

definition device_send_signal_property_modified ::
    "hal_device \<Rightarrow> string \<Rightarrow> bool \<Rightarrow> bool \<Rightarrow> daemon \<Rightarrow> daemon" where
  "device_send_signal_property_modified d key added removed s =
     (let p = \<lparr>pu_udi = Some (hal_device_get_udi d), pu_key = key, pu_removed = removed, pu_added = added\<rparr>
      in if atomic_count s > 0
         then s\<lparr>pending_updates := p # pending_updates s, num_pending_updates := num_pending_updates s + 1\<rparr>
         else if \<not> connected s then s
         else bus_send (property_modified (hal_device_get_udi d) [p]) s)"

section \<open>Handlers of the global device list\<close>

text \<open>
  The handler of changed properties names its parameters \<open>added\<close>, \<open>removed\<close> where the signal has
  \<open>removed\<close>, \<open>added\<close>, and passes them on swapped again.
\<close>

definition gdl_property_changed :: "hal_device \<Rightarrow> string \<Rightarrow> bool \<Rightarrow> bool \<Rightarrow> daemon \<Rightarrow> daemon" where
  "gdl_property_changed d key added removed s =
     (if hal_device_are_all_addons_ready d then device_send_signal_property_modified d key removed added s else s)"

definition gdl_capability_added :: "hal_device \<Rightarrow> string \<Rightarrow> daemon \<Rightarrow> daemon" where
  "gdl_capability_added d capability s =
     (if hal_device_are_all_addons_ready d then manager_send_signal_new_capability d capability s else s)"

definition is_global_lock :: "hal_device \<Rightarrow> string \<Rightarrow> bool" where
  "is_global_lock d lock_name \<longleftrightarrow>
     strncmp_eq lock_name ''Global.'' 7 \<and> strcmp (hal_device_get_udi d) computer_udi = 0"

definition gdl_lock_acquired :: "heap \<Rightarrow> hal_device \<Rightarrow> string \<Rightarrow> string \<Rightarrow> daemon \<Rightarrow> daemon" where
  "gdl_lock_acquired h d lock_name lock_owner s =
     (if \<not> hal_device_are_all_addons_ready d then s
      else if is_global_lock d lock_name
      then manager_send_signal_interface_lock_acquired h (drop 7 lock_name) lock_owner s
      else device_send_signal_interface_lock_acquired d lock_name lock_owner s)"

definition gdl_lock_released :: "heap \<Rightarrow> hal_device \<Rightarrow> string \<Rightarrow> string \<Rightarrow> daemon \<Rightarrow> daemon" where
  "gdl_lock_released h d lock_name lock_owner s =
     (if \<not> hal_device_are_all_addons_ready d then s
      else if is_global_lock d lock_name
      then manager_send_signal_interface_lock_released h (drop 7 lock_name) lock_owner s
      else device_send_signal_interface_lock_released d lock_name lock_owner s)"

text \<open>The handlers connected by \<open>hald_get_gdl\<close>, for one signal of a device at the moment it is emitted.\<close>

fun gdl_signal :: "nat \<Rightarrow> emission \<Rightarrow> daemon \<Rightarrow> daemon" where
  "gdl_signal dev (PRE_PROPERTY_CHANGED key removed, d) s = s"
| "gdl_signal dev (PROPERTY_CHANGED key removed added, d) s = gdl_property_changed d key removed added s"
| "gdl_signal dev (CAPABILITY_ADDED cap, d) s = gdl_capability_added d cap s"
| "gdl_signal dev (LOCK_ACQUIRED n w, d) s = gdl_lock_acquired ((bd_heap s)(dev := d)) d n w s"
| "gdl_signal dev (LOCK_RELEASED n w, d) s = gdl_lock_released ((bd_heap s)(dev := d)) d n w s"

text \<open>One call for each connection of the store to the device.\<close>

definition gdl_emission :: "nat \<Rightarrow> emission \<Rightarrow> daemon \<Rightarrow> daemon" where
  "gdl_emission dev e s =
     fold (\<lambda>_. gdl_signal dev e) (filter (\<lambda>x. x = dev) (handlers (w_gdl (bd_world s)))) s"

section \<open>Operations on devices\<close>

text \<open>An operation on a device: its effect on the device and the stores, and the signals on the bus.\<close>

definition dev_call :: "bus_env \<Rightarrow> nat \<Rightarrow> (hal_device \<Rightarrow> 'a outcome) \<Rightarrow> daemon \<Rightarrow> memory_error + ('a \<times> daemon)" where
  "dev_call B dev opr s =
     err_bind (world_call (be_hash B) dev opr (bd_world s)) (\<lambda>w.
       case opr (bd_heap s dev) of (r, _, es) \<Rightarrow> Inr (r, fold (gdl_emission dev) es (set_world w s)))"

definition dev_call_locked ::
    "bus_env \<Rightarrow> nat \<Rightarrow> (locked_set \<Rightarrow> hal_device \<Rightarrow> locked_set \<times> 'a outcome) \<Rightarrow> daemon \<Rightarrow> memory_error + ('a \<times> daemon)" where
  "dev_call_locked B dev f s =
     (case f (bd_locked s) (bd_heap s dev) of
        (L, out) \<Rightarrow> err_bind (dev_call B dev (\<lambda>_. out) s) (\<lambda>(r, s). Inr (r, s\<lparr>bd_locked := L\<rparr>)))"

text \<open>The device with a UDI, in the global or else in the temporary list.\<close>

definition find_device :: "string \<Rightarrow> daemon \<Rightarrow> nat option" where
  "find_device u s = world_find u (bd_world s)"

end
