(* ===== verification/Hal_DBus_Methods.thy ===== *)
theory Hal_DBus_Methods
  imports Hal_DBus
begin

text \<open>
  The methods of the interfaces \<open>org.freedesktop.Hal.Manager\<close> and \<open>org.freedesktop.Hal.Device\<close>: one
  definition for each handler of \<open>hald/hald_dbus.c\<close>, in their order. A handler takes the message, and
  whether it came over a direct connection of a helper (\<open>local_interface\<close>), where no privileges are
  checked. Running out of memory, which ends the daemon, is left out.
\<close>

section \<open>Answers\<close>

type_synonym handler = "memory_error + (handler_result \<times> daemon)"

definition handled :: "daemon \<Rightarrow> handler" where
  "handled s = Inr (HANDLED, s)"

definition reply :: "dmessage \<Rightarrow> dvalue list \<Rightarrow> daemon \<Rightarrow> handler" where
  "reply m vs s = handled (bus_send (Send_Return m vs) s)"

text \<open>A method call always has an object path.\<close>

definition path_of :: "dmessage \<Rightarrow> string" where
  "path_of m = (case msg_path m of Some p \<Rightarrow> p | None \<Rightarrow> [])"

definition get_args :: "bus_env \<Rightarrow> dtype list \<Rightarrow> dmessage \<Rightarrow> dvalue list option" where
  "get_args B ts m = be_get_args B ts (msg_args m)"

definition with_device :: "dmessage \<Rightarrow> string \<Rightarrow> (nat \<Rightarrow> daemon \<Rightarrow> handler) \<Rightarrow> daemon \<Rightarrow> handler" where
  "with_device m u k s =
     (case find_device u s of None \<Rightarrow> handled (raise_no_such_device m u s) | Some dev \<Rightarrow> k dev s)"

definition root_or_hal :: "bus_env \<Rightarrow> dmessage \<Rightarrow> daemon \<Rightarrow> bool \<times> daemon" where
  "root_or_hal B m s =
     (case access_check_message_caller_is_root_or_hal (acc B s) (msg_sender m) (bd_ci s) of
        (ok, cit) \<Rightarrow> (ok, s\<lparr>bd_ci := cit\<rparr>))"

text \<open>\<open>!local_interface && !access_check_message_caller_is_root_or_hal (...)\<close> leads to the error.\<close>

definition if_privileged ::
    "bus_env \<Rightarrow> bool \<Rightarrow> dmessage \<Rightarrow> string \<Rightarrow> (daemon \<Rightarrow> handler) \<Rightarrow> daemon \<Rightarrow> handler" where
  "if_privileged B local_interface m text k s =
     (if local_interface then k s
      else (case root_or_hal B m s of
              (ok, s) \<Rightarrow> if ok then k s else handled (raise_permission_denied m text s)))"

section \<open>Properties as values\<close>

definition property_value :: "hal_device \<Rightarrow> string \<Rightarrow> memory_error + dvalue option" where
  "property_value d key =
     (case hal_device_property_get_type d key of
        TYPE_STRING \<Rightarrow>
          (case hal_device_property_get_string d key of
             None \<Rightarrow> Inl Null_Dereference
           | Some v \<Rightarrow> Inr (Some (D_STRING v)))
      | TYPE_INT32 \<Rightarrow> Inr (Some (D_INT32 (hal_device_property_get_int d key)))
      | TYPE_UINT64 \<Rightarrow> Inr (Some (D_UINT64 (hal_device_property_get_uint64 d key)))
      | TYPE_DOUBLE \<Rightarrow> Inr (Some (D_DOUBLE (hal_device_property_get_double d key)))
      | TYPE_BOOLEAN \<Rightarrow> Inr (Some (D_BOOLEAN (hal_device_property_get_bool d key)))
      | TYPE_STRLIST \<Rightarrow> Inr (Some (D_ARRAY T_STRING (map D_STRING (hal_device_property_strlist_iter_init d key))))
      | TYPE_INVALID \<Rightarrow> Inr None)"

text \<open>A dictionary entry without a value is not a value of the bus.\<close>

definition foreach_property_append ::
    "hal_device \<Rightarrow> string \<Rightarrow> memory_error + dvalue list \<Rightarrow> memory_error + dvalue list" where
  "foreach_property_append d key out =
     err_bind out (\<lambda>es.
     err_bind (property_value d key) (\<lambda>v.
       case v of
         None \<Rightarrow> Inl Bad_Object
       | Some v \<Rightarrow> Inr (es @ [D_DICT_ENTRY (D_STRING key) (D_VARIANT v)])))"

definition property_dict :: "hal_device \<Rightarrow> memory_error + dvalue" where
  "property_dict d =
     err_bind (hal_device_property_foreach d (foreach_property_append d) (Inr []))
       (\<lambda>es. Inr (D_ARRAY T_DICT_ENTRY es))"

section \<open>Manager: finding devices\<close>

definition foreach_device_get_udi :: "heap \<Rightarrow> nat \<Rightarrow> dvalue list \<Rightarrow> bool \<times> dvalue list" where
  "foreach_device_get_udi h dev out = (True, out @ [D_STRING (hal_device_get_udi (h dev))])"

definition foreach_device_get_udi_with_properties ::
    "heap \<Rightarrow> nat \<Rightarrow> memory_error + dvalue list \<Rightarrow> bool \<times> (memory_error + dvalue list)" where
  "foreach_device_get_udi_with_properties h dev out =
     (True, err_bind out (\<lambda>vs. err_bind (property_dict (h dev)) (\<lambda>dict.
        Inr (vs @ [D_STRUCT [D_STRING (hal_device_get_udi (h dev)), dict]]))))"

definition manager_get_all_devices_with_properties :: "dmessage \<Rightarrow> daemon \<Rightarrow> handler" where
  "manager_get_all_devices_with_properties m s =
     err_bind (hal_device_store_foreach (foreach_device_get_udi_with_properties (bd_heap s)) (w_gdl (bd_world s)) (Inr []))
       (\<lambda>vs. reply m [D_ARRAY T_STRUCT vs] s)"

definition manager_get_all_devices :: "dmessage \<Rightarrow> daemon \<Rightarrow> handler" where
  "manager_get_all_devices m s =
     reply m [D_ARRAY T_STRING (hal_device_store_foreach (foreach_device_get_udi (bd_heap s)) (w_gdl (bd_world s)) [])] s"

definition foreach_device_match_get_udi ::
    "string \<Rightarrow> string \<Rightarrow> heap \<Rightarrow> nat \<Rightarrow> dvalue list \<Rightarrow> bool \<times> dvalue list" where
  "foreach_device_match_get_udi key v h dev out =
     (True,
      if hal_device_property_get_type (h dev) key \<noteq> TYPE_STRING then out
      else (case hal_device_property_get_string (h dev) key of
              None \<Rightarrow> out
            | Some dev_value \<Rightarrow>
                if strcmp dev_value v = 0 then out @ [D_STRING (hal_device_get_udi (h dev))] else out))"

text \<open>The length given to \<open>strncmp\<close> is the size of the literal and counts its terminator.\<close>

definition temp_prefix :: string where
  "temp_prefix = ''/org/freedesktop/Hal/devices/temp''"

definition foreach_device_match_get_udi_tdl ::
    "string \<Rightarrow> string \<Rightarrow> heap \<Rightarrow> nat \<Rightarrow> dvalue list \<Rightarrow> bool \<times> dvalue list" where
  "foreach_device_match_get_udi_tdl key v h dev out =
     (if strncmp_eq (hal_device_get_udi (h dev)) temp_prefix (length temp_prefix + 1) then (True, out)
      else foreach_device_match_get_udi key v h dev out)"

definition manager_find_device_string_match :: "bus_env \<Rightarrow> dmessage \<Rightarrow> daemon \<Rightarrow> handler" where
  "manager_find_device_string_match B m s =
     (case get_args B [T_STRING, T_STRING] m of
        Some [D_STRING key, D_STRING v] \<Rightarrow>
          let h = bd_heap s;
              found = hal_device_store_foreach (foreach_device_match_get_udi key v h) (w_gdl (bd_world s)) [];
              found = hal_device_store_foreach (foreach_device_match_get_udi_tdl key v h) (w_tdl (bd_world s)) found
          in reply m [D_ARRAY T_STRING found] s
      | _ \<Rightarrow> handled (raise_syntax m ''Manager.FindDeviceStringMatch'' s))"

definition foreach_device_by_capability :: "string \<Rightarrow> heap \<Rightarrow> nat \<Rightarrow> dvalue list \<Rightarrow> bool \<times> dvalue list" where
  "foreach_device_by_capability capability h dev out =
     (True, if hal_device_has_capability (h dev) capability
            then out @ [D_STRING (hal_device_get_udi (h dev))] else out)"

definition manager_find_device_by_capability :: "bus_env \<Rightarrow> dmessage \<Rightarrow> daemon \<Rightarrow> handler" where
  "manager_find_device_by_capability B m s =
     (case get_args B [T_STRING] m of
        Some [D_STRING capability] \<Rightarrow>
          reply m [D_ARRAY T_STRING
            (hal_device_store_foreach (foreach_device_by_capability capability (bd_heap s)) (w_gdl (bd_world s)) [])] s
      | _ \<Rightarrow> handled (raise_syntax m ''Manager.FindDeviceByCapability'' s))"

definition manager_device_exists :: "bus_env \<Rightarrow> dmessage \<Rightarrow> daemon \<Rightarrow> handler" where
  "manager_device_exists B m s =
     (case get_args B [T_STRING] m of
        Some [D_STRING u] \<Rightarrow> reply m [D_BOOLEAN (find_device u s \<noteq> None)] s
      | _ \<Rightarrow> handled (raise_syntax m ''Manager.DeviceExists'' s))"

section \<open>Device: reading properties\<close>

definition device_get_all_properties :: "dmessage \<Rightarrow> daemon \<Rightarrow> handler" where
  "device_get_all_properties m =
     with_device m (path_of m) (\<lambda>dev s. err_bind (property_dict (bd_heap s dev)) (\<lambda>dict. reply m [dict] s))"

definition device_get_property :: "bus_env \<Rightarrow> dmessage \<Rightarrow> daemon \<Rightarrow> handler" where
  "device_get_property B m =
     with_device m (path_of m) (\<lambda>dev s.
       case get_args B [T_STRING] m of
         Some [D_STRING key] \<Rightarrow>
           if \<not> hal_device_has_property (bd_heap s dev) key then handled (raise_no_such_property m (path_of m) key s)
           else err_bind (property_value (bd_heap s dev) key)
                  (\<lambda>v. reply m (case v of None \<Rightarrow> [] | Some v \<Rightarrow> [v]) s)
       | _ \<Rightarrow> handled (raise_syntax m ''GetProperty'' s))"

fun type_code :: "hal_property_type \<Rightarrow> int32" where
  "type_code TYPE_INVALID = 0"
| "type_code TYPE_INT32 = 105"
| "type_code TYPE_UINT64 = 116"
| "type_code TYPE_DOUBLE = 100"
| "type_code TYPE_BOOLEAN = 98"
| "type_code TYPE_STRING = 115"
| "type_code TYPE_STRLIST = 115 * 256 + 108"

definition device_get_property_type :: "bus_env \<Rightarrow> dmessage \<Rightarrow> daemon \<Rightarrow> handler" where
  "device_get_property_type B m =
     with_device m (path_of m) (\<lambda>dev s.
       case get_args B [T_STRING] m of
         Some [D_STRING key] \<Rightarrow>
           if \<not> hal_device_has_property (bd_heap s dev) key then handled (raise_no_such_property m (path_of m) key s)
           else reply m [D_INT32 (type_code (hal_device_property_get_type (bd_heap s dev) key))] s
       | _ \<Rightarrow> handled (raise_syntax m ''GetPropertyType'' s))"

definition device_property_exists :: "bus_env \<Rightarrow> dmessage \<Rightarrow> daemon \<Rightarrow> handler" where
  "device_property_exists B m =
     with_device m (path_of m) (\<lambda>dev s.
       case get_args B [T_STRING] m of
         Some [D_STRING key] \<Rightarrow> reply m [D_BOOLEAN (hal_device_has_property (bd_heap s dev) key)] s
       | _ \<Rightarrow> handled (raise_syntax m ''RemoveProperty'' s))"

definition device_query_capability :: "bus_env \<Rightarrow> dmessage \<Rightarrow> daemon \<Rightarrow> handler" where
  "device_query_capability B m =
     with_device m (path_of m) (\<lambda>dev s.
       case get_args B [T_STRING] m of
         Some [D_STRING capability] \<Rightarrow>
           reply m [D_BOOLEAN (strlist_loop_contains
             (hal_device_property_strlist_iter_init (bd_heap s dev) ''info.capabilities'') capability)] s
       | _ \<Rightarrow> handled (raise_syntax m ''QueryCapability'' s))"

section \<open>Device: changing properties\<close>

text \<open>The setter for a value, if its type is one that \<open>SetProperty\<close> supports.\<close>

fun set_value :: "glib \<Rightarrow> string \<Rightarrow> dvalue \<Rightarrow> (hal_device \<Rightarrow> bool outcome) option" where
  "set_value G key (D_STRING v) = Some (hal_device_property_set_string G key (Some v))"
| "set_value G key (D_INT32 v) = Some (hal_device_property_set_int key v)"
| "set_value G key (D_UINT64 v) = Some (hal_device_property_set_uint64 key v)"
| "set_value G key (D_DOUBLE v) = Some (hal_device_property_set_double key v)"
| "set_value G key (D_BOOLEAN v) = Some (hal_device_property_set_bool key v)"
| "set_value G key _ = None"

definition device_set_property :: "bus_env \<Rightarrow> bool \<Rightarrow> dmessage \<Rightarrow> daemon \<Rightarrow> handler" where
  "device_set_property B local_interface m s =
     (case msg_args m of
        D_STRING key # rest \<Rightarrow>
          if_privileged B local_interface m ''SetProperty: not privileged''
            (with_device m (path_of m) (\<lambda>dev s.
               err_bind
                 (case (case rest of v # _ \<Rightarrow> set_value (be_glib B) key v | [] \<Rightarrow> None) of
                    None \<Rightarrow> Inr (False, s)
                  | Some setter \<Rightarrow> dev_call B dev setter s)
                 (\<lambda>(rc, s). if \<not> rc then handled (raise_property_type_error m (path_of m) key s) else reply m [] s)))
            s
      | _ \<Rightarrow> handled (raise_syntax m ''SetProperty'' s))"

text \<open>Iterating into a container starts at its first element; a basic value cannot be entered.\<close>

fun iter_recurse :: "dvalue \<Rightarrow> memory_error + dvalue list" where
  "iter_recurse (D_VARIANT v) = Inr [v]"
| "iter_recurse (D_ARRAY _ vs) = Inr vs"
| "iter_recurse (D_STRUCT vs) = Inr vs"
| "iter_recurse (D_DICT_ENTRY k v) = Inr [k, v]"
| "iter_recurse _ = Inl Bad_Object"

fun leading_strings :: "dvalue list \<Rightarrow> string list" where
  "leading_strings (D_STRING v # vs) = v # leading_strings vs"
| "leading_strings _ = []"

text \<open>
  A string list is cleared and filled with a change set; the change is announced at the end, unless
  the property has another type (then the clearing and filling have done nothing).
\<close>

definition set_strlist_property :: "bus_env \<Rightarrow> nat \<Rightarrow> string \<Rightarrow> string list \<Rightarrow> daemon \<Rightarrow> memory_error + daemon" where
  "set_strlist_property B dev key vs s =
     (let d = bd_heap s dev; has = hal_device_has_property d key;
          clash = (has \<and> hal_device_property_get_type d key \<noteq> TYPE_STRLIST)
      in err_bind (dev_call B dev (hal_device_property_strlist_clear key True) s) (\<lambda>(_, s).
         err_bind (err_fold (\<lambda>v s. err_bind (dev_call B dev (hal_device_property_strlist_append key v True) s)
                                     (\<lambda>(_, s). Inr s)) vs s) (\<lambda>s.
         if clash then Inr s
         else err_bind (dev_call B dev (hal_device_property_strlist_append_finish_changeset key (\<not> has)) s)
                (\<lambda>(_, s). Inr s))))"

definition set_property_entry :: "bus_env \<Rightarrow> nat \<Rightarrow> dvalue \<Rightarrow> daemon \<Rightarrow> memory_error + daemon" where
  "set_property_entry B dev entry s =
     (case entry of
        D_DICT_ENTRY (D_STRING key) v \<Rightarrow>
          err_bind (iter_recurse v) (\<lambda>vs.
            case vs of
              D_ARRAY _ elems # _ \<Rightarrow> set_strlist_property B dev key (leading_strings elems) s
            | x # _ \<Rightarrow>
                (case set_value (be_glib B) key x of
                   None \<Rightarrow> Inr s
                 | Some setter \<Rightarrow> err_bind (dev_call B dev setter s) (\<lambda>(_, s). Inr s))
            | [] \<Rightarrow> Inr s)
      | _ \<Rightarrow> Inl Bad_Object)"

fun leading_entries :: "dvalue list \<Rightarrow> dvalue list" where
  "leading_entries (D_DICT_ENTRY k v # vs) = D_DICT_ENTRY k v # leading_entries vs"
| "leading_entries _ = []"

text \<open>
  The test of the argument asks for an array \<^emph>\<open>or\<close> for entries of a dictionary, so that every array is
  accepted; its elements that are not entries end the loop.
\<close>

definition device_set_multiple_properties :: "bus_env \<Rightarrow> bool \<Rightarrow> dmessage \<Rightarrow> daemon \<Rightarrow> handler" where
  "device_set_multiple_properties B local_interface m =
     with_device m (path_of m) (\<lambda>dev.
       if_privileged B local_interface m ''SetProperty: not privileged'' (\<lambda>s.
         case msg_args m of
           D_ARRAY _ vs # _ \<Rightarrow>
             err_bind (err_fold (set_property_entry B dev) (leading_entries vs) (device_property_atomic_update_begin s)) (\<lambda>s.
             err_bind (device_property_atomic_update_end s) (\<lambda>s. reply m [] s))
         | _ \<Rightarrow> handled (raise_syntax m (path_of m) s)))"

definition device_add_capability :: "bus_env \<Rightarrow> bool \<Rightarrow> dmessage \<Rightarrow> daemon \<Rightarrow> handler" where
  "device_add_capability B local_interface m =
     if_privileged B local_interface m ''AddCapability: not privileged''
       (with_device m (path_of m) (\<lambda>dev s.
          case get_args B [T_STRING] m of
            Some [D_STRING capability] \<Rightarrow>
              err_bind (dev_call B dev (hal_device_add_capability capability) s) (\<lambda>(_, s). reply m [] s)
          | _ \<Rightarrow> handled (raise_syntax m ''AddCapability'' s)))"

text \<open>No privileges are asked for here, neither for the removal from a list below.\<close>

definition device_string_list_append_prepend :: "bus_env \<Rightarrow> bool \<Rightarrow> dmessage \<Rightarrow> daemon \<Rightarrow> handler" where
  "device_string_list_append_prepend B do_prepend m =
     with_device m (path_of m) (\<lambda>dev s.
       case get_args B [T_STRING, T_STRING] m of
         Some [D_STRING key, D_STRING v] \<Rightarrow>
           err_bind (dev_call B dev (if do_prepend then hal_device_property_strlist_prepend key v
                                     else hal_device_property_strlist_append key v False) s)
             (\<lambda>(ret, s). if \<not> ret then handled (raise_property_type_error m (path_of m) key s) else reply m [] s)
       | _ \<Rightarrow> handled (raise_syntax m (if do_prepend then ''StringListPrepend'' else ''StringListAppend'') s))"

definition device_string_list_remove :: "bus_env \<Rightarrow> dmessage \<Rightarrow> daemon \<Rightarrow> handler" where
  "device_string_list_remove B m =
     with_device m (path_of m) (\<lambda>dev s.
       case get_args B [T_STRING, T_STRING] m of
         Some [D_STRING key, D_STRING v] \<Rightarrow>
           err_bind (dev_call B dev (hal_device_property_strlist_remove key v) s)
             (\<lambda>(ret, s). if \<not> ret then handled (raise_property_type_error m (path_of m) key s) else reply m [] s)
       | _ \<Rightarrow> handled (raise_syntax m ''StringListRemove'' s))"

definition device_remove_property :: "bus_env \<Rightarrow> bool \<Rightarrow> dmessage \<Rightarrow> daemon \<Rightarrow> handler" where
  "device_remove_property B local_interface m =
     if_privileged B local_interface m ''RemoveProperty: not privileged''
       (with_device m (path_of m) (\<lambda>dev s.
          case get_args B [T_STRING] m of
            Some [D_STRING key] \<Rightarrow>
              err_bind (dev_call B dev (hal_device_property_remove key) s)
                (\<lambda>(ok, s). if \<not> ok then handled (raise_no_such_property m (path_of m) key s) else reply m [] s)
          | _ \<Rightarrow> handled (raise_syntax m ''RemoveProperty'' s)))"

section \<open>Device: interface locks\<close>

text \<open>
  A helper has no name on the bus: a direct connection passes \<open>NULL\<close> as the holder of a lock. It gets
  to where the name is compared with other holders, or, when there is none, recorded as a holder
  without a name; the model stops at either.
\<close>

definition acquire_named_lock ::
    "bus_env \<Rightarrow> nat \<Rightarrow> string \<Rightarrow> bool \<Rightarrow> string option \<Rightarrow> daemon \<Rightarrow> memory_error + (bool \<times> daemon)" where
  "acquire_named_lock B dev lock_name exclusive sender s =
     (case sender of
        Some w \<Rightarrow> dev_call_locked B dev (hal_device_acquire_lock dev lock_name exclusive w) s
      | None \<Rightarrow>
          if hal_device_property_get_bool (bd_heap s dev) (lock_key lock_name ''exclusive'') then Inr (False, s)
          else err_bind (dev_call B dev (hal_device_property_set_bool (lock_key lock_name ''exclusive'') exclusive) s) (\<lambda>(_, s).
               if exclusive \<and> hal_device_has_property (bd_heap s dev) (lock_key lock_name ''dbus_name'')
               then Inr (False, s) else Inl Null_Dereference))"

definition release_named_lock ::
    "bus_env \<Rightarrow> nat \<Rightarrow> string \<Rightarrow> string option \<Rightarrow> daemon \<Rightarrow> memory_error + (bool \<times> daemon)" where
  "release_named_lock B dev lock_name sender s =
     (case sender of
        Some w \<Rightarrow> dev_call_locked B dev (hal_device_release_lock dev lock_name w) s
      | None \<Rightarrow>
          if \<not> hal_device_property_get_bool (bd_heap s dev) (lock_key lock_name ''locked'') then Inr (False, s)
          else if hal_device_property_get_strlist (bd_heap s dev) (lock_key lock_name ''dbus_name'') = []
          then Inr (False, s) else Inl Null_Dereference)"

definition device_acquire_interface_lock :: "bus_env \<Rightarrow> bool \<Rightarrow> dmessage \<Rightarrow> daemon \<Rightarrow> handler" where
  "device_acquire_interface_lock B local_interface m =
     with_device m (path_of m) (\<lambda>dev s.
       case get_args B [T_STRING, T_BOOLEAN] m of
         Some [D_STRING interface_name, D_BOOLEAN exclusive] \<Rightarrow>
           err_bind
             (if local_interface then Inr (True, s)
              else err_bind (access_check_caller_have_access_to_device (acc B s) (bd_heap s dev)
                               (Some ''org.freedesktop.hal.lock'') (msg_sender m) (bd_ci s))
                     (\<lambda>(access, _, cit). Inr (access, s\<lparr>bd_ci := cit\<rparr>)))
             (\<lambda>(access, s).
                if \<not> access
                then handled (raise_permission_denied m ''AcquireInterfaceLock: no access to device'' s)
                else err_bind (acquire_named_lock B dev interface_name exclusive (msg_sender m) s) (\<lambda>(ok, s).
                     if \<not> ok then handled (raise_interface_already_locked m interface_name s) else reply m [] s))
       | _ \<Rightarrow> handled (raise_syntax m ''AqcuireInterfaceLock'' s))"

definition device_release_interface_lock :: "bus_env \<Rightarrow> dmessage \<Rightarrow> daemon \<Rightarrow> handler" where
  "device_release_interface_lock B m =
     with_device m (path_of m) (\<lambda>dev s.
       case get_args B [T_STRING] m of
         Some [D_STRING interface_name] \<Rightarrow>
           err_bind (release_named_lock B dev interface_name (msg_sender m) s) (\<lambda>(ok, s).
             if \<not> ok then handled (raise_interface_not_locked m interface_name s) else reply m [] s)
       | _ \<Rightarrow> handled (raise_syntax m ''ReleaseInterfaceLock'' s))"

text \<open>The check of \<open>hald/access-check.c\<close>; for a caller without a name it compares holders with \<open>NULL\<close>.\<close>

definition caller_locked_out ::
    "bus_env \<Rightarrow> nat \<Rightarrow> string option \<Rightarrow> string \<Rightarrow> daemon \<Rightarrow> memory_error + (bool \<times> daemon)" where
  "caller_locked_out B dev caller interface s =
     (let w = bd_world s; h = w_heap w
      in case caller of
           Some c \<Rightarrow>
             err_bind (access_check_caller_locked_out (acc B s) h (w_gdl w) (w_tdl w) (h dev) c interface (bd_ci s))
               (\<lambda>(out, cit). Inr (out, s\<lparr>bd_ci := cit\<rparr>))
         | None \<Rightarrow>
             (case find_computer h (w_gdl w) (w_tdl w) of
                None \<Rightarrow> Inr (True, s)
              | Some computer \<Rightarrow>
                  if holder_list (hal_device_get_lock_holders (h dev) interface) = [] \<and>
                     holder_list (hal_device_get_lock_holders (h computer) (''Global.'' @ interface)) = []
                  then Inr (False, s) else Inl Null_Dereference))"

definition device_is_caller_locked_out :: "bus_env \<Rightarrow> bool \<Rightarrow> dmessage \<Rightarrow> daemon \<Rightarrow> handler" where
  "device_is_caller_locked_out B local_interface m =
     with_device m (path_of m) (\<lambda>dev.
       if_privileged B local_interface m ''IsCallerLockedOut: not privileged'' (\<lambda>s.
         case get_args B [T_STRING, T_STRING] m of
           Some [D_STRING interface_name, D_STRING caller_sysbus_name] \<Rightarrow>
             err_bind (caller_locked_out B dev (Some caller_sysbus_name) interface_name s)
               (\<lambda>(out, s). reply m [D_BOOLEAN out] s)
         | _ \<Rightarrow> handled (raise_syntax m ''IsCallerLockedOut'' s)))"

text \<open>
  Who may ask whether a caller is privileged: helpers, root, the daemon's user, and callers of the
  same user. Without PolicyKit there is no answer. The result starts as \<open>-1\<close> and stays so when the
  check does not reach PolicyKit.
\<close>

definition same_user :: "bus_env \<Rightarrow> dmessage \<Rightarrow> string \<Rightarrow> daemon \<Rightarrow> (daemon \<Rightarrow> handler) \<Rightarrow> handler" where
  "same_user B m caller s k =
     (case ci_tracker_get_info (acc B s) (msg_sender m) (bd_ci s) of
        (None, cit) \<Rightarrow>
          handled (raise_error m ''org.freedesktop.Hal.Error'' ''Could not determine caller info for sender'' (s\<lparr>bd_ci := cit\<rparr>))
      | (Some ci_sender, cit) \<Rightarrow>
          (case ci_tracker_get_info (acc B s) (Some caller) cit of
             (None, cit) \<Rightarrow>
               handled (raise_error m ''org.freedesktop.Hal.Error'' ''Could not determine caller info for target'' (s\<lparr>bd_ci := cit\<rparr>))
           | (Some ci_target, cit) \<Rightarrow>
               if ci_uid ci_sender \<noteq> ci_uid ci_target
               then handled (raise_permission_denied m ''IsCallerPrivileged: not privileged/authorized to know'' (s\<lparr>bd_ci := cit\<rparr>))
               else k (s\<lparr>bd_ci := cit\<rparr>)))"

definition privileged_answer :: "bus_env \<Rightarrow> nat \<Rightarrow> dmessage \<Rightarrow> string \<Rightarrow> string \<Rightarrow> daemon \<Rightarrow> handler" where
  "privileged_answer B dev m action caller s =
     err_bind (access_check_caller_have_access_to_device (acc B s) (bd_heap s dev) (Some action) (Some caller) (bd_ci s))
       (\<lambda>(_, res, cit).
          case Option.bind res (be_polkit_text B) of
            None \<Rightarrow> handled (raise_error m ''org.freedesktop.Hal.Error'' ''Could not determine whether caller is privileged''
                              (s\<lparr>bd_ci := cit\<rparr>))
          | Some text \<Rightarrow> reply m [D_STRING text] (s\<lparr>bd_ci := cit\<rparr>))"

definition device_is_caller_privileged :: "bus_env \<Rightarrow> bool \<Rightarrow> dmessage \<Rightarrow> daemon \<Rightarrow> handler" where
  "device_is_caller_privileged B local_interface m s =
     (if env_build (be_access B) \<noteq> PolKit
      then handled (raise_error m ''org.freedesktop.Hal.Device.Error'' ''HAL is not built with PolicyKit support'' s)
      else with_device m (path_of m) (\<lambda>dev s.
        case msg_args m of
          [D_STRING action, D_STRING caller_sysbus_name] \<Rightarrow>
            if local_interface then privileged_answer B dev m action caller_sysbus_name s
            else (case root_or_hal B m s of
                    (ok, s) \<Rightarrow>
                      if ok then privileged_answer B dev m action caller_sysbus_name s
                      else same_user B m caller_sysbus_name s (privileged_answer B dev m action caller_sysbus_name))
        | _ \<Rightarrow> handled (raise_syntax m ''IsCallerPrivileged'' s)) s)"

definition device_is_locked_by_others :: "bus_env \<Rightarrow> dmessage \<Rightarrow> daemon \<Rightarrow> handler" where
  "device_is_locked_by_others B m =
     with_device m (path_of m) (\<lambda>dev s.
       case get_args B [T_STRING] m of
         Some [D_STRING interface_name] \<Rightarrow>
           (let w = bd_world s
            in err_bind (access_check_locked_by_others (acc B s) (w_heap w) (w_gdl w) (w_tdl w) (w_heap w dev)
                           (msg_sender m) interface_name (bd_ci s))
                 (\<lambda>(out, cit). reply m [D_BOOLEAN out] (s\<lparr>bd_ci := cit\<rparr>)))
       | _ \<Rightarrow> handled (raise_syntax m ''IsLockedByOthers'' s))"

definition device_acquire_global_interface_lock :: "bus_env \<Rightarrow> dmessage \<Rightarrow> daemon \<Rightarrow> handler" where
  "device_acquire_global_interface_lock B m =
     with_device m computer_udi (\<lambda>dev s.
       case get_args B [T_STRING, T_BOOLEAN] m of
         Some [D_STRING interface_name, D_BOOLEAN exclusive] \<Rightarrow>
           err_bind (acquire_named_lock B dev (''Global.'' @ interface_name) exclusive (msg_sender m) s) (\<lambda>(ok, s).
             if \<not> ok then handled (raise_interface_already_locked m interface_name s) else reply m [] s)
       | _ \<Rightarrow> handled (raise_syntax m ''AqcuireGlobalInterfaceLock'' s))"

definition device_release_global_interface_lock :: "bus_env \<Rightarrow> dmessage \<Rightarrow> daemon \<Rightarrow> handler" where
  "device_release_global_interface_lock B m =
     with_device m computer_udi (\<lambda>dev s.
       case get_args B [T_STRING] m of
         Some [D_STRING interface_name] \<Rightarrow>
           err_bind (release_named_lock B dev (''Global.'' @ interface_name) (msg_sender m) s) (\<lambda>(ok, s).
             if \<not> ok then handled (raise_interface_not_locked m interface_name s) else reply m [] s)
       | _ \<Rightarrow> handled (raise_syntax m ''ReleaseGlobalInterfaceLock'' s))"

section \<open>Device: the advisory lock\<close>

text \<open>
  The table from services to the devices they have locked. Its values are lists, but the table has
  \<open>g_object_unref\<close> as the function that releases a value; replacing or removing an entry calls it on
  the first cell of the list, which may be freed already.
\<close>

definition services_with_locks_add_lock :: "string \<Rightarrow> nat \<Rightarrow> daemon \<Rightarrow> memory_error + daemon" where
  "services_with_locks_add_lock lock_owner dev s =
     (let t = (case services_with_locks s of None \<Rightarrow> [] | Some t \<Rightarrow> t)
      in case map_of t lock_owner of
           None \<Rightarrow> Inr (s\<lparr>services_with_locks := Some (AList.update lock_owner [dev] t)\<rparr>)
         | Some old \<Rightarrow>
             if old = [] then Inr (s\<lparr>services_with_locks := Some (AList.update lock_owner [dev] t)\<rparr>)
             else Inl Bad_Object)"

definition services_with_locks_remove_lock :: "string \<Rightarrow> nat \<Rightarrow> daemon \<Rightarrow> memory_error + daemon" where
  "services_with_locks_remove_lock lock_owner dev s =
     (let t = (case services_with_locks s of None \<Rightarrow> [] | Some t \<Rightarrow> t)
      in case map_of t lock_owner of
           None \<Rightarrow> Inr (s\<lparr>services_with_locks := Some (AList.update lock_owner [] t)\<rparr>)
         | Some [] \<Rightarrow> Inr (s\<lparr>services_with_locks := Some (AList.update lock_owner [] t)\<rparr>)
         | Some (first # _) \<Rightarrow> if first = dev then Inl Use_After_Free else Inl Bad_Object)"

definition remove_lock_properties :: "bus_env \<Rightarrow> nat \<Rightarrow> daemon \<Rightarrow> memory_error + daemon" where
  "remove_lock_properties B dev s =
     err_bind (dev_call B dev (hal_device_property_remove ''info.locked'') s) (\<lambda>(_, s).
     err_bind (dev_call B dev (hal_device_property_remove ''info.locked.reason'') s) (\<lambda>(_, s).
     err_bind (dev_call B dev (hal_device_property_remove ''info.locked.dbus_name'') s) (\<lambda>(_, s). Inr s)))"

definition services_with_locks_remove_lockowner :: "bus_env \<Rightarrow> string \<Rightarrow> daemon \<Rightarrow> memory_error + daemon" where
  "services_with_locks_remove_lockowner B lock_owner s =
     (let t = (case services_with_locks s of None \<Rightarrow> [] | Some t \<Rightarrow> t)
      in case map_of t lock_owner of
           None \<Rightarrow> Inr s
         | Some devs \<Rightarrow>
             err_bind (err_fold (remove_lock_properties B) devs s) (\<lambda>s.
               if devs = [] then Inr (s\<lparr>services_with_locks := Some (AList.delete lock_owner t)\<rparr>) else Inl Bad_Object))"

definition device_lock :: "bus_env \<Rightarrow> dmessage \<Rightarrow> daemon \<Rightarrow> handler" where
  "device_lock B m =
     with_device m (path_of m) (\<lambda>dev s.
       if hal_device_property_get_bool (bd_heap s dev) ''info.locked''
       then handled (raise_device_already_locked m (bd_heap s dev) s)
       else
         case get_args B [T_STRING] m of
           Some [D_STRING reason] \<Rightarrow>
             err_bind (dev_call B dev (hal_device_property_set_bool ''info.locked'' True) s) (\<lambda>(_, s).
             err_bind (dev_call B dev (hal_device_property_set_string (be_glib B) ''info.locked.reason'' (Some reason)) s) (\<lambda>(_, s).
             err_bind (dev_call B dev (hal_device_property_set_string (be_glib B) ''info.locked.dbus_name'' (msg_sender m)) s) (\<lambda>(_, s).
               case msg_sender m of
                 None \<Rightarrow> Inl Null_Dereference
               | Some sender \<Rightarrow> err_bind (services_with_locks_add_lock sender dev s) (\<lambda>s. reply m [] s))))
         | _ \<Rightarrow> handled (raise_syntax m ''Lock'' s))"

definition device_unlock :: "bus_env \<Rightarrow> dmessage \<Rightarrow> daemon \<Rightarrow> handler" where
  "device_unlock B m =
     with_device m (path_of m) (\<lambda>dev s.
       case get_args B [] m of
         None \<Rightarrow> handled (raise_syntax m ''Unlock'' s)
       | Some _ \<Rightarrow>
           if \<not> hal_device_property_get_bool (bd_heap s dev) ''info.locked''
           then handled (raise_device_not_locked m (bd_heap s dev) s)
           else
             case (msg_sender m, hal_device_property_get_string (bd_heap s dev) ''info.locked.dbus_name'') of
               (Some sender, Some holder) \<Rightarrow>
                 if strcmp sender holder \<noteq> 0
                 then handled (raise_permission_denied m
                        (''Service '' @ [CHR 0x27] @ sender @ [CHR 0x27] @ '' does not own the lock on '' @
                         hal_device_get_udi (bd_heap s dev)) s)
                 else
                   err_bind
                     (case Option.bind (services_with_locks s) (\<lambda>t. map_of t sender) of
                        Some (_ # _) \<Rightarrow> services_with_locks_remove_lock sender dev s
                      | _ \<Rightarrow> Inr s) (\<lambda>s.
                   err_bind (remove_lock_properties B dev s) (\<lambda>s. reply m [] s))
             | _ \<Rightarrow> Inl Null_Dereference)"

end
