(* ===== verification/Hal_DBus_Addons.thy ===== *)
theory Hal_DBus_Addons
  imports Hal_DBus_Methods
begin

text \<open>
  Methods for helpers and for changing the set of devices: rescanning, conditions, claimed interfaces,
  addons and singleton addons, new and removed devices; and what the daemon does when a device enters
  or leaves the global device list (\<open>gdl_store_changed\<close> of \<open>hald/hald.c\<close>).
\<close>

section \<open>Addons\<close>

definition set_device :: "nat \<Rightarrow> hal_device \<Rightarrow> daemon \<Rightarrow> daemon" where
  "set_device dev d s = set_world ((bd_world s)\<lparr>w_heap := (bd_heap s)(dev := d)\<rparr>) s"

text \<open>One more addon of a device is ready: at the last one the device is announced.\<close>

definition addon_ready :: "nat \<Rightarrow> daemon \<Rightarrow> daemon" where
  "addon_ready dev s =
     (case hal_device_inc_num_ready_addons (bd_heap s dev) of
        (ok, d) \<Rightarrow>
          let s = set_device dev d s
          in if ok \<and> hal_device_are_all_addons_ready d then manager_send_signal_device_added d s else s)"

definition addon_terminated :: "nat \<Rightarrow> daemon \<Rightarrow> daemon" where
  "addon_terminated = addon_ready"

definition addon_is_ready :: "bus_env \<Rightarrow> bool \<Rightarrow> dmessage \<Rightarrow> daemon \<Rightarrow> handler" where
  "addon_is_ready B local_interface m s =
     (if \<not> local_interface then handled (raise_permission_denied m ''AddonIsReady: only allowed for helpers'' s)
      else case get_args B [] m of
             None \<Rightarrow> handled (raise_syntax m ''AddonIsReady'' s)
           | Some _ \<Rightarrow> with_device m (path_of m) (\<lambda>dev s. reply m [D_BOOLEAN True] (addon_ready dev s)) s)"

subsection \<open>Singleton addons\<close>

definition singleton_signal_device_changed :: "nat \<Rightarrow> nat \<Rightarrow> bool \<Rightarrow> daemon \<Rightarrow> memory_error + daemon" where
  "singleton_signal_device_changed conn dev added s =
     err_bind (property_dict (bd_heap s dev)) (\<lambda>dict.
       Inr (bus_send (Singleton_Call conn (if added then ''DeviceAdded'' else ''DeviceRemoved'')
              (hal_device_get_udi (bd_heap s dev)) [dict]) s))"

text \<open>The answer of a singleton; the device pointer is cleared when the device has been destroyed.\<close>

definition reply_from_singleton_device_changed :: "bool \<Rightarrow> bool \<Rightarrow> nat option \<Rightarrow> daemon \<Rightarrow> daemon" where
  "reply_from_singleton_device_changed is_error added device s =
     (if is_error then s
      else case device of
             Some dev \<Rightarrow> if added then addon_ready dev s else s
           | None \<Rightarrow> s)"

definition the_table :: "'a list option \<Rightarrow> 'a list" where
  "the_table t = (case t of None \<Rightarrow> [] | Some l \<Rightarrow> l)"

definition hald_singleton_device_added :: "bus_env \<Rightarrow> string \<Rightarrow> nat \<Rightarrow> daemon \<Rightarrow> memory_error + (bool \<times> daemon)" where
  "hald_singleton_device_added B command_line dev s =
     (let t = the_table (singletons s); s = s\<lparr>singletons := Some t\<rparr>;
          run = Run_Singleton command_line (''SINGLETON_COMMAND_LINE='' @ command_line);
          add = (\<lambda>info s.
            let info = info\<lparr>si_devices := dev # si_devices info\<rparr>;
                s = s\<lparr>singletons := Some (AList.update command_line info t)\<rparr>
            in case si_connection info of
                 None \<Rightarrow> Inr (True, s)
               | Some conn \<Rightarrow> err_bind (singleton_signal_device_changed conn dev True s) (\<lambda>s. Inr (True, s)))
      in case map_of t command_line of
           Some info \<Rightarrow> add info s
         | None \<Rightarrow>
             if be_start B run then add \<lparr>si_connection = None, si_devices = []\<rparr> (runner run s)
             else Inr (False, runner run s))"

definition hald_singleton_device_removed :: "string \<Rightarrow> nat \<Rightarrow> daemon \<Rightarrow> memory_error + (bool \<times> daemon)" where
  "hald_singleton_device_removed command_line dev s =
     (case singletons s of
        None \<Rightarrow> Inr (False, s)
      | Some t \<Rightarrow>
          (case map_of t command_line of
             None \<Rightarrow> Inr (False, s)
           | Some info \<Rightarrow>
               if dev \<notin> set (si_devices info) then Inr (False, s)
               else
                 let info = info\<lparr>si_devices := remove1 dev (si_devices info)\<rparr>;
                     s = s\<lparr>singletons := Some (AList.update command_line info t)\<rparr>
                 in case si_connection info of
                      None \<Rightarrow> Inr (True, s)
                    | Some conn \<Rightarrow> err_bind (singleton_signal_device_changed conn dev False s) (\<lambda>s. Inr (True, s))))"

text \<open>A call for an unknown singleton is not answered.\<close>

definition singleton_addon_is_ready :: "bus_env \<Rightarrow> bool \<Rightarrow> dmessage \<Rightarrow> daemon \<Rightarrow> handler" where
  "singleton_addon_is_ready B local_interface m s =
     (if \<not> local_interface
      then handled (raise_permission_denied m ''SingletonAddonIsReady: only allowed for helpers'' s)
      else case get_args B [T_STRING] m of
             Some [D_STRING command_line] \<Rightarrow>
               (case singletons s of
                  None \<Rightarrow> handled s
                | Some t \<Rightarrow>
                    (case map_of t command_line of
                       None \<Rightarrow> handled s
                     | Some info \<Rightarrow>
                         let s = bus_send (Send_Return m []) s;
                             s = s\<lparr>singletons := Some (AList.update command_line (info\<lparr>si_connection := Some (msg_conn m)\<rparr>) t)\<rparr>
                         in err_bind (err_fold (\<lambda>dev. singleton_signal_device_changed (msg_conn m) dev True)
                                        (si_devices info) s) handled))
           | _ \<Rightarrow> handled (raise_syntax m ''SingletonAddonIsReady'' s))"

definition singleton_remove_by_connection :: "nat \<Rightarrow> string \<times> singleton_info \<Rightarrow> bool" where
  "singleton_remove_by_connection conn e \<longleftrightarrow> si_connection (snd e) = Some conn"

section \<open>A device enters or leaves the global list\<close>

fun start_addons :: "bus_env \<Rightarrow> nat \<Rightarrow> string list \<Rightarrow> daemon \<Rightarrow> daemon" where
  "start_addons B dev [] s = s"
| "start_addons B dev (command_line # cs) s =
     (let run = Run_Addon dev command_line; s = runner run s
      in start_addons B dev cs
           (if be_start B run then set_device dev (hal_device_inc_num_addons (bd_heap s dev)) s else s))"

fun start_singletons :: "bus_env \<Rightarrow> nat \<Rightarrow> string list \<Rightarrow> daemon \<Rightarrow> memory_error + daemon" where
  "start_singletons B dev [] s = Inr s"
| "start_singletons B dev (command_line # cs) s =
     err_bind (hald_singleton_device_added B command_line dev s) (\<lambda>(ok, s).
       start_singletons B dev cs (if ok then set_device dev (hal_device_inc_num_addons (bd_heap s dev)) s else s))"

fun stop_singletons :: "nat \<Rightarrow> string list \<Rightarrow> daemon \<Rightarrow> memory_error + daemon" where
  "stop_singletons dev [] s = Inr s"
| "stop_singletons dev (command_line # cs) s =
     err_bind (hald_singleton_device_removed command_line dev s) (\<lambda>(_, s). stop_singletons dev cs s)"

definition gdl_store_changed :: "bus_env \<Rightarrow> nat \<Rightarrow> bool \<Rightarrow> daemon \<Rightarrow> memory_error + daemon" where
  "gdl_store_changed B dev is_added s =
     (let addons = hal_device_property_strlist_iter_init (bd_heap s dev) ''info.addons'';
          single = hal_device_property_strlist_iter_init (bd_heap s dev) ''info.addons.singleton''
      in if is_added
         then err_bind (start_singletons B dev single (start_addons B dev addons s)) (\<lambda>s.
                Inr (if hal_device_are_all_addons_ready (bd_heap s dev)
                     then manager_send_signal_device_added (bd_heap s dev) s else s))
         else err_bind (stop_singletons dev single s) (\<lambda>s.
                let s = runner (Kill_Device dev) s
                in Inr (if hal_device_are_all_addons_ready (bd_heap s dev)
                        then manager_send_signal_device_removed (bd_heap s dev) s else s)))"

definition gdl_add :: "bus_env \<Rightarrow> nat \<Rightarrow> daemon \<Rightarrow> memory_error + daemon" where
  "gdl_add B dev s =
     err_bind (hal_device_store_add (be_hash B) dev (bd_heap s) (w_gdl (bd_world s))) (\<lambda>g.
       let s' = set_world ((bd_world s)\<lparr>w_gdl := g\<rparr>) s
       in if length (emitted g) = length (emitted (w_gdl (bd_world s))) then Inr s'
          else gdl_store_changed B dev True s')"

definition gdl_remove :: "bus_env \<Rightarrow> nat \<Rightarrow> daemon \<Rightarrow> memory_error + (bool \<times> daemon)" where
  "gdl_remove B dev s =
     err_bind (hal_device_store_remove (be_hash B) dev (bd_heap s) (w_gdl (bd_world s))) (\<lambda>(ok, g).
       let s' = set_world ((bd_world s)\<lparr>w_gdl := g\<rparr>) s
       in if ok then err_bind (gdl_store_changed B dev False s') (\<lambda>s. Inr (True, s)) else Inr (False, s'))"

definition tdl_add :: "bus_env \<Rightarrow> nat \<Rightarrow> daemon \<Rightarrow> memory_error + daemon" where
  "tdl_add B dev s =
     err_bind (hal_device_store_add (be_hash B) dev (bd_heap s) (w_tdl (bd_world s)))
       (\<lambda>t. Inr (set_world ((bd_world s)\<lparr>w_tdl := t\<rparr>) s))"

definition tdl_remove :: "bus_env \<Rightarrow> nat \<Rightarrow> daemon \<Rightarrow> memory_error + daemon" where
  "tdl_remove B dev s =
     err_bind (hal_device_store_remove (be_hash B) dev (bd_heap s) (w_tdl (bd_world s)))
       (\<lambda>(_, t). Inr (set_world ((bd_world s)\<lparr>w_tdl := t\<rparr>) s))"

section \<open>Methods for helpers\<close>

text \<open>
  What the back ends change while a device is rescanned is announced afterwards, signal by signal: the
  store records the signals it passes on, and the handlers of the daemon run for the new ones.
\<close>

fun replay_signal :: "bus_env \<Rightarrow> store_signal \<Rightarrow> daemon \<Rightarrow> memory_error + daemon" where
  "replay_signal B (STORE_CHANGED dev is_added) s = gdl_store_changed B dev is_added s"
| "replay_signal B (DEVICE_PROPERTY_CHANGED dev key removed added) s =
     Inr (gdl_property_changed (bd_heap s dev) key removed added s)"
| "replay_signal B (DEVICE_CAPABILITY_ADDED dev cap) s = Inr (gdl_capability_added (bd_heap s dev) cap s)"
| "replay_signal B (DEVICE_LOCK_ACQUIRED dev n w) s = Inr (gdl_lock_acquired (bd_heap s) (bd_heap s dev) n w s)"
| "replay_signal B (DEVICE_LOCK_RELEASED dev n w) s = Inr (gdl_lock_released (bd_heap s) (bd_heap s dev) n w s)"

definition replay :: "bus_env \<Rightarrow> nat \<Rightarrow> daemon \<Rightarrow> memory_error + daemon" where
  "replay B old s = err_fold (replay_signal B) (drop old (emitted (w_gdl (bd_world s)))) s"

definition osspec_call ::
    "bus_env \<Rightarrow> (hotplug \<Rightarrow> memory_error + (bool \<times> hotplug)) \<Rightarrow> daemon \<Rightarrow> memory_error + (bool \<times> daemon)" where
  "osspec_call B f s =
     err_bind (f (bd_hp s)) (\<lambda>(res, hp).
     err_bind (replay B (length (emitted (w_gdl (bd_world s)))) (s\<lparr>bd_hp := hp\<rparr>)) (\<lambda>s. Inr (res, s)))"

definition osspec_device_rescan :: "bus_env \<Rightarrow> nat \<Rightarrow> daemon \<Rightarrow> memory_error + (bool \<times> daemon)" where
  "osspec_device_rescan B dev = osspec_call B (hotplug_rescan_device (be_hp B) dev)"

definition osspec_device_reprobe :: "bus_env \<Rightarrow> nat \<Rightarrow> daemon \<Rightarrow> memory_error + (bool \<times> daemon)" where
  "osspec_device_reprobe B dev = osspec_call B (hotplug_reprobe_tree (be_hp B) (be_fuel B) (be_fuel B) dev)"

definition device_rescan :: "bus_env \<Rightarrow> bool \<Rightarrow> dmessage \<Rightarrow> daemon \<Rightarrow> handler" where
  "device_rescan B local_interface m =
     if_privileged B local_interface m ''Rescan: not privileged''
       (with_device m (path_of m) (\<lambda>dev s.
          err_bind (osspec_device_rescan B dev s) (\<lambda>(res, s). reply m [D_BOOLEAN res] s)))"

definition device_reprobe :: "bus_env \<Rightarrow> bool \<Rightarrow> dmessage \<Rightarrow> daemon \<Rightarrow> handler" where
  "device_reprobe B local_interface m =
     if_privileged B local_interface m ''Reprobe: not privileged''
       (with_device m (path_of m) (\<lambda>dev s.
          err_bind (osspec_device_reprobe B dev s) (\<lambda>(res, s). reply m [D_BOOLEAN res] s)))"

definition device_emit_condition :: "bus_env \<Rightarrow> bool \<Rightarrow> dmessage \<Rightarrow> daemon \<Rightarrow> handler" where
  "device_emit_condition B local_interface m s =
     (if \<not> local_interface then handled (raise_permission_denied m ''EmitCondition: only allowed for helpers'' s)
      else case get_args B [T_STRING, T_STRING] m of
             Some [D_STRING condition_name, D_STRING condition_details] \<Rightarrow>
               with_device m (path_of m) (\<lambda>dev s.
                 reply m [D_BOOLEAN True]
                   (device_send_signal_condition (bd_heap s dev) condition_name condition_details s)) s
           | _ \<Rightarrow> handled (raise_syntax m ''EmitCondition'' s))"

definition device_claim_interface :: "bus_env \<Rightarrow> bool \<Rightarrow> dmessage \<Rightarrow> daemon \<Rightarrow> handler" where
  "device_claim_interface B local_interface m s =
     (if \<not> local_interface then handled (raise_permission_denied m ''ClaimInterface: only allowed for helpers'' s)
      else case get_args B [T_STRING, T_STRING] m of
             Some [D_STRING interface_name, D_STRING introspection_xml] \<Rightarrow>
               with_device m (path_of m) (\<lambda>dev s.
                 err_bind (dev_call B dev (hal_device_property_strlist_add ''info.interfaces'' interface_name) s) (\<lambda>(_, s).
                   reply m [D_BOOLEAN True]
                     (s\<lparr>helper_interface_handlers := helper_interface_handlers s @
                          [\<lparr>hih_connection = msg_conn m, hih_interface = interface_name,
                            hih_xml = introspection_xml, hih_udi = path_of m\<rparr>]\<rparr>))) s
           | _ \<Rightarrow> handled (raise_syntax m ''ClaimInterface'' s))"

section \<open>Callouts and the runner\<close>

text \<open>
  A step of a callout with the answer of the runner. When the command line cannot be parsed, the runner
  calls back at once, before the index of the next program has been increased, and the callback starts
  the same program: the recursion has no end, which the model reports as running out of fuel.
\<close>

fun callout_run ::
    "nat \<Rightarrow> (callout_action \<Rightarrow> bool) \<Rightarrow> callout_action \<times> callout option \<Rightarrow>
     memory_error + (callout_action \<times> callout option)" where
  "callout_run 0 starts step = Inl Out_Of_Fuel"
| "callout_run (Suc n) starts step =
     (case step of
        (RUN dev program extra_env, Some c) \<Rightarrow>
          if starts (RUN dev program extra_env) then Inr step
          else callout_run n starts (callout_do_next (c\<lparr>co_next_program := co_next_program c - 1\<rparr>))
      | _ \<Rightarrow> Inr step)"

definition run_callout ::
    "bus_env \<Rightarrow> nat \<Rightarrow> callout_action \<times> callout option \<Rightarrow> (daemon \<Rightarrow> memory_error + daemon) \<Rightarrow> daemon \<Rightarrow>
     memory_error + daemon" where
  "run_callout B dev step callback s =
     err_bind (callout_run (be_fuel B)
                 (\<lambda>a. case a of RUN d program extra_env \<Rightarrow> be_start B (Run_Callout d program extra_env) | _ \<Rightarrow> True) step)
       (\<lambda>(a, _). case a of
          CALLBACK _ \<Rightarrow> callback s
        | RUN d program extra_env \<Rightarrow> Inr (runner (Run_Callout d program extra_env) s))"

section \<open>Manager: new and removed devices\<close>

definition hex_digit :: "nat \<Rightarrow> char" where
  "hex_digit n = ''0123456789abcdef'' ! (n mod 16)"

definition hex5 :: "nat \<Rightarrow> string" where
  "hex5 n = map (\<lambda>k. hex_digit (n div 16 ^ k)) [4, 3, 2, 1, 0]"

text \<open>
  The name of a new device is made from the microseconds of the clock. When it is taken, the loop adds
  its counter to the \<^emph>\<open>pointer\<close>: from the second round on, the name is the string without its first
  characters, and \<open>g_free\<close> gets a pointer into the middle of the allocated string.
\<close>

definition new_device_udi :: "nat \<Rightarrow> string" where
  "new_device_udi tv_usec = ''/org/freedesktop/Hal/devices/tmp'' @ hex5 (tv_usec mod 2 ^ 20)"

definition manager_new_device :: "bus_env \<Rightarrow> nat \<Rightarrow> bool \<Rightarrow> dmessage \<Rightarrow> daemon \<Rightarrow> handler" where
  "manager_new_device B tv_usec local_interface m =
     if_privileged B local_interface m ''NewDevice: not privileged'' (\<lambda>s.
       let u = new_device_udi tv_usec
       in case hal_device_new (bd_world s) of
            (dev, w) \<Rightarrow>
              if hal_device_store_find (w_heap w) u (w_tdl w) \<noteq> None then Inl Bad_Object
              else err_bind (dev_call B dev (hal_device_set_udi (be_glib B) u) (set_world w s)) (\<lambda>(_, s).
                   err_bind (tdl_add B dev s) (\<lambda>s. reply m [D_STRING u] s)))"

text \<open>The end of the callouts for a removed device.\<close>

definition manager_remove_done :: "bus_env \<Rightarrow> nat \<Rightarrow> daemon \<Rightarrow> memory_error + daemon" where
  "manager_remove_done B dev s = err_bind (gdl_remove B dev s) (\<lambda>(_, s). Inr s)"

text \<open>
  The device found in the temporary list is not used: the result of that search is dropped. When the
  device has no callouts, the continuation runs at once and removes it.
\<close>

definition manager_remove :: "bus_env \<Rightarrow> bool \<Rightarrow> dmessage \<Rightarrow> daemon \<Rightarrow> handler" where
  "manager_remove B local_interface m =
     if_privileged B local_interface m ''Remove: not privileged'' (\<lambda>s.
       case get_args B [T_STRING] m of
         Some [D_STRING u] \<Rightarrow>
           (case hal_device_store_find (bd_heap s) u (w_gdl (bd_world s)) of
              None \<Rightarrow> handled (raise_no_such_device m u s)
            | Some dev \<Rightarrow>
                err_bind (run_callout B dev (hal_util_callout_device_remove (bd_heap s) dev) (manager_remove_done B dev) s) (\<lambda>s.
                err_bind (gdl_remove B dev s) (\<lambda>(_, s). reply m [] s)))
       | _ \<Rightarrow> handled (raise_syntax m ''Remove'' s))"

text \<open>Rules change the device before it is in the global list; other devices they change are announced.\<close>

definition search_and_merge :: "bus_env \<Rightarrow> nat \<Rightarrow> device_info_type \<Rightarrow> daemon \<Rightarrow> memory_error + daemon" where
  "search_and_merge B dev type s =
     err_bind (di_search_and_merge (be_fuel B) (be_rules B) dev type (bd_world s)) (\<lambda>w.
       replay B (length (emitted (w_gdl (bd_world s)))) (set_world w s))"

definition manager_commit_done :: "nat \<Rightarrow> daemon \<Rightarrow> memory_error + daemon" where
  "manager_commit_done dev s = Inr s"

definition manager_commit_preprobing_done :: "bus_env \<Rightarrow> nat \<Rightarrow> daemon \<Rightarrow> memory_error + daemon" where
  "manager_commit_preprobing_done B dev s =
     (if hal_device_property_get_bool (bd_heap s dev) ''info.ignore''
      then err_bind (dev_call B dev (hal_device_property_remove ''info.category'') s) (\<lambda>(_, s).
           err_bind (dev_call B dev (hal_device_property_remove ''info.capabilities'') s) (\<lambda>(_, s).
           err_bind (dev_call B dev (hal_device_property_set_string (be_glib B) ''info.udi''
                       (Some ''/org/freedesktop/Hal/devices/ignored-device'')) s) (\<lambda>(_, s).
           err_bind (dev_call B dev (hal_device_property_set_string (be_glib B) ''info.product'' (Some ''Ignored Device'')) s)
             (\<lambda>(_, s). Inr s))))
      else
        err_bind (run_callout B dev (hal_util_callout_device_add (bd_heap s) dev) (manager_commit_done dev) s) (\<lambda>s.
        err_bind (search_and_merge B dev DEVICE_INFO_TYPE_INFORMATION s)
          (search_and_merge B dev DEVICE_INFO_TYPE_POLICY)))"

definition manager_commit_to_gdl :: "bus_env \<Rightarrow> bool \<Rightarrow> dmessage \<Rightarrow> daemon \<Rightarrow> handler" where
  "manager_commit_to_gdl B local_interface m =
     if_privileged B local_interface m ''CommitToGdl: not privileged'' (\<lambda>s.
       case get_args B [T_STRING, T_STRING] m of
         Some [D_STRING tmp_udi, D_STRING udi0] \<Rightarrow>
           (case hal_device_store_find (bd_heap s) tmp_udi (w_tdl (bd_world s)) of
              None \<Rightarrow> handled (raise_no_such_device m tmp_udi s)
            | Some dev \<Rightarrow>
                err_bind (hal_util_make_udi_unique (be_fuel B) (bd_heap s) (w_gdl (bd_world s)) 256 udi0) (\<lambda>u.
                  if hal_device_store_find (bd_heap s) u (w_gdl (bd_world s)) \<noteq> None
                  then err_bind (tdl_remove B dev s) (\<lambda>s.
                         handled (raise_error m ''org.freedesktop.Hal.DeviceExists'' (''CommitToGdl: Device exists: '' @ u) s))
                  else
                    err_bind (dev_call B dev (hal_device_property_remove ''info.udi'') s) (\<lambda>(_, s).
                    err_bind (dev_call B dev (hal_device_set_udi (be_glib B) u) s) (\<lambda>(_, s).
                    err_bind (search_and_merge B dev DEVICE_INFO_TYPE_PREPROBE s) (\<lambda>s.
                    err_bind (run_callout B dev (hal_util_callout_device_preprobe (bd_heap s) dev)
                                (manager_commit_preprobing_done B dev) s) (\<lambda>s.
                    err_bind (tdl_remove B dev s) (\<lambda>s.
                    err_bind (gdl_add B dev s) (\<lambda>s. reply m [] s))))))))
       | _ \<Rightarrow> handled (raise_syntax m ''CommitToGdl'' s))"

end
