(* ===== verification/Hal_DBus_Exec.thy ===== *)
theory Hal_DBus_Exec
  imports Hal_DBus_Addons
begin

text \<open>
  Methods that run a program: the call is turned into the environment and the standard input of the
  program, and the calls for one device run one after the other. The table \<open>udi_to_method_queue\<close> has an
  entry for a device while a call for it runs; the first element of the queue is the running one.

  An invocation is freed with its strings when it leaves the queue. \<open>hald_exec_method_process_queue\<close> is
  called with the UDI of a device, or by itself with the UDI \<^emph>\<open>inside\<close> the first invocation; the
  parameter \<open>own\<close> tells the two apart. Reference counts of messages are not modelled.
\<close>

section \<open>Arguments as text\<close>

text \<open>\<open>printf ("%g")\<close>: six significant digits of the exact value, rounded to nearest even, without trailing zeros.\<close>

definition floor_log10 :: "int \<Rightarrow> int \<Rightarrow> int" where
  "floor_log10 n d =
     (if d \<le> n then int (length (nat_to_string (n div d))) - 1
      else - int (length (nat_to_string ((d + n - 1) div n - 1))))"

definition six_digits :: "int \<Rightarrow> int \<Rightarrow> int \<times> string" where
  "six_digits n d =
     (let x = floor_log10 n d;
          q = round_half_even (n * 10 ^ nat (5 - x)) (d * 10 ^ nat (x - 5))
      in if q = 10 ^ 6 then (x + 1, ''100000'') else (x, nat_to_string q))"

definition strip_zeros :: "string \<Rightarrow> string" where
  "strip_zeros s = rev (dropWhile (\<lambda>c. c = CHR ''0'') (rev s))"

definition with_point :: "string \<Rightarrow> string" where
  "with_point frac = (if frac = [] then [] else CHR ''.'' # frac)"

definition g_digits :: "int \<Rightarrow> string \<Rightarrow> string" where
  "g_digits x ds =
     (if 0 \<le> x \<and> x < 6 then take (nat x + 1) ds @ with_point (strip_zeros (drop (nat x + 1) ds))
      else if - 4 \<le> x \<and> x < 0 then ''0'' @ with_point (replicate (nat (- x - 1)) (CHR ''0'') @ strip_zeros ds)
      else take 1 ds @ with_point (strip_zeros (drop 1 ds)) @ ''e'' @ (if x < 0 then ''-'' else ''+'') @
           pad_left 2 (nat_to_string \<bar>x\<bar>))"

fun format_g :: "double \<Rightarrow> string" where
  "format_g (NaN s) = (if s then ''-nan'' else ''nan'')"
| "format_g (Inf s) = (if s then ''-inf'' else ''inf'')"
| "format_g (Fin s m e) =
     (if s then ''-'' else '''') @
     (if m = 0 then ''0'' else case six_digits (scale_up m e) (den_of e) of (x, ds) \<Rightarrow> g_digits x ds)"

fun arg_text :: "dvalue \<Rightarrow> string option" where
  "arg_text (D_BYTE v) = Some (nat_to_string (uint v))"
| "arg_text (D_INT16 v) = Some (int_to_string (sint v))"
| "arg_text (D_UINT16 v) = Some (nat_to_string (uint v))"
| "arg_text (D_INT32 v) = Some (int_to_string (sint v))"
| "arg_text (D_UINT32 v) = Some (nat_to_string (uint v))"
| "arg_text (D_INT64 v) = Some (int_to_string (sint v))"
| "arg_text (D_UINT64 v) = Some (nat_to_string (uint v))"
| "arg_text (D_DOUBLE v) = Some (format_g v)"
| "arg_text (D_BOOLEAN v) = Some (if v then ''true'' else ''false'')"
| "arg_text (D_STRING v) = Some v"
| "arg_text (D_ARRAY t vs) =
     (if t \<noteq> T_STRING then None else Some (concat (map (\<lambda>v. v @ [tab]) (leading_strings vs))))"
| "arg_text _ = None"

text \<open>One line for each argument; an argument of another type makes the daemon refuse the call.\<close>

fun stdin_text :: "dvalue list \<Rightarrow> string option" where
  "stdin_text [] = Some []"
| "stdin_text (v # vs) =
     (case arg_text v of
        None \<Rightarrow> None
      | Some t \<Rightarrow> map_option (\<lambda>rest. t @ newline # rest) (stdin_text vs))"

section \<open>The caller in the environment\<close>

text \<open>Texts printed with \<open>sprintf\<close> into buffers of 256 bytes.\<close>

definition sprintf256 :: "string \<Rightarrow> memory_error + string" where
  "sprintf256 text = (if length text < 256 then Inr text else Inl Buffer_Overrun)"

definition opt_export :: "string \<Rightarrow> string option \<Rightarrow> memory_error + string list" where
  "opt_export key v =
     (case v of None \<Rightarrow> Inr [] | Some t \<Rightarrow> err_bind (sprintf256 (key @ t)) (\<lambda>e. Inr [e]))"

definition caller_env :: "bus_env \<Rightarrow> caller_info option \<Rightarrow> dmessage \<Rightarrow> memory_error + string list" where
  "caller_env B ci m =
     (case ci of
        None \<Rightarrow> Inr [''HAL_METHOD_INVOKED_BY_UID=0'']
      | Some ci \<Rightarrow>
          (let who = [''HAL_METHOD_INVOKED_BY_UID='' @ nat_to_string (ci_uid ci mod 2 ^ 32),
                      snprintf 256 (''HAL_METHOD_INVOKED_BY_SYSTEMBUS_CONNECTION_NAME='' @ (case msg_sender m of Some x \<Rightarrow> x | None \<Rightarrow> []))]
           in if env_build (be_access B) = Plain then Inr who
              else err_bind (opt_export ''HAL_METHOD_INVOKED_BY_SELINUX_CONTEXT='' (ci_selinux ci)) (\<lambda>sel.
                   err_bind (opt_export ''HAL_METHOD_INVOKED_BY_SESSION='' (map_option g_basename (ci_session ci))) (\<lambda>ses.
                   Inr (who @ [''HAL_METHOD_INVOKED_BY_PID='' @ nat_to_string (ci_pid ci mod 2 ^ 32)] @ sel @ ses)))))"

section \<open>The queue of method calls\<close>

definition queue_of :: "string \<Rightarrow> daemon \<Rightarrow> method_invocation list option" where
  "queue_of u s = Option.bind (udi_to_method_queue s) (\<lambda>t. map_of t u)"

definition put_queue :: "string \<Rightarrow> method_invocation list \<Rightarrow> daemon \<Rightarrow> daemon" where
  "put_queue u q s = s\<lparr>udi_to_method_queue := Some (AList.update u q (the_table (udi_to_method_queue s)))\<rparr>"

definition drop_queue :: "string \<Rightarrow> daemon \<Rightarrow> daemon" where
  "drop_queue u s = s\<lparr>udi_to_method_queue := map_option (AList.delete u) (udi_to_method_queue s)\<rparr>"

text \<open>The names are compared, but any queue makes the answer true.\<close>

definition device_is_executing_method :: "hal_device \<Rightarrow> string \<Rightarrow> string \<Rightarrow> daemon \<Rightarrow> bool" where
  "device_is_executing_method d interface_name method_name s = (queue_of (hal_device_get_udi d) s \<noteq> None)"

definition refresh_after :: "bus_env \<Rightarrow> method_invocation \<Rightarrow> daemon \<Rightarrow> memory_error + daemon" where
  "refresh_after B mi s =
     (if strcmp (mi_interface mi) ''org.freedesktop.Hal.Device.Volume'' = 0 \<and> strcmp (mi_member mi) ''Unmount'' = 0
      then (case find_device (mi_udi mi) s of
              None \<Rightarrow> Inr s
            | Some dev \<Rightarrow>
                err_bind (be_refresh_mount B dev (bd_world s)) (\<lambda>w.
                  replay B (length (emitted (w_gdl (bd_world s)))) (set_world w s)))
      else Inr s)"

definition run_reply :: "dmessage \<Rightarrow> run_result \<Rightarrow> int32 \<Rightarrow> string list \<Rightarrow> bus_out" where
  "run_reply m exit_type return_code error =
     (if exit_type \<noteq> HALD_RUN_SUCCESS
      then Send_Error m ''org.freedesktop.Hal.Device.UnknownError'' ''An unknown error occured''
      else (case error of
              exp_name # exp_detail # _ \<Rightarrow>
                if is_valid_interface_name exp_name then Send_Error m exp_name exp_detail
                else Send_Error m ''org.freedesktop.Hal.Device.UnknownError'' (exp_name @ '' '' @ [newline] @ '' '' @ exp_detail)
            | _ \<Rightarrow> Send_Return m [D_INT32 return_code]))"

text \<open>
  Starting a program fails at once when its command line cannot be parsed or the runner is gone
  (\<open>be_start\<close>); then the callback runs before the call that starts it returns. The callback goes on with
  the queue first and answers afterwards.
\<close>

fun hald_exec_method_process_queue :: "nat \<Rightarrow> bus_env \<Rightarrow> string \<Rightarrow> bool \<Rightarrow> daemon \<Rightarrow> memory_error + daemon"
  and hald_exec_method_do_invocation :: "nat \<Rightarrow> bus_env \<Rightarrow> method_invocation \<Rightarrow> daemon \<Rightarrow> memory_error + (bool \<times> daemon)"
  and hald_exec_method_cb ::
    "nat \<Rightarrow> bus_env \<Rightarrow> string \<Rightarrow> run_result \<Rightarrow> int32 \<Rightarrow> string list \<Rightarrow> dmessage \<Rightarrow> daemon \<Rightarrow> memory_error + daemon" where
  "hald_exec_method_process_queue 0 B u own s = Inl Out_Of_Fuel"
| "hald_exec_method_process_queue (Suc n) B u own s =
     (case queue_of u s of
        Some (mi # rest) \<Rightarrow>
          err_bind (refresh_after B mi (if rest = [] then drop_queue u s else s)) (\<lambda>s.
            case rest of
              [] \<Rightarrow> Inr s
            | next # _ \<Rightarrow>
                if own then Inl Use_After_Free
                else err_bind (hald_exec_method_do_invocation n B next (put_queue u rest s)) (\<lambda>(ok, s).
                       if ok then Inr s else hald_exec_method_process_queue n B (mi_udi next) True s))
      | _ \<Rightarrow> Inr s)"
| "hald_exec_method_do_invocation n B mi s =
     (case find_device (mi_udi mi) s of
        None \<Rightarrow> Inr (False, raise_no_such_device (mi_message mi) (mi_udi mi) s)
      | Some dev \<Rightarrow>
          if be_start B (Run_Method dev mi) then Inr (True, runner (Run_Method dev mi) s)
          else err_bind (hald_exec_method_cb n B (hal_device_get_udi (bd_heap s dev)) HALD_RUN_FAILED 0 [] (mi_message mi) s)
                 (\<lambda>s. Inr (True, s)))"
| "hald_exec_method_cb n B u exit_type return_code error m s =
     err_bind (hald_exec_method_process_queue n B u False s) (\<lambda>s.
       Inr (bus_send (run_reply m exit_type return_code error) s))"

definition hald_exec_method_enqueue :: "bus_env \<Rightarrow> method_invocation \<Rightarrow> daemon \<Rightarrow> memory_error + daemon" where
  "hald_exec_method_enqueue B mi s =
     (let s = s\<lparr>udi_to_method_queue := Some (the_table (udi_to_method_queue s))\<rparr>
      in case queue_of (mi_udi mi) s of
           Some q \<Rightarrow> Inr (put_queue (mi_udi mi) (q @ [mi]) s)
         | None \<Rightarrow>
             err_bind (hald_exec_method_do_invocation (be_fuel B) B mi (put_queue (mi_udi mi) [mi] s)) (\<lambda>(_, s). Inr s))"

definition hald_exec_method :: "bus_env \<Rightarrow> nat \<Rightarrow> caller_info option \<Rightarrow> dmessage \<Rightarrow> string \<Rightarrow> daemon \<Rightarrow> handler" where
  "hald_exec_method B dev ci m execpath s =
     err_bind (caller_env B ci m) (\<lambda>extra_env.
       case stdin_text (msg_args m) of
         None \<Rightarrow> Inr (NOT_YET_HANDLED, s)
       | Some mstdin \<Rightarrow>
           err_bind (hald_exec_method_enqueue B
             \<lparr>mi_udi = hal_device_get_udi (bd_heap s dev), mi_execpath = execpath, mi_extra_env = extra_env,
              mi_stdin = mstdin, mi_member = (case msg_member m of Some x \<Rightarrow> x | None \<Rightarrow> []), mi_interface = (case msg_interface m of Some x \<Rightarrow> x | None \<Rightarrow> []),
              mi_message = m\<rparr> s) handled)"

end
