(* ===== verification/Hal_DBus_Introspect.thy ===== *)
theory Hal_DBus_Introspect
  imports Hal_DBus_Exec
begin

text \<open>
  The answer to \<open>Introspect\<close> (\<open>do_introspect\<close> of \<open>hald/hald_dbus.c\<close>): the XML text for each kind of object.
  The fixed parts are lists of methods and signals with their arguments, printed in the layout of the
  string literals; the interfaces of a device are printed from its properties and from the
  registrations of helpers.
\<close>

section \<open>Layout\<close>

definition quoted :: "string \<Rightarrow> string" where
  "quoted t = [CHR 0x22] @ t @ [CHR 0x22]"

definition line :: "string \<Rightarrow> string" where
  "line t = t @ [newline]"

definition arg_in :: "string \<Rightarrow> string \<Rightarrow> string" where
  "arg_in name type = line (''      <arg name='' @ quoted name @ '' direction='' @ quoted ''in'' @ '' type='' @ quoted type @ ''/>'')"

definition arg_out :: "string \<Rightarrow> string \<Rightarrow> string" where
  "arg_out name type = line (''      <arg name='' @ quoted name @ '' direction='' @ quoted ''out'' @ '' type='' @ quoted type @ ''/>'')"

definition arg_plain :: "string \<Rightarrow> string \<Rightarrow> string" where
  "arg_plain name type = line (''      <arg name='' @ quoted name @ '' type='' @ quoted type @ ''/>'')"

definition xml_method :: "string \<Rightarrow> string list \<Rightarrow> string" where
  "xml_method name args = line (''    <method name='' @ quoted name @ ''>'') @ concat args @ line ''    </method>''"

definition xml_signal :: "string \<Rightarrow> string list \<Rightarrow> string" where
  "xml_signal name args = line (''    <signal name='' @ quoted name @ ''>'') @ concat args @ line ''    </signal>''"

definition xml_interface :: "string \<Rightarrow> string \<Rightarrow> string" where
  "xml_interface name body = line (''  <interface name='' @ quoted name @ ''>'') @ body @ line ''  </interface>''"

definition xml_node :: "string \<Rightarrow> string" where
  "xml_node name = line (''  <node name='' @ quoted name @ ''/>'')"

definition introspect_head :: string where
  "introspect_head =
     line (''<!DOCTYPE node PUBLIC '' @ quoted ''-//freedesktop//DTD D-BUS Object Introspection 1.0//EN'') @
     line (quoted ''http://www.freedesktop.org/standards/dbus/1.0/introspect.dtd'' @ ''>'') @
     line ''<node>'' @
     xml_interface ''org.freedesktop.DBus.Introspectable'' (xml_method ''Introspect'' [arg_out ''data'' ''s''])"

section \<open>The interfaces of the daemon\<close>

definition manager_interface :: string where
  "manager_interface =
     xml_method ''GetAllDevices'' [arg_out ''devices'' ''as''] @
     xml_method ''GetAllDevicesWithProperties'' [arg_out ''devices_with_props'' ''a(sa{sv})''] @
     xml_method ''DeviceExists'' [arg_out ''does_it_exist'' ''b'', arg_in ''udi'' ''s''] @
     xml_method ''FindDeviceStringMatch'' [arg_out ''devices'' ''as'', arg_in ''key'' ''s'', arg_in ''value'' ''s''] @
     xml_method ''FindDeviceByCapability'' [arg_out ''devices'' ''as'', arg_in ''capability'' ''s''] @
     xml_method ''NewDevice'' [arg_out ''temporary_udi'' ''s''] @
     xml_method ''Remove'' [arg_in ''udi'' ''s''] @
     xml_method ''CommitToGdl'' [arg_in ''temporary_udi'' ''s'', arg_in ''global_udi'' ''s''] @
     xml_method ''AcquireGlobalInterfaceLock'' [arg_in ''interface_name'' ''s'', arg_in ''exclusive'' ''b''] @
     xml_method ''ReleaseGlobalInterfaceLock'' [arg_in ''interface_name'' ''s''] @
     xml_method ''SingletonAddonIsReady'' [arg_in ''command_line'' ''s''] @
     xml_signal ''DeviceAdded'' [arg_plain ''udi'' ''s''] @
     xml_signal ''DeviceRemoved'' [arg_plain ''udi'' ''s''] @
     xml_signal ''NewCapability'' [arg_plain ''udi'' ''s'', arg_plain ''cap_name'' ''s''] @
     xml_signal ''GlobalInterfaceLockAcquired'' [arg_plain ''interface_name'' ''s'', arg_plain ''lock_holder'' ''s'', arg_plain ''num_locks'' ''i''] @
     xml_signal ''GlobalInterfaceLockReleased'' [arg_plain ''interface_name'' ''s'', arg_plain ''lock_holder'' ''s'', arg_plain ''num_locks'' ''i'']"

definition device_interface_properties :: string where
  "device_interface_properties =
     xml_method ''GetAllProperties'' [arg_out ''properties'' ''a{sv}''] @
     xml_method ''SetMultipleProperties'' [arg_in ''properties'' ''a{sv}''] @
     xml_method ''GetProperty'' [arg_in ''key'' ''s'', arg_out ''value'' ''v''] @
     xml_method ''GetPropertyString'' [arg_in ''key'' ''s'', arg_out ''value'' ''s''] @
     xml_method ''GetPropertyStringList'' [arg_in ''key'' ''s'', arg_out ''value'' ''as''] @
     xml_method ''GetPropertyInteger'' [arg_in ''key'' ''s'', arg_out ''value'' ''i''] @
     xml_method ''GetPropertyBoolean'' [arg_in ''key'' ''s'', arg_out ''value'' ''b''] @
     xml_method ''GetPropertyDouble'' [arg_in ''key'' ''s'', arg_out ''value'' ''d''] @
     xml_method ''SetProperty'' [arg_in ''key'' ''s'', arg_in ''value'' ''v''] @
     xml_method ''SetPropertyString'' [arg_in ''key'' ''s'', arg_in ''value'' ''s''] @
     xml_method ''SetPropertyStringList'' [arg_in ''key'' ''s'', arg_in ''value'' ''as''] @
     xml_method ''SetPropertyInteger'' [arg_in ''key'' ''s'', arg_in ''value'' ''i''] @
     xml_method ''SetPropertyBoolean'' [arg_in ''key'' ''s'', arg_in ''value'' ''b''] @
     xml_method ''SetPropertyDouble'' [arg_in ''key'' ''s'', arg_in ''value'' ''d''] @
     xml_method ''RemoveProperty'' [arg_in ''key'' ''s''] @
     xml_method ''GetPropertyType'' [arg_in ''key'' ''s'', arg_out ''type'' ''i''] @
     xml_method ''PropertyExists'' [arg_in ''key'' ''s'', arg_out ''does_it_exist'' ''b''] @
     xml_method ''AddCapability'' [arg_in ''capability'' ''s''] @
     xml_method ''QueryCapability'' [arg_in ''capability'' ''s'', arg_out ''does_it_have_capability'' ''b''] @
     xml_method ''Lock'' [arg_in ''reason'' ''s'', arg_out ''acquired_lock'' ''b''] @
     xml_method ''Unlock'' [arg_out ''released_lock'' ''b'']"

definition device_interface_rest :: string where
  "device_interface_rest =
     xml_method ''AcquireInterfaceLock'' [arg_in ''interface_name'' ''s'', arg_in ''exclusive'' ''b''] @
     xml_method ''ReleaseInterfaceLock'' [arg_in ''interface_name'' ''s''] @
     xml_method ''IsCallerLockedOut'' [arg_in ''interface_name'' ''s'', arg_in ''caller_sysbus_name'' ''s'', arg_out ''whether_caller_is_locked_out'' ''b''] @
     xml_method ''IsCallerPrivileged'' [arg_in ''action'' ''s'', arg_plain ''action_parameters'' ''as'', arg_in ''caller_sysbus_name'' ''s'', arg_out ''result'' ''s''] @
     xml_method ''IsLockedByOthers'' [arg_in ''interface_name'' ''s'', arg_out ''whether_it_is_locked_by_others'' ''b''] @
     xml_method ''StringListAppend'' [arg_in ''key'' ''s'', arg_in ''value'' ''s''] @
     xml_method ''StringListPrepend'' [arg_in ''key'' ''s'', arg_in ''value'' ''s''] @
     xml_method ''StringListRemove'' [arg_in ''key'' ''s'', arg_in ''value'' ''s''] @
     xml_method ''EmitCondition'' [arg_in ''condition_name'' ''s'', arg_in ''condition_details'' ''s'', arg_out ''rc'' ''b''] @
     xml_method ''Rescan'' [arg_out ''call_had_sideeffect'' ''b''] @
     xml_method ''Reprobe'' [arg_out ''call_had_sideeffect'' ''b''] @
     xml_method ''ClaimInterface'' [arg_in ''interface_name'' ''s'', arg_in ''introspection_xml'' ''s'', arg_out ''rc'' ''b''] @
     xml_method ''AddonIsReady'' [arg_out ''rc'' ''b''] @
     xml_signal ''PropertyModified'' [arg_plain ''num_updates'' ''i'', arg_plain ''updates'' ''a(sbb)''] @
     xml_signal ''Condition'' [arg_plain ''cond_name'' ''s'', arg_plain ''cond_details'' ''s''] @
     xml_signal ''InterfaceLockAcquired'' [arg_plain ''interface_name'' ''s'', arg_plain ''lock_holder'' ''s'', arg_plain ''num_locks'' ''i''] @
     xml_signal ''InterfaceLockReleased'' [arg_plain ''interface_name'' ''s'', arg_plain ''lock_holder'' ''s'', arg_plain ''num_locks'' ''i'']"

section \<open>The interfaces of a device\<close>

text \<open>
  The arguments of a method: the signature is read character by character, an \<open>a\<close> together with the next
  one, and the names are taken in parallel. An \<open>a\<close> at the end is skipped.
\<close>

fun introspect_args :: "string \<Rightarrow> string list \<Rightarrow> string" where
  "introspect_args [] args = []"
| "introspect_args (c # sig) [] = []"
| "introspect_args (c # sig) (a # args) =
     (if c = CHR ''a''
      then (case sig of
              [] \<Rightarrow> []
            | e # sig' \<Rightarrow> arg_in a [c, e] @ introspect_args sig' args)
      else arg_in a [c] @ introspect_args sig args)"

definition introspect_method :: "string \<Rightarrow> string \<Rightarrow> string \<Rightarrow> string" where
  "introspect_method name sig argnames =
     line (''    <method name='' @ quoted name @ ''>'') @
     introspect_args sig (g_strsplit argnames (CHR 0x20) 0) @
     arg_out ''return_code'' ''i'' @ line ''    </method>''"

fun introspect_methods :: "string list \<Rightarrow> string list \<Rightarrow> string list \<Rightarrow> string" where
  "introspect_methods (name # names) (sig # sigs) (argnames # argss) =
     introspect_method name sig argnames @ introspect_methods names sigs argss"
| "introspect_methods _ _ _ = []"

definition introspect_interface :: "string \<Rightarrow> hal_device \<Rightarrow> helper_handler list \<Rightarrow> string \<Rightarrow> string" where
  "introspect_interface path d hs ifname =
     xml_interface ifname
       (concat (map hih_xml (filter (\<lambda>hih. strcmp (hih_udi hih) path = 0 \<and> strcmp (hih_interface hih) ifname = 0) hs)) @
        introspect_methods (hal_device_property_strlist_iter_init d (ifname @ ''.method_names''))
          (hal_device_property_strlist_iter_init d (ifname @ ''.method_signatures''))
          (hal_device_property_strlist_iter_init d (ifname @ ''.method_argnames'')))"

definition introspect_device :: "string \<Rightarrow> hal_device \<Rightarrow> helper_handler list \<Rightarrow> string" where
  "introspect_device path d hs =
     xml_interface ''org.freedesktop.Hal.Device'' (device_interface_properties @ device_interface_rest) @
     concat (map (introspect_interface path d hs) (hal_device_property_strlist_iter_init d ''info.interfaces''))"

text \<open>The last component of a UDI; a UDI without a slash would lead to a \<open>NULL\<close> pointer.\<close>

definition udi_name :: "string \<Rightarrow> memory_error + string" where
  "udi_name u =
     (if CHR ''/'' \<in> set u then Inr (rev (takeWhile (\<lambda>c. c \<noteq> CHR ''/'') (rev u))) else Inl Null_Dereference)"

definition foreach_device_get_xml_node ::
    "heap \<Rightarrow> nat \<Rightarrow> memory_error + string \<Rightarrow> bool \<times> (memory_error + string)" where
  "foreach_device_get_xml_node h dev xml =
     (True, err_bind xml (\<lambda>t. err_bind (udi_name (hal_device_get_udi (h dev))) (\<lambda>name. Inr (t @ xml_node name))))"

section \<open>The answer\<close>

definition introspect_body :: "string \<Rightarrow> daemon \<Rightarrow> memory_error + string option" where
  "introspect_body path s =
     (if strcmp path ''/'' = 0 then Inr (Some (xml_node ''org''))
      else if strcmp path ''/org'' = 0 then Inr (Some (xml_node ''freedesktop''))
      else if strcmp path ''/org/freedesktop'' = 0 then Inr (Some (xml_node ''Hal''))
      else if strcmp path ''/org/freedesktop/Hal'' = 0 then Inr (Some (xml_node ''Manager'' @ xml_node ''devices''))
      else if strcmp path ''/org/freedesktop/Hal/devices'' = 0
      then err_bind (hal_device_store_foreach (foreach_device_get_xml_node (bd_heap s)) (w_gdl (bd_world s)) (Inr []))
             (\<lambda>t. Inr (Some t))
      else if strcmp path ''/org/freedesktop/Hal/Manager'' = 0
      then Inr (Some (xml_interface ''org.freedesktop.Hal.Manager'' manager_interface))
      else (case find_device path s of
              None \<Rightarrow> Inr None
            | Some dev \<Rightarrow> Inr (Some (introspect_device path (bd_heap s dev) (helper_interface_handlers s)))))"

definition do_introspect :: "dmessage \<Rightarrow> daemon \<Rightarrow> handler" where
  "do_introspect m s =
     err_bind (introspect_body (path_of m) s) (\<lambda>body.
       case body of
         None \<Rightarrow> handled (raise_no_such_device m (path_of m) s)
       | Some t \<Rightarrow> reply m [D_STRING (introspect_head @ t @ line ''</node>'')] s)"

end
