(* ===== verification/Hal_DBus_Filter.thy ===== *)
theory Hal_DBus_Filter
  imports Hal_DBus_Introspect
begin

text \<open>
  The dispatch of messages: method calls by interface and member, methods of devices that run a program
  or are forwarded to an addon, signals of the bus and of ConsoleKit, and the messages of helpers on
  their direct connections. Also the reaction to changes of sessions: locks of callers that lost access
  are released, and callouts are queued.
\<close>

section \<open>Method calls\<close>

text \<open>A message without an interface matches any interface, as libdbus documents.\<close>

definition is_method_call :: "dmessage \<Rightarrow> string \<Rightarrow> string \<Rightarrow> bool" where
  "is_method_call m interface member \<longleftrightarrow>
     msg_type m = METHOD_CALL \<and> msg_member m = Some member \<and> (msg_interface m = None \<or> msg_interface m = Some interface)"

definition is_signal :: "dmessage \<Rightarrow> string \<Rightarrow> string \<Rightarrow> bool" where
  "is_signal m interface member \<longleftrightarrow>
     msg_type m = SIGNAL \<and> msg_member m = Some member \<and> msg_interface m = Some interface"

definition manager_call :: "dmessage \<Rightarrow> string \<Rightarrow> bool" where
  "manager_call m member \<longleftrightarrow>
     is_method_call m ''org.freedesktop.Hal.Manager'' member \<and> strcmp (path_of m) ''/org/freedesktop/Hal/Manager'' = 0"

definition device_call :: "dmessage \<Rightarrow> string \<Rightarrow> bool" where
  "device_call m member \<longleftrightarrow> is_method_call m ''org.freedesktop.Hal.Device'' member"

subsection \<open>Methods of device-specific interfaces\<close>

fun find_handler :: "string \<Rightarrow> string \<Rightarrow> helper_handler list \<Rightarrow> helper_handler option" where
  "find_handler u interface [] = None"
| "find_handler u interface (hih # hs) =
     (if strcmp (hih_udi hih) u = 0 \<and> strcmp (hih_interface hih) interface = 0 then Some hih
      else find_handler u interface hs)"

text \<open>The program of a method: the elements at one position of three string lists belong together.\<close>

fun method_loop :: "hal_device \<Rightarrow> string \<Rightarrow> string \<Rightarrow> string \<Rightarrow> nat \<Rightarrow> string list \<Rightarrow> string option" where
  "method_loop d interface member signature num [] = None"
| "method_loop d interface member signature num (methodname # names) =
     (if strcmp methodname member = 0
      then (case (hal_device_property_get_strlist_elem d (interface @ ''.method_execpaths'') num,
                  hal_device_property_get_strlist_elem d (interface @ ''.method_signatures'') num) of
              (Some execpath, Some sig) \<Rightarrow>
                if strcmp sig signature = 0 then Some execpath
                else method_loop d interface member signature (Suc num) names
            | _ \<Rightarrow> method_loop d interface member signature (Suc num) names)
      else method_loop d interface member signature (Suc num) names)"

fun interface_loop :: "hal_device \<Rightarrow> string \<Rightarrow> string \<Rightarrow> string \<Rightarrow> string list \<Rightarrow> string option" where
  "interface_loop d interface member signature [] = None"
| "interface_loop d interface member signature (ifname # ifs) =
     (if strcmp ifname interface = 0
      then (case method_loop d interface member signature 0
                   (hal_device_property_strlist_iter_init d (interface @ ''.method_names'')) of
              Some execpath \<Rightarrow> Some execpath
            | None \<Rightarrow> interface_loop d interface member signature ifs)
      else interface_loop d interface member signature ifs)"

definition find_method :: "hal_device \<Rightarrow> string \<Rightarrow> string \<Rightarrow> string \<Rightarrow> string option" where
  "find_method d interface member signature =
     interface_loop d interface member signature (hal_device_property_strlist_iter_init d ''info.interfaces'')"

definition not_ours :: "daemon \<Rightarrow> handler" where
  "not_ours s = Inr (NOT_YET_HANDLED, s)"

definition call_device_method ::
    "bus_env \<Rightarrow> caller_info option \<Rightarrow> dmessage \<Rightarrow> string \<Rightarrow> string \<Rightarrow> string \<Rightarrow> daemon \<Rightarrow> handler" where
  "call_device_method B ci m u interface member s =
     (case find_device u s of
        None \<Rightarrow> not_ours s
      | Some dev \<Rightarrow>
          err_bind (caller_locked_out B dev (msg_sender m) interface s) (\<lambda>(out, s).
            if out then handled (raise_interface_locked m interface s)
            else case find_handler u interface (helper_interface_handlers s) of
                   Some hih \<Rightarrow> handled (bus_send (Forward (hih_connection hih) m) s)
                 | None \<Rightarrow>
                     (case find_method (bd_heap s dev) interface member (msg_signature m) of
                        Some execpath \<Rightarrow> hald_exec_method B dev ci m execpath s
                      | None \<Rightarrow> not_ours s)))"

definition device_specific_method :: "bus_env \<Rightarrow> bool \<Rightarrow> dmessage \<Rightarrow> daemon \<Rightarrow> handler" where
  "device_specific_method B local_interface m s =
     (case (msg_path m, msg_interface m, msg_member m) of
        (Some u, Some interface, Some member) \<Rightarrow>
          if local_interface then call_device_method B None m u interface member s
          else (case ci_tracker_get_info (acc B s) (msg_sender m) (bd_ci s) of
                  (None, cit) \<Rightarrow> not_ours (s\<lparr>bd_ci := cit\<rparr>)
                | (Some ci, cit) \<Rightarrow> call_device_method B (Some ci) m u interface member (s\<lparr>bd_ci := cit\<rparr>))
      | _ \<Rightarrow> not_ours s)"

text \<open>The microseconds of the clock are an argument for \<open>NewDevice\<close>.\<close>

definition hald_dbus_filter_handle_methods :: "bus_env \<Rightarrow> nat \<Rightarrow> bool \<Rightarrow> dmessage \<Rightarrow> daemon \<Rightarrow> handler" where
  "hald_dbus_filter_handle_methods B tv_usec local_interface m =
     (if manager_call m ''GetAllDevices'' then manager_get_all_devices m
      else if manager_call m ''GetAllDevicesWithProperties'' then manager_get_all_devices_with_properties m
      else if manager_call m ''DeviceExists'' then manager_device_exists B m
      else if manager_call m ''FindDeviceStringMatch'' then manager_find_device_string_match B m
      else if manager_call m ''FindDeviceByCapability'' then manager_find_device_by_capability B m
      else if manager_call m ''NewDevice'' then manager_new_device B tv_usec local_interface m
      else if manager_call m ''Remove'' then manager_remove B local_interface m
      else if manager_call m ''CommitToGdl'' then manager_commit_to_gdl B local_interface m
      else if manager_call m ''AcquireGlobalInterfaceLock'' then device_acquire_global_interface_lock B m
      else if manager_call m ''ReleaseGlobalInterfaceLock'' then device_release_global_interface_lock B m
      else if manager_call m ''SingletonAddonIsReady'' then singleton_addon_is_ready B local_interface m
      else if device_call m ''AcquireInterfaceLock'' then device_acquire_interface_lock B local_interface m
      else if device_call m ''ReleaseInterfaceLock'' then device_release_interface_lock B m
      else if device_call m ''IsCallerLockedOut'' then device_is_caller_locked_out B local_interface m
      else if device_call m ''IsCallerPrivileged'' then device_is_caller_privileged B local_interface m
      else if device_call m ''IsLockedByOthers'' then device_is_locked_by_others B m
      else if device_call m ''GetAllProperties'' then device_get_all_properties m
      else if device_call m ''SetMultipleProperties'' then device_set_multiple_properties B local_interface m
      else if device_call m ''GetProperty'' then device_get_property B m
      else if device_call m ''GetPropertyString'' then device_get_property B m
      else if device_call m ''GetPropertyStringList'' then device_get_property B m
      else if device_call m ''GetPropertyInteger'' then device_get_property B m
      else if device_call m ''GetPropertyBoolean'' then device_get_property B m
      else if device_call m ''GetPropertyDouble'' then device_get_property B m
      else if device_call m ''SetProperty'' then device_set_property B local_interface m
      else if device_call m ''SetPropertyString'' then device_set_property B local_interface m
      else if device_call m ''SetPropertyInteger'' then device_set_property B local_interface m
      else if device_call m ''SetPropertyBoolean'' then device_set_property B local_interface m
      else if device_call m ''SetPropertyDouble'' then device_set_property B local_interface m
      else if device_call m ''RemoveProperty'' then device_remove_property B local_interface m
      else if device_call m ''GetPropertyType'' then device_get_property_type B m
      else if device_call m ''PropertyExists'' then device_property_exists B m
      else if device_call m ''AddCapability'' then device_add_capability B local_interface m
      else if device_call m ''QueryCapability'' then device_query_capability B m
      else if device_call m ''Lock'' then device_lock B m
      else if device_call m ''Unlock'' then device_unlock B m
      else if device_call m ''StringListAppend'' then device_string_list_append_prepend B False m
      else if device_call m ''StringListPrepend'' then device_string_list_append_prepend B True m
      else if device_call m ''StringListRemove'' then device_string_list_remove B m
      else if device_call m ''Rescan'' then device_rescan B local_interface m
      else if device_call m ''Reprobe'' then device_reprobe B local_interface m
      else if device_call m ''EmitCondition'' then device_emit_condition B local_interface m
      else if device_call m ''ClaimInterface'' then device_claim_interface B local_interface m
      else if device_call m ''AddonIsReady'' then addon_is_ready B local_interface m
      else if is_method_call m ''org.freedesktop.DBus.Introspectable'' ''Introspect'' then do_introspect m
      else device_specific_method B local_interface m)"

section \<open>Changes of sessions\<close>

text \<open>The loops of \<open>validate_lock_for_device\<close>, over copies of the lists of locks and of holders.\<close>

definition validate_holder :: "bus_env \<Rightarrow> nat \<Rightarrow> string \<Rightarrow> string \<Rightarrow> daemon \<Rightarrow> memory_error + daemon" where
  "validate_holder B dev lock_name holder s =
     err_bind (access_check_caller_have_access_to_device (acc B s) (bd_heap s dev)
                 (Some ''org.freedesktop.hal.lock'') (Some holder) (bd_ci s))
       (\<lambda>(access, _, cit).
          let s = s\<lparr>bd_ci := cit\<rparr>
          in if access then Inr s
             else err_bind (dev_call_locked B dev (hal_device_release_lock dev lock_name holder) s) (\<lambda>(_, s). Inr s))"

definition validate_lock :: "bus_env \<Rightarrow> nat \<Rightarrow> string \<Rightarrow> daemon \<Rightarrow> memory_error + daemon" where
  "validate_lock B dev lock_name s =
     err_fold (validate_holder B dev lock_name) (holder_list (hal_device_get_lock_holders (bd_heap s dev) lock_name)) s"

definition validate_lock_for_device :: "bus_env \<Rightarrow> nat \<Rightarrow> daemon \<Rightarrow> memory_error + daemon" where
  "validate_lock_for_device B dev s =
     err_fold (validate_lock B dev) (holder_list (hal_device_property_dup_strlist_as_strv (bd_heap s dev) ''info.named_locks'')) s"

definition validate_locks :: "bus_env \<Rightarrow> daemon \<Rightarrow> memory_error + daemon" where
  "validate_locks B s =
     err_bind (err_fold (validate_lock_for_device B) (devices (w_tdl (bd_world s))) s) (\<lambda>s.
       err_fold (validate_lock_for_device B) (devices (w_gdl (bd_world s))) s)"

text \<open>
  The queue of session changes: one change is handled at a time, by callouts on the computer object. The
  lists of programs are not empty, so that the callback of the callouts comes later.
\<close>

definition session_changes_process_queue :: "bus_env \<Rightarrow> daemon \<Rightarrow> memory_error + daemon" where
  "session_changes_process_queue B s =
     (case session_changes_queue s of
        [] \<Rightarrow> Inr s
      | entry # rest \<Rightarrow>
          if session_changes_is_running s then Inr s
          else err_bind (run_callout B (se_device entry)
                           (hal_callout_device (se_device entry) (se_programs entry) (se_extra_env entry)) Inr
                           (s\<lparr>session_changes_queue := rest\<rparr>))
                 (\<lambda>s. Inr (s\<lparr>session_changes_is_running := True\<rparr>)))"

definition session_changes_push :: "bus_env \<Rightarrow> nat \<Rightarrow> string list \<Rightarrow> string list \<Rightarrow> daemon \<Rightarrow> memory_error + daemon" where
  "session_changes_push B dev programs extra_env s =
     session_changes_process_queue B
       (s\<lparr>session_changes_queue := session_changes_queue s @
            [\<lparr>se_device = dev, se_programs = programs, se_extra_env = extra_env\<rparr>]\<rparr>)"

definition session_changes_done_cb :: "bus_env \<Rightarrow> daemon \<Rightarrow> memory_error + daemon" where
  "session_changes_done_cb B s = session_changes_process_queue B (s\<lparr>session_changes_is_running := False\<rparr>)"

definition session_callouts ::
    "bus_env \<Rightarrow> string \<Rightarrow> string \<Rightarrow> string \<Rightarrow> string \<Rightarrow> ck_session \<Rightarrow> daemon \<Rightarrow> memory_error + daemon" where
  "session_callouts B key action var uid_text session s =
     (case find_device computer_udi s of
        None \<Rightarrow> Inr s
      | Some dev \<Rightarrow>
          (case hal_device_property_dup_strlist_as_strv (bd_heap s dev) key of
             None \<Rightarrow> Inr s
           | Some programs \<Rightarrow>
               session_changes_push B dev programs
                 [action, var @ ''_SESSION_ID='' @ ck_session_get_id session, var @ ''_SESSION_UID='' @ uid_text,
                  var @ ''_SESSION_IS_ACTIVE='' @ (if session_active session then ''true'' else ''false'')] s))"

text \<open>The user is printed as an unsigned number, in the last handler as a signed one.\<close>

definition unsigned_uid :: "ck_session \<Rightarrow> string" where
  "unsigned_uid session = nat_to_string (session_user session mod 2 ^ 32)"

definition signed_uid :: "ck_session \<Rightarrow> string" where
  "signed_uid session = int_to_string (sint (word_of_int (session_user session) :: int32))"

definition hald_dbus_session_active_changed :: "bus_env \<Rightarrow> ck_session \<Rightarrow> daemon \<Rightarrow> memory_error + daemon" where
  "hald_dbus_session_active_changed B session s =
     err_bind (validate_locks B s)
       (session_callouts B (if session_active session then ''info.callouts.session_active'' else ''info.callouts.session_inactive'')
          ''HALD_ACTION=session_active_changed'' ''HALD_SESSION_ACTIVE_CHANGED'' (unsigned_uid session) session)"

definition hald_dbus_session_added :: "bus_env \<Rightarrow> ck_session \<Rightarrow> daemon \<Rightarrow> memory_error + daemon" where
  "hald_dbus_session_added B session =
     session_callouts B ''info.callouts.session_add'' ''HALD_ACTION=session_add'' ''HALD_SESSION_ADD''
       (unsigned_uid session) session"

definition hald_dbus_session_removed :: "bus_env \<Rightarrow> ck_session \<Rightarrow> daemon \<Rightarrow> memory_error + daemon" where
  "hald_dbus_session_removed B session =
     session_callouts B ''info.callouts.session_remove'' ''HALD_ACTION=session_remove'' ''HALD_SESSION_REMOVE''
       (signed_uid session) session"

text \<open>The helper for access control lists is run without a callback, which is called when it cannot be started.\<close>

definition reconfigure_acl :: "bus_env \<Rightarrow> daemon \<Rightarrow> memory_error + daemon" where
  "reconfigure_acl B s =
     (if \<not> be_aclmgmt B then Inr s
      else case find_device computer_udi s of
             None \<Rightarrow> Inr s
           | Some dev \<Rightarrow>
               let run = Run_Callout dev ''hal-acl-tool --reconfigure'' []
               in if be_start B run then Inr (runner run s) else Inl Null_Dereference)"

definition reconfigure_all_policy :: "bus_env \<Rightarrow> daemon \<Rightarrow> memory_error + daemon" where
  "reconfigure_all_policy B s = err_bind (validate_locks B s) (reconfigure_acl B)"

definition hald_dbus_ck_disappeared :: "bus_env \<Rightarrow> daemon \<Rightarrow> memory_error + daemon" where
  "hald_dbus_ck_disappeared = reconfigure_acl"

definition hald_dbus_ck_appeared :: "bus_env \<Rightarrow> daemon \<Rightarrow> memory_error + daemon" where
  "hald_dbus_ck_appeared = reconfigure_acl"

section \<open>Messages of the system bus\<close>

subsection \<open>ConsoleKit\<close>

fun path_value :: "dvalue \<Rightarrow> string option" where
  "path_value (D_STRING p) = Some p"
| "path_value (D_OBJECT_PATH p) = Some p"
| "path_value _ = None"

definition path_arg :: "bus_env \<Rightarrow> dmessage \<Rightarrow> string option" where
  "path_arg B m = (case get_args B [be_ck_path_type B] m of Some [v] \<Rightarrow> path_value v | _ \<Rightarrow> None)"

text \<open>The message as the tracker of seats and sessions reads it.\<close>

definition ck_view :: "bus_env \<Rightarrow> dmessage \<Rightarrow> ck_message" where
  "ck_view B m =
     (if is_signal m ''org.freedesktop.ConsoleKit.Manager'' ''SeatAdded''
      then (case path_arg B m of Some p \<Rightarrow> SeatAdded p | None \<Rightarrow> OtherMessage)
      else if is_signal m ''org.freedesktop.ConsoleKit.Manager'' ''SeatRemoved''
      then (case path_arg B m of Some p \<Rightarrow> SeatRemoved p | None \<Rightarrow> OtherMessage)
      else if is_signal m ''org.freedesktop.ConsoleKit.Seat'' ''SessionAdded''
      then (case path_arg B m of Some p \<Rightarrow> SessionAdded (path_of m) p | None \<Rightarrow> OtherMessage)
      else if is_signal m ''org.freedesktop.ConsoleKit.Seat'' ''SessionRemoved''
      then (case path_arg B m of Some p \<Rightarrow> SessionRemoved (path_of m) p | None \<Rightarrow> OtherMessage)
      else if is_signal m ''org.freedesktop.ConsoleKit.Session'' ''ActiveChanged''
      then (case get_args B [T_BOOLEAN] m of Some [D_BOOLEAN b] \<Rightarrow> ActiveChanged (path_of m) b | _ \<Rightarrow> OtherMessage)
      else if is_signal m ''org.freedesktop.DBus'' ''NameOwnerChanged''
      then (case get_args B [T_STRING, T_STRING, T_STRING] m of
              Some [D_STRING n, D_STRING old_s, D_STRING new_s] \<Rightarrow> NameOwnerChanged n old_s new_s
            | _ \<Rightarrow> OtherMessage)
      else OtherMessage)"

definition with_session ::
    "ck_tracker \<Rightarrow> string \<Rightarrow> (ck_session \<Rightarrow> daemon \<Rightarrow> memory_error + daemon) \<Rightarrow> daemon \<Rightarrow> memory_error + daemon" where
  "with_session t p k s =
     err_bind (ck_tracker_find_session t p) (\<lambda>found.
       case found of None \<Rightarrow> Inr s | Some x \<Rightarrow> err_bind (get_session x t) (\<lambda>session. k session s))"

text \<open>The callbacks of the tracker, with the sessions before and after the message.\<close>

fun ck_callback :: "bus_env \<Rightarrow> ck_tracker \<Rightarrow> ck_note \<Rightarrow> daemon \<Rightarrow> memory_error + daemon" where
  "ck_callback B t (Seat_Added p) s = Inr s"
| "ck_callback B t (Seat_Removed p) s = Inr s"
| "ck_callback B t (Session_Added p) s = with_session (bd_ck s) p (hald_dbus_session_added B) s"
| "ck_callback B t (Session_Removed p) s = with_session t p (hald_dbus_session_removed B) s"
| "ck_callback B t (Session_Active_Changed p act) s =
     with_session (bd_ck s) p (\<lambda>session. hald_dbus_session_active_changed B (session\<lparr>session_active := act\<rparr>)) s"
| "ck_callback B t Service_Disappeared s = hald_dbus_ck_disappeared B s"
| "ck_callback B t Service_Appeared s = hald_dbus_ck_appeared B s"

definition track_sessions :: "bus_env \<Rightarrow> dmessage \<Rightarrow> daemon \<Rightarrow> memory_error + daemon" where
  "track_sessions B m s =
     (if env_build (be_access B) = Plain then Inr s
      else err_bind (ck_tracker_process_system_bus_message (be_ck_service B) (ck_view B m) (bd_ck s)) (\<lambda>t.
             err_fold (ck_callback B (bd_ck s)) (drop (length (called (bd_ck s))) (called t)) (s\<lparr>bd_ck := t\<rparr>)))"

subsection \<open>A service leaves the bus\<close>

definition deliver_emission :: "bus_env \<Rightarrow> nat \<times> emission \<Rightarrow> daemon \<Rightarrow> memory_error + daemon" where
  "deliver_emission B e s =
     err_bind (deliver_one (be_hash B) (fst e) (snd e) (w_gdl (bd_world s))) (\<lambda>g.
     err_bind (deliver_one (be_hash B) (fst e) (snd e) (w_tdl (bd_world s))) (\<lambda>t.
     Inr (gdl_emission (fst e) (snd e) (set_world ((bd_world s)\<lparr>w_gdl := g, w_tdl := t\<rparr>) s))))"

definition client_disconnected :: "bus_env \<Rightarrow> string \<Rightarrow> daemon \<Rightarrow> memory_error + daemon" where
  "client_disconnected B sender s =
     (case hal_device_client_disconnected sender (bd_locked s) (bd_heap s) of
        None \<Rightarrow> Inl Out_Of_Fuel
      | Some (Inl e) \<Rightarrow> Inl e
      | Some (Inr (L, h, es)) \<Rightarrow>
          err_bind (err_fold (deliver_emission B) es s) (\<lambda>s.
            Inr (set_world ((bd_world s)\<lparr>w_heap := h\<rparr>) (s\<lparr>bd_locked := L\<rparr>))))"

definition name_owner_changed_signal :: "bus_env \<Rightarrow> string \<Rightarrow> string \<Rightarrow> string \<Rightarrow> daemon \<Rightarrow> memory_error + daemon" where
  "name_owner_changed_signal B name old_service_name new_service_name s =
     (let s = s\<lparr>bd_ci := ci_tracker_name_owner_changed name old_service_name new_service_name (bd_ci s)\<rparr>
      in err_bind (if services_with_locks s \<noteq> None then services_with_locks_remove_lockowner B old_service_name s else Inr s) (\<lambda>s.
         if old_service_name \<noteq> [] then client_disconnected B old_service_name s else Inr s))"

definition hald_dbus_filter_function :: "bus_env \<Rightarrow> nat \<Rightarrow> dmessage \<Rightarrow> daemon \<Rightarrow> handler" where
  "hald_dbus_filter_function B tv_usec m s =
     (if is_signal m ''org.freedesktop.DBus.Local'' ''Disconnected'' \<and> strcmp (path_of m) ''/org/freedesktop/DBus/Local'' = 0
      then err_bind (track_sessions B m (s\<lparr>dbus_connection := False\<rparr>)) handled
      else if is_signal m ''org.freedesktop.DBus'' ''NameAcquired'' then handled s
      else if is_signal m ''org.freedesktop.DBus'' ''NameOwnerChanged''
      then err_bind
             (case get_args B [T_STRING, T_STRING, T_STRING] m of
                Some [D_STRING name, D_STRING old_s, D_STRING new_s] \<Rightarrow> name_owner_changed_signal B name old_s new_s s
              | _ \<Rightarrow> Inr s) (\<lambda>s.
           err_bind (track_sessions B m s) handled)
      else if env_build (be_access B) \<noteq> Plain \<and> is_signal m ''org.freedesktop.ConsoleKit.Session'' ''ActiveChanged''
      then let s = (case get_args B [T_BOOLEAN] m of
                      Some [D_BOOLEAN act] \<Rightarrow> s\<lparr>bd_ci := ci_tracker_active_changed (path_of m) act (bd_ci s)\<rparr>
                    | _ \<Rightarrow> s)
           in err_bind (track_sessions B m s) handled
      else err_bind (track_sessions B m s) (hald_dbus_filter_handle_methods B tv_usec False m))"

section \<open>Messages of helpers\<close>

definition helper_disconnected :: "nat \<Rightarrow> daemon \<Rightarrow> daemon" where
  "helper_disconnected conn s =
     s\<lparr>helper_interface_handlers := filter (\<lambda>hih. hih_connection hih \<noteq> conn) (helper_interface_handlers s),
       singletons := map_option (filter (\<lambda>e. \<not> singleton_remove_by_connection conn e)) (singletons s)\<rparr>"

definition local_server_message_handler :: "bus_env \<Rightarrow> nat \<Rightarrow> dmessage \<Rightarrow> daemon \<Rightarrow> handler" where
  "local_server_message_handler B tv_usec m s =
     (if is_method_call m ''org.freedesktop.DBus'' ''AddMatch'' then reply m [] s
      else if is_signal m ''org.freedesktop.DBus.Local'' ''Disconnected'' \<and> strcmp (path_of m) ''/org/freedesktop/DBus/Local'' = 0
      then handled (helper_disconnected (msg_conn m) s)
      else if msg_type m = SIGNAL
      then handled (if dbus_connection s then bus_send (Copy_Signal m) s else s)
      else hald_dbus_filter_handle_methods B tv_usec True m s)"

end
