(* ===== verification/Hal_DBus_Laws.thy ===== *)
theory Hal_DBus_Laws
  imports Hal_DBus_Filter Hal_Rules_Props Hal_Access_Props
begin

text \<open>
  What an operation on a device does to the daemon: it replaces the device in the heap, keeps the lists
  of devices, and leaves signals, either on the bus or among the pending updates. The lemmas are proved
  once for the contracts \<^const>\<open>dev_op\<close>, \<^const>\<open>udi_op\<close> and \<^const>\<open>key_op\<close> of device operations.
\<close>

section \<open>Signals only leave traces\<close>

text \<open>\<open>s'\<close> is \<open>s\<close> with more output and more pending updates.\<close>

definition only_signals :: "daemon \<Rightarrow> daemon \<Rightarrow> bool" where
  "only_signals s s' \<longleftrightarrow>
     (\<exists>out ps. s' = s\<lparr>bd_out := bd_out s @ out, pending_updates := ps @ pending_updates s,
                      num_pending_updates := num_pending_updates s + int (length ps)\<rparr>)"

lemma only_signals_refl [simp]: "only_signals s s"
  unfolding only_signals_def by (rule exI [of _ "[]"], rule exI [of _ "[]"]) simp

lemma only_signals_trans:
  assumes "only_signals s s'" and "only_signals s' s''"
  shows "only_signals s s''"
proof -
  obtain o1 p1 o2 p2 where
    "s' = s\<lparr>bd_out := bd_out s @ o1, pending_updates := p1 @ pending_updates s,
            num_pending_updates := num_pending_updates s + int (length p1)\<rparr>"
    "s'' = s'\<lparr>bd_out := bd_out s' @ o2, pending_updates := p2 @ pending_updates s',
              num_pending_updates := num_pending_updates s' + int (length p2)\<rparr>"
    using assms by (auto simp: only_signals_def)
  then show ?thesis
    unfolding only_signals_def by (intro exI [of _ "o1 @ o2"] exI [of _ "p2 @ p1"]) simp
qed

lemma only_signals_send [simp]: "only_signals s (bus_send x s)"
  unfolding only_signals_def bus_send_def by (rule exI [of _ "[x]"], rule exI [of _ "[]"]) simp

lemma only_signals_pending:
  "only_signals s (s\<lparr>pending_updates := p # pending_updates s, num_pending_updates := num_pending_updates s + 1\<rparr>)"
  unfolding only_signals_def by (rule exI [of _ "[]"], rule exI [of _ "[p]"]) simp

lemma only_signals_frame:
  assumes "only_signals s s'"
  shows "bd_hp s' = bd_hp s" "bd_locked s' = bd_locked s" "bd_ci s' = bd_ci s" "bd_ck s' = bd_ck s"
    "dbus_connection s' = dbus_connection s" "hald_is_initialising s' = hald_is_initialising s"
    "atomic_count s' = atomic_count s" "services_with_locks s' = services_with_locks s"
    "singletons s' = singletons s" "helper_interface_handlers s' = helper_interface_handlers s"
    "udi_to_method_queue s' = udi_to_method_queue s" "bd_runs s' = bd_runs s"
  using assms by (auto simp: only_signals_def)

lemma only_signals_gdl: "only_signals s (gdl_signal dev e s)"
proof -
  obtain sig d where e: "e = (sig, d)" by fastforce
  show ?thesis
    unfolding e
    by (cases sig)
       (auto simp: gdl_property_changed_def gdl_capability_added_def gdl_lock_acquired_def gdl_lock_released_def
         device_send_signal_property_modified_def manager_send_signal_new_capability_def manager_signal_def
         manager_send_signal_interface_lock_acquired_def manager_send_signal_interface_lock_released_def
         manager_lock_signal_def device_send_signal_interface_lock_acquired_def
         device_send_signal_interface_lock_released_def device_lock_signal_def device_signal_def Let_def
         only_signals_pending split: option.split)
qed

lemma only_signals_fold: "(\<And>x s. only_signals s (f x s)) \<Longrightarrow> only_signals s (fold f xs s)"
  by (induction xs arbitrary: s) (auto intro: only_signals_trans)

lemma only_signals_emission: "only_signals s (gdl_emission dev e s)"
  unfolding gdl_emission_def by (rule only_signals_fold, rule only_signals_gdl)

lemma only_signals_emissions: "only_signals s (fold (gdl_emission dev) es s)"
  by (rule only_signals_fold, rule only_signals_emission)

section \<open>The lists of devices\<close>

lemma handler_lists: "store_handler H dev e s = Inr s' \<Longrightarrow> devices s' = devices s \<and> handlers s' = handlers s"
  by (induction H dev e s rule: store_handler.induct)
     (auto simp: property_index_modify_string_def store_emit_def Let_def split: if_splits option.splits)

lemma freed_lists: "devices (freed_after dev e s) = devices s \<and> handlers (freed_after dev e s) = handlers s"
  by (induction dev e s rule: freed_after.induct) (auto simp: orphan_key_def)

lemma deliver_one_lists:
  assumes "deliver_one H dev e s = Inr s'"
  shows "devices s' = devices s \<and> handlers s' = handlers s"
proof -
  obtain s1 where s1: "err_fold (\<lambda>_. store_handler H dev e) (filter (\<lambda>x. x = dev) (handlers s)) s = Inr s1"
    and s': "s' = freed_after dev e s1"
    using assms by (auto simp: deliver_one_def)
  have "devices s1 = devices s \<and> handlers s1 = handlers s"
    by (rule err_fold_inv [OF s1]) (use handler_lists in auto)
  then show ?thesis by (simp add: s' freed_lists)
qed

lemma deliver_lists:
  assumes "deliver H dev es s = Inr s'"
  shows "devices s' = devices s \<and> handlers s' = handlers s"
  using assms unfolding deliver_def
  by (rule err_fold_inv) (use deliver_one_lists in auto)

section \<open>Operations on devices\<close>

lemma dev_call_cases:
  assumes "dev_call B dev opr s = Inr (r, s')"
  obtains d' es w where "opr (bd_heap s dev) = (r, d', es)"
    "world_call (be_hash B) dev opr (bd_world s) = Inr w"
    "w_heap w = (bd_heap s)(dev := d')" "devices (w_gdl w) = devices (w_gdl (bd_world s))"
    "devices (w_tdl w) = devices (w_tdl (bd_world s))" "handlers (w_gdl w) = handlers (w_gdl (bd_world s))"
    "s' = fold (gdl_emission dev) es (set_world w s)"
  using assms deliver_lists
  by (auto simp: dev_call_def world_call_def split: prod.splits)

lemma set_world_frame [simp]:
  "bd_world (set_world w s) = w" "bd_locked (set_world w s) = bd_locked s" "bd_ci (set_world w s) = bd_ci s"
  "bd_ck (set_world w s) = bd_ck s" "dbus_connection (set_world w s) = dbus_connection s"
  "hald_is_initialising (set_world w s) = hald_is_initialising s" "atomic_count (set_world w s) = atomic_count s"
  "num_pending_updates (set_world w s) = num_pending_updates s" "pending_updates (set_world w s) = pending_updates s"
  "services_with_locks (set_world w s) = services_with_locks s" "singletons (set_world w s) = singletons s"
  "helper_interface_handlers (set_world w s) = helper_interface_handlers s"
  "udi_to_method_queue (set_world w s) = udi_to_method_queue s" "bd_out (set_world w s) = bd_out s"
  "bd_runs (set_world w s) = bd_runs s"
  by (simp_all add: set_world_def)

lemma dev_call_heap:
  assumes "dev_call B dev opr s = Inr (r, s')"
  shows "bd_heap s' = (bd_heap s)(dev := fst (snd (opr (bd_heap s dev))))" "r = fst (opr (bd_heap s dev))"
    "devices (w_gdl (bd_world s')) = devices (w_gdl (bd_world s))"
    "devices (w_tdl (bd_world s')) = devices (w_tdl (bd_world s))"
    "handlers (w_gdl (bd_world s')) = handlers (w_gdl (bd_world s))"
  by (rule dev_call_cases [OF assms], simp add: only_signals_frame [OF only_signals_emissions])+

text \<open>What an operation leaves alone, beside the devices.\<close>

lemma dev_call_frame:
  assumes "dev_call B dev opr s = Inr (r, s')"
  shows "bd_locked s' = bd_locked s" "bd_ci s' = bd_ci s" "bd_ck s' = bd_ck s"
    "dbus_connection s' = dbus_connection s" "hald_is_initialising s' = hald_is_initialising s"
    "atomic_count s' = atomic_count s" "services_with_locks s' = services_with_locks s"
    "singletons s' = singletons s" "helper_interface_handlers s' = helper_interface_handlers s"
    "udi_to_method_queue s' = udi_to_method_queue s" "bd_runs s' = bd_runs s"
  by (rule dev_call_cases [OF assms], simp add: only_signals_frame [OF only_signals_emissions])+

lemma find_udi_cong: "(\<And>x. udi (h' x) = udi (h x)) \<Longrightarrow> find_udi h' u ds = find_udi h u ds"
  by (induction ds) (simp_all add: hal_device_get_udi_def)

lemma find_device_cong:
  assumes "\<And>x. udi (bd_heap s' x) = udi (bd_heap s x)"
    and "devices (w_gdl (bd_world s')) = devices (w_gdl (bd_world s))"
    and "devices (w_tdl (bd_world s')) = devices (w_tdl (bd_world s))"
  shows "find_device u s' = find_device u s"
  using find_udi_cong [of "bd_heap s'" "bd_heap s", OF assms(1)] assms(2,3)
  by (simp add: find_device_def world_find_def hal_device_store_find_def split: option.split)

context udi_op
begin

lemma dev_call_find:
  assumes "dev_call B dev opr s = Inr (r, s')"
  shows "find_device u s' = find_device u s"
proof (rule find_device_cong)
  note h = dev_call_heap [OF assms]
  show "udi (bd_heap s' x) = udi (bd_heap s x)" for x
    using keeps_udi [of "bd_heap s dev"] by (cases "opr (bd_heap s dev)") (simp add: h(1))
qed (use dev_call_heap [OF assms] in simp_all)

end

section \<open>Setters of values\<close>

lemma key_op_udi_op: "key_op G opr key \<Longrightarrow> udi_op G opr"
  by (simp add: key_op_def key_op_axioms_def udi_op_def udi_op_axioms_def)

lemma set_value_key_op: "set_value G key v = Some opr \<Longrightarrow> key_op G opr key"
  by (cases v) (auto intro: set_string.key_op_axioms set_int.key_op_axioms set_uint64.key_op_axioms
      set_double.key_op_axioms set_bool.key_op_axioms)

text \<open>The value that is read back: the same, and for a number in floating point one that compares equal.\<close>

fun same_value :: "dvalue \<Rightarrow> dvalue \<Rightarrow> bool" where
  "same_value (D_DOUBLE x) (D_DOUBLE y) \<longleftrightarrow> y = x \<or> double_eq y x"
| "same_value v w \<longleftrightarrow> v = w"

text \<open>Texts on the bus are valid UTF-8.\<close>

fun valid_text :: "glib \<Rightarrow> dvalue \<Rightarrow> bool" where
  "valid_text G (D_STRING t) \<longleftrightarrow> g_utf8_validate G t = None"
| "valid_text G _ \<longleftrightarrow> True"

fun stored_as :: "dvalue \<Rightarrow> hal_property option" where
  "stored_as (D_STRING t) = Some (HP_STRING (Some t))"
| "stored_as (D_INT32 i) = Some (HP_INT32 i)"
| "stored_as (D_UINT64 i) = Some (HP_UINT64 i)"
| "stored_as (D_DOUBLE x) = Some (HP_DOUBLE x)"
| "stored_as (D_BOOLEAN b) = Some (HP_BOOLEAN b)"
| "stored_as _ = None"

lemma property_value_stored:
  assumes "hal_device_property_find d key = Some p" and "stored_as v = Some p"
  shows "property_value d key = Inr (Some v)" "hal_device_has_property d key"
  using assms
  by (cases v; auto simp: property_value_def hal_device_property_get_type_def hal_device_has_property_def
      hal_device_property_get_string_def hal_device_property_get_int_def hal_device_property_get_uint64_def
      hal_device_property_get_bool_def hal_device_property_get_double_def)+

lemma kept_property:
  "hal_property_get_type p = TYPE_STRING \<Longrightarrow> hal_property_get_string p = Some t \<Longrightarrow> p = HP_STRING (Some t)"
  "hal_property_get_type p = TYPE_INT32 \<Longrightarrow> hal_property_get_int p = i \<Longrightarrow> p = HP_INT32 i"
  "hal_property_get_type p = TYPE_UINT64 \<Longrightarrow> hal_property_get_uint64 p = j \<Longrightarrow> p = HP_UINT64 j"
  "hal_property_get_type p = TYPE_BOOLEAN \<Longrightarrow> hal_property_get_bool p = b \<Longrightarrow> p = HP_BOOLEAN b"
  "hal_property_get_type p = TYPE_DOUBLE \<Longrightarrow> hal_property_get_double p = x \<Longrightarrow> p = HP_DOUBLE x"
  by (cases p; simp)+

lemma set_value_result:
  assumes "set_value G key v = Some opr" and "valid_text G v" and "opr d = (True, d', es)"
  shows "\<exists>v' p. same_value v v' \<and> stored_as v' = Some p \<and> hal_device_property_find d' key = Some p"
proof -
  have valid: "g_utf8_validate G t = None \<Longrightarrow> utf8_replace G t = t" for t by (simp add: utf8_replace_def)
  have stored: "hal_device_property_find (insert_prop key p x) key = Some p" for p x
    by (simp add: hal_device_property_find_def insert_prop_def update_conv')
  note kept = kept_property(1) kept_property(2-5) [OF _ refl]
  note setters = hal_device_property_set_string_def hal_device_property_set_int_def hal_device_property_set_uint64_def
    hal_device_property_set_bool_def hal_device_property_set_double_def prop_setter_defs strdup_or_empty_def
  show ?thesis
  proof (cases v)
    case (D_DOUBLE x)
    show ?thesis
    proof (cases "es = []")
      case True
      with D_DOUBLE assms show ?thesis
        by (intro exI [of _ "D_DOUBLE (hal_device_property_get_double d key)"])
           (auto simp: setters stored Let_def hal_device_property_get_double_def dest: kept split: option.splits if_splits)
    next
      case False
      with D_DOUBLE assms show ?thesis
        by (intro exI [of _ v]) (auto simp: setters stored Let_def dest: kept split: option.splits if_splits)
    qed
  qed (use assms in \<open>auto simp: setters stored valid Let_def dest: kept split: option.splits if_splits intro!: exI [of _ v]\<close>)
qed

section \<open>Changes inside a group\<close>

text \<open>Operations whose signals show the device under its own identifier.\<close>

locale update_op = key_op +
  assumes emitted_udi: "opr d = (r, d', es) \<Longrightarrow> (sig, x) \<in> set es \<Longrightarrow> udi x = udi d"

lemmas update_op_defs =
  hal_device_property_set_string_def hal_device_property_set_int_def hal_device_property_set_uint64_def
  hal_device_property_set_bool_def hal_device_property_set_double_def hal_device_property_strlist_append_def
  hal_device_property_strlist_clear_def hal_device_property_strlist_append_finish_changeset_def

interpretation upd_string: update_op G "hal_device_property_set_string G key v" key for G key v
  by unfold_locales (auto simp: update_op_defs Let_def insert_prop_def split: outcome_splits)

interpretation upd_int: update_op G "hal_device_property_set_int key v" key for G key v
  by unfold_locales (auto simp: update_op_defs Let_def insert_prop_def split: outcome_splits)

interpretation upd_uint64: update_op G "hal_device_property_set_uint64 key v" key for G key v
  by unfold_locales (auto simp: update_op_defs Let_def insert_prop_def split: outcome_splits)

interpretation upd_bool: update_op G "hal_device_property_set_bool key v" key for G key v
  by unfold_locales (auto simp: update_op_defs Let_def insert_prop_def split: outcome_splits)

interpretation upd_double: update_op G "hal_device_property_set_double key v" key for G key v
  by unfold_locales (auto simp: update_op_defs Let_def insert_prop_def split: outcome_splits)

interpretation upd_append: update_op G "hal_device_property_strlist_append key v c" key for G key v c
  by unfold_locales (auto simp: update_op_defs Let_def insert_prop_def split: outcome_splits)

interpretation upd_clear: update_op G "hal_device_property_strlist_clear key c" key for G key c
  by unfold_locales (auto simp: update_op_defs Let_def insert_prop_def remove_prop_def split: outcome_splits)

interpretation upd_finish: update_op G "hal_device_property_strlist_append_finish_changeset key a" key for G key a
  by unfold_locales (auto simp: update_op_defs split: outcome_splits)

lemma set_value_update_op: "set_value G key v = Some opr \<Longrightarrow> update_op G opr key"
  by (cases v) (auto intro: upd_string.update_op_axioms upd_int.update_op_axioms upd_uint64.update_op_axioms
      upd_double.update_op_axioms upd_bool.update_op_axioms)

text \<open>In a group of changes nothing is sent; the updates of the device wait.\<close>

definition collects :: "string \<Rightarrow> string set \<Rightarrow> daemon \<Rightarrow> daemon \<Rightarrow> bool" where
  "collects u keys s s' \<longleftrightarrow>
     bd_out s' = bd_out s \<and> atomic_count s' = atomic_count s \<and> dbus_connection s' = dbus_connection s \<and>
     (\<exists>ps. pending_updates s' = ps @ pending_updates s \<and>
           num_pending_updates s' = num_pending_updates s + int (length ps) \<and>
           (\<forall>p \<in> set ps. pu_udi p = Some u \<and> pu_key p \<in> keys))"

lemma collects_refl [simp]: "collects u keys s s"
  by (auto simp: collects_def)

lemma collects_trans:
  assumes "collects u keys s s'" and "collects u keys s' s''"
  shows "collects u keys s s''"
proof -
  obtain p1 p2 where "pending_updates s' = p1 @ pending_updates s" "pending_updates s'' = p2 @ pending_updates s'"
    "num_pending_updates s' = num_pending_updates s + int (length p1)"
    "num_pending_updates s'' = num_pending_updates s' + int (length p2)"
    "\<forall>p \<in> set p1. pu_udi p = Some u \<and> pu_key p \<in> keys" "\<forall>p \<in> set p2. pu_udi p = Some u \<and> pu_key p \<in> keys"
    using assms unfolding collects_def by blast
  with assms show ?thesis unfolding collects_def by (intro conjI exI [of _ "p2 @ p1"]) auto
qed

lemma collects_mono: "collects u keys s s' \<Longrightarrow> keys \<subseteq> keys' \<Longrightarrow> collects u keys' s s'"
  unfolding collects_def by blast

lemma collects_fold:
  assumes "\<And>x s. x \<in> set xs \<Longrightarrow> atomic_count s > 0 \<Longrightarrow> collects u keys s (f x s)" and "atomic_count s > 0"
  shows "collects u keys s (fold f xs s)"
  using assms
proof (induction xs arbitrary: s)
  case (Cons x xs)
  have "collects u keys s (f x s)" using Cons.prems by simp
  moreover from this have "atomic_count (f x s) > 0" using Cons.prems(2) by (simp add: collects_def)
  ultimately show ?case using Cons by (auto intro: collects_trans)
qed simp

lemma collects_signal:
  assumes "sig = PROPERTY_CHANGED key removed added \<or> sig = PRE_PROPERTY_CHANGED key removed" and "udi d = u"
    and "atomic_count s > 0"
  shows "collects u {key} s (gdl_signal dev (sig, d) s)"
proof -
  let ?p = "\<lparr>pu_udi = Some u, pu_key = key, pu_removed = removed, pu_added = added\<rparr>"
  have "gdl_signal dev (sig, d) s = s \<or>
    gdl_signal dev (sig, d) s = s\<lparr>pending_updates := ?p # pending_updates s, num_pending_updates := num_pending_updates s + 1\<rparr>"
    using assms
    by (auto simp: gdl_property_changed_def device_send_signal_property_modified_def hal_device_get_udi_def)
  moreover have "collects u {key} s (s\<lparr>pending_updates := ?p # pending_updates s, num_pending_updates := num_pending_updates s + 1\<rparr>)"
    unfolding collects_def by (intro conjI exI [of _ "[?p]"]) simp_all
  ultimately show ?thesis using collects_refl [of u "{key}" s] by metis
qed

context update_op
begin

lemma dev_call_collects:
  assumes "dev_call B dev opr s = Inr (r, s')" and "atomic_count s > 0"
  shows "collects (udi (bd_heap s dev)) {key} s s'" and "udi (bd_heap s' dev) = udi (bd_heap s dev)"
proof -
  obtain d' es w where op: "opr (bd_heap s dev) = (r, d', es)" and w: "w_heap w = (bd_heap s)(dev := d')"
    and s': "s' = fold (gdl_emission dev) es (set_world w s)"
    by (rule dev_call_cases [OF assms(1)])
  have "collects (udi (bd_heap s dev)) {key} (set_world w s) s'"
    unfolding s'
  proof (rule collects_fold)
    fix e and t :: daemon
    assume e: "e \<in> set es" and t: "atomic_count t > (0 :: int)"
    obtain sig x where sig: "e = (sig, x)" by fastforce
    then have "(\<exists>removed added. sig = PROPERTY_CHANGED key removed added) \<or>
       (\<exists>removed. sig = PRE_PROPERTY_CHANGED key removed)" "udi x = udi (bd_heap s dev)"
      using only_key [OF op] emitted_udi [OF op] e by auto
    then show "collects (udi (bd_heap s dev)) {key} t (gdl_emission dev e t)"
      unfolding gdl_emission_def sig using t by (intro collects_fold) (auto intro: collects_signal)
  qed (use assms(2) in simp)
  then show "collects (udi (bd_heap s dev)) {key} s s'" by (simp add: collects_def)
  show "udi (bd_heap s' dev) = udi (bd_heap s dev)"
    using dev_call_heap(1) [OF assms(1)] op same_object [OF op] by simp
qed

end

section \<open>A small daemon\<close>

text \<open>
  The small world of the rules on the bus: user 1000 has the name \<open>:1.7\<close>, root the name \<open>:1.1\<close>; commands
  that start with a slash can be started.
\<close>

definition typed_args :: "dtype list \<Rightarrow> dvalue list \<Rightarrow> dvalue list option" where
  "typed_args ts vs =
     (if take (length ts) (map arg_type vs) = ts then Some (take (length ts) vs) else None)"

definition demo_hp_env :: hp_env where
  "demo_hp_env =
     \<lparr>env_glib = ascii_glib, env_hash = length, env_links = (\<lambda>_. None), env_files = (\<lambda>_. None),
      env_begin = (\<lambda>_ _ _ w. Inr ([], w)), env_rescan = (\<lambda>_ _ w. Inr (True, [], w))\<rparr>"

definition demo_access :: access_env where
  "demo_access = local_env\<lparr>bus_uid := (\<lambda>n. if n = '':1.1'' then Some 0 else Some 1000)\<rparr>"

fun demo_starts :: "run_request \<Rightarrow> bool" where
  "demo_starts (Run_Method _ mi) = (take 1 (mi_execpath mi) = ''/'')"
| "demo_starts (Run_Addon _ c) = (take 1 c = ''/'')"
| "demo_starts (Run_Singleton c _) = (take 1 c = ''/'')"
| "demo_starts (Run_Callout _ c _) = (take 1 c = ''/'')"
| "demo_starts (Kill_Device _) = True"

definition demo_bus :: bus_env where
  "demo_bus =
     \<lparr>be_hp = demo_hp_env, be_access = demo_access, be_rules = demo_env [], be_get_args = typed_args,
      be_polkit_text = (\<lambda>_. Some ''yes''), be_start = demo_starts, be_refresh_mount = (\<lambda>_ w. Inr w),
      be_ck_service = \<lparr>svc_seats = None, svc_sessions = (\<lambda>_. None), svc_active = (\<lambda>_. None), svc_local = (\<lambda>_. None),
        svc_hostname = (\<lambda>_. None), svc_user = (\<lambda>_. None)\<rparr>,
      be_ck_path_type = T_OBJECT_PATH, be_aclmgmt = False, be_fuel = 8\<rparr>"

definition demo_daemon :: daemon where
  "demo_daemon =
     \<lparr>bd_hp = hotplug_init demo_world, bd_locked = \<lparr>cells = [], next_cell = 0\<rparr>, bd_ci = [], bd_ck = ck_tracker_new, dbus_connection = True,
      hald_is_initialising = False, atomic_count = 0, num_pending_updates = 0, pending_updates = [],
      services_with_locks = None, singletons = None, helper_interface_handlers = [], udi_to_method_queue = None,
      session_changes_queue = [], session_changes_is_running = False, bd_out = [], bd_runs = []\<rparr>"

definition demo_call :: "string \<Rightarrow> string \<Rightarrow> string \<Rightarrow> dvalue list \<Rightarrow> dmessage" where
  "demo_call sender u member args =
     \<lparr>msg_type = METHOD_CALL, msg_path = Some u, msg_interface = Some ''org.freedesktop.Hal.Device'',
      msg_member = Some member, msg_signature = [], msg_sender = Some sender, msg_args = args, msg_conn = 0, msg_serial = 1\<rparr>"

lemmas demo_defs =
  demo_bus_def demo_daemon_def demo_call_def demo_hp_env_def demo_access_def demo_world_def demo_heap_def demo_udi_def
  local_env_def hotplug_init_def ck_tracker_new_def

end
