(* ===== verification/Hal_DBus_Props.thy ===== *)
theory Hal_DBus_Props
  imports Hal_DBus_Laws "HOL-Library.Sublist"
begin

text \<open>
  What the interface on the message bus guarantees: who may change devices, that a property set is the
  property read, how changes are put together into signals, and when a device is announced.
\<close>

section \<open>Privileges\<close>

lemmas handler_defs =
  handled_def reply_def bus_send_def raise_error_def raise_permission_denied_def raise_no_such_device_def
  raise_syntax_def raise_no_such_property_def raise_property_type_error_def

lemma refused_error:
  "if_privileged B False m text k s = Inr (HANDLED, s\<lparr>bd_ci := snd (access_check_message_caller_is_root_or_hal (acc B s) (msg_sender m) (bd_ci s)),
     bd_out := bd_out s @ [Send_Error m ''org.freedesktop.Hal.PermissionDenied'' (snprintf 512 (''Permission denied: '' @ text))]\<rparr>)"
  if "\<not> fst (root_or_hal B m s)"
  using that by (auto simp: if_privileged_def root_or_hal_def handler_defs split: prod.splits)

text \<open>The methods that only root, the user of the daemon and helpers may call. A call may leave out its
  interface; the methods of the manager are those of its object path.\<close>

definition device_helper_members :: "string list" where
  "device_helper_members = [''EmitCondition'', ''ClaimInterface'', ''AddonIsReady'']"

definition device_root_members :: "string list" where
  "device_root_members =
     [''SetProperty'', ''SetPropertyString'', ''SetPropertyInteger'', ''SetPropertyBoolean'', ''SetPropertyDouble'',
      ''SetMultipleProperties'', ''RemoveProperty'', ''AddCapability'', ''Rescan'', ''Reprobe'', ''IsCallerLockedOut'']"

definition manager_root_members :: "string list" where
  "manager_root_members = [''NewDevice'', ''Remove'', ''CommitToGdl'', ''SingletonAddonIsReady'']"

definition privileged_call :: "dmessage \<Rightarrow> bool" where
  "privileged_call m \<longleftrightarrow>
     msg_type m = METHOD_CALL \<and>
     (msg_interface m \<in> {None, Some ''org.freedesktop.Hal.Device''} \<and>
        msg_member m \<in> Some ` set (device_root_members @ device_helper_members) \<or>
      msg_interface m \<in> {None, Some ''org.freedesktop.Hal.Manager''} \<and> msg_path m = Some ''/org/freedesktop/Hal/Manager'' \<and>
        msg_member m \<in> Some ` set manager_root_members)"

definition refused :: "dmessage \<Rightarrow> daemon \<Rightarrow> handler \<Rightarrow> bool" where
  "refused m s r \<longleftrightarrow> (\<exists>cit name text. r = Inr (HANDLED, s\<lparr>bd_ci := cit, bd_out := bd_out s @ [Send_Error m name text]\<rparr>))"

lemma refused_privileged: "\<not> fst (root_or_hal B m s) \<Longrightarrow> refused m s (if_privileged B False m text k s)"
  unfolding refused_def by (simp add: refused_error) blast

lemma refused_handled [simp]: "refused m s (handled (raise_error m name text s))"
  unfolding refused_def handler_defs by (rule exI [of _ "bd_ci s"]) auto

lemma refused_device [simp]:
  assumes "\<not> fst (root_or_hal B m s)"
  shows "refused m s (with_device m u (\<lambda>dev. if_privileged B False m text (k dev)) s)"
  using assms by (simp add: with_device_def raise_no_such_device_def refused_privileged split: option.split)

lemma refused_handlers:
  assumes "\<not> fst (root_or_hal B m s)"
  shows "refused m s (device_set_property B False m s)" "refused m s (device_set_multiple_properties B False m s)"
    "refused m s (device_remove_property B False m s)" "refused m s (device_add_capability B False m s)"
    "refused m s (device_rescan B False m s)" "refused m s (device_reprobe B False m s)"
    "refused m s (device_emit_condition B False m s)" "refused m s (device_claim_interface B False m s)"
    "refused m s (addon_is_ready B False m s)" "refused m s (manager_new_device B tv False m s)"
    "refused m s (manager_remove B False m s)" "refused m s (manager_commit_to_gdl B False m s)"
    "refused m s (singleton_addon_is_ready B False m s)" "refused m s (device_is_caller_locked_out B False m s)"
  using assms
  by (simp_all add: device_set_property_def device_set_multiple_properties_def device_remove_property_def
      device_add_capability_def device_rescan_def device_reprobe_def device_emit_condition_def
      device_claim_interface_def addon_is_ready_def manager_new_device_def manager_remove_def
      manager_commit_to_gdl_def singleton_addon_is_ready_def device_is_caller_locked_out_def refused_privileged raise_permission_denied_def raise_syntax_def
      split: list.split dvalue.split)

text \<open>Which handler a call reaches.\<close>

lemma device_interface_calls:
  assumes "msg_type m = METHOD_CALL" "msg_interface m = Some ''org.freedesktop.Hal.Device''" "msg_member m = Some x"
  shows "manager_call m y = False" "device_call m y = (x = y)"
  using assms by (auto simp: manager_call_def device_call_def is_method_call_def)

lemma manager_interface_calls:
  assumes "msg_type m = METHOD_CALL" "msg_interface m = Some ''org.freedesktop.Hal.Manager''" "msg_member m = Some x"
    "msg_path m = Some ''/org/freedesktop/Hal/Manager''"
  shows "manager_call m y = (x = y)" "device_call m y = False"
  using assms by (auto simp: manager_call_def device_call_def is_method_call_def path_of_def)

lemmas dispatch_rules =
  hald_dbus_filter_handle_methods_def if_False if_True list.inject char.inject list.distinct simp_thms empty_iff

lemma open_device_calls:
  assumes "msg_type m = METHOD_CALL" "msg_interface m \<in> {None, Some ''org.freedesktop.Hal.Device''}" "msg_member m = Some x"
  obtains b where "\<And>y. manager_call m y = (x = y \<and> b)" "\<And>y. device_call m y = (x = y)"
proof (rule that)
  show "manager_call m y = (x = y \<and> msg_interface m = None \<and> strcmp (path_of m) ''/org/freedesktop/Hal/Manager'' = 0)" for y
    using assms by (auto simp: manager_call_def is_method_call_def)
  show "device_call m y = (x = y)" for y using assms by (auto simp: device_call_def is_method_call_def)
qed

lemma open_manager_calls:
  assumes "msg_type m = METHOD_CALL" "msg_interface m \<in> {None, Some ''org.freedesktop.Hal.Manager''}" "msg_member m = Some x"
    "msg_path m = Some ''/org/freedesktop/Hal/Manager''"
  shows "manager_call m y = (x = y)"
  using assms by (auto simp: manager_call_def is_method_call_def path_of_def)

lemma refused_device_call:
  assumes "msg_type m = METHOD_CALL" "msg_interface m \<in> {None, Some ''org.freedesktop.Hal.Device''}" "msg_member m = Some x"
    and "x \<in> set (device_root_members @ device_helper_members)" and "\<not> fst (root_or_hal B m s)"
  shows "refused m s (hald_dbus_filter_handle_methods B tv_usec False m s)"
proof -
  obtain b where calls: "\<And>y. manager_call m y = (x = y \<and> b)" "\<And>y. device_call m y = (x = y)"
    using open_device_calls [OF assms(1-3)] by metis
  note refused = refused_handlers [OF assms(5)]
  show ?thesis
    using assms(4) unfolding device_root_members_def device_helper_members_def append.simps list.set insert_iff
    by (elim disjE) (simp_all only: dispatch_rules calls refused)
qed

lemma refused_manager_call:
  assumes "msg_type m = METHOD_CALL" "msg_interface m \<in> {None, Some ''org.freedesktop.Hal.Manager''}" "msg_member m = Some x"
    "msg_path m = Some ''/org/freedesktop/Hal/Manager''"
    and "x \<in> set manager_root_members" and "\<not> fst (root_or_hal B m s)"
  shows "refused m s (hald_dbus_filter_handle_methods B tv_usec False m s)"
proof -
  note calls = open_manager_calls [OF assms(1-4)]
  note refused = refused_handlers [OF assms(6)]
  show ?thesis
    using assms(5) unfolding manager_root_members_def list.set insert_iff
    by (elim disjE) (simp_all only: dispatch_rules calls refused)
qed

text \<open>C2: a call on the system bus, with or without an interface, of a method that is reserved for root,
  the user of the daemon, or helpers (the methods that set or remove properties, add a capability, rescan
  or reprobe a device, ask whether a caller is locked out, emit a condition, claim an interface or report
  an addon as ready, and the manager's methods to create, remove or commit a device or report a singleton
  addon) is answered by one error and changes nothing but the cache of caller information, unless the
  caller is root or the user of the daemon.
\<close>

theorem unprivileged_call_refused:
  assumes "privileged_call m" and "\<not> fst (root_or_hal B m s)"
  shows "refused m s (hald_dbus_filter_handle_methods B tv_usec False m s)"
  using assms(1) refused_device_call [OF _ _ _ _ assms(2)] refused_manager_call [OF _ _ _ _ _ assms(2)]
  unfolding privileged_call_def by blast

theorem unprivileged_call_refused_witness:
  "refused (demo_call '':1.7'' (demo_udi ''disk'') ''SetProperty'' [D_STRING ''info.product'', D_STRING ''X'']) demo_daemon
     (hald_dbus_filter_handle_methods demo_bus 0 False
        (demo_call '':1.7'' (demo_udi ''disk'') ''SetProperty'' [D_STRING ''info.product'', D_STRING ''X'']) demo_daemon)"
proof (rule unprivileged_call_refused)
  let ?m = "demo_call '':1.7'' (demo_udi ''disk'') ''SetProperty'' [D_STRING ''info.product'', D_STRING ''X'']"
  show "privileged_call ?m" by code_simp
  show "\<not> fst (root_or_hal demo_bus ?m demo_daemon)" by code_simp
qed

text \<open>The devices, the lists they are in, the locks and the registrations of helpers are as before.\<close>

definition same_devices :: "daemon \<Rightarrow> daemon \<Rightarrow> bool" where
  "same_devices s s' \<longleftrightarrow>
     bd_hp s' = bd_hp s \<and> bd_locked s' = bd_locked s \<and> services_with_locks s' = services_with_locks s \<and>
     singletons s' = singletons s \<and> helper_interface_handlers s' = helper_interface_handlers s"

definition keeps :: "daemon \<Rightarrow> handler \<Rightarrow> bool" where
  "keeps s r \<longleftrightarrow> (\<forall>x s'. r = Inr (x, s') \<longrightarrow> same_devices s s')"

lemma same_devices_refl [simp]: "same_devices s s"
  by (simp add: same_devices_def)

lemma same_devices_trans: "same_devices s s' \<Longrightarrow> same_devices s' s'' \<Longrightarrow> same_devices s s''"
  by (simp add: same_devices_def)

lemma same_devices_send [simp]:
  "same_devices s (bus_send x s') = same_devices s s'" "same_devices s (s'\<lparr>bd_ci := cit\<rparr>) = same_devices s s'"
  "same_devices s (runner r s') = same_devices s s'" "same_devices s (put_queue u q s') = same_devices s s'"
  "same_devices s (drop_queue u s') = same_devices s s'"
  "same_devices s (s'\<lparr>udi_to_method_queue := t\<rparr>) = same_devices s s'"
  "same_devices (s\<lparr>bd_ci := cit\<rparr>) s' = same_devices s s'"
  by (simp_all add: same_devices_def bus_send_def runner_def put_queue_def drop_queue_def)

lemma keeps_simps [simp]:
  "keeps s (Inl e)" "keeps s (handled s') = same_devices s s'" "keeps s (reply m vs s') = same_devices s s'"
  "keeps s (not_ours s') = same_devices s s'" "keeps s (Inr (x, s')) = same_devices s s'"
  by (auto simp: keeps_def handled_def reply_def not_ours_def)

lemma keeps_bind [intro!]: "(\<And>x. r = Inr x \<Longrightarrow> keeps s (k x)) \<Longrightarrow> keeps s (err_bind r k)"
  by (cases r) simp_all

lemma keeps_if: "(P \<Longrightarrow> keeps s (f s)) \<Longrightarrow> (\<not> P \<Longrightarrow> keeps s (g s)) \<Longrightarrow> keeps s ((if P then f else g) s)"
  by simp

lemma same_devices_raise [simp]:
  "same_devices s (raise_error m name text s') = same_devices s s'"
  "same_devices s (raise_no_such_device m u s') = same_devices s s'"
  "same_devices s (raise_no_such_property m u key s') = same_devices s s'"
  "same_devices s (raise_syntax m text s') = same_devices s s'"
  "same_devices s (raise_permission_denied m text s') = same_devices s s'"
  "same_devices s (raise_interface_locked m text s') = same_devices s s'"
  by (simp_all add: handler_defs raise_interface_locked_def) (simp_all add: same_devices_def)

lemma keeps_refused [simp]: "refused m s r \<Longrightarrow> keeps s r"
  by (auto simp: refused_def keeps_def same_devices_def)

lemma keeps_with_device [intro!]: "(\<And>dev. keeps s (k dev s)) \<Longrightarrow> keeps s (with_device m u k s)"
  by (simp add: with_device_def split: option.split)

lemma keeps_readers [simp]:
  "keeps s (manager_get_all_devices m s)" "keeps s (manager_get_all_devices_with_properties m s)"
  "keeps s (manager_device_exists B m s)" "keeps s (manager_find_device_string_match B m s)"
  "keeps s (manager_find_device_by_capability B m s)" "keeps s (device_get_all_properties m s)"
  "keeps s (device_get_property B m s)" "keeps s (device_get_property_type B m s)"
  "keeps s (device_property_exists B m s)" "keeps s (device_query_capability B m s)" "keeps s (do_introspect m s)"
  unfolding manager_get_all_devices_def manager_get_all_devices_with_properties_def manager_device_exists_def
    manager_find_device_string_match_def manager_find_device_by_capability_def device_get_all_properties_def
    device_get_property_def device_get_property_type_def device_property_exists_def device_query_capability_def
    do_introspect_def
  by (auto simp: Let_def split: option.splits list.splits dvalue.splits)

lemma same_devices_locked_out: "caller_locked_out B dev c i s = Inr (out, s') \<Longrightarrow> same_devices s s'"
  by (auto simp: caller_locked_out_def Let_def split: option.splits if_splits)

lemma keeps_questions [simp]:
  "keeps s (device_is_caller_locked_out B False m s)" "keeps s (device_is_caller_privileged B False m s)"
  "keeps s (device_is_locked_by_others B m s)"
  unfolding device_is_caller_locked_out_def device_is_caller_privileged_def device_is_locked_by_others_def
    if_privileged_def root_or_hal_def privileged_answer_def same_user_def
  by (auto 0 3 simp: Let_def dest: same_devices_locked_out split: option.splits list.splits dvalue.splits prod.splits)

subsection \<open>Methods of devices\<close>

definition is_unmount :: "method_invocation \<Rightarrow> bool" where
  "is_unmount mi \<longleftrightarrow>
     strcmp (mi_interface mi) ''org.freedesktop.Hal.Device.Volume'' = 0 \<and> strcmp (mi_member mi) ''Unmount'' = 0"

lemma refresh_after_other: "\<not> is_unmount mi \<Longrightarrow> refresh_after B mi s = Inr s"
  by (auto simp: refresh_after_def is_unmount_def)

lemma queue_of_put [simp]: "queue_of u (put_queue u' q s) = (if u = u' then Some q else queue_of u s)"
  by (simp add: queue_of_def put_queue_def update_conv the_table_def split: option.split)

lemma find_device_queue [simp]:
  "find_device u (put_queue u' q s) = find_device u s" "find_device u (drop_queue u' s) = find_device u s"
  "find_device u (bus_send x s) = find_device u s" "find_device u (runner r s) = find_device u s"
  "find_device u (s\<lparr>udi_to_method_queue := t\<rparr>) = find_device u s"
  by (simp_all add: find_device_def put_queue_def drop_queue_def bus_send_def runner_def)

lemma find_device_udi:
  assumes "find_device u s = Some dev"
  shows "strcmp (hal_device_get_udi (bd_heap s dev)) u = 0"
proof -
  have "find_udi h u ds = Some dev \<Longrightarrow> strcmp (hal_device_get_udi (h dev)) u = 0" for h ds
    by (induction ds) (auto split: if_splits)
  with assms show ?thesis
    by (auto simp: find_device_def world_find_def hal_device_store_find_def split: option.splits)
qed

lemma same_devices_enqueue:
  assumes "hald_exec_method_enqueue B mi s = Inr s'" and "\<not> is_unmount mi"
  shows "same_devices s s'"
proof (cases "queue_of (mi_udi mi) (s\<lparr>udi_to_method_queue := Some (the_table (udi_to_method_queue s))\<rparr>)")
  case (Some q)
  with assms(1) show ?thesis by (auto simp: hald_exec_method_enqueue_def Let_def)
next
  case None
  define s1 where "s1 = put_queue (mi_udi mi) [mi] (s\<lparr>udi_to_method_queue := Some (the_table (udi_to_method_queue s))\<rparr>)"
  from None assms(1) obtain x where x: "hald_exec_method_do_invocation (be_fuel B) B mi s1 = Inr (x, s')"
    by (auto simp: hald_exec_method_enqueue_def Let_def s1_def)
  have same: "same_devices s s1" and q: "queue_of (mi_udi mi) s1 = Some [mi]" by (simp_all add: s1_def)
  from x same show ?thesis
  proof (cases "find_device (mi_udi mi) s1")
    case (Some dev')
    have u: "hal_device_get_udi (bd_heap s1 dev') = mi_udi mi" using find_device_udi [OF Some] by simp
    from x Some q show ?thesis
      by (cases "be_fuel B") (auto simp: u refresh_after_other [OF assms(2)] same split: if_splits)
  qed (auto simp: same)
qed

lemma keeps_device_specific_method:
  assumes "msg_member m \<noteq> Some ''Unmount''"
  shows "keeps s (device_specific_method B False m s)"
proof -
  have exec: "keeps s (hald_exec_method B dev ci m p s')" if "same_devices s s'" for dev ci p s'
    using assms unfolding hald_exec_method_def
    by (auto simp: is_unmount_def that split: option.splits elim!: same_devices_trans [OF that same_devices_enqueue])
  have "keeps s (call_device_method B ci m u i x s')" if "same_devices s s'" for ci u i x s'
    unfolding call_device_method_def using that
    by (auto simp: exec split: option.splits dest: same_devices_trans [OF _ same_devices_locked_out] intro: exec)
  then show ?thesis
    by (auto simp: device_specific_method_def split: option.splits prod.splits)
qed

definition open_members :: "string list" where
  "open_members =
     [''StringListAppend'', ''StringListPrepend'', ''StringListRemove'', ''Lock'', ''Unlock'', ''AcquireInterfaceLock'',
      ''ReleaseInterfaceLock'', ''AcquireGlobalInterfaceLock'', ''ReleaseGlobalInterfaceLock'', ''Unmount'']"

text \<open>C3: a call on the system bus by a caller that is neither root nor the user of the daemon changes the
  devices, the device lists, the locks and the registrations of helpers only if it is one of the methods
  for string lists, one of the methods for locks, or \<open>Unmount\<close> (where the mount state is read again).
\<close>

theorem unprivileged_call_keeps_devices:
  assumes "\<not> fst (root_or_hal B m s)" and "msg_member m \<notin> Some ` set open_members"
    and "hald_dbus_filter_handle_methods B tv_usec False m s = Inr (r, s')"
  shows "same_devices s s'"
proof -
  have member: "manager_call m x \<Longrightarrow> msg_member m = Some x" "device_call m x \<Longrightarrow> msg_member m = Some x" for x
    by (simp_all add: manager_call_def device_call_def is_method_call_def)
  have notopen: "msg_member m \<noteq> Some x" if "x \<in> set open_members" for x using assms(2) that by blast
  have closed: "x \<in> set open_members \<Longrightarrow> \<not> manager_call m x" "x \<in> set open_members \<Longrightarrow> \<not> device_call m x" for x
    using member notopen by blast+
  have no: "\<not> manager_call m ''AcquireGlobalInterfaceLock''" "\<not> manager_call m ''ReleaseGlobalInterfaceLock''"
    "\<not> device_call m ''StringListAppend''" "\<not> device_call m ''StringListPrepend''" "\<not> device_call m ''StringListRemove''"
    "\<not> device_call m ''Lock''" "\<not> device_call m ''Unlock''" "\<not> device_call m ''AcquireInterfaceLock''"
    "\<not> device_call m ''ReleaseInterfaceLock''" "msg_member m \<noteq> Some ''Unmount''"
    by (rule closed notopen; simp add: open_members_def)+
  note refused = refused_handlers [OF assms(1), THEN keeps_refused]
  have "keeps s (hald_dbus_filter_handle_methods B tv_usec False m s)"
    unfolding hald_dbus_filter_handle_methods_def no(1-9) [THEN Eq_FalseI] if_False
    by (intro keeps_if keeps_readers keeps_questions refused keeps_device_specific_method no(10))
  then show ?thesis using assms(3) by (simp add: keeps_def)
qed

theorem unprivileged_call_keeps_devices_witness:
  "\<exists>r s'. hald_dbus_filter_handle_methods demo_bus 0 False
      (demo_call '':1.7'' (demo_udi ''disk'') ''GetProperty'' [D_STRING ''block.minor'']) demo_daemon = Inr (r, s') \<and>
    same_devices demo_daemon s'"
proof -
  let ?m = "demo_call '':1.7'' (demo_udi ''disk'') ''GetProperty'' [D_STRING ''block.minor'']"
  let ?r = "hald_dbus_filter_handle_methods demo_bus 0 False ?m demo_daemon"
  have "\<not> isl ?r" by code_simp
  then have run: "?r = Inr (fst (projr ?r), snd (projr ?r))" by (simp add: sum.collapse(2))
  moreover have "\<not> fst (root_or_hal demo_bus ?m demo_daemon)" "msg_member ?m \<notin> Some ` set open_members"
    by code_simp+
  ultimately show ?thesis using unprivileged_call_keeps_devices by blast
qed

section \<open>A property that was set is read back\<close>

definition device_message :: "dmessage \<Rightarrow> string \<Rightarrow> dvalue list \<Rightarrow> bool" where
  "device_message m member args \<longleftrightarrow>
     msg_type m = METHOD_CALL \<and> msg_interface m = Some ''org.freedesktop.Hal.Device'' \<and> msg_member m = Some member \<and>
     msg_args m = args"

lemma device_message_calls:
  assumes "device_message m x args"
  shows "manager_call m y = False" "device_call m y = (x = y)"
  using assms device_interface_calls [of m x] by (auto simp: device_message_def)

lemma set_property_returned:
  assumes "device_set_property B local_interface m s = Inr (r, s1)" and "last (bd_out s1) = Send_Return m []"
    and "msg_args m = [D_STRING key, v]"
  obtains s0 dev setter s' where "find_device (path_of m) s0 = Some dev" "bd_hp s0 = bd_hp s"
    "set_value (be_glib B) key v = Some setter" "dev_call B dev setter s0 = Inr (True, s')"
    "s1 = bus_send (Send_Return m []) s'"
  using assms
  by (auto simp: device_set_property_def if_privileged_def root_or_hal_def with_device_def handler_defs
      split: if_splits prod.splits option.splits)

text \<open>C4: when \<open>SetProperty\<close> was answered without an error, \<open>GetProperty\<close> of the same device and key
  returns the value that was set (for floating point numbers one that compares equal).
\<close>

theorem set_get_property:
  assumes "device_message m ''SetProperty'' [D_STRING key, v]" and "device_message m2 ''GetProperty'' [D_STRING key]"
    and "msg_path m2 = msg_path m"
    and "be_get_args B [T_STRING] [D_STRING key] = Some [D_STRING key]" and "valid_text (be_glib B) v"
    and "hald_dbus_filter_handle_methods B tv local_interface m s = Inr (r, s1)" and "last (bd_out s1) = Send_Return m []"
  shows "\<exists>v'. same_value v v' \<and>
    hald_dbus_filter_handle_methods B tv2 local2 m2 s1 = Inr (HANDLED, bus_send (Send_Return m2 [v']) s1)"
proof -
  have set: "hald_dbus_filter_handle_methods B tv local_interface m s = device_set_property B local_interface m s"
    by (simp only: dispatch_rules device_message_calls [OF assms(1)])
  have get: "hald_dbus_filter_handle_methods B tv2 local2 m2 s1 = device_get_property B m2 s1"
    by (simp only: dispatch_rules device_message_calls [OF assms(2)])
  have args: "msg_args m = [D_STRING key, v]" using assms(1) by (simp add: device_message_def)
  obtain s0 dev setter s' where dev: "find_device (path_of m) s0 = Some dev"
    and setter: "set_value (be_glib B) key v = Some setter" and call: "dev_call B dev setter s0 = Inr (True, s')"
    and s1: "s1 = bus_send (Send_Return m []) s'"
    by (rule set_property_returned [OF assms(6) [unfolded set] assms(7) args])
  have udi: "udi_op (be_glib B) setter" using set_value_key_op [OF setter] by (rule key_op_udi_op)
  obtain v' p where v': "same_value v v'" "stored_as v' = Some p"
    and p: "hal_device_property_find (bd_heap s' dev) key = Some p"
    using set_value_result [OF setter assms(5), of "bd_heap s0 dev"] dev_call_heap(1,2) [OF call]
    by (cases "setter (bd_heap s0 dev)") auto
  have "find_device (path_of m2) s1 = Some dev"
    using udi_op.dev_call_find [OF udi call] dev assms(3) by (simp add: s1 path_of_def)
  moreover have "bd_heap s1 = bd_heap s'" by (simp add: s1 bus_send_def)
  ultimately have "device_get_property B m2 s1 = reply m2 [v'] s1"
    using property_value_stored [OF p v'(2)] assms(2,4)
    by (simp add: device_get_property_def with_device_def get_args_def device_message_def)
  then show ?thesis using v'(1) by (auto simp: get reply_def handled_def)
qed

theorem set_get_property_witness:
  "\<exists>s1. let m2 = demo_call '':1.7'' (demo_udi ''disk'') ''GetProperty'' [D_STRING ''block.minor'']
     in hald_dbus_filter_handle_methods demo_bus 0 False m2 s1 = Inr (HANDLED, bus_send (Send_Return m2 [D_INT32 5]) s1)"
proof -
  let ?m = "demo_call '':1.1'' (demo_udi ''disk'') ''SetProperty'' [D_STRING ''block.minor'', D_INT32 5]"
  let ?m2 = "demo_call '':1.7'' (demo_udi ''disk'') ''GetProperty'' [D_STRING ''block.minor'']"
  let ?r = "hald_dbus_filter_handle_methods demo_bus 0 False ?m demo_daemon"
  have "\<not> isl ?r" by code_simp
  then have run: "?r = Inr (fst (projr ?r), snd (projr ?r))" by (simp add: sum.collapse(2))
  have "device_message ?m ''SetProperty'' [D_STRING ''block.minor'', D_INT32 5]"
    "device_message ?m2 ''GetProperty'' [D_STRING ''block.minor'']" "msg_path ?m2 = msg_path ?m"
    "be_get_args demo_bus [T_STRING] [D_STRING ''block.minor''] = Some [D_STRING ''block.minor'']"
    "valid_text (be_glib demo_bus) (D_INT32 5)"
    by (simp_all add: device_message_def demo_call_def demo_bus_def typed_args_def)
  moreover have "last (bd_out (snd (projr ?r))) = Send_Return ?m []" by code_simp
  ultimately obtain v' where "same_value (D_INT32 5) v'"
    "hald_dbus_filter_handle_methods demo_bus 0 False ?m2 (snd (projr ?r)) =
       Inr (HANDLED, bus_send (Send_Return ?m2 [v']) (snd (projr ?r)))"
    using set_get_property [OF _ _ _ _ _ run] by blast
  then show ?thesis by (auto simp: Let_def)
qed

section \<open>Changes put together into one signal\<close>

definition udis :: "pending_update list \<Rightarrow> string option list" where
  "udis ps = map pu_udi ps"

lemma udis_marked: "udis (map (mark_sent u) ps) = map (\<lambda>v. if v = Some u then None else v) (udis ps)"
  by (simp add: udis_def mark_sent_def)

text \<open>
  A list of pending updates can be sent if the updates of each device follow one another. In terms of
  the loop: behind an update that is to be sent there is none that was sent already.
\<close>

fun sendable :: "string option list \<Rightarrow> bool" where
  "sendable [] = True"
| "sendable (None # us) = sendable us"
| "sendable (Some u # us) = (None \<notin> set us \<and> sendable (map (\<lambda>v. if v = Some u then None else v) us))"

lemma flush_outcome: "isl (flush_updates ps s) \<longleftrightarrow> \<not> sendable (udis ps)"
proof (induction ps s rule: flush_updates.induct)
  case (2 p ps s)
  show ?case
  proof (cases "pu_udi p")
    case None
    then show ?thesis using 2(1) by (simp add: udis_def)
  next
    case (Some u)
    have none: "list_ex (\<lambda>q. pu_udi q = None) ps \<longleftrightarrow> None \<in> set (udis ps)"
      by (induction ps) (auto simp: udis_def)
    show ?thesis
    proof (cases "list_ex (\<lambda>q. pu_udi q = None) ps")
      case True
      with none have "None \<in> set (udis ps)" by simp
      with Some True show ?thesis by (simp add: udis_def)
    next
      case False
      with none have "None \<notin> set (udis ps)" by simp
      moreover have "udis (p # ps) = Some u # udis ps" using Some by (simp add: udis_def)
      ultimately show ?thesis using Some False 2(2) [OF Some] by (simp add: udis_marked)
    qed
  qed
qed (simp add: udis_def)

text \<open>The reading of \<^const>\<open>sendable\<close>: no device comes back after another one.\<close>

lemma subseq_mem: "subseq zs us \<Longrightarrow> x \<in> set zs \<Longrightarrow> x \<in> set us"
  by (erule list_emb_set) auto

lemma subseq_map_cases: "subseq xs (map f ys) \<Longrightarrow> \<exists>zs. subseq zs ys \<and> map f zs = xs"
proof (induction ys arbitrary: xs)
  case (Cons y ys)
  show ?case
  proof (cases xs)
    case (Cons x xs')
    show ?thesis
    proof (cases "x = f y")
      case True
      then obtain zs where "subseq zs ys" "map f zs = xs'"
        using Cons.IH [of xs'] Cons.prems Cons by auto
      then show ?thesis using True Cons by (intro exI [of _ "y # zs"]) simp
    next
      case False
      then show ?thesis using Cons.IH [of xs] Cons.prems Cons by (auto intro: subseq_Cons')
    qed
  qed (auto intro: exI [of _ "[]"])
next
  case Nil
  then have "xs = []" by (cases xs) simp_all
  then show ?case by simp
qed

definition comes_back :: "string option list \<Rightarrow> bool" where
  "comes_back us \<longleftrightarrow> (\<exists>u v. u \<noteq> v \<and> subseq [Some u, Some v, Some u] us)"

definition clear :: "string \<Rightarrow> string option \<Rightarrow> string option" where
  "clear u v = (if v = Some u then None else v)"

lemma clear_simps [simp]:
  "clear u v = Some x \<longleftrightarrow> v = Some x \<and> x \<noteq> u" "clear u v = None \<longleftrightarrow> v = None \<or> v = Some u"
  by (auto simp: clear_def)

lemma cleared_none:
  assumes "None \<notin> set us"
  shows "(\<exists>v. subseq [Some v, None] (map (clear u) us)) \<longleftrightarrow> (\<exists>v. v \<noteq> u \<and> subseq [Some v, Some u] us)"
proof
  assume "\<exists>v. subseq [Some v, None] (map (clear u) us)"
  then obtain v where "subseq [Some v, None] (map (clear u) us)" by (elim exE)
  from subseq_map_cases [OF this] obtain zs where zs: "subseq zs us" "map (clear u) zs = [Some v, None]"
    by (elim exE conjE)
  then obtain a b where ab: "zs = [a, b]" "clear u a = Some v" "clear u b = None" by (auto simp: map_eq_Cons_conv)
  have "b \<noteq> None" using subseq_mem [OF zs(1), of None] assms ab(1) by (cases b) simp_all
  then show "\<exists>v. v \<noteq> u \<and> subseq [Some v, Some u] us" using ab zs(1) by auto
next
  assume "\<exists>v. v \<noteq> u \<and> subseq [Some v, Some u] us"
  then obtain v where "v \<noteq> u" "subseq [Some v, Some u] us" by blast
  then show "\<exists>v. subseq [Some v, None] (map (clear u) us)"
    using subseq_map [of "[Some v, Some u]" us "clear u"] by (auto simp: clear_def)
qed

lemma cleared_back:
  assumes "comes_back (map (clear u) us)"
  shows "comes_back us"
proof -
  from assms obtain a b where neq: "a \<noteq> b" and ab: "subseq [Some a, Some b, Some a] (map (clear u) us)"
    unfolding comes_back_def by blast
  from subseq_map_cases [OF ab] obtain zs where zs: "subseq zs us" "map (clear u) zs = [Some a, Some b, Some a]"
    by (elim exE conjE)
  then have "zs = [Some a, Some b, Some a]" by (auto simp: map_eq_Cons_conv)
  with neq zs(1) show ?thesis unfolding comes_back_def by blast
qed

lemma back_cleared:
  assumes "comes_back us"
  shows "(\<exists>v. v \<noteq> u \<and> subseq [Some v, Some u] us) \<or> comes_back (map (clear u) us)"
proof -
  from assms obtain a b where ab: "a \<noteq> b" "subseq [Some a, Some b, Some a] us" by (auto simp: comes_back_def)
  have sub: "subseq [Some a, Some b] us" "subseq [Some b, Some a] us"
    by (rule subseq_order.trans [OF _ ab(2)], simp)+
  consider "a = u" | "b = u" | "a \<noteq> u" "b \<noteq> u" by blast
  then show ?thesis
  proof cases
    case 1
    with sub ab(1) show ?thesis by (intro disjI1 exI [of _ b]) simp
  next
    case 2
    with sub ab(1) show ?thesis by (intro disjI1 exI [of _ a]) simp
  next
    case 3
    with subseq_map [OF ab(2), of "clear u"] ab(1) show ?thesis by (auto simp: comes_back_def clear_def)
  qed
qed

lemma comes_back_Cons:
  "comes_back (Some u # us) \<longleftrightarrow> (\<exists>v. v \<noteq> u \<and> subseq [Some v, Some u] us) \<or> comes_back us"
proof
  show "comes_back (Some u # us)" if "(\<exists>v. v \<noteq> u \<and> subseq [Some v, Some u] us) \<or> comes_back us"
    using that unfolding comes_back_def by (metis list_emb_Cons subseq_Cons2)
qed (auto simp: comes_back_def split: if_splits)

lemma not_sendable:
  "\<not> sendable us \<longleftrightarrow> (\<exists>v. subseq [Some v, None] us) \<or> comes_back us"
proof (induction us rule: sendable.induct)
  case (2 us)
  then show ?case by (auto simp: comes_back_def)
next
  case (3 u us)
  have none: "(\<exists>v. subseq [Some v, None] (Some u # us)) \<longleftrightarrow> None \<in> set us"
    by (auto simp: subseq_singleton_left dest: subseq_Cons' split: if_splits)
  show ?case
  proof (cases "None \<in> set us")
    case False
    have "\<not> sendable (Some u # us) \<longleftrightarrow> (\<exists>v. subseq [Some v, None] (map (clear u) us)) \<or> comes_back (map (clear u) us)"
      using 3 False by (simp add: clear_def [abs_def])
    then show ?thesis using none comes_back_Cons cleared_none [OF False] cleared_back back_cleared False by metis
  qed (use none in simp)
qed (simp add: comes_back_def)

text \<open>The devices of a list of updates, in the order of their first update.\<close>

function in_order :: "'a list \<Rightarrow> 'a list" where
  "in_order [] = []"
| "in_order (x # xs) = x # in_order (removeAll x xs)"
  by pat_completeness auto
termination by (relation "measure length") (auto simp: less_Suc_eq_le length_removeAll_less_eq)

lemma set_in_order [simp]: "set (in_order xs) = set xs"
  by (induction xs rule: in_order.induct) auto

definition update_signals :: "pending_update list \<Rightarrow> bus_out list" where
  "update_signals ps =
     map (\<lambda>u. property_modified u (filter (\<lambda>q. pu_udi q = Some u) ps)) (in_order (List.map_filter pu_udi ps))"

lemma map_filter_marked: "List.map_filter pu_udi (map (mark_sent u) ps) = removeAll u (List.map_filter pu_udi ps)"
  by (induction ps) (auto simp: List.map_filter_simps mark_sent_def split: option.splits)

lemma update_signals_None: "pu_udi p = None \<Longrightarrow> update_signals (p # ps) = update_signals ps"
  by (simp add: update_signals_def List.map_filter_simps)

lemma update_signals_Some:
  assumes "pu_udi p = Some u"
  shows "update_signals (p # ps) =
    property_modified u (filter (\<lambda>q. pu_udi q = Some u) (p # ps)) # update_signals (map (mark_sent u) ps)"
proof -
  have "filter (\<lambda>q. pu_udi q = Some v) (map (mark_sent u) ps) = filter (\<lambda>q. pu_udi q = Some v) ps" if "v \<noteq> u" for v
    using that by (induction ps) (auto simp: mark_sent_def)
  then show ?thesis
    using assms by (auto simp: update_signals_def map_filter_marked List.map_filter_simps(1))
qed

lemma flush_sends:
  assumes "sendable (udis ps)"
  shows "flush_updates ps s = Inr (s\<lparr>bd_out := bd_out s @ (if dbus_connection s then update_signals ps else [])\<rparr>)"
  using assms
proof (induction ps s rule: flush_updates.induct)
  case (1 s)
  then show ?case by (simp add: update_signals_def List.map_filter_def)
next
  case (2 p ps s)
  show ?case
  proof (cases "pu_udi p")
    case None
    then show ?thesis using 2(1) 2(3) by (simp add: udis_def update_signals_None)
  next
    case (Some u)
    have udis: "udis (p # ps) = Some u # udis ps" using Some by (simp add: udis_def)
    have "None \<notin> set (udis ps)" using 2(3) udis by simp
    then have none: "\<not> list_ex (\<lambda>q. pu_udi q = None) ps" by (induction ps) (auto simp: udis_def)
    moreover have "sendable (udis (map (mark_sent u) ps))" using 2(3) by (simp add: udis udis_marked)
    ultimately show ?thesis
      using 2(2) [OF Some] Some by (simp add: update_signals_Some [OF Some] bus_send_def)
  qed
qed

text \<open>C15: at the end of a group of changes one \<open>PropertyModified\<close> is sent for each device, with all its
  changes, if the changes of each device followed one another. If the daemon came back to a device after
  changing another one, it compares a string with \<open>NULL\<close>.
\<close>

theorem atomic_update_end_outcome:
  assumes "atomic_count s = 1" and "pending_updates s \<noteq> []" and "num_pending_updates s = int (length (pending_updates s))"
    and "\<forall>p \<in> set (pending_updates s). pu_udi p \<noteq> None"
  shows "device_property_atomic_update_end s =
    (if comes_back (map pu_udi (pending_updates s)) then Inl Null_Dereference
     else Inr (s\<lparr>atomic_count := 0, num_pending_updates := 0, pending_updates := [],
                 bd_out := bd_out s @ (if dbus_connection s then update_signals (pending_updates s) else [])\<rparr>))"
proof -
  have null: "e = Null_Dereference" if "flush_updates ps s' = Inl e" for ps s' e
    using that by (induction ps s' rule: flush_updates.induct) (auto split: option.splits if_splits)
  have "\<not> subseq [Some v, None] (udis (pending_updates s))" for v
    using assms(4) subseq_mem [of "[Some v, None]" "udis (pending_updates s)" None] by (auto simp: udis_def) (metis option.distinct(1))
  then have send: "sendable (udis (pending_updates s)) \<longleftrightarrow> \<not> comes_back (udis (pending_updates s))"
    using not_sendable by blast
  show ?thesis
  proof (cases "comes_back (udis (pending_updates s))")
    case True
    then have "isl (flush_updates (pending_updates s) (s\<lparr>atomic_count := 0\<rparr>))" by (simp add: flush_outcome send)
    then obtain e where e: "flush_updates (pending_updates s) (s\<lparr>atomic_count := 0\<rparr>) = Inl e" by (auto simp: isl_def)
    with null [OF e] True assms(1-3) show ?thesis
      by (simp add: device_property_atomic_update_end_def Let_def udis_def)
  next
    case False
    with flush_sends [of "pending_updates s" "s\<lparr>atomic_count := 0\<rparr>"] send assms(1-3) show ?thesis
      by (simp add: device_property_atomic_update_end_def Let_def udis_def)
  qed
qed

theorem atomic_update_end_outcome_witness:
  "device_property_atomic_update_end (demo_daemon\<lparr>atomic_count := 1, num_pending_updates := 3,
     pending_updates := map (\<lambda>u. \<lparr>pu_udi = Some u, pu_key = ''k'', pu_removed = False, pu_added = True\<rparr>)
       [''a'', ''b'', ''a'']\<rparr>) = Inl Null_Dereference"
  (is "device_property_atomic_update_end ?s = _")
proof -
  have "comes_back (map pu_udi (pending_updates ?s))"
    unfolding comes_back_def by (intro exI [of _ "''a''"] exI [of _ "''b''"]) simp
  then show ?thesis using atomic_update_end_outcome [of ?s] by simp
qed

text \<open>All the changes of one call of \<open>SetMultipleProperties\<close> are changes of one device.\<close>

definition entry_keys :: "dvalue list \<Rightarrow> string set" where
  "entry_keys vs = {key. \<exists>v. D_DICT_ENTRY (D_STRING key) v \<in> set vs}"

lemma collects_call:
  assumes "update_op G opr key" and "dev_call B dev opr s = Inr (r, s')" and "atomic_count s > 0"
  shows "collects (udi (bd_heap s dev)) {key} s s' \<and> udi (bd_heap s' dev) = udi (bd_heap s dev)"
  using update_op.dev_call_collects [OF assms] by simp

definition collected :: "nat \<Rightarrow> string set \<Rightarrow> daemon \<Rightarrow> daemon \<Rightarrow> bool" where
  "collected dev keys s s' \<longleftrightarrow>
     collects (udi (bd_heap s dev)) keys s s' \<and> udi (bd_heap s' dev) = udi (bd_heap s dev) \<and> atomic_count s > 0"

lemma collected_trans: "collected dev keys s s' \<Longrightarrow> collected dev keys s' s'' \<Longrightarrow> collected dev keys s s''"
  unfolding collected_def by (metis collects_trans)

lemma collected_call:
  assumes "update_op G opr key" and "dev_call B dev opr s' = Inr (r, s'')" and "collected dev keys s s'" and "key \<in> keys"
  shows "collected dev keys s s''"
proof -
  have "atomic_count s' > 0" using assms(3) by (simp add: collected_def collects_def)
  then have "collected dev {key} s' s''" using collects_call [OF assms(1,2)] by (simp add: collected_def)
  then have "collected dev keys s' s''" using assms(4) unfolding collected_def by (blast intro: collects_mono)
  then show ?thesis using assms(3) collected_trans by blast
qed

lemma collected_strlist:
  assumes "set_strlist_property B dev key vs s' = Inr s''" and "collected dev keys s s'" and "key \<in> keys"
  shows "collected dev keys s s''"
proof -
  let ?append = "\<lambda>v s. err_bind (dev_call B dev (hal_device_property_strlist_append key v True) s) (\<lambda>(_, s). Inr s)"
  obtain x s1 s2 where s1: "dev_call B dev (hal_device_property_strlist_clear key True) s' = Inr (x, s1)"
    and s2: "err_fold ?append vs s1 = Inr s2"
    and s'': "s'' = s2 \<or>
      (\<exists>r a. dev_call B dev (hal_device_property_strlist_append_finish_changeset key a) s2 = Inr (r, s''))"
    using assms(1) by (fastforce simp: set_strlist_property_def Let_def split: if_splits)
  have "collected dev keys s s1" by (rule collected_call [OF upd_clear.update_op_axioms s1 assms(2,3)])
  then have "collected dev keys s s2"
    by (rule err_fold_inv [OF s2, of "collected dev keys s"])
       (auto intro: collected_call [OF upd_append.update_op_axioms _ _ assms(3)])
  then show ?thesis
    using s'' by (auto intro: collected_call [OF upd_finish.update_op_axioms _ _ assms(3)])
qed

lemma collected_entry:
  assumes "set_property_entry B dev e s' = Inr s''" and "collected dev keys s s'" and "entry_keys [e] \<subseteq> keys"
  shows "collected dev keys s s''"
proof -
  obtain key v vs where e: "e = D_DICT_ENTRY (D_STRING key) v" and vs: "iter_recurse v = Inr vs"
    using assms(1) by (auto simp: set_property_entry_def split: dvalue.splits)
  have key: "key \<in> keys" using assms(3) by (auto simp: entry_keys_def e)
  show ?thesis
  proof (cases vs)
    case Nil
    with assms(1,2) e vs show ?thesis by (auto simp: set_property_entry_def)
  next
    case (Cons x xs)
    show ?thesis
    proof (cases "\<exists>t elems. x = D_ARRAY t elems")
      case True
      with assms(1) e vs Cons show ?thesis
        by (auto simp: set_property_entry_def intro: collected_strlist [OF _ assms(2) key])
    next
      case False
      with assms(1) e vs Cons
      have "s'' = s' \<or> (\<exists>setter r. set_value (be_glib B) key x = Some setter \<and> dev_call B dev setter s' = Inr (r, s''))"
        by (auto simp: set_property_entry_def split: dvalue.splits option.splits)
      then show ?thesis
        using assms(2) by (auto intro: collected_call [OF set_value_update_op _ assms(2) key])
    qed
  qed
qed

lemma one_device_signals:
  assumes "ps \<noteq> []" and "\<forall>p \<in> set ps. pu_udi p = Some u"
  shows "update_signals ps = [property_modified u ps]" "sendable (udis ps)"
proof -
  have same: "filter (\<lambda>q. pu_udi q = Some u) ps = ps" using assms(2) by (simp add: filter_id_conv)
  have "List.map_filter pu_udi ps = replicate (length ps) u"
    using assms(2) by (induction ps) (simp_all add: List.map_filter_simps)
  moreover have "removeAll u (replicate n u) = []" for n by (induction n) simp_all
  ultimately have "in_order (List.map_filter pu_udi ps) = [u]"
    using assms(1) by (cases "length ps") simp_all
  then show "update_signals ps = [property_modified u ps]" by (simp add: update_signals_def same)
  have "udis ps = replicate (length ps) (Some u)"
    using assms(2) by (induction ps) (simp_all add: udis_def)
  moreover have "sendable (replicate n None)" for n by (induction n) simp_all
  then have "sendable (replicate n (Some u))" for n by (cases n) simp_all
  ultimately show "sendable (udis ps)" by simp
qed

lemma atomic_end_one_device:
  assumes "collected dev keys s s'" and "atomic_count s = 1" and "pending_updates s = []" and "num_pending_updates s = 0"
  shows "\<exists>ps. (\<forall>p \<in> set ps. pu_key p \<in> keys) \<and>
    device_property_atomic_update_end s' =
      Inr (s'\<lparr>atomic_count := 0, num_pending_updates := 0, pending_updates := [],
              bd_out := bd_out s @ (if ps = [] \<or> \<not> dbus_connection s then [] else [property_modified (udi (bd_heap s dev)) ps])\<rparr>)"
proof -
  obtain ps where ps: "pending_updates s' = ps" "num_pending_updates s' = int (length ps)"
    "\<forall>p \<in> set ps. pu_udi p = Some (udi (bd_heap s dev)) \<and> pu_key p \<in> keys" "bd_out s' = bd_out s"
    "atomic_count s' = 1" "dbus_connection s' = dbus_connection s"
    using assms by (auto simp: collected_def collects_def)
  show ?thesis
  proof (cases "ps = []")
    case True
    with ps show ?thesis by (intro exI [of _ "[]"]) (simp add: device_property_atomic_update_end_def)
  next
    case False
    with flush_sends [OF one_device_signals(2) [OF False], of "udi (bd_heap s dev)" "s'\<lparr>atomic_count := 0\<rparr>"]
      one_device_signals(1) [OF False] ps
    show ?thesis by (intro exI [of _ ps]) (auto simp: device_property_atomic_update_end_def)
  qed
qed

lemma leading_entries_keys: "entry_keys (leading_entries vs) \<subseteq> entry_keys vs"
  by (induction vs rule: leading_entries.induct) (auto simp: entry_keys_def)

lemma set_multiple_returned:
  assumes "device_set_multiple_properties B local_interface m s = Inr (r, s')" and "last (bd_out s') = Send_Return m []"
    and "msg_args m = [D_ARRAY t vs]"
  obtains dev s0 s1 s2 where "find_device (path_of m) s = Some dev" "s0 = s \<or> (\<exists>cit. s0 = s\<lparr>bd_ci := cit\<rparr>)"
    "err_fold (set_property_entry B dev) (leading_entries vs) (device_property_atomic_update_begin s0) = Inr s1"
    "device_property_atomic_update_end s1 = Inr s2" "s' = bus_send (Send_Return m []) s2"
  using assms
  by (auto simp: device_set_multiple_properties_def if_privileged_def root_or_hal_def with_device_def handler_defs
      split: if_splits prod.splits option.splits) blast

lemma collected_entries:
  assumes "err_fold (set_property_entry B dev) (leading_entries vs) s0 = Inr s1" and "atomic_count s0 > 0"
  shows "collected dev (entry_keys vs) s0 s1"
proof (rule err_fold_inv [OF assms(1), of "collected dev (entry_keys vs) s0"])
  show "collected dev (entry_keys vs) s0 s0" using assms(2) by (simp add: collected_def)
  fix e t t'
  assume "e \<in> set (leading_entries vs)" "collected dev (entry_keys vs) s0 t" "set_property_entry B dev e t = Inr t'"
  moreover from this(1) have "entry_keys [e] \<subseteq> entry_keys vs"
    using leading_entries_keys [of vs] by (auto simp: entry_keys_def)
  ultimately show "collected dev (entry_keys vs) s0 t'" using collected_entry by blast
qed

text \<open>C14: \<open>SetMultipleProperties\<close> puts all changes into at most one \<open>PropertyModified\<close> signal of the device,
  about keys of the call, sent before the answer; nothing stays pending. This holds whenever the call
  is answered without an error and no group of changes was open.
\<close>

theorem set_multiple_properties_one_signal:
  assumes "device_message m ''SetMultipleProperties'' [D_ARRAY t vs]"
    and "pending_updates s = []" and "num_pending_updates s = 0" and "atomic_count s = 0"
    and "hald_dbus_filter_handle_methods B tv local_interface m s = Inr (r, s')" and "last (bd_out s') = Send_Return m []"
  shows "\<exists>dev ps. find_device (path_of m) s = Some dev \<and> (\<forall>p \<in> set ps. pu_key p \<in> entry_keys vs) \<and>
    bd_out s' = bd_out s @ (if ps = [] \<or> \<not> dbus_connection s then [] else [property_modified (udi (bd_heap s dev)) ps]) @
                [Send_Return m []] \<and>
    pending_updates s' = [] \<and> num_pending_updates s' = 0 \<and> atomic_count s' = 0"
proof -
  have args: "msg_args m = [D_ARRAY t vs]" using assms(1) by (simp add: device_message_def)
  have call: "hald_dbus_filter_handle_methods B tv local_interface m s = device_set_multiple_properties B local_interface m s"
    by (simp only: dispatch_rules device_message_calls [OF assms(1)])
  obtain dev s0 s1 s2 where dev: "find_device (path_of m) s = Some dev" and s0: "s0 = s \<or> (\<exists>cit. s0 = s\<lparr>bd_ci := cit\<rparr>)"
    and s1: "err_fold (set_property_entry B dev) (leading_entries vs) (device_property_atomic_update_begin s0) = Inr s1"
    and s2: "device_property_atomic_update_end s1 = Inr s2" and s': "s' = bus_send (Send_Return m []) s2"
    by (rule set_multiple_returned [OF assms(5) [unfolded call] assms(6) args])
  let ?t = "device_property_atomic_update_begin s0"
  have t: "atomic_count ?t = 1" "pending_updates ?t = []" "num_pending_updates ?t = 0" "bd_out ?t = bd_out s"
    "dbus_connection ?t = dbus_connection s" "bd_heap ?t = bd_heap s"
    using s0 assms(2-4) by (auto simp: device_property_atomic_update_begin_def)
  then have "collected dev (entry_keys vs) ?t s1" using collected_entries [OF s1] by simp
  from atomic_end_one_device [OF this t(1-3)] s2 dev show ?thesis
    by (auto simp: s' t bus_send_def)
qed

definition demo_entries :: "dvalue list" where
  "demo_entries = [D_DICT_ENTRY (D_STRING ''block.minor'') (D_VARIANT (D_INT32 5)),
                   D_DICT_ENTRY (D_STRING ''info.vendor'') (D_VARIANT (D_STRING ''V''))]"

definition demo_multiple :: dmessage where
  "demo_multiple =
     demo_call '':1.1'' (demo_udi ''disk'') ''SetMultipleProperties'' [D_ARRAY T_DICT_ENTRY demo_entries]"

theorem set_multiple_properties_one_signal_witness:
  "\<exists>r s' ps. hald_dbus_filter_handle_methods demo_bus 0 False demo_multiple demo_daemon = Inr (r, s') \<and>
     bd_out s' = [property_modified (demo_udi ''disk'') ps, Send_Return demo_multiple []]"
proof -
  let ?r = "hald_dbus_filter_handle_methods demo_bus 0 False demo_multiple demo_daemon"
  have "\<not> isl ?r" by code_simp
  moreover have "last (bd_out (snd (projr ?r))) = Send_Return demo_multiple []" by code_simp
  moreover have "length (bd_out (snd (projr ?r))) = 2" by code_simp
  moreover have "bd_out demo_daemon = []" by code_simp
  moreover have "map_option (\<lambda>dev. udi (bd_heap demo_daemon dev)) (find_device (path_of demo_multiple) demo_daemon) =
      Some (demo_udi ''disk'')" by code_simp
  ultimately obtain r s' where run: "?r = Inr (r, s')" and out: "last (bd_out s') = Send_Return demo_multiple []"
    and two: "length (bd_out s') = 2" and start: "bd_out demo_daemon = []"
    and dev: "map_option (\<lambda>dev. udi (bd_heap demo_daemon dev)) (find_device (path_of demo_multiple) demo_daemon) =
      Some (demo_udi ''disk'')"
    by (cases ?r) auto
  have hyps: "device_message demo_multiple ''SetMultipleProperties'' [D_ARRAY T_DICT_ENTRY demo_entries]"
    "pending_updates demo_daemon = []" "num_pending_updates demo_daemon = 0" "atomic_count demo_daemon = 0"
    by (simp_all add: device_message_def demo_multiple_def demo_call_def demo_daemon_def)
  from set_multiple_properties_one_signal [OF hyps run out] run two start dev show ?thesis
    by (fastforce split: if_splits)
qed

end
