(* ===== verification/Hal_DBus_Exec_Props.thy ===== *)
theory Hal_DBus_Exec_Props
  imports Hal_DBus_Props
begin

text \<open>
  Methods that run programs, addons and callouts: calls for one device run in the order they came in,
  what happens when the device goes away, when a device is announced, and two ways in which the code
  goes wrong.
\<close>

section \<open>Calls for one device run in order\<close>

lemma queue_of_frame [simp]:
  "queue_of u (bus_send x s) = queue_of u s" "queue_of u (runner r s) = queue_of u s"
  "queue_of u (drop_queue u s) = None"
  by (simp_all add: queue_of_def bus_send_def runner_def drop_queue_def delete_conv')
     (cases "udi_to_method_queue s", simp_all add: delete_conv')

lemma queue_frame [simp]:
  "bd_out (put_queue u q s) = bd_out s" "bd_runs (put_queue u q s) = bd_runs s" "bd_hp (put_queue u q s) = bd_hp s"
  "bd_out (drop_queue u s) = bd_out s" "bd_runs (drop_queue u s) = bd_runs s" "bd_hp (drop_queue u s) = bd_hp s"
  "bd_out (bus_send x s) = bd_out s @ [x]" "bd_runs (bus_send x s) = bd_runs s" "bd_hp (bus_send x s) = bd_hp s"
  "bd_out (runner r s) = bd_out s" "bd_runs (runner r s) = bd_runs s @ [r]" "bd_hp (runner r s) = bd_hp s"
  by (simp_all add: put_queue_def drop_queue_def bus_send_def runner_def)

text \<open>The end of the running call of a device, with its exit type, return code and error text.\<close>

definition finish_first ::
    "nat \<Rightarrow> bus_env \<Rightarrow> string \<Rightarrow> run_result \<times> int32 \<times> string list \<Rightarrow> daemon \<Rightarrow> memory_error + daemon" where
  "finish_first n B u res s =
     (case (queue_of u s, res) of
        (Some (mi # _), (exit_type, rc, err)) \<Rightarrow> hald_exec_method_cb n B u exit_type rc err (mi_message mi) s
      | _ \<Rightarrow> Inr s)"

fun answer :: "method_invocation \<times> run_result \<times> int32 \<times> string list \<Rightarrow> bus_out" where
  "answer (mi, exit_type, rc, err) = run_reply (mi_message mi) exit_type rc err"

lemma finish_last:
  assumes "queue_of u s = Some [mi]" and "\<not> is_unmount mi"
  shows "finish_first (Suc n) B u res s = Inr (bus_send (answer (mi, res)) (drop_queue u s))"
  using assms by (cases res) (simp add: finish_first_def refresh_after_other)

lemma finish_next:
  assumes "queue_of u s = Some (mi # nxt # rest)" and "\<not> is_unmount mi" and "mi_udi nxt = u"
    and "find_device u s = Some dev" and "be_start B (Run_Method dev nxt)"
  shows "finish_first (Suc n) B u res s =
    Inr (bus_send (answer (mi, res)) (runner (Run_Method dev nxt) (put_queue u (nxt # rest) s)))"
  using assms by (cases res) (simp add: finish_first_def refresh_after_other)

text \<open>C13: a queue of calls waiting for a device, under three conditions: the device stays in the device
  lists, every program can be handed to the runner, and none of the calls is \<open>Volume.Unmount\<close>, after which
  the mount state is read again. Then, as one program after the other ends, the calls are started one at
  a time, in the order they came in, each when the one before it has ended; every call is answered, in
  the same order, with the result of its own program; and at the end the queue is gone.
\<close>

theorem exec_queue_in_order:
  assumes "queue_of u s = Some (mi # rest)" and "find_device u s = Some dev"
    and "\<forall>x \<in> set (mi # rest). \<not> is_unmount x \<and> mi_udi x = u \<and> be_start B (Run_Method dev x)"
    and "length results = Suc (length rest)"
  shows "\<exists>s'. err_fold (finish_first (Suc n) B u) results s = Inr s' \<and> queue_of u s' = None \<and>
    bd_runs s' = bd_runs s @ map (Run_Method dev) rest \<and>
    bd_out s' = bd_out s @ map answer (zip (mi # rest) results) \<and> bd_hp s' = bd_hp s"
  using assms
proof (induction rest arbitrary: mi s results)
  case Nil
  from Nil.prems(4) obtain res where "results = [res]" by (cases results) auto
  with Nil show ?case by (simp add: finish_last)
next
  case (Cons nxt rest)
  from Cons.prems(4) obtain res results' where results: "results = res # results'" by (cases results) auto
  let ?s = "bus_send (answer (mi, res)) (runner (Run_Method dev nxt) (put_queue u (nxt # rest) s))"
  have step: "finish_first (Suc n) B u res s = Inr ?s" using Cons.prems by (intro finish_next) auto
  have "queue_of u ?s = Some (nxt # rest)" "find_device u ?s = Some dev" using Cons.prems by simp_all
  moreover have "\<forall>x \<in> set (nxt # rest). \<not> is_unmount x \<and> mi_udi x = u \<and> be_start B (Run_Method dev x)"
    using Cons.prems(3) by simp
  moreover have "length results' = Suc (length rest)" using Cons.prems(4) results by simp
  ultimately have "\<exists>s'. err_fold (finish_first (Suc n) B u) results' ?s = Inr s' \<and> queue_of u s' = None \<and>
    bd_runs s' = bd_runs ?s @ map (Run_Method dev) rest \<and>
    bd_out s' = bd_out ?s @ map answer (zip (nxt # rest) results') \<and> bd_hp s' = bd_hp ?s"
    by (rule Cons.IH)
  then show ?case by (simp add: results step)
qed

text \<open>C17: when a call ends and its device is gone, a single waiting call is answered with an error, but with
  two or more the daemon goes on with the identifier inside an invocation it has freed.
\<close>

theorem vanished_device_queue:
  assumes "queue_of u s = Some (mi # rest)" and "find_device u s = None" and "\<forall>x \<in> set (mi # rest). mi_udi x = u"
  shows "hald_exec_method_cb (Suc (Suc n)) B u exit_type rc err m s =
    (case rest of
       [] \<Rightarrow> Inr (bus_send (run_reply m exit_type rc err) (drop_queue u s))
     | [x] \<Rightarrow> Inr (bus_send (run_reply m exit_type rc err)
                (drop_queue u (raise_no_such_device (mi_message x) u (put_queue u [x] s))))
     | _ \<Rightarrow> Inl Use_After_Free)"
proof -
  have refresh: "refresh_after B x t = Inr t" if "find_device u t = None" "mi_udi x = u" for x t
    using that by (simp add: refresh_after_def)
  have raise: "queue_of u (raise_no_such_device m' u t) = queue_of u t"
    "find_device u' (raise_no_such_device m' u t) = find_device u' t" for m' u u' t
    by (simp_all add: raise_no_such_device_def raise_error_def)
  show ?thesis
    using assms by (auto simp: refresh raise split: list.split)
qed

section \<open>A device is announced once\<close>

lemma addon_ready_step:
  assumes "connected s" and "num_addons_ready (bd_heap s dev) \<noteq> num_addons (bd_heap s dev)"
  shows "bd_out (addon_ready dev s) = bd_out s @
      (if num_addons_ready (bd_heap s dev) + 1 = num_addons (bd_heap s dev)
       then [Send_Signal ''/org/freedesktop/Hal/Manager'' ''org.freedesktop.Hal.Manager'' ''DeviceAdded''
               [D_STRING (udi (bd_heap s dev))]] else [])"
    and "bd_heap (addon_ready dev s) dev = (bd_heap s dev)\<lparr>num_addons_ready := num_addons_ready (bd_heap s dev) + 1\<rparr>"
    and "connected (addon_ready dev s)"
  using assms
  by (auto simp: addon_ready_def hal_device_inc_num_ready_addons_def hal_device_are_all_addons_ready_def Let_def
      manager_send_signal_device_added_def manager_signal_def connected_def set_device_def bus_send_def
      hal_device_get_udi_def)

lemma addon_ready_done:
  assumes "num_addons_ready (bd_heap s dev) = num_addons (bd_heap s dev)"
  shows "bd_out (addon_ready dev s) = bd_out s" and "bd_heap (addon_ready dev s) dev = bd_heap s dev"
  using assms
  by (simp_all add: addon_ready_def hal_device_inc_num_ready_addons_def hal_device_are_all_addons_ready_def Let_def
      set_device_def)

text \<open>C16: a device with \<open>n\<close> addons of which \<open>r\<close> are ready is announced by exactly one \<open>DeviceAdded\<close>, when the
  last addon becomes ready; reports that come after that are ignored.
\<close>

theorem device_announced_once:
  assumes "connected s" and "num_addons_ready (bd_heap s dev) = r" and "num_addons (bd_heap s dev) = n" and "r < n"
  shows "bd_out ((addon_ready dev ^^ k) s) = bd_out s @
    (if n - r \<le> int k
     then [Send_Signal ''/org/freedesktop/Hal/Manager'' ''org.freedesktop.Hal.Manager'' ''DeviceAdded''
             [D_STRING (udi (bd_heap s dev))]] else [])"
  using assms
proof (induction k arbitrary: s r)
  case (Suc k)
  have neq: "num_addons_ready (bd_heap s dev) \<noteq> num_addons (bd_heap s dev)" using Suc.prems by simp
  note step = addon_ready_step [OF Suc.prems(1) neq]
  have iter: "(addon_ready dev ^^ Suc k) s = (addon_ready dev ^^ k) (addon_ready dev s)" by (simp add: funpow_swap1)
  show ?case
  proof (cases "r + 1 = n")
    case True
    have "bd_out ((addon_ready dev ^^ j) t) = bd_out t" if "num_addons_ready (bd_heap t dev) = num_addons (bd_heap t dev)"
      for j t using that by (induction j arbitrary: t) (simp_all add: funpow_swap1 addon_ready_done)
    then show ?thesis using True Suc.prems step unfolding iter by simp
  next
    case False
    with Suc.IH [OF step(3), of "r + 1"] Suc.prems step show ?thesis unfolding iter by simp
  qed
qed simp

section \<open>A callout that cannot be started\<close>

text \<open>When the runner refuses the program of a callout (its command line cannot be parsed), the code calls
  itself for the same program again: no number of rounds is enough.
\<close>

theorem callout_never_ends:
  assumes "programs \<noteq> []" and "\<forall>a. \<not> starts a"
  shows "callout_run n starts (hal_callout_device dev programs extra_env) = Inl Out_Of_Fuel"
proof -
  have "callout_run n starts (callout_do_next c) = Inl Out_Of_Fuel" if "co_next_program c < length (co_programs c)" for c
    using that assms(2) by (induction n) (simp_all add: callout_do_next_def)
  then show ?thesis using assms(1) by (simp add: hal_callout_device_def)
qed

theorem callout_never_ends_witness:
  "callout_run 1000 (\<lambda>_. False) (hal_callout_device 1 [''bad'' @ [CHR 0x22]] []) = Inl Out_Of_Fuel"
  by (rule callout_never_ends) simp_all

text \<open>The callouts of a spawned device in the rule engine are this chain of callouts: with programs it
  waits for the runner, without it is committed, and it never ends when its first program is refused.\<close>

theorem spawned_callouts_are_callouts:
  assumes "0 < n"
  shows "spawned_callouts_add E x w =
    err_bind (callout_run n (\<lambda>a. case a of RUN _ program _ \<Rightarrow> re_starts E program | CALLBACK _ \<Rightarrow> True)
        (hal_util_callout_device_add (w_heap w) x))
      (\<lambda>step. case fst step of
                CALLBACK d \<Rightarrow> spawned_device_callouts_add_done (re_hash E) d w
              | RUN d _ _ \<Rightarrow> Inr (w\<lparr>w_callouts := w_callouts w @ [d]\<rparr>))"
proof -
  let ?starts = "\<lambda>a. case a of RUN _ program _ \<Rightarrow> re_starts E program | CALLBACK _ \<Rightarrow> True"
  have never: "callout_run k ?starts (callout_do_next c) = Inl Out_Of_Fuel"
    if "co_next_program c < length (co_programs c)" "\<not> re_starts E (co_programs c ! co_next_program c)" for c k
    using that by (induction k) (simp_all add: callout_do_next_def)
  have refused: "callout_run k ?starts
      (RUN x p env, Some \<lparr>co_device = x, co_programs = p # ps, co_extra_env = env, co_next_program = Suc 0\<rparr>) = Inl Out_Of_Fuel"
    if "\<not> re_starts E p" for p ps env k
    using never [of "\<lparr>co_device = x, co_programs = p # ps, co_extra_env = env, co_next_program = 0\<rparr>" k] that
    by (simp add: callout_do_next_def)
  obtain k where "n = Suc k" using assms gr0_implies_Suc by blast
  then show ?thesis
    using refused
    by (simp add: spawned_callouts_add_def hal_util_callout_device_add_def callout_device_key_def hal_callout_device_def
        callout_do_next_def split: option.split list.split)
qed

theorem spawned_callouts_are_callouts_witness:
  "\<exists>w. spawned_callouts_add (demo_env []) 2 demo_world = Inr w \<and> devices (w_gdl w) = [2, 1, 0]"
proof -
  have "\<exists>w. err_bind (callout_run 1 (\<lambda>a. case a of RUN _ program _ \<Rightarrow> re_starts (demo_env []) program | CALLBACK _ \<Rightarrow> True)
        (hal_util_callout_device_add (w_heap demo_world) 2))
      (\<lambda>step. case fst step of
                CALLBACK d \<Rightarrow> spawned_device_callouts_add_done (re_hash (demo_env [])) d demo_world
              | RUN d _ _ \<Rightarrow> Inr (demo_world\<lparr>w_callouts := w_callouts demo_world @ [d]\<rparr>)) = Inr w \<and> devices (w_gdl w) = [2, 1, 0]"
    by (simp add: hal_util_callout_device_add_def callout_device_key_def demo_world_def demo_heap_def
        hal_device_property_dup_strlist_as_strv_def hal_device_property_get_strlist_def hal_device_property_find_def
        spawned_device_callouts_add_done_def hal_device_store_remove_def hal_device_store_add_eq
        property_index_check_all_def hal_device_store_new_def store_emit_def demo_udi_def orphan_all_def)
  then show ?thesis using spawned_callouts_are_callouts [of 1 "demo_env []" 2 demo_world] by simp
qed

theorem device_announced_once_witness:
  "length (bd_out ((addon_ready 1 ^^ 5) (set_device 1 ((bd_heap demo_daemon 1)\<lparr>num_addons := 2\<rparr>) demo_daemon))) = 1"
proof -
  let ?s = "set_device 1 ((bd_heap demo_daemon 1)\<lparr>num_addons := 2\<rparr>) demo_daemon"
  have "connected ?s" "num_addons_ready (bd_heap ?s 1) = 0" "num_addons (bd_heap ?s 1) = 2" "bd_out ?s = []"
    by (simp_all add: connected_def set_device_def set_world_def demo_defs)
  with device_announced_once [of ?s 1 0 2 5] show ?thesis by simp
qed

definition demo_mi :: "nat \<Rightarrow> method_invocation" where
  "demo_mi k =
     \<lparr>mi_udi = demo_udi ''disk'', mi_execpath = ''/bin/true'', mi_extra_env = [], mi_stdin = [], mi_member = ''Eject'',
      mi_interface = ''org.freedesktop.Hal.Device.Storage'',
      mi_message = (demo_call '':1.7'' (demo_udi ''disk'') ''Eject'' [])\<lparr>msg_serial := k\<rparr>\<rparr>"

theorem exec_queue_in_order_witness:
  "\<exists>s'. err_fold (finish_first 1 demo_bus (demo_udi ''disk''))
      [(HALD_RUN_SUCCESS, 0, []), (HALD_RUN_SUCCESS, 1, [])] (put_queue (demo_udi ''disk'') [demo_mi 1, demo_mi 2] demo_daemon) = Inr s' \<and>
    bd_runs s' = [Run_Method 1 (demo_mi 2)]"
proof -
  let ?s = "put_queue (demo_udi ''disk'') [demo_mi 1, demo_mi 2] demo_daemon"
  let ?rs = "[(HALD_RUN_SUCCESS, 0, []), (HALD_RUN_SUCCESS, 1, [])]"
  have dev: "find_device (demo_udi ''disk'') ?s = Some 1" by code_simp
  have ok: "\<forall>x \<in> set [demo_mi 1, demo_mi 2]. \<not> is_unmount x \<and> mi_udi x = demo_udi ''disk'' \<and> be_start demo_bus (Run_Method 1 x)"
    by (simp add: demo_mi_def is_unmount_def demo_bus_def)
  have q: "queue_of (demo_udi ''disk'') ?s = Some [demo_mi 1, demo_mi 2]" by simp
  from exec_queue_in_order [OF q dev ok, of ?rs 0] show ?thesis by (auto simp: demo_daemon_def)
qed

theorem vanished_device_queue_witness:
  "hald_exec_method_cb 2 demo_bus (demo_udi ''gone'') HALD_RUN_SUCCESS 0 [] (mi_message (demo_mi 1))
     (put_queue (demo_udi ''gone'') (map (\<lambda>k. (demo_mi k)\<lparr>mi_udi := demo_udi ''gone''\<rparr>) [1, 2, 3]) demo_daemon) =
   Inl Use_After_Free"
proof -
  let ?q = "map (\<lambda>k. (demo_mi k)\<lparr>mi_udi := demo_udi ''gone''\<rparr>) [1, 2, 3]"
  let ?s = "put_queue (demo_udi ''gone'') ?q demo_daemon"
  have dev: "find_device (demo_udi ''gone'') ?s = None" by code_simp
  have q: "queue_of (demo_udi ''gone'') ?s = Some (hd ?q # tl ?q)" by simp
  have u: "\<forall>x \<in> set (hd ?q # tl ?q). mi_udi x = demo_udi ''gone''" by simp
  from vanished_device_queue [OF q dev u, of 0] show ?thesis by (simp add: numeral_2_eq_2)
qed

section \<open>Who decides which program a method runs\<close>

text \<open>A new string list is announced without touching the index of the stores.\<close>

lemma deliver_one_strlist:
  assumes "hal_device_property_get_type d key = TYPE_STRLIST"
  shows "\<exists>s'. deliver_one H dev (PROPERTY_CHANGED key removed added, d) s = Inr s'"
proof -
  have "\<exists>s'. err_fold (\<lambda>_. store_handler H dev (PROPERTY_CHANGED key removed added, d)) xs s = Inr s'" for xs :: "nat list"
    using assms by (induction xs arbitrary: s) simp_all
  then show ?thesis unfolding deliver_one_def by (metis err_bind.simps(2))
qed

text \<open>A key that is free or holds a string list.\<close>

definition list_at :: "hal_device \<Rightarrow> string \<Rightarrow> string list \<Rightarrow> bool" where
  "list_at d key xs \<longleftrightarrow>
     hal_device_property_find d key = Some (HP_STRLIST xs) \<or> hal_device_property_find d key = None \<and> xs = []"

lemma list_at_get [simp]: "list_at d key xs \<Longrightarrow> hal_device_property_get_strlist d key = xs"
  by (auto simp: list_at_def hal_device_property_get_strlist_def)

lemma list_at_insert:
  "list_at (insert_prop key (HP_STRLIST ys) d) k xs \<longleftrightarrow> (if k = key then xs = ys else list_at d k xs)"
  by (auto simp: list_at_def find_insert)

lemma strlist_append_call:
  assumes "list_at (bd_heap s dev) key xs"
  shows "\<exists>s'. dev_call B dev (hal_device_property_strlist_append key v False) s = Inr (True, s') \<and>
    bd_heap s' = (bd_heap s)(dev := insert_prop key (HP_STRLIST (xs @ [v])) (bd_heap s dev))"
proof -
  let ?d = "insert_prop key (HP_STRLIST (xs @ [v])) (bd_heap s dev)"
  let ?b = "hal_device_property_find (bd_heap s dev) key = None"
  have op: "hal_device_property_strlist_append key v False (bd_heap s dev) = (True, ?d, [(PROPERTY_CHANGED key False ?b, ?d)])"
    using assms by (auto simp: list_at_def hal_device_property_strlist_append_def hal_property_new_def Let_def)
  have "hal_device_property_get_type ?d key = TYPE_STRLIST" by (simp add: hal_device_property_get_type_def)
  then obtain g t where "deliver_one (be_hash B) dev (PROPERTY_CHANGED key False ?b, ?d) (w_gdl (bd_world s)) = Inr g"
    "deliver_one (be_hash B) dev (PROPERTY_CHANGED key False ?b, ?d) (w_tdl (bd_world s)) = Inr t"
    using deliver_one_strlist by meson
  then show ?thesis
    by (simp add: dev_call_def world_call_def op deliver_def only_signals_frame [OF only_signals_emission])
qed

definition append_call :: "string \<Rightarrow> dmessage \<Rightarrow> string \<Rightarrow> string \<Rightarrow> bool" where
  "append_call u m key v \<longleftrightarrow>
     device_message m ''StringListAppend'' [D_STRING key, D_STRING v] \<and> msg_path m = Some u"

lemma append_call_done:
  assumes "append_call u m key v" and "be_get_args B [T_STRING, T_STRING] [D_STRING key, D_STRING v] = Some [D_STRING key, D_STRING v]"
    and "find_device u s = Some dev" and "list_at (bd_heap s dev) key xs"
  shows "\<exists>s'. hald_dbus_filter_handle_methods B tv False m s = Inr (HANDLED, s') \<and> find_device u s' = Some dev \<and>
    bd_heap s' = (bd_heap s)(dev := insert_prop key (HP_STRLIST (xs @ [v])) (bd_heap s dev))"
proof -
  have m: "device_message m ''StringListAppend'' [D_STRING key, D_STRING v]" and path: "msg_path m = Some u"
    using assms(1) by (simp_all add: append_call_def)
  obtain s' where call: "dev_call B dev (hal_device_property_strlist_append key v False) s = Inr (True, s')"
    and heap: "bd_heap s' = (bd_heap s)(dev := insert_prop key (HP_STRLIST (xs @ [v])) (bd_heap s dev))"
    using strlist_append_call [OF assms(4)] by metis
  have "hald_dbus_filter_handle_methods B tv False m s = device_string_list_append_prepend B False m s"
    by (simp only: dispatch_rules device_message_calls [OF m])
  moreover have "device_string_list_append_prepend B False m s = reply m [] s'"
    using m path call assms(2,3)
    by (simp add: device_string_list_append_prepend_def with_device_def path_of_def get_args_def device_message_def)
  moreover have "find_device u s' = Some dev" using strlist_append.dev_call_find [OF call] assms(3) by simp
  ultimately show ?thesis using heap by (auto simp: reply_def handled_def)
qed

lemma suffix_neq:
  "i @ ''.method_names'' \<noteq> ''info.interfaces''" "i @ ''.method_execpaths'' \<noteq> ''info.interfaces''"
  "i @ ''.method_signatures'' \<noteq> ''info.interfaces''"
  by (rule notI, drule arg_cong [of _ _ rev], simp)+

text \<open>A method at the end of the lists of an interface is found.\<close>

lemma method_loop_last:
  assumes "x \<notin> set names"
    and "hal_device_property_get_strlist_elem d (i @ ''.method_execpaths'') (num + length names) = Some program"
    and "hal_device_property_get_strlist_elem d (i @ ''.method_signatures'') (num + length names) = Some sig"
  shows "method_loop d i x sig num (names @ [x]) = Some program"
  using assms by (induction names arbitrary: num) auto

lemma interface_loop_member:
  "i \<in> set ifs \<Longrightarrow>
   method_loop d i x sig 0 (hal_device_property_strlist_iter_init d (i @ ''.method_names'')) = Some program \<Longrightarrow>
   interface_loop d i x sig ifs = Some program"
  by (induction ifs) auto

lemma strlist_elem_last:
  "hal_device_property_find d key = Some (HP_STRLIST (xs @ [v])) \<Longrightarrow> n = length xs \<Longrightarrow>
   hal_device_property_get_strlist_elem d key n = Some v"
  by (cases xs) (simp_all add: hal_device_property_get_strlist_elem_def hal_device_property_get_strlist_def)

text \<open>C18: the string lists that say which program a method of a device runs can be extended by every caller
  on the system bus. Take an interface, new or not, of a device on which the list of interfaces and the
  three lists of the interface's method names, programs and signatures are absent or string lists, the
  three of the same length, and a method name that is not among the names: four calls of
  \<open>StringListAppend\<close> make the daemon take a program of the caller's choice for that method. No privilege
  is asked for in any of the calls, although the interface specification lists \<open>PermissionDenied\<close> among
  the errors of \<open>StringListAppend\<close>.
\<close>

theorem anyone_can_add_a_method:
  assumes "find_device u s = Some dev"
    and "list_at (bd_heap s dev) ''info.interfaces'' ifs" and "list_at (bd_heap s dev) (i @ ''.method_names'') names"
    and "list_at (bd_heap s dev) (i @ ''.method_execpaths'') paths" and "list_at (bd_heap s dev) (i @ ''.method_signatures'') sigs"
    and "length paths = length names" and "length sigs = length names" and "x \<notin> set names"
    and "\<forall>key v. be_get_args B [T_STRING, T_STRING] [D_STRING key, D_STRING v] = Some [D_STRING key, D_STRING v]"
    and "append_call u m1 ''info.interfaces'' i" and "append_call u m2 (i @ ''.method_names'') x"
    and "append_call u m3 (i @ ''.method_execpaths'') program" and "append_call u m4 (i @ ''.method_signatures'') sig"
  shows "\<exists>s'. err_fold (\<lambda>m s. err_bind (hald_dbus_filter_handle_methods B tv False m s) (\<lambda>(_, s). Inr s)) [m1, m2, m3, m4] s = Inr s' \<and>
    find_device u s' = Some dev \<and> find_method (bd_heap s' dev) i x sig = Some program"
proof -
  note lists = assms(2-5) and args = assms(9) [rule_format]
  note neq = suffix_neq suffix_neq [symmetric]
  obtain s1 where s1: "hald_dbus_filter_handle_methods B tv False m1 s = Inr (HANDLED, s1)" "find_device u s1 = Some dev"
    "bd_heap s1 = (bd_heap s)(dev := insert_prop ''info.interfaces'' (HP_STRLIST (ifs @ [i])) (bd_heap s dev))"
    using append_call_done [OF assms(10) args assms(1) lists(1)] by blast
  have "list_at (bd_heap s1 dev) (i @ ''.method_names'') names"
    using lists(2) by (simp add: s1(3) list_at_insert neq)
  from append_call_done [OF assms(11) args s1(2) this] obtain s2 where
    s2: "hald_dbus_filter_handle_methods B tv False m2 s1 = Inr (HANDLED, s2)" "find_device u s2 = Some dev"
    "bd_heap s2 = (bd_heap s1)(dev := insert_prop (i @ ''.method_names'') (HP_STRLIST (names @ [x])) (bd_heap s1 dev))"
    by blast
  have "list_at (bd_heap s2 dev) (i @ ''.method_execpaths'') paths"
    using lists(3) by (simp add: s1(3) s2(3) list_at_insert neq)
  from append_call_done [OF assms(12) args s2(2) this] obtain s3 where
    s3: "hald_dbus_filter_handle_methods B tv False m3 s2 = Inr (HANDLED, s3)" "find_device u s3 = Some dev"
    "bd_heap s3 = (bd_heap s2)(dev := insert_prop (i @ ''.method_execpaths'') (HP_STRLIST (paths @ [program])) (bd_heap s2 dev))"
    by blast
  have "list_at (bd_heap s3 dev) (i @ ''.method_signatures'') sigs"
    using lists(4) by (simp add: s1(3) s2(3) s3(3) list_at_insert neq)
  from append_call_done [OF assms(13) args s3(2) this] obtain s4 where
    s4: "hald_dbus_filter_handle_methods B tv False m4 s3 = Inr (HANDLED, s4)" "find_device u s4 = Some dev"
    "bd_heap s4 = (bd_heap s3)(dev := insert_prop (i @ ''.method_signatures'') (HP_STRLIST (sigs @ [sig])) (bd_heap s3 dev))"
    by blast
  let ?d = "bd_heap s4 dev"
  have found: "hal_device_property_find ?d ''info.interfaces'' = Some (HP_STRLIST (ifs @ [i]))"
    "hal_device_property_find ?d (i @ ''.method_names'') = Some (HP_STRLIST (names @ [x]))"
    "hal_device_property_find ?d (i @ ''.method_execpaths'') = Some (HP_STRLIST (paths @ [program]))"
    "hal_device_property_find ?d (i @ ''.method_signatures'') = Some (HP_STRLIST (sigs @ [sig]))"
    by (simp_all add: s1(3) s2(3) s3(3) s4(3) find_insert neq)
  have "method_loop ?d i x sig 0 (names @ [x]) = Some program"
    using strlist_elem_last [OF found(3)] strlist_elem_last [OF found(4)] assms(6,7)
    by (intro method_loop_last [OF assms(8)]) simp_all
  then have "find_method ?d i x sig = Some program"
    unfolding find_method_def
    by (intro interface_loop_member) (simp_all add: hal_device_property_strlist_iter_init_def found)
  then show ?thesis using s1(1) s2(1) s3(1) s4(1,2) by simp
qed

definition demo_append :: "string \<Rightarrow> string \<Rightarrow> dmessage" where
  "demo_append key v = demo_call '':1.7'' (demo_udi ''disk'') ''StringListAppend'' [D_STRING key, D_STRING v]"

theorem anyone_can_add_a_method_witness:
  "\<exists>s'. find_device (demo_udi ''disk'') s' = Some 1 \<and>
     find_method (bd_heap s' 1) ''com.example.Any'' ''Run'' [] = Some ''/tmp/program''"
proof -
  let ?i = "''com.example.Any''"
  have dev: "find_device (demo_udi ''disk'') demo_daemon = Some 1" by code_simp
  have lists: "list_at (bd_heap demo_daemon 1) ''info.interfaces'' []" "list_at (bd_heap demo_daemon 1) (?i @ ''.method_names'') []"
    "list_at (bd_heap demo_daemon 1) (?i @ ''.method_execpaths'') []" "list_at (bd_heap demo_daemon 1) (?i @ ''.method_signatures'') []"
    by code_simp+
  have args: "\<forall>key v. be_get_args demo_bus [T_STRING, T_STRING] [D_STRING key, D_STRING v] = Some [D_STRING key, D_STRING v]"
    by (simp add: demo_bus_def typed_args_def)
  have calls: "append_call (demo_udi ''disk'') (demo_append key v) key v" for key v
    by (simp add: append_call_def demo_append_def demo_call_def device_message_def)
  from anyone_can_add_a_method [OF dev lists _ _ _ args calls calls calls calls, of "''Run''" 0 "''/tmp/program''" "[]"]
  show ?thesis by auto
qed

end
