(* ===== verification/Hal_Part.thy ===== *)
theory Hal_Part
  imports Hal_Util Hal_Rules
begin

text \<open>
  Partition tables: \<open>partutil/partutil.c\<close>. The parsers for MS-DOS tables with their chain of extended boot
  records, for GPT and for Apple partition maps, the inspection of entries, the search for the partition
  at an offset, and the changes that are made through libparted.

  A disk is the list of its bytes. Seeking takes a signed 64-bit offset, reading is all or nothing. Of
  libparted, the calls the code makes are fields of the record \<open>parted\<close>. The contents of an entry are
  a copy of bytes of known length; reading behind it is the error \<open>Buffer_Overrun\<close>.
\<close>

unbundle bit_operations_syntax

section \<open>Bytes\<close>

type_synonym octets = "8 word list"

fun octets_nat :: "octets \<Rightarrow> nat" where
  "octets_nat [] = 0"
| "octets_nat (b # bs) = unat b + 256 * octets_nat bs"

definition get_le16 :: "octets \<Rightarrow> 16 word" where
  "get_le16 buf = of_nat (octets_nat (take 2 buf))"

definition get_le32 :: "octets \<Rightarrow> 32 word" where
  "get_le32 buf = of_nat (octets_nat (take 4 buf))"

definition get_le64 :: "octets \<Rightarrow> uint64" where
  "get_le64 buf = of_nat (octets_nat (take 8 buf))"

definition get_be32 :: "octets \<Rightarrow> 32 word" where
  "get_be32 buf = of_nat (octets_nat (rev (take 4 buf)))"

definition read_at :: "octets \<Rightarrow> uint64 \<Rightarrow> nat \<Rightarrow> octets option" where
  "read_at disk pos n =
     (if uint pos < 2 ^ 63 \<and> unat pos + n \<le> length disk then Some (take n (drop (unat pos) disk)) else None)"

subsection \<open>GUIDs\<close>

definition hex_upper :: "nat \<Rightarrow> char" where
  "hex_upper d = ''0123456789ABCDEF'' ! (d mod 16)"

text \<open>\<open>%08X\<close>, \<open>%04X\<close>, \<open>%02X\<close> of a number that has no more digits than the width.\<close>

fun hex_fixed :: "nat \<Rightarrow> nat \<Rightarrow> string" where
  "hex_fixed 0 v = []"
| "hex_fixed (Suc k) v = hex_fixed k (v div 16) @ [hex_upper v]"

definition get_le_guid :: "octets \<Rightarrow> string" where
  "get_le_guid buf =
     hex_fixed 8 (unat (get_le32 buf)) @ ''-'' @ hex_fixed 4 (unat (get_le16 (drop 4 buf))) @ ''-'' @
     hex_fixed 4 (unat (get_le16 (drop 6 buf))) @ ''-'' @
     concat (map (\<lambda>i. hex_fixed 2 (unat (buf ! i))) [8, 9]) @ ''-'' @
     concat (map (\<lambda>i. hex_fixed 2 (unat (buf ! i))) [10, 11, 12, 13, 14, 15])"

text \<open>
  One conversion \<open>%x\<close> of \<open>sscanf\<close>, with a field width: white space is skipped, then as many characters
  as the width allows are taken from a sign, a prefix \<open>0x\<close> and hexadecimal digits; without a digit
  the conversion fails.
\<close>

definition is_hex :: "char \<Rightarrow> bool" where
  "is_hex c \<longleftrightarrow> (case digit_value c of Some v \<Rightarrow> v < 16 | None \<Rightarrow> False)"

definition zero_x :: "string \<Rightarrow> bool" where
  "zero_x s \<longleftrightarrow> take 2 s = ''0x'' \<or> take 2 s = ''0X''"

definition scan_hex :: "nat option \<Rightarrow> string \<Rightarrow> (int \<times> string) option" where
  "scan_hex width s =
     (let s = dropWhile is_space s; field = (case width of None \<Rightarrow> s | Some w \<Rightarrow> take w s);
          (neg, r) = parse_sign field;
          ds = takeWhile is_hex (if zero_x r then drop 2 r else r);
          used = length field - length r + (if zero_x r then 2 else 0) + length ds;
          v = min (parse_digits 16 0 ds) (2 ^ 64 - 1)
      in if ds = [] then None else Some (if neg then - v else v, drop used s))"

fun scan_dash :: "string \<Rightarrow> string option" where
  "scan_dash [] = None"
| "scan_dash (c # s) = (if c = CHR ''-'' then Some s else None)"

fun scan_bytes :: "nat \<Rightarrow> string \<Rightarrow> (octets \<times> string) option" where
  "scan_bytes 0 s = Some ([], s)"
| "scan_bytes (Suc k) s =
     Option.bind (scan_hex (Some 2) s) (\<lambda>(v, s). map_option (\<lambda>(bs, s). (word_of_int v # bs, s)) (scan_bytes k s))"

definition nat_octets :: "nat \<Rightarrow> nat \<Rightarrow> octets" where
  "nat_octets k v = map (\<lambda>i. of_nat (v div 256 ^ i)) [0..<k]"

text \<open>
  The fields are stored in the byte order of the machine and then converted. Only a source in which all
  eleven fields are found leads to a result; otherwise the result is a variable that was never set.
\<close>

definition set_le_guid :: "string \<Rightarrow> memory_error + octets" where
  "set_le_guid source =
     (case Option.bind (scan_hex None source) (\<lambda>(d1, s). Option.bind (scan_dash s) (\<lambda>s.
           Option.bind (scan_hex None s) (\<lambda>(d2, s). Option.bind (scan_dash s) (\<lambda>s.
           Option.bind (scan_hex None s) (\<lambda>(d3, s). Option.bind (scan_dash s) (\<lambda>s.
           Option.bind (scan_bytes 2 s) (\<lambda>(b1, s). Option.bind (scan_dash s) (\<lambda>s.
           Option.bind (scan_bytes 6 s) (\<lambda>(b2, s).
             Some (nat_octets 4 (unat (word_of_int d1 :: 32 word)) @ nat_octets 2 (unat (word_of_int d2 :: 16 word)) @
                   nat_octets 2 (unat (word_of_int d3 :: 16 word)) @ b1 @ b2)))))))))) of
        None \<Rightarrow> Inl Uninitialised
      | Some guid \<Rightarrow> Inr guid)"

section \<open>Tables\<close>

datatype PartitionScheme = PART_TYPE_MSDOS | PART_TYPE_MSDOS_EXTENDED | PART_TYPE_APPLE | PART_TYPE_GPT

datatype PartitionTable = PartitionTable (pt_scheme: PartitionScheme) (pt_offset: uint64) (pt_size: uint64)
    (pt_entries: "PartitionEntry list")
and PartitionEntry = PartitionEntry (pe_part_table: "PartitionTable option") (pe_data: octets) (pe_offset: uint64)

fun part_get_scheme_name :: "PartitionScheme \<Rightarrow> string" where
  "part_get_scheme_name PART_TYPE_GPT = ''gpt''"
| "part_get_scheme_name PART_TYPE_MSDOS = ''mbr''"
| "part_get_scheme_name PART_TYPE_MSDOS_EXTENDED = ''embr''"
| "part_get_scheme_name PART_TYPE_APPLE = ''apm''"

definition part_entry_new :: "PartitionTable option \<Rightarrow> octets \<Rightarrow> nat \<Rightarrow> uint64 \<Rightarrow> PartitionEntry" where
  "part_entry_new e_part_table data n off = PartitionEntry e_part_table (take n data) off"

section \<open>MS-DOS\<close>

definition MSDOS_PARTTABLE_OFFSET :: nat where
  "MSDOS_PARTTABLE_OFFSET = 0x1be"

definition has_msdos_magic :: "octets \<Rightarrow> bool" where
  "has_msdos_magic buf \<longleftrightarrow> take 2 (drop 0x1fe buf) = [0x55, 0xaa]"

definition msdos_slot :: "octets \<Rightarrow> nat \<Rightarrow> octets" where
  "msdos_slot buf n = drop (MSDOS_PARTTABLE_OFFSET + n * 16) buf"

definition slot_start :: "octets \<Rightarrow> uint64" where
  "slot_start slot = 0x200 * ucast (get_le32 (drop 8 slot))"

definition slot_size :: "octets \<Rightarrow> uint64" where
  "slot_size slot = 0x200 * ucast (get_le32 (drop 12 slot))"

text \<open>
  The chain of extended boot records: the first slot of a record is a logical partition, the second one
  leads to the next record, relative to the start of the extended partition. Nothing bounds the chain.
  The accumulator is \<^const>\<open>None\<close> as long as no record has been found.
\<close>

definition embr_entries :: "octets \<Rightarrow> uint64 \<Rightarrow> PartitionEntry list" where
  "embr_entries embr readfrom =
     (if slot_size (msdos_slot embr 0) = 0 then []
      else [part_entry_new None (msdos_slot embr 0) 16 (readfrom + of_nat MSDOS_PARTTABLE_OFFSET)])"

definition embr_next :: "octets \<Rightarrow> uint64 \<Rightarrow> uint64" where
  "embr_next embr off =
     (if slot_size (msdos_slot embr 1) = 0 then 0
      else if slot_start (msdos_slot embr 1) \<noteq> 0 then off + slot_start (msdos_slot embr 1) else 0)"

fun embr_loop :: "nat \<Rightarrow> octets \<Rightarrow> uint64 \<Rightarrow> uint64 \<Rightarrow> PartitionEntry list option \<Rightarrow> memory_error + PartitionEntry list option" where
  "embr_loop fuel disk off nxt acc =
     (if nxt = 0 then Inr acc
      else case fuel of
             0 \<Rightarrow> Inl Out_Of_Fuel
           | Suc fuel \<Rightarrow>
               (case read_at disk nxt 512 of
                  None \<Rightarrow> Inr acc
                | Some embr \<Rightarrow>
                    if \<not> has_msdos_magic embr then Inr acc
                    else embr_loop fuel disk off (embr_next embr off)
                           (Some ((case acc of None \<Rightarrow> [] | Some es \<Rightarrow> es) @ embr_entries embr nxt))))"

declare embr_loop.simps [simp del]

definition part_table_parse_msdos_extended :: "nat \<Rightarrow> octets \<Rightarrow> uint64 \<Rightarrow> uint64 \<Rightarrow> memory_error + PartitionTable option" where
  "part_table_parse_msdos_extended fuel disk off psize =
     err_bind (embr_loop fuel disk off off None) (\<lambda>es.
       Inr (map_option (PartitionTable PART_TYPE_MSDOS_EXTENDED off psize) es))"

datatype mbr_kind = MBR_OK | MBR_NONE | MBR_GPT

text \<open>The checks of the four slots, in their order.\<close>

fun mbr_check :: "octets list \<Rightarrow> mbr_kind" where
  "mbr_check [] = MBR_OK"
| "mbr_check (slot # slots) =
     (if slot ! 0 \<noteq> 0 \<and> slot ! 0 \<noteq> 0x80 then MBR_NONE
      else if slot ! 4 = 0xee then MBR_GPT
      else mbr_check slots)"

definition msdos_entry :: "nat \<Rightarrow> octets \<Rightarrow> octets \<Rightarrow> uint64 \<Rightarrow> memory_error + PartitionEntry list" where
  "msdos_entry fuel disk slot pos =
     (if slot ! 4 \<in> {0x05, 0x0f, 0x85}
      then err_bind (part_table_parse_msdos_extended fuel disk (slot_start slot) (slot_size slot)) (\<lambda>t.
             Inr (case t of None \<Rightarrow> [] | Some t \<Rightarrow> [part_entry_new (Some t) slot 16 pos]))
      else Inr [part_entry_new None slot 16 pos])"

fun msdos_entries :: "nat \<Rightarrow> octets \<Rightarrow> uint64 \<Rightarrow> octets \<Rightarrow> nat list \<Rightarrow> memory_error + PartitionEntry list" where
  "msdos_entries fuel disk off mbr [] = Inr []"
| "msdos_entries fuel disk off mbr (n # ns) =
     err_bind (msdos_entry fuel disk (msdos_slot mbr n) (off + of_nat (MSDOS_PARTTABLE_OFFSET + n * 16))) (\<lambda>es.
     err_bind (msdos_entries fuel disk off mbr ns) (\<lambda>es'. Inr (es @ es')))"

text \<open>The table, and whether a protective table for GPT was found.\<close>

definition part_table_parse_msdos :: "nat \<Rightarrow> octets \<Rightarrow> uint64 \<Rightarrow> uint64 \<Rightarrow> memory_error + (PartitionTable option \<times> bool)" where
  "part_table_parse_msdos fuel disk off psize =
     (case read_at disk off 512 of
        None \<Rightarrow> Inr (None, False)
      | Some mbr \<Rightarrow>
          if \<not> has_msdos_magic mbr then Inr (None, False)
          else (case mbr_check (map (msdos_slot mbr) [0, 1, 2, 3]) of
                  MBR_NONE \<Rightarrow> Inr (None, False)
                | MBR_GPT \<Rightarrow> Inr (None, True)
                | MBR_OK \<Rightarrow>
                    err_bind (msdos_entries fuel disk off mbr [0, 1, 2, 3]) (\<lambda>es.
                      Inr (Some (PartitionTable PART_TYPE_MSDOS off psize es), False))))"

section \<open>GPT\<close>

definition GPT_MAGIC :: octets where
  "GPT_MAGIC = [0x45, 0x46, 0x49, 0x20, 0x50, 0x41, 0x52, 0x54]"

definition GPT_PART_TYPE_GUID_EMPTY :: string where
  "GPT_PART_TYPE_GUID_EMPTY = ''00000000-0000-0000-0000-000000000000''"

text \<open>The position of an entry; the product of index and entry psize is a product of \<open>int\<close>.\<close>

definition gpt_position :: "uint64 \<Rightarrow> uint64 \<Rightarrow> int \<Rightarrow> int \<Rightarrow> memory_error + uint64" where
  "gpt_position off lba size_of_entry n =
     err_bind (check32 (n * size_of_entry)) (\<lambda>d. Inr (off + lba * 512 + word_of_int d))"

fun gpt_loop :: "nat \<Rightarrow> octets \<Rightarrow> uint64 \<Rightarrow> uint64 \<Rightarrow> int \<Rightarrow> int \<Rightarrow> memory_error + PartitionEntry list" where
  "gpt_loop 0 disk off lba size_of_entry n = Inr []"
| "gpt_loop (Suc k) disk off lba size_of_entry n =
     err_bind (gpt_position off lba size_of_entry n) (\<lambda>pos.
       case read_at disk pos 128 of
         None \<Rightarrow> Inr []
       | Some e \<Rightarrow>
           err_bind (gpt_loop k disk off lba size_of_entry (n + 1)) (\<lambda>es.
             Inr (if strcmp (get_le_guid e) GPT_PART_TYPE_GUID_EMPTY = 0 then es
                  else part_entry_new None e 128 pos # es)))"

definition part_table_parse_gpt :: "octets \<Rightarrow> uint64 \<Rightarrow> uint64 \<Rightarrow> memory_error + PartitionTable option" where
  "part_table_parse_gpt disk off psize =
     (case (read_at disk (off + 512) 8, read_at disk (off + 512 + 56) 16, read_at disk (off + 512 + 72) 8,
            read_at disk (off + 512 + 80) 4, read_at disk (off + 512 + 84) 4) of
        (Some magic, Some _, Some lba, Some num, Some sz) \<Rightarrow>
          if magic \<noteq> GPT_MAGIC then Inr None
          else err_bind (gpt_loop (nat (sint (get_le32 num))) disk off (get_le64 lba) (sint (get_le32 sz)) 0) (\<lambda>es.
                 Inr (Some (PartitionTable PART_TYPE_GPT off psize es)))
      | _ \<Rightarrow> Inr None)"

section \<open>Apple\<close>

definition MAC_MAGIC :: octets where
  "MAC_MAGIC = [0x45, 0x52]"

definition MAC_PART_MAGIC :: octets where
  "MAC_PART_MAGIC = [0x50, 0x4d]"

text \<open>
  The signature is checked on the entry read before: in the first round on the entry that gave the number
  of entries, later on the entry already added.
\<close>

fun apple_loop :: "nat \<Rightarrow> octets \<Rightarrow> uint64 \<Rightarrow> int \<Rightarrow> int \<Rightarrow> octets \<Rightarrow> memory_error + PartitionEntry list" where
  "apple_loop 0 disk off block_size n mac_part = Inr []"
| "apple_loop (Suc k) disk off block_size n mac_part =
     (if take 2 mac_part \<noteq> MAC_PART_MAGIC then Inr []
      else
        err_bind (check32 (n + 1)) (\<lambda>n1.
        err_bind (check32 (n1 * block_size)) (\<lambda>d.
          case read_at disk (off + word_of_int d) 136 of
            None \<Rightarrow> Inr []
          | Some e \<Rightarrow>
              err_bind (apple_loop k disk off block_size n1 e) (\<lambda>es.
                Inr (part_entry_new None e 136 (off + word_of_int d) # es)))))"

definition part_table_parse_apple :: "octets \<Rightarrow> uint64 \<Rightarrow> uint64 \<Rightarrow> memory_error + PartitionTable option" where
  "part_table_parse_apple disk off psize =
     (case read_at disk off 8 of
        None \<Rightarrow> Inr None
      | Some header \<Rightarrow>
          if take 2 header \<noteq> MAC_MAGIC then Inr None
          else
            let block_size = int (octets_nat (rev (take 2 (drop 2 header))))
            in case read_at disk (off + word_of_int block_size) 136 of
                 None \<Rightarrow> Inr (Some (PartitionTable PART_TYPE_APPLE off psize []))
               | Some e \<Rightarrow>
                   err_bind (apple_loop (nat (sint (get_be32 (drop 4 e)))) disk off block_size 0 e) (\<lambda>es.
                     Inr (Some (PartitionTable PART_TYPE_APPLE off psize es))))"

text \<open>The device file cannot be opened, or has no size, or has these bytes and this size.\<close>

definition part_table_load_from_disk :: "nat \<Rightarrow> (octets \<times> uint64) option \<Rightarrow> memory_error + PartitionTable option" where
  "part_table_load_from_disk fuel device =
     (case device of
        None \<Rightarrow> Inr None
      | Some (disk, psize) \<Rightarrow>
          err_bind (part_table_parse_msdos fuel disk 0 psize) (\<lambda>(p, found_gpt).
            case p of
              Some p \<Rightarrow> Inr (Some p)
            | None \<Rightarrow>
                err_bind (if found_gpt then part_table_parse_gpt disk 0 psize else Inr None) (\<lambda>p.
                  case p of
                    Some p \<Rightarrow> Inr (Some p)
                  | None \<Rightarrow> part_table_parse_apple disk 0 psize)))"

section \<open>Inspection\<close>

definition part_table_get_scheme :: "PartitionTable \<Rightarrow> PartitionScheme" where
  "part_table_get_scheme p = pt_scheme p"

definition part_table_get_num_entries :: "PartitionTable \<Rightarrow> nat" where
  "part_table_get_num_entries p = length (pt_entries p)"

definition part_table_get_offset :: "PartitionTable \<Rightarrow> uint64" where
  "part_table_get_offset p = pt_offset p"

definition part_table_get_size :: "PartitionTable \<Rightarrow> uint64" where
  "part_table_get_size p = pt_size p"

text \<open>\<open>g_slist_nth_data\<close>: a negative index becomes one behind the end.\<close>

definition nth_entry :: "PartitionTable \<Rightarrow> int \<Rightarrow> PartitionEntry option" where
  "nth_entry p n = (if 0 \<le> n \<and> nat n < length (pt_entries p) then Some (pt_entries p ! nat n) else None)"

definition part_table_entry_get_nested :: "PartitionTable \<Rightarrow> int \<Rightarrow> PartitionTable option" where
  "part_table_entry_get_nested p n = Option.bind (nth_entry p n) pe_part_table"

definition pe_read :: "PartitionEntry \<Rightarrow> nat \<Rightarrow> nat \<Rightarrow> memory_error + octets" where
  "pe_read pe i n = (if i + n \<le> length (pe_data pe) then Inr (take n (drop i (pe_data pe))) else Inl Buffer_Overrun)"

text \<open>A string within the data: its bytes up to the first null byte, which has to be there.\<close>

definition pe_string :: "PartitionEntry \<Rightarrow> nat \<Rightarrow> memory_error + string" where
  "pe_string pe i =
     (if 0 \<in> set (drop i (pe_data pe))
      then Inr (map (\<lambda>b. char_of (unat b)) (takeWhile (\<lambda>b. b \<noteq> 0) (drop i (pe_data pe))))
      else Inl Buffer_Overrun)"

definition g_strchomp :: "string \<Rightarrow> string" where
  "g_strchomp s = clear_trailing_space s"

definition hex_lower :: "nat \<Rightarrow> char" where
  "hex_lower d = ''0123456789abcdef'' ! (d mod 16)"

definition mbr_type_name :: "8 word \<Rightarrow> string" where
  "mbr_type_name t = ''0x'' @ [hex_lower (unat t div 16), hex_lower (unat t)]"

definition part_table_entry_get_type :: "PartitionTable \<Rightarrow> int \<Rightarrow> memory_error + string option" where
  "part_table_entry_get_type p n =
     (case nth_entry p n of
        None \<Rightarrow> Inr None
      | Some pe \<Rightarrow>
          err_bind
            (case pt_scheme p of
               PART_TYPE_GPT \<Rightarrow> err_bind (pe_read pe 0 16) (\<lambda>b. Inr (get_le_guid b))
             | PART_TYPE_APPLE \<Rightarrow> err_bind (pe_string pe 48) (\<lambda>s. Inr (g_strchomp s))
             | _ \<Rightarrow> err_bind (pe_read pe 4 1) (\<lambda>b. Inr (mbr_type_name (b ! 0))))
            (\<lambda>s. Inr (Some (g_strchomp s))))"

definition part_table_entry_get_uuid :: "PartitionTable \<Rightarrow> int \<Rightarrow> memory_error + string option" where
  "part_table_entry_get_uuid p n =
     (case nth_entry p n of
        None \<Rightarrow> Inr None
      | Some pe \<Rightarrow>
          (case pt_scheme p of
             PART_TYPE_GPT \<Rightarrow> err_bind (pe_read pe 16 16) (\<lambda>b. Inr (Some (g_strchomp (get_le_guid b))))
           | _ \<Rightarrow> Inr None))"

text \<open>\<open>g_utf16_to_utf8\<close> is a parameter: it has no result for malformed text.\<close>

definition part_table_entry_get_label ::
    "(octets \<Rightarrow> string option) \<Rightarrow> PartitionTable \<Rightarrow> int \<Rightarrow> memory_error + string option" where
  "part_table_entry_get_label g_utf16_to_utf8 p n =
     (case nth_entry p n of
        None \<Rightarrow> Inr None
      | Some pe \<Rightarrow>
          (case pt_scheme p of
             PART_TYPE_GPT \<Rightarrow> err_bind (pe_read pe 56 72) (\<lambda>b. Inr (map_option g_strchomp (g_utf16_to_utf8 b)))
           | PART_TYPE_APPLE \<Rightarrow> err_bind (pe_string pe 16) (\<lambda>s. Inr (Some (g_strchomp (g_strchomp s))))
           | _ \<Rightarrow> Inr None))"

text \<open>The flags of a word, by the names of its bits.\<close>

definition flags_set :: "(string \<times> 'a::len word) list \<Rightarrow> 'a word \<Rightarrow> string list" where
  "flags_set names w = map fst (filter (\<lambda>(f, b). w AND b \<noteq> 0) names)"

definition GPT_FLAGS :: "(string \<times> uint64) list" where
  "GPT_FLAGS = [(''required'', 1)]"

definition MBR_FLAGS :: "(string \<times> 8 word) list" where
  "MBR_FLAGS = [(''boot'', 0x80)]"

definition APM_FLAGS :: "(string \<times> 32 word) list" where
  "APM_FLAGS = [(''allocated'', 2), (''in_use'', 4), (''boot'', 8), (''allow_read'', 16), (''allow_write'', 32),
     (''boot_code_is_pic'', 64)]"

definition part_table_entry_get_flags :: "PartitionTable \<Rightarrow> int \<Rightarrow> memory_error + string list option" where
  "part_table_entry_get_flags p n =
     (case nth_entry p n of
        None \<Rightarrow> Inr None
      | Some pe \<Rightarrow>
          (case pt_scheme p of
             PART_TYPE_GPT \<Rightarrow> err_bind (pe_read pe 48 8) (\<lambda>b. Inr (Some (flags_set GPT_FLAGS (get_le64 b))))
           | PART_TYPE_APPLE \<Rightarrow> err_bind (pe_read pe 88 4) (\<lambda>b. Inr (Some (flags_set APM_FLAGS (get_be32 b))))
           | _ \<Rightarrow> err_bind (pe_read pe 0 1) (\<lambda>b. Inr (Some (if b ! 0 = 0x80 then [''boot''] else [])))))"

definition part_table_entry_get_offset :: "PartitionTable \<Rightarrow> int \<Rightarrow> memory_error + uint64" where
  "part_table_entry_get_offset p n =
     (case nth_entry p n of
        None \<Rightarrow> Inr (-1)
      | Some pe \<Rightarrow>
          (case pt_scheme p of
             PART_TYPE_GPT \<Rightarrow> err_bind (pe_read pe 32 8) (\<lambda>b. Inr (0x200 * get_le64 b))
           | PART_TYPE_MSDOS \<Rightarrow> err_bind (pe_read pe 8 4) (\<lambda>b. Inr (0x200 * ucast (get_le32 b)))
           | PART_TYPE_MSDOS_EXTENDED \<Rightarrow> err_bind (pe_read pe 8 4) (\<lambda>b.
               Inr (0x200 * ucast (get_le32 b) + pe_offset pe - of_nat MSDOS_PARTTABLE_OFFSET))
           | PART_TYPE_APPLE \<Rightarrow> err_bind (pe_read pe 8 4) (\<lambda>b. Inr (0x200 * ucast (get_be32 b)))))"

definition part_table_entry_get_size :: "PartitionTable \<Rightarrow> int \<Rightarrow> memory_error + uint64" where
  "part_table_entry_get_size p n =
     (case nth_entry p n of
        None \<Rightarrow> Inr (-1)
      | Some pe \<Rightarrow>
          (case pt_scheme p of
             PART_TYPE_GPT \<Rightarrow> err_bind (pe_read pe 40 8) (\<lambda>last_lba. err_bind (pe_read pe 32 8) (\<lambda>first_lba.
               Inr (0x200 * (get_le64 last_lba - get_le64 first_lba + 1))))
           | PART_TYPE_APPLE \<Rightarrow> err_bind (pe_read pe 12 4) (\<lambda>b. Inr (0x200 * ucast (get_be32 b)))
           | _ \<Rightarrow> err_bind (pe_read pe 12 4) (\<lambda>b. Inr (0x200 * ucast (get_le32 b)))))"

section \<open>The partition at an offset\<close>

text \<open>The extent of an entry, and the first entry whose extent has the offset; the end is computed in 64 bits.\<close>

definition entry_extent :: "PartitionTable \<Rightarrow> int \<Rightarrow> memory_error + (uint64 \<times> uint64)" where
  "entry_extent p n =
     err_bind (part_table_entry_get_offset p n) (\<lambda>pe_off.
     err_bind (part_table_entry_get_size p n) (\<lambda>pe_size. Inr (pe_off, pe_size)))"

definition in_extent :: "uint64 \<Rightarrow> uint64 \<times> uint64 \<Rightarrow> bool" where
  "in_extent off e \<longleftrightarrow> fst e \<le> off \<and> off < fst e + snd e"

fun find_entry :: "PartitionTable \<Rightarrow> uint64 \<Rightarrow> nat \<Rightarrow> nat \<Rightarrow> memory_error + (nat \<times> uint64) option" where
  "find_entry p off 0 n = Inr None"
| "find_entry p off (Suc k) n =
     err_bind (entry_extent p (int n)) (\<lambda>e.
       if in_extent off e then Inr (Some (n, fst e)) else find_entry p off k (Suc n))"

lemma nested_size [termination_simp]: "part_table_entry_get_nested p n = Some t \<Longrightarrow> size t < size p"
proof -
  assume "part_table_entry_get_nested p n = Some t"
  then obtain pe where pe: "nth_entry p n = Some pe" "pe_part_table pe = Some t"
    by (auto simp: part_table_entry_get_nested_def bind_eq_Some_conv)
  then have "pe \<in> set (pt_entries p)" by (auto simp: nth_entry_def split: if_splits)
  then have "size pe \<le> size_list size (pt_entries p)" by (rule size_list_estimation') simp
  moreover have "size t < size pe" using pe(2) by (cases pe) auto
  moreover have "size_list size (pt_entries p) < size p" by (cases p) simp
  ultimately show "size t < size p" by simp
qed

function part_table_find :: "PartitionTable \<Rightarrow> uint64 \<Rightarrow> memory_error + (PartitionTable \<times> int)" where
  "part_table_find p off =
     (case find_entry p off (part_table_get_num_entries p) 0 of
        Inl e \<Rightarrow> Inl e
      | Inr None \<Rightarrow> Inr (p, -1)
      | Inr (Some (n, pe_off)) \<Rightarrow>
          (case part_table_entry_get_nested p (int n) of
             None \<Rightarrow> Inr (p, int n)
           | Some t \<Rightarrow> if pe_off < off then part_table_find t off else Inr (p, int n)))"
  by pat_completeness auto
termination
  by (relation "measure (\<lambda>(p, off). size p)") (auto dest: nested_size)

declare part_table_find.simps [simp del]

end
