(* ===== verification/Hal_Part_Edit.thy ===== *)
theory Hal_Part_Edit
  imports Hal_Part
begin

text \<open>
  Changes of partition tables: \<open>part_add_partition\<close>, \<open>part_change_partition\<close>, \<open>part_del_partition\<close>
  and \<open>part_create_partition_table\<close> of \<open>partutil/partutil.c\<close>.

  All of them work through libparted, whose calls are the fields of the record \<open>libparted\<close>: each takes and
  returns the state of the machine, \<open>raw_device\<close> reads the disk in it. Pointers to objects of libparted
  are numbers, a null pointer is \<^const>\<open>None\<close>. The fields the code writes into structures of libparted
  are \<open>ped_poke\<close>. A result is the returned truth value, the output parameters, which stay unset on the
  early exits, and the new state.
\<close>

section \<open>libparted\<close>

datatype PedPartitionType = PED_PARTITION_NORMAL | PED_PARTITION_LOGICAL | PED_PARTITION_EXTENDED | PED_PARTITION_OTHER

datatype ped_field =
    GPT_Type octets
  | GPT_Hidden bool
  | DOS_System "8 word"
  | DOS_Boot bool
  | MAC_System_Name string
  | MAC_Status "32 word"

type_synonym ped_geom = "int \<times> int \<times> int"

record 's libparted =
  raw_device :: "string \<Rightarrow> 's \<Rightarrow> (octets \<times> uint64) option"
  ped_device_get :: "string \<Rightarrow> 's \<Rightarrow> 's \<times> nat option"
  ped_device_length :: "nat \<Rightarrow> 's \<Rightarrow> int"
  ped_hw_geom :: "nat \<Rightarrow> 's \<Rightarrow> ped_geom"
  ped_set_hw_geom :: "nat \<Rightarrow> ped_geom \<Rightarrow> 's \<Rightarrow> 's"
  ped_set_bios_geom :: "nat \<Rightarrow> ped_geom \<Rightarrow> 's \<Rightarrow> 's"
  ped_device_destroy :: "nat \<Rightarrow> 's \<Rightarrow> 's"
  ped_disk_new :: "nat \<Rightarrow> 's \<Rightarrow> 's \<times> nat option"
  ped_disk_type_get :: "string \<Rightarrow> 's \<Rightarrow> nat option"
  ped_disk_new_fresh :: "nat \<Rightarrow> nat \<Rightarrow> 's \<Rightarrow> 's \<times> nat option"
  ped_disk_destroy :: "nat \<Rightarrow> 's \<Rightarrow> 's"
  ped_partition_new :: "nat \<Rightarrow> PedPartitionType \<Rightarrow> uint64 \<Rightarrow> uint64 \<Rightarrow> 's \<Rightarrow> 's \<times> nat option"
  ped_disk_get_partition_by_sector :: "nat \<Rightarrow> uint64 \<Rightarrow> 's \<Rightarrow> nat option"
  ped_disk_extended_partition :: "nat \<Rightarrow> 's \<Rightarrow> nat option"
  ped_partition_type :: "nat \<Rightarrow> 's \<Rightarrow> PedPartitionType"
  ped_poke :: "nat \<Rightarrow> ped_field \<Rightarrow> 's \<Rightarrow> 's"
  ped_partition_set_name :: "nat \<Rightarrow> string \<Rightarrow> 's \<Rightarrow> 's"
  ped_partition_geom :: "nat \<Rightarrow> 's \<Rightarrow> int \<times> int"
  ped_partition_destroy :: "nat \<Rightarrow> 's \<Rightarrow> 's"
  ped_geometry_new :: "nat \<Rightarrow> uint64 \<Rightarrow> int \<Rightarrow> 's \<Rightarrow> 's \<times> nat option"
  ped_constraint_any :: "nat \<Rightarrow> 's \<Rightarrow> 's \<times> nat option"
  ped_constraint_new :: "nat option \<Rightarrow> nat option \<Rightarrow> int \<Rightarrow> int \<Rightarrow> 's \<Rightarrow> 's \<times> nat option"
  ped_constraint_destroy :: "nat option \<Rightarrow> 's \<Rightarrow> 's"
  ped_disk_add_partition :: "nat \<Rightarrow> nat \<Rightarrow> nat option \<Rightarrow> 's \<Rightarrow> 's \<times> bool"
  ped_disk_set_partition_geom :: "nat \<Rightarrow> nat \<Rightarrow> nat option \<Rightarrow> uint64 \<Rightarrow> uint64 \<Rightarrow> 's \<Rightarrow> 's \<times> bool"
  ped_disk_delete_partition :: "nat \<Rightarrow> nat \<Rightarrow> 's \<Rightarrow> 's \<times> bool"
  ped_disk_commit_to_dev :: "nat \<Rightarrow> 's \<Rightarrow> 's \<times> bool"

type_synonym 's part_result = "memory_error + (bool \<times> (uint64 \<times> uint64) option \<times> 's)"

definition close_disk :: "'s libparted \<Rightarrow> nat \<Rightarrow> nat \<Rightarrow> 's \<Rightarrow> 's" where
  "close_disk L disk device s = ped_device_destroy L device (ped_disk_destroy L disk s)"

section \<open>The checks of type, label and flags\<close>

record part_attrs =
  mbr_flags :: "8 word"
  mbr_part_type :: "8 word"
  gpt_attributes :: uint64
  apm_status :: "32 word"

fun flag_bits :: "(string \<times> 'a::len word) list \<Rightarrow> string list \<Rightarrow> 'a word \<Rightarrow> 'a word option" where
  "flag_bits names [] w = Some w"
| "flag_bits names (f # fs) w =
     (case map_of names f of None \<Rightarrow> None | Some b \<Rightarrow> flag_bits names fs (w OR b))"

text \<open>\<open>strtol\<close> with base 0: the value and what is left; without a digit that is the whole string.\<close>

definition strtol_end :: "string \<Rightarrow> int \<times> string" where
  "strtol_end s =
     (let (b, ds) = digits_of 0 (snd (parse_sign (dropWhile is_space s)));
          in_base = (\<lambda>c. case digit_value c of Some v \<Rightarrow> v < b | None \<Rightarrow> False)
      in if fst (strtol 0 s) then (clamp_long (snd (strtol 0 s)), dropWhile in_base ds) else (0, s))"

definition parse_mbr_type :: "string \<Rightarrow> 8 word option" where
  "parse_mbr_type ty = (case strtol_end ty of (v, rest) \<Rightarrow> if rest = [] then Some (word_of_int v) else None)"

definition no_attrs :: part_attrs where
  "no_attrs = \<lparr>mbr_flags = 0, mbr_part_type = 0, gpt_attributes = 0, apm_status = 0\<rparr>"

definition check_attributes ::
    "PartitionScheme \<Rightarrow> string option \<Rightarrow> string option \<Rightarrow> string list option \<Rightarrow> part_attrs option" where
  "check_attributes scheme ty label flags =
     (let fs = (case flags of None \<Rightarrow> [] | Some fs \<Rightarrow> fs)
      in case scheme of
           PART_TYPE_GPT \<Rightarrow> map_option (\<lambda>w. no_attrs\<lparr>gpt_attributes := w\<rparr>) (flag_bits GPT_FLAGS fs 0)
         | PART_TYPE_APPLE \<Rightarrow> map_option (\<lambda>w. no_attrs\<lparr>apm_status := w\<rparr>) (flag_bits APM_FLAGS fs 0)
         | _ \<Rightarrow>
             Option.bind (flag_bits MBR_FLAGS fs 0) (\<lambda>w.
             Option.bind (case ty of None \<Rightarrow> Some 0 | Some ty \<Rightarrow> parse_mbr_type ty) (\<lambda>t.
               if label \<noteq> None then None else Some (no_attrs\<lparr>mbr_flags := w, mbr_part_type := t\<rparr>))))"

definition is_extended_type :: "8 word \<Rightarrow> bool" where
  "is_extended_type t \<longleftrightarrow> t = 0x05 \<or> t = 0x85 \<or> t = 0x0f"

definition ped_type_for :: "PartitionScheme \<Rightarrow> 8 word \<Rightarrow> PedPartitionType option" where
  "ped_type_for scheme t =
     (case scheme of
        PART_TYPE_MSDOS \<Rightarrow> Some (if is_extended_type t then PED_PARTITION_EXTENDED else PED_PARTITION_NORMAL)
      | PART_TYPE_MSDOS_EXTENDED \<Rightarrow> if is_extended_type t then None else Some PED_PARTITION_LOGICAL
      | _ \<Rightarrow> Some PED_PARTITION_NORMAL)"

text \<open>What is written into the partition object of libparted.\<close>

definition set_attributes ::
    "'s libparted \<Rightarrow> PartitionScheme \<Rightarrow> part_attrs \<Rightarrow> string option \<Rightarrow> string list option \<Rightarrow> nat \<Rightarrow> 's \<Rightarrow> memory_error + 's" where
  "set_attributes L scheme a ty flags part s =
     (case scheme of
        PART_TYPE_GPT \<Rightarrow>
          err_bind (case ty of None \<Rightarrow> Inr s
                    | Some ty \<Rightarrow> err_bind (set_le_guid ty) (\<lambda>guid. Inr (ped_poke L part (GPT_Type guid) s))) (\<lambda>s.
            Inr (if flags = None then s else ped_poke L part (GPT_Hidden (gpt_attributes a AND 1 \<noteq> 0)) s))
      | PART_TYPE_APPLE \<Rightarrow>
          let s = (case ty of None \<Rightarrow> s | Some ty \<Rightarrow> ped_poke L part (MAC_System_Name (take 32 ty)) s)
          in Inr (if flags = None then s else ped_poke L part (MAC_Status (apm_status a)) s)
      | _ \<Rightarrow>
          let s = (if ty = None then s else ped_poke L part (DOS_System (mbr_part_type a)) s)
          in Inr (if flags = None then s else ped_poke L part (DOS_Boot (mbr_flags a AND 0x80 \<noteq> 0)) s))"

section \<open>Placing the partition\<close>

definition disk_geometry :: "'s libparted \<Rightarrow> nat \<Rightarrow> int \<Rightarrow> int \<Rightarrow> 's \<Rightarrow> 's" where
  "disk_geometry L device geometry_hps geometry_spt s =
     (if geometry_hps > 0 \<and> geometry_spt > 0
      then let g = (wrap32 (c_div (c_div (ped_device_length L device s) geometry_hps) geometry_spt), geometry_hps, geometry_spt)
           in ped_set_hw_geom L device g (ped_set_bios_geom L device g s)
      else s)"

definition make_constraint ::
    "'s libparted \<Rightarrow> nat \<Rightarrow> int \<Rightarrow> int \<Rightarrow> uint64 \<Rightarrow> uint64 \<Rightarrow> 's \<Rightarrow> 's \<times> nat option" where
  "make_constraint L device geometry_hps geometry_spt first_sector last_sector s =
     (if geometry_hps > 0 \<and> geometry_spt > 0 then ped_constraint_any L device s
      else if geometry_hps = -1 \<and> geometry_spt = -1
      then ped_constraint_any L device (ped_set_bios_geom L device (ped_hw_geom L device s) s)
      else
        let (s, geo_start) = ped_geometry_new L device first_sector 1 s;
            (s, geo_end) = ped_geometry_new L device last_sector 1 s
        in ped_constraint_new L geo_start geo_end 1 (ped_device_length L device s) s)"

definition part_extent :: "'s libparted \<Rightarrow> nat \<Rightarrow> 's \<Rightarrow> memory_error + (uint64 \<times> uint64)" where
  "part_extent L part s =
     (case ped_partition_geom L part s of (first, len) \<Rightarrow>
        err_bind (check64 (first * 512)) (\<lambda>a. err_bind (check64 (len * 512)) (\<lambda>b. Inr (word_of_int a, word_of_int b))))"

text \<open>
  \<open>try_change_again\<close>: the end moves up by one sector until the partition is as large as requested. Nothing
  but a failing call stops it otherwise, so that the loop runs on fuel.
\<close>

fun change_loop ::
    "'s libparted \<Rightarrow> nat \<Rightarrow> nat \<Rightarrow> nat \<Rightarrow> nat option \<Rightarrow> uint64 \<Rightarrow> uint64 \<Rightarrow> uint64 \<Rightarrow> (uint64 \<times> uint64) option \<Rightarrow> 's \<Rightarrow>
     's part_result" where
  "change_loop L 0 disk part con new_start_sector new_end_sector new_size out s = Inl Out_Of_Fuel"
| "change_loop L (Suc fuel) disk part con new_start_sector new_end_sector new_size out s =
     (case ped_disk_set_partition_geom L disk part con new_start_sector new_end_sector s of (s, ok) \<Rightarrow>
        if \<not> ok then Inr (False, out, s)
        else err_bind (part_extent L part s) (\<lambda>e.
          if snd e < new_size
          then change_loop L fuel disk part con new_start_sector (new_end_sector + 1) new_size (Some e) s
          else Inr (True, Some e, s)))"

definition place_partition ::
    "'s libparted \<Rightarrow> nat \<Rightarrow> bool \<Rightarrow> nat \<Rightarrow> nat \<Rightarrow> nat option \<Rightarrow> uint64 \<Rightarrow> uint64 \<Rightarrow> uint64 \<Rightarrow> 's \<Rightarrow> 's part_result" where
  "place_partition L fuel is_change disk part con new_start_sector new_end_sector new_size s =
     (if is_change then change_loop L fuel disk part con new_start_sector new_end_sector new_size None s
      else case ped_disk_add_partition L disk part con s of (s, ok) \<Rightarrow>
             if \<not> ok then Inr (False, None, s)
             else err_bind (part_extent L part s) (\<lambda>e. Inr (True, Some e, s)))"

definition first_sector :: "uint64 \<Rightarrow> uint64" where
  "first_sector a = a div 512"

definition last_sector :: "uint64 \<Rightarrow> uint64 \<Rightarrow> uint64" where
  "last_sector a n = (a + n) div 512 - 1"

text \<open>The partition once there is an open disk; a partition object that is not placed is destroyed.\<close>

definition edit_partition ::
    "'s libparted \<Rightarrow> nat \<Rightarrow> bool \<Rightarrow> nat \<Rightarrow> nat \<Rightarrow> nat \<Rightarrow> PartitionScheme \<Rightarrow> part_attrs \<Rightarrow> uint64 \<times> uint64 \<Rightarrow> uint64 \<times> uint64 \<Rightarrow>
     string option \<Rightarrow> string option \<Rightarrow> string list option \<Rightarrow> int \<times> int \<Rightarrow> 's \<Rightarrow> 's part_result" where
  "edit_partition L fuel is_change device disk part scheme a old new ty label flags geometry s =
     err_bind (set_attributes L scheme a ty flags part s) (\<lambda>s.
       let s = (case label of None \<Rightarrow> s | Some l \<Rightarrow> ped_partition_set_name L part l s);
           range = (if is_change then new else old);
           (s, con) = make_constraint L device (fst geometry) (snd geometry) (first_sector (fst range))
                        (last_sector (fst range) (snd range)) s
       in err_bind (place_partition L fuel is_change disk part con (first_sector (fst new))
                      (last_sector (fst new) (snd new)) (snd new) s) (\<lambda>(ok, out, s).
            if \<not> ok
            then Inr (False, out, close_disk L disk device (ped_partition_destroy L part (ped_constraint_destroy L con s)))
            else case ped_disk_commit_to_dev L disk s of (s, ok) \<Rightarrow>
                   Inr (ok, out, close_disk L disk device (ped_constraint_destroy L con s))))"

definition part_edit_disk ::
    "'s libparted \<Rightarrow> nat \<Rightarrow> bool \<Rightarrow> string \<Rightarrow> PartitionScheme \<Rightarrow> PedPartitionType \<Rightarrow> part_attrs \<Rightarrow> uint64 \<times> uint64 \<Rightarrow>
     uint64 \<times> uint64 \<Rightarrow> string option \<Rightarrow> string option \<Rightarrow> string list option \<Rightarrow> int \<times> int \<Rightarrow> 's \<Rightarrow> 's part_result" where
  "part_edit_disk L fuel is_change device_file scheme ped_type a old new ty label flags geometry s =
     (case ped_device_get L device_file s of
        (s, None) \<Rightarrow> Inr (False, None, s)
      | (s, Some device) \<Rightarrow>
          (case ped_disk_new L device (disk_geometry L device (fst geometry) (snd geometry) s) of
             (s, None) \<Rightarrow> Inr (False, None, ped_device_destroy L device s)
           | (s, Some disk) \<Rightarrow>
               (case (if is_change then (s, ped_disk_get_partition_by_sector L disk (first_sector (fst old)) s)
                      else ped_partition_new L disk ped_type (first_sector (fst old))
                             (last_sector (fst old) (snd old)) s) of
                  (s, None) \<Rightarrow> Inr (False, None, close_disk L disk device s)
                | (s, Some part) \<Rightarrow>
                    edit_partition L fuel is_change device disk part scheme a old new ty label flags geometry s)))"

text \<open>Whether the place is free, or taken when a partition is to be changed.\<close>

definition place_ok :: "PartitionTable \<Rightarrow> bool \<Rightarrow> int \<Rightarrow> memory_error + bool" where
  "place_ok p is_change container_entry =
     (if is_change then Inr (0 \<le> container_entry)
      else if container_entry < 0 then Inr True
      else err_bind (part_table_entry_get_type p container_entry) (\<lambda>part_type.
             Inr (pt_scheme p = PART_TYPE_APPLE \<and> part_type = Some ''Apple_Free'')))"

definition part_add_change_partition ::
    "'s libparted \<Rightarrow> nat \<Rightarrow> string \<Rightarrow> uint64 \<Rightarrow> uint64 \<Rightarrow> uint64 \<Rightarrow> uint64 \<Rightarrow> string option \<Rightarrow> string option \<Rightarrow>
     string list option \<Rightarrow> int \<Rightarrow> int \<Rightarrow> 's \<Rightarrow> 's part_result" where
  "part_add_change_partition L fuel device_file start psize new_start new_size ty label flags geometry_hps geometry_spt s =
     err_bind (part_table_load_from_disk fuel (raw_device L device_file s)) (\<lambda>t.
       case t of
         None \<Rightarrow> Inr (False, None, s)
       | Some p \<Rightarrow>
           err_bind (part_table_find p (start + 512)) (\<lambda>(container_p, container_entry).
           err_bind (place_ok p (psize = 0) container_entry) (\<lambda>ok.
             if \<not> ok \<or> psize \<noteq> 0 \<and> ty = None then Inr (False, None, s)
             else case check_attributes (part_table_get_scheme container_p) ty label flags of
                    None \<Rightarrow> Inr (False, None, s)
                  | Some a \<Rightarrow>
                      (case ped_type_for (part_table_get_scheme container_p) (mbr_part_type a) of
                         None \<Rightarrow> Inr (False, None, s)
                       | Some ped_type \<Rightarrow>
                           part_edit_disk L fuel (psize = 0) device_file (part_table_get_scheme container_p) ped_type a
                             (start, psize) (new_start, new_size) ty label flags (geometry_hps, geometry_spt) s))))"

definition part_add_partition ::
    "'s libparted \<Rightarrow> nat \<Rightarrow> string \<Rightarrow> uint64 \<Rightarrow> uint64 \<Rightarrow> string option \<Rightarrow> string option \<Rightarrow> string list option \<Rightarrow> int \<Rightarrow> int \<Rightarrow>
     's \<Rightarrow> 's part_result" where
  "part_add_partition L fuel device_file start psize ty label flags geometry_hps geometry_spt s =
     part_add_change_partition L fuel device_file start psize 0 0 ty label flags geometry_hps geometry_spt s"

definition part_change_partition ::
    "'s libparted \<Rightarrow> nat \<Rightarrow> string \<Rightarrow> uint64 \<Rightarrow> uint64 \<Rightarrow> uint64 \<Rightarrow> string option \<Rightarrow> string option \<Rightarrow> string list option \<Rightarrow>
     int \<Rightarrow> int \<Rightarrow> 's \<Rightarrow> 's part_result" where
  "part_change_partition L fuel device_file start new_start new_size ty label flags geometry_hps geometry_spt s =
     part_add_change_partition L fuel device_file start 0 new_start new_size ty label flags geometry_hps geometry_spt s"

section \<open>Deleting a partition, creating a table\<close>

definition names_nested :: "PartitionTable \<Rightarrow> uint64 \<Rightarrow> bool" where
  "names_nested p off \<longleftrightarrow>
     list_ex (\<lambda>n. case part_table_entry_get_nested p (int n) of
                    None \<Rightarrow> False
                  | Some nested \<Rightarrow> part_table_get_offset nested = off) [0..<part_table_get_num_entries p]"

definition delete_on_disk :: "'s libparted \<Rightarrow> nat \<Rightarrow> nat option \<Rightarrow> 's \<Rightarrow> 's \<times> bool" where
  "delete_on_disk L disk part s =
     (case part of
        None \<Rightarrow> (s, False)
      | Some part \<Rightarrow>
          if ped_partition_type L part s \<notin> {PED_PARTITION_NORMAL, PED_PARTITION_LOGICAL, PED_PARTITION_EXTENDED}
          then (s, False)
          else case ped_disk_delete_partition L disk part s of (s, ok) \<Rightarrow>
                 if ok then ped_disk_commit_to_dev L disk s else (s, False))"

definition part_del_partition :: "'s libparted \<Rightarrow> nat \<Rightarrow> string \<Rightarrow> uint64 \<Rightarrow> 's \<Rightarrow> memory_error + (bool \<times> 's)" where
  "part_del_partition L fuel device_file off s =
     err_bind (part_table_load_from_disk fuel (raw_device L device_file s)) (\<lambda>t.
       Inr (case t of
              None \<Rightarrow> (False, s)
            | Some p \<Rightarrow>
                (case ped_device_get L device_file s of
                   (s, None) \<Rightarrow> (False, s)
                 | (s, Some device) \<Rightarrow>
                     (case ped_disk_new L device s of
                        (s, None) \<Rightarrow> (False, ped_device_destroy L device s)
                      | (s, Some disk) \<Rightarrow>
                          (case delete_on_disk L disk
                                  (if names_nested p off then ped_disk_extended_partition L disk s
                                   else ped_disk_get_partition_by_sector L disk (off div 512) s) s of
                             (s, ok) \<Rightarrow> (ok, close_disk L disk device s))))))"

text \<open>An unsupported scheme leaves without destroying the device object.\<close>

definition disk_type_name :: "PartitionScheme \<Rightarrow> string option" where
  "disk_type_name scheme =
     (case scheme of
        PART_TYPE_MSDOS \<Rightarrow> Some ''msdos''
      | PART_TYPE_APPLE \<Rightarrow> Some ''mac''
      | PART_TYPE_GPT \<Rightarrow> Some ''gpt''
      | PART_TYPE_MSDOS_EXTENDED \<Rightarrow> None)"

definition part_create_partition_table :: "'s libparted \<Rightarrow> string \<Rightarrow> PartitionScheme \<Rightarrow> 's \<Rightarrow> bool \<times> 's" where
  "part_create_partition_table L device_file scheme s =
     (case ped_device_get L device_file s of
        (s, None) \<Rightarrow> (False, s)
      | (s, Some device) \<Rightarrow>
          (case Option.bind (disk_type_name scheme) (\<lambda>name. ped_disk_type_get L name s) of
             None \<Rightarrow> (False, s)
           | Some disk_type \<Rightarrow>
               (case ped_disk_new_fresh L device disk_type s of
                  (s, None) \<Rightarrow> (False, ped_device_destroy L device s)
                | (s, Some disk) \<Rightarrow>
                    (case ped_disk_commit_to_dev L disk s of (s, ok) \<Rightarrow> (ok, close_disk L disk device s)))))"

end
