(* ===== verification/Hal_Part_Laws.thy ===== *)
theory Hal_Part_Laws
  imports Hal_Part_Edit
begin

text \<open>
  Lemmas on partition tables: the shape of the tables the parsers build, the search through their entries,
  and the chain of extended boot records.
\<close>

section \<open>The shape of loaded tables\<close>

fun entry_length :: "PartitionScheme \<Rightarrow> nat" where
  "entry_length PART_TYPE_GPT = 128"
| "entry_length PART_TYPE_APPLE = 136"
| "entry_length _ = 16"

definition flat_table :: "PartitionTable \<Rightarrow> bool" where
  "flat_table p \<longleftrightarrow>
     (\<forall>pe \<in> set (pt_entries p). pe_part_table pe = None \<and> length (pe_data pe) = entry_length (pt_scheme p))"

text \<open>Only a MS-DOS table has tables in its entries, and those are flat.\<close>

definition table_ok :: "PartitionTable \<Rightarrow> bool" where
  "table_ok p \<longleftrightarrow>
     (\<forall>pe \<in> set (pt_entries p). length (pe_data pe) = entry_length (pt_scheme p) \<and>
        (\<forall>t. pe_part_table pe = Some t \<longrightarrow>
           pt_scheme p = PART_TYPE_MSDOS \<and> pt_scheme t = PART_TYPE_MSDOS_EXTENDED \<and> flat_table t))"

lemma flat_table_ok: "flat_table p \<Longrightarrow> table_ok p"
  by (auto simp: flat_table_def table_ok_def)

lemma read_at_length: "read_at disk pos n = Some b \<Longrightarrow> length b = n"
  by (auto simp: read_at_def split: if_splits)

lemma read_at_bound: "read_at disk pos n = Some b \<Longrightarrow> unat pos + n \<le> length disk"
  by (auto simp: read_at_def split: if_splits)

lemma part_entry_new_sel [simp]:
  "pe_part_table (part_entry_new t b n pos) = t" "pe_data (part_entry_new t b n pos) = take n b"
  "pe_offset (part_entry_new t b n pos) = pos"
  by (simp_all add: part_entry_new_def)

definition flat_entries :: "nat \<Rightarrow> PartitionEntry list \<Rightarrow> bool" where
  "flat_entries k es \<longleftrightarrow> (\<forall>pe \<in> set es. pe_part_table pe = None \<and> length (pe_data pe) = k)"

lemma flat_entries_simps [simp]:
  "flat_entries k []" "flat_entries k (es @ es') \<longleftrightarrow> flat_entries k es \<and> flat_entries k es'"
  "flat_entries k (pe # es) \<longleftrightarrow> pe_part_table pe = None \<and> length (pe_data pe) = k \<and> flat_entries k es"
  by (auto simp: flat_entries_def)

lemma flat_table_PartitionTable [simp]: "flat_table (PartitionTable sch off n es) \<longleftrightarrow> flat_entries (entry_length sch) es"
  by (simp add: flat_table_def flat_entries_def)

lemma slot_length: "length mbr = 512 \<Longrightarrow> n < 4 \<Longrightarrow> 16 \<le> length (msdos_slot mbr n)"
  by (simp add: msdos_slot_def MSDOS_PARTTABLE_OFFSET_def)

lemma embr_entries_flat: "length embr = 512 \<Longrightarrow> flat_entries 16 (embr_entries embr pos)"
  using slot_length [of embr 0] by (simp add: embr_entries_def)

lemma embr_loop_flat:
  "embr_loop fuel disk off nxt acc = Inr (Some es) \<Longrightarrow> (\<And>es. acc = Some es \<Longrightarrow> flat_entries 16 es) \<Longrightarrow> flat_entries 16 es"
proof (induction fuel arbitrary: nxt acc)
  case 0
  then show ?case by (subst (asm) embr_loop.simps) (simp split: if_splits)
next
  case (Suc fuel)
  show ?case
  proof (cases "nxt = 0 \<or> read_at disk nxt 512 = None \<or> \<not> has_msdos_magic (the (read_at disk nxt 512))")
    case True
    with Suc.prems show ?thesis by (subst (asm) embr_loop.simps) (auto split: if_splits option.splits)
  next
    case False
    then obtain embr where embr: "read_at disk nxt 512 = Some embr" by auto
    let ?acc = "Some ((case acc of None \<Rightarrow> [] | Some es \<Rightarrow> es) @ embr_entries embr nxt)"
    have "embr_loop fuel disk off (embr_next embr off) ?acc = Inr (Some es)"
      using Suc.prems(1) False embr by (subst (asm) embr_loop.simps) simp
    then show ?thesis
      by (rule Suc.IH) (use Suc.prems(2) embr_entries_flat [OF read_at_length [OF embr]] in \<open>auto split: option.splits\<close>)
  qed
qed

lemma msdos_extended_flat:
  assumes "part_table_parse_msdos_extended fuel disk off n = Inr (Some t)"
  shows "pt_scheme t = PART_TYPE_MSDOS_EXTENDED" and "flat_table t"
  using assms embr_loop_flat [of fuel disk off off None]
  by (auto simp: part_table_parse_msdos_extended_def)

definition msdos_entry_ok :: "PartitionEntry \<Rightarrow> bool" where
  "msdos_entry_ok pe \<longleftrightarrow> length (pe_data pe) = 16 \<and>
     (\<forall>t. pe_part_table pe = Some t \<longrightarrow> pt_scheme t = PART_TYPE_MSDOS_EXTENDED \<and> flat_table t)"

lemma msdos_entry_shape:
  "msdos_entry fuel disk slot pos = Inr es \<Longrightarrow> 16 \<le> length slot \<Longrightarrow> pe \<in> set es \<Longrightarrow> msdos_entry_ok pe"
  by (auto simp: msdos_entry_def msdos_entry_ok_def msdos_extended_flat split: if_splits option.splits)

lemma msdos_entries_shape:
  "msdos_entries fuel disk off mbr ns = Inr es \<Longrightarrow> length mbr = 512 \<Longrightarrow> (\<And>n. n \<in> set ns \<Longrightarrow> n < 4) \<Longrightarrow>
   pe \<in> set es \<Longrightarrow> msdos_entry_ok pe"
proof (induction ns arbitrary: es)
  case (Cons n ns)
  then obtain e1 e2 where
      e1: "msdos_entry fuel disk (msdos_slot mbr n) (off + of_nat (MSDOS_PARTTABLE_OFFSET + n * 16)) = Inr e1"
      and e2: "msdos_entries fuel disk off mbr ns = Inr e2" and es: "es = e1 @ e2"
    by auto
  with Cons show ?case using msdos_entry_shape [OF e1] slot_length [of mbr n] by auto
qed simp

lemma parse_msdos_cases:
  assumes "part_table_parse_msdos fuel disk off n = Inr (Some p, g)"
  obtains mbr es where "read_at disk off 512 = Some mbr" "p = PartitionTable PART_TYPE_MSDOS off n es"
    "msdos_entries fuel disk off mbr [0, 1, 2, 3] = Inr es"
  using assms unfolding part_table_parse_msdos_def
  by (simp del: msdos_entries.simps split: option.splits if_splits mbr_kind.splits) blast

lemma parse_msdos_ok:
  assumes "part_table_parse_msdos fuel disk off n = Inr (Some p, g)"
  shows "table_ok p"
  using assms
proof (rule parse_msdos_cases)
  fix mbr es
  assume mbr: "read_at disk off 512 = Some mbr" and p: "p = PartitionTable PART_TYPE_MSDOS off n es"
    and es: "msdos_entries fuel disk off mbr [0, 1, 2, 3] = Inr es"
  have "msdos_entry_ok pe" if "pe \<in> set es" for pe
    by (rule msdos_entries_shape [OF es read_at_length [OF mbr] _ that]) auto
  then show "table_ok p" by (auto simp: p table_ok_def msdos_entry_ok_def)
qed

lemma gpt_loop_flat: "gpt_loop k disk off lba sz n = Inr es \<Longrightarrow> flat_entries 128 es"
proof (induction k arbitrary: n es)
  case (Suc k)
  then show ?case using read_at_length [of disk _ 128] by (auto split: option.splits if_splits)
qed simp

lemma parse_gpt_ok: "part_table_parse_gpt disk off n = Inr (Some p) \<Longrightarrow> flat_table p"
  by (auto simp: part_table_parse_gpt_def gpt_loop_flat split: option.splits if_splits)

lemma apple_loop_flat: "apple_loop k disk off bs n mac_part = Inr es \<Longrightarrow> flat_entries 136 es"
proof (induction k arbitrary: n es mac_part)
  case (Suc k)
  then show ?case using read_at_length [of disk _ 136] by (auto split: option.splits if_splits)
qed simp

lemma parse_apple_ok: "part_table_parse_apple disk off n = Inr (Some p) \<Longrightarrow> flat_table p"
  by (auto simp: part_table_parse_apple_def Let_def apple_loop_flat split: option.splits if_splits)

lemma loaded_table_ok: "part_table_load_from_disk fuel device = Inr (Some p) \<Longrightarrow> table_ok p"
  by (auto simp: part_table_load_from_disk_def parse_msdos_ok flat_table_ok parse_gpt_ok parse_apple_ok
      split: option.splits if_splits)

lemma nested_flat: "table_ok p \<Longrightarrow> part_table_entry_get_nested p n = Some t \<Longrightarrow> flat_table t"
  by (auto simp: table_ok_def part_table_entry_get_nested_def nth_entry_def bind_eq_Some_conv split: if_splits)

lemma flat_not_nested [simp]: "flat_table p \<Longrightarrow> part_table_entry_get_nested p n = None"
  by (auto simp: flat_table_def part_table_entry_get_nested_def nth_entry_def)

section \<open>Inspection stays within the entries\<close>

lemma nth_entry_length: "table_ok p \<Longrightarrow> nth_entry p n = Some pe \<Longrightarrow> length (pe_data pe) = entry_length (pt_scheme p)"
  by (auto simp: table_ok_def nth_entry_def split: if_splits)

lemma pe_read_within: "i + n \<le> length (pe_data pe) \<Longrightarrow> pe_read pe i n = Inr (take n (drop i (pe_data pe)))"
  by (simp add: pe_read_def)

lemma entry_extent_defined:
  assumes "table_ok p"
  obtains a b where "entry_extent p n = Inr (a, b)"
proof (cases "nth_entry p n")
  case None
  with that show ?thesis
    by (simp add: entry_extent_def part_table_entry_get_offset_def part_table_entry_get_size_def)
next
  case (Some pe)
  with nth_entry_length [OF assms Some] that show ?thesis
    by (cases "pt_scheme p")
      (simp_all add: entry_extent_def part_table_entry_get_offset_def part_table_entry_get_size_def pe_read_within)
qed

section \<open>The search\<close>

text \<open>The entry covers the offset.\<close>

definition covers :: "PartitionTable \<Rightarrow> int \<Rightarrow> uint64 \<Rightarrow> bool" where
  "covers p n off \<longleftrightarrow> (case entry_extent p n of Inl e \<Rightarrow> False | Inr (a, b) \<Rightarrow> a \<le> off \<and> off < a + b)"

lemma covers_in_extent: "covers p n off \<longleftrightarrow> (case entry_extent p n of Inl e \<Rightarrow> False | Inr e \<Rightarrow> in_extent off e)"
  by (auto simp: covers_def in_extent_def split: sum.split)

lemma find_entry_none:
  "find_entry p off k n = Inr None \<Longrightarrow> n \<le> i \<Longrightarrow> i < n + k \<Longrightarrow> \<not> covers p (int i) off"
proof (induction k arbitrary: n)
  case (Suc k)
  show ?case
  proof (cases "i = n")
    case True
    with Suc.prems show ?thesis by (auto simp: covers_in_extent split: if_splits)
  next
    case False
    have "find_entry p off k (Suc n) = Inr None" using Suc.prems(1) by (auto split: if_splits)
    then show ?thesis by (rule Suc.IH) (use False Suc.prems in auto)
  qed
qed simp

lemma find_entry_some:
  "find_entry p off k n = Inr (Some (m, a)) \<Longrightarrow>
   n \<le> m \<and> m < n + k \<and> covers p (int m) off \<and> (\<exists>b. entry_extent p (int m) = Inr (a, b)) \<and>
   (\<forall>i. n \<le> i \<and> i < m \<longrightarrow> \<not> covers p (int i) off)"
proof (induction k arbitrary: n)
  case (Suc k)
  then obtain e where e: "entry_extent p (int n) = Inr e" by auto
  show ?case
  proof (cases "in_extent off e")
    case True
    with Suc.prems e show ?thesis by (cases e) (auto simp: covers_in_extent)
  next
    case False
    then have here: "\<not> covers p (int n) off" using e by (simp add: covers_in_extent)
    from False e Suc.prems have "find_entry p off k (Suc n) = Inr (Some (m, a))" by simp
    from Suc.IH [OF this] have rest: "Suc n \<le> m" "m < Suc n + k" "covers p (int m) off"
        "\<exists>b. entry_extent p (int m) = Inr (a, b)" "\<And>i. Suc n \<le> i \<Longrightarrow> i < m \<Longrightarrow> \<not> covers p (int i) off"
      by auto
    have "\<not> covers p (int i) off" if "n \<le> i" "i < m" for i
      using that here rest(5) [of i] by (cases "i = n") auto
    with rest show ?thesis by auto
  qed
qed simp

lemma find_entry_defined: "table_ok p \<Longrightarrow> \<exists>r. find_entry p off k n = Inr r"
proof (induction k arbitrary: n)
  case (Suc k)
  obtain a b where "entry_extent p (int n) = Inr (a, b)" using Suc.prems by (rule entry_extent_defined)
  with Suc show ?case by auto
qed simp

text \<open>What a search in one table settles.\<close>

definition search_result :: "PartitionTable \<Rightarrow> uint64 \<Rightarrow> int \<Rightarrow> bool" where
  "search_result t off n \<longleftrightarrow>
     (if n = -1 then \<forall>i < part_table_get_num_entries t. \<not> covers t (int i) off
      else 0 \<le> n \<and> n < int (part_table_get_num_entries t) \<and> covers t n off \<and>
           (\<forall>i. 0 \<le> i \<and> i < n \<longrightarrow> \<not> covers t i off))"

lemma search_result_here:
  "find_entry t off (part_table_get_num_entries t) 0 = Inr (Some (m, a)) \<Longrightarrow> search_result t off (int m)"
  using find_entry_some [of t off "part_table_get_num_entries t" 0 m a]
  by (auto simp: search_result_def) (metis nat_eq_iff2 nat_less_iff)

lemma search_result_none:
  "find_entry t off (part_table_get_num_entries t) 0 = Inr None \<Longrightarrow> search_result t off (-1)"
  using find_entry_none [of t off "part_table_get_num_entries t" 0] by (simp add: search_result_def)

lemma find_flat:
  assumes "flat_table t"
  shows "\<exists>n. part_table_find t off = Inr (t, n) \<and> search_result t off n"
proof -
  obtain r where r: "find_entry t off (part_table_get_num_entries t) 0 = Inr r"
    using find_entry_defined [OF flat_table_ok [OF assms]] by blast
  then show ?thesis
    using assms search_result_none [of t off] search_result_here [of t off]
    by (cases r) (auto simp: part_table_find.simps [of t])
qed

section \<open>Chains of extended boot records\<close>

definition embr_at :: "octets \<Rightarrow> uint64 \<Rightarrow> octets option" where
  "embr_at disk pos = Option.bind (read_at disk pos 512) (\<lambda>b. if has_msdos_magic b then Some b else None)"

lemma embr_loop_step:
  "nxt \<noteq> 0 \<Longrightarrow> embr_loop (Suc fuel) disk off nxt acc =
     (case embr_at disk nxt of
        None \<Rightarrow> Inr acc
      | Some e \<Rightarrow> embr_loop fuel disk off (embr_next e off) (Some ((case acc of None \<Rightarrow> [] | Some es \<Rightarrow> es) @ embr_entries e nxt)))"
  by (subst embr_loop.simps) (simp add: embr_at_def split: option.split)

lemma embr_loop_base: "embr_loop fuel disk off 0 acc = Inr acc" "nxt \<noteq> 0 \<Longrightarrow> embr_loop 0 disk off nxt acc = Inl Out_Of_Fuel"
  by (subst embr_loop.simps, simp)+

text \<open>A set of positions that the chain does not leave.\<close>

definition closed_chain :: "octets \<Rightarrow> uint64 \<Rightarrow> uint64 set \<Rightarrow> bool" where
  "closed_chain disk off S \<longleftrightarrow>
     (\<forall>pos \<in> S. pos \<noteq> 0 \<and> (case embr_at disk pos of None \<Rightarrow> False | Some e \<Rightarrow> embr_next e off \<in> S))"

lemma closed_chain_loop:
  "closed_chain disk off S \<Longrightarrow> nxt \<in> S \<Longrightarrow> embr_loop fuel disk off nxt acc = Inl Out_Of_Fuel"
proof (induction fuel arbitrary: nxt acc)
  case 0
  then show ?case by (auto simp: closed_chain_def embr_loop_base)
next
  case (Suc fuel)
  from Suc.prems obtain e where "nxt \<noteq> 0" "embr_at disk nxt = Some e" "embr_next e off \<in> S"
    by (fastforce simp: closed_chain_def split: option.splits)
  with Suc.IH [OF Suc.prems(1)] show ?case by (simp add: embr_loop_step)
qed

text \<open>The positions the chain gets to from its start.\<close>

inductive on_chain :: "octets \<Rightarrow> uint64 \<Rightarrow> uint64 \<Rightarrow> bool" for disk off where
  chain_start: "on_chain disk off off"
| chain_next: "on_chain disk off pos \<Longrightarrow> pos \<noteq> 0 \<Longrightarrow> embr_at disk pos = Some e \<Longrightarrow> on_chain disk off (embr_next e off)"

definition ascending_chain :: "octets \<Rightarrow> uint64 \<Rightarrow> bool" where
  "ascending_chain disk off \<longleftrightarrow>
     (\<forall>pos e. on_chain disk off pos \<and> pos \<noteq> 0 \<and> embr_at disk pos = Some e \<longrightarrow> embr_next e off = 0 \<or> pos < embr_next e off)"

lemma embr_at_bound: "embr_at disk pos = Some e \<Longrightarrow> unat pos + 512 \<le> length disk"
  by (auto simp: embr_at_def bind_eq_Some_conv dest: read_at_bound)

lemma ascending_chain_loop:
  "ascending_chain disk off \<Longrightarrow> on_chain disk off nxt \<Longrightarrow> length disk - unat nxt < fuel \<Longrightarrow>
   no_fuel_error (embr_loop fuel disk off nxt acc)"
proof (induction fuel arbitrary: nxt acc)
  case (Suc fuel)
  show ?case
  proof (cases "nxt = 0 \<or> embr_at disk nxt = None")
    case True
    then show ?thesis by (cases "nxt = 0") (simp_all add: embr_loop_base embr_loop_step)
  next
    case False
    then obtain e where e: "nxt \<noteq> 0" "embr_at disk nxt = Some e" by auto
    let ?n = "embr_next e off"
    have "?n = 0 \<or> length disk - unat ?n < fuel"
    proof (cases "?n = 0")
      case False
      then have "unat nxt < unat ?n"
        using Suc.prems(1,2) e by (auto simp: ascending_chain_def word_less_nat_alt)
      with embr_at_bound [OF e(2)] Suc.prems(3) show ?thesis by auto
    qed simp
    with Suc.IH [OF Suc.prems(1) chain_next [OF Suc.prems(2) e]] e show ?thesis
      by (auto simp: embr_loop_step embr_loop_base)
  qed
qed simp

lemma embr_loop_error: "embr_loop fuel disk off nxt acc = Inl e \<Longrightarrow> e = Out_Of_Fuel"
proof (induction fuel arbitrary: nxt acc)
  case 0
  then show ?case by (cases "nxt = 0") (auto simp: embr_loop_base)
next
  case (Suc fuel)
  then show ?case by (cases "nxt = 0") (auto simp: embr_loop_base embr_loop_step split: option.splits)
qed

lemma msdos_entry_error: "msdos_entry fuel disk slot pos = Inl e \<Longrightarrow> e = Out_Of_Fuel"
  by (auto simp: msdos_entry_def part_table_parse_msdos_extended_def err_bind_Inl embr_loop_error split: if_splits)

definition extended_slot :: "octets \<Rightarrow> bool" where
  "extended_slot slot \<longleftrightarrow> slot ! 4 \<in> {0x05, 0x0f, 0x85}"

lemma msdos_entries_hang:
  assumes "n \<in> set ns" "extended_slot (msdos_slot mbr n)" "closed_chain disk (slot_start (msdos_slot mbr n)) S"
    "slot_start (msdos_slot mbr n) \<in> S"
  shows "msdos_entries fuel disk off mbr ns = Inl Out_Of_Fuel"
  using assms(1)
proof (induction ns)
  case (Cons k ns)
  let ?e = "msdos_entry fuel disk (msdos_slot mbr k) (off + of_nat (MSDOS_PARTTABLE_OFFSET + k * 16))"
  show ?case
  proof (cases ?e)
    case (Inl e)
    then show ?thesis using msdos_entry_error [OF Inl] by simp
  next
    case (Inr es)
    have "k \<noteq> n"
    proof
      assume "k = n"
      with assms closed_chain_loop [OF assms(3,4), of fuel None] Inr show False
        by (simp add: msdos_entry_def extended_slot_def part_table_parse_msdos_extended_def)
    qed
    with Cons Inr show ?thesis by simp
  qed
qed simp

lemma msdos_entries_end:
  assumes "\<And>n. n \<in> set ns \<Longrightarrow> extended_slot (msdos_slot mbr n) \<Longrightarrow> ascending_chain disk (slot_start (msdos_slot mbr n))"
    and "length disk < fuel"
  shows "\<exists>es. msdos_entries fuel disk off mbr ns = Inr es"
  using assms(1)
proof (induction ns)
  case (Cons k ns)
  have "no_fuel_error (msdos_entry fuel disk (msdos_slot mbr k) pos)" for pos
    using Cons.prems [of k] ascending_chain_loop [of disk "slot_start (msdos_slot mbr k)" _ fuel] chain_start assms(2)
    by (auto simp: msdos_entry_def extended_slot_def part_table_parse_msdos_extended_def intro!: no_fuel_error_bind)
  then have "\<exists>es. msdos_entry fuel disk (msdos_slot mbr k) pos = Inr es" for pos
    using msdos_entry_error [of fuel disk "msdos_slot mbr k" pos]
    by (cases "msdos_entry fuel disk (msdos_slot mbr k) pos") (auto simp: no_fuel_error_def)
  with Cons show ?case by fastforce
qed simp

lemma load_msdos:
  assumes "read_at disk 0 512 = Some mbr" and "has_msdos_magic mbr"
    and "mbr_check (map (msdos_slot mbr) [0, 1, 2, 3]) = MBR_OK"
  shows "part_table_load_from_disk fuel (Some (disk, psize)) =
    err_bind (msdos_entries fuel disk 0 mbr [0, 1, 2, 3]) (\<lambda>es. Inr (Some (PartitionTable PART_TYPE_MSDOS 0 psize es)))"
  using assms unfolding part_table_load_from_disk_def part_table_parse_msdos_def
  by (cases "msdos_entries fuel disk 0 mbr [0, 1, 2, 3]")
    (simp_all del: msdos_entries.simps list.map mbr_check.simps One_nat_def)

end
