(* ===== verification/Hal_Part_Guid.thy ===== *)
theory Hal_Part_Guid
  imports Hal_Part_Laws
begin

text \<open>
  Numbers on disk and in names: little-endian byte lists, hexadecimal digits as they are printed and scanned,
  GUIDs, the type names of MS-DOS partitions and the names of flags.
\<close>

section \<open>Little-endian numbers\<close>

lemma byte_less: "unat (b :: 8 word) < 256"
proof -
  have "unat b < 2 ^ LENGTH(8)" by (rule unsigned_less)
  then show ?thesis by simp
qed

lemma word_lengths: "unat (a :: 16 word) < 16 ^ 4" "unat (b :: 32 word) < 16 ^ 8"
proof -
  have "unat a < 2 ^ LENGTH(16)" "unat b < 2 ^ LENGTH(32)" by (rule unsigned_less)+
  then show "unat a < 16 ^ 4" "unat b < 16 ^ 8" by simp_all
qed

lemma octets_nat_less: "octets_nat bs < 256 ^ length bs"
proof (induction bs)
  case (Cons b bs)
  from Cons byte_less [of b] show ?case by simp
qed simp

lemma nat_octets_Suc: "nat_octets (Suc k) v = of_nat v # nat_octets k (v div 256)"
  by (rule nth_equalityI) (auto simp: nat_octets_def nth_Cons div_mult2_eq split: nat.split simp del: upt_Suc)

lemma length_nat_octets [simp]: "length (nat_octets k v) = k"
  by (simp add: nat_octets_def)

lemma octets_nat_nat_octets: "octets_nat (nat_octets k v) = v mod 256 ^ k"
proof (induction k arbitrary: v)
  case (Suc k)
  have "unat (of_nat v :: 8 word) = v mod 256" by (simp add: unat_of_nat)
  with Suc show ?case by (simp add: nat_octets_Suc mod_mult2_eq)
qed (simp add: nat_octets_def)

lemma of_nat_nat_octets32: "(of_nat (octets_nat (nat_octets 4 v)) :: 32 word) = of_nat v"
  by (simp add: octets_nat_nat_octets word_of_nat_eq_iff take_bit_eq_mod)

lemma octets_nat_zeros [simp]: "octets_nat (replicate k 0) = 0"
  by (induction k) auto

lemma word_256: "(256 :: 8 word) = 0"
  by code_simp

lemma nat_octets_octets_nat: "nat_octets (length bs) (octets_nat bs) = bs"
proof (induction bs)
  case (Cons b bs)
  have d: "(unat b + 256 * octets_nat bs) div 256 = octets_nat bs" using byte_less [of b] by simp
  have "of_nat (unat b + 256 * octets_nat bs) = (b :: 8 word)" 
    by (simp add: word_256)
  with Cons d show ?case by (simp add: nat_octets_Suc)
qed (simp add: nat_octets_def)

lemma unat_octets_nat:
  assumes "length bs = n" and "256 ^ n = (2::nat) ^ LENGTH('a::len)"
  shows "unat (of_nat (octets_nat bs) :: 'a word) = octets_nat bs"
  using octets_nat_less [of bs] assms by (simp add: unat_of_nat)

section \<open>Hexadecimal digits\<close>

lemma hex_upper_chars:
  "\<forall>d \<in> set [0..<16]. digit_value (hex_upper d) = Some (int d) \<and> \<not> is_space (hex_upper d) \<and>
     hex_upper d \<notin> {CHR ''-'', CHR ''+'', CHR ''x'', CHR ''X''}"
  by code_simp

lemma hex_upper_mod: "hex_upper (d mod 16) = hex_upper d"
  by (simp add: hex_upper_def)

lemma hex_upper_char:
  "digit_value (hex_upper d) = Some (int (d mod 16))" "\<not> is_space (hex_upper d)"
  "hex_upper d \<notin> {CHR ''-'', CHR ''+'', CHR ''x'', CHR ''X''}"
  using hex_upper_chars [THEN bspec, of "d mod 16"] unfolding hex_upper_mod by simp_all

lemma hex_upper_is_hex [simp]: "is_hex (hex_upper d)"
  by (simp add: is_hex_def hex_upper_char)

lemma hex_fixed_chars: "c \<in> set (hex_fixed k v) \<Longrightarrow> \<exists>d. c = hex_upper d"
  by (induction k v rule: hex_fixed.induct) auto

lemma length_hex_fixed [simp]: "length (hex_fixed k v) = k"
  by (induction k v rule: hex_fixed.induct) auto

lemma parse_digits_hex:
  "list_all is_hex s \<Longrightarrow> parse_digits 16 acc (s @ t) = parse_digits 16 (parse_digits 16 acc s) t"
  by (induction s arbitrary: acc) (auto simp: is_hex_def split: option.splits)

lemma hex_fixed_all [simp]: "list_all is_hex (hex_fixed k v)"
  by (induction k v rule: hex_fixed.induct) auto

lemma parse_hex_fixed: "parse_digits 16 0 (hex_fixed k v) = int (v mod 16 ^ k)"
proof (induction k v rule: hex_fixed.induct)
  case (2 k v)
  have "v mod 16 ^ Suc k = 16 * (v div 16 mod 16 ^ k) + v mod 16" by (simp add: mod_mult2_eq)
  with 2 show ?case by (simp add: parse_digits_hex hex_upper_char)
qed simp

text \<open>What the scanner meets at the start of a printed number.\<close>

lemma hex_fixed_front:
  assumes "2 \<le> k"
  shows "dropWhile is_space (hex_fixed k v @ r) = hex_fixed k v @ r"
    and "parse_sign (hex_fixed k v @ r) = (False, hex_fixed k v @ r)" and "\<not> zero_x (hex_fixed k v @ r)"
proof -
  obtain c d cs where cs: "hex_fixed k v = c # d # cs"
    using assms by (cases "hex_fixed k v"; cases "tl (hex_fixed k v)") (auto dest: arg_cong [of _ _ length])
  obtain i j where "c = hex_upper i" "d = hex_upper j" using hex_fixed_chars [of _ k v] by (metis cs list.set_intros)
  then show "dropWhile is_space (hex_fixed k v @ r) = hex_fixed k v @ r"
    and "parse_sign (hex_fixed k v @ r) = (False, hex_fixed k v @ r)" and "\<not> zero_x (hex_fixed k v @ r)"
    using hex_upper_char by (auto simp: cs zero_x_def)
qed

lemma takeWhile_hex_fixed: "takeWhile is_hex (hex_fixed k v @ r) = hex_fixed k v @ takeWhile is_hex r"
  using hex_fixed_all [of k v] by (simp add: takeWhile_append2 list_all_iff)

lemma scan_hex_open:
  assumes "2 \<le> k" "k \<le> 16" "v < 16 ^ k" "r = [] \<or> \<not> is_hex (hd r)"
  shows "scan_hex None (hex_fixed k v @ r) = Some (int v, r)"
proof -
  have "takeWhile is_hex r = []" using assms(4) by (cases r) auto
  moreover have "(16::nat) ^ k \<le> 16 ^ 16" using assms(2) by (rule power_increasing) simp
  then have "int v \<le> 2 ^ 64 - 1" using assms(3) by simp
  moreover have "hex_fixed k v \<noteq> []" using assms(1) by (auto dest: arg_cong [of _ _ length])
  ultimately show ?thesis
    using assms(1,3) by (simp add: scan_hex_def hex_fixed_front takeWhile_hex_fixed parse_hex_fixed)
qed

lemma scan_hex_byte:
  assumes "v < 256"
  shows "scan_hex (Some 2) (hex_fixed 2 v @ r) = Some (int v, r)"
proof -
  define w where "w = hex_fixed 2 v"
  have w: "length w = 2" "dropWhile is_space (w @ r) = w @ r" "parse_sign w = (False, w)" "\<not> zero_x w"
      "takeWhile is_hex w = w" "parse_digits 16 0 w = int v"
    using assms hex_fixed_front [of 2 v r] hex_fixed_front [of 2 v "[]"] takeWhile_hex_fixed [of 2 v "[]"]
      parse_hex_fixed [of 2 v]
    by (simp_all add: w_def del: hex_fixed.simps)
  then have "w \<noteq> []" by auto
  with w assms show ?thesis unfolding w_def [symmetric] by (simp add: scan_hex_def Let_def del: takeWhile_eq_all_conv)
qed

section \<open>GUIDs, types and flags\<close>

lemma scan_bytes_printed:
  "scan_bytes (length bs) (concat (map (\<lambda>b. hex_fixed 2 (unat b)) bs) @ r) = Some (bs, r)"
  by (induction bs) (simp_all add: scan_hex_byte byte_less del: hex_fixed.simps)

lemma scan_field:
  "2 \<le> k \<Longrightarrow> k \<le> 16 \<Longrightarrow> v < 16 ^ k \<Longrightarrow> scan_hex None (hex_fixed k v @ CHR ''-'' # r) = Some (int v, CHR ''-'' # r)"
  by (rule scan_hex_open) (auto simp: is_hex_def digit_value_def)

lemma set_le_guid_printed:
  fixes w1 :: "32 word" and w2 w3 :: "16 word"
  assumes "length b1 = 2" "length b2 = 6"
  shows "set_le_guid (hex_fixed 8 (unat w1) @ ''-'' @ hex_fixed 4 (unat w2) @ ''-'' @ hex_fixed 4 (unat w3) @ ''-'' @
      concat (map (\<lambda>b. hex_fixed 2 (unat b)) b1) @ ''-'' @ concat (map (\<lambda>b. hex_fixed 2 (unat b)) b2)) =
    Inr (nat_octets 4 (unat w1) @ nat_octets 2 (unat w2) @ nat_octets 2 (unat w3) @ b1 @ b2)"
proof -
  have "scan_bytes 2 (concat (map (\<lambda>b. hex_fixed 2 (unat b)) b1) @ r) = Some (b1, r)" for r
    using scan_bytes_printed [of b1 r] by (simp only: assms)
  moreover have "scan_bytes 6 (concat (map (\<lambda>b. hex_fixed 2 (unat b)) b2)) = Some (b2, [])"
    using scan_bytes_printed [of b2 "[]"] by (simp only: assms append_Nil2)
  ultimately show ?thesis
    unfolding set_le_guid_def by (simp add: scan_field word_lengths [simplified] del: hex_fixed.simps)
qed

lemma drop_nths: "length buf = 16 \<Longrightarrow> drop 8 buf = map ((!) buf) [8, 9, 10, 11, 12, 13, 14, 15]"
  by (rule nth_equalityI) (auto simp: nth_Cons' less_Suc_eq numeral_eq_Suc)

lemma guid_parts:
  assumes "length buf = 16"
  shows "nat_octets 4 (unat (get_le32 buf)) = take 4 buf"
    and "nat_octets 2 (unat (get_le16 (drop 4 buf))) = take 2 (drop 4 buf)"
    and "nat_octets 2 (unat (get_le16 (drop 6 buf))) = take 2 (drop 6 buf)"
    and "map ((!) buf) [8, 9] @ map ((!) buf) [10, 11, 12, 13, 14, 15] = drop 8 buf"
  using assms nat_octets_octets_nat [of "take 4 buf"] nat_octets_octets_nat [of "take 2 (drop 4 buf)"]
    nat_octets_octets_nat [of "take 2 (drop 6 buf)"]
  by (simp_all add: get_le32_def get_le16_def unat_octets_nat drop_nths)

lemma guid_joined: "length buf = 16 \<Longrightarrow> take 4 buf @ take 2 (drop 4 buf) @ take 2 (drop 6 buf) @ drop 8 buf = buf"
  using append_take_drop_id [of 4 buf] append_take_drop_id [of 2 "drop 4 buf"] append_take_drop_id [of 2 "drop 6 buf"]
  by simp

text \<open>\<open>flag_bits\<close> reads the names \<open>flags_set\<close> reports.\<close>

lemma flag_bits_acc:
  "distinct (map fst names) \<Longrightarrow> set fs \<subseteq> set names \<Longrightarrow>
   flag_bits names (map fst fs) w = Some (fold (\<lambda>f v. v OR snd f) fs w)"
  by (induction fs arbitrary: w) auto

lemma hex_lower_values: "\<forall>d \<in> set [0..<16]. digit_value (hex_lower d) = Some (int d)"
  by code_simp

lemma hex_lower_value: "digit_value (hex_lower d) = Some (int (d mod 16))"
  using hex_lower_values [THEN bspec, of "d mod 16"] by (simp add: hex_lower_def)

lemma parse_mbr_type_name: "parse_mbr_type (mbr_type_name t) = Some t"
proof -
  let ?c = "hex_lower (unat t div 16)" and ?d = "hex_lower (unat t)"
  have hi: "unat t div 16 mod 16 = unat t div 16" using byte_less [of t] by simp
  have hi': "unat t div 16 < 16" by (rule less_mult_imp_div_less) (use byte_less [of t] in simp)
  have v: "int (unat t div 16) * 16 + int (unat t mod 16) = int (unat t)"
    by (metis div_mult_mod_eq of_nat_add of_nat_mult of_nat_numeral)
  have "uint t < 2 ^ LENGTH(8)" by (rule unsigned_less)
  moreover have "0 \<le> uint t" by (rule unsigned_greater_eq)
  then have "- 9223372036854775808 \<le> uint t" by (rule order_trans [rotated]) simp
  ultimately have clamp: "clamp_long (uint t) = uint t" by (simp add: clamp_long_def max_def min_def)
  have "digits_of 0 (mbr_type_name t) = (16, [?c, ?d])"
    by (simp add: digits_of_def hex_prefix_def mbr_type_name_def hex_lower_value)
  moreover have "dropWhile is_space (mbr_type_name t) = mbr_type_name t"
      "parse_sign (mbr_type_name t) = (False, mbr_type_name t)"
    by (simp_all add: mbr_type_name_def is_space_def)
  ultimately show ?thesis
    by (simp add: parse_mbr_type_def strtol_end_def strtol_def Let_def hex_lower_value hi hi' v clamp)
qed

end
