(* ===== verification/Hal_Part_Props.thy ===== *)
theory Hal_Part_Props
  imports Hal_Part_Guid
begin

text \<open>
  Properties of partition tables: what a loaded table allows, what the search finds, which disks can be loaded,
  the round trip of GUIDs, and the changes through libparted.
\<close>

section \<open>Example disks\<close>

definition demo_slot :: "8 word \<Rightarrow> 8 word \<Rightarrow> nat \<Rightarrow> nat \<Rightarrow> octets" where
  "demo_slot boot ty start n = [boot, 0, 0, 0, ty, 0, 0, 0] @ nat_octets 4 start @ nat_octets 4 n"

definition demo_sector :: "octets \<Rightarrow> octets \<Rightarrow> octets" where
  "demo_sector a b = replicate 446 0 @ a @ b @ replicate 32 0 @ [0x55, 0xaa]"

text \<open>A primary partition and an extended one with one logical partition, on six sectors.\<close>

definition demo_disk :: octets where
  "demo_disk = demo_sector (demo_slot 0x80 0x83 1 1) (demo_slot 0 0x05 2 4) @ replicate 512 0 @
     demo_sector (demo_slot 0 0x83 1 2) (replicate 16 0) @ replicate 1536 0"

text \<open>The second record of the chain leads to itself.\<close>

definition demo_cyclic_disk :: octets where
  "demo_cyclic_disk = demo_sector (demo_slot 0 0x05 1 2) (replicate 16 0) @
     demo_sector (replicate 16 0) (demo_slot 0 0x05 1 1) @ demo_sector (replicate 16 0) (demo_slot 0 0x05 1 1)"

lemma demo_slot_length [simp]: "length (demo_slot boot ty start n) = 16"
  by (simp add: demo_slot_def)

lemma demo_sector_facts:
  assumes "length a = 16" "length b = 16"
  shows "length (demo_sector a b) = 512" "has_msdos_magic (demo_sector a b)"
    "msdos_slot (demo_sector a b) 0 = a @ b @ replicate 32 0 @ [0x55, 0xaa]"
    "msdos_slot (demo_sector a b) 1 = b @ replicate 32 0 @ [0x55, 0xaa]"
    "msdos_slot (demo_sector a b) 2 = replicate 32 0 @ [0x55, 0xaa]"
    "msdos_slot (demo_sector a b) 3 = replicate 16 0 @ [0x55, 0xaa]"
  using assms by (simp_all add: demo_sector_def has_msdos_magic_def msdos_slot_def MSDOS_PARTTABLE_OFFSET_def)

lemma demo_slot_facts:
  "slot_start (demo_slot boot ty start n @ r) = 0x200 * ucast (of_nat start :: 32 word)"
  "slot_size (demo_slot boot ty start n @ r) = 0x200 * ucast (of_nat n :: 32 word)"
  "(demo_slot boot ty start n @ r) ! 4 = ty" "(demo_slot boot ty start n @ r) ! 0 = boot"
  by (simp_all add: slot_start_def slot_size_def demo_slot_def get_le32_def of_nat_nat_octets32)

lemma demo_cyclic:
  "read_at demo_cyclic_disk 0 512 = Some (demo_sector (demo_slot 0 0x05 1 2) (replicate 16 0))"
  "closed_chain demo_cyclic_disk 512 {512, 1024}"
  by (simp_all add: demo_cyclic_disk_def read_at_def demo_sector_facts closed_chain_def embr_at_def embr_next_def
      demo_slot_facts del: One_nat_def)

lemma demo_mbr:
  "read_at demo_disk 0 512 = Some (demo_sector (demo_slot 0x80 0x83 1 1) (demo_slot 0 0x05 2 4))"
  "embr_at demo_disk 1024 = Some (demo_sector (demo_slot 0 0x83 1 2) (replicate 16 0))"
  by (simp_all add: demo_disk_def read_at_def demo_sector_facts embr_at_def del: One_nat_def)

lemma demo_disk_length: "length demo_disk = 3072"
  by (simp add: demo_disk_def demo_sector_facts del: One_nat_def)

lemma demo_chain: "on_chain demo_disk 1024 pos \<Longrightarrow> pos = 1024 \<or> pos = 0"
proof (induction rule: on_chain.induct)
  case (chain_next pos e)
  then have "e = demo_sector (demo_slot 0 0x83 1 2) (replicate 16 0)" by (auto simp: demo_mbr)
  then show ?case by (simp add: embr_next_def demo_sector_facts slot_size_def get_le32_def del: One_nat_def)
qed simp

lemma demo_ascending: "ascending_chain demo_disk 1024"
  unfolding ascending_chain_def
proof (intro allI impI, elim conjE)
  fix pos e
  assume "on_chain demo_disk 1024 pos" "pos \<noteq> 0" "embr_at demo_disk pos = Some e"
  then have "e = demo_sector (demo_slot 0 0x83 1 2) (replicate 16 0)" using demo_chain [of pos] by (auto simp: demo_mbr)
  then show "embr_next e 1024 = 0 \<or> pos < embr_next e 1024"
    by (simp add: embr_next_def demo_sector_facts slot_size_def get_le32_def del: One_nat_def)
qed

lemma zero_slot: "5 \<le> k \<Longrightarrow> (replicate k 0 @ r) ! 0 = (0 :: 8 word)" "5 \<le> k \<Longrightarrow> (replicate k 0 @ r) ! 4 = (0 :: 8 word)"
  by (simp_all add: nth_append)

section \<open>Loading\<close>

lemma demo_mbr_slots:
  "mbr_check (map (msdos_slot (demo_sector (demo_slot 0x80 0x83 1 1) (demo_slot 0 0x05 2 4))) [0, 1, 2, 3]) = MBR_OK"
  "n < 4 \<Longrightarrow> extended_slot (msdos_slot (demo_sector (demo_slot 0x80 0x83 1 1) (demo_slot 0 0x05 2 4)) n) \<Longrightarrow>
   slot_start (msdos_slot (demo_sector (demo_slot 0x80 0x83 1 1) (demo_slot 0 0x05 2 4)) n) = 1024"
proof -
  show "mbr_check (map (msdos_slot (demo_sector (demo_slot 0x80 0x83 1 1) (demo_slot 0 0x05 2 4))) [0, 1, 2, 3]) = MBR_OK"
    by (simp add: demo_sector_facts demo_slot_facts zero_slot del: One_nat_def)
  assume "n < 4" "extended_slot (msdos_slot (demo_sector (demo_slot 0x80 0x83 1 1) (demo_slot 0 0x05 2 4)) n)"
  moreover from \<open>n < 4\<close> have "n = 0 \<or> n = 1 \<or> n = 2 \<or> n = 3" by linarith
  ultimately show "slot_start (msdos_slot (demo_sector (demo_slot 0x80 0x83 1 1) (demo_slot 0 0x05 2 4)) n) = 1024"
    by (elim disjE) (simp_all add: demo_sector_facts demo_slot_facts zero_slot extended_slot_def del: One_nat_def)
qed

lemma load_ascending:
  assumes "read_at disk 0 512 = Some mbr" and "has_msdos_magic mbr"
    and "mbr_check (map (msdos_slot mbr) [0, 1, 2, 3]) = MBR_OK"
    and "\<And>n. n < 4 \<Longrightarrow> extended_slot (msdos_slot mbr n) \<Longrightarrow> ascending_chain disk (slot_start (msdos_slot mbr n))"
    and "length disk < fuel"
  shows "\<exists>es. part_table_load_from_disk fuel (Some (disk, psize)) = Inr (Some (PartitionTable PART_TYPE_MSDOS 0 psize es))"
proof -
  have "\<exists>es. msdos_entries fuel disk 0 mbr [0, 1, 2, 3] = Inr es"
    by (rule msdos_entries_end [OF _ assms(5)]) (use assms(4) in auto)
  then show ?thesis
    by (auto simp only: load_msdos [OF assms(1-3)] err_bind.simps)
qed

lemma ascending_chains_load_demo: "\<exists>p. part_table_load_from_disk 3073 (Some (demo_disk, 3072)) = Inr (Some p)"
proof -
  have "\<exists>es. part_table_load_from_disk 3073 (Some (demo_disk, 3072)) = Inr (Some (PartitionTable PART_TYPE_MSDOS 0 3072 es))"
    by (rule load_ascending [OF demo_mbr(1) _ demo_mbr_slots(1)])
      (simp_all add: demo_sector_facts(2) demo_mbr_slots(2) demo_ascending demo_disk_length del: One_nat_def)
  then show ?thesis by blast
qed

text \<open>C20: a disk with a MS-DOS partition table is loaded when the chain of extended boot records of each of
  its extended slots leads upwards: the number of bytes of the disk bounds the rounds of the loop.
\<close>

theorem ascending_chains_load:
  assumes "read_at disk 0 512 = Some mbr" and "has_msdos_magic mbr"
    and "mbr_check (map (msdos_slot mbr) [0, 1, 2, 3]) = MBR_OK"
    and "\<And>n. n < 4 \<Longrightarrow> extended_slot (msdos_slot mbr n) \<Longrightarrow> ascending_chain disk (slot_start (msdos_slot mbr n))"
    and "length disk < fuel"
  shows "\<exists>es. part_table_load_from_disk fuel (Some (disk, psize)) = Inr (Some (PartitionTable PART_TYPE_MSDOS 0 psize es))"
  using assms by (rule load_ascending)

theorem ascending_chains_load_witness:
  "\<exists>es. part_table_load_from_disk 3073 (Some (demo_disk, 3072)) = Inr (Some (PartitionTable PART_TYPE_MSDOS 0 3072 es))"
  by (rule ascending_chains_load [OF demo_mbr(1) _ demo_mbr_slots(1)])
    (simp_all add: demo_sector_facts(2) demo_mbr_slots(2) demo_ascending demo_disk_length del: One_nat_def)

text \<open>C19: a disk can be made so that loading it never ends: it is enough that the chain of extended boot
  records of one extended slot stays within a set of positions that all hold records.
\<close>

theorem cyclic_chain_never_loads:
  assumes "read_at disk 0 512 = Some mbr" and "has_msdos_magic mbr"
    and "mbr_check (map (msdos_slot mbr) [0, 1, 2, 3]) = MBR_OK"
    and "n < 4" and "extended_slot (msdos_slot mbr n)"
    and "closed_chain disk (slot_start (msdos_slot mbr n)) S" and "slot_start (msdos_slot mbr n) \<in> S"
  shows "part_table_load_from_disk fuel (Some (disk, psize)) = Inl Out_Of_Fuel"
proof -
  have "msdos_entries fuel disk 0 mbr [0, 1, 2, 3] = Inl Out_Of_Fuel"
    by (rule msdos_entries_hang [OF _ assms(5-7)]) (use assms(4) in auto)
  then show ?thesis
    by (simp only: load_msdos [OF assms(1-3)] err_bind.simps)
qed

theorem cyclic_chain_never_loads_witness:
  "\<forall>fuel. part_table_load_from_disk fuel (Some (demo_cyclic_disk, 1536)) = Inl Out_Of_Fuel"
  using cyclic_chain_never_loads [OF demo_cyclic(1), of 0 "{512, 1024}"] demo_cyclic(2)
  by (simp add: demo_sector_facts demo_slot_facts zero_slot extended_slot_def del: One_nat_def)

text \<open>An extended partition without a record at its start has no entry, and the entries after it move up.\<close>

lemma unreadable_extended_dropped:
  "extended_slot slot \<Longrightarrow> slot_start slot = 0 \<or> embr_at disk (slot_start slot) = None \<Longrightarrow>
   msdos_entry (Suc fuel) disk slot pos = Inr []"
  by (cases "slot_start slot = 0")
    (auto simp: msdos_entry_def extended_slot_def part_table_parse_msdos_extended_def embr_loop_base embr_loop_step)

section \<open>Inspecting a loaded table\<close>

text \<open>The inspection of an entry reads within its data; the names in an Apple table are not part of this.\<close>

definition inspectable :: "(octets \<Rightarrow> string option) \<Rightarrow> PartitionTable \<Rightarrow> int \<Rightarrow> bool" where
  "inspectable utf8 t n \<longleftrightarrow>
     part_table_entry_get_offset t n \<noteq> Inl Buffer_Overrun \<and> part_table_entry_get_size t n \<noteq> Inl Buffer_Overrun \<and>
     part_table_entry_get_uuid t n \<noteq> Inl Buffer_Overrun \<and> part_table_entry_get_flags t n \<noteq> Inl Buffer_Overrun \<and>
     (pt_scheme t \<noteq> PART_TYPE_APPLE \<longrightarrow>
        part_table_entry_get_type t n \<noteq> Inl Buffer_Overrun \<and> part_table_entry_get_label utf8 t n \<noteq> Inl Buffer_Overrun)"

lemma table_ok_inspectable: 
  assumes "table_ok t"
  shows "inspectable utf8 t n"
proof (cases "nth_entry t n")
  case None
  then show ?thesis
    by (simp add: inspectable_def part_table_entry_get_offset_def part_table_entry_get_size_def
        part_table_entry_get_uuid_def part_table_entry_get_flags_def part_table_entry_get_type_def
        part_table_entry_get_label_def)
next
  case (Some pe)
  with nth_entry_length [OF assms Some] show ?thesis
    by (cases "pt_scheme t")
      (simp_all add: inspectable_def part_table_entry_get_offset_def part_table_entry_get_size_def
        part_table_entry_get_uuid_def part_table_entry_get_flags_def part_table_entry_get_type_def
        part_table_entry_get_label_def pe_read_within)
qed

text \<open>C9: whatever bytes a disk has, the entries of the table loaded from it, and of the tables nested in it, can
  be inspected at any index without reading behind the copied data, except for the two names in an Apple table.
\<close>

theorem loaded_table_inspection:
  assumes "part_table_load_from_disk fuel device = Inr (Some p)"
    and "t = p \<or> part_table_entry_get_nested p m = Some t"
  shows "inspectable utf8 t n"
  using assms loaded_table_ok [OF assms(1)] nested_flat [of p m t] flat_table_ok table_ok_inspectable by blast

theorem loaded_table_inspection_witness:
  "\<exists>p. part_table_load_from_disk 3073 (Some (demo_disk, 3072)) = Inr (Some p) \<and> inspectable (\<lambda>b. None) p 0"
  using ascending_chains_load_demo loaded_table_inspection by blast

text \<open>C10: the search for an offset in a loaded table always has a result. Let \<open>m\<close> be the first entry of the
  table whose extent has the offset, or -1 when there is none. If this entry has a nested table and does
  not start at the offset, the result lies in the nested table: its first entry whose extent has the
  offset, or -1 when there is none. Otherwise the result is entry \<open>m\<close> of the table itself.
\<close>

theorem part_table_find_result:
  assumes "part_table_load_from_disk fuel device = Inr (Some p)"
  shows "\<exists>m. search_result p off m \<and>
    (case part_table_entry_get_nested p m of
       None \<Rightarrow> part_table_find p off = Inr (p, m)
     | Some t \<Rightarrow>
         if part_table_entry_get_offset p m = Inr off then part_table_find p off = Inr (p, m)
         else \<exists>n. part_table_find p off = Inr (t, n) \<and> search_result t off n)"
proof -
  note ok = loaded_table_ok [OF assms]
  obtain r where r: "find_entry p off (part_table_get_num_entries p) 0 = Inr r"
    using find_entry_defined [OF ok] by blast
  show ?thesis
  proof (cases r)
    case None
    have "part_table_entry_get_nested p (-1) = None"
      by (simp add: part_table_entry_get_nested_def nth_entry_def)
    with r None search_result_none [of p off] show ?thesis
      by (intro exI [of _ "-1"]) (simp add: part_table_find.simps [of p])
  next
    case (Some ma)
    obtain m a where ma: "ma = (m, a)" by (cases ma)
    note here = r [unfolded Some ma]
    obtain b where "entry_extent p (int m) = Inr (a, b)" and "covers p (int m) off"
      using find_entry_some [OF here] by blast
    then have off: "part_table_entry_get_offset p (int m) = Inr a" "a \<le> off"
      by (auto simp: entry_extent_def covers_def)
    have "part_table_find p off = Inr (p, int m)" if "part_table_entry_get_nested p (int m) = None \<or> a = off"
      using that here by (auto simp: part_table_find.simps [of p] split: option.split)
    moreover have "\<exists>n. part_table_find p off = Inr (t, n) \<and> search_result t off n"
      if "part_table_entry_get_nested p (int m) = Some t" "a \<noteq> off" for t
      using that here off(2) find_flat [OF nested_flat [OF ok that(1)], of off] by (simp add: part_table_find.simps [of p])
    ultimately show ?thesis
      using off(1) search_result_here [OF here] by (intro exI [of _ "int m"]) (auto split: option.split)
  qed
qed

theorem part_table_find_result_witness:
  "\<exists>p m. part_table_load_from_disk 3073 (Some (demo_disk, 3072)) = Inr (Some p) \<and> search_result p 1536 m \<and>
     (\<exists>t n. part_table_find p 1536 = Inr (t, n) \<and> search_result t 1536 n)"
proof -
  obtain p where p: "part_table_load_from_disk 3073 (Some (demo_disk, 3072)) = Inr (Some p)"
    using ascending_chains_load_demo by blast
  from part_table_find_result [OF p, of 1536] show ?thesis
    using p by (auto split: option.splits if_splits)
qed

section \<open>GUIDs\<close>

text \<open>C21: the printed form of a GUID, scanned again, gives its bytes.\<close>

theorem guid_roundtrip:
  assumes "length buf = 16"
  shows "set_le_guid (get_le_guid buf) = Inr buf"
proof -
  have "get_le_guid buf = hex_fixed 8 (unat (get_le32 buf)) @ ''-'' @ hex_fixed 4 (unat (get_le16 (drop 4 buf))) @ ''-'' @
      hex_fixed 4 (unat (get_le16 (drop 6 buf))) @ ''-'' @ concat (map (\<lambda>b. hex_fixed 2 (unat b)) (map ((!) buf) [8, 9])) @
      ''-'' @ concat (map (\<lambda>b. hex_fixed 2 (unat b)) (map ((!) buf) [10, 11, 12, 13, 14, 15]))"
    by (simp add: get_le_guid_def del: hex_fixed.simps)
  moreover have "length (map ((!) buf) [8, 9]) = 2" "length (map ((!) buf) [10, 11, 12, 13, 14, 15]) = 6" by simp_all
  note set_le_guid_printed [OF this, of "get_le32 buf" "get_le16 (drop 4 buf)" "get_le16 (drop 6 buf)"]
  ultimately show ?thesis by (simp only: guid_parts [OF assms] guid_joined [OF assms])
qed

theorem guid_roundtrip_witness: "set_le_guid (get_le_guid (replicate 16 0x1a)) = Inr (replicate 16 0x1a)"
  by (rule guid_roundtrip) simp

end
