(* ===== verification/Hal_Part_Edit_Props.thy ===== *)
theory Hal_Part_Edit_Props
  imports Hal_Part_Props
begin

text \<open>
  Properties of the changes to partition tables: what of them reaches the disk, and the loop that makes a
  changed partition large enough.
\<close>

section \<open>What reaches the disk\<close>

definition disks :: "'s libparted \<Rightarrow> 's \<Rightarrow> string \<Rightarrow> (octets \<times> uint64) option" where
  "disks L s = (\<lambda>f. raw_device L f s)"

text \<open>
  libparted documents \<open>ped_disk_commit_to_dev\<close> as the call that writes the partition table; all the others
  work on objects in memory.
\<close>

definition in_memory :: "'s libparted \<Rightarrow> bool" where
  "in_memory L \<longleftrightarrow>
     (\<forall>f s. disks L (fst (ped_device_get L f s)) = disks L s) \<and>
     (\<forall>d g s. disks L (ped_set_hw_geom L d g s) = disks L s) \<and>
     (\<forall>d g s. disks L (ped_set_bios_geom L d g s) = disks L s) \<and>
     (\<forall>d s. disks L (ped_device_destroy L d s) = disks L s) \<and>
     (\<forall>d s. disks L (fst (ped_disk_new L d s)) = disks L s) \<and>
     (\<forall>d t s. disks L (fst (ped_disk_new_fresh L d t s)) = disks L s) \<and>
     (\<forall>d s. disks L (ped_disk_destroy L d s) = disks L s) \<and>
     (\<forall>d t a b s. disks L (fst (ped_partition_new L d t a b s)) = disks L s) \<and>
     (\<forall>p f s. disks L (ped_poke L p f s) = disks L s) \<and>
     (\<forall>p l s. disks L (ped_partition_set_name L p l s) = disks L s) \<and>
     (\<forall>p s. disks L (ped_partition_destroy L p s) = disks L s) \<and>
     (\<forall>d a n s. disks L (fst (ped_geometry_new L d a n s)) = disks L s) \<and>
     (\<forall>d s. disks L (fst (ped_constraint_any L d s)) = disks L s) \<and>
     (\<forall>a b m n s. disks L (fst (ped_constraint_new L a b m n s)) = disks L s) \<and>
     (\<forall>c s. disks L (ped_constraint_destroy L c s) = disks L s) \<and>
     (\<forall>d p c s. disks L (fst (ped_disk_add_partition L d p c s)) = disks L s) \<and>
     (\<forall>d p c a b s. disks L (fst (ped_disk_set_partition_geom L d p c a b s)) = disks L s) \<and>
     (\<forall>d p s. disks L (fst (ped_disk_delete_partition L d p s)) = disks L s)"

text \<open>At most one commit decides about the result, and nothing is written after it.\<close>

definition committed_once :: "'s libparted \<Rightarrow> 's \<Rightarrow> bool \<Rightarrow> 's \<Rightarrow> bool" where
  "committed_once L s ok s' \<longleftrightarrow>
     \<not> ok \<and> disks L s' = disks L s \<or>
     (\<exists>disk s1 s2. ped_disk_commit_to_dev L disk s1 = (s2, ok) \<and> disks L s1 = disks L s \<and> disks L s' = disks L s2)"

lemma in_memory_keeps:
  assumes "in_memory L"
  shows "ped_device_get L f s = (s', x) \<Longrightarrow> disks L s' = disks L s"
    and "ped_disk_new L d s = (s', x) \<Longrightarrow> disks L s' = disks L s"
    and "ped_disk_new_fresh L d t s = (s', x) \<Longrightarrow> disks L s' = disks L s"
    and "ped_partition_new L d pt a b s = (s', x) \<Longrightarrow> disks L s' = disks L s"
    and "ped_geometry_new L d a n s = (s', x) \<Longrightarrow> disks L s' = disks L s"
    and "ped_constraint_any L d s = (s', x) \<Longrightarrow> disks L s' = disks L s"
    and "ped_constraint_new L ga gb n m s = (s', x) \<Longrightarrow> disks L s' = disks L s"
    and "ped_disk_add_partition L d p c s = (s', ok) \<Longrightarrow> disks L s' = disks L s"
    and "ped_disk_set_partition_geom L d p c a b s = (s', ok) \<Longrightarrow> disks L s' = disks L s"
    and "ped_disk_delete_partition L d p s = (s', ok) \<Longrightarrow> disks L s' = disks L s"
  using assms unfolding in_memory_def by (metis fst_conv)+

lemma in_memory_steps:
  assumes "in_memory L"
  shows "disks L (ped_set_hw_geom L d g s) = disks L s" "disks L (ped_set_bios_geom L d g s) = disks L s"
    "disks L (ped_device_destroy L d s) = disks L s" "disks L (ped_disk_destroy L d s) = disks L s"
    "disks L (ped_poke L p fl s) = disks L s" "disks L (ped_partition_set_name L p l s) = disks L s"
    "disks L (ped_partition_destroy L p s) = disks L s" "disks L (ped_constraint_destroy L c s) = disks L s"
    "disks L (close_disk L disk d s) = disks L s" "disks L (disk_geometry L d i j s) = disks L s"
  using assms unfolding in_memory_def close_disk_def disk_geometry_def Let_def by (simp_all del: split_paired_All)

lemma set_attributes_keeps:
  "in_memory L \<Longrightarrow> set_attributes L scheme a ty flags part s = Inr s' \<Longrightarrow> disks L s' = disks L s"
  by (cases scheme; cases ty) (auto simp: set_attributes_def Let_def in_memory_steps split: if_splits)

lemma make_constraint_keeps:
  assumes "in_memory L" and "make_constraint L d i j a b s = (s', c)"
  shows "disks L s' = disks L s"
proof -
  have "disks L (fst (make_constraint L d i j a b s)) = disks L s"
    using assms(1) by (simp add: make_constraint_def split_beta in_memory_def del: split_paired_All)
  with assms(2) show ?thesis by simp
qed

lemma change_loop_keeps:
  "in_memory L \<Longrightarrow> change_loop L fuel disk part con a b n out s = Inr (ok, out', s') \<Longrightarrow> disks L s' = disks L s"
proof (induction fuel arbitrary: b out s)
  case (Suc fuel)
  obtain s1 ok1 where g: "ped_disk_set_partition_geom L disk part con a b s = (s1, ok1)" by force
  with Suc.prems Suc.IH [OF Suc.prems(1), of "b + 1" _ s1] in_memory_keeps(9) [OF Suc.prems(1) g] show ?case
    by (auto split: if_splits)
qed simp

lemma place_partition_keeps:
  "in_memory L \<Longrightarrow> place_partition L fuel ch disk part con a b n s = Inr (ok, out, s') \<Longrightarrow> disks L s' = disks L s"
  by (auto simp: place_partition_def change_loop_keeps dest: in_memory_keeps(8) split: if_splits prod.splits)

lemma edit_partition_commits:
  assumes L: "in_memory L"
    and run: "edit_partition L fuel ch device disk part scheme a old new ty label flags geometry s = Inr (ok, out, s')"
  shows "committed_once L s ok s'"
proof -
  obtain s1 where s1: "set_attributes L scheme a ty flags part s = Inr s1" using run by (auto simp: edit_partition_def)
  define s2 where "s2 = (case label of None \<Rightarrow> s1 | Some l \<Rightarrow> ped_partition_set_name L part l s1)"
  define range where "range = (if ch then new else old)"
  obtain s3 con where s3: "make_constraint L device (fst geometry) (snd geometry) (first_sector (fst range))
      (last_sector (fst range) (snd range)) s2 = (s3, con)" by force
  obtain ok4 out4 s4 where s4: "place_partition L fuel ch disk part con (first_sector (fst new))
      (last_sector (fst new) (snd new)) (snd new) s3 = Inr (ok4, out4, s4)"
    using run s1 s3 by (auto simp: edit_partition_def Let_def s2_def range_def)
  have keep: "disks L s4 = disks L s"
    using set_attributes_keeps [OF L s1] make_constraint_keeps [OF L s3] place_partition_keeps [OF L s4]
    by (simp add: s2_def in_memory_steps [OF L] split: option.splits)
  obtain s5 ok5 where s5: "ped_disk_commit_to_dev L disk s4 = (s5, ok5)" by force
  show ?thesis
  proof (cases ok4)
    case True
    then have "ok = ok5" "disks L s' = disks L s5"
      using run s1 s3 s4 s5 by (auto simp: edit_partition_def Let_def s2_def range_def in_memory_steps [OF L])
    with s5 keep show ?thesis by (auto simp: committed_once_def)
  next
    case False
    then have "\<not> ok" "disks L s' = disks L s"
      using run s1 s3 s4 keep by (auto simp: edit_partition_def Let_def s2_def range_def in_memory_steps [OF L])
    then show ?thesis by (simp add: committed_once_def)
  qed
qed

lemma committed_once_trans: "disks L s1 = disks L s \<Longrightarrow> committed_once L s1 ok s' \<Longrightarrow> committed_once L s ok s'"
  by (auto simp: committed_once_def)

lemma committed_refused: "disks L s' = disks L s \<Longrightarrow> committed_once L s False s'"
  by (simp add: committed_once_def)

lemma part_edit_disk_commits:
  assumes L: "in_memory L"
    and run: "part_edit_disk L fuel ch f scheme pt a old new ty label flags geometry s = Inr (ok, out, s')"
  shows "committed_once L s ok s'"
proof -
  obtain s1 dev where s1: "ped_device_get L f s = (s1, dev)" by force
  have k1: "disks L s1 = disks L s" by (rule in_memory_keeps(1) [OF L s1])
  show ?thesis
  proof (cases dev)
    case None
    with run s1 k1 show ?thesis by (auto simp: part_edit_disk_def committed_refused)
  next
    case (Some device)
    define s2 where "s2 = disk_geometry L device (fst geometry) (snd geometry) s1"
    obtain s3 d where s3: "ped_disk_new L device s2 = (s3, d)" by force
    have k3: "disks L s3 = disks L s" using in_memory_keeps(2) [OF L s3] k1 by (simp add: s2_def in_memory_steps [OF L])
    show ?thesis
    proof (cases d)
      case None
      with run s1 Some s3 k3 show ?thesis
        by (auto simp: part_edit_disk_def s2_def in_memory_steps [OF L] intro!: committed_refused)
    next
      case disk: (Some disk)
      obtain s4 p where s4: "(if ch then (s3, ped_disk_get_partition_by_sector L disk (first_sector (fst old)) s3)
          else ped_partition_new L disk pt (first_sector (fst old)) (last_sector (fst old) (snd old)) s3) = (s4, p)" by force
      have k4: "disks L s4 = disks L s" using s4 k3 in_memory_keeps(4) [OF L] by (auto split: if_splits)
      from run s1 Some s3 disk s4 have
        "(case p of None \<Rightarrow> Inr (False, None, close_disk L disk device s4)
          | Some part \<Rightarrow> edit_partition L fuel ch device disk part scheme a old new ty label flags geometry s4) = Inr (ok, out, s')"
        by (simp add: part_edit_disk_def s2_def split: option.splits)
      then show ?thesis
        using k4 edit_partition_commits [OF L] committed_once_trans [OF k4]
        by (auto simp: in_memory_steps [OF L] split: option.splits intro!: committed_refused)
    qed
  qed
qed

lemma committed_last:
  "disks L s1 = disks L s \<Longrightarrow> committed_once L s (snd (ped_disk_commit_to_dev L disk s1)) (fst (ped_disk_commit_to_dev L disk s1))"
  unfolding committed_once_def by (metis prod.collapse)

lemma delete_on_disk_commits:
  assumes "in_memory L"
  shows "committed_once L s (snd (delete_on_disk L disk part s)) (fst (delete_on_disk L disk part s))"
  using in_memory_keeps(10) [OF assms]
  by (auto simp: delete_on_disk_def committed_refused committed_last split: option.split prod.split)

lemma delete_commits_at_most_once:
  assumes L: "in_memory L" and run: "part_del_partition L fuel f off s = Inr (ok, s')"
  shows "committed_once L s ok s'"
proof -
  have end_keeps: "committed_once L s ok s1 \<Longrightarrow> disks L s2 = disks L s1 \<Longrightarrow> committed_once L s ok s2" for s ok s1 s2
    by (auto simp: committed_once_def)
  obtain t where t: "part_table_load_from_disk fuel (raw_device L f s) = Inr t"
    using run by (auto simp: part_del_partition_def)
  obtain s1 dev where s1: "ped_device_get L f s = (s1, dev)" by force
  have k1: "disks L s1 = disks L s" by (rule in_memory_keeps(1) [OF L s1])
  show ?thesis
  proof (cases "t = None \<or> dev = None")
    case True
    with run t s1 k1 show ?thesis
      by (auto simp: part_del_partition_def committed_refused split: option.splits)
  next
    case False
    then obtain p device where p: "t = Some p" "dev = Some device" by auto
    obtain s2 d where s2: "ped_disk_new L device s1 = (s2, d)" by force
    have k2: "disks L s2 = disks L s" using in_memory_keeps(2) [OF L s2] k1 by simp
    show ?thesis
    proof (cases d)
      case None
      with run t s1 p s2 k2 show ?thesis
        by (auto simp: part_del_partition_def in_memory_steps [OF L] intro!: committed_refused)
    next
      case (Some disk)
      with run t s1 p s2 obtain q where
        "ok = snd (delete_on_disk L disk q s2)" "s' = close_disk L disk device (fst (delete_on_disk L disk q s2))"
        by (auto simp: part_del_partition_def split: prod.splits) (metis fst_conv snd_conv)
      then show ?thesis
        using end_keeps [OF committed_once_trans [OF k2 delete_on_disk_commits [OF L]]] by (auto simp: in_memory_steps [OF L])
    qed
  qed
qed

section \<open>An example\<close>

text \<open>
  A disk of 144 bytes with an Apple partition map of one entry, and a small libparted with one partition object:
  it places the partition where it is asked to, or, when \<open>pinned\<close>, keeps it to one sector. A commit writes
  the number of sectors into the entry.
\<close>

definition demo_apple_entry :: "8 word \<Rightarrow> octets" where
  "demo_apple_entry filler =
     [0x50, 0x4d, 0, 0, 0, 0, 0, 1, 0, 0, 0, 1, 0, 0, 0, 4] @ replicate 32 0x41 @ replicate 32 0x42 @ replicate 56 filler"

definition demo_apple_disk :: "8 word \<Rightarrow> octets" where
  "demo_apple_disk filler = [0x45, 0x52, 0, 8, 0, 0, 0, 0] @ demo_apple_entry filler"

record demo_ped =
  demo_bytes :: octets
  demo_geom :: "int \<times> int"

definition demo_parted :: "bool \<Rightarrow> demo_ped libparted" where
  "demo_parted pinned = \<lparr>
     raw_device = (\<lambda>f s. Some (demo_bytes s, 144)),
     ped_device_get = (\<lambda>f s. (s, Some 1)),
     ped_device_length = (\<lambda>d s. 100),
     ped_hw_geom = (\<lambda>d s. (1, 1, 100)),
     ped_set_hw_geom = (\<lambda>d g s. s),
     ped_set_bios_geom = (\<lambda>d g s. s),
     ped_device_destroy = (\<lambda>d s. s),
     ped_disk_new = (\<lambda>d s. (s, Some 2)),
     ped_disk_type_get = (\<lambda>t s. Some 3),
     ped_disk_new_fresh = (\<lambda>d t s. (s, Some 2)),
     ped_disk_destroy = (\<lambda>d s. s),
     ped_partition_new = (\<lambda>d t a b s. (s\<lparr>demo_geom := (uint a, uint b - uint a + 1)\<rparr>, Some 4)),
     ped_disk_get_partition_by_sector = (\<lambda>d a s. Some 4),
     ped_disk_extended_partition = (\<lambda>d s. None),
     ped_partition_type = (\<lambda>p s. PED_PARTITION_NORMAL),
     ped_poke = (\<lambda>p f s. s),
     ped_partition_set_name = (\<lambda>p l s. s),
     ped_partition_geom = (\<lambda>p s. demo_geom s),
     ped_partition_destroy = (\<lambda>p s. s),
     ped_geometry_new = (\<lambda>d a n s. (s, Some 5)),
     ped_constraint_any = (\<lambda>d s. (s, Some 6)),
     ped_constraint_new = (\<lambda>a b m n s. (s, Some 6)),
     ped_constraint_destroy = (\<lambda>c s. s),
     ped_disk_add_partition = (\<lambda>d p c s. (s, True)),
     ped_disk_set_partition_geom = (\<lambda>d p c a b s.
       (s\<lparr>demo_geom := (uint a, if pinned then 1 else uint (b - a + 1))\<rparr>, True)),
     ped_disk_delete_partition = (\<lambda>d p s. (s, True)),
     ped_disk_commit_to_dev = (\<lambda>d s. (s\<lparr>demo_bytes := (demo_bytes s)[23 := of_int (snd (demo_geom s))]\<rparr>, True))\<rparr>"

definition demo_ped_state :: demo_ped where
  "demo_ped_state = \<lparr>demo_bytes = demo_apple_disk 0, demo_geom = (1, 4)\<rparr>"

lemma demo_in_memory: "in_memory (demo_parted pinned)"
  by (simp add: in_memory_def disks_def demo_parted_def)

lemma demo_change:
  "part_change_partition (demo_parted False) 3 ''sda'' 512 512 1000 None None None 0 0 demo_ped_state =
     Inr (True, Some (512, 1024), \<lparr>demo_bytes = (demo_apple_disk 0)[23 := 2], demo_geom = (1, 2)\<rparr>)"
  by code_simp

text \<open>The type of an Apple entry is read behind its data when it has no null byte there.\<close>

lemma apple_type_overrun:
  "case part_table_load_from_disk 0 (Some (demo_apple_disk 0x43, 144)) of
     Inr (Some p) \<Rightarrow> part_table_entry_get_type p 0 = Inl Buffer_Overrun \<and> pt_scheme p = PART_TYPE_APPLE
   | _ \<Rightarrow> False"
  by code_simp

section \<open>Adding and changing\<close>

text \<open>C11: adding or changing a partition writes to the disk at most once. A failure leaves the disk as it was,
  unless it is the failure of that one write, and nothing is written after it; success is the success of
  the write.
\<close>

theorem edit_commits_at_most_once:
  assumes "in_memory L"
    and "part_add_change_partition L fuel f start psize new_start new_size ty label flags hps spt s = Inr (ok, out, s')"
  shows "committed_once L s ok s'"
proof -
  obtain t where t: "part_table_load_from_disk fuel (raw_device L f s) = Inr t"
    using assms(2) by (auto simp: part_add_change_partition_def)
  show ?thesis
  proof (cases t)
    case None
    with assms(2) t show ?thesis by (auto simp: part_add_change_partition_def committed_refused)
  next
    case (Some p)
    with assms(2) t show ?thesis
      by (auto simp: part_add_change_partition_def committed_refused part_edit_disk_commits [OF assms(1)]
          split: if_splits option.splits)
  qed
qed

theorem edit_commits_at_most_once_witness:
  "committed_once (demo_parted False) demo_ped_state True \<lparr>demo_bytes = (demo_apple_disk 0)[23 := 2], demo_geom = (1, 2)\<rparr>"
  using edit_commits_at_most_once [OF demo_in_memory] demo_change unfolding part_change_partition_def by blast

lemma change_loop_size:
  "change_loop L fuel disk part con a b n out s = Inr (True, out', s') \<Longrightarrow> \<exists>x y. out' = Some (x, y) \<and> n \<le> y"
proof (induction fuel arbitrary: b out s)
  case (Suc fuel)
  then show ?case by (fastforce simp: not_less split: prod.splits if_splits)
qed simp

lemma edit_partition_placed:
  assumes "edit_partition L fuel ch device disk part scheme a old new ty label flags geometry s = Inr (True, out, s')"
  shows "\<exists>con s3 s4. place_partition L fuel ch disk part con (first_sector (fst new))
    (last_sector (fst new) (snd new)) (snd new) s3 = Inr (True, out, s4)"
proof -
  obtain s1 where s1: "set_attributes L scheme a ty flags part s = Inr s1"
    using assms by (auto simp: edit_partition_def)
  define range where "range = (if ch then new else old)"
  obtain s3 con where s3: "make_constraint L device (fst geometry) (snd geometry) (first_sector (fst range))
      (last_sector (fst range) (snd range)) (case label of None \<Rightarrow> s1 | Some l \<Rightarrow> ped_partition_set_name L part l s1) = (s3, con)"
    by force
  show ?thesis
    using assms s1 s3 by (fastforce simp: edit_partition_def Let_def range_def split: if_splits prod.splits)
qed

lemma part_edit_disk_edits:
  assumes "part_edit_disk L fuel ch f scheme pt a old new ty label flags geometry s = Inr (True, out, s')"
  shows "\<exists>device disk part s4.
    edit_partition L fuel ch device disk part scheme a old new ty label flags geometry s4 = Inr (True, out, s')"
  using assms unfolding part_edit_disk_def by (simp split: prod.splits option.splits if_splits) blast+

text \<open>C12: when a partition is changed, the resulting size is never smaller than the requested one, whatever
  libparted makes of the request: this is the guarantee that the interface gives.
\<close>

theorem changed_size_guarantee:
  assumes "part_change_partition L fuel f start new_start new_size ty label flags hps spt s = Inr (True, out, s')"
  shows "\<exists>out_start out_size. out = Some (out_start, out_size) \<and> new_size \<le> out_size"
proof -
  obtain scheme pt a where
    "part_edit_disk L fuel True f scheme pt a (start, 0) (new_start, new_size) ty label flags (hps, spt) s = Inr (True, out, s')"
    using assms unfolding part_change_partition_def part_add_change_partition_def
    by (auto split: option.splits if_splits) blast
  from part_edit_disk_edits [OF this] obtain device disk part s4 where
    "edit_partition L fuel True device disk part scheme a (start, 0) (new_start, new_size) ty label flags (hps, spt) s4 =
       Inr (True, out, s')" by blast
  from edit_partition_placed [OF this] show ?thesis by (auto simp: place_partition_def dest!: change_loop_size)
qed

theorem changed_size_guarantee_witness:
  "\<exists>out_start out_size. Some (512, 1024) = Some (out_start :: uint64, out_size :: uint64) \<and> 1000 \<le> out_size"
  by (rule changed_size_guarantee [OF demo_change])

text \<open>The loop that makes the partition large enough does not end when libparted keeps accepting the request
  and keeps the size below it, as it does when the constraint fixes the last sector: the constraint is
  made before the loop and is not made again for the new last sector.
\<close>

theorem pinned_change_never_ends:
  assumes "\<And>e s. \<exists>s' x. ped_disk_set_partition_geom L disk part con first_s e s = (s', True) \<and>
      part_extent L part s' = Inr x \<and> snd x < new_size"
  shows "change_loop L fuel disk part con first_s last_s new_size out s = Inl Out_Of_Fuel"
proof (induction fuel arbitrary: last_s out s)
  case (Suc fuel)
  obtain s' x where "ped_disk_set_partition_geom L disk part con first_s last_s s = (s', True)"
    "part_extent L part s' = Inr x" "snd x < new_size" using assms by blast
  with Suc show ?case by simp
qed simp

lemma demo_pinned:
  "\<exists>s' x. ped_disk_set_partition_geom (demo_parted True) 2 4 con 1 e s = (s', True) \<and>
     part_extent (demo_parted True) 4 s' = Inr x \<and> snd x < 1000"
  by (simp add: demo_parted_def part_extent_def check64_def in_int64_def)

theorem pinned_change_never_ends_witness:
  "\<forall>fuel. change_loop (demo_parted True) fuel 2 4 (Some 6) 1 1 1000 None demo_ped_state = Inl Out_Of_Fuel"
  using pinned_change_never_ends [OF demo_pinned] by blast

text \<open>When libparted places partitions exactly, two rounds are enough.\<close>

lemma sector_bounds:
  "(x::nat) * 512 + r = a \<Longrightarrow> y * 512 + q = a + n \<Longrightarrow> r < 512 \<Longrightarrow> q < 512 \<Longrightarrow>
   n < 512 * (y - x + 1) \<and> 512 * (y - x) < n + 512"
  by (cases "x \<le> y") (auto simp: diff_mult_distrib2 algebra_simps)

lemma sectors_enough:
  "n < 512 * ((a + n) div 512 - a div 512 + 1) \<and> 512 * ((a + n) div 512 - a div 512) < n + 512" for n :: nat
  by (rule sector_bounds [where r = "a mod 512" and q = "(a + n) mod 512"]) simp_all

lemma uint_bound: "unat (w :: uint64) < 2 ^ 53 \<Longrightarrow> uint w < 2 ^ 53"
proof -
  assume "unat w < 2 ^ 53"
  then have "int (unat w) < int (2 ^ 53)" by (simp only: of_nat_less_iff)
  then show ?thesis by simp
qed

lemma in_int64_sectors: "0 \<le> i \<Longrightarrow> i < 2 ^ 53 \<Longrightarrow> in_int64 (i * 512)"
  by (simp add: in_int64_def)

lemma part_extent_exact:
  assumes "ped_partition_geom L part s = (uint first_s, uint len)" "unat first_s < 2 ^ 53" "unat len < 2 ^ 53"
  shows "part_extent L part s = Inr (512 * first_s, 512 * len)"
proof -
  have "in_int64 (uint w * 512)" if "unat w < 2 ^ 53" for w :: uint64
    by (rule in_int64_sectors [OF _ uint_bound [OF that]]) simp
  then show ?thesis using assms by (simp add: part_extent_def check64_def mult.commute)
qed

lemma unat_bytes: "unat (w :: uint64) < 2 ^ 53 \<Longrightarrow> unat (512 * w) = 512 * unat w"
  by (simp add: unat_word_ariths)

text \<open>The first and the last sector of a range, and the number of sectors between them.\<close>

lemma sector_range:
  fixes a n :: uint64
  assumes small: "unat a + unat n < 2 ^ 61" and large: "512 \<le> unat n"
  obtains k where "first_sector a \<le> last_sector a n" "first_sector a \<le> last_sector a n + 1"
    "last_sector a n - first_sector a + 1 = k" "last_sector a n + 1 - first_sector a + 1 = k + 1"
    "unat (first_sector a) < 2 ^ 53" "unat k < 2 ^ 53" "unat (k + 1) = unat k + 1" "unat (k + 1) < 2 ^ 53"
    "unat k = (unat a + unat n) div 512 - unat a div 512"
proof -
  define t where "t = (a + n) div 512"
  define k where "k = t - first_sector a"
  have ut: "unat t = (unat a + unat n) div 512" and uf: "unat (first_sector a) = unat a div 512"
    using small by (simp_all add: t_def first_sector_def unat_div unat_word_ariths)
  have less: "unat (first_sector a) < unat t" using large by (simp add: ut uf less_eq_div_iff_mult_less_eq div_less_iff_less_mult)
  then have uk: "unat k = (unat a + unat n) div 512 - unat a div 512"
    using unat_sub [of "first_sector a" t] by (simp add: k_def ut uf word_le_nat_alt)
  have fits: "unat (first_sector a) < 2 ^ 53" "unat k < 2 ^ 53" "unat (k + 1) = unat k + 1" "unat (k + 1) < 2 ^ 53"
    using small by (simp_all add: uf uk unat_word_ariths div_less_iff_less_mult)
  have last: "last_sector a n = t - 1" by (simp add: last_sector_def t_def)
  have "unat (t - 1) = unat t - 1" using less unat_sub [of 1 t] by (simp add: word_le_nat_alt)
  then have e0: "first_sector a \<le> last_sector a n"
    unfolding last word_le_nat_alt using less by linarith
  have last': "last_sector a n + 1 = t" by (simp add: last)
  then have e0': "first_sector a \<le> last_sector a n + 1"
    unfolding last' word_le_nat_alt using less by linarith
  have e1: "last_sector a n - first_sector a + 1 = k" "last_sector a n + 1 - first_sector a + 1 = k + 1"
    by (simp_all add: last k_def)
  show ?thesis by (rule that [OF e0 e0' e1 fits uk])
qed

text \<open>When libparted places the partition exactly on the sectors it is asked for, a change to at least one
  sector ends after at most two rounds, and the partition is less than one sector larger than requested.
\<close>

theorem exact_change_two_rounds:
  fixes a n :: uint64
  assumes exact: "\<And>e s. first_sector a \<le> e \<Longrightarrow> \<exists>s'. ped_disk_set_partition_geom L disk part con (first_sector a) e s = (s', True) \<and>
      ped_partition_geom L part s' = (uint (first_sector a), uint (e - first_sector a + 1))"
    and small: "unat a + unat n < 2 ^ 61" and large: "512 \<le> unat n"
  shows "\<exists>x y s'. change_loop L 2 disk part con (first_sector a) (last_sector a n) n None s = Inr (True, Some (x, y), s') \<and>
    n \<le> y \<and> unat y < unat n + 512"
proof -
  obtain k where e0: "first_sector a \<le> last_sector a n" and e0': "first_sector a \<le> last_sector a n + 1"
    and e1: "last_sector a n - first_sector a + 1 = k" "last_sector a n + 1 - first_sector a + 1 = k + 1"
    and fits: "unat (first_sector a) < 2 ^ 53" "unat k < 2 ^ 53" "unat (k + 1) = unat k + 1" "unat (k + 1) < 2 ^ 53"
    and uk: "unat k = (unat a + unat n) div 512 - unat a div 512"
    using small large by (rule sector_range)
  obtain s1 where s1: "ped_disk_set_partition_geom L disk part con (first_sector a) (last_sector a n) s = (s1, True)"
    and g1: "ped_partition_geom L part s1 = (uint (first_sector a), uint k)"
    using exact [OF e0, of s] unfolding e1 by (elim exE conjE)
  obtain s2 where s2: "ped_disk_set_partition_geom L disk part con (first_sector a) (last_sector a n + 1) s1 = (s2, True)"
    and g2: "ped_partition_geom L part s2 = (uint (first_sector a), uint (k + 1))"
    using exact [OF e0', of s1] unfolding e1 by (elim exE conjE)
  note x = part_extent_exact [OF g1 fits(1,2)] part_extent_exact [OF g2 fits(1,4)]
  have size: "unat (512 * k) = 512 * unat k" "unat (512 * (k + 1)) = 512 * (unat k + 1)"
    using unat_bytes [OF fits(2)] unat_bytes [OF fits(4)] fits(3) by simp_all
  note bounds = sectors_enough [of "unat n" "unat a", folded uk]
  show ?thesis
  proof (cases "512 * k < n")
    case True
    then have "\<not> 512 * (k + 1) < n" "unat (512 * (k + 1)) < unat n + 512"
      using bounds size by (simp_all add: word_less_nat_alt)
    with True s1 s2 x show ?thesis by (simp add: numeral_2_eq_2 not_less)
  next
    case False
    then have "n \<le> 512 * k" by (simp add: not_less)
    with False bounds size s1 x show ?thesis by (simp add: numeral_2_eq_2)
  qed
qed

lemma demo_exact:
  "\<exists>s'. ped_disk_set_partition_geom (demo_parted False) 2 4 con a e s = (s', True) \<and>
     ped_partition_geom (demo_parted False) 4 s' = (uint a, uint (e - a + 1))"
  by (simp add: demo_parted_def)

theorem exact_change_two_rounds_witness:
  "\<exists>x y s'. change_loop (demo_parted False) 2 2 4 (Some 6) (first_sector 512) (last_sector 512 1000) 1000 None demo_ped_state =
     Inr (True, Some (x, y), s') \<and> 1000 \<le> y \<and> unat y < unat (1000 :: uint64) + 512"
  by (rule exact_change_two_rounds [OF demo_exact]) simp_all

end
