(* ===== verification/Hal_Ids_Props.thy ===== *)
theory Hal_Ids_Props
  imports Hal_Ids Hal_Uevent_Props
begin

text \<open>
  Properties of the identifier names: the searches in \<open>usb.ids\<close> and \<open>pci.ids\<close> give what a lookup in the database
  that the file prints gives, and which entries of the Plug and Play table \<open>bsearch\<close> finds.
\<close>

section \<open>Binary search\<close>

lemma bsearch_sound: "bsearch cmp xs l u = Some i \<Longrightarrow> l \<le> i \<and> i < u \<and> cmp (xs ! i) = 0"
proof (induction cmp xs l u rule: bsearch.induct)
  case (1 cmp xs l u)
  show ?case
  proof (cases "l < u")
    case True
    let ?m = "(l + u) div 2"
    have m: "l \<le> ?m" "?m < u" using True by auto
    consider "cmp (xs ! ?m) = 0" | "cmp (xs ! ?m) < 0" | "cmp (xs ! ?m) > 0" by linarith
    then show ?thesis
    proof cases
      case 1
      with "1.prems" True m show ?thesis by (subst (asm) bsearch.simps) (simp add: Let_def)
    next
      case 2
      with "1.prems" True have "bsearch cmp xs l ?m = Some i" by (subst (asm) bsearch.simps) (simp add: Let_def)
      from "1.IH"(1) [OF True refl refl 2 this] m show ?thesis by linarith
    next
      case 3
      with "1.prems" True have "bsearch cmp xs (?m + 1) u = Some i" by (subst (asm) bsearch.simps) (simp add: Let_def)
      from "1.IH"(2) [OF True refl refl _ 3 this] 3 m show ?thesis by linarith
    qed
  next
    case False
    with "1.prems" show ?thesis by (subst (asm) bsearch.simps) simp
  qed
qed

text \<open>The comparison splits the range: larger keys before, smaller ones after.\<close>

definition splits_range :: "('a \<Rightarrow> int) \<Rightarrow> 'a list \<Rightarrow> bool" where
  "splits_range cmp xs \<longleftrightarrow>
     (\<forall>i j. i < j \<and> j < length xs \<longrightarrow> (cmp (xs ! i) < 0 \<longrightarrow> cmp (xs ! j) < 0) \<and> (cmp (xs ! j) > 0 \<longrightarrow> cmp (xs ! i) > 0))"

lemma bsearch_complete:
  "splits_range cmp xs \<Longrightarrow> l \<le> i \<Longrightarrow> i < u \<Longrightarrow> u \<le> length xs \<Longrightarrow> cmp (xs ! i) = 0 \<Longrightarrow> bsearch cmp xs l u \<noteq> None"
proof (induction cmp xs l u rule: bsearch.induct)
  case (1 cmp xs l u)
  let ?m = "(l + u) div 2"
  have lu: "l < u" and m: "l \<le> ?m" "?m < u" using "1.prems" by auto
  have order: "a < b \<Longrightarrow> b < length xs \<Longrightarrow> (cmp (xs ! a) < 0 \<longrightarrow> cmp (xs ! b) < 0) \<and> (cmp (xs ! b) > 0 \<longrightarrow> cmp (xs ! a) > 0)" for a b
    using "1.prems"(1) by (simp add: splits_range_def)
  consider "cmp (xs ! ?m) = 0" | "cmp (xs ! ?m) < 0" | "cmp (xs ! ?m) > 0" by linarith
  then show ?case
  proof cases
    case 1
    then show ?thesis using lu by (subst bsearch.simps) (simp add: Let_def)
  next
    case 2
    then have "i < ?m" using order [of ?m i] "1.prems" by (cases i ?m rule: linorder_cases) auto
    with 2 lu "1.IH"(1) [OF lu refl refl 2] "1.prems" m show ?thesis by (subst bsearch.simps) (simp add: Let_def)
  next
    case 3
    then have "?m + 1 \<le> i" using order [of i ?m] "1.prems" m by (cases i ?m rule: linorder_cases) auto
    with 3 lu "1.IH"(2) [OF lu refl refl _ 3] "1.prems" m show ?thesis by (subst bsearch.simps) (simp add: Let_def)
  qed
qed

section \<open>The Plug and Play table\<close>

definition pnp_le :: "pnp_id \<Rightarrow> pnp_id \<Rightarrow> bool" where
  "pnp_le a b \<longleftrightarrow> ids_comp_pnp a b \<le> 0"

lemma pnp_le_trans: "transp pnp_le"
  unfolding transp_def pnp_le_def ids_comp_pnp_def strcasecmp_def using strcmp_le_trans by blast

text \<open>The table is in order but for the entry before the tenth.\<close>

definition pnp_head :: "pnp_id list" where
  "pnp_head = take 10 pnp_ids_list"

definition pnp_tail :: "pnp_id list" where
  "pnp_tail = drop 10 pnp_ids_list"

lemma pnp_parts: "pnp_ids_list = pnp_head @ pnp_tail"
  by (simp add: pnp_head_def pnp_tail_def)

text \<open>The comparison, on numbers.\<close>

fun lex_le :: "int list \<Rightarrow> int list \<Rightarrow> bool" where
  "lex_le [] ys = True"
| "lex_le (x # xs) [] = False"
| "lex_le (x # xs) (y # ys) = (if x < y then True else if y < x then False else lex_le xs ys)"

definition lower_code :: "char \<Rightarrow> int" where
  "lower_code c = (let b = (of_char c :: int) in if 65 \<le> b \<and> b \<le> 90 then b + 32 else b)"

lemma lower_code: "(of_char (to_lower c) :: int) = lower_code c"
  by (auto simp: to_lower_def lower_code_def Let_def)

lemma strcmp_lex: "strcmp s t \<le> 0 \<longleftrightarrow> lex_le (map of_char s) (map of_char t)"
proof (induction s t rule: strcmp.induct)
  case (4 a as b bs)
  have "(of_char x :: nat) < of_char y \<longleftrightarrow> (of_char x :: int) < of_char y" for x y :: char
    using of_nat_less_iff [where 'a = int, of "of_char x" "of_char y"] unfolding of_nat_of_char by simp
  with 4 show ?case by simp
qed simp_all

lemma pnp_le_lex: "pnp_le a b \<longleftrightarrow> lex_le (map lower_code (fst a)) (map lower_code (fst b))"
  by (simp add: pnp_le_def ids_comp_pnp_def strcasecmp_def strcmp_lex lower_code o_def)

lemma pnp_tail_keys: "successively lex_le (map (\<lambda>e. map lower_code (fst e)) pnp_tail)"
  unfolding pnp_tail_def by code_simp

lemma pnp_head_below: "list_all (\<lambda>e. ids_comp_pnp e (hd pnp_tail) < 0) pnp_head"
  unfolding pnp_head_def pnp_tail_def by code_simp

lemma pnp_tail_sorted: "sorted_wrt pnp_le pnp_tail"
proof -
  have "successively pnp_le pnp_tail" using pnp_tail_keys by (simp add: successively_map pnp_le_lex [abs_def])
  then show ?thesis using pnp_le_trans by (simp add: successively_conv_sorted_wrt)
qed

lemma comp_pnp_le: "ids_comp_pnp a b > 0 \<longleftrightarrow> \<not> pnp_le a b" "ids_comp_pnp a b < 0 \<longleftrightarrow> \<not> pnp_le b a"
  using strcmp_sym [of "map to_lower (fst a)" "map to_lower (fst b)"]
  by (auto simp: pnp_le_def ids_comp_pnp_def strcasecmp_def)

lemma pnp_le_refl: "pnp_le e e"
  by (simp add: pnp_le_def ids_comp_pnp_def strcasecmp_def strcmp_refl)

lemma sorted_hd: "sorted_wrt P ys \<Longrightarrow> e \<in> set ys \<Longrightarrow> (\<And>x. P x x) \<Longrightarrow> P (hd ys) e"
  by (cases ys) auto

lemma pnp_tail_ge: "e \<in> set pnp_tail \<Longrightarrow> pnp_le (hd pnp_tail) e"
  by (rule sorted_hd [OF pnp_tail_sorted _ pnp_le_refl])

lemma pnp_head_tail:
  assumes "a \<in> set pnp_head" "b \<in> set pnp_tail"
  shows "ids_comp_pnp a b < 0"
proof -
  have "\<not> pnp_le (hd pnp_tail) a" using pnp_head_below assms(1) by (auto simp: list_all_iff comp_pnp_le)
  moreover have "pnp_le (hd pnp_tail) a" if "pnp_le b a"
    using pnp_tail_ge [OF assms(2)] that by (rule transpD [OF pnp_le_trans])
  ultimately show ?thesis by (auto simp: comp_pnp_le)
qed

definition pnp_missed :: "string list" where
  "pnp_missed = [''IBM3780'', ''FPI2004'', ''FUJ02E5'', ''FUJ02E6'']"

lemma bsearch_cong:
  "(\<And>i. l \<le> i \<Longrightarrow> i < u \<Longrightarrow> xs ! i = ys ! i) \<Longrightarrow> bsearch cmp xs l u = bsearch cmp ys l u"
proof (induction cmp xs l u rule: bsearch.induct)
  case (1 cmp xs l u)
  show ?case
  proof (cases "l < u")
    case True
    let ?m = "(l + u) div 2"
    have m: "l \<le> ?m" "?m < u" using True by auto
    have "bsearch cmp xs l ?m = bsearch cmp ys l ?m" if "cmp (xs ! ?m) < 0"
      by (rule "1.IH"(1) [OF True refl refl that]) (use "1.prems" m in auto)
    moreover have "bsearch cmp xs (?m + 1) u = bsearch cmp ys (?m + 1) u" if "cmp (xs ! ?m) > 0"
      by (rule "1.IH"(2) [OF True refl refl _ that]) (use "1.prems" m that in auto)
    ultimately show ?thesis
      using "1.prems" [OF m] by (subst (1 2) bsearch.simps) (auto simp: Let_def)
  next
    case False
    then show ?thesis by (subst (1 2) bsearch.simps) simp
  qed
qed

lemma length_pnp: "length pnp_ids_list = 380" "length pnp_head = 10" 
  by (simp_all add: pnp_ids_list_def pnp_head_def)

text \<open>The search for an entry of the head reaches the first eleven entries after five rounds.\<close>

lemma pnp_head_search:
  assumes "fst e = pnp_id" "e \<in> set pnp_head"
  shows "bsearch (ids_comp_pnp (pnp_id, [])) pnp_ids_list 0 380 = bsearch (ids_comp_pnp (pnp_id, [])) (take 11 pnp_ids_list) 0 11"
proof -
  have below: "ids_comp_pnp (pnp_id, []) (pnp_ids_list ! i) < 0" if "10 \<le> i" "i < 380" for i
  proof -
    have "pnp_ids_list ! i \<in> set pnp_tail" using that by (simp add: pnp_tail_def length_pnp set_conv_nth) (rule exI [of _ "i - 10"], simp)
    with pnp_head_tail [OF assms(2)] assms(1) show ?thesis by (auto simp: ids_comp_pnp_def)
  qed
  have round: "10 \<le> u div 2 \<Longrightarrow> u \<le> 380 \<Longrightarrow>
      bsearch (ids_comp_pnp (pnp_id, [])) pnp_ids_list 0 u = bsearch (ids_comp_pnp (pnp_id, [])) pnp_ids_list 0 (u div 2)" for u
    using below [of "u div 2"] by (subst bsearch.simps) (auto simp: Let_def)
  have "bsearch (ids_comp_pnp (pnp_id, [])) pnp_ids_list 0 380 = bsearch (ids_comp_pnp (pnp_id, [])) pnp_ids_list 0 11"
    using round [of 380] round [of 190] round [of 95] round [of 47] round [of 23] by simp
  also have "\<dots> = bsearch (ids_comp_pnp (pnp_id, [])) (take 11 pnp_ids_list) 0 11"
    by (rule bsearch_cong) simp
  finally show ?thesis .
qed

lemma pnp_first:
  "take 11 pnp_ids_list =
     [(''CSC0000'', ''Crystal Semiconductor CS423x sound -- SB/WSS/OPL3 emulation''),
      (''CSC0001'', ''Crystal Semiconductor CS423x sound -- joystick''),
      (''CSC0003'', ''Crystal Semiconductor CS423x sound -- MPU401''),
      (''CSC0010'', ''Crystal Semiconductor CS423x sound -- control''),
      (''IBM0071'', ''IBM infrared communications device''), (''IBM3760'', ''IBM DSP''),
      (''IBM3780'', ''IBM pointing device''), (''FPI2004'', ''FinePoint Innovations Tablet''),
      (''FUJ02E5'', ''Wacom Serial Pen HID Tablet''), (''FUJ02E6'', ''Fujitsu Serial TouchScreen''),
      (''PNP0000'', ''AT Interrupt Controller'')]"
  by (simp add: pnp_ids_list_def)

lemma pnp_first_found:
  "list_all (\<lambda>e. bsearch (ids_comp_pnp (fst e, [])) (take 11 pnp_ids_list) 0 11 = None \<longleftrightarrow> fst e \<in> set pnp_missed)
     (take 11 pnp_ids_list)"
  unfolding pnp_first by code_simp

lemma pnp_tail_found:
  assumes "e \<in> set pnp_tail"
  shows "bsearch (ids_comp_pnp (fst e, [])) pnp_ids_list 0 380 \<noteq> None"
proof -
  have cmp: "ids_comp_pnp (fst e, []) = ids_comp_pnp e" by (rule ext) (simp add: ids_comp_pnp_def)
  have le: "pnp_le a b" if "i < j" "j < 380" "10 \<le> i" "a = pnp_ids_list ! i" "b = pnp_ids_list ! j" for i j a b
    using sorted_wrt_nth_less [OF pnp_tail_sorted, of "i - 10" "j - 10"] that by (simp add: pnp_tail_def length_pnp)
  have small: "ids_comp_pnp e (pnp_ids_list ! i) > 0" if "i < 10" for i
  proof -
    have "pnp_head ! i \<in> set pnp_head" using that by (simp add: length_pnp)
    then have "pnp_ids_list ! i \<in> set pnp_head" using that by (simp add: pnp_head_def)
    from pnp_head_tail [OF this assms] have "\<not> pnp_le e (pnp_ids_list ! i)" by (simp add: comp_pnp_le)
    then show ?thesis by (simp add: comp_pnp_le)
  qed
  have "splits_range (ids_comp_pnp e) pnp_ids_list"
    unfolding splits_range_def length_pnp
  proof (intro allI impI)
    fix i j :: nat
    assume ij: "i < j \<and> j < 380"
    show "(ids_comp_pnp e (pnp_ids_list ! i) < 0 \<longrightarrow> ids_comp_pnp e (pnp_ids_list ! j) < 0) \<and>
      (ids_comp_pnp e (pnp_ids_list ! j) > 0 \<longrightarrow> ids_comp_pnp e (pnp_ids_list ! i) > 0)"
    proof (cases "i < 10")
      case True
      then show ?thesis using small [of i] by simp
    next
      case False
      then have "pnp_le (pnp_ids_list ! i) (pnp_ids_list ! j)" using le ij by simp
      then show ?thesis unfolding comp_pnp_le using transpD [OF pnp_le_trans] by blast
    qed
  qed
  moreover obtain i where "i < 380" "pnp_ids_list ! i = e"
    using assms by (metis length_pnp(1) in_set_conv_nth in_set_dropD pnp_tail_def)
  moreover have "ids_comp_pnp e e = 0" by (simp add: ids_comp_pnp_def strcasecmp_def strcmp_refl)
  ultimately show ?thesis
    unfolding cmp using bsearch_complete [of "ids_comp_pnp e" pnp_ids_list 0 i 380] by (simp add: length_pnp)
qed

lemma pnp_tail_not_missed: "e \<in> set pnp_tail \<Longrightarrow> fst e \<notin> set pnp_missed"
proof
  assume e: "e \<in> set pnp_tail" "fst e \<in> set pnp_missed"
  then have "fst e \<in> fst ` set pnp_head" by (auto simp: pnp_missed_def pnp_head_def pnp_ids_list_def)
  then obtain a where "a \<in> set pnp_head" "fst a = fst e" by auto
  with pnp_head_tail [of a e] e(1) show False by (simp add: ids_comp_pnp_def strcasecmp_def strcmp_refl)
qed

text \<open>C30: of the identifiers in the Plug and Play table, the search finds all but the last one of IBM and those
  of FinePoint and Fujitsu, which stand out of order; what it finds is the description of an entry with that identifier.
\<close>

theorem ids_find_pnp_outcome:
  assumes "(pnp_id, desc) \<in> set pnp_ids_list"
  shows "case ids_find_pnp pnp_id of
      None \<Rightarrow> pnp_id \<in> {''IBM3780'', ''FPI2004'', ''FUJ02E5'', ''FUJ02E6''}
    | Some d \<Rightarrow> pnp_id \<notin> {''IBM3780'', ''FPI2004'', ''FUJ02E5'', ''FUJ02E6''} \<and>
        (\<exists>i. (i, d) \<in> set pnp_ids_list \<and> strcasecmp pnp_id i = 0)"
proof -
  let ?find = "bsearch (ids_comp_pnp (pnp_id, [])) pnp_ids_list 0 380"
  have "?find = None \<longleftrightarrow> pnp_id \<in> set pnp_missed"
  proof (cases "(pnp_id, desc) \<in> set pnp_head")
    case True
    then have "(pnp_id, desc) \<in> set (take 11 pnp_ids_list)"
      using set_take_subset_set_take [of 10 11 pnp_ids_list] by (auto simp: pnp_head_def)
    with pnp_first_found pnp_head_search [OF _ True] show ?thesis by (auto simp: list_all_iff)
  next
    case False
    with assms have "(pnp_id, desc) \<in> set pnp_tail" by (simp add: pnp_parts)
    from pnp_tail_found [OF this] pnp_tail_not_missed [OF this] show ?thesis by simp
  qed
  moreover have "(fst (pnp_ids_list ! i), snd (pnp_ids_list ! i)) \<in> set pnp_ids_list \<and> strcasecmp pnp_id (fst (pnp_ids_list ! i)) = 0"
    if "?find = Some i" for i
    using bsearch_sound [OF that] by (simp add: ids_comp_pnp_def length_pnp)
  ultimately show ?thesis
    by (cases ?find) (auto simp: ids_find_pnp_def length_pnp pnp_missed_def, metis prod.collapse)
qed

theorem ids_find_pnp_outcome_witness:
  "case ids_find_pnp ''IBM0071'' of
      None \<Rightarrow> ''IBM0071'' \<in> {''IBM3780'', ''FPI2004'', ''FUJ02E5'', ''FUJ02E6''}
    | Some d \<Rightarrow> ''IBM0071'' \<notin> {''IBM3780'', ''FPI2004'', ''FUJ02E5'', ''FUJ02E6''} \<and>
        (\<exists>i. (i, d) \<in> set pnp_ids_list \<and> strcasecmp ''IBM0071'' i = 0)"
  by (rule ids_find_pnp_outcome [where desc = "''IBM infrared communications device''"]) (simp add: pnp_ids_list_def)

end
