(* ===== verification/Hal_Ids_Lines.thy ===== *)
theory Hal_Ids_Lines
  imports Hal_Ids_Props
begin

text \<open>
  Searches in \<open>usb.ids\<close> and \<open>pci.ids\<close> against databases: how the loop over the lines of a file runs through the lines of
  a printed database, and what it has found at the end.
\<close>

section \<open>Files of lines\<close>

definition print_lines :: "string list \<Rightarrow> string" where
  "print_lines ls = concat (map (\<lambda>l. l @ [newline]) ls)"

definition line_ok :: "string \<Rightarrow> bool" where
  "line_ok l \<longleftrightarrow> newline \<notin> set l \<and> nul \<notin> set l \<and> length l < IDS_MAX_LINE_LEN"

text \<open>What the buffer holds behind the line does not matter to the step.\<close>

definition blind_step :: "(nat \<Rightarrow> string \<Rightarrow> 's \<Rightarrow> bool \<times> 's) \<Rightarrow> string \<Rightarrow> bool" where
  "blind_step step l \<longleftrightarrow> (\<forall>r s. step (length l) (l @ nul # r) s = step (length l) (l @ [nul]) s)"

fun run_lines :: "(nat \<Rightarrow> string \<Rightarrow> 's \<Rightarrow> bool \<times> 's) \<Rightarrow> string list \<Rightarrow> 's \<Rightarrow> 's" where
  "run_lines step [] s = s"
| "run_lines step (l # ls) s =
     (case step (length l) (l @ [nul]) s of (True, s) \<Rightarrow> s | (False, s) \<Rightarrow> run_lines step ls s)"

lemma takeWhile_line: "newline \<notin> set l \<Longrightarrow> takeWhile (\<lambda>c. c \<noteq> newline) (l @ newline # r) = l"
  by (induction l) auto

lemma get_line_of:
  assumes "ids_data f = Mapped (p @ l @ newline # r)" "ids_len f = length (p @ l @ newline # r)" "ids_iter_pos f = length p"
    and "line_ok l"
  shows "line_iter_get_line f =
    Inr (length l, f\<lparr>ids_line := l @ nul # drop (length l + 1) (ids_line f), ids_iter_pos := length p + length l + 1\<rparr>)"
  using assms by (simp add: line_iter_get_line_def line_iter_has_more_def takeWhile_line line_ok_def IDS_MAX_LINE_LEN_def Let_def)

lemma line_loop_runs:
  "ids_data f = Mapped (p @ print_lines ls) \<Longrightarrow> ids_len f = length (p @ print_lines ls) \<Longrightarrow> ids_iter_pos f = length p \<Longrightarrow>
   list_all line_ok ls \<Longrightarrow> list_all (blind_step step) ls \<Longrightarrow>
   \<exists>f'. line_loop step f s = Inr (f', run_lines step ls s)"
proof (induction ls arbitrary: f p s)
  case Nil
  then show ?case by (subst line_loop.simps) (simp add: line_iter_has_more_def print_lines_def)
next
  case (Cons l ls)
  let ?f = "f\<lparr>ids_line := l @ nul # drop (length l + 1) (ids_line f), ids_iter_pos := length p + length l + 1\<rparr>"
  have split: "p @ print_lines (l # ls) = p @ l @ newline # print_lines ls" by (simp add: print_lines_def)
  have more: "line_iter_has_more f" using Cons.prems(2,3) by (simp add: line_iter_has_more_def split)
  have get: "line_iter_get_line f = Inr (length l, ?f)"
    by (rule get_line_of) (use Cons.prems in \<open>simp_all add: split\<close>)
  obtain b s' where st: "step (length l) (l @ [nul]) s = (b, s')" by force
  have blind: "blind_step step l" using Cons.prems(5) by simp
  have "step (length l) (l @ nul # drop (length l + 1) (ids_line f)) s = step (length l) (l @ [nul]) s"
    using blind unfolding blind_step_def by blast
  with st have st': "step (length l) (ids_line ?f) s = (b, s')" by simp
  have "\<exists>f'. line_loop step ?f s' = Inr (f', run_lines step ls s')"
    by (rule Cons.IH [of _ "p @ l @ [newline]"]) (use Cons.prems in \<open>simp_all add: split\<close>)
  with more get st st' show ?case by (cases b) (simp_all add: line_loop.simps [of step f])
qed

lemma line_loop_bad: "line_iter_has_more f \<Longrightarrow> line_iter_get_line f = Inl e \<Longrightarrow> line_loop step f s = Inl e"
  by (simp add: line_loop.simps)

definition ids_loaded :: "string \<Rightarrow> ids \<Rightarrow> bool" where
  "ids_loaded contents f \<longleftrightarrow> ids_data f = Mapped contents \<and> ids_len f = length contents"

lemma find_runs:
  assumes "ids_loaded (print_lines ls) f" "list_all line_ok ls" "list_all (blind_step step) ls"
  shows "\<exists>f'. line_loop step (line_iter_init f) s = Inr (f', run_lines step ls s)"
  using line_loop_runs [of "line_iter_init f" "[]" ls step s] assms by (simp add: ids_loaded_def line_iter_init_def)

section \<open>Identifiers and names\<close>

definition id_ok :: "string \<Rightarrow> bool" where
  "id_ok i \<longleftrightarrow> length i = 4 \<and> set i \<subseteq> set ''0123456789abcdef''"

definition name_ok :: "string \<Rightarrow> bool" where
  "name_ok n \<longleftrightarrow> newline \<notin> set n \<and> nul \<notin> set n \<and> length n < 496 \<and> n \<noteq> [] \<and> \<not> is_space (hd n)"

lemma id_ok_chars: "id_ok i \<Longrightarrow> c \<in> set i \<Longrightarrow> c \<notin> {tab, newline, nul, CHR ''#''}"
  by (auto simp: id_ok_def tab_def newline_def nul_def)

lemma id_ok_hd: "id_ok i \<Longrightarrow> hd i \<notin> {tab, CHR ''#''} \<and> i \<noteq> []"
  using id_ok_chars [of i "hd i"] by (cases i) (auto simp: id_ok_def)

lemma name_from_blind: "nul \<notin> set l \<Longrightarrow> i \<le> length l \<Longrightarrow> name_from (l @ nul # r) (length l) i = drop (i + length (takeWhile is_space (drop i l))) l"
proof -
  assume l: "nul \<notin> set l" and i: "i \<le> length l"
  have "name_start (l @ nul # r) (length l) i = i + length (takeWhile is_space (drop i l))"
    using i by (cases "i = length l") (simp_all add: name_start_def)
  moreover have "i + length (takeWhile is_space (drop i l)) \<le> length l"
    using length_takeWhile_le [of is_space "drop i l"] i by simp
  moreover have "cut_at_nul (drop k (l @ nul # r)) = drop k l" if "k \<le> length l" for k
    using that l in_set_dropD [of nul k l] by (auto simp: cut_at_nul_def takeWhile_tail intro!: takeWhile_append2 [THEN trans])
  ultimately show ?thesis by (simp add: name_from_def)
qed

text \<open>The lines of vendors, of products and of subsystems.\<close>

definition vendor_text :: "string \<Rightarrow> string \<Rightarrow> string" where
  "vendor_text i n = i @ ''  '' @ n"

definition product_text :: "string \<Rightarrow> string \<Rightarrow> string" where
  "product_text i n = tab # i @ ''  '' @ n"

definition subsys_text :: "string \<Rightarrow> string \<Rightarrow> string \<Rightarrow> string" where
  "subsys_text i j n = tab # tab # i @ '' '' @ j @ ''  '' @ n"

lemmas entry_texts = vendor_text_def product_text_def subsys_text_def

lemma entry_text_ok:
  assumes "id_ok i" "id_ok j" "name_ok n"
  shows "line_ok (vendor_text i n)" "line_ok (product_text i n)" "line_ok (subsys_text i j n)"
  using assms id_ok_chars [of i] id_ok_chars [of j]
  by (auto simp: entry_texts line_ok_def name_ok_def id_ok_def IDS_MAX_LINE_LEN_def tab_def newline_def nul_def)

lemma takeWhile_name: "name_ok n \<Longrightarrow> takeWhile is_space n = []"
  by (cases n) (auto simp: name_ok_def)

lemma is_space_chars: "is_space CHR '' ''" "is_space tab" "CHR '' '' \<noteq> nul" "CHR '' '' \<noteq> tab"
  by (simp_all add: is_space_def tab_def nul_def)

lemma num_tabs_text: "num_tabs (l @ nul # r) (length l) = length (takeWhile (\<lambda>c. c = tab) l)"
  by (simp add: num_tabs_def)

lemma takeWhile_id: "id_ok i \<Longrightarrow> takeWhile (\<lambda>c. c = tab) (i @ r) = []"
  using id_ok_hd [of i] by (cases i) auto

lemma vendor_line_facts:
  assumes "id_ok i" "name_ok n"
  defines "l \<equiv> vendor_text i n"
  shows "\<not> skipped_line (l @ nul # r) (length l)" "num_tabs (l @ nul # r) (length l) = 0"
    "id_at (l @ nul # r) 0 rep \<longleftrightarrow> i = take 4 rep" "name_from (l @ nul # r) (length l) 4 = n"
proof -
  have i: "length i = 4" using assms(1) by (simp add: id_ok_def)
  have nul: "nul \<notin> set l" using entry_text_ok(1) [OF assms(1,1,2)] by (simp add: l_def line_ok_def)
  show "\<not> skipped_line (l @ nul # r) (length l)" using id_ok_hd [OF assms(1)] i
    by (cases i) (auto simp: l_def vendor_text_def skipped_line_def)
  show "num_tabs (l @ nul # r) (length l) = 0"
    unfolding num_tabs_text by (simp add: l_def vendor_text_def takeWhile_id assms(1))
  show "id_at (l @ nul # r) 0 rep \<longleftrightarrow> i = take 4 rep" using i by (simp add: id_at_def l_def vendor_text_def)
  show "name_from (l @ nul # r) (length l) 4 = n"
    using name_from_blind [OF nul, of 4 r] i takeWhile_name [OF assms(2)] is_space_chars
    by (simp add: l_def vendor_text_def)
qed

lemma product_line_facts:
  assumes "id_ok i" "name_ok n"
  defines "l \<equiv> product_text i n"
  shows "\<not> skipped_line (l @ nul # r) (length l)" "num_tabs (l @ nul # r) (length l) = 1"
    "id_at (l @ nul # r) 1 rep \<longleftrightarrow> i = take 4 rep" "name_from (l @ nul # r) (length l) 5 = n"
proof -
  have i: "length i = 4" using assms(1) by (simp add: id_ok_def)
  have nul: "nul \<notin> set l" using entry_text_ok(2) [OF assms(1,1,2)] by (simp add: l_def line_ok_def)
  show "\<not> skipped_line (l @ nul # r) (length l)" using i by (simp add: l_def product_text_def skipped_line_def tab_def)
  show "num_tabs (l @ nul # r) (length l) = 1"
    unfolding num_tabs_text by (simp add: l_def product_text_def takeWhile_id assms(1))
  show "id_at (l @ nul # r) 1 rep \<longleftrightarrow> i = take 4 rep" using i by (simp add: id_at_def l_def product_text_def)
  show "name_from (l @ nul # r) (length l) 5 = n"
    using name_from_blind [OF nul, of 5 r] i takeWhile_name [OF assms(2)] is_space_chars
    by (simp add: l_def product_text_def)
qed

lemma subsys_line_facts:
  assumes "id_ok i" "id_ok j" "name_ok n"
  defines "l \<equiv> subsys_text i j n"
  shows "\<not> skipped_line (l @ nul # r) (length l)" "num_tabs (l @ nul # r) (length l) = 2"
    "id_at (l @ nul # r) 2 rep \<longleftrightarrow> i = take 4 rep" "id_at (l @ nul # r) 7 rep \<longleftrightarrow> j = take 4 rep"
    "name_from (l @ nul # r) (length l) 11 = n"
proof -
  have i: "length i = 4" "length j = 4" using assms(1,2) by (simp_all add: id_ok_def)
  have nul: "nul \<notin> set l" using entry_text_ok(3) [OF assms(1-3)] by (simp add: l_def line_ok_def)
  show "\<not> skipped_line (l @ nul # r) (length l)" using i by (simp add: l_def subsys_text_def skipped_line_def tab_def)
  show "num_tabs (l @ nul # r) (length l) = 2"
    unfolding num_tabs_text by (simp add: l_def subsys_text_def takeWhile_id assms(1))
  show "id_at (l @ nul # r) 2 rep \<longleftrightarrow> i = take 4 rep" "id_at (l @ nul # r) 7 rep \<longleftrightarrow> j = take 4 rep"
    using i by (simp_all add: id_at_def l_def subsys_text_def)
  show "name_from (l @ nul # r) (length l) 11 = n"
    using name_from_blind [OF nul, of 11 r] i takeWhile_name [OF assms(3)] is_space_chars
    by (simp add: l_def subsys_text_def)
qed

lemma hex_digits_length: "1 \<le> k \<Longrightarrow> n < 16 ^ k \<Longrightarrow> length (hex_digits n) \<le> k"
proof (induction n arbitrary: k rule: hex_digits.induct)
  case (1 n)
  show ?case
  proof (cases "n < 16")
    case True
    with 1 show ?thesis by (simp add: hex_digits.simps)
  next
    case False
    then obtain m where k: "k = Suc m" "1 \<le> m" using 1(2,3) by (cases k; cases "k - 1") auto
    then have "n div 16 < 16 ^ m" using 1(3) by (simp add: less_mult_imp_div_less mult.commute)
    with 1(1) [OF False k(2)] False k show ?thesis by (simp add: hex_digits.simps [of n])
  qed
qed

lemma rep_id_length:
  assumes "0 \<le> v" "v < 65536"
  shows "take 4 (rep_id v) = rep_id v"
proof -
  have "nat v < 16 ^ 4" using assms by simp
  then have "length (hex_digits (nat v)) \<le> 4" by (rule hex_digits_length [rotated]) simp
  with assms show ?thesis by (simp add: rep_id_def snprintf_def Let_def)
qed

section \<open>USB\<close>

type_synonym usb_db = "(string \<times> string \<times> (string \<times> string) list) list"

definition usb_vendor_lines :: "string \<times> string \<times> (string \<times> string) list \<Rightarrow> string list" where
  "usb_vendor_lines v = (case v of (i, n, ps) \<Rightarrow> vendor_text i n # map (\<lambda>(j, m). product_text j m) ps)"

definition usb_lines :: "usb_db \<Rightarrow> string list" where
  "usb_lines db = concat (map usb_vendor_lines db)"

definition products_ok :: "(string \<times> string) list \<Rightarrow> bool" where
  "products_ok ps \<longleftrightarrow> (\<forall>(j, m) \<in> set ps. id_ok j \<and> name_ok m)"

definition usb_db_ok :: "usb_db \<Rightarrow> bool" where
  "usb_db_ok db \<longleftrightarrow> distinct (map fst db) \<and> (\<forall>(i, n, ps) \<in> set db. id_ok i \<and> name_ok n \<and> products_ok ps)"

lemma usb_vendor_step:
  assumes "id_ok i" "name_ok n"
  shows "usb_line vid pid (length (vendor_text i n)) (vendor_text i n @ nul # r) s =
    (False, if vid \<noteq> 0 \<and> i = take 4 (rep_id vid) then s\<lparr>usb_vendor_matched := True, usb_vendor_name := Some n\<rparr>
            else s\<lparr>usb_vendor_matched := False\<rparr>)"
  unfolding usb_line_def if_not_P [OF vendor_line_facts(1) [OF assms]] vendor_line_facts(2-4) [OF assms] by simp

lemma usb_product_step:
  assumes "id_ok i" "name_ok n"
  shows "usb_line vid pid (length (product_text i n)) (product_text i n @ nul # r) s =
    (if usb_vendor_matched s \<and> pid \<noteq> 0 \<and> i = take 4 (rep_id pid) then (True, s\<lparr>usb_product_name := Some n\<rparr>) else (False, s))"
  unfolding usb_line_def if_not_P [OF product_line_facts(1) [OF assms]] product_line_facts(2-4) [OF assms] by simp

lemma usb_lines_ok:
  assumes "usb_db_ok db"
  shows "list_all line_ok (usb_lines db)" "list_all (blind_step (usb_line vid pid)) (usb_lines db)"
proof -
  have "line_ok l \<and> blind_step (usb_line vid pid) l" if "l \<in> set (usb_lines db)" for l
  proof -
    from that consider (v) i n where "l = vendor_text i n" "id_ok i" "name_ok n"
      | (p) i n where "l = product_text i n" "id_ok i" "name_ok n"
      using assms by (fastforce simp: usb_db_ok_def usb_lines_def usb_vendor_lines_def products_ok_def)
    then show ?thesis
      by cases (auto simp: entry_text_ok blind_step_def usb_vendor_step usb_product_step)
  qed
  then show "list_all line_ok (usb_lines db)" "list_all (blind_step (usb_line vid pid)) (usb_lines db)"
    by (auto simp: list_all_iff)
qed

lemma usb_products_run:
  "products_ok ps \<Longrightarrow> pid \<noteq> 0 \<Longrightarrow> run_lines (usb_line vid pid) (map (\<lambda>(j, m). product_text j m) ps @ rest) s =
     (case if usb_vendor_matched s then map_of ps (take 4 (rep_id pid)) else None of
        Some m \<Rightarrow> s\<lparr>usb_product_name := Some m\<rparr>
      | None \<Rightarrow> run_lines (usb_line vid pid) rest s)"
  by (induction ps) (auto simp: products_ok_def usb_product_step)

lemma usb_run:
  assumes "usb_db_ok db" "vid \<noteq> 0" "pid \<noteq> 0" "usb_product_name s = None"
  shows "usb_vendor_name (run_lines (usb_line vid pid) (usb_lines db) s) =
      (case map_of db (take 4 (rep_id vid)) of None \<Rightarrow> usb_vendor_name s | Some (n, ps) \<Rightarrow> Some n) \<and>
    usb_product_name (run_lines (usb_line vid pid) (usb_lines db) s) =
      (case map_of db (take 4 (rep_id vid)) of None \<Rightarrow> None | Some (n, ps) \<Rightarrow> map_of ps (take 4 (rep_id pid)))"
  using assms(1,4)
proof (induction db arbitrary: s)
  case Nil
  then show ?case by (simp add: usb_lines_def)
next
  case (Cons v db)
  obtain i n ps where v: "v = (i, n, ps)" by (cases v)
  have ok: "id_ok i" "name_ok n" "products_ok ps" "usb_db_ok db" using Cons.prems(1) by (auto simp: usb_db_ok_def v)
  have other: "map_of db i = None" using Cons.prems(1) by (auto simp: usb_db_ok_def v map_of_eq_None_iff)
  have lines: "usb_lines ((i, n, ps) # db) = vendor_text i n # map (\<lambda>(j, m). product_text j m) ps @ usb_lines db"
    by (simp add: usb_lines_def usb_vendor_lines_def)
  show ?case
    using Cons.IH [OF ok(4)] Cons.prems(2) ok other assms(2,3)
    by (auto simp: lines v usb_vendor_step usb_products_run split: option.split)
qed

section \<open>PCI\<close>

type_synonym pci_subs = "((string \<times> string) \<times> string) list"
type_synonym pci_products = "(string \<times> string \<times> pci_subs) list"
type_synonym pci_db = "(string \<times> string \<times> pci_products) list"

definition pci_product_lines :: "string \<times> string \<times> pci_subs \<Rightarrow> string list" where
  "pci_product_lines p = (case p of (j, m, subs) \<Rightarrow> product_text j m # map (\<lambda>((a, b), k). subsys_text a b k) subs)"

definition pci_vendor_lines :: "string \<times> string \<times> pci_products \<Rightarrow> string list" where
  "pci_vendor_lines v = (case v of (i, n, ps) \<Rightarrow> vendor_text i n # concat (map pci_product_lines ps))"

definition pci_lines :: "pci_db \<Rightarrow> string list" where
  "pci_lines db = concat (map pci_vendor_lines db)"

definition subs_ok :: "pci_subs \<Rightarrow> bool" where
  "subs_ok subs \<longleftrightarrow> distinct (map fst subs) \<and> (\<forall>((a, b), k) \<in> set subs. id_ok a \<and> id_ok b \<and> name_ok k)"

definition pci_products_ok :: "pci_products \<Rightarrow> bool" where
  "pci_products_ok ps \<longleftrightarrow> distinct (map fst ps) \<and> (\<forall>(j, m, subs) \<in> set ps. id_ok j \<and> name_ok m \<and> subs_ok subs)"

definition pci_db_ok :: "pci_db \<Rightarrow> bool" where
  "pci_db_ok db \<longleftrightarrow> distinct (map fst db) \<and> (\<forall>(i, n, ps) \<in> set db. id_ok i \<and> name_ok n \<and> pci_products_ok ps)"

lemma pci_vendor_step:
  assumes "id_ok i" "name_ok n"
  shows "pci_line vid pid svid spid (length (vendor_text i n)) (vendor_text i n @ nul # r) s =
    (False, s\<lparr>pci_vendor_matched := vid \<noteq> 0 \<and> i = take 4 (rep_id vid),
      pci_subsys_vendor_name := (if pci_subsys_vendor_name s = None \<and> svid \<noteq> 0 \<and> i = take 4 (rep_id svid)
        then Some n else pci_subsys_vendor_name s),
      pci_vendor_name := (if vid \<noteq> 0 \<and> i = take 4 (rep_id vid) then Some n else pci_vendor_name s)\<rparr>)"
  unfolding pci_line_def pci_vendor_line_def Let_def if_not_P [OF vendor_line_facts(1) [OF assms]] vendor_line_facts(2-4) [OF assms]
  by (cases s) simp

lemma pci_product_step:
  assumes "id_ok i" "name_ok n"
  shows "pci_line vid pid svid spid (length (product_text i n)) (product_text i n @ nul # r) s =
    (False, if pci_vendor_matched s \<and> pid \<noteq> 0 \<and> i = take 4 (rep_id pid)
      then s\<lparr>pci_product_matched := True, pci_product_name := Some n\<rparr> else s\<lparr>pci_product_matched := False\<rparr>)"
  unfolding pci_line_def pci_product_line_def Let_def if_not_P [OF product_line_facts(1) [OF assms]] product_line_facts(2-4) [OF assms]
  by simp

lemma pci_subsys_step:
  assumes "id_ok i" "id_ok j" "name_ok n"
  shows "pci_line vid pid svid spid (length (subsys_text i j n)) (subsys_text i j n @ nul # r) s =
    (False, if pci_vendor_matched s \<and> pci_product_matched s \<and> svid \<noteq> 0 \<and> spid \<noteq> 0 \<and> i = take 4 (rep_id svid) \<and> j = take 4 (rep_id spid)
      then s\<lparr>pci_subsys_product_name := Some n\<rparr> else s)"
  unfolding pci_line_def pci_subsys_line_def if_not_P [OF subsys_line_facts(1) [OF assms]] subsys_line_facts(2-5) [OF assms]
  by simp

lemma pci_lines_ok:
  assumes "pci_db_ok db"
  shows "list_all line_ok (pci_lines db)" "list_all (blind_step (pci_line vid pid svid spid)) (pci_lines db)"
proof -
  have "line_ok l \<and> blind_step (pci_line vid pid svid spid) l" if "l \<in> set (pci_lines db)" for l
  proof -
    from that obtain i n ps where v: "(i, n, ps) \<in> set db" "l \<in> set (pci_vendor_lines (i, n, ps))"
      by (auto simp: pci_lines_def)
    have ok: "id_ok i" "name_ok n" "pci_products_ok ps" using assms v(1) by (auto simp: pci_db_ok_def)
    from v(2) consider (v) "l = vendor_text i n" | (p) j m subs where "(j, m, subs) \<in> set ps" "l = product_text j m"
      | (s) j m subs a b k where "(j, m, subs) \<in> set ps" "((a, b), k) \<in> set subs" "l = subsys_text a b k"
      by (fastforce simp: pci_vendor_lines_def pci_product_lines_def)
    then show ?thesis
    proof cases
      case v
      then show ?thesis using ok by (auto simp: entry_text_ok blind_step_def pci_vendor_step)
    next
      case p
      then have "id_ok j" "name_ok m" using ok(3) by (auto simp: pci_products_ok_def)
      with p show ?thesis by (auto simp: entry_text_ok blind_step_def pci_product_step)
    next
      case s
      then have "id_ok a" "id_ok b" "name_ok k" using ok(3) by (fastforce simp: pci_products_ok_def subs_ok_def)+
      with s show ?thesis by (auto simp: entry_text_ok blind_step_def pci_subsys_step)
    qed
  qed
  then show "list_all line_ok (pci_lines db)" "list_all (blind_step (pci_line vid pid svid spid)) (pci_lines db)"
    by (auto simp: list_all_iff)
qed

text \<open>What a group of subsystem lines, and of product lines, adds.\<close>

definition subs_found :: "int \<Rightarrow> int \<Rightarrow> pci_subs \<Rightarrow> string option \<Rightarrow> string option" where
  "subs_found svid spid subs old =
     (if svid = 0 \<or> spid = 0 then old
      else case map_of subs (take 4 (rep_id svid), take 4 (rep_id spid)) of None \<Rightarrow> old | Some k \<Rightarrow> Some k)"

lemma pci_subs_run:
  "subs_ok subs \<Longrightarrow> run_lines (pci_line vid pid svid spid) (map (\<lambda>((a, b), k). subsys_text a b k) subs @ rest) s =
     run_lines (pci_line vid pid svid spid) rest
       (if pci_vendor_matched s \<and> pci_product_matched s
        then s\<lparr>pci_subsys_product_name := subs_found svid spid subs (pci_subsys_product_name s)\<rparr> else s)"
proof (induction subs arbitrary: s)
  case Nil
  then show ?case by (simp add: subs_found_def)
next
  case (Cons e subs)
  obtain a b k where e: "e = ((a, b), k)" by (cases e) auto
  have ok: "id_ok a" "id_ok b" "name_ok k" "subs_ok subs" and new: "map_of subs (a, b) = None"
    using Cons.prems by (auto simp: subs_ok_def e map_of_eq_None_iff)
  show ?case using Cons.IH [OF ok(4)] new by (auto simp: e pci_subsys_step ok subs_found_def)
qed

definition products_found :: "int \<Rightarrow> int \<Rightarrow> int \<Rightarrow> pci_products \<Rightarrow> pci_search \<Rightarrow> pci_search" where
  "products_found pid svid spid ps s =
     (case map_of ps (take 4 (rep_id pid)) of
        None \<Rightarrow> s
      | Some (m, subs) \<Rightarrow> s\<lparr>pci_product_name := Some m,
          pci_subsys_product_name := subs_found svid spid subs (pci_subsys_product_name s)\<rparr>)"

lemma pci_products_run:
  "pci_products_ok ps \<Longrightarrow> pid \<noteq> 0 \<Longrightarrow>
   \<exists>b. run_lines (pci_line vid pid svid spid) (concat (map pci_product_lines ps) @ rest) s =
     run_lines (pci_line vid pid svid spid) rest
       ((if pci_vendor_matched s then products_found pid svid spid ps s else s)\<lparr>pci_product_matched := b\<rparr>)"
proof (induction ps arbitrary: s)
  case Nil
  have "s\<lparr>pci_product_matched := pci_product_matched s\<rparr> = s" by simp
  then show ?case by (auto simp: products_found_def intro: exI [of _ "pci_product_matched s"])
next
  case (Cons p ps)
  obtain j m subs where p: "p = (j, m, subs)" by (cases p)
  have ok: "id_ok j" "name_ok m" "subs_ok subs" "pci_products_ok ps" and new: "map_of ps j = None"
    using Cons.prems by (auto simp: pci_products_ok_def p map_of_eq_None_iff)
  define s1 where "s1 = (if pci_vendor_matched s \<and> j = take 4 (rep_id pid)
    then s\<lparr>pci_product_matched := True, pci_product_name := Some m,
      pci_subsys_product_name := subs_found svid spid subs (pci_subsys_product_name s)\<rparr>
    else s\<lparr>pci_product_matched := False\<rparr>)"
  have "run_lines (pci_line vid pid svid spid) (concat (map pci_product_lines (p # ps)) @ rest) s =
      run_lines (pci_line vid pid svid spid) (concat (map pci_product_lines ps) @ rest) s1"
    using Cons.prems(2) ok by (simp add: p pci_product_lines_def pci_product_step pci_subs_run s1_def)
  moreover obtain b where "run_lines (pci_line vid pid svid spid) (concat (map pci_product_lines ps) @ rest) s1 =
     run_lines (pci_line vid pid svid spid) rest
       ((if pci_vendor_matched s1 then products_found pid svid spid ps s1 else s1)\<lparr>pci_product_matched := b\<rparr>)"
    using Cons.IH [OF ok(4) Cons.prems(2)] by blast
  moreover have "(if pci_vendor_matched s1 then products_found pid svid spid ps s1 else s1)\<lparr>pci_product_matched := b\<rparr> =
      (if pci_vendor_matched s then products_found pid svid spid (p # ps) s else s)\<lparr>pci_product_matched := b\<rparr>" for b
    using new by (cases s) (auto simp: s1_def products_found_def p split: option.split)
  ultimately show ?case by auto
qed

definition pci_found :: "int \<Rightarrow> int \<Rightarrow> int \<Rightarrow> int \<Rightarrow> pci_db \<Rightarrow> pci_search \<Rightarrow> pci_search" where
  "pci_found vid pid svid spid db s =
     (let s = s\<lparr>pci_subsys_vendor_name := (case pci_subsys_vendor_name s of
                 None \<Rightarrow> if svid = 0 then None else map_option fst (map_of db (take 4 (rep_id svid)))
               | Some n \<Rightarrow> Some n)\<rparr>
      in case map_of db (take 4 (rep_id vid)) of
           None \<Rightarrow> s
         | Some (n, ps) \<Rightarrow> products_found pid svid spid ps (s\<lparr>pci_vendor_name := Some n\<rparr>))"

definition same_names :: "pci_search \<Rightarrow> pci_search \<Rightarrow> bool" where
  "same_names s t \<longleftrightarrow> pci_vendor_name s = pci_vendor_name t \<and> pci_product_name s = pci_product_name t \<and>
     pci_subsys_vendor_name s = pci_subsys_vendor_name t \<and> pci_subsys_product_name s = pci_subsys_product_name t"

lemma same_names_trans: "same_names s t \<Longrightarrow> same_names t u \<Longrightarrow> same_names s u"
  by (simp add: same_names_def)

lemma pci_run:
  "pci_db_ok db \<Longrightarrow> vid \<noteq> 0 \<Longrightarrow> pid \<noteq> 0 \<Longrightarrow>
   same_names (run_lines (pci_line vid pid svid spid) (pci_lines db) s) (pci_found vid pid svid spid db s)"
proof (induction db arbitrary: s)
  case Nil
  then show ?case by (auto simp: pci_lines_def pci_found_def same_names_def split: option.split)
next
  case (Cons v db)
  obtain i n ps where v: "v = (i, n, ps)" by (cases v)
  have ok: "id_ok i" "name_ok n" "pci_products_ok ps" "pci_db_ok db" and new: "map_of db i = None"
    using Cons.prems(1) by (auto simp: pci_db_ok_def v map_of_eq_None_iff)
  define s1 where "s1 = s\<lparr>pci_vendor_matched := (i = take 4 (rep_id vid)),
      pci_subsys_vendor_name := (if pci_subsys_vendor_name s = None \<and> svid \<noteq> 0 \<and> i = take 4 (rep_id svid)
        then Some n else pci_subsys_vendor_name s),
      pci_vendor_name := (if i = take 4 (rep_id vid) then Some n else pci_vendor_name s)\<rparr>"
  have "run_lines (pci_line vid pid svid spid) (pci_lines (v # db)) s =
      run_lines (pci_line vid pid svid spid) (concat (map pci_product_lines ps) @ pci_lines db) s1"
    using Cons.prems(2) ok by (simp add: pci_lines_def pci_vendor_lines_def v pci_vendor_step s1_def)
  moreover obtain b where "run_lines (pci_line vid pid svid spid) (concat (map pci_product_lines ps) @ pci_lines db) s1 =
      run_lines (pci_line vid pid svid spid) (pci_lines db)
        ((if pci_vendor_matched s1 then products_found pid svid spid ps s1 else s1)\<lparr>pci_product_matched := b\<rparr>)"
    using pci_products_run [OF ok(3) Cons.prems(3)] by blast
  ultimately have "same_names (run_lines (pci_line vid pid svid spid) (pci_lines (v # db)) s)
      (pci_found vid pid svid spid db ((if pci_vendor_matched s1 then products_found pid svid spid ps s1 else s1)\<lparr>pci_product_matched := b\<rparr>))"
    using Cons.IH [OF ok(4) Cons.prems(2,3)] by simp
  moreover have "same_names (pci_found vid pid svid spid db
      ((if pci_vendor_matched s1 then products_found pid svid spid ps s1 else s1)\<lparr>pci_product_matched := b\<rparr>))
      (pci_found vid pid svid spid (v # db) s)"
    using new by (auto simp: s1_def v pci_found_def products_found_def same_names_def Let_def split: option.split)
  ultimately show ?case by (rule same_names_trans)
qed

section \<open>The searches\<close>

text \<open>The search in a mapped \<open>usb.ids\<close> that prints a database finds the names that a lookup in the database finds: that of
  the vendor, and that of the product among the products of the vendor.
\<close>

theorem usb_names_found:
  assumes "usb_db_ok db" "ids_loaded (print_lines (usb_lines db)) f"
    and "0 < vid" "vid < 65536" "0 < pid" "pid < 65536"
  shows "\<exists>f' s. ids_find_usb vid pid f = Inr (f', s) \<and>
    usb_vendor_name s = map_option fst (map_of db (rep_id vid)) \<and>
    usb_product_name s = Option.bind (map_of db (rep_id vid)) (\<lambda>(n, ps). map_of ps (rep_id pid))"
proof -
  obtain f' where "ids_find_usb vid pid f = Inr (f', run_lines (usb_line vid pid) (usb_lines db) usb_search_start)"
    using find_runs [OF assms(2) usb_lines_ok [OF assms(1)]] unfolding ids_find_usb_def by blast
  then show ?thesis
    using usb_run [OF assms(1), of vid pid usb_search_start] rep_id_length [of vid] rep_id_length [of pid] assms(3-6)
    by (auto simp: usb_search_start_def split: option.splits)
qed

definition demo_usb_db :: usb_db where
  "demo_usb_db = [(''046d'', ''Logitech, Inc.'', [(''c00e'', ''Optical Mouse'')]),
     (''1d6b'', ''Linux Foundation'', [(''0001'', ''1.1 root hub''), (''0002'', ''2.0 root hub'')])]"

definition demo_usb_ids :: ids where
  "demo_usb_ids = \<lparr>ids_data = Mapped (print_lines (usb_lines demo_usb_db)), ids_len = length (print_lines (usb_lines demo_usb_db)),
     ids_iter_pos = 0, ids_line = replicate IDS_MAX_LINE_LEN nul\<rparr>"

lemma demo_usb_ok: "usb_db_ok demo_usb_db"
  by (simp add: demo_usb_db_def usb_db_ok_def products_ok_def id_ok_def name_ok_def newline_def nul_def is_space_def)

lemma demo_reps: "rep_id 0x1d6b = ''1d6b''" "rep_id 2 = ''0002''"
  by (simp_all add: rep_id_def hex_digits.simps snprintf_def Let_def numeral_3_eq_3)

theorem usb_names_found_witness:
  "\<exists>f' s. ids_find_usb 0x1d6b 2 demo_usb_ids = Inr (f', s) \<and> usb_vendor_name s = Some ''Linux Foundation'' \<and>
    usb_product_name s = Some ''2.0 root hub''"
  using usb_names_found [OF demo_usb_ok, of demo_usb_ids "0x1d6b" 2] demo_reps
  by (simp add: ids_loaded_def demo_usb_ids_def) (simp add: demo_usb_db_def)

text \<open>C29: the search in a mapped \<open>pci.ids\<close> that prints a database finds the names of vendor and product, that of the subsystem
  among the subsystems of the product, and that of the subsystem's vendor among all vendors.
\<close>

theorem pci_names_found:
  assumes "pci_db_ok db" "ids_loaded (print_lines (pci_lines db)) f"
    and "0 < vid" "vid < 65536" "0 < pid" "pid < 65536" "0 < svid" "svid < 65536" "0 < spid" "spid < 65536"
  shows "\<exists>f' s. ids_find_pci vid pid svid spid f = Inr (f', s) \<and>
    pci_vendor_name s = map_option fst (map_of db (rep_id vid)) \<and>
    pci_product_name s = Option.bind (map_of db (rep_id vid)) (\<lambda>(n, ps). map_option fst (map_of ps (rep_id pid))) \<and>
    pci_subsys_vendor_name s = map_option fst (map_of db (rep_id svid)) \<and>
    pci_subsys_product_name s = Option.bind (map_of db (rep_id vid)) (\<lambda>(n, ps).
      Option.bind (map_of ps (rep_id pid)) (\<lambda>(m, subs). map_of subs (rep_id svid, rep_id spid)))"
proof -
  let ?s = "run_lines (pci_line vid pid svid spid) (pci_lines db) pci_search_start"
  obtain f' where "ids_find_pci vid pid svid spid f = Inr (f', ?s)"
    using find_runs [OF assms(2) pci_lines_ok [OF assms(1)]] unfolding ids_find_pci_def by blast
  moreover have "same_names ?s (pci_found vid pid svid spid db pci_search_start)"
    by (rule pci_run) (use assms in auto)
  ultimately show ?thesis
    using rep_id_length [of vid] rep_id_length [of pid] rep_id_length [of svid] rep_id_length [of spid] assms(3-10)
    by (auto simp: same_names_def pci_found_def products_found_def subs_found_def pci_search_start_def Let_def split: option.splits)
qed

definition demo_pci_db :: pci_db where
  "demo_pci_db = [(''1d6b'', ''Vendor One'', [(''0002'', ''Product Two'', [((''1d6b'', ''0002''), ''Board'')])])]"

definition demo_pci_ids :: ids where
  "demo_pci_ids = \<lparr>ids_data = Mapped (print_lines (pci_lines demo_pci_db)), ids_len = length (print_lines (pci_lines demo_pci_db)),
     ids_iter_pos = 0, ids_line = replicate IDS_MAX_LINE_LEN nul\<rparr>"

lemma demo_pci_ok: "pci_db_ok demo_pci_db"
  by (simp add: demo_pci_db_def pci_db_ok_def pci_products_ok_def subs_ok_def id_ok_def name_ok_def newline_def nul_def is_space_def)

theorem pci_names_found_witness:
  "\<exists>f' s. ids_find_pci 0x1d6b 2 0x1d6b 2 demo_pci_ids = Inr (f', s) \<and> pci_vendor_name s = Some ''Vendor One'' \<and>
    pci_product_name s = Some ''Product Two'' \<and> pci_subsys_vendor_name s = Some ''Vendor One'' \<and>
    pci_subsys_product_name s = Some ''Board''"
  using pci_names_found [OF demo_pci_ok, of demo_pci_ids "0x1d6b" 2 "0x1d6b" 2] demo_reps
  by (simp add: ids_loaded_def demo_pci_ids_def) (simp add: demo_pci_db_def)

text \<open>When an identifier file exists but cannot be opened or mapped, its length is set and the result of loading is not looked
  at, so that the first search for a name reads through a pointer that is not valid.
\<close>

theorem unreadable_ids_crash:
  assumes "src_stat src = Some n" "0 < n" "\<not> fst (ids_load src ids_start)"
  shows "ids_find_pci vid pid svid spid (fst (ids_init src usb_src)) \<in> {Inl Null_Dereference, Inl Bad_Object}"
  using assms
  by (auto simp: ids_find_pci_def ids_init_def ids_load_def line_iter_init_def line_loop_bad
      line_iter_has_more_def line_iter_get_line_def ids_start_def Let_def split: if_splits option.splits)

theorem unreadable_ids_crash_witness:
  "ids_find_pci 0x1d6b 2 0 0 (fst (ids_init \<lparr>src_stat = Some 10, src_open = False, src_mmap = None\<rparr>
     \<lparr>src_stat = None, src_open = False, src_mmap = None\<rparr>)) \<in> {Inl Null_Dereference, Inl Bad_Object}"
  by (rule unreadable_ids_crash [where n = 10]) (simp_all add: ids_load_def)

end
