(* ===== verification/Hal_Runner.thy ===== *)
theory Hal_Runner
  imports Hal_DBus
begin

text \<open>
  The daemon's side of the runner of helper programs: \<open>hald/hald_runner.c\<close>. The runner is a process of its own; the daemon
  sends it calls over a private connection and keeps a list of the long-running processes it started and the data of the
  runs whose answers are outstanding.

  Calls that are sent are collected in \<open>rn_out\<close>. The records of running processes are allocated, so a list holds their
  addresses; a callback is a number, and what the daemon does in it is a parameter that changes the state. References
  to devices are counted relative to the start.
\<close>

section \<open>State\<close>

record running_process =
  rp_pid :: int
  rp_device :: "nat option"
  rp_cb :: nat
  rp_is_singleton :: bool
  rp_data1 :: nat
  rp_data2 :: nat

record helper_data =
  hb_device :: "nat option"
  hb_cb :: "nat option"
  hb_data1 :: nat
  hb_data2 :: nat

text \<open>A call of a callback: its device, how the process ended, its return code, its error output.\<close>

record run_callback =
  rc_cb :: nat
  rc_device :: "nat option"
  rc_exit :: "32 word"
  rc_return :: int32
  rc_error :: "string list option"
  rc_data1 :: nat
  rc_data2 :: nat

definition HALD_RUN_SUCCESS_VALUE :: "32 word" where
  "HALD_RUN_SUCCESS_VALUE = 0"

definition HALD_RUN_FAILED_VALUE :: "32 word" where
  "HALD_RUN_FAILED_VALUE = 2"

datatype runner_call =
    Call_Start string "string list" "string list" \<comment> \<open>UDI, environment, arguments\<close>
  | Call_StartSingleton "string list" "string list"
  | Call_Run string "string list" "string list" string bool "32 word" \<comment> \<open>input, error on stderr, timeout\<close>
  | Call_Kill string
  | Call_KillAll
  | Call_Shutdown

record runner_state =
  running_processes :: "(nat \<times> running_process) list"
  rn_next :: nat
  runner_connection :: bool \<comment> \<open>not \<open>NULL\<close>\<close>
  runner_server :: bool
  rn_pending :: "(nat \<times> helper_data) list"
  rn_refs :: "nat \<Rightarrow> int"
  rn_out :: "runner_call list"
  rn_called :: "run_callback list"
  rn_notified :: nat \<comment> \<open>how often \<open>method_run_notify\<close> was called\<close>

definition runner_init :: runner_state where
  "runner_init = \<lparr>running_processes = [], rn_next = 0, runner_connection = False, runner_server = False, rn_pending = [],
     rn_refs = (\<lambda>d. 0), rn_out = [], rn_called = [], rn_notified = 0\<rparr>"

text \<open>
  The surroundings: flags of the daemon, environment variables, ConsoleKit, the splitting of command lines, answers of
  the runner to blocking calls, whether a call can be sent, and the effect of a callback.
\<close>

datatype runner_reply = Reply_Return "dvalue list" | Reply_Other

record runner_env =
  re_verbose :: bool
  re_initialising :: bool
  re_syslog :: bool
  re_local_addr :: "string option"
  re_getenv :: "string \<Rightarrow> string option"
  re_ck :: "ck_tracker option"
  re_uname :: "string option"
  re_parse_argv :: "string \<Rightarrow> string list option"
  re_block :: "runner_call \<Rightarrow> runner_reply option"
  re_connected :: bool
  re_notify :: bool
  re_react :: "run_callback \<Rightarrow> runner_state \<Rightarrow> memory_error + runner_state"

definition call_cb :: "runner_env \<Rightarrow> run_callback \<Rightarrow> runner_state \<Rightarrow> memory_error + runner_state" where
  "call_cb E c s = re_react E c (s\<lparr>rn_called := rn_called s @ [c]\<rparr>)"

definition rn_send :: "runner_call \<Rightarrow> runner_state \<Rightarrow> runner_state" where
  "rn_send c s = s\<lparr>rn_out := rn_out s @ [c]\<rparr>"

section \<open>Running processes\<close>

definition running_processes_remove_device :: "nat \<Rightarrow> runner_state \<Rightarrow> runner_state" where
  "running_processes_remove_device d s =
     s\<lparr>running_processes := filter (\<lambda>(a, rp). rp_device rp \<noteq> Some d) (running_processes s)\<rparr>"

definition runner_device_finalized :: "nat \<Rightarrow> runner_state \<Rightarrow> runner_state" where
  "runner_device_finalized d s = running_processes_remove_device d s"

text \<open>
  The callback is called while the process is still in the list. Its record is freed afterwards: when the callback
  has removed it, it is freed twice.
\<close>

definition free_process :: "nat \<Rightarrow> runner_state \<Rightarrow> memory_error + runner_state" where
  "free_process a s =
     (if a \<in> fst ` set (running_processes s)
      then Inr (s\<lparr>running_processes := filter (\<lambda>(b, rp). b \<noteq> a) (running_processes s)\<rparr>)
      else Inl Use_After_Free)"

definition process_exited :: "runner_env \<Rightarrow> int \<Rightarrow> runner_state \<Rightarrow> memory_error + runner_state" where
  "process_exited E pid s =
     (case find (\<lambda>(a, rp). rp_pid rp = pid) (running_processes s) of
        None \<Rightarrow> Inr s
      | Some (a, rp) \<Rightarrow>
          err_bind (call_cb E \<lparr>rc_cb = rp_cb rp, rc_device = rp_device rp, rc_exit = 0, rc_return = 0, rc_error = None,
                               rc_data1 = rp_data1 rp, rc_data2 = rp_data2 rp\<rparr> s) (free_process a))"

text \<open>Messages of the runner: the exit of a process, whose number is cut to \<open>GPid\<close>, or the end of the connection.\<close>

fun get_pid :: "dvalue list \<Rightarrow> int option" where
  "get_pid (D_INT64 pid # vs) = Some (sint (ucast pid :: int32))"
| "get_pid _ = None"

datatype runner_message = StartedProcessExited "dvalue list" | Disconnected | Other_Message

definition runner_server_message_handler :: "runner_env \<Rightarrow> runner_message \<Rightarrow> runner_state \<Rightarrow> memory_error + runner_state" where
  "runner_server_message_handler E m s =
     (case m of
        StartedProcessExited args \<Rightarrow> (case get_pid args of None \<Rightarrow> Inr s | Some pid \<Rightarrow> process_exited E pid s)
      | _ \<Rightarrow> Inr s)"

definition handle_connection :: "runner_state \<Rightarrow> runner_state" where
  "handle_connection s = s\<lparr>runner_connection := True\<rparr>"

definition hald_runner_stop_runner :: "runner_state \<Rightarrow> runner_state" where
  "hald_runner_stop_runner s =
     (if runner_server s then (rn_send Call_Shutdown (s\<lparr>running_processes := []\<rparr>))\<lparr>runner_server := False\<rparr> else s)"

section \<open>The environment of a program\<close>

definition to_upper :: "char \<Rightarrow> char" where
  "to_upper c = (let b = (of_char c :: int) in if 97 \<le> b \<and> b \<le> 122 then char_of (b - 32) else c)"

definition prop_upper :: "string \<Rightarrow> string" where
  "prop_upper key = map (\<lambda>c. if c = CHR ''.'' then CHR ''_'' else c) (map to_upper key)"

definition printed :: "string option \<Rightarrow> string" where
  "printed v = (case v of None \<Rightarrow> ''(null)'' | Some s \<Rightarrow> s)"

definition add_property_to_msg :: "hal_device \<Rightarrow> string \<Rightarrow> string list \<Rightarrow> string list" where
  "add_property_to_msg d key env =
     env @ [''HAL_PROP_'' @ prop_upper key @ ''='' @ printed (hal_device_property_to_string d key)]"

definition add_env :: "string \<Rightarrow> string option \<Rightarrow> string list" where
  "add_env key val = (case val of None \<Rightarrow> [] | Some v \<Rightarrow> [key @ ''='' @ v])"

definition truth :: "bool \<Rightarrow> string" where
  "truth b = (if b then ''true'' else ''false'')"

definition tabbed :: "string list \<Rightarrow> string" where
  "tabbed xs = foldl (\<lambda>acc x. (if length acc > 0 then acc @ [CHR 0x09] else acc) @ x) [] xs"

definition session_env :: "string \<Rightarrow> ck_session \<Rightarrow> string list" where
  "session_env seat_id x =
     add_env (''CK_SESSION_SEAT_'' @ ck_session_get_id x) (Some seat_id) @
     add_env (''CK_SESSION_IS_ACTIVE_'' @ ck_session_get_id x) (Some (truth (session_active x))) @
     add_env (''CK_SESSION_UID_'' @ ck_session_get_id x) (Some (nat_to_string (session_user x mod 2 ^ 32))) @
     add_env (''CK_SESSION_IS_LOCAL_'' @ ck_session_get_id x) (Some (truth (session_local x))) @
     (case session_hostname x of
        Some q \<Rightarrow> if length q > 0 then add_env (''CK_SESSION_HOSTNAME_'' @ ck_session_get_id x) (Some q) else []
      | None \<Rightarrow> [])"

fun sessions_of :: "ck_tracker \<Rightarrow> nat list \<Rightarrow> memory_error + ck_session list" where
  "sessions_of t [] = Inr []"
| "sessions_of t (x # xs) = err_bind (get_session x t) (\<lambda>s. err_bind (sessions_of t xs) (\<lambda>ss. Inr (s # ss)))"

definition seat_env :: "ck_seat \<Rightarrow> ck_session list \<Rightarrow> string list" where
  "seat_env seat xs =
     concat (map (session_env (ck_seat_get_id seat)) xs) @
     add_env (''CK_SEAT_'' @ ck_seat_get_id seat) (Some (tabbed (map ck_session_get_id xs))) @
     add_env (''CK_SEAT_NUM_SESSIONS_'' @ ck_seat_get_id seat) (Some (int_to_string (int (length xs))))"

fun seats_env :: "ck_tracker \<Rightarrow> nat list \<Rightarrow> memory_error + (string list \<times> string list \<times> int)" where
  "seats_env t [] = Inr ([], [], 0)"
| "seats_env t (a # as) =
     err_bind (get_seat a t) (\<lambda>seat.
     err_bind (sessions_of t (seat_sessions seat)) (\<lambda>xs.
     err_bind (seats_env t as) (\<lambda>(env, names, n).
       Inr (seat_env seat xs @ env, ck_seat_get_id seat # names, int (length xs) + n))))"

definition ck_env :: "ck_tracker \<Rightarrow> memory_error + string list" where
  "ck_env t =
     err_bind (seats_env t (tracker_seats t)) (\<lambda>(env, names, n).
       Inr (env @ add_env ''CK_SEATS'' (Some (tabbed names)) @ add_env ''CK_NUM_SESSIONS'' (Some (int_to_string n)) @
            add_env ''CK_NUM_SEATS'' (Some (int_to_string (int (length (tracker_seats t)))))))"

definition add_basic_env :: "runner_env \<Rightarrow> string option \<Rightarrow> memory_error + string list" where
  "add_basic_env E u =
     err_bind (case re_ck E of None \<Rightarrow> Inr [] | Some t \<Rightarrow> ck_env t) (\<lambda>ck.
       Inr ((if re_verbose E then add_env ''HALD_VERBOSE'' (Some ''1'') else []) @
            (if re_initialising E then add_env ''HALD_STARTUP'' (Some ''1'') else []) @
            (if re_syslog E then add_env ''HALD_USE_SYSLOG'' (Some ''1'') else []) @
            add_env ''UDI'' u @ add_env ''HALD_DIRECT_ADDR'' (re_local_addr E) @
            add_env ''LD_LIBRARY_PATH'' (re_getenv E ''LD_LIBRARY_PATH'') @ add_env ''HAVE_POLKIT'' (Some ''1'') @
            add_env ''POLKIT_POLICY_DIR'' (re_getenv E ''POLKIT_POLICY_DIR'') @
            add_env ''POLKIT_DEBUG'' (re_getenv E ''POLKIT_DEBUG'') @ ck @
            add_env ''HALD_UNAME_S'' (map_option (map to_lower) (re_uname E))))"

text \<open>The device, when there is one, with its address.\<close>

type_synonym run_device = "(nat \<times> hal_device) option"

definition dev_addr :: "run_device \<Rightarrow> nat option" where
  "dev_addr d = map_option fst d"

definition add_udi :: "run_device \<Rightarrow> string" where
  "add_udi d = (case d of None \<Rightarrow> [] | Some (a, dev) \<Rightarrow> hal_device_get_udi dev)"

text \<open>The environment and the arguments, or nothing when the command line cannot be split.\<close>

definition add_environment ::
    "runner_env \<Rightarrow> run_device \<Rightarrow> string \<Rightarrow> string list option \<Rightarrow> memory_error + (string list \<times> string list) option" where
  "add_environment E d command_line extra_env =
     err_bind (add_basic_env E (map_option (\<lambda>(a, dev). hal_device_get_udi dev) d)) (\<lambda>basic.
       let props_env = (case d of None \<Rightarrow> []
                        | Some (a, dev) \<Rightarrow> hal_device_property_foreach dev (add_property_to_msg dev) []);
           env = props_env @ basic @ (case extra_env of None \<Rightarrow> [] | Some xs \<Rightarrow> xs)
       in Inr (map_option (\<lambda>argv. (env, argv)) (re_parse_argv E command_line)))"

section \<open>Starting and running programs\<close>

definition new_process ::
    "int \<Rightarrow> nat \<Rightarrow> bool \<Rightarrow> run_device \<Rightarrow> nat \<Rightarrow> nat \<Rightarrow> runner_state \<Rightarrow> runner_state" where
  "new_process pid cb singleton d data1 data2 s =
     s\<lparr>running_processes :=
         (rn_next s, \<lparr>rp_pid = pid, rp_device = (if singleton then None else dev_addr d), rp_cb = cb,
                      rp_is_singleton = singleton, rp_data1 = data1, rp_data2 = data2\<rparr>) # running_processes s,
       rn_next := Suc (rn_next s)\<rparr>"

definition runner_start ::
    "runner_env \<Rightarrow> run_device \<Rightarrow> string \<Rightarrow> string list option \<Rightarrow> bool \<Rightarrow> nat option \<Rightarrow> nat \<Rightarrow> nat \<Rightarrow> runner_state \<Rightarrow>
     memory_error + (bool \<times> runner_state)" where
  "runner_start E d command_line extra_env singleton cb data1 data2 s =
     err_bind (add_environment E d command_line extra_env) (\<lambda>r.
       case r of
         None \<Rightarrow> Inr (False, s)
       | Some (env, argv) \<Rightarrow>
           let c = (if singleton then Call_StartSingleton env argv else Call_Start (add_udi d) env argv);
               s = rn_send c s
           in case re_block E c of
                None \<Rightarrow> Inr (False, s)
              | Some Reply_Other \<Rightarrow> Inr (False, s)
              | Some (Reply_Return args) \<Rightarrow>
                  (case (get_pid args, cb) of
                     (Some pid, Some cb) \<Rightarrow> Inr (True, new_process pid cb singleton d data1 data2 s)
                   | _ \<Rightarrow> Inr (True, s)))"

definition hald_runner_start ::
    "runner_env \<Rightarrow> run_device \<Rightarrow> string \<Rightarrow> string list option \<Rightarrow> nat option \<Rightarrow> nat \<Rightarrow> nat \<Rightarrow> runner_state \<Rightarrow>
     memory_error + (bool \<times> runner_state)" where
  "hald_runner_start E d command_line extra_env cb data1 data2 s =
     runner_start E d command_line extra_env False cb data1 data2 s"

definition hald_runner_start_singleton ::
    "runner_env \<Rightarrow> string \<Rightarrow> string list option \<Rightarrow> nat option \<Rightarrow> nat \<Rightarrow> nat \<Rightarrow> runner_state \<Rightarrow>
     memory_error + (bool \<times> runner_state)" where
  "hald_runner_start_singleton E command_line extra_env cb data1 data2 s =
     runner_start E None command_line extra_env True cb data1 data2 s"

text \<open>The strings that follow the two numbers of an answer, up to the first value that is none.\<close>

fun reply_strings :: "dvalue list \<Rightarrow> string list" where
  "reply_strings (D_STRING v # vs) = v # reply_strings vs"
| "reply_strings _ = []"

text \<open>Exit type, return code and error output; a malformed answer is a failure with the return code read so far.\<close>

definition read_reply :: "runner_reply \<Rightarrow> 32 word \<times> int32 \<times> string list option" where
  "read_reply m =
     (case m of
        Reply_Return (D_UINT32 exitt # D_INT32 code # vs) \<Rightarrow> (exitt, code, Some (reply_strings vs))
      | _ \<Rightarrow> (HALD_RUN_FAILED_VALUE, 0, None))"

definition unref_device :: "nat option \<Rightarrow> runner_state \<Rightarrow> runner_state" where
  "unref_device d s = (case d of None \<Rightarrow> s | Some a \<Rightarrow> s\<lparr>rn_refs := (rn_refs s)(a := rn_refs s a - 1)\<rparr>)"

definition ref_device :: "nat option \<Rightarrow> runner_state \<Rightarrow> runner_state" where
  "ref_device d s = (case d of None \<Rightarrow> s | Some a \<Rightarrow> s\<lparr>rn_refs := (rn_refs s)(a := rn_refs s a + 1)\<rparr>)"

definition reply_handled :: "runner_env \<Rightarrow> nat option \<Rightarrow> runner_state \<Rightarrow> runner_state" where
  "reply_handled E d s =
     (let s = unref_device d s in if re_notify E then s\<lparr>rn_notified := rn_notified s + 1\<rparr> else s)"

definition process_reply :: "runner_env \<Rightarrow> runner_reply \<Rightarrow> helper_data \<Rightarrow> runner_state \<Rightarrow> memory_error + runner_state" where
  "process_reply E m hb s =
     err_bind
       (case hb_cb hb of
          None \<Rightarrow> Inr s
        | Some cb \<Rightarrow>
            (case read_reply m of (exitt, code, err) \<Rightarrow>
               call_cb E \<lparr>rc_cb = cb, rc_device = hb_device hb, rc_exit = exitt, rc_return = code, rc_error = err,
                          rc_data1 = hb_data1 hb, rc_data2 = hb_data2 hb\<rparr> s)) (\<lambda>s. Inr (reply_handled E (hb_device hb) s))"

text \<open>The answer to an outstanding call.\<close>

definition call_notify :: "runner_env \<Rightarrow> nat \<Rightarrow> runner_reply \<Rightarrow> runner_state \<Rightarrow> memory_error + runner_state" where
  "call_notify E serial m s =
     (case map_of (rn_pending s) serial of
        None \<Rightarrow> Inr s
      | Some hb \<Rightarrow> process_reply E m hb (s\<lparr>rn_pending := filter (\<lambda>(k, h). k \<noteq> serial) (rn_pending s)\<rparr>))"

text \<open>A failure calls the callback at once, without looking whether there is one.\<close>

definition run_failed ::
    "runner_env \<Rightarrow> nat option \<Rightarrow> nat option \<Rightarrow> nat \<Rightarrow> nat \<Rightarrow> runner_state \<Rightarrow> memory_error + runner_state" where
  "run_failed E d cb data1 data2 s =
     (case cb of
        None \<Rightarrow> Inl Null_Dereference
      | Some cb \<Rightarrow> call_cb E \<lparr>rc_cb = cb, rc_device = d, rc_exit = HALD_RUN_FAILED_VALUE, rc_return = 0, rc_error = None,
                              rc_data1 = data1, rc_data2 = data2\<rparr> s)"

definition hald_runner_run_method ::
    "runner_env \<Rightarrow> run_device \<Rightarrow> string \<Rightarrow> string list option \<Rightarrow> string \<Rightarrow> bool \<Rightarrow> 32 word \<Rightarrow> nat option \<Rightarrow> nat \<Rightarrow> nat \<Rightarrow>
     runner_state \<Rightarrow> memory_error + runner_state" where
  "hald_runner_run_method E d command_line extra_env input error_on_stderr timeout cb data1 data2 s =
     err_bind (add_environment E d command_line extra_env) (\<lambda>r.
       case r of
         None \<Rightarrow> run_failed E (dev_addr d) cb data1 data2 s
       | Some (env, argv) \<Rightarrow>
           if \<not> re_connected E then run_failed E (dev_addr d) cb data1 data2 s
           else
             let s = rn_send (Call_Run (add_udi d) env argv input error_on_stderr timeout) s;
                 h = \<lparr>hb_device = dev_addr d, hb_cb = cb, hb_data1 = data1, hb_data2 = data2\<rparr>
             in Inr (ref_device (dev_addr d)
                  (s\<lparr>rn_pending := (rn_next s, h) # rn_pending s, rn_next := Suc (rn_next s)\<rparr>)))"

definition hald_runner_run ::
    "runner_env \<Rightarrow> run_device \<Rightarrow> string \<Rightarrow> string list option \<Rightarrow> 32 word \<Rightarrow> nat option \<Rightarrow> nat \<Rightarrow> nat \<Rightarrow> runner_state \<Rightarrow>
     memory_error + runner_state" where
  "hald_runner_run E d command_line extra_env timeout cb data1 data2 s =
     hald_runner_run_method E d command_line extra_env [] False timeout cb data1 data2 s"

text \<open>The blocking variant handles the answer like the other one, but takes no reference to the device before.\<close>

definition hald_runner_run_sync ::
    "runner_env \<Rightarrow> run_device \<Rightarrow> string \<Rightarrow> string list option \<Rightarrow> 32 word \<Rightarrow> nat option \<Rightarrow> nat \<Rightarrow> nat \<Rightarrow> runner_state \<Rightarrow>
     memory_error + runner_state" where
  "hald_runner_run_sync E d command_line extra_env timeout cb data1 data2 s =
     err_bind (add_environment E d command_line extra_env) (\<lambda>r.
       case r of
         None \<Rightarrow> run_failed E (dev_addr d) cb data1 data2 s
       | Some (env, argv) \<Rightarrow>
           let c = Call_Run (add_udi d) env argv [] False timeout; s = rn_send c s
           in case re_block E c of
                None \<Rightarrow> run_failed E (dev_addr d) cb data1 data2 s
              | Some m \<Rightarrow> process_reply E m \<lparr>hb_device = dev_addr d, hb_cb = cb, hb_data1 = data1, hb_data2 = data2\<rparr> s)"

definition hald_runner_kill_device :: "nat \<times> hal_device \<Rightarrow> runner_state \<Rightarrow> runner_state" where
  "hald_runner_kill_device d s =
     rn_send (Call_Kill (hal_device_get_udi (snd d))) (running_processes_remove_device (fst d) s)"

definition hald_runner_kill_all :: "runner_state \<Rightarrow> runner_state" where
  "hald_runner_kill_all s = rn_send Call_KillAll s"

end
