(* ===== verification/Hal_Runner_Props.thy ===== *)
theory Hal_Runner_Props
  imports Hal_Runner
begin

text \<open>
  Properties of the daemon's side of the runner, over arbitrary sequences of requests, answers and messages. What the
  daemon does in a callback is arbitrary but for two laws: it may make further requests, and it does not handle answers
  (\<open>grows\<close>); where a device is gone, it makes no requests for that device (\<open>spares\<close>).
\<close>

section \<open>Sequences of operations\<close>

datatype runner_op =
    Op_Run run_device string "string list option" string bool "32 word" "nat option" nat nat
  | Op_Run_Sync run_device string "string list option" "32 word" "nat option" nat nat
  | Op_Start run_device string "string list option" bool "nat option" nat nat
  | Op_Reply nat runner_reply
  | Op_Message runner_message
  | Op_Kill "nat \<times> hal_device"
  | Op_Kill_All
  | Op_Finalized nat
  | Op_Stop

fun runner_step :: "runner_env \<Rightarrow> runner_op \<Rightarrow> runner_state \<Rightarrow> memory_error + runner_state" where
  "runner_step E (Op_Run d cmd env input err timeout cb data1 data2) s =
     hald_runner_run_method E d cmd env input err timeout cb data1 data2 s"
| "runner_step E (Op_Run_Sync d cmd env timeout cb data1 data2) s =
     hald_runner_run_sync E d cmd env timeout cb data1 data2 s"
| "runner_step E (Op_Start d cmd env singleton cb data1 data2) s =
     err_bind (runner_start E d cmd env singleton cb data1 data2 s) (\<lambda>(ok, s). Inr s)"
| "runner_step E (Op_Reply k m) s = call_notify E k m s"
| "runner_step E (Op_Message m) s = runner_server_message_handler E m s"
| "runner_step E (Op_Kill d) s = Inr (hald_runner_kill_device d s)"
| "runner_step E Op_Kill_All s = Inr (hald_runner_kill_all s)"
| "runner_step E (Op_Finalized d) s = Inr (runner_device_finalized d s)"
| "runner_step E Op_Stop s = Inr (hald_runner_stop_runner s)"

definition runner_run :: "runner_env \<Rightarrow> runner_op list \<Rightarrow> runner_state \<Rightarrow> memory_error + runner_state" where
  "runner_run E ops s = err_fold (runner_step E) ops s"

lemma runner_run_Nil [simp]: "runner_run E [] s = Inr s"
  by (simp add: runner_run_def)

lemma runner_run_Cons: "runner_run E (op # ops) s = err_bind (runner_step E op s) (runner_run E ops)"
  by (simp add: runner_run_def) (metis runner_run_def)

section \<open>References and outstanding calls\<close>

definition outstanding :: "nat \<Rightarrow> runner_state \<Rightarrow> int" where
  "outstanding d s = int (length (filter (\<lambda>(k, h). hb_device h = Some d) (rn_pending s)))"

definition owed :: "nat \<Rightarrow> runner_state \<Rightarrow> int" where
  "owed d s = rn_refs s d - outstanding d s"

definition serials_ok :: "runner_state \<Rightarrow> bool" where
  "serials_ok s \<longleftrightarrow> distinct (map fst (rn_pending s)) \<and> (\<forall>k\<in>set (map fst (rn_pending s)). k < rn_next s)"

definition calls_extend :: "runner_state \<Rightarrow> runner_state \<Rightarrow> bool" where
  "calls_extend s s' \<longleftrightarrow> (\<exists>ext. rn_called s' = rn_called s @ ext)"

definition requests_extend :: "runner_state \<Rightarrow> runner_state \<Rightarrow> bool" where
  "requests_extend s s' \<longleftrightarrow> rn_next s \<le> rn_next s' \<and>
     (\<exists>new. rn_pending s' = new @ rn_pending s \<and> distinct (map fst new) \<and>
        (\<forall>k\<in>set (map fst new). rn_next s \<le> k \<and> k < rn_next s'))"

text \<open>What a callback may do: make requests and call other callbacks.\<close>

definition grows :: "runner_state \<Rightarrow> runner_state \<Rightarrow> bool" where
  "grows s s' \<longleftrightarrow> calls_extend s s' \<and> requests_extend s s' \<and> (\<forall>d. owed d s' = owed d s)"

definition react_grows :: "runner_env \<Rightarrow> bool" where
  "react_grows E \<longleftrightarrow> (\<forall>c s s'. re_react E c s = Inr s' \<longrightarrow> grows s s')"

lemma calls_extend_refl: "rn_called s' = rn_called s \<Longrightarrow> calls_extend s s'"
  by (simp add: calls_extend_def)

lemma calls_extend_trans: "calls_extend s t \<Longrightarrow> calls_extend t u \<Longrightarrow> calls_extend s u"
  by (auto simp: calls_extend_def)

lemma requests_extend_refl: "rn_next s' = rn_next s \<Longrightarrow> rn_pending s' = rn_pending s \<Longrightarrow> requests_extend s s'"
  by (simp add: requests_extend_def)

lemma requests_extend_trans:
  assumes "requests_extend s t" "requests_extend t u"
  shows "requests_extend s u"
proof -
  obtain xs where xs: "rn_pending t = xs @ rn_pending s" "distinct (map fst xs)"
      "\<forall>k\<in>set (map fst xs). rn_next s \<le> k \<and> k < rn_next t" "rn_next s \<le> rn_next t"
    using assms(1) by (auto simp: requests_extend_def)
  obtain ys where ys: "rn_pending u = ys @ rn_pending t" "distinct (map fst ys)"
      "\<forall>k\<in>set (map fst ys). rn_next t \<le> k \<and> k < rn_next u" "rn_next t \<le> rn_next u"
    using assms(2) by (auto simp: requests_extend_def)
  have "distinct (map fst (ys @ xs))" using xs ys by fastforce
  moreover have "\<forall>k\<in>set (map fst (ys @ xs)). rn_next s \<le> k \<and> k < rn_next u" using xs ys by fastforce
  ultimately show ?thesis using xs ys unfolding requests_extend_def
    by (intro conjI exI [of _ "ys @ xs"]) simp_all
qed

lemma grows_refl:
  "rn_called s' = rn_called s \<Longrightarrow> rn_next s' = rn_next s \<Longrightarrow> rn_pending s' = rn_pending s \<Longrightarrow> rn_refs s' = rn_refs s \<Longrightarrow>
   grows s s'"
  by (simp add: grows_def calls_extend_refl requests_extend_refl owed_def outstanding_def)

lemma grows_trans: "grows s t \<Longrightarrow> grows t u \<Longrightarrow> grows s u"
  unfolding grows_def using calls_extend_trans requests_extend_trans by metis

lemma grows_serials: "grows s s' \<Longrightarrow> serials_ok s \<Longrightarrow> serials_ok s'"
  by (fastforce simp: grows_def requests_extend_def serials_ok_def)

lemma grows_lookup: "grows s s' \<Longrightarrow> k < rn_next s \<Longrightarrow> map_of (rn_pending s') k = map_of (rn_pending s) k"
  unfolding grows_def requests_extend_def
  by (elim conjE exE) (force simp: map_add_def split: option.split dest!: map_of_SomeD)

lemma call_cb_grows:
  assumes "react_grows E" "call_cb E c s = Inr s'"
  shows "grows s s' \<and> (\<exists>ext. rn_called s' = rn_called s @ c # ext)"
proof -
  have g: "grows (s\<lparr>rn_called := rn_called s @ [c]\<rparr>) s'"
    using assms by (auto simp: react_grows_def call_cb_def)
  moreover have "grows s (s\<lparr>rn_called := rn_called s @ [c]\<rparr>)"
    by (simp add: grows_def calls_extend_def requests_extend_def owed_def outstanding_def)
  ultimately have "grows s s'" by (rule grows_trans [rotated])
  then show ?thesis using g by (auto simp: grows_def calls_extend_def)
qed


subsection \<open>Every operation\<close>

lemma send_grows: "grows s (rn_send c s)"
  by (rule grows_refl) (simp_all add: rn_send_def)

lemma free_process_grows: "free_process a s = Inr s' \<Longrightarrow> grows s s'"
  by (auto simp: free_process_def intro!: grows_refl split: if_splits)

lemma process_exited_grows:
  assumes "react_grows E" "process_exited E pid s = Inr s'"
  shows "grows s s'"
  using assms(2) grows_trans [OF call_cb_grows [OF assms(1), THEN conjunct1] free_process_grows]
  by (auto simp: process_exited_def grows_refl split: option.splits)

lemma message_grows:
  assumes "react_grows E" "runner_server_message_handler E m s = Inr s'"
  shows "grows s s'"
  using assms process_exited_grows
  by (auto simp: runner_server_message_handler_def grows_refl split: runner_message.splits option.splits)

lemma remove_device_grows: "grows s (running_processes_remove_device d s)"
  by (rule grows_refl) (simp_all add: running_processes_remove_device_def)

lemma stop_grows: "grows s (hald_runner_stop_runner s)"
  by (rule grows_refl) (simp_all add: hald_runner_stop_runner_def rn_send_def)

lemma new_process_grows: "grows s (new_process pid cb singleton d data1 data2 s)"
  by (simp add: grows_def calls_extend_def requests_extend_def owed_def outstanding_def new_process_def)

lemma runner_start_cases:
  assumes "runner_start E d cmd env singleton cb data1 data2 s = Inr (ok, s')"
  obtains (unsent) "s' = s" | (sent) c where "s' = rn_send c s"
    | (running) pid cb c where "s' = new_process pid cb singleton d data1 data2 (rn_send c s)"
proof -
  obtain r where r: "add_environment E d cmd env = Inr r" using assms by (auto simp: runner_start_def)
  then show thesis
    using assms that
    by (cases r) (auto simp: runner_start_def Let_def split: option.split_asm if_split_asm runner_reply.split_asm)
qed

lemma runner_start_grows:
  assumes "runner_start E d cmd env singleton cb data1 data2 s = Inr (ok, s')"
  shows "grows s s'"
  using assms by (rule runner_start_cases)
    (auto simp: grows_refl send_grows intro: grows_trans [OF send_grows new_process_grows])

lemma run_failed_grows:
  assumes "react_grows E" "run_failed E d cb data1 data2 s = Inr s'"
  shows "grows s s'"
  using assms call_cb_grows by (fastforce simp: run_failed_def split: option.splits)

text \<open>A request that is sent takes a reference and is outstanding from then on.\<close>

definition requested :: "run_device \<Rightarrow> nat option \<Rightarrow> nat \<Rightarrow> nat \<Rightarrow> runner_state \<Rightarrow> runner_state" where
  "requested d cb data1 data2 s =
     ref_device (dev_addr d)
       (s\<lparr>rn_pending := (rn_next s, \<lparr>hb_device = dev_addr d, hb_cb = cb, hb_data1 = data1, hb_data2 = data2\<rparr>) # rn_pending s,
          rn_next := Suc (rn_next s)\<rparr>)"

lemma requested_grows: "grows s (requested d cb data1 data2 s)"
  by (auto simp: grows_def calls_extend_def requests_extend_def owed_def outstanding_def requested_def ref_device_def
      dev_addr_def split: option.split)

lemma run_method_cases:
  assumes "hald_runner_run_method E d cmd env input err timeout cb data1 data2 s = Inr s'"
  obtains (failed) "run_failed E (dev_addr d) cb data1 data2 s = Inr s'"
    | (sent) c where "s' = requested d cb data1 data2 (rn_send c s)"
proof -
  obtain r where "add_environment E d cmd env = Inr r" using assms by (auto simp: hald_runner_run_method_def)
  then show thesis
    using assms that by (auto simp: hald_runner_run_method_def requested_def Let_def split: option.splits if_splits)
qed

lemma run_method_grows:
  assumes "react_grows E" "hald_runner_run_method E d cmd env input err timeout cb data1 data2 s = Inr s'"
  shows "grows s s'"
  using assms(2) by (rule run_method_cases)
    (auto intro: run_failed_grows [OF assms(1)] grows_trans [OF send_grows requested_grows])

text \<open>An answer to a call of a device, which gives back one reference.\<close>

definition reply_call :: "runner_reply \<Rightarrow> helper_data \<Rightarrow> nat \<Rightarrow> run_callback" where
  "reply_call m h cb = \<lparr>rc_cb = cb, rc_device = hb_device h, rc_exit = fst (read_reply m), rc_return = fst (snd (read_reply m)),
     rc_error = snd (snd (read_reply m)), rc_data1 = hb_data1 h, rc_data2 = hb_data2 h\<rparr>"

lemma process_reply_calls:
  "process_reply E m h s =
     err_bind (case hb_cb h of None \<Rightarrow> Inr s | Some cb \<Rightarrow> call_cb E (reply_call m h cb) s)
       (\<lambda>s. Inr (reply_handled E (hb_device h) s))"
  by (simp add: process_reply_def reply_call_def split: option.split prod.split)

lemma reply_handled_same [simp]:
  "rn_pending (reply_handled E d s) = rn_pending s" "rn_next (reply_handled E d s) = rn_next s"
  "rn_called (reply_handled E d s) = rn_called s" "running_processes (reply_handled E d s) = running_processes s"
  "rn_refs (reply_handled E d s) = rn_refs (unref_device d s)"
  by (auto simp: reply_handled_def Let_def unref_device_def split: option.splits)

lemma process_reply_called:
  assumes "react_grows E" "process_reply E m h s = Inr s'"
  obtains t where "grows s t" and "s' = reply_handled E (hb_device h) t"
    and "\<forall>cb. hb_cb h = Some cb \<longrightarrow> (\<exists>ext. rn_called t = rn_called s @ reply_call m h cb # ext)"
proof -
  obtain t where t: "s' = reply_handled E (hb_device h) t"
    and c: "case hb_cb h of None \<Rightarrow> t = s | Some cb \<Rightarrow> call_cb E (reply_call m h cb) s = Inr t"
    using assms(2) by (auto simp: process_reply_calls split: option.splits)
  have "grows s t" using c call_cb_grows [OF assms(1)] by (auto simp: grows_refl split: option.splits)
  moreover have "\<forall>cb. hb_cb h = Some cb \<longrightarrow> (\<exists>ext. rn_called t = rn_called s @ reply_call m h cb # ext)"
    using c call_cb_grows [OF assms(1)] by (cases "hb_cb h") auto
  ultimately show thesis using that t by blast
qed

definition answered :: "nat \<Rightarrow> runner_state \<Rightarrow> runner_state" where
  "answered k s = s\<lparr>rn_pending := filter (\<lambda>(j, h). j \<noteq> k) (rn_pending s)\<rparr>"

lemma filter_absent: "k \<notin> fst ` set xs \<Longrightarrow> filter (\<lambda>x. (case x of (j, h) \<Rightarrow> j \<noteq> k) \<and> P x) xs = filter P xs"
  by (rule filter_cong) (force simp: image_iff)+

lemma answered_count:
  "distinct (map fst xs) \<Longrightarrow> map_of xs k = Some h \<Longrightarrow>
   int (length (filter P (filter (\<lambda>(j, h). j \<noteq> k) xs))) = int (length (filter P xs)) - (if P (k, h) then 1 else 0)"
  by (induction xs) (auto simp: filter_absent)

lemma map_of_without: "map_of (filter (\<lambda>(j, h). j \<noteq> k) xs) j = (if j = k then None else map_of xs j)"
  by (induction xs) auto

lemma answered_lookup: "map_of (rn_pending (answered k s)) j = (if j = k then None else map_of (rn_pending s) j)"
  by (simp add: answered_def map_of_without)

lemma answered_owed:
  "serials_ok s \<Longrightarrow> map_of (rn_pending s) k = Some h \<Longrightarrow>
   owed d (answered k s) = owed d s + (if hb_device h = Some d then 1 else 0)"
  by (auto simp: owed_def outstanding_def answered_def serials_ok_def answered_count simp del: filter_filter)

lemma answered_serials: "serials_ok s \<Longrightarrow> serials_ok (answered k s)"
  by (auto simp: serials_ok_def answered_def intro: distinct_map_filter)

text \<open>The serial number that an operation answers.\<close>

fun answers :: "runner_op \<Rightarrow> nat option" where
  "answers (Op_Reply k m) = Some k"
| "answers _ = None"

text \<open>Operations that give back no more references than were taken: all but a blocking run for a device.\<close>

fun balanced_op :: "runner_op \<Rightarrow> bool" where
  "balanced_op (Op_Run_Sync d cmd env timeout cb data1 data2) \<longleftrightarrow> d = None"
| "balanced_op _ \<longleftrightarrow> True"

definition steps_on :: "nat option \<Rightarrow> runner_state \<Rightarrow> runner_state \<Rightarrow> bool" where
  "steps_on a s s' \<longleftrightarrow> calls_extend s s' \<and> serials_ok s' \<and> rn_next s \<le> rn_next s' \<and>
     (\<forall>k<rn_next s. map_of (rn_pending s') k = (if a = Some k then None else map_of (rn_pending s) k))"

lemma grows_steps: "grows s s' \<Longrightarrow> serials_ok s \<Longrightarrow> steps_on None s s'"
  using grows_lookup grows_serials by (simp add: steps_on_def) (simp add: grows_def requests_extend_def)

lemma call_notify_outcome:
  assumes "react_grows E" "serials_ok s" "call_notify E k m s = Inr s'"
  shows "steps_on (Some k) s s' \<and> (\<forall>d. owed d s' = owed d s)"
proof (cases "map_of (rn_pending s) k")
  case None
  then show ?thesis using assms by (auto simp: call_notify_def steps_on_def calls_extend_def)
next
  case (Some h)
  then have "process_reply E m h (answered k s) = Inr s'" using assms(3) by (simp add: call_notify_def answered_def)
  then obtain t where t: "grows (answered k s) t" "s' = reply_handled E (hb_device h) t"
    by (rule process_reply_called [OF assms(1)])
  have st: "steps_on None (answered k s) t" by (rule grows_steps [OF t(1) answered_serials [OF assms(2)]])
  have "owed d s' = owed d t - (if hb_device h = Some d then 1 else 0)" for d
    using t by (auto simp: owed_def outstanding_def unref_device_def split: option.splits)
  then have "owed d s' = owed d s" for d
    using t(1) answered_owed [OF assms(2) Some, of d] by (simp add: grows_def)
  moreover have "steps_on (Some k) s s'"
    using st t by (simp add: steps_on_def serials_ok_def calls_extend_def answered_lookup) (simp add: answered_def)
  ultimately show ?thesis by simp
qed

lemma process_reply_steps:
  assumes "react_grows E" "serials_ok s" "process_reply E m h s = Inr s'"
  shows "steps_on None s s' \<and> (hb_device h = None \<longrightarrow> (\<forall>d. owed d s' = owed d s))"
proof -
  obtain t where t: "grows s t" "s' = reply_handled E (hb_device h) t"
    by (rule process_reply_called [OF assms(1,3)])
  have "steps_on None s s'"
    using grows_steps [OF t(1) assms(2)] t(2) by (simp add: steps_on_def serials_ok_def calls_extend_def)
  moreover have "owed d s' = owed d s" if "hb_device h = None" for d
  proof -
    have "owed d s' = owed d t" using t that by (simp add: owed_def outstanding_def unref_device_def)
    then show ?thesis using t(1) by (simp add: grows_def)
  qed
  ultimately show ?thesis by simp
qed

lemma steps_on_trans_grows: "grows s t \<Longrightarrow> serials_ok s \<Longrightarrow> steps_on None t u \<Longrightarrow> steps_on None s u"
  using grows_steps [of s t] by (auto simp: steps_on_def intro: calls_extend_trans)

lemma run_sync_cases:
  assumes "hald_runner_run_sync E d cmd env timeout cb data1 data2 s = Inr s'"
  obtains (failed) t where "t = s \<or> (\<exists>c. t = rn_send c s)" "run_failed E (dev_addr d) cb data1 data2 t = Inr s'"
    | (reply) c m where "process_reply E m \<lparr>hb_device = dev_addr d, hb_cb = cb, hb_data1 = data1, hb_data2 = data2\<rparr>
        (rn_send c s) = Inr s'"
proof -
  obtain r where "add_environment E d cmd env = Inr r" using assms by (auto simp: hald_runner_run_sync_def)
  then show thesis
    using assms that by (cases r) (auto simp: hald_runner_run_sync_def Let_def split: option.split_asm, blast)
qed

lemma run_sync_steps:
  assumes "react_grows E" "serials_ok s" "hald_runner_run_sync E d cmd env timeout cb data1 data2 s = Inr s'"
  shows "steps_on None s s' \<and> (d = None \<longrightarrow> (\<forall>a. owed a s' = owed a s))"
  using assms(3)
proof (cases rule: run_sync_cases)
  case (failed t)
  then have "grows s t" using send_grows by (auto simp: grows_refl)
  then have "grows s s'" using run_failed_grows [OF assms(1) failed(2)] by (rule grows_trans)
  then show ?thesis using grows_steps [OF _ assms(2)] by (simp add: grows_def)
next
  case (reply c m)
  note steps = process_reply_steps [OF assms(1) grows_serials [OF send_grows assms(2)] reply]
  then have "steps_on None s s'" using steps_on_trans_grows [OF send_grows assms(2)] by blast
  moreover have "owed a (rn_send c s) = owed a s" for a using send_grows [of s c] by (simp add: grows_def)
  ultimately show ?thesis using steps by (simp add: dev_addr_def)
qed

lemma runner_step_outcome:
  assumes "react_grows E" "serials_ok s" "runner_step E op s = Inr s'"
  shows "steps_on (answers op) s s' \<and> (balanced_op op \<longrightarrow> (\<forall>d. owed d s' = owed d s))"
proof -
  have g: ?thesis if "answers op = None" "grows s s'"
    using that grows_steps [OF that(2) assms(2)] by (simp add: grows_def)
  show ?thesis
  proof (cases op)
    case Op_Run
    then show ?thesis using g run_method_grows [OF assms(1)] assms(3) by simp
  next
    case (Op_Run_Sync d cmd env timeout cb data1 data2)
    then show ?thesis using run_sync_steps [OF assms(1,2)] assms(3) by simp
  next
    case Op_Start
    then show ?thesis using g runner_start_grows assms(3) by auto
  next
    case Op_Reply
    then show ?thesis using call_notify_outcome [OF assms(1,2)] assms(3) by simp
  next
    case Op_Message
    then show ?thesis using g message_grows [OF assms(1)] assms(3) by simp
  next
    case (Op_Kill d)
    then show ?thesis
      using g grows_trans [OF remove_device_grows send_grows] assms(3) by (auto simp: hald_runner_kill_device_def)
  next
    case Op_Kill_All
    then show ?thesis using g send_grows assms(3) by (auto simp: hald_runner_kill_all_def)
  next
    case Op_Finalized
    then show ?thesis using g remove_device_grows assms(3) by (auto simp: runner_device_finalized_def)
  next
    case Op_Stop
    then show ?thesis using g stop_grows assms(3) by auto
  qed
qed

lemma runner_run_outcome:
  assumes "react_grows E" "serials_ok s" "runner_run E ops s = Inr s'"
  shows "serials_ok s' \<and> rn_next s \<le> rn_next s' \<and> calls_extend s s' \<and>
    (list_all balanced_op ops \<longrightarrow> (\<forall>d. owed d s' = owed d s)) \<and>
    (\<forall>k<rn_next s. map_of (rn_pending s') k =
       (if Some k \<in> answers ` set ops then None else map_of (rn_pending s) k))"
  using assms(2,3)
proof (induction ops arbitrary: s)
  case Nil
  then show ?case by (simp add: calls_extend_def)
next
  case (Cons op ops)
  then obtain t where t: "runner_step E op s = Inr t" "runner_run E ops t = Inr s'" by (auto simp: runner_run_Cons)
  have st: "steps_on (answers op) s t" "balanced_op op \<longrightarrow> (\<forall>d. owed d t = owed d s)"
    using runner_step_outcome [OF assms(1) Cons.prems(1) t(1)] by simp_all
  then have "serials_ok t" by (simp add: steps_on_def)
  note IH = Cons.IH [OF this t(2)]
  have "calls_extend s s'" using IH st by (auto simp: steps_on_def intro: calls_extend_trans)
  moreover have "map_of (rn_pending s') k = (if Some k \<in> answers ` set (op # ops) then None else map_of (rn_pending s) k)"
    if "k < rn_next s" for k using IH st(1) that by (auto simp: steps_on_def)
  moreover have "rn_next s \<le> rn_next s'" using IH st(1) by (simp add: steps_on_def)
  ultimately show ?case using IH st by simp
qed

lemma runner_init_ok: "serials_ok runner_init \<and> owed d runner_init = 0"
  by (simp add: serials_ok_def owed_def outstanding_def runner_init_def)

section \<open>Runs that nobody else touches\<close>

text \<open>
  A mark tells some runs by their device, callback and data. In a state that \<open>holds_marked\<close> the outstanding calls \<open>X\<close>, these are
  the marked ones, and no process is marked. \<open>undisturbed\<close> steps keep this and call no marked callback.
\<close>

type_synonym run_mark = "nat option \<Rightarrow> nat option \<Rightarrow> nat \<Rightarrow> nat \<Rightarrow> bool"

definition marked_call :: "run_mark \<Rightarrow> run_callback \<Rightarrow> bool" where
  "marked_call M c \<longleftrightarrow> M (rc_device c) (Some (rc_cb c)) (rc_data1 c) (rc_data2 c)"

definition marked_request :: "run_mark \<Rightarrow> helper_data \<Rightarrow> bool" where
  "marked_request M h \<longleftrightarrow> M (hb_device h) (hb_cb h) (hb_data1 h) (hb_data2 h)"

definition marked_process :: "run_mark \<Rightarrow> running_process \<Rightarrow> bool" where
  "marked_process M rp \<longleftrightarrow> M (rp_device rp) (Some (rp_cb rp)) (rp_data1 rp) (rp_data2 rp)"

definition holds_marked :: "run_mark \<Rightarrow> (nat \<times> helper_data) list \<Rightarrow> runner_state \<Rightarrow> bool" where
  "holds_marked M X s \<longleftrightarrow> filter (\<lambda>(k, h). marked_request M h) (rn_pending s) = X \<and>
     (\<forall>rp\<in>snd ` set (running_processes s). \<not> marked_process M rp)"

definition calls_unmarked :: "run_mark \<Rightarrow> runner_state \<Rightarrow> runner_state \<Rightarrow> bool" where
  "calls_unmarked M s s' \<longleftrightarrow> (\<exists>ext. rn_called s' = rn_called s @ ext \<and> (\<forall>c\<in>set ext. \<not> marked_call M c))"

definition undisturbed :: "run_mark \<Rightarrow> (nat \<times> helper_data) list \<Rightarrow> runner_state \<Rightarrow> runner_state \<Rightarrow> bool" where
  "undisturbed M X s s' \<longleftrightarrow> holds_marked M X s' \<and> calls_unmarked M s s'"

text \<open>What a callback does not do: make marked requests, or call other callbacks with the mark.\<close>

definition react_quiet :: "run_mark \<Rightarrow> (nat \<times> helper_data) list \<Rightarrow> runner_env \<Rightarrow> bool" where
  "react_quiet M X E \<longleftrightarrow> (\<forall>c s s'. holds_marked M X s \<longrightarrow> re_react E c s = Inr s' \<longrightarrow> undisturbed M X s s')"

lemma quiet_refl:
  "holds_marked M X s \<Longrightarrow> rn_called s' = rn_called s \<Longrightarrow> rn_pending s' = rn_pending s \<Longrightarrow>
   set (running_processes s') \<subseteq> set (running_processes s) \<Longrightarrow> undisturbed M X s s'"
  by (auto simp: undisturbed_def holds_marked_def calls_unmarked_def)

lemma quiet_trans: "undisturbed M X s t \<Longrightarrow> undisturbed M X t u \<Longrightarrow> undisturbed M X s u"
  by (auto simp: undisturbed_def calls_unmarked_def)

lemma quiet_holds: "undisturbed M X s s' \<Longrightarrow> holds_marked M X s'"
  by (simp add: undisturbed_def)

lemma react_after_call:
  assumes "react_quiet M X E" "holds_marked M X s" "call_cb E c s = Inr s'"
  shows "undisturbed M X (s\<lparr>rn_called := rn_called s @ [c]\<rparr>) s'"
proof -
  have "holds_marked M X (s\<lparr>rn_called := rn_called s @ [c]\<rparr>)" using assms(2) by (simp add: holds_marked_def)
  then show ?thesis using assms(1,3) by (simp add: react_quiet_def call_cb_def)
qed

lemma call_cb_quiet:
  assumes "react_quiet M X E" "holds_marked M X s" "\<not> marked_call M c" "call_cb E c s = Inr s'"
  shows "undisturbed M X s s'"
  using react_after_call [OF assms(1,2,4)] assms(3) by (auto simp: undisturbed_def calls_unmarked_def)

lemma free_process_quiet: "holds_marked M X s \<Longrightarrow> free_process a s = Inr s' \<Longrightarrow> undisturbed M X s s'"
  by (auto simp: free_process_def intro!: quiet_refl split: if_splits)

lemma process_exited_quiet:
  assumes "react_quiet M X E" "holds_marked M X s" "process_exited E pid s = Inr s'"
  shows "undisturbed M X s s'"
proof (cases "find (\<lambda>(a, rp). rp_pid rp = pid) (running_processes s)")
  case None
  then show ?thesis using assms by (auto simp: process_exited_def intro: quiet_refl)
next
  case (Some x)
  then obtain a rp where x: "x = (a, rp)" "(a, rp) \<in> set (running_processes s)"
    by (cases x) (metis find_Some_iff nth_mem)
  then have "\<not> marked_process M rp" using assms(2) by (force simp: holds_marked_def)
  moreover obtain t where c: "call_cb E \<lparr>rc_cb = rp_cb rp, rc_device = rp_device rp, rc_exit = 0, rc_return = 0, rc_error = None,
      rc_data1 = rp_data1 rp, rc_data2 = rp_data2 rp\<rparr> s = Inr t" and "free_process a t = Inr s'"
    using assms(3) Some x by (auto simp: process_exited_def)
  ultimately have "undisturbed M X s t" using call_cb_quiet [OF assms(1,2) _ c] by (simp add: marked_call_def marked_process_def)
  then show ?thesis using \<open>free_process a t = Inr s'\<close> free_process_quiet quiet_holds quiet_trans by blast
qed

text \<open>The operations that make a marked request.\<close>

fun op_marked :: "run_mark \<Rightarrow> runner_op \<Rightarrow> bool" where
  "op_marked M (Op_Run d cmd env input err timeout cb data1 data2) = M (dev_addr d) cb data1 data2"
| "op_marked M (Op_Run_Sync d cmd env timeout cb data1 data2) = M (dev_addr d) cb data1 data2"
| "op_marked M (Op_Start d cmd env singleton cb data1 data2) = M (if singleton then None else dev_addr d) cb data1 data2"
| "op_marked M _ = False"

lemma run_failed_quiet:
  assumes "react_quiet M X E" "holds_marked M X s" "\<not> M a cb data1 data2" "run_failed E a cb data1 data2 s = Inr s'"
  shows "undisturbed M X s s'"
proof -
  obtain c where "cb = Some c" using assms(4) by (auto simp: run_failed_def split: option.splits)
  then show ?thesis
    using assms(3,4) by (auto simp: run_failed_def marked_call_def intro!: call_cb_quiet [OF assms(1,2)])
qed

lemma process_reply_quiet:
  assumes "react_quiet M X E" "holds_marked M X s" "\<not> marked_request M h" "process_reply E m h s = Inr s'"
  shows "undisturbed M X s s'"
proof -
  have "\<not> marked_call M (reply_call m h cb)" if "hb_cb h = Some cb" for cb
    using assms(3) that by (simp add: reply_call_def marked_call_def marked_request_def)
  then obtain t where t: "undisturbed M X s t" "s' = reply_handled E (hb_device h) t"
    using assms(4) call_cb_quiet [OF assms(1,2)] quiet_refl [OF assms(2), of s]
    by (auto simp: process_reply_calls split: option.split_asm)
  have "undisturbed M X t s'" using t quiet_holds [OF t(1)] by (auto intro!: quiet_refl)
  with t(1) show ?thesis by (rule quiet_trans)
qed

lemma holds_answered: "holds_marked M X s \<Longrightarrow> holds_marked M (filter (\<lambda>(j, h). j \<noteq> k) X) (answered k s)"
  by (auto simp: holds_marked_def answered_def conj_commute case_prod_unfold)

lemma call_notify_quiet:
  assumes "react_quiet M X E" "holds_marked M X s" "k \<notin> fst ` set X" "call_notify E k m s = Inr s'"
  shows "undisturbed M X s s'"
proof (cases "map_of (rn_pending s) k")
  case None
  then show ?thesis using assms by (auto simp: call_notify_def intro: quiet_refl)
next
  case (Some h)
  then have "(k, h) \<in> set (rn_pending s)" by (rule map_of_SomeD)
  with assms(2,3) have "\<not> marked_request M h" by (force simp: holds_marked_def)
  moreover have "filter (\<lambda>(j, h). j \<noteq> k) X = X" using assms(3) by (force simp: filter_id_conv)
  then have "holds_marked M X (answered k s)" using holds_answered [OF assms(2), of k] by simp
  ultimately have "undisturbed M X (answered k s) s'"
    using process_reply_quiet [OF assms(1)] assms(4) Some by (simp add: call_notify_def answered_def)
  then show ?thesis by (simp add: undisturbed_def calls_unmarked_def answered_def)
qed

lemma send_quiet: "holds_marked M X s \<Longrightarrow> undisturbed M X s (rn_send c s)"
  by (rule quiet_refl) (simp_all add: rn_send_def)

lemma remove_device_quiet: "holds_marked M X s \<Longrightarrow> undisturbed M X s (running_processes_remove_device a s)"
  by (rule quiet_refl) (auto simp: running_processes_remove_device_def)

lemma stop_quiet: "holds_marked M X s \<Longrightarrow> undisturbed M X s (hald_runner_stop_runner s)"
  by (rule quiet_refl) (auto simp: hald_runner_stop_runner_def rn_send_def)

lemma requested_quiet: "holds_marked M X s \<Longrightarrow> \<not> M (dev_addr a) cb data1 data2 \<Longrightarrow> undisturbed M X s (requested a cb data1 data2 s)"
  by (cases "dev_addr a")
    (auto simp: undisturbed_def holds_marked_def calls_unmarked_def requested_def ref_device_def marked_request_def)

lemma new_process_quiet:
  "holds_marked M X s \<Longrightarrow> \<not> M (if singleton then None else dev_addr a) (Some cb) data1 data2 \<Longrightarrow>
   undisturbed M X s (new_process pid cb singleton a data1 data2 s)"
  by (auto simp: undisturbed_def holds_marked_def calls_unmarked_def new_process_def marked_process_def)

lemma run_sync_quiet:
  assumes "react_quiet M X E" "holds_marked M X s" "\<not> M (dev_addr a) cb data1 data2"
    and "hald_runner_run_sync E a cmd env timeout cb data1 data2 s = Inr s'"
  shows "undisturbed M X s s'"
  using assms(4)
proof (cases rule: run_sync_cases)
  case (failed t)
  then have t: "undisturbed M X s t" using send_quiet [OF assms(2)] quiet_refl [OF assms(2), of s] by auto
  show ?thesis by (rule quiet_trans [OF t run_failed_quiet [where M = M, OF assms(1) quiet_holds [OF t] assms(3) failed(2)]])
next
  case (reply c m)
  have t: "undisturbed M X s (rn_send c s)" by (rule send_quiet [OF assms(2)])
  show ?thesis
    using process_reply_quiet [OF assms(1) quiet_holds [OF t] _ reply] assms(3) quiet_trans [OF t]
    by (simp add: marked_request_def)
qed

lemma runner_start_callback:
  assumes "runner_start E d cmd env singleton cb data1 data2 s = Inr (ok, s')"
  obtains (unsent) "s' = s" | (sent) c where "s' = rn_send c s"
    | (running) pid f c where "cb = Some f" "s' = new_process pid f singleton d data1 data2 (rn_send c s)"
proof -
  obtain r where r: "add_environment E d cmd env = Inr r" using assms by (auto simp: runner_start_def)
  then show thesis
    using assms that
    by (cases r) (auto simp: runner_start_def Let_def split: option.split_asm if_split_asm runner_reply.split_asm)
qed

lemma runner_step_quiet:
  assumes "react_quiet M X E" "holds_marked M X s" "\<not> op_marked M op" "\<forall>k. answers op = Some k \<longrightarrow> k \<notin> fst ` set X"
    and "runner_step E op s = Inr s'"
  shows "undisturbed M X s s'"
proof (cases op)
  case (Op_Run a cmd env input err timeout cb data1 data2)
  have "undisturbed M X s (requested a cb data1 data2 (rn_send c s))" for c
    using send_quiet [OF assms(2)] requested_quiet quiet_holds quiet_trans assms(3) Op_Run by fastforce
  then show ?thesis using assms(3,5) Op_Run
    by (auto elim!: run_method_cases intro: run_failed_quiet [OF assms(1,2)])
next
  case (Op_Run_Sync a cmd env timeout cb data1 data2)
  then show ?thesis using run_sync_quiet [OF assms(1,2)] assms(3,5) by simp
next
  case (Op_Start a cmd env singleton cb data1 data2)
  have "undisturbed M X s (new_process pid f singleton a data1 data2 (rn_send c s))" if "cb = Some f" for pid f c
    using send_quiet [OF assms(2)] new_process_quiet quiet_holds quiet_trans assms(3) Op_Start that by fastforce
  then show ?thesis using assms(5) Op_Start
    by (auto elim!: runner_start_callback intro: quiet_refl [OF assms(2)] send_quiet [OF assms(2)])
next
  case (Op_Message m)
  then show ?thesis using assms(5) process_exited_quiet [OF assms(1,2)] quiet_refl [OF assms(2), of s]
    by (auto simp: runner_server_message_handler_def split: runner_message.splits option.splits)
next
  case (Op_Kill a)
  then show ?thesis using assms(5) remove_device_quiet [OF assms(2)] send_quiet quiet_holds quiet_trans
    by (fastforce simp: hald_runner_kill_device_def)
next
  case (Op_Reply k m)
  then show ?thesis using assms(4,5) call_notify_quiet [OF assms(1,2)] by simp
qed (use assms(2,5) in \<open>auto simp: hald_runner_kill_all_def runner_device_finalized_def
    intro: send_quiet remove_device_quiet stop_quiet\<close>)

lemma runner_run_quiet:
  assumes "react_quiet M X E" "holds_marked M X s" "\<forall>op\<in>set ops. \<not> op_marked M op"
    and "\<forall>k\<in>fst ` set X. Some k \<notin> answers ` set ops" and "runner_run E ops s = Inr s'"
  shows "undisturbed M X s s'"
  using assms(2-)
proof (induction ops arbitrary: s)
  case Nil
  then show ?case by (simp add: quiet_refl)
next
  case (Cons op ops)
  then obtain t where t: "runner_step E op s = Inr t" "runner_run E ops t = Inr s'" by (auto simp: runner_run_Cons)
  have "\<forall>k. answers op = Some k \<longrightarrow> k \<notin> fst ` set X" using Cons.prems(3) by force
  then have st: "undisturbed M X s t" using runner_step_quiet [OF assms(1) Cons.prems(1) _ _ t(1)] Cons.prems(2) by simp
  have "undisturbed M X t s'" using Cons.IH [OF quiet_holds [OF st] _ _ t(2)] Cons.prems(2,3) by simp
  with st show ?case by (rule quiet_trans)
qed

section \<open>A device that is gone\<close>

definition device_clear :: "nat \<Rightarrow> runner_state \<Rightarrow> bool" where
  "device_clear d s \<longleftrightarrow> (\<forall>h\<in>snd ` set (rn_pending s). hb_device h \<noteq> Some d) \<and>
     (\<forall>rp\<in>snd ` set (running_processes s). rp_device rp \<noteq> Some d)"

definition calls_spare :: "nat \<Rightarrow> runner_state \<Rightarrow> runner_state \<Rightarrow> bool" where
  "calls_spare d s s' \<longleftrightarrow> (\<exists>ext. rn_called s' = rn_called s @ ext \<and> (\<forall>c\<in>set ext. rc_device c \<noteq> Some d))"

text \<open>What a callback does not do: make requests for the device, or call other callbacks for it.\<close>

definition spares :: "nat \<Rightarrow> runner_state \<Rightarrow> runner_state \<Rightarrow> bool" where
  "spares d s s' \<longleftrightarrow> device_clear d s' \<and> calls_spare d s s'"

definition react_spares :: "nat \<Rightarrow> runner_env \<Rightarrow> bool" where
  "react_spares d E \<longleftrightarrow> (\<forall>c s s'. device_clear d s \<longrightarrow> re_react E c s = Inr s' \<longrightarrow> spares d s s')"

text \<open>The device that an operation makes a request for.\<close>

fun op_for :: "runner_op \<Rightarrow> nat option" where
  "op_for (Op_Run d cmd env input err timeout cb data1 data2) = dev_addr d"
| "op_for (Op_Run_Sync d cmd env timeout cb data1 data2) = dev_addr d"
| "op_for (Op_Start d cmd env singleton cb data1 data2) = (if singleton then None else dev_addr d)"
| "op_for _ = None"

text \<open>These are the runs with a mark that looks at the device alone.\<close>

definition on_device :: "nat \<Rightarrow> run_mark" where
  "on_device d a cb data1 data2 \<longleftrightarrow> a = Some d"

lemma device_marks:
  "device_clear d s \<longleftrightarrow> holds_marked (on_device d) [] s" "spares d s s' \<longleftrightarrow> undisturbed (on_device d) [] s s'"
  "react_spares d E \<longleftrightarrow> react_quiet (on_device d) [] E" "op_marked (on_device d) op \<longleftrightarrow> op_for op = Some d"
proof -
  show clear: "device_clear d s \<longleftrightarrow> holds_marked (on_device d) [] s" for s
    by (auto simp: device_clear_def holds_marked_def filter_empty_conv marked_request_def marked_process_def on_device_def)
  show spares: "spares d s s' \<longleftrightarrow> undisturbed (on_device d) [] s s'" for s s'
    by (simp add: spares_def undisturbed_def clear calls_spare_def calls_unmarked_def marked_call_def on_device_def)
  show "react_spares d E \<longleftrightarrow> react_quiet (on_device d) [] E" by (simp add: react_spares_def react_quiet_def clear spares)
  show "op_marked (on_device d) op \<longleftrightarrow> op_for op = Some d" by (cases op) (simp_all add: on_device_def)
qed

lemma runner_run_spares:
  assumes "react_spares d E" "device_clear d s" "\<forall>op\<in>set ops. op_for op \<noteq> Some d" "runner_run E ops s = Inr s'"
  shows "spares d s s'"
  using runner_run_quiet [of "on_device d" "[]"] assms by (simp add: device_marks)

text \<open>Without references there are no outstanding calls, and finalizing the device removes its processes.\<close>

lemma outstanding_none: "outstanding d s = 0 \<Longrightarrow> h \<in> snd ` set (rn_pending s) \<Longrightarrow> hb_device h \<noteq> Some d"
  by (force simp: outstanding_def filter_empty_conv)

lemma finalized_clear: "outstanding d s = 0 \<Longrightarrow> device_clear d (runner_device_finalized d s)"
  using outstanding_none [of d s]
  by (auto simp: device_clear_def runner_device_finalized_def running_processes_remove_device_def)

text \<open>A blocking run that is answered gives back a reference to its device that it never took.\<close>

lemma sync_run_drops_reference:
  assumes "react_grows E" "add_environment E (Some (a, dev)) cmd env = Inr (Some (ev, argv))"
    and "re_block E (Call_Run (hal_device_get_udi dev) ev argv [] False timeout) = Some m"
    and "hald_runner_run_sync E (Some (a, dev)) cmd env timeout cb data1 data2 s = Inr s'"
  shows "owed a s' = owed a s - 1"
proof -
  have "process_reply E m \<lparr>hb_device = Some a, hb_cb = cb, hb_data1 = data1, hb_data2 = data2\<rparr>
      (rn_send (Call_Run (hal_device_get_udi dev) ev argv [] False timeout) s) = Inr s'"
    using assms(2-) by (simp add: hald_runner_run_sync_def Let_def add_udi_def dev_addr_def)
  then obtain t where t: "grows (rn_send (Call_Run (hal_device_get_udi dev) ev argv [] False timeout) s) t"
      "s' = reply_handled E (Some a) t"
    using process_reply_called [OF assms(1)] by (metis helper_data.select_convs(1))
  then have "owed a s' = owed a t - 1" by (simp add: owed_def outstanding_def unref_device_def)
  then show ?thesis using grows_trans [OF send_grows t(1)] by (simp add: grows_def)
qed

section \<open>Properties\<close>

text \<open>C25: the references that the runner holds to a device are exactly its calls for the device whose answers are outstanding,
  after any requests, answers, exits of processes and removals of devices, and whatever further requests the callbacks make;
  only a blocking run for a device is left out.
\<close>

theorem runner_references:
  assumes "react_grows E" "list_all balanced_op ops" "runner_run E ops runner_init = Inr s"
  shows "rn_refs s d = outstanding d s"
  using runner_run_outcome [OF assms(1) _ assms(3)] runner_init_ok assms(2) by (simp add: owed_def)

text \<open>C24: a run that is sent is answered by one call of its callback. Whatever happens before the answer, the answer makes exactly
  one call, of the run's callback with its device and data and the results; all else that happens with the answer is what this
  callback does, and the release of the device. After that no answer has an effect on the run. When nothing else makes
  requests with the callback and data of the run, its callback is not called at all before the answer, and once from the
  request to any later time.
\<close>

theorem run_answered_once:
  assumes "react_grows E" "serials_ok s"
    and "add_environment E d cmd env = Inr (Some ea)" "re_connected E"
    and "runner_run E (Op_Run d cmd env input err timeout (Some cb) data1 data2 # before) s = Inr t"
    and "Some (rn_next s) \<notin> answers ` set before"
    and "call_notify E (rn_next s) m t = Inr u" "runner_run E after u = Inr v"
  defines "call \<equiv> \<lparr>rc_cb = cb, rc_device = dev_addr d, rc_exit = fst (read_reply m), rc_return = fst (snd (read_reply m)),
      rc_error = snd (snd (read_reply m)), rc_data1 = data1, rc_data2 = data2\<rparr>"
    and "M \<equiv> \<lambda>a c x y. c = Some cb \<and> x = data1 \<and> y = data2"
  shows "(\<exists>w. re_react E call (t\<lparr>rn_pending := filter (\<lambda>(j, h). j \<noteq> rn_next s) (rn_pending t), rn_called := rn_called t @ [call]\<rparr>) = Inr w \<and>
            u = reply_handled E (dev_addr d) w) \<and>
         call_notify E (rn_next s) m' v = Inr v \<and>
         (holds_marked M [] s \<and> (\<forall>X. react_quiet M X E) \<and> (\<forall>op\<in>set before \<union> set after. \<not> op_marked M op) \<longrightarrow>
            filter (marked_call M) (rn_called t) = filter (marked_call M) (rn_called s) \<and>
            filter (marked_call M) (rn_called u) = filter (marked_call M) (rn_called s) @ [call] \<and>
            filter (marked_call M) (rn_called v) = filter (marked_call M) (rn_called s) @ [call])"
proof -
  let ?k = "rn_next s"
  let ?h = "\<lparr>hb_device = dev_addr d, hb_cb = Some cb, hb_data1 = data1, hb_data2 = data2\<rparr>"
  obtain c where c: "runner_run E before (requested d (Some cb) data1 data2 (rn_send c s)) = Inr t"
    using assms(3-5) by (auto simp: runner_run_Cons hald_runner_run_method_def requested_def Let_def split: prod.splits)
  let ?r = "requested d (Some cb) data1 data2 (rn_send c s)"
  have g: "grows s ?r" by (rule grows_trans [OF send_grows requested_grows])
  have r: "rn_next ?r = Suc ?k" "map_of (rn_pending ?r) ?k = Some ?h" "rn_called ?r = rn_called s"
    by (auto simp: requested_def ref_device_def rn_send_def split: option.split)
  note t = runner_run_outcome [OF assms(1) grows_serials [OF g assms(2)] c]
  then have h: "map_of (rn_pending t) ?k = Some ?h" and k: "?k < rn_next t" using r assms(6) by simp_all
  then have "process_reply E m ?h (answered ?k t) = Inr u" using assms(7) by (simp add: call_notify_def answered_def)
  then obtain w where w: "call_cb E call (answered ?k t) = Inr w" and u: "u = reply_handled E (dev_addr d) w"
    by (auto simp: process_reply_calls reply_call_def call_def)
  have "steps_on (Some ?k) t u" using call_notify_outcome [OF assms(1) _ assms(7)] t by simp
  then have "serials_ok u" "?k < rn_next u" "map_of (rn_pending u) ?k = None" using k by (simp_all add: steps_on_def)
  then have "map_of (rn_pending v) ?k = None" using runner_run_outcome [OF assms(1) _ assms(8)] by simp
  then have done_after: "call_notify E ?k m' v = Inr v" by (simp add: call_notify_def)
  have once: "filter (marked_call M) (rn_called t) = filter (marked_call M) (rn_called s) \<and>
      filter (marked_call M) (rn_called u) = filter (marked_call M) (rn_called s) @ [call] \<and>
      filter (marked_call M) (rn_called v) = filter (marked_call M) (rn_called s) @ [call]"
    if "holds_marked M [] s" and react: "\<forall>X. react_quiet M X E" and ops: "\<forall>op\<in>set before \<union> set after. \<not> op_marked M op"
  proof -
    have "holds_marked M [(?k, ?h)] ?r"
      using that(1) by (auto simp: holds_marked_def requested_def ref_device_def rn_send_def marked_request_def M_def split: option.split)
    then have st: "undisturbed M [(?k, ?h)] ?r t" using runner_run_quiet [OF react [rule_format] _ _ _ c] ops assms(6) by simp
    then have "holds_marked M [] (answered ?k t)" using holds_answered [OF quiet_holds [OF st], of ?k] by simp
    then have tw: "undisturbed M [] ((answered ?k t)\<lparr>rn_called := rn_called (answered ?k t) @ [call]\<rparr>) w"
      using react_after_call react w by blast
    have "undisturbed M [] w u" using quiet_holds [OF tw] by (intro quiet_refl) (simp_all add: u)
    then have "undisturbed M [] u v" using runner_run_quiet [OF react [rule_format] quiet_holds _ _ assms(8)] ops by simp
    moreover have "marked_call M call" by (simp add: marked_call_def call_def M_def)
    ultimately show ?thesis
      using st tw by (auto simp: undisturbed_def calls_unmarked_def r(3) answered_def u filter_empty_conv)
  qed
  show ?thesis using w u done_after once by (auto simp: call_cb_def answered_def)
qed

text \<open>C26: a device that is finalized while the runner holds no reference to it is never passed to a callback again, as long as no new
  requests are made for it.
\<close>

theorem finalized_device_never_called:
  assumes "react_grows E" "react_spares d E"
    and "list_all balanced_op before" "runner_run E before runner_init = Inr s" "rn_refs s d = 0"
    and "\<forall>op\<in>set after. op_for op \<noteq> Some d" "runner_run E after (runner_device_finalized d s) = Inr s'"
  shows "\<exists>calls. rn_called s' = rn_called s @ calls \<and> (\<forall>c\<in>set calls. rc_device c \<noteq> Some d)"
proof -
  have "outstanding d s = 0"
    using runner_run_outcome [OF assms(1) _ assms(4)] runner_init_ok assms(3,5) by (simp add: owed_def)
  then have "spares d (runner_device_finalized d s) s'"
    using runner_run_spares [OF assms(2) finalized_clear assms(6,7)] by blast
  then show ?thesis
    by (simp add: spares_def calls_spare_def runner_device_finalized_def running_processes_remove_device_def)
qed

text \<open>
  For the witnesses: every command line is one word, the runner is connected and does not answer blocking calls, and the callback
  of the first kind runs another program.
\<close>

definition quiet_env :: runner_env where
  "quiet_env = \<lparr>re_verbose = False, re_initialising = False, re_syslog = False, re_local_addr = None, re_getenv = (\<lambda>v. None),
     re_ck = None, re_uname = None, re_parse_argv = (\<lambda>c. Some [c]), re_block = (\<lambda>c. None), re_connected = True,
     re_notify = True, re_react = (\<lambda>c s. Inr s)\<rparr>"

definition busy_env :: runner_env where
  "busy_env = quiet_env\<lparr>re_react := (\<lambda>c s. if rc_cb c = 1 then hald_runner_run quiet_env None ''next'' None 0 (Some 2) 0 0 s else Inr s)\<rparr>"

lemma quiet_grows: "react_grows quiet_env"
  by (auto simp: react_grows_def quiet_env_def grows_refl)

lemma busy_grows: "react_grows busy_env"
  using run_method_grows [OF quiet_grows]
  by (auto simp: react_grows_def busy_env_def hald_runner_run_def grows_refl split: if_splits)

lemma quiet_env_quiet: "react_quiet M X quiet_env"
  by (auto simp: react_quiet_def quiet_env_def intro: quiet_refl)

lemma busy_env_quiet:
  assumes "\<not> M None (Some 2) 0 0"
  shows "react_quiet M X busy_env"
proof -
  have "undisturbed M X s s'" if "holds_marked M X s" "hald_runner_run quiet_env None ''next'' None 0 (Some 2) 0 0 s = Inr s'" for s s'
    using runner_step_quiet [OF quiet_env_quiet that(1), of "Op_Run None ''next'' None [] False 0 (Some 2) 0 0"] that(2) assms
    by (simp add: hald_runner_run_def dev_addr_def)
  then show ?thesis
    by (auto simp: react_quiet_def busy_env_def intro: quiet_refl split: if_splits)
qed

lemma busy_spares: "react_spares d busy_env"
  using busy_env_quiet [of "on_device d"] by (simp add: device_marks) (simp add: on_device_def)

definition demo_device :: run_device where
  "demo_device = Some (7, \<lparr>udi = ''/d'', num_addons = 0, num_addons_ready = 0, props = []\<rparr>)"

definition demo_run :: runner_op where
  "demo_run = Op_Run demo_device ''probe'' None [] False 0 (Some 1) 0 0"

lemma demo_env: "add_environment busy_env demo_device ''probe'' None = Inr (Some ([''UDI=/d'', ''HAVE_POLKIT=1''], [''probe'']))"
  by (simp add: add_environment_def add_basic_env_def busy_env_def quiet_env_def demo_device_def add_env_def
      hal_device_property_foreach_def hal_device_get_udi_def Let_def)

lemmas demo_defs = demo_run_def demo_env runner_run_Cons hald_runner_run_method_def requested_def Let_def rn_send_def
  runner_init_def ref_device_def call_notify_def process_reply_calls reply_call_def reply_handled_def
  unref_device_def read_reply_def hald_runner_run_def

lemma demo_env_quiet: "add_environment quiet_env None ''next'' None = Inr (Some ([''HAVE_POLKIT=1''], [''next'']))"
  by (simp add: add_environment_def add_basic_env_def quiet_env_def add_env_def Let_def)

lemma busy_call: "call_cb busy_env c s =
   (let s = s\<lparr>rn_called := rn_called s @ [c]\<rparr>
    in if rc_cb c = 1 then hald_runner_run quiet_env None ''next'' None 0 (Some 2) 0 0 s else Inr s)"
  by (simp add: call_cb_def busy_env_def Let_def)

lemma demo_flags [simp]: "re_connected busy_env" "re_connected quiet_env" "re_notify busy_env"
  by (simp_all add: busy_env_def quiet_env_def)

lemma demo_addr [simp]: "dev_addr demo_device = Some 7" "dev_addr None = None"
  by (simp_all add: demo_device_def dev_addr_def)

theorem runner_references_witness:
  "\<exists>s. runner_run busy_env [demo_run, demo_run, Op_Reply 0 Reply_Other] runner_init = Inr s \<and>
     outstanding 7 s = 1 \<and> rn_refs s 7 = 1 \<and> length (rn_pending s) = 2"
proof -
  obtain s where s: "runner_run busy_env [demo_run, demo_run, Op_Reply 0 Reply_Other] runner_init = Inr s"
      "outstanding 7 s = 1" "length (rn_pending s) = 2"
    by (simp add: demo_defs busy_call demo_env_quiet outstanding_def)
  then show ?thesis using runner_references [OF busy_grows _ s(1), of 7] by (auto simp: demo_run_def)
qed

theorem run_answered_once_witness:
  "\<exists>t u v. runner_run busy_env [demo_run, Op_Kill_All] runner_init = Inr t \<and>
     call_notify busy_env 0 (Reply_Return [D_UINT32 0, D_INT32 3, D_STRING ''e'']) t = Inr u \<and>
     runner_run busy_env [Op_Run demo_device ''probe'' None [] False 0 (Some 1) 5 0] u = Inr v \<and>
     call_notify busy_env 0 Reply_Other v = Inr v \<and>
     filter (marked_call (\<lambda>a c x y. c = Some 1 \<and> x = 0 \<and> y = 0)) (rn_called v) =
       [\<lparr>rc_cb = 1, rc_device = Some 7, rc_exit = 0, rc_return = 3, rc_error = Some [''e''], rc_data1 = 0, rc_data2 = 0\<rparr>]"
proof -
  let ?m = "Reply_Return [D_UINT32 0, D_INT32 3, D_STRING ''e'']"
  let ?after = "[Op_Run demo_device ''probe'' None [] False 0 (Some 1) 5 0]"
  let ?M = "\<lambda>a c x y. c = Some (1 :: nat) \<and> x = (0 :: nat) \<and> y = (0 :: nat)"
  obtain t u v where r: "runner_run busy_env [demo_run, Op_Kill_All] runner_init = Inr t"
      "call_notify busy_env 0 ?m t = Inr u" "runner_run busy_env ?after u = Inr v"
    by (simp add: demo_defs busy_call demo_env_quiet hald_runner_kill_all_def)
  have init: "rn_next runner_init = 0" "rn_called runner_init = []" "holds_marked ?M [] runner_init"
    by (simp_all add: runner_init_def holds_marked_def)
  have quiet: "\<forall>X. react_quiet ?M X busy_env" by (simp add: busy_env_quiet)
  show ?thesis
    using r run_answered_once [OF busy_grows _ demo_env, of runner_init "[]" False 0 1 0 0 "[Op_Kill_All]" t ?m u ?after v Reply_Other]
      runner_init_ok init quiet by (auto simp: demo_run_def read_reply_def)
qed

theorem finalized_device_never_called_witness:
  "\<exists>s s'. runner_run busy_env [demo_run, Op_Reply 0 Reply_Other] runner_init = Inr s \<and> rn_refs s 7 = 0 \<and>
     runner_run busy_env [Op_Reply 1 Reply_Other] (runner_device_finalized 7 s) = Inr s' \<and> length (rn_called s') = 2 \<and>
     (\<exists>calls. rn_called s' = rn_called s @ calls \<and> (\<forall>c\<in>set calls. rc_device c \<noteq> Some 7))"
proof -
  obtain s s' where r: "runner_run busy_env [demo_run, Op_Reply 0 Reply_Other] runner_init = Inr s" "rn_refs s 7 = 0"
      "runner_run busy_env [Op_Reply 1 Reply_Other] (runner_device_finalized 7 s) = Inr s'" "length (rn_called s') = 2"
    by (simp add: demo_defs busy_call demo_env_quiet runner_device_finalized_def running_processes_remove_device_def)
  then show ?thesis
    using finalized_device_never_called [OF busy_grows busy_spares _ r(1,2) _ r(3)] by (auto simp: demo_run_def)
qed

end
