(* ===== verification/Hal_Helper.thy ===== *)
theory Hal_Helper
  imports Hal_Runner "HOL-Library.AList"
begin

text \<open>
  The process that runs helper programs for the daemon: \<open>hald-runner/runner.c\<close>, \<open>main.c\<close> and \<open>utils.c\<close>. It keeps the data of the
  programs that run in lists per device, and in one list for those started once for many devices; it answers calls,
  and handles the end of programs and timeouts.

  The data of a run is allocated and freed by hand, so it has an address; the lists hold addresses. Calls have serial
  numbers. What is sent, and the signals to processes, is collected in the order of the code.
\<close>

section \<open>State\<close>

record hr_request =
  rq_udi :: "string option"
  rq_environment :: "string list"
  rq_argv :: "string list"
  rq_input :: "string option"
  rq_error_on_stderr :: bool
  rq_is_singleton :: bool
  rq_timeout :: "32 word"

definition new_run_request :: hr_request where
  "new_run_request = \<lparr>rq_udi = None, rq_environment = [], rq_argv = [], rq_input = None, rq_error_on_stderr = False,
     rq_is_singleton = False, rq_timeout = 0\<rparr>"

record run_data =
  rd_r :: hr_request
  rd_msg :: "nat option"
  rd_pid :: int
  rd_stderr :: bool \<comment> \<open>the pipe is open\<close>
  rd_timeout :: bool \<comment> \<open>the timer runs\<close>
  rd_sent_kill :: bool
  rd_emit_pid_exited :: bool

datatype hr_output =
    Send_Reply nat "32 word" int32 "string list"
  | Send_Pid nat int
  | Send_Error nat string
  | Send_Empty nat
  | Send_Exited int
  | Kill_Process int

record hr_state =
  udi_hash :: "(string \<times> nat list) list"
  hr_singletons :: "nat list"
  hr_runs :: "(nat \<times> run_data) list" \<comment> \<open>allocated\<close>
  hr_next :: nat
  hr_out :: "hr_output list"
  hr_ended :: bool

definition run_init :: hr_state where
  "run_init = \<lparr>udi_hash = [], hr_singletons = [], hr_runs = [], hr_next = 0, hr_out = [], hr_ended = False\<rparr>"

definition HALD_RUN_TIMEOUT_VALUE :: "32 word" where
  "HALD_RUN_TIMEOUT_VALUE = 1"

definition HALD_RUN_KILLED_VALUE :: "32 word" where
  "HALD_RUN_KILLED_VALUE = 4"

definition hr_send :: "hr_output \<Rightarrow> hr_state \<Rightarrow> hr_state" where
  "hr_send x s = s\<lparr>hr_out := hr_out s @ [x]\<rparr>"

definition get_run :: "nat \<Rightarrow> hr_state \<Rightarrow> memory_error + run_data" where
  "get_run a s = (case map_of (hr_runs s) a of None \<Rightarrow> Inl Use_After_Free | Some rd \<Rightarrow> Inr rd)"

definition put_run :: "nat \<Rightarrow> run_data \<Rightarrow> hr_state \<Rightarrow> hr_state" where
  "put_run a rd s = s\<lparr>hr_runs := map (\<lambda>(b, x). (b, if b = a then rd else x)) (hr_runs s)\<rparr>"

definition del_run_data :: "nat \<Rightarrow> hr_state \<Rightarrow> hr_state" where
  "del_run_data a s = s\<lparr>hr_runs := AList.delete a (hr_runs s)\<rparr>"

section \<open>Runs\<close>

definition send_reply :: "nat option \<Rightarrow> 32 word \<Rightarrow> int32 \<Rightarrow> string list option \<Rightarrow> hr_state \<Rightarrow> hr_state" where
  "send_reply msg exit_type return_code err s =
     (case msg of
        None \<Rightarrow> s
      | Some m \<Rightarrow> hr_send (Send_Reply m exit_type return_code (case err of None \<Rightarrow> [] | Some es \<Rightarrow> es)) s)"

definition runs_of :: "string \<Rightarrow> hr_state \<Rightarrow> nat list" where
  "runs_of u s = (case map_of (udi_hash s) u of None \<Rightarrow> [] | Some as \<Rightarrow> as)"

definition set_runs :: "string \<Rightarrow> nat list \<Rightarrow> hr_state \<Rightarrow> hr_state" where
  "set_runs u as s = s\<lparr>udi_hash := AList.update u as (udi_hash s)\<rparr>"

definition remove_run_data :: "nat \<Rightarrow> hr_state \<Rightarrow> memory_error + hr_state" where
  "remove_run_data a s =
     err_bind (get_run a s) (\<lambda>rd.
       if rq_is_singleton (rd_r rd) then Inr (s\<lparr>hr_singletons := remove1 a (hr_singletons s)\<rparr>)
       else case rq_udi (rd_r rd) of
              None \<Rightarrow> Inl Null_Dereference
            | Some u \<Rightarrow> Inr (set_runs u (remove1 a (runs_of u s)) s))"

text \<open>How a process ended. The error output is read in lines, each with its end; one character of the end is removed.\<close>

datatype exit_status = Exited "8 word" | Signaled

definition get_string_array_from_fd :: "(string \<times> string) list \<Rightarrow> string list" where
  "get_string_array_from_fd ls = map (\<lambda>(text_of, end_of). cut_at_nul (text_of @ drop 1 end_of)) (take 128 ls)"

definition run_exited :: "nat \<Rightarrow> exit_status \<Rightarrow> (string \<times> string) list \<Rightarrow> hr_state \<Rightarrow> memory_error + hr_state" where
  "run_exited a status err_lines s =
     err_bind (get_run a s) (\<lambda>rd.
       if rd_sent_kill rd then Inr (del_run_data a s)
       else
         let s = (case status of
                    Signaled \<Rightarrow> send_reply (rd_msg rd) HALD_RUN_FAILED_VALUE 0 None s
                  | Exited code \<Rightarrow>
                      send_reply (rd_msg rd) HALD_RUN_SUCCESS_VALUE (ucast code)
                        (if rd_stderr rd then Some (get_string_array_from_fd err_lines) else None) s)
         in err_bind (remove_run_data a s) (\<lambda>s.
              Inr (del_run_data a (if rd_emit_pid_exited rd then hr_send (Send_Exited (rd_pid rd)) s else s))))"

definition run_timedout :: "nat \<Rightarrow> hr_state \<Rightarrow> memory_error + hr_state" where
  "run_timedout a s =
     err_bind (get_run a s) (\<lambda>rd.
       let s = put_run a (rd\<lparr>rd_timeout := False, rd_sent_kill := True\<rparr>) (hr_send (Kill_Process (rd_pid rd)) s)
       in remove_run_data a (send_reply (rd_msg rd) HALD_RUN_TIMEOUT_VALUE 0 None s))"

text \<open>The search for a program by the last element of its path, and its start, with arguments and environment.\<close>

record hr_system =
  sys_find :: "string \<Rightarrow> string option"
  sys_spawn :: "string list \<Rightarrow> string list \<Rightarrow> int option"
  sys_path :: string

definition find_program :: "hr_system \<Rightarrow> string list \<Rightarrow> string list option" where
  "find_program W argv =
     (case argv of [] \<Rightarrow> None | p # ps \<Rightarrow> (case sys_find W p of None \<Rightarrow> None | Some path \<Rightarrow> Some (path # ps)))"

definition add_run :: "nat \<Rightarrow> hr_request \<Rightarrow> hr_state \<Rightarrow> memory_error + hr_state" where
  "add_run a r s =
     (if rq_is_singleton r then Inr (s\<lparr>hr_singletons := a # hr_singletons s\<rparr>)
      else case rq_udi r of
             None \<Rightarrow> Inl Null_Dereference
           | Some u \<Rightarrow> Inr (set_runs u (a # runs_of u s) s))"

definition run_request_run ::
    "hr_system \<Rightarrow> hr_request \<Rightarrow> nat option \<Rightarrow> bool \<Rightarrow> hr_state \<Rightarrow> memory_error + (int option \<times> hr_state)" where
  "run_request_run W r msg out_pid s =
     (case find_program W (rq_argv r) of
        None \<Rightarrow> Inr (None, send_reply msg HALD_RUN_FAILED_VALUE 0 None s)
      | Some argv \<Rightarrow>
          (case sys_spawn W argv (rq_environment r) of
             None \<Rightarrow> Inr (None, send_reply msg HALD_RUN_FAILED_VALUE 0 None s)
           | Some pid \<Rightarrow>
               let a = hr_next s; r = r\<lparr>rq_argv := argv\<rparr>;
                   rd = \<lparr>rd_r = r, rd_msg = msg, rd_pid = pid, rd_stderr = rq_error_on_stderr r,
                         rd_timeout = (rq_timeout r > 0), rd_sent_kill = False, rd_emit_pid_exited = out_pid\<rparr>
               in err_bind (add_run a r (s\<lparr>hr_runs := (a, rd) # hr_runs s, hr_next := Suc a\<rparr>)) (\<lambda>s. Inr (Some pid, s))))"

section \<open>Killing\<close>

definition kill_rd :: "nat \<Rightarrow> hr_state \<Rightarrow> memory_error + hr_state" where
  "kill_rd a s =
     err_bind (get_run a s) (\<lambda>rd.
       Inr (send_reply (rd_msg rd) HALD_RUN_KILLED_VALUE 0 None
              (put_run a (rd\<lparr>rd_timeout := False, rd_sent_kill := True\<rparr>) (hr_send (Kill_Process (rd_pid rd)) s))))"

definition do_kill_udi :: "string \<Rightarrow> hr_state \<Rightarrow> memory_error + hr_state" where
  "do_kill_udi u s = err_fold kill_rd (runs_of u s) s"

definition run_kill_udi :: "string \<Rightarrow> hr_state \<Rightarrow> memory_error + hr_state" where
  "run_kill_udi u s =
     err_bind (do_kill_udi u s) (\<lambda>s. Inr (s\<lparr>udi_hash := AList.delete u (udi_hash s)\<rparr>))"

text \<open>The list of the programs that were started once is not emptied.\<close>

definition run_kill_all :: "hr_state \<Rightarrow> memory_error + hr_state" where
  "run_kill_all s =
     err_bind (err_fold do_kill_udi (map fst (udi_hash s)) s) (\<lambda>s.
       err_fold kill_rd (hr_singletons s) (s\<lparr>udi_hash := []\<rparr>))"

section \<open>Calls\<close>

text \<open>The arguments of a call, with the rest behind what was read. After the UDI there has to be a value.\<close>

fun parse_udi :: "hr_request \<Rightarrow> dvalue list \<Rightarrow> (hr_request \<times> dvalue list) option" where
  "parse_udi r (D_STRING u # v # vs) = Some (r\<lparr>rq_udi := Some u\<rparr>, v # vs)"
| "parse_udi r _ = None"

fun parse_environment :: "hr_system \<Rightarrow> hr_request \<Rightarrow> dvalue list \<Rightarrow> (hr_request \<times> dvalue list) option" where
  "parse_environment W r (D_ARRAY t env # D_ARRAY t' argv # vs) =
     Some (r\<lparr>rq_environment := reply_strings env @ [''PATH=/sbin:/usr/sbin:/bin:/usr/bin:'' @ sys_path W],
             rq_argv := reply_strings argv\<rparr>, vs)"
| "parse_environment W r _ = None"

fun parse_run :: "hr_request \<Rightarrow> dvalue list \<Rightarrow> hr_request option" where
  "parse_run r (D_STRING i # D_BOOLEAN e # D_UINT32 t # vs) =
     Some (r\<lparr>rq_input := Some i, rq_error_on_stderr := e, rq_timeout := t\<rparr>)"
| "parse_run r _ = None"

definition read_run :: "hr_system \<Rightarrow> dvalue list \<Rightarrow> hr_request option" where
  "read_run W args =
     (case parse_udi new_run_request args of
        None \<Rightarrow> None
      | Some (r, vs) \<Rightarrow>
          (case parse_environment W r vs of None \<Rightarrow> None | Some (r, vs) \<Rightarrow> parse_run r vs))"

definition handle_run :: "hr_system \<Rightarrow> nat \<Rightarrow> dvalue list \<Rightarrow> hr_state \<Rightarrow> memory_error + hr_state" where
  "handle_run W m args s =
     (if args = [] then Inl Fatal
      else case read_run W args of
             None \<Rightarrow> Inr (hr_send (Send_Error m ''org.freedesktop.HalRunner.Malformed'') s)
           | Some r \<Rightarrow> err_bind (run_request_run W r (Some m) False s) (\<lambda>(pid, s). Inr s))"

definition read_start :: "hr_system \<Rightarrow> bool \<Rightarrow> dvalue list \<Rightarrow> hr_request option" where
  "read_start W singleton args =
     (case (if singleton then Some (new_run_request\<lparr>rq_is_singleton := True\<rparr>, args) else parse_udi new_run_request args) of
        None \<Rightarrow> None
      | Some (r, vs) \<Rightarrow> map_option fst (parse_environment W r vs))"

definition handle_start :: "hr_system \<Rightarrow> nat \<Rightarrow> dvalue list \<Rightarrow> bool \<Rightarrow> hr_state \<Rightarrow> memory_error + hr_state" where
  "handle_start W m args singleton s =
     (if args = [] then Inl Fatal
      else case read_start W singleton args of
             None \<Rightarrow> Inr (hr_send (Send_Error m ''org.freedesktop.HalRunner.Malformed'') s)
           | Some r \<Rightarrow>
               err_bind (run_request_run W r None True s) (\<lambda>(pid, s).
                 Inr (hr_send (case pid of None \<Rightarrow> Send_Error m ''org.freedesktop.HalRunner.Failed'' | Some p \<Rightarrow> Send_Pid m p) s)))"

fun handle_kill :: "nat \<Rightarrow> dvalue list \<Rightarrow> hr_state \<Rightarrow> memory_error + hr_state" where
  "handle_kill m (D_STRING u # vs) s = err_bind (run_kill_udi u s) (\<lambda>s. Inr (hr_send (Send_Empty m) s))"
| "handle_kill m _ s = Inr (hr_send (Send_Error m ''org.freedesktop.HalRunner.Malformed'') s)"

datatype hr_method = M_Run | M_Start | M_StartSingleton | M_Kill | M_Shutdown | M_KillAll | M_Other

definition runner_filter :: "hr_system \<Rightarrow> hr_method \<Rightarrow> nat \<Rightarrow> dvalue list \<Rightarrow> hr_state \<Rightarrow> memory_error + hr_state" where
  "runner_filter W meth m args s =
     (case meth of
        M_Run \<Rightarrow> handle_run W m args s
      | M_Start \<Rightarrow> handle_start W m args False s
      | M_StartSingleton \<Rightarrow> handle_start W m args True s
      | M_Kill \<Rightarrow> handle_kill m args s
      | M_Shutdown \<Rightarrow> err_bind (run_kill_all s) (\<lambda>s. Inr (s\<lparr>hr_ended := True\<rparr>))
      | M_KillAll \<Rightarrow> err_bind (run_kill_all s) (\<lambda>s. Inr (hr_send (Send_Empty m) s))
      | M_Other \<Rightarrow> Inr s)"

text \<open>
  What the main loop does: a call, the exit of a process that runs, the timer of a run. Exits are watched until the data of the
  run is freed, and a timer that was removed does not fire.
\<close>

datatype hr_event =
    Ev_Call hr_system hr_method nat "dvalue list"
  | Ev_Exited nat exit_status "(string \<times> string) list"
  | Ev_Timeout nat

fun helper_step :: "hr_event \<Rightarrow> hr_state \<Rightarrow> memory_error + hr_state" where
  "helper_step (Ev_Call W meth m args) s = (if hr_ended s then Inr s else runner_filter W meth m args s)"
| "helper_step (Ev_Exited a status err_lines) s =
     (if hr_ended s \<or> map_of (hr_runs s) a = None then Inr s else run_exited a status err_lines s)"
| "helper_step (Ev_Timeout a) s =
     (case map_of (hr_runs s) a of
        Some rd \<Rightarrow> if \<not> hr_ended s \<and> rd_timeout rd then run_timedout a s else Inr s
      | None \<Rightarrow> Inr s)"

definition helper_run :: "hr_event list \<Rightarrow> hr_state \<Rightarrow> memory_error + hr_state" where
  "helper_run evs s = err_fold helper_step evs s"

section \<open>Messages between the daemon and the runner\<close>

text \<open>The arguments that the daemon appends to its calls, and the values of an answer.\<close>

fun call_args :: "runner_call \<Rightarrow> hr_method \<times> dvalue list" where
  "call_args (Call_Start u env argv) =
     (M_Start, [D_STRING u, D_ARRAY T_STRING (map D_STRING env), D_ARRAY T_STRING (map D_STRING argv)])"
| "call_args (Call_StartSingleton env argv) =
     (M_StartSingleton, [D_ARRAY T_STRING (map D_STRING env), D_ARRAY T_STRING (map D_STRING argv)])"
| "call_args (Call_Run u env argv input error_on_stderr timeout) =
     (M_Run, [D_STRING u, D_ARRAY T_STRING (map D_STRING env), D_ARRAY T_STRING (map D_STRING argv), D_STRING input,
              D_BOOLEAN error_on_stderr, D_UINT32 timeout])"
| "call_args (Call_Kill u) = (M_Kill, [D_STRING u])"
| "call_args Call_KillAll = (M_KillAll, [])"
| "call_args Call_Shutdown = (M_Shutdown, [])"

fun output_reply :: "hr_output \<Rightarrow> (nat \<times> runner_reply) option" where
  "output_reply (Send_Reply m exit_type return_code err) =
     Some (m, Reply_Return (D_UINT32 exit_type # D_INT32 return_code # map D_STRING err))"
| "output_reply (Send_Pid m pid) = Some (m, Reply_Return [D_INT64 (of_int pid)])"
| "output_reply (Send_Error m name) = Some (m, Reply_Other)"
| "output_reply (Send_Empty m) = Some (m, Reply_Return [])"
| "output_reply _ = None"

text \<open>The signal that a started process has ended.\<close>

fun exit_signal :: "hr_output \<Rightarrow> runner_message option" where
  "exit_signal (Send_Exited pid) = Some (StartedProcessExited [D_INT64 (of_int pid)])"
| "exit_signal _ = None"

text \<open>The runner handles a call of the daemon, and what it answers at once.\<close>

definition serve_call :: "hr_system \<Rightarrow> nat \<Rightarrow> runner_call \<Rightarrow> hr_state \<Rightarrow> memory_error + hr_state" where
  "serve_call W n c s = helper_step (Ev_Call W (fst (call_args c)) n (snd (call_args c))) s"

definition answer_now :: "hr_system \<Rightarrow> nat \<Rightarrow> hr_state \<Rightarrow> runner_call \<Rightarrow> runner_reply option" where
  "answer_now W n s c =
     (case serve_call W n c s of
        Inl e \<Rightarrow> None
      | Inr s' \<Rightarrow> if hr_out s' = [] then None else map_option snd (output_reply (last (hr_out s'))))"

end
