(* ===== verification/Hal_Helper_Props.thy ===== *)
theory Hal_Helper_Props
  imports Hal_Helper
begin

text \<open>
  Properties of the process that runs helper programs, over arbitrary sequences of calls, exits and timeouts: every call is
  answered once, memory is used only while it is allocated as long as not everything is killed at once, and killing the
  runs of a device ends exactly these.
\<close>

section \<open>Views of the state\<close>

definition lookup_run :: "nat \<Rightarrow> hr_state \<Rightarrow> run_data option" where
  "lookup_run a s = map_of (hr_runs s) a"

text \<open>A run of a device that was not killed.\<close>

definition waits :: "nat \<Rightarrow> string \<Rightarrow> hr_state \<Rightarrow> bool" where
  "waits a u s \<longleftrightarrow> (\<exists>rd. lookup_run a s = Some rd \<and> \<not> rq_is_singleton (rd_r rd) \<and> rq_udi (rd_r rd) = Some u \<and> \<not> rd_sent_kill rd)"

definition heap_ok :: "hr_state \<Rightarrow> bool" where
  "heap_ok s \<longleftrightarrow> distinct (map fst (hr_runs s)) \<and> (\<forall>a\<in>set (map fst (hr_runs s)). a < hr_next s)"

definition run_ok :: "run_data \<Rightarrow> bool" where
  "run_ok rd \<longleftrightarrow> (rd_timeout rd \<longrightarrow> \<not> rd_sent_kill rd \<and> \<not> rq_is_singleton (rd_r rd)) \<and>
     (if rq_is_singleton (rd_r rd) then rd_msg rd = None else rq_udi (rd_r rd) \<noteq> None)"

text \<open>The lists of the table hold exactly the runs that were not killed, each once.\<close>

definition runs_table_ok :: "hr_state \<Rightarrow> bool" where
  "runs_table_ok s \<longleftrightarrow> distinct (map fst (udi_hash s)) \<and>
     (\<forall>u. distinct (runs_of u s) \<and> (\<forall>a. a \<in> set (runs_of u s) \<longleftrightarrow> waits a u s))"

text \<open>The list of programs started once may also hold addresses of runs that were freed, which are not used again.\<close>

definition list_ok :: "hr_state \<Rightarrow> bool" where
  "list_ok s \<longleftrightarrow> (\<forall>a\<in>set (hr_singletons s). a < hr_next s \<and> (\<forall>rd. lookup_run a s = Some rd \<longrightarrow> rq_is_singleton (rd_r rd)))"

definition helper_inv :: "hr_state \<Rightarrow> bool" where
  "helper_inv s \<longleftrightarrow> heap_ok s \<and> (\<forall>a rd. lookup_run a s = Some rd \<longrightarrow> run_ok rd) \<and> runs_table_ok s \<and> list_ok s"

text \<open>As long as not everything was killed, the list of programs started once holds exactly those that run.\<close>

definition once_ok :: "hr_state \<Rightarrow> bool" where
  "once_ok s \<longleftrightarrow> distinct (hr_singletons s) \<and>
     (\<forall>a. a \<in> set (hr_singletons s) \<longleftrightarrow> (\<exists>rd. lookup_run a s = Some rd \<and> rq_is_singleton (rd_r rd))) \<and>
     (\<forall>a rd. lookup_run a s = Some rd \<longrightarrow> rq_is_singleton (rd_r rd) \<longrightarrow> \<not> rd_sent_kill rd)"

fun answer_to :: "nat \<Rightarrow> hr_output \<Rightarrow> bool" where
  "answer_to m (Send_Reply n e c err) \<longleftrightarrow> n = m"
| "answer_to m (Send_Pid n p) \<longleftrightarrow> n = m"
| "answer_to m (Send_Error n e) \<longleftrightarrow> n = m"
| "answer_to m (Send_Empty n) \<longleftrightarrow> n = m"
| "answer_to m _ \<longleftrightarrow> False"

definition answers_sent :: "nat \<Rightarrow> hr_state \<Rightarrow> nat" where
  "answers_sent m s = length (filter (answer_to m) (hr_out s))"

definition answers_due :: "nat \<Rightarrow> hr_state \<Rightarrow> nat" where
  "answers_due m s = length (filter (\<lambda>(a, rd). \<not> rd_sent_kill rd \<and> rd_msg rd = Some m) (hr_runs s))"

definition answers_total :: "nat \<Rightarrow> hr_state \<Rightarrow> nat" where
  "answers_total m s = answers_sent m s + answers_due m s"

subsection \<open>Changes of one run\<close>

lemma lookup_put [simp]: "lookup_run b (put_run a rd s) = (if b = a \<and> lookup_run a s \<noteq> None then Some rd else lookup_run b s)"
proof -
  have "map_of (map (\<lambda>(c, x). (c, if c = a then rd else x)) xs) b =
      (if b = a \<and> map_of xs a \<noteq> None then Some rd else map_of xs b)" for xs
    by (induction xs) auto
  then show ?thesis by (simp add: lookup_run_def put_run_def)
qed

lemma lookup_del [simp]: "lookup_run b (del_run_data a s) = (if b = a then None else lookup_run b s)"
  by (simp add: lookup_run_def del_run_data_def delete_conv')

lemma keys_put [simp]: "map fst (hr_runs (put_run a rd s)) = map fst (hr_runs s)"
  by (auto simp: put_run_def)

lemma put_same [simp]:
  "udi_hash (put_run a rd s) = udi_hash s" "hr_singletons (put_run a rd s) = hr_singletons s"
  "hr_next (put_run a rd s) = hr_next s" "hr_out (put_run a rd s) = hr_out s" "hr_ended (put_run a rd s) = hr_ended s"
  by (simp_all add: put_run_def)

lemma del_same [simp]:
  "udi_hash (del_run_data a s) = udi_hash s" "hr_singletons (del_run_data a s) = hr_singletons s"
  "hr_next (del_run_data a s) = hr_next s" "hr_out (del_run_data a s) = hr_out s" "hr_ended (del_run_data a s) = hr_ended s"
  by (simp_all add: del_run_data_def)

lemma send_same [simp]:
  "udi_hash (hr_send x s) = udi_hash s" "hr_singletons (hr_send x s) = hr_singletons s" "hr_runs (hr_send x s) = hr_runs s"
  "hr_next (hr_send x s) = hr_next s" "hr_out (hr_send x s) = hr_out s @ [x]" "hr_ended (hr_send x s) = hr_ended s"
  by (simp_all add: hr_send_def)

lemma reply_same [simp]:
  "udi_hash (send_reply m e c err s) = udi_hash s" "hr_singletons (send_reply m e c err s) = hr_singletons s"
  "hr_runs (send_reply m e c err s) = hr_runs s" "hr_next (send_reply m e c err s) = hr_next s"
  "hr_ended (send_reply m e c err s) = hr_ended s"
  by (simp_all add: send_reply_def split: option.split)

lemma runs_of_same [simp]:
  "runs_of u (put_run a rd s) = runs_of u s" "runs_of u (del_run_data a s) = runs_of u s"
  "runs_of u (hr_send x s) = runs_of u s" "runs_of u (send_reply m e c err s) = runs_of u s"
  by (simp_all add: runs_of_def)

lemma lookup_same [simp]:
  "lookup_run a (hr_send x s) = lookup_run a s" "lookup_run a (send_reply m e c err s) = lookup_run a s"
  "lookup_run a (set_runs u as s) = lookup_run a s"
  by (simp_all add: lookup_run_def set_runs_def)

lemma set_runs_same [simp]:
  "hr_singletons (set_runs u as s) = hr_singletons s" "hr_runs (set_runs u as s) = hr_runs s"
  "hr_next (set_runs u as s) = hr_next s" "hr_out (set_runs u as s) = hr_out s" "hr_ended (set_runs u as s) = hr_ended s"
  "runs_of v (set_runs u as s) = (if v = u then as else runs_of v s)"
  by (simp_all add: set_runs_def runs_of_def update_conv')

lemma get_run_Inr [simp]: "get_run a s = Inr rd \<longleftrightarrow> lookup_run a s = Some rd"
  by (simp add: get_run_def lookup_run_def split: option.split)

subsection \<open>Answers\<close>

lemma sent_reply [simp]: "answers_sent m (send_reply msg e c err s) = answers_sent m s + (if msg = Some m then 1 else 0)"
  by (simp add: answers_sent_def send_reply_def split: option.split)

lemma sent_send [simp]: "answers_sent m (hr_send x s) = answers_sent m s + (if answer_to m x then 1 else 0)"
  by (simp add: answers_sent_def)

lemma sent_same [simp]:
  "answers_sent m (put_run a rd s) = answers_sent m s" "answers_sent m (del_run_data a s) = answers_sent m s"
  "answers_sent m (set_runs u as s) = answers_sent m s"
  by (simp_all add: answers_sent_def)

lemma due_same [simp]:
  "answers_due m (hr_send x s) = answers_due m s" "answers_due m (send_reply msg e c err s) = answers_due m s"
  "answers_due m (set_runs u as s) = answers_due m s"
  by (simp_all add: answers_due_def)

definition due :: "nat \<Rightarrow> run_data \<Rightarrow> nat" where
  "due m rd = (if \<not> rd_sent_kill rd \<and> rd_msg rd = Some m then 1 else 0)"

fun due_in :: "nat \<Rightarrow> (nat \<times> run_data) list \<Rightarrow> nat" where
  "due_in m [] = 0"
| "due_in m ((a, rd) # xs) = due m rd + due_in m xs"

lemma due_sum: "answers_due m s = due_in m (hr_runs s)"
proof -
  have "length (filter (\<lambda>(a, rd). \<not> rd_sent_kill rd \<and> rd_msg rd = Some m) xs) = due_in m xs" for xs
    by (induction m xs rule: due_in.induct) (simp_all add: due_def)
  then show ?thesis by (simp add: answers_due_def)
qed

lemma due_put:
  assumes "heap_ok s" "lookup_run a s = Some rd"
  shows "answers_due m (put_run a rd' s) + due m rd = answers_due m s + due m rd'"
proof -
  have "map_of xs a = Some rd \<Longrightarrow> distinct (map fst xs) \<Longrightarrow>
      due_in m (map (\<lambda>(b, x). (b, if b = a then rd' else x)) xs) + due m rd = due_in m xs + due m rd'" for xs
  proof (induction m xs rule: due_in.induct)
    case (2 m b x xs)
    have "map (\<lambda>(b, x). (b, if b = a then rd' else x)) xs = xs" if "a \<notin> fst ` set xs"
      using that by (intro map_idI) force
    with 2 show ?case by (auto split: if_splits)
  qed simp
  then show ?thesis using assms by (simp add: due_sum heap_ok_def lookup_run_def put_run_def)
qed

lemma due_del:
  assumes "heap_ok s" "lookup_run a s = Some rd"
  shows "answers_due m (del_run_data a s) + due m rd = answers_due m s"
proof -
  have "map_of xs a = Some rd \<Longrightarrow> distinct (map fst xs) \<Longrightarrow>
      due_in m (AList.delete a xs) + due m rd = due_in m xs" for xs
  proof (induction m xs rule: due_in.induct)
    case (2 m b x xs)
    then show ?case by (auto split: if_splits)
  qed simp
  then show ?thesis using assms by (simp add: due_sum heap_ok_def lookup_run_def del_run_data_def)
qed

section \<open>Killing runs\<close>

definition kill_mark :: "run_data \<Rightarrow> run_data" where
  "kill_mark rd = rd\<lparr>rd_timeout := False, rd_sent_kill := True\<rparr>"

lemma kill_mark_same [simp]:
  "rd_r (kill_mark rd) = rd_r rd" "rd_msg (kill_mark rd) = rd_msg rd" "rd_pid (kill_mark rd) = rd_pid rd"
  "rd_sent_kill (kill_mark rd)" "\<not> rd_timeout (kill_mark rd)" "kill_mark (kill_mark rd) = kill_mark rd"
  "due m (kill_mark rd) = 0" "run_ok rd \<Longrightarrow> run_ok (kill_mark rd)"
  by (simp_all add: kill_mark_def due_def run_ok_def)

definition kill_output :: "run_data \<Rightarrow> hr_output list" where
  "kill_output rd = Kill_Process (rd_pid rd) # (case rd_msg rd of None \<Rightarrow> [] | Some m \<Rightarrow> [Send_Reply m HALD_RUN_KILLED_VALUE 0 []])"

text \<open>The state after the runs of a list were killed.\<close>

definition killed :: "nat list \<Rightarrow> hr_state \<Rightarrow> hr_state \<Rightarrow> bool" where
  "killed as s s' \<longleftrightarrow> udi_hash s' = udi_hash s \<and> hr_singletons s' = hr_singletons s \<and> hr_next s' = hr_next s \<and>
     hr_ended s' = hr_ended s \<and> map fst (hr_runs s') = map fst (hr_runs s) \<and>
     (\<forall>b. lookup_run b s' = (if b \<in> set as then map_option kill_mark (lookup_run b s) else lookup_run b s)) \<and>
     hr_out s' = hr_out s @ concat (map (\<lambda>a. kill_output (the (lookup_run a s))) as)"

lemma killed_heap: "killed as s s' \<Longrightarrow> heap_ok s \<Longrightarrow> heap_ok s'"
  by (simp add: killed_def heap_ok_def flip: set_map)

lemma killed_runs: "killed as s s' \<Longrightarrow> runs_of u s' = runs_of u s"
  by (simp add: killed_def runs_of_def)

lemma kill_rd_eq:
  "lookup_run a s = Some rd \<Longrightarrow> kill_rd a s =
     Inr (send_reply (rd_msg rd) HALD_RUN_KILLED_VALUE 0 None (put_run a (kill_mark rd) (hr_send (Kill_Process (rd_pid rd)) s)))"
  by (simp add: kill_rd_def get_run_def lookup_run_def kill_mark_def)

lemma kill_rd_killed:
  assumes "kill_rd a s = Inr s'"
  obtains rd where "lookup_run a s = Some rd" and "killed [a] s s'"
    and "\<And>m. answers_total m s' = answers_sent m s + (if rd_msg rd = Some m then 1 else 0) + answers_due m (put_run a (kill_mark rd) s)"
proof -
  obtain rd where rd: "lookup_run a s = Some rd" using assms by (auto simp: kill_rd_def)
  let ?s = "put_run a (kill_mark rd) (hr_send (Kill_Process (rd_pid rd)) s)"
  have s': "s' = send_reply (rd_msg rd) HALD_RUN_KILLED_VALUE 0 None ?s" using assms rd by (simp add: kill_rd_eq)
  have "hr_out s' = hr_out s @ kill_output rd" by (simp add: s' send_reply_def kill_output_def split: option.split)
  then have "killed [a] s s'" using rd by (simp add: killed_def s')
  moreover have "answers_due m ?s = answers_due m (put_run a (kill_mark rd) s)" for m
    by (simp add: answers_due_def put_run_def)
  then have "answers_total m s' = answers_sent m s + (if rd_msg rd = Some m then 1 else 0) + answers_due m (put_run a (kill_mark rd) s)" for m
    by (simp add: answers_total_def s')
  ultimately show thesis using rd that by blast
qed

lemma killed_trans:
  assumes "killed as s t" "killed bs t u" "\<forall>b\<in>set bs. lookup_run b s \<noteq> None"
  shows "killed (as @ bs) s u"
proof -
  have "kill_output (the (lookup_run b t)) = kill_output (the (lookup_run b s))" if "b \<in> set bs" for b
    using assms(1,3) that by (auto simp: killed_def kill_output_def split: option.split)
  then have "map (\<lambda>b. kill_output (the (lookup_run b t))) bs = map (\<lambda>b. kill_output (the (lookup_run b s))) bs" by simp
  then have "hr_out u = hr_out s @ concat (map (\<lambda>a. kill_output (the (lookup_run a s))) (as @ bs))"
    using assms(1,2) unfolding killed_def by (metis append_assoc concat_append map_append)
  moreover have "lookup_run b u = (if b \<in> set (as @ bs) then map_option kill_mark (lookup_run b s) else lookup_run b s)" for b
    using assms(1,2) by (cases "lookup_run b s") (simp_all add: killed_def)
  ultimately show ?thesis using assms(1,2) unfolding killed_def by metis
qed

lemma kill_list:
  "\<forall>a\<in>set as. lookup_run a s \<noteq> None \<Longrightarrow> \<exists>s'. err_fold kill_rd as s = Inr s' \<and> killed as s s'"
proof (induction as arbitrary: s)
  case Nil
  then show ?case by (simp add: killed_def)
next
  case (Cons a as)
  then obtain rd where rd: "lookup_run a s = Some rd" by auto
  then obtain t where t: "kill_rd a s = Inr t" by (simp add: kill_rd_eq)
  then have k: "killed [a] s t" by (rule kill_rd_killed)
  then have "\<forall>b\<in>set as. lookup_run b t \<noteq> None" using Cons.prems by (simp add: killed_def)
  then obtain s' where "err_fold kill_rd as t = Inr s'" "killed as t s'" using Cons.IH by blast
  then show ?case using t killed_trans [OF k, of as s'] Cons.prems by simp
qed

lemma kill_list_killed:
  assumes "err_fold kill_rd as s = Inr s'"
  shows "killed as s s' \<and> (\<forall>a\<in>set as. lookup_run a s \<noteq> None)"
  using assms
proof (induction as arbitrary: s)
  case Nil
  then show ?case by (simp add: killed_def)
next
  case (Cons a as)
  then obtain t where t: "kill_rd a s = Inr t" "err_fold kill_rd as t = Inr s'" by auto
  obtain rd where rd: "lookup_run a s = Some rd" "killed [a] s t" using t(1) by (rule kill_rd_killed)
  have IH: "killed as t s'" "\<forall>a\<in>set as. lookup_run a t \<noteq> None" using Cons.IH [OF t(2)] by simp_all
  then have "\<forall>b\<in>set as. lookup_run b s \<noteq> None" using rd(2) by (auto simp: killed_def split: if_splits)
  then show ?case using killed_trans [OF rd(2) IH(1)] rd(1) by simp
qed

lemma kill_list_total:
  assumes "heap_ok s" "err_fold kill_rd as s = Inr s'"
    and "(\<forall>a\<in>set as. \<forall>rd. lookup_run a s = Some rd \<longrightarrow> rd_msg rd = None) \<or>
         (distinct as \<and> (\<forall>a\<in>set as. \<forall>rd. lookup_run a s = Some rd \<longrightarrow> \<not> rd_sent_kill rd))"
  shows "answers_total m s' = answers_total m s"
  using assms
proof (induction as arbitrary: s)
  case Nil
  then show ?case by simp
next
  case (Cons a as)
  then obtain t where t: "kill_rd a s = Inr t" "err_fold kill_rd as t = Inr s'" by auto
  obtain rd where rd: "lookup_run a s = Some rd" "killed [a] s t"
    "answers_total m t = answers_sent m s + (if rd_msg rd = Some m then 1 else 0) + answers_due m (put_run a (kill_mark rd) s)"
    using t(1) by (rule kill_rd_killed) blast
  have "rd_msg rd = None \<or> \<not> rd_sent_kill rd" using Cons.prems(3) rd(1) by auto
  then have "answers_total m t = answers_total m s"
    using rd(3) due_put [OF Cons.prems(1) rd(1), of m "kill_mark rd"] by (auto simp: answers_total_def due_def split: if_splits)
  moreover have "(\<forall>a\<in>set as. \<forall>rd. lookup_run a t = Some rd \<longrightarrow> rd_msg rd = None) \<or>
         (distinct as \<and> (\<forall>a\<in>set as. \<forall>rd. lookup_run a t = Some rd \<longrightarrow> \<not> rd_sent_kill rd))"
    using Cons.prems(3) rd(1,2) by (auto simp: killed_def)
  ultimately show ?case using Cons.IH [OF killed_heap [OF rd(2) Cons.prems(1)] t(2)] by simp
qed

lemma kill_udis: "err_fold do_kill_udi us s = err_fold kill_rd (concat (map (\<lambda>u. runs_of u s) us)) s"
proof (induction us arbitrary: s)
  case (Cons u us)
  show ?case
  proof (cases "err_fold kill_rd (runs_of u s) s")
    case (Inl e)
    then show ?thesis by (simp add: do_kill_udi_def err_fold_append)
  next
    case (Inr t)
    then have "runs_of v t = runs_of v s" for v using kill_list_killed killed_runs by blast
    then show ?thesis using Inr Cons.IH [of t] by (simp add: do_kill_udi_def err_fold_append)
  qed
qed simp

subsection \<open>The runs of a device\<close>

definition step_ok :: "hr_state \<Rightarrow> hr_state \<Rightarrow> bool" where
  "step_ok s s' \<longleftrightarrow> helper_inv s' \<and> (once_ok s \<longrightarrow> once_ok s') \<and> hr_ended s' = hr_ended s"

lemma inv_run: "helper_inv s \<Longrightarrow> lookup_run a s = Some rd \<Longrightarrow> run_ok rd"
  by (simp add: helper_inv_def)

lemma inv_runs: "helper_inv s \<Longrightarrow> a \<in> set (runs_of u s) \<longleftrightarrow> waits a u s" "helper_inv s \<Longrightarrow> distinct (runs_of u s)"
  by (simp_all add: helper_inv_def runs_table_ok_def)

lemma inv_heap: "helper_inv s \<Longrightarrow> heap_ok s"
  by (simp add: helper_inv_def)

lemma waits_unique: "waits a u s \<Longrightarrow> waits a v s \<Longrightarrow> u = v"
  by (auto simp: waits_def)

lemma killed_waits: "killed as s s' \<Longrightarrow> waits a u s' \<longleftrightarrow> waits a u s \<and> a \<notin> set as"
  by (auto simp: waits_def killed_def)

lemma killed_once:
  assumes "killed as s s'" "once_ok s" "\<forall>a\<in>set as. \<exists>u. waits a u s"
  shows "once_ok s'"
proof -
  have "\<not> rq_is_singleton (rd_r rd)" if "a \<in> set as" "lookup_run a s = Some rd" for a rd
    using assms(3) that by (auto simp: waits_def)
  then show ?thesis using assms(1,2) unfolding once_ok_def killed_def by (auto split: if_splits)
qed

lemma killed_list: "killed as s s' \<Longrightarrow> helper_inv s \<Longrightarrow> list_ok s'"
  by (auto simp: helper_inv_def list_ok_def killed_def split: if_splits)

lemma killed_run_ok: "killed as s s' \<Longrightarrow> helper_inv s \<Longrightarrow> lookup_run a s' = Some rd \<Longrightarrow> run_ok rd"
  using inv_run [of s a] by (auto simp: killed_def split: if_splits)

lemma run_kill_udi_outcome:
  assumes "helper_inv s"
  obtains s' where "run_kill_udi u s = Inr s'" and "step_ok s s'" and "\<And>m. answers_total m s' = answers_total m s"
    and "\<And>a v. waits a v s' \<longleftrightarrow> waits a v s \<and> v \<noteq> u"
    and "hr_out s' = hr_out s @ concat (map (\<lambda>a. kill_output (the (lookup_run a s))) (runs_of u s))"
proof -
  have w: "\<forall>a\<in>set (runs_of u s). waits a u s" using inv_runs [OF assms] by simp
  then have l: "\<forall>a\<in>set (runs_of u s). lookup_run a s \<noteq> None" by (auto simp: waits_def)
  obtain t where t: "err_fold kill_rd (runs_of u s) s = Inr t" "killed (runs_of u s) s t" using kill_list [OF l] by blast
  let ?s = "t\<lparr>udi_hash := AList.delete u (udi_hash t)\<rparr>"
  have lk: "lookup_run a ?s = lookup_run a t" for a by (simp add: lookup_run_def)
  have ws: "waits a v ?s \<longleftrightarrow> waits a v s \<and> v \<noteq> u" for a v
  proof -
    have "waits a v ?s \<longleftrightarrow> waits a v t" by (simp add: waits_def lk)
    also have "\<dots> \<longleftrightarrow> waits a v s \<and> \<not> waits a u s" using killed_waits [OF t(2)] inv_runs [OF assms] by simp
    finally show ?thesis using waits_unique by blast
  qed
  have r: "runs_of v ?s = (if v = u then [] else runs_of v s)" for v
    using t(2) by (simp add: runs_of_def killed_def delete_conv')
  have "runs_table_ok ?s"
    using assms t(2) ws r by (simp add: runs_table_ok_def helper_inv_def killed_def distinct_delete)
  moreover have "heap_ok ?s" using killed_heap [OF t(2) inv_heap [OF assms]] by (simp add: heap_ok_def)
  moreover have "list_ok ?s" using killed_list [OF t(2) assms] by (simp add: list_ok_def lk)
  ultimately have "helper_inv ?s" using killed_run_ok [OF t(2) assms] by (simp add: helper_inv_def lk)
  moreover have "once_ok ?s" if "once_ok s"
    using killed_once [OF t(2) that] w by (auto simp: once_ok_def lk)
  ultimately have "step_ok s ?s" using t(2) by (simp add: step_ok_def killed_def)
  moreover have "answers_total m ?s = answers_total m s" for m
  proof -
    have "answers_total m t = answers_total m s"
      using kill_list_total [OF inv_heap [OF assms] t(1)] inv_runs(2) [OF assms] w by (force simp: waits_def)
    then show ?thesis by (simp add: answers_total_def answers_sent_def answers_due_def)
  qed
  moreover have "run_kill_udi u s = Inr ?s" using t(1) by (simp add: run_kill_udi_def do_kill_udi_def)
  moreover have "hr_out ?s = hr_out s @ concat (map (\<lambda>a. kill_output (the (lookup_run a s))) (runs_of u s))"
    using t(2) by (simp add: killed_def)
  ultimately show thesis using that ws by blast
qed

subsection \<open>All runs\<close>

definition all_runs :: "hr_state \<Rightarrow> nat list" where
  "all_runs s = concat (map (\<lambda>u. runs_of u s) (map fst (udi_hash s)))"

lemma runs_of_key: "runs_of u s \<noteq> [] \<Longrightarrow> u \<in> set (map fst (udi_hash s))"
  by (force simp: runs_of_def split: option.splits dest: map_of_SomeD)

lemma all_runs_waits:
  assumes "helper_inv s"
  shows "a \<in> set (all_runs s) \<longleftrightarrow> (\<exists>u. waits a u s)"
proof
  assume "a \<in> set (all_runs s)"
  then obtain u where "a \<in> set (runs_of u s)" by (auto simp: all_runs_def)
  then show "\<exists>u. waits a u s" using inv_runs(1) [OF assms] by blast
next
  assume "\<exists>u. waits a u s"
  then obtain u where u: "a \<in> set (runs_of u s)" using inv_runs(1) [OF assms] by blast
  then have "u \<in> set (map fst (udi_hash s))" by (intro runs_of_key) auto
  with u show "a \<in> set (all_runs s)" by (force simp: all_runs_def)
qed

lemma all_runs_distinct:
  assumes "helper_inv s"
  shows "distinct (all_runs s)"
proof -
  have "distinct us \<Longrightarrow> distinct (concat (map (\<lambda>u. runs_of u s) us))" for us
  proof (induction us)
    case (Cons u us)
    have "set (runs_of u s) \<inter> set (runs_of v s) = {}" if "v \<in> set us" for v
      using Cons.prems that inv_runs(1) [OF assms] waits_unique by (auto simp: disjoint_iff) metis
    then show ?case using Cons inv_runs(2) [OF assms] by auto
  qed simp
  then show ?thesis using assms unfolding all_runs_def helper_inv_def runs_table_ok_def by blast
qed

text \<open>The state after the runs of all devices were killed; the programs started once follow.\<close>

lemma kill_devices:
  assumes "helper_inv s"
  obtains t where "run_kill_all s = err_fold kill_rd (hr_singletons s) t" and "helper_inv t"
    and "once_ok s \<longrightarrow> once_ok t" and "hr_ended t = hr_ended s" and "hr_singletons t = hr_singletons s"
    and "\<forall>m. answers_total m t = answers_total m s" and "udi_hash t = []"
    and "\<forall>a. lookup_run a s = None \<longrightarrow> lookup_run a t = None"
proof -
  have w: "\<forall>a\<in>set (all_runs s). \<exists>u. waits a u s" using all_runs_waits [OF assms] by simp
  then have l: "\<forall>a\<in>set (all_runs s). lookup_run a s \<noteq> None" by (auto simp: waits_def)
  obtain k where k: "err_fold kill_rd (all_runs s) s = Inr k" "killed (all_runs s) s k" using kill_list [OF l] by blast
  let ?t = "k\<lparr>udi_hash := []\<rparr>"
  have lk: "lookup_run a ?t = lookup_run a k" for a by (simp add: lookup_run_def)
  have "waits a v ?t \<longleftrightarrow> waits a v k" for a v by (simp add: waits_def lk)
  then have "\<not> waits a v ?t" for a v using killed_waits [OF k(2)] all_runs_waits [OF assms] by blast
  then have "runs_table_ok ?t" by (simp add: runs_table_ok_def runs_of_def)
  moreover have "heap_ok ?t" using killed_heap [OF k(2) inv_heap [OF assms]] by (simp add: heap_ok_def)
  moreover have "list_ok ?t" using killed_list [OF k(2) assms] by (simp add: list_ok_def lk)
  ultimately have "helper_inv ?t" using killed_run_ok [OF k(2) assms] by (simp add: helper_inv_def lk)
  moreover have "once_ok ?t" if "once_ok s" using killed_once [OF k(2) that w] by (auto simp: once_ok_def lk)
  moreover have "run_kill_all s = err_fold kill_rd (hr_singletons s) ?t"
    using k by (simp add: run_kill_all_def kill_udis all_runs_def killed_def)
  moreover have "answers_total m ?t = answers_total m s" for m
  proof -
    have "answers_total m k = answers_total m s"
      using kill_list_total [OF inv_heap [OF assms] k(1)] all_runs_distinct [OF assms] w by (force simp: waits_def)
    then show ?thesis by (simp add: answers_total_def answers_sent_def answers_due_def)
  qed
  ultimately show thesis using that [of ?t] k(2) by (simp add: killed_def lk)
qed

lemma run_kill_all_outcome:
  assumes "helper_inv s" "run_kill_all s = Inr s'"
  shows "helper_inv s' \<and> hr_ended s' = hr_ended s \<and> (\<forall>m. answers_total m s' = answers_total m s)"
proof -
  obtain t where t: "run_kill_all s = err_fold kill_rd (hr_singletons s) t" "helper_inv t" "hr_ended t = hr_ended s"
      "hr_singletons t = hr_singletons s" "\<forall>m. answers_total m t = answers_total m s" "udi_hash t = []"
    by (rule kill_devices [OF assms(1)])
  have f: "err_fold kill_rd (hr_singletons s) t = Inr s'" using t(1) assms(2) by simp
  then have k: "killed (hr_singletons s) t s'" by (simp add: kill_list_killed)
  have "\<not> waits a u t" for a u using inv_runs(1) [OF t(2), of a u] t(6) by (simp add: runs_of_def)
  then have "\<not> waits a u s'" for a u using killed_waits [OF k] by blast
  then have "runs_table_ok s'" using t(6) k by (simp add: runs_table_ok_def runs_of_def killed_def)
  then have "helper_inv s'"
    using killed_heap [OF k inv_heap [OF t(2)]] killed_run_ok [OF k t(2)] killed_list [OF k t(2)] by (simp add: helper_inv_def)
  moreover have "\<forall>a\<in>set (hr_singletons s). \<forall>rd. lookup_run a t = Some rd \<longrightarrow> rd_msg rd = None"
    using t(2,4) by (auto simp: helper_inv_def list_ok_def run_ok_def split: if_splits)
  then have "answers_total m s' = answers_total m s" for m
    using kill_list_total [OF inv_heap [OF t(2)] f] t(5) by simp
  ultimately show ?thesis using k t(3) by (simp add: killed_def)
qed

lemma run_kill_all_defined:
  assumes "helper_inv s" "once_ok s"
  shows "\<exists>s'. run_kill_all s = Inr s'"
proof -
  obtain t where t: "run_kill_all s = err_fold kill_rd (hr_singletons s) t" "once_ok s \<longrightarrow> once_ok t" "hr_singletons t = hr_singletons s"
    by (rule kill_devices [OF assms(1)])
  have "once_ok t" using t(2) assms(2) by blast
  then have "\<forall>a\<in>set (hr_singletons s). lookup_run a t \<noteq> None" unfolding once_ok_def t(3) by fastforce
  then show ?thesis using kill_list t(1) by metis
qed

section \<open>The end of a run\<close>

text \<open>Taking a run out of its list.\<close>

definition unlisted :: "nat \<Rightarrow> run_data \<Rightarrow> hr_state \<Rightarrow> hr_state" where
  "unlisted a rd s =
     (if rq_is_singleton (rd_r rd) then s\<lparr>hr_singletons := remove1 a (hr_singletons s)\<rparr>
      else set_runs (the (rq_udi (rd_r rd))) (remove1 a (runs_of (the (rq_udi (rd_r rd))) s)) s)"

lemma remove_run_data_eq: "lookup_run a s = Some rd \<Longrightarrow> run_ok rd \<Longrightarrow> remove_run_data a s = Inr (unlisted a rd s)"
  by (auto simp: remove_run_data_def get_run_def lookup_run_def unlisted_def run_ok_def split: option.split if_splits)

lemma unlisted_same [simp]:
  "hr_runs (unlisted a rd s) = hr_runs s" "hr_next (unlisted a rd s) = hr_next s" "hr_out (unlisted a rd s) = hr_out s"
  "hr_ended (unlisted a rd s) = hr_ended s" "lookup_run b (unlisted a rd s) = lookup_run b s"
  by (simp_all add: unlisted_def lookup_run_def)

lemma unlisted_lists:
  "hr_singletons (unlisted a rd s) = (if rq_is_singleton (rd_r rd) then remove1 a (hr_singletons s) else hr_singletons s)"
  "runs_of u (unlisted a rd s) =
     (if \<not> rq_is_singleton (rd_r rd) \<and> u = the (rq_udi (rd_r rd)) then remove1 a (runs_of u s) else runs_of u s)"
  "distinct (map fst (udi_hash s)) \<Longrightarrow> distinct (map fst (udi_hash (unlisted a rd s)))"
  by (auto simp: unlisted_def runs_of_def set_runs_def update_conv' distinct_update)

text \<open>
  A state in which a run is no longer listed and either freed or marked as killed, and everything else is as before.
\<close>

lemma ended_run_ok:
  assumes "helper_inv s" "lookup_run a s = Some rd" "\<not> rd_sent_kill rd"
    and "udi_hash s' = udi_hash (unlisted a rd s)" "hr_singletons s' = hr_singletons (unlisted a rd s)"
    and "heap_ok s'" "hr_next s' = hr_next s" "hr_ended s' = hr_ended s"
    and "\<And>b. b \<noteq> a \<Longrightarrow> lookup_run b s' = lookup_run b s"
    and "lookup_run a s' = None \<or> lookup_run a s' = Some (kill_mark rd) \<and> \<not> rq_is_singleton (rd_r rd)"
  shows "step_ok s s'"
proof -
  have ok: "run_ok rd" by (rule inv_run [OF assms(1,2)])
  have w: "waits b u s' \<longleftrightarrow> waits b u s \<and> b \<noteq> a" for b u
    using assms(9) [of b] assms(10) by (cases "b = a") (auto simp: waits_def)
  have r: "runs_of u s' = (if \<not> rq_is_singleton (rd_r rd) \<and> u = the (rq_udi (rd_r rd)) then remove1 a (runs_of u s) else runs_of u s)" for u
    using unlisted_lists(2) [of u a rd s] assms(4) by (simp add: runs_of_def)
  have "a \<in> set (runs_of u s) \<longleftrightarrow> \<not> rq_is_singleton (rd_r rd) \<and> u = the (rq_udi (rd_r rd))" for u
    using inv_runs(1) [OF assms(1)] assms(2,3) ok by (auto simp: waits_def run_ok_def split: if_splits)
  then have "distinct (runs_of u s') \<and> (\<forall>b. b \<in> set (runs_of u s') \<longleftrightarrow> waits b u s')" for u
    using inv_runs [OF assms(1)] w r by auto
  moreover have "distinct (map fst (udi_hash s'))"
    using unlisted_lists(3) [of s] assms(1,4) by (simp add: helper_inv_def runs_table_ok_def)
  ultimately have "runs_table_ok s'" by (simp add: runs_table_ok_def)
  moreover have "run_ok x" if "lookup_run b s' = Some x" for b x
    using that assms(9) [of b] assms(10) inv_run [OF assms(1)] ok by (cases "b = a") auto
  moreover have "list_ok s'"
    unfolding list_ok_def
  proof
    fix b
    assume "b \<in> set (hr_singletons s')"
    then have b: "b < hr_next s" "\<forall>x. lookup_run b s = Some x \<longrightarrow> rq_is_singleton (rd_r x)"
      using assms(1,5) set_remove1_subset [of a "hr_singletons s"]
      by (auto simp: unlisted_lists helper_inv_def list_ok_def split: if_splits)
    then show "b < hr_next s' \<and> (\<forall>x. lookup_run b s' = Some x \<longrightarrow> rq_is_singleton (rd_r x))"
      using assms(2,7,10) assms(9) [of b] by (cases "b = a") auto
  qed
  ultimately have "helper_inv s'" using assms(6) by (simp add: helper_inv_def)
  moreover have "once_ok s'" if o: "once_ok s"
    unfolding once_ok_def
  proof (intro conjI allI impI)
    show "distinct (hr_singletons s')" using o assms(5) by (simp add: unlisted_lists once_ok_def)
    show "b \<in> set (hr_singletons s') \<longleftrightarrow> (\<exists>x. lookup_run b s' = Some x \<and> rq_is_singleton (rd_r x))" for b
      using o assms(2,5,10) assms(9) [of b] by (cases "b = a") (auto simp: unlisted_lists once_ok_def)
    show "\<not> rd_sent_kill x" if "lookup_run b s' = Some x" "rq_is_singleton (rd_r x)" for b x
      using o that assms(10) assms(9) [of b] by (cases "b = a") (auto simp: once_ok_def)
  qed
  ultimately show ?thesis using assms(8) by (simp add: step_ok_def)
qed

lemma heap_del: "heap_ok s \<Longrightarrow> heap_ok (del_run_data a s)"
  by (simp add: heap_ok_def del_run_data_def delete_keys distinct_removeAll del: set_map)

lemma killed_run_freed:
  assumes "helper_inv s" "lookup_run a s = Some rd" "rd_sent_kill rd"
  shows "step_ok s (del_run_data a s) \<and> answers_total m (del_run_data a s) = answers_total m s"
proof -
  have w: "waits b u (del_run_data a s) \<longleftrightarrow> waits b u s" for b u using assms(2,3) by (auto simp: waits_def)
  have "helper_inv (del_run_data a s)"
    using assms(1) heap_del w by (simp add: helper_inv_def runs_table_ok_def list_ok_def)
  moreover have "once_ok (del_run_data a s)" if "once_ok s"
    using that assms(2,3) by (fastforce simp: once_ok_def)
  moreover have "answers_total m (del_run_data a s) = answers_total m s"
    using due_del [OF inv_heap [OF assms(1)] assms(2), of m] assms(3) by (simp add: answers_total_def due_def)
  ultimately show ?thesis by (simp add: step_ok_def)
qed

lemma run_exited_outcome:
  assumes "helper_inv s" "lookup_run a s = Some rd"
  obtains s' where "run_exited a status err_lines s = Inr s'" "step_ok s s'" "\<forall>m. answers_total m s' = answers_total m s"
proof (cases "rd_sent_kill rd")
  case True
  then have "run_exited a status err_lines s = Inr (del_run_data a s)"
    using assms(2) by (simp add: run_exited_def get_run_def lookup_run_def)
  then show thesis using that killed_run_freed [OF assms True] by blast
next
  case False
  obtain e c err where t: "(case status of
        Signaled \<Rightarrow> send_reply (rd_msg rd) HALD_RUN_FAILED_VALUE 0 None s
      | Exited code \<Rightarrow> send_reply (rd_msg rd) HALD_RUN_SUCCESS_VALUE (ucast code)
          (if rd_stderr rd then Some (get_string_array_from_fd err_lines) else None) s) = send_reply (rd_msg rd) e c err s"
    by (cases status) auto
  let ?t = "unlisted a rd (send_reply (rd_msg rd) e c err s)"
  let ?u = "if rd_emit_pid_exited rd then hr_send (Send_Exited (rd_pid rd)) ?t else ?t"
  have "remove_run_data a (send_reply (rd_msg rd) e c err s) = Inr ?t"
    using remove_run_data_eq inv_run [OF assms] assms(2) by simp
  moreover have "get_run a s = Inr rd" using assms(2) by simp
  ultimately have "run_exited a status err_lines s = Inr (del_run_data a ?u)"
    using t False by (simp add: run_exited_def Let_def)
  moreover have "step_ok s (del_run_data a ?u)"
  proof (rule ended_run_ok [OF assms False])
    show "heap_ok (del_run_data a ?u)" using inv_heap [OF assms(1)] by (intro heap_del) (simp add: heap_ok_def)
  qed (simp_all add: unlisted_def set_runs_def, simp add: lookup_run_def)
  moreover have "answers_total m (del_run_data a ?u) = answers_total m s" for m
  proof -
    have "answers_due m ?u = answers_due m s" "answers_sent m ?u = answers_sent m (send_reply (rd_msg rd) e c err s)"
      by (simp_all add: answers_due_def answers_sent_def)
    moreover have "heap_ok ?u" "lookup_run a ?u = Some rd" using assms inv_heap by (simp_all add: heap_ok_def)
    ultimately show ?thesis using due_del [of ?u a rd m] False by (simp add: answers_total_def due_def)
  qed
  ultimately show thesis using that by blast
qed

lemma run_timedout_outcome:
  assumes "helper_inv s" "lookup_run a s = Some rd" "rd_timeout rd"
  obtains s' where "run_timedout a s = Inr s'" "step_ok s s'" "\<forall>m. answers_total m s' = answers_total m s"
proof -
  have rd: "\<not> rd_sent_kill rd" "\<not> rq_is_singleton (rd_r rd)" "run_ok rd"
    using inv_run [OF assms(1,2)] assms(3) by (simp_all add: run_ok_def)
  let ?t = "put_run a (kill_mark rd) (hr_send (Kill_Process (rd_pid rd)) s)"
  let ?u = "send_reply (rd_msg rd) HALD_RUN_TIMEOUT_VALUE 0 None ?t"
  have "lookup_run a ?u = Some (kill_mark rd)" using assms(2) by simp
  then have "remove_run_data a ?u = Inr (unlisted a (kill_mark rd) ?u)" using remove_run_data_eq rd(3) by simp
  moreover have "get_run a s = Inr rd" using assms(2) by simp
  ultimately have "run_timedout a s = Inr (unlisted a (kill_mark rd) ?u)"
    by (simp add: run_timedout_def kill_mark_def)
  moreover have "step_ok s (unlisted a (kill_mark rd) ?u)"
  proof (rule ended_run_ok [OF assms(1,2) rd(1)])
    show "heap_ok (unlisted a (kill_mark rd) ?u)" using inv_heap [OF assms(1)] by (simp add: heap_ok_def flip: set_map)
    show "lookup_run a (unlisted a (kill_mark rd) ?u) = None \<or>
        lookup_run a (unlisted a (kill_mark rd) ?u) = Some (kill_mark rd) \<and> \<not> rq_is_singleton (rd_r rd)"
      using assms(2) rd(2) by simp
    show "lookup_run b (unlisted a (kill_mark rd) ?u) = lookup_run b s" if "b \<noteq> a" for b using that by simp
  qed (simp_all add: unlisted_def set_runs_def)
  moreover have "answers_total m (unlisted a (kill_mark rd) ?u) = answers_total m s" for m
  proof -
    have "answers_total m (unlisted a (kill_mark rd) ?u) = answers_total m ?u"
      by (simp add: answers_total_def answers_sent_def answers_due_def)
    moreover have "answers_due m ?u = answers_due m (put_run a (kill_mark rd) s)" by (simp add: answers_due_def put_run_def)
    ultimately show ?thesis
      using due_put [OF inv_heap [OF assms(1)] assms(2), of m "kill_mark rd"] rd(1) by (simp add: answers_total_def due_def)
  qed
  ultimately show thesis using that by blast
qed

section \<open>New runs\<close>

definition request_ok :: "hr_request \<Rightarrow> nat option \<Rightarrow> bool" where
  "request_ok r msg \<longleftrightarrow> (if rq_is_singleton r then msg = None \<and> rq_timeout r = 0 else rq_udi r \<noteq> None)"

definition run_listed :: "nat \<Rightarrow> hr_request \<Rightarrow> run_data \<Rightarrow> hr_state \<Rightarrow> hr_state" where
  "run_listed a r rd s =
     (let t = s\<lparr>hr_runs := (a, rd) # hr_runs s, hr_next := Suc a\<rparr>
      in if rq_is_singleton r then t\<lparr>hr_singletons := a # hr_singletons s\<rparr>
         else set_runs (the (rq_udi r)) (a # runs_of (the (rq_udi r)) s) t)"

lemma listed_step:
  assumes "helper_inv s" "run_ok rd" "\<not> rd_sent_kill rd" "rd_r rd = r"
  shows "step_ok s (run_listed (hr_next s) r rd s) \<and>
    answers_total m (run_listed (hr_next s) r rd s) = answers_total m s + (if rd_msg rd = Some m then 1 else 0)"
proof -
  let ?a = "hr_next s" and ?s = "run_listed (hr_next s) r rd s"
  have new: "lookup_run ?a s = None" using inv_heap [OF assms(1)] by (force simp: heap_ok_def lookup_run_def map_of_eq_None_iff)
  have l: "lookup_run b ?s = (if b = ?a then Some rd else lookup_run b s)" for b
    by (simp add: run_listed_def lookup_run_def Let_def)
  have r: "runs_of u ?s = (if \<not> rq_is_singleton r \<and> u = the (rq_udi r) then ?a # runs_of u s else runs_of u s)" for u
    by (simp add: run_listed_def Let_def) (simp add: runs_of_def)
  have sg: "hr_singletons ?s = (if rq_is_singleton r then ?a # hr_singletons s else hr_singletons s)"
    by (simp add: run_listed_def Let_def)
  have w: "waits b u ?s \<longleftrightarrow> (if b = ?a then \<not> rq_is_singleton r \<and> u = the (rq_udi r) else waits b u s)" for b u
    using assms(2-4) l by (auto simp: waits_def run_ok_def split: if_splits)
  have "?a \<notin> set (runs_of u s)" for u using inv_runs(1) [OF assms(1)] new by (simp add: waits_def)
  then have "runs_table_ok ?s"
    using w r assms(1) inv_runs [OF assms(1)]
    by (auto simp: runs_table_ok_def helper_inv_def run_listed_def Let_def set_runs_def distinct_update)
  moreover have "heap_ok ?s" using inv_heap [OF assms(1)] by (auto simp: heap_ok_def run_listed_def Let_def less_Suc_eq)
  moreover have "list_ok ?s" using assms(1,4) l sg by (auto simp: helper_inv_def list_ok_def run_listed_def Let_def)
  ultimately have "helper_inv ?s" using assms(2) inv_run [OF assms(1)] l by (auto simp: helper_inv_def)
  moreover have "once_ok ?s" if "once_ok s" using that assms(3,4) new l sg by (auto simp: once_ok_def)
  moreover have "answers_total m ?s = answers_total m s + (if rd_msg rd = Some m then 1 else 0)"
    using assms(3) by (simp add: answers_total_def answers_sent_def answers_due_def run_listed_def Let_def)
  ultimately show ?thesis by (simp add: step_ok_def run_listed_def Let_def)
qed

lemma reply_step: "helper_inv s \<Longrightarrow> step_ok s (send_reply msg e c err s)"
  by (auto simp: step_ok_def helper_inv_def heap_ok_def runs_table_ok_def list_ok_def once_ok_def waits_def)

lemma send_step: "helper_inv s \<Longrightarrow> step_ok s (hr_send x s)"
  by (auto simp: step_ok_def helper_inv_def heap_ok_def runs_table_ok_def list_ok_def once_ok_def waits_def)

lemma step_ok_trans: "step_ok s t \<Longrightarrow> step_ok t u \<Longrightarrow> step_ok s u"
  by (simp add: step_ok_def)

lemma run_request_outcome:
  assumes "helper_inv s" "request_ok r msg"
  obtains p s' where "run_request_run W r msg out_pid s = Inr (p, s')" "step_ok s s'"
    "\<forall>m. answers_total m s' = answers_total m s + (if msg = Some m then 1 else 0)"
proof -
  let ?failed = "send_reply msg HALD_RUN_FAILED_VALUE 0 None s"
  have failed: "step_ok s ?failed" "\<forall>m. answers_total m ?failed = answers_total m s + (if msg = Some m then 1 else 0)"
    using reply_step [OF assms(1)] by (simp_all add: answers_total_def)
  show thesis
  proof (cases "find_program W (rq_argv r)")
    case None
    then show thesis using that [of None ?failed] failed by (simp add: run_request_run_def)
  next
    case (Some argv)
    show thesis
    proof (cases "sys_spawn W argv (rq_environment r)")
      case None
      then show thesis using that [of None ?failed] failed Some by (simp add: run_request_run_def)
    next
      case pid: (Some pid)
      let ?r = "r\<lparr>rq_argv := argv\<rparr>"
      let ?rd = "\<lparr>rd_r = ?r, rd_msg = msg, rd_pid = pid, rd_stderr = rq_error_on_stderr r,
                  rd_timeout = (rq_timeout r > 0), rd_sent_kill = False, rd_emit_pid_exited = out_pid\<rparr>"
      have "run_ok ?rd" using assms(2) by (auto simp: run_ok_def request_ok_def split: if_splits)
      then have l: "step_ok s (run_listed (hr_next s) ?r ?rd s)"
          "\<forall>m. answers_total m (run_listed (hr_next s) ?r ?rd s) = answers_total m s + (if msg = Some m then 1 else 0)"
        using listed_step [OF assms(1), of ?rd ?r] by simp_all
      have "run_request_run W r msg out_pid s = Inr (Some pid, run_listed (hr_next s) ?r ?rd s)"
        using Some pid assms(2)
        by (auto simp: run_request_run_def add_run_def run_listed_def request_ok_def runs_of_def Let_def split: if_splits)
      then show thesis using that l by blast
    qed
  qed
qed

section \<open>Calls\<close>

lemma read_run_ok: "read_run W args = Some r \<Longrightarrow> request_ok r msg"
  by (auto simp: read_run_def request_ok_def new_run_request_def
      elim!: parse_udi.elims parse_environment.elims parse_run.elims split: option.splits)

lemma read_start_ok: "read_start W once args = Some r \<Longrightarrow> request_ok r None"
  by (auto simp: read_start_def request_ok_def new_run_request_def
      elim!: parse_udi.elims parse_environment.elims split: option.splits if_splits)

text \<open>A call that is answered at once or later; \<open>Shutdown\<close> is not, and what the filter does not know is left to others.\<close>

fun answered_call :: "nat \<Rightarrow> hr_event \<Rightarrow> bool" where
  "answered_call m (Ev_Call W meth n args) \<longleftrightarrow> n = m \<and> meth \<notin> {M_Shutdown, M_Other}"
| "answered_call m _ \<longleftrightarrow> False"

fun with_args :: "hr_event \<Rightarrow> bool" where
  "with_args (Ev_Call W meth n args) \<longleftrightarrow> meth \<in> {M_Run, M_Start, M_StartSingleton} \<longrightarrow> args \<noteq> []"
| "with_args _ \<longleftrightarrow> True"

fun kills_all :: "hr_event \<Rightarrow> bool" where
  "kills_all (Ev_Call W meth n args) \<longleftrightarrow> meth = M_KillAll"
| "kills_all _ \<longleftrightarrow> False"

fun shuts_down :: "hr_event \<Rightarrow> bool" where
  "shuts_down (Ev_Call W meth n args) \<longleftrightarrow> meth = M_Shutdown"
| "shuts_down _ \<longleftrightarrow> False"

definition answered_by :: "nat \<Rightarrow> hr_state \<Rightarrow> hr_state \<Rightarrow> bool" where
  "answered_by n s s' \<longleftrightarrow> (\<forall>m. answers_total m s' = answers_total m s + (if n = m then 1 else 0))"

lemma send_answer: "answer_to m x = (n = m) \<Longrightarrow> answers_total m (hr_send x s) = answers_total m s + (if n = m then 1 else 0)"
  by (simp add: answers_total_def)

lemma handle_run_outcome:
  assumes "helper_inv s" "args \<noteq> []"
  obtains s' where "handle_run W n args s = Inr s'" "step_ok s s'" "answered_by n s s'"
proof (cases "read_run W args")
  case None
  then show thesis
    using that [of "hr_send (Send_Error n ''org.freedesktop.HalRunner.Malformed'') s"] assms send_step
    by (simp add: handle_run_def answered_by_def send_answer)
next
  case (Some r)
  obtain p s' where "run_request_run W r (Some n) False s = Inr (p, s')" "step_ok s s'"
      "\<forall>m. answers_total m s' = answers_total m s + (if Some n = Some m then 1 else 0)"
    by (rule run_request_outcome [OF assms(1) read_run_ok [OF Some]])
  then show thesis using that [of s'] Some assms(2) by (simp add: handle_run_def answered_by_def)
qed

lemma handle_start_outcome:
  assumes "helper_inv s" "args \<noteq> []"
  obtains s' where "handle_start W n args once s = Inr s'" "step_ok s s'" "answered_by n s s'"
proof (cases "read_start W once args")
  case None
  then show thesis
    using that [of "hr_send (Send_Error n ''org.freedesktop.HalRunner.Malformed'') s"] assms send_step
    by (simp add: handle_start_def answered_by_def send_answer)
next
  case (Some r)
  obtain p t where t: "run_request_run W r None True s = Inr (p, t)" "step_ok s t"
      "\<forall>m. answers_total m t = answers_total m s + (if None = Some m then 1 else 0)"
    by (rule run_request_outcome [OF assms(1) read_start_ok [OF Some]])
  let ?x = "case p of None \<Rightarrow> Send_Error n ''org.freedesktop.HalRunner.Failed'' | Some q \<Rightarrow> Send_Pid n q"
  have "answer_to m ?x = (n = m)" for m by (simp split: option.split)
  then have "answered_by n s (hr_send ?x t)" using t(3) send_answer by (simp add: answered_by_def)
  moreover have "step_ok s (hr_send ?x t)" using step_ok_trans [OF t(2) send_step] t(2) by (simp add: step_ok_def)
  moreover have "handle_start W n args once s = Inr (hr_send ?x t)" using Some assms(2) t(1) by (simp add: handle_start_def)
  ultimately show thesis using that by blast
qed

lemma handle_kill_outcome:
  assumes "helper_inv s"
  obtains s' where "handle_kill n args s = Inr s'" "step_ok s s'" "answered_by n s s'"
proof (cases "\<exists>u vs. args = D_STRING u # vs")
  case True
  then obtain u vs where args: "args = D_STRING u # vs" by blast
  obtain t where t: "run_kill_udi u s = Inr t" "step_ok s t" "\<And>m. answers_total m t = answers_total m s"
    using run_kill_udi_outcome [OF assms, of u] by metis
  have "step_ok s (hr_send (Send_Empty n) t)" using step_ok_trans [OF t(2) send_step] t(2) by (simp add: step_ok_def)
  then show thesis using that [of "hr_send (Send_Empty n) t"] args t by (simp add: answered_by_def send_answer)
next
  case False
  then have "handle_kill n args s = Inr (hr_send (Send_Error n ''org.freedesktop.HalRunner.Malformed'') s)"
    by (cases "(n, args, s)" rule: handle_kill.cases) auto
  then show thesis using that assms send_step by (simp add: answered_by_def send_answer)
qed

section \<open>Sequences of events\<close>

lemma helper_run_Nil [simp]: "helper_run [] s = Inr s"
  by (simp add: helper_run_def)

lemma helper_run_Cons: "helper_run (ev # evs) s = err_bind (helper_step ev s) (helper_run evs)"
  by (cases "helper_step ev s") (simp_all add: helper_run_def)

lemma run_init_ok: "helper_inv run_init" "once_ok run_init" "\<not> hr_ended run_init" "answers_total m run_init = 0"
  by (simp_all add: helper_inv_def heap_ok_def runs_table_ok_def list_ok_def once_ok_def waits_def lookup_run_def runs_of_def
      answers_total_def answers_sent_def answers_due_def run_init_def)

lemma call_outcome:
  assumes "helper_inv s" "runner_filter W meth n args s = Inr s'" "meth \<noteq> M_Shutdown"
  shows "helper_inv s' \<and> hr_ended s' = hr_ended s \<and>
    answers_total m s' = answers_total m s + (if answered_call m (Ev_Call W meth n args) then 1 else 0)"
proof (cases meth)
  case M_Run
  then have "args \<noteq> []" using assms(2) by (auto simp: runner_filter_def handle_run_def)
  then obtain t where "handle_run W n args s = Inr t" "step_ok s t" "answered_by n s t"
    by (rule handle_run_outcome [OF assms(1)])
  then show ?thesis using assms(2) M_Run by (simp add: runner_filter_def step_ok_def answered_by_def)
next
  case M_Start
  then have "args \<noteq> []" using assms(2) by (auto simp: runner_filter_def handle_start_def)
  then obtain t where "handle_start W n args False s = Inr t" "step_ok s t" "answered_by n s t"
    by (rule handle_start_outcome [OF assms(1)])
  then show ?thesis using assms(2) M_Start by (simp add: runner_filter_def step_ok_def answered_by_def)
next
  case M_StartSingleton
  then have "args \<noteq> []" using assms(2) by (auto simp: runner_filter_def handle_start_def)
  then obtain t where "handle_start W n args True s = Inr t" "step_ok s t" "answered_by n s t"
    by (rule handle_start_outcome [OF assms(1)])
  then show ?thesis using assms(2) M_StartSingleton by (simp add: runner_filter_def step_ok_def answered_by_def)
next
  case M_Kill
  obtain t where "handle_kill n args s = Inr t" "step_ok s t" "answered_by n s t" by (rule handle_kill_outcome [OF assms(1)])
  then show ?thesis using assms(2) M_Kill by (simp add: runner_filter_def step_ok_def answered_by_def)
next
  case M_KillAll
  then obtain t where t: "run_kill_all s = Inr t" "s' = hr_send (Send_Empty n) t" using assms(2) by (auto simp: runner_filter_def)
  then show ?thesis using run_kill_all_outcome [OF assms(1) t(1)] send_step [of t "Send_Empty n"] M_KillAll
    by (simp add: step_ok_def send_answer)
qed (use assms in \<open>auto simp: runner_filter_def\<close>)

lemma helper_step_outcome:
  assumes "helper_inv s" "\<not> hr_ended s" "helper_step ev s = Inr s'" "\<not> shuts_down ev"
  shows "helper_inv s' \<and> \<not> hr_ended s' \<and> answers_total m s' = answers_total m s + (if answered_call m ev then 1 else 0)"
proof (cases ev)
  case (Ev_Call W meth n args)
  then show ?thesis using call_outcome [OF assms(1), of W meth n args s'] assms by simp
next
  case (Ev_Exited a status err_lines)
  show ?thesis
  proof (cases "lookup_run a s")
    case None
    then show ?thesis using assms Ev_Exited by (simp add: lookup_run_def)
  next
    case (Some rd)
    obtain t where "run_exited a status err_lines s = Inr t" "step_ok s t" "\<forall>m. answers_total m t = answers_total m s"
      by (rule run_exited_outcome [OF assms(1) Some])
    then show ?thesis using assms(2,3) Ev_Exited Some by (simp add: lookup_run_def step_ok_def)
  qed
next
  case (Ev_Timeout a)
  show ?thesis
  proof (cases "lookup_run a s")
    case None
    then show ?thesis using assms Ev_Timeout by (simp add: lookup_run_def)
  next
    case (Some rd)
    show ?thesis
    proof (cases "rd_timeout rd")
      case True
      obtain t where "run_timedout a s = Inr t" "step_ok s t" "\<forall>m. answers_total m t = answers_total m s"
        by (rule run_timedout_outcome [OF assms(1) Some True])
      then show ?thesis using assms(2,3) Ev_Timeout Some True by (simp add: lookup_run_def step_ok_def)
    next
      case False
      then show ?thesis using assms Ev_Timeout Some by (simp add: lookup_run_def)
    qed
  qed
qed

lemma helper_run_outcome:
  assumes "helper_inv s" "\<not> hr_ended s" "helper_run evs s = Inr s'" "list_all (\<lambda>ev. \<not> shuts_down ev) evs"
  shows "helper_inv s' \<and> \<not> hr_ended s' \<and> answers_total m s' = answers_total m s + length (filter (answered_call m) evs)"
  using assms
proof (induction evs arbitrary: s)
  case (Cons ev evs)
  then obtain t where t: "helper_step ev s = Inr t" "helper_run evs t = Inr s'" by (auto simp: helper_run_Cons)
  have "helper_inv t \<and> \<not> hr_ended t \<and> answers_total m t = answers_total m s + (if answered_call m ev then 1 else 0)"
    using helper_step_outcome [OF Cons.prems(1,2) t(1)] Cons.prems(4) by simp
  then show ?case using Cons.IH [of t] t(2) Cons.prems(4) by simp
qed simp

text \<open>Without \<open>KillAll\<close> nothing fails.\<close>

lemma call_defined:
  assumes "helper_inv s" "once_ok s" "meth \<noteq> M_KillAll" "with_args (Ev_Call W meth n args)"
  shows "\<exists>s'. runner_filter W meth n args s = Inr s' \<and> (hr_ended s' \<or> helper_inv s' \<and> once_ok s')"
proof (cases meth)
  case M_Run
  then have "args \<noteq> []" using assms(4) by simp
  then obtain t where "handle_run W n args s = Inr t" "step_ok s t" by (rule handle_run_outcome [OF assms(1)])
  then show ?thesis using assms(2) M_Run by (simp add: runner_filter_def step_ok_def)
next
  case M_Start
  then have "args \<noteq> []" using assms(4) by simp
  then obtain t where "handle_start W n args False s = Inr t" "step_ok s t" by (rule handle_start_outcome [OF assms(1)])
  then show ?thesis using assms(2) M_Start by (simp add: runner_filter_def step_ok_def)
next
  case M_StartSingleton
  then have "args \<noteq> []" using assms(4) by simp
  then obtain t where "handle_start W n args True s = Inr t" "step_ok s t" by (rule handle_start_outcome [OF assms(1)])
  then show ?thesis using assms(2) M_StartSingleton by (simp add: runner_filter_def step_ok_def)
next
  case M_Kill
  obtain t where "handle_kill n args s = Inr t" "step_ok s t" by (rule handle_kill_outcome [OF assms(1)])
  then show ?thesis using assms(2) M_Kill by (simp add: runner_filter_def step_ok_def)
next
  case M_Shutdown
  then show ?thesis using run_kill_all_defined [OF assms(1,2)] by (auto simp: runner_filter_def)
qed (use assms in \<open>auto simp: runner_filter_def\<close>)

lemma helper_step_defined:
  assumes "hr_ended s \<or> helper_inv s \<and> once_ok s" "\<not> kills_all ev" "with_args ev"
  shows "\<exists>s'. helper_step ev s = Inr s' \<and> (hr_ended s' \<or> helper_inv s' \<and> once_ok s')"
proof (cases "hr_ended s")
  case True
  then show ?thesis by (cases ev) (auto split: option.split)
next
  case False
  then have i: "helper_inv s" "once_ok s" using assms(1) by simp_all
  show ?thesis
  proof (cases ev)
    case (Ev_Call W meth n args)
    then show ?thesis using call_defined [OF i, of meth W n args] assms(2,3) False by auto
  next
    case (Ev_Exited a status err_lines)
    show ?thesis
    proof (cases "lookup_run a s")
      case None
      then show ?thesis using Ev_Exited i by (simp add: lookup_run_def)
    next
      case (Some rd)
      obtain t where "run_exited a status err_lines s = Inr t" "step_ok s t" by (rule run_exited_outcome [OF i(1) Some])
      then show ?thesis using Ev_Exited Some False i(2) by (simp add: lookup_run_def step_ok_def)
    qed
  next
    case (Ev_Timeout a)
    show ?thesis
    proof (cases "\<exists>rd. lookup_run a s = Some rd \<and> rd_timeout rd")
      case True
      then obtain rd where rd: "lookup_run a s = Some rd" "rd_timeout rd" by blast
      obtain t where "run_timedout a s = Inr t" "step_ok s t" by (rule run_timedout_outcome [OF i(1) rd])
      then show ?thesis using Ev_Timeout rd False i(2) by (simp add: lookup_run_def step_ok_def)
    next
      case no: False
      then show ?thesis using Ev_Timeout i by (auto simp: lookup_run_def split: option.split)
    qed
  qed
qed

lemma helper_run_defined:
  "hr_ended s \<or> helper_inv s \<and> once_ok s \<Longrightarrow> list_all (\<lambda>ev. \<not> kills_all ev \<and> with_args ev) evs \<Longrightarrow>
   \<exists>s'. helper_run evs s = Inr s' \<and> (hr_ended s' \<or> helper_inv s' \<and> once_ok s')"
proof (induction evs arbitrary: s)
  case (Cons ev evs)
  obtain t where t: "helper_step ev s = Inr t" "hr_ended t \<or> helper_inv t \<and> once_ok t"
    using helper_step_defined [OF Cons.prems(1), of ev] Cons.prems(2) by auto
  then show ?case using Cons.IH [OF t(2)] Cons.prems(2) by (simp add: helper_run_Cons)
qed simp

lemma kill_fold_error: "err_fold kill_rd as s = Inl e \<Longrightarrow> e = Use_After_Free"
proof (induction as arbitrary: s)
  case (Cons a as)
  then show ?case by (cases "lookup_run a s") (auto simp: kill_rd_def get_run_def lookup_run_def err_bind_Inl)
qed simp

section \<open>Properties\<close>

text \<open>C22: the runner answers calls exactly once. Take any sequence of calls, exits and timeouts in which no \<open>Shutdown\<close> is called,
  which ends the process without an answer, and which the runner survives, which excludes a second \<open>KillAll\<close> that uses freed
  memory. Then at its end the answers sent to the calls with a serial number, and the runs that will still answer one of
  them, are together as many as these calls. Calls of unknown methods are not counted, the runner does not handle them.
\<close>

theorem helper_answers_once:
  assumes "list_all (\<lambda>ev. \<not> shuts_down ev) evs" "helper_run evs run_init = Inr s"
  shows "answers_sent m s + answers_due m s = length (filter (answered_call m) evs)"
  using helper_run_outcome [OF run_init_ok(1,3) assms(2,1), of m] run_init_ok(4) [of m] by (simp add: answers_total_def)

text \<open>C23: the runner only uses the data of runs while it is allocated, and every event is handled, as long as calls have
  arguments and \<open>KillAll\<close> is not called.
\<close>

theorem helper_memory_safe:
  assumes "list_all (\<lambda>ev. \<not> kills_all ev \<and> with_args ev) evs"
  shows "\<exists>s. helper_run evs run_init = Inr s"
  using helper_run_defined [OF _ assms] run_init_ok by blast

text \<open>C27: \<open>Kill\<close> ends exactly the runs of its device: each of them gets its signal and its caller an answer, no run of the device
  is left, and the runs of other devices go on.
\<close>

theorem kill_ends_runs_of_device:
  assumes "list_all (\<lambda>ev. \<not> shuts_down ev) evs" "helper_run evs run_init = Inr s"
  shows "\<exists>s'. handle_kill n (D_STRING u # vs) s = Inr s' \<and> (\<forall>a v. waits a v s' \<longleftrightarrow> waits a v s \<and> v \<noteq> u) \<and>
    (\<forall>a. a \<in> set (runs_of u s) \<longleftrightarrow> waits a u s) \<and>
    hr_out s' = hr_out s @ concat (map (\<lambda>a. kill_output (the (lookup_run a s))) (runs_of u s)) @ [Send_Empty n]"
proof -
  have i: "helper_inv s" using helper_run_outcome [OF run_init_ok(1,3) assms(2,1)] by simp
  obtain t where t: "run_kill_udi u s = Inr t" "\<And>a v. waits a v t \<longleftrightarrow> waits a v s \<and> v \<noteq> u"
      "hr_out t = hr_out s @ concat (map (\<lambda>a. kill_output (the (lookup_run a s))) (runs_of u s))"
    using run_kill_udi_outcome [OF i, of u] by metis
  have "waits a v (hr_send (Send_Empty n) t) \<longleftrightarrow> waits a v t" for a v by (simp add: waits_def)
  then show ?thesis using t inv_runs(1) [OF i] by simp
qed

text \<open>\<open>KillAll\<close> does not take the programs started once out of their list: after one of them has ended, another \<open>KillAll\<close> or
  \<open>Shutdown\<close> uses its freed data.
\<close>

theorem second_kill_all_uses_freed_run:
  assumes "list_all (\<lambda>ev. \<not> kills_all ev \<and> with_args ev \<and> \<not> shuts_down ev) evs" "helper_run evs run_init = Inr s"
    and "a \<in> set (hr_singletons s)" "meth \<in> {M_KillAll, M_Shutdown}"
  shows "helper_run [Ev_Call W M_KillAll n args, Ev_Exited a status err_lines, Ev_Call W meth n' args'] s = Inl Use_After_Free"
proof -
  have "list_all (\<lambda>ev. \<not> shuts_down ev) evs" "list_all (\<lambda>ev. \<not> kills_all ev \<and> with_args ev) evs"
    using assms(1) by (auto simp: list_all_iff)
  then have i: "helper_inv s" "\<not> hr_ended s" "once_ok s"
    using helper_run_outcome [OF run_init_ok(1,3) assms(2)] helper_run_defined [of run_init evs] run_init_ok assms(2) by auto
  obtain t where t: "run_kill_all s = err_fold kill_rd (hr_singletons s) t" "hr_singletons t = hr_singletons s"
    by (rule kill_devices [OF i(1)])
  obtain k where k: "run_kill_all s = Inr k" using run_kill_all_defined [OF i(1,3)] by blast
  then have kd: "killed (hr_singletons s) t k" "\<forall>b\<in>set (hr_singletons s). lookup_run b t \<noteq> None"
    using t(1) kill_list_killed by simp_all
  let ?k = "hr_send (Send_Empty n) k"
  have ki: "helper_inv ?k" "\<not> hr_ended ?k"
    using run_kill_all_outcome [OF i(1) k] i(2) send_step [of k "Send_Empty n"] by (simp_all add: step_ok_def)
  obtain rd where rd: "lookup_run a ?k = Some rd" "rd_sent_kill rd" using kd assms(3) by (auto simp: killed_def)
  let ?d = "del_run_data a ?k"
  have di: "helper_inv ?d" using killed_run_freed [OF ki(1) rd] by (simp add: step_ok_def)
  have dead: "lookup_run a ?d = None" "a \<in> set (hr_singletons ?d)" using kd(1) t(2) assms(3) by (simp_all add: killed_def)
  obtain u where u: "run_kill_all ?d = err_fold kill_rd (hr_singletons ?d) u" "\<forall>a. lookup_run a ?d = None \<longrightarrow> lookup_run a u = None"
    by (rule kill_devices [OF di])
  have "run_kill_all ?d = Inl Use_After_Free"
  proof (cases "err_fold kill_rd (hr_singletons ?d) u")
    case (Inl e)
    then show ?thesis using u(1) kill_fold_error by simp
  next
    case (Inr v)
    then show ?thesis using kill_list_killed [OF Inr] u(2) dead by blast
  qed
  moreover have "run_exited a status err_lines ?k = Inr ?d" using rd by (simp add: run_exited_def get_run_def lookup_run_def)
  ultimately show ?thesis using i(2) k ki(2) rd assms(4)
    by (auto simp: helper_run_Cons runner_filter_def lookup_run_def)
qed


lemma reply_strings_map [simp]: "reply_strings (map D_STRING xs) = xs"
  by (induction xs) simp_all


text \<open>A program that the daemon runs for an answer is the program that runs, and its result is the result its callback gets. The
  daemon's \<open>Run\<close> makes the runner start the program with the arguments, the environment (and a path), the input and the timeout
  of the request. When the process ends while the runner has neither killed it nor given up on it, the runner answers the
  call, and the daemon calls the callback with its device and data, the kind of exit, the exit code, and the lines of
  the error output where they were asked for.
\<close>

theorem run_program_reports_back:
  fixes cb data1 data2 :: nat and input :: string and err :: bool and timeout :: "32 word" and s :: runner_state
  assumes "add_environment E d cmd env = Inr (Some (ev, p # ps))" and "re_connected E" and "\<not> hr_ended hs"
    and "sys_find W p = Some path"
    and "sys_spawn W (path # ps) (ev @ [''PATH=/sbin:/usr/sbin:/bin:/usr/bin:'' @ sys_path W]) = Some pid"
  defines "rd \<equiv> \<lparr>rd_r = \<lparr>rq_udi = Some (add_udi d),
        rq_environment = ev @ [''PATH=/sbin:/usr/sbin:/bin:/usr/bin:'' @ sys_path W], rq_argv = path # ps, rq_input = Some input,
        rq_error_on_stderr = err, rq_is_singleton = False, rq_timeout = timeout\<rparr>,
      rd_msg = Some (rn_next s), rd_pid = pid, rd_stderr = err, rd_timeout = (timeout > 0), rd_sent_kill = False,
      rd_emit_pid_exited = False\<rparr>"
    and "hb \<equiv> \<lparr>hb_device = dev_addr d, hb_cb = Some cb, hb_data1 = data1, hb_data2 = data2\<rparr>"
    and "call \<equiv> (\<lambda>status err_lines. \<lparr>rc_cb = cb, rc_device = dev_addr d,
      rc_exit = (case status of Exited code \<Rightarrow> HALD_RUN_SUCCESS_VALUE | Signaled \<Rightarrow> HALD_RUN_FAILED_VALUE),
      rc_return = (case status of Exited code \<Rightarrow> ucast code | Signaled \<Rightarrow> 0),
      rc_error = Some (if err \<and> status \<noteq> Signaled then get_string_array_from_fd err_lines else []),
      rc_data1 = data1, rc_data2 = data2\<rparr>)"
  shows "\<exists>s' hs'. hald_runner_run_method E d cmd env input err timeout (Some cb) data1 data2 s = Inr s' \<and>
    rn_pending s' = (rn_next s, hb) # rn_pending s \<and>
    serve_call W (rn_next s) (last (rn_out s')) hs = Inr hs' \<and> map_of (hr_runs hs') (hr_next hs) = Some rd \<and>
    (\<forall>hs1 status err_lines. map_of (hr_runs hs1) (hr_next hs) = Some rd \<longrightarrow>
       (\<exists>hs2 m. run_exited (hr_next hs) status err_lines hs1 = Inr hs2 \<and>
          output_reply (last (hr_out hs2)) = Some (rn_next s, m) \<and>
          (\<forall>s1. map_of (rn_pending s1) (rn_next s) = Some hb \<longrightarrow>
             call_notify E (rn_next s) m s1 =
               err_bind (call_cb E (call status err_lines)
                           (s1\<lparr>rn_pending := filter (\<lambda>(k, h). k \<noteq> rn_next s) (rn_pending s1)\<rparr>))
                 (\<lambda>s. Inr (reply_handled E (dev_addr d) s)))))"
proof -
  let ?c = "Call_Run (add_udi d) ev (p # ps) input err timeout"
  let ?s = "ref_device (dev_addr d) ((rn_send ?c s)\<lparr>rn_pending := (rn_next s, hb) # rn_pending s, rn_next := Suc (rn_next s)\<rparr>)"
  have run: "hald_runner_run_method E d cmd env input err timeout (Some cb) data1 data2 s = Inr ?s"
    using assms(1,2) by (simp add: hald_runner_run_method_def hb_def rn_send_def Let_def)
  have sent: "rn_pending ?s = (rn_next s, hb) # rn_pending s" "last (rn_out ?s) = ?c"
    by (simp_all add: ref_device_def rn_send_def split: option.split)
  obtain hs' where serve: "serve_call W (rn_next s) ?c hs = Inr hs'" and hs': "map_of (hr_runs hs') (hr_next hs) = Some rd"
    using assms(3-5)
    by (auto simp: serve_call_def runner_filter_def handle_run_def read_run_def new_run_request_def run_request_run_def
        find_program_def add_run_def Let_def rd_def)
  have ended: "\<exists>hs2 m. run_exited (hr_next hs) status err_lines hs1 = Inr hs2 \<and> output_reply (last (hr_out hs2)) = Some (rn_next s, m) \<and>
      read_reply m = (rc_exit (call status err_lines), rc_return (call status err_lines), rc_error (call status err_lines))"
    if "map_of (hr_runs hs1) (hr_next hs) = Some rd" for hs1 status err_lines
    using that
    by (cases status)
      (auto simp: run_exited_def get_run_def rd_def send_reply_def remove_run_data_def Let_def call_def read_reply_def)
  have told: "call_notify E (rn_next s) m s1 =
      err_bind (call_cb E (call status err_lines) (s1\<lparr>rn_pending := filter (\<lambda>(k, h). k \<noteq> rn_next s) (rn_pending s1)\<rparr>))
        (\<lambda>s. Inr (reply_handled E (dev_addr d) s))"
    if "map_of (rn_pending s1) (rn_next s) = Some hb"
      "read_reply m = (rc_exit (call status err_lines), rc_return (call status err_lines), rc_error (call status err_lines))"
    for s1 m status err_lines
    using that by (simp add: call_notify_def process_reply_def hb_def call_def)
  have reported: "\<exists>hs2 m. run_exited (hr_next hs) status err_lines hs1 = Inr hs2 \<and>
      output_reply (last (hr_out hs2)) = Some (rn_next s, m) \<and>
      (\<forall>s1. map_of (rn_pending s1) (rn_next s) = Some hb \<longrightarrow>
         call_notify E (rn_next s) m s1 =
           err_bind (call_cb E (call status err_lines)
                       (s1\<lparr>rn_pending := filter (\<lambda>(k, h). k \<noteq> rn_next s) (rn_pending s1)\<rparr>))
             (\<lambda>s. Inr (reply_handled E (dev_addr d) s)))"
    if "map_of (hr_runs hs1) (hr_next hs) = Some rd" for hs1 status err_lines
    using ended [OF that, of status err_lines] told by blast
  have served: "serve_call W (rn_next s) (last (rn_out ?s)) hs = Inr hs'" using serve sent(2) by simp
  show ?thesis
    by (rule exI, rule exI, rule conjI [OF run conjI [OF sent(1) conjI [OF served conjI [OF hs']]]])
      (intro allI impI, erule reported)
qed

text \<open>For the witnesses: every program is found and starts.\<close>

definition demo_system :: hr_system where
  "demo_system = \<lparr>sys_find = (\<lambda>p. Some p), sys_spawn = (\<lambda>argv env. Some 42), sys_path = ''/bin''\<rparr>"

definition demo_once_args :: "dvalue list" where
  "demo_once_args = [D_ARRAY T_STRING [], D_ARRAY T_STRING [D_STRING ''prog'']]"

definition demo_run_args :: "string \<Rightarrow> dvalue list" where
  "demo_run_args u = D_STRING u # demo_once_args @ [D_STRING [], D_BOOLEAN False, D_UINT32 1000]"

definition helper_demo_call :: "nat \<Rightarrow> string \<Rightarrow> hr_event" where
  "helper_demo_call m u = Ev_Call demo_system M_Run m (demo_run_args u)"

lemmas helper_demo_defs = helper_demo_call_def demo_run_args_def demo_once_args_def demo_system_def helper_run_Cons runner_filter_def
  handle_run_def read_run_def new_run_request_def run_request_run_def find_program_def add_run_def set_runs_def runs_of_def
  run_init_def Let_def handle_start_def read_start_def run_exited_def get_run_def send_reply_def hr_send_def
  remove_run_data_def del_run_data_def run_timedout_def put_run_def

text \<open>The daemon's side: every command line is one word, and blocking calls are answered by a runner that has just started.\<close>

definition helper_demo_env :: runner_env where
  "helper_demo_env = \<lparr>re_verbose = False, re_initialising = False, re_syslog = False, re_local_addr = None, re_getenv = (\<lambda>v. None),
     re_ck = None, re_uname = None, re_parse_argv = (\<lambda>c. Some [c]), re_block = answer_now demo_system 9 run_init, re_connected = True,
     re_notify = False, re_react = (\<lambda>c s. Inr s)\<rparr>"

lemma helper_demo_environment: "add_environment helper_demo_env None ''prog'' None = Inr (Some ([''HAVE_POLKIT=1''], [''prog'']))"
  by (simp add: add_environment_def add_basic_env_def helper_demo_env_def add_env_def Let_def)


theorem run_program_reports_back_witness:
  "\<exists>s'. hald_runner_run_method helper_demo_env None ''prog'' None [] False 0 (Some 3) 4 5 runner_init = Inr s' \<and>
     length (rn_pending s') = 1"
  using run_program_reports_back [OF helper_demo_environment, of run_init demo_system "''prog''" 42 "[]" False 0 3 4 5 runner_init]
  by (auto simp: demo_system_def run_init_def helper_demo_env_def runner_init_def)

theorem helper_answers_once_witness:
  "\<exists>s. helper_run [helper_demo_call 5 ''d'', helper_demo_call 6 ''d'', Ev_Exited 0 (Exited 3) []] run_init = Inr s \<and>
     hr_out s = [Send_Reply 5 0 3 []] \<and> answers_sent 5 s + answers_due 5 s = 1 \<and> answers_sent 6 s + answers_due 6 s = 1"
proof -
  obtain s where s: "helper_run [helper_demo_call 5 ''d'', helper_demo_call 6 ''d'', Ev_Exited 0 (Exited 3) []] run_init = Inr s"
      "hr_out s = [Send_Reply 5 0 3 []]"
    by (simp add: helper_demo_defs HALD_RUN_SUCCESS_VALUE_def)
  then show ?thesis
    using helper_answers_once [OF _ s(1), of 5] helper_answers_once [OF _ s(1), of 6] by (simp add: helper_demo_call_def)
qed

theorem helper_memory_safe_witness:
  "\<exists>s. helper_run [helper_demo_call 5 ''d'', Ev_Call demo_system M_StartSingleton 6 demo_once_args, Ev_Timeout 0,
     Ev_Exited 1 Signaled [], Ev_Call demo_system M_Kill 7 [D_STRING ''d''], Ev_Exited 0 Signaled [],
     Ev_Call demo_system M_Shutdown 8 []] run_init = Inr s"
  by (rule helper_memory_safe) (simp add: helper_demo_call_def demo_run_args_def demo_once_args_def)

theorem kill_ends_runs_of_device_witness:
  "\<exists>s s'. helper_run [helper_demo_call 5 ''d'', helper_demo_call 6 ''e''] run_init = Inr s \<and> runs_of ''d'' s = [0] \<and>
     handle_kill 7 [D_STRING ''d''] s = Inr s' \<and> (\<forall>a v. waits a v s' \<longleftrightarrow> waits a v s \<and> v \<noteq> ''d'') \<and>
     (\<forall>a. a \<in> set (runs_of ''d'' s) \<longleftrightarrow> waits a ''d'' s) \<and>
     hr_out s' = hr_out s @ [Kill_Process 42, Send_Reply 5 4 0 [], Send_Empty 7]"
proof -
  obtain s where s: "helper_run [helper_demo_call 5 ''d'', helper_demo_call 6 ''e''] run_init = Inr s" "runs_of ''d'' s = [0]"
      "kill_output (the (lookup_run 0 s)) = [Kill_Process 42, Send_Reply 5 4 0 []]"
    by (simp add: helper_demo_defs lookup_run_def kill_output_def HALD_RUN_KILLED_VALUE_def)
  then show ?thesis
    using kill_ends_runs_of_device [OF _ s(1), of 7 "''d''" "[]"] by (auto simp: helper_demo_call_def)
qed

theorem second_kill_all_uses_freed_run_witness:
  "\<exists>s. helper_run [Ev_Call demo_system M_StartSingleton 1 demo_once_args] run_init = Inr s \<and>
     helper_run [Ev_Call demo_system M_KillAll 2 [], Ev_Exited 0 Signaled [], Ev_Call demo_system M_Shutdown 3 []] s =
       Inl Use_After_Free"
proof -
  obtain s where s: "helper_run [Ev_Call demo_system M_StartSingleton 1 demo_once_args] run_init = Inr s" "hr_singletons s = [0]"
    by (simp add: helper_demo_defs)
  then show ?thesis
    using second_kill_all_uses_freed_run [OF _ s(1), of 0 M_Shutdown demo_system 2 "[]" Signaled "[]" 3 "[]"]
    by (simp add: demo_once_args_def)
qed

end
