(* ===== verification/Spec2Isabelle.thy ===== *)
theory Spec2Isabelle
  imports Hal_Lock_Props Hal_Device_Props Hal_Store_Props Hal_PM_Props Hal_Access_Props Hal_Coherency_Props
    Hal_Reprobe_Props Hal_Uevent_Props Hal_DBus_Exec_Props Hal_Part_Edit_Props Hal_Ids_Lines
    Hal_Runner_Props Hal_Helper_Props
begin

text \<open>
  HAL, the hardware abstraction layer: the core of its daemon \<open>hald\<close> as Isabelle definitions, with
  theorems about them.

  \<^bold>\<open>The program.\<close> The daemon keeps one device object per piece of hardware, a table of typed properties
  (\<open>hald/device.c\<close>). The objects live in two device lists, the global and the temporary one, each with
  an index over some string properties that it maintains by listening to the signals of its devices
  (\<open>hald/device_store.c\<close>). Clients lock interfaces of devices (also \<open>hald/device.c\<close>), and a call is let
  through when the caller is in an active session (\<open>hald/ck-tracker.c\<close>, \<open>hald/ci-tracker.c\<close>) and not
  locked out (\<open>hald/access-check.c\<close>). Rules from XML files match and change devices; a helper compiles
  them to a binary cache (\<open>hald/create_cache.c\<close>), which the daemon keeps up to date and maps
  (\<open>hald/mmap_cache.c\<close>) and walks for every new device (\<open>hald/device_info.c\<close>). Batteries get charge
  levels, a percentage and a remaining time (\<open>hald/device_pm.c\<close>, \<open>hald/util_pm.c\<close>). On Linux, devices come
  and go by events: messages of udev and the scan of sysfs at start (\<open>hald/linux/osspec.c\<close>,
  \<open>hald/linux/coldplug.c\<close>) enter a queue that begins an event once nothing earlier concerns the same part
  of the device tree (\<open>hald/linux/hotplug.c\<close>). Clients and helpers reach all this over the message bus
  (\<open>hald/hald_dbus.c\<close>): a filter dispatches their calls to handlers, which check who calls, change devices
  and answer; changes are announced by signals (\<open>hald/hald.c\<close>), and methods of devices run programs.
  Names for identifiers of PCI, USB and Plug and Play devices come from two files and a table (\<open>hald/ids.c\<close>).
  Programs are run by a process of their own, which the daemon sends requests to (\<open>hald/hald_runner.c\<close>) and which keeps
  track of what it started (\<open>hald-runner\<close>).
  The probers of volumes, and programs that change disks, use a library for partition tables
  (\<open>partutil/partutil.c\<close>), which parses them from disk and changes them through libparted.

  \<^bold>\<open>How it is modelled.\<close> State is passed explicitly. A stateful operation returns its result, the new
  state and the signals it emits, in their order; a signal is delivered to the handlers of the stores
  afterwards (\<open>world_call\<close>). Every place where the C code would read freed memory, run over a buffer,
  overflow a signed integer, convert a floating point number out of range, dereference a null pointer
  or end the process is the left side of a sum type, \<open>memory_error\<close>, so that a theorem about a
  result also says that the code has a defined behaviour. Objects that are shared by pointer and freed
  by hand (list cells of locked devices, strings used as hash keys, seats and sessions with reference
  counts) are addresses in an explicit store. Integers are words of their width, or integers with the
  overflow written out; \<open>double\<close> is binary64 with rounding to nearest even, in \<open>Hal_Double\<close>. Code
  outside the repository (UTF-8 validation and hash functions of GLib, ConsoleKit, the message bus,
  expat, libparted, the file system, process execution) is a parameter; so are two things the code leaves
  open, what a property name reads as that points into a buffer out of scope and which callout programs the
  runner accepts (\<open>re_scratch\<close>, \<open>re_starts\<close>). What the daemon relies on is a named
  hypothesis.

  \<^bold>\<open>The theories.\<close>
  \<^item> \<open>Hal_Prelude\<close>: errors and their monad, fuel, C strings and string functions, association lists
    as hash tables, 32-bit arithmetic. \<open>Hal_Double\<close>: binary64.
  \<^item> \<open>Hal_Property\<close>, \<open>Hal_Device\<close>: properties and devices, one definition per function of
    \<open>hald/device.c\<close>, with the signals each emits. \<open>Hal_Device_Laws\<close>: the interfaces \<open>key_op\<close>,
    \<open>udi_op\<close> and others as locales (an operation changes only its key and signals it), interpreted on the
    operations. \<open>Hal_Device_Calls\<close>: sequences of calls. \<open>Hal_Device_Props\<close>: invariant, outcome of the
    setters, merging, lists, buffers.
  \<^item> \<open>Hal_Lock\<close>, \<open>Hal_Lock_Props\<close>: locks, the documented lock table and the refinement up to
    the one case in which the code departs from it, exclusive locks, disconnecting clients.
  \<^item> \<open>Hal_Store\<close>, \<open>Hal_Store_Props\<close>: device list, property index, signal handlers; a lookup agrees with
    a search through all devices; borrowed key strings.
  \<^item> \<open>Hal_PM\<close>, \<open>Hal_PM_Props\<close>: batteries; ranges and absence of overflow.
  \<^item> \<open>Hal_CK\<close>, \<open>Hal_CK_Props\<close>: the ConsoleKit tracker as a state machine over messages; reference counts.
  \<^item> \<open>Hal_Access\<close>, \<open>Hal_Access_Props\<close>: caller information and access checks; the documented
    rules and the cases in which the code departs from them.
  \<^item> \<open>Hal_Rules\<close>, \<open>Hal_Rules_Props\<close>: match and merge rules, property paths, spawned devices, which
    are committed to the global device list during the walk unless they have callouts, the walk
    over the cache; termination, invariants of the devices and the stores.
  \<^item> \<open>Hal_Cache\<close>: the compiler, its output as bytes, and the mapped view. \<open>Hal_Cache_File\<close>: what reads
    back from the bytes. \<open>Hal_Cache_View\<close>, \<open>Hal_Cache_Tree\<close>: a reference semantics of documents as nested
    blocks, and by induction over documents that the callbacks lay them out. \<open>Hal_Cache_Accept\<close>: which
    documents are accepted, refused, or end the compiler, and bounds on what is written.
    \<open>Hal_Cache_Build\<close>: files, directories, the whole cache. \<open>Hal_Cache_Walk\<close>: the walk over a compiled
    cache computes the meaning of the blocks. \<open>Hal_Cache_Props\<close>: the properties.
  \<^item> \<open>Hal_Coherency\<close>, \<open>Hal_Coherency_Props\<close>: when the cache is rebuilt, and what is mapped then.
  \<^item> \<open>Hal_Util\<close>, \<open>Hal_Util_Props\<close>: helpers of \<open>hald/util.c\<close>: paths, UDIs, values from files, the line search,
    callouts, names; grammar of names, path normalisation, unique UDIs.
  \<^item> \<open>Hal_Hotplug\<close>: hotplug events, the queue, dispatch to the back ends, rescan and reprobe.
    \<open>Hal_Hotplug_Props\<close>: dependencies and what processing leaves in the queue. \<open>Hal_Hotplug_Live\<close>:
    termination, and the queue in the life of the daemon. \<open>Hal_Reprobe_Props\<close>: the order of the events of a reprobe.
  \<^item> \<open>Hal_Uevent\<close>, \<open>Hal_Uevent_Props\<close>: messages of udev, its database, the scan of sysfs; buffers, the
    event a message describes, order of the events at start.
  \<^item> \<open>Hal_DBus\<close>: messages, the state of the daemon on the bus, errors, signals and their batching.
    \<open>Hal_DBus_Methods\<close>, \<open>Hal_DBus_Addons\<close>: the handlers of the methods; addons, new and removed devices.
    \<open>Hal_DBus_Exec\<close>: methods that run programs. \<open>Hal_DBus_Introspect\<close>: the text of \<open>Introspect\<close>.
    \<open>Hal_DBus_Filter\<close>: dispatch, sessions, messages of helpers. \<open>Hal_DBus_Laws\<close>: what a device operation
    does to the daemon, for the contracts of device operations. \<open>Hal_DBus_Props\<close>: privileges, reading
    back a property, batched signals. \<open>Hal_DBus_Exec_Props\<close>: the queue of running methods, addons, callouts.
  \<^item> \<open>Hal_Part\<close>: partition tables: the parsers for MS-DOS, GPT and Apple over the bytes of a disk, the inspection
    of entries, the search for an offset. \<open>Hal_Part_Edit\<close>: adding, changing and deleting partitions over a
    record of the calls of libparted. \<open>Hal_Part_Laws\<close>: the shape of loaded tables, the search, the chain of
    extended boot records. \<open>Hal_Part_Guid\<close>: numbers and GUIDs as bytes and as text. \<open>Hal_Part_Props\<close>: loading,
    inspection, search, GUIDs. \<open>Hal_Part_Edit_Props\<close>: what reaches the disk, the size of a changed partition.
  \<^item> \<open>Hal_Ids\<close>: identifier files and the searches in them. \<open>Hal_Ids_Props\<close>: the binary search in the table of
    Plug and Play identifiers. \<open>Hal_Ids_Lines\<close>: a database and its printed form; the searches agree with lookups.
  \<^item> \<open>Hal_Runner\<close>: requests of the daemon to the runner, environments of programs, outstanding calls, callbacks.
    \<open>Hal_Runner_Props\<close>: references to devices, answers, devices that are gone. \<open>Hal_Helper\<close>: the runner process, its table
    of runs, exits, timeouts and kills. \<open>Hal_Helper_Props\<close>: one answer per call, use of memory, and programs
    from the request of the daemon to the report of their end.

  \<^bold>\<open>What is shown.\<close> The chain from documents to devices is closed: directories of XML documents
  are compiled to bytes, mapped, and walked, and a search for a device has the outcome of running the
  documents by recursion over their structure, on devices whose tables and indexes stay consistent. For
  the other components: an invariant that every operation keeps, the outcome of each operation on its
  branches, refinement of an abstract specification where there is one (locks, lookups, access rules),
  bounds and absence of overflow, and where the code fails, the failing case as a theorem.

  \<^bold>\<open>Fuel and bounds.\<close> The walk over the rules recurses through spawned devices and has fuel; on every cache
  with forward jumps whose spawn rules name devices with the prefix of the daemon's identifiers, and with
  a runner that takes every callout program, a bound that only depends on the cache is enough, and more
  fuel does not change the outcome; without one of the last two conditions the C code recurses without end. The queue of methods of a device and callouts recurse through callbacks and have
  fuel. So have the chain of extended boot records, for which the number of bytes of the disk is enough when it
  leads upwards and nothing is when it has a cycle, and the loop that enlarges a changed partition. Loops over lists that the C code frees while it reads them have fuel for the same reason.
  The documents of a cache may take up to two gigabytes, since the compiler keeps offsets in 32 bits and
  takes larger sizes for errors.

  \<^bold>\<open>Not modelled.\<close> Connecting to the message bus and reference counts of messages, the start of the runner of helper
  programs and of the programs themselves, the detection of devices by the back ends
  (\<open>hald/linux/device.c\<close> and others, \<open>hald/freebsd\<close>, \<open>hald/solaris\<close>), the client
  libraries, and the small programs of the distribution; of the modelled files: logging,
  GObject class registration and plain field getters.
\<close>

end
